(* ===== verification/Prelude.thy ===== *)
theory Prelude
  imports Main "HOL-Library.Word" "HOL-Library.Sublist"
begin

text \<open>
  Shared vocabulary of the development: fallible code returns a value of the sum type
  \<open>'e + 'a\<close> (\<open>Inl\<close> is Rust's \<open>Err\<close>, \<open>Inr\<close> is \<open>Ok\<close>), \<open>rbind\<close> is the \<open>?\<close> operator,
  \<open>ensure\<close> is a guarded \<open>bail!\<close>, \<open>each\<close> and \<open>foldr_ok\<close> are the \<open>for\<close> loops
  that stop at the first error. Machine integers keep their width as words.
  The collections \<open>ok_simps\<close> (what an \<open>Ok\<close> result says of the parts of a
  computation) and \<open>err_simps\<close> (the same for \<open>Err\<close>) carry the component proofs.
\<close>

named_theorems ok_simps "inversion of successful fallible computations"
named_theorems err_simps "inversion of failed fallible computations"

type_synonym u8 = "8 word"
type_synonym u32 = "32 word"
type_synonym u64 = "64 word"

section \<open>Fallible computations\<close>

definition rbind :: "'e + 'a \<Rightarrow> ('a \<Rightarrow> 'e + 'b) \<Rightarrow> 'e + 'b" where
  "rbind m k = (case m of Inl e \<Rightarrow> Inl e | Inr a \<Rightarrow> k a)"

definition ensure :: "bool \<Rightarrow> 'e \<Rightarrow> 'e + unit" where
  "ensure b e = (if b then Inr () else Inl e)"

fun each :: "('a \<Rightarrow> 'e + unit) \<Rightarrow> 'a list \<Rightarrow> 'e + unit" where
  "each f [] = Inr ()"
| "each f (x # xs) = rbind (f x) (\<lambda>_. each f xs)"

fun foldr_ok :: "('a \<Rightarrow> 's \<Rightarrow> 'e + 's) \<Rightarrow> 'a list \<Rightarrow> 's \<Rightarrow> 'e + 's" where
  "foldr_ok f [] s = Inr s"
| "foldr_ok f (x # xs) s = rbind (f x s) (foldr_ok f xs)"

fun map_ok :: "('a \<Rightarrow> 'e + 'b) \<Rightarrow> 'a list \<Rightarrow> 'e + 'b list" where
  "map_ok f [] = Inr []"
| "map_ok f (x # xs) = rbind (f x) (\<lambda>y. rbind (map_ok f xs) (\<lambda>ys. Inr (y # ys)))"

lemma rbind_simps [simp]:
  "rbind (Inl e) k = Inl e" "rbind (Inr a) k = k a"
  by (simp_all add: rbind_def)

lemma rbind_cong [fundef_cong]:
  "m = m' \<Longrightarrow> (\<And>a. m' = Inr a \<Longrightarrow> k a = k' a) \<Longrightarrow> rbind m k = rbind m' k'"
  by (cases m') auto

lemma rbind_ok [ok_simps]:
  "rbind m k = Inr b \<longleftrightarrow> (\<exists>a. m = Inr a \<and> k a = Inr b)"
  by (cases m) auto

lemma rbind_err [err_simps]:
  "rbind m k = Inl e \<longleftrightarrow> m = Inl e \<or> (\<exists>a. m = Inr a \<and> k a = Inl e)"
  by (cases m) auto

lemma ensure_ok [ok_simps]: "ensure b e = Inr u \<longleftrightarrow> b"
  by (simp add: ensure_def)

lemma ensure_err [err_simps]: "ensure b e = Inl e' \<longleftrightarrow> \<not> b \<and> e' = e"
  by (auto simp: ensure_def)

lemma each_ok [ok_simps]: "each f xs = Inr u \<longleftrightarrow> (\<forall>x\<in>set xs. f x = Inr ())"
  by (induction xs) (auto simp: ok_simps)

lemma map_ok_ok [ok_simps]: "map_ok f xs = Inr ys \<longleftrightarrow> list_all2 (\<lambda>x y. f x = Inr y) xs ys"
  by (induction xs arbitrary: ys) (auto simp: ok_simps list_all2_Cons1)

lemma each_err_ex: "each f xs = Inl e \<Longrightarrow> \<exists>x\<in>set xs. f x = Inl e"
  by (induction xs) (auto simp: err_simps)

lemma ok_or_err: "(\<exists>e. m = Inl e) \<or> (\<exists>a. m = Inr a)"
  by (cases m) auto

lemma foldr_ok_append:
  "foldr_ok f (xs @ ys) s = rbind (foldr_ok f xs s) (foldr_ok f ys)"
  by (induction xs arbitrary: s) (auto simp: rbind_def split: sum.splits)

text \<open>
  An invariant of the loop state that every successful iteration keeps holds at the
  end; and when every iteration from an invariant state avoids an error, so does the loop.
\<close>

lemma foldr_ok_invariant:
  assumes "foldr_ok f xs s = Inr s'" and "P s"
    and "\<And>x s s'. x \<in> set xs \<Longrightarrow> P s \<Longrightarrow> f x s = Inr s' \<Longrightarrow> P s'"
  shows "P s'"
  using assms
proof (induction xs arbitrary: s)
  case Nil
  then show ?case by simp
next
  case (Cons x xs)
  from Cons.prems(1) obtain t where t: "f x s = Inr t" "foldr_ok f xs t = Inr s'"
    by (auto simp: ok_simps)
  have "P t" using Cons.prems(2,3) t(1) by auto
  with t(2) show ?case using Cons.IH Cons.prems(3) by auto
qed

lemma foldr_ok_no_err:
  assumes "P s" and "foldr_ok f xs s = Inl e"
    and "\<And>x s s'. x \<in> set xs \<Longrightarrow> P s \<Longrightarrow> f x s = Inr s' \<Longrightarrow> P s'"
  shows "\<exists>x\<in>set xs. \<exists>t. P t \<and> f x t = Inl e"
  using assms
proof (induction xs arbitrary: s)
  case Nil
  then show ?case by simp
next
  case (Cons x xs)
  show ?case
  proof (cases "f x s")
    case (Inl e')
    with Cons.prems show ?thesis by auto
  next
    case (Inr t)
    have "P t" using Cons.prems(1,3) Inr by auto
    moreover have "foldr_ok f xs t = Inl e" using Cons.prems(2) Inr by simp
    ultimately show ?thesis using Cons.IH Cons.prems(3) by (metis list.set_intros(2))
  qed
qed

section \<open>Lists\<close>

text \<open>The last index satisfying a predicate: \<open>iter().rposition(p)\<close>.\<close>

fun rposition :: "('a \<Rightarrow> bool) \<Rightarrow> 'a list \<Rightarrow> nat option" where
  "rposition p [] = None"
| "rposition p (x # xs) =
     (case rposition p xs of Some i \<Rightarrow> Some (Suc i) | None \<Rightarrow> if p x then Some 0 else None)"

text \<open>The first index satisfying a predicate: \<open>iter().position(p)\<close>.\<close>

fun position :: "('a \<Rightarrow> bool) \<Rightarrow> 'a list \<Rightarrow> nat option" where
  "position p [] = None"
| "position p (x # xs) = (if p x then Some 0 else map_option Suc (position p xs))"

lemma position_None: "position p xs = None \<longleftrightarrow> (\<forall>x\<in>set xs. \<not> p x)"
  by (induction xs) auto

lemma position_Some:
  "position p xs = Some i \<Longrightarrow> i < length xs \<and> p (xs ! i) \<and> (\<forall>j<i. \<not> p (xs ! j))"
proof (induction xs arbitrary: i)
  case Nil
  then show ?case by simp
next
  case (Cons x xs)
  then show ?case by (auto simp: less_Suc_eq_0_disj split: if_splits)
qed

lemma rposition_None: "rposition p xs = None \<longleftrightarrow> (\<forall>x\<in>set xs. \<not> p x)"
  by (induction xs) (auto split: option.splits)

lemma rposition_Some:
  "rposition p xs = Some i \<Longrightarrow>
     i < length xs \<and> p (xs ! i) \<and> (\<forall>j. i < j \<and> j < length xs \<longrightarrow> \<not> p (xs ! j))"
proof (induction xs arbitrary: i)
  case Nil
  then show ?case by simp
next
  case (Cons x xs)
  show ?case
  proof (cases "rposition p xs")
    case None
    with Cons.prems show ?thesis
      by (auto simp: rposition_None nth_Cons' split: if_splits)
  next
    case (Some k)
    with Cons.prems have "i = Suc k" by simp
    moreover have "\<not> p ((x # xs) ! j)" if "i < j" "j < length (x # xs)" for j
      using Cons.IH [OF Some] that \<open>i = Suc k\<close> by (cases j) auto
    ultimately show ?thesis using Cons.IH [OF Some] by auto
  qed
qed

lemma in_concat_enumerate:
  "x \<in> set (concat (map f (enumerate 0 xs))) \<longleftrightarrow> (\<exists>i<length xs. x \<in> set (f (i, xs ! i)))"
  by (force simp: in_set_enumerate_eq)

text \<open>Counting the elements with a property when one of them is replaced, and when one is inserted.\<close>

lemma count_update:
  "i < length xs \<Longrightarrow> length (filter Q (xs[i := x])) + (if Q (xs ! i) then 1 else 0) =
     length (filter Q xs) + (if Q x then 1 else 0)"
proof (induction xs arbitrary: i)
  case Nil
  then show ?case by simp
next
  case (Cons y xs)
  then show ?case by (cases i) (auto split: if_splits)
qed

definition insert_at :: "nat \<Rightarrow> 'a \<Rightarrow> 'a list \<Rightarrow> 'a list" where
  "insert_at i x xs = take i xs @ x # drop i xs"

lemma count_insert: "length (filter Q (insert_at i x xs)) = length (filter Q xs) + (if Q x then 1 else 0)"
  using arg_cong [OF append_take_drop_id [of i xs], of "\<lambda>l. length (filter Q l)"]
  by (simp add: insert_at_def del: append_take_drop_id)

lemma nth_insert_at:
  "i \<le> length xs \<Longrightarrow> insert_at i x xs ! j = (if j < i then xs ! j else if j = i then x else xs ! (j - 1))"
  by (auto simp: insert_at_def nth_append nth_Cons' min_def)

lemma length_insert_at [simp]: "length (insert_at i x xs) = Suc (length xs)"
  by (auto simp: insert_at_def)

lemma filter_enumerate_length:
  "length (filter (\<lambda>i. P (xs ! i)) [0..<length xs]) = length (filter P xs)"
  by (metis (no_types, lifting) filter_cong length_filter_map length_map map_nth o_apply)

text \<open>Remove the element at an index: \<open>Vec::remove(i)\<close> for an index in range.\<close>

definition remove_at :: "nat \<Rightarrow> 'a list \<Rightarrow> 'a list" where
  "remove_at i xs = take i xs @ drop (Suc i) xs"

lemma length_remove_at: "i < length xs \<Longrightarrow> length (remove_at i xs) = length xs - 1"
  by (auto simp: remove_at_def min_def)

lemma set_remove_at_subset: "set (remove_at i xs) \<subseteq> set xs"
  by (auto simp: remove_at_def dest: in_set_takeD in_set_dropD)

lemma remove_at_simps [simp]:
  "remove_at i [] = []" "remove_at 0 (x # xs) = xs"
  "remove_at (Suc i) (x # xs) = x # remove_at i xs"
  by (simp_all add: remove_at_def)

lemma sorted_remove_at: "sorted (map f xs) \<Longrightarrow> sorted (map f (remove_at i xs))"
proof (induction xs arbitrary: i)
  case Nil
  then show ?case by simp
next
  case (Cons x xs)
  then show ?case using set_remove_at_subset by (cases i) fastforce+
qed

section \<open>Saturating arithmetic\<close>

definition saturating_sub :: "'w::len word \<Rightarrow> 'w word \<Rightarrow> 'w word" where
  "saturating_sub a b = (if a < b then 0 else a - b)"

lemma unat_saturating_sub: "unat (saturating_sub a b) = unat a - unat b"
  by (simp add: saturating_sub_def word_less_nat_alt unat_sub_if')

definition saturating_succ :: "'w::len word \<Rightarrow> 'w word" where
  "saturating_succ n = (if n = - 1 then n else n + 1)"

lemma unat_saturating_succ: "n \<noteq> - 1 \<Longrightarrow> unat (saturating_succ n) = Suc (unat n)"
proof -
  assume n: "n \<noteq> - 1"
  then have "1 + n \<noteq> 0" by (metis add.commute eq_neg_iff_add_eq_0)
  then show ?thesis using unatSuc[of n] n by (simp add: saturating_succ_def add.commute)
qed

lemma saturating_succ_ge: "m \<le> n \<Longrightarrow> m \<le> saturating_succ n"
  using unat_saturating_succ[of n] by (cases "n = - 1") (auto simp: saturating_succ_def word_le_nat_alt)

lemma saturating_succ_pos: "saturating_succ n \<noteq> 0"
  by (auto simp: saturating_succ_def eq_neg_iff_add_eq_0)

section \<open>Machine sizes\<close>

text \<open>\<open>usize\<close> is 64 bits wide; lengths in memory never reach its end, a configured limit may.\<close>

definition usize_max :: nat where
  "usize_max = 2 ^ 64 - 1"

end
