(* ===== verification/RustStr.thy ===== *)
theory RustStr
  imports Prelude "HOL-Library.Sublist"
begin

text \<open>
  Rust strings. A \<open>String\<close> is its UTF-8 byte sequence, so it is a HOL \<open>string\<close> whose
  characters are bytes: \<open>length\<close> is \<open>str::len\<close>, and literals of the source's ASCII text
  read as they are. \<open>trim\<close> removes the encodings of the Unicode \<open>White_Space\<close> code
  points from both ends, as \<open>str::trim\<close> does.
\<close>

definition bytes :: "nat list \<Rightarrow> string" where
  "bytes ns = map char_of ns"

text \<open>The UTF-8 encodings of the code points with the \<open>White_Space\<close> property.\<close>

definition white_space :: "string list" where
  "white_space = map bytes
     ([[32], [9], [10], [11], [12], [13], [0xC2, 0x85], [0xC2, 0xA0], [0xE1, 0x9A, 0x80]]
      @ map (\<lambda>b. [0xE2, 0x80, b]) [0x80, 0x81, 0x82, 0x83, 0x84, 0x85, 0x86, 0x87, 0x88, 0x89, 0x8A]
      @ [[0xE2, 0x80, 0xA8], [0xE2, 0x80, 0xA9], [0xE2, 0x80, 0xAF], [0xE2, 0x81, 0x9F],
         [0xE3, 0x80, 0x80]])"

lemma white_space_literals [code]:
  "white_space = [
     [CHR 0x20], [CHR 0x09], [CHR 0x0A],
     [CHR 0x0B], [CHR 0x0C], [CHR 0x0D],
     [CHR 0xC2, CHR 0x85], [CHR 0xC2, CHR 0xA0], [CHR 0xE1, CHR 0x9A, CHR 0x80],
     [CHR 0xE2, CHR 0x80, CHR 0x80], [CHR 0xE2, CHR 0x80, CHR 0x81], [CHR 0xE2, CHR 0x80, CHR 0x82],
     [CHR 0xE2, CHR 0x80, CHR 0x83], [CHR 0xE2, CHR 0x80, CHR 0x84], [CHR 0xE2, CHR 0x80, CHR 0x85],
     [CHR 0xE2, CHR 0x80, CHR 0x86], [CHR 0xE2, CHR 0x80, CHR 0x87], [CHR 0xE2, CHR 0x80, CHR 0x88],
     [CHR 0xE2, CHR 0x80, CHR 0x89], [CHR 0xE2, CHR 0x80, CHR 0x8A], [CHR 0xE2, CHR 0x80, CHR 0xA8],
     [CHR 0xE2, CHR 0x80, CHR 0xA9], [CHR 0xE2, CHR 0x80, CHR 0xAF], [CHR 0xE2, CHR 0x81, CHR 0x9F],
     [CHR 0xE3, CHR 0x80, CHR 0x80]]"
  by code_simp

function strip_front :: "string list \<Rightarrow> string \<Rightarrow> string" where
  "strip_front ws s =
     (case find (\<lambda>w. w \<noteq> [] \<and> prefix w s) ws of
        None \<Rightarrow> s
      | Some w \<Rightarrow> strip_front ws (drop (length w) s))"
  by pat_completeness auto
termination
proof (relation "measure (\<lambda>(ws, s). length s)", goal_cases)
  case 1
  then show ?case by simp
next
  case (2 ws s w)
  then have "w \<noteq> [] \<and> prefix w s" by (auto simp: find_Some_iff)
  then show ?case by (cases w; cases s) (auto simp: prefix_def)
qed

declare strip_front.simps [simp del]

definition trim_start :: "string \<Rightarrow> string" where
  "trim_start s = strip_front white_space s"

definition trim_end :: "string \<Rightarrow> string" where
  "trim_end s = rev (strip_front (map rev white_space) (rev s))"

definition trim :: "string \<Rightarrow> string" where
  "trim s = trim_end (trim_start s)"

definition is_blank :: "string \<Rightarrow> bool" where
  "is_blank s \<longleftrightarrow> trim s = []"

lemma strip_front_suffix: "suffix (strip_front ws s) s"
proof (induction ws s rule: strip_front.induct)
  case (1 ws s)
  show ?case
  proof (cases "find (\<lambda>w. w \<noteq> [] \<and> prefix w s) ws")
    case None
    then show ?thesis by (simp add: strip_front.simps [of ws s])
  next
    case (Some w)
    with "1.IH" have "suffix (strip_front ws (drop (length w) s)) (drop (length w) s)" by simp
    also have "suffix (drop (length w) s) s" by (rule suffix_drop)
    finally show ?thesis using Some by (simp add: strip_front.simps [of ws s])
  qed
qed

lemma strip_front_stuck: "\<forall>w\<in>set ws. w \<noteq> [] \<longrightarrow> \<not> prefix w s \<Longrightarrow> strip_front ws s = s"
proof -
  assume "\<forall>w\<in>set ws. w \<noteq> [] \<longrightarrow> \<not> prefix w s"
  then have "find (\<lambda>w. w \<noteq> [] \<and> prefix w s) ws = None" by (auto simp: find_None_iff)
  then show ?thesis by (simp add: strip_front.simps [of ws s])
qed

lemma strip_front_no_prefix: "w \<in> set ws \<Longrightarrow> w \<noteq> [] \<Longrightarrow> \<not> prefix w (strip_front ws s)"
proof (induction ws s rule: strip_front.induct)
  case (1 ws s)
  show ?case
  proof (cases "find (\<lambda>w. w \<noteq> [] \<and> prefix w s) ws")
    case None
    then have "strip_front ws s = s" by (simp add: strip_front.simps [of ws s])
    moreover have "\<not> prefix w s" using None "1.prems" by (auto simp: find_None_iff)
    ultimately show ?thesis by simp
  next
    case (Some v)
    then show ?thesis using 1 by (simp add: strip_front.simps [of ws s])
  qed
qed

lemma trim_end_prefix: "prefix (trim_end s) s"
  using strip_front_suffix [of "map rev white_space" "rev s"]
  by (simp add: trim_end_def suffix_to_prefix)

lemma trim_start_trimmed: "trim_start (trim s) = trim s"
proof -
  have "\<not> prefix w (trim s)" if "w \<in> set white_space" "w \<noteq> []" for w
  proof
    assume "prefix w (trim s)"
    also have "prefix (trim s) (trim_start s)" by (simp add: trim_def trim_end_prefix)
    finally show False using strip_front_no_prefix [OF that] by (simp add: trim_start_def)
  qed
  then show ?thesis unfolding trim_start_def by (intro strip_front_stuck) auto
qed

lemma trim_end_trim_end: "trim_end (trim_end s) = trim_end s"
proof -
  let ?ws = "map rev white_space"
  have "strip_front ?ws (strip_front ?ws (rev s)) = strip_front ?ws (rev s)"
    using strip_front_no_prefix by (intro strip_front_stuck) blast
  then show ?thesis by (simp add: trim_end_def)
qed

lemma trim_trim [simp]: "trim (trim s) = trim s"
  unfolding trim_def [of "trim s"] by (simp add: trim_start_trimmed) (simp add: trim_def trim_end_trim_end)

lemma trim_Nil [simp]: "trim [] = []"
  using trim_end_prefix [of "trim_start []"] strip_front_suffix [of white_space "[]"]
  by (simp add: trim_def trim_start_def)

lemma is_blank_trim [simp]: "is_blank (trim s) \<longleftrightarrow> is_blank s"
  by (simp add: is_blank_def)

section \<open>Searching, joining, numbers\<close>

definition newline :: string where
  "newline = bytes [10]"

lemma newline_literal [code]: "newline = [CHR 0x0A]"
  by code_simp

text \<open>The em dash \<open>U+2014\<close>.\<close>

definition long_dash :: string where
  "long_dash = bytes [0xE2, 0x80, 0x94]"

definition ellipsis :: string where
  "ellipsis = bytes [0xE2, 0x80, 0xA6]"

definition str_contains :: "string \<Rightarrow> string \<Rightarrow> bool" where
  "str_contains hay needle \<longleftrightarrow> sublist needle hay"

definition starts_with :: "string \<Rightarrow> string \<Rightarrow> bool" where
  "starts_with s p \<longleftrightarrow> prefix p s"

fun join :: "string \<Rightarrow> string list \<Rightarrow> string" where
  "join sep [] = []"
| "join sep [x] = x"
| "join sep (x # y # xs) = x @ sep @ join sep (y # xs)"

definition digit_char :: "nat \<Rightarrow> char" where
  "digit_char d = char_of (48 + d)"

definition is_digit :: "char \<Rightarrow> bool" where
  "is_digit c \<longleftrightarrow> 48 \<le> (of_char c :: nat) \<and> (of_char c :: nat) \<le> 57"

definition digit_val :: "char \<Rightarrow> nat" where
  "digit_val c = of_char c - 48"

text \<open>Decimal rendering, as \<open>format!("{}", n)\<close> prints an unsigned integer.\<close>

fun show_nat :: "nat \<Rightarrow> string" where
  "show_nat n = (if n < 10 then [digit_char n] else show_nat (n div 10) @ [digit_char (n mod 10)])"

declare show_nat.simps [simp del]

text \<open>The value of a digit string, unbounded.\<close>

definition digits_val :: "string \<Rightarrow> nat" where
  "digits_val s = foldl (\<lambda>n c. 10 * n + digit_val c) 0 s"

lemma of_char_digit: "d < 10 \<Longrightarrow> (of_char (digit_char d) :: nat) = 48 + d"
  by (simp add: digit_char_def of_char_of)

lemma digit_char_simps [simp]: "d < 10 \<Longrightarrow> is_digit (digit_char d)" "d < 10 \<Longrightarrow> digit_val (digit_char d) = d"
  by (simp_all add: is_digit_def digit_val_def of_char_digit)

lemma show_nat_digits: "c \<in> set (show_nat n) \<Longrightarrow> is_digit c"
proof (induction n rule: show_nat.induct)
  case (1 n)
  then show ?case by (subst (asm) show_nat.simps) (auto split: if_splits)
qed

lemma show_nat_nonempty [simp]: "show_nat n \<noteq> []"
  by (subst show_nat.simps) simp

lemma digits_val_show [simp]: "digits_val (show_nat n) = n"
proof (induction n rule: show_nat.induct)
  case (1 n)
  show ?case
  proof (cases "n < 10")
    case True
    then show ?thesis by (subst show_nat.simps) (simp add: digits_val_def)
  next
    case False
    with 1 have "digits_val (show_nat (n div 10)) = n div 10" by simp
    with False show ?thesis by (subst show_nat.simps) (simp add: digits_val_def)
  qed
qed

lemma show_nat_inject [simp]: "show_nat m = show_nat n \<longleftrightarrow> m = n"
  by (metis digits_val_show)

text \<open>ASCII case folding, all that the time grammar below depends on.\<close>

definition lower_char :: "char \<Rightarrow> char" where
  "lower_char c = (let n = of_char c :: nat in if 65 \<le> n \<and> n \<le> 90 then char_of (n + 32) else c)"

definition to_lower :: "string \<Rightarrow> string" where
  "to_lower s = map lower_char s"

text \<open>The order of strings is that of their bytes.\<close>

fun byte_less :: "string \<Rightarrow> string \<Rightarrow> bool" where
  "byte_less [] t = (t \<noteq> [])"
| "byte_less (c # s) [] = False"
| "byte_less (c # s) (d # t) = ((of_char c :: nat) < of_char d \<or> (c = d \<and> byte_less s t))"

section \<open>More of the string API\<close>

text \<open>\<open>str::find\<close>: the first byte index at which the needle occurs.\<close>

fun find_str :: "string \<Rightarrow> string \<Rightarrow> nat option" where
  "find_str needle [] = (if needle = [] then Some 0 else None)"
| "find_str needle (c # cs) =
     (if prefix needle (c # cs) then Some 0 else map_option Suc (find_str needle cs))"

lemma find_str_Some: "find_str needle s = Some i \<Longrightarrow> prefix needle (drop i s) \<and> i \<le> length s"
  by (induction s arbitrary: i) (auto split: if_splits)

lemma find_str_None: "find_str needle s = None \<longleftrightarrow> \<not> sublist needle s"
  by (induction s) (auto simp: sublist_Cons_right)

text \<open>
  A needle whose first character does not recur in it is found right after a text that does not
  contain it.
\<close>

lemma find_str_after:
  assumes "c \<notin> set ns" and "\<not> sublist (c # ns) a"
  shows "find_str (c # ns) (a @ (c # ns) @ b) = Some (length a)"
  using assms(2)
proof (induction a)
  case Nil
  then show ?case by simp
next
  case (Cons x a)
  have "\<not> prefix (c # ns) ((x # a) @ (c # ns) @ b)"
  proof
    assume p: "prefix (c # ns) ((x # a) @ (c # ns) @ b)"
    then have ns: "prefix ns (a @ (c # ns) @ b)" and "x = c" by auto
    have "\<not> prefix ns a" using Cons.prems \<open>x = c\<close> by (auto simp: sublist_Cons_right)
    with ns have "\<exists>us. ns = a @ us \<and> prefix us ((c # ns) @ b)" by (auto simp: prefix_append)
    then obtain us where "ns = a @ us" "prefix us (c # ns @ b)" by auto
    with assms(1) have "us = []" by (cases us) auto
    with \<open>ns = a @ us\<close> \<open>\<not> prefix ns a\<close> show False by simp
  qed
  with Cons show ?case by (simp add: sublist_Cons_right)
qed

text \<open>\<open>str::replace\<close> of one character by a string.\<close>

definition replace_char :: "char \<Rightarrow> string \<Rightarrow> string \<Rightarrow> string" where
  "replace_char c r s = concat (map (\<lambda>x. if x = c then r else [x]) s)"

text \<open>\<open>split_once\<close> at a character.\<close>

definition split_once :: "char \<Rightarrow> string \<Rightarrow> (string \<times> string) option" where
  "split_once c s = map_option (\<lambda>i. (take i s, drop (Suc i) s)) (position (\<lambda>x. x = c) s)"

text \<open>\<open>str::lines\<close>: cut at newlines, a carriage return before one goes with it.\<close>

definition strip_cr :: "string \<Rightarrow> string" where
  "strip_cr l = (if l \<noteq> [] \<and> last l = CHR 0x0D then butlast l else l)"

fun lines_from :: "string \<Rightarrow> string \<Rightarrow> string list" where
  "lines_from cur [] = (if cur = [] then [] else [rev cur])"
| "lines_from cur (c # cs) =
     (if c = CHR 0x0A then strip_cr (rev cur) # lines_from [] cs else lines_from (c # cur) cs)"

definition str_lines :: "string \<Rightarrow> string list" where
  "str_lines s = lines_from [] s"

text \<open>\<open>split_whitespace\<close>, and \<open>chars().take(n)\<close> on UTF-8 bytes.\<close>

fun break_space :: "string \<Rightarrow> string \<times> string" where
  "break_space [] = ([], [])"
| "break_space (c # cs) =
     (if \<exists>w\<in>set white_space. prefix w (c # cs) then ([], c # cs)
      else let (a, b) = break_space cs in (c # a, b))"

lemma break_space_append: "break_space s = (a, b) \<Longrightarrow> s = a @ b"
  by (induction s arbitrary: a b) (auto split: if_splits prod.splits)

lemma trim_start_length: "length (trim_start s) \<le> length s"
  using strip_front_suffix [of white_space s] by (simp add: trim_start_def suffix_length_le)

lemma white_space_nonempty: "w \<in> set white_space \<Longrightarrow> w \<noteq> []"
  by (auto simp: white_space_literals)

lemma trim_start_word:
  assumes "trim_start s = c # cs"
  shows "\<not> (\<exists>w\<in>set white_space. prefix w (c # cs))"
proof
  assume "\<exists>w\<in>set white_space. prefix w (c # cs)"
  then obtain w where "w \<in> set white_space" "prefix w (trim_start s)" using assms by auto
  then show False
    using strip_front_no_prefix [of w white_space s] white_space_nonempty by (auto simp: trim_start_def)
qed

function split_whitespace :: "string \<Rightarrow> string list" where
  "split_whitespace s =
     (case trim_start s of
        [] \<Rightarrow> []
      | c # cs \<Rightarrow> let (w, rest) = break_space (c # cs) in w # split_whitespace rest)"
  by pat_completeness auto
termination
proof (relation "measure length", goal_cases)
  case 1
  then show ?case by simp
next
  case (2 s c cs r w rest)
  have "\<not> (\<exists>w\<in>set white_space. prefix w (c # cs))" using trim_start_word 2(1) .
  then obtain w' where "w = c # w'" "break_space cs = (w', rest)"
    using 2(2,3) by (auto simp: Let_def split: prod.splits)
  then have "length rest \<le> length cs" using break_space_append by fastforce
  moreover have "length (c # cs) \<le> length s" using trim_start_length [of s] 2(1) by simp
  ultimately show ?case by simp
qed

declare split_whitespace.simps [simp del]

definition is_continuation :: "char \<Rightarrow> bool" where
  "is_continuation c \<longleftrightarrow> 0x80 \<le> (of_char c :: nat) \<and> (of_char c :: nat) < 0xC0"

fun take_chars :: "nat \<Rightarrow> string \<Rightarrow> string" where
  "take_chars n [] = []"
| "take_chars n (c # cs) =
     (if is_continuation c then c # take_chars n cs
      else case n of 0 \<Rightarrow> [] | Suc m \<Rightarrow> c # take_chars m cs)"

definition count_chars :: "string \<Rightarrow> nat" where
  "count_chars s = length (filter (\<lambda>c. \<not> is_continuation c) s)"

lemma count_take_chars: "count_chars (take_chars n s) \<le> n"
  by (induction n s rule: take_chars.induct) (auto simp: count_chars_def split: nat.splits)

text \<open>
  \<open>is_char_boundary\<close>, and the loop that walks an index down to one:
  \<open>while end > 0 && !s.is_char_boundary(end) { end -= 1 }\<close>.
\<close>

definition is_char_boundary :: "string \<Rightarrow> nat \<Rightarrow> bool" where
  "is_char_boundary s i \<longleftrightarrow> i = 0 \<or> i = length s \<or> (i < length s \<and> \<not> is_continuation (s ! i))"

fun floor_boundary :: "string \<Rightarrow> nat \<Rightarrow> nat" where
  "floor_boundary s 0 = 0"
| "floor_boundary s (Suc n) = (if is_char_boundary s (Suc n) then Suc n else floor_boundary s n)"

lemma floor_boundary_le: "floor_boundary s n \<le> n"
  by (induction n) auto

lemma floor_boundary_is: "is_char_boundary s (floor_boundary s n)"
  by (induction n) (auto simp: is_char_boundary_def)

definition ends_with :: "string \<Rightarrow> string \<Rightarrow> bool" where
  "ends_with s p \<longleftrightarrow> suffix p s"

text \<open>Text that begins and ends with a visible ASCII character is trimmed already.\<close>

definition visible :: "char \<Rightarrow> bool" where
  "visible c \<longleftrightarrow> 33 \<le> (of_char c :: nat) \<and> (of_char c :: nat) \<le> 126"

lemma white_space_invisible: "w \<in> set white_space \<Longrightarrow> w \<noteq> [] \<and> \<not> visible (hd w) \<and> \<not> visible (last w)"
  unfolding white_space_literals by (auto simp: visible_def)

lemma trim_printable:
  assumes "s \<noteq> []" and "visible (hd s)" and "visible (last s)"
  shows "trim s = s"
proof -
  have "\<not> prefix w s" if w: "w \<in> set white_space" for w
  proof
    assume "prefix w s"
    then have "hd w = hd s" using white_space_invisible[OF w] by (auto simp: prefix_def)
    with white_space_invisible[OF w] assms(2) show False by simp
  qed
  then have "trim_start s = s" unfolding trim_start_def by (intro strip_front_stuck) blast
  moreover have "\<not> prefix (rev w) (rev s)" if w: "w \<in> set white_space" for w
  proof
    assume "prefix (rev w) (rev s)"
    then have "last w = last s" using white_space_invisible[OF w] by (auto simp: suffix_to_prefix[symmetric] suffix_def)
    with white_space_invisible[OF w] assms(3) show False by simp
  qed
  then have "trim_end s = s" unfolding trim_end_def by (subst strip_front_stuck) auto
  ultimately show ?thesis by (simp add: trim_def)
qed

end
