(* ===== verification/WfSchema.thy ===== *)
theory WfSchema
  imports RustStr
begin

text \<open>
  The workflow file schema (\<open>src/workflow/schema.rs\<close>). Structs are records with the
  source's fields, the step kinds a datatype with the source's constructors. \<open>f64\<close>
  costs are an abstract type \<open>'f\<close>; the operations the workflow code performs on them
  come with the environment, so nothing below depends on rounding. TOML decoding is a
  library's: \<open>deserialize_step\<close> takes it as a parameter and models the routing of a table
  to a step kind, which is this file's own code.
\<close>

definition END_NODE :: string where
  "END_NODE = ''$end''"

datatype session_mode = Fresh | Continue

record sequential =
  sq_name :: string
  sq_role :: string
  sq_prompt :: string
  sq_session :: session_mode
  sq_timeout :: u64
  sq_retries :: u32
  sq_model :: "string option"
  sq_workdir :: "string option"
  sq_count :: "u32 option"
  sq_skills :: "string list option"
  sq_capabilities :: "string list option"

definition replica_count :: "sequential \<Rightarrow> u32" where
  "replica_count s = (case sq_count s of Some c \<Rightarrow> c | None \<Rightarrow> 1)"

record condition =
  cond_output :: "string option"
  cond_contains :: "string option"
  cond_matches :: "string option"

record edge =
  edge_from :: string
  edge_to :: string
  edge_when :: "condition option"

record parallel_step =
  par_name :: string
  par_source :: "string option"
  par_match_pattern :: "string option"
  par_min_success :: "u32 option"
  par_max_parallel :: "u64 option"
  par_run :: "sequential list"

record loop_step =
  loop_name :: string
  loop_max_iterations :: u32
  loop_exit_when :: "condition option"
  loop_run :: "sequential list"

record conditional_step =
  cnd_name :: string
  cnd_condition :: condition
  cnd_on_match :: "string list"
  cnd_on_no_match :: "string list"
  cnd_run :: "sequential list"

datatype step =
    Sequential sequential
  | Parallel parallel_step
  | Loop loop_step
  | Conditional conditional_step

record 'f workflow_def =
  wf_name :: string
  wf_description :: "string option"
  wf_entry :: "string option"
  wf_max_transitions :: "u32 option"
  wf_max_cost :: "'f option"
  wf_steps :: "step list"
  wf_edges :: "edge list"

definition is_graph :: "'f workflow_def \<Rightarrow> bool" where
  "is_graph wd \<longleftrightarrow> wf_entry wd \<noteq> None \<or> wf_edges wd \<noteq> []"

fun step_name :: "step \<Rightarrow> string" where
  "step_name (Sequential s) = sq_name s"
| "step_name (Parallel p) = par_name p"
| "step_name (Loop l) = loop_name l"
| "step_name (Conditional c) = cnd_name c"

text \<open>
  The sub-steps of a block, as \<open>collect_names\<close> and \<open>workflow_output_names\<close> list them
  (a sequential step has none).
\<close>

fun sub_steps :: "step \<Rightarrow> sequential list" where
  "sub_steps (Sequential s) = []"
| "sub_steps (Parallel p) = par_run p"
| "sub_steps (Loop l) = loop_run l"
| "sub_steps (Conditional c) = cnd_run c"

text \<open>
  The \<open>f64\<close> operations the workflow code uses on costs, and the \<open>regex\<close> crate's: whether a
  pattern compiles, whether it matches a value, and capture group 1 of each of its matches.
\<close>

record 'f f64_ops =
  f_zero :: 'f
  f_add :: "'f \<Rightarrow> 'f \<Rightarrow> 'f"
  f_sub :: "'f \<Rightarrow> 'f \<Rightarrow> 'f"
  f_max :: "'f \<Rightarrow> 'f \<Rightarrow> 'f"
  f_le :: "'f \<Rightarrow> 'f \<Rightarrow> bool"
  f_lt :: "'f \<Rightarrow> 'f \<Rightarrow> bool"
  f_finite :: "'f \<Rightarrow> bool"

record regex_api =
  rx_ok :: "string \<Rightarrow> bool"
  rx_is_match :: "string \<Rightarrow> string \<Rightarrow> bool"
  rx_group1 :: "string \<Rightarrow> string \<Rightarrow> string option list"

section \<open>Step discrimination\<close>

text \<open>
  What the TOML library provides: reading a value as a boolean, and decoding the rest of
  a table as one of the four structs (\<open>Inl\<close> carries its message).
\<close>

record ('v, 'e) toml_api =
  toml_as_bool :: "'v \<Rightarrow> bool option"
  toml_sequential :: "(string \<rightharpoonup> 'v) \<Rightarrow> 'e + sequential"
  toml_parallel :: "(string \<rightharpoonup> 'v) \<Rightarrow> 'e + parallel_step"
  toml_loop :: "(string \<rightharpoonup> 'v) \<Rightarrow> 'e + loop_step"
  toml_conditional :: "(string \<rightharpoonup> 'v) \<Rightarrow> 'e + conditional_step"

datatype 'e de_error = TooManyFlags | DecodeError 'e

definition flag :: "('v, 'e) toml_api \<Rightarrow> (string \<rightharpoonup> 'v) \<Rightarrow> string \<Rightarrow> bool" where
  "flag api t k = (case t k of
      None \<Rightarrow> False
    | Some v \<Rightarrow> (case toml_as_bool api v of Some b \<Rightarrow> b | None \<Rightarrow> False))"

definition decoded :: "('a \<Rightarrow> step) \<Rightarrow> 'e + 'a \<Rightarrow> 'e de_error + step" where
  "decoded mk r = (case r of Inl e \<Rightarrow> Inl (DecodeError e) | Inr a \<Rightarrow> Inr (mk a))"

definition deserialize_step ::
  "('v, 'e) toml_api \<Rightarrow> (string \<rightharpoonup> 'v) \<Rightarrow> 'e de_error + step" where
  "deserialize_step api table =
     (let parallel = flag api table ''parallel'';
          loop = flag api table ''loop'';
          conditional = flag api table ''conditional'';
          rest = table(''parallel'' := None, ''loop'' := None, ''conditional'' := None);
          flags = length (filter id [parallel, loop, conditional])
      in if flags > 1 then Inl TooManyFlags
         else if parallel then decoded Parallel (toml_parallel api rest)
         else if loop then decoded Loop (toml_loop api rest)
         else if conditional then decoded Conditional (toml_conditional api rest)
         else decoded Sequential (toml_sequential api rest))"

lemma decoded_ok [ok_simps]: "decoded mk r = Inr s \<longleftrightarrow> (\<exists>a. r = Inr a \<and> s = mk a)"
  by (auto simp: decoded_def split: sum.splits)

end
