(* ===== verification/WfVars.thy ===== *)
theory WfVars
  imports RustStr
begin

text \<open>
  The \<open>{{var}}\<close> references of a workflow prompt: the scanner behind
  \<open>validate::var_regex\<close>, whose pattern is two opening braces, a letter or underscore,
  any letters, digits, underscores and dashes, and two closing braces. The pattern is fixed,
  so its leftmost, non-overlapping matching (\<open>captures_iter\<close>, \<open>replace_all\<close>) is
  written out: a prompt is cut into literal bytes and references.
\<close>

datatype seg = Lit char | Ref string

definition is_alpha :: "char \<Rightarrow> bool" where
  "is_alpha c = (let n = of_char c :: nat in (65 \<le> n \<and> n \<le> 90) \<or> (97 \<le> n \<and> n \<le> 122))"

definition var_start :: "char \<Rightarrow> bool" where
  "var_start c \<longleftrightarrow> is_alpha c \<or> c = CHR ''_''"

definition var_char :: "char \<Rightarrow> bool" where
  "var_char c \<longleftrightarrow> is_alpha c \<or> is_digit c \<or> c = CHR ''_'' \<or> c = CHR ''-''"

definition is_var :: "string \<Rightarrow> bool" where
  "is_var v \<longleftrightarrow> v \<noteq> [] \<and> var_start (hd v) \<and> (\<forall>c\<in>set v. var_char c)"

definition brace :: "string \<Rightarrow> string" where
  "brace v = ''{{'' @ v @ ''}}''"

definition match_var :: "string \<Rightarrow> (string \<times> string) option" where
  "match_var s =
     (if take 2 s = ''{{'' then
        (let body = drop 2 s; v = takeWhile var_char body; rest = dropWhile var_char body
         in if v \<noteq> [] \<and> var_start (hd v) \<and> take 2 rest = ''}}'' then Some (v, drop 2 rest) else None)
      else None)"

lemma brace_split: "take 2 s = [a, b] \<Longrightarrow> s = a # b # drop 2 s"
  by (cases s; cases "tl s") auto

lemma match_var_Some: "match_var s = Some (v, rest) \<Longrightarrow> s = brace v @ rest \<and> is_var v"
proof -
  assume m: "match_var s = Some (v, rest)"
  define tail where "tail = dropWhile var_char (drop 2 s)"
  from m have open2: "take 2 s = ''{{''" and v: "v = takeWhile var_char (drop 2 s)"
    and ok: "v \<noteq> []" "var_start (hd v)" and close2: "take 2 tail = ''}}''" and "rest = drop 2 tail"
    by (auto simp: match_var_def Let_def tail_def split: if_splits)
  have "s = ''{{'' @ drop 2 s" using brace_split [OF open2] by simp
  also have "drop 2 s = v @ tail" by (simp add: v tail_def)
  also have "tail = ''}}'' @ rest" using brace_split [OF close2] \<open>rest = drop 2 tail\<close> by simp
  finally show ?thesis using ok v by (auto simp: brace_def is_var_def dest: set_takeWhileD)
qed

function scan :: "string \<Rightarrow> seg list" where
  "scan [] = []"
| "scan (c # cs) = (case match_var (c # cs) of
      Some (v, rest) \<Rightarrow> Ref v # scan rest
    | None \<Rightarrow> Lit c # scan cs)"
  by pat_completeness auto
termination
  by (relation "measure length")
    (auto simp: brace_def dest!: match_var_Some arg_cong [where f = length])

declare scan.simps(2) [simp del]

text \<open>\<open>captures_iter\<close>: the referenced names in order; \<open>replace_all\<close> with a replacer.\<close>

definition captures :: "string \<Rightarrow> string list" where
  "captures s = concat (map (\<lambda>g. case g of Ref v \<Rightarrow> [v] | Lit _ \<Rightarrow> []) (scan s))"

fun render_seg :: "(string \<Rightarrow> string) \<Rightarrow> seg \<Rightarrow> string" where
  "render_seg f (Lit c) = [c]"
| "render_seg f (Ref v) = f v"

definition replace_all :: "(string \<Rightarrow> string) \<Rightarrow> string \<Rightarrow> string" where
  "replace_all f s = concat (map (render_seg f) (scan s))"

lemma captures_iff: "v \<in> set (captures s) \<longleftrightarrow> Ref v \<in> set (scan s)"
  by (force simp: captures_def split: seg.splits)

lemma scan_vars: "Ref v \<in> set (scan s) \<Longrightarrow> is_var v"
proof (induction s rule: scan.induct)
  case (2 c cs)
  then show ?case
    by (auto simp: scan.simps dest: match_var_Some split: option.splits prod.splits)
qed simp

lemma replace_all_cong:
  assumes "\<And>v. v \<in> set (captures s) \<Longrightarrow> f v = g v"
  shows "replace_all f s = replace_all g s"
proof -
  have "render_seg f x = render_seg g x" if "x \<in> set (scan s)" for x
    using that assms by (cases x rule: seg.exhaust) (auto simp: captures_iff)
  then show ?thesis unfolding replace_all_def by (metis map_cong)
qed

lemma replace_all_identity: "replace_all brace s = s"
proof (induction s rule: scan.induct)
  case 1
  then show ?case by (simp add: replace_all_def)
next
  case (2 c cs)
  then show ?case
    by (auto simp: replace_all_def scan.simps split: option.splits dest: match_var_Some)
qed

lemma scan_brace: "is_var v \<Longrightarrow> scan (brace v @ rest) = Ref v # scan rest"
proof -
  assume v: "is_var v"
  have "\<not> var_char CHR ''}''" by (simp add: var_char_def is_alpha_def is_digit_def)
  with v have "match_var (brace v @ rest) = Some (v, rest)"
    by (auto simp: match_var_def brace_def is_var_def takeWhile_append dropWhile_append)
  then show ?thesis by (simp add: brace_def scan.simps)
qed

end
