(* ===== verification/WfValidate.thy ===== *)
theory WfValidate
  imports WfSchema WfVars
begin

text \<open>
  Pre-flight validation of a workflow (\<open>src/workflow/validate.rs\<close>): name uniqueness, the
  structural checks of each step kind, the graph checks and the resolution of every
  \<open>{{var}}\<close> reference. Each \<open>bail!\<close> is a constructor of \<open>verr\<close>. Name sets
  (\<open>HashSet\<close>) are sets; the one loop of the source over a \<open>HashSet\<close> (the route check per
  node) runs in declaration order here, which only decides which of several errors is
  reported.
\<close>

datatype header_err =
    NoSteps | BadMaxCost | ZeroMaxTransitions | TransitionsNeedGraph
  | ReservedInput | ReservedEnd | BlankName | DuplicateName string

datatype graph_err =
    NoEntry | NoEdges | NoMaxTransitions | UnknownEntry string
  | UnknownSource string string | UnknownFrom string | UnknownTo string | UnknownEdgeOutput string
  | NoOutgoing | DefaultCount nat | DefaultNotLast
  | Unreachable "string list" | EndUnreachable

datatype field_err =
    EmptyCondition | BadRegex string | EmptyModel | EmptyWorkdir | CountNotAllowed | CountTooSmall

datatype block_err =
    DynNeedsSource | DynNeedsOneSub | DynSourceInside | MinSuccessZero
  | SourceNeedsMatch | ParallelTooSmall | MinSuccessRange | MaxParallelZero
  | LoopEmpty | LoopNeedsExit | CondNeedsBranch | UnknownBranch string

datatype ref_err =
    UnknownVar string | SourceUnknown string | LoopTargetUnknown string | CondTargetUnknown string

text \<open>\<open>IndexPanic\<close> is the panic of \<open>p.run[0]\<close> on an empty list, not a \<open>bail!\<close>.\<close>

datatype verr =
    Header header_err | Graph graph_err | Node string graph_err | Field string field_err
  | Block string block_err | RefErr string ref_err | IndexPanic | PrivateRole string string

section \<open>Names\<close>

definition insert_unique :: "string \<Rightarrow> string set \<Rightarrow> verr + string set" where
  "insert_unique name names =
     (if name = ''input'' then Inl (Header ReservedInput)
      else if name = END_NODE then Inl (Header ReservedEnd)
      else if is_blank name then Inl (Header BlankName)
      else if name \<in> names then Inl (Header (DuplicateName name))
      else Inr (insert name names))"

definition collect_names :: "step \<Rightarrow> string set \<Rightarrow> verr + string set" where
  "collect_names st names =
     rbind (insert_unique (step_name st) names)
       (foldr_ok (\<lambda>s. insert_unique (sq_name s)) (sub_steps st))"

section \<open>Structural checks\<close>

definition validate_condition :: "regex_api \<Rightarrow> string \<Rightarrow> condition \<Rightarrow> verr + unit" where
  "validate_condition rx ctxt c =
     (if cond_contains c = None \<and> cond_matches c = None then Inl (Field ctxt EmptyCondition)
      else case cond_matches c of
          Some pat \<Rightarrow> ensure (rx_ok rx pat) (Field ctxt (BadRegex pat))
        | None \<Rightarrow> Inr ())"

definition reject_blank :: "string option \<Rightarrow> verr \<Rightarrow> verr + unit" where
  "reject_blank v e = (case v of Some t \<Rightarrow> ensure (\<not> is_blank t) e | None \<Rightarrow> Inr ())"

definition validate_fields :: "sequential \<Rightarrow> verr + unit" where
  "validate_fields s =
     rbind (reject_blank (sq_model s) (Field (sq_name s) EmptyModel))
       (\<lambda>_. reject_blank (sq_workdir s) (Field (sq_name s) EmptyWorkdir))"

definition reject_expansion :: "sequential \<Rightarrow> verr + unit" where
  "reject_expansion s = ensure (sq_count s = None) (Field (sq_name s) CountNotAllowed)"

definition validate_expansion :: "sequential \<Rightarrow> verr + unit" where
  "validate_expansion s =
     (case sq_count s of
        Some c \<Rightarrow> ensure (\<not> c < 2) (Field (sq_name s) CountTooSmall)
      | None \<Rightarrow> Inr ())"

text \<open>\<open>iter().map(replica_count).sum()\<close> over \<open>u32\<close>: release builds wrap.\<close>

definition total_replicas :: "sequential list \<Rightarrow> u32" where
  "total_replicas run = sum_list (map replica_count run)"

definition check_dynamic :: "regex_api \<Rightarrow> parallel_step \<Rightarrow> string \<Rightarrow> verr + unit" where
  "check_dynamic rx p pattern =
     (case par_source p of
        None \<Rightarrow> Inl (Block (par_name p) DynNeedsSource)
      | Some source \<Rightarrow>
          if length (par_run p) \<noteq> 1 then Inl (Block (par_name p) DynNeedsOneSub)
          else if source = par_name p \<or> (\<exists>s\<in>set (par_run p). sq_name s = source)
            then Inl (Block (par_name p) DynSourceInside)
          else if \<not> rx_ok rx pattern then Inl (Field (par_name p) (BadRegex pattern))
          else (case par_run p of
              [] \<Rightarrow> Inl IndexPanic
            | template # _ \<Rightarrow>
                rbind (validate_fields template) (\<lambda>_.
                rbind (validate_expansion template) (\<lambda>_.
                ensure (par_min_success p \<noteq> Some 0) (Block (par_name p) MinSuccessZero)))))"

definition check_static :: "parallel_step \<Rightarrow> verr + unit" where
  "check_static p =
     (if par_source p \<noteq> None then Inl (Block (par_name p) SourceNeedsMatch)
      else if length (par_run p) < 2 then Inl (Block (par_name p) ParallelTooSmall)
      else rbind (each (\<lambda>s. rbind (validate_fields s) (\<lambda>_. validate_expansion s)) (par_run p)) (\<lambda>_.
        case par_min_success p of
          Some m \<Rightarrow> ensure (\<not> (m = 0 \<or> total_replicas (par_run p) < m)) (Block (par_name p) MinSuccessRange)
        | None \<Rightarrow> Inr ()))"

fun structural_check :: "regex_api \<Rightarrow> step \<Rightarrow> verr + unit" where
  "structural_check rx (Sequential s) =
     rbind (validate_fields s) (\<lambda>_. reject_expansion s)"
| "structural_check rx (Parallel p) =
     rbind (case par_match_pattern p of
              Some pattern \<Rightarrow> check_dynamic rx p pattern
            | None \<Rightarrow> check_static p)
       (\<lambda>_. ensure (par_max_parallel p \<noteq> Some 0) (Block (par_name p) MaxParallelZero))"
| "structural_check rx (Loop l) =
     (if loop_run l = [] then Inl (Block (loop_name l) LoopEmpty)
      else rbind (each (\<lambda>s. rbind (validate_fields s) (\<lambda>_. reject_expansion s)) (loop_run l)) (\<lambda>_.
        case loop_exit_when l of
          None \<Rightarrow> Inl (Block (loop_name l) LoopNeedsExit)
        | Some c \<Rightarrow> validate_condition rx (loop_name l) c))"
| "structural_check rx (Conditional c) =
     rbind (validate_condition rx (cnd_name c) (cnd_condition c)) (\<lambda>_.
     if cnd_on_match c = [] \<and> cnd_on_no_match c = [] then Inl (Block (cnd_name c) CondNeedsBranch)
     else rbind (each (\<lambda>n. ensure (n \<in> set (map sq_name (cnd_run c))) (Block (cnd_name c) (UnknownBranch n)))
                  (cnd_on_match c @ cnd_on_no_match c)) (\<lambda>_.
       each (\<lambda>s. rbind (validate_fields s) (\<lambda>_. reject_expansion s)) (cnd_run c)))"

section \<open>References\<close>

definition BUILTIN_PLACEHOLDERS :: "string list" where
  "BUILTIN_PLACEHOLDERS =
     [''DATE'', ''SHELL'', ''OS'', ''BINARIES'', ''CWD'', ''ROLE'', ''SYSTEM'', ''CONTEXT'',
      ''GIT_STATUS'', ''GIT_TREE'', ''README'']"

definition is_builtin_placeholder :: "string \<Rightarrow> bool" where
  "is_builtin_placeholder name \<longleftrightarrow> name \<in> set BUILTIN_PLACEHOLDERS"

definition check_refs :: "string \<Rightarrow> string \<Rightarrow> string set \<Rightarrow> verr + unit" where
  "check_refs name prompt available =
     each (\<lambda>var. ensure (is_builtin_placeholder var \<or> var \<in> available) (RefErr name (UnknownVar var)))
       (captures prompt)"

definition check_all_refs :: "sequential list \<Rightarrow> string set \<Rightarrow> verr + unit" where
  "check_all_refs run scope = each (\<lambda>s. check_refs (sq_name s) (sq_prompt s) scope) run"

fun check_branch_refs :: "sequential list \<Rightarrow> string set \<Rightarrow> verr + string set" where
  "check_branch_refs [] scope = Inr scope"
| "check_branch_refs (s # run) scope =
     rbind (check_refs (sq_name s) (sq_prompt s) scope)
       (\<lambda>_. check_branch_refs run (insert (sq_name s) scope))"

definition check_target :: "string option \<Rightarrow> string set \<Rightarrow> (string \<Rightarrow> verr) \<Rightarrow> verr + unit" where
  "check_target t available err =
     (case t of Some out \<Rightarrow> ensure (out \<in> available) (err out) | None \<Rightarrow> Inr ())"

fun check_step_refs :: "step \<Rightarrow> string set \<Rightarrow> verr + string set" where
  "check_step_refs (Sequential s) available =
     rbind (check_refs (sq_name s) (sq_prompt s) available)
       (\<lambda>_. Inr (insert (sq_name s) available))"
| "check_step_refs (Parallel p) available =
     (if par_match_pattern p \<noteq> None then
        rbind (check_target (par_source p) available (\<lambda>out. RefErr (par_name p) (SourceUnknown out))) (\<lambda>_.
          case par_run p of
            [] \<Rightarrow> Inl IndexPanic
          | tpl # _ \<Rightarrow>
              rbind (check_refs (sq_name tpl) (sq_prompt tpl) (insert (par_name p) available))
                (\<lambda>_. Inr (insert (par_name p) (insert (sq_name tpl) available))))
      else
        rbind (check_all_refs (par_run p) available)
          (\<lambda>_. Inr (insert (par_name p) (set (map sq_name (par_run p)) \<union> available))))"
| "check_step_refs (Loop l) available =
     (let inner = set (map sq_name (loop_run l)) \<union> available
      in rbind (check_all_refs (loop_run l) inner) (\<lambda>_.
         rbind (case loop_exit_when l of
                  Some c \<Rightarrow> check_target (cond_output c) inner (\<lambda>out. RefErr (loop_name l) (LoopTargetUnknown out))
                | None \<Rightarrow> Inr ())
           (\<lambda>_. Inr inner)))"
| "check_step_refs (Conditional c) available =
     rbind (check_target (cond_output (cnd_condition c)) available (\<lambda>out. RefErr (cnd_name c) (CondTargetUnknown out))) (\<lambda>_.
     rbind (check_branch_refs (cnd_run c) available) (\<lambda>_.
       Inr (set (map sq_name (cnd_run c)) \<union> available)))"

fun check_graph_step_refs :: "step \<Rightarrow> string set \<Rightarrow> verr + unit" where
  "check_graph_step_refs (Sequential s) known = check_refs (sq_name s) (sq_prompt s) known"
| "check_graph_step_refs (Parallel p) known =
     (let scope = known - set (map sq_name (par_run p)) - {par_name p};
          scope = (if par_match_pattern p \<noteq> None then insert (par_name p) scope else scope)
      in check_all_refs (par_run p) scope)"
| "check_graph_step_refs (Loop l) known = check_all_refs (loop_run l) known"
| "check_graph_step_refs (Conditional c) known = check_all_refs (cnd_run c) known"

end
