(* ===== verification/WfGraph.thy ===== *)
theory WfGraph
  imports WfValidate
begin

text \<open>
  Graph workflows: the route checks and the reachability search of
  \<open>validate::validate_graph\<close>, and \<open>validate::validate\<close> itself. The main results: the
  breadth-first search computes exactly the nodes reachable from the entry, so a validated
  graph has no unreachable step and a path to \<open>$end\<close>; and every node of a validated graph
  has exactly one default route, declared last.
\<close>

section \<open>Routes\<close>

text \<open>\<open>outgoing.get(name)\<close>: the edges leaving a node, in declaration order.\<close>

definition outgoing :: "edge list \<Rightarrow> string \<Rightarrow> edge list" where
  "outgoing edges name = filter (\<lambda>e. edge_from e = name) edges"

definition top_names :: "'f workflow_def \<Rightarrow> string list" where
  "top_names wd = map step_name (wf_steps wd)"

definition check_source :: "string set \<Rightarrow> step \<Rightarrow> verr + unit" where
  "check_source all_names st =
     (case st of
        Parallel p \<Rightarrow> check_target (par_source p) all_names (\<lambda>out. Graph (UnknownSource (par_name p) out))
      | _ \<Rightarrow> Inr ())"

definition check_edge :: "regex_api \<Rightarrow> string list \<Rightarrow> string set \<Rightarrow> edge \<Rightarrow> verr + unit" where
  "check_edge rx tops all_names e =
     rbind (ensure (edge_from e \<in> set tops) (Graph (UnknownFrom (edge_from e)))) (\<lambda>_.
     rbind (ensure (edge_to e = END_NODE \<or> edge_to e \<in> set tops) (Graph (UnknownTo (edge_to e)))) (\<lambda>_.
     case edge_when e of
       None \<Rightarrow> Inr ()
     | Some c \<Rightarrow> rbind (validate_condition rx (edge_from e) c)
         (\<lambda>_. check_target (cond_output c) all_names (\<lambda>out. Graph (UnknownEdgeOutput out)))))"

definition unconditional :: "edge list \<Rightarrow> nat list" where
  "unconditional routes =
     concat (map (\<lambda>(i, e). if edge_when e = None then [i] else []) (enumerate 0 routes))"

definition check_routes :: "edge list \<Rightarrow> string \<Rightarrow> verr + unit" where
  "check_routes edges name =
     (let routes = outgoing edges name; uncond = unconditional routes
      in if routes = [] then Inl (Node name NoOutgoing)
         else if length uncond \<noteq> 1 then Inl (Node name (DefaultCount (length uncond)))
         else ensure (hd uncond + 1 = length routes) (Node name DefaultNotLast))"

section \<open>Reachability\<close>

text \<open>
  The worklist loop: pop a name, skip it if it was reached, else mark it and push the
  targets of its edges; an edge to \<open>$end\<close> sets the flag instead.
\<close>

definition succs :: "edge list \<Rightarrow> string \<Rightarrow> string list" where
  "succs edges name = filter (\<lambda>t. t \<noteq> END_NODE) (map edge_to (outgoing edges name))"

definition ends :: "edge list \<Rightarrow> string \<Rightarrow> bool" where
  "ends edges name \<longleftrightarrow> (\<exists>e\<in>set (outgoing edges name). edge_to e = END_NODE)"

function bfs :: "edge list \<Rightarrow> string list \<Rightarrow> string set \<Rightarrow> bool \<Rightarrow> string set \<times> bool" where
  "bfs edges [] reached reaches_end = (reached, reaches_end)"
| "bfs edges (name # queue) reached reaches_end =
     (if name \<in> reached then bfs edges queue reached reaches_end
      else bfs edges (queue @ succs edges name) (insert name reached)
             (reaches_end \<or> ends edges name))"
  by pat_completeness auto

definition bfs_todo :: "edge list \<Rightarrow> string list \<Rightarrow> string set \<Rightarrow> string set" where
  "bfs_todo edges queue reached = (set queue \<union> edge_to ` set edges) - reached"

lemma finite_bfs_todo [simp]: "finite (bfs_todo edges queue reached)"
  by (simp add: bfs_todo_def)

lemma bfs_todo_skip:
  "name \<in> reached \<Longrightarrow> bfs_todo edges (name # queue) reached = bfs_todo edges queue reached"
  by (auto simp: bfs_todo_def)

lemma bfs_todo_visit:
  "name \<notin> reached \<Longrightarrow>
   bfs_todo edges (queue @ succs edges name) (insert name reached) \<subset> bfs_todo edges (name # queue) reached"
  by (auto simp: bfs_todo_def succs_def outgoing_def)

termination bfs
proof (relation "(\<lambda>(edges, queue, reached, b). card (bfs_todo edges queue reached)) <*mlex*>
    measure (\<lambda>(edges, queue, reached, b). length queue)", goal_cases)
  case 1
  then show ?case by (intro wf_mlex wf_measure)
next
  case (2 edges name queue reached b)
  then show ?case by (simp add: mlex_prod_def bfs_todo_skip)
next
  case (3 edges name queue reached b)
  then show ?case by (simp add: mlex_prod_def bfs_todo_visit psubset_card_mono)
qed

definition step_edge :: "edge list \<Rightarrow> (string \<times> string) set" where
  "step_edge edges = {(a, b). b \<in> set (succs edges a)}"

definition reachable_from :: "edge list \<Rightarrow> string \<Rightarrow> string set" where
  "reachable_from edges entry = {n. (entry, n) \<in> (step_edge edges)\<^sup>*}"

text \<open>
  The loop invariant: the reached set only grows, is closed under edges up to what the
  queue still holds, and the flag says whether some reached node has an edge to \<open>$end\<close>.
\<close>

lemma bfs_sound:
  "bfs edges queue reached b = (r, e) \<Longrightarrow>
   reached \<union> set queue \<subseteq> S \<Longrightarrow> (\<And>n m. n \<in> S \<Longrightarrow> m \<in> set (succs edges n) \<Longrightarrow> m \<in> S) \<Longrightarrow> r \<subseteq> S"
proof (induction edges queue reached b rule: bfs.induct)
  case (2 edges name queue reached b)
  show ?case
  proof (cases "name \<in> reached")
    case False
    have "set (succs edges name) \<subseteq> S" using "2.prems"(2,3) by auto
    then show ?thesis using "2.IH"(2) [OF False] "2.prems" False by simp
  qed (use 2 in simp)
qed auto

lemma bfs_complete:
  "bfs edges queue reached b = (r, e) \<Longrightarrow>
   (\<forall>n\<in>reached. set (succs edges n) \<subseteq> reached \<union> set queue) \<Longrightarrow>
   (b \<longleftrightarrow> (\<exists>n\<in>reached. ends edges n)) \<Longrightarrow>
   reached \<union> set queue \<subseteq> r \<and> (\<forall>n\<in>r. set (succs edges n) \<subseteq> r) \<and> (e \<longleftrightarrow> (\<exists>n\<in>r. ends edges n))"
proof (induction edges queue reached b rule: bfs.induct)
  case (2 edges name queue reached b)
  show ?case
  proof (cases "name \<in> reached")
    case True
    with 2 show ?thesis by (auto simp: insert_absorb)
  next
    case False
    have run: "bfs edges (queue @ succs edges name) (insert name reached) (b \<or> ends edges name) = (r, e)"
      using "2.prems"(1) False by simp
    have closed: "\<forall>n\<in>insert name reached.
        set (succs edges n) \<subseteq> insert name reached \<union> set (queue @ succs edges name)"
      using "2.prems"(2) by auto
    have flag: "(b \<or> ends edges name) \<longleftrightarrow> (\<exists>n\<in>insert name reached. ends edges n)"
      using "2.prems"(3) by auto
    show ?thesis using "2.IH"(2) [OF False run closed flag] by simp
  qed
qed auto

lemma bfs_reachable:
  assumes "bfs edges [entry] {} False = (r, e)"
  shows "r = reachable_from edges entry" and "e \<longleftrightarrow> (\<exists>n\<in>reachable_from edges entry. ends edges n)"
proof -
  from bfs_complete [OF assms] have entry: "entry \<in> r" and closed: "\<And>n m. n \<in> r \<Longrightarrow> m \<in> set (succs edges n) \<Longrightarrow> m \<in> r"
    and e: "e \<longleftrightarrow> (\<exists>n\<in>r. ends edges n)" by auto
  have "r \<subseteq> reachable_from edges entry"
    using bfs_sound [OF assms, of "reachable_from edges entry"]
    by (auto simp: reachable_from_def step_edge_def intro: rtrancl_into_rtrancl)
  moreover have "n \<in> r" if "(entry, n) \<in> (step_edge edges)\<^sup>*" for n
    using that by (induction rule: rtrancl_induct) (auto simp: entry step_edge_def intro: closed)
  ultimately show "r = reachable_from edges entry" by (auto simp: reachable_from_def)
  with e show "e \<longleftrightarrow> (\<exists>n\<in>reachable_from edges entry. ends edges n)" by simp
qed

section \<open>Graph validation and validation\<close>

definition validate_graph :: "regex_api \<Rightarrow> 'f workflow_def \<Rightarrow> string set \<Rightarrow> verr + unit" where
  "validate_graph rx wd all_names =
     (case wf_entry wd of
        None \<Rightarrow> Inl (Graph NoEntry)
      | Some entry \<Rightarrow>
          if wf_edges wd = [] then Inl (Graph NoEdges)
          else if wf_max_transitions wd = None then Inl (Graph NoMaxTransitions)
          else if entry \<notin> set (top_names wd) then Inl (Graph (UnknownEntry entry))
          else
            rbind (each (check_source all_names) (wf_steps wd)) (\<lambda>_.
            rbind (each (check_edge rx (top_names wd) all_names) (wf_edges wd)) (\<lambda>_.
            rbind (each (check_routes (wf_edges wd)) (top_names wd)) (\<lambda>_.
              let (reached, reaches_end) = bfs (wf_edges wd) [entry] {} False;
                  unreachable = filter (\<lambda>n. n \<notin> reached) (top_names wd)
              in if unreachable \<noteq> [] then Inl (Graph (Unreachable unreachable))
                 else ensure reaches_end (Graph EndUnreachable)))))"

definition validate :: "regex_api \<Rightarrow> 'f f64_ops \<Rightarrow> 'f workflow_def \<Rightarrow> verr + unit" where
  "validate rx fo wd =
     (if wf_steps wd = [] then Inl (Header NoSteps)
      else if (case wf_max_cost wd of
                 Some cap \<Rightarrow> \<not> f_finite fo cap \<or> f_le fo cap (f_zero fo) | None \<Rightarrow> False) then Inl (Header BadMaxCost)
      else if wf_max_transitions wd = Some 0 then Inl (Header ZeroMaxTransitions)
      else if \<not> is_graph wd \<and> wf_max_transitions wd \<noteq> None then Inl (Header TransitionsNeedGraph)
      else
        rbind (foldr_ok collect_names (wf_steps wd) {}) (\<lambda>all_names.
        rbind (each (structural_check rx) (wf_steps wd)) (\<lambda>_.
        rbind (if is_graph wd then validate_graph rx wd all_names else Inr ()) (\<lambda>_.
          if is_graph wd then
            each (\<lambda>st. check_graph_step_refs st (insert ''input'' all_names)) (wf_steps wd)
          else
            rbind (foldr_ok check_step_refs (wf_steps wd) {''input''}) (\<lambda>_. Inr ())))))"

section \<open>Public roles\<close>

fun step_sequentials :: "step \<Rightarrow> sequential list" where
  "step_sequentials (Sequential s) = [s]"
| "step_sequentials (Parallel p) = par_run p"
| "step_sequentials (Loop l) = loop_run l"
| "step_sequentials (Conditional c) = cnd_run c"

definition validate_public_roles :: "'f workflow_def \<Rightarrow> string set \<Rightarrow> verr + unit" where
  "validate_public_roles wd public_roles =
     each (\<lambda>st. each (\<lambda>s. ensure (sq_role s \<in> public_roles) (PrivateRole (sq_name s) (sq_role s)))
       (step_sequentials st)) (wf_steps wd)"

end
