(* ===== verification/WfExec.thy ===== *)
theory WfExec
  imports WfGraph
begin

text \<open>
  The workflow executor (\<open>src/workflow/run.rs\<close>), with the result types of
  \<open>src/workflow/proc.rs\<close>. The executor is a record threaded through every operation, an
  error is a constructor of \<open>exec_err\<close>. What the executor calls outside this file is
  the record \<open>env\<close>: the subprocess runner \<open>run_step\<close> and \<open>send_done\<close> act on an arbitrary
  world \<open>'w\<close>, prompt expansion and the file system read it. The replicas of a parallel block
  run concurrently: their outcomes are given by an oracle indexed by replica and attempt, so a
  statement about every environment is a statement about every interleaving. Progress output
  on stderr is left out; the JSONL events of \<open>emit_step\<close> are recorded in \<open>ex_emitted\<close>.
  Integer arithmetic wraps, as in the release build.
\<close>

section \<open>Results of a subprocess run\<close>

record 'f step_stats =
  ss_output :: string
  ss_duration :: nat
  ss_cost :: 'f
  ss_input_tokens :: u64
  ss_output_tokens :: u64
  ss_total_tokens :: u64
  ss_cache_read_tokens :: u64
  ss_cache_write_tokens :: u64
  ss_reasoning_tokens :: u64
  ss_tool_count :: u64
  ss_tool_failed :: u64

definition default_stats :: "'f f64_ops \<Rightarrow> 'f step_stats" where
  "default_stats fo = \<lparr>ss_output = [], ss_duration = 0, ss_cost = f_zero fo, ss_input_tokens = 0,
     ss_output_tokens = 0, ss_total_tokens = 0, ss_cache_read_tokens = 0, ss_cache_write_tokens = 0,
     ss_reasoning_tokens = 0, ss_tool_count = 0, ss_tool_failed = 0\<rparr>"

datatype 'f run_outcome =
    RunOk "'f step_stats"
  | RunEmpty "'f step_stats"
  | RunNonZero "'f step_stats" "int option" string
  | RunTimeout nat
  | RunSpawnError string string

record run_args =
  ra_role :: string
  ra_prompt :: string
  ra_session_name :: "string option"
  ra_model :: "string option"
  ra_workdir :: "string option"
  ra_skills :: "string list option"
  ra_capabilities :: "string list option"
  ra_timeout_secs :: u64

record 'f totals =
  tt_duration :: nat
  tt_cost :: 'f
  tt_tokens :: u64
  tt_input_tokens :: u64
  tt_output_tokens :: u64
  tt_cache_read_tokens :: u64
  tt_cache_write_tokens :: u64
  tt_reasoning_tokens :: u64
  tt_tools :: u64
  tt_tools_failed :: u64

definition default_totals :: "'f f64_ops \<Rightarrow> 'f totals" where
  "default_totals fo = \<lparr>tt_duration = 0, tt_cost = f_zero fo, tt_tokens = 0, tt_input_tokens = 0,
     tt_output_tokens = 0, tt_cache_read_tokens = 0, tt_cache_write_tokens = 0,
     tt_reasoning_tokens = 0, tt_tools = 0, tt_tools_failed = 0\<rparr>"

definition totals_add :: "'f f64_ops \<Rightarrow> 'f totals \<Rightarrow> 'f step_stats \<Rightarrow> 'f totals" where
  "totals_add fo t s = \<lparr>
     tt_duration = tt_duration t + ss_duration s,
     tt_cost = f_add fo (tt_cost t) (ss_cost s),
     tt_tokens = tt_tokens t + ss_total_tokens s,
     tt_input_tokens = tt_input_tokens t + ss_input_tokens s,
     tt_output_tokens = tt_output_tokens t + ss_output_tokens s,
     tt_cache_read_tokens = tt_cache_read_tokens t + ss_cache_read_tokens s,
     tt_cache_write_tokens = tt_cache_write_tokens t + ss_cache_write_tokens s,
     tt_reasoning_tokens = tt_reasoning_tokens t + ss_reasoning_tokens s,
     tt_tools = tt_tools t + ss_tool_count s,
     tt_tools_failed = tt_tools_failed t + ss_tool_failed s\<rparr>"

text \<open>\<open>continue_delta\<close>: the folded stats; the new baseline is \<open>current\<close> itself.\<close>

definition continue_delta :: "'f f64_ops \<Rightarrow> 'f step_stats \<Rightarrow> 'f step_stats \<Rightarrow> 'f step_stats" where
  "continue_delta fo base current = \<lparr>
     ss_output = ss_output current,
     ss_duration = ss_duration current,
     ss_cost = f_max fo (f_sub fo (ss_cost current) (ss_cost base)) (f_zero fo),
     ss_input_tokens = saturating_sub (ss_input_tokens current) (ss_input_tokens base),
     ss_output_tokens = saturating_sub (ss_output_tokens current) (ss_output_tokens base),
     ss_total_tokens = saturating_sub (ss_total_tokens current) (ss_total_tokens base),
     ss_cache_read_tokens = saturating_sub (ss_cache_read_tokens current) (ss_cache_read_tokens base),
     ss_cache_write_tokens = saturating_sub (ss_cache_write_tokens current) (ss_cache_write_tokens base),
     ss_reasoning_tokens = saturating_sub (ss_reasoning_tokens current) (ss_reasoning_tokens base),
     ss_tool_count = ss_tool_count current,
     ss_tool_failed = ss_tool_failed current\<rparr>"

section \<open>The executor's state, environment and errors\<close>

record ('f, 'w) env =
  env_regex :: regex_api
  env_f64 :: "'f f64_ops"
  env_run_step :: "run_args \<Rightarrow> 'w \<Rightarrow> 'f run_outcome \<times> 'w"
  env_send_done :: "string \<Rightarrow> string option \<Rightarrow> 'w \<Rightarrow> 'w"
  env_short_uuid :: "'w \<Rightarrow> string \<times> 'w"
  env_expand :: "string \<Rightarrow> string \<Rightarrow> 'w \<Rightarrow> string"
  env_current_dir :: "'w \<Rightarrow> string option"
  env_is_dir :: "string \<Rightarrow> 'w \<Rightarrow> bool"
  env_replica :: "'w \<Rightarrow> nat \<Rightarrow> nat \<Rightarrow> run_args \<Rightarrow> 'f run_outcome"
  env_after_join :: "'w \<Rightarrow> 'w"

record ('f, 'w) executor =
  ex_outputs :: "string \<rightharpoonup> string"
  ex_session_ids :: "string \<rightharpoonup> string"
  ex_used_continue :: "string \<rightharpoonup> bool"
  ex_totals :: "'f totals"
  ex_last_step :: "string option"
  ex_wf_name :: string
  ex_max_cost :: "'f option"
  ex_graph_mode :: bool
  ex_known_outputs :: "string set"
  ex_cost_baseline :: "string \<rightharpoonup> 'f step_stats"
  ex_jsonl :: bool
  ex_emitted :: "(string \<times> string) list"
  ex_world :: 'w

datatype attempt_err = NoOutput | ExitCode "int option" string | TimedOut nat | SpawnFailed string string

datatype exec_err =
    OutputUnavailable string
  | NoCurrentDir | NotADirectory string string
  | StepFailed string nat "attempt_err option"
  | BudgetExceeded string
  | SourceUnavailable string string | InvalidRegex string | NoItems string string
  | ParallelFailed string nat nat nat
  | LoopTargetMissing string string nat
  | CondNoPrior string | CondTargetMissing string string
  | EdgeOutputUnavailable string string string | NoRoute string
  | MaxTransitions nat
  | Panic string

definition new_executor ::
  "'f f64_ops \<Rightarrow> string \<Rightarrow> bool \<Rightarrow> 'f option \<Rightarrow> bool \<Rightarrow> string set \<Rightarrow> 'w \<Rightarrow> ('f, 'w) executor" where
  "new_executor fo name jsonl max_cost graph known w = \<lparr>
     ex_outputs = Map.empty, ex_session_ids = Map.empty, ex_used_continue = Map.empty,
     ex_totals = default_totals fo, ex_last_step = None, ex_wf_name = name,
     ex_max_cost = max_cost, ex_graph_mode = graph, ex_known_outputs = known,
     ex_cost_baseline = Map.empty, ex_jsonl = jsonl, ex_emitted = [], ex_world = w\<rparr>"

definition fold_stats ::
  "('f, 'w) env \<Rightarrow> string \<Rightarrow> session_mode \<Rightarrow> 'f step_stats \<Rightarrow> ('f, 'w) executor \<Rightarrow>
     'f step_stats \<times> ('f, 'w) executor" where
  "fold_stats env name mode stats ex =
     (if mode \<noteq> Continue then (stats, ex)
      else let base = (case ex_cost_baseline ex name of Some b \<Rightarrow> b | None \<Rightarrow> default_stats (env_f64 env))
           in (continue_delta (env_f64 env) base stats,
               ex\<lparr>ex_cost_baseline := (ex_cost_baseline ex)(name \<mapsto> stats)\<rparr>))"

definition enforce_budget :: "('f, 'w) env \<Rightarrow> string \<Rightarrow> ('f, 'w) executor \<Rightarrow> exec_err + unit" where
  "enforce_budget env after_step ex =
     (case ex_max_cost ex of
        Some cap \<Rightarrow> ensure (\<not> f_lt (env_f64 env) cap (tt_cost (ex_totals ex))) (BudgetExceeded after_step)
      | None \<Rightarrow> Inr ())"

definition emit_step :: "string \<Rightarrow> string \<Rightarrow> ('f, 'w) executor \<Rightarrow> ('f, 'w) executor" where
  "emit_step name content ex =
     (if ex_jsonl ex then ex\<lparr>ex_emitted := ex_emitted ex @ [(name, content)]\<rparr> else ex)"

definition add_totals :: "('f, 'w) env \<Rightarrow> 'f step_stats \<Rightarrow> ('f, 'w) executor \<Rightarrow> ('f, 'w) executor" where
  "add_totals env stats ex = ex\<lparr>ex_totals := totals_add (env_f64 env) (ex_totals ex) stats\<rparr>"

definition set_output :: "string \<Rightarrow> string \<Rightarrow> ('f, 'w) executor \<Rightarrow> ('f, 'w) executor" where
  "set_output name out ex = ex\<lparr>ex_outputs := (ex_outputs ex)(name \<mapsto> out)\<rparr>"

definition set_last :: "string \<Rightarrow> ('f, 'w) executor \<Rightarrow> ('f, 'w) executor" where
  "set_last name ex = ex\<lparr>ex_last_step := Some name\<rparr>"

section \<open>Prompts and working directories\<close>

definition resolve_var :: "(string \<rightharpoonup> string) \<Rightarrow> string \<Rightarrow> string \<Rightarrow> string" where
  "resolve_var outputs input v =
     (if v = ''input'' then input else case outputs v of Some x \<Rightarrow> x | None \<Rightarrow> brace v)"

definition unavailable_var :: "('f, 'w) executor \<Rightarrow> string \<Rightarrow> bool" where
  "unavailable_var ex v \<longleftrightarrow> v \<noteq> ''input'' \<and> \<not> is_builtin_placeholder v \<and>
     v \<in> ex_known_outputs ex \<and> ex_outputs ex v = None"

definition substitute ::
  "('f, 'w) env \<Rightarrow> string \<Rightarrow> string \<Rightarrow> string \<Rightarrow> ('f, 'w) executor \<Rightarrow> exec_err + string" where
  "substitute env prompt input role ex =
     (case (if ex_graph_mode ex then find (unavailable_var ex) (captures prompt) else None) of
        Some v \<Rightarrow> Inl (OutputUnavailable v)
      | None \<Rightarrow> Inr (env_expand env role (replace_all (resolve_var (ex_outputs ex) input) prompt) (ex_world ex)))"

definition path_join :: "string \<Rightarrow> string \<Rightarrow> string" where
  "path_join dir p = (if dir \<noteq> [] \<and> last dir = CHR ''/'' then dir @ p else dir @ ''/'' @ p)"

definition check_dir :: "('f, 'w) env \<Rightarrow> string \<Rightarrow> string \<Rightarrow> 'w \<Rightarrow> exec_err + string option" where
  "check_dir env name dir w =
     (if env_is_dir env dir w then Inr (Some dir) else Inl (NotADirectory name dir))"

definition resolve_workdir ::
  "('f, 'w) env \<Rightarrow> string \<Rightarrow> string option \<Rightarrow> 'w \<Rightarrow> exec_err + string option" where
  "resolve_workdir env name workdir w =
     (case workdir of
        None \<Rightarrow> Inr None
      | Some p \<Rightarrow>
          if starts_with p ''/'' then check_dir env name p w
          else (case env_current_dir env w of
              None \<Rightarrow> Inl NoCurrentDir
            | Some cwd \<Rightarrow> check_dir env name (path_join cwd p) w))"

text \<open>\<open>sanitize\<close> maps characters, so the continuation bytes of a multi-byte one go with it.\<close>

definition sanitize :: "string \<Rightarrow> string" where
  "sanitize s = map (\<lambda>c. if is_alpha c \<or> is_digit c \<or> c = CHR ''-'' then c else CHR ''-'')
     (filter (\<lambda>c. \<not> (0x80 \<le> (of_char c :: nat) \<and> (of_char c :: nat) < 0xC0)) s)"

section \<open>One sequential step\<close>

definition used_before :: "('f, 'w) executor \<Rightarrow> string \<Rightarrow> bool" where
  "used_before ex name = (case ex_used_continue ex name of Some b \<Rightarrow> b | None \<Rightarrow> False)"

definition session_id ::
  "('f, 'w) env \<Rightarrow> string \<Rightarrow> ('f, 'w) executor \<Rightarrow> string \<times> ('f, 'w) executor" where
  "session_id env name ex =
     (case ex_session_ids ex name of
        Some sid \<Rightarrow> (sid, ex)
      | None \<Rightarrow>
          let (u, w) = env_short_uuid env (ex_world ex);
              sid = ''wf-'' @ sanitize (ex_wf_name ex) @ ''-'' @ name @ ''-'' @ u
          in (sid, ex\<lparr>ex_session_ids := (ex_session_ids ex)(name \<mapsto> sid), ex_world := w\<rparr>))"

definition resolve_session ::
  "('f, 'w) env \<Rightarrow> sequential \<Rightarrow> string option \<Rightarrow> ('f, 'w) executor \<Rightarrow>
     string option \<times> ('f, 'w) executor" where
  "resolve_session env s workdir ex =
     (case sq_session s of
        Fresh \<Rightarrow> (None, ex)
      | Continue \<Rightarrow>
          let (sid, ex) = session_id env (sq_name s) ex
          in (Some sid,
              if used_before ex (sq_name s)
              then ex\<lparr>ex_world := env_send_done env sid workdir (ex_world ex)\<rparr> else ex))"

definition prompt_for_run :: "sequential \<Rightarrow> string \<Rightarrow> ('f, 'w) executor \<Rightarrow> string" where
  "prompt_for_run s templated ex =
     (if sq_session s = Continue \<and> used_before ex (sq_name s) then
        (case Option.bind (ex_last_step ex) (ex_outputs ex) of Some out \<Rightarrow> out | None \<Rightarrow> templated)
      else templated)"

definition run_attempt ::
  "('f, 'w) env \<Rightarrow> sequential \<Rightarrow> string \<Rightarrow> string option \<Rightarrow> ('f, 'w) executor \<Rightarrow>
     'f run_outcome \<times> ('f, 'w) executor" where
  "run_attempt env s templated workdir ex =
     (let (sid, ex) = resolve_session env s workdir ex;
          args = \<lparr>ra_role = sq_role s, ra_prompt = prompt_for_run s templated ex,
                  ra_session_name = sid, ra_model = sq_model s, ra_workdir = workdir,
                  ra_skills = sq_skills s, ra_capabilities = sq_capabilities s,
                  ra_timeout_secs = sq_timeout s\<rparr>;
          (outcome, w) = env_run_step env args (ex_world ex)
      in (outcome, ex\<lparr>ex_world := w\<rparr>))"

definition record_failure ::
  "('f, 'w) env \<Rightarrow> sequential \<Rightarrow> 'f step_stats \<Rightarrow> ('f, 'w) executor \<Rightarrow> ('f, 'w) executor" where
  "record_failure env s stats ex =
     (let (stats, ex) = fold_stats env (sq_name s) (sq_session s) stats ex in add_totals env stats ex)"

definition record_success ::
  "('f, 'w) env \<Rightarrow> sequential \<Rightarrow> 'f step_stats \<Rightarrow> ('f, 'w) executor \<Rightarrow>
     exec_err + 'f step_stats \<times> ('f, 'w) executor" where
  "record_success env s stats ex =
     (let ex = (if sq_session s = Continue
                then ex\<lparr>ex_used_continue := (ex_used_continue ex)(sq_name s \<mapsto> True)\<rparr> else ex);
          (stats, ex) = fold_stats env (sq_name s) (sq_session s) stats ex;
          ex = add_totals env stats (emit_step (sq_name s) (ss_output stats) ex)
      in rbind (enforce_budget env (sq_name s) ex) (\<lambda>_. Inr (stats, ex)))"

fun attempts ::
  "('f, 'w) env \<Rightarrow> sequential \<Rightarrow> string \<Rightarrow> string option \<Rightarrow> nat \<Rightarrow> attempt_err option \<Rightarrow>
     ('f, 'w) executor \<Rightarrow> exec_err + 'f step_stats \<times> ('f, 'w) executor" where
  "attempts env s prompt workdir 0 last_err ex =
     Inl (StepFailed (sq_name s) (unat (sq_retries s + 1)) last_err)"
| "attempts env s prompt workdir (Suc n) last_err ex =
     (case run_attempt env s prompt workdir ex of
        (RunOk stats, ex) \<Rightarrow> record_success env s stats ex
      | (RunEmpty stats, ex) \<Rightarrow>
          attempts env s prompt workdir n (Some NoOutput) (record_failure env s stats ex)
      | (RunNonZero stats code tail, ex) \<Rightarrow>
          attempts env s prompt workdir n (Some (ExitCode code tail)) (record_failure env s stats ex)
      | (RunTimeout elapsed, ex) \<Rightarrow> attempts env s prompt workdir n (Some (TimedOut elapsed)) ex
      | (RunSpawnError e tail, ex) \<Rightarrow> attempts env s prompt workdir n (Some (SpawnFailed e tail)) ex)"

definition exec_sequential ::
  "('f, 'w) env \<Rightarrow> sequential \<Rightarrow> string \<Rightarrow> ('f, 'w) executor \<Rightarrow>
     exec_err + 'f step_stats \<times> ('f, 'w) executor" where
  "exec_sequential env s input ex =
     rbind (substitute env (sq_prompt s) input (sq_role s) ex) (\<lambda>templated.
     rbind (resolve_workdir env (sq_name s) (sq_workdir s) (ex_world ex)) (\<lambda>workdir.
       attempts env s templated workdir (unat (sq_retries s + 1)) None ex))"

text \<open>A sequential step whose output is stored under its name, the form all callers use.\<close>

definition exec_leaf ::
  "('f, 'w) env \<Rightarrow> string \<Rightarrow> sequential \<Rightarrow> ('f, 'w) executor \<Rightarrow> exec_err + ('f, 'w) executor" where
  "exec_leaf env input s ex =
     rbind (exec_sequential env s input ex) (\<lambda>(stats, ex).
       Inr (set_last (sq_name s) (set_output (sq_name s) (ss_output stats) ex)))"

end
