(* ===== verification/WfBlocks.thy ===== *)
theory WfBlocks
  imports WfExec
begin

text \<open>
  The block executors of \<open>src/workflow/run.rs\<close> (parallel, loop, conditional), the dispatch
  over step kinds, edge selection and the two drivers of \<open>execute\<close>: declaration order, and
  the graph walk bounded by \<open>max_transitions\<close>.
\<close>

section \<open>Conditions and edges\<close>

definition condition_matches :: "regex_api \<Rightarrow> condition \<Rightarrow> string \<Rightarrow> bool" where
  "condition_matches rx c v \<longleftrightarrow>
     (case cond_contains c of Some needle \<Rightarrow> str_contains v needle | None \<Rightarrow> False) \<or>
     (case cond_matches c of Some pat \<Rightarrow> rx_ok rx pat \<and> rx_is_match rx pat v | None \<Rightarrow> False)"

fun select_from ::
  "regex_api \<Rightarrow> (string \<rightharpoonup> string) \<Rightarrow> string \<Rightarrow> edge list \<Rightarrow> exec_err + string" where
  "select_from rx outputs current [] = Inl (NoRoute current)"
| "select_from rx outputs current (e # routes) =
     (case edge_when e of
        None \<Rightarrow> Inr (edge_to e)
      | Some c \<Rightarrow>
          let out = (case cond_output c of Some n \<Rightarrow> n | None \<Rightarrow> current)
          in (case outputs out of
                None \<Rightarrow> Inl (EdgeOutputUnavailable (edge_from e) (edge_to e) out)
              | Some v \<Rightarrow> if condition_matches rx c v then Inr (edge_to e)
                          else select_from rx outputs current routes))"

definition select_graph_edge ::
  "regex_api \<Rightarrow> edge list \<Rightarrow> (string \<rightharpoonup> string) \<Rightarrow> string \<Rightarrow> exec_err + string" where
  "select_graph_edge rx edges outputs current =
     select_from rx outputs current (filter (\<lambda>e. edge_from e = current) edges)"

section \<open>Parallel blocks\<close>

record prepared =
  pr_base :: string
  pr_label :: string
  pr_seq :: sequential
  pr_prompt :: string
  pr_workdir :: "string option"

text \<open>\<open>expand_substep\<close>: the labels of the replicas; each runs the sub-step itself.\<close>

definition numbered :: "string \<Rightarrow> nat \<Rightarrow> string" where
  "numbered name i = name @ '' #'' @ show_nat i"

definition expand_substep :: "sequential \<Rightarrow> (string \<times> sequential) list" where
  "expand_substep s =
     (case sq_count s of
        Some c \<Rightarrow> map (\<lambda>i. (numbered (sq_name s) i, s)) [1..<unat c + 1]
      | None \<Rightarrow> [(sq_name s, s)])"

definition extract_items :: "regex_api \<Rightarrow> string \<Rightarrow> string \<Rightarrow> string list" where
  "extract_items rx pat source =
     filter (\<lambda>s. s \<noteq> []) (concat (map (\<lambda>g. case g of Some m \<Rightarrow> [trim m] | None \<Rightarrow> [])
       (rx_group1 rx pat source)))"

text \<open>The rule \<open>U+2500 U+2500\<close> around a label in an aggregate.\<close>

definition label_rule :: string where
  "label_rule = bytes [0xE2, 0x94, 0x80, 0xE2, 0x94, 0x80]"

definition join_labeled :: "(string \<times> string) list \<Rightarrow> string" where
  "join_labeled parts =
     join (newline @ newline)
       (map (\<lambda>(label, out). label_rule @ '' '' @ label @ '' '' @ label_rule @ newline @ trim out)
         (filter (\<lambda>(label, out). \<not> is_blank out) parts))"

fun prepare_items ::
  "('f, 'w) env \<Rightarrow> parallel_step \<Rightarrow> sequential \<Rightarrow> string option \<Rightarrow> string \<Rightarrow> nat \<Rightarrow> string list \<Rightarrow>
     ('f, 'w) executor \<Rightarrow> exec_err + prepared list \<times> ('f, 'w) executor" where
  "prepare_items env p template workdir input i [] ex = Inr ([], ex)"
| "prepare_items env p template workdir input i (item # items) ex =
     (let ex = set_output (par_name p) item ex
      in rbind (substitute env (sq_prompt template) input (sq_role template) ex) (\<lambda>prompt.
         rbind (prepare_items env p template workdir input (i + 1) items ex) (\<lambda>(rest, ex).
         Inr (\<lparr>pr_base = sq_name template, pr_label = numbered (sq_name template) (i + 1),
                pr_seq = template, pr_prompt = prompt, pr_workdir = workdir\<rparr> # rest, ex))))"

definition prepare_dynamic ::
  "('f, 'w) env \<Rightarrow> parallel_step \<Rightarrow> string \<Rightarrow> string \<Rightarrow> ('f, 'w) executor \<Rightarrow>
     exec_err + prepared list \<times> ('f, 'w) executor" where
  "prepare_dynamic env p pattern input ex =
     (case par_run p of
        [] \<Rightarrow> Inl (Panic ''index out of bounds'')
      | template # _ \<Rightarrow>
        (case par_source p of
           None \<Rightarrow> Inl (Panic ''validation requires dynamic fan-out source'')
         | Some source_name \<Rightarrow>
           (case ex_outputs ex source_name of
              None \<Rightarrow> Inl (SourceUnavailable (par_name p) source_name)
            | Some source \<Rightarrow>
                if \<not> rx_ok (env_regex env) pattern then Inl (InvalidRegex (par_name p))
                else let items = extract_items (env_regex env) pattern source
                     in if items = [] then Inl (NoItems (par_name p) source_name)
                        else rbind (resolve_workdir env (sq_name template) (sq_workdir template) (ex_world ex))
                          (\<lambda>workdir. prepare_items env p template workdir input 0 items ex))))"

fun prepare_static ::
  "('f, 'w) env \<Rightarrow> string \<Rightarrow> ('f, 'w) executor \<Rightarrow> sequential list \<Rightarrow> exec_err + prepared list" where
  "prepare_static env input ex [] = Inr []"
| "prepare_static env input ex (s # run) =
     rbind (substitute env (sq_prompt s) input (sq_role s) ex) (\<lambda>prompt.
     rbind (resolve_workdir env (sq_name s) (sq_workdir s) (ex_world ex)) (\<lambda>workdir.
     rbind (prepare_static env input ex run) (\<lambda>rest.
       Inr (map (\<lambda>(label, seq). \<lparr>pr_base = sq_name s, pr_label = label, pr_seq = seq,
              pr_prompt = prompt, pr_workdir = workdir\<rparr>) (expand_substep s) @ rest))))"

definition prepare ::
  "('f, 'w) env \<Rightarrow> parallel_step \<Rightarrow> string \<Rightarrow> ('f, 'w) executor \<Rightarrow>
     exec_err + prepared list \<times> ('f, 'w) executor" where
  "prepare env p input ex =
     (case par_match_pattern p of
        Some pattern \<Rightarrow> prepare_dynamic env p pattern input ex
      | None \<Rightarrow> rbind (prepare_static env input ex (par_run p)) (\<lambda>reps. Inr (reps, ex)))"

text \<open>One spawned task: its attempts, each answered by the oracle; fresh sessions only.\<close>

definition replica_args :: "prepared \<Rightarrow> run_args" where
  "replica_args r = \<lparr>ra_role = sq_role (pr_seq r), ra_prompt = pr_prompt r, ra_session_name = None,
     ra_model = sq_model (pr_seq r), ra_workdir = pr_workdir r, ra_skills = sq_skills (pr_seq r),
     ra_capabilities = sq_capabilities (pr_seq r), ra_timeout_secs = sq_timeout (pr_seq r)\<rparr>"

fun replica_attempts ::
  "(nat \<Rightarrow> 'f run_outcome) \<Rightarrow> nat \<Rightarrow> nat \<Rightarrow> attempt_err option \<Rightarrow> attempt_err option + 'f step_stats" where
  "replica_attempts outcome attempt 0 last_err = Inl last_err"
| "replica_attempts outcome attempt (Suc n) last_err =
     (case outcome attempt of
        RunOk stats \<Rightarrow> Inr stats
      | RunEmpty _ \<Rightarrow> replica_attempts outcome (attempt + 1) n (Some NoOutput)
      | RunNonZero _ code tail \<Rightarrow> replica_attempts outcome (attempt + 1) n (Some (ExitCode code tail))
      | RunTimeout e \<Rightarrow> replica_attempts outcome (attempt + 1) n (Some (TimedOut e))
      | RunSpawnError e tail \<Rightarrow> replica_attempts outcome (attempt + 1) n (Some (SpawnFailed e tail)))"

definition run_replica ::
  "('f, 'w) env \<Rightarrow> 'w \<Rightarrow> nat \<times> prepared \<Rightarrow> prepared \<times> (attempt_err option + 'f step_stats)" where
  "run_replica env w = (\<lambda>(i, r).
     (r, replica_attempts (\<lambda>a. env_replica env w i a (replica_args r)) 1
           (unat (sq_retries (pr_seq r) + 1)) None))"

definition run_replicas ::
  "('f, 'w) env \<Rightarrow> 'w \<Rightarrow> prepared list \<Rightarrow> (prepared \<times> (attempt_err option + 'f step_stats)) list" where
  "run_replicas env w reps = map (run_replica env w) (enumerate 0 reps)"

definition successes ::
  "(prepared \<times> (attempt_err option + 'f step_stats)) list \<Rightarrow> (prepared \<times> 'f step_stats) list" where
  "successes results =
     concat (map (\<lambda>(r, res). case res of Inr stats \<Rightarrow> [(r, stats)] | Inl _ \<Rightarrow> []) results)"

text \<open>
  \<open>by_base\<close>: the successful outputs grouped under the sub-step that declared them, through
  the index map \<open>idx_of\<close> (where a repeated name would keep its last index).
\<close>

definition by_base ::
  "sequential list \<Rightarrow> (prepared \<times> 'f step_stats) list \<Rightarrow> (string \<times> (string \<times> string) list) list" where
  "by_base run oks =
     map (\<lambda>(i, s). (sq_name s,
            map (\<lambda>(r, stats). (pr_label r, ss_output stats))
              (filter (\<lambda>(r, stats). rposition (\<lambda>s. sq_name s = pr_base r) run = Some i) oks)))
       (enumerate 0 run)"

definition aggregate :: "bool \<Rightarrow> sequential \<Rightarrow> (string \<times> string) list \<Rightarrow> string" where
  "aggregate is_dynamic s reps =
     (let expanded = is_dynamic \<or> 1 < replica_count s
      in case reps of
           [] \<Rightarrow> []
         | rep # _ \<Rightarrow> if expanded then join_labeled reps else snd rep)"

definition block_parts ::
  "bool \<Rightarrow> sequential list \<Rightarrow> (prepared \<times> 'f step_stats) list \<Rightarrow> (string \<times> string) list" where
  "block_parts is_dynamic run oks =
     map (\<lambda>(s, base, reps). (base, aggregate is_dynamic s reps)) (zip run (by_base run oks))"

definition finish_parallel ::
  "('f, 'w) env \<Rightarrow> parallel_step \<Rightarrow> (string \<times> string) list \<Rightarrow> ('f, 'w) executor \<Rightarrow>
     exec_err + ('f, 'w) executor" where
  "finish_parallel env p parts ex =
     (let ex = fold (\<lambda>(base, _) ex. emit_step base
                   (case ex_outputs ex base of Some out \<Rightarrow> out | None \<Rightarrow> []) ex) parts ex
      in rbind (enforce_budget env (par_name p) ex) (\<lambda>_. Inr ex))"

text \<open>
  The outputs of a block: each sub-step's under its own name, their aggregate under the
  block's. In ordered mode a dynamic block counts as its one sub-step for \<open>last_step\<close>.
\<close>

definition wire_outputs ::
  "('f, 'w) env \<Rightarrow> parallel_step \<Rightarrow> (string \<times> string) list \<Rightarrow> ('f, 'w) executor \<Rightarrow>
     exec_err + ('f, 'w) executor" where
  "wire_outputs env p parts ex =
     (let block_agg = (case parts of [(_, out)] \<Rightarrow> out | _ \<Rightarrow> join_labeled parts);
          ex = set_output (par_name p) block_agg (fold (\<lambda>(base, out). set_output base out) parts ex)
      in if ex_graph_mode ex \<or> par_match_pattern p = None then
           finish_parallel env p parts (set_last (par_name p) ex)
         else (case parts of
             [] \<Rightarrow> Inl (Panic ''index out of bounds'')
           | (base, _) # _ \<Rightarrow> finish_parallel env p parts (set_last base ex)))"

definition exec_parallel ::
  "('f, 'w) env \<Rightarrow> parallel_step \<Rightarrow> string \<Rightarrow> ('f, 'w) executor \<Rightarrow> exec_err + ('f, 'w) executor" where
  "exec_parallel env p input ex =
     rbind (prepare env p input ex) (\<lambda>(reps, ex).
     let oks = successes (run_replicas env (ex_world ex) reps);
         ex = fold (\<lambda>(r, stats). add_totals env stats) oks
                (ex\<lparr>ex_world := env_after_join env (ex_world ex)\<rparr>);
         total = length reps;
         succeeded = length oks;
         threshold = (case par_min_success p of Some m \<Rightarrow> unat m | None \<Rightarrow> total)
     in if succeeded < threshold then
          rbind (enforce_budget env (par_name p) ex) (\<lambda>_.
            Inl (ParallelFailed (par_name p) succeeded total threshold))
        else wire_outputs env p (block_parts (par_match_pattern p \<noteq> None) (par_run p) oks) ex)"

section \<open>Loops\<close>

text \<open>The output under which a finished loop is known: that of the last step run.\<close>

definition finish_loop :: "loop_step \<Rightarrow> ('f, 'w) executor \<Rightarrow> ('f, 'w) executor" where
  "finish_loop l ex =
     (let canonical = (case Option.bind (ex_last_step ex) (ex_outputs ex) of Some out \<Rightarrow> out | None \<Rightarrow> []);
          ex = set_output (loop_name l) canonical ex
      in if ex_graph_mode ex then set_last (loop_name l) ex else ex)"

definition loop_target :: "loop_step \<Rightarrow> condition \<Rightarrow> ('f, 'w) executor \<Rightarrow> exec_err + string" where
  "loop_target l c ex =
     (case cond_output c of
        Some n \<Rightarrow> Inr n
      | None \<Rightarrow> (case ex_last_step ex of
            Some n \<Rightarrow> Inr n
          | None \<Rightarrow> if loop_run l = [] then Inl (Panic ''unwrap on None'')
                    else Inr (sq_name (last (loop_run l)))))"

text \<open>Iterations \<open>i, i + 1, ...\<close>, the first argument counting those left.\<close>

fun loop_iterations ::
  "nat \<Rightarrow> nat \<Rightarrow> ('f, 'w) env \<Rightarrow> loop_step \<Rightarrow> string \<Rightarrow> ('f, 'w) executor \<Rightarrow>
     exec_err + ('f, 'w) executor" where
  "loop_iterations 0 i env l input ex = Inr (finish_loop l ex)"
| "loop_iterations (Suc n) i env l input ex =
     rbind (foldr_ok (exec_leaf env input) (loop_run l) ex) (\<lambda>ex.
     case loop_exit_when l of
       None \<Rightarrow> Inl (Panic ''validate() guarantees exit_when is set for loop steps'')
     | Some c \<Rightarrow>
         rbind (loop_target l c ex) (\<lambda>target.
         case ex_outputs ex target of
           None \<Rightarrow> Inl (LoopTargetMissing (loop_name l) target i)
         | Some v \<Rightarrow> if condition_matches (env_regex env) c v then Inr (finish_loop l ex)
                     else loop_iterations n (i + 1) env l input ex))"

definition exec_loop ::
  "('f, 'w) env \<Rightarrow> loop_step \<Rightarrow> string \<Rightarrow> ('f, 'w) executor \<Rightarrow> exec_err + ('f, 'w) executor" where
  "exec_loop env l input ex = loop_iterations (unat (loop_max_iterations l)) 1 env l input ex"

section \<open>Conditionals\<close>

definition cond_target :: "conditional_step \<Rightarrow> ('f, 'w) executor \<Rightarrow> exec_err + string" where
  "cond_target c ex =
     (case cond_output (cnd_condition c) of
        Some n \<Rightarrow> Inr n
      | None \<Rightarrow> (case ex_last_step ex of Some n \<Rightarrow> Inr n | None \<Rightarrow> Inl (CondNoPrior (cnd_name c))))"

definition default_output :: "string \<Rightarrow> ('f, 'w) executor \<Rightarrow> ('f, 'w) executor" where
  "default_output name ex = (if ex_outputs ex name = None then set_output name [] ex else ex)"

text \<open>The chosen branch, in declaration order, with the output of its last step.\<close>

fun run_branch ::
  "('f, 'w) env \<Rightarrow> string \<Rightarrow> sequential list \<Rightarrow> string \<Rightarrow> ('f, 'w) executor \<Rightarrow>
     exec_err + string \<times> ('f, 'w) executor" where
  "run_branch env input [] selected ex = Inr (selected, ex)"
| "run_branch env input (s # chosen) selected ex =
     rbind (exec_sequential env s input ex) (\<lambda>(stats, ex).
       run_branch env input chosen (ss_output stats)
         (set_last (sq_name s) (set_output (sq_name s) (ss_output stats) ex)))"

definition exec_conditional ::
  "('f, 'w) env \<Rightarrow> conditional_step \<Rightarrow> string \<Rightarrow> ('f, 'w) executor \<Rightarrow> exec_err + ('f, 'w) executor" where
  "exec_conditional env c input ex =
     rbind (cond_target c ex) (\<lambda>target.
     case ex_outputs ex target of
       None \<Rightarrow> Inl (CondTargetMissing (cnd_name c) target)
     | Some v \<Rightarrow>
         let branch = (if condition_matches (env_regex env) (cnd_condition c) v
                       then cnd_on_match c else cnd_on_no_match c);
             chosen = filter (\<lambda>s. sq_name s \<in> set branch) (cnd_run c);
             skipped = filter (\<lambda>s. sq_name s \<notin> set branch) (cnd_run c)
         in rbind (run_branch env input chosen [] ex) (\<lambda>(selected, ex).
              let ex = fold (\<lambda>s. default_output (sq_name s)) skipped ex;
                  ex = set_output (cnd_name c) selected ex
              in Inr (if ex_graph_mode ex then set_last (cnd_name c) ex else ex)))"

section \<open>Nodes and the two drivers\<close>

fun exec_node ::
  "('f, 'w) env \<Rightarrow> string \<Rightarrow> step \<Rightarrow> ('f, 'w) executor \<Rightarrow> exec_err + ('f, 'w) executor" where
  "exec_node env input (Sequential s) ex = exec_leaf env input s ex"
| "exec_node env input (Parallel p) ex = exec_parallel env p input ex"
| "exec_node env input (Loop l) ex = exec_loop env l input ex"
| "exec_node env input (Conditional c) ex = exec_conditional env c input ex"

text \<open>
  One turn of the graph driver: run the current node and select the next; then the loop,
  its first argument the transitions left.
\<close>

definition graph_turn ::
  "('f, 'w) env \<Rightarrow> 'f workflow_def \<Rightarrow> string \<Rightarrow> string \<times> ('f, 'w) executor \<Rightarrow>
     exec_err + string \<times> ('f, 'w) executor" where
  "graph_turn env wd input = (\<lambda>(current, ex).
     case find (\<lambda>st. step_name st = current) (wf_steps wd) of
       None \<Rightarrow> Inl (Panic ''validator guarantees every graph node exists'')
     | Some st \<Rightarrow>
         rbind (exec_node env input st ex) (\<lambda>ex.
         rbind (select_graph_edge (env_regex env) (wf_edges wd) (ex_outputs ex) current) (\<lambda>next_node.
           Inr (next_node, ex))))"

fun graph_loop ::
  "nat \<Rightarrow> ('f, 'w) env \<Rightarrow> 'f workflow_def \<Rightarrow> string \<Rightarrow> string \<times> ('f, 'w) executor \<Rightarrow>
     exec_err + ('f, 'w) executor" where
  "graph_loop 0 env wd input cfg =
     Inl (MaxTransitions (case wf_max_transitions wd of Some m \<Rightarrow> unat m | None \<Rightarrow> 0))"
| "graph_loop (Suc n) env wd input cfg =
     rbind (graph_turn env wd input cfg) (\<lambda>(next_node, ex).
       if next_node = END_NODE then Inr ex else graph_loop n env wd input (next_node, ex))"

definition workflow_output_names :: "'f workflow_def \<Rightarrow> string set" where
  "workflow_output_names wd =
     (\<Union>st\<in>set (wf_steps wd). insert (step_name st) (set (map sq_name (sub_steps st))))"

definition initial_executor :: "('f, 'w) env \<Rightarrow> 'f workflow_def \<Rightarrow> bool \<Rightarrow> 'w \<Rightarrow> ('f, 'w) executor" where
  "initial_executor env wd jsonl w =
     new_executor (env_f64 env) (wf_name wd) jsonl (wf_max_cost wd) (is_graph wd)
       (workflow_output_names wd) w"

definition execute ::
  "('f, 'w) env \<Rightarrow> 'f workflow_def \<Rightarrow> string \<Rightarrow> bool \<Rightarrow> 'w \<Rightarrow> exec_err + ('f, 'w) executor" where
  "execute env wd input jsonl w =
     (let ex = initial_executor env wd jsonl w
      in if is_graph wd then
           (case (wf_entry wd, wf_max_transitions wd) of
              (None, _) \<Rightarrow> Inl (Panic ''validated graph workflows set entry'')
            | (_, None) \<Rightarrow> Inl (Panic ''validated graph workflows set max_transitions'')
            | (Some entry, Some m) \<Rightarrow> graph_loop (unat m) env wd input (entry, ex))
         else foldr_ok (exec_node env input) (wf_steps wd) ex)"

end
