(* ===== verification/WfSound.thy ===== *)
theory WfSound
  imports WfBlocks
begin

text \<open>
  Soundness of the executor of \<open>src/workflow/run.rs\<close>: which errors a step, a block or a node can end
  in, and which outputs it leaves recorded. An error that names a missing output is only possible
  where the outputs that validation relies on are absent; the two drivers build on this.
\<close>

section \<open>What the operations leave alone\<close>

text \<open>Two states with the same outputs, last step, mode and names.\<close>

definition same_view :: "('f, 'w) executor \<Rightarrow> ('f, 'w) executor \<Rightarrow> bool" where
  "same_view ex ex' \<longleftrightarrow> ex_outputs ex' = ex_outputs ex \<and> ex_last_step ex' = ex_last_step ex \<and>
     ex_graph_mode ex' = ex_graph_mode ex \<and> ex_known_outputs ex' = ex_known_outputs ex \<and>
     ex_max_cost ex' = ex_max_cost ex"

lemma same_view_refl [simp]: "same_view ex ex"
  by (simp add: same_view_def)

lemma same_view_trans [trans]: "same_view a b \<Longrightarrow> same_view b c \<Longrightarrow> same_view a c"
  by (simp add: same_view_def)

named_theorems views "operations that keep the view"

lemma fold_stats_view [views]: "fold_stats env n m st ex = (st', ex') \<Longrightarrow> same_view ex ex'"
  by (auto simp: fold_stats_def same_view_def Let_def split: if_splits)

lemma add_totals_view [views]: "same_view ex (add_totals env st ex)"
  by (simp add: add_totals_def same_view_def)

lemma emit_step_view [views]: "same_view ex (emit_step n c ex)"
  by (simp add: emit_step_def same_view_def)

lemma session_id_view [views]: "session_id env n ex = (sid, ex') \<Longrightarrow> same_view ex ex'"
  by (auto simp: session_id_def same_view_def Let_def split: option.splits prod.splits)

lemma resolve_session_view [views]: "resolve_session env s wd ex = (sid, ex') \<Longrightarrow> same_view ex ex'"
  by (auto simp: resolve_session_def Let_def split: session_mode.splits prod.splits if_splits
      dest!: session_id_view) (auto simp: same_view_def)

lemma run_attempt_view [views]: "run_attempt env s p wd ex = (out, ex') \<Longrightarrow> same_view ex ex'"
  by (auto simp: run_attempt_def Let_def split: prod.splits dest!: resolve_session_view)
    (auto simp: same_view_def)

lemma record_failure_view [views]: "same_view ex (record_failure env s st ex)"
  by (auto simp: record_failure_def split: prod.splits
      intro: same_view_trans [OF fold_stats_view add_totals_view])

lemma record_success_view [views]:
  assumes "record_success env s st ex = Inr (st', ex')"
  shows "same_view ex ex'"
proof -
  let ?ex = "if sq_session s = Continue
    then ex\<lparr>ex_used_continue := (ex_used_continue ex)(sq_name s \<mapsto> True)\<rparr> else ex"
  obtain st1 ex1 where f: "fold_stats env (sq_name s) (sq_session s) st ?ex = (st1, ex1)"
    by (metis surj_pair)
  have "same_view ex ?ex" by (simp add: same_view_def)
  also have "same_view ?ex ex1" using fold_stats_view [OF f] .
  also have "same_view ex1 ex'"
    using assms f by (auto simp: record_success_def Let_def ok_simps
      intro: same_view_trans [OF emit_step_view add_totals_view])
  finally show ?thesis .
qed

lemma attempts_view [views]:
  "attempts env s p wd n err ex = Inr (st, ex') \<Longrightarrow> same_view ex ex'"
proof (induction n arbitrary: err ex)
  case 0
  then show ?case by simp
next
  case (Suc n)
  obtain out ex1 where r: "run_attempt env s p wd ex = (out, ex1)" by (metis surj_pair)
  have "same_view ex ex1" using run_attempt_view [OF r] .
  also have "same_view ex1 ex'"
    using Suc.prems r
    by (auto split: run_outcome.splits
        intro: Suc.IH record_success_view same_view_trans [OF record_failure_view Suc.IH])
  finally show ?case .
qed

lemma exec_sequential_view [views]:
  "exec_sequential env s input ex = Inr (st, ex') \<Longrightarrow> same_view ex ex'"
  by (auto simp: exec_sequential_def ok_simps dest: attempts_view)

section \<open>Errors\<close>

text \<open>
  The failures a step can meet at run time whatever was validated: its working directory,
  its subprocess, the budget, the data it is fed.
\<close>

fun run_time_failure :: "exec_err \<Rightarrow> bool" where
  "run_time_failure NoCurrentDir = True"
| "run_time_failure (NotADirectory _ _) = True"
| "run_time_failure (StepFailed _ _ _) = True"
| "run_time_failure (BudgetExceeded _) = True"
| "run_time_failure (NoItems _ _) = True"
| "run_time_failure (ParallelFailed _ _ _ _) = True"
| "run_time_failure (CondNoPrior _) = True"
| "run_time_failure _ = False"

text \<open>The failures that depend on the route taken: an output not produced yet.\<close>

fun route_failure :: "exec_err \<Rightarrow> bool" where
  "route_failure (OutputUnavailable _) = True"
| "route_failure (SourceUnavailable _ _) = True"
| "route_failure (LoopTargetMissing _ _ _) = True"
| "route_failure (CondTargetMissing _ _) = True"
| "route_failure (EdgeOutputUnavailable _ _ _) = True"
| "route_failure (MaxTransitions _) = True"
| "route_failure _ = False"

named_theorems errors "which errors an operation can return"

lemma enforce_budget_err [errors]: "enforce_budget env n ex = Inl e \<Longrightarrow> run_time_failure e"
  by (auto simp: enforce_budget_def err_simps split: option.splits)

lemma resolve_workdir_err [errors]: "resolve_workdir env n wd w = Inl e \<Longrightarrow> run_time_failure e"
  by (auto simp: resolve_workdir_def check_dir_def split: option.splits if_splits)

lemma substitute_err [errors]:
  "substitute env p input role ex = Inl e \<Longrightarrow> ex_graph_mode ex \<and> route_failure e"
  by (auto simp: substitute_def split: option.splits if_splits)

lemma record_success_err [errors]: "record_success env s st ex = Inl e \<Longrightarrow> run_time_failure e"
  by (auto simp: record_success_def Let_def err_simps split: prod.splits dest: enforce_budget_err)

lemma attempts_err [errors]: "attempts env s p wd n err ex = Inl e \<Longrightarrow> run_time_failure e"
proof (induction n arbitrary: err ex)
  case (Suc n)
  then show ?case
    by (auto split: prod.splits run_outcome.splits dest: record_success_err)
qed auto

lemma exec_sequential_err [errors]:
  "exec_sequential env s input ex = Inl e \<Longrightarrow> run_time_failure e \<or> (ex_graph_mode ex \<and> route_failure e)"
  by (auto simp: exec_sequential_def err_simps dest: substitute_err resolve_workdir_err attempts_err)

lemma exec_leaf_err [errors]:
  "exec_leaf env input s ex = Inl e \<Longrightarrow> run_time_failure e \<or> (ex_graph_mode ex \<and> route_failure e)"
  by (auto simp: exec_leaf_def err_simps split: prod.splits dest: exec_sequential_err)

section \<open>Progress of a node\<close>

text \<open>
  \<open>ready\<close>: the last step has an output. \<open>extends\<close>: outputs are only added, the mode
  and the names stay, and \<open>ready\<close> is kept.
\<close>

definition ready :: "('f, 'w) executor \<Rightarrow> bool" where
  "ready ex \<longleftrightarrow> (\<forall>n. ex_last_step ex = Some n \<longrightarrow> n \<in> dom (ex_outputs ex))"

definition extends :: "('f, 'w) executor \<Rightarrow> ('f, 'w) executor \<Rightarrow> bool" where
  "extends ex ex' \<longleftrightarrow> dom (ex_outputs ex) \<subseteq> dom (ex_outputs ex') \<and>
     ex_graph_mode ex' = ex_graph_mode ex \<and> ex_known_outputs ex' = ex_known_outputs ex \<and>
     ex_max_cost ex' = ex_max_cost ex \<and> (ready ex \<longrightarrow> ready ex')"

lemma extends_refl [simp]: "extends ex ex"
  by (simp add: extends_def)

lemma extends_trans [trans]: "extends a b \<Longrightarrow> extends b c \<Longrightarrow> extends a c"
  by (auto simp: extends_def)

lemma extends_graph: "extends ex ex' \<Longrightarrow> ex_graph_mode ex' = ex_graph_mode ex"
  by (simp add: extends_def)

lemma extends_dom: "extends ex ex' \<Longrightarrow> n \<in> dom (ex_outputs ex) \<Longrightarrow> n \<in> dom (ex_outputs ex')"
  by (auto simp: extends_def)

lemma extends_sub: "extends ex ex' \<Longrightarrow> A \<subseteq> dom (ex_outputs ex) \<Longrightarrow> A \<subseteq> dom (ex_outputs ex')"
  using extends_dom by blast

lemma same_view_extends: "same_view ex ex' \<Longrightarrow> extends ex ex'"
  by (auto simp: same_view_def extends_def ready_def)

lemma outputs_set [simp]:
  "ex_outputs (set_output n v ex) = (ex_outputs ex)(n \<mapsto> v)"
  "ex_outputs (set_last n ex) = ex_outputs ex"
  "ex_last_step (set_output n v ex) = ex_last_step ex"
  "ex_last_step (set_last n ex) = Some n"
  "ex_graph_mode (set_output n v ex) = ex_graph_mode ex"
  "ex_graph_mode (set_last n ex) = ex_graph_mode ex"
  by (simp_all add: set_output_def set_last_def)

lemma extends_set_output [simp]: "extends ex (set_output n v ex)"
  by (auto simp: extends_def ready_def set_output_def)

lemma extends_set_last: "n \<in> dom (ex_outputs ex) \<Longrightarrow> extends ex (set_last n ex)"
  by (auto simp: extends_def ready_def set_last_def)

lemma exec_leaf_ok:
  assumes "exec_leaf env input s ex = Inr ex'"
  shows "extends ex ex' \<and> sq_name s \<in> dom (ex_outputs ex') \<and> ex_last_step ex' = Some (sq_name s)"
proof -
  from assms obtain st ex1 where e: "exec_sequential env s input ex = Inr (st, ex1)"
    and ex': "ex' = set_last (sq_name s) (set_output (sq_name s) (ss_output st) ex1)"
    by (auto simp: exec_leaf_def ok_simps)
  have "extends ex ex1" by (rule same_view_extends [OF exec_sequential_view [OF e]])
  also have "extends ex1 (set_output (sq_name s) (ss_output st) ex1)" by simp
  also have "extends \<dots> ex'" unfolding ex' by (rule extends_set_last) simp
  finally show ?thesis by (simp add: ex')
qed

lemma exec_leaves_ok:
  assumes "foldr_ok (exec_leaf env input) run ex = Inr ex'"
  shows "extends ex ex' \<and> set (map sq_name run) \<subseteq> dom (ex_outputs ex') \<and>
    (run \<noteq> [] \<longrightarrow> (\<exists>n. ex_last_step ex' = Some n \<and> n \<in> dom (ex_outputs ex')))"
  using assms
proof (induction run arbitrary: ex)
  case Nil
  then show ?case by simp
next
  case (Cons s run)
  then obtain ex1 where s: "exec_leaf env input s ex = Inr ex1"
    and run: "foldr_ok (exec_leaf env input) run ex1 = Inr ex'" by (auto simp: ok_simps)
  from exec_leaf_ok [OF s] Cons.IH [OF run] show ?case
    by (cases "run = []") (use run in \<open>auto simp: extends_def\<close>)
qed

lemma fold_set_output:
  fixes ex :: "('f, 'w) executor"
  defines "run \<equiv> fold (\<lambda>(b, v). set_output b v)"
  shows "extends ex (run parts ex)" "fst ` set parts \<subseteq> dom (ex_outputs (run parts ex))"
    "ex_graph_mode (run parts ex) = ex_graph_mode ex"
proof -
  have "extends ex (run parts ex) \<and> fst ` set parts \<subseteq> dom (ex_outputs (run parts ex))"
  proof (induction parts arbitrary: ex)
    case Nil
    then show ?case by (simp add: run_def)
  next
    case (Cons p parts)
    obtain b v where p: "p = (b, v)" by (cases p)
    have "run (p # parts) ex = run parts (set_output b v ex)" by (simp add: run_def p)
    moreover have "b \<in> dom (ex_outputs (run parts (set_output b v ex)))"
      using Cons [of "set_output b v ex"] by (auto simp: extends_def)
    ultimately show ?case
      using Cons [of "set_output b v ex"] extends_trans [OF extends_set_output] p by auto
  qed
  then show "extends ex (run parts ex)" "fst ` set parts \<subseteq> dom (ex_outputs (run parts ex))"
    "ex_graph_mode (run parts ex) = ex_graph_mode ex" by (auto simp: extends_def)
qed

lemma fold_view:
  assumes "\<And>x ex. same_view ex (f x ex)"
  shows "same_view ex (fold f xs ex)"
proof (induction xs arbitrary: ex)
  case (Cons x xs)
  show ?case using same_view_trans [OF assms Cons] by simp
qed simp

lemma prepare_items_ok:
  "prepare_items env p t wd input i items ex = Inr (reps, ex') \<Longrightarrow>
   extends ex ex' \<and> ex_last_step ex' = ex_last_step ex"
proof (induction items arbitrary: i ex reps)
  case Nil
  then show ?case by simp
next
  case (Cons item items)
  then have "extends (set_output (par_name p) item ex) ex' \<and>
      ex_last_step ex' = ex_last_step (set_output (par_name p) item ex)"
    by (auto simp: Let_def ok_simps)
  then show ?case using extends_trans [OF extends_set_output] by (metis outputs_set(3))
qed

lemma prepare_ok: "prepare env p input ex = Inr (reps, ex') \<Longrightarrow> extends ex ex'"
  by (auto simp: prepare_def prepare_dynamic_def Let_def ok_simps dest: prepare_items_ok
      split: option.splits list.splits if_splits)

lemma finish_parallel_ok: "finish_parallel env p parts ex = Inr ex' \<Longrightarrow> same_view ex ex'"
proof -
  assume "finish_parallel env p parts ex = Inr ex'"
  then have "ex' = fold (\<lambda>(base, _) ex. emit_step base
       (case ex_outputs ex base of Some out \<Rightarrow> out | None \<Rightarrow> []) ex) parts ex"
    by (auto simp: finish_parallel_def Let_def ok_simps)
  then show ?thesis by (auto intro: fold_view emit_step_view)
qed

lemma fst_block_parts: "map fst (block_parts d run oks) = map sq_name run"
  by (auto simp: block_parts_def by_base_def zip_map2 enumerate_eq_zip intro!: nth_equalityI)

text \<open>What a node leaves among the outputs, and the outputs it tests or splits.\<close>

definition produced :: "step \<Rightarrow> string set" where
  "produced st = insert (step_name st) (set (map sq_name (sub_steps st)))"

fun iterates :: "step \<Rightarrow> bool" where
  "iterates (Loop l) \<longleftrightarrow> loop_max_iterations l \<noteq> 0"
| "iterates _ \<longleftrightarrow> True"

fun needs :: "step \<Rightarrow> string set" where
  "needs (Sequential s) = {}"
| "needs (Parallel p) = (if par_match_pattern p = None then {} else set_option (par_source p))"
| "needs (Loop l) = (case loop_exit_when l of
      Some c \<Rightarrow> set_option (cond_output c) - set (map sq_name (loop_run l)) | None \<Rightarrow> {})"
| "needs (Conditional c) = set_option (cond_output (cnd_condition c))"

lemma wire_outputs_ok:
  assumes "wire_outputs env p parts ex = Inr ex'"
  shows "extends ex ex' \<and> insert (par_name p) (fst ` set parts) \<subseteq> dom (ex_outputs ex')"
proof -
  define agg where "agg = (case parts of [(_, out)] \<Rightarrow> out | _ \<Rightarrow> join_labeled parts)"
  define ex1 where "ex1 = fold (\<lambda>(b, v). set_output b v) parts ex"
  have "\<exists>n\<in>insert (par_name p) (fst ` set parts).
      finish_parallel env p parts (set_last n (set_output (par_name p) agg ex1)) = Inr ex'"
    using assms unfolding wire_outputs_def agg_def [symmetric] ex1_def [symmetric] Let_def
    by (cases parts) (auto split: if_splits)
  then obtain n where n: "n \<in> insert (par_name p) (fst ` set parts)"
    and fin: "finish_parallel env p parts (set_last n (set_output (par_name p) agg ex1)) = Inr ex'" ..
  have "extends ex ex1" unfolding ex1_def by (rule fold_set_output)
  also have "extends ex1 (set_output (par_name p) agg ex1)" by simp
  also have "extends \<dots> (set_last n (set_output (par_name p) agg ex1))"
    using n fold_set_output(2) [of parts ex] by (intro extends_set_last) (auto simp: ex1_def)
  also have "extends \<dots> ex'" by (rule same_view_extends [OF finish_parallel_ok [OF fin]])
  finally have "extends ex ex'" .
  moreover have "ex_outputs ex' = (ex_outputs ex1)(par_name p \<mapsto> agg)"
    using finish_parallel_ok [OF fin] by (simp add: same_view_def)
  ultimately show ?thesis using fold_set_output(2) [of parts ex, folded ex1_def] by auto
qed

lemma exec_parallel_ok:
  assumes "exec_parallel env p input ex = Inr ex'"
  shows "extends ex ex' \<and> produced (Parallel p) \<subseteq> dom (ex_outputs ex')"
proof -
  from assms obtain reps ex1 where prep: "prepare env p input ex = Inr (reps, ex1)"
    by (auto simp: exec_parallel_def rbind_def split: sum.splits)
  define oks where "oks = successes (run_replicas env (ex_world ex1) reps)"
  define ex2 where "ex2 = fold (\<lambda>(r, stats). add_totals env stats) oks
    (ex1\<lparr>ex_world := env_after_join env (ex_world ex1)\<rparr>)"
  define parts where "parts = block_parts (par_match_pattern p \<noteq> None) (par_run p) oks"
  have wire: "wire_outputs env p parts ex2 = Inr ex'"
    using assms prep
    by (auto simp: exec_parallel_def Let_def ok_simps oks_def [symmetric] ex2_def [symmetric]
        parts_def [symmetric] simp del: not_None_eq split: if_splits)
  have "extends ex ex1" by (rule prepare_ok [OF prep])
  also have "extends ex1 ex2"
    unfolding ex2_def by (intro same_view_extends same_view_trans [OF _ fold_view])
      (auto simp: same_view_def add_totals_def)
  also have "extends ex2 ex'" using wire_outputs_ok [OF wire] by simp
  finally have "extends ex ex'" .
  moreover have "fst ` set parts = set (map sq_name (par_run p))"
    unfolding parts_def by (metis fst_block_parts list.set_map)
  ultimately show ?thesis using wire_outputs_ok [OF wire] by (simp add: produced_def)
qed

lemma finish_loop_ok: "extends ex (finish_loop l ex) \<and> loop_name l \<in> dom (ex_outputs (finish_loop l ex))"
  by (auto simp: finish_loop_def Let_def intro: extends_trans [OF extends_set_output extends_set_last])

lemma loop_iterations_ok:
  assumes "loop_iterations n i env l input ex = Inr ex'"
  shows "extends ex ex' \<and> loop_name l \<in> dom (ex_outputs ex') \<and>
    (n \<noteq> 0 \<longrightarrow> set (map sq_name (loop_run l)) \<subseteq> dom (ex_outputs ex'))"
  using assms
proof (induction n arbitrary: i ex)
  case 0
  then show ?case using finish_loop_ok by fastforce
next
  case (Suc n)
  then obtain ex1 where run: "foldr_ok (exec_leaf env input) (loop_run l) ex = Inr ex1"
    and rest: "ex' = finish_loop l ex1 \<or> loop_iterations n (i + 1) env l input ex1 = Inr ex'"
    by (auto simp: ok_simps split: option.splits if_splits)
  from rest have "extends ex1 ex' \<and> loop_name l \<in> dom (ex_outputs ex')"
    using finish_loop_ok Suc.IH by blast
  with exec_leaves_ok [OF run] show ?case using extends_trans extends_sub by blast
qed

lemma run_branch_ok:
  assumes "run_branch env input chosen sel ex = Inr (out, ex')"
  shows "extends ex ex' \<and> set (map sq_name chosen) \<subseteq> dom (ex_outputs ex')"
  using assms
proof (induction chosen arbitrary: sel ex)
  case Nil
  then show ?case by simp
next
  case (Cons s chosen)
  then obtain ex1 sel1 where leaf: "exec_leaf env input s ex = Inr ex1"
    and rest: "run_branch env input chosen sel1 ex1 = Inr (out, ex')"
    by (fastforce simp: exec_leaf_def ok_simps)
  note parts = exec_leaf_ok [OF leaf] Cons.IH [OF rest]
  then have "sq_name s \<in> dom (ex_outputs ex')" using extends_dom by blast
  with parts show ?case using extends_trans [of ex ex1 ex'] by simp
qed

lemma fold_default_output:
  "extends ex (fold (\<lambda>s. default_output (sq_name s)) xs ex) \<and>
   set (map sq_name xs) \<subseteq> dom (ex_outputs (fold (\<lambda>s. default_output (sq_name s)) xs ex))"
proof (induction xs arbitrary: ex)
  case (Cons s xs)
  let ?ex = "default_output (sq_name s) ex" and ?ex' = "fold (\<lambda>s. default_output (sq_name s)) xs (default_output (sq_name s) ex)"
  have here: "extends ex ?ex" "sq_name s \<in> dom (ex_outputs ?ex)" by (auto simp: default_output_def)
  moreover have "sq_name s \<in> dom (ex_outputs ?ex')" using here(2) Cons extends_dom by blast
  ultimately show ?case using Cons [of ?ex] extends_trans [of ex ?ex ?ex'] by simp
qed simp

lemma exec_conditional_ok:
  assumes "exec_conditional env c input ex = Inr ex'"
  shows "extends ex ex' \<and> produced (Conditional c) \<subseteq> dom (ex_outputs ex')"
proof -
  from assms obtain branch sel ex1 where
    run: "run_branch env input (filter (\<lambda>s. sq_name s \<in> set branch) (cnd_run c)) [] ex = Inr (sel, ex1)"
    and ex': "ex' = (let ex2 = set_output (cnd_name c) sel (fold (\<lambda>s. default_output (sq_name s))
        (filter (\<lambda>s. sq_name s \<notin> set branch) (cnd_run c)) ex1)
      in if ex_graph_mode ex2 then set_last (cnd_name c) ex2 else ex2)"
    by (auto simp: exec_conditional_def Let_def ok_simps split: option.splits if_splits)
  let ?ex2 = "fold (\<lambda>s. default_output (sq_name s)) (filter (\<lambda>s. sq_name s \<notin> set branch) (cnd_run c)) ex1"
  have "extends ex ex1" using run_branch_ok [OF run] by simp
  also have x12: "extends ex1 ?ex2" using fold_default_output by blast
  also have "extends ?ex2 (set_output (cnd_name c) sel ?ex2)" by simp
  also have "extends \<dots> ex'" unfolding ex' Let_def by (auto intro: extends_set_last)
  finally have ext: "extends ex ex'" .
  have out: "ex_outputs ex' = (ex_outputs ?ex2)(cnd_name c \<mapsto> sel)" by (simp add: ex' Let_def)
  have "set (map sq_name (cnd_run c)) \<subseteq>
      set (map sq_name (filter (\<lambda>s. sq_name s \<in> set branch) (cnd_run c))) \<union>
      set (map sq_name (filter (\<lambda>s. sq_name s \<notin> set branch) (cnd_run c)))" by auto
  also have "\<dots> \<subseteq> dom (ex_outputs ?ex2)"
    using extends_sub [OF x12 conjunct2 [OF run_branch_ok [OF run]]] fold_default_output by blast
  finally show ?thesis using ext out by (auto simp: produced_def)
qed

lemma exec_node_ok:
  assumes "exec_node env input st ex = Inr ex'"
  shows "extends ex ex' \<and> step_name st \<in> dom (ex_outputs ex') \<and>
    (iterates st \<longrightarrow> produced st \<subseteq> dom (ex_outputs ex'))"
proof (cases st)
  case (Sequential s)
  with assms exec_leaf_ok [of env input s ex ex'] show ?thesis by (simp add: produced_def)
next
  case (Parallel p)
  with assms exec_parallel_ok [of env p input ex ex'] show ?thesis by (simp add: produced_def)
next
  case (Loop l)
  with assms have "loop_iterations (unat (loop_max_iterations l)) 1 env l input ex = Inr ex'"
    by (simp add: exec_loop_def)
  from loop_iterations_ok [OF this] Loop show ?thesis by (auto simp: produced_def unat_eq_0)
next
  case (Conditional c)
  with assms exec_conditional_ok [of env c input ex ex'] show ?thesis by (simp add: produced_def)
qed

section \<open>Failures of a node\<close>

text \<open>
  A node that passed the structural checks fails only at run time or, in graph mode or for
  want of an output it tests, on its route: never by a panic, a regex that does not compile
  or a missing route.
\<close>

abbreviation allowed :: "bool \<Rightarrow> exec_err \<Rightarrow> bool" where
  "allowed routes e \<equiv> run_time_failure e \<or> (routes \<and> route_failure e)"

lemma prepare_items_err:
  "prepare_items env p t wd input i items ex = Inl e \<Longrightarrow> allowed (ex_graph_mode ex) e"
proof (induction items arbitrary: i ex)
  case (Cons item items)
  then show ?case by (fastforce simp: Let_def err_simps split: prod.splits dest: substitute_err)
qed simp

lemma prepare_static_err:
  "prepare_static env input ex run = Inl e \<Longrightarrow> allowed (ex_graph_mode ex) e"
  by (induction run) (auto simp: err_simps dest: substitute_err resolve_workdir_err)

lemma prepare_err:
  assumes "structural_check (env_regex env) (Parallel p) = Inr ()"
    and "routes \<or> (\<not> ex_graph_mode ex \<and> needs (Parallel p) \<subseteq> dom (ex_outputs ex))"
    and "prepare env p input ex = Inl e"
  shows "allowed routes e"
proof (cases "par_match_pattern p")
  case None
  with assms(2,3) show ?thesis
    by (auto simp: prepare_def err_simps dest: prepare_static_err)
next
  case (Some pattern)
  with assms(1) obtain source template where
    "par_source p = Some source" "par_run p = [template]" "rx_ok (env_regex env) pattern"
    by (auto simp: check_dynamic_def ok_simps length_Suc_conv split: option.splits if_splits)
  with Some assms(2,3) show ?thesis
    by (auto simp: prepare_def prepare_dynamic_def Let_def err_simps dest: resolve_workdir_err
        prepare_items_err split: option.splits if_splits)
qed

lemma finish_parallel_err: "finish_parallel env p parts ex = Inl e \<Longrightarrow> run_time_failure e"
  by (auto simp: finish_parallel_def Let_def err_simps dest: enforce_budget_err)

lemma block_parts_Nil: "block_parts d run oks = [] \<longleftrightarrow> run = []"
  using fst_block_parts [of d run oks] by (metis Nil_is_map_conv)

lemma wire_outputs_err: "wire_outputs env p parts ex = Inl e \<Longrightarrow> parts \<noteq> [] \<Longrightarrow> run_time_failure e"
  by (cases parts) (auto simp: wire_outputs_def Let_def dest: finish_parallel_err split: if_splits)

lemma exec_parallel_err:
  assumes check: "structural_check (env_regex env) (Parallel p) = Inr ()"
    and "routes \<or> (\<not> ex_graph_mode ex \<and> needs (Parallel p) \<subseteq> dom (ex_outputs ex))"
    and "exec_parallel env p input ex = Inl e"
  shows "allowed routes e"
proof -
  have "par_run p \<noteq> []"
    using check by (auto simp: check_dynamic_def check_static_def ok_simps split: option.splits if_splits)
  then show ?thesis
    using assms(3) unfolding exec_parallel_def Let_def
    by (auto simp: err_simps block_parts_Nil simp del: not_None_eq dest!: prepare_err [OF check assms(2)]
        wire_outputs_err dest: enforce_budget_err split: if_splits)
qed

lemma loop_iterations_err:
  assumes "structural_check (env_regex env) (Loop l) = Inr ()"
    and "routes \<or> (\<not> ex_graph_mode ex \<and> needs (Loop l) \<subseteq> dom (ex_outputs ex))"
    and "loop_iterations n i env l input ex = Inl e"
  shows "allowed routes e"
  using assms(2,3)
proof (induction n arbitrary: i ex)
  case 0
  then show ?case by simp
next
  case (Suc n)
  from assms(1) obtain c where run: "loop_run l \<noteq> []" and c: "loop_exit_when l = Some c"
    by (auto simp: ok_simps split: option.splits if_splits)
  show ?case
  proof (cases "foldr_ok (exec_leaf env input) (loop_run l) ex")
    case (Inl e')
    have "\<exists>s\<in>set (loop_run l). \<exists>t. ex_graph_mode t = ex_graph_mode ex \<and> exec_leaf env input s t = Inl e'"
      by (rule foldr_ok_no_err [OF refl Inl]) (auto dest: exec_leaf_ok extends_graph)
    with Inl Suc.prems show ?thesis by (auto dest: exec_leaf_err)
  next
    case (Inr ex1)
    note leaves = exec_leaves_ok [OF Inr]
    then have mode: "ex_graph_mode ex1 = ex_graph_mode ex" and sub: "dom (ex_outputs ex) \<subseteq> dom (ex_outputs ex1)"
      by (auto simp: extends_def)
    from Suc.prems(1) have again: "routes \<or> (\<not> ex_graph_mode ex1 \<and> needs (Loop l) \<subseteq> dom (ex_outputs ex1))"
      using mode sub by (metis order_trans)
    obtain n' where last: "ex_last_step ex1 = Some n'" "n' \<in> dom (ex_outputs ex1)" using leaves run by auto
    have target: "routes \<or> t \<in> dom (ex_outputs ex1)" if "loop_target l c ex1 = Inr t" for t
      using that last again leaves c
      by (cases "t \<in> set (map sq_name (loop_run l))") (auto simp: loop_target_def split: option.splits)
    have "\<exists>t. loop_target l c ex1 = Inr t"
      using last(1) by (simp add: loop_target_def split: option.splits)
    then obtain t where t: "loop_target l c ex1 = Inr t" ..
    show ?thesis
    proof (cases "ex_outputs ex1 t")
      case None
      with target [OF t] have "routes" by auto
      with Suc.prems(2) Inr c t None show ?thesis by auto
    next
      case (Some v)
      with Suc.prems(2) Inr c t Suc.IH [OF again] show ?thesis by (auto split: if_splits)
    qed
  qed
qed

lemma run_branch_err:
  "run_branch env input chosen sel ex = Inl e \<Longrightarrow> allowed (ex_graph_mode ex) e"
proof (induction chosen arbitrary: sel ex)
  case (Cons s chosen)
  show ?case
  proof (cases "exec_sequential env s input ex")
    case (Inl e')
    with Cons.prems show ?thesis by (auto dest: exec_sequential_err)
  next
    case (Inr r)
    obtain st ex1 where r: "r = (st, ex1)" by (cases r)
    have "ex_graph_mode ex1 = ex_graph_mode ex"
      using exec_sequential_view [of env s input ex st ex1] Inr r by (simp add: same_view_def)
    moreover have "run_branch env input chosen (ss_output st)
        (set_last (sq_name s) (set_output (sq_name s) (ss_output st) ex1)) = Inl e"
      using Cons.prems Inr r by simp
    ultimately show ?thesis using Cons.IH by fastforce
  qed
qed simp

lemma cond_target_err: "cond_target c ex = Inl e \<Longrightarrow> run_time_failure e"
  by (auto simp: cond_target_def split: option.splits)

lemma exec_conditional_err:
  assumes "routes \<or> (\<not> ex_graph_mode ex \<and> needs (Conditional c) \<subseteq> dom (ex_outputs ex))"
    and "ready ex" and "exec_conditional env c input ex = Inl e"
  shows "allowed routes e"
proof -
  have target: "routes \<or> t \<in> dom (ex_outputs ex)" if "cond_target c ex = Inr t" for t
    using that assms(1,2) by (auto simp: cond_target_def ready_def split: option.splits)
  show ?thesis
    using assms(1,3)
    by (auto simp: exec_conditional_def Let_def err_simps domIff
        dest!: target run_branch_err cond_target_err split: option.splits if_splits)
qed

lemma exec_node_err:
  assumes "structural_check (env_regex env) st = Inr ()" and "ready ex"
    and "routes \<or> (\<not> ex_graph_mode ex \<and> needs st \<subseteq> dom (ex_outputs ex))"
    and "exec_node env input st ex = Inl e"
  shows "allowed routes e"
proof (cases st)
  case (Sequential s)
  with assms(3,4) show ?thesis by (auto dest: exec_leaf_err)
next
  case (Parallel p)
  with assms exec_parallel_err show ?thesis by (metis exec_node.simps(2))
next
  case (Loop l)
  with assms loop_iterations_err show ?thesis by (metis exec_loop_def exec_node.simps(3))
next
  case (Conditional c)
  with assms exec_conditional_err show ?thesis by (metis exec_node.simps(4))
qed

end
