(* ===== verification/WfDrivers.thy ===== *)
theory WfDrivers
  imports WfSound
begin

text \<open>
  The two drivers of a workflow run (\<open>Executor::run_ordered\<close> and \<open>Executor::run_graph\<close>
  in \<open>src/workflow/run.rs\<close>) over a workflow that \<open>validate\<close> accepted: what an accepted
  workflow looks like, that the ordered driver finds every output it needs, and that the graph
  driver follows the step relation \<open>graph_step\<close> from the entry to \<open>$end\<close>.
\<close>

section \<open>What validation establishes\<close>

lemma insert_unique_ok [ok_simps]:
  "insert_unique n A = Inr A' \<longleftrightarrow>
     n \<noteq> ''input'' \<and> n \<noteq> END_NODE \<and> \<not> is_blank n \<and> n \<notin> A \<and> A' = insert n A"
  by (auto simp: insert_unique_def)

text \<open>The names of a workflow in the order they are collected.\<close>

definition declared_names :: "step \<Rightarrow> string list" where
  "declared_names st = step_name st # map sq_name (sub_steps st)"

definition usable_name :: "string \<Rightarrow> bool" where
  "usable_name n \<longleftrightarrow> n \<noteq> ''input'' \<and> n \<noteq> END_NODE \<and> \<not> is_blank n"

lemma insert_all_ok:
  "foldr_ok insert_unique ns A = Inr A' \<Longrightarrow>
   distinct ns \<and> set ns \<inter> A = {} \<and> A' = set ns \<union> A \<and> (\<forall>n\<in>set ns. usable_name n)"
proof (induction ns arbitrary: A)
  case Nil
  then show ?case by simp
next
  case (Cons n ns)
  then have "foldr_ok insert_unique ns (insert n A) = Inr A'" "usable_name n" "n \<notin> A"
    by (auto simp: ok_simps usable_name_def)
  with Cons.IH show ?case by fastforce
qed

lemma collect_names_insert: "collect_names st A = foldr_ok insert_unique (declared_names st) A"
proof -
  have "foldr_ok (\<lambda>s. insert_unique (sq_name s)) run B = foldr_ok insert_unique (map sq_name run) B" for run :: "sequential list" and B
    by (induction run arbitrary: B) (auto simp: rbind_def split: sum.splits)
  then show ?thesis by (simp add: collect_names_def declared_names_def rbind_def split: sum.splits)
qed

lemma collect_all_ok:
  "foldr_ok collect_names steps A = Inr A' \<Longrightarrow>
   foldr_ok insert_unique (concat (map declared_names steps)) A = Inr A'"
  by (induction steps arbitrary: A) (auto simp: ok_simps foldr_ok_append collect_names_insert)

lemma validate_ok:
  assumes "validate rx fo wd = Inr ()"
  obtains names where "foldr_ok collect_names (wf_steps wd) {} = Inr names"
    and "wf_steps wd \<noteq> []"
    and "\<And>st. st \<in> set (wf_steps wd) \<Longrightarrow> structural_check rx st = Inr ()"
    and "is_graph wd \<Longrightarrow> validate_graph rx wd names = Inr ()"
    and "\<And>st. is_graph wd \<Longrightarrow> st \<in> set (wf_steps wd) \<Longrightarrow>
           check_graph_step_refs st (insert ''input'' names) = Inr ()"
    and "\<not> is_graph wd \<Longrightarrow> \<exists>A. foldr_ok check_step_refs (wf_steps wd) {''input''} = Inr A"
    and "\<And>cap. wf_max_cost wd = Some cap \<Longrightarrow> f_finite fo cap \<and> \<not> f_le fo cap (f_zero fo)"
proof -
  from assms obtain names where "foldr_ok collect_names (wf_steps wd) {} = Inr names"
    by (auto simp: validate_def ok_simps split: if_splits option.splits)
  with assms that [OF this] show thesis
    by (auto simp: validate_def ok_simps split: if_splits option.splits)
qed

lemma check_edge_ok:
  "check_edge rx tops names e = Inr () \<Longrightarrow>
   edge_from e \<in> set tops \<and> (edge_to e = END_NODE \<or> edge_to e \<in> set tops)"
  by (auto simp: check_edge_def ok_simps)

lemma validate_graph_ok:
  assumes "validate_graph rx wd names = Inr ()"
  obtains entry m where "wf_entry wd = Some entry" and "wf_max_transitions wd = Some m"
    and "entry \<in> set (top_names wd)"
    and "\<And>e. e \<in> set (wf_edges wd) \<Longrightarrow> edge_to e = END_NODE \<or> edge_to e \<in> set (top_names wd)"
    and "\<And>n. n \<in> set (top_names wd) \<Longrightarrow> check_routes (wf_edges wd) n = Inr ()"
    and "set (top_names wd) \<subseteq> reachable_from (wf_edges wd) entry"
    and "\<exists>n\<in>reachable_from (wf_edges wd) entry. ends (wf_edges wd) n"
proof -
  from assms obtain entry m where e: "wf_entry wd = Some entry" and m: "wf_max_transitions wd = Some m"
    by (auto simp: validate_graph_def split: option.splits if_splits)
  obtain r b where bfs: "bfs (wf_edges wd) [entry] {} False = (r, b)" by (metis surj_pair)
  have reach: "reachable_from (wf_edges wd) entry = r" "b \<longleftrightarrow> (\<exists>n\<in>r. ends (wf_edges wd) n)"
    using bfs_reachable [OF bfs] by simp_all
  show thesis
    using assms by (intro that [OF e m])
      (auto simp: validate_graph_def e m ok_simps bfs Let_def filter_empty_conv
        reach simp del: bfs.simps dest: check_edge_ok split: if_splits)
qed

lemma unconditional_Cons:
  "unconditional (e # routes) =
     (if edge_when e = None then [0] else []) @ map Suc (unconditional routes)"
proof -
  have "concat (map (\<lambda>(i, e). if edge_when e = None then [i] else []) (enumerate (Suc k) routes)) =
      map Suc (concat (map (\<lambda>(i, e). if edge_when e = None then [i] else []) (enumerate k routes)))" for k
    by (induction routes arbitrary: k) auto
  then show ?thesis by (simp add: unconditional_def)
qed

text \<open>One default edge, and it is the last.\<close>

lemma check_routes_shape:
  assumes "check_routes edges n = Inr ()"
  shows "\<exists>conds dflt. outgoing edges n = conds @ [dflt] \<and> edge_when dflt = None \<and>
    (\<forall>e\<in>set conds. edge_when e \<noteq> None)"
proof -
  have "\<exists>conds dflt. routes = conds @ [dflt] \<and> edge_when dflt = None \<and> (\<forall>e\<in>set conds. edge_when e \<noteq> None)"
    if "unconditional routes = [i]" "Suc i = length routes" for routes i
    using that
  proof (induction routes arbitrary: i)
    case Nil
    then show ?case by simp
  next
    case (Cons e routes)
    show ?case
    proof (cases "edge_when e")
      case None
      with Cons.prems have "routes = []" by (auto simp: unconditional_Cons)
      with None show ?thesis by (intro exI [of _ "[]"] exI [of _ e]) simp
    next
      case (Some c)
      with Cons.prems obtain j where "unconditional routes = [j]" "Suc j = length routes"
        by (auto simp: unconditional_Cons)
      from Cons.IH [OF this] obtain conds dflt where "routes = conds @ [dflt]"
        "edge_when dflt = None" "\<forall>e\<in>set conds. edge_when e \<noteq> None" by blast
      with Some show ?thesis by (intro exI [of _ "e # conds"] exI [of _ dflt]) simp
    qed
  qed
  moreover obtain i where "unconditional (outgoing edges n) = [i]" "Suc i = length (outgoing edges n)"
    using assms by (auto simp: check_routes_def Let_def ok_simps length_Suc_conv split: if_splits)
  ultimately show ?thesis by blast
qed

lemma declared_top_names: "n \<in> set (top_names wd) \<Longrightarrow> n \<in> set (concat (map declared_names (wf_steps wd)))"
  by (auto simp: top_names_def declared_names_def)

lemma distinct_top_names:
  "distinct (concat (map declared_names (wf_steps wd))) \<Longrightarrow> distinct (top_names wd)"
proof -
  have "distinct (concat (map declared_names steps)) \<Longrightarrow> distinct (map step_name steps)" for steps
    by (induction steps) (force simp: declared_names_def)+
  then show "distinct (concat (map declared_names (wf_steps wd))) \<Longrightarrow> distinct (top_names wd)"
    by (simp add: top_names_def)
qed

section \<open>Ordered workflows\<close>

lemma check_step_refs_ok:
  assumes "check_step_refs st A = Inr A'"
  shows "needs st \<subseteq> A \<and> A' \<subseteq> A \<union> produced st"
proof (cases st)
  case (Loop l)
  with assms show ?thesis
    by (auto simp: produced_def check_target_def ok_simps Let_def split: option.splits)
qed (use assms in \<open>auto simp: produced_def check_target_def ok_simps Let_def
  split: option.splits if_splits list.splits\<close>)

lemma ordered_steps:
  assumes "foldr_ok check_step_refs steps A = Inr A'"
    and "\<And>st. st \<in> set steps \<Longrightarrow> structural_check (env_regex env) st = Inr ()"
    and "\<And>st. st \<in> set steps \<Longrightarrow> ''input'' \<notin> needs st \<and> iterates st"
    and "ready ex" and "\<not> ex_graph_mode ex" and "A - {''input''} \<subseteq> dom (ex_outputs ex)"
  shows "case foldr_ok (exec_node env input) steps ex of
      Inl e \<Rightarrow> run_time_failure e
    | Inr ex' \<Rightarrow> dom (ex_outputs ex) \<union> (\<Union>st\<in>set steps. produced st) \<subseteq> dom (ex_outputs ex')"
  using assms
proof (induction steps arbitrary: A ex)
  case Nil
  then show ?case by simp
next
  case (Cons st steps)
  then obtain A1 where A1: "check_step_refs st A = Inr A1" and rest: "foldr_ok check_step_refs steps A1 = Inr A'"
    by (auto simp: ok_simps)
  from check_step_refs_ok [OF A1] Cons.prems have need: "needs st \<subseteq> dom (ex_outputs ex)"
    by fastforce
  show ?case
  proof (cases "exec_node env input st ex")
    case (Inl e)
    with exec_node_err [of env st ex False input e] need Cons.prems show ?thesis by simp
  next
    case (Inr ex1)
    from exec_node_ok [OF Inr] Cons.prems have ex1: "extends ex ex1" "produced st \<subseteq> dom (ex_outputs ex1)"
      by auto
    have "A1 - {''input''} \<subseteq> dom (ex_outputs ex1)"
      using check_step_refs_ok [OF A1] Cons.prems(6) ex1 extends_dom by fastforce
    moreover have "ready ex1" "\<not> ex_graph_mode ex1" using ex1 Cons.prems by (auto simp: extends_def)
    ultimately have "case foldr_ok (exec_node env input) steps ex1 of
        Inl e \<Rightarrow> run_time_failure e
      | Inr ex' \<Rightarrow> dom (ex_outputs ex1) \<union> (\<Union>st\<in>set steps. produced st) \<subseteq> dom (ex_outputs ex')"
      using Cons.IH [OF rest] Cons.prems by simp
    moreover have "dom (ex_outputs ex) \<union> produced st \<subseteq> dom (ex_outputs ex1)"
      using ex1 extends_dom by blast
    ultimately show ?thesis using Inr
      by (cases "foldr_ok (exec_node env input) steps ex1" rule: sum.exhaust)
        (simp_all only: foldr_ok.simps rbind_simps sum.case list.set UN_insert, blast)
  qed
qed

lemma ready_initial [simp]: "ready (initial_executor env wd jsonl w)"
  "ex_graph_mode (initial_executor env wd jsonl w) = is_graph wd"
  "ex_outputs (initial_executor env wd jsonl w) = Map.empty"
  by (simp_all add: initial_executor_def new_executor_def ready_def)

section \<open>Graph workflows\<close>

lemma select_from_err:
  "select_from rx outs cur routes = Inl e \<Longrightarrow> \<exists>r\<in>set routes. edge_when r = None \<Longrightarrow> route_failure e"
  by (induction routes) (auto simp: Let_def split: option.splits if_splits)

lemma select_from_ok:
  "select_from rx outs cur routes = Inr t \<Longrightarrow> \<exists>r\<in>set routes. t = edge_to r"
  by (induction routes) (auto simp: Let_def split: option.splits if_splits)

lemma select_graph_edge_outgoing:
  "select_graph_edge rx edges outs cur = select_from rx outs cur (outgoing edges cur)"
  by (simp add: select_graph_edge_def outgoing_def)

text \<open>The step relation of the graph walk: one node run and one route taken.\<close>

inductive graph_step ::
  "('f, 'w) env \<Rightarrow> 'f workflow_def \<Rightarrow> string \<Rightarrow> string \<times> ('f, 'w) executor \<Rightarrow>
     string \<times> ('f, 'w) executor \<Rightarrow> bool" for env wd input where
  turn: "st \<in> set (wf_steps wd) \<Longrightarrow> step_name st = current \<Longrightarrow> exec_node env input st ex = Inr ex' \<Longrightarrow>
     select_graph_edge (env_regex env) (wf_edges wd) (ex_outputs ex') current = Inr next_node \<Longrightarrow>
     graph_step env wd input (current, ex) (next_node, ex')"

inductive_simps graph_step_pair: "graph_step env wd input (current, ex) cfg'"

inductive_cases graph_step_from_end: "graph_step env wd input (END_NODE, ex) cfg'"

lemma find_unique:
  "distinct (map f xs) \<Longrightarrow> find (\<lambda>x. f x = n) xs = Some x \<longleftrightarrow> x \<in> set xs \<and> f x = n"
  by (induction xs) auto

lemma find_step:
  "distinct (top_names wd) \<Longrightarrow>
   find (\<lambda>st. step_name st = n) (wf_steps wd) = Some st \<longleftrightarrow> st \<in> set (wf_steps wd) \<and> step_name st = n"
  by (simp add: top_names_def find_unique)

lemma graph_turn_step:
  assumes "distinct (top_names wd)"
  shows "graph_turn env wd input cfg = Inr cfg' \<longleftrightarrow> graph_step env wd input cfg cfg'"
proof -
  obtain cur ex where cfg: "cfg = (cur, ex)" by (cases cfg)
  have found: "find (\<lambda>st. step_name st = cur) (wf_steps wd) = Some st"
    if "st \<in> set (wf_steps wd)" "step_name st = cur" for st
    using that by (simp add: find_step [OF assms])
  show ?thesis unfolding cfg graph_step_pair
  proof (cases "find (\<lambda>st. step_name st = cur) (wf_steps wd)")
    case None
    then show "graph_turn env wd input (cur, ex) = Inr cfg' \<longleftrightarrow>
      (\<exists>st ex' next_node. cfg' = (next_node, ex') \<and> st \<in> set (wf_steps wd) \<and> step_name st = cur \<and>
        exec_node env input st ex = Inr ex' \<and>
        select_graph_edge (env_regex env) (wf_edges wd) (ex_outputs ex') cur = Inr next_node)"
      using found by (auto simp: graph_turn_def)
  next
    case (Some st)
    with find_step [OF assms] have "st \<in> set (wf_steps wd)" "step_name st = cur" by blast+
    moreover have "st' = st" if "st' \<in> set (wf_steps wd)" "step_name st' = cur" for st'
      using found [OF that] Some by simp
    ultimately have "(\<exists>st ex' next_node. cfg' = (next_node, ex') \<and> st \<in> set (wf_steps wd) \<and> step_name st = cur \<and>
        exec_node env input st ex = Inr ex' \<and>
        select_graph_edge (env_regex env) (wf_edges wd) (ex_outputs ex') cur = Inr next_node) \<longleftrightarrow>
      (\<exists>ex' next_node. cfg' = (next_node, ex') \<and> exec_node env input st ex = Inr ex' \<and>
        select_graph_edge (env_regex env) (wf_edges wd) (ex_outputs ex') cur = Inr next_node)"
      by metis
    then show "graph_turn env wd input (cur, ex) = Inr cfg' \<longleftrightarrow>
      (\<exists>st ex' next_node. cfg' = (next_node, ex') \<and> st \<in> set (wf_steps wd) \<and> step_name st = cur \<and>
        exec_node env input st ex = Inr ex' \<and>
        select_graph_edge (env_regex env) (wf_edges wd) (ex_outputs ex') cur = Inr next_node)"
      using Some by (simp only: graph_turn_def prod.case option.case ok_simps) auto
  qed
qed

lemma graph_step_deterministic:
  "distinct (top_names wd) \<Longrightarrow> graph_step env wd input c c1 \<Longrightarrow> graph_step env wd input c c2 \<Longrightarrow> c1 = c2"
  by (metis graph_turn_step sum.inject(2))

lemma graph_loop_steps:
  assumes d: "distinct (top_names wd)" and no_end: "END_NODE \<notin> set (top_names wd)"
  shows "graph_loop n env wd input cfg = Inr ex \<longleftrightarrow>
    (\<exists>k. 0 < k \<and> k \<le> n \<and> (graph_step env wd input ^^ k) cfg (END_NODE, ex))"
proof (induction n arbitrary: cfg)
  case 0
  then show ?case by simp
next
  case (Suc n)
  have stuck: "\<not> graph_step env wd input (END_NODE, ex1) c" for ex1 c
    using no_end by (auto elim!: graph_step_from_end simp: top_names_def image_iff)
  have one: "graph_loop (Suc n) env wd input cfg = Inr ex \<longleftrightarrow>
      (\<exists>cfg'. graph_step env wd input cfg cfg' \<and>
        (cfg' = (END_NODE, ex) \<or> (fst cfg' \<noteq> END_NODE \<and> graph_loop n env wd input cfg' = Inr ex)))"
    by (auto simp: ok_simps graph_turn_step [OF d])
  have tail: "fst cfg' \<noteq> END_NODE" if "(graph_step env wd input ^^ k) cfg' (END_NODE, ex)" "0 < k" for cfg' k
    using that stuck by (cases cfg'; cases k) (auto simp del: relpowp.simps dest: relpowp_Suc_D2)
  show ?case unfolding one Suc.IH
  proof safe
    fix cfg' assume "graph_step env wd input cfg (END_NODE, ex)"
    then show "\<exists>k>0. k \<le> Suc n \<and> (graph_step env wd input ^^ k) cfg (END_NODE, ex)"
      by (intro exI [of _ 1]) auto
  next
    fix a b k assume "graph_step env wd input cfg (a, b)" "0 < k" "k \<le> n"
      "(graph_step env wd input ^^ k) (a, b) (END_NODE, ex)"
    then show "\<exists>k>0. k \<le> Suc n \<and> (graph_step env wd input ^^ k) cfg (END_NODE, ex)"
      using relpowp_Suc_I2 by (intro exI [of _ "Suc k"]) (auto simp del: relpowp.simps)
  next
    fix k assume k: "0 < k" "k \<le> Suc n" "(graph_step env wd input ^^ k) cfg (END_NODE, ex)"
    then obtain j where j: "k = Suc j" by (cases k) auto
    from k(3) obtain cfg' where "graph_step env wd input cfg cfg'"
      and "(graph_step env wd input ^^ j) cfg' (END_NODE, ex)" unfolding j by (rule relpowp_Suc_E2)
    then show "\<exists>cfg'. graph_step env wd input cfg cfg' \<and> (cfg' = (END_NODE, ex) \<or>
        fst cfg' \<noteq> END_NODE \<and> (\<exists>k>0. k \<le> n \<and> (graph_step env wd input ^^ k) cfg' (END_NODE, ex)))"
      using k(2) j tail [of j cfg'] by (cases cfg'; cases "j = 0") auto
  qed
qed

lemma graph_turn_safe:
  assumes "validate_graph (env_regex env) wd names = Inr ()"
    and "\<And>st. st \<in> set (wf_steps wd) \<Longrightarrow> structural_check (env_regex env) st = Inr ()"
    and "cur \<in> set (top_names wd)" and "ready ex"
  shows "case graph_turn env wd input (cur, ex) of
      Inl e \<Rightarrow> allowed True e
    | Inr (nxt, ex') \<Rightarrow> (nxt = END_NODE \<or> nxt \<in> set (top_names wd)) \<and> ready ex'"
proof -
  from assms(3) obtain st where f: "find (\<lambda>st. step_name st = cur) (wf_steps wd) = Some st"
    by (cases "find (\<lambda>st. step_name st = cur) (wf_steps wd)") (auto simp: find_None_iff top_names_def)
  then have st: "st \<in> set (wf_steps wd)" by (auto simp: find_Some_iff)
  obtain conds dflt where routes: "outgoing (wf_edges wd) cur = conds @ [dflt]" "edge_when dflt = None"
    using check_routes_shape validate_graph_ok [OF assms(1)] assms(3) by metis
  have targets: "edge_to e = END_NODE \<or> edge_to e \<in> set (top_names wd)" if "e \<in> set (wf_edges wd)" for e
    using validate_graph_ok [OF assms(1)] that by metis
  show ?thesis
  proof (cases "exec_node env input st ex")
    case (Inl e)
    with exec_node_err [OF assms(2) [OF st] assms(4), of True] f show ?thesis
      by (simp add: graph_turn_def)
  next
    case (Inr ex1)
    have "ready ex1" using exec_node_ok [OF Inr] assms(4) by (auto simp: extends_def)
    moreover have "t = END_NODE \<or> t \<in> set (top_names wd)"
      if "select_graph_edge (env_regex env) (wf_edges wd) (ex_outputs ex1) cur = Inr t" for t
      using select_from_ok [OF that [unfolded select_graph_edge_outgoing]] targets
      by (auto simp: outgoing_def)
    moreover have "route_failure e"
      if "select_graph_edge (env_regex env) (wf_edges wd) (ex_outputs ex1) cur = Inl e" for e
      using that routes unfolding select_graph_edge_outgoing by (auto dest!: select_from_err)
    ultimately show ?thesis using f Inr
      by (auto simp: graph_turn_def rbind_def split: sum.splits)
  qed
qed

lemma graph_loop_safe:
  assumes "validate_graph (env_regex env) wd names = Inr ()"
    and "\<And>st. st \<in> set (wf_steps wd) \<Longrightarrow> structural_check (env_regex env) st = Inr ()"
    and "cur \<in> set (top_names wd)" and "ready ex"
    and "graph_loop n env wd input (cur, ex) = Inl e"
  shows "allowed True e"
  using assms(3-5)
proof (induction n arbitrary: cur ex)
  case 0
  then show ?case by auto
next
  case (Suc n)
  note safe = graph_turn_safe [OF assms(1,2) Suc.prems(1,2), of input]
  show ?case
  proof (cases "graph_turn env wd input (cur, ex)")
    case (Inl e')
    with safe Suc.prems show ?thesis by auto
  next
    case (Inr r)
    obtain nxt ex1 where r: "r = (nxt, ex1)" by (cases r)
    with safe Inr Suc.prems Suc.IH [of nxt ex1] show ?thesis by (auto split: if_splits)
  qed
qed

section \<open>Invariants of the drivers\<close>

text \<open>
  What \<open>execute\<close> needs of a node for a property of the executor to survive a whole run: each
  node that completes keeps it.
\<close>

locale node_invariant =
  fixes env :: "('f, 'w) env" and input :: string and inv :: "('f, 'w) executor \<Rightarrow> bool"
  assumes node_keeps: "exec_node env input st ex = Inr ex' \<Longrightarrow> inv ex \<Longrightarrow> inv ex'"
begin

lemma graph_loop_keeps: "graph_loop n env wd input cfg = Inr ex' \<Longrightarrow> inv (snd cfg) \<Longrightarrow> inv ex'"
proof (induction n arbitrary: cfg)
  case (Suc n)
  then show ?case
    by (cases cfg) (auto simp: ok_simps graph_turn_def dest!: node_keeps split: option.splits if_splits)
qed simp

lemma execute_keeps:
  assumes "execute env wd input jsonl w = Inr ex" and "inv (initial_executor env wd jsonl w)"
  shows "inv ex"
proof (cases "is_graph wd")
  case True
  with assms show ?thesis
    by (auto simp: execute_def Let_def split: option.splits dest: graph_loop_keeps)
next
  case False
  with assms(1) have "foldr_ok (exec_node env input) (wf_steps wd) (initial_executor env wd jsonl w) = Inr ex"
    by (simp add: execute_def Let_def)
  then show ?thesis using assms(2)
    by (rule foldr_ok_invariant [where P = inv]) (rule node_keeps)
qed

end

end
