(* ===== verification/WfCost.thy ===== *)
theory WfCost
  imports WfDrivers
begin

text \<open>
  Cost accounting of the executor (\<open>fold_stats\<close>, \<open>record_failure\<close>, \<open>record_success\<close> and
  \<open>enforce_budget\<close> of \<open>src/workflow/run.rs\<close>). A step in \<open>continue\<close> mode reports the
  cumulative figures of its session, so the executor folds in only the difference to the last
  report: over any number of attempts the totals grow by the last report. And every operation
  that adds to the totals checks the budget before it returns, so a finished run is within it.
\<close>

section \<open>The budget\<close>

definition within_budget :: "('f, 'w) env \<Rightarrow> ('f, 'w) executor \<Rightarrow> bool" where
  "within_budget env ex \<longleftrightarrow>
     (case ex_max_cost ex of Some cap \<Rightarrow> \<not> f_lt (env_f64 env) cap (tt_cost (ex_totals ex)) | None \<Rightarrow> True)"

lemma enforce_budget_ok [ok_simps]: "enforce_budget env n ex = Inr u \<longleftrightarrow> within_budget env ex"
  by (simp add: enforce_budget_def within_budget_def ok_simps split: option.splits)

lemma within_budget_simps [simp]:
  "within_budget env (set_output n v ex) = within_budget env ex"
  "within_budget env (set_last n ex) = within_budget env ex"
  "within_budget env (default_output n ex) = within_budget env ex"
  "within_budget env (finish_loop l ex) = within_budget env ex"
  by (simp_all add: within_budget_def set_output_def set_last_def default_output_def finish_loop_def Let_def
    split: option.splits)

lemma record_success_budget: "record_success env s st ex = Inr (st', ex') \<Longrightarrow> within_budget env ex'"
  by (auto simp: record_success_def Let_def ok_simps split: prod.splits)

lemma attempts_budget: "attempts env s p d n err ex = Inr (st, ex') \<Longrightarrow> within_budget env ex'"
  by (induction n arbitrary: err ex)
    (auto split: prod.splits run_outcome.splits dest: record_success_budget)

lemma exec_sequential_budget: "exec_sequential env s input ex = Inr (st, ex') \<Longrightarrow> within_budget env ex'"
  by (auto simp: exec_sequential_def ok_simps dest: attempts_budget)

lemma exec_leaf_budget: "exec_leaf env input s ex = Inr ex' \<Longrightarrow> within_budget env ex'"
  by (auto simp: exec_leaf_def ok_simps dest: exec_sequential_budget)

lemma exec_leaves_budget:
  "foldr_ok (exec_leaf env input) xs ex = Inr ex' \<Longrightarrow> within_budget env ex \<Longrightarrow> within_budget env ex'"
  by (erule foldr_ok_invariant) (auto dest: exec_leaf_budget)

lemma wire_outputs_budget: "wire_outputs env p parts ex = Inr ex' \<Longrightarrow> within_budget env ex'"
  by (auto simp: wire_outputs_def finish_parallel_def Let_def ok_simps split: if_splits list.splits)

lemma exec_parallel_budget: "exec_parallel env p input ex = Inr ex' \<Longrightarrow> within_budget env ex'"
  by (auto simp: exec_parallel_def Let_def ok_simps split: if_splits dest: wire_outputs_budget)

lemma loop_iterations_budget:
  "loop_iterations n i env l input ex = Inr ex' \<Longrightarrow> within_budget env ex \<Longrightarrow> within_budget env ex'"
  by (induction n arbitrary: i ex)
    (auto simp: ok_simps dest!: exec_leaves_budget split: option.splits if_splits)

lemma run_branch_budget:
  "run_branch env input chosen sel ex = Inr (out, ex') \<Longrightarrow> within_budget env ex \<Longrightarrow> within_budget env ex'"
  by (induction chosen arbitrary: sel ex) (auto simp: ok_simps dest!: exec_sequential_budget)

lemma fold_default_budget:
  "within_budget env (fold (\<lambda>s. default_output (sq_name s)) xs ex) = within_budget env ex"
  by (induction xs arbitrary: ex) auto

lemma exec_conditional_budget:
  "exec_conditional env c input ex = Inr ex' \<Longrightarrow> within_budget env ex \<Longrightarrow> within_budget env ex'"
  by (auto simp: exec_conditional_def Let_def ok_simps fold_default_budget
      dest!: run_branch_budget split: option.splits if_splits)

lemma exec_node_budget:
  "exec_node env input st ex = Inr ex' \<Longrightarrow> within_budget env ex \<Longrightarrow> within_budget env ex'"
  by (cases st) (auto simp: exec_loop_def dest: exec_leaf_budget exec_parallel_budget
      loop_iterations_budget exec_conditional_budget)

interpretation budget: node_invariant env input "within_budget env" for env input
  by unfold_locales (rule exec_node_budget)

text \<open>The cap itself never changes.\<close>

lemma exec_node_max_cost: "exec_node env input st ex = Inr ex' \<Longrightarrow> ex_max_cost ex' = ex_max_cost ex"
  by (auto simp: extends_def dest!: exec_node_ok)

interpretation cap: node_invariant env input "\<lambda>ex. ex_max_cost ex = c" for env input c
  by unfold_locales (simp add: exec_node_max_cost)

lemma execute_max_cost: "execute env wd input jsonl w = Inr ex \<Longrightarrow> ex_max_cost ex = wf_max_cost wd"
  by (rule cap.execute_keeps) (simp_all add: initial_executor_def new_executor_def)

section \<open>Cumulative reports\<close>

text \<open>
  The six token counters of a report and of the totals, so that one argument covers them.
\<close>

definition report_tokens :: "'f step_stats \<Rightarrow> u64 list" where
  "report_tokens s = [ss_input_tokens s, ss_output_tokens s, ss_total_tokens s,
     ss_cache_read_tokens s, ss_cache_write_tokens s, ss_reasoning_tokens s]"

definition total_tokens :: "'f totals \<Rightarrow> u64 list" where
  "total_tokens t = [tt_input_tokens t, tt_output_tokens t, tt_tokens t,
     tt_cache_read_tokens t, tt_cache_write_tokens t, tt_reasoning_tokens t]"

definition baseline :: "('f, 'w) env \<Rightarrow> string \<Rightarrow> ('f, 'w) executor \<Rightarrow> 'f step_stats" where
  "baseline env n ex = (case ex_cost_baseline ex n of Some b \<Rightarrow> b | None \<Rightarrow> default_stats (env_f64 env))"

text \<open>Reports of one session never go down.\<close>

definition grows :: "'f step_stats \<Rightarrow> 'f step_stats \<Rightarrow> bool" where
  "grows a b \<longleftrightarrow> list_all2 (\<le>) (report_tokens a) (report_tokens b)"

lemma grows_trans: "grows a b \<Longrightarrow> grows b c \<Longrightarrow> grows a c"
  by (auto simp: grows_def report_tokens_def)

lemma saturating_sub_le: "a \<le> b \<Longrightarrow> saturating_sub b a = b - (a :: u64)"
  by (auto simp: saturating_sub_def)

lemma add_totals_tokens:
  "total_tokens (ex_totals (add_totals env s ex)) = map2 (+) (total_tokens (ex_totals ex)) (report_tokens s)"
  "baseline env n (add_totals env s ex) = baseline env n ex"
  by (simp_all add: add_totals_def totals_add_def total_tokens_def report_tokens_def baseline_def)

lemma fold_stats_continue:
  "fold_stats env n Continue st ex =
     (continue_delta (env_f64 env) (baseline env n ex) st,
      ex\<lparr>ex_cost_baseline := (ex_cost_baseline ex)(n \<mapsto> st)\<rparr>)"
  by (simp add: fold_stats_def baseline_def Let_def)

lemma baseline_update [simp]:
  "baseline env n (ex\<lparr>ex_cost_baseline := (ex_cost_baseline ex)(n \<mapsto> st)\<rparr>) = st"
  by (simp add: baseline_def)

lemma baseline_other [simp]:
  "baseline env n (emit_step m c ex) = baseline env n ex"
  "baseline env n (ex\<lparr>ex_used_continue := u\<rparr>) = baseline env n ex"
  "ex_totals (emit_step m c ex) = ex_totals ex"
  by (simp_all add: baseline_def emit_step_def)

lemma continue_delta_tokens:
  "grows base cur \<Longrightarrow>
   report_tokens (continue_delta fo base cur) = map2 (-) (report_tokens cur) (report_tokens base)"
  by (simp add: grows_def continue_delta_def report_tokens_def saturating_sub_le)

lemma record_failure_tokens:
  assumes "sq_session s = Continue" and "grows (baseline env (sq_name s) ex) st"
  shows "total_tokens (ex_totals (record_failure env s st ex)) =
      map2 (+) (total_tokens (ex_totals ex)) (map2 (-) (report_tokens st) (report_tokens (baseline env (sq_name s) ex)))"
    and "baseline env (sq_name s) (record_failure env s st ex) = st"
  using assms by (simp_all add: record_failure_def fold_stats_continue add_totals_tokens continue_delta_tokens)

fun grow_chain :: "'f step_stats \<Rightarrow> 'f step_stats list \<Rightarrow> bool" where
  "grow_chain a [] \<longleftrightarrow> True"
| "grow_chain a (b # xs) \<longleftrightarrow> grows a b \<and> grow_chain b xs"

lemma grow_chain_append:
  "grow_chain a (xs @ [b]) \<longleftrightarrow> grow_chain a xs \<and> grows (last (a # xs)) b"
  by (induction xs arbitrary: a) auto

lemma add_differences: 
  assumes "length a = 6" "length b = 6" "length c = 6" "length (t :: u64 list) = 6"
  shows "map2 (+) (map2 (+) t (map2 (-) b a)) (map2 (-) c b) = map2 (+) t (map2 (-) c a)"
  using assms by (auto simp: eval_nat_numeral length_Suc_conv)

lemma token_lengths [simp]: "length (report_tokens s) = 6" "length (total_tokens t) = 6"
  by (simp_all add: report_tokens_def total_tokens_def)

lemma no_difference: "length a = 6 \<Longrightarrow> length (t :: u64 list) = 6 \<Longrightarrow> map2 (+) t (map2 (-) a a) = t"
  by (auto simp: eval_nat_numeral length_Suc_conv)

lemma record_failures_tokens:
  assumes "sq_session s = Continue" and "grow_chain (baseline env (sq_name s) ex) reports"
  shows "total_tokens (ex_totals (fold (record_failure env s) reports ex)) =
      map2 (+) (total_tokens (ex_totals ex))
        (map2 (-) (report_tokens (last (baseline env (sq_name s) ex # reports)))
                  (report_tokens (baseline env (sq_name s) ex)))
    \<and> baseline env (sq_name s) (fold (record_failure env s) reports ex) =
        last (baseline env (sq_name s) ex # reports)"
  using assms
proof (induction reports arbitrary: ex)
  case Nil
  then show ?case by (simp add: no_difference)
next
  case (Cons st reports)
  then have g: "grows (baseline env (sq_name s) ex) st" and c: "grow_chain st reports" by auto
  note one = record_failure_tokens [OF Cons.prems(1) g]
  from Cons.IH [of "record_failure env s st ex"] Cons.prems(1) c one show ?case
    by (simp add: add_differences)
qed

lemma record_success_tokens:
  assumes "sq_session s = Continue" and "grows (baseline env (sq_name s) ex) st"
    and "record_success env s st ex = Inr (st', ex')"
  shows "total_tokens (ex_totals ex') =
      map2 (+) (total_tokens (ex_totals ex)) (map2 (-) (report_tokens st) (report_tokens (baseline env (sq_name s) ex)))"
  using assms by (auto simp: record_success_def fold_stats_continue Let_def ok_simps
      add_totals_tokens continue_delta_tokens)

end
