(* ===== verification/WfCorrect.thy ===== *)
theory WfCorrect
  imports WfCost
begin

text \<open>
  The correctness statements of the workflow engine, each with its instance on a small
  concrete workflow: an environment whose subprocess answers every prompt with that prompt,
  at a cost of one and ten tokens.
\<close>

section \<open>A concrete environment and two workflows\<close>

definition int_ops :: "int f64_ops" where
  "int_ops = \<lparr>f_zero = 0, f_add = (+), f_sub = (-), f_max = max, f_le = (\<le>), f_lt = (<),
     f_finite = (\<lambda>_. True)\<rparr>"

definition plain_regex :: regex_api where
  "plain_regex = \<lparr>rx_ok = (\<lambda>_. True), rx_is_match = (\<lambda>p v. str_contains v p), rx_group1 = (\<lambda>_ v. [Some v])\<rparr>"

definition answer_stats :: "string \<Rightarrow> int step_stats" where
  "answer_stats out = \<lparr>ss_output = out, ss_duration = 1, ss_cost = 1, ss_input_tokens = 6,
     ss_output_tokens = 4, ss_total_tokens = 10, ss_cache_read_tokens = 0, ss_cache_write_tokens = 0,
     ss_reasoning_tokens = 0, ss_tool_count = 0, ss_tool_failed = 0\<rparr>"

definition echo_env :: "(int, nat) env" where
  "echo_env = \<lparr>env_regex = plain_regex, env_f64 = int_ops,
     env_run_step = (\<lambda>args w. (RunOk (answer_stats (ra_prompt args)), w + 1)),
     env_send_done = (\<lambda>_ _ w. w), env_short_uuid = (\<lambda>w. (''0'', w)), env_expand = (\<lambda>_ p _. p),
     env_current_dir = (\<lambda>_. Some ''/tmp''), env_is_dir = (\<lambda>_ _. True),
     env_replica = (\<lambda>_ _ _ args. RunOk (answer_stats (ra_prompt args))), env_after_join = Suc\<rparr>"

definition a_step :: "string \<Rightarrow> string \<Rightarrow> sequential" where
  "a_step name prompt = \<lparr>sq_name = name, sq_role = ''dev'', sq_prompt = prompt, sq_session = Fresh,
     sq_timeout = 60, sq_retries = 0, sq_model = None, sq_workdir = None, sq_count = None,
     sq_skills = None, sq_capabilities = None\<rparr>"

definition says :: "string option \<Rightarrow> string \<Rightarrow> condition" where
  "says out text = \<lparr>cond_output = out, cond_contains = Some text, cond_matches = None\<rparr>"

definition a_workflow :: "step list \<Rightarrow> int workflow_def" where
  "a_workflow steps = \<lparr>wf_name = ''w'', wf_description = None, wf_entry = None, wf_max_transitions = None,
     wf_max_cost = Some 9, wf_steps = steps, wf_edges = []\<rparr>"

text \<open>Plan, then a loop that reviews until the review says so.\<close>

definition review_loop :: "string option \<Rightarrow> u32 \<Rightarrow> step" where
  "review_loop out n = Loop \<lparr>loop_name = ''fix'', loop_max_iterations = n,
     loop_exit_when = Some (says out ''ok''), loop_run = [a_step ''review'' ''ok {{plan}}'']\<rparr>"

definition ordered_wf :: "int workflow_def" where
  "ordered_wf = a_workflow [Sequential (a_step ''plan'' ''P {{input}}''), review_loop (Some ''review'') 3]"

text \<open>Draft, check, and back to the draft while the check says \<open>no\<close>.\<close>

definition graph_wf :: "int workflow_def" where
  "graph_wf = (a_workflow [Sequential (a_step ''draft'' ''D {{input}}''), Sequential (a_step ''check'' ''C {{draft}}'')])
     \<lparr>wf_entry := Some ''draft'', wf_max_transitions := Some 4,
      wf_edges := [\<lparr>edge_from = ''draft'', edge_to = ''check'', edge_when = None\<rparr>,
        \<lparr>edge_from = ''check'', edge_to = ''draft'', edge_when = Some (says None ''no'')\<rparr>,
        \<lparr>edge_from = ''check'', edge_to = END_NODE, edge_when = None\<rparr>]\<rparr>"

lemma ordered_wf_valid: "validate plain_regex int_ops ordered_wf = Inr () \<and> \<not> is_graph ordered_wf"
  by code_simp

lemma graph_wf_valid: "validate plain_regex int_ops graph_wf = Inr () \<and> is_graph graph_wf"
  by code_simp

lemma echo_env_parts [simp]: "env_regex echo_env = plain_regex" "env_f64 echo_env = int_ops"
  by (simp_all add: echo_env_def)

lemma ordered_wf_runs:
  "map_sum id (\<lambda>ex. (ex_outputs ex ''fix'', ex_world ex)) (execute echo_env ordered_wf ''x'' False 0)
     = Inr (Some ''ok P x'', 2)"
  by code_simp

lemma graph_wf_runs:
  "map_sum id (\<lambda>ex. (ex_outputs ex ''check'', ex_world ex)) (execute echo_env graph_wf ''x'' False 0)
     = Inr (Some ''C D x'', 2)"
  by code_simp

section \<open>Ordered workflows\<close>

text \<open>
  C1. An ordered workflow that validation accepts, whose conditions and sources name only step
  outputs (never \<open>input\<close>) and whose loops iterate, finds every output it refers to: it fails
  only by what happens at run time (a step, a directory, the budget, no items, a first
  conditional without a prior step), never by a missing output, a panic or a bad regex; and
  when it completes, every step and sub-step name has an output.
\<close>

theorem ordered_execution_sound:
  assumes "validate (env_regex env) (env_f64 env) wd = Inr ()" and "\<not> is_graph wd"
    and "\<And>st. st \<in> set (wf_steps wd) \<Longrightarrow> ''input'' \<notin> needs st \<and> iterates st"
  shows "case execute env wd input jsonl w of
      Inl e \<Rightarrow> run_time_failure e
    | Inr ex \<Rightarrow> workflow_output_names wd \<subseteq> dom (ex_outputs ex)"
proof -
  obtain A where "foldr_ok check_step_refs (wf_steps wd) {''input''} = Inr A"
    and "\<And>st. st \<in> set (wf_steps wd) \<Longrightarrow> structural_check (env_regex env) st = Inr ()"
    using validate_ok [OF assms(1)] assms(2) by metis
  from ordered_steps [OF this assms(3) ready_initial(1), of env wd jsonl w input] assms(2)
  show ?thesis
    by (simp add: execute_def Let_def workflow_output_names_def produced_def split: sum.splits)
qed

lemma ordered_execution_sound_witness:
  "case execute echo_env ordered_wf ''x'' False 0 of
      Inl e \<Rightarrow> run_time_failure e
    | Inr ex \<Rightarrow> workflow_output_names ordered_wf \<subseteq> dom (ex_outputs ex)"
  by (rule ordered_execution_sound)
    (use ordered_wf_valid in \<open>auto simp: ordered_wf_def a_workflow_def review_loop_def says_def a_step_def\<close>)

section \<open>Graph workflows\<close>

text \<open>
  C2. A validated graph workflow never panics, never meets an invalid regex and never lacks a
  route: it fails only at run time or because the route taken has not produced an output yet
  or used up its transitions.
\<close>

theorem graph_execution_sound:
  assumes "validate (env_regex env) (env_f64 env) wd = Inr ()" and "is_graph wd"
    and "execute env wd input jsonl w = Inl e"
  shows "run_time_failure e \<or> route_failure e"
proof -
  obtain names where g: "validate_graph (env_regex env) wd names = Inr ()"
    and st: "\<And>st. st \<in> set (wf_steps wd) \<Longrightarrow> structural_check (env_regex env) st = Inr ()"
    using validate_ok [OF assms(1)] assms(2) by metis
  obtain entry m where e: "wf_entry wd = Some entry" "wf_max_transitions wd = Some m" "entry \<in> set (top_names wd)"
    using validate_graph_ok [OF g] by metis
  have "graph_loop (unat m) env wd input (entry, initial_executor env wd jsonl w) = Inl e"
    using assms(2,3) e by (simp add: execute_def Let_def)
  from graph_loop_safe [OF g st e(3) ready_initial(1) this] show ?thesis by simp
qed

definition timeout_env :: "(int, nat) env" where
  "timeout_env = echo_env\<lparr>env_run_step := (\<lambda>_ w. (RunTimeout 60, w))\<rparr>"

lemma graph_execution_sound_witness:
  "\<exists>e. execute timeout_env graph_wf ''x'' False 0 = Inl e \<and> (run_time_failure e \<or> route_failure e)"
proof -
  have "map_sum id (\<lambda>_. ()) (execute timeout_env graph_wf ''x'' False 0) = Inl (StepFailed ''draft'' 1 (Some (TimedOut 60)))"
    by code_simp
  then obtain e where run: "execute timeout_env graph_wf ''x'' False 0 = Inl e"
    by (cases "execute timeout_env graph_wf ''x'' False 0") auto
  have "validate (env_regex timeout_env) (env_f64 timeout_env) graph_wf = Inr ()"
    using graph_wf_valid by (simp add: timeout_env_def)
  from graph_execution_sound [OF this conjunct2 [OF graph_wf_valid] run] run show ?thesis by blast
qed

text \<open>
  C11. The graph driver is the step relation \<open>graph_step\<close> (run the node, take the selected
  route) iterated from the entry: it completes exactly when \<open>$end\<close> is reached within
  \<open>max_transitions\<close> steps, and in the state that the relation gives.
\<close>

theorem graph_execution_steps:
  assumes "validate (env_regex env) (env_f64 env) wd = Inr ()"
    and "wf_entry wd = Some entry" and "wf_max_transitions wd = Some m"
  shows "execute env wd input jsonl w = Inr ex \<longleftrightarrow>
    (\<exists>k. 0 < k \<and> k \<le> unat m \<and>
      (graph_step env wd input ^^ k) (entry, initial_executor env wd jsonl w) (END_NODE, ex))"
proof -
  have g: "is_graph wd" using assms(2) by (simp add: is_graph_def)
  obtain names where "foldr_ok collect_names (wf_steps wd) {} = Inr names"
    using validate_ok [OF assms(1)] by metis
  note all = insert_all_ok [OF collect_all_ok [OF this]]
  then have "distinct (top_names wd)" by (intro distinct_top_names) blast
  moreover have "END_NODE \<notin> set (top_names wd)"
    using all declared_top_names [of END_NODE wd] unfolding usable_name_def by blast
  ultimately have "distinct (top_names wd)" "END_NODE \<notin> set (top_names wd)" .
  from graph_loop_steps [OF this, of "unat m" env input "(entry, initial_executor env wd jsonl w)" ex] assms(2,3) g
  show ?thesis by (simp add: execute_def Let_def)
qed

lemma graph_execution_steps_witness:
  "\<exists>ex k. 0 < k \<and> k \<le> 4 \<and> execute echo_env graph_wf ''x'' False 0 = Inr ex \<and>
     (graph_step echo_env graph_wf ''x'' ^^ k) (''draft'', initial_executor echo_env graph_wf False 0) (END_NODE, ex)"
proof -
  from graph_wf_runs obtain ex where run: "execute echo_env graph_wf ''x'' False 0 = Inr ex"
    by (cases "execute echo_env graph_wf ''x'' False 0") auto
  have "validate (env_regex echo_env) (env_f64 echo_env) graph_wf = Inr ()" using graph_wf_valid by simp
  moreover have "wf_entry graph_wf = Some ''draft''" "wf_max_transitions graph_wf = Some 4"
    by (simp_all add: graph_wf_def)
  ultimately show ?thesis using run graph_execution_steps [of echo_env graph_wf "''draft''" 4 "''x''" False 0 ex] by auto
qed

section \<open>Costs\<close>

text \<open>
  C7. A workflow with a validated cost cap completes only with a recorded total within the cap, whatever its
  steps, routes and rounds were. The recorded total is what the executor adds up: every attempt of a step outside a
  parallel block that reports its usage, and in a parallel block the attempt with which a replica succeeds; the failed
  attempts of replicas are spent and not recorded, so the bound does not cover them. Of the \<open>f64\<close> comparisons only
  \<open>a < b \<Longrightarrow> a \<le> b\<close> is used.
\<close>

theorem completed_run_within_budget:
  assumes "validate (env_regex env) (env_f64 env) wd = Inr ()"
    and "\<And>a b. f_lt (env_f64 env) a b \<Longrightarrow> f_le (env_f64 env) a b"
    and "wf_max_cost wd = Some cap" and "execute env wd input jsonl w = Inr ex"
  shows "\<not> f_lt (env_f64 env) cap (tt_cost (ex_totals ex))"
proof -
  have "\<not> f_le (env_f64 env) cap (f_zero (env_f64 env))" using validate_ok [OF assms(1)] assms(3) by metis
  then have "within_budget env (initial_executor env wd jsonl w)"
    using assms(2,3) by (auto simp: within_budget_def initial_executor_def new_executor_def default_totals_def)
  moreover have "ex_max_cost ex = Some cap"
    using execute_max_cost [OF assms(4)] assms(3) by simp
  ultimately show ?thesis using budget.execute_keeps [OF assms(4)] by (simp add: within_budget_def)
qed

lemma completed_run_within_budget_witness:
  "\<exists>ex. execute echo_env ordered_wf ''x'' False 0 = Inr ex \<and> \<not> (9 :: int) < tt_cost (ex_totals ex)"
proof -
  from ordered_wf_runs obtain ex where run: "execute echo_env ordered_wf ''x'' False 0 = Inr ex"
    by (cases "execute echo_env ordered_wf ''x'' False 0") auto
  have "\<not> f_lt (env_f64 echo_env) 9 (tt_cost (ex_totals ex))"
    by (rule completed_run_within_budget [OF _ _ _ run])
      (use ordered_wf_valid in \<open>simp_all add: int_ops_def ordered_wf_def a_workflow_def\<close>)
  then show ?thesis using run by (simp add: int_ops_def)
qed

text \<open>
  A step in \<open>continue\<close> mode reports the running totals of its session. However many
  attempts failed before the successful one, the workflow's six token counters grow by exactly
  the last report less what the session had been charged before.
\<close>

theorem continue_session_charged_once:
  assumes "sq_session s = Continue"
    and "grow_chain (baseline env (sq_name s) ex) (failed @ [final])"
    and "record_success env s final (fold (record_failure env s) failed ex) = Inr (shown, ex')"
  shows "total_tokens (ex_totals ex') =
    map2 (+) (total_tokens (ex_totals ex))
      (map2 (-) (report_tokens final) (report_tokens (baseline env (sq_name s) ex)))"
proof -
  let ?ex = "fold (record_failure env s) failed ex"
  have chain: "grow_chain (baseline env (sq_name s) ex) failed"
    "grows (last (baseline env (sq_name s) ex # failed)) final"
    using assms(2) by (simp_all add: grow_chain_append)
  note so_far = record_failures_tokens [OF assms(1) chain(1)]
  with chain(2) have "grows (baseline env (sq_name s) ?ex) final" by simp
  from record_success_tokens [OF assms(1) this assms(3)] so_far show ?thesis
    by (simp add: add_differences)
qed

definition report :: "u64 \<Rightarrow> int step_stats" where
  "report n = (answer_stats ''done'')\<lparr>ss_input_tokens := n\<rparr>"

lemma continue_session_charged_once_witness:
  "\<exists>shown ex'. record_success echo_env (a_step ''s'' []\<lparr>sq_session := Continue\<rparr>) (report 30)
      (fold (record_failure echo_env (a_step ''s'' []\<lparr>sq_session := Continue\<rparr>)) [report 10, report 20]
        (initial_executor echo_env ordered_wf False 0)) = Inr (shown, ex') \<and>
    total_tokens (ex_totals ex') = [30, 4, 10, 0, 0, 0]"
proof -
  let ?s = "a_step ''s'' []\<lparr>sq_session := Continue\<rparr>" and ?ex = "initial_executor echo_env ordered_wf False 0"
  let ?r = "record_success echo_env ?s (report 30) (fold (record_failure echo_env ?s) [report 10, report 20] ?ex)"
  have "map_sum id (\<lambda>_. ()) ?r = Inr ()" by code_simp
  then obtain shown ex' where run: "?r = Inr (shown, ex')" by (cases ?r) auto
  have base: "baseline echo_env (sq_name ?s) ?ex = default_stats int_ops"
    by (simp add: baseline_def initial_executor_def new_executor_def)
  have chain: "grow_chain (default_stats int_ops) ([report 10, report 20] @ [report 30])" by code_simp
  have "total_tokens (ex_totals ex') = map2 (+) (total_tokens (ex_totals ?ex))
      (map2 (-) (report_tokens (report 30)) (report_tokens (default_stats int_ops)))"
    using continue_session_charged_once [OF _ _ run] chain base by simp
  also have "\<dots> = [30, 4, 10, 0, 0, 0]" by code_simp
  finally show ?thesis using run by blast
qed

section \<open>Validation\<close>

text \<open>
  In a validated workflow all step and sub-step names together are distinct, and none is
  blank, \<open>input\<close> or \<open>$end\<close>: an output name identifies the step that wrote it.
\<close>

theorem validated_names_usable:
  assumes "validate rx fo wd = Inr ()"
  shows "distinct (concat (map declared_names (wf_steps wd))) \<and>
    (\<forall>n. n \<in> workflow_output_names wd \<longrightarrow> usable_name n)"
proof -
  obtain names where "foldr_ok collect_names (wf_steps wd) {} = Inr names"
    using validate_ok [OF assms] by metis
  from insert_all_ok [OF collect_all_ok [OF this]] show ?thesis
    by (auto simp: workflow_output_names_def declared_names_def)
qed

lemma validated_names_usable_witness:
  "distinct (concat (map declared_names (wf_steps ordered_wf))) \<and> usable_name ''review''"
proof -
  have "''review'' \<in> workflow_output_names ordered_wf" by code_simp
  then show ?thesis using validated_names_usable [OF conjunct1 [OF ordered_wf_valid]] by blast
qed

text \<open>
  A validated graph: its nodes are exactly what the edges reach from the entry, some node
  has an edge to \<open>$end\<close>, and the routes of every node are conditional ones followed by one
  default, so that the default is tried last.
\<close>

theorem validated_graph_shape:
  assumes "validate rx fo wd = Inr ()" and "wf_entry wd = Some entry"
  shows "set (top_names wd) = reachable_from (wf_edges wd) entry \<and>
    (\<exists>n\<in>set (top_names wd). ends (wf_edges wd) n) \<and>
    (\<forall>n\<in>set (top_names wd). \<exists>conds dflt. outgoing (wf_edges wd) n = conds @ [dflt] \<and>
       edge_when dflt = None \<and> (\<forall>e\<in>set conds. edge_when e \<noteq> None))"
proof -
  have g: "is_graph wd" using assms(2) by (simp add: is_graph_def)
  obtain names where v: "validate_graph rx wd names = Inr ()" using validate_ok [OF assms(1)] g by metis
  obtain m where "entry \<in> set (top_names wd)"
    and t: "\<And>e. e \<in> set (wf_edges wd) \<Longrightarrow> edge_to e = END_NODE \<or> edge_to e \<in> set (top_names wd)"
    and r: "\<And>n. n \<in> set (top_names wd) \<Longrightarrow> check_routes (wf_edges wd) n = Inr ()"
    and s: "set (top_names wd) \<subseteq> reachable_from (wf_edges wd) entry"
    and e: "\<exists>n\<in>reachable_from (wf_edges wd) entry. ends (wf_edges wd) n"
    using validate_graph_ok [OF v] assms(2) by (metis option.inject)
  have "n \<in> set (top_names wd)" if "(entry, n) \<in> (step_edge (wf_edges wd))\<^sup>*" for n
    using that by (induction rule: rtrancl_induct)
      (use \<open>entry \<in> _\<close> t in \<open>auto simp: step_edge_def succs_def outgoing_def\<close>)
  with s have "set (top_names wd) = reachable_from (wf_edges wd) entry" by (auto simp: reachable_from_def)
  with e r check_routes_shape show ?thesis by metis
qed

lemma validated_graph_shape_witness:
  "''check'' \<in> reachable_from (wf_edges graph_wf) ''draft'' \<and>
   (\<exists>conds dflt. outgoing (wf_edges graph_wf) ''check'' = conds @ [dflt] \<and>
      edge_when dflt = None \<and> (\<forall>e\<in>set conds. edge_when e \<noteq> None))"
proof -
  have "wf_entry graph_wf = Some ''draft''" "''check'' \<in> set (top_names graph_wf)"
    by (simp_all add: graph_wf_def a_workflow_def top_names_def a_step_def)
  with validated_graph_shape [OF conjunct1 [OF graph_wf_valid]] show ?thesis by blast
qed

section \<open>Routing and references\<close>

definition edge_taken :: "regex_api \<Rightarrow> (string \<rightharpoonup> string) \<Rightarrow> string \<Rightarrow> edge \<Rightarrow> bool option" where
  "edge_taken rx outs current e =
     (case edge_when e of
        None \<Rightarrow> Some True
      | Some c \<Rightarrow> map_option (condition_matches rx c)
          (outs (case cond_output c of Some n \<Rightarrow> n | None \<Rightarrow> current)))"

lemma select_from_iff:
  "select_from rx outs current routes = Inr t \<longleftrightarrow>
     (\<exists>pre e post. routes = pre @ e # post \<and> t = edge_to e \<and> edge_taken rx outs current e = Some True \<and>
        (\<forall>e\<in>set pre. edge_taken rx outs current e = Some False))"
proof (induction routes)
  case Nil
  then show ?case by simp
next
  case (Cons r routes)
  have "(\<exists>pre e post. r # routes = pre @ e # post \<and> P pre e) \<longleftrightarrow>
      P [] r \<or> (\<exists>pre e post. routes = pre @ e # post \<and> P (r # pre) e)" for P
    by (simp add: Cons_eq_append_conv) blast
  note step = this
  show ?case
    unfolding step [of "\<lambda>pre e. t = edge_to e \<and> edge_taken rx outs current e = Some True \<and>
      (\<forall>e\<in>set pre. edge_taken rx outs current e = Some False)"]
    using Cons.IH by (auto simp: edge_taken_def Let_def split: option.splits)
qed

text \<open>
  The route taken from a node is the first of its edges, in declaration order, that is
  unconditional or whose condition holds of the output it tests; every earlier edge had its
  output and failed its condition.
\<close>

theorem first_matching_route_taken:
  "select_graph_edge rx edges outs current = Inr t \<longleftrightarrow>
     (\<exists>pre e post. outgoing edges current = pre @ e # post \<and> t = edge_to e \<and>
        edge_taken rx outs current e = Some True \<and>
        (\<forall>e\<in>set pre. edge_taken rx outs current e = Some False))"
  by (simp add: select_graph_edge_outgoing select_from_iff)

lemma first_matching_route_taken_witness:
  "select_graph_edge plain_regex (wf_edges graph_wf) [''check'' \<mapsto> ''yes''] ''check'' = Inr END_NODE"
  unfolding first_matching_route_taken
  by (rule exI [of _ "[\<lparr>edge_from = ''check'', edge_to = ''draft'', edge_when = Some (says None ''no'')\<rparr>]"],
      rule exI [of _ "\<lparr>edge_from = ''check'', edge_to = END_NODE, edge_when = None\<rparr>"], rule exI [of _ "[]"])
    (simp add: outgoing_def graph_wf_def a_workflow_def edge_taken_def says_def condition_matches_def
      str_contains_def, code_simp)

text \<open>
  A prompt whose references were checked against the outputs in scope is substituted
  completely: each \<open>{{var}}\<close> becomes the workflow input or a recorded output; only the
  built-in placeholders are left for the later expansion. This holds in both modes, in graph
  mode because \<open>substitute\<close> refuses an output not produced yet.
\<close>

theorem prompt_references_resolved:
  assumes "check_refs name prompt scope = Inr ()"
    and "scope \<subseteq> insert ''input'' (if ex_graph_mode ex then ex_known_outputs ex else dom (ex_outputs ex))"
    and "substitute env prompt input role ex = Inr text"
  shows "\<exists>f. text = env_expand env role (replace_all f prompt) (ex_world ex) \<and>
    (\<forall>v\<in>set (captures prompt). (v = ''input'' \<and> f v = input) \<or> ex_outputs ex v = Some (f v) \<or>
       (is_builtin_placeholder v \<and> f v = brace v))"
proof (intro exI conjI ballI)
  let ?f = "resolve_var (ex_outputs ex) input"
  show "text = env_expand env role (replace_all ?f prompt) (ex_world ex)"
    using assms(3) by (simp add: substitute_def split: option.splits)
  fix v assume v: "v \<in> set (captures prompt)"
  with assms(1) have scope: "is_builtin_placeholder v \<or> v \<in> scope"
    by (auto simp: check_refs_def ok_simps)
  have "\<not> unavailable_var ex v" if "ex_graph_mode ex"
    using assms(3) v that by (auto simp: substitute_def find_None_iff split: option.splits if_splits)
  with scope assms(2) show "(v = ''input'' \<and> ?f v = input) \<or> ex_outputs ex v = Some (?f v) \<or>
      (is_builtin_placeholder v \<and> ?f v = brace v)"
    by (cases "ex_outputs ex v") (auto simp: resolve_var_def unavailable_var_def split: if_splits)
qed

lemma prompt_references_resolved_witness:
  "\<exists>f. ''P x'' = replace_all f ''P {{input}}'' \<and> (\<forall>v\<in>set (captures ''P {{input}}'').
     (v = ''input'' \<and> f v = ''x'') \<or> (is_builtin_placeholder v \<and> f v = brace v))"
proof -
  let ?ex = "initial_executor echo_env ordered_wf False 0"
  have "check_refs ''plan'' ''P {{input}}'' {''input''} = Inr ()" by code_simp
  moreover have "substitute echo_env ''P {{input}}'' ''x'' ''dev'' ?ex = Inr ''P x''" by code_simp
  ultimately show ?thesis
    using prompt_references_resolved [of "''plan''" "''P {{input}}''" "{''input''}" ?ex echo_env "''x''" "''dev''" "''P x''"]
    by (auto simp: echo_env_def)
qed

text \<open>
  A \<open>[[steps]]\<close> table decodes to the one kind whose flag it sets, from the table without
  the flags; two flags or more are refused.
\<close>

theorem step_kind_from_flags:
  "case deserialize_step api t of
     Inl TooManyFlags \<Rightarrow> 2 \<le> length (filter (flag api t) [''parallel'', ''loop'', ''conditional''])
   | Inl (DecodeError e) \<Rightarrow> length (filter (flag api t) [''parallel'', ''loop'', ''conditional'']) \<le> 1
   | Inr st \<Rightarrow> filter (flag api t) [''parallel'', ''loop'', ''conditional''] =
        (case st of Sequential _ \<Rightarrow> [] | Parallel _ \<Rightarrow> [''parallel''] | Loop _ \<Rightarrow> [''loop'']
         | Conditional _ \<Rightarrow> [''conditional''])"
  by (auto simp: deserialize_step_def decoded_def Let_def split: sum.splits)

section \<open>Blocks\<close>

lemma replica_attempts_ok:
  "replica_attempts outcome a n err = Inr st \<longleftrightarrow>
     (\<exists>k<n. outcome (a + k) = RunOk st \<and> (\<forall>j<k. \<forall>st'. outcome (a + j) \<noteq> RunOk st'))"
proof (induction n arbitrary: a err)
  case 0
  then show ?case by simp
next
  case (Suc n)
  have split: "(\<exists>k<Suc n. P k) \<longleftrightarrow> P 0 \<or> (\<exists>k<n. P (Suc k))" for P by (simp add: Ex_less_Suc2)
  have all: "(\<forall>j<Suc k. Q j) \<longleftrightarrow> Q 0 \<and> (\<forall>j<k. Q (Suc j))" for Q k by (simp add: All_less_Suc2)
  show ?case
    unfolding split all using Suc.IH [of "a + 1"]
    by (cases "outcome a") auto
qed

text \<open>
  A replica succeeds exactly when one of its \<open>retries + 1\<close> attempts does, and with the
  stats of the first that does: later attempts are not made.
\<close>

theorem replica_first_success:
  "snd (run_replica env w (i, r)) = Inr st \<longleftrightarrow>
     (\<exists>k. k < unat (sq_retries (pr_seq r) + 1) \<and>
        env_replica env w i (1 + k) (replica_args r) = RunOk st \<and>
        (\<forall>j st'. j < k \<longrightarrow> env_replica env w i (1 + j) (replica_args r) \<noteq> RunOk st'))"
  unfolding run_replica_def by (auto simp: replica_attempts_ok)

definition a_replica :: prepared where
  "a_replica = \<lparr>pr_base = ''s'', pr_label = ''s #1'', pr_seq = a_step ''s'' ''P'', pr_prompt = ''P'', pr_workdir = None\<rparr>"

lemma replica_first_success_witness:
  "snd (run_replica echo_env 0 (0, a_replica)) = Inr (answer_stats ''P'')"
  unfolding replica_first_success
  by (intro exI [of _ 0]) (simp add: a_replica_def a_step_def echo_env_def replica_args_def)

lemma map_of_fold_set_output:
  "distinct (map fst parts) \<Longrightarrow> (n, v) \<in> set parts \<Longrightarrow>
   ex_outputs (fold (\<lambda>(b, v). set_output b v) parts ex) n = Some v"
proof (induction parts arbitrary: ex)
  case (Cons p parts)
  have keep: "n \<notin> fst ` set qs \<Longrightarrow>
      ex_outputs (fold (\<lambda>(b, v). set_output b v) qs ex) n = ex_outputs ex n" for qs and ex :: "('a, 'b) executor"
    by (induction qs arbitrary: ex) auto
  show ?case
  proof (cases "p = (n, v)")
    case True
    with Cons.prems(1) show ?thesis by (simp add: keep)
  next
    case False
    with Cons show ?thesis by auto
  qed
qed simp

lemma rposition_distinct:
  "distinct (map f xs) \<Longrightarrow> i < length xs \<Longrightarrow> rposition (\<lambda>x. f x = k) xs = Some i \<longleftrightarrow> f (xs ! i) = k"
proof -
  assume d: "distinct (map f xs)" and i: "i < length xs"
  have same: "f (xs ! j) = f (xs ! i) \<longleftrightarrow> j = i" if "j < length xs" for j
    using nth_eq_iff_index_eq [OF d] i that by simp
  show ?thesis
  proof (cases "rposition (\<lambda>x. f x = k) xs")
    case None
    then have "f (xs ! i) \<noteq> k" using i by (auto simp: rposition_None)
    with None show ?thesis by simp
  next
    case (Some j)
    from rposition_Some [OF this] have j: "j < length xs" "f (xs ! j) = k" by auto
    show ?thesis using Some same [OF j(1)] j(2) by auto
  qed
qed

lemma block_parts_distinct:
  assumes "distinct (map sq_name run)" and "s \<in> set run"
  shows "(sq_name s, aggregate d s (map (\<lambda>(r, st). (pr_label r, ss_output st))
      (filter (\<lambda>(r, st). pr_base r = sq_name s) oks))) \<in> set (block_parts d run oks)"
proof -
  obtain i where i: "i < length run" "run ! i = s" using assms(2) by (auto simp: in_set_conv_nth)
  have "rposition (\<lambda>x. sq_name x = k) run = Some i \<longleftrightarrow> k = sq_name s" for k
    using rposition_distinct [OF assms(1) i(1)] i(2) by auto
  then have "block_parts d run oks ! i = (sq_name s, aggregate d s
      (map (\<lambda>(r, st). (pr_label r, ss_output st)) (filter (\<lambda>(r, st). pr_base r = sq_name s) oks)))"
    using i by (simp add: block_parts_def by_base_def nth_enumerate_eq)
  moreover have "i < length (block_parts d run oks)" using i by (simp add: block_parts_def by_base_def)
  ultimately show ?thesis by (metis nth_mem)
qed

lemma wire_outputs_result:
  assumes "wire_outputs env p parts ex = Inr ex'"
  shows "\<exists>agg. ex_outputs ex' = (ex_outputs (fold (\<lambda>(b, v). set_output b v) parts ex))(par_name p \<mapsto> agg)"
  using assms by (auto simp: wire_outputs_def Let_def same_view_def
      dest!: finish_parallel_ok split: if_splits list.splits)

text \<open>
  A parallel block completes only with as many successful replicas as it asks for (all of
  them by default), and each sub-step's output is the aggregate of its own replicas in the
  order they were declared, whatever order they finished in.
\<close>

theorem parallel_block_outputs:
  assumes "exec_parallel env p input ex = Inr ex'"
    and "distinct (par_name p # map sq_name (par_run p))"
  shows "\<exists>reps ex1. prepare env p input ex = Inr (reps, ex1) \<and>
    (let oks = successes (run_replicas env (ex_world ex1) reps)
     in (case par_min_success p of Some m \<Rightarrow> unat m | None \<Rightarrow> length reps) \<le> length oks \<and>
        (\<forall>s\<in>set (par_run p). ex_outputs ex' (sq_name s) =
           Some (aggregate (par_match_pattern p \<noteq> None) s
             (map (\<lambda>(r, st). (pr_label r, ss_output st)) (filter (\<lambda>(r, st). pr_base r = sq_name s) oks)))))"
proof -
  from assms(1) obtain reps ex1 where prep: "prepare env p input ex = Inr (reps, ex1)"
    by (auto simp: exec_parallel_def rbind_def split: sum.splits)
  define oks where "oks = successes (run_replicas env (ex_world ex1) reps)"
  obtain ex2 where enough: "(case par_min_success p of Some m \<Rightarrow> unat m | None \<Rightarrow> length reps) \<le> length oks"
    and wire: "wire_outputs env p (block_parts (par_match_pattern p \<noteq> None) (par_run p) oks) ex2 = Inr ex'"
    using assms(1) prep by (auto simp: exec_parallel_def Let_def ok_simps oks_def [symmetric] not_less
        simp del: not_None_eq split: if_splits)
  have "ex_outputs ex' (sq_name s) = Some (aggregate (par_match_pattern p \<noteq> None) s
      (map (\<lambda>(r, st). (pr_label r, ss_output st)) (filter (\<lambda>(r, st). pr_base r = sq_name s) oks)))"
    if s: "s \<in> set (par_run p)" for s
  proof -
    have "map_of [(sq_name s, ())] (par_name p) = None" using assms(2) s by auto
    with wire_outputs_result [OF wire] map_of_fold_set_output [OF _ block_parts_distinct [OF _ s]] assms(2)
    show ?thesis by (auto simp: fst_block_parts simp del: not_None_eq)
  qed
  with prep enough show ?thesis by (auto simp: Let_def oks_def)
qed

definition a_block :: parallel_step where
  "a_block = \<lparr>par_name = ''both'', par_source = None, par_match_pattern = None, par_min_success = Some 2,
     par_max_parallel = None, par_run = [a_step ''a'' ''A'', a_step ''b'' ''B'']\<rparr>"

lemma parallel_block_outputs_witness:
  "\<exists>ex'. exec_parallel echo_env a_block ''x'' (initial_executor echo_env ordered_wf False 0) = Inr ex' \<and>
     ex_outputs ex' ''b'' \<noteq> None"
proof -
  let ?ex = "initial_executor echo_env ordered_wf False 0"
  have "map_sum id (\<lambda>_. ()) (exec_parallel echo_env a_block ''x'' ?ex) = Inr ()" by code_simp
  then obtain ex' where run: "exec_parallel echo_env a_block ''x'' ?ex = Inr ex'"
    by (cases "exec_parallel echo_env a_block ''x'' ?ex") auto
  have "distinct (par_name a_block # map sq_name (par_run a_block))" by (simp add: a_block_def a_step_def)
  from parallel_block_outputs [OF run this] have "\<forall>s\<in>set (par_run a_block). ex_outputs ex' (sq_name s) \<noteq> None"
    by (auto simp: Let_def)
  with run show ?thesis by (auto simp: a_block_def a_step_def)
qed

lemma length_expand_substep: "length (expand_substep s) = unat (replica_count s)"
  by (simp add: expand_substep_def replica_count_def split: option.splits)

lemma length_prepare_static:
  "prepare_static env input ex run = Inr reps \<Longrightarrow>
   length reps = sum_list (map (\<lambda>s. unat (replica_count s)) run)"
  by (induction run arbitrary: reps) (auto simp: ok_simps length_expand_substep)

lemma unat_total_replicas:
  "sum_list (map (\<lambda>s. unat (replica_count s)) run) < 2 ^ 32 \<Longrightarrow>
   unat (total_replicas run) = sum_list (map (\<lambda>s. unat (replica_count s)) run)"
proof (induction run)
  case Nil
  then show ?case by (simp add: total_replicas_def)
next
  case (Cons s run)
  then show ?case by (auto simp: total_replicas_def unat_word_ariths)
qed

text \<open>
  The threshold of a validated static block can be met: unless the sum of the replica
  counts wraps at \<open>2 ^ 32\<close>, \<open>min_success\<close> lies between one and the number of replicas run.
\<close>

theorem min_success_feasible:
  assumes "structural_check rx (Parallel p) = Inr ()" and "par_match_pattern p = None"
    and "par_min_success p = Some m"
    and "sum_list (map (\<lambda>s. unat (replica_count s)) (par_run p)) < 2 ^ 32"
    and "prepare env p input ex = Inr (reps, ex')"
  shows "0 < unat m \<and> unat m \<le> length reps \<and> ex' = ex"
proof -
  have "length reps = unat (total_replicas (par_run p))" "ex' = ex"
    using assms(2,5) length_prepare_static unat_total_replicas [OF assms(4)]
    by (auto simp: prepare_def ok_simps)
  with assms(1-3) show ?thesis
    by (auto simp: check_static_def ok_simps word_le_nat_alt unat_gt_0 not_less split: if_splits)
qed

lemma min_success_feasible_witness:
  "\<exists>reps ex'. prepare echo_env a_block ''x'' (initial_executor echo_env ordered_wf False 0) = Inr (reps, ex') \<and>
     2 \<le> length reps"
proof -
  let ?ex = "initial_executor echo_env ordered_wf False 0"
  have "map_sum id (\<lambda>_. ()) (prepare echo_env a_block ''x'' ?ex) = Inr ()" by code_simp
  then obtain reps ex' where run: "prepare echo_env a_block ''x'' ?ex = Inr (reps, ex')"
    by (cases "prepare echo_env a_block ''x'' ?ex") auto
  have "structural_check plain_regex (Parallel a_block) = Inr ()" by code_simp
  from min_success_feasible [OF this _ _ _ run, of 2] run show ?thesis
    by (auto simp: a_block_def a_step_def replica_count_def)
qed

lemma run_branch_keeps:
  "run_branch env input chosen sel ex = Inr (out, ex') \<Longrightarrow> n \<notin> set (map sq_name chosen) \<Longrightarrow>
   ex_outputs ex' n = ex_outputs ex n"
proof (induction chosen arbitrary: sel ex)
  case (Cons s chosen)
  then obtain st ex1 where "exec_sequential env s input ex = Inr (st, ex1)"
    and rest: "run_branch env input chosen (ss_output st)
      (set_last (sq_name s) (set_output (sq_name s) (ss_output st) ex1)) = Inr (out, ex')"
    by (auto simp: ok_simps)
  then have "ex_outputs ex1 = ex_outputs ex"
    using exec_sequential_view [of env s input ex st ex1] by (simp add: same_view_def)
  with Cons.IH [OF rest] Cons.prems show ?case by simp
qed simp

lemma fold_default_keeps:
  "ex_outputs (fold (\<lambda>s. default_output (sq_name s)) xs ex) n =
     (case ex_outputs ex n of Some v \<Rightarrow> Some v | None \<Rightarrow> if n \<in> set (map sq_name xs) then Some [] else None)"
  by (induction xs arbitrary: ex) (auto simp: default_output_def split: option.splits)

text \<open>
  The branch not chosen by a conditional is not run: its steps keep the output they had,
  or get the empty string, and what was on record elsewhere stays.
\<close>

theorem skipped_branch_untouched:
  assumes "exec_conditional env c input ex = Inr ex'"
    and "cond_target c ex = Inr target" and "ex_outputs ex target = Some v"
    and "n \<noteq> cnd_name c"
    and "n \<notin> set (if condition_matches (env_regex env) (cnd_condition c) v then cnd_on_match c else cnd_on_no_match c)"
  shows "ex_outputs ex' n =
    (case ex_outputs ex n of Some x \<Rightarrow> Some x | None \<Rightarrow> if n \<in> set (map sq_name (cnd_run c)) then Some [] else None)"
proof -
  define b where "b = (if condition_matches (env_regex env) (cnd_condition c) v then cnd_on_match c else cnd_on_no_match c)"
  from assms(1-3) obtain sel ex1 where
    run: "run_branch env input (filter (\<lambda>s. sq_name s \<in> set b) (cnd_run c)) [] ex = Inr (sel, ex1)"
    and ex': "ex_outputs ex' = (ex_outputs (fold (\<lambda>s. default_output (sq_name s))
        (filter (\<lambda>s. sq_name s \<notin> set b) (cnd_run c)) ex1))(cnd_name c \<mapsto> sel)"
    by (auto simp: exec_conditional_def Let_def ok_simps b_def [symmetric] simp del: if_image_distrib)
  have "ex_outputs ex1 n = ex_outputs ex n"
    using assms(5) by (intro run_branch_keeps [OF run]) (auto simp: b_def [symmetric])
  with assms(4,5) show ?thesis
    by (auto simp: ex' fold_default_keeps b_def [symmetric] split: option.splits)
qed

definition a_gate :: "string \<Rightarrow> conditional_step" where
  "a_gate target = \<lparr>cnd_name = ''gate'', cnd_condition = says (Some target) ''go'', cnd_on_match = [''yes''],
     cnd_on_no_match = [''no''], cnd_run = [a_step ''yes'' ''Y'', a_step ''no'' ''N'']\<rparr>"

lemma skipped_branch_untouched_witness:
  "\<exists>ex'. exec_conditional echo_env (a_gate ''plan'') ''x''
       (set_output ''plan'' ''stop'' (initial_executor echo_env ordered_wf False 0)) = Inr ex' \<and>
     ex_outputs ex' ''yes'' = Some []"
proof -
  let ?ex = "set_output ''plan'' ''stop'' (initial_executor echo_env ordered_wf False 0)"
  have "map_sum id (\<lambda>_. ()) (exec_conditional echo_env (a_gate ''plan'') ''x'' ?ex) = Inr ()" by code_simp
  then obtain ex' where run: "exec_conditional echo_env (a_gate ''plan'') ''x'' ?ex = Inr ex'"
    by (cases "exec_conditional echo_env (a_gate ''plan'') ''x'' ?ex") auto
  have no: "\<not> condition_matches plain_regex (cnd_condition (a_gate ''plan'')) ''stop''" by code_simp
  have "ex_outputs ex' ''yes'' = (case ex_outputs ?ex ''yes'' of Some x \<Rightarrow> Some x
      | None \<Rightarrow> if ''yes'' \<in> set (map sq_name (cnd_run (a_gate ''plan''))) then Some [] else None)"
    by (rule skipped_branch_untouched [OF run, of "''plan''" "''stop''"])
      (use no in \<open>simp_all add: cond_target_def a_gate_def says_def\<close>)
  also have "\<dots> = Some []" by (simp add: a_gate_def a_step_def)
  finally show ?thesis using run by blast
qed

section \<open>What validation lets through\<close>

text \<open>
  Two ordered workflows that validation accepts although they cannot work: a conditional
  that tests \<open>input\<close>, which is never an output, always fails; and after a loop of zero
  iterations a later prompt is sent with its reference to a loop step unreplaced.
\<close>

definition input_gate_wf :: "int workflow_def" where
  "input_gate_wf = a_workflow [Conditional (a_gate ''input'')]"

definition zero_loop_wf :: "int workflow_def" where
  "zero_loop_wf = a_workflow [Sequential (a_step ''plan'' ''P''), review_loop None 0,
     Sequential (a_step ''use'' ''U {{review}}'')]"

theorem validation_gaps:
  "validate plain_regex int_ops input_gate_wf = Inr () \<and>
   map_sum id (\<lambda>_. ()) (execute echo_env input_gate_wf ''x'' False 0) = Inl (CondTargetMissing ''gate'' ''input'') \<and>
   validate plain_regex int_ops zero_loop_wf = Inr () \<and>
   map_sum id (\<lambda>ex. ex_outputs ex ''use'') (execute echo_env zero_loop_wf ''x'' False 0) = Inr (Some ''U {{review}}'')"
proof (intro conjI)
  show "validate plain_regex int_ops input_gate_wf = Inr ()" by code_simp
  show "map_sum id (\<lambda>_. ()) (execute echo_env input_gate_wf ''x'' False 0) = Inl (CondTargetMissing ''gate'' ''input'')"
    by code_simp
  show "validate plain_regex int_ops zero_loop_wf = Inr ()" by code_simp
  show "map_sum id (\<lambda>ex. ex_outputs ex ''use'') (execute echo_env zero_loop_wf ''x'' False 0) = Inr (Some ''U {{review}}'')"
    by code_simp
qed

text \<open>
  The name of a loop is refused as a reference, yet the executor records the output of the
  loop's last step under it.
\<close>

definition loop_ref_wf :: "int workflow_def" where
  "loop_ref_wf = ordered_wf\<lparr>wf_steps := wf_steps ordered_wf @ [Sequential (a_step ''use'' ''U {{fix}}'')]\<rparr>"

theorem loop_output_recorded_not_referable:
  "validate plain_regex int_ops loop_ref_wf = Inl (RefErr ''use'' (UnknownVar ''fix'')) \<and>
   map_sum id (\<lambda>ex. ex_outputs ex ''use'') (execute echo_env loop_ref_wf ''x'' False 0) = Inr (Some ''U ok P x'')"
proof (rule conjI)
  show "validate plain_regex int_ops loop_ref_wf = Inl (RefErr ''use'' (UnknownVar ''fix''))" by code_simp
  show "map_sum id (\<lambda>ex. ex_outputs ex ''use'') (execute echo_env loop_ref_wf ''x'' False 0) = Inr (Some ''U ok P x'')"
    by code_simp
qed

text \<open>
  With \<open>retries\<close> at its largest the attempt count \<open>retries + 1\<close> wraps to zero: the step
  cannot succeed, whatever the subprocess would answer.
\<close>

theorem largest_retries_never_succeed:
  assumes "sq_retries s = - 1"
  shows "exec_sequential env s input ex \<noteq> Inr r"
  using assms by (auto simp: exec_sequential_def ok_simps)

lemma largest_retries_never_succeed_witness:
  "exec_sequential echo_env (a_step ''s'' ''P''\<lparr>sq_retries := - 1\<rparr>) ''x''
     (initial_executor echo_env ordered_wf False 0) \<noteq> Inr (answer_stats ''P'', initial_executor echo_env ordered_wf False 1)"
  by (rule largest_retries_never_succeed) simp

end
