(* ===== verification/PlanStore.thy ===== *)
theory PlanStore
  imports RustStr
begin

text \<open>
  The plan a session keeps (\<open>src/mcp/core/plan/storage.rs\<close>) and its in-memory store
  (\<open>memory_storage.rs\<close>). Every mutating operation takes the wall clock \<open>now\<close> (Unix seconds) it
  reads, a \<open>DateTime\<close> is its seconds, and a \<open>usize\<close> index is a \<open>nat\<close> bounded by the task
  vector. An error leaves the store as it was, so an operation returns the error or the new
  store. The locale \<open>plan_storage\<close> is the part of the \<open>PlanStorage\<close> trait that its clients
  drive a plan to its end with, \<open>finish_all\<close> the loop of \<open>finish_accepted_plan\<close> over it.
\<close>

section \<open>The plan\<close>

datatype task_status = InProgress | TaskDone

datatype plan_status = Active | PlanDone

record message_range =
  mr_start_index :: nat
  mr_end_index :: nat

record plan_task =
  pt_title :: string
  pt_description :: string
  pt_details :: string
  pt_summary :: "string option"
  pt_status :: task_status
  pt_completed_at :: "int option"
  pt_message_range :: "message_range option"
  pt_phase :: "string option"
  pt_valid_if :: "string option"

record execution_plan =
  pl_title :: string
  pl_tasks :: "plan_task list"
  pl_current :: nat
  pl_created_at :: int
  pl_status :: plan_status

record task_data =
  td_title :: string
  td_description :: string
  td_phase :: "string option"
  td_valid_if :: "string option"

datatype plan_err =
    EmptyTaskList | EmptyRevision | NoActivePlan | NoTaskToUpdate | NoCurrentTask | NoTaskToComplete
  | AllTasksCompleted | NoCompletedTask | InvalidTaskIndex

record plan_store =
  ps_plan :: "execution_plan option"
  ps_touched_at :: u64

section \<open>The store\<close>

definition new_store :: plan_store where
  "new_store = \<lparr>ps_plan = None, ps_touched_at = 0\<rparr>"

definition touch :: "int \<Rightarrow> plan_store \<Rightarrow> plan_store" where
  "touch now st = st\<lparr>ps_touched_at := word_of_int (max now 0)\<rparr>"

definition fresh_task :: "task_data \<Rightarrow> plan_task" where
  "fresh_task d = \<lparr>pt_title = td_title d, pt_description = td_description d, pt_details = [],
     pt_summary = None, pt_status = InProgress, pt_completed_at = None, pt_message_range = None,
     pt_phase = td_phase d, pt_valid_if = td_valid_if d\<rparr>"

definition the_plan :: "plan_store \<Rightarrow> plan_err + execution_plan" where
  "the_plan st = (case ps_plan st of Some p \<Rightarrow> Inr p | None \<Rightarrow> Inl NoActivePlan)"

definition set_plan :: "execution_plan \<Rightarrow> plan_store \<Rightarrow> plan_store" where
  "set_plan p st = st\<lparr>ps_plan := Some p\<rparr>"

definition replace_remaining :: "int \<Rightarrow> task_data list \<Rightarrow> plan_store \<Rightarrow> plan_err + plan_store" where
  "replace_remaining now tasks st =
     (if tasks = [] then Inl EmptyRevision
      else rbind (the_plan st) (\<lambda>p.
        Inr (touch now (set_plan (p\<lparr>pl_tasks := take (pl_current p) (pl_tasks p) @ map fresh_task tasks\<rparr>) st))))"

definition create_plan :: "int \<Rightarrow> string \<Rightarrow> task_data list \<Rightarrow> plan_store \<Rightarrow> plan_err + plan_store" where
  "create_plan now title tasks st =
     (if tasks = [] then Inl EmptyTaskList
      else Inr (touch now (set_plan \<lparr>pl_title = title, pl_tasks = map fresh_task tasks, pl_current = 0,
        pl_created_at = now, pl_status = Active\<rparr> st)))"

definition add_step_details :: "int \<Rightarrow> string \<Rightarrow> plan_store \<Rightarrow> plan_err + plan_store" where
  "add_step_details now content st =
     rbind (the_plan st) (\<lambda>p.
       if length (pl_tasks p) \<le> pl_current p then Inl NoTaskToUpdate
       else let t = pl_tasks p ! pl_current p;
                sep = (if pt_details t \<noteq> [] then bytes [10, 10] else []);
                t = t\<lparr>pt_details := pt_details t @ sep @ content\<rparr>
            in Inr (touch now (set_plan (p\<lparr>pl_tasks := (pl_tasks p)[pl_current p := t]\<rparr>) st)))"

definition get_current_step_details :: "plan_store \<Rightarrow> plan_err + string" where
  "get_current_step_details st =
     rbind (the_plan st) (\<lambda>p.
       if length (pl_tasks p) \<le> pl_current p then Inl NoCurrentTask
       else Inr (pt_details (pl_tasks p ! pl_current p)))"

definition complete_current_task :: "int \<Rightarrow> string \<Rightarrow> plan_store \<Rightarrow> plan_err + plan_store" where
  "complete_current_task now summary st =
     rbind (the_plan st) (\<lambda>p.
       if length (pl_tasks p) \<le> pl_current p then Inl NoTaskToComplete
       else let t = (pl_tasks p ! pl_current p)
                  \<lparr>pt_summary := Some summary, pt_status := TaskDone, pt_completed_at := Some now\<rparr>
            in Inr (touch now (set_plan (p\<lparr>pl_tasks := (pl_tasks p)[pl_current p := t],
                 pl_current := pl_current p + 1\<rparr>) st)))"

definition has_more_tasks :: "plan_store \<Rightarrow> plan_err + bool" where
  "has_more_tasks st = rbind (the_plan st) (\<lambda>p. Inr (pl_current p < length (pl_tasks p)))"

definition get_task_list :: "plan_store \<Rightarrow> plan_err + (string \<times> string \<times> task_status) list" where
  "get_task_list st = rbind (the_plan st) (\<lambda>p.
     Inr (map (\<lambda>(i, t). (pt_title t, pt_description t, if i < pl_current p then TaskDone else InProgress))
       (enumerate 0 (pl_tasks p))))"

definition get_current_task_info :: "plan_store \<Rightarrow> plan_err + nat \<times> nat \<times> string \<times> string" where
  "get_current_task_info st = rbind (the_plan st) (\<lambda>p.
     if length (pl_tasks p) \<le> pl_current p then Inl AllTasksCompleted
     else let t = pl_tasks p ! pl_current p
          in Inr (pl_current p + 1, length (pl_tasks p), pt_title t, pt_description t))"

definition complete_plan :: "int \<Rightarrow> string \<Rightarrow> plan_store \<Rightarrow> plan_err + plan_store" where
  "complete_plan now summary st = rbind (the_plan st) (\<lambda>p.
     Inr (touch now (set_plan (p\<lparr>pl_status := PlanDone\<rparr>) st)))"

definition clear_plan :: "plan_store \<Rightarrow> plan_err + plan_store" where
  "clear_plan st = Inr (st\<lparr>ps_plan := None\<rparr>)"

definition has_active_plan :: "plan_store \<Rightarrow> bool" where
  "has_active_plan st = (case ps_plan st of Some p \<Rightarrow> pl_status p = Active | None \<Rightarrow> False)"

definition get_plan_title :: "plan_store \<Rightarrow> plan_err + string" where
  "get_plan_title st = rbind (the_plan st) (\<lambda>p. Inr (pl_title p))"

definition set_current_task_message_range :: "nat \<Rightarrow> nat \<Rightarrow> plan_store \<Rightarrow> plan_err + plan_store" where
  "set_current_task_message_range start_index end_index st =
     rbind (the_plan st) (\<lambda>p.
       if pl_current p = 0 then Inl NoCompletedTask
       else let i = pl_current p - 1
            in if length (pl_tasks p) \<le> i then Inl InvalidTaskIndex
               else Inr (set_plan (p\<lparr>pl_tasks := (pl_tasks p)[i := (pl_tasks p ! i)\<lparr>pt_message_range :=
                      Some \<lparr>mr_start_index = start_index, mr_end_index = end_index\<rparr>\<rparr>]\<rparr>) st))"

definition get_last_completed_task :: "plan_store \<Rightarrow> plan_err + plan_task option" where
  "get_last_completed_task st =
     rbind (the_plan st) (\<lambda>p.
       if pl_current p = 0 then Inr None
       else let i = pl_current p - 1
            in if length (pl_tasks p) \<le> i then Inr None else Inr (Some (pl_tasks p ! i)))"

definition get_completed_task_count :: "plan_store \<Rightarrow> plan_err + nat" where
  "get_completed_task_count st = rbind (the_plan st) (\<lambda>p. Inr (pl_current p))"

definition get_total_task_count :: "plan_store \<Rightarrow> plan_err + nat" where
  "get_total_task_count st = rbind (the_plan st) (\<lambda>p. Inr (length (pl_tasks p)))"

definition load_plan :: "int \<Rightarrow> execution_plan \<Rightarrow> plan_store \<Rightarrow> plan_err + plan_store" where
  "load_plan now p st = Inr (touch now (set_plan p st))"

section \<open>The invariant\<close>

text \<open>
  A plan has tasks, the cursor is within them, every task before it is done, with a summary and
  a date, and no task from it on is.
\<close>

definition finished :: "plan_task \<Rightarrow> bool" where
  "finished t \<longleftrightarrow> pt_status t = TaskDone \<and> pt_summary t \<noteq> None \<and> pt_completed_at t \<noteq> None"

definition open_task :: "plan_task \<Rightarrow> bool" where
  "open_task t \<longleftrightarrow> pt_status t = InProgress \<and> pt_summary t = None \<and> pt_completed_at t = None \<and> pt_message_range t = None"

definition plan_inv :: "execution_plan \<Rightarrow> bool" where
  "plan_inv p \<longleftrightarrow> pl_tasks p \<noteq> [] \<and> pl_current p \<le> length (pl_tasks p) \<and>
     list_all finished (take (pl_current p) (pl_tasks p)) \<and>
     list_all open_task (drop (pl_current p) (pl_tasks p))"

definition store_inv :: "plan_store \<Rightarrow> bool" where
  "store_inv st \<longleftrightarrow> (case ps_plan st of Some p \<Rightarrow> plan_inv p | None \<Rightarrow> True)"

lemma the_plan_ok [ok_simps]: "the_plan st = Inr p \<longleftrightarrow> ps_plan st = Some p"
  by (simp add: the_plan_def split: option.splits)

lemma the_plan_err [err_simps]: "the_plan st = Inl e \<longleftrightarrow> ps_plan st = None \<and> e = NoActivePlan"
  by (auto simp: the_plan_def split: option.splits)

lemma store_sel [simp]:
  "ps_plan (touch now st) = ps_plan st" "ps_plan (set_plan p st) = Some p"
  "ps_touched_at (touch now st) = word_of_int (max now 0)" "ps_touched_at (set_plan p st) = ps_touched_at st"
  by (simp_all add: touch_def set_plan_def)

lemma open_fresh [simp]: "open_task (fresh_task d)"
  by (simp add: open_task_def fresh_task_def)

lemma take_update_next: "n < length xs \<Longrightarrow> take (Suc n) (xs[n := x]) = take n xs @ [x]"
  by (simp add: take_Suc_conv_app_nth)

lemma create_plan_inv: "create_plan now title tasks st = Inr st' \<Longrightarrow> store_inv st'"
  by (auto simp: create_plan_def store_inv_def plan_inv_def list_all_iff split: if_splits)

lemma replace_remaining_inv:
  "replace_remaining now tasks st = Inr st' \<Longrightarrow> store_inv st \<Longrightarrow> store_inv st'"
  by (auto simp: replace_remaining_def store_inv_def plan_inv_def list_all_iff ok_simps min_def split: if_splits)

text \<open>Replacing the task under the cursor.\<close>

lemma plan_inv_current:
  assumes "plan_inv p" and "pl_current p < length (pl_tasks p)"
  shows "open_task (pl_tasks p ! pl_current p)"
    and "finished t \<Longrightarrow> plan_inv (p\<lparr>pl_tasks := (pl_tasks p)[pl_current p := t], pl_current := Suc (pl_current p)\<rparr>)"
    and "open_task t \<Longrightarrow> plan_inv (p\<lparr>pl_tasks := (pl_tasks p)[pl_current p := t]\<rparr>)"
proof -
  have split: "drop (pl_current p) (pl_tasks p) = pl_tasks p ! pl_current p # drop (Suc (pl_current p)) (pl_tasks p)"
    using assms(2) by (simp add: Cons_nth_drop_Suc)
  have dr: "drop (pl_current p) ((pl_tasks p)[pl_current p := t]) = t # drop (Suc (pl_current p)) (pl_tasks p)"
    using assms(2) by (simp add: drop_update_swap split)
  show "open_task (pl_tasks p ! pl_current p)"
    using assms(1) by (simp add: plan_inv_def split)
  show "finished t \<Longrightarrow> plan_inv (p\<lparr>pl_tasks := (pl_tasks p)[pl_current p := t], pl_current := Suc (pl_current p)\<rparr>)"
    using assms take_update_next [OF assms(2), of t] by (auto simp: plan_inv_def split)
  show "open_task t \<Longrightarrow> plan_inv (p\<lparr>pl_tasks := (pl_tasks p)[pl_current p := t]\<rparr>)"
    using assms by (auto simp: plan_inv_def split dr)
qed

lemma complete_current_inv:
  assumes "complete_current_task now summary st = Inr st'" and "store_inv st"
  shows "store_inv st'"
  using assms plan_inv_current(2)
  by (auto simp: complete_current_task_def store_inv_def ok_simps Let_def finished_def split: if_splits)

lemma add_details_inv:
  assumes "add_step_details now content st = Inr st'" and "store_inv st"
  shows "store_inv st'"
  using assms plan_inv_current(1,3)
  by (fastforce simp: add_step_details_def store_inv_def ok_simps Let_def open_task_def split: if_splits)

lemma message_range_inv:
  assumes "set_current_task_message_range a b st = Inr st'" and "store_inv st"
  shows "store_inv st'"
proof -
  from assms(1) obtain p where p: "ps_plan st = Some p" "0 < pl_current p"
    and st': "ps_plan st' = Some (p\<lparr>pl_tasks := (pl_tasks p)[pl_current p - 1 := (pl_tasks p ! (pl_current p - 1))
        \<lparr>pt_message_range := Some \<lparr>mr_start_index = a, mr_end_index = b\<rparr>\<rparr>]\<rparr>)"
    by (auto simp: set_current_task_message_range_def ok_simps Let_def split: if_splits)
  from p assms(2) have c: "pl_current p \<le> length (pl_tasks p)" and f: "list_all finished (take (pl_current p) (pl_tasks p))"
    by (auto simp: store_inv_def plan_inv_def)
  from f p c have "finished (pl_tasks p ! (pl_current p - 1))" by (simp add: list_all_length)
  then show ?thesis using p st' assms(2)
    by (auto simp: store_inv_def plan_inv_def take_update_swap finished_def list_all_length nth_list_update)
qed

lemma complete_plan_inv: "complete_plan now summary st = Inr st' \<Longrightarrow> store_inv st \<Longrightarrow> store_inv st'"
  by (auto simp: complete_plan_def store_inv_def plan_inv_def ok_simps)

lemma clear_plan_inv: "clear_plan st = Inr st' \<Longrightarrow> store_inv st'"
  by (auto simp: clear_plan_def store_inv_def)

section \<open>The storage interface\<close>

text \<open>
  What a client that finishes a plan relies on: \<open>has_more\<close> says whether tasks remain,
  \<open>complete\<close> succeeds while they do and takes one off, and \<open>close_plan\<close> then succeeds.
\<close>

locale plan_storage =
  fixes has_more :: "'s \<Rightarrow> 'e + bool" and complete :: "'s \<Rightarrow> 'e + 's" and close_plan :: "'s \<Rightarrow> 'e + 's"
    and holds_plan :: "'s \<Rightarrow> bool" and remaining :: "'s \<Rightarrow> nat"
  assumes has_more_iff: "holds_plan s \<Longrightarrow> has_more s = Inr (remaining s \<noteq> 0)"
    and complete_one: "holds_plan s \<Longrightarrow> remaining s \<noteq> 0 \<Longrightarrow>
      \<exists>s'. complete s = Inr s' \<and> holds_plan s' \<and> remaining s = Suc (remaining s')"
    and close_ok: "holds_plan s \<Longrightarrow> \<exists>s'. close_plan s = Inr s'"
begin

text \<open>Completing \<open>remaining\<close> times exhausts the plan.\<close>

lemma completes_all:
  "holds_plan s \<Longrightarrow> \<exists>s'. ((\<lambda>m. rbind m complete) ^^ remaining s) (Inr s) = Inr s' \<and> holds_plan s' \<and> remaining s' = 0"
proof (induction "remaining s" arbitrary: s)
  case 0
  then show ?case by auto
next
  case (Suc n)
  then obtain s1 where s1: "complete s = Inr s1" "holds_plan s1" "remaining s = Suc (remaining s1)"
    using complete_one by (metis Zero_not_Suc)
  with Suc.hyps(2) Suc.hyps(1) [of s1] obtain s' where
    "((\<lambda>m. rbind m complete) ^^ remaining s1) (Inr s1) = Inr s'" "holds_plan s'" "remaining s' = 0" by auto
  then show ?case using s1 by (simp add: funpow_Suc_right del: funpow.simps)
qed

end

definition tasks_left :: "plan_store \<Rightarrow> nat" where
  "tasks_left st = (case ps_plan st of Some p \<Rightarrow> length (pl_tasks p) - pl_current p | None \<Rightarrow> 0)"

interpretation memory: plan_storage has_more_tasks "complete_current_task now summary" "complete_plan now summary"
    "\<lambda>st. ps_plan st \<noteq> None" tasks_left for now summary
  by unfold_locales
    (auto simp: has_more_tasks_def complete_current_task_def complete_plan_def tasks_left_def the_plan_def Let_def)

text \<open>\<open>finish_accepted_plan\<close>: complete what is left, then the plan.\<close>

function finish_accepted_plan :: "int \<Rightarrow> string \<Rightarrow> plan_store \<Rightarrow> plan_err + plan_store" where
  "finish_accepted_plan now summary st =
     (case has_more_tasks st of
        Inl e \<Rightarrow> Inl e
      | Inr False \<Rightarrow> complete_plan now summary st
      | Inr True \<Rightarrow>
          (case complete_current_task now summary st of
             Inl e \<Rightarrow> Inl e
           | Inr st \<Rightarrow> finish_accepted_plan now summary st))"
  by pat_completeness auto
termination
proof (relation "measure (\<lambda>(now, summary, st). tasks_left st)", goal_cases)
  case 1
  then show ?case by simp
next
  case (2 now summary st b st')
  then show ?case
    by (auto simp: has_more_tasks_def complete_current_task_def tasks_left_def ok_simps Let_def)
qed

declare finish_accepted_plan.simps [simp del]

lemma finish_is_iteration:
  assumes "ps_plan st \<noteq> None"
  shows "finish_accepted_plan now summary st =
    rbind (((\<lambda>m. rbind m (complete_current_task now summary)) ^^ tasks_left st) (Inr st)) (complete_plan now summary)"
  using assms
proof (induction "tasks_left st" arbitrary: st)
  case 0
  then show ?case
    using memory.has_more_iff [OF 0(2)] by (simp add: finish_accepted_plan.simps [of now summary st])
next
  case (Suc n)
  then obtain st1 where st1: "complete_current_task now summary st = Inr st1" "ps_plan st1 \<noteq> None"
      "tasks_left st = Suc (tasks_left st1)"
    using memory.complete_one [OF Suc.prems, of now summary] by auto
  then show ?case
    using Suc memory.has_more_iff [OF Suc.prems]
    by (simp add: finish_accepted_plan.simps [of now summary st] funpow_Suc_right del: funpow.simps)
qed

lemma finish_accepted_ok:
  assumes "ps_plan st \<noteq> None"
  shows "\<exists>st'. finish_accepted_plan now summary st = Inr st' \<and> \<not> has_active_plan st' \<and> tasks_left st' = 0"
proof -
  obtain s1 where s1: "((\<lambda>m. rbind m (complete_current_task now summary)) ^^ tasks_left st) (Inr st) = Inr s1"
    "ps_plan s1 \<noteq> None" "tasks_left s1 = 0"
    using memory.completes_all [OF assms] by blast
  then show ?thesis
    by (auto simp: finish_is_iteration [OF assms] complete_plan_def the_plan_def has_active_plan_def tasks_left_def)
qed

end
