(* ===== verification/Json.thy ===== *)
theory Json
  imports RustStr
begin

text \<open>
  The values of \<open>serde_json\<close> as the program inspects them: an object is its fields in iteration order,
  a number its text. \<open>get\<close>, \<open>as_str\<close>, \<open>as_u64\<close> and \<open>as_array\<close> of the library on these values.
\<close>

datatype json =
    JNull | JBool bool | JNum string | JStr string | JArr "json list" | JObj "(string \<times> json) list"

definition json_as_str :: "json \<Rightarrow> string option" where
  "json_as_str j = (case j of JStr s \<Rightarrow> Some s | _ \<Rightarrow> None)"

definition json_get :: "string \<Rightarrow> json \<Rightarrow> json option" where
  "json_get k j = (case j of JObj fields \<Rightarrow> map_of fields k | _ \<Rightarrow> None)"

definition json_as_array :: "json \<Rightarrow> json list" where
  "json_as_array j = (case j of JArr js \<Rightarrow> js | _ \<Rightarrow> [])"

text \<open>The value of a digit string; the decimal digits of a natural number give it back.\<close>

definition digits_int :: "string \<Rightarrow> int" where
  "digits_int s = foldl (\<lambda>n c. 10 * n + int (digit_val c)) 0 s"

lemma digits_int_nat: "digits_int s = int (digits_val s)"
proof -
  have "foldl (\<lambda>n c. 10 * n + int (digit_val c)) (int m) s = int (foldl (\<lambda>n c. 10 * n + digit_val c) m s)" for m
  proof (induction s arbitrary: m)
    case Nil
    then show ?case by simp
  next
    case (Cons c s)
    from Cons.IH [of "10 * m + digit_val c"] show ?case by simp
  qed
  from this [of 0] show ?thesis by (simp add: digits_int_def digits_val_def)
qed

text \<open>
  \<open>str::parse\<close> for an unsigned integer of \<open>w\<close> bits: an optional plus sign, at least one digit, no
  overflow.
\<close>

definition parse_unsigned :: "nat \<Rightarrow> string \<Rightarrow> int option" where
  "parse_unsigned w s =
     (let ds = (case s of c # cs \<Rightarrow> if c = CHR ''+'' then cs else s | [] \<Rightarrow> [])
      in if ds = [] \<or> \<not> list_all is_digit ds \<or> 2 ^ w \<le> digits_int ds then None else Some (digits_int ds))"

definition json_as_u64 :: "json \<Rightarrow> u64 option" where
  "json_as_u64 j =
     (case j of JNum s \<Rightarrow> if list_all is_digit s then map_option word_of_int (parse_unsigned 64 s) else None | _ \<Rightarrow> None)"

end
