(* ===== verification/PlanLog.thy ===== *)
theory PlanLog
  imports PlanStore Json
begin

text \<open>
  The lines about the plan in the session log: what \<open>log_plan_snapshot\<close> and \<open>log_plan_cleared\<close> of
  \<open>src/session/logger.rs\<close> write, with the serialization that \<open>serde\<close> derives for the types of
  \<open>src/mcp/core/plan/storage.rs\<close>, and how \<open>restore_plan_for_session\<close> of \<open>src/mcp/core/plan/core.rs\<close> reads a line.
  The text of a JSON value (\<open>serde_json\<close>) and of a date (\<open>chrono\<close>) is an argument. A log is its lines.
\<close>

section \<open>Text\<close>

record log_codec =
  lc_encode :: "json \<Rightarrow> string"
  lc_decode :: "string \<Rightarrow> json option"
  lc_show_time :: "int \<Rightarrow> string"
  lc_read_time :: "string \<Rightarrow> int option"

text \<open>A value as the parser builds it: the keys of an object ascend, and a number is the digits of a natural number.\<close>

fun canonical :: "json \<Rightarrow> bool" where
  "canonical (JNum s) \<longleftrightarrow> list_all is_digit s \<and> show_nat (digits_val s) = s"
| "canonical (JArr js) \<longleftrightarrow> (\<forall>j\<in>set js. canonical j)"
| "canonical (JObj fs) \<longleftrightarrow> sorted_wrt byte_less (map fst fs) \<and> (\<forall>f\<in>set fs. canonical (snd f))"
| "canonical _ \<longleftrightarrow> True"

text \<open>Written values are read back, and so are dates.\<close>

definition codec_ok :: "log_codec \<Rightarrow> bool" where
  "codec_ok c \<longleftrightarrow> (\<forall>j. canonical j \<longrightarrow> lc_decode c (lc_encode c j) = Some j) \<and> (\<forall>t. lc_read_time c (lc_show_time c t) = Some t)"

section \<open>Serialization\<close>

definition nat_json :: "nat \<Rightarrow> json" where "nat_json n = JNum (show_nat n)"

definition opt_json :: "string option \<Rightarrow> json" where
  "opt_json x = (case x of Some s \<Rightarrow> JStr s | None \<Rightarrow> JNull)"

text \<open>A field that is left out when it is empty.\<close>

definition field_json :: "string \<Rightarrow> ('a \<Rightarrow> json) \<Rightarrow> 'a option \<Rightarrow> (string \<times> json) list" where
  "field_json k f x = (case x of Some v \<Rightarrow> [(k, f v)] | None \<Rightarrow> [])"

definition range_json :: "message_range \<Rightarrow> json" where
  "range_json r = JObj [(''end_index'', nat_json (mr_end_index r)), (''start_index'', nat_json (mr_start_index r))]"

definition task_status_json :: "task_status \<Rightarrow> json" where
  "task_status_json s = JStr (case s of InProgress \<Rightarrow> ''InProgress'' | TaskDone \<Rightarrow> ''Completed'')"

definition plan_status_json :: "plan_status \<Rightarrow> json" where
  "plan_status_json s = JStr (case s of Active \<Rightarrow> ''Active'' | PlanDone \<Rightarrow> ''Completed'')"

definition task_to_json :: "log_codec \<Rightarrow> plan_task \<Rightarrow> json" where
  "task_to_json c t = JObj (
     [(''completed_at'', case pt_completed_at t of Some d \<Rightarrow> JStr (lc_show_time c d) | None \<Rightarrow> JNull),
      (''description'', JStr (pt_description t)), (''details'', JStr (pt_details t))] @
     field_json ''message_range'' range_json (pt_message_range t) @ field_json ''phase'' JStr (pt_phase t) @
     [(''status'', task_status_json (pt_status t)), (''summary'', opt_json (pt_summary t)), (''title'', JStr (pt_title t))] @
     field_json ''valid_if'' JStr (pt_valid_if t))"

definition plan_to_json :: "log_codec \<Rightarrow> execution_plan \<Rightarrow> json" where
  "plan_to_json c p = JObj
     [(''created_at'', JStr (lc_show_time c (pl_created_at p))), (''current_task_index'', nat_json (pl_current p)),
      (''status'', plan_status_json (pl_status p)), (''tasks'', JArr (map (task_to_json c) (pl_tasks p))),
      (''title'', JStr (pl_title p))]"

definition snapshot_line :: "log_codec \<Rightarrow> u64 \<Rightarrow> execution_plan \<Rightarrow> string" where
  "snapshot_line c now p = lc_encode c (JObj
     [(''plan'', plan_to_json c p), (''timestamp'', nat_json (unat now)), (''type'', JStr ''PLAN_SNAPSHOT'')])"

definition cleared_line :: "log_codec \<Rightarrow> u64 \<Rightarrow> string" where
  "cleared_line c now = lc_encode c (JObj [(''timestamp'', nat_json (unat now)), (''type'', JStr ''PLAN_CLEARED'')])"

section \<open>Deserialization\<close>

text \<open>A field that is missing or null is \<open>None\<close>; one that does not decode fails the whole.\<close>

definition opt_field :: "string \<Rightarrow> (json \<Rightarrow> 'a option) \<Rightarrow> json \<Rightarrow> 'a option option" where
  "opt_field k read j =
     (case json_get k j of None \<Rightarrow> Some None | Some JNull \<Rightarrow> Some None | Some v \<Rightarrow> map_option Some (read v))"

definition req_field :: "string \<Rightarrow> (json \<Rightarrow> 'a option) \<Rightarrow> json \<Rightarrow> 'a option" where
  "req_field k read j = Option.bind (json_get k j) read"

definition json_usize :: "json \<Rightarrow> nat option" where
  "json_usize j = map_option unat (json_as_u64 j)"

definition json_time :: "log_codec \<Rightarrow> json \<Rightarrow> int option" where
  "json_time c j = Option.bind (json_as_str j) (lc_read_time c)"

definition read_range :: "json \<Rightarrow> message_range option" where
  "read_range j =
     Option.bind (req_field ''start_index'' json_usize j) (\<lambda>a.
     Option.bind (req_field ''end_index'' json_usize j) (\<lambda>b. Some \<lparr>mr_start_index = a, mr_end_index = b\<rparr>))"

definition read_task_status :: "json \<Rightarrow> task_status option" where
  "read_task_status j =
     (if j = JStr ''InProgress'' then Some InProgress else if j = JStr ''Completed'' then Some TaskDone else None)"

definition read_plan_status :: "json \<Rightarrow> plan_status option" where
  "read_plan_status j =
     (if j = JStr ''Active'' then Some Active else if j = JStr ''Completed'' then Some PlanDone else None)"

definition read_task :: "log_codec \<Rightarrow> json \<Rightarrow> plan_task option" where
  "read_task c j =
     Option.bind (req_field ''title'' json_as_str j) (\<lambda>title.
     Option.bind (req_field ''description'' json_as_str j) (\<lambda>description.
     Option.bind (req_field ''details'' json_as_str j) (\<lambda>details.
     Option.bind (opt_field ''summary'' json_as_str j) (\<lambda>summary.
     Option.bind (req_field ''status'' read_task_status j) (\<lambda>status.
     Option.bind (opt_field ''completed_at'' (json_time c) j) (\<lambda>completed.
     Option.bind (opt_field ''message_range'' read_range j) (\<lambda>range.
     Option.bind (opt_field ''phase'' json_as_str j) (\<lambda>phase.
     Option.bind (opt_field ''valid_if'' json_as_str j) (\<lambda>valid.
       Some \<lparr>pt_title = title, pt_description = description, pt_details = details, pt_summary = summary, pt_status = status,
         pt_completed_at = completed, pt_message_range = range, pt_phase = phase, pt_valid_if = valid\<rparr>)))))))))"

fun collect_some :: "('a \<Rightarrow> 'b option) \<Rightarrow> 'a list \<Rightarrow> 'b list option" where
  "collect_some f [] = Some []"
| "collect_some f (x # xs) = Option.bind (f x) (\<lambda>y. map_option (Cons y) (collect_some f xs))"

definition read_tasks :: "log_codec \<Rightarrow> json \<Rightarrow> plan_task list option" where
  "read_tasks c j = (case j of JArr js \<Rightarrow> collect_some (read_task c) js | _ \<Rightarrow> None)"

definition read_plan :: "log_codec \<Rightarrow> json \<Rightarrow> execution_plan option" where
  "read_plan c j =
     Option.bind (req_field ''title'' json_as_str j) (\<lambda>title.
     Option.bind (req_field ''tasks'' (read_tasks c) j) (\<lambda>tasks.
     Option.bind (req_field ''current_task_index'' json_usize j) (\<lambda>current.
     Option.bind (req_field ''created_at'' (json_time c) j) (\<lambda>created.
     Option.bind (req_field ''status'' read_plan_status j) (\<lambda>status.
       Some \<lparr>pl_title = title, pl_tasks = tasks, pl_current = current, pl_created_at = created, pl_status = status\<rparr>)))))"

text \<open>A line that is no JSON, of another type or with a plan that does not decode leaves the latest plan alone.\<close>

definition replay_line :: "log_codec \<Rightarrow> string \<Rightarrow> execution_plan option \<Rightarrow> execution_plan option" where
  "replay_line c line latest =
     (case lc_decode c line of
        None \<Rightarrow> latest
      | Some j \<Rightarrow>
          let t = Option.bind (json_get ''type'' j) json_as_str
          in if t = Some ''PLAN_SNAPSHOT'' then
               (case Option.bind (json_get ''plan'' j) (read_plan c) of Some p \<Rightarrow> Some p | None \<Rightarrow> latest)
             else if t = Some ''PLAN_CLEARED'' then None
             else latest)"

definition replay_log :: "log_codec \<Rightarrow> string list \<Rightarrow> execution_plan option" where
  "replay_log c ls = fold (replay_line c) ls None"

section \<open>Round trip\<close>

text \<open>The indexes of a plan are machine words in the program.\<close>

definition plan_fits :: "execution_plan \<Rightarrow> bool" where
  "plan_fits p \<longleftrightarrow> pl_current p < 2 ^ 64 \<and>
     (\<forall>t\<in>set (pl_tasks p). case pt_message_range t of Some r \<Rightarrow> mr_start_index r < 2 ^ 64 \<and> mr_end_index r < 2 ^ 64 | None \<Rightarrow> True)"

lemma usize_roundtrip: "n < 2 ^ 64 \<Longrightarrow> json_usize (nat_json n) = Some n"
proof -
  assume n: "n < 2 ^ 64"
  obtain c cs where s: "show_nat n = c # cs" using show_nat_nonempty by (cases "show_nat n") auto
  have digits: "list_all is_digit (show_nat n)" by (simp add: list_all_iff show_nat_digits)
  then have "is_digit c" by (simp add: s)
  then have "c \<noteq> CHR ''+''" unfolding is_digit_def by (rule contrapos_pn) simp
  then have "(case show_nat n of c # cs \<Rightarrow> if c = CHR ''+'' then cs else show_nat n | [] \<Rightarrow> []) = show_nat n" by (simp add: s)
  then have "parse_unsigned 64 (show_nat n) = Some (int n)"
    using n digits unfolding parse_unsigned_def Let_def digits_int_nat digits_val_show by (simp add: less_le_not_le [symmetric])
  then have "json_usize (nat_json n) = Some (unat (of_nat n :: u64))"
    using digits by (simp add: json_usize_def nat_json_def json_as_u64_def)
  also have "unat (of_nat n :: u64) = n" using n by (simp add: unat_of_nat take_bit_nat_eq_self)
  finally show ?thesis .
qed

lemma nat_canonical [simp]: "canonical (nat_json n)"
  by (simp add: nat_json_def list_all_iff show_nat_digits)

lemmas record_fields = req_field_def opt_field_def json_get_def field_json_def opt_json_def json_as_str_def

lemma status_roundtrip [simp]:
  "read_task_status (task_status_json s) = Some s" "read_plan_status (plan_status_json s') = Some s'"
  by (cases s; cases s'; simp add: read_task_status_def task_status_json_def read_plan_status_def plan_status_json_def)+

definition range_fits :: "plan_task \<Rightarrow> bool" where
  "range_fits t \<longleftrightarrow> (case pt_message_range t of Some r \<Rightarrow> mr_start_index r < 2 ^ 64 \<and> mr_end_index r < 2 ^ 64 | None \<Rightarrow> True)"

lemma range_roundtrip:
  "mr_start_index r < 2 ^ 64 \<Longrightarrow> mr_end_index r < 2 ^ 64 \<Longrightarrow> read_range (range_json r) = Some r"
  by (simp add: read_range_def range_json_def record_fields usize_roundtrip)

lemma range_json_not_null: "(case range_json r of JNull \<Rightarrow> a | _ \<Rightarrow> b) = b"
  by (simp add: range_json_def)

lemma task_roundtrip:
  assumes "codec_ok c" and "range_fits t"
  shows "read_task c (task_to_json c t) = Some t"
proof -
  have time: "json_time c (JStr (lc_show_time c d)) = Some d" for d
    using assms(1) by (simp add: json_time_def json_as_str_def codec_ok_def)
  have range: "read_range (range_json r) = Some r" if "pt_message_range t = Some r" for r
    using assms(2) that range_roundtrip by (simp add: range_fits_def)
  show ?thesis
    by (cases t; cases "pt_message_range t"; cases "pt_phase t"; cases "pt_valid_if t"; cases "pt_summary t"; cases "pt_completed_at t")
      (use range in \<open>simp_all add: read_task_def task_to_json_def record_fields time range_json_def\<close>)
qed

lemma tasks_roundtrip:
  "codec_ok c \<Longrightarrow> \<forall>t\<in>set ts. range_fits t \<Longrightarrow> collect_some (read_task c) (map (task_to_json c) ts) = Some ts"
  by (induction ts) (simp_all add: task_roundtrip)

lemma plan_roundtrip:
  assumes "codec_ok c" and "plan_fits p"
  shows "read_plan c (plan_to_json c p) = Some p"
proof -
  have time: "json_time c (JStr (lc_show_time c d)) = Some d" for d
    using assms(1) by (simp add: json_time_def json_as_str_def codec_ok_def)
  have "\<forall>t\<in>set (pl_tasks p). range_fits t" "pl_current p < 2 ^ 64" using assms(2) by (simp_all add: plan_fits_def range_fits_def)
  then show ?thesis
    using tasks_roundtrip[OF assms(1)] by (simp add: read_plan_def plan_to_json_def read_tasks_def record_fields time usize_roundtrip)
qed

lemma task_canonical: "canonical (task_to_json c t)"
  by (cases "pt_message_range t"; cases "pt_phase t"; cases "pt_valid_if t")
    (simp_all add: task_to_json_def field_json_def opt_json_def range_json_def task_status_json_def split: option.split)

lemma plan_canonical: "canonical (plan_to_json c p)"
  by (simp add: plan_to_json_def task_canonical plan_status_json_def)

lemma replay_snapshot:
  assumes "codec_ok c" and "plan_fits p"
  shows "replay_line c (snapshot_line c now p) latest = Some p"
  using assms plan_roundtrip[OF assms] plan_canonical[of c p]
  by (simp add: replay_line_def snapshot_line_def codec_ok_def json_get_def json_as_str_def)

lemma replay_cleared:
  assumes "codec_ok c"
  shows "replay_line c (cleared_line c now) latest = None"
  using assms by (simp add: replay_line_def cleared_line_def codec_ok_def json_get_def json_as_str_def)

end
