(* ===== verification/PlanSidecar.thy ===== *)
theory PlanSidecar
  imports PlanLog
begin

text \<open>
  The runtime's transitions on the plan of a session (\<open>src/mcp/core/plan/core.rs\<close>): start,
  advance, revise, finish, the restoration from the session log, and the views of the plan
  that are put before the model. The session's plan state is the store, the message index at
  which the current task started and the plan lines of the session log; logging is best
  effort, so a write that fails (\<open>pe_log_ok\<close>) changes nothing.
\<close>

section \<open>State\<close>

record plan_ctx =
  px_store :: plan_store
  px_task_start :: "nat option"
  px_log :: "string list"

record plan_env =
  pe_now :: int
  pe_in_session :: bool
  pe_log_ok :: bool
  pe_exists :: "string \<Rightarrow> bool"
  pe_codec :: log_codec

record directive =
  dr_title :: string
  dr_done_when :: string

datatype sidecar_err =
    TooFewTasks nat | TooManyTasks | BlankTaskField | BlankTitle | AlreadyActive
  | BlankSummary | NotActive | AllComplete | BlankReason | StoreErr plan_err

definition store_op :: "plan_err + 'a \<Rightarrow> sidecar_err + 'a" where
  "store_op r = map_sum StoreErr id r"

definition append_log :: "plan_env \<Rightarrow> string \<Rightarrow> plan_ctx \<Rightarrow> plan_ctx" where
  "append_log env l ctx = (if pe_log_ok env then ctx\<lparr>px_log := px_log ctx @ [l]\<rparr> else ctx)"

definition log_timestamp :: "plan_env \<Rightarrow> u64" where
  "log_timestamp env = word_of_int (max (pe_now env) 0)"

definition persist_plan_snapshot :: "plan_env \<Rightarrow> plan_ctx \<Rightarrow> plan_ctx" where
  "persist_plan_snapshot env ctx =
     (if \<not> pe_in_session env then ctx
      else case ps_plan (px_store ctx) of
          None \<Rightarrow> ctx
        | Some p \<Rightarrow> append_log env (snapshot_line (pe_codec env) (log_timestamp env) p) ctx)"

definition persist_plan_cleared :: "plan_env \<Rightarrow> plan_ctx \<Rightarrow> plan_ctx" where
  "persist_plan_cleared env ctx =
     (if pe_in_session env then append_log env (cleared_line (pe_codec env) (log_timestamp env)) ctx else ctx)"

definition set_current_task_start_index :: "nat \<Rightarrow> plan_ctx \<Rightarrow> plan_ctx" where
  "set_current_task_start_index i ctx = ctx\<lparr>px_task_start := Some i\<rparr>"

definition clear_task_start_index :: "plan_ctx \<Rightarrow> plan_ctx" where
  "clear_task_start_index ctx = ctx\<lparr>px_task_start := None\<rparr>"

section \<open>Transitions\<close>

definition sidecar_task :: "directive \<Rightarrow> sidecar_err + task_data" where
  "sidecar_task d =
     (let title = trim (dr_title d); done_when = trim (dr_done_when d)
      in if title = [] \<or> done_when = [] then Inl BlankTaskField
         else Inr \<lparr>td_title = title, td_description = ''Done when: '' @ done_when,
                td_phase = None, td_valid_if = None\<rparr>)"

definition sidecar_tasks :: "directive list \<Rightarrow> nat \<Rightarrow> sidecar_err + task_data list" where
  "sidecar_tasks tasks minimum =
     (if length tasks < minimum then Inl (TooFewTasks minimum)
      else if 6 < length tasks then Inl TooManyTasks
      else map_ok sidecar_task tasks)"

definition sidecar_start :: "plan_env \<Rightarrow> string \<Rightarrow> directive list \<Rightarrow> plan_ctx \<Rightarrow> sidecar_err + plan_ctx" where
  "sidecar_start env title tasks ctx =
     (let title = trim title
      in if title = [] then Inl BlankTitle
         else rbind (sidecar_tasks tasks 2) (\<lambda>tasks.
           if has_active_plan (px_store ctx) then Inl AlreadyActive
           else rbind (store_op (create_plan (pe_now env) title tasks (px_store ctx))) (\<lambda>st.
             Inr (persist_plan_snapshot env (ctx\<lparr>px_store := st\<rparr>)))))"

definition sidecar_advance :: "plan_env \<Rightarrow> string \<Rightarrow> plan_ctx \<Rightarrow> sidecar_err + plan_ctx" where
  "sidecar_advance env summary ctx =
     (let summary = trim summary
      in if summary = [] then Inl BlankSummary
         else if \<not> has_active_plan (px_store ctx) then Inl NotActive
         else rbind (store_op (has_more_tasks (px_store ctx))) (\<lambda>more.
           if \<not> more then Inl AllComplete
           else rbind (store_op (complete_current_task (pe_now env) summary (px_store ctx))) (\<lambda>st.
             Inr (persist_plan_snapshot env (ctx\<lparr>px_store := st\<rparr>)))))"

definition sidecar_revise :: "plan_env \<Rightarrow> string \<Rightarrow> directive list \<Rightarrow> plan_ctx \<Rightarrow> sidecar_err + plan_ctx" where
  "sidecar_revise env reason tasks ctx =
     (if is_blank reason then Inl BlankReason
      else rbind (sidecar_tasks tasks 1) (\<lambda>tasks.
        rbind (store_op (replace_remaining (pe_now env) tasks (px_store ctx))) (\<lambda>st.
          Inr (persist_plan_snapshot env (ctx\<lparr>px_store := st\<rparr>)))))"

definition sidecar_finish :: "plan_env \<Rightarrow> string \<Rightarrow> plan_ctx \<Rightarrow> sidecar_err + plan_ctx" where
  "sidecar_finish env summary ctx =
     (let summary = trim summary
      in if summary = [] then Inl BlankSummary
         else if \<not> has_active_plan (px_store ctx) then Inr ctx
         else rbind (store_op (finish_accepted_plan (pe_now env) summary (px_store ctx))) (\<lambda>st.
           rbind (store_op (clear_plan st)) (\<lambda>st.
             Inr (persist_plan_cleared env (clear_task_start_index (ctx\<lparr>px_store := st\<rparr>))))))"

text \<open>\<open>restore_plan_for_session\<close>: replay the log into the store of a session that starts up.\<close>

definition restore_plan_for_session :: "log_codec \<Rightarrow> int \<Rightarrow> string list \<Rightarrow> plan_store \<Rightarrow> plan_store" where
  "restore_plan_for_session c now ls st =
     (case replay_log c ls of
        None \<Rightarrow> st
      | Some p \<Rightarrow> (case load_plan now p st of Inl _ \<Rightarrow> st | Inr st' \<Rightarrow> st'))"

section \<open>Views\<close>

definition tick_icon :: string where "tick_icon = bytes [0xE2, 0x9C, 0x85]"
definition turn_icon :: string where "turn_icon = bytes [0xF0, 0x9F, 0x94, 0x84]"
definition wait_icon :: string where "wait_icon = bytes [0xE2, 0x8F, 0xB3]"
definition arrow_icon :: string where "arrow_icon = bytes [0xE2, 0x86, 0x90]"
definition hook_icon :: string where "hook_icon = bytes [0xE2, 0xA4, 0xB7]"
definition note_icon :: string where "note_icon = bytes [0xF0, 0x9F, 0x93, 0x9D]"

definition PLAN_STALENESS_MARKER :: string where
  "PLAN_STALENESS_MARKER = bytes [0xE2, 0x9A, 0xA0] @ '' plan untouched since before the latest user message '' @
     long_dash @ '' confirm it still applies: revise or finish it, or continue it explicitly''"

definition plan_staleness_marker :: "u64 \<Rightarrow> plan_store \<Rightarrow> string option" where
  "plan_staleness_marker latest st =
     (if \<not> has_active_plan st then None
      else if ps_touched_at st < latest then Some PLAN_STALENESS_MARKER else None)"

definition task_icon :: "nat \<Rightarrow> nat \<Rightarrow> task_status \<Rightarrow> string" where
  "task_icon current num status =
     (case status of TaskDone \<Rightarrow> tick_icon | InProgress \<Rightarrow> if num = current then turn_icon else wait_icon)"

definition current_number :: "plan_store \<Rightarrow> nat" where
  "current_number st = (case get_current_task_info st of Inr (c, _) \<Rightarrow> c | Inl _ \<Rightarrow> 0)"

definition checklist_line :: "nat \<Rightarrow> nat \<times> string \<times> string \<times> task_status \<Rightarrow> string" where
  "checklist_line current = (\<lambda>(i, title, description, status).
     let num = i + 1
     in task_icon current num status @ '' '' @ title @
        (if num = current then '' '' @ arrow_icon @ '' current'' else []) @ newline @
        (if num = current \<and> \<not> is_blank description then ''   '' @ description @ newline else []))"

definition validity_line :: "nat \<times> plan_task \<Rightarrow> string" where
  "validity_line = (\<lambda>(i, t).
     if pt_status t = TaskDone then []
     else case pt_valid_if t of
         Some c \<Rightarrow> ''   '' @ hook_icon @ '' task '' @ show_nat (i + 1) @ '' valid if: '' @ c @ newline
       | None \<Rightarrow> [])"

definition completed_count :: "(string \<times> string \<times> task_status) list \<Rightarrow> nat" where
  "completed_count listed = length (filter (\<lambda>(_, _, status). status = TaskDone) listed)"

definition render_plan_checklist :: "plan_store \<Rightarrow> string option" where
  "render_plan_checklist st =
     (if \<not> has_active_plan st then None
      else case get_task_list st of
          Inl _ \<Rightarrow> None
        | Inr listed \<Rightarrow>
            if listed = [] then None
            else let current = current_number st;
                     tasks = (case ps_plan st of Some p \<Rightarrow> pl_tasks p | None \<Rightarrow> [])
                 in Some (''Live plan ('' @ show_nat (completed_count listed) @ ''/'' @ show_nat (length listed) @ '' done):'' @ newline @
                      concat (map (checklist_line current) (enumerate 0 listed)) @
                      concat (map validity_line (enumerate 0 tasks))))"

definition render_plan_checklist_with_staleness :: "u64 option \<Rightarrow> plan_store \<Rightarrow> string option" where
  "render_plan_checklist_with_staleness latest st =
     (case render_plan_checklist st of
        None \<Rightarrow> None
      | Some s \<Rightarrow>
          (case Option.bind latest (\<lambda>t. plan_staleness_marker t st) of
             Some m \<Rightarrow> Some (s @ m @ newline)
           | None \<Rightarrow> Some s))"

definition details_line :: "nat \<Rightarrow> nat \<times> plan_task \<Rightarrow> string" where
  "details_line current = (\<lambda>(i, t).
     let state = (if i < current then ''completed'' else if i = current then ''current'' else ''pending'')
     in show_nat (i + 1) @ ''. ['' @ state @ ''] '' @ pt_title t @ '' '' @ long_dash @ '' '' @ pt_description t @ newline)"

definition render_plan_details :: "plan_store \<Rightarrow> string option" where
  "render_plan_details st =
     (if \<not> has_active_plan st then None
      else case ps_plan st of
          None \<Rightarrow> None
        | Some p \<Rightarrow> Some (''Plan: '' @ pl_title p @ newline @
            concat (map (details_line (pl_current p)) (enumerate 0 (pl_tasks p)))))"

definition check_condition :: "(string \<Rightarrow> bool) \<Rightarrow> string \<Rightarrow> bool option" where
  "check_condition exists cond =
     (case split_once (CHR '':'') cond of
        None \<Rightarrow> None
      | Some (op, path) \<Rightarrow>
          let path = trim path
          in if path = [] then None
             else let op = to_lower (trim op)
                  in if op = ''file_exists'' then Some (exists path)
                     else if op = ''file_absent'' then Some (\<not> exists path)
                     else None)"

definition broken_plan_conditions :: "(string \<Rightarrow> bool) \<Rightarrow> plan_store \<Rightarrow> (nat \<times> string \<times> string) list" where
  "broken_plan_conditions exists st =
     (if \<not> has_active_plan st then []
      else case ps_plan st of
          None \<Rightarrow> []
        | Some p \<Rightarrow>
            concat (map (\<lambda>(i, t).
              if i < pl_current p \<or> pt_status t = TaskDone then []
              else case pt_valid_if t of
                  None \<Rightarrow> []
                | Some c \<Rightarrow> if check_condition exists c = Some False then [(i + 1, pt_title t, c)] else [])
              (enumerate 0 (pl_tasks p))))"

definition ok_or :: "'a \<Rightarrow> 'e + 'a \<Rightarrow> 'a" where
  "ok_or d r = (case r of Inr a \<Rightarrow> a | Inl _ \<Rightarrow> d)"

definition display_task :: "nat \<Rightarrow> nat \<times> string \<times> string \<times> task_status \<Rightarrow> string" where
  "display_task current = (\<lambda>(i, title, description, status).
     let num = i + 1
     in task_icon current num status @ '' '' @ show_nat num @ ''. '' @ title @
        (if num = current then '' (IN PROGRESS)'' else []) @ newline @
        concat (map (\<lambda>l. ''   '' @ note_icon @ '' '' @ l @ newline) (str_lines description)) @ newline)"

definition get_current_plan_display :: "plan_store \<Rightarrow> sidecar_err + string" where
  "get_current_plan_display st =
     (if \<not> has_active_plan st then Inl NotActive
      else let title = ok_or ''Unknown Plan'' (get_plan_title st);
               listed = ok_or [] (get_task_list st);
               (current, total, ctitle, cdesc) = ok_or (0, 0, ''Unknown'', ''No description'') (get_current_task_info st)
           in Inr (''PLAN: '' @ title @ newline @ newline @ ''TASKS:'' @ newline @
                concat (map (display_task current) (enumerate 0 listed)) @
                (if current \<le> total
                 then ''CURRENT: Task '' @ show_nat current @ ''/'' @ show_nat total @ '' - '' @ ctitle @ newline @
                      note_icon @ '' '' @ cdesc
                 else [])))"

text \<open>The JSON view, as the record of the object's fields.\<close>

record plan_json =
  pj_title :: string
  pj_current :: nat
  pj_total :: nat
  pj_current_title :: string
  pj_current_description :: string
  pj_tasks :: "(string \<times> string \<times> string) list"

definition get_current_plan_json :: "plan_store \<Rightarrow> sidecar_err + plan_json" where
  "get_current_plan_json st =
     (if \<not> has_active_plan st then Inl NotActive
      else let (current, total, ctitle, cdesc) = ok_or (0, 0, ''Unknown'', ''No description'') (get_current_task_info st)
           in Inr \<lparr>pj_title = ok_or ''Unknown Plan'' (get_plan_title st), pj_current = current, pj_total = total,
                pj_current_title = ctitle, pj_current_description = cdesc,
                pj_tasks = map (\<lambda>(t, d, status). (t, d, case status of TaskDone \<Rightarrow> ''completed'' | InProgress \<Rightarrow> ''in_progress''))
                  (ok_or [] (get_task_list st))\<rparr>)"

end
