(* ===== verification/DemoCodec.thy ===== *)
theory DemoCodec
  imports PlanLog
begin

text \<open>
  A codec for the lines of the session log that keeps the promise \<open>codec_ok\<close>: a value is written in prefix form, a string
  with a mark before each of its characters, and read back with its length as fuel. The witnesses about the log use it.
\<close>

fun quote :: "string \<Rightarrow> string" where
  "quote [] = ''.''"
| "quote (c # s) = CHR ''+'' # c # quote s"

fun unquote :: "string \<Rightarrow> (string \<times> string) option" where
  "unquote [] = None"
| "unquote [c] = (if c = CHR ''.'' then Some ([], []) else None)"
| "unquote (c # d # r) =
     (if c = CHR ''.'' then Some ([], d # r) else map_option (\<lambda>(s, r). (d # s, r)) (unquote r))"

lemma unquote_quote [simp]: "unquote (quote s @ r) = Some (s, r)"
  by (induction s) (cases r, simp_all)

fun write_json :: "json \<Rightarrow> string" where
  "write_json JNull = ''n''"
| "write_json (JBool b) = (if b then ''t'' else ''f'')"
| "write_json (JNum s) = CHR ''#'' # quote s"
| "write_json (JStr s) = CHR ''$'' # quote s"
| "write_json (JArr js) = CHR ''['' # concat (map (\<lambda>j. CHR '','' # write_json j) js) @ '']''"
| "write_json (JObj fs) = CHR ''{'' # concat (map (\<lambda>f. CHR '','' # quote (fst f) @ write_json (snd f)) fs) @ ''}''"

fun read_json :: "nat \<Rightarrow> string \<Rightarrow> (json \<times> string) option"
  and read_items :: "nat \<Rightarrow> string \<Rightarrow> (json list \<times> string) option"
  and read_fields :: "nat \<Rightarrow> string \<Rightarrow> ((string \<times> json) list \<times> string) option" where
  "read_json 0 s = None"
| "read_json (Suc n) s =
     (case s of
        [] \<Rightarrow> None
      | c # r \<Rightarrow>
          if c = CHR ''n'' then Some (JNull, r)
          else if c = CHR ''t'' then Some (JBool True, r)
          else if c = CHR ''f'' then Some (JBool False, r)
          else if c = CHR ''#'' then map_option (apfst JNum) (unquote r)
          else if c = CHR ''$'' then map_option (apfst JStr) (unquote r)
          else if c = CHR ''['' then map_option (apfst JArr) (read_items n r)
          else if c = CHR ''{'' then map_option (apfst JObj) (read_fields n r)
          else None)"
| "read_items 0 s = None"
| "read_items (Suc n) s =
     (case s of
        [] \<Rightarrow> None
      | c # r \<Rightarrow>
          if c = CHR '']'' then Some ([], r)
          else Option.bind (read_json n r) (\<lambda>(j, r). map_option (apfst (Cons j)) (read_items n r)))"
| "read_fields 0 s = None"
| "read_fields (Suc n) s =
     (case s of
        [] \<Rightarrow> None
      | c # r \<Rightarrow>
          if c = CHR ''}'' then Some ([], r)
          else Option.bind (unquote r) (\<lambda>(k, r).
               Option.bind (read_json n r) (\<lambda>(j, r). map_option (apfst (Cons (k, j))) (read_fields n r))))"

lemma read_write: "length (write_json j) \<le> n \<Longrightarrow> read_json n (write_json j @ r) = Some (j, r)"
proof (induction j arbitrary: n r)
  case (JArr js)
  have items: "length (concat (map (\<lambda>j. CHR '','' # write_json j) js)) < k \<Longrightarrow>
      read_items k (concat (map (\<lambda>j. CHR '','' # write_json j) js) @ CHR '']'' # r) = Some (js, r)" for k
    using JArr.IH
  proof (induction js arbitrary: k)
    case Nil
    then show ?case by (cases k) simp_all
  next
    case (Cons j js)
    then obtain m where k: "k = Suc m" by (cases k) simp_all
    have "read_json m (write_json j @ concat (map (\<lambda>j. CHR '','' # write_json j) js) @ CHR '']'' # r) =
        Some (j, concat (map (\<lambda>j. CHR '','' # write_json j) js) @ CHR '']'' # r)"
      using Cons.prems k by simp
    moreover have "read_items m (concat (map (\<lambda>j. CHR '','' # write_json j) js) @ CHR '']'' # r) = Some (js, r)"
      using Cons.prems k by (intro Cons.IH) simp_all
    ultimately show ?case by (simp add: k)
  qed
  from JArr.prems obtain m where "n = Suc m" by (cases n) simp_all
  with JArr.prems show ?case by (simp add: items)
next
  case (JObj fs)
  have fields: "length (concat (map (\<lambda>f. CHR '','' # quote (fst f) @ write_json (snd f)) fs)) < k \<Longrightarrow>
      read_fields k (concat (map (\<lambda>f. CHR '','' # quote (fst f) @ write_json (snd f)) fs) @ CHR ''}'' # r) = Some (fs, r)" for k
    using JObj.IH
  proof (induction fs arbitrary: k)
    case Nil
    then show ?case by (cases k) simp_all
  next
    case (Cons f fs)
    then obtain m where k: "k = Suc m" by (cases k) simp_all
    have "read_json m (write_json (snd f) @ concat (map (\<lambda>f. CHR '','' # quote (fst f) @ write_json (snd f)) fs) @ CHR ''}'' # r) =
        Some (snd f, concat (map (\<lambda>f. CHR '','' # quote (fst f) @ write_json (snd f)) fs) @ CHR ''}'' # r)"
      using Cons.prems(1) k by (intro Cons.prems(2)[of f "snd f"]) (simp_all add: snds.simps)
    moreover have "read_fields m (concat (map (\<lambda>f. CHR '','' # quote (fst f) @ write_json (snd f)) fs) @ CHR ''}'' # r) = Some (fs, r)"
    proof (rule Cons.IH)
      show "length (concat (map (\<lambda>f. CHR '','' # quote (fst f) @ write_json (snd f)) fs)) < m" using Cons.prems(1) k by simp
      show "read_json n' (write_json j @ r') = Some (j, r')"
        if "g \<in> set fs" "j \<in> Basic_BNFs.snds g" "length (write_json j) \<le> n'" for g j n' r'
        by (rule Cons.prems(2)[of g j n' r']) (use that in simp_all)
    qed
    ultimately show ?case by (simp add: k)
  qed
  from JObj.prems obtain m where "n = Suc m" by (cases n) simp_all
  with JObj.prems show ?case by (simp add: fields)
next
  case JNull
  then show ?case by (cases n) simp_all
next
  case (JBool b)
  then show ?case by (cases n; cases b) simp_all
next
  case (JNum s)
  then show ?case by (cases n) simp_all
next
  case (JStr s)
  then show ?case by (cases n) simp_all
qed

definition demo_codec_log :: log_codec where
  "demo_codec_log = \<lparr>lc_encode = write_json, lc_decode = (\<lambda>s. map_option fst (read_json (length s) s)),
     lc_show_time = (\<lambda>t. (if t < 0 then CHR ''-'' else CHR '' '') # show_nat (nat \<bar>t\<bar>)),
     lc_read_time = (\<lambda>s. case s of [] \<Rightarrow> None
        | c # ds \<Rightarrow> Some (if c = CHR ''-'' then - int (digits_val ds) else int (digits_val ds)))\<rparr>"

lemma demo_codec_log_ok: "codec_ok demo_codec_log"
  using read_write[of _ _ "[]"] by (simp add: codec_ok_def demo_codec_log_def)

end
