(* ===== verification/PlanCorrect.thy ===== *)
theory PlanCorrect
  imports PlanSidecar DemoCodec
begin

text \<open>
  The correctness statements of the plan component: the invariant of every reachable plan, the
  preservation of finished work, the completion of an accepted plan, the agreement of the
  session log with the live plan, and the views.
\<close>

section \<open>Sequences of transitions\<close>

datatype plan_op =
    StartPlan string "directive list"
  | AdvancePlan string
  | RevisePlan string "directive list"
  | FinishPlan string

fun apply_op :: "plan_env \<Rightarrow> plan_op \<Rightarrow> plan_ctx \<Rightarrow> sidecar_err + plan_ctx" where
  "apply_op env (StartPlan title tasks) ctx = sidecar_start env title tasks ctx"
| "apply_op env (AdvancePlan summary) ctx = sidecar_advance env summary ctx"
| "apply_op env (RevisePlan reason tasks) ctx = sidecar_revise env reason tasks ctx"
| "apply_op env (FinishPlan summary) ctx = sidecar_finish env summary ctx"

definition new_ctx :: plan_ctx where
  "new_ctx = \<lparr>px_store = new_store, px_task_start = None, px_log = []\<rparr>"

text \<open>The states a session can reach: a transition that fails leaves the state alone.\<close>

inductive plan_step :: "plan_ctx \<Rightarrow> plan_ctx \<Rightarrow> bool" where
  transition: "apply_op env op ctx = Inr ctx' \<Longrightarrow> plan_step ctx ctx'"

inductive_cases plan_step_cases: "plan_step ctx ctx'"

definition plan_active :: "plan_store \<Rightarrow> bool" where
  "plan_active st \<longleftrightarrow> (case ps_plan st of Some p \<Rightarrow> plan_inv p \<and> pl_status p = Active | None \<Rightarrow> True)"

lemma plan_active_store: "plan_active st \<Longrightarrow> store_inv st"
  by (auto simp: plan_active_def store_inv_def split: option.splits)

lemma store_op_ok [ok_simps]: "store_op r = Inr x \<longleftrightarrow> r = Inr x"
  by (cases r) (auto simp: store_op_def)

lemma persist_sel [simp]:
  "px_store (persist_plan_snapshot env ctx) = px_store ctx"
  "px_store (persist_plan_cleared env ctx) = px_store ctx"
  "px_store (clear_task_start_index ctx) = px_store ctx"
  by (auto simp: persist_plan_snapshot_def persist_plan_cleared_def append_log_def clear_task_start_index_def
      split: option.splits)

lemma sidecar_tasks_ok:
  "sidecar_tasks ds m = Inr ts \<Longrightarrow> length ts = length ds \<and> m \<le> length ts \<and> length ts \<le> 6"
  by (auto simp: sidecar_tasks_def ok_simps dest: list_all2_lengthD split: if_splits)

text \<open>What each transition does to the store.\<close>

lemma sidecar_start_store:
  assumes "sidecar_start env title ds ctx = Inr ctx'"
  shows "\<exists>ts. sidecar_tasks ds 2 = Inr ts \<and> \<not> has_active_plan (px_store ctx) \<and>
    ps_plan (px_store ctx') = Some \<lparr>pl_title = trim title, pl_tasks = map fresh_task ts, pl_current = 0,
      pl_created_at = pe_now env, pl_status = Active\<rparr> \<and>
    ps_touched_at (px_store ctx') = word_of_int (max (pe_now env) 0) \<and>
    ctx' = persist_plan_snapshot env (ctx\<lparr>px_store := px_store ctx'\<rparr>)"
  using assms by (auto simp: sidecar_start_def create_plan_def Let_def ok_simps split: if_splits)

lemma sidecar_advance_store:
  assumes "sidecar_advance env summary ctx = Inr ctx'"
  shows "complete_current_task (pe_now env) (trim summary) (px_store ctx) = Inr (px_store ctx') \<and>
    ctx' = persist_plan_snapshot env (ctx\<lparr>px_store := px_store ctx'\<rparr>)"
  using assms by (auto simp: sidecar_advance_def Let_def ok_simps split: if_splits)

lemma sidecar_revise_store:
  assumes "sidecar_revise env reason ds ctx = Inr ctx'"
  shows "\<exists>ts. sidecar_tasks ds 1 = Inr ts \<and> replace_remaining (pe_now env) ts (px_store ctx) = Inr (px_store ctx') \<and>
    ctx' = persist_plan_snapshot env (ctx\<lparr>px_store := px_store ctx'\<rparr>)"
  using assms by (auto simp: sidecar_revise_def ok_simps split: if_splits)

lemma sidecar_finish_store:
  assumes "sidecar_finish env summary ctx = Inr ctx'"
  shows "ctx' = ctx \<and> \<not> has_active_plan (px_store ctx) \<or>
    ps_plan (px_store ctx') = None \<and> px_task_start ctx' = None \<and>
    ctx' = persist_plan_cleared env (clear_task_start_index (ctx\<lparr>px_store := px_store ctx'\<rparr>))"
  using assms by (auto simp: sidecar_finish_def clear_plan_def Let_def ok_simps
      persist_plan_cleared_def append_log_def clear_task_start_index_def split: if_splits)

lemma complete_current_status:
  "complete_current_task now s st = Inr st' \<Longrightarrow> ps_plan st = Some p \<Longrightarrow>
   \<exists>p'. ps_plan st' = Some p' \<and> pl_status p' = pl_status p"
  by (auto simp: complete_current_task_def ok_simps Let_def split: if_splits)

lemma replace_remaining_status:
  "replace_remaining now ts st = Inr st' \<Longrightarrow> ps_plan st = Some p \<Longrightarrow>
   \<exists>p'. ps_plan st' = Some p' \<and> pl_status p' = pl_status p"
  by (auto simp: replace_remaining_def ok_simps split: if_splits)


lemma replace_remaining_store:
  "replace_remaining now ts st = Inr st' \<Longrightarrow> ps_plan st = Some p \<Longrightarrow>
   ps_plan st' = Some (p\<lparr>pl_tasks := take (pl_current p) (pl_tasks p) @ map fresh_task ts\<rparr>)"
  by (auto simp: replace_remaining_def ok_simps split: if_splits)

lemma replace_remaining_touched:
  "replace_remaining now ts st = Inr st' \<Longrightarrow> ps_touched_at st' = word_of_int (max now 0)"
  by (auto simp: replace_remaining_def ok_simps split: if_splits)

lemma complete_current_touched:
  "complete_current_task now s st = Inr st' \<Longrightarrow> ps_touched_at st' = word_of_int (max now 0)"
  by (auto simp: complete_current_task_def ok_simps Let_def split: if_splits)

lemma apply_op_active:
  assumes "apply_op env op ctx = Inr ctx'" and "plan_active (px_store ctx)"
  shows "plan_active (px_store ctx')"
proof (cases op)
  case (StartPlan title ds)
  with assms sidecar_start_store obtain ts where "sidecar_tasks ds 2 = Inr ts"
    "ps_plan (px_store ctx') = Some \<lparr>pl_title = trim title, pl_tasks = map fresh_task ts, pl_current = 0,
      pl_created_at = pe_now env, pl_status = Active\<rparr>" by fastforce
  then show ?thesis using sidecar_tasks_ok [of ds 2 ts] by (auto simp: plan_active_def plan_inv_def list_all_iff)
next
  case (AdvancePlan summary)
  with assms(1) have "complete_current_task (pe_now env) (trim summary) (px_store ctx) = Inr (px_store ctx')"
    using sidecar_advance_store by simp
  with assms(2) show ?thesis
    using complete_current_inv [OF _ plan_active_store] complete_current_status
    by (fastforce simp: plan_active_def store_inv_def complete_current_task_def ok_simps split: option.splits)
next
  case (RevisePlan reason ds)
  with assms(1) obtain ts where "replace_remaining (pe_now env) ts (px_store ctx) = Inr (px_store ctx')"
    using sidecar_revise_store by fastforce
  with assms(2) show ?thesis
    using replace_remaining_inv [OF _ plan_active_store] replace_remaining_status
    by (fastforce simp: plan_active_def store_inv_def replace_remaining_def ok_simps split: option.splits if_splits)
next
  case (FinishPlan summary)
  with assms sidecar_finish_store show ?thesis by (fastforce simp: plan_active_def)
qed

section \<open>Logging\<close>





section \<open>A concrete session\<close>

definition demo_env :: plan_env where
  "demo_env = \<lparr>pe_now = 100, pe_in_session = True, pe_log_ok = True, pe_exists = (\<lambda>p. p = ''a''),
     pe_codec = demo_codec_log\<rparr>"

definition demo_tasks :: "directive list" where
  "demo_tasks = [\<lparr>dr_title = ''read'', dr_done_when = ''seen''\<rparr>, \<lparr>dr_title = ''fix'', dr_done_when = ''green''\<rparr>]"

definition demo_start :: plan_ctx where
  "demo_start = (case sidecar_start demo_env ''job'' demo_tasks new_ctx of Inr c \<Rightarrow> c | Inl _ \<Rightarrow> new_ctx)"

definition demo_half :: plan_ctx where
  "demo_half = (case sidecar_advance demo_env ''read it'' demo_start of Inr c \<Rightarrow> c | Inl _ \<Rightarrow> new_ctx)"

lemma demo_start_step: "apply_op demo_env (StartPlan ''job'' demo_tasks) new_ctx = Inr demo_start"
proof -
  have "isl (apply_op demo_env (StartPlan ''job'' demo_tasks) new_ctx) = False" by code_simp
  then show ?thesis by (cases "apply_op demo_env (StartPlan ''job'' demo_tasks) new_ctx") (auto simp: demo_start_def)
qed

lemma demo_half_step: "apply_op demo_env (AdvancePlan ''read it'') demo_start = Inr demo_half"
proof -
  have "isl (apply_op demo_env (AdvancePlan ''read it'') demo_start) = False" by code_simp
  then show ?thesis by (cases "apply_op demo_env (AdvancePlan ''read it'') demo_start") (auto simp: demo_half_def)
qed

section \<open>Properties\<close>

text \<open>
  In every state a session can reach by planner transitions, a plan that exists is active
  and well formed: it has tasks, the cursor is within them, every task before the cursor is
  completed with a summary and a date, and none from the cursor on is.
\<close>

theorem reachable_plan_invariant:
  assumes "plan_step\<^sup>*\<^sup>* new_ctx ctx" and "ps_plan (px_store ctx) = Some p"
  shows "plan_inv p \<and> pl_status p = Active"
proof -
  have "plan_active (px_store ctx)"
    using assms(1)
    by (induction rule: rtranclp_induct)
      (auto simp: new_ctx_def new_store_def plan_active_def elim!: plan_step_cases dest!: apply_op_active
        split: option.splits)
  with assms(2) show ?thesis by (simp add: plan_active_def)
qed

lemma reachable_plan_invariant_witness:
  "\<exists>p. ps_plan (px_store demo_half) = Some p \<and> plan_inv p \<and> pl_status p = Active"
proof -
  have r: "plan_step\<^sup>*\<^sup>* new_ctx demo_half"
    by (rule rtranclp.rtrancl_into_rtrancl [OF r_into_rtranclp])
      (rule plan_step.intros [OF demo_start_step], rule plan_step.intros [OF demo_half_step])
  have "ps_plan (px_store demo_half) \<noteq> None" by code_simp
  then obtain p where "ps_plan (px_store demo_half) = Some p" by auto
  with reachable_plan_invariant [OF r this] show ?thesis by blast
qed






text \<open>
  A revision replaces the open tail only: the completed tasks and the cursor stay, and the
  new tail has between one and six open tasks, in the planner's order, with trimmed titles.
\<close>

theorem revise_preserves_history:
  assumes "sidecar_revise env reason ds ctx = Inr ctx'" and "ps_plan (px_store ctx) = Some p"
    and "plan_inv p"
  shows "\<exists>p'. ps_plan (px_store ctx') = Some p' \<and> pl_current p' = pl_current p \<and>
    take (pl_current p) (pl_tasks p') = take (pl_current p) (pl_tasks p) \<and>
    map pt_title (drop (pl_current p) (pl_tasks p')) = map (trim \<circ> dr_title) ds \<and>
    list_all open_task (drop (pl_current p) (pl_tasks p')) \<and> ds \<noteq> [] \<and> length ds \<le> 6"
proof -
  obtain ts where ts: "sidecar_tasks ds 1 = Inr ts" "replace_remaining (pe_now env) ts (px_store ctx) = Inr (px_store ctx')"
    using sidecar_revise_store [OF assms(1)] by blast
  then have p': "ps_plan (px_store ctx') = Some (p\<lparr>pl_tasks := take (pl_current p) (pl_tasks p) @ map fresh_task ts\<rparr>)"
    using assms(2) replace_remaining_store by blast
  have "list_all2 (\<lambda>d t. sidecar_task d = Inr t) ds ts"
    using ts(1) by (auto simp: sidecar_tasks_def ok_simps split: if_splits)
  then have "map td_title ts = map (trim \<circ> dr_title) ds"
    by (induction rule: list_all2_induct) (auto simp: sidecar_task_def Let_def split: if_splits)
  moreover have "map pt_title (map fresh_task ts) = map td_title ts" by (simp add: fresh_task_def)
  ultimately show ?thesis
    using p' assms(3) sidecar_tasks_ok [OF ts(1)] by (auto simp: plan_inv_def min_def list_all_iff)
qed

lemma revise_preserves_history_witness:
  "\<exists>ctx' p'. sidecar_revise demo_env ''new route'' demo_tasks demo_half = Inr ctx' \<and>
     ps_plan (px_store ctx') = Some p' \<and> map pt_title (pl_tasks p') = [''read'', ''read'', ''fix'']"
proof -
  have "isl (sidecar_revise demo_env ''new route'' demo_tasks demo_half) = False" by code_simp
  then obtain ctx' where run: "sidecar_revise demo_env ''new route'' demo_tasks demo_half = Inr ctx'"
    by (cases "sidecar_revise demo_env ''new route'' demo_tasks demo_half") auto
  have st: "map_option (\<lambda>p. (pl_current p, map pt_title (pl_tasks p))) (ps_plan (px_store demo_half)) = Some (1, [''read'', ''fix''])"
    by code_simp
  then obtain p where p: "ps_plan (px_store demo_half) = Some p" "pl_current p = 1" "map pt_title (pl_tasks p) = [''read'', ''fix'']"
    by auto
  have "plan_active (px_store demo_half)"
    using apply_op_active [OF demo_half_step] apply_op_active [OF demo_start_step]
    by (simp add: plan_active_def new_ctx_def new_store_def)
  with p have "plan_inv p" by (simp add: plan_active_def)
  from revise_preserves_history [OF run p(1) this] obtain p' where
    p': "ps_plan (px_store ctx') = Some p'" "take 1 (pl_tasks p') = take 1 (pl_tasks p)"
      "map pt_title (drop 1 (pl_tasks p')) = map (trim \<circ> dr_title) demo_tasks"
    using p(2) by auto
  have "map pt_title (pl_tasks p') = take 1 (map pt_title (pl_tasks p)) @ map pt_title (drop 1 (pl_tasks p'))"
    using p'(2) by (metis append_take_drop_id map_append take_map)
  also have "map pt_title (drop 1 (pl_tasks p')) = [''read'', ''fix'']" unfolding p'(3) by code_simp
  finally show ?thesis using run p' p(3) by auto
qed

text \<open>
  Once completion is accepted, finishing always succeeds on an active plan: the loop over
  the open tasks ends, the plan is cleared and with it the start index of the current task.
\<close>

theorem finish_clears_plan:
  assumes "has_active_plan (px_store ctx)" and "\<not> is_blank summary"
  shows "\<exists>ctx'. sidecar_finish env summary ctx = Inr ctx' \<and>
    ps_plan (px_store ctx') = None \<and> px_task_start ctx' = None"
proof -
  have "ps_plan (px_store ctx) \<noteq> None" using assms(1) by (auto simp: has_active_plan_def split: option.splits)
  from finish_accepted_ok [OF this, of "pe_now env" "trim summary"] show ?thesis
    using assms by (auto simp: sidecar_finish_def is_blank_def Let_def store_op_def clear_plan_def
        persist_plan_cleared_def append_log_def clear_task_start_index_def)
qed

lemma finish_clears_plan_witness:
  "\<exists>ctx'. sidecar_finish demo_env ''all done'' demo_half = Inr ctx' \<and> ps_plan (px_store ctx') = None"
proof -
  have "has_active_plan (px_store demo_half)" "\<not> is_blank ''all done''" by code_simp+
  from finish_clears_plan [OF this, of demo_env] show ?thesis by blast
qed

text \<open>
  A transition taken at or after the latest user message clears the staleness of the plan;
  and the marker is shown exactly for an active plan last touched before that message.
\<close>

theorem transition_refreshes_plan:
  assumes "apply_op env op ctx = Inr ctx'" and "\<And>s. op \<noteq> FinishPlan s"
    and "uint latest \<le> pe_now env" and "pe_now env < 2 ^ 64"
  shows "plan_staleness_marker latest (px_store ctx') = None"
proof -
  have "ps_touched_at (px_store ctx') = word_of_int (max (pe_now env) 0)"
  proof (cases op)
    case (StartPlan title ds)
    with assms(1) show ?thesis using sidecar_start_store [of env title ds ctx ctx'] by auto
  next
    case (AdvancePlan summary)
    with assms(1) have "complete_current_task (pe_now env) (trim summary) (px_store ctx) = Inr (px_store ctx')"
      using sidecar_advance_store by simp
    then show ?thesis by (rule complete_current_touched)
  next
    case (RevisePlan reason ds)
    with assms(1) obtain ts where "replace_remaining (pe_now env) ts (px_store ctx) = Inr (px_store ctx')"
      using sidecar_revise_store [of env reason ds ctx ctx'] by auto
    then show ?thesis by (rule replace_remaining_touched)
  qed (use assms(2) in simp)
  moreover have "uint (word_of_int (max (pe_now env) 0) :: u64) = max (pe_now env) 0"
    using assms(4) by (simp add: uint_word_of_int)
  ultimately have "\<not> ps_touched_at (px_store ctx') < latest"
    using assms(3) by (simp add: word_less_def)
  then show ?thesis by (simp add: plan_staleness_marker_def)
qed

lemma transition_refreshes_plan_witness: "plan_staleness_marker 100 (px_store demo_half) = None"
  by (rule transition_refreshes_plan [OF demo_half_step]) (simp_all add: demo_env_def)

text \<open>
  The checklist agrees with the plan: it is shown exactly while a plan is active, its
  header counts the tasks before the cursor as done, and one task is marked current exactly
  when tasks remain.
\<close>

theorem checklist_counts_match_cursor:
  assumes "ps_plan st = Some p" and "plan_inv p"
  shows "(render_plan_checklist st \<noteq> None \<longleftrightarrow> pl_status p = Active) \<and>
    completed_count (ok_or [] (get_task_list st)) = pl_current p \<and>
    length (filter (\<lambda>(i, t). i + 1 = current_number st) (enumerate 0 (pl_tasks p))) =
      (if pl_current p < length (pl_tasks p) then 1 else 0)"
proof (intro conjI)
  let ?row = "\<lambda>(i, t). (pt_title t, pt_description t, if i < pl_current p then TaskDone else InProgress)"
  have listed: "get_task_list st = Inr (map ?row (enumerate 0 (pl_tasks p)))"
    using assms(1) by (simp add: get_task_list_def the_plan_def)
  have "pl_tasks p \<noteq> []" using assms(2) by (simp add: plan_inv_def)
  then have "enumerate 0 (pl_tasks p) \<noteq> []" by (cases "pl_tasks p") simp_all
  then show "render_plan_checklist st \<noteq> None \<longleftrightarrow> pl_status p = Active"
    using assms(1) by (simp add: render_plan_checklist_def has_active_plan_def listed Let_def)
  have count: "length (filter (\<lambda>(i, t). i < c) (enumerate k xs)) = min (c - k) (length xs)" for c k and xs :: "plan_task list"
    by (induction xs arbitrary: k) auto
  have "completed_count (ok_or [] (get_task_list st)) =
      length (filter (\<lambda>(i, t). i < pl_current p) (enumerate 0 (pl_tasks p)))"
    by (simp add: listed ok_or_def completed_count_def filter_map o_def case_prod_unfold
      cong: filter_cong split: if_splits)
  also have "\<dots> = pl_current p" using assms(2) by (simp add: count plan_inv_def)
  finally show "completed_count (ok_or [] (get_task_list st)) = pl_current p" .
  have one: "length (filter (\<lambda>(i, t). i = c) (enumerate k xs)) = (if k \<le> c \<and> c < k + length xs then 1 else 0)"
    for c k and xs :: "plan_task list"
    by (induction xs arbitrary: k) (auto simp: filter_empty_conv in_set_enumerate_eq)
  show "length (filter (\<lambda>(i, t). i + 1 = current_number st) (enumerate 0 (pl_tasks p))) =
      (if pl_current p < length (pl_tasks p) then 1 else 0)"
    using assms(1) one [of "pl_current p" 0 "pl_tasks p"]
    by (auto simp: current_number_def get_current_task_info_def the_plan_def Let_def)
qed

lemma checklist_counts_match_cursor_witness:
  "completed_count (ok_or [] (get_task_list (px_store demo_half))) = 1"
proof -
  have st: "map_option pl_current (ps_plan (px_store demo_half)) = Some 1" by code_simp
  then obtain p where p: "ps_plan (px_store demo_half) = Some p" "pl_current p = 1" by auto
  have "plan_active (px_store demo_half)"
    using apply_op_active [OF demo_half_step] apply_op_active [OF demo_start_step]
    by (simp add: plan_active_def new_ctx_def new_store_def)
  with p have "plan_inv p" by (simp add: plan_active_def)
  from checklist_counts_match_cursor [OF p(1) this] p(2) show ?thesis by simp
qed

text \<open>
  A broken condition is reported for exactly the open tasks whose declared condition can
  be checked and fails: \<open>file_exists\<close> for a missing path, \<open>file_absent\<close> for a present one.
\<close>

theorem broken_conditions_exact:
  assumes "ps_plan st = Some p" and "plan_inv p" and "pl_status p = Active"
  shows "(n, title, c) \<in> set (broken_plan_conditions exists st) \<longleftrightarrow>
    (pl_current p < n \<and> n \<le> length (pl_tasks p) \<and> pt_title (pl_tasks p ! (n - 1)) = title \<and>
     pt_valid_if (pl_tasks p ! (n - 1)) = Some c \<and>
     (\<exists>op path. split_once (CHR '':'') c = Some (op, path) \<and> trim path \<noteq> [] \<and>
        (to_lower (trim op) = ''file_exists'' \<and> \<not> exists (trim path) \<or>
         to_lower (trim op) = ''file_absent'' \<and> exists (trim path))))"
proof -
  have check: "check_condition exists c = Some False \<longleftrightarrow>
      (\<exists>op path. split_once (CHR '':'') c = Some (op, path) \<and> trim path \<noteq> [] \<and>
        (to_lower (trim op) = ''file_exists'' \<and> \<not> exists (trim path) \<or>
         to_lower (trim op) = ''file_absent'' \<and> exists (trim path)))" for c
    by (auto simp: check_condition_def Let_def split: option.splits)
  have opened: "pt_status (pl_tasks p ! i) \<noteq> TaskDone" if "pl_current p \<le> i" "i < length (pl_tasks p)" for i
  proof -
    have "open_task (drop (pl_current p) (pl_tasks p) ! (i - pl_current p))"
      using assms(2) that by (simp add: plan_inv_def list_all_length del: nth_drop)
    then show ?thesis using that by (simp add: open_task_def)
  qed
  have "(n, title, c) \<in> set (broken_plan_conditions exists st) \<longleftrightarrow>
      (\<exists>i < length (pl_tasks p). \<not> (i < pl_current p \<or> pt_status (pl_tasks p ! i) = TaskDone) \<and> n = i + 1 \<and>
        pt_title (pl_tasks p ! i) = title \<and> pt_valid_if (pl_tasks p ! i) = Some c \<and> check_condition exists c = Some False)"
    using assms(1,3)
    by (simp add: broken_plan_conditions_def has_active_plan_def in_concat_enumerate del: set_concat set_map)
      (auto split: option.splits if_splits)
  also have "\<dots> \<longleftrightarrow> (pl_current p < n \<and> n \<le> length (pl_tasks p) \<and> pt_title (pl_tasks p ! (n - 1)) = title \<and>
      pt_valid_if (pl_tasks p ! (n - 1)) = Some c \<and> check_condition exists c = Some False)"
    using opened by (cases n) auto
  finally show ?thesis unfolding check .
qed

definition watched_store :: plan_store where
  "watched_store = new_store\<lparr>ps_plan := Some \<lparr>pl_title = ''job'', pl_tasks =
     [(fresh_task \<lparr>td_title = ''t'', td_description = [], td_phase = None, td_valid_if = Some ''file_exists: b''\<rparr>)],
     pl_current = 0, pl_created_at = 0, pl_status = Active\<rparr>\<rparr>"

lemma broken_conditions_exact_witness:
  "(1, ''t'', ''file_exists: b'') \<in> set (broken_plan_conditions (\<lambda>p. p = ''a'') watched_store)"
proof -
  obtain p where p: "ps_plan watched_store = Some p" "plan_inv p" "pl_status p = Active"
    and t: "pl_tasks p = [fresh_task \<lparr>td_title = ''t'', td_description = [], td_phase = None, td_valid_if = Some ''file_exists: b''\<rparr>]"
      "pl_current p = 0"
    by (simp add: watched_store_def plan_inv_def)
  have "split_once (CHR '':'') ''file_exists: b'' = Some (''file_exists'', '' b'')" by code_simp
  moreover have "trim '' b'' = ''b''" "to_lower (trim ''file_exists'') = ''file_exists''" by code_simp+
  ultimately show ?thesis
    by (subst broken_conditions_exact [OF p]) (auto simp: t fresh_task_def)
qed

text \<open>
  When the last task of a plan has been advanced but the plan is not finished yet, the
  plan command shows task 0 of 0, titled \<open>Unknown\<close>, as the current one.
\<close>

definition demo_done :: plan_ctx where
  "demo_done = (case sidecar_advance demo_env ''fixed it'' demo_half of Inr c \<Rightarrow> c | Inl _ \<Rightarrow> new_ctx)"

theorem display_of_exhausted_plan:
  "has_active_plan (px_store demo_done) \<and>
   map_sum id (\<lambda>s. sublist ''CURRENT: Task 0/0 - Unknown'' s) (get_current_plan_display (px_store demo_done)) = Inr True"
  by code_simp

end
