(* ===== verification/Messages.thy ===== *)
theory Messages
  imports Json
begin

text \<open>
  The messages of a session and how they are classified (\<open>src/session/mod.rs\<close>,
  \<open>is_skill_message\<close> of \<open>src/mcp/runtime/skill.rs\<close>, \<open>is_supervisor_injection\<close> of
  \<open>src/supervisor/gate.rs\<close>): which user messages are genuine requests and which the runtime
  injected, what request a continuation wrapper carries, and which message opens the current
  turn. Attachments are an opaque type \<open>'x\<close>.
\<close>

record 'x message =
  msg_role :: string
  msg_content :: string
  msg_timestamp :: u64
  msg_cached :: bool
  msg_cache_ttl :: "string option"
  msg_tool_call_id :: "string option"
  msg_name :: "string option"
  msg_tool_calls :: "json option"
  msg_images :: "'x list option"
  msg_videos :: "'x list option"
  msg_thinking :: "json option"
  msg_id :: "string option"

definition build_message :: "u64 \<Rightarrow> string \<Rightarrow> string \<Rightarrow> 'x message" where
  "build_message now role content = \<lparr>msg_role = role, msg_content = content, msg_timestamp = now,
     msg_cached = False, msg_cache_ttl = None, msg_tool_call_id = None, msg_name = None,
     msg_tool_calls = None, msg_images = None, msg_videos = None, msg_thinking = None, msg_id = None\<rparr>"

definition or_else :: "'a option \<Rightarrow> 'a option \<Rightarrow> 'a option" where
  "or_else a b = (case a of Some x \<Rightarrow> Some x | None \<Rightarrow> b)"

definition message_thinking_content :: "'x message \<Rightarrow> string option" where
  "message_thinking_content m =
     Option.bind (msg_thinking m) (\<lambda>thinking.
       Option.bind (or_else (json_as_str thinking)
           (Option.bind (or_else (json_get ''content'' thinking)
              (or_else (json_get ''reasoning'' thinking) (json_get ''thinking'' thinking))) json_as_str))
         (\<lambda>content. if is_blank content then None else Some (trim content)))"

section \<open>Injected and genuine user messages\<close>

definition CONTINUATION_TAG_OPEN :: string where "CONTINUATION_TAG_OPEN = ''<continuation>''"
definition CONTINUATION_TASK_OPEN :: string where "CONTINUATION_TASK_OPEN = ''<task>''"
definition CONTINUATION_TASK_CLOSE :: string where "CONTINUATION_TASK_CLOSE = ''</task>''"
definition CONTINUATION_REQUEST_OPEN :: string where "CONTINUATION_REQUEST_OPEN = ''<request>''"
definition CONTINUATION_REQUEST_CLOSE :: string where "CONTINUATION_REQUEST_CLOSE = ''</request>''"

definition CONTINUATION_FALLBACK_INTENT :: string where
  "CONTINUATION_FALLBACK_INTENT = ''see summary above for the active task''"

definition is_skill_message :: "string \<Rightarrow> bool" where
  "is_skill_message content \<longleftrightarrow> starts_with (trim_start content) (''<skill name='' @ bytes [34])"

definition is_supervisor_injection :: "string \<Rightarrow> bool" where
  "is_supervisor_injection content \<longleftrightarrow>
     (let t = trim_start content in starts_with t ''<pay-attention>'' \<or> starts_with t ''<recall>'')"

definition is_system_managed_user_content :: "string \<Rightarrow> bool" where
  "is_system_managed_user_content content \<longleftrightarrow>
     (let t = trim_start content
      in starts_with t ''<instructions>'' \<or> starts_with t CONTINUATION_TAG_OPEN \<or>
         starts_with t ''<system-note>'' \<or> is_skill_message content \<or> is_supervisor_injection content)"

definition ensure_system_managed :: "string \<Rightarrow> string" where
  "ensure_system_managed content =
     (if is_system_managed_user_content content then content
      else ''<system-note>'' @ newline @ content @ newline @ ''</system-note>'')"

definition is_real_user_task_message :: "'x message \<Rightarrow> bool" where
  "is_real_user_task_message m \<longleftrightarrow>
     msg_role m = ''user'' \<and> \<not> is_blank (msg_content m) \<and> \<not> is_system_managed_user_content (msg_content m)"

section \<open>Continuation wrappers\<close>

text \<open>Index of a tag at the start of a line of its own.\<close>

definition find_block_open :: "string \<Rightarrow> string \<Rightarrow> nat option" where
  "find_block_open content tag = map_option Suc (find_str (newline @ tag) content)"

definition continuation_tags :: "string \<Rightarrow> string \<times> string" where
  "continuation_tags trimmed =
     (if find_block_open trimmed CONTINUATION_REQUEST_OPEN \<noteq> None
      then (CONTINUATION_REQUEST_OPEN, CONTINUATION_REQUEST_CLOSE)
      else (CONTINUATION_TASK_OPEN, CONTINUATION_TASK_CLOSE))"

definition continuation_task :: "string \<Rightarrow> string option" where
  "continuation_task content =
     (let trimmed = trim_start content
      in if \<not> starts_with trimmed CONTINUATION_TAG_OPEN then None
         else let (open_tag, close_tag) = continuation_tags trimmed
              in Option.bind (find_block_open trimmed open_tag) (\<lambda>i.
                 let start = i + length open_tag
                 in Option.bind (find_str close_tag (drop start trimmed)) (\<lambda>n.
                    let task = trim (take n (drop start trimmed))
                    in if task = [] \<or> task = CONTINUATION_FALLBACK_INTENT then None else Some task)))"

section \<open>The current turn\<close>

definition latest_task_turn_index :: "'x message list \<Rightarrow> nat option" where
  "latest_task_turn_index messages =
     or_else (rposition is_real_user_task_message messages)
       (rposition (\<lambda>m. msg_role m = ''user'' \<and> continuation_task (msg_content m) \<noteq> None) messages)"

definition latest_real_user_task_content :: "'x message list \<Rightarrow> string option" where
  "latest_real_user_task_content messages =
     Option.bind (latest_task_turn_index messages) (\<lambda>i.
       let m = messages ! i
       in if is_real_user_task_message m then Some (msg_content m) else continuation_task (msg_content m))"

definition latest_task_timestamp :: "'x message list \<Rightarrow> u64 option" where
  "latest_task_timestamp messages =
     map_option (\<lambda>i. msg_timestamp (messages ! i)) (latest_task_turn_index messages)"

lemma latest_index_bound: "latest_task_turn_index messages = Some i \<Longrightarrow> i < length messages"
  by (auto simp: latest_task_turn_index_def or_else_def dest: rposition_Some split: option.splits)

section \<open>Properties of the classification\<close>

lemma trim_start_fixed: "s \<noteq> [] \<Longrightarrow> \<not> (\<exists>w\<in>set white_space. prefix w s) \<Longrightarrow> trim_start s = s"
  unfolding trim_start_def by (intro strip_front_stuck) auto

lemma no_space_tag: "\<not> (\<exists>w\<in>set white_space. prefix w (CHR ''<'' # cs))"
  by (auto simp: white_space_literals)

lemma trim_start_tag [simp]: "trim_start (CHR ''<'' # cs) = CHR ''<'' # cs"
  by (rule trim_start_fixed) (simp_all add: no_space_tag)

lemma ensure_system_managed_managed [simp]: "is_system_managed_user_content (ensure_system_managed content)"
  by (simp add: ensure_system_managed_def is_system_managed_user_content_def [of "CHR ''<'' # _"] starts_with_def)

lemma ensure_system_managed_idem [simp]:
  "ensure_system_managed (ensure_system_managed content) = ensure_system_managed content"
  by (simp add: ensure_system_managed_def [of "ensure_system_managed content"])

end
