(* ===== verification/Cache.thy ===== *)
theory Cache
  imports Messages
begin

text \<open>
  Prompt-cache markers (\<open>src/session/cache.rs\<close>, \<open>add_cache_checkpoint\<close> of
  \<open>src/session/mod.rs\<close>). A provider accepts a bounded number of cache breakpoints, so the
  manager keeps at most two on content messages (user, tool, assistant) besides the system
  message. The session is the record of what these operations read and write; whether the
  model supports caching is an argument.
\<close>

section \<open>State\<close>

record 'x session =
  ses_messages :: "'x message list"
  ses_input_tokens :: u64
  ses_output_tokens :: u64
  ses_cache_read_tokens :: u64
  ses_cache_write_tokens :: u64
  ses_reasoning_tokens :: u64
  ses_tool_calls :: u64
  ses_current_non_cached_tokens :: u64
  ses_current_total_tokens :: u64
  ses_last_cache_checkpoint_time :: u64

record cache_manager =
  max_content_markers :: nat

definition default_manager :: cache_manager where
  "default_manager = \<lparr>max_content_markers = 2\<rparr>"

datatype cache_err = IndexOutOfBounds nat | NoUserMessage | UseCacheManager

definition is_content :: "'x message \<Rightarrow> bool" where
  "is_content m \<longleftrightarrow> msg_role m = ''user'' \<or> msg_role m = ''tool'' \<or> msg_role m = ''assistant''"

definition set_cached :: "nat \<Rightarrow> bool \<Rightarrow> 'x message list \<Rightarrow> 'x message list" where
  "set_cached i b ms = ms[i := (ms ! i)\<lparr>msg_cached := b\<rparr>]"

text \<open>The indices of the cached messages that satisfy a predicate, in order.\<close>

definition markers :: "('x message \<Rightarrow> bool) \<Rightarrow> 'x message list \<Rightarrow> nat list" where
  "markers P ms = filter (\<lambda>i. msg_cached (ms ! i) \<and> P (ms ! i)) [0..<length ms]"

section \<open>Operations\<close>

definition add_automatic_cache_markers :: "bool \<Rightarrow> bool \<Rightarrow> 'x message list \<Rightarrow> 'x message list" where
  "add_automatic_cache_markers has_tools supports_caching messages =
     (if \<not> supports_caching then messages
      else let messages = (case messages of
                   m # _ \<Rightarrow> if msg_role m = ''system'' \<and> \<not> msg_cached m then set_cached 0 True messages else messages
                 | [] \<Rightarrow> messages)
           in if has_tools then
                (case rposition (\<lambda>m. msg_role m = ''system'') messages of
                   Some i \<Rightarrow> if \<not> msg_cached (messages ! i) then set_cached i True messages else messages
                 | None \<Rightarrow> messages)
              else messages)"

definition reset_counters :: "u64 \<Rightarrow> 'x session \<Rightarrow> 'x session" where
  "reset_counters now s = s\<lparr>ses_current_non_cached_tokens := 0, ses_current_total_tokens := 0,
     ses_last_cache_checkpoint_time := now\<rparr>"

definition apply_cache_to_message ::
  "cache_manager \<Rightarrow> u64 \<Rightarrow> nat \<Rightarrow> bool \<Rightarrow> 'x session \<Rightarrow> cache_err + bool \<times> 'x session" where
  "apply_cache_to_message cm now message_index supports_caching s =
     (if \<not> supports_caching then Inr (False, s)
      else if length (ses_messages s) \<le> message_index then Inl (IndexOutOfBounds message_index)
      else if msg_cached (ses_messages s ! message_index) then Inr (False, s)
      else let ms = ses_messages s;
               existing_markers = markers is_content ms;
               ms = (if max_content_markers cm \<le> length existing_markers \<and> existing_markers \<noteq> []
                     then set_cached (hd existing_markers) False ms else ms)
           in if message_index \<in> set existing_markers then Inr (False, s)
              else Inr (True, reset_counters now (s\<lparr>ses_messages := set_cached message_index True ms\<rparr>)))"

definition check_and_apply_auto_cache_threshold ::
  "cache_manager \<Rightarrow> u64 \<Rightarrow> bool \<Rightarrow> 'x session \<Rightarrow> bool \<times> 'x session" where
  "check_and_apply_auto_cache_threshold cm now supports_caching s =
     (if \<not> supports_caching \<or> ses_messages s = [] then (False, s)
      else case rposition (\<lambda>m. (msg_role m = ''tool'' \<or> msg_role m = ''user'') \<and> \<not> msg_cached m) (ses_messages s) of
          None \<Rightarrow> (False, s)
        | Some index \<Rightarrow>
            (case apply_cache_to_message cm now index supports_caching s of
               Inr r \<Rightarrow> r
             | Inl _ \<Rightarrow> (False, s)))"

definition apply_cache_to_current_user_message ::
  "cache_manager \<Rightarrow> u64 \<Rightarrow> bool \<Rightarrow> 'x session \<Rightarrow> cache_err + bool \<times> 'x session" where
  "apply_cache_to_current_user_message cm now supports_caching s =
     (if \<not> supports_caching then Inr (False, s)
      else case rposition (\<lambda>m. msg_role m = ''user'') (ses_messages s) of
          Some i \<Rightarrow> apply_cache_to_message cm now i supports_caching s
        | None \<Rightarrow> Inl NoUserMessage)"

definition clear_content_cache_markers :: "'x session \<Rightarrow> nat \<times> 'x session" where
  "clear_content_cache_markers s =
     (length (filter (\<lambda>m. msg_cached m \<and> is_content m) (ses_messages s)),
      s\<lparr>ses_messages := map (\<lambda>m. if msg_cached m \<and> is_content m then m\<lparr>msg_cached := False\<rparr> else m) (ses_messages s)\<rparr>)"

definition update_token_tracking ::
  "u64 \<Rightarrow> u64 \<Rightarrow> u64 \<Rightarrow> u64 \<Rightarrow> u64 \<Rightarrow> 'x session \<Rightarrow> 'x session" where
  "update_token_tracking input_tokens output_tokens cache_read_tokens cache_write_tokens reasoning_tokens s =
     s\<lparr>ses_input_tokens := ses_input_tokens s + input_tokens,
       ses_output_tokens := ses_output_tokens s + output_tokens,
       ses_cache_read_tokens := ses_cache_read_tokens s + cache_read_tokens,
       ses_cache_write_tokens := ses_cache_write_tokens s + cache_write_tokens,
       ses_reasoning_tokens := ses_reasoning_tokens s + reasoning_tokens,
       ses_current_total_tokens := ses_current_total_tokens s + (input_tokens + cache_read_tokens),
       ses_current_non_cached_tokens := ses_current_non_cached_tokens s + input_tokens\<rparr>"

definition estimate_current_session_tokens :: "('x message \<Rightarrow> u64) \<Rightarrow> 'x session \<Rightarrow> u64 \<times> u64" where
  "estimate_current_session_tokens estimate s =
     (sum_list (map estimate (ses_messages s)),
      sum_list (map estimate (filter (\<lambda>m. \<not> msg_cached m) (ses_messages s))))"

text \<open>
  The three marker counts of \<open>get_cache_statistics_with_config\<close>; \<open>servers\<close> is whether the
  configuration, when there is one, names a server.
\<close>

definition marker_counts :: "bool \<Rightarrow> bool option \<Rightarrow> 'x session \<Rightarrow> nat \<times> nat \<times> nat" where
  "marker_counts supports_caching servers s =
     (let ms = filter msg_cached (ses_messages s);
          content = length (filter (\<lambda>m. msg_role m = ''user'' \<or> (msg_role m = ''tool'' \<and> msg_tool_call_id m \<noteq> None) \<or>
            msg_role m = ''assistant'') ms);
          systems = length (filter (\<lambda>m. msg_role m = ''system'') ms);
          tools = length (filter (\<lambda>m. msg_role m = ''tool'' \<and> msg_tool_call_id m = None) ms);
          has_tools = (case servers of
              Some b \<Rightarrow> b
            | None \<Rightarrow> 0 < ses_tool_calls s \<or> (0 < ses_input_tokens s \<and> 0 < systems) \<or>
                (ses_input_tokens s = 0 \<and> ses_cache_read_tokens s = 0 \<and> 0 < systems))
      in (content, systems,
          if 0 < systems \<and> supports_caching \<and> has_tools \<and> tools = 0 then 1 else tools))"

definition add_cache_checkpoint :: "bool \<Rightarrow> bool \<Rightarrow> 'x session \<Rightarrow> cache_err + bool \<times> 'x session" where
  "add_cache_checkpoint is_system supports_caching s =
     (if \<not> is_system then Inl UseCacheManager
      else case position (\<lambda>m. msg_role m = ''system'') (ses_messages s) of
          None \<Rightarrow> Inr (False, s)
        | Some i \<Rightarrow>
            let s = s\<lparr>ses_messages := set_cached i supports_caching (ses_messages s)\<rparr>
            in if supports_caching
               then Inr (True, s\<lparr>ses_current_non_cached_tokens := 0, ses_current_total_tokens := 0\<rparr>)
               else Inr (False, s))"

section \<open>Counting markers\<close>

definition content_markers :: "'x message list \<Rightarrow> nat" where
  "content_markers ms = length (filter (\<lambda>m. msg_cached m \<and> is_content m) ms)"

lemma length_markers: "length (markers P ms) = length (filter (\<lambda>m. msg_cached m \<and> P m) ms)"
  by (simp add: markers_def filter_enumerate_length [of "\<lambda>m. msg_cached m \<and> P m"])

lemma markers_nth: "i \<in> set (markers P ms) \<longleftrightarrow> i < length ms \<and> msg_cached (ms ! i) \<and> P (ms ! i)"
  by (auto simp: markers_def)

lemma hd_markers: "markers P ms \<noteq> [] \<Longrightarrow> hd (markers P ms) \<in> set (markers P ms)"
  by simp

lemma length_set_cached [simp]: "length (set_cached i b ms) = length ms"
  by (simp add: set_cached_def)

lemma nth_set_cached: "j < length ms \<Longrightarrow> set_cached i b ms ! j = (if i = j then (ms ! j)\<lparr>msg_cached := b\<rparr> else ms ! j)"
  by (auto simp: set_cached_def)

text \<open>Marking one more message, and unmarking one, for any class of messages.\<close>

lemma count_set_cached:
  fixes P :: "'x message \<Rightarrow> bool"
  assumes "i < length ms" and "\<And>m b. P (m\<lparr>msg_cached := b\<rparr>) = P m"
  defines "n \<equiv> \<lambda>ms. length (filter (\<lambda>m. msg_cached m \<and> P m) ms)"
  shows "n (set_cached i b ms) + (if msg_cached (ms ! i) \<and> P (ms ! i) then 1 else 0) =
    n ms + (if b \<and> P (ms ! i) then 1 else 0)"
  using count_update [OF assms(1), of "\<lambda>m. msg_cached m \<and> P m" "(ms ! i)\<lparr>msg_cached := b\<rparr>"] assms(2)
  by (simp add: n_def set_cached_def)

lemma is_content_cached [simp]: "is_content (m\<lparr>msg_cached := b\<rparr>) = is_content m"
  by (simp add: is_content_def)

lemma apply_cache_result:
  assumes "apply_cache_to_message cm now i True s = Inr (True, s')"
  shows "i < length (ses_messages s) \<and> \<not> msg_cached (ses_messages s ! i) \<and>
    ses_messages s' = set_cached i True
      (if max_content_markers cm \<le> content_markers (ses_messages s) \<and> markers is_content (ses_messages s) \<noteq> []
       then set_cached (hd (markers is_content (ses_messages s))) False (ses_messages s) else ses_messages s)"
  using assms
  by (auto simp: apply_cache_to_message_def Let_def reset_counters_def content_markers_def length_markers split: if_splits)

lemma apply_cache_bound:
  assumes "apply_cache_to_message cm now i supports s = Inr (r, s')"
    and "content_markers (ses_messages s) \<le> max_content_markers cm" and "0 < max_content_markers cm"
  shows "content_markers (ses_messages s') \<le> max_content_markers cm"
proof (cases "r \<and> supports")
  case False
  then show ?thesis using assms(1,2)
    by (auto simp: apply_cache_to_message_def Let_def split: if_splits)
next
  case True
  let ?ms = "ses_messages s"
  define ms1 where "ms1 = (if max_content_markers cm \<le> content_markers ?ms \<and> markers is_content ?ms \<noteq> []
     then set_cached (hd (markers is_content ?ms)) False ?ms else ?ms)"
  from assms(1) True have r: "i < length ?ms" "\<not> msg_cached (?ms ! i)" "ses_messages s' = set_cached i True ms1"
    using apply_cache_result [of cm now i s s'] by (auto simp: ms1_def)
  have "content_markers ms1 < max_content_markers cm"
  proof (cases "max_content_markers cm \<le> content_markers ?ms")
    case full: True
    then have ne: "markers is_content ?ms \<noteq> []"
      using assms(3) by (auto simp: content_markers_def simp flip: length_markers)
    have h: "hd (markers is_content ?ms) < length ?ms" "msg_cached (?ms ! hd (markers is_content ?ms))"
        "is_content (?ms ! hd (markers is_content ?ms))"
      using hd_markers [OF ne] by (simp_all add: markers_nth)
    with count_set_cached [of "hd (markers is_content ?ms)" ?ms is_content False] assms(2,3) full ne show ?thesis
      by (simp add: ms1_def content_markers_def)
  next
    case False
    then show ?thesis by (simp add: ms1_def)
  qed
  moreover have "content_markers (set_cached i True ms1) \<le> Suc (content_markers ms1)"
    using count_set_cached [of i ms1 is_content True] r(1)
    unfolding content_markers_def by (cases "i < length ms1") (auto simp: ms1_def split: if_splits)
  ultimately show ?thesis using r(3) by simp
qed

end
