(* ===== verification/Compaction.thy ===== *)
theory Compaction
  imports Cache
begin

text \<open>
  The compaction of a conversation: which messages are folded
  (\<open>src/session/chat/conversation_compression/range.rs\<close>), their removal and the insertion of
  the summary (\<open>remove_messages_in_range\<close>, \<open>insert_compressed_knowledge\<close> of
  \<open>src/session/chat/session/core.rs\<close>), the cache markers afterwards and the continuation wrapper
  that carries the live request over (\<open>conversation_compression/apply.rs\<close>). The labels of the
  running background jobs, which the wrapper reads from their registries, are arguments.
\<close>

section \<open>Choosing the range\<close>

definition COMPRESSION_MESSAGE_NAME :: string where
  "COMPRESSION_MESSAGE_NAME = ''plan_compression''"

definition SUMMARY_TAG_OPEN_PREFIX :: string where
  "SUMMARY_TAG_OPEN_PREFIX = ''<conversation_summary''"

definition is_continuation_message :: "string \<Rightarrow> bool" where
  "is_continuation_message content \<longleftrightarrow> starts_with (trim_start content) CONTINUATION_TAG_OPEN"

definition states_task :: "'x message \<Rightarrow> bool" where
  "states_task m \<longleftrightarrow> is_real_user_task_message m \<or>
     (msg_role m = ''user'' \<and> is_continuation_message (msg_content m)) \<or>
     (msg_role m = ''assistant'' \<and>
       (msg_name m = Some COMPRESSION_MESSAGE_NAME \<or> str_contains (msg_content m) SUMMARY_TAG_OPEN_PREFIX))"

definition is_assistant :: "'x message \<Rightarrow> bool" where
  "is_assistant m \<longleftrightarrow> msg_role m = ''assistant''"

text \<open>
  The last index to fold: the whole tail, or when the turn is preserved up to just before the
  last assistant message (before the fresh request, if the tail is one).
\<close>

definition range_end :: "bool \<Rightarrow> 'x message list \<Rightarrow> nat" where
  "range_end preserve messages =
     (let tail_idx = length messages - 1
      in if \<not> preserve then tail_idx
         else case rposition is_assistant
                  (if is_real_user_task_message (messages ! tail_idx) then take tail_idx messages else messages) of
             Some i \<Rightarrow> i - 1
           | None \<Rightarrow> tail_idx)"

definition conversation_count :: "nat \<Rightarrow> nat \<Rightarrow> 'x message list \<Rightarrow> nat" where
  "conversation_count start_idx end_idx messages =
     length (filter (\<lambda>m. msg_role m = ''user'' \<or> msg_role m = ''assistant'')
       (take (end_idx - start_idx + 1) (drop start_idx messages)))"

definition find_compression_range_preserving_turn :: "'x message list \<Rightarrow> bool \<Rightarrow> bool \<Rightarrow> nat \<times> nat" where
  "find_compression_range_preserving_turn messages force preserve =
     (case position states_task messages of
        None \<Rightarrow> (0, 0)
      | Some first_task \<Rightarrow>
          if first_task = 0 then (0, 0)
          else let start_idx = first_task - 1;
                   end_idx = range_end preserve messages;
                   min_conv = (if force then 3 else 5)
               in if conversation_count start_idx end_idx messages < min_conv then (0, 0)
                  else if end_idx \<le> start_idx then (0, 0)
                  else (start_idx, end_idx))"

datatype range_err = InvalidStart | InvalidEnd | InvalidRange | InvalidIndex

definition calculate_range_tokens ::
  "('x message \<Rightarrow> u64) \<Rightarrow> 'x message list \<Rightarrow> nat \<Rightarrow> nat \<Rightarrow> range_err + u64" where
  "calculate_range_tokens estimate messages start_idx end_idx =
     (if length messages \<le> start_idx then Inl InvalidStart
      else if length messages \<le> end_idx then Inl InvalidEnd
      else Inr (sum_list (map (\<lambda>i. estimate (messages ! i)) [start_idx..<end_idx + 1])))"

section \<open>Folding it\<close>

definition remove_messages_in_range ::
  "nat \<Rightarrow> nat \<Rightarrow> 'x message list \<Rightarrow> range_err + (nat \<times> bool) \<times> 'x message list" where
  "remove_messages_in_range start_index end_index messages =
     (if length messages \<le> start_index then Inl InvalidStart
      else if length messages \<le> end_index then Inl InvalidEnd
      else if end_index \<le> start_index then Inl InvalidRange
      else let drained = drop (start_index + 1) (take (end_index + 1) messages)
           in Inr ((end_index - start_index, \<exists>m\<in>set drained. msg_cached m),
                take (start_index + 1) messages @ drop (end_index + 1) messages))"

definition MAX_CONTENT_MARKERS :: nat where
  "MAX_CONTENT_MARKERS = 2"

definition not_system :: "'x message \<Rightarrow> bool" where
  "not_system m \<longleftrightarrow> msg_role m \<noteq> ''system''"

definition evict_oldest :: "'x message list \<Rightarrow> 'x message list" where
  "evict_oldest ms =
     (let existing = markers not_system ms
      in if MAX_CONTENT_MARKERS \<le> length existing then set_cached (hd existing) False ms else ms)"

definition summary_message :: "u64 \<Rightarrow> bool \<Rightarrow> string \<Rightarrow> 'x message" where
  "summary_message now supports_caching content =
     (build_message now ''assistant'' content)\<lparr>msg_cached := supports_caching, msg_name := Some COMPRESSION_MESSAGE_NAME\<rparr>"

text \<open>The last user or tool message after the summary, if any.\<close>

definition last_eligible :: "nat \<Rightarrow> 'x message list \<Rightarrow> nat option" where
  "last_eligible compressed_idx ms =
     rposition (\<lambda>(i, m). compressed_idx < i \<and> (msg_role m = ''user'' \<or> msg_role m = ''tool'')) (enumerate 0 ms)"

definition place_second_marker :: "nat \<Rightarrow> 'x message list \<Rightarrow> 'x message list" where
  "place_second_marker compressed_idx ms =
     (case last_eligible compressed_idx ms of
        None \<Rightarrow> ms
      | Some target_idx \<Rightarrow>
          if msg_cached (ms ! target_idx) then ms
          else let marked = markers not_system ms;
                   ms = (if MAX_CONTENT_MARKERS \<le> length marked then
                           (case or_else (find (\<lambda>i. i \<noteq> compressed_idx) marked) (case marked of [] \<Rightarrow> None | i # _ \<Rightarrow> Some i) of
                              Some i \<Rightarrow> set_cached i False ms
                            | None \<Rightarrow> ms)
                         else ms)
               in set_cached target_idx True ms)"

definition insert_compressed_knowledge ::
  "u64 \<Rightarrow> bool \<Rightarrow> nat \<Rightarrow> string \<Rightarrow> 'x message list \<Rightarrow> range_err + 'x message list" where
  "insert_compressed_knowledge now supports_caching index content messages =
     (if length messages \<le> index then Inl InvalidIndex
      else let messages = (if supports_caching then evict_oldest messages else messages);
               messages = insert_at (index + 1) (summary_message now supports_caching content) messages
           in if supports_caching then Inr (place_second_marker (index + 1) messages) else Inr messages)"

definition set_marker :: "nat \<Rightarrow> string option \<Rightarrow> 'x message list \<Rightarrow> 'x message list" where
  "set_marker i ttl ms = ms[i := (ms ! i)\<lparr>msg_cached := True, msg_cache_ttl := ttl\<rparr>]"

definition align_compression_cache_markers ::
  "nat \<Rightarrow> nat \<Rightarrow> bool \<Rightarrow> 'x message list \<Rightarrow> 'x message list" where
  "align_compression_cache_markers anchor_idx summary_idx supports_caching messages =
     (let messages = map (\<lambda>m. if not_system m then m\<lparr>msg_cached := False, msg_cache_ttl := None\<rparr> else m) messages
      in if \<not> supports_caching \<or> messages = [] then messages
         else
           (case (if length messages \<le> anchor_idx then None
                  else if not_system (messages ! anchor_idx) then Some anchor_idx
                  else if summary_idx < length messages then Some summary_idx else None) of
              None \<Rightarrow> messages
            | Some first_idx \<Rightarrow>
                let messages = (if first_idx = anchor_idx then set_marker first_idx (Some ''1h'') messages
                                else set_cached first_idx True messages);
                    final_idx = length messages - 1
                in if final_idx \<noteq> first_idx then set_marker final_idx None messages else messages))"

section \<open>The continuation wrapper\<close>

definition PREVIOUS_ASSISTANT_OPEN :: string where
  "PREVIOUS_ASSISTANT_OPEN = ''<previous_assistant_response>''"

definition PREVIOUS_ASSISTANT_CLOSE :: string where
  "PREVIOUS_ASSISTANT_CLOSE = ''</previous_assistant_response>''"

definition extract_previous_assistant_response :: "string \<Rightarrow> string option" where
  "extract_previous_assistant_response content =
     (let trimmed = trim_start content
      in if \<not> starts_with trimmed CONTINUATION_TAG_OPEN then None
         else Option.bind (find_str (newline @ PREVIOUS_ASSISTANT_OPEN) trimmed) (\<lambda>i.
           let start = i + 1 + length PREVIOUS_ASSISTANT_OPEN
           in Option.bind (find_str PREVIOUS_ASSISTANT_CLOSE (drop start trimmed)) (\<lambda>n.
              let response = take n (drop start trimmed)
              in if response = [] then None else Some response)))"

record folded_unit =
  fu_text :: string
  fu_kind :: string
  fu_status :: string
  fu_refs :: "string list"

definition select_continuation_action :: "folded_unit list \<Rightarrow> bool \<Rightarrow> string option" where
  "select_continuation_action folded_units pact_enabled =
     (if \<not> pact_enabled then None
      else map_option (\<lambda>u. trim (fu_text u))
        (find (\<lambda>u. fu_kind u \<in> {''next_action'', ''open_loop''} \<and>
                   fu_status u \<in> {''pending'', ''tentative'', ''unknown''} \<and> \<not> is_blank (fu_text u))
          (rev folded_units)))"

definition listing :: "string list \<Rightarrow> string" where
  "listing labels = join newline (map (\<lambda>l. ''- '' @ l) labels)"

definition plan_note :: "bool \<Rightarrow> string" where
  "plan_note plan_active =
     (if plan_active then
        ''An execution plan is already active (shown in the summary above) '' @ long_dash @
        '' continue its current task; never call plan(start) or plan(reset) to re-create it.'' @ newline @ newline
      else [])"

definition jobs_block :: "string list \<Rightarrow> string" where
  "jobs_block pending =
     (if pending = [] then []
      else ''<background_jobs_running>'' @ newline @
        ''As of this point these detached shell jobs were still running. Their output is delivered to you as a message the moment each finishes '' @
        long_dash @ '' do NOT relaunch them, poll them, or wait on them by hand; continue other work or wait. If that completion message never arrives (for example because this session was resumed in a fresh process), the job is gone: re-run the command whose result you still need.'' @ newline @
        listing pending @ newline @ ''</background_jobs_running>'' @ newline @ newline)"

definition tap_runs_block :: "string list \<Rightarrow> string" where
  "tap_runs_block pending =
     (if pending = [] then []
      else ''<tap_runs_running>'' @ newline @
        ''As of this point these backgrounded tap-runs were still working. Each reply is delivered to you as a message the moment that specialist finishes '' @
        long_dash @ '' do NOT relaunch them, poll them, or wait on them by hand. To continue a dialog with one, pass its id as `session` on a later `tap(action='' @
        bytes [34] @ ''run'' @ bytes [34] @ '')` call.'' @ newline @
        listing pending @ newline @ ''</tap_runs_running>'' @ newline @ newline)"

definition previous_block :: "string option \<Rightarrow> string" where
  "previous_block previous = (case previous of
      Some r \<Rightarrow> PREVIOUS_ASSISTANT_OPEN @ r @ PREVIOUS_ASSISTANT_CLOSE @ newline | None \<Rightarrow> [])"

definition wrapper_intro :: string where
  "wrapper_intro = CONTINUATION_TAG_OPEN @ newline @
     ''The conversation summary above is the concise record of prior work on this task, and its archive points to the lossless transcript. Resume from where the previous turn left off; do not restart or re-discover what is already established. If an exact detail required for the next action is absent, read the archive before acting; never guess. The <previous_assistant_response> and <request> blocks preserve the exact turn boundary and may already have been acted on; <task> is the validated frontier to resume now.'' @
     newline @ newline"

text \<open>What precedes the request in the wrapper, and the wrapper.\<close>

definition wrapper_head :: "string option \<Rightarrow> bool \<Rightarrow> string list \<Rightarrow> string list \<Rightarrow> string" where
  "wrapper_head previous plan_active jobs taps =
     wrapper_intro @ plan_note plan_active @ jobs_block jobs @ tap_runs_block taps @ previous_block previous"

definition build_continuation_content ::
  "string option \<Rightarrow> string option \<Rightarrow> string option \<Rightarrow> bool \<Rightarrow> string list \<Rightarrow> string list \<Rightarrow> string" where
  "build_continuation_content previous request action plan_active jobs taps =
     (let task_body = (case or_else action request of Some t \<Rightarrow> t | None \<Rightarrow> CONTINUATION_FALLBACK_INTENT);
          request_block = (case request of
              Some r \<Rightarrow> CONTINUATION_REQUEST_OPEN @ r @ CONTINUATION_REQUEST_CLOSE @ newline | None \<Rightarrow> [])
      in wrapper_head previous plan_active jobs taps @ request_block @
         CONTINUATION_TASK_OPEN @ newline @ task_body @ newline @ CONTINUATION_TASK_CLOSE @ newline @ ''</continuation>'')"

end
