(* ===== verification/CompactCorrect.thy ===== *)
theory CompactCorrect
  imports Compaction
begin

text \<open>
  The correctness statements of message classification, cache markers and compaction, each
  with its instance on a small conversation.
\<close>

section \<open>A conversation\<close>

definition a_message :: "string \<Rightarrow> string \<Rightarrow> unit message" where
  "a_message role content = build_message 0 role content"

definition a_talk :: "unit message list" where
  "a_talk = [a_message ''system'' ''S'', a_message ''user'' ''q1'', a_message ''assistant'' ''a1'',
     a_message ''tool'' ''t1'', a_message ''assistant'' ''a2'', a_message ''user'' ''q2'',
     a_message ''assistant'' ''a3'', a_message ''tool'' ''t2'']"

definition a_session :: "unit session" where
  "a_session = \<lparr>ses_messages = a_talk, ses_input_tokens = 0, ses_output_tokens = 0, ses_cache_read_tokens = 0,
     ses_cache_write_tokens = 0, ses_reasoning_tokens = 0, ses_tool_calls = 0,
     ses_current_non_cached_tokens = 0, ses_current_total_tokens = 0, ses_last_cache_checkpoint_time = 0\<rparr>"

section \<open>Classification\<close>

text \<open>
  What the runtime injects through \<open>ensure_system_managed\<close> is never taken for a request of
  the user, and wrapping twice changes nothing.
\<close>

theorem injected_never_real_task:
  "\<not> is_real_user_task_message (build_message now ''user'' (ensure_system_managed content)) \<and>
   ensure_system_managed (ensure_system_managed content) = ensure_system_managed content"
  by (simp add: is_real_user_task_message_def build_message_def)

text \<open>
  The turn index is the last genuine request; only when there is none is it the last
  continuation wrapper that carries a request, and then the content read there is that request.
\<close>

theorem latest_turn_is_last_request:
  "case latest_task_turn_index messages of
     None \<Rightarrow> \<not> (\<exists>m\<in>set messages. is_real_user_task_message m) \<and> latest_real_user_task_content messages = None
   | Some i \<Rightarrow> i < length messages \<and>
       (if \<exists>m\<in>set messages. is_real_user_task_message m
        then is_real_user_task_message (messages ! i) \<and>
          (\<forall>j. i < j \<and> j < length messages \<longrightarrow> \<not> is_real_user_task_message (messages ! j)) \<and>
          latest_real_user_task_content messages = Some (msg_content (messages ! i))
        else latest_real_user_task_content messages = continuation_task (msg_content (messages ! i)) \<and>
          continuation_task (msg_content (messages ! i)) \<noteq> None)"
proof (cases "rposition is_real_user_task_message messages")
  case (Some i)
  from rposition_Some [OF this] have i: "i < length messages" "is_real_user_task_message (messages ! i)"
    "\<And>j. i < j \<Longrightarrow> j < length messages \<Longrightarrow> \<not> is_real_user_task_message (messages ! j)" by auto
  then have "\<exists>m\<in>set messages. is_real_user_task_message m" by (metis nth_mem)
  then show ?thesis using Some i
    by (simp add: latest_task_turn_index_def or_else_def latest_real_user_task_content_def Let_def)
next
  case None
  then have none: "\<not> (\<exists>m\<in>set messages. is_real_user_task_message m)" by (simp add: rposition_None)
  let ?q = "rposition (\<lambda>m. msg_role m = ''user'' \<and> continuation_task (msg_content m) \<noteq> None) messages"
  show ?thesis
  proof (cases ?q)
    case None
    with \<open>rposition is_real_user_task_message messages = None\<close> none show ?thesis
      by (simp add: latest_task_turn_index_def or_else_def latest_real_user_task_content_def)
  next
    case (Some i)
    from rposition_Some [OF this] have i: "i < length messages" "continuation_task (msg_content (messages ! i)) \<noteq> None"
      by auto
    with none have "\<not> is_real_user_task_message (messages ! i)" by (metis nth_mem)
    with Some i none \<open>rposition is_real_user_task_message messages = None\<close> show ?thesis
      by (auto simp: latest_task_turn_index_def or_else_def latest_real_user_task_content_def Let_def)
  qed
qed

lemma latest_turn_is_last_request_witness:
  "latest_task_turn_index a_talk = Some 5 \<and> latest_real_user_task_content a_talk = Some ''q2''"
proof -
  have i: "latest_task_turn_index a_talk = Some 5" by code_simp
  have "is_real_user_task_message (a_talk ! 5)" "5 < length a_talk" "msg_content (a_talk ! 5) = ''q2''" by code_simp+
  then have "\<exists>m\<in>set a_talk. is_real_user_task_message m" by (metis nth_mem)
  with latest_turn_is_last_request [of a_talk] i \<open>msg_content (a_talk ! 5) = ''q2''\<close> show ?thesis by simp
qed

section \<open>The range\<close>

lemma rposition_last:
  "rposition P xs = Some i \<longleftrightarrow> i < length xs \<and> P (xs ! i) \<and> (\<forall>j. i < j \<and> j < length xs \<longrightarrow> \<not> P (xs ! j))"
proof
  assume i: "i < length xs \<and> P (xs ! i) \<and> (\<forall>j. i < j \<and> j < length xs \<longrightarrow> \<not> P (xs ! j))"
  then obtain k where k: "rposition P xs = Some k" using rposition_None [of P xs] by (cases "rposition P xs") auto
  from rposition_Some [OF k] i have "k = i" by (metis linorder_neqE_nat)
  with k show "rposition P xs = Some i" by simp
qed (rule rposition_Some)

lemma rposition_split: "P x \<Longrightarrow> \<forall>y\<in>set ys. \<not> P y \<Longrightarrow> rposition P (xs @ x # ys) = Some (length xs)"
  using rposition_None [of P ys] by (induction xs) auto

lemma range_end_cases:
  assumes "messages \<noteq> []"
  shows "range_end preserve messages = length messages - 1 \<or>
    (\<exists>i. i < length messages \<and> is_assistant (messages ! i) \<and> range_end preserve messages = i - 1)"
proof -
  have "i < length messages \<and> is_assistant (messages ! i)"
    if "rposition is_assistant (take n messages) = Some i" for i n
    using rposition_Some [OF that] nth_take [of i n messages] by auto
  then show ?thesis
    by (auto simp: range_end_def Let_def split: option.splits dest: rposition_Some)
qed

lemma range_unfold:
  assumes "find_compression_range_preserving_turn messages force preserve = (a, e)" and "(a, e) \<noteq> (0, 0)"
  shows "position states_task messages = Some (Suc a) \<and> e = range_end preserve messages \<and> a < e \<and>
    (if force then 3 else 5) \<le> conversation_count a e messages"
  using assms
  by (auto simp: find_compression_range_preserving_turn_def Let_def not_less split: option.splits if_splits)

lemma range_sound:
  assumes "find_compression_range_preserving_turn messages force preserve = (a, e)" and "(a, e) \<noteq> (0, 0)"
  shows "a < e \<and> e < length messages \<and> states_task (messages ! Suc a) \<and>
    (\<forall>i\<le>a. \<not> states_task (messages ! i)) \<and>
    (if force then 3 else 5) \<le> conversation_count a e messages \<and>
    (e = length messages - 1 \<or> is_assistant (messages ! Suc e))"
proof -
  note r = range_unfold [OF assms]
  from r position_Some have p: "Suc a < length messages" "states_task (messages ! Suc a)"
    "\<And>i. i < Suc a \<Longrightarrow> \<not> states_task (messages ! i)" by blast+
  then have ne: "messages \<noteq> []" by auto
  from range_end_cases [OF ne, of preserve] r have "e < length messages \<and> (e = length messages - 1 \<or> is_assistant (messages ! Suc e))"
    using ne by (auto simp: Suc_leI)
  with r p show ?thesis by (auto simp: less_Suc_eq_le)
qed

text \<open>The anchor counts among the messages of the range, but it is kept.\<close>

lemma count_without_anchor:
  assumes "a < e" and "e < length messages"
  shows "conversation_count a e messages \<le> conversation_count (Suc a) e messages + 1"
proof -
  have "drop a messages = messages ! a # drop (Suc a) messages" using assms by (simp add: Cons_nth_drop_Suc)
  moreover have "e - a + 1 = Suc (e - Suc a + 1)" using assms by simp
  ultimately have "take (e - a + 1) (drop a messages) = messages ! a # take (e - Suc a + 1) (drop (Suc a) messages)" by simp
  then show ?thesis by (simp add: conversation_count_def)
qed

text \<open>
  C13. A range that is chosen is a proper one: the anchor precedes the first message that states
  a task, so the kept preamble states none and every statement of a task up to the end is
  folded; the end lies within the conversation; the range with its anchor, which is kept, holds
  five user and assistant messages, three in a forced fold, so at least four (two) are folded;
  and what is kept after it is either nothing or starts with an assistant message.
\<close>

theorem compression_range_sound:
  assumes "find_compression_range_preserving_turn messages force preserve = (a, e)" and "(a, e) \<noteq> (0, 0)"
  shows "a < e \<and> e < length messages \<and> states_task (messages ! Suc a) \<and>
    (\<forall>i\<le>a. \<not> states_task (messages ! i)) \<and>
    (if force then 3 else 5) \<le> conversation_count a e messages \<and>
    (if force then 2 else 4) \<le> conversation_count (Suc a) e messages \<and>
    (e = length messages - 1 \<or> is_assistant (messages ! Suc e))"
  using range_sound [OF assms] count_without_anchor [of a e messages] by (auto split: if_splits)

lemma a_talk_range: "find_compression_range_preserving_turn a_talk True True = (0, 5)"
  by code_simp

lemma compression_range_sound_witness:
  "states_task (a_talk ! 1) \<and> is_assistant (a_talk ! 6) \<and> 3 \<le> conversation_count 0 5 a_talk"
proof -
  have l: "length a_talk = 8" by (simp add: a_talk_def)
  have "(0 :: nat, 5 :: nat) \<noteq> (0, 0)" by simp
  from compression_range_sound [OF a_talk_range this] l
  have "states_task (a_talk ! Suc 0)" "is_assistant (a_talk ! Suc 5)" "3 \<le> conversation_count 0 5 a_talk"
    by simp_all
  then show ?thesis by (simp add: eval_nat_numeral)
qed

text \<open>
  C9. With the turn preserved, the fold stops right before the last assistant message: once the range is removed, the
  conversation is the preamble with its anchor, then that message and everything after it as it was - the tool results of the
  step in progress, or the answer and the fresh request that follows it.
\<close>

theorem live_exchange_kept:
  assumes "find_compression_range_preserving_turn messages force True = (a, e)" and "(a, e) \<noteq> (0, 0)"
    and "messages = earlier @ step # later" and "is_assistant step" and "\<forall>m\<in>set later. \<not> is_assistant m"
  shows "e + 1 = length earlier \<and>
    (\<exists>info. remove_messages_in_range a e messages = Inr (info, take (a + 1) messages @ step # later))"
proof -
  note r = range_unfold [OF assms(1,2)] and s = range_sound [OF assms(1,2)]
  have whole: "rposition is_assistant messages = Some (length earlier)"
    using assms(3-5) by (simp add: rposition_split)
  have cut: "rposition is_assistant (take (length messages - 1) messages) = Some (length earlier)"
    if "is_real_user_task_message (messages ! (length messages - 1))"
  proof -
    have "later \<noteq> []"
      using that assms(3,4) by (auto simp: is_real_user_task_message_def is_assistant_def)
    then have "take (length messages - 1) messages = earlier @ step # butlast later"
      by (cases later rule: rev_cases) (simp_all add: assms(3))
    then show ?thesis
      using rposition_split [of is_assistant step "butlast later" earlier] assms(4,5) by (auto dest: in_set_butlastD)
  qed
  have "e = length earlier - 1" using r whole cut by (simp add: range_end_def Let_def)
  moreover have "0 < e" using s by simp
  ultimately have e: "e + 1 = length earlier" by simp
  then have "drop (e + 1) messages = step # later" by (simp add: assms(3))
  with e s show ?thesis by (simp add: remove_messages_in_range_def Let_def)
qed

lemma live_exchange_kept_witness:
  "\<exists>info. remove_messages_in_range 0 5 a_talk = Inr (info, take 1 a_talk @ drop 6 a_talk)"
proof -
  have "a_talk = take 6 a_talk @ a_talk ! 6 # drop 7 a_talk" by code_simp
  moreover have "is_assistant (a_talk ! 6)" "\<forall>m\<in>set (drop 7 a_talk). \<not> is_assistant m" by code_simp+
  moreover have "a_talk ! 6 # drop 7 a_talk = drop 6 a_talk" by code_simp
  ultimately show ?thesis
    using live_exchange_kept [OF a_talk_range, of "take 6 a_talk" "a_talk ! 6" "drop 7 a_talk"] by simp
qed

fun tools_answered :: "bool \<Rightarrow> 'x message list \<Rightarrow> bool" where
  "tools_answered open [] \<longleftrightarrow> True"
| "tools_answered open (m # ms) \<longleftrightarrow>
     (if msg_role m = ''tool'' then open \<and> tools_answered open ms else tools_answered (is_assistant m) ms)"

lemma tools_answered_append:
  "tools_answered b (xs @ ys) \<longleftrightarrow> tools_answered b xs \<and> (\<exists>c. tools_answered c ys \<and>
     (c = (case rev (filter (\<lambda>m. msg_role m \<noteq> ''tool'') xs) of [] \<Rightarrow> b | m # _ \<Rightarrow> is_assistant m)))"
proof (induction xs arbitrary: b)
  case Nil
  then show ?case by simp
next
  case (Cons m xs)
  then show ?case by (auto split: list.splits)
qed

lemma tools_answered_mono: "tools_answered False ms \<Longrightarrow> tools_answered b ms"
  by (induction ms arbitrary: b) auto

lemma tools_answered_assistant: "ms = [] \<or> is_assistant (hd ms) \<Longrightarrow> tools_answered b ms \<Longrightarrow> tools_answered c ms"
  by (cases ms) (auto simp: is_assistant_def)

text \<open>
  C14. Folding never separates a tool result from its call: if every tool message of the
  conversation follows its assistant message (through other tool messages), so does every tool
  message that is left after the fold with the summary in place.
\<close>

theorem fold_keeps_tool_pairs:
  assumes "find_compression_range_preserving_turn messages force preserve = (a, e)" and "(a, e) \<noteq> (0, 0)"
    and "tools_answered False messages"
    and "remove_messages_in_range a e messages = Inr (info, kept)"
  shows "tools_answered False kept \<and>
    tools_answered False (insert_at (Suc a) (summary_message now sup_caching content) kept)"
proof -
  note s = range_sound [OF assms(1,2)]
  have kept: "kept = take (Suc a) messages @ drop (Suc e) messages"
    using assms(4) by (auto simp: remove_messages_in_range_def Let_def split: if_splits)
  have head: "tools_answered False (take (Suc a) messages)"
    using assms(3) tools_answered_append [of False "take (Suc a) messages" "drop (Suc a) messages"] by simp
  obtain c where "tools_answered c (drop (Suc e) messages)"
    using assms(3) tools_answered_append [of False "take (Suc e) messages" "drop (Suc e) messages"] by auto
  moreover have "drop (Suc e) messages = [] \<or> is_assistant (hd (drop (Suc e) messages))"
    using s by (cases "Suc e < length messages") (auto simp: hd_drop_conv_nth)
  ultimately have tail: "tools_answered b (drop (Suc e) messages)" for b
    using tools_answered_assistant by blast
  have l: "length (take (Suc a) messages) = Suc a" using s by simp
  have "insert_at (Suc a) (summary_message now sup_caching content) kept =
      take (Suc a) messages @ summary_message now sup_caching content # drop (Suc e) messages"
    using l by (simp add: insert_at_def kept)
  then show ?thesis
    using head tail by (simp add: kept tools_answered_append summary_message_def build_message_def)
qed

lemma fold_keeps_tool_pairs_witness:
  "tools_answered False (take 1 a_talk @ drop 6 a_talk)"
proof -
  have "remove_messages_in_range 0 5 a_talk = Inr ((5, \<exists>m\<in>set (drop 1 (take 6 a_talk)). msg_cached m), take 1 a_talk @ drop 6 a_talk)"
    by (simp add: remove_messages_in_range_def a_talk_def)
  from fold_keeps_tool_pairs [OF a_talk_range _ _ this] show ?thesis
    by (simp add: a_talk_def a_message_def build_message_def is_assistant_def)
qed

section \<open>Cache markers\<close>

text \<open>
  Marking a message, by hand or on every call, never leaves more than two content markers,
  and a call that reports success has marked its message.
\<close>

theorem two_content_markers:
  assumes "apply_cache_to_message default_manager now i supports_caching s = Inr (marked, s')"
    and "content_markers (ses_messages s) \<le> 2"
  shows "content_markers (ses_messages s') \<le> 2 \<and> length (ses_messages s') = length (ses_messages s) \<and>
    (marked \<longrightarrow> msg_cached (ses_messages s' ! i))"
proof (intro conjI impI)
  show "content_markers (ses_messages s') \<le> 2"
    using apply_cache_bound [OF assms(1)] assms(2) by (simp add: default_manager_def)
  show "length (ses_messages s') = length (ses_messages s)"
    using assms(1) by (auto simp: apply_cache_to_message_def Let_def reset_counters_def split: if_splits)
  assume marked
  with assms(1) have "supports_caching" by (auto simp: apply_cache_to_message_def split: if_splits)
  with assms(1) \<open>marked\<close> apply_cache_result [of default_manager now i s s'] show "msg_cached (ses_messages s' ! i)"
    by (auto simp: nth_set_cached)
qed

lemma two_content_markers_witness:
  "\<exists>s'. apply_cache_to_message default_manager 9 5 True a_session = Inr (True, s') \<and>
     content_markers (ses_messages s') \<le> 2 \<and> msg_cached (ses_messages s' ! 5)"
proof -
  have "map_sum id fst (apply_cache_to_message default_manager 9 5 True a_session) = Inr True" by code_simp
  then obtain s' where run: "apply_cache_to_message default_manager 9 5 True a_session = Inr (True, s')"
    by (cases "apply_cache_to_message default_manager 9 5 True a_session") auto
  have "content_markers (ses_messages a_session) \<le> 2" by code_simp
  from two_content_markers [OF run this] run show ?thesis by auto
qed

lemma not_system_cached [simp]: "not_system (m\<lparr>msg_cached := b\<rparr>) = not_system m"
  by (simp add: not_system_def)

definition system_free_markers :: "'x message list \<Rightarrow> nat" where
  "system_free_markers ms = length (filter (\<lambda>m. msg_cached m \<and> not_system m) ms)"

lemma unmark_one:
  assumes "i \<in> set (markers not_system ms)"
  shows "Suc (system_free_markers (set_cached i False ms)) = system_free_markers ms"
  using count_set_cached [of i ms not_system False] assms by (simp add: system_free_markers_def markers_nth)

lemma mark_one: "system_free_markers (set_cached i True ms) \<le> Suc (system_free_markers ms)"
proof (cases "i < length ms")
  case True
  then show ?thesis using count_set_cached [of i ms not_system True]
    by (auto simp: system_free_markers_def split: if_splits)
qed (simp add: set_cached_def list_update_beyond)

lemma length_system_free [simp]: "length (markers not_system ms) = system_free_markers ms"
  by (simp add: length_markers system_free_markers_def)

lemma evict_oldest_bound: "system_free_markers ms \<le> 2 \<Longrightarrow> system_free_markers (evict_oldest ms) \<le> 1"
proof -
  assume le: "system_free_markers ms \<le> 2"
  show ?thesis
  proof (cases "MAX_CONTENT_MARKERS \<le> system_free_markers ms")
    case True
    then have "markers not_system ms \<noteq> []" by (auto simp: MAX_CONTENT_MARKERS_def simp flip: length_system_free)
    with unmark_one [OF hd_markers [OF this]] True le show ?thesis by (simp add: evict_oldest_def Let_def)
  next
    case False
    then show ?thesis by (simp add: evict_oldest_def MAX_CONTENT_MARKERS_def Let_def)
  qed
qed

lemma place_second_bound: "system_free_markers ms \<le> 2 \<Longrightarrow> system_free_markers (place_second_marker c ms) \<le> 2"
proof -
  assume le: "system_free_markers ms \<le> 2"
  show ?thesis
  proof (cases "last_eligible c ms")
    case (Some t)
    define marked where "marked = markers not_system ms"
    let ?v = "or_else (find (\<lambda>i. i \<noteq> c) marked) (case marked of [] \<Rightarrow> None | i # _ \<Rightarrow> Some i)"
    show ?thesis
    proof (cases "\<not> msg_cached (ms ! t) \<and> MAX_CONTENT_MARKERS \<le> system_free_markers ms")
      case True
      then have "length marked = 2" using le by (simp add: marked_def MAX_CONTENT_MARKERS_def)
      have "\<exists>v. ?v = Some v \<and> v \<in> set marked"
      proof (cases "find (\<lambda>i. i \<noteq> c) marked")
        case None
        with \<open>length marked = 2\<close> show ?thesis by (cases marked) (auto simp: or_else_def)
      next
        case (Some w)
        then have "w \<in> set marked" by (auto simp: find_Some_iff)
        with Some show ?thesis by (simp add: or_else_def)
      qed
      then obtain v where v: "?v = Some v" "v \<in> set marked" by blast
      then have "system_free_markers (set_cached v False ms) \<le> 1" using unmark_one [of v ms] le by (simp add: marked_def)
      with mark_one [of t "set_cached v False ms"] True v(1) Some show ?thesis
        by (simp add: place_second_marker_def Let_def marked_def)
    next
      case False
      then show ?thesis using Some le mark_one [of t ms]
        by (auto simp: place_second_marker_def Let_def MAX_CONTENT_MARKERS_def)
    qed
  qed (simp add: place_second_marker_def le)
qed

lemma system_free_insert:
  "system_free_markers (insert_at i m ms) = system_free_markers ms + (if msg_cached m \<and> not_system m then 1 else 0)"
  by (simp add: system_free_markers_def count_insert)

lemma map_insert_at: "map f (insert_at i x xs) = insert_at i (f x) (map f xs)"
  by (simp add: insert_at_def take_map drop_map)

text \<open>
  Inserting the summary of a fold keeps the limit of two markers outside the system
  message, and puts the summary right after the anchor, changing no other content.
\<close>

theorem summary_insert_keeps_limit:
  assumes "insert_compressed_knowledge now supports_caching i content ms = Inr ms'"
    and "system_free_markers ms \<le> 2"
  shows "system_free_markers ms' \<le> 2 \<and>
    map msg_content ms' = insert_at (Suc i) content (map msg_content ms)"
proof
  let ?ms1 = "insert_at (Suc i) (summary_message now supports_caching content) (if supports_caching then evict_oldest ms else ms)"
  have ms': "ms' = (if supports_caching then place_second_marker (Suc i) ?ms1 else ?ms1)"
    using assms(1) by (auto simp: insert_compressed_knowledge_def Let_def split: if_splits)
  have "system_free_markers ?ms1 \<le> 2"
    using evict_oldest_bound [OF assms(2)] assms(2)
    by (auto simp: system_free_insert summary_message_def build_message_def)
  then show "system_free_markers ms' \<le> 2"
    using place_second_bound [of ?ms1 "Suc i"] by (cases supports_caching) (simp_all add: ms')
  have set: "map msg_content (set_cached j b xs) = map msg_content xs" for j b and xs :: "'a message list"
    by (rule nth_equalityI) (simp_all add: nth_set_cached)
  have "map msg_content (place_second_marker c xs) = map msg_content xs" for c and xs :: "'a message list"
    by (auto simp: place_second_marker_def Let_def set split: option.splits)
  moreover have "map msg_content (evict_oldest xs) = map msg_content xs" for xs :: "'a message list"
    by (simp add: evict_oldest_def Let_def set)
  ultimately show "map msg_content ms' = insert_at (Suc i) content (map msg_content ms)"
    by (simp add: ms' map_insert_at summary_message_def build_message_def)
qed

lemma summary_insert_keeps_limit_witness:
  "\<exists>ms'. insert_compressed_knowledge 9 True 0 ''sum'' a_talk = Inr ms' \<and> system_free_markers ms' \<le> 2"
proof -
  have "map_sum id (\<lambda>_. ()) (insert_compressed_knowledge 9 True 0 ''sum'' a_talk) = Inr ()" by code_simp
  then obtain ms' where run: "insert_compressed_knowledge 9 True 0 ''sum'' a_talk = Inr ms'"
    by (cases "insert_compressed_knowledge 9 True 0 ''sum'' a_talk") auto
  have "system_free_markers a_talk \<le> 2" by code_simp
  from summary_insert_keeps_limit [OF run this] run show ?thesis by blast
qed

text \<open>
  The automatic marker does not only advance: called again on an unchanged conversation it
  marks an older message (5 after 7), and on the next call gives that marker up for an older one
  still (3).
\<close>

definition auto_mark :: "unit session \<Rightarrow> unit session" where
  "auto_mark s = snd (check_and_apply_auto_cache_threshold default_manager 9 True s)"

theorem auto_marker_moves_back:
  "map (\<lambda>n. markers is_content (ses_messages ((auto_mark ^^ n) a_session))) [1, 2, 3, 4] =
     [[7], [5, 7], [3, 7], [5, 7]]"
  by code_simp

section \<open>The continuation wrapper\<close>

lemma wrapper_head_start: "\<exists>rest. wrapper_head previous plan_active jobs taps = CONTINUATION_TAG_OPEN @ rest"
  by (simp add: wrapper_head_def wrapper_intro_def)

lemma last_newline: "last (xs @ newline) = CHR 0x0A"
  by (simp add: newline_literal)

lemma wrapper_head_newline: "last (wrapper_head previous plan_active jobs taps) = CHR 0x0A"
  by (cases previous; cases "taps = []"; cases "jobs = []"; cases plan_active)
    (simp_all only: wrapper_head_def previous_block_def tap_runs_block_def jobs_block_def plan_note_def
      wrapper_intro_def option.case simp_thms if_True if_False append_Nil append_Nil2,
      simp_all only: append_assoc [symmetric] last_newline)

text \<open>
  The wrapper carries the request faithfully: what \<open>continuation_task\<close> reads back from it
  is the user's request, trimmed, whatever the action, the plan and the running jobs. Two
  things are needed of the texts: the part before the request opens no \<open>request\<close> block of its
  own, and the request does not contain the closing tag.
\<close>

theorem continuation_request_roundtrip:
  assumes "\<not> sublist (newline @ CONTINUATION_REQUEST_OPEN) (butlast (wrapper_head previous plan_active jobs taps))"
    and "\<not> sublist CONTINUATION_REQUEST_CLOSE request"
    and "\<not> is_blank request" and "trim request \<noteq> CONTINUATION_FALLBACK_INTENT"
  shows "continuation_task (build_continuation_content previous (Some request) action plan_active jobs taps) = Some (trim request)"
proof -
  define head where "head = butlast (wrapper_head previous plan_active jobs taps)"
  define rest where "rest = CONTINUATION_REQUEST_CLOSE @ newline @ CONTINUATION_TASK_OPEN @ newline @
    (case or_else action (Some request) of Some t \<Rightarrow> t | None \<Rightarrow> CONTINUATION_FALLBACK_INTENT) @ newline @
    CONTINUATION_TASK_CLOSE @ newline @ ''</continuation>''"
  let ?text = "build_continuation_content previous (Some request) action plan_active jobs taps"
  have nl: "newline = [CHR 0x0A]" by (rule newline_literal)
  have "wrapper_head previous plan_active jobs taps \<noteq> []"
    using wrapper_head_start [of previous plan_active jobs taps] by (auto simp: CONTINUATION_TAG_OPEN_def)
  then have head: "wrapper_head previous plan_active jobs taps = head @ newline"
    using append_butlast_last_id wrapper_head_newline by (metis head_def nl)
  have whole: "?text = head @ (newline @ CONTINUATION_REQUEST_OPEN) @ request @ rest"
    by (simp add: build_continuation_content_def Let_def head rest_def)
  have tag: "trim_start ?text = ?text" "starts_with ?text CONTINUATION_TAG_OPEN"
  proof -
    obtain r2 where "?text = CONTINUATION_TAG_OPEN @ r2"
      using wrapper_head_start [of previous plan_active jobs taps] by (auto simp: build_continuation_content_def Let_def)
    then show "trim_start ?text = ?text" "starts_with ?text CONTINUATION_TAG_OPEN"
      by (simp_all add: CONTINUATION_TAG_OPEN_def starts_with_def)
  qed
  have "find_str (newline @ CONTINUATION_REQUEST_OPEN) ?text = Some (length head)"
    using assms(1) find_str_after [of "CHR 0x0A" CONTINUATION_REQUEST_OPEN head "request @ rest"]
    by (simp add: whole nl CONTINUATION_REQUEST_OPEN_def head_def)
  then have opened: "find_block_open ?text CONTINUATION_REQUEST_OPEN = Some (Suc (length head))"
    by (simp add: find_block_open_def)
  have start: "drop (Suc (length head + length CONTINUATION_REQUEST_OPEN)) ?text = request @ rest"
    by (simp add: whole nl CONTINUATION_REQUEST_OPEN_def)
  have "find_str CONTINUATION_REQUEST_CLOSE (request @ rest) = Some (length request)"
    using assms(2) find_str_after [of "CHR ''<''" "''/request>''" request "drop 10 rest"]
    by (simp add: CONTINUATION_REQUEST_CLOSE_def rest_def)
  moreover have "trim request \<noteq> []" using assms(3) by (simp add: is_blank_def)
  ultimately show ?thesis
    using assms(4) unfolding continuation_task_def continuation_tags_def Let_def tag(1)
    by (simp add: tag(2) opened start)
qed

lemma continuation_request_roundtrip_witness:
  "continuation_task (build_continuation_content None (Some ''fix it'') (Some ''run tests'') False [] []) = Some ''fix it''"
proof -
  have "find_str (newline @ CONTINUATION_REQUEST_OPEN) (butlast (wrapper_head None False [] [])) = None" by code_simp
  then have h: "\<not> sublist (newline @ CONTINUATION_REQUEST_OPEN) (butlast (wrapper_head None False [] []))"
    unfolding find_str_None .
  have "find_str CONTINUATION_REQUEST_CLOSE ''fix it'' = None" by code_simp
  then have r: "\<not> sublist CONTINUATION_REQUEST_CLOSE ''fix it''" unfolding find_str_None .
  have t: "trim ''fix it'' = ''fix it''" by code_simp
  from continuation_request_roundtrip [OF h r, of "Some ''run tests''"] t show ?thesis
    by (simp add: is_blank_def CONTINUATION_FALLBACK_INTENT_def)
qed

text \<open>
  The first condition is needed: a previous assistant response that quotes a \<open>request\<close> block
  takes the place of the user's request; and when no assistant message precedes a fresh
  request, the preserving fold takes the request itself.
\<close>

definition quoting_response :: string where
  "quoting_response = ''see'' @ newline @ ''<request>old</request>''"

definition silent_talk :: "unit message list" where
  "silent_talk = a_message ''system'' ''S'' # map (a_message ''user'') [''a'', ''b'', ''c'', ''d'', ''e'']"

theorem compaction_gaps:
  "continuation_task (build_continuation_content (Some quoting_response) (Some ''fix it'') None False [] []) = Some ''old'' \<and>
   find_compression_range_preserving_turn silent_talk False True = (0, length silent_talk - 1)"
proof (rule conjI)
  show "continuation_task (build_continuation_content (Some quoting_response) (Some ''fix it'') None False [] []) = Some ''old''"
    by code_simp
  show "find_compression_range_preserving_turn silent_talk False True = (0, length silent_talk - 1)" by code_simp
qed

end
