(* ===== verification/Inbox.thy ===== *)
theory Inbox
  imports RustStr
begin

text \<open>
  The session inbox (\<open>src/session/inbox.rs\<close>): one queue of injected messages per session.
  The registry is a map from session ids, absent as long as the session was not initialised;
  \<open>cur\<close> is the session of the calling task. A \<open>Notify\<close> keeps one wake-up permit. A monitor's
  deliveries are coalesced into its pending message, whose size is bounded. The locale \<open>fifo\<close>
  is what producers and the session loop rely on.
\<close>

section \<open>Messages\<close>

datatype inbox_source =
    Schedule string
  | Monitor string string
  | BackgroundAgent string
  | BackgroundJob string
  | TapRun string string
  | Skill string
  | SkillValidator string
  | Inject
  | Webhook string
  | GuardrailHook string
  | GuardValidator string

record inbox_message =
  im_source :: inbox_source
  im_content :: string

fun display_label :: "inbox_source \<Rightarrow> string" where
  "display_label (Schedule i) = ''schedule '' @ i"
| "display_label (Monitor i d) = ''monitor '' @ i @ '' ('' @ d @ '')''"
| "display_label (BackgroundAgent n) = ''agent '' @ n"
| "display_label (BackgroundJob i) = ''job '' @ i"
| "display_label (TapRun i r) = ''tap-run '' @ i @ '' ('' @ r @ '')''"
| "display_label (Skill n) = ''skill '' @ n"
| "display_label (SkillValidator n) = ''skill-validator '' @ n"
| "display_label Inject = ''inject''"
| "display_label (Webhook h) = ''webhook '' @ h"
| "display_label (GuardrailHook s) = ''guardrail-hook '' @ s"
| "display_label (GuardValidator n) = ''validator '' @ n"

fun display_kind :: "inbox_source \<Rightarrow> string" where
  "display_kind (Schedule _) = ''schedule''"
| "display_kind (Monitor _ _) = ''monitor''"
| "display_kind (BackgroundAgent _) = ''background_agent''"
| "display_kind (BackgroundJob _) = ''background_job''"
| "display_kind (TapRun _ _) = ''tap_run''"
| "display_kind (Skill _) = ''skill''"
| "display_kind (SkillValidator _) = ''skill_validator''"
| "display_kind Inject = ''inject''"
| "display_kind (Webhook _) = ''webhook''"
| "display_kind (GuardrailHook _) = ''guardrail_hook''"
| "display_kind (GuardValidator _) = ''guardrail_validator''"

fun display_icon :: "inbox_source \<Rightarrow> string" where
  "display_icon (Schedule _) = bytes [0xE2, 0x8F, 0xB0]"
| "display_icon (Monitor _ _) = bytes [0xF0, 0x9F, 0x93, 0xA1]"
| "display_icon (BackgroundAgent _) = bytes [0xF0, 0x9F, 0xA4, 0x96]"
| "display_icon (BackgroundJob _) = bytes [0xF0, 0x9F, 0x8F, 0x97, 0xEF, 0xB8, 0x8F]"
| "display_icon (TapRun _ _) = bytes [0xF0, 0x9F, 0x9A, 0xB0]"
| "display_icon (Skill _) = bytes [0xF0, 0x9F, 0xA7, 0xA9]"
| "display_icon (SkillValidator _) = bytes [0xE2, 0x9A, 0xA0, 0xEF, 0xB8, 0x8F]"
| "display_icon Inject = bytes [0xF0, 0x9F, 0x92, 0xAC]"
| "display_icon (Webhook _) = bytes [0xF0, 0x9F, 0xAA, 0x9D]"
| "display_icon (GuardrailHook _) = bytes [0xF0, 0x9F, 0x9B, 0xA1, 0xEF, 0xB8, 0x8F]"
| "display_icon (GuardValidator _) = bytes [0xF0, 0x9F, 0x9B, 0xA1, 0xEF, 0xB8, 0x8F]"

fun is_system_managed :: "inbox_source \<Rightarrow> bool" where
  "is_system_managed Inject = False"
| "is_system_managed (Webhook _) = False"
| "is_system_managed _ = True"

section \<open>The registry\<close>

record inbox_queue =
  iq_messages :: "inbox_message list"
  iq_notified :: bool

type_synonym inbox = "string \<rightharpoonup> inbox_queue"

definition init_inbox_for_session :: "string option \<Rightarrow> inbox \<Rightarrow> inbox" where
  "init_inbox_for_session cur ib =
     (case cur of
        None \<Rightarrow> ib
      | Some s \<Rightarrow> (case ib s of Some _ \<Rightarrow> ib | None \<Rightarrow> ib(s \<mapsto> \<lparr>iq_messages = [], iq_notified = False\<rparr>)))"

definition clear_inbox_for_session :: "string \<Rightarrow> inbox \<Rightarrow> inbox" where
  "clear_inbox_for_session s ib = ib(s := None)"

definition push_inbox_message_for_session :: "string \<Rightarrow> inbox_message \<Rightarrow> inbox \<Rightarrow> inbox" where
  "push_inbox_message_for_session s m ib =
     (case ib s of
        None \<Rightarrow> ib
      | Some q \<Rightarrow> ib(s \<mapsto> \<lparr>iq_messages = iq_messages q @ [m], iq_notified = True\<rparr>))"

definition push_inbox_message :: "string option \<Rightarrow> inbox_message \<Rightarrow> inbox \<Rightarrow> inbox" where
  "push_inbox_message cur m ib =
     (case cur of None \<Rightarrow> ib | Some s \<Rightarrow> push_inbox_message_for_session s m ib)"

definition try_pop_inbox_message :: "string option \<Rightarrow> inbox \<Rightarrow> inbox_message option \<times> inbox" where
  "try_pop_inbox_message cur ib =
     (case cur of
        None \<Rightarrow> (None, ib)
      | Some s \<Rightarrow> (case ib s of
          None \<Rightarrow> (None, ib)
        | Some q \<Rightarrow> (case iq_messages q of
            [] \<Rightarrow> (None, ib)
          | m # ms \<Rightarrow> (Some m, ib(s \<mapsto> q\<lparr>iq_messages := ms\<rparr>)))))"

definition has_inbox_messages :: "string option \<Rightarrow> inbox \<Rightarrow> bool" where
  "has_inbox_messages cur ib =
     (case cur of
        None \<Rightarrow> False
      | Some s \<Rightarrow> (case ib s of None \<Rightarrow> False | Some q \<Rightarrow> iq_messages q \<noteq> []))"

definition preview_line :: "string \<Rightarrow> string" where
  "preview_line content = take_chars 80 (case str_lines content of [] \<Rightarrow> [] | l # _ \<Rightarrow> l)"

definition with_preview :: "string \<Rightarrow> string \<Rightarrow> string" where
  "with_preview source content =
     (let preview = preview_line content;
          ellipsis = (if length preview < length content then bytes [0xE2, 0x80, 0xA6] else [])
      in source @ '': '' @ preview @ ellipsis)"

fun source_preview :: "inbox_source \<Rightarrow> string \<Rightarrow> string" where
  "source_preview (Schedule _) content = with_preview ''scheduled message'' content"
| "source_preview (Monitor i d) content = ''monitor '' @ i @ '' ('' @ d @ '')''"
| "source_preview (BackgroundAgent n) content = ''background agent '' @ [CHR 0x27] @ n @ [CHR 0x27]"
| "source_preview (BackgroundJob i) content = ''background job '' @ i"
| "source_preview (TapRun i r) content = ''tap-run '' @ i @ '' ('' @ r @ '')''"
| "source_preview (Skill n) content = ''skill '' @ [CHR 0x27] @ n @ [CHR 0x27]"
| "source_preview (SkillValidator n) content = ''skill validator '' @ [CHR 0x27] @ n @ [CHR 0x27] @ '' failed''"
| "source_preview Inject content = with_preview ''external inject'' content"
| "source_preview (Webhook h) content = ''webhook '' @ [CHR 0x27] @ h @ [CHR 0x27]"
| "source_preview (GuardrailHook s) content = ''guardrail hook '' @ [CHR 0x27] @ s @ [CHR 0x27]"
| "source_preview (GuardValidator n) content = ''validator '' @ [CHR 0x27] @ n @ [CHR 0x27] @ '' failed''"

definition peek_inbox_preview :: "string \<Rightarrow> inbox \<Rightarrow> string option" where
  "peek_inbox_preview s ib =
     (case ib s of
        None \<Rightarrow> None
      | Some q \<Rightarrow> (case iq_messages q of
          [] \<Rightarrow> None | m # _ \<Rightarrow> Some (source_preview (im_source m) (im_content m))))"

section \<open>Monitor deliveries\<close>

definition delivery_limit :: "nat \<Rightarrow> nat" where
  "delivery_limit max_batch_bytes = min usize_max (max_batch_bytes + 2048)"

definition OMITTED_MARKER :: string where
  "OMITTED_MARKER = newline @ ''[additional monitor output omitted while this delivery was pending]''"

definition TRUNCATED_MARKER :: string where
  "TRUNCATED_MARKER = newline @ ''[monitor delivery truncated to its configured pending-message limit]''"

definition append_monitor_content :: "string \<Rightarrow> nat \<Rightarrow> string \<Rightarrow> string" where
  "append_monitor_content addition max_batch_bytes existing =
     (let limit = delivery_limit max_batch_bytes; separator = newline @ newline
      in if ends_with existing OMITTED_MARKER then existing
         else if length existing + length separator + length addition \<le> limit
         then existing @ separator @ addition
         else let content_limit = limit - length OMITTED_MARKER
              in if length existing < content_limit
                 then let separator = (if length separator \<le> content_limit - length existing then separator else []);
                          existing = existing @ separator;
                          remaining = content_limit - length existing;
                          n = floor_boundary addition (min remaining (length addition))
                      in existing @ take n addition @ OMITTED_MARKER
                 else take (floor_boundary existing (min content_limit (length existing))) existing @ OMITTED_MARKER)"

definition bound_monitor_content :: "nat \<Rightarrow> string \<Rightarrow> string" where
  "bound_monitor_content max_batch_bytes content =
     (let limit = delivery_limit max_batch_bytes
      in if length content \<le> limit then content
         else take (floor_boundary content (min (limit - length TRUNCATED_MARKER) (length content))) content
                @ TRUNCATED_MARKER)"

definition from_monitor :: "string \<Rightarrow> inbox_message \<Rightarrow> bool" where
  "from_monitor i m = (case im_source m of Monitor j _ \<Rightarrow> j = i | _ \<Rightarrow> False)"

definition deliver_monitor ::
  "string \<Rightarrow> string \<Rightarrow> string \<Rightarrow> nat \<Rightarrow> inbox_message list \<Rightarrow> inbox_message list" where
  "deliver_monitor i description content max_batch_bytes ms =
     (case position (from_monitor i) ms of
        Some k \<Rightarrow> ms[k := (ms ! k)\<lparr>im_content :=
          append_monitor_content content max_batch_bytes (im_content (ms ! k))\<rparr>]
      | None \<Rightarrow> ms @ [\<lparr>im_source = Monitor i description,
          im_content = bound_monitor_content max_batch_bytes content\<rparr>])"

definition push_monitor_message_for_session ::
  "string \<Rightarrow> string \<Rightarrow> string \<Rightarrow> string \<Rightarrow> nat \<Rightarrow> inbox \<Rightarrow> inbox" where
  "push_monitor_message_for_session s i description content max_batch_bytes ib =
     (case ib s of
        None \<Rightarrow> ib
      | Some q \<Rightarrow> ib(s \<mapsto>
          \<lparr>iq_messages = deliver_monitor i description content max_batch_bytes (iq_messages q),
           iq_notified = True\<rparr>))"

section \<open>The queue as its clients see it\<close>

text \<open>
  A queue in a usable state \<open>inv\<close>: what is pushed comes out in order. \<open>pop\<close> removes the first
  of the \<open>items\<close>.
\<close>

locale fifo =
  fixes inv :: "'q \<Rightarrow> bool" and items :: "'q \<Rightarrow> 'm list"
    and push :: "'m \<Rightarrow> 'q \<Rightarrow> 'q" and pop :: "'q \<Rightarrow> 'm option \<times> 'q"
  assumes inv_push: "inv q \<Longrightarrow> inv (push m q)"
    and inv_pop: "inv q \<Longrightarrow> inv (snd (pop q))"
    and items_push: "inv q \<Longrightarrow> items (push m q) = items q @ [m]"
    and items_pop: "inv q \<Longrightarrow> items (snd (pop q)) = drop 1 (items q)"
    and fst_pop: "inv q \<Longrightarrow> fst (pop q) = (case items q of [] \<Rightarrow> None | m # _ \<Rightarrow> Some m)"
begin

lemma push_all: "inv q \<Longrightarrow> inv (fold push ms q) \<and> items (fold push ms q) = items q @ ms"
  by (induction ms arbitrary: q) (simp_all add: inv_push items_push)

lemma popped: "inv q \<Longrightarrow> inv (((\<lambda>q. snd (pop q)) ^^ n) q) \<and> items (((\<lambda>q. snd (pop q)) ^^ n) q) = drop n (items q)"
  by (induction n arbitrary: q) (simp_all add: funpow_swap1 inv_pop items_pop drop_drop)

lemma nth_pop:
  assumes "inv q"
  shows "fst (pop (((\<lambda>q. snd (pop q)) ^^ n) q)) = (if n < length (items q) then Some (items q ! n) else None)"
  using popped [OF assms, of n] fst_pop [of "((\<lambda>q. snd (pop q)) ^^ n) q"]
  by (cases "n < length (items q)") (auto simp: Cons_nth_drop_Suc [symmetric])

end

definition live :: "string \<Rightarrow> inbox \<Rightarrow> bool" where
  "live s ib \<longleftrightarrow> ib s \<noteq> None"

definition pending :: "string \<Rightarrow> inbox \<Rightarrow> inbox_message list" where
  "pending s ib = (case ib s of Some q \<Rightarrow> iq_messages q | None \<Rightarrow> [])"

interpretation mailbox: fifo "live s" "pending s" "push_inbox_message (Some s)" "try_pop_inbox_message (Some s)"
  for s
  by unfold_locales
    (auto simp: live_def pending_def push_inbox_message_def push_inbox_message_for_session_def
      try_pop_inbox_message_def split: option.splits list.splits)

text \<open>No operation on one session touches the queue of another.\<close>

lemma other_session [simp]:
  "s \<noteq> t \<Longrightarrow> push_inbox_message_for_session s m ib t = ib t"
  "s \<noteq> t \<Longrightarrow> push_inbox_message (Some s) m ib t = ib t"
  "s \<noteq> t \<Longrightarrow> push_monitor_message_for_session s i d c n ib t = ib t"
  "s \<noteq> t \<Longrightarrow> snd (try_pop_inbox_message (Some s) ib) t = ib t"
  "s \<noteq> t \<Longrightarrow> init_inbox_for_session (Some s) ib t = ib t"
  "s \<noteq> t \<Longrightarrow> clear_inbox_for_session s ib t = ib t"
  by (auto simp: push_inbox_message_for_session_def push_inbox_message_def push_monitor_message_for_session_def
      try_pop_inbox_message_def init_inbox_for_session_def clear_inbox_for_session_def
      split: option.splits list.splits)

lemma init_keeps_live [simp]: "live s ib \<Longrightarrow> init_inbox_for_session (Some s) ib = ib"
  by (auto simp: live_def init_inbox_for_session_def)

section \<open>Bounded monitor deliveries\<close>

lemma marker_lengths: "length OMITTED_MARKER = 68" "length TRUNCATED_MARKER = 69"
  by (code_simp, code_simp)

lemma marker_fits: "length OMITTED_MARKER \<le> delivery_limit n" "length TRUNCATED_MARKER \<le> delivery_limit n"
  by (simp_all add: marker_lengths delivery_limit_def usize_max_def)

lemma length_append_monitor:
  assumes "length existing \<le> delivery_limit n"
  shows "length (append_monitor_content addition n existing) \<le> delivery_limit n"
proof -
  let ?limit = "delivery_limit n" and ?m = "length OMITTED_MARKER"
  note fits = marker_fits(1) [of n]
  show ?thesis
  proof (cases "ends_with existing OMITTED_MARKER \<or> length existing + length (newline @ newline) + length addition \<le> ?limit")
    case True
    with assms show ?thesis by (auto simp: append_monitor_content_def Let_def)
  next
    case False
    show ?thesis
    proof (cases "length existing < ?limit - ?m")
      case True
      define sep where "sep = (if length (newline @ newline) \<le> ?limit - ?m - length existing then newline @ newline else [])"
      define k where "k = floor_boundary addition (min (?limit - ?m - length (existing @ sep)) (length addition))"
      have "append_monitor_content addition n existing = (existing @ sep) @ take k addition @ OMITTED_MARKER"
        using False True by (simp add: append_monitor_content_def Let_def sep_def k_def)
      moreover have "k \<le> ?limit - ?m - length (existing @ sep)"
        unfolding k_def by (rule order_trans [OF floor_boundary_le]) simp
      moreover have "length (existing @ sep) \<le> ?limit - ?m" using True by (auto simp: sep_def)
      ultimately show ?thesis using fits by simp
    next
      case long: False
      define k where "k = floor_boundary existing (min (?limit - ?m) (length existing))"
      have "append_monitor_content addition n existing = take k existing @ OMITTED_MARKER"
        using False long by (simp add: append_monitor_content_def Let_def k_def)
      moreover have "k \<le> ?limit - ?m"
        unfolding k_def by (rule order_trans [OF floor_boundary_le]) simp
      ultimately show ?thesis using fits by simp
    qed
  qed
qed

lemma length_bound_monitor: "length (bound_monitor_content n content) \<le> delivery_limit n"
proof (cases "length content \<le> delivery_limit n")
  case True
  then show ?thesis by (simp add: bound_monitor_content_def)
next
  case False
  define k where "k = floor_boundary content (min (delivery_limit n - length TRUNCATED_MARKER) (length content))"
  have "bound_monitor_content n content = take k content @ TRUNCATED_MARKER"
    using False by (simp add: bound_monitor_content_def Let_def k_def)
  moreover have "k \<le> delivery_limit n - length TRUNCATED_MARKER"
    unfolding k_def by (rule order_trans [OF floor_boundary_le]) simp
  ultimately show ?thesis using marker_fits(2) [of n] by simp
qed

text \<open>The messages of one monitor in a queue, and the bound on each of them.\<close>

definition monitor_bounded :: "(string \<Rightarrow> nat) \<Rightarrow> inbox_message list \<Rightarrow> bool" where
  "monitor_bounded limit ms \<longleftrightarrow>
     (\<forall>i. length (filter (from_monitor i) ms) \<le> 1 \<and>
       (\<forall>m\<in>set ms. from_monitor i m \<longrightarrow> length (im_content m) \<le> delivery_limit (limit i)))"

lemma monitor_bounded_Nil [simp]: "monitor_bounded limit []"
  by (simp add: monitor_bounded_def)

lemma monitor_bounded_tail: "monitor_bounded limit (m # ms) \<Longrightarrow> monitor_bounded limit ms"
proof -
  assume h: "monitor_bounded limit (m # ms)"
  have "length (filter (from_monitor i) ms) \<le> length (filter (from_monitor i) (m # ms))" for i by simp
  with h show ?thesis by (auto simp: monitor_bounded_def simp del: filter.simps intro: le_trans)
qed

lemma monitor_bounded_other:
  "monitor_bounded limit ms \<Longrightarrow> (\<And>i. \<not> from_monitor i m) \<Longrightarrow> monitor_bounded limit (ms @ [m])"
  by (simp add: monitor_bounded_def)

lemma from_monitor_inj: "from_monitor i m \<Longrightarrow> from_monitor j m \<Longrightarrow> i = j"
  by (auto simp: from_monitor_def split: inbox_source.splits)

lemma monitor_bounded_deliver:
  assumes "monitor_bounded limit ms"
  shows "monitor_bounded limit (deliver_monitor i d c (limit i) ms)"
proof (cases "position (from_monitor i) ms")
  case None
  then have fresh: "\<forall>m\<in>set ms. \<not> from_monitor i m" by (simp add: position_None)
  have new: "from_monitor j \<lparr>im_source = Monitor i d, im_content = x\<rparr> \<longleftrightarrow> j = i" for j x
    by (auto simp: from_monitor_def)
  from assms fresh None show ?thesis
    by (auto simp: deliver_monitor_def monitor_bounded_def new length_bound_monitor)
next
  case (Some k)
  then have k: "k < length ms" "from_monitor i (ms ! k)" using position_Some by fast+
  define m where "m = (ms ! k)\<lparr>im_content := append_monitor_content c (limit i) (im_content (ms ! k))\<rparr>"
  have same: "from_monitor j m = from_monitor j (ms ! k)" for j
    by (simp add: m_def from_monitor_def)
  have "length (im_content (ms ! k)) \<le> delivery_limit (limit i)"
    using assms k by (auto simp: monitor_bounded_def)
  then have "length (im_content m) \<le> delivery_limit (limit i)"
    by (simp add: m_def length_append_monitor)
  then have short: "from_monitor j m \<Longrightarrow> length (im_content m) \<le> delivery_limit (limit j)" for j
    using from_monitor_inj [of i m j] k(2) same by auto
  have "length (filter (from_monitor j) (ms[k := m])) = length (filter (from_monitor j) ms)" for j
    using count_update [OF k(1), of "from_monitor j" m] same by simp
  moreover have "deliver_monitor i d c (limit i) ms = ms[k := m]"
    using Some by (simp add: deliver_monitor_def m_def)
  ultimately show ?thesis
    using assms short set_update_subset_insert [of ms k m] by (fastforce simp: monitor_bounded_def)
qed

end
