(* ===== verification/ScheduleStore.thy ===== *)
theory ScheduleStore
  imports Inbox "HOL-Library.Multiset"
begin

text \<open>
  The queue of scheduled messages of a session (\<open>src/mcp/orchestration/schedule/storage.rs\<close>).
  A \<open>DateTime<Local>\<close> is its instant, an integer of nanoseconds, compared as chrono compares
  it; which instants it can represent is the argument \<open>rep\<close>. Every \<open>Local::now()\<close> of the source is an argument
  of the operation, in the order of the reads. \<open>i64\<close> seconds are integers, their arithmetic checked as in the
  source. The locale \<open>due_queue\<close> is what the firing loops need of the store.
\<close>

section \<open>Entries\<close>

type_synonym datetime = int

definition NANOS :: int where
  "NANOS = 1000000000"

definition I64_MAX :: int where
  "I64_MAX = 2 ^ 63 - 1"

datatype trigger_mode = Time | Idle

record schedule_entry =
  sc_id :: string
  sc_description :: string
  sc_message :: string
  sc_trigger_at :: datetime
  sc_created_at :: datetime
  sc_interval_secs :: "int option"
  sc_trigger_mode :: trigger_mode

text \<open>The fresh id (eight characters of a UUID) and the clock are arguments.\<close>

definition new_entry ::
  "string \<Rightarrow> datetime \<Rightarrow> string \<Rightarrow> string \<Rightarrow> datetime \<Rightarrow> int option \<Rightarrow> schedule_entry" where
  "new_entry new_id now description message trigger_at interval_secs =
     \<lparr>sc_id = new_id, sc_description = description, sc_message = message, sc_trigger_at = trigger_at,
      sc_created_at = now, sc_interval_secs = interval_secs, sc_trigger_mode = Time\<rparr>"

definition new_idle :: "string \<Rightarrow> datetime \<Rightarrow> datetime \<Rightarrow> string \<Rightarrow> string \<Rightarrow> bool \<Rightarrow> schedule_entry" where
  "new_idle new_id now now' description message repeating =
     \<lparr>sc_id = new_id, sc_description = description, sc_message = message, sc_trigger_at = now,
      sc_created_at = now', sc_interval_secs = (if repeating then Some 0 else None), sc_trigger_mode = Idle\<rparr>"

text \<open>
  \<open>Duration::seconds\<close> panics beyond \<open>i64::MAX\<close> milliseconds, \<open>now + interval\<close> beyond the last
  instant; \<open>checked_add_signed\<close> returns nothing there. A panic is \<open>None\<close>.
\<close>

definition duration_seconds :: "int \<Rightarrow> int option" where
  "duration_seconds secs = (if \<bar>secs\<bar> \<le> I64_MAX div 1000 then Some (secs * NANOS) else None)"

definition checked_add_signed :: "(datetime \<Rightarrow> bool) \<Rightarrow> datetime \<Rightarrow> int \<Rightarrow> datetime option" where
  "checked_add_signed rep t d = (if rep (t + d) then Some (t + d) else None)"

definition next_trigger :: "(datetime \<Rightarrow> bool) \<Rightarrow> datetime \<Rightarrow> schedule_entry \<Rightarrow> datetime option" where
  "next_trigger rep now e =
     (case sc_trigger_mode e of
        Idle \<Rightarrow> Some now
      | Time \<Rightarrow> Option.bind (sc_interval_secs e) (\<lambda>secs.
          Option.bind (duration_seconds secs) (\<lambda>interval.
            case checked_add_signed rep (sc_trigger_at e) interval of
              Some t \<Rightarrow> if now < t then Some t else checked_add_signed rep now interval
            | None \<Rightarrow> checked_add_signed rep now interval)))"

definition reschedule :: "(datetime \<Rightarrow> bool) \<Rightarrow> datetime \<Rightarrow> datetime \<Rightarrow> schedule_entry \<Rightarrow> schedule_entry option" where
  "reschedule rep now now' e =
     map_option (\<lambda>t. e\<lparr>sc_trigger_at := t, sc_created_at := now'\<rparr>) (next_trigger rep now e)"

text \<open>\<open>num_seconds\<close> and \<open>num_milliseconds\<close> truncate towards zero.\<close>

definition quot :: "int \<Rightarrow> int \<Rightarrow> int" where
  "quot a b = (if 0 \<le> a then a div b else - (- a div b))"

definition num_seconds :: "int \<Rightarrow> int" where
  "num_seconds d = quot d NANOS"

definition num_milliseconds :: "int \<Rightarrow> int" where
  "num_milliseconds d = quot d 1000000"

definition show_pos :: "int \<Rightarrow> string" where
  "show_pos n = show_nat (nat n)"

definition countdown :: "datetime \<Rightarrow> schedule_entry \<Rightarrow> string" where
  "countdown now e =
     (if sc_trigger_mode e = Idle then ''when idle''
      else let total_secs = num_seconds (sc_trigger_at e - now)
           in if total_secs \<le> 0 then ''now''
              else let hours = total_secs div 3600; mins = total_secs mod 3600 div 60; secs = total_secs mod 60
                   in if 0 < hours then ''in '' @ show_pos hours @ ''h '' @ show_pos mins @ ''m''
                      else if 0 < mins then ''in '' @ show_pos mins @ ''m '' @ show_pos secs @ ''s''
                      else ''in '' @ show_pos secs @ ''s'')"

section \<open>The store\<close>

record schedule_store =
  ss_entries :: "schedule_entry list"

definition empty_store :: schedule_store where
  "empty_store = \<lparr>ss_entries = []\<rparr>"

text \<open>\<open>Vec::sort_by_key\<close> is stable, as is \<open>sort_key\<close>.\<close>

definition store_add :: "schedule_entry \<Rightarrow> schedule_store \<Rightarrow> schedule_store" where
  "store_add e st = st\<lparr>ss_entries := sort_key sc_trigger_at (ss_entries st @ [e])\<rparr>"

definition store_remove :: "string \<Rightarrow> schedule_store \<Rightarrow> bool \<times> schedule_store" where
  "store_remove i st =
     (let es = filter (\<lambda>e. sc_id e \<noteq> i) (ss_entries st)
      in (length es < length (ss_entries st), st\<lparr>ss_entries := es\<rparr>))"

definition edit_entry ::
  "string option \<Rightarrow> string option \<Rightarrow> datetime option \<Rightarrow> int option option \<Rightarrow> schedule_entry \<Rightarrow> schedule_entry" where
  "edit_entry description message trigger_at interval_secs e =
     (let e = (case description of Some d \<Rightarrow> e\<lparr>sc_description := d\<rparr> | None \<Rightarrow> e);
          e = (case message of Some m \<Rightarrow> e\<lparr>sc_message := m\<rparr> | None \<Rightarrow> e);
          e = (case trigger_at of Some t \<Rightarrow> e\<lparr>sc_trigger_at := t\<rparr> | None \<Rightarrow> e)
      in case interval_secs of Some i \<Rightarrow> e\<lparr>sc_interval_secs := i\<rparr> | None \<Rightarrow> e)"

definition store_edit ::
  "string \<Rightarrow> string option \<Rightarrow> string option \<Rightarrow> datetime option \<Rightarrow> int option option \<Rightarrow>
     schedule_store \<Rightarrow> bool \<times> schedule_store" where
  "store_edit i description message trigger_at interval_secs st =
     (case position (\<lambda>e. sc_id e = i) (ss_entries st) of
        None \<Rightarrow> (False, st)
      | Some k \<Rightarrow>
          (True, st\<lparr>ss_entries := sort_key sc_trigger_at ((ss_entries st)[k :=
             edit_entry description message trigger_at interval_secs (ss_entries st ! k)])\<rparr>))"

definition pop_entry :: "(schedule_entry \<Rightarrow> bool) \<Rightarrow> schedule_store \<Rightarrow> (schedule_entry \<times> schedule_store) option" where
  "pop_entry p st =
     map_option (\<lambda>idx. (ss_entries st ! idx, st\<lparr>ss_entries := remove_at idx (ss_entries st)\<rparr>))
       (position p (ss_entries st))"

definition is_due :: "datetime \<Rightarrow> schedule_entry \<Rightarrow> bool" where
  "is_due now e \<longleftrightarrow> sc_trigger_mode e = Time \<and> sc_trigger_at e \<le> now"

definition is_idle :: "schedule_entry \<Rightarrow> bool" where
  "is_idle e \<longleftrightarrow> sc_trigger_mode e = Idle"

definition pop_due :: "datetime \<Rightarrow> schedule_store \<Rightarrow> (schedule_entry \<times> schedule_store) option" where
  "pop_due now st = pop_entry (is_due now) st"

definition pop_idle :: "schedule_store \<Rightarrow> (schedule_entry \<times> schedule_store) option" where
  "pop_idle st = pop_entry is_idle st"

definition has_idle :: "schedule_store \<Rightarrow> bool" where
  "has_idle st \<longleftrightarrow> (\<exists>e\<in>set (ss_entries st). is_idle e)"

text \<open>The milliseconds until the next timed entry fires.\<close>

definition next_due_duration :: "datetime \<Rightarrow> schedule_store \<Rightarrow> int option" where
  "next_due_duration now st =
     (case map sc_trigger_at (filter (\<lambda>e. sc_trigger_mode e = Time) (ss_entries st)) of
        [] \<Rightarrow> None
      | t # ts \<Rightarrow> let diff = num_milliseconds (foldl min t ts - now) in Some (if diff \<le> 0 then 0 else diff))"

definition store_is_empty :: "schedule_store \<Rightarrow> bool" where
  "store_is_empty st \<longleftrightarrow> ss_entries st = []"

definition seed_entries :: "schedule_entry list \<Rightarrow> schedule_store \<Rightarrow> schedule_store" where
  "seed_entries es st = st\<lparr>ss_entries := sort_key sc_trigger_at es\<rparr>"

section \<open>The store as the firing loops see it\<close>

text \<open>
  A bag of entries: \<open>pop\<close> takes out one that satisfies \<open>p\<close> unless there is none, \<open>add\<close> puts one
  in. Popping an entry and adding a lighter one, or none, makes the bag lighter.
\<close>

locale due_queue =
  fixes p :: "'e \<Rightarrow> bool" and bag :: "'q \<Rightarrow> 'e multiset"
    and add :: "'e \<Rightarrow> 'q \<Rightarrow> 'q" and pop :: "'q \<Rightarrow> ('e \<times> 'q) option"
  assumes bag_add: "bag (add e q) = add_mset e (bag q)"
    and pop_Some: "pop q = Some (e, q') \<Longrightarrow> p e \<and> bag q = add_mset e (bag q')"
    and pop_None: "pop q = None \<Longrightarrow> e \<in># bag q \<Longrightarrow> \<not> p e"
begin

definition weight :: "('e \<Rightarrow> nat) \<Rightarrow> 'q \<Rightarrow> nat" where
  "weight w q = (\<Sum>e\<in>#bag q. w e)"

lemma weight_pop: "pop q = Some (e, q') \<Longrightarrow> weight w q = w e + weight w q'"
  by (auto simp: weight_def dest: pop_Some)

lemma weight_add: "weight w (add e q) = w e + weight w q"
  by (simp add: weight_def bag_add)

lemma weight_replace: "pop q = Some (e, q') \<Longrightarrow> w e' < w e \<Longrightarrow> weight w (add e' q') < weight w q"
  by (simp add: weight_pop weight_add)

lemma pop_keeps: "pop q = Some (e, q') \<Longrightarrow> \<forall>x\<in>#bag q. P x \<Longrightarrow> P e \<and> (\<forall>x\<in>#bag q'. P x)"
  by (auto dest: pop_Some)

lemma add_keeps: "P e \<Longrightarrow> \<forall>x\<in>#bag q. P x \<Longrightarrow> \<forall>x\<in>#bag (add e q). P x"
  by (simp add: bag_add)

lemma pop_is_p: "pop q = Some (e, q') \<Longrightarrow> p e"
  by (auto dest: pop_Some)

end

definition bag_of :: "schedule_store \<Rightarrow> schedule_entry multiset" where
  "bag_of st = mset (ss_entries st)"

lemma set_bag_of [simp]: "set_mset (bag_of st) = set (ss_entries st)"
  by (simp add: bag_of_def)

lemma mset_remove_at: "i < length xs \<Longrightarrow> mset xs = add_mset (xs ! i) (mset (remove_at i xs))"
  by (induction xs arbitrary: i) (auto simp: nth_Cons' less_Suc_eq_0_disj)

lemma bag_add: "bag_of (store_add e st) = add_mset e (bag_of st)"
  by (simp add: bag_of_def store_add_def)

lemma pop_entry_Some:
  "pop_entry p st = Some (e, st') \<Longrightarrow> p e \<and> bag_of st = add_mset e (bag_of st')"
  by (auto simp: pop_entry_def bag_of_def dest!: position_Some intro: mset_remove_at)

lemma pop_entry_None: "pop_entry p st = None \<Longrightarrow> e \<in># bag_of st \<Longrightarrow> \<not> p e"
  by (auto simp: pop_entry_def position_None)

interpretation due: due_queue "is_due now" bag_of store_add "pop_due now" for now
  by unfold_locales (auto simp: bag_add pop_due_def dest: pop_entry_Some pop_entry_None)

interpretation idle: due_queue is_idle bag_of store_add pop_idle
  by unfold_locales (auto simp: bag_add pop_idle_def dest: pop_entry_Some pop_entry_None)

section \<open>The order of the entries\<close>

definition store_sorted :: "schedule_store \<Rightarrow> bool" where
  "store_sorted st \<longleftrightarrow> sorted (map sc_trigger_at (ss_entries st))"

lemma store_sorted_ops [simp]:
  "store_sorted empty_store"
  "store_sorted (store_add e st)"
  "store_sorted (seed_entries es st)"
  by (simp_all add: store_sorted_def empty_store_def store_add_def seed_entries_def)

lemma store_sorted_remove: "store_sorted st \<Longrightarrow> store_sorted (snd (store_remove i st))"
  by (simp add: store_sorted_def store_remove_def Let_def sorted_filter)

lemma store_sorted_edit: "store_sorted st \<Longrightarrow> store_sorted (snd (store_edit i d m t v st))"
  by (simp add: store_sorted_def store_edit_def split: option.splits)

lemma store_sorted_pop: "store_sorted st \<Longrightarrow> pop_entry p st = Some (e, st') \<Longrightarrow> store_sorted st'"
  by (auto simp: store_sorted_def pop_entry_def intro: sorted_remove_at)

lemma seed_sorted: "store_sorted st \<Longrightarrow> seed_entries (ss_entries st) st' = st"
  by (cases st; cases st') (simp add: store_sorted_def seed_entries_def sort_key_id_if_sorted)

end
