(* ===== verification/ScheduleTime.thy ===== *)
theory ScheduleTime
  imports ScheduleStore Json
begin

text \<open>
  Time expressions of the schedule tool (\<open>src/mcp/orchestration/schedule/storage.rs\<close>,
  \<open>format_interval\<close> of \<open>core.rs\<close>). What the source asks of chrono is the record \<open>calendar\<close>;
  the parsing around it is this file's own. An error carries no message text. Main results: an accepted
  duration is at most ten years, and printing an interval and parsing it again gives it back.
\<close>

section \<open>The calendar\<close>

text \<open>
  \<open>cal_rep\<close>: the representable instants; \<open>cal_today\<close>: \<open>date_naive\<close>; \<open>cal_succ\<close>: \<open>succ_opt\<close>;
  \<open>cal_hms\<close>: \<open>from_hms_opt\<close>; \<open>cal_local\<close>: \<open>and_time\<close>, \<open>and_local_timezone\<close> and \<open>single\<close>; \<open>cal_parse\<close>:
  \<open>NaiveDateTime::parse_from_str\<close> with the format first; \<open>cal_format\<close>: \<open>format\<close>.
\<close>

record calendar =
  cal_rep :: "datetime \<Rightarrow> bool"
  cal_today :: "datetime \<Rightarrow> int"
  cal_succ :: "int \<Rightarrow> int option"
  cal_hms :: "u32 \<Rightarrow> u32 \<Rightarrow> u32 \<Rightarrow> int option"
  cal_local :: "int \<Rightarrow> int \<Rightarrow> datetime option"
  cal_parse :: "string \<Rightarrow> string \<Rightarrow> (int \<times> int) option"
  cal_format :: "string \<Rightarrow> datetime \<Rightarrow> string"

datatype when_err =
    EmptyDuration | UnexpectedUnit | UnknownUnit | DurationTooLarge | TrailingNumber string
  | ZeroDuration | InvalidInt | InvalidTime u32 u32 u32 | AmbiguousTime | DateOverflow | BadDatetime
  | InstantOverflow

section \<open>Durations\<close>

definition MAX_DURATION_SECS :: int where
  "MAX_DURATION_SECS = 10 * 365 * 24 * 3600"

definition parse_i64 :: "string \<Rightarrow> when_err + int" where
  "parse_i64 s = (let n = digits_int s in if n \<le> I64_MAX then Inr n else Inl InvalidInt)"

definition checked_mul :: "int \<Rightarrow> int \<Rightarrow> int option" where
  "checked_mul a b = (if a * b \<le> I64_MAX then Some (a * b) else None)"

definition checked_add :: "int \<Rightarrow> int \<Rightarrow> int option" where
  "checked_add a b = (if a + b \<le> I64_MAX then Some (a + b) else None)"

definition unit_secs :: "char \<Rightarrow> int \<Rightarrow> when_err + int option" where
  "unit_secs ch n =
     (if ch = CHR ''h'' then Inr (checked_mul n 3600)
      else if ch = CHR ''m'' then Inr (checked_mul n 60)
      else if ch = CHR ''s'' then Inr (Some n)
      else Inl UnknownUnit)"

definition add_capped :: "int option \<Rightarrow> int \<Rightarrow> when_err + int" where
  "add_capped a acc =
     (case Option.bind a (checked_add acc) of
        Some t \<Rightarrow> if t \<le> MAX_DURATION_SECS then Inr t else Inl DurationTooLarge
      | None \<Rightarrow> Inl DurationTooLarge)"

fun duration_loop :: "string \<Rightarrow> int \<Rightarrow> string \<Rightarrow> when_err + int \<times> string" where
  "duration_loop [] acc num_buf = Inr (acc, num_buf)"
| "duration_loop (ch # cs) acc num_buf =
     (if is_digit ch then duration_loop cs acc (num_buf @ [ch])
      else if num_buf = [] then Inl UnexpectedUnit
      else rbind (parse_i64 num_buf) (\<lambda>n. rbind (unit_secs ch n) (\<lambda>add.
             rbind (add_capped add acc) (\<lambda>t. duration_loop cs t []))))"

definition parse_duration_secs :: "string \<Rightarrow> when_err + int" where
  "parse_duration_secs s =
     (let s = filter (\<lambda>c. c \<noteq> CHR 0x20) s
      in if s = [] then Inl EmptyDuration
         else rbind (duration_loop s 0 []) (\<lambda>(acc, num_buf).
                if num_buf \<noteq> [] then Inl (TrailingNumber num_buf) else Inr acc))"

definition parse_relative :: "calendar \<Rightarrow> datetime \<Rightarrow> string \<Rightarrow> when_err + datetime" where
  "parse_relative cal now s =
     rbind (parse_duration_secs s) (\<lambda>total_secs.
       if total_secs = 0 then Inl ZeroDuration
       else case checked_add_signed (cal_rep cal) now (total_secs * NANOS) of
              Some t \<Rightarrow> Inr t | None \<Rightarrow> Inl InstantOverflow)"

section \<open>Times of day and dates\<close>

fun split_on :: "char \<Rightarrow> string \<Rightarrow> string list" where
  "split_on c [] = [[]]"
| "split_on c (x # xs) =
     (case split_on c xs of
        [] \<Rightarrow> [[]]
      | p # ps \<Rightarrow> if x = c then [] # p # ps else (x # p) # ps)"

definition parse_u32 :: "string \<Rightarrow> when_err + u32" where
  "parse_u32 s = (case parse_unsigned 32 s of None \<Rightarrow> Inl InvalidInt | Some n \<Rightarrow> Inr (word_of_int n))"

definition strip_suffix :: "string \<Rightarrow> string \<Rightarrow> string option" where
  "strip_suffix p s = (if suffix p s then Some (take (length s - length p) s) else None)"

definition parse_naive_time :: "calendar \<Rightarrow> string \<Rightarrow> when_err + int" where
  "parse_naive_time cal s =
     (let (s, pm) = (case strip_suffix ''pm'' s of
                       Some stripped \<Rightarrow> (stripped, True)
                     | None \<Rightarrow> (case strip_suffix ''am'' s of Some stripped \<Rightarrow> (stripped, False) | None \<Rightarrow> (s, False)));
          parts = split_on (CHR '':'') s;
          part = (\<lambda>i. if i < length parts then parts ! i else ''0'')
      in rbind (parse_u32 (part 0)) (\<lambda>hour. rbind (parse_u32 (part 1)) (\<lambda>minute. rbind (parse_u32 (part 2)) (\<lambda>second.
           let hour = (if pm \<and> hour \<noteq> 12 then hour + 12 else if \<not> pm \<and> hour = 12 then 0 else hour)
           in case cal_hms cal hour minute second of
                Some t \<Rightarrow> Inr t | None \<Rightarrow> Inl (InvalidTime hour minute second)))))"

definition single :: "datetime option \<Rightarrow> when_err + datetime" where
  "single t = (case t of Some t \<Rightarrow> Inr t | None \<Rightarrow> Inl AmbiguousTime)"

definition parse_time_of_day :: "calendar \<Rightarrow> datetime \<Rightarrow> string \<Rightarrow> when_err + datetime" where
  "parse_time_of_day cal now s =
     rbind (parse_naive_time cal s) (\<lambda>naive_time.
     rbind (single (cal_local cal (cal_today cal now) naive_time)) (\<lambda>candidate.
       if candidate \<le> now
       then (case cal_succ cal (cal_today cal now) of
               None \<Rightarrow> Inl DateOverflow
             | Some tomorrow \<Rightarrow> single (cal_local cal tomorrow naive_time))
       else Inr candidate))"

definition parse_absolute_datetime :: "calendar \<Rightarrow> string \<Rightarrow> when_err + datetime" where
  "parse_absolute_datetime cal s =
     (case cal_parse cal ''%Y-%m-%d %H:%M:%S'' s of
        Some (d, t) \<Rightarrow> single (cal_local cal d t)
      | None \<Rightarrow> (case cal_parse cal ''%Y-%m-%d %H:%M'' s of
          Some (d, t) \<Rightarrow> single (cal_local cal d t)
        | None \<Rightarrow> Inl BadDatetime))"

definition parse_when :: "calendar \<Rightarrow> datetime \<Rightarrow> string \<Rightarrow> when_err + datetime" where
  "parse_when cal now input =
     (let s = to_lower (trim input)
      in if s = ''now'' then Inr now
         else if starts_with s ''in '' then parse_relative cal now (drop 3 s)
         else if CHR ''-'' \<in> set s \<and> CHR 0x20 \<in> set s then parse_absolute_datetime cal s
         else parse_time_of_day cal now s)"

section \<open>Printing an interval\<close>

definition rem :: "int \<Rightarrow> int \<Rightarrow> int" where
  "rem a b = a - b * quot a b"

definition show_int :: "int \<Rightarrow> string" where
  "show_int n = (if n < 0 then CHR ''-'' # show_nat (nat (- n)) else show_nat (nat n))"

definition format_interval :: "int \<Rightarrow> string" where
  "format_interval secs =
     (let parts = map (\<lambda>(v, u). show_int v @ [u])
            (filter (\<lambda>(v, u). 0 < v)
              [(quot secs 3600, CHR ''h''), (quot (rem secs 3600) 60, CHR ''m''), (rem secs 60, CHR ''s'')])
      in if parts = [] then show_int secs @ ''s'' else join '' '' parts)"

section \<open>Bounds and round trip\<close>

lemma add_capped_ok [ok_simps]:
  "add_capped a acc = Inr t \<longleftrightarrow> (\<exists>n. a = Some n \<and> t = acc + n \<and> t \<le> MAX_DURATION_SECS)"
  by (cases a) (auto simp: add_capped_def checked_add_def I64_MAX_def MAX_DURATION_SECS_def)

lemma parse_i64_ok [ok_simps]: "parse_i64 s = Inr n \<longleftrightarrow> n = digits_int s \<and> n \<le> I64_MAX"
  by (auto simp: parse_i64_def Let_def)

lemma unit_secs_nonneg: "unit_secs ch n = Inr (Some m) \<Longrightarrow> 0 \<le> n \<Longrightarrow> 0 \<le> m"
  by (auto simp: unit_secs_def checked_mul_def split: if_splits)

lemma duration_loop_bounds:
  "duration_loop cs acc buf = Inr (t, buf') \<Longrightarrow> 0 \<le> acc \<Longrightarrow> acc \<le> MAX_DURATION_SECS \<Longrightarrow>
     0 \<le> t \<and> t \<le> MAX_DURATION_SECS"
proof (induction cs acc buf rule: duration_loop.induct)
  case (1 acc buf)
  then show ?case by simp
next
  case (2 ch cs acc buf)
  show ?case
  proof (cases "is_digit ch")
    case True
    with 2 show ?thesis by simp
  next
    case False
    with "2.prems"(1) obtain n m t' where *: "parse_i64 buf = Inr n" "unit_secs ch n = Inr (Some m)"
      "add_capped (Some m) acc = Inr t'" "duration_loop cs t' [] = Inr (t, buf')" "buf \<noteq> []"
      by (auto simp: ok_simps split: if_splits)
    then have "0 \<le> m" using unit_secs_nonneg by (auto simp: ok_simps digits_int_nat)
    with * "2.prems"(2) have "0 \<le> t'" "t' \<le> MAX_DURATION_SECS" by (auto simp: ok_simps)
    with * False "2.IH"(2) show ?thesis by blast
  qed
qed

lemma parse_duration_ok:
  "parse_duration_secs s = Inr n \<longleftrightarrow>
     filter (\<lambda>c. c \<noteq> CHR 0x20) s \<noteq> [] \<and> duration_loop (filter (\<lambda>c. c \<noteq> CHR 0x20) s) 0 [] = Inr (n, [])"
  by (auto simp: parse_duration_secs_def Let_def ok_simps split: if_splits)

lemma parse_duration_bounds: "parse_duration_secs s = Inr n \<Longrightarrow> 0 \<le> n \<and> n \<le> MAX_DURATION_SECS"
  using duration_loop_bounds by (auto simp: parse_duration_ok MAX_DURATION_SECS_def)

lemma duration_loop_digits:
  "list_all is_digit ds \<Longrightarrow> duration_loop (ds @ rest) acc buf = duration_loop rest acc (buf @ ds)"
  by (induction ds arbitrary: buf) auto

definition unit_of :: "char \<Rightarrow> int" where
  "unit_of u = (if u = CHR ''h'' then 3600 else if u = CHR ''m'' then 60 else 1)"

definition hms_units :: "char set" where
  "hms_units = {CHR ''h'', CHR ''m'', CHR ''s''}"

lemma unit_secs_known:
  assumes "u \<in> hms_units" and "0 \<le> v" and "v * unit_of u \<le> MAX_DURATION_SECS"
  shows "unit_secs u v = Inr (Some (v * unit_of u))"
  using assms by (auto simp: hms_units_def unit_secs_def unit_of_def checked_mul_def I64_MAX_def MAX_DURATION_SECS_def)

lemma units_not_digits: "u \<in> hms_units \<Longrightarrow> \<not> is_digit u"
  by (auto simp: hms_units_def is_digit_def)

lemma show_int_digits: "0 \<le> v \<Longrightarrow> list_all is_digit (show_int v)"
  by (auto simp: show_int_def list_all_iff show_nat_digits)

lemma duration_loop_part:
  assumes "u \<in> hms_units" and "0 \<le> v" and "0 \<le> t" and "t + v * unit_of u \<le> MAX_DURATION_SECS"
  shows "duration_loop (show_int v @ u # rest) t [] = duration_loop rest (t + v * unit_of u) []"
proof -
  have "0 < unit_of u" by (simp add: unit_of_def)
  then have small: "v * unit_of u \<le> MAX_DURATION_SECS" "v \<le> v * unit_of u"
    using assms by (simp_all add: mult_le_cancel_left1)
  have "show_int v \<noteq> []" "digits_int (show_int v) = v" using assms(2) by (simp_all add: show_int_def digits_int_nat)
  moreover have "v \<le> I64_MAX" using small by (simp add: I64_MAX_def MAX_DURATION_SECS_def)
  ultimately show ?thesis
    using assms(4) small units_not_digits [OF assms(1)] unit_secs_known [OF assms(1,2) small(1)]
    by (simp add: duration_loop_digits show_int_digits [OF assms(2)] parse_i64_def add_capped_def
        checked_add_def I64_MAX_def MAX_DURATION_SECS_def)
qed

lemma duration_loop_parts:
  assumes "\<forall>(v, u)\<in>set ps. u \<in> hms_units \<and> 0 \<le> v" and "0 \<le> t"
    and "t + (\<Sum>(v, u)\<leftarrow>ps. v * unit_of u) \<le> MAX_DURATION_SECS"
  shows "duration_loop (concat (map (\<lambda>(v, u). show_int v @ [u]) ps)) t [] =
    Inr (t + (\<Sum>(v, u)\<leftarrow>ps. v * unit_of u), [])"
  using assms
proof (induction ps arbitrary: t)
  case Nil
  then show ?case by simp
next
  case (Cons p ps)
  obtain v u where p: "p = (v, u)" by (cases p)
  have pos: "0 \<le> (\<Sum>(v, u)\<leftarrow>ps. v * unit_of u)"
    using Cons.prems(1) by (intro sum_list_nonneg) (auto simp: unit_of_def)
  have "0 \<le> v * unit_of u" using Cons.prems(1) by (simp add: p unit_of_def)
  with Cons pos show ?case by (simp add: p duration_loop_part ac_simps)
qed

lemma no_spaces: "list_all is_digit ds \<Longrightarrow> u \<in> hms_units \<Longrightarrow>
  filter (\<lambda>c. c \<noteq> CHR 0x20) (ds @ [u]) = ds @ [u]"
  by (fastforce simp: hms_units_def list_all_iff is_digit_def intro: filter_True)

lemma filter_join: "filter P (join sep xs) = join (filter P sep) (map (filter P) xs)"
  by (induction sep xs rule: join.induct) auto

lemma join_Nil_sep: "join [] xs = concat xs"
  by (induction "[] :: string" xs rule: join.induct) auto

lemma hms_sum:
  "0 \<le> h \<Longrightarrow> 0 \<le> m \<Longrightarrow> 0 \<le> s \<Longrightarrow>
     (\<Sum>(v, u)\<leftarrow>filter (\<lambda>(v, u). 0 < v) [(h, CHR ''h''), (m, CHR ''m''), (s, CHR ''s'')]. v * unit_of u) =
       h * 3600 + m * 60 + s"
  by (auto simp: unit_of_def)

lemma format_interval_parts:
  assumes "0 < n"
  defines "ps \<equiv> filter (\<lambda>(v, u). 0 < v) [(n div 3600, CHR ''h''), (n mod 3600 div 60, CHR ''m''), (n mod 60, CHR ''s'')]"
  shows "format_interval n = join '' '' (map (\<lambda>(v, u). show_int v @ [u]) ps)"
    and "(\<Sum>(v, u)\<leftarrow>ps. v * unit_of u) = n" and "ps \<noteq> []"
    and "\<forall>(v, u)\<in>set ps. u \<in> hms_units \<and> 0 \<le> v"
proof -
  have q: "quot n 3600 = n div 3600" "rem n 3600 = n mod 3600" "rem n 60 = n mod 60"
      "quot (n mod 3600) 60 = n mod 3600 div 60"
    using assms(1) by (simp_all add: rem_def quot_def minus_mult_div_eq_mod)
  have mods: "n mod 3600 mod 60 = n mod 60" by (rule mod_mod_cancel) simp
  have whole: "n = n div 3600 * 3600 + n mod 3600 div 60 * 60 + n mod 60"
    using div_mult_mod_eq [of n 3600] div_mult_mod_eq [of "n mod 3600" 60] mods by linarith
  have parts: "0 \<le> n div 3600" "0 \<le> n mod 3600 div 60" "0 \<le> n mod 60"
    using assms(1) by (simp_all add: pos_imp_zdiv_nonneg_iff)
  have "(\<Sum>(v, u)\<leftarrow>ps. v * unit_of u) = n div 3600 * 3600 + n mod 3600 div 60 * 60 + n mod 60"
    unfolding ps_def by (rule hms_sum [OF parts])
  also note whole [symmetric]
  finally show sum: "(\<Sum>(v, u)\<leftarrow>ps. v * unit_of u) = n" .
  show "ps \<noteq> []" using sum assms(1) by auto
  then show "format_interval n = join '' '' (map (\<lambda>(v, u). show_int v @ [u]) ps)"
    by (simp add: format_interval_def q ps_def)
  show "\<forall>(v, u)\<in>set ps. u \<in> hms_units \<and> 0 \<le> v"
    by (auto simp: ps_def hms_units_def)
qed

lemma parse_format_interval:
  assumes "0 < n" and "n \<le> MAX_DURATION_SECS"
  shows "parse_duration_secs (format_interval n) = Inr n"
proof -
  define ps where "ps = filter (\<lambda>(v, u). 0 < v) [(n div 3600, CHR ''h''), (n mod 3600 div 60, CHR ''m''), (n mod 60, CHR ''s'')]"
  note parts = format_interval_parts [OF assms(1), folded ps_def]
  have "map (filter (\<lambda>c. c \<noteq> CHR 0x20)) (map (\<lambda>(v, u). show_int v @ [u]) ps) = map (\<lambda>(v, u). show_int v @ [u]) ps"
    using parts(4) by (auto simp: no_spaces show_int_digits simp del: filter_append)
  then have f: "filter (\<lambda>c. c \<noteq> CHR 0x20) (format_interval n) = concat (map (\<lambda>(v, u). show_int v @ [u]) ps)"
    by (simp only: parts(1) filter_join) (simp add: join_Nil_sep)
  moreover have "concat (map (\<lambda>(v, u). show_int v @ [u]) ps) \<noteq> []"
    using parts(3) by (cases ps) auto
  ultimately show ?thesis
    using duration_loop_parts [OF parts(4), of 0] parts(2) assms(2) by (simp add: parse_duration_ok)
qed

lemma parse_relative_bounds:
  assumes "parse_relative cal now s = Inr t"
  shows "now + NANOS \<le> t \<and> t \<le> now + MAX_DURATION_SECS * NANOS"
proof -
  from assms obtain n where "parse_duration_secs s = Inr n" "n \<noteq> 0" "t = now + n * NANOS"
    by (auto simp: parse_relative_def checked_add_signed_def ok_simps split: if_splits option.splits)
  with parse_duration_bounds [of s n] show ?thesis by (auto simp: NANOS_def)
qed

end
