(* ===== verification/ScheduleTool.thy ===== *)
theory ScheduleTool
  imports ScheduleTime Messages
begin

text \<open>
  The schedule tool and the firing of entries (\<open>src/mcp/orchestration/schedule/core.rs\<close>). The
  context is the session's store, the inboxes, the schedule lines of the session log and the
  permit of the schedule \<open>Notify\<close>. The environment holds the session, the clock, read by
  index (a wall clock may stand still or jump), whether a write to the log succeeds and whether the
  session is idle (\<open>is_session_idle\<close>, a question to the job registries).
\<close>

section \<open>State\<close>

datatype sched_line = SchedSnapshot "schedule_entry list" | SchedOther

record sched_env =
  se_cal :: calendar
  se_clk :: "nat \<Rightarrow> datetime"
  se_session :: "string option"
  se_log_ok :: bool
  se_idle :: bool

record sched_ctx =
  sx_store :: schedule_store
  sx_inbox :: inbox
  sx_log :: "sched_line list"
  sx_woken :: bool

definition persist_schedule_snapshot :: "sched_env \<Rightarrow> sched_ctx \<Rightarrow> sched_ctx" where
  "persist_schedule_snapshot env ctx =
     (case se_session env of
        None \<Rightarrow> ctx
      | Some _ \<Rightarrow> if se_log_ok env then ctx\<lparr>sx_log := sx_log ctx @ [SchedSnapshot (ss_entries (sx_store ctx))]\<rparr> else ctx)"

definition notify_schedule_change :: "sched_env \<Rightarrow> sched_ctx \<Rightarrow> sched_ctx" where
  "notify_schedule_change env ctx =
     (case se_session env of None \<Rightarrow> ctx | Some _ \<Rightarrow> ctx\<lparr>sx_woken := True\<rparr>)"

fun latest_snapshot :: "sched_line list \<Rightarrow> schedule_entry list option \<Rightarrow> schedule_entry list option" where
  "latest_snapshot [] latest = latest"
| "latest_snapshot (SchedSnapshot es # ls) latest = latest_snapshot ls (Some es)"
| "latest_snapshot (SchedOther # ls) latest = latest_snapshot ls latest"

definition restore_schedule_for_session :: "sched_line list \<Rightarrow> schedule_store \<Rightarrow> schedule_store" where
  "restore_schedule_for_session log st =
     (case latest_snapshot log None of None \<Rightarrow> st | Some es \<Rightarrow> seed_entries es st)"

section \<open>Firing\<close>

datatype flush_stop = OutOfFuel | Panicked

definition schedule_message :: "schedule_entry \<Rightarrow> inbox_message" where
  "schedule_message e = \<lparr>im_source = Schedule (sc_id e), im_content = sc_message e\<rparr>"

definition deliver :: "sched_env \<Rightarrow> schedule_entry \<Rightarrow> sched_ctx \<Rightarrow> sched_ctx" where
  "deliver env e ctx = ctx\<lparr>sx_inbox := push_inbox_message (se_session env) (schedule_message e) (sx_inbox ctx)\<rparr>"

definition readd :: "schedule_entry \<Rightarrow> sched_ctx \<Rightarrow> sched_ctx" where
  "readd e ctx = ctx\<lparr>sx_store := store_add e (sx_store ctx)\<rparr>"

text \<open>The loop reads the clock at \<open>t\<close>, and twice more when it reschedules.\<close>

fun flush_loop :: "sched_env \<Rightarrow> nat \<Rightarrow> nat \<Rightarrow> bool \<Rightarrow> sched_ctx \<Rightarrow> flush_stop + bool \<times> sched_ctx" where
  "flush_loop env 0 t mutated ctx = Inl OutOfFuel"
| "flush_loop env (Suc n) t mutated ctx =
     (case pop_due (se_clk env t) (sx_store ctx) of
        None \<Rightarrow> Inr (mutated, ctx)
      | Some (e, st) \<Rightarrow>
          let ctx = ctx\<lparr>sx_store := st\<rparr>
          in if sc_interval_secs e = None then flush_loop env n (t + 1) True (deliver env e ctx)
             else case reschedule (cal_rep (se_cal env)) (se_clk env (t + 1)) (se_clk env (t + 2)) e of
                    None \<Rightarrow> Inl Panicked
                  | Some next_e \<Rightarrow> flush_loop env n (t + 3) True
                      (deliver env e (notify_schedule_change env (readd next_e ctx))))"

definition flush_due_to_inbox :: "sched_env \<Rightarrow> nat \<Rightarrow> sched_ctx \<Rightarrow> flush_stop + sched_ctx" where
  "flush_due_to_inbox env fuel ctx =
     rbind (flush_loop env fuel 0 False ctx)
       (\<lambda>(mutated, ctx). Inr (if mutated then persist_schedule_snapshot env ctx else ctx))"

function drain_idle :: "schedule_store \<Rightarrow> schedule_entry list \<times> schedule_store" where
  "drain_idle st =
     (case pop_idle st of
        None \<Rightarrow> ([], st)
      | Some (e, st) \<Rightarrow> let (es, st) = drain_idle st in (e # es, st))"
  by pat_completeness auto
termination
  by (relation "measure (idle.weight (\<lambda>_. 1))") (auto simp: idle.weight_pop)

declare drain_idle.simps [simp del]

fun flush_drained :: "sched_env \<Rightarrow> nat \<Rightarrow> schedule_entry list \<Rightarrow> sched_ctx \<Rightarrow> flush_stop + sched_ctx" where
  "flush_drained env t [] ctx = Inr ctx"
| "flush_drained env t (e # es) ctx =
     (if sc_interval_secs e = None then flush_drained env t es (deliver env e ctx)
      else case reschedule (cal_rep (se_cal env)) (se_clk env t) (se_clk env (t + 1)) e of
             None \<Rightarrow> Inl Panicked
           | Some next_e \<Rightarrow> flush_drained env (t + 2) es (deliver env e (readd next_e ctx)))"

definition flush_idle_to_inbox :: "sched_env \<Rightarrow> sched_ctx \<Rightarrow> flush_stop + sched_ctx" where
  "flush_idle_to_inbox env ctx =
     (if \<not> se_idle env then Inr ctx
      else if \<not> has_idle (sx_store ctx) then Inr ctx
      else let (drained, st) = drain_idle (sx_store ctx)
           in rbind (flush_drained env 0 drained (ctx\<lparr>sx_store := st\<rparr>))
                (\<lambda>ctx. Inr (if drained \<noteq> [] then persist_schedule_snapshot env ctx else ctx)))"

definition has_pending_idle_schedules :: "sched_ctx \<Rightarrow> bool" where
  "has_pending_idle_schedules ctx \<longleftrightarrow> has_idle (sx_store ctx)"

definition has_pending_schedules :: "sched_ctx \<Rightarrow> bool" where
  "has_pending_schedules ctx \<longleftrightarrow> \<not> store_is_empty (sx_store ctx)"

text \<open>What the session loop waits for.\<close>

datatype schedule_wait = SleepOrNotify int | SleepFor int | NotifyOnly | Forever

definition next_schedule_sleep :: "sched_env \<Rightarrow> sched_ctx \<Rightarrow> schedule_wait" where
  "next_schedule_sleep env ctx =
     (case (next_due_duration (se_clk env 0) (sx_store ctx), se_session env) of
        (Some d, Some _) \<Rightarrow> SleepOrNotify d
      | (Some d, None) \<Rightarrow> SleepFor d
      | (None, Some _) \<Rightarrow> NotifyOnly
      | (None, None) \<Rightarrow> Forever)"

section \<open>The tool\<close>

datatype tool_err =
    NotNonEmpty string | MissingParam string | UnknownCommand string | WhenWithIdle | EveryWithIdle
  | InvalidWhen when_err | InvalidEvery when_err | EveryZero | NoSuchEntry string | NothingToEdit

datatype tool_result = ToolError tool_err | ToolText string

datatype param = Absent | BadText | Given string

text \<open>\<open>Some(Value::String(s)) if !s.trim().is_empty()\<close>, any other value, no value.\<close>

definition text_param :: "string \<Rightarrow> json \<Rightarrow> param" where
  "text_param k ps =
     (case json_get k ps of
        None \<Rightarrow> Absent
      | Some v \<Rightarrow> (case json_as_str v of
          Some s \<Rightarrow> if is_blank s then BadText else Given s
        | None \<Rightarrow> BadText))"

definition required :: "string \<Rightarrow> json \<Rightarrow> tool_err + string" where
  "required k ps =
     (case text_param k ps of Given s \<Rightarrow> Inr s | BadText \<Rightarrow> Inl (NotNonEmpty k) | Absent \<Rightarrow> Inl (MissingParam k))"

definition optional :: "string \<Rightarrow> json \<Rightarrow> string option" where
  "optional k ps = (case text_param k ps of Given s \<Rightarrow> Some s | _ \<Rightarrow> None)"

definition tick :: string where "tick = bytes [0xE2, 0x9C, 0x85]"
definition repeat_icon :: string where "repeat_icon = bytes [0xF0, 0x9F, 0x94, 0x81]"
definition right_arrow :: string where "right_arrow = bytes [0xE2, 0x86, 0x92]"
definition stamp_format :: string where "stamp_format = ''%Y-%m-%d %H:%M:%S''"

definition description_line :: "string \<Rightarrow> string" where
  "description_line d = (if d = [] then [] else newline @ ''Description: '' @ d)"

definition when_param :: "json \<Rightarrow> tool_err + string option" where
  "when_param ps =
     (case text_param ''when'' ps of
        Given s \<Rightarrow> Inr (Some (trim s)) | BadText \<Rightarrow> Inl (NotNonEmpty ''when'') | Absent \<Rightarrow> Inr None)"

definition every_secs :: "string \<Rightarrow> tool_err + int" where
  "every_secs s =
     (case parse_duration_secs s of
        Inr secs \<Rightarrow> if 0 < secs then Inr secs else Inl EveryZero
      | Inl e \<Rightarrow> Inl (InvalidEvery e))"

definition when_instant :: "sched_env \<Rightarrow> string \<Rightarrow> tool_err + datetime" where
  "when_instant env s =
     (case parse_when (se_cal env) (se_clk env 0) s of Inr t \<Rightarrow> Inr t | Inl e \<Rightarrow> Inl (InvalidWhen e))"

definition is_idle_word :: "string option \<Rightarrow> bool" where
  "is_idle_word s = (map_option to_lower s = Some ''idle'')"

definition idle_entry ::
  "sched_env \<Rightarrow> string \<Rightarrow> string \<Rightarrow> string \<Rightarrow> string option \<Rightarrow> string option \<Rightarrow>
     tool_err + schedule_entry \<times> string" where
  "idle_entry env new_id description message when_raw every_raw =
     (if when_raw \<noteq> None \<and> \<not> is_idle_word when_raw then Inl WhenWithIdle
      else if every_raw \<noteq> None \<and> \<not> is_idle_word every_raw then Inl EveryWithIdle
      else let repeating = is_idle_word every_raw
           in Inr (new_idle new_id (se_clk env 0) (se_clk env 1) description message repeating,
                tick @ '' Scheduled ['' @ new_id @ ''] for next idle'' @ description_line description @
                (if repeating then newline @ ''Repeats: every idle'' else []) @ newline @ newline @
                ''The message will be injected when the session is idle (no running taps or background jobs).''))"

definition time_entry ::
  "sched_env \<Rightarrow> string \<Rightarrow> string \<Rightarrow> string \<Rightarrow> string option \<Rightarrow> string option \<Rightarrow>
     tool_err + schedule_entry \<times> string" where
  "time_entry env new_id description message when_raw every_raw =
     (case when_raw of
        None \<Rightarrow> Inl (MissingParam ''when'')
      | Some when_str \<Rightarrow>
          rbind (when_instant env when_str) (\<lambda>trigger_at.
          rbind (case every_raw of None \<Rightarrow> Inr None
                 | Some s \<Rightarrow> rbind (every_secs s) (\<lambda>secs. Inr (Some secs))) (\<lambda>interval_secs.
            let e = new_entry new_id (se_clk env 1) description message trigger_at interval_secs
            in Inr (e,
                 tick @ '' Scheduled ['' @ new_id @ ''] at '' @ cal_format (se_cal env) stamp_format trigger_at @ '' ('' @
                 countdown (se_clk env 2) e @ '')'' @ description_line description @
                 (case interval_secs of Some secs \<Rightarrow> newline @ ''Repeats: every '' @ format_interval secs | None \<Rightarrow> []) @
                 newline @ newline @ ''The message will be injected as a user message when the timer fires.''))))"

definition added_entry :: "sched_env \<Rightarrow> string \<Rightarrow> json \<Rightarrow> tool_err + schedule_entry \<times> string" where
  "added_entry env new_id ps =
     rbind (required ''message'' ps) (\<lambda>message.
     rbind (when_param ps) (\<lambda>when_raw.
       let description = (case optional ''description'' ps of Some d \<Rightarrow> d | None \<Rightarrow> []);
           every_raw = map_option trim (optional ''every'' ps)
       in if is_idle_word when_raw \<or> is_idle_word every_raw \<or> (when_raw = None \<and> every_raw = None)
          then idle_entry env new_id description message when_raw every_raw
          else time_entry env new_id description message when_raw every_raw))"

definition handle_add :: "sched_env \<Rightarrow> string \<Rightarrow> json \<Rightarrow> sched_ctx \<Rightarrow> tool_result \<times> sched_ctx" where
  "handle_add env new_id ps ctx =
     (case added_entry env new_id ps of
        Inl err \<Rightarrow> (ToolError err, ctx)
      | Inr (e, reply) \<Rightarrow>
          (ToolText reply, notify_schedule_change env (persist_schedule_snapshot env (readd e ctx))))"

definition preview :: "string \<Rightarrow> string" where
  "preview message =
     (if 80 < length message then take (floor_boundary message 80) message @ ellipsis else message)"

definition pending_line :: "sched_env \<Rightarrow> nat \<times> schedule_entry \<Rightarrow> string" where
  "pending_line env ie = (case ie of (i, e) \<Rightarrow>
     ''['' @ sc_id e @ ''] '' @
     (if sc_trigger_mode e = Idle then ''idle'' else cal_format (se_cal env) stamp_format (sc_trigger_at e)) @
     '' ('' @ countdown (se_clk env i) e @ '') '' @ long_dash @ '' '' @
     (if sc_description e = [] then ''(no description)'' else sc_description e) @ newline @
     ''  Message: '' @ preview (sc_message e) @
     (case (sc_trigger_mode e, sc_interval_secs e) of
        (Idle, Some _) \<Rightarrow> newline @ ''  '' @ repeat_icon @ '' Repeats every idle''
      | (Time, Some secs) \<Rightarrow> newline @ ''  '' @ repeat_icon @ '' Repeats every '' @ format_interval secs
      | _ \<Rightarrow> []))"

definition render_pending_entries :: "sched_env \<Rightarrow> schedule_store \<Rightarrow> string option" where
  "render_pending_entries env st =
     (if ss_entries st = [] then None
      else Some (join newline ((show_nat (length (ss_entries st)) @ '' scheduled entries:'' @ newline) #
             map (pending_line env) (enumerate 0 (ss_entries st)))))"

definition handle_list :: "sched_env \<Rightarrow> sched_ctx \<Rightarrow> tool_result \<times> sched_ctx" where
  "handle_list env ctx =
     (ToolText (case render_pending_entries env (sx_store ctx) of
        Some listing \<Rightarrow> listing | None \<Rightarrow> ''No scheduled entries.''), ctx)"

definition handle_remove :: "sched_env \<Rightarrow> json \<Rightarrow> sched_ctx \<Rightarrow> tool_result \<times> sched_ctx" where
  "handle_remove env ps ctx =
     (case required ''id'' ps of
        Inl err \<Rightarrow> (ToolError err, ctx)
      | Inr i \<Rightarrow> (case store_remove i (sx_store ctx) of
          (True, st) \<Rightarrow> (ToolText (tick @ '' Removed scheduled entry ['' @ i @ ''].''),
             notify_schedule_change env (persist_schedule_snapshot env (ctx\<lparr>sx_store := st\<rparr>)))
        | (False, st) \<Rightarrow> (ToolError (NoSuchEntry i), ctx\<lparr>sx_store := st\<rparr>)))"

definition new_interval :: "json \<Rightarrow> tool_err + int option option" where
  "new_interval ps =
     (case optional ''every'' ps of
        None \<Rightarrow> Inr None
      | Some s \<Rightarrow> if trim s = ''none'' \<or> trim s = ''off'' then Inr (Some None)
                  else rbind (every_secs (trim s)) (\<lambda>secs. Inr (Some (Some secs))))"

definition new_when :: "sched_env \<Rightarrow> json \<Rightarrow> tool_err + datetime option" where
  "new_when env ps =
     (case optional ''when'' ps of
        None \<Rightarrow> Inr None | Some s \<Rightarrow> rbind (when_instant env s) (\<lambda>t. Inr (Some t)))"

definition edit_request ::
  "sched_env \<Rightarrow> json \<Rightarrow> tool_err + string \<times> string option \<times> string option \<times> datetime option \<times> int option option" where
  "edit_request env ps =
     rbind (required ''id'' ps) (\<lambda>i.
     rbind (new_when env ps) (\<lambda>trigger_at.
     rbind (new_interval ps) (\<lambda>interval_secs.
       let message = optional ''message'' ps; description = optional ''description'' ps
       in if trigger_at = None \<and> message = None \<and> description = None \<and> interval_secs = None
          then Inl NothingToEdit
          else Inr (i, description, message, trigger_at, interval_secs))))"

definition edit_summary :: "sched_env \<Rightarrow> string \<Rightarrow> schedule_store \<Rightarrow> string" where
  "edit_summary env i st =
     (case find (\<lambda>e. sc_id e = i) (ss_entries st) of
        None \<Rightarrow> []
      | Some e \<Rightarrow> '' '' @ right_arrow @ '' fires at '' @ cal_format (se_cal env) stamp_format (sc_trigger_at e) @ '' ('' @
          countdown (se_clk env 1) e @ '')'' @
          (case sc_interval_secs e of Some secs \<Rightarrow> '', repeats every '' @ format_interval secs | None \<Rightarrow> []))"

definition handle_edit :: "sched_env \<Rightarrow> json \<Rightarrow> sched_ctx \<Rightarrow> tool_result \<times> sched_ctx" where
  "handle_edit env ps ctx =
     (case edit_request env ps of
        Inl err \<Rightarrow> (ToolError err, ctx)
      | Inr (i, description, message, trigger_at, interval_secs) \<Rightarrow>
          (case store_edit i description message trigger_at interval_secs (sx_store ctx) of
             (True, st) \<Rightarrow> (ToolText (tick @ '' Updated scheduled entry ['' @ i @ '']'' @ edit_summary env i st @ ''.''),
                notify_schedule_change env (persist_schedule_snapshot env (ctx\<lparr>sx_store := st\<rparr>)))
           | (False, st) \<Rightarrow> (ToolError (NoSuchEntry i), ctx\<lparr>sx_store := st\<rparr>)))"

definition execute_schedule_tool :: "sched_env \<Rightarrow> string \<Rightarrow> json \<Rightarrow> sched_ctx \<Rightarrow> tool_result \<times> sched_ctx" where
  "execute_schedule_tool env new_id ps ctx =
     (case required ''command'' ps of
        Inl err \<Rightarrow> (ToolError err, ctx)
      | Inr command \<Rightarrow>
          if command = ''add'' then handle_add env new_id ps ctx
          else if command = ''list'' then handle_list env ctx
          else if command = ''remove'' then handle_remove env ps ctx
          else if command = ''edit'' then handle_edit env ps ctx
          else (ToolError (UnknownCommand command), ctx))"

end
