(* ===== verification/ScheduleSound.thy ===== *)
theory ScheduleSound
  imports ScheduleTool
begin

text \<open>
  What the schedule's operations keep: every entry the tool can make is well formed, a flush of
  due entries ends (the firings still possible until an instant are its measure), what flushes
  deliver and leave, what the tool changes, and the states a session's schedule can reach.
\<close>

section \<open>Entries the tool can produce\<close>

definition entry_ok :: "schedule_entry \<Rightarrow> bool" where
  "entry_ok e \<longleftrightarrow> (\<forall>n. sc_interval_secs e = Some n \<longrightarrow>
     n \<le> MAX_DURATION_SECS \<and> (if sc_trigger_mode e = Time then 0 < n else 0 \<le> n))"

definition store_ok :: "schedule_store \<Rightarrow> bool" where
  "store_ok st \<longleftrightarrow> store_sorted st \<and> (\<forall>e\<in>set (ss_entries st). entry_ok e)"

lemma store_ok_add: "store_ok st \<Longrightarrow> entry_ok e \<Longrightarrow> store_ok (store_add e st)"
  using due.add_keeps [of entry_ok e st] by (simp add: store_ok_def)

lemma store_ok_pop: "store_ok st \<Longrightarrow> pop_entry p st = Some (e, st') \<Longrightarrow> entry_ok e \<and> store_ok st'"
  using pop_entry_Some [of p st e st'] by (auto simp: store_ok_def dest: store_sorted_pop arg_cong [of _ _ set_mset])

lemma reschedule_ok:
  assumes "reschedule rep now now' e = Some e'"
  shows "sc_id e' = sc_id e" "sc_description e' = sc_description e" "sc_message e' = sc_message e"
    "sc_interval_secs e' = sc_interval_secs e" "sc_trigger_mode e' = sc_trigger_mode e"
    "entry_ok e \<Longrightarrow> entry_ok e'"
  using assms by (auto simp: reschedule_def entry_ok_def)

text \<open>A timed entry is put at least one interval after its last instant, and after the clock.\<close>

lemma reschedule_later:
  assumes "reschedule rep now now' e = Some e'" and "sc_trigger_mode e = Time" and "sc_interval_secs e = Some n" and "0 < n"
  shows "now < sc_trigger_at e'"
    and "sc_trigger_at e \<le> now \<Longrightarrow> sc_trigger_at e + n * NANOS \<le> sc_trigger_at e'"
  using assms
  by (auto simp: reschedule_def next_trigger_def duration_seconds_def checked_add_signed_def NANOS_def
      split: option.splits if_splits)

lemma reschedule_total:
  assumes "entry_ok e" and "sc_interval_secs e \<noteq> None"
    and "\<And>n. 0 < n \<Longrightarrow> n \<le> MAX_DURATION_SECS \<Longrightarrow> rep (now + n * NANOS)"
  shows "\<exists>e'. reschedule rep now now' e = Some e'"
proof (cases "sc_trigger_mode e")
  case Idle
  then show ?thesis by (simp add: reschedule_def next_trigger_def)
next
  case Time
  from assms(2) obtain n where n: "sc_interval_secs e = Some n" by auto
  with assms(1) Time have "0 < n" "n \<le> MAX_DURATION_SECS" by (auto simp: entry_ok_def)
  with assms(3) Time n show ?thesis
    by (auto simp: reschedule_def next_trigger_def duration_seconds_def checked_add_signed_def
        I64_MAX_def MAX_DURATION_SECS_def split: option.splits)
qed

section \<open>The loop that fires due entries\<close>

text \<open>How often an entry can fire until the instant \<open>stop\<close>.\<close>

definition firings :: "datetime \<Rightarrow> schedule_entry \<Rightarrow> nat" where
  "firings stop e = (if is_due stop e then nat ((stop - sc_trigger_at e) div NANOS) + 1 else 0)"

lemma firings_due: "is_due now e \<Longrightarrow> now \<le> stop \<Longrightarrow> 0 < firings stop e"
  by (auto simp: firings_def is_due_def)

lemma firings_reschedule:
  assumes "reschedule rep now now' e = Some e'" and "is_due t e" and "t \<le> now" and "now \<le> stop"
    and "entry_ok e" and "sc_interval_secs e \<noteq> None"
  shows "firings stop e' < firings stop e"
proof -
  from assms(6) obtain n where n: "sc_interval_secs e = Some n" by auto
  have mode: "sc_trigger_mode e = Time" and le: "sc_trigger_at e \<le> now" using assms(2,3) by (auto simp: is_due_def)
  with assms(5) n have "0 < n" by (auto simp: entry_ok_def)
  with reschedule_later(2) [OF assms(1) mode n \<open>0 < n\<close> le]
  have later: "sc_trigger_at e + NANOS \<le> sc_trigger_at e'" by (simp add: NANOS_def)
  have due: "is_due stop e" using assms(2-4) by (auto simp: is_due_def)
  show ?thesis
  proof (cases "is_due stop e'")
    case False
    with due show ?thesis by (simp add: firings_def)
  next
    case True
    then have "0 \<le> stop - sc_trigger_at e'" by (simp add: is_due_def)
    moreover have "(stop - sc_trigger_at e' + NANOS) div NANOS \<le> (stop - sc_trigger_at e) div NANOS"
      using later by (intro zdiv_mono1) (auto simp: NANOS_def)
    moreover have "(stop - sc_trigger_at e' + NANOS) div NANOS = (stop - sc_trigger_at e') div NANOS + 1"
      by (simp add: NANOS_def)
    moreover have "0 \<le> (stop - sc_trigger_at e') div NANOS"
      using \<open>0 \<le> stop - sc_trigger_at e'\<close> by (simp add: NANOS_def pos_imp_zdiv_nonneg_iff)
    ultimately show ?thesis using due True by (simp add: firings_def)
  qed
qed

text \<open>A clock that never runs backwards during the flush and shows at most \<open>stop\<close>.\<close>

definition steady :: "sched_env \<Rightarrow> datetime \<Rightarrow> bool" where
  "steady env stop \<longleftrightarrow> mono (se_clk env) \<and> (\<forall>k. se_clk env k \<le> stop) \<and>
     (\<forall>k n. 0 < n \<and> n \<le> MAX_DURATION_SECS \<longrightarrow> cal_rep (se_cal env) (se_clk env k + n * NANOS))"

lemma ctx_sel [simp]:
  "sx_store (deliver env e ctx) = sx_store ctx" "sx_store (notify_schedule_change env ctx) = sx_store ctx"
  "sx_store (persist_schedule_snapshot env ctx) = sx_store ctx" "sx_store (readd e ctx) = store_add e (sx_store ctx)"
  "sx_inbox (notify_schedule_change env ctx) = sx_inbox ctx" "sx_inbox (persist_schedule_snapshot env ctx) = sx_inbox ctx"
  "sx_inbox (readd e ctx) = sx_inbox ctx"
  "sx_inbox (deliver env e ctx) = push_inbox_message (se_session env) (schedule_message e) (sx_inbox ctx)"
  "sx_log (deliver env e ctx) = sx_log ctx" "sx_log (notify_schedule_change env ctx) = sx_log ctx"
  "sx_log (readd e ctx) = sx_log ctx"
  by (auto simp: deliver_def notify_schedule_change_def persist_schedule_snapshot_def readd_def split: option.splits)

lemma flush_loop_ends:
  assumes "steady env stop" and "store_ok (sx_store ctx)"
    and "due.weight (firings stop) (sx_store ctx) < n"
  shows "\<exists>m ctx' k. flush_loop env n t mutated ctx = Inr (m, ctx') \<and> store_ok (sx_store ctx') \<and>
     (\<forall>e\<in>set (ss_entries (sx_store ctx')). \<not> is_due (se_clk env t) e)"
  using assms(2,3)
proof (induction n arbitrary: t mutated ctx)
  case 0
  then show ?case by simp
next
  case (Suc n)
  have mono: "se_clk env t \<le> se_clk env (t + k)" for k using assms(1) by (auto simp: steady_def mono_def)
  have later: "\<not> is_due (se_clk env (t + k)) e \<Longrightarrow> \<not> is_due (se_clk env t) e" for k e
    using mono [of k] by (auto simp: is_due_def)
  show ?case
  proof (cases "pop_due (se_clk env t) (sx_store ctx)")
    case None
    with Suc.prems(1) due.pop_None [OF None] show ?thesis by auto
  next
    case (Some est)
    obtain e st where est: "est = (e, st)" by (cases est)
    note pop = Some [unfolded est]
    have ok: "entry_ok e" "store_ok st"
      using store_ok_pop [OF Suc.prems(1) pop [unfolded pop_due_def]] by simp_all
    have due: "is_due (se_clk env t) e" using due.pop_is_p [OF pop] .
    have stop: "se_clk env k \<le> stop" for k using assms(1) by (simp add: steady_def)
    note w = due.weight_pop [OF pop, of "firings stop"]
    show ?thesis
    proof (cases "sc_interval_secs e = None")
      case True
      have "due.weight (firings stop) st < n"
        using w firings_due [OF due stop] Suc.prems(2) by simp
      from Suc.IH [of "deliver env e (ctx\<lparr>sx_store := st\<rparr>)" "t + 1" True] this ok(2) later [of 1]
      show ?thesis using pop True by (fastforce simp: Let_def)
    next
      case False
      have "\<exists>e'. reschedule (cal_rep (se_cal env)) (se_clk env (t + 1)) (se_clk env (t + 2)) e = Some e'"
        using assms(1) by (intro reschedule_total [OF ok(1) False]) (auto simp: steady_def)
      then obtain e' where e': "reschedule (cal_rep (se_cal env)) (se_clk env (t + 1)) (se_clk env (t + 2)) e = Some e'" ..
      have "due.weight (firings stop) (store_add e' st) < n"
        using due.weight_replace [OF pop firings_reschedule [OF e' due mono stop ok(1) False]] Suc.prems(2) by simp
      from Suc.IH [of "deliver env e (notify_schedule_change env (readd e' (ctx\<lparr>sx_store := st\<rparr>)))" "t + 3" True] this
        store_ok_add [OF ok(2) reschedule_ok(6) [OF e' ok(1)]] later [of 3]
      show ?thesis using pop False e' by (fastforce simp: Let_def)
    qed
  qed
qed

section \<open>What a flush delivers\<close>

lemma filter_position:
  "position p xs = Some i \<Longrightarrow> filter p xs = xs ! i # filter p (remove_at i xs)"
  "position p xs = Some i \<Longrightarrow> filter (\<lambda>x. \<not> p x) (remove_at i xs) = filter (\<lambda>x. \<not> p x) xs"
  by (induction xs arbitrary: i) (auto split: if_splits)

text \<open>The entries that satisfy a predicate, in the order of the store.\<close>

definition chosen :: "(schedule_entry \<Rightarrow> bool) \<Rightarrow> schedule_store \<Rightarrow> schedule_entry list" where
  "chosen p st = filter p (ss_entries st)"

lemma chosen_pop:
  assumes "pop_entry p st = Some (e, st')"
  shows "chosen p st = e # chosen p st'" "chosen (\<lambda>e. \<not> p e) st' = chosen (\<lambda>e. \<not> p e) st"
  using assms filter_position [of p "ss_entries st"] by (auto simp: pop_entry_def chosen_def)

lemma pop_entry_None_iff: "pop_entry p st = None \<longleftrightarrow> chosen p st = []"
  by (auto simp: pop_entry_def position_None chosen_def filter_empty_conv)

lemma chosen_add_other:
  "store_sorted st \<Longrightarrow> \<not> p e \<Longrightarrow> chosen p (store_add e st) = chosen p st"
  by (simp add: chosen_def store_add_def store_sorted_def filter_sort sort_key_id_if_sorted sorted_filter del: sort_key_simps)

lemma mset_chosen: "mset (chosen p st) = filter_mset p (bag_of st)"
  by (simp add: chosen_def bag_of_def)

lemma drain_idle_spec: "drain_idle st = (es, st') \<Longrightarrow> es = chosen is_idle st \<and> ss_entries st' = chosen (\<lambda>e. \<not> is_idle e) st"
proof (induction st arbitrary: es st' rule: drain_idle.induct)
  case (1 st)
  show ?case
  proof (cases "pop_idle st")
    case None
    then have "chosen is_idle st = []" by (simp add: pop_idle_def pop_entry_None_iff)
    moreover from this have "chosen (\<lambda>e. \<not> is_idle e) st = ss_entries st"
      by (auto simp: chosen_def filter_empty_conv intro: filter_True)
    ultimately show ?thesis using "1.prems" None by (simp add: drain_idle.simps [of st])
  next
    case (Some p)
    obtain e t where p: "p = (e, t)" by (cases p)
    obtain fs t' where d: "drain_idle t = (fs, t')" by (cases "drain_idle t")
    from Some p have pop: "pop_entry is_idle st = Some (e, t)" by (simp add: pop_idle_def)
    have "fs = chosen is_idle t \<and> ss_entries t' = chosen (\<lambda>e. \<not> is_idle e) t"
      using "1.IH" [OF Some] p d by simp
    with chosen_pop [OF pop] "1.prems" Some p d show ?thesis by (simp add: drain_idle.simps [of st])
  qed
qed

text \<open>
  With the clock at rest every due entry fires exactly once, in the order of the store; a
  repeating one is back in the queue at its next instant.
\<close>

definition at_rest :: "sched_env \<Rightarrow> datetime \<Rightarrow> bool" where
  "at_rest env now \<longleftrightarrow> se_clk env = (\<lambda>_. now) \<and>
     (\<forall>n. 0 < n \<and> n \<le> MAX_DURATION_SECS \<longrightarrow> cal_rep (se_cal env) (now + n * NANOS))"

definition rescheduled :: "sched_env \<Rightarrow> datetime \<Rightarrow> schedule_entry list \<Rightarrow> schedule_entry list" where
  "rescheduled env now es = map (\<lambda>e. the (reschedule (cal_rep (se_cal env)) now now e))
     (filter (\<lambda>e. sc_interval_secs e \<noteq> None) es)"

lemma flush_loop_at_rest:
  assumes "at_rest env now" and "store_ok (sx_store ctx)" and "length (chosen (is_due now) (sx_store ctx)) < n"
  shows "\<exists>m ctx'. flush_loop env n t mutated ctx = Inr (m, ctx') \<and> store_ok (sx_store ctx') \<and>
     (m \<longleftrightarrow> mutated \<or> chosen (is_due now) (sx_store ctx) \<noteq> []) \<and> sx_log ctx' = sx_log ctx \<and>
     (chosen (is_due now) (sx_store ctx) = [] \<longrightarrow> ctx' = ctx) \<and>
     sx_inbox ctx' = fold (push_inbox_message (se_session env))
       (map schedule_message (chosen (is_due now) (sx_store ctx))) (sx_inbox ctx) \<and>
     bag_of (sx_store ctx') = mset (chosen (\<lambda>e. \<not> is_due now e) (sx_store ctx)) +
       mset (rescheduled env now (chosen (is_due now) (sx_store ctx)))"
  using assms(2,3)
proof (induction n arbitrary: t mutated ctx)
  case 0
  then show ?case by simp
next
  case (Suc n)
  have clk: "se_clk env k = now" for k using assms(1) by (simp add: at_rest_def)
  show ?case
  proof (cases "pop_due now (sx_store ctx)")
    case None
    then have none: "chosen (is_due now) (sx_store ctx) = []" by (simp add: pop_due_def pop_entry_None_iff)
    moreover from this have "chosen (\<lambda>e. \<not> is_due now e) (sx_store ctx) = ss_entries (sx_store ctx)"
      by (auto simp: chosen_def filter_empty_conv intro: filter_True)
    ultimately show ?thesis using None Suc.prems(1) by (simp add: clk rescheduled_def bag_of_def)
  next
    case (Some est)
    obtain e st where est: "est = (e, st)" by (cases est)
    have pop: "pop_entry (is_due now) (sx_store ctx) = Some (e, st)" using Some est by (simp add: pop_due_def)
    note ch = chosen_pop [OF pop] and ok = store_ok_pop [OF Suc.prems(1) pop]
    have due: "is_due now e" using pop_entry_Some [OF pop] by simp
    show ?thesis
    proof (cases "sc_interval_secs e = None")
      case True
      from Suc.IH [of "deliver env e (ctx\<lparr>sx_store := st\<rparr>)" "t + 1" True] ok Suc.prems(2)
      obtain m ctx' where *: "flush_loop env n (t + 1) True (deliver env e (ctx\<lparr>sx_store := st\<rparr>)) = Inr (m, ctx')"
        "store_ok (sx_store ctx')" "m" "sx_log ctx' = sx_log ctx"
        "sx_inbox ctx' = fold (push_inbox_message (se_session env))
          (map schedule_message (chosen (is_due now) st)) (push_inbox_message (se_session env) (schedule_message e) (sx_inbox ctx))"
        "bag_of (sx_store ctx') = mset (chosen (\<lambda>e. \<not> is_due now e) st) + mset (rescheduled env now (chosen (is_due now) st))"
        by (auto simp: ch)
      then show ?thesis using Some est True ch by (auto simp: clk Let_def rescheduled_def)
    next
      case False
      have "\<exists>e'. reschedule (cal_rep (se_cal env)) now now e = Some e'"
        using assms(1) ok by (intro reschedule_total [OF _ False]) (auto simp: at_rest_def)
      then obtain e' where e': "reschedule (cal_rep (se_cal env)) now now e = Some e'" ..
      have notdue: "\<not> is_due now e'"
      proof -
        from False obtain k where "sc_interval_secs e = Some k" by auto
        with ok due have "now < sc_trigger_at e'"
          by (intro reschedule_later(1) [OF e']) (auto simp: entry_ok_def is_due_def)
        then show ?thesis by (simp add: is_due_def)
      qed
      let ?st = "store_add e' st" and ?ctx = "deliver env e (notify_schedule_change env (readd e' (ctx\<lparr>sx_store := st\<rparr>)))"
      have sorted: "store_sorted st" using ok by (simp add: store_ok_def)
      have ch': "chosen (is_due now) ?st = chosen (is_due now) st"
        using chosen_add_other [of st "is_due now" e'] sorted notdue by simp
      have rest: "mset (chosen (\<lambda>e. \<not> is_due now e) ?st) = add_mset e' (mset (chosen (\<lambda>e. \<not> is_due now e) st))"
        using notdue by (simp add: mset_chosen bag_add)
      have "store_ok ?st" using store_ok_add ok reschedule_ok(6) [OF e'] by blast
      with Suc.IH [of ?ctx "t + 3" True] ch Suc.prems(2) ch'
      obtain m ctx' where *: "flush_loop env n (t + 3) True ?ctx = Inr (m, ctx')"
        "store_ok (sx_store ctx')" "m" "sx_log ctx' = sx_log ctx"
        "sx_inbox ctx' = fold (push_inbox_message (se_session env))
          (map schedule_message (chosen (is_due now) st)) (push_inbox_message (se_session env) (schedule_message e) (sx_inbox ctx))"
        "bag_of (sx_store ctx') = mset (chosen (\<lambda>e. \<not> is_due now e) ?st) + mset (rescheduled env now (chosen (is_due now) st))"
        by auto
      then show ?thesis using Some est False ch e' rest by (auto simp: clk Let_def rescheduled_def)
    qed
  qed
qed

text \<open>An idle entry is put back at once, whatever the clock shows.\<close>

definition idle_again :: "schedule_entry \<Rightarrow> datetime \<Rightarrow> datetime \<Rightarrow> schedule_entry" where
  "idle_again e now now' = e\<lparr>sc_trigger_at := now, sc_created_at := now'\<rparr>"

lemma reschedule_idle: "is_idle e \<Longrightarrow> reschedule rep now now' e = Some (idle_again e now now')"
  by (simp add: reschedule_def next_trigger_def is_idle_def idle_again_def)

text \<open>What a queued entry is, apart from its two instants.\<close>

definition core_of :: "schedule_entry \<Rightarrow> string \<times> string \<times> string \<times> int option \<times> trigger_mode" where
  "core_of e = (sc_id e, sc_description e, sc_message e, sc_interval_secs e, sc_trigger_mode e)"

lemma core_reschedule: "reschedule rep now now' e = Some e' \<Longrightarrow> core_of e' = core_of e"
  by (auto simp: core_of_def dest: reschedule_ok)

lemma core_idle_again [simp]: "core_of (idle_again e now now') = core_of e"
  by (simp add: core_of_def idle_again_def)

definition repeating :: "schedule_entry \<Rightarrow> bool" where
  "repeating e \<longleftrightarrow> sc_interval_secs e \<noteq> None"

lemma flush_drained_ends:
  assumes "\<forall>e\<in>set es. is_idle e \<and> entry_ok e" and "store_ok (sx_store ctx)"
  shows "\<exists>ctx'. flush_drained env t es ctx = Inr ctx' \<and> store_ok (sx_store ctx') \<and>
     sx_log ctx' = sx_log ctx \<and>
     sx_inbox ctx' = fold (push_inbox_message (se_session env)) (map schedule_message es) (sx_inbox ctx) \<and>
     chosen (\<lambda>e. \<not> is_idle e) (sx_store ctx') = chosen (\<lambda>e. \<not> is_idle e) (sx_store ctx) \<and>
     image_mset core_of (bag_of (sx_store ctx')) =
       image_mset core_of (bag_of (sx_store ctx)) + mset (map core_of (filter repeating es))"
  using assms
proof (induction es arbitrary: t ctx)
  case Nil
  then show ?case by simp
next
  case (Cons e es)
  show ?case
  proof (cases "repeating e")
    case False
    from Cons.IH [of "deliver env e ctx" t] Cons.prems False show ?thesis
      by (auto simp: repeating_def)
  next
    case True
    let ?e = "idle_again e (se_clk env t) (se_clk env (t + 1))"
    have r: "reschedule (cal_rep (se_cal env)) (se_clk env t) (se_clk env (t + 1)) e = Some ?e"
      using Cons.prems(1) by (simp add: reschedule_idle)
    have "entry_ok ?e" using reschedule_ok(6) [OF r] Cons.prems(1) by simp
    with Cons.prems(2) have ok: "store_ok (store_add ?e (sx_store ctx))" by (rule store_ok_add)
    have "is_idle ?e" using Cons.prems(1) by (simp add: is_idle_def idle_again_def)
    then have "chosen (\<lambda>e. \<not> is_idle e) (store_add ?e (sx_store ctx)) = chosen (\<lambda>e. \<not> is_idle e) (sx_store ctx)"
      using Cons.prems(2) chosen_add_other by (simp add: store_ok_def)
    with Cons.IH [of "deliver env e (readd ?e ctx)" "t + 2"] Cons.prems(1) ok True r
    show ?thesis by (auto simp: repeating_def bag_add core_reschedule [OF r])
  qed
qed

text \<open>The flush of idle entries, in an idle session that has some.\<close>

lemma flush_idle_effect:
  assumes "se_idle env" and "store_ok (sx_store ctx)"
  shows "\<exists>ctx'. flush_idle_to_inbox env ctx = Inr ctx' \<and> store_ok (sx_store ctx') \<and>
     sx_inbox ctx' = fold (push_inbox_message (se_session env))
       (map schedule_message (chosen is_idle (sx_store ctx))) (sx_inbox ctx) \<and>
     chosen (\<lambda>e. \<not> is_idle e) (sx_store ctx') = chosen (\<lambda>e. \<not> is_idle e) (sx_store ctx) \<and>
     image_mset core_of (bag_of (sx_store ctx')) =
       mset (map core_of (chosen (\<lambda>e. \<not> is_idle e \<or> repeating e) (sx_store ctx))) \<and>
     (if chosen is_idle (sx_store ctx) = [] then ctx' = ctx
      else \<exists>ctx0. ctx' = persist_schedule_snapshot env ctx0 \<and> sx_log ctx0 = sx_log ctx)"
proof (cases "chosen is_idle (sx_store ctx) = []")
  case True
  then have "\<not> has_idle (sx_store ctx)" by (auto simp: has_idle_def chosen_def filter_empty_conv)
  moreover from True have "chosen (\<lambda>e. \<not> is_idle e \<or> repeating e) (sx_store ctx) = ss_entries (sx_store ctx)"
    by (auto simp: chosen_def filter_empty_conv intro: filter_True)
  ultimately show ?thesis using True assms(2) by (simp add: flush_idle_to_inbox_def bag_of_def)
next
  case False
  let ?idle = "chosen is_idle (sx_store ctx)"
  from False have has: "has_idle (sx_store ctx)" by (auto simp: has_idle_def chosen_def filter_empty_conv)
  obtain es st where d: "drain_idle (sx_store ctx) = (es, st)" by (cases "drain_idle (sx_store ctx)")
  have es: "es = ?idle" "ss_entries st = chosen (\<lambda>e. \<not> is_idle e) (sx_store ctx)"
    using drain_idle_spec [OF d] by simp_all
  have ok: "store_ok st" using assms(2) es(2) by (auto simp: store_ok_def store_sorted_def chosen_def intro: sorted_filter)
  have "\<forall>e\<in>set ?idle. is_idle e \<and> entry_ok e" using assms(2) by (auto simp: chosen_def store_ok_def)
  from flush_drained_ends [OF this, of "ctx\<lparr>sx_store := st\<rparr>" env 0] ok
  obtain ctx' where *: "flush_drained env 0 ?idle (ctx\<lparr>sx_store := st\<rparr>) = Inr ctx'" "store_ok (sx_store ctx')"
    "sx_log ctx' = sx_log ctx"
    "sx_inbox ctx' = fold (push_inbox_message (se_session env)) (map schedule_message ?idle) (sx_inbox ctx)"
    "chosen (\<lambda>e. \<not> is_idle e) (sx_store ctx') = chosen (\<lambda>e. \<not> is_idle e) st"
    "image_mset core_of (bag_of (sx_store ctx')) = image_mset core_of (bag_of st) + mset (map core_of (filter repeating ?idle))"
    by auto
  have "mset (filter (\<lambda>e. \<not> is_idle e) xs) + mset (filter repeating (filter is_idle xs)) =
      mset (filter (\<lambda>e. \<not> is_idle e \<or> repeating e) xs)" for xs
    by (induction xs) (auto simp: filter_filter_mset conj_commute)
  then have "image_mset core_of (mset (chosen (\<lambda>e. \<not> is_idle e) (sx_store ctx))) +
      image_mset core_of (mset (filter repeating ?idle)) =
      image_mset core_of (mset (chosen (\<lambda>e. \<not> is_idle e \<or> repeating e) (sx_store ctx)))"
    unfolding chosen_def by (metis image_mset_union)
  moreover have "flush_idle_to_inbox env ctx = Inr (persist_schedule_snapshot env ctx')"
    using assms(1) has d * es False by (simp add: flush_idle_to_inbox_def)
  moreover have "chosen (\<lambda>e. \<not> is_idle e) st = chosen (\<lambda>e. \<not> is_idle e) (sx_store ctx)"
    using es(2) by (simp add: chosen_def)
  ultimately show ?thesis using * False es(2) by (auto simp: bag_of_def)
qed

section \<open>The tool\<close>

lemma every_secs_ok [ok_simps]: "every_secs s = Inr n \<longleftrightarrow> parse_duration_secs s = Inr n \<and> 0 < n"
  by (auto simp: every_secs_def split: sum.splits)

lemma every_secs_bounds: "every_secs s = Inr n \<Longrightarrow> 0 < n \<and> n \<le> MAX_DURATION_SECS"
  using parse_duration_bounds [of s n] by (simp add: ok_simps)

lemma idle_entry_ok:
  "idle_entry env new_id d m w v = Inr (e, reply) \<Longrightarrow> entry_ok e \<and> sc_id e = new_id \<and> sc_message e = m"
  by (auto simp: idle_entry_def Let_def new_idle_def entry_ok_def MAX_DURATION_SECS_def split: if_splits)

lemma time_entry_ok:
  assumes "time_entry env new_id d m w v = Inr (e, reply)"
  shows "entry_ok e \<and> sc_id e = new_id \<and> sc_message e = m"
proof -
  from assms obtain s t i where "w = Some s" "when_instant env s = Inr t"
    and i: "(case v of None \<Rightarrow> Inr None | Some s \<Rightarrow> rbind (every_secs s) (\<lambda>secs. Inr (Some secs))) = Inr i"
    and e: "e = new_entry new_id (se_clk env 1) d m t i"
    by (auto simp: time_entry_def rbind_ok Let_def split: option.splits)
  from i have "n \<le> MAX_DURATION_SECS \<and> 0 < n" if "i = Some n" for n
    using that every_secs_bounds by (auto simp: rbind_ok split: option.splits)
  with e show ?thesis by (simp add: entry_ok_def new_entry_def)
qed

lemma added_entry_ok:
  assumes "added_entry env new_id ps = Inr (e, reply)"
  shows "entry_ok e \<and> sc_id e = new_id \<and> required ''message'' ps = Inr (sc_message e)"
proof -
  from assms obtain message where "required ''message'' ps = Inr message"
    and "\<exists>w v d. idle_entry env new_id d message w v = Inr (e, reply) \<or> time_entry env new_id d message w v = Inr (e, reply)"
    unfolding added_entry_def Let_def by (auto simp only: rbind_ok split: if_splits)
  then show ?thesis using idle_entry_ok time_entry_ok by blast
qed

lemma edit_request_interval:
  "edit_request env ps = Inr (i, d, m, t, Some (Some n)) \<Longrightarrow> 0 < n \<and> n \<le> MAX_DURATION_SECS"
  by (auto simp: edit_request_def new_interval_def Let_def rbind_ok split: if_splits option.splits
      dest: every_secs_bounds)

lemma edit_entry_sel [simp]:
  "sc_id (edit_entry d m t v e) = sc_id e" "sc_trigger_mode (edit_entry d m t v e) = sc_trigger_mode e"
  "sc_interval_secs (edit_entry d m t v e) = (case v of Some i \<Rightarrow> i | None \<Rightarrow> sc_interval_secs e)"
  "sc_message (edit_entry d m t v e) = (case m of Some x \<Rightarrow> x | None \<Rightarrow> sc_message e)"
  "sc_trigger_at (edit_entry d m t v e) = (case t of Some x \<Rightarrow> x | None \<Rightarrow> sc_trigger_at e)"
  by (simp_all add: edit_entry_def Let_def split: option.splits)

lemma store_ok_edit:
  assumes "store_ok st" and "\<And>n. v = Some (Some n) \<Longrightarrow> 0 < n \<and> n \<le> MAX_DURATION_SECS"
  shows "store_ok (snd (store_edit i d m t v st))"
proof (cases "position (\<lambda>e. sc_id e = i) (ss_entries st)")
  case None
  with assms(1) show ?thesis by (simp add: store_edit_def)
next
  case (Some k)
  then have "k < length (ss_entries st)" by (auto dest: position_Some)
  with assms(1) have "entry_ok (ss_entries st ! k)" by (simp add: store_ok_def)
  with assms(2) have "entry_ok (edit_entry d m t v (ss_entries st ! k))"
    by (auto simp: entry_ok_def split: option.splits)
  with assms(1) Some store_sorted_edit [of st i d m t v] show ?thesis
    by (auto simp: store_edit_def store_ok_def dest!: set_mp [OF set_update_subset_insert])
qed

lemma store_ok_remove: "store_ok st \<Longrightarrow> store_ok (snd (store_remove i st))"
  using store_sorted_remove [of st i] by (auto simp: store_ok_def store_remove_def Let_def)

lemma store_remove_none: "store_remove i st = (False, st') \<Longrightarrow> st' = st"
  by (cases st) (auto simp: store_remove_def Let_def length_filter_less intro: filter_True)

text \<open>A change of the store by the tool is recorded in the log.\<close>

definition recorded :: "sched_env \<Rightarrow> sched_ctx \<Rightarrow> schedule_store \<Rightarrow> sched_ctx" where
  "recorded env ctx st = notify_schedule_change env (persist_schedule_snapshot env (ctx\<lparr>sx_store := st\<rparr>))"

definition tool_step :: "sched_env \<Rightarrow> sched_ctx \<Rightarrow> tool_result \<times> sched_ctx \<Rightarrow> bool" where
  "tool_step env ctx out \<longleftrightarrow> snd out = ctx \<or>
     (\<exists>st reply. out = (ToolText reply, recorded env ctx st) \<and> (store_ok (sx_store ctx) \<longrightarrow> store_ok st))"

lemma add_effect: "tool_step env ctx (handle_add env new_id ps ctx)"
proof (cases "added_entry env new_id ps")
  case (Inl e)
  then show ?thesis by (simp add: handle_add_def tool_step_def)
next
  case (Inr er)
  obtain e reply where er: "er = (e, reply)" by (cases er)
  have "entry_ok e" using Inr er added_entry_ok by blast
  then have "store_ok (sx_store ctx) \<longrightarrow> store_ok (store_add e (sx_store ctx))" by (simp add: store_ok_add)
  then show ?thesis using Inr er by (auto simp: handle_add_def tool_step_def recorded_def readd_def)
qed

lemma remove_effect: "tool_step env ctx (handle_remove env ps ctx)"
proof (cases "required ''id'' ps")
  case (Inl e)
  then show ?thesis by (simp add: handle_remove_def tool_step_def)
next
  case (Inr i)
  obtain b st where r: "store_remove i (sx_store ctx) = (b, st)" by (cases "store_remove i (sx_store ctx)")
  show ?thesis
  proof (cases b)
    case True
    have "store_ok (sx_store ctx) \<longrightarrow> store_ok st" using store_ok_remove [of "sx_store ctx" i] r by simp
    then show ?thesis using Inr r True by (auto simp: handle_remove_def tool_step_def recorded_def)
  next
    case False
    then show ?thesis using Inr r store_remove_none [of i "sx_store ctx" st] by (simp add: handle_remove_def tool_step_def)
  qed
qed

lemma edit_effect: "tool_step env ctx (handle_edit env ps ctx)"
proof (cases "edit_request env ps")
  case (Inl e)
  then show ?thesis by (simp add: handle_edit_def tool_step_def)
next
  case (Inr q)
  obtain i d m t v where q: "q = (i, d, m, t, v)" by (cases q)
  obtain b st where e: "store_edit i d m t v (sx_store ctx) = (b, st)" by (cases "store_edit i d m t v (sx_store ctx)")
  show ?thesis
  proof (cases b)
    case True
    have "store_ok (sx_store ctx) \<longrightarrow> store_ok st"
      using store_ok_edit [of "sx_store ctx" v i d m t] e edit_request_interval [of env ps i d m t] Inr q by auto
    then show ?thesis using Inr q e True by (auto simp: handle_edit_def tool_step_def recorded_def)
  next
    case False
    then have "st = sx_store ctx" using e by (simp add: store_edit_def split: option.splits)
    then show ?thesis using Inr q e False by (simp add: handle_edit_def tool_step_def)
  qed
qed

lemma tool_effect: "tool_step env ctx (execute_schedule_tool env new_id ps ctx)"
proof (cases "required ''command'' ps")
  case (Inl e)
  then show ?thesis by (simp add: execute_schedule_tool_def tool_step_def)
next
  case (Inr command)
  then show ?thesis
    using add_effect [of env ctx new_id ps] remove_effect [of env ctx ps] edit_effect [of env ctx ps]
    by (simp add: execute_schedule_tool_def handle_list_def tool_step_def)
qed

section \<open>Flushes under any clock\<close>

definition cores :: "(schedule_entry \<Rightarrow> bool) \<Rightarrow> schedule_store \<Rightarrow> (string \<times> string \<times> string \<times> int option \<times> trigger_mode) multiset" where
  "cores p st = image_mset core_of (filter_mset p (bag_of st))"

lemma core_repeating: "core_of e = core_of e' \<Longrightarrow> repeating e = repeating e' \<and> is_idle e = is_idle e'"
  by (simp add: core_of_def repeating_def is_idle_def)

text \<open>\<open>fired\<close>: the entries a flush delivered, in order.\<close>

lemma flush_loop_result:
  assumes "flush_loop env n t mutated ctx = Inr (m, ctx')" and "store_ok (sx_store ctx)"
  shows "store_ok (sx_store ctx') \<and> sx_log ctx' = sx_log ctx \<and> (m \<or> m = mutated \<and> ctx' = ctx) \<and>
    cores repeating (sx_store ctx') = cores repeating (sx_store ctx) \<and>
    filter_mset (\<lambda>e. \<not> repeating e) (bag_of (sx_store ctx')) \<subseteq># filter_mset (\<lambda>e. \<not> repeating e) (bag_of (sx_store ctx)) \<and>
    (\<exists>fired. sx_inbox ctx' = fold (push_inbox_message (se_session env)) (map schedule_message fired) (sx_inbox ctx) \<and>
       core_of ` set fired \<subseteq> core_of ` set (ss_entries (sx_store ctx)) \<and>
       filter_mset (\<lambda>e. \<not> repeating e) (bag_of (sx_store ctx)) =
         filter_mset (\<lambda>e. \<not> repeating e) (bag_of (sx_store ctx') + mset fired))"
  using assms
proof (induction n arbitrary: t mutated ctx)
  case 0
  then show ?case by simp
next
  case (Suc n)
  show ?case
  proof (cases "pop_due (se_clk env t) (sx_store ctx)")
    case None
    with Suc.prems show ?thesis by (auto intro: exI [of _ "[]"])
  next
    case (Some est)
    obtain e st where est: "est = (e, st)" by (cases est)
    have pop: "pop_entry (is_due (se_clk env t)) (sx_store ctx) = Some (e, st)" using Some est by (simp add: pop_due_def)
    note ok = store_ok_pop [OF Suc.prems(2) pop]
    have bag: "bag_of (sx_store ctx) = add_mset e (bag_of st)" using pop_entry_Some [OF pop] by simp
    then have set: "set (ss_entries (sx_store ctx)) = insert e (set (ss_entries st))"
      by (metis set_bag_of set_mset_add_mset_insert)
    show ?thesis
    proof (cases "sc_interval_secs e = None")
      case True
      then have once: "\<not> repeating e" by (simp add: repeating_def)
      let ?c = "deliver env e (ctx\<lparr>sx_store := st\<rparr>)"
      from Suc.prems(1) Some est True have "flush_loop env n (t + 1) True ?c = Inr (m, ctx')" by (simp add: Let_def)
      from Suc.IH [OF this] ok obtain fired where *: "store_ok (sx_store ctx')" "sx_log ctx' = sx_log ctx" "m"
        "cores repeating (sx_store ctx') = cores repeating st"
        "filter_mset (\<lambda>e. \<not> repeating e) (bag_of (sx_store ctx')) \<subseteq># filter_mset (\<lambda>e. \<not> repeating e) (bag_of st)"
        "sx_inbox ctx' = fold (push_inbox_message (se_session env)) (map schedule_message (e # fired)) (sx_inbox ctx)"
        "core_of ` set fired \<subseteq> core_of ` set (ss_entries st)"
        "filter_mset (\<lambda>e. \<not> repeating e) (bag_of st) = filter_mset (\<lambda>e. \<not> repeating e) (bag_of (sx_store ctx') + mset fired)"
        by auto
      then show ?thesis using once bag set
        by (intro conjI exI [of _ "e # fired"]) (auto simp: cores_def subset_mset.le_supI2)
    next
      case False
      then have rep: "repeating e" by (simp add: repeating_def)
      from Suc.prems(1) Some est False obtain e' where
        e': "reschedule (cal_rep (se_cal env)) (se_clk env (t + 1)) (se_clk env (t + 2)) e = Some e'"
        by (auto simp: Let_def split: option.splits)
      let ?c = "deliver env e (notify_schedule_change env (readd e' (ctx\<lparr>sx_store := st\<rparr>)))"
      note core = core_reschedule [OF e'] and core' = core_repeating [OF core_reschedule [OF e']]
      have ok': "store_ok (store_add e' st)" using store_ok_add ok reschedule_ok(6) [OF e'] by blast
      have set': "core_of ` set (ss_entries (store_add e' st)) = core_of ` set (ss_entries (sx_store ctx))"
        using core set by (simp add: store_add_def)
      have filt: "filter_mset (\<lambda>e. \<not> repeating e) (bag_of (store_add e' st)) = filter_mset (\<lambda>e. \<not> repeating e) (bag_of (sx_store ctx))"
        and cor: "cores repeating (store_add e' st) = cores repeating (sx_store ctx)"
        using core core' rep bag by (simp_all add: bag_add cores_def)
      from Suc.prems(1) Some est False e' have "flush_loop env n (t + 3) True ?c = Inr (m, ctx')" by (simp add: Let_def)
      from Suc.IH [OF this] ok' obtain fired where *: "store_ok (sx_store ctx')" "sx_log ctx' = sx_log ctx" "m"
        "cores repeating (sx_store ctx') = cores repeating (sx_store ctx)"
        "filter_mset (\<lambda>e. \<not> repeating e) (bag_of (sx_store ctx')) \<subseteq># filter_mset (\<lambda>e. \<not> repeating e) (bag_of (sx_store ctx))"
        "sx_inbox ctx' = fold (push_inbox_message (se_session env)) (map schedule_message (e # fired)) (sx_inbox ctx)"
        "core_of ` set fired \<subseteq> core_of ` set (ss_entries (sx_store ctx))"
        "filter_mset (\<lambda>e. \<not> repeating e) (bag_of (sx_store ctx)) = filter_mset (\<lambda>e. \<not> repeating e) (bag_of (sx_store ctx') + mset fired)"
        by (auto simp: cor filt set')
      then show ?thesis using rep set
        by (intro conjI exI [of _ "e # fired"]) auto
    qed
  qed
qed

section \<open>Sequences of operations\<close>

text \<open>What can happen to the schedule of a session whose environments all satisfy \<open>P\<close>.\<close>

inductive sched_reach :: "(sched_env \<Rightarrow> bool) \<Rightarrow> sched_ctx \<Rightarrow> bool" for P where
  start: "sched_reach P \<lparr>sx_store = empty_store, sx_inbox = ib, sx_log = [], sx_woken = False\<rparr>"
| tool: "sched_reach P ctx \<Longrightarrow> P env \<Longrightarrow> sched_reach P (snd (execute_schedule_tool env new_id ps ctx))"
| due: "sched_reach P ctx \<Longrightarrow> P env \<Longrightarrow> flush_due_to_inbox env fuel ctx = Inr ctx' \<Longrightarrow> sched_reach P ctx'"
| idle: "sched_reach P ctx \<Longrightarrow> P env \<Longrightarrow> flush_idle_to_inbox env ctx = Inr ctx' \<Longrightarrow> sched_reach P ctx'"
| other: "sched_reach P ctx \<Longrightarrow> sched_reach P (ctx\<lparr>sx_inbox := ib, sx_woken := w\<rparr>)"
| resume: "sched_reach P ctx \<Longrightarrow>
    sched_reach P (ctx\<lparr>sx_store := restore_schedule_for_session (sx_log ctx) empty_store, sx_inbox := ib\<rparr>)"

lemma latest_snapshot_append:
  "latest_snapshot (ls @ [SchedSnapshot es]) latest = Some es"
  by (induction ls latest rule: latest_snapshot.induct) auto

lemma latest_snapshot_in: "latest_snapshot ls latest = Some es \<Longrightarrow> SchedSnapshot es \<in> set ls \<or> latest = Some es"
  by (induction ls latest rule: latest_snapshot.induct) auto

definition log_ok :: "sched_ctx \<Rightarrow> bool" where
  "log_ok ctx \<longleftrightarrow> (\<forall>es. SchedSnapshot es \<in> set (sx_log ctx) \<longrightarrow> (\<forall>e\<in>set es. entry_ok e))"

lemma log_ok_persist: "log_ok ctx \<Longrightarrow> store_ok (sx_store ctx) \<Longrightarrow> log_ok (persist_schedule_snapshot env ctx)"
  by (auto simp: log_ok_def persist_schedule_snapshot_def store_ok_def split: option.splits)

lemma log_ok_same: "sx_log ctx' = sx_log ctx \<Longrightarrow> log_ok ctx' = log_ok ctx"
  by (simp add: log_ok_def)

lemma recorded_sel [simp]: "sx_store (recorded env ctx st) = st"
  by (simp add: recorded_def)

lemma log_ok_recorded: "log_ok ctx \<Longrightarrow> store_ok st \<Longrightarrow> log_ok (recorded env ctx st)"
  using log_ok_persist [of "ctx\<lparr>sx_store := st\<rparr>" env]
  by (simp add: recorded_def log_ok_same [of "notify_schedule_change env c" c for c] log_ok_same [of "ctx\<lparr>sx_store := st\<rparr>" ctx])

lemma flush_due_result:
  assumes "flush_due_to_inbox env fuel ctx = Inr ctx'" and "store_ok (sx_store ctx)"
  obtains "ctx' = ctx" | c where "ctx' = persist_schedule_snapshot env c" "sx_log c = sx_log ctx" "store_ok (sx_store c)"
proof -
  from assms(1) obtain m c where *: "flush_loop env fuel 0 False ctx = Inr (m, c)"
    "ctx' = (if m then persist_schedule_snapshot env c else c)"
    by (auto simp: flush_due_to_inbox_def rbind_ok)
  with flush_loop_result [OF *(1) assms(2)] that show ?thesis by (cases m) auto
qed

lemma flush_idle_result:
  assumes "flush_idle_to_inbox env ctx = Inr ctx'" and "store_ok (sx_store ctx)"
  obtains "ctx' = ctx" | c where "ctx' = persist_schedule_snapshot env c" "sx_log c = sx_log ctx" "store_ok (sx_store c)"
proof (cases "se_idle env")
  case False
  with assms(1) that(1) show ?thesis by (simp add: flush_idle_to_inbox_def)
next
  case True
  from flush_idle_effect [OF True assms(2)] assms(1) that show ?thesis by (auto split: if_splits)
qed

lemma sched_reach_ok: "sched_reach P ctx \<Longrightarrow> store_ok (sx_store ctx) \<and> log_ok ctx"
proof (induction rule: sched_reach.induct)
  case (start ib)
  then show ?case by (simp add: store_ok_def log_ok_def) (simp add: empty_store_def)
next
  case (tool ctx env new_id ps)
  then show ?case
    using tool_effect [of env ctx new_id ps] log_ok_recorded by (auto simp: tool_step_def)
next
  case (due ctx env fuel ctx')
  then have ok: "store_ok (sx_store ctx)" and l: "log_ok ctx" by simp_all
  from due.hyps(3) ok show ?case
  proof (rule flush_due_result)
    fix c
    assume "ctx' = persist_schedule_snapshot env c" "sx_log c = sx_log ctx" "store_ok (sx_store c)"
    then show ?thesis using l log_ok_same [of c ctx] by (simp add: log_ok_persist)
  qed (simp add: ok l)
next
  case (idle ctx env ctx')
  then have ok: "store_ok (sx_store ctx)" and l: "log_ok ctx" by simp_all
  from idle.hyps(3) ok show ?case
  proof (rule flush_idle_result)
    fix c
    assume "ctx' = persist_schedule_snapshot env c" "sx_log c = sx_log ctx" "store_ok (sx_store c)"
    then show ?thesis using l log_ok_same [of c ctx] by (simp add: log_ok_persist)
  qed (simp add: ok l)
next
  case (other ctx ib w)
  then show ?case by (simp add: log_ok_def)
next
  case (resume ctx ib)
  then show ?case
    by (auto simp: log_ok_def store_ok_def restore_schedule_for_session_def seed_entries_def
        split: option.splits dest!: latest_snapshot_in) (auto simp: empty_store_def store_sorted_def)
qed

section \<open>The log mirrors the store\<close>

definition logging :: "sched_env \<Rightarrow> bool" where
  "logging env \<longleftrightarrow> se_session env \<noteq> None \<and> se_log_ok env"

definition mirrored :: "sched_ctx \<Rightarrow> bool" where
  "mirrored ctx \<longleftrightarrow> restore_schedule_for_session (sx_log ctx) empty_store = sx_store ctx"

lemma mirrored_persist: "logging env \<Longrightarrow> store_ok (sx_store c) \<Longrightarrow> mirrored (persist_schedule_snapshot env c)"
  by (auto simp: mirrored_def restore_schedule_for_session_def persist_schedule_snapshot_def logging_def
      latest_snapshot_append seed_sorted store_ok_def)

lemma mirrored_notify [simp]: "mirrored (notify_schedule_change env c) = mirrored c"
  by (simp add: mirrored_def)

lemma sched_reach_mirrored: "sched_reach logging ctx \<Longrightarrow> mirrored ctx"
proof (induction rule: sched_reach.induct)
  case (start ib)
  then show ?case by (simp add: mirrored_def restore_schedule_for_session_def)
next
  case (tool ctx env new_id ps)
  have "store_ok (sx_store ctx)" using sched_reach_ok [OF tool.hyps(1)] by simp
  then show ?case
    using tool_effect [of env ctx new_id ps] tool mirrored_persist [of env "ctx\<lparr>sx_store := st\<rparr>" for st]
    by (auto simp: tool_step_def recorded_def)
next
  case (due ctx env fuel ctx')
  then show ?case using sched_reach_ok [OF due.hyps(1)] by (auto elim!: flush_due_result simp: mirrored_persist)
next
  case (idle ctx env ctx')
  then show ?case using sched_reach_ok [OF idle.hyps(1)] by (auto elim!: flush_idle_result simp: mirrored_persist)
next
  case (other ctx ib w)
  then show ?case by (simp add: mirrored_def)
next
  case (resume ctx ib)
  then show ?case by (simp add: mirrored_def)
qed

end
