(* ===== verification/ScheduleCorrect.thy ===== *)
theory ScheduleCorrect
  imports ScheduleSound
begin

text \<open>
  The correctness statements of the inbox and of the schedule, each with its instance on a
  small inbox or on a queue of four entries.
\<close>

section \<open>A schedule to try the statements on\<close>

text \<open>A calendar of equal days in which every instant exists, and a clock at ten seconds.\<close>

definition plain_calendar :: calendar where
  "plain_calendar = \<lparr>cal_rep = (\<lambda>_. True), cal_today = (\<lambda>t. t div (86400 * NANOS)), cal_succ = (\<lambda>d. Some (d + 1)),
     cal_hms = (\<lambda>h m s. if h < 24 \<and> m < 60 \<and> s < 60 then Some (uint h * 3600 + uint m * 60 + uint s) else None),
     cal_local = (\<lambda>d t. Some ((d * 86400 + t) * NANOS)), cal_parse = (\<lambda>_ _. None), cal_format = (\<lambda>_ _. [])\<rparr>"

definition plain_env :: sched_env where
  "plain_env = \<lparr>se_cal = plain_calendar, se_clk = (\<lambda>_. 10 * NANOS), se_session = Some ''s'', se_log_ok = True, se_idle = True\<rparr>"

definition poll :: schedule_entry where
  "poll = new_entry ''aa'' 0 ''poll'' ''check'' (5 * NANOS) (Some 60)"

definition once :: schedule_entry where
  "once = new_entry ''bb'' 0 [] ''go'' (7 * NANOS) None"

definition later :: schedule_entry where
  "later = new_entry ''cc'' 0 [] ''wait'' (90 * NANOS) None"

definition settle :: schedule_entry where
  "settle = new_idle ''dd'' 0 0 [] ''settled'' True"

definition demo_inbox :: inbox where
  "demo_inbox = init_inbox_for_session (Some ''s'') Map.empty"

definition demo_ctx :: sched_ctx where
  "demo_ctx = \<lparr>sx_store = \<lparr>ss_entries = [settle, poll, once, later]\<rparr>, sx_inbox = demo_inbox, sx_log = [], sx_woken = False\<rparr>"

lemmas entries_defs = poll_def once_def later_def settle_def new_entry_def new_idle_def NANOS_def

lemma demo_store_ok: "store_ok (sx_store demo_ctx)"
  by (simp add: store_ok_def store_sorted_def demo_ctx_def entries_defs entry_ok_def MAX_DURATION_SECS_def)

lemma plain_at_rest: "at_rest plain_env (10 * NANOS)"
  by (simp add: at_rest_def plain_env_def plain_calendar_def)

lemma plain_steady: "steady plain_env (10 * NANOS)"
  by (simp add: steady_def plain_env_def plain_calendar_def mono_def)

section \<open>The inbox\<close>

text \<open>
  A message pushed into the inbox of a live session is delivered in its turn: the \<open>n\<close>-th
  message popped after pushing \<open>ms\<close> is the \<open>n\<close>-th of those already pending followed by \<open>ms\<close>,
  nothing comes after the last one, and no other session's queue changes.
\<close>

theorem inbox_delivers_in_order:
  fixes s :: string and ib :: inbox and ms :: "inbox_message list"
  assumes "live s ib"
  defines "full \<equiv> fold (push_inbox_message (Some s)) ms ib" and "all \<equiv> pending s ib @ ms"
  shows "fst (try_pop_inbox_message (Some s) (((\<lambda>q. snd (try_pop_inbox_message (Some s) q)) ^^ n) full)) =
      (if n < length all then Some (all ! n) else None) \<and> (\<forall>t. t \<noteq> s \<longrightarrow> full t = ib t)"
proof (intro conjI allI impI)
  have "live s full" "pending s full = all"
    using mailbox.push_all [OF assms(1), of ms] by (simp_all add: full_def all_def)
  then show "fst (try_pop_inbox_message (Some s) (((\<lambda>q. snd (try_pop_inbox_message (Some s) q)) ^^ n) full)) =
      (if n < length all then Some (all ! n) else None)"
    using mailbox.nth_pop [of s full n] by simp
  show "full t = ib t" if "t \<noteq> s" for t
    unfolding full_def using that by (induction ms arbitrary: ib) auto
qed

lemma inbox_delivers_in_order_witness:
  "fst (try_pop_inbox_message (Some ''s'') (((\<lambda>q. snd (try_pop_inbox_message (Some ''s'') q)) ^^ 1)
     (fold (push_inbox_message (Some ''s'')) [schedule_message poll, schedule_message once] demo_inbox))) =
   Some (schedule_message once)"
  using inbox_delivers_in_order [of "''s''" demo_inbox 1 "[schedule_message poll, schedule_message once]"]
  by (simp add: live_def demo_inbox_def init_inbox_for_session_def pending_def)

text \<open>The inboxes that arise when the monitor \<open>i\<close> is configured with the limit \<open>limit i\<close>.\<close>

inductive inbox_reach :: "(string \<Rightarrow> nat) \<Rightarrow> inbox \<Rightarrow> bool" for limit where
  empty: "inbox_reach limit Map.empty"
| init: "inbox_reach limit ib \<Longrightarrow> inbox_reach limit (init_inbox_for_session cur ib)"
| clear: "inbox_reach limit ib \<Longrightarrow> inbox_reach limit (clear_inbox_for_session s ib)"
| push: "inbox_reach limit ib \<Longrightarrow> (\<And>i. \<not> from_monitor i m) \<Longrightarrow> inbox_reach limit (push_inbox_message_for_session s m ib)"
| monitor: "inbox_reach limit ib \<Longrightarrow> inbox_reach limit (push_monitor_message_for_session s i d c (limit i) ib)"
| pop: "inbox_reach limit ib \<Longrightarrow> inbox_reach limit (snd (try_pop_inbox_message cur ib))"

lemma inbox_reach_bounded: "inbox_reach limit ib \<Longrightarrow> ib s = Some q \<Longrightarrow> monitor_bounded limit (iq_messages q)"
proof (induction arbitrary: q rule: inbox_reach.induct)
  case empty
  then show ?case by simp
next
  case (init ib cur)
  then show ?case by (auto simp: init_inbox_for_session_def split: option.splits if_splits)
next
  case (clear ib t)
  then show ?case by (auto simp: clear_inbox_for_session_def split: if_splits)
next
  case (push ib m t)
  then show ?case
    by (auto simp: push_inbox_message_for_session_def monitor_bounded_other split: option.splits if_splits)
next
  case (monitor ib t i d c)
  then show ?case
    by (auto simp: push_monitor_message_for_session_def monitor_bounded_deliver split: option.splits if_splits)
next
  case (pop ib cur)
  then show ?case
    by (auto simp: try_pop_inbox_message_def dest: monitor_bounded_tail split: option.splits list.splits if_splits)
qed

text \<open>
  However often a monitor delivers while its last delivery is pending, a session's queue
  holds at most one message of it, and that message is at most 2048 bytes longer than the
  monitor's configured limit.
\<close>

theorem monitor_delivery_bounded:
  assumes "inbox_reach limit ib" and "ib s = Some q"
  shows "length (filter (from_monitor i) (iq_messages q)) \<le> 1 \<and>
    (\<forall>m\<in>set (iq_messages q). from_monitor i m \<longrightarrow> length (im_content m) \<le> limit i + 2048)"
  using inbox_reach_bounded [OF assms] by (auto simp: monitor_bounded_def delivery_limit_def)

definition noisy_inbox :: inbox where
  "noisy_inbox = push_monitor_message_for_session ''s'' ''m'' ''build'' ''two'' 1024
     (push_monitor_message_for_session ''s'' ''m'' ''build'' ''one'' 1024 demo_inbox)"

lemma noisy_messages: "pending ''s'' noisy_inbox = [\<lparr>im_source = Monitor ''m'' ''build'', im_content = ''one'' @ newline @ newline @ ''two''\<rparr>]"
  by (simp add: pending_def noisy_inbox_def demo_inbox_def init_inbox_for_session_def
      push_monitor_message_for_session_def deliver_monitor_def from_monitor_def bound_monitor_content_def
      append_monitor_content_def delivery_limit_def usize_max_def ends_with_def OMITTED_MARKER_def newline_literal Let_def suffix_def)

lemma monitor_delivery_bounded_witness: "length (''one'' @ newline @ newline @ ''two'') \<le> 1024 + 2048"
proof -
  have r: "inbox_reach (\<lambda>_. 1024) noisy_inbox"
    unfolding noisy_inbox_def demo_inbox_def
    by (rule inbox_reach.monitor [of "\<lambda>_. 1024", simplified], rule inbox_reach.monitor [of "\<lambda>_. 1024", simplified],
        rule inbox_reach.init, rule inbox_reach.empty)
  obtain q where q: "noisy_inbox ''s'' = Some q" "iq_messages q = [\<lparr>im_source = Monitor ''m'' ''build'', im_content = ''one'' @ newline @ newline @ ''two''\<rparr>]"
    using noisy_messages by (auto simp: pending_def split: option.splits)
  from monitor_delivery_bounded [OF r q(1), of "''m''"] q(2) show ?thesis
    by (simp add: from_monitor_def)
qed

section \<open>The schedule\<close>

text \<open>
  C6. Whatever the tool is asked, however often the queue is flushed and the session resumed, the
  queue stays sorted by trigger time, so the first due entry is the earliest; and a timed entry
  repeats, if at all, after one second to ten years.
\<close>

theorem schedule_invariant:
  assumes "sched_reach P ctx"
  shows "sorted (map sc_trigger_at (ss_entries (sx_store ctx))) \<and>
    (\<forall>e\<in>set (ss_entries (sx_store ctx)). sc_trigger_mode e = Time \<longrightarrow>
      (\<forall>n. sc_interval_secs e = Some n \<longrightarrow> 0 < n \<and> n \<le> MAX_DURATION_SECS))"
  using sched_reach_ok [OF assms] by (auto simp: store_ok_def store_sorted_def entry_ok_def)

definition add_params :: json where
  "add_params = JObj [(''command'', JStr ''add''), (''message'', JStr ''check''), (''when'', JStr ''in 5m''), (''every'', JStr ''1h30m'')]"

definition new_ctx :: sched_ctx where
  "new_ctx = \<lparr>sx_store = empty_store, sx_inbox = demo_inbox, sx_log = [], sx_woken = False\<rparr>"

definition added_ctx :: sched_ctx where
  "added_ctx = snd (execute_schedule_tool plain_env ''aa'' add_params new_ctx)"

lemma added_entries: "ss_entries (sx_store added_ctx) =
  [new_entry ''aa'' (10 * NANOS) [] ''check'' (310 * NANOS) (Some 5400)]"
  by code_simp

lemma added_reach: "sched_reach logging added_ctx"
  unfolding added_ctx_def new_ctx_def
  by (intro sched_reach.tool sched_reach.start) (simp add: logging_def plain_env_def)

lemma schedule_invariant_witness: "(5400 :: int) \<le> MAX_DURATION_SECS"
  using schedule_invariant [OF added_reach]
  by (simp add: added_entries new_entry_def)

text \<open>
  C15. Flushing the due entries ends: if the clock does not run backwards while the loop runs and
  stays below \<open>stop\<close>, the loop takes no more turns than the entries can fire until \<open>stop\<close>,
  and afterwards no entry is left that was due when it began.
\<close>

theorem due_flush_terminates:
  assumes "steady env stop" and "store_ok (sx_store ctx)"
    and "fuel = Suc (\<Sum>e\<leftarrow>ss_entries (sx_store ctx). firings stop e)"
  shows "\<exists>ctx'. flush_due_to_inbox env fuel ctx = Inr ctx' \<and>
    (\<forall>e\<in>set (ss_entries (sx_store ctx')). \<not> is_due (se_clk env 0) e)"
proof -
  have "due.weight (firings stop) (sx_store ctx) < fuel"
    using assms(3) by (simp add: due.weight_def bag_of_def sum_mset_sum_list flip: mset_map)
  from flush_loop_ends [OF assms(1,2) this, of 0 False] show ?thesis
    by (auto simp: flush_due_to_inbox_def)
qed

lemma due_flush_terminates_witness:
  "\<exists>ctx'. flush_due_to_inbox plain_env 11 demo_ctx = Inr ctx' \<and>
    (\<forall>e\<in>set (ss_entries (sx_store ctx')). \<not> is_due (10 * NANOS) e)"
proof -
  have "(11 :: nat) = Suc (\<Sum>e\<leftarrow>ss_entries (sx_store demo_ctx). firings (10 * NANOS) e)"
    by (simp add: demo_ctx_def entries_defs firings_def is_due_def)
  from due_flush_terminates [OF plain_steady demo_store_ok this] show ?thesis
    by (simp add: plain_env_def)
qed

lemma rescheduled_later:
  assumes "at_rest env now" and "store_ok (sx_store ctx)"
    and "e \<in> set (rescheduled env now (chosen (is_due now) (sx_store ctx)))"
  shows "now < sc_trigger_at e"
proof -
  from assms(3) obtain f n where f: "f \<in> set (ss_entries (sx_store ctx))" "is_due now f" "sc_interval_secs f = Some n"
    and e: "e = the (reschedule (cal_rep (se_cal env)) now now f)"
    by (auto simp: rescheduled_def chosen_def)
  have ok: "entry_ok f" using f(1) assms(2) by (simp add: store_ok_def)
  then have "0 < n" using f(2,3) by (auto simp: entry_ok_def is_due_def)
  have "\<exists>e. reschedule (cal_rep (se_cal env)) now now f = Some e"
    using assms(1) f(3) by (intro reschedule_total [OF ok]) (auto simp: at_rest_def)
  with e have "reschedule (cal_rep (se_cal env)) now now f = Some e" by auto
  from reschedule_later(1) [OF this _ f(3) \<open>0 < n\<close>] f(2) show ?thesis by (simp add: is_due_def)
qed

text \<open>
  With the clock at rest while it runs, a flush delivers every due entry exactly once, in
  trigger order, at the end of the inbox. The one-shot ones are gone, a repeating one is back
  at an instant after the clock, and every other entry is still queued.
\<close>

theorem due_entries_fire_once:
  assumes "at_rest env now" and "store_ok (sx_store ctx)" and "length (chosen (is_due now) (sx_store ctx)) < fuel"
  shows "\<exists>ctx'. flush_due_to_inbox env fuel ctx = Inr ctx' \<and>
    sx_inbox ctx' = fold (push_inbox_message (se_session env))
      (map schedule_message (chosen (is_due now) (sx_store ctx))) (sx_inbox ctx) \<and>
    mset (ss_entries (sx_store ctx')) = mset (chosen (\<lambda>e. \<not> is_due now e) (sx_store ctx)) +
      mset (rescheduled env now (chosen (is_due now) (sx_store ctx))) \<and>
    (\<forall>e\<in>set (rescheduled env now (chosen (is_due now) (sx_store ctx))). now < sc_trigger_at e)"
proof -
  have "now < sc_trigger_at e" if "e \<in> set (rescheduled env now (chosen (is_due now) (sx_store ctx)))" for e
    using rescheduled_later [OF assms(1,2) that] .
  with flush_loop_at_rest [OF assms, of 0 False]
  show ?thesis by (auto simp: flush_due_to_inbox_def bag_of_def)
qed

lemma demo_due: "chosen (is_due (10 * NANOS)) (sx_store demo_ctx) = [poll, once]"
  by (simp add: chosen_def demo_ctx_def is_due_def entries_defs)

lemma due_entries_fire_once_witness:
  "\<exists>ctx'. flush_due_to_inbox plain_env 3 demo_ctx = Inr ctx' \<and>
    pending ''s'' (sx_inbox ctx') = [schedule_message poll, schedule_message once]"
proof -
  from due_entries_fire_once [OF plain_at_rest demo_store_ok, of 3] obtain ctx'
    where "flush_due_to_inbox plain_env 3 demo_ctx = Inr ctx'"
      "sx_inbox ctx' = fold (push_inbox_message (Some ''s'')) [schedule_message poll, schedule_message once] demo_inbox"
    by (auto simp: demo_due plain_env_def) (simp add: demo_ctx_def)
  then show ?thesis
    using mailbox.push_all [of "''s''" demo_inbox "[schedule_message poll, schedule_message once]"]
    by (simp add: live_def demo_inbox_def init_inbox_for_session_def pending_def)
qed

text \<open>
  Flushing an idle session delivers every idle entry exactly once, in the order of the queue,
  and ends although the repeating ones are put back: afterwards the queue holds what it held
  except the one-shot idle entries, and the timed entries are unchanged and in the same order.
\<close>

theorem idle_entries_fire_once:
  assumes "se_idle env" and "store_ok (sx_store ctx)"
  shows "\<exists>ctx'. flush_idle_to_inbox env ctx = Inr ctx' \<and>
    sx_inbox ctx' = fold (push_inbox_message (se_session env))
      (map schedule_message (chosen is_idle (sx_store ctx))) (sx_inbox ctx) \<and>
    chosen (\<lambda>e. \<not> is_idle e) (sx_store ctx') = chosen (\<lambda>e. \<not> is_idle e) (sx_store ctx) \<and>
    mset (map core_of (ss_entries (sx_store ctx'))) =
      mset (map core_of (chosen (\<lambda>e. \<not> is_idle e \<or> repeating e) (sx_store ctx)))"
  using flush_idle_effect [OF assms] by (auto simp: bag_of_def)

lemma idle_entries_fire_once_witness:
  "\<exists>ctx'. flush_idle_to_inbox plain_env demo_ctx = Inr ctx' \<and>
    mset (map core_of (ss_entries (sx_store ctx'))) = mset (map core_of [settle, poll, once, later])"
proof -
  have "chosen (\<lambda>e. \<not> is_idle e \<or> repeating e) (sx_store demo_ctx) = [settle, poll, once, later]"
    by (simp add: chosen_def demo_ctx_def entries_defs is_idle_def repeating_def)
  with idle_entries_fire_once [OF _ demo_store_ok, of plain_env] show ?thesis
    by (auto simp: plain_env_def)
qed

text \<open>
  A repeating entry keeps its id, so it can be stopped: after any flush that returns, under any
  clock, the repeating entries are those from before, nothing was delivered that was not queued,
  and a removal by the id of one of them succeeds and leaves no entry of that id.
\<close>

theorem repeating_entry_can_be_stopped:
  assumes "flush_due_to_inbox env fuel ctx = Inr ctx'" and "store_ok (sx_store ctx)"
  shows "cores repeating (sx_store ctx') = cores repeating (sx_store ctx) \<and>
    (\<exists>fired. sx_inbox ctx' = fold (push_inbox_message (se_session env)) (map schedule_message fired) (sx_inbox ctx) \<and>
      core_of ` set fired \<subseteq> core_of ` set (ss_entries (sx_store ctx))) \<and>
    (\<forall>e\<in>set (ss_entries (sx_store ctx)). repeating e \<longrightarrow>
      (case store_remove (sc_id e) (sx_store ctx') of
         (removed, st) \<Rightarrow> removed \<and> (\<forall>f\<in>set (ss_entries st). sc_id f \<noteq> sc_id e)))"
proof -
  from assms(1) obtain m c where l: "flush_loop env fuel 0 False ctx = Inr (m, c)"
    and c: "sx_store ctx' = sx_store c" "sx_inbox ctx' = sx_inbox c"
    by (auto simp: flush_due_to_inbox_def rbind_ok split: if_splits)
  note r = flush_loop_result [OF l assms(2)]
  then have same: "cores repeating (sx_store ctx') = cores repeating (sx_store ctx)" using c by simp
  have "removed \<and> (\<forall>f\<in>set (ss_entries st). sc_id f \<noteq> sc_id e)"
    if e: "e \<in> set (ss_entries (sx_store ctx))" "repeating e" and rem: "store_remove (sc_id e) (sx_store ctx') = (removed, st)"
    for e removed st
  proof -
    have "core_of e \<in># cores repeating (sx_store ctx')" unfolding same using e by (auto simp: cores_def)
    then obtain f where "f \<in> set (ss_entries (sx_store ctx'))" "core_of f = core_of e" by (auto simp: cores_def)
    then have "f \<in> set (ss_entries (sx_store ctx'))" "sc_id f = sc_id e" by (simp_all add: core_of_def)
    then have "length (filter (\<lambda>x. sc_id x \<noteq> sc_id e) (ss_entries (sx_store ctx'))) < length (ss_entries (sx_store ctx'))"
      by (intro length_filter_less [of f]) simp_all
    with rem show ?thesis by (auto simp: store_remove_def Let_def)
  qed
  with same r c show ?thesis by auto
qed

lemma repeating_entry_can_be_stopped_witness:
  "\<exists>ctx'. flush_due_to_inbox plain_env 3 demo_ctx = Inr ctx' \<and> fst (store_remove ''aa'' (sx_store ctx'))"
proof -
  from due_entries_fire_once_witness obtain ctx' where f: "flush_due_to_inbox plain_env 3 demo_ctx = Inr ctx'" by blast
  have "poll \<in> set (ss_entries (sx_store demo_ctx))" "repeating poll" "sc_id poll = ''aa''"
    by (simp_all add: demo_ctx_def repeating_def poll_def new_entry_def)
  with repeating_entry_can_be_stopped [OF f demo_store_ok] have "fst (store_remove ''aa'' (sx_store ctx'))"
    by (metis (no_types, lifting) case_prod_beta)
  with f show ?thesis by auto
qed

text \<open>
  As long as the session's log can be written, resuming the session from the log restores the
  queue exactly as the last operation left it.
\<close>

theorem schedule_restored:
  assumes "sched_reach logging ctx"
  shows "restore_schedule_for_session (sx_log ctx) empty_store = sx_store ctx"
  using sched_reach_mirrored [OF assms] by (simp add: mirrored_def)

lemma schedule_restored_witness: "restore_schedule_for_session (sx_log added_ctx) empty_store = sx_store added_ctx"
  by (rule schedule_restored [OF added_reach])

text \<open>
  The duration grammar accepts exactly values of up to ten years, and an interval as it is printed
  in a listing is read back as the same number of seconds.
\<close>

theorem duration_roundtrip:
  "(\<forall>s n. parse_duration_secs s = Inr n \<longrightarrow> 0 \<le> n \<and> n \<le> MAX_DURATION_SECS) \<and>
   (\<forall>n. 0 < n \<and> n \<le> MAX_DURATION_SECS \<longrightarrow> parse_duration_secs (format_interval n) = Inr n)"
  using parse_duration_bounds parse_format_interval by blast

lemma duration_roundtrip_witness:
  "format_interval 5405 = ''1h 30m 5s'' \<and> parse_duration_secs ''1h 30m 5s'' = Inr 5405 \<and> (5405 :: int) \<le> MAX_DURATION_SECS"
proof -
  have f: "format_interval 5405 = ''1h 30m 5s''" by code_simp
  have "parse_duration_secs ''1h 30m 5s'' = Inr 5405"
    using duration_roundtrip [THEN conjunct2, rule_format, of 5405] f by (simp add: MAX_DURATION_SECS_def)
  with f duration_roundtrip show ?thesis by blast
qed

text \<open>
  A rejected request has no effect, whatever its command and parameters: when the tool replies
  with an error, the queue, the inbox and the log are as before.
\<close>

theorem rejected_request_changes_nothing:
  assumes "execute_schedule_tool env new_id ps ctx = (ToolError err, ctx')"
  shows "ctx' = ctx"
  using tool_effect [of env ctx new_id ps] assms by (auto simp: tool_step_def)

definition bad_params :: json where
  "bad_params = JObj [(''command'', JStr ''add''), (''message'', JStr ''x''), (''when'', JStr ''in 99999999999h'')]"

lemma rejected_request_changes_nothing_witness:
  "execute_schedule_tool plain_env ''aa'' bad_params new_ctx = (ToolError (InvalidWhen DurationTooLarge), new_ctx)"
proof -
  have "fst (execute_schedule_tool plain_env ''aa'' bad_params new_ctx) = ToolError (InvalidWhen DurationTooLarge)"
    by code_simp
  then obtain c where "execute_schedule_tool plain_env ''aa'' bad_params new_ctx = (ToolError (InvalidWhen DurationTooLarge), c)"
    by (metis prod.collapse)
  with rejected_request_changes_nothing [OF this] show ?thesis by simp
qed

text \<open>
  An edit changes the first entry of the given id, exactly in the given fields, and no
  other; an id that no entry has is refused and changes nothing.
\<close>

theorem edit_changes_one_entry:
  assumes "store_edit i d m t v st = (found, st')"
  shows "if found then
      \<exists>k<length (ss_entries st). sc_id (ss_entries st ! k) = i \<and> (\<forall>j<k. sc_id (ss_entries st ! j) \<noteq> i) \<and>
        mset (ss_entries st') = mset ((ss_entries st)[k := edit_entry d m t v (ss_entries st ! k)]) \<and>
        sorted (map sc_trigger_at (ss_entries st'))
    else st' = st \<and> (\<forall>e\<in>set (ss_entries st). sc_id e \<noteq> i)"
proof (cases "position (\<lambda>e. sc_id e = i) (ss_entries st)")
  case None
  with assms show ?thesis by (auto simp: store_edit_def position_None)
next
  case (Some k)
  with assms have "found"
    "ss_entries st' = sort_key sc_trigger_at ((ss_entries st)[k := edit_entry d m t v (ss_entries st ! k)])"
    by (auto simp: store_edit_def)
  with position_Some [OF Some] show ?thesis by (auto intro!: exI [of _ k])
qed

lemma edit_changes_one_entry_witness:
  "\<exists>st'. store_edit ''cc'' None None (Some 0) None (sx_store demo_ctx) = (True, st') \<and>
     sorted (map sc_trigger_at (ss_entries st'))"
proof -
  obtain b st' where e: "store_edit ''cc'' None None (Some 0) None (sx_store demo_ctx) = (b, st')"
    by (cases "store_edit ''cc'' None None (Some 0) None (sx_store demo_ctx)")
  have "later \<in> set (ss_entries (sx_store demo_ctx))" "sc_id later = ''cc''" by (simp_all add: demo_ctx_def entries_defs)
  with edit_changes_one_entry [OF e] have b by (cases b) auto
  with edit_changes_one_entry [OF e] e show ?thesis by auto
qed

section \<open>Gaps\<close>

text \<open>
  An edit of \<open>when\<close> does not make an idle entry a timed one: the reply announces the instant,
  the entry still fires at the next idle only. And the \<open>every\<close> of an edit refuses \<open>idle\<close>, which
  the tool's description offers.
\<close>

definition edit_params :: "string \<Rightarrow> string \<Rightarrow> json" where
  "edit_params field v = JObj [(''command'', JStr ''edit''), (''id'', JStr ''dd''), (field, JStr v)]"

theorem edit_gaps:
  "map sc_trigger_mode (ss_entries (sx_store (snd (execute_schedule_tool plain_env []
     (edit_params ''when'' ''in 5m'') (demo_ctx\<lparr>sx_store := \<lparr>ss_entries = [settle]\<rparr>\<rparr>))))) = [Idle] \<and>
   fst (execute_schedule_tool plain_env [] (edit_params ''every'' ''idle'') demo_ctx) = ToolError (InvalidEvery UnexpectedUnit)"
proof (rule conjI)
  show "map sc_trigger_mode (ss_entries (sx_store (snd (execute_schedule_tool plain_env []
     (edit_params ''when'' ''in 5m'') (demo_ctx\<lparr>sx_store := \<lparr>ss_entries = [settle]\<rparr>\<rparr>))))) = [Idle]" by code_simp
  show "fst (execute_schedule_tool plain_env [] (edit_params ''every'' ''idle'') demo_ctx) = ToolError (InvalidEvery UnexpectedUnit)"
    by code_simp
qed

text \<open>
  Times of day: \<open>12:30\<close> without am or pm is half past midnight, and an hour next to \<open>2 ^ 32\<close> in the
  afternoon wraps around to a valid one.
\<close>

theorem naive_time_quirks:
  "parse_naive_time plain_calendar ''12:30'' = Inr (30 * 60) \<and>
   parse_naive_time plain_calendar ''4294967295pm'' = Inr (11 * 3600)"
proof (rule conjI)
  show "parse_naive_time plain_calendar ''12:30'' = Inr (30 * 60)" by code_simp
  show "parse_naive_time plain_calendar ''4294967295pm'' = Inr (11 * 3600)" by code_simp
qed

end
