(* ===== verification/Detect.thy ===== *)
theory Detect
  imports Json
begin

text \<open>
  The supervisor's detectors (\<open>src/supervisor/detect.rs\<close>): the agent's status line is read and
  hidden, tool rounds are watched for repetition, stalling and unresolved failures, and changes of
  the working tree for verification. Arguments of the model, in the record \<open>detect_env\<close>: the hash of the
  standard library, the iteration order of a hash set, path canonicalisation, the registry of tool servers
  and the registered read-only hints. The derived decoding of the JSON status line is \<open>wire_of\<close>.
\<close>

record detect_env =
  dv_hints :: "string \<rightharpoonup> bool"
  dv_server :: "string \<Rightarrow> string option"
  dv_canonical :: "string \<Rightarrow> string option"
  dv_hash2 :: "string \<Rightarrow> string \<Rightarrow> u64"
  dv_hash_list :: "u64 list \<Rightarrow> u64"
  dv_iter :: "u64 list \<Rightarrow> u64 list"

section \<open>The status line\<close>

datatype self_report = Exploring | Progressing | Blocked | NeedInput | Done

datatype plan_signal = Request | PhaseComplete | Reassess

record self_report_handoff =
  ho_focus :: string
  ho_next :: string
  ho_carry :: "string list"

record parsed_self_report =
  pr_state :: self_report
  pr_handoff :: self_report_handoff
  pr_plan :: "plan_signal option"
  pr_used_memories :: "string list"
  pr_used_behaviors :: "string list"

record wire_self_report =
  wi_state :: string
  wi_focus :: string
  wi_next :: "string option"
  wi_carry :: "string list"
  wi_plan :: "plan_signal option"
  wi_memories :: "string list"
  wi_behaviors :: "string list"

definition from_token :: "string \<Rightarrow> self_report option" where
  "from_token s =
     (let t = to_lower (trim s)
      in if t = ''exploring'' then Some Exploring
         else if t = ''progressing'' then Some Progressing
         else if t = ''blocked'' then Some Blocked
         else if t = ''need_input'' \<or> t = ''need-input'' \<or> t = ''needinput'' then Some NeedInput
         else if t = ''done'' then Some Done
         else None)"

fun as_token :: "self_report \<Rightarrow> string" where
  "as_token Exploring = ''exploring''"
| "as_token Progressing = ''progressing''"
| "as_token Blocked = ''blocked''"
| "as_token NeedInput = ''need_input''"
| "as_token Done = ''done''"

definition SUP_OPEN :: string where "SUP_OPEN = ''<sup>''"
definition SUP_CLOSE :: string where "SUP_CLOSE = ''</sup>''"

definition is_token_char :: "char \<Rightarrow> bool" where
  "is_token_char c \<longleftrightarrow> (let n = of_char c :: nat in (65 \<le> n \<and> n \<le> 90) \<or> (97 \<le> n \<and> n \<le> 122)) \<or>
     c = CHR ''_'' \<or> c = CHR ''-''"

definition leading_state_token :: "string \<Rightarrow> string" where
  "leading_state_token inner = takeWhile is_token_char (trim_start inner)"

text \<open>\<open>trim_start_matches\<close> of the separators: blank, middle dot, bar, colon, dash, tab.\<close>

definition middle_dot :: string where
  "middle_dot = bytes [0xC2, 0xB7]"

definition trim_separators :: "string \<Rightarrow> string" where
  "trim_separators s = strip_front [[CHR 0x20], middle_dot, [CHR 0x7C], '':'', ''-'', [CHR 0x09]] s"

definition parse_legacy_self_report_inner :: "string \<Rightarrow> (self_report \<times> string option) option" where
  "parse_legacy_self_report_inner inner =
     (let lead = leading_state_token inner;
          found = (case from_token lead of
                     Some s \<Rightarrow> Some (s, drop (length lead) inner)
                   | None \<Rightarrow>
                       if to_lower lead = ''state''
                       then (let rest = trim_separators (drop (length lead) inner); token = leading_state_token rest
                             in map_option (\<lambda>s. (s, drop (length token) rest)) (from_token token))
                       else None)
      in map_option (\<lambda>(s, after). let reason = trim (trim_separators after)
           in (s, if reason = [] then None else Some reason)) found)"

definition rfind_str :: "string \<Rightarrow> string \<Rightarrow> nat option" where
  "rfind_str needle s = map_option (\<lambda>i. length s - i - length needle) (find_str (rev needle) (rev s))"

definition non_empty_trimmed :: "string list \<Rightarrow> string list" where
  "non_empty_trimmed xs = filter (\<lambda>x. x \<noteq> []) (map trim xs)"

definition narrow_wire :: "wire_self_report \<Rightarrow> parsed_self_report option" where
  "narrow_wire w = map_option (\<lambda>st. \<lparr>pr_state = st,
     pr_handoff = \<lparr>ho_focus = trim (wi_focus w), ho_next = trim (case wi_next w of Some n \<Rightarrow> n | None \<Rightarrow> []),
       ho_carry = non_empty_trimmed (wi_carry w)\<rparr>,
     pr_plan = wi_plan w, pr_used_memories = non_empty_trimmed (wi_memories w),
     pr_used_behaviors = non_empty_trimmed (wi_behaviors w)\<rparr>) (from_token (wi_state w))"

definition narrow_legacy :: "self_report \<times> string option \<Rightarrow> parsed_self_report" where
  "narrow_legacy p = \<lparr>pr_state = fst p,
     pr_handoff = \<lparr>ho_focus = (case snd p of Some r \<Rightarrow> r | None \<Rightarrow> []), ho_next = [], ho_carry = []\<rparr>,
     pr_plan = None, pr_used_memories = [], pr_used_behaviors = []\<rparr>"

definition parse_self_report_handoff :: "(string \<Rightarrow> wire_self_report option) \<Rightarrow> string \<Rightarrow> parsed_self_report option" where
  "parse_self_report_handoff wire_of msg =
     Option.bind (rfind_str SUP_CLOSE msg) (\<lambda>e.
     Option.bind (rfind_str SUP_OPEN (take e msg)) (\<lambda>i.
       let start = i + length SUP_OPEN; inner = trim (drop start (take e msg))
       in if starts_with inner ''{'' then Option.bind (wire_of inner) narrow_wire
          else map_option narrow_legacy (parse_legacy_self_report_inner inner)))"

definition is_self_report_body :: "string \<Rightarrow> bool" where
  "is_self_report_body inner \<longleftrightarrow>
     (if starts_with (trim_start inner) ''{'' then str_contains inner ([CHR 0x22] @ ''state'' @ [CHR 0x22])
      else let lead = leading_state_token inner
           in from_token lead \<noteq> None \<or> to_lower lead = ''state'' \<or> str_contains inner middle_dot \<or> str_contains inner [CHR 0x7C])"

function strip_loop :: "string \<Rightarrow> string" where
  "strip_loop rest =
     (case find_str SUP_OPEN rest of
        None \<Rightarrow> rest
      | Some start \<Rightarrow>
          (case find_str SUP_CLOSE (drop start rest) of
             None \<Rightarrow> rest
           | Some rel_end \<Rightarrow>
               let inner = drop (start + length SUP_OPEN) (take (start + rel_end) rest);
                   keep_to = start + rel_end + length SUP_CLOSE
               in if is_self_report_body inner then take start rest @ strip_loop (drop keep_to rest)
                  else take keep_to rest @ strip_loop (drop keep_to rest)))"
  by pat_completeness auto
termination
proof (relation "measure length", goal_cases)
  case 1
  then show ?case by simp
next
  case (2 rest start rel_end inner keep_to)
  then have "rest \<noteq> []" by (auto simp: SUP_OPEN_def)
  with 2(4) show ?case by (simp add: SUP_CLOSE_def)
next
  case (3 rest start rel_end inner keep_to)
  then have "rest \<noteq> []" by (auto simp: SUP_OPEN_def)
  with 3(4) show ?case by (simp add: SUP_CLOSE_def)
qed

declare strip_loop.simps [simp del]

definition strip_self_report :: "string \<Rightarrow> string" where
  "strip_self_report msg = trim_end (strip_loop msg)"

section \<open>Classifying calls\<close>

definition register_tool_read_only_hint :: "string \<Rightarrow> bool option \<Rightarrow> (string \<rightharpoonup> bool) \<Rightarrow> (string \<rightharpoonup> bool)" where
  "register_tool_read_only_hint tool read_only hints =
     (case read_only of None \<Rightarrow> hints | Some b \<Rightarrow> hints(tool \<mapsto> b))"

definition is_upper :: "char \<Rightarrow> bool" where
  "is_upper c \<longleftrightarrow> 65 \<le> (of_char c :: nat) \<and> (of_char c :: nat) \<le> 90"

definition is_lower :: "char \<Rightarrow> bool" where
  "is_lower c \<longleftrightarrow> 97 \<le> (of_char c :: nat) \<and> (of_char c :: nat) \<le> 122"

fun normalize_words :: "bool \<Rightarrow> string \<Rightarrow> string" where
  "normalize_words previous_lowercase [] = []"
| "normalize_words previous_lowercase (c # cs) =
     (if is_upper c \<and> previous_lowercase then [CHR 0x20] else []) @
     (if is_upper c \<or> is_lower c \<or> is_digit c then lower_char c # normalize_words (is_lower c) cs
      else CHR 0x20 # normalize_words False cs)"

definition mutation_intents :: "string list" where
  "mutation_intents =
     [''write'', ''edit'', ''create'', ''replace'', ''apply'', ''insert'', ''delete'', ''remove'', ''patch'',
      ''mkdir'', ''rename'', ''move'', ''update'', ''set'', ''send'', ''publish'', ''post'', ''upload'',
      ''schedule'', ''book'', ''approve'', ''reject'', ''cancel'', ''deploy'', ''install'', ''commit'', ''push'',
      ''merge'']"

definition contains_mutation_intent :: "string \<Rightarrow> bool" where
  "contains_mutation_intent value \<longleftrightarrow>
     list_ex (\<lambda>token. token \<in> set mutation_intents) (split_whitespace (normalize_words False value))"

definition str_field :: "string \<Rightarrow> json \<Rightarrow> string option" where
  "str_field k j = Option.bind (json_get k j) json_as_str"

definition has_explicit_mutation_intent :: "string \<Rightarrow> json \<Rightarrow> bool" where
  "has_explicit_mutation_intent tool parameters \<longleftrightarrow>
     contains_mutation_intent tool \<or>
     list_ex (\<lambda>key. case str_field key parameters of Some v \<Rightarrow> contains_mutation_intent v | None \<Rightarrow> False)
       [''command'', ''action'', ''operation'']"

definition is_mutation_call :: "detect_env \<Rightarrow> string \<Rightarrow> json \<Rightarrow> bool" where
  "is_mutation_call env tool parameters =
     (case dv_hints env tool of
        Some read_only \<Rightarrow> \<not> read_only
      | None \<Rightarrow> has_explicit_mutation_intent tool parameters)"

definition control_plane_servers :: "string list" where
  "control_plane_servers = [''core'', ''runtime'', ''orchestration'', ''agent'']"

definition is_verifier_shaped :: "detect_env \<Rightarrow> string \<Rightarrow> json \<Rightarrow> bool" where
  "is_verifier_shaped env tool parameters =
     (case str_field ''command'' parameters of
        None \<Rightarrow> False
      | Some cmd \<Rightarrow>
          if is_mutation_call env tool parameters then False
          else if is_blank cmd then False
          else (case dv_server env tool of
                  Some server \<Rightarrow> server \<notin> set control_plane_servers
                | None \<Rightarrow> True))"

definition verifier_key :: "detect_env \<Rightarrow> string \<Rightarrow> json \<Rightarrow> u64 option" where
  "verifier_key env tool parameters =
     (if \<not> is_verifier_shaped env tool parameters then None
      else map_option (\<lambda>command. dv_hash2 env tool (trim command)) (str_field ''command'' parameters))"

definition value_paths :: "json \<Rightarrow> string list" where
  "value_paths v =
     (case v of
        JStr s \<Rightarrow> if is_blank s then [] else [s]
      | JArr vs \<Rightarrow> filter (\<lambda>s. \<not> is_blank s) (List.map_filter json_as_str vs)
      | _ \<Rightarrow> [])"

definition param_paths :: "json \<Rightarrow> string list" where
  "param_paths parameters =
     (case parameters of
        JObj kvs \<Rightarrow> concat (map (\<lambda>(k, v).
          if str_contains (to_lower k) ''path'' \<or> str_contains (to_lower k) ''file'' then value_paths v else []) kvs)
      | _ \<Rightarrow> [])"

definition normalize_path :: "detect_env \<Rightarrow> string \<Rightarrow> string" where
  "normalize_path env path =
     (case dv_canonical env (trim path) of Some p \<Rightarrow> p | None \<Rightarrow> strip_front [''./''] (trim path))"

section \<open>The detectors\<close>

definition SEEN_CAP :: nat where "SEEN_CAP = 128"
definition MUTATED_PATHS_CAP :: nat where "MUTATED_PATHS_CAP = 32"
definition FAILED_VERIFIERS_CAP :: nat where "FAILED_VERIFIERS_CAP = 64"

record detectors =
  dt_loop_window :: "u64 list"
  dt_novelty_window :: "bool list"
  dt_seen :: "u64 set"
  dt_seen_order :: "u64 list"
  dt_verified_fp :: "u64 option"
  dt_agent_dirty :: bool
  dt_mutated_paths :: "string list"
  dt_readback_only_clearance :: bool
  dt_failed_verifiers :: "u64 set"
  dt_failed_verifier_rounds :: nat

definition new_detectors :: detectors where
  "new_detectors = \<lparr>dt_loop_window = [], dt_novelty_window = [], dt_seen = {}, dt_seen_order = [],
     dt_verified_fp = None, dt_agent_dirty = False, dt_mutated_paths = [], dt_readback_only_clearance = False,
     dt_failed_verifiers = {}, dt_failed_verifier_rounds = 0\<rparr>"

datatype detector_signal = NoSignal | Loop | NoProgress | Recovery

fun priority :: "detector_signal \<Rightarrow> nat" where
  "priority NoSignal = 0"
| "priority Recovery = 1"
| "priority NoProgress = 2"
| "priority Loop = 3"

definition merge_signal :: "detector_signal \<Rightarrow> detector_signal \<Rightarrow> detector_signal" where
  "merge_signal a b = (if priority a < priority b then b else a)"

definition note_call ::
  "detect_env \<Rightarrow> string \<Rightarrow> string \<Rightarrow> bool \<Rightarrow> bool \<Rightarrow> detectors \<Rightarrow> (u64 \<times> bool) \<times> detectors" where
  "note_call env tool result is_error is_mutation d =
     (let rhash = dv_hash2 env tool result;
          fresh = (rhash \<notin> dt_seen d);
          d = (if fresh
               then (let order = dt_seen_order d @ [rhash]; seen = insert rhash (dt_seen d)
                     in if SEEN_CAP < length order
                        then d\<lparr>dt_seen_order := tl order, dt_seen := seen - {hd order}\<rparr>
                        else d\<lparr>dt_seen_order := order, dt_seen := seen\<rparr>)
               else d)
      in ((rhash, is_mutation \<or> (\<not> is_error \<and> fresh)), d))"

text \<open>A bounded window: push at the back, pop from the front while it is longer than \<open>n\<close>, at least 1.\<close>

definition push_window :: "nat \<Rightarrow> 'a \<Rightarrow> 'a list \<Rightarrow> 'a list" where
  "push_window n x w = drop (length w + 1 - max n 1) (w @ [x])"

definition record_round_signals ::
  "detect_env \<Rightarrow> u64 list \<Rightarrow> bool \<Rightarrow> nat \<Rightarrow> nat \<Rightarrow> detectors \<Rightarrow> detector_signal \<times> detectors" where
  "record_round_signals env call_hashes round_novel loop_threshold no_progress_window d =
     (let round_hash = dv_hash_list env (sort call_hashes);
          loop_window = push_window loop_threshold round_hash (dt_loop_window d);
          looping = (0 < loop_threshold \<and> loop_threshold \<le> length loop_window \<and> list_all (\<lambda>h. h = round_hash) loop_window);
          novelty_window = push_window no_progress_window round_novel (dt_novelty_window d);
          stalled = (0 < no_progress_window \<and> no_progress_window \<le> length novelty_window \<and> list_all Not novelty_window)
      in (if looping then Loop else if stalled then NoProgress else NoSignal,
          d\<lparr>dt_loop_window := loop_window, dt_novelty_window := novelty_window\<rparr>))"

fun note_paths :: "string list \<Rightarrow> string list \<Rightarrow> string list" where
  "note_paths [] paths = paths"
| "note_paths (n # ns) paths =
     (if n = [] \<or> n \<in> set paths then note_paths ns paths
      else note_paths ns ((if MUTATED_PATHS_CAP \<le> length paths then tl paths else paths) @ [n]))"

definition note_mutated_paths :: "detect_env \<Rightarrow> json \<Rightarrow> detectors \<Rightarrow> detectors" where
  "note_mutated_paths env parameters d =
     d\<lparr>dt_mutated_paths := note_paths (map (normalize_path env) (param_paths parameters)) (dt_mutated_paths d)\<rparr>"

definition add_failed :: "u64 \<Rightarrow> u64 set \<Rightarrow> u64 set" where
  "add_failed key failed = (if card failed < FAILED_VERIFIERS_CAP \<or> key \<in> failed then insert key failed else failed)"

definition record_round_verifier_outcomes ::
  "detect_env \<Rightarrow> (u64 \<times> bool) list \<Rightarrow> nat \<Rightarrow> detectors \<Rightarrow> detector_signal \<times> detectors" where
  "record_round_verifier_outcomes env outcomes threshold d =
     (if outcomes = [] then (NoSignal, d)
      else let failed = map fst (filter (\<lambda>(key, success). \<not> success) outcomes);
               succeeded = map fst (filter (\<lambda>(key, success). success) outcomes);
               kept = dt_failed_verifiers d - (set succeeded - set failed);
               verifiers = fold add_failed (dv_iter env (remdups failed)) kept;
               rounds = (if failed \<noteq> [] then min usize_max (dt_failed_verifier_rounds d + 1)
                         else dt_failed_verifier_rounds d);
               rounds = (if verifiers = {} then 0 else rounds);
               fire = (0 < threshold \<and> threshold \<le> rounds)
           in (if fire then Recovery else NoSignal,
               d\<lparr>dt_failed_verifiers := verifiers, dt_failed_verifier_rounds := (if fire then 0 else rounds)\<rparr>))"

definition is_readback_call :: "detect_env \<Rightarrow> json \<Rightarrow> bool \<Rightarrow> bool \<Rightarrow> detectors \<Rightarrow> bool" where
  "is_readback_call env parameters is_mutation is_error d \<longleftrightarrow>
     \<not> (is_mutation \<or> is_error \<or> dt_mutated_paths d = []) \<and>
     list_ex (\<lambda>n. n \<in> set (dt_mutated_paths d)) (map (normalize_path env) (param_paths parameters))"

text \<open>What the runtime saw of one round of calls.\<close>

record round_facts =
  rf_before :: "u64 option"
  rf_after :: "u64 option"
  rf_verifier_ok :: bool
  rf_readback_ok :: bool
  rf_mutation_ok :: bool
  rf_delegated_ok :: bool
  rf_write_capable :: bool

definition tree_unchanged :: "round_facts \<Rightarrow> bool" where
  "tree_unchanged r =
     (case (rf_before r, rf_after r) of (Some a, Some b) \<Rightarrow> a = b | _ \<Rightarrow> \<not> rf_mutation_ok r)"

definition round_delegated :: "round_facts \<Rightarrow> bool" where
  "round_delegated r \<longleftrightarrow> rf_delegated_ok r \<and> \<not> rf_mutation_ok r"

definition round_verifies :: "round_facts \<Rightarrow> bool" where
  "round_verifies r \<longleftrightarrow> round_delegated r \<or> (rf_verifier_ok r \<or> rf_readback_ok r) \<and> tree_unchanged r"

definition note_round_verification :: "round_facts \<Rightarrow> detectors \<Rightarrow> detectors" where
  "note_round_verification r d =
     (let d = (if dt_verified_fp d = None \<and> rf_before r \<noteq> None then d\<lparr>dt_verified_fp := rf_before r\<rparr> else d)
      in if round_verifies r
         then (let d = (if rf_after r \<noteq> None then d\<lparr>dt_verified_fp := rf_after r\<rparr> else d);
                   d = (if dt_agent_dirty d
                        then d\<lparr>dt_readback_only_clearance := (rf_readback_ok r \<and> \<not> rf_verifier_ok r \<and> \<not> round_delegated r)\<rparr>
                        else d)
               in d\<lparr>dt_agent_dirty := False, dt_mutated_paths := []\<rparr>)
         else if \<not> tree_unchanged r \<and> rf_write_capable r then d\<lparr>dt_agent_dirty := True\<rparr>
         else d)"

definition reset_streak :: "detectors \<Rightarrow> detectors" where
  "reset_streak d = d\<lparr>dt_novelty_window := [], dt_loop_window := [], dt_agent_dirty := False, dt_mutated_paths := [],
     dt_readback_only_clearance := False, dt_failed_verifiers := {}, dt_failed_verifier_rounds := 0\<rparr>"

definition needs_verification :: "u64 option \<Rightarrow> detectors \<Rightarrow> bool" where
  "needs_verification fp_now d \<longleftrightarrow>
     dt_agent_dirty d \<and>
     (case (fp_now, dt_verified_fp d) of (Some now, Some verified) \<Rightarrow> now \<noteq> verified | _ \<Rightarrow> True)"

definition cleared_by_readback_only :: "detectors \<Rightarrow> bool" where
  "cleared_by_readback_only d = dt_readback_only_clearance d"

section \<open>Steering\<close>

definition should_steer :: "detector_signal \<Rightarrow> self_report option \<Rightarrow> bool" where
  "should_steer signal report \<longleftrightarrow>
     signal \<noteq> NoSignal \<and> report \<noteq> Some Done \<and> \<not> (report = Some Exploring \<and> signal = NoProgress)"

fun signal_description :: "detector_signal \<Rightarrow> string" where
  "signal_description Loop = ''repeated action without new results''"
| "signal_description NoProgress = ''no new information in recent steps''"
| "signal_description Recovery =
     ''verification keeps failing '' @ long_dash @ '' unresolved checks need a different recovery strategy''"
| "signal_description NoSignal = []"

definition PERSISTENT_VARIANTS :: "string list" where
  "PERSISTENT_VARIANTS = [
     ''<pay-attention>'' @ newline @
     ''You have been steered several times here and have not broken out '' @ long_dash @
     '' small adjustments are not working. Stop iterating on the same approach: '' @
     ''either take a fundamentally different path to the goal, or report `blocked` '' @
     ''and name the single obstacle in your way.'' @ newline @ ''</pay-attention>'',
     ''<pay-attention>'' @ newline @ ''Same approach, same wall '' @ long_dash @
     '' the repeated nudges have not changed the outcome. Do not retry a '' @
     ''near-identical call again. Either switch to a fundamentally different '' @
     ''strategy (a different tool, scope, or sub-goal), or stop and report `blocked` '' @
     ''with the one concrete thing standing in your way.'' @ newline @ ''</pay-attention>'',
     ''<pay-attention>'' @ newline @
     ''You are repeating work that has not moved the task despite several '' @
     ''course-corrections. Pause and decide, in one line, the single obstacle in '' @
     ''your way. If a fundamentally different path to the goal exists, take it now; '' @
     ''if it does not, report `blocked` instead of trying the same thing again.'' @ newline @
     ''</pay-attention>'']"

definition CONFLICT_VARIANTS :: "string list" where
  "CONFLICT_VARIANTS = [
     ''<pay-attention>'' @ newline @
     ''You reported you are making progress, but the last several actions added '' @
     ''nothing new '' @ long_dash @
     '' your self-assessment and what the actions show disagree. Check which is '' @
     ''right before continuing.'' @ newline @ ''</pay-attention>'',
     ''<pay-attention>'' @ newline @
     ''You report progressing, yet no new information has appeared. Name in one line '' @
     ''the concrete result your recent steps produced. If you cannot, the work has '' @
     ''stalled '' @ long_dash @
     '' take a single different step that visibly moves the goal, not another like '' @
     ''the ones that yielded nothing.'' @ newline @ ''</pay-attention>'',
     ''<pay-attention>'' @ newline @
     ''Your actions are not advancing the task despite a `progressing` report. '' @
     ''Re-anchor: state the goal, what is actually done, and the one next step that '' @
     ''moves it '' @ long_dash @
     '' then take it. If nothing does, report `blocked` with what is missing.'' @ newline @
     ''</pay-attention>'']"

definition loop_variants :: "string list" where
  "loop_variants = [
     ''<pay-attention>'' @ newline @
     ''This result is identical to one already in your context '' @ long_dash @
     '' the last call added nothing, so the current approach has stalled. Reconsider '' @
     ''what is actually blocking progress before the next call.'' @ newline @
     ''</pay-attention>'',
     ''<pay-attention>'' @ newline @ ''Same result again '' @ long_dash @
     '' you are repeating a call that already failed to advance the task. In one '' @
     ''sentence, name why it failed. Then change one concrete thing on the next call '' @
     long_dash @ '' a different tool, different arguments, or a different sub-goal '' @
     long_dash @ '' that approaches the goal a new way.'' @ newline @ ''</pay-attention>'',
     ''<pay-attention>'' @ newline @
     ''This is a loop: the same call keeps returning the same result. Make a '' @
     ''different call that approaches the goal another way '' @ long_dash @
     '' a different tool, scope, or sub-goal '' @ long_dash @
     '' or report `blocked` with the one obstacle stopping you.'' @ newline @
     ''</pay-attention>'']"

definition no_progress_variants :: "string list" where
  "no_progress_variants = [
     ''<pay-attention>'' @ newline @ ''The last few steps surfaced nothing new '' @ long_dash @
     '' this line of inquiry looks exhausted. Consider whether it can still reach '' @
     ''what you need.'' @ newline @ ''</pay-attention>'',
     ''<pay-attention>'' @ newline @
     ''Still nothing new. Name in one line what you still need but have not found, '' @
     ''then take a single concrete step toward the goal using what you already know '' @
     long_dash @ '' a decision or an action, not another exploratory probe.'' @ newline @
     ''</pay-attention>'',
     ''<pay-attention>'' @ newline @ ''This exploration has stalled. Re-anchor on the user'' @
     [CHR 0x27] @
     ''s actual request: state the goal in one line, what is done, and the one next '' @
     ''step that delivers it '' @ long_dash @
     '' then take it. If no such step exists, report `blocked` with what is missing.'' @
     newline @ ''</pay-attention>'']"

definition recovery_variants :: "string list" where
  "recovery_variants = [
     ''<pay-attention>'' @ newline @
     ''Several command-shaped checks have failed, and unrelated successful calls do '' @
     ''not resolve them. Use the latest failure to isolate one concrete cause, '' @
     ''change that cause, then rerun the narrowest check that proves it. Do not '' @
     ''repeat a broad check until relevant state has changed.'' @ newline @ ''</pay-attention>'',
     ''<pay-attention>'' @ newline @
     ''The verification failures remain unresolved. Stop broad trial-and-error: name '' @
     ''the single failing behavior you are fixing now, trace it to its owning '' @
     ''source, make one focused correction, and run the smallest check that can '' @
     ''confirm or reject that correction.'' @ newline @ ''</pay-attention>'',
     ''<pay-attention>'' @ newline @
     ''This recovery strategy is still producing failed checks. Re-anchor on the '' @
     ''latest concrete failure and take a fundamentally different diagnostic or '' @
     ''implementation path. Continue only with a focused cause-and-check loop, or '' @
     ''report the specific blocker instead of accumulating more broad retries.'' @ newline @
     ''</pay-attention>'']"

definition PERSISTENT_ATTEMPT :: nat where "PERSISTENT_ATTEMPT = 3"

definition is_stuck :: "detector_signal \<Rightarrow> bool" where
  "is_stuck signal \<longleftrightarrow> signal \<in> {Loop, NoProgress, Recovery}"

definition clamp_nth :: "'a list \<Rightarrow> nat \<Rightarrow> 'a" where
  "clamp_nth xs i = xs ! min i (length xs - 1)"

definition steer_note :: "detector_signal \<Rightarrow> self_report option \<Rightarrow> nat \<Rightarrow> string" where
  "steer_note signal report attempt =
     (if is_stuck signal \<and> PERSISTENT_ATTEMPT \<le> attempt
      then PERSISTENT_VARIANTS ! ((attempt - PERSISTENT_ATTEMPT) mod length PERSISTENT_VARIANTS)
      else if signal = NoProgress \<and> report = Some Progressing then clamp_nth CONFLICT_VARIANTS attempt
      else (case signal of
              Loop \<Rightarrow> clamp_nth loop_variants attempt
            | NoProgress \<Rightarrow> clamp_nth no_progress_variants attempt
            | Recovery \<Rightarrow> clamp_nth recovery_variants attempt
            | NoSignal \<Rightarrow> []))"

text \<open>The identity of a round's calls: tool and serialized parameters, in any order.\<close>

definition call_set_hash :: "detect_env \<Rightarrow> (json \<Rightarrow> string) \<Rightarrow> (string \<times> json) list \<Rightarrow> u64" where
  "call_set_hash env text_of calls =
     dv_hash_list env (sort (map (\<lambda>(tool, parameters). dv_hash2 env tool (text_of parameters)) calls))"

end
