(* ===== verification/Resolve.thy ===== *)
theory Resolve
  imports Messages Detect
begin

text \<open>
  Turn resolution (\<open>src/supervisor/resolve.rs\<close>): what the current user turn asks for, resolved once per turn,
  and the verification policy it may change (\<open>src/supervisor/mod.rs\<close>). The model call is the argument \<open>ask\<close>, a
  function of the prompt and its payload; the derived decodings of its two answers are \<open>classifier_of\<close> and
  \<open>resolver_of\<close>, and \<open>text_of\<close> is the serializer of \<open>serde_json\<close>. Whatever the model answers, the turn is resolved.
\<close>

section \<open>Verification policy\<close>

datatype verification_policy = Unspecified | Forbidden | Allowed

datatype verification_policy_update = Unchanged | Forbid | Allow

definition policy_forbids :: "verification_policy \<Rightarrow> bool" where
  "policy_forbids p \<longleftrightarrow> p = Forbidden"

fun policy_as_str :: "verification_policy \<Rightarrow> string" where
  "policy_as_str Unspecified = ''unspecified''"
| "policy_as_str Forbidden = ''forbidden''"
| "policy_as_str Allowed = ''allowed''"

definition policy_effective :: "bool \<Rightarrow> verification_policy \<Rightarrow> verification_policy" where
  "policy_effective current_turn_forbids p = (if current_turn_forbids then Forbidden else p)"

definition policy_apply :: "verification_policy_update \<Rightarrow> verification_policy \<Rightarrow> bool \<times> verification_policy" where
  "policy_apply update p =
     (let q = (case update of
                 Unchanged \<Rightarrow> p
               | Forbid \<Rightarrow> Forbidden
               | Allow \<Rightarrow> if p = Forbidden then Allowed else p)
      in (q \<noteq> p, q))"

section \<open>Bounded text\<close>

definition truncate_chars :: "nat \<Rightarrow> string \<Rightarrow> string" where
  "truncate_chars n input = (if count_chars input \<le> n then input else take_chars n input @ ellipsis)"

definition skip_chars :: "nat \<Rightarrow> string \<Rightarrow> string" where
  "skip_chars n s = drop (length (take_chars n s)) s"

definition truncate_head_tail :: "nat \<Rightarrow> string \<Rightarrow> string" where
  "truncate_head_tail n input =
     (if count_chars input \<le> n then input
      else let head_len = n div 2; tail_len = n - head_len
           in take_chars head_len input @ newline @ ellipsis @ newline @
              skip_chars (count_chars input - tail_len) input)"

definition ROLE_CONTEXT_CHARS :: nat where "ROLE_CONTEXT_CHARS = 4000"

definition role_context :: "'x message list \<Rightarrow> string" where
  "role_context messages =
     (case find (\<lambda>m. msg_role m = ''system'') messages of
        None \<Rightarrow> []
      | Some m \<Rightarrow>
          let trimmed = trim (msg_content m)
          in if count_chars trimmed \<le> ROLE_CONTEXT_CHARS then trimmed else take_chars ROLE_CONTEXT_CHARS trimmed)"

section \<open>The turn and its context\<close>

definition HISTORY_TURN_CAP :: nat where "HISTORY_TURN_CAP = 3"
definition HISTORY_ITEM_CHARS :: nat where "HISTORY_ITEM_CHARS = 1500"
definition POLICY_HISTORY_TURN_CAP :: nat where "POLICY_HISTORY_TURN_CAP = 8"
definition POLICY_HISTORY_ITEM_CHARS :: nat where "POLICY_HISTORY_ITEM_CHARS = 1000"
definition SESSION_CONTEXT_CHARS :: nat where "SESSION_CONTEXT_CHARS = 6000"
definition RESOLVED_REQUEST_CHARS :: nat where "RESOLVED_REQUEST_CHARS = 8000"
definition RESOLUTION_EVIDENCE_CHARS :: nat where "RESOLUTION_EVIDENCE_CHARS = 500"

datatype resolution_scope = SelfContained | FollowUp | Ambiguous

fun scope_as_str :: "resolution_scope \<Rightarrow> string" where
  "scope_as_str SelfContained = ''self_contained''"
| "scope_as_str FollowUp = ''follow_up''"
| "scope_as_str Ambiguous = ''ambiguous''"

record task_context =
  tc_current_request :: string
  tc_recent_history :: string
  tc_session_context :: string
  tc_active_plan :: string
  tc_role_context :: string
  tc_verification_policy :: verification_policy
  tc_recent_user_policy_context :: "string list"

record resolution_evidence =
  re_source :: string
  re_excerpt :: string

record resolved_task =
  rt_original_request :: string
  rt_resolved_request :: string
  rt_scope :: resolution_scope
  rt_context_sources :: "string list"
  rt_resolution_evidence :: "resolution_evidence list"
  rt_plan_relevant :: bool
  rt_plan_at_turn_start :: string
  rt_forbids_verification :: bool
  rt_verification_policy_update :: verification_policy_update
  rt_answer_only :: bool
  rt_evidence_conditions :: "string list"
  rt_operational_constraints :: "string list"

definition self_contained :: "string \<Rightarrow> resolved_task" where
  "self_contained request = \<lparr>rt_original_request = request, rt_resolved_request = request, rt_scope = SelfContained,
     rt_context_sources = [], rt_resolution_evidence = [], rt_plan_relevant = False, rt_plan_at_turn_start = [],
     rt_forbids_verification = False, rt_verification_policy_update = Unchanged, rt_answer_only = False,
     rt_evidence_conditions = [], rt_operational_constraints = []\<rparr>"

definition ambiguous :: "string \<Rightarrow> string \<Rightarrow> resolved_task" where
  "ambiguous request active_plan = \<lparr>rt_original_request = request, rt_resolved_request = request, rt_scope = Ambiguous,
     rt_context_sources = [], rt_resolution_evidence = [], rt_plan_relevant = False, rt_plan_at_turn_start = active_plan,
     rt_forbids_verification = False, rt_verification_policy_update = Unchanged, rt_answer_only = False,
     rt_evidence_conditions = [], rt_operational_constraints = []\<rparr>"

definition plan_applies :: "resolved_task \<Rightarrow> string \<Rightarrow> bool" where
  "plan_applies task live_plan \<longleftrightarrow>
     live_plan \<noteq> [] \<and>
     (live_plan \<noteq> rt_plan_at_turn_start task \<or> (rt_plan_relevant task \<and> \<not> rt_answer_only task))"

text \<open>The turns of a history: finished ones, newest last, and the one being collected.\<close>

fun collect_turns ::
  "'x message list \<Rightarrow> (string \<times> string option) list \<Rightarrow> (string \<times> string option) option \<Rightarrow> (string \<times> string option) list" where
  "collect_turns [] turns current = turns @ (case current of Some turn \<Rightarrow> [turn] | None \<Rightarrow> [])"
| "collect_turns (m # ms) turns current =
     (if is_real_user_task_message m
      then collect_turns ms (turns @ (case current of Some turn \<Rightarrow> [turn] | None \<Rightarrow> []))
             (Some (truncate_chars HISTORY_ITEM_CHARS (trim (msg_content m)), None))
      else if msg_role m = ''assistant'' \<and> \<not> is_blank (msg_content m)
      then collect_turns ms turns
             (map_option (\<lambda>turn. (fst turn, Some (truncate_chars HISTORY_ITEM_CHARS (trim (msg_content m))))) current)
      else collect_turns ms turns current)"

definition turn_lines :: "string \<times> string option \<Rightarrow> string" where
  "turn_lines turn = ''Earlier user: '' @ fst turn @ newline @
     (case snd turn of Some answer \<Rightarrow> ''Earlier assistant: '' @ answer @ newline | None \<Rightarrow> [])"

definition render_recent_history :: "'x message list \<Rightarrow> string" where
  "render_recent_history messages =
     (let turns = collect_turns messages [] None
      in concat (map turn_lines (drop (length turns - HISTORY_TURN_CAP) turns)))"

definition recent_real_user_turns :: "'x message list \<Rightarrow> string list" where
  "recent_real_user_turns messages =
     rev (map (\<lambda>m. truncate_head_tail POLICY_HISTORY_ITEM_CHARS (trim (msg_content m)))
            (take POLICY_HISTORY_TURN_CAP (filter is_real_user_task_message (rev messages))))"

definition capture :: "'x message list \<Rightarrow> string \<Rightarrow> string option \<Rightarrow> verification_policy \<Rightarrow> task_context option" where
  "capture messages session_context active_plan policy =
     Option.bind (latest_task_turn_index messages) (\<lambda>i.
     Option.bind (latest_real_user_task_content messages) (\<lambda>current_request.
       Some \<lparr>tc_current_request = current_request,
         tc_recent_history = render_recent_history (take i messages),
         tc_session_context = truncate_chars SESSION_CONTEXT_CHARS (trim session_context),
         tc_active_plan = (case active_plan of Some p \<Rightarrow> trim p | None \<Rightarrow> []),
         tc_role_context = role_context messages,
         tc_verification_policy = policy,
         tc_recent_user_policy_context =
           (if policy = Unspecified then recent_real_user_turns (take i messages) else [])\<rparr>))"

definition render_classification_payload :: "(json \<Rightarrow> string) \<Rightarrow> task_context \<Rightarrow> string" where
  "render_classification_payload text_of c =
     text_of (JObj [
       (''current_user_request'', JStr (tc_current_request c)),
       (''recent_user_policy_context'', JArr (map JStr (tc_recent_user_policy_context c))),
       (''role_context'', JStr (tc_role_context c)),
       (''verification_policy'', JStr (policy_as_str (tc_verification_policy c)))])"

definition render_resolution_payload :: "(json \<Rightarrow> string) \<Rightarrow> task_context \<Rightarrow> string" where
  "render_resolution_payload text_of c =
     text_of (JObj [
       (''active_plan'', JStr (tc_active_plan c)),
       (''current_user_request'', JStr (tc_current_request c)),
       (''recent_history'', JStr (tc_recent_history c)),
       (''role_context'', JStr (tc_role_context c)),
       (''session_context'', JStr (tc_session_context c))])"

section \<open>The answers of the model\<close>

record classifier_output =
  co_scope :: string
  co_forbids_verification :: bool
  co_verification_policy_update :: string
  co_verification_policy_evidence :: string
  co_answer_only :: bool
  co_conditions :: "string list"
  co_operational_constraints :: "string list"

record resolver_output =
  ro_scope :: string
  ro_resolved_request :: string
  ro_evidence :: "resolution_evidence list"
  ro_plan_relevant :: bool

record classifier_verdict =
  cv_context_dependent :: bool
  cv_forbids_verification :: bool
  cv_verification_policy_update :: verification_policy_update
  cv_verification_policy_evidence :: string
  cv_answer_only :: bool
  cv_conditions :: "string list"
  cv_operational_constraints :: "string list"

datatype resolve_prompt = ClassifierPrompt | FollowupPrompt

record resolve_env =
  rv_text_of :: "json \<Rightarrow> string"
  rv_classifier_of :: "string \<Rightarrow> classifier_output option"
  rv_resolver_of :: "string \<Rightarrow> resolver_output option"
  rv_ask :: "resolve_prompt \<Rightarrow> string \<Rightarrow> string + string"

definition classifier_fallback :: classifier_verdict where
  "classifier_fallback = \<lparr>cv_context_dependent = False, cv_forbids_verification = False,
     cv_verification_policy_update = Unchanged, cv_verification_policy_evidence = [], cv_answer_only = False,
     cv_conditions = [], cv_operational_constraints = []\<rparr>"

text \<open>
  \<open>&response[start..=end]\<close> from the first opening to the last closing brace; the slice panics when the last
  closing brace comes before the first opening one.
\<close>

datatype json_slice = NoObject | SlicePanics | Object string

definition object_slice :: "string \<Rightarrow> json_slice" where
  "object_slice response =
     (case (find_str ''{'' response, rfind_str ''}'' response) of
        (Some start, Some e) \<Rightarrow>
          if start \<le> e + 1 then Object (drop start (take (e + 1) response)) else SlicePanics
      | _ \<Rightarrow> NoObject)"

definition bounded_items :: "nat \<Rightarrow> string list \<Rightarrow> string list" where
  "bounded_items n xs = take n (non_empty_trimmed xs)"

definition verdict_of_output :: "classifier_output \<Rightarrow> classifier_verdict" where
  "verdict_of_output p = \<lparr>
     cv_context_dependent = (to_lower (trim (co_scope p)) = ''context_dependent''),
     cv_forbids_verification = co_forbids_verification p,
     cv_verification_policy_update =
       (let value = to_lower (trim (co_verification_policy_update p))
        in if value = ''forbid'' then Forbid else if value = ''allow'' then Allow else Unchanged),
     cv_verification_policy_evidence = co_verification_policy_evidence p,
     cv_answer_only = co_answer_only p,
     cv_conditions = (if co_answer_only p then [] else bounded_items 24 (co_conditions p)),
     cv_operational_constraints = bounded_items 4 (co_operational_constraints p)\<rparr>"

text \<open>The error of these functions is the panic of the slice.\<close>

definition parse_classifier_checked :: "resolve_env \<Rightarrow> string \<Rightarrow> unit + classifier_verdict option" where
  "parse_classifier_checked env response =
     (case object_slice response of
        NoObject \<Rightarrow> Inr None
      | SlicePanics \<Rightarrow> Inl ()
      | Object s \<Rightarrow> Inr (map_option verdict_of_output (rv_classifier_of env s)))"

definition quotes :: "string \<Rightarrow> string \<Rightarrow> bool" where
  "quotes evidence text \<longleftrightarrow>
     evidence \<noteq> [] \<and> count_chars evidence \<le> RESOLUTION_EVIDENCE_CHARS \<and> str_contains text evidence"

definition validate_policy_update :: "task_context \<Rightarrow> classifier_verdict \<Rightarrow> classifier_verdict" where
  "validate_policy_update c v =
     (if cv_verification_policy_update v = Unchanged then v
      else let evidence = trim (cv_verification_policy_evidence v);
               current_supports = quotes evidence (tc_current_request c);
               legacy_supports = (tc_verification_policy c = Unspecified \<and>
                 list_ex (quotes evidence) (tc_recent_user_policy_context c))
           in if \<not> current_supports \<and> \<not> legacy_supports then v\<lparr>cv_verification_policy_update := Unchanged\<rparr> else v)"

definition haystack_of :: "task_context \<Rightarrow> string \<Rightarrow> string option" where
  "haystack_of c source =
     (if source = ''recent_history'' then Some (tc_recent_history c)
      else if source = ''session_context'' then Some (tc_session_context c)
      else if source = ''active_plan'' then Some (tc_active_plan c)
      else if source = ''role_context'' then Some (tc_role_context c)
      else None)"

definition add_once :: "'a \<Rightarrow> 'a list \<Rightarrow> 'a list" where
  "add_once x xs = (if x \<in> set xs then xs else xs @ [x])"

fun verified_evidence ::
  "task_context \<Rightarrow> resolution_evidence list \<Rightarrow> string list \<Rightarrow> resolution_evidence list \<Rightarrow>
   string list \<times> resolution_evidence list" where
  "verified_evidence c [] sources kept = (sources, kept)"
| "verified_evidence c (e # es) sources kept =
     (let source = trim (re_source e); excerpt = trim (re_excerpt e)
      in case haystack_of c source of
           None \<Rightarrow> verified_evidence c es sources kept
         | Some haystack \<Rightarrow>
             if quotes excerpt haystack
             then verified_evidence c es (add_once source sources)
                    (add_once \<lparr>re_source = source, re_excerpt = excerpt\<rparr> kept)
             else verified_evidence c es sources kept)"

definition resolution_of_output :: "task_context \<Rightarrow> resolver_output \<Rightarrow> resolved_task" where
  "resolution_of_output c p =
     (let original = tc_current_request c; active_plan = tc_active_plan c
      in if to_lower (trim (ro_scope p)) \<noteq> ''follow_up'' then ambiguous original active_plan
         else let resolved = truncate_chars RESOLVED_REQUEST_CHARS (trim (ro_resolved_request p))
              in if resolved = [] then ambiguous original active_plan
                 else let (sources, evidence) = verified_evidence c (ro_evidence p) [] []
                      in if sources = [] then ambiguous original active_plan
                         else \<lparr>rt_original_request = original, rt_resolved_request = resolved, rt_scope = FollowUp,
                           rt_context_sources = sources, rt_resolution_evidence = evidence,
                           rt_plan_relevant = (active_plan \<noteq> [] \<and> ''active_plan'' \<in> set sources \<and> ro_plan_relevant p),
                           rt_plan_at_turn_start = active_plan, rt_forbids_verification = False,
                           rt_verification_policy_update = Unchanged, rt_answer_only = False,
                           rt_evidence_conditions = [], rt_operational_constraints = []\<rparr>)"

definition parse_resolution :: "resolve_env \<Rightarrow> task_context \<Rightarrow> string \<Rightarrow> unit + resolved_task" where
  "parse_resolution env c response =
     (case object_slice response of
        NoObject \<Rightarrow> Inr (ambiguous (tc_current_request c) (tc_active_plan c))
      | SlicePanics \<Rightarrow> Inl ()
      | Object s \<Rightarrow>
          Inr (case rv_resolver_of env s of
                 None \<Rightarrow> ambiguous (tc_current_request c) (tc_active_plan c)
               | Some p \<Rightarrow> resolution_of_output c p))"

section \<open>Resolving a turn\<close>

definition CLASSIFIER_FORMAT_VIOLATION :: string where
  "CLASSIFIER_FORMAT_VIOLATION =
     newline @ newline @ ''<format_violation>'' @ newline @
     ''Your previous response was not one complete JSON object (truncated or malformed). Re-emit the '' @
     ''classification now: output ONLY the JSON object, with no reasoning text before it.'' @ newline @
     ''</format_violation>''"

definition classify :: "resolve_env \<Rightarrow> task_context \<Rightarrow> string \<Rightarrow> unit + classifier_verdict" where
  "classify env c response =
     rbind (parse_classifier_checked env response) (\<lambda>parsed.
       case parsed of
         Some v \<Rightarrow> Inr v
       | None \<Rightarrow>
           (case rv_ask env ClassifierPrompt
                  (render_classification_payload (rv_text_of env) c @ CLASSIFIER_FORMAT_VIOLATION) of
              Inl error \<Rightarrow> Inr classifier_fallback
            | Inr retry \<Rightarrow>
                rbind (parse_classifier_checked env retry) (\<lambda>again.
                  Inr (case again of Some v \<Rightarrow> v | None \<Rightarrow> classifier_fallback))))"

definition with_verdict :: "classifier_verdict \<Rightarrow> resolved_task \<Rightarrow> resolved_task" where
  "with_verdict v t = t\<lparr>rt_forbids_verification := cv_forbids_verification v,
     rt_verification_policy_update := cv_verification_policy_update v, rt_answer_only := cv_answer_only v,
     rt_evidence_conditions := cv_conditions v, rt_operational_constraints := cv_operational_constraints v\<rparr>"

definition resolve :: "resolve_env \<Rightarrow> task_context \<Rightarrow> unit + resolved_task" where
  "resolve env c =
     (let raw = tc_current_request c
      in if is_blank raw then Inr (self_contained raw)
         else case rv_ask env ClassifierPrompt (render_classification_payload (rv_text_of env) c) of
                Inl error \<Rightarrow> Inr ((self_contained raw)\<lparr>rt_plan_at_turn_start := tc_active_plan c\<rparr>)
              | Inr response \<Rightarrow>
                  rbind (classify env c response) (\<lambda>parsed.
                    let v = validate_policy_update c parsed
                    in if \<not> cv_context_dependent v
                       then Inr (with_verdict v ((self_contained raw)\<lparr>rt_plan_at_turn_start := tc_active_plan c\<rparr>))
                       else rbind (case rv_ask env FollowupPrompt (render_resolution_payload (rv_text_of env) c) of
                                     Inr answer \<Rightarrow> parse_resolution env c answer
                                   | Inl error \<Rightarrow> Inr (ambiguous raw (tc_active_plan c)))
                              (\<lambda>t. Inr (with_verdict v t))))"

end
