(* ===== verification/Evidence.thy ===== *)
theory Evidence
  imports Resolve
begin

text \<open>
  The record of executed tool calls that completion claims are checked against (\<open>EvidenceLedger\<close> of
  \<open>src/supervisor/gate.rs\<close>) and the ground truth rendered from it. Arguments: \<open>text_of\<close> serializes parameters,
  \<open>size_of\<close> is \<open>fmt_size\<close> for sizes of a kilobyte and more (a division in \<open>f64\<close>), \<open>git_env\<close> the answers of git and
  of the file system.
\<close>

definition LEDGER_CAP :: nat where "LEDGER_CAP = 128"
definition LEDGER_ARGS_MAX :: nat where "LEDGER_ARGS_MAX = 120"
definition LEDGER_PATHS_CAP :: nat where "LEDGER_PATHS_CAP = 16"
definition LAST_COMMAND_TAIL :: nat where "LAST_COMMAND_TAIL = 2000"
definition RECENT_COMMANDS_KEPT :: nat where "RECENT_COMMANDS_KEPT = 3"
definition CITATION_GROUNDS_CHARS :: nat where "CITATION_GROUNDS_CHARS = 512000"

record ledger_entry =
  le_last_sequence :: nat
  le_tool :: string
  le_args :: string
  le_mutation :: bool
  le_error :: bool
  le_bytes :: nat
  le_repeats :: nat

record evidence_ledger =
  el_entries :: "ledger_entry list"
  el_dropped :: nat
  el_next_sequence :: nat
  el_collapse_checkpoint :: nat
  el_mutated_paths :: "string list"
  el_recent_commands :: "(string \<times> string) list"
  el_grounds :: "(nat \<times> string) list"
  el_ground_chars :: nat
  el_gate_checkpoint :: nat

definition new_ledger :: evidence_ledger where
  "new_ledger = \<lparr>el_entries = [], el_dropped = 0, el_next_sequence = 0, el_collapse_checkpoint = 0,
     el_mutated_paths = [], el_recent_commands = [], el_grounds = [], el_ground_chars = 0, el_gate_checkpoint = 0\<rparr>"

definition ledger_reset :: "evidence_ledger \<Rightarrow> evidence_ledger" where
  "ledger_reset l = l\<lparr>el_entries := [], el_dropped := 0, el_next_sequence := 0, el_collapse_checkpoint := 0,
     el_mutated_paths := [], el_recent_commands := [], el_grounds := [], el_ground_chars := 0, el_gate_checkpoint := 0\<rparr>"

section \<open>Retained output\<close>

text \<open>The loop that drops the oldest outputs while too many characters are kept.\<close>

fun evict_grounds :: "nat \<Rightarrow> (nat \<times> string) list \<Rightarrow> nat \<times> (nat \<times> string) list" where
  "evict_grounds chars [] = (chars, [])"
| "evict_grounds chars (g # gs) =
     (if CITATION_GROUNDS_CHARS < chars then evict_grounds (chars - count_chars (snd g)) gs else (chars, g # gs))"

definition record_ground :: "nat \<Rightarrow> string \<Rightarrow> evidence_ledger \<Rightarrow> evidence_ledger" where
  "record_ground sequence output l =
     (if output = [] then l
      else let bounded = (if CITATION_GROUNDS_CHARS < count_chars output
                          then take_chars CITATION_GROUNDS_CHARS output else output);
               (chars, grounds) = evict_grounds (el_ground_chars l + count_chars bounded)
                                    (el_grounds l @ [(sequence, bounded)])
           in l\<lparr>el_grounds := grounds, el_ground_chars := chars\<rparr>)"

definition actions_since_gate :: "evidence_ledger \<Rightarrow> nat" where
  "actions_since_gate l = el_next_sequence l - el_gate_checkpoint l"

definition mark_gate_checkpoint :: "evidence_ledger \<Rightarrow> evidence_ledger" where
  "mark_gate_checkpoint l = l\<lparr>el_gate_checkpoint := el_next_sequence l\<rparr>"

definition record_command_output :: "string \<Rightarrow> string \<Rightarrow> evidence_ledger \<Rightarrow> evidence_ledger" where
  "record_command_output command output l =
     (let tail = (if LAST_COMMAND_TAIL < count_chars output
                  then ellipsis @ skip_chars (count_chars output - LAST_COMMAND_TAIL) output else output);
          commands = el_recent_commands l @ [(command, tail)]
      in l\<lparr>el_recent_commands := (if RECENT_COMMANDS_KEPT < length commands then tl commands else commands)\<rparr>)"

section \<open>Recording calls\<close>

definition add_mutated_path :: "string \<Rightarrow> string list \<Rightarrow> string list" where
  "add_mutated_path p paths = (if length paths < LEDGER_PATHS_CAP \<and> p \<notin> set paths then paths @ [p] else paths)"

definition ledger_args :: "(json \<Rightarrow> string) \<Rightarrow> json \<Rightarrow> string" where
  "ledger_args text_of parameters =
     (let args = text_of parameters
      in if LEDGER_ARGS_MAX < count_chars args then take_chars LEDGER_ARGS_MAX args @ ellipsis else args)"

text \<open>\<open>u64::saturating_add(1)\<close>.\<close>

definition next_seq :: "nat \<Rightarrow> nat" where
  "next_seq n = min usize_max (n + 1)"

definition collapses :: "nat \<Rightarrow> string \<Rightarrow> string \<Rightarrow> ledger_entry \<Rightarrow> bool" where
  "collapses checkpoint tool args e \<longleftrightarrow>
     \<not> le_error e \<and> checkpoint \<le> le_last_sequence e \<and> le_tool e = tool \<and> le_args e = args"

definition record_call ::
  "(json \<Rightarrow> string) \<Rightarrow> string \<Rightarrow> json \<Rightarrow> bool \<Rightarrow> bool \<Rightarrow> nat \<Rightarrow> evidence_ledger \<Rightarrow> nat \<times> evidence_ledger" where
  "record_call text_of tool parameters mutation error nbytes l =
     (let sequence = el_next_sequence l;
          l = l\<lparr>el_next_sequence := next_seq sequence,
                 el_mutated_paths := (if mutation \<and> \<not> error
                    then fold add_mutated_path (param_paths parameters) (el_mutated_paths l) else el_mutated_paths l)\<rparr>;
          args = ledger_args text_of parameters;
          entries = el_entries l
      in if \<not> error \<and> entries \<noteq> [] \<and> collapses (el_collapse_checkpoint l) tool args (last entries)
         then (sequence, l\<lparr>el_entries := butlast entries @
                 [(last entries)\<lparr>le_repeats := le_repeats (last entries) + 1, le_last_sequence := sequence\<rparr>]\<rparr>)
         else let entries = entries @ [\<lparr>le_last_sequence = sequence, le_tool = tool, le_args = args,
                      le_mutation = mutation, le_error = error, le_bytes = nbytes, le_repeats = 1\<rparr>]
              in (sequence,
                  if LEDGER_CAP < length entries
                  then l\<lparr>el_entries := tl entries, el_dropped := el_dropped l + 1\<rparr>
                  else l\<lparr>el_entries := entries\<rparr>))"

definition begin_phase :: "evidence_ledger \<Rightarrow> nat \<times> evidence_ledger" where
  "begin_phase l = (el_next_sequence l, l\<lparr>el_collapse_checkpoint := el_next_sequence l\<rparr>)"

section \<open>Rendering\<close>

definition fmt_size :: "(nat \<Rightarrow> string) \<Rightarrow> nat \<Rightarrow> string" where
  "fmt_size size_of n = (if 1024 \<le> n then size_of n else show_nat n @ ''b'')"

definition render_entry :: "(nat \<Rightarrow> string) \<Rightarrow> ledger_entry \<Rightarrow> string" where
  "render_entry size_of e =
     ''#'' @ show_nat (le_last_sequence e) @ '' '' @ (if le_mutation e then ''[mut]'' else ''[read]'') @ '' '' @
     le_tool e @ '' '' @ le_args e @ '' '' @ bytes [0xE2, 0x86, 0x92] @ '' '' @
     (if le_error e then ''ERROR'' else ''ok'') @ '' ('' @ fmt_size size_of (le_bytes e) @ '')'' @
     (if 1 < le_repeats e then '' '' @ bytes [0xC3, 0x97] @ show_nat (le_repeats e) else []) @ newline"

definition shown_since :: "nat \<Rightarrow> evidence_ledger \<Rightarrow> ledger_entry list" where
  "shown_since checkpoint l = filter (\<lambda>e. checkpoint \<le> le_last_sequence e) (el_entries l)"

definition render_since :: "(nat \<Rightarrow> string) \<Rightarrow> nat \<Rightarrow> evidence_ledger \<Rightarrow> string" where
  "render_since size_of checkpoint l =
     (if shown_since checkpoint l = [] then []
      else (if checkpoint = 0 \<and> 0 < el_dropped l
            then ''(+'' @ show_nat (el_dropped l) @ '' earlier actions dropped)'' @ newline else []) @
           concat (map (render_entry size_of) (shown_since checkpoint l)))"

definition render_ledger :: "(nat \<Rightarrow> string) \<Rightarrow> evidence_ledger \<Rightarrow> string" where
  "render_ledger size_of l = render_since size_of 0 l"

section \<open>Ground truth\<close>

datatype git_answer = GitAbsent | GitFailed | GitOutput string

record git_env =
  ge_diff :: "string \<Rightarrow> git_answer"
  ge_status :: git_answer
  ge_exists :: "string \<Rightarrow> bool"
  ge_read :: "string \<Rightarrow> string option"

definition GT_DIFF_MAX :: nat where "GT_DIFF_MAX = 10000"
definition GT_TOTAL_MAX :: nat where "GT_TOTAL_MAX = 14000"
definition GT_FILE_HEAD_LINES :: nat where "GT_FILE_HEAD_LINES = 80"
definition GT_STATUS_MAX_LINES :: nat where "GT_STATUS_MAX_LINES = 40"

definition git_status :: "git_env \<Rightarrow> string" where
  "git_status g =
     (case ge_status g of
        GitOutput all_lines \<Rightarrow>
          let count = length (str_lines all_lines)
          in concat (map (\<lambda>l. l @ newline) (take GT_STATUS_MAX_LINES (str_lines all_lines))) @
             (if GT_STATUS_MAX_LINES < count
              then ''(+'' @ show_nat (count - GT_STATUS_MAX_LINES) @ '' more entries)'' @ newline else [])
      | _ \<Rightarrow> [])"

text \<open>The diffs of the paths git can diff; \<open>None\<close> when git itself is absent.\<close>

fun collect_diffs :: "git_env \<Rightarrow> string list \<Rightarrow> (string \<times> string) list option" where
  "collect_diffs g [] = Some []"
| "collect_diffs g (p # ps) =
     (case ge_diff g p of
        GitAbsent \<Rightarrow> None
      | GitFailed \<Rightarrow> collect_diffs g ps
      | GitOutput d \<Rightarrow> map_option (\<lambda>ds. if d = [] then ds else (p, d) # ds) (collect_diffs g ps))"

definition fit_diff :: "nat \<Rightarrow> string \<times> string \<Rightarrow> string" where
  "fit_diff share pd =
     (if share < length (snd pd)
      then take (floor_boundary (snd pd) share) (snd pd) @ newline @ ''(diff of '' @ fst pd @ '' truncated to fit)'' @ newline
      else snd pd)"

definition git_diff :: "git_env \<Rightarrow> string list \<Rightarrow> string" where
  "git_diff g paths =
     (case collect_diffs g paths of
        None \<Rightarrow> []
      | Some diffs \<Rightarrow>
          if sum_list (map (\<lambda>pd. length (snd pd)) diffs) \<le> GT_DIFF_MAX then concat (map snd diffs)
          else concat (map (fit_diff (GT_DIFF_MAX div max (length diffs) 1)) diffs))"

definition end_line :: "string \<Rightarrow> string" where
  "end_line s = (if ends_with s newline then s else s @ newline)"

definition file_note :: "git_env \<Rightarrow> string \<Rightarrow> string" where
  "file_note g p =
     (if \<not> ge_exists g p
      then ''MISSING: '' @ p @ '' '' @ long_dash @
           '' mutated this task but does not exist now (deleted or never written)'' @ newline
      else case ge_read g p of
             None \<Rightarrow> []
           | Some content \<Rightarrow>
               ''Current content of '' @ p @ '' (new or untracked '' @ long_dash @ '' not in diff; first '' @
               show_nat GT_FILE_HEAD_LINES @ '' lines):'' @ newline @
               concat (map (\<lambda>l. l @ newline) (take GT_FILE_HEAD_LINES (str_lines content))))"

fun add_file_notes :: "git_env \<Rightarrow> string \<Rightarrow> string list \<Rightarrow> string \<Rightarrow> string" where
  "add_file_notes g diff [] s = s"
| "add_file_notes g diff (p # ps) s =
     (if GT_TOTAL_MAX < length s then s
      else if str_contains diff p then add_file_notes g diff ps s
      else add_file_notes g diff ps (s @ file_note g p))"

definition STATUS_LEGEND :: string where
  "STATUS_LEGEND =
     ''Working-tree status, all files (informational '' @ long_dash @
     '' may include pre-existing or build files).'' @ newline @
     ''Porcelain legend: two status columns, then the path. Column 1 = STAGED (index) state, '' @
     ''column 2 = UNSTAGED (worktree) state: `M ` staged-modified, ` M` unstaged-modified, '' @
     ''`MM` both, `??` untracked. Do not call a file unstaged unless column 2 says so.'' @ newline"

definition render_ground_truth :: "git_env \<Rightarrow> string list \<Rightarrow> (string \<times> string) list \<Rightarrow> string" where
  "render_ground_truth g mutated_paths recent_commands =
     (let diff = git_diff g mutated_paths;
          s = (if mutated_paths = [] then []
               else add_file_notes g diff mutated_paths
                      (if diff = [] then []
                       else ''Working-tree diff of files changed this task (vs HEAD):'' @ newline @ end_line diff));
          s = (if recent_commands = [] then s
               else s @ ''Recent commands run (runtime-recorded output tails, oldest first):'' @ newline @
                    concat (map (\<lambda>(cmd, out). ''$ '' @ cmd @ newline @ end_line out) recent_commands));
          s = (if s \<noteq> [] \<and> git_status g \<noteq> [] then s @ STATUS_LEGEND @ git_status g else s)
      in if GT_TOTAL_MAX < length s
         then take (floor_boundary s GT_TOTAL_MAX) s @ newline @ ''(ground truth truncated)'' @ newline
         else s)"

end
