(* ===== verification/Gate.thy ===== *)
theory Gate
  imports Evidence "HOL-Library.Multiset"
begin

text \<open>
  The verification gate on a claimed completion (\<open>src/supervisor/gate.rs\<close>): the verifier's answer is decoded
  from either wire format into a report, the verdict is derived from the report's checklists, one round may read
  back recorded output, one retry repairs the format, and a second model may refute findings. The models are
  the arguments \<open>ask\<close> and \<open>refuter\<close>, functions of the user message.
\<close>

datatype gate_verdict = Pass | Gaps "string list" | Indeterminate string

section \<open>Markup\<close>

definition escape_xml_text :: "string \<Rightarrow> string" where
  "escape_xml_text value =
     replace_char (CHR ''>'') ''&gt;'' (replace_char (CHR ''<'') ''&lt;'' (replace_char (CHR ''&'') ''&amp;'' value))"

definition xml_attribute :: "string \<Rightarrow> string" where
  "xml_attribute value =
     replace_char (CHR 0x27) ''&apos;'' (replace_char (CHR 0x22) ''&quot;'' (escape_xml_text value))"

text \<open>One element at a time: \<open>None\<close> ends the scan, otherwise the element found, if it is one, and the rest.\<close>

definition next_element :: "string \<Rightarrow> string \<Rightarrow> ((string \<times> string) option \<times> string) option" where
  "next_element name rest =
     (let open_tag = ''<'' @ name; close_tag = ''</'' @ name @ ''>''
      in Option.bind (find_str open_tag rest) (\<lambda>start.
         let after = drop (start + length open_tag) rest
         in Option.bind (position (\<lambda>c. c = CHR ''>'') after) (\<lambda>open_end.
            let attributes = take open_end after; rest = drop (open_end + 1) after
            in if attributes \<noteq> [] \<and> \<not> starts_with attributes '' '' then Some (None, rest)
               else map_option (\<lambda>body_end.
                      (Some (attributes, trim (take body_end rest)), drop (body_end + length close_tag) rest))
                    (find_str close_tag rest))))"

lemma next_element_shorter:
  assumes "next_element name rest = Some (e, rest')"
  shows "length rest' < length rest"
proof -
  obtain start k where s: "find_str (''<'' @ name) rest = Some start"
    and k: "position (\<lambda>c. c = CHR ''>'') (drop (start + length (''<'' @ name)) rest) = Some k"
    and r: "length rest' \<le> length (drop (k + 1) (drop (start + length (''<'' @ name)) rest))"
    using assms by (auto simp: next_element_def Let_def split: option.splits bind_splits if_splits)
  have "k < length (drop (start + length (''<'' @ name)) rest)" using position_Some[OF k] by simp
  with r show ?thesis by auto
qed

function elements :: "string \<Rightarrow> string \<Rightarrow> (string \<times> string) list" where
  "elements name rest =
     (case next_element name rest of
        None \<Rightarrow> []
      | Some (e, rest') \<Rightarrow> (case e of Some x \<Rightarrow> [x] | None \<Rightarrow> []) @ elements name rest')"
  by pat_completeness auto
termination
  by (relation "measure (\<lambda>(name, rest). length rest)") (auto dest: next_element_shorter)

declare elements.simps [simp del]

definition cut_at :: "string \<Rightarrow> string \<Rightarrow> string" where
  "cut_at needle s = (case find_str needle s of Some i \<Rightarrow> take i s | None \<Rightarrow> s)"

definition attr :: "string \<Rightarrow> string \<Rightarrow> string" where
  "attr attributes key =
     (let pat = key @ ''='' @ [CHR 0x22]
      in case find_str pat attributes of
           None \<Rightarrow> []
         | Some i \<Rightarrow> trim (cut_at [CHR 0x22] (cut_at pat (drop (i + length pat) attributes))))"

section \<open>Reports\<close>

record reported_condition =
  rc_index :: "nat option"
  rc_status :: string
  rc_observation :: string
  rc_basis :: string

record reported_shape =
  rs_name :: string
  rs_found :: string
  rs_reason :: string
  rs_settles :: string

record reported_finding =
  rg_text :: string
  rg_settles :: string

record verifier_report =
  vr_conditions :: "reported_condition list"
  vr_shapes :: "reported_shape list"
  vr_gaps :: "reported_finding list"
  vr_ruled :: bool
  vr_pass :: bool
  vr_readback :: "nat list"

definition REQUIRED_SHAPES :: "string list" where
  "REQUIRED_SHAPES = [''circular'', ''context-stripped'', ''acceptance-only'', ''unenumerated-category'']"

definition BASIS_INFERENCE :: string where "BASIS_INFERENCE = ''inference''"

definition CONDITION_BASES :: "string list" where
  "CONDITION_BASES = [''recorded_output'', ''ground_truth'', ''absent_action'', BASIS_INFERENCE]"

definition parse_index :: "string \<Rightarrow> nat option" where
  "parse_index s = map_option nat (parse_unsigned 64 s)"

definition parse_seq :: "string \<Rightarrow> nat option" where
  "parse_seq s = parse_index (strip_front [''#''] s)"

definition text_report :: "string \<Rightarrow> verifier_report" where
  "text_report resp = \<lparr>
     vr_conditions = map (\<lambda>(attributes, body). \<lparr>rc_index = parse_index (attr attributes ''n''),
       rc_status = attr attributes ''status'', rc_observation = body, rc_basis = attr attributes ''basis''\<rparr>)
       (elements ''condition'' resp),
     vr_shapes = map (\<lambda>(attributes, body). \<lparr>rs_name = attr attributes ''name'', rs_found = attr attributes ''found'',
       rs_reason = body, rs_settles = attr attributes ''settles''\<rparr>) (elements ''shape'' resp),
     vr_gaps = map (\<lambda>(attributes, body). \<lparr>rg_text = body, rg_settles = attr attributes ''settles''\<rparr>)
       (elements ''gap'' resp),
     vr_ruled = str_contains resp ''&lt;verdict>'',
     vr_pass = str_contains resp ''&lt;verdict>PASS&lt;/verdict>'',
     vr_readback = List.map_filter (\<lambda>(attributes, body). parse_seq (attr attributes ''seq'')) (elements ''readback'' resp)\<rparr>"

definition json_number :: "json \<Rightarrow> nat option" where
  "json_number v =
     (case json_as_u64 v of
        Some n \<Rightarrow> Some (unat n)
      | None \<Rightarrow> Option.bind (json_as_str v) (\<lambda>s. parse_seq (trim s)))"

definition json_field :: "json \<Rightarrow> string \<Rightarrow> string" where
  "json_field obj key = trim (case Option.bind (json_get key obj) json_as_str of Some s \<Rightarrow> s | None \<Rightarrow> [])"

definition json_entries :: "json \<Rightarrow> string \<Rightarrow> json list" where
  "json_entries v key = (case json_get key v of Some a \<Rightarrow> json_as_array a | None \<Rightarrow> [])"

definition json_report :: "json \<Rightarrow> verifier_report" where
  "json_report v =
     (let verdict = json_field v ''verdict''
      in \<lparr>vr_conditions = map (\<lambda>c. \<lparr>rc_index = Option.bind (json_get ''n'' c) json_number,
            rc_status = json_field c ''status'', rc_observation = json_field c ''observation'',
            rc_basis = json_field c ''basis''\<rparr>) (json_entries v ''conditions''),
          vr_shapes = map (\<lambda>s. \<lparr>rs_name = json_field s ''name'', rs_found = json_field s ''found'',
            rs_reason = json_field s ''reason'', rs_settles = json_field s ''settles''\<rparr>) (json_entries v ''shapes''),
          vr_gaps = map (\<lambda>g. \<lparr>rg_text = json_field g ''gap'', rg_settles = json_field g ''settles''\<rparr>)
            (json_entries v ''gaps''),
          vr_ruled = (verdict = ''PASS'' \<or> verdict = ''GAPS''),
          vr_pass = (verdict = ''PASS''),
          vr_readback = List.map_filter (\<lambda>r. Option.bind (json_get ''seq'' r) json_number) (json_entries v ''readback'')\<rparr>)"

section \<open>The verdict\<close>

definition charged :: "string \<Rightarrow> string \<Rightarrow> string option" where
  "charged settles body =
     (if settles = [] then None else Some (body @ '' '' @ long_dash @ '' clear it by: '' @ settles))"

text \<open>The loop over the shapes: the findings charged, and the names seen.\<close>

fun judge_shapes :: "reported_shape list \<Rightarrow> string list \<Rightarrow> string list \<Rightarrow> string + (string list \<times> string list)" where
  "judge_shapes [] seen unmatched = Inr (unmatched, seen)"
| "judge_shapes (s # ss) seen unmatched =
     (if rs_name s = [] then Inl ''shape without name''
      else if rs_name s \<in> set seen then Inl (''duplicate evidence shape: '' @ rs_name s)
      else if rs_found s = ''yes''
      then judge_shapes ss (rs_name s # seen)
             (case charged (rs_settles s) (rs_reason s) of
                Some finding \<Rightarrow> unmatched @ [''Evidence shape '' @ [CHR 0x27] @ rs_name s @ [CHR 0x27] @ '' present: '' @ finding]
              | None \<Rightarrow> unmatched)
      else if rs_found s = ''no'' \<or> rs_found s = ''unknown'' then judge_shapes ss (rs_name s # seen) unmatched
      else Inl ''shape without yes/no/unknown result'')"

fun judge_conditions :: "reported_condition list \<Rightarrow> nat list \<Rightarrow> string list \<Rightarrow> string + (string list \<times> nat list)" where
  "judge_conditions [] seen unmatched = Inr (unmatched, seen)"
| "judge_conditions (c # cs) seen unmatched =
     (case rc_index c of
        None \<Rightarrow> Inl ''condition without numeric index''
      | Some n \<Rightarrow>
          if n \<in> set seen then Inl (''duplicate condition: '' @ show_nat n)
          else if rc_status c = ''unmatched''
          then (if rc_basis c = BASIS_INFERENCE then judge_conditions cs (n # seen) unmatched
                else if rc_basis c \<in> set CONDITION_BASES
                then judge_conditions cs (n # seen) (unmatched @ [''Unmatched condition '' @ show_nat n @ '': '' @ rc_observation c])
                else if rc_basis c = [] then Inl (''condition '' @ show_nat n @ '' unmatched without basis'')
                else Inl (''condition '' @ show_nat n @ '' has invalid basis''))
          else if rc_status c = ''matched'' \<or> rc_status c = ''unknown'' then judge_conditions cs (n # seen) unmatched
          else Inl (''condition '' @ show_nat n @ '' has invalid status''))"

definition charged_gaps :: "verifier_report \<Rightarrow> string list" where
  "charged_gaps r = List.map_filter (\<lambda>g. charged (rg_settles g) (rg_text g)) (filter (\<lambda>g. rg_text g \<noteq> []) (vr_gaps r))"

definition verdict_checked :: "nat \<Rightarrow> verifier_report \<Rightarrow> string + gate_verdict" where
  "verdict_checked expected_conditions r =
     rbind (judge_shapes (vr_shapes r) [] []) (\<lambda>(unmatched, seen_shapes).
     rbind (ensure (list_all (\<lambda>s. s \<in> set seen_shapes) REQUIRED_SHAPES \<and> length seen_shapes = length REQUIRED_SHAPES)
              ''incomplete evidence-shape checklist'') (\<lambda>_.
     rbind (judge_conditions (vr_conditions r) [] unmatched) (\<lambda>(unmatched, seen_conditions).
     rbind (ensure (length seen_conditions = expected_conditions \<and>
                    list_all (\<lambda>n. n \<in> set seen_conditions) [1..<expected_conditions + 1])
              (''condition checklist mismatch: expected '' @ show_nat expected_conditions @ '', received '' @
               show_nat (length seen_conditions))) (\<lambda>_.
     if unmatched \<noteq> [] then Inr (Gaps unmatched)
     else if charged_gaps r \<noteq> [] then Inr (Gaps (charged_gaps r))
     else if vr_pass r then Inr Pass
     else Inl ''missing verdict markers''))))"

definition verdict_of :: "nat \<Rightarrow> verifier_report \<Rightarrow> gate_verdict" where
  "verdict_of expected_conditions r =
     (case verdict_checked expected_conditions r of Inl reason \<Rightarrow> Indeterminate reason | Inr v \<Rightarrow> v)"

definition condition_limit :: "reported_condition \<Rightarrow> string option" where
  "condition_limit c =
     (if rc_status c = ''unknown'' then Some ''unsettled''
      else if rc_status c = ''unmatched'' \<and> rc_basis c = BASIS_INFERENCE then Some ''suspected by inference only''
      else None)"

definition reported_condition_text :: "reported_condition \<Rightarrow> string option" where
  "reported_condition_text c = map_option (\<lambda>limit.
     ''condition '' @ (case rc_index c of Some n \<Rightarrow> show_nat n | None \<Rightarrow> ''?'') @ '' '' @ limit @ '': '' @ rc_observation c)
     (condition_limit c)"

definition reported_shape_text :: "reported_shape \<Rightarrow> string option" where
  "reported_shape_text s =
     (if rs_found s = ''unknown'' then Some (rs_name s @ '' unsettled: '' @ rs_reason s)
      else if rs_found s = ''yes'' \<and> charged (rs_settles s) (rs_reason s) = None
      then Some (rs_name s @ '' names no closing observation: '' @ rs_reason s)
      else None)"

definition reported_gap_text :: "reported_finding \<Rightarrow> string option" where
  "reported_gap_text g =
     (if charged (rg_settles g) (rg_text g) = None then Some (''gap names no closing observation: '' @ rg_text g) else None)"

definition reported_findings :: "verifier_report \<Rightarrow> string list" where
  "reported_findings r =
     List.map_filter reported_condition_text (vr_conditions r) @ List.map_filter reported_shape_text (vr_shapes r) @
     List.map_filter reported_gap_text (vr_gaps r)"

section \<open>Readback\<close>

definition READBACK_MAX :: nat where "READBACK_MAX = 3"
definition READBACK_HEAD :: nat where "READBACK_HEAD = 4000"
definition READBACK_TAIL :: nat where "READBACK_TAIL = 2000"

definition want :: "nat \<Rightarrow> nat list \<Rightarrow> nat list" where
  "want n wanted = (if n \<notin> set wanted \<and> length wanted < READBACK_MAX then wanted @ [n] else wanted)"

definition readback_request :: "verifier_report \<Rightarrow> nat list" where
  "readback_request r =
     (if vr_shapes r \<noteq> [] \<or> vr_gaps r \<noteq> [] \<or> vr_ruled r then [] else fold want (vr_readback r) [])"

definition bounded_output :: "string \<Rightarrow> string" where
  "bounded_output output =
     (let n = count_chars output
      in if n \<le> READBACK_HEAD + READBACK_TAIL then output
         else take_chars READBACK_HEAD output @ newline @ ellipsis @ ''('' @ show_nat (n - READBACK_HEAD - READBACK_TAIL) @
              '' characters elided from the middle)'' @ ellipsis @ newline @ skip_chars (n - READBACK_TAIL) output)"

definition readback_line :: "(nat \<times> string) list \<Rightarrow> nat \<Rightarrow> string" where
  "readback_line grounds sequence =
     ''<output seq='' @ [CHR 0x22] @ show_nat sequence @ [CHR 0x22] @ '' retained='' @ [CHR 0x22] @
     (case map_of grounds sequence of
        Some output \<Rightarrow> ''yes'' @ [CHR 0x22] @ ''>'' @ newline @ escape_xml_text (bounded_output output) @ newline
      | None \<Rightarrow> ''no'' @ [CHR 0x22] @ ''>This action'' @ [CHR 0x27] @
          ''s output was not retained. Its absence is a limit of the runtime'' @ [CHR 0x27] @
          ''s retention, and says nothing about what the action returned.'') @
     ''</output>'' @ newline"

definition render_readback :: "(nat \<times> string) list \<Rightarrow> nat list \<Rightarrow> string" where
  "render_readback grounds wanted =
     newline @ newline @ ''<readback_evidence>'' @ newline @ concat (map (readback_line grounds) wanted) @
     ''</readback_evidence>''"

section \<open>The gate's input\<close>

record gate_input =
  gi_original_task :: string
  gi_task :: string
  gi_task_scope :: resolution_scope
  gi_context_sources :: "string list"
  gi_resolution_evidence :: "resolution_evidence list"
  gi_result :: string
  gi_claim :: "string option"
  gi_actions :: string
  gi_grounds :: "(nat \<times> string) list"
  gi_plan :: string
  gi_ground_truth :: string
  gi_prior_gaps :: "string list"
  gi_role_context :: string
  gi_evidence_conditions :: "string list"

definition block :: "string \<Rightarrow> string \<Rightarrow> string" where
  "block tag content =
     newline @ newline @ ''<'' @ tag @ ''>'' @ newline @ escape_xml_text content @ newline @ ''</'' @ tag @ ''>''"

definition optional_block :: "string \<Rightarrow> string \<Rightarrow> string" where
  "optional_block tag content = (if is_blank content then [] else block tag content)"

definition resolution_block :: "(json \<Rightarrow> string) \<Rightarrow> gate_input \<Rightarrow> string" where
  "resolution_block text_of input =
     (if gi_task_scope input = FollowUp
      then let sources = xml_attribute (if gi_context_sources input = [] then ''unspecified''
                                        else join '', '' (gi_context_sources input));
               evidence = join newline (map (\<lambda>e. text_of (JObj [(''excerpt'', JStr (re_excerpt e)),
                                          (''source'', JStr (re_source e))])) (gi_resolution_evidence input))
           in newline @ newline @ ''<task_resolution scope='' @ [CHR 0x22] @ ''follow_up'' @ [CHR 0x22] @ '' sources='' @
              [CHR 0x22] @ sources @ [CHR 0x22] @ ''>'' @ newline @ ''<resolved_current_request>'' @ newline @
              escape_xml_text (gi_task input) @ newline @ ''</resolved_current_request>'' @ newline @
              ''<resolution_evidence trust='' @ [CHR 0x22] @ ''untrusted'' @ [CHR 0x22] @ ''>'' @ newline @
              escape_xml_text evidence @ newline @ ''</resolution_evidence>'' @ newline @ ''</task_resolution>''
      else newline @ newline @ ''<task_resolution scope='' @ [CHR 0x22] @ scope_as_str (gi_task_scope input) @ [CHR 0x22] @ '' />'')"

definition prior_gaps_block :: "string list \<Rightarrow> string" where
  "prior_gaps_block gaps =
     (if gaps = [] then []
      else newline @ newline @ ''<previously_flagged_gaps>'' @ newline @
           concat (map (\<lambda>g. ''- '' @ escape_xml_text g @ newline) gaps) @ ''</previously_flagged_gaps>'')"

definition conditions_block :: "string list \<Rightarrow> string" where
  "conditions_block conditions =
     (if conditions = [] then []
      else newline @ newline @ ''<evidence_conditions>'' @ newline @
           concat (map (\<lambda>(i, c). show_nat (i + 1) @ ''. '' @ escape_xml_text c @ newline) (enumerate 0 conditions)) @
           ''</evidence_conditions>'')"

definition render_gate_input :: "(json \<Rightarrow> string) \<Rightarrow> gate_input \<Rightarrow> string" where
  "render_gate_input text_of input =
     ''<current_user_turn authority='' @ [CHR 0x22] @ ''true'' @ [CHR 0x22] @ ''>'' @ newline @
     escape_xml_text (gi_original_task input) @ newline @ ''</current_user_turn>'' @
     resolution_block text_of input @ conditions_block (gi_evidence_conditions input) @
     optional_block ''standing_instructions'' (gi_role_context input) @ optional_block ''active_plan'' (gi_plan input) @
     newline @ newline @ ''<agent_final_result trust='' @ [CHR 0x22] @ ''untrusted'' @ [CHR 0x22] @ ''>'' @ newline @
     escape_xml_text (gi_result input) @ newline @ ''</agent_final_result>'' @
     (case gi_claim input of
        Some c \<Rightarrow> if is_blank c then []
                  else newline @ newline @ ''<agent_stated_claim>'' @ escape_xml_text c @ ''</agent_stated_claim>''
      | None \<Rightarrow> []) @
     optional_block ''recorded_actions'' (gi_actions input) @ optional_block ''ground_truth'' (gi_ground_truth input) @
     prior_gaps_block (gi_prior_gaps input)"

section \<open>Refutation\<close>

datatype answer = TextAnswer string | JsonAnswer json

definition decode_report :: "answer \<Rightarrow> verifier_report" where
  "decode_report a = (case a of TextAnswer resp \<Rightarrow> text_report resp | JsonAnswer v \<Rightarrow> json_report v)"

definition REFUTED :: string where "REFUTED = ''refuted''"

definition refuted_from_text :: "string \<Rightarrow> nat list" where
  "refuted_from_text resp =
     List.map_filter (\<lambda>(attributes, body). parse_index (attr attributes ''n''))
       (filter (\<lambda>(attributes, body). attr attributes ''verdict'' = REFUTED) (elements ''finding'' resp))"

definition refuted_from_json :: "json \<Rightarrow> nat list" where
  "refuted_from_json v =
     List.map_filter (\<lambda>f. Option.bind (json_get ''n'' f) json_number)
       (filter (\<lambda>f. Option.bind (json_get ''verdict'' f) json_as_str = Some REFUTED) (json_entries v ''findings''))"

definition split_refuted :: "string list \<Rightarrow> nat list \<Rightarrow> string list \<times> string list" where
  "split_refuted gaps refuted =
     (map snd (filter (\<lambda>(i, g). i + 1 \<notin> set refuted) (enumerate 0 gaps)),
      map snd (filter (\<lambda>(i, g). i + 1 \<in> set refuted) (enumerate 0 gaps)))"

definition charged_findings_block :: "string list \<Rightarrow> string" where
  "charged_findings_block gaps =
     newline @ newline @ ''<charged_findings>'' @ newline @
     concat (map (\<lambda>(i, g). ''<finding n='' @ [CHR 0x22] @ show_nat (i + 1) @ [CHR 0x22] @ ''>'' @ escape_xml_text g @
       ''</finding>'' @ newline) (enumerate 0 gaps)) @ ''</charged_findings>''"

definition refuted_numbers :: "string + answer \<Rightarrow> nat list" where
  "refuted_numbers a =
     (case a of
        Inl error \<Rightarrow> []
      | Inr (TextAnswer resp) \<Rightarrow> refuted_from_text resp
      | Inr (JsonAnswer v) \<Rightarrow> refuted_from_json v)"

definition refute :: "(string \<Rightarrow> string + answer) \<Rightarrow> string \<Rightarrow> string list \<Rightarrow> string list \<times> string list" where
  "refute refuter evidence gaps =
     split_refuted gaps (refuted_numbers (refuter (evidence @ charged_findings_block gaps)))"

section \<open>Verification\<close>

definition FORMAT_VIOLATION :: string where
  "FORMAT_VIOLATION =
     newline @ newline @ ''<format_violation>'' @ newline @
     ''Your previous response did not match the required protocol. Re-evaluate the same evidence and emit '' @
     ''every numbered condition exactly once (an unmatched one with its basis), all four named evidence '' @
     ''shapes exactly once, then gaps or PASS. Do not omit a line and do not add alternate fields.'' @ newline @
     ''</format_violation>''"

text \<open>The readback round: the user message extended, and the report that replaces the first.\<close>

definition readback_round ::
  "(string \<Rightarrow> string + answer) \<Rightarrow> (nat \<times> string) list \<Rightarrow> string \<Rightarrow> verifier_report \<Rightarrow> string + (string \<times> verifier_report)" where
  "readback_round ask grounds user report =
     (let wanted = readback_request report
      in if wanted = [] then Inr (user, report)
         else let user = user @ render_readback grounds wanted
              in rbind (ask user) (\<lambda>a. Inr (user, decode_report a)))"

definition format_retry ::
  "(string \<Rightarrow> string + answer) \<Rightarrow> nat \<Rightarrow> string \<Rightarrow> verifier_report \<Rightarrow> gate_verdict \<times> verifier_report" where
  "format_retry ask conditions user report =
     (case verdict_of conditions report of
        Indeterminate reason \<Rightarrow>
          (case ask (user @ FORMAT_VIOLATION) of
             Inr a \<Rightarrow> (verdict_of conditions (decode_report a), decode_report a)
           | Inl error \<Rightarrow> (Indeterminate reason, report))
      | v \<Rightarrow> (v, report))"

definition refutation ::
  "(string \<Rightarrow> string + answer) \<Rightarrow> string \<Rightarrow> gate_verdict \<Rightarrow> string list \<Rightarrow> gate_verdict \<times> string list" where
  "refutation refuter user verdict reported =
     (case verdict of
        Gaps gaps \<Rightarrow>
          let (standing, refuted) = refute refuter user gaps
          in if refuted = [] then (verdict, reported)
             else (if standing = [] then Pass else Gaps standing,
                   reported @ map (\<lambda>gap. ''refuted by second verifier: '' @ gap) refuted)
      | _ \<Rightarrow> (verdict, reported))"

definition is_gaps :: "gate_verdict \<Rightarrow> bool" where
  "is_gaps v = (case v of Gaps gs \<Rightarrow> True | _ \<Rightarrow> False)"

definition findings_notice :: "string list \<Rightarrow> string" where
  "findings_notice reported =
     ''verification reported '' @ show_nat (length reported) @ '' finding(s) it could not act on: '' @ join ''; '' reported"

text \<open>The verdict, and the notice shown to the user.\<close>

definition verify ::
  "(json \<Rightarrow> string) \<Rightarrow> (string \<Rightarrow> string + answer) \<Rightarrow> (string \<Rightarrow> string + answer) \<Rightarrow> gate_input \<Rightarrow>
   gate_verdict \<times> string option" where
  "verify text_of ask refuter input =
     (if is_blank (gi_task input) \<or> is_blank (gi_result input) then (Indeterminate ''empty task or result'', None)
      else let user = render_gate_input text_of input; conditions = length (gi_evidence_conditions input)
           in case ask user of
                Inl error \<Rightarrow> (Indeterminate error, None)
              | Inr a \<Rightarrow>
                  (case readback_round ask (gi_grounds input) user (decode_report a) of
                     Inl error \<Rightarrow> (Indeterminate error, None)
                   | Inr (user, report) \<Rightarrow>
                       let (verdict, report) = format_retry ask conditions user report;
                           (verdict, reported) = refutation refuter user verdict (reported_findings report)
                       in (verdict, if reported \<noteq> [] \<and> \<not> is_gaps verdict then Some (findings_notice reported) else None)))"

section \<open>Re-entry\<close>

definition MAX_ITERATIONS :: u8 where "MAX_ITERATIONS = 2"

text \<open>The lower-casing of the standard library is an argument.\<close>

definition normalized_gap :: "(string \<Rightarrow> string) \<Rightarrow> string \<Rightarrow> string" where
  "normalized_gap lowercase gap = lowercase (join '' '' (split_whitespace gap))"

definition gaps_unchanged :: "(string \<Rightarrow> string) \<Rightarrow> string list \<Rightarrow> string list \<Rightarrow> bool" where
  "gaps_unchanged lowercase prior current \<longleftrightarrow>
     prior \<noteq> [] \<and> length prior = length current \<and>
     mset (map (normalized_gap lowercase) prior) = mset (map (normalized_gap lowercase) current)"

definition format_advisory :: "string list \<Rightarrow> string" where
  "format_advisory gaps =
     ''<pay-attention>'' @ newline @
     ''You reported this task complete, but a verification pass found gaps before it can be accepted as done:'' @ newline @
     concat (map (\<lambda>g. ''- '' @ escape_xml_text g @ newline) gaps) @
     ''Close each gap with a concrete artifact, observed state, delivered output, or domain-appropriate '' @
     ''check. If a gap is already satisfied or out of scope, point to the exact evidence and explain '' @
     ''briefly. Then re-report status, and write your reply as the complete standalone answer to the user'' @
     [CHR 0x27] @ ''s original request '' @ long_dash @
     '' the version this note is about never reached them.'' @ newline @ ''</pay-attention>''"

definition UNVERIFIED_ADVISORY :: string where
  "UNVERIFIED_ADVISORY =
     ''<pay-attention>'' @ newline @
     ''You reported this task complete, but the independent verification pass could not be completed, so '' @
     ''completion is not accepted yet. This is a failure of the check itself, not a finding against your work.'' @ newline @
     ''Make the next pass checkable: restate your result as a numbered list of the conditions the user'' @ [CHR 0x27] @
     ''s request has to satisfy '' @ long_dash @
     '' one per line '' @ long_dash @
     '' and for each give the observation that satisfies it: the action you ran and what its output showed, '' @
     ''or the artifact and where it is. A condition you cannot point at an observation for must be listed '' @
     ''as unsatisfied rather than argued.'' @ newline @
     ''Then re-report status, and write your reply as the complete standalone answer to the user'' @ [CHR 0x27] @
     ''s original request '' @ long_dash @
     '' the version this note is about never reached them.'' @ newline @ ''</pay-attention>''"

definition unverified_reentry :: "u8 \<Rightarrow> u8 \<Rightarrow> string option" where
  "unverified_reentry iterations max_iterations = (if iterations < max_iterations then Some UNVERIFIED_ADVISORY else None)"

end
