(* ===== verification/Round.thy ===== *)
theory Round
  imports Gate
begin

text \<open>
  One round of tool calls as the supervisor records it (the block of \<open>src/session/chat/response.rs\<close> after a batch
  has run): every call enters the evidence and the per-call detector state, the round as a whole is judged once,
  and at most one steering note is queued, with a backoff while the model repeats the same calls. Handbacks of
  subagents (\<open>src/supervisor/delegate.rs\<close>) are those of one session.
\<close>

section \<open>Handbacks of subagents\<close>

record handback =
  hb_finished :: nat
  hb_verified :: nat

definition no_handback :: handback where
  "no_handback = \<lparr>hb_finished = 0, hb_verified = 0\<rparr>"

definition note_handback :: "bool \<Rightarrow> handback \<Rightarrow> handback" where
  "note_handback verified h =
     \<lparr>hb_finished = hb_finished h + 1, hb_verified = hb_verified h + (if verified then 1 else 0)\<rparr>"

definition take_handback :: "handback \<Rightarrow> (nat \<times> nat) \<times> handback" where
  "take_handback h = ((hb_finished h, hb_verified h), no_handback)"

section \<open>The state of a round\<close>

definition LOOP_THRESHOLD :: nat where "LOOP_THRESHOLD = 3"
definition NO_PROGRESS_WINDOW :: nat where "NO_PROGRESS_WINDOW = 5"

record tool_call =
  ca_id :: string
  ca_name :: string
  ca_parameters :: json

record call_result =
  tr_id :: string
  tr_content :: string
  tr_error :: bool

record steering =
  sg_attempt :: nat
  sg_last_signal :: detector_signal
  sg_last_calls :: "u64 option"
  sg_pending :: "string option"

definition no_steering :: steering where
  "no_steering = \<lparr>sg_attempt = 0, sg_last_signal = NoSignal, sg_last_calls = None, sg_pending = None\<rparr>"

record supervision =
  su_detectors :: detectors
  su_evidence :: evidence_ledger
  su_steering :: steering
  su_handback :: handback
  su_self_report :: "self_report option"

record round_env =
  rd_detect :: detect_env
  rd_text_of :: "json \<Rightarrow> string"
  rd_track :: bool
  rd_fp_before :: "u64 option"
  rd_fp_after :: "u64 option"

text \<open>What is gathered over the calls of the round.\<close>

record round_acc =
  ra_hashes :: "u64 list"
  ra_novel :: bool
  ra_outcomes :: "(u64 \<times> bool) list"
  ra_verifier :: bool
  ra_readback :: bool
  ra_mutation :: bool
  ra_write_capable :: bool

definition empty_acc :: round_acc where
  "empty_acc = \<lparr>ra_hashes = [], ra_novel = False, ra_outcomes = [], ra_verifier = False, ra_readback = False,
     ra_mutation = False, ra_write_capable = False\<rparr>"

definition result_of :: "call_result list \<Rightarrow> tool_call \<Rightarrow> string \<times> bool" where
  "result_of results call =
     (case find (\<lambda>r. tr_id r = ca_id call) results of
        Some r \<Rightarrow> (tr_content r, tr_error r)
      | None \<Rightarrow> ([], True))"

definition fold_call ::
  "round_env \<Rightarrow> call_result list \<Rightarrow> tool_call \<Rightarrow> (evidence_ledger \<times> detectors) \<times> round_acc \<Rightarrow>
   (evidence_ledger \<times> detectors) \<times> round_acc" where
  "fold_call env results call st =
     (let ((l, d), acc) = st; dv = rd_detect env; tool = ca_name call; parameters = ca_parameters call;
          (content, is_error) = result_of results call;
          is_mutation = is_mutation_call dv tool parameters;
          (sequence, l) = record_call (rd_text_of env) tool parameters is_mutation is_error (length content) l;
          l = record_ground sequence content l;
          shaped = is_verifier_shaped dv tool parameters;
          outcomes = (case verifier_key dv tool parameters of
                        Some key \<Rightarrow> ra_outcomes acc @ [(key, \<not> is_error)]
                      | None \<Rightarrow> ra_outcomes acc);
          l = (if shaped \<and> \<not> is_error
               then record_command_output (case str_field ''command'' parameters of Some c \<Rightarrow> c | None \<Rightarrow> []) content l
               else l);
          ((rhash, novel), d) = note_call dv tool content is_error is_mutation d;
          readback = is_readback_call dv parameters is_mutation is_error d;
          d = (if \<not> is_error \<and> is_mutation then note_mutated_paths dv parameters d else d)
      in ((l, d), acc\<lparr>ra_hashes := ra_hashes acc @ [rhash], ra_novel := (ra_novel acc \<or> novel), ra_outcomes := outcomes,
           ra_verifier := (ra_verifier acc \<or> (\<not> is_error \<and> shaped)), ra_readback := (ra_readback acc \<or> readback),
           ra_mutation := (ra_mutation acc \<or> (\<not> is_error \<and> is_mutation)),
           ra_write_capable := (ra_write_capable acc \<or> is_mutation \<or> shaped)\<rparr>))"

definition round_facts_of :: "round_env \<Rightarrow> nat \<times> nat \<Rightarrow> round_acc \<Rightarrow> round_facts" where
  "round_facts_of env runs acc = \<lparr>rf_before = rd_fp_before env, rf_after = rd_fp_after env,
     rf_verifier_ok = ra_verifier acc, rf_readback_ok = ra_readback acc, rf_mutation_ok = ra_mutation acc,
     rf_delegated_ok = (0 < fst runs \<and> snd runs = fst runs),
     rf_write_capable = (ra_write_capable acc \<or> 0 < fst runs)\<rparr>"

section \<open>Steering\<close>

definition is_power_of_two :: "nat \<Rightarrow> bool" where
  "is_power_of_two n \<longleftrightarrow> list_ex (\<lambda>k. n = 2 ^ k) [0..<64]"

text \<open>
  The steering decision for the winning signal of a round; the note is queued in the state.
\<close>

definition steer_round :: "detector_signal \<Rightarrow> self_report option \<Rightarrow> u64 \<Rightarrow> steering \<Rightarrow> steering" where
  "steer_round signal report calls_hash sg =
     (if should_steer signal report
      then let sg = (if signal = sg_last_signal sg then sg\<lparr>sg_attempt := sg_attempt sg + 1\<rparr>
                     else sg\<lparr>sg_attempt := 0, sg_last_signal := signal, sg_last_calls := None\<rparr>);
               attempt = sg_attempt sg;
               ignoring = (Some calls_hash = sg_last_calls sg);
               emit = (if ignoring \<and> PERSISTENT_ATTEMPT \<le> attempt
                       then is_power_of_two (attempt - PERSISTENT_ATTEMPT + 1) else True)
           in if emit then sg\<lparr>sg_pending := Some (steer_note signal report attempt), sg_last_calls := Some calls_hash\<rparr> else sg
      else if signal = NoSignal then sg\<lparr>sg_attempt := 0, sg_last_signal := NoSignal, sg_last_calls := None\<rparr>
      else sg)"

text \<open>The next request takes the queued note.\<close>

definition take_steer :: "steering \<Rightarrow> string option \<times> steering" where
  "take_steer sg = (sg_pending sg, sg\<lparr>sg_pending := None\<rparr>)"

section \<open>A round\<close>

definition supervise_round :: "round_env \<Rightarrow> tool_call list \<Rightarrow> call_result list \<Rightarrow> supervision \<Rightarrow> supervision" where
  "supervise_round env calls results s =
     (let ((l, d), acc) = fold (fold_call env results) calls ((su_evidence s, su_detectors s), empty_acc);
          (runs, hb) = (if rd_track env then take_handback (su_handback s) else ((0, 0), su_handback s));
          d = (if rd_track env then note_round_verification (round_facts_of env runs acc) d else d);
          (batch, d) = record_round_signals (rd_detect env) (ra_hashes acc) (ra_novel acc) LOOP_THRESHOLD NO_PROGRESS_WINDOW d;
          signal = merge_signal NoSignal batch;
          (recovery, d) = record_round_verifier_outcomes (rd_detect env) (ra_outcomes acc) NO_PROGRESS_WINDOW d;
          signal = merge_signal signal recovery;
          calls_hash = call_set_hash (rd_detect env) (rd_text_of env) (map (\<lambda>c. (ca_name c, ca_parameters c)) calls)
      in s\<lparr>su_detectors := d, su_evidence := l, su_handback := hb,
           su_steering := steer_round signal (su_self_report s) calls_hash (su_steering s)\<rparr>)"

end
