(* ===== verification/Completion.thy ===== *)
theory Completion
  imports Round
begin

text \<open>
  What happens when the model ends its turn (\<open>execute_api_call_and_process_response\<close> of
  \<open>src/session/chat/session/api_executor.rs\<close>, after the response has been processed): an unfinished hand-back is
  sent on, a claim of completion meets the free check and the verification gate, and each of these may inject a
  note and run the turn again. One call of \<open>completion_check\<close> is one such end of turn. Arguments: the
  fingerprint of the working tree, the configuration, the verifier, git, the plan and the tokenizer.
\<close>

datatype trajectory_outcome = UnknownOutcome | VerifiedOutcome | FailedOutcome

record 'x completion_state =
  cs_eligible :: bool
  cs_supervision :: supervision
  cs_report_reason :: "string option"
  cs_gate_task :: "resolved_task option"
  cs_gate_iterations :: u8
  cs_nudge_iterations :: u8
  cs_gate_failed :: bool
  cs_outcome :: trajectory_outcome
  cs_last_gaps :: "string list"
  cs_plan_signal :: "plan_signal option"
  cs_policy :: verification_policy
  cs_messages :: "'x message list"
  cs_turn_answers :: "string list"
  cs_last_response :: string

record completion_env =
  ce_now :: u64
  ce_gate_enabled :: bool
  ce_interactive :: bool
  ce_pending_async :: bool
  ce_validators :: bool
  ce_fingerprint :: "u64 option"
  ce_live_plan :: string
  ce_git :: git_env
  ce_size_of :: "nat \<Rightarrow> string"
  ce_lowercase :: "string \<Rightarrow> string"
  ce_estimate_tokens :: "string \<Rightarrow> nat"
  ce_truncate_tokens :: "string \<Rightarrow> nat \<Rightarrow> string"
  ce_max_tokens :: nat
  ce_verify :: "gate_input \<Rightarrow> gate_verdict"
  ce_finalize :: "string \<Rightarrow> string option"

datatype end_of_turn = Rerun | Returned | Ended

definition PREGATE_MARKER :: string where
  "PREGATE_MARKER = ''octomind:pre_gate_unverified_mutation''"

definition CONTINUE_NOTE :: string where
  "CONTINUE_NOTE =
     ''<pay-attention>'' @ newline @ ''<!-- octomind:pre_gate_unfinished_handback -->'' @ newline @
     ''Your last message ended the turn while your own status was still in progress and no action was taken '' @
     long_dash @
     '' that is a promise, not a result. Continue the work now. When it is genuinely finished, report done; '' @
     ''if you cannot proceed, report blocked or need_input with the reason.'' @ newline @ ''</pay-attention>''"

definition PREGATE_NOTE :: string where
  "PREGATE_NOTE =
     ''<pay-attention>'' @ newline @ ''<!-- octomind:pre_gate_unverified_mutation -->'' @ newline @
     ''You may only report done after a verification has actually passed. You reported done with state '' @
     ''changes still unverified, so that claim isn'' @ [CHR 0x27] @
     ''t trustworthy yet. Run the check appropriate to this work (for example, inspect the resulting state, '' @
     ''exercise the changed behavior, or use a domain-specific validator), watch the result, and report the '' @
     ''actual outcome: pass, fail, or '' @ long_dash @ '' if no meaningful check exists '' @ long_dash @
     '' what you inspected and why that is sufficient. Base the report on the observed result, not on what '' @
     ''you expect.'' @ newline @ ''</pay-attention>''"

definition latest_real_user_turn_start :: "'x message list \<Rightarrow> nat" where
  "latest_real_user_turn_start messages =
     (case latest_task_turn_index messages of Some i \<Rightarrow> i | None \<Rightarrow> length messages)"

definition claims_user_task_completion :: "bool \<Rightarrow> self_report option \<Rightarrow> bool \<Rightarrow> bool" where
  "claims_user_task_completion eligible report has_mutations \<longleftrightarrow>
     eligible \<and> (report = Some Done \<or> (report = None \<and> has_mutations))"

definition completion_task :: "resolved_task option \<Rightarrow> string \<Rightarrow> string \<Rightarrow> resolved_task" where
  "completion_task gate_task task live_plan =
     (case gate_task of
        Some resolved \<Rightarrow>
          if rt_original_request resolved = task then resolved
          else (self_contained task)\<lparr>rt_plan_at_turn_start := live_plan\<rparr>
      | None \<Rightarrow> (self_contained task)\<lparr>rt_plan_at_turn_start := live_plan\<rparr>)"

definition ANSWER_PART_SEPARATOR :: string where
  "ANSWER_PART_SEPARATOR = newline @ newline @ ''--- (continued after supervisor feedback) ---'' @ newline @ newline"

text \<open>The newest answers that fit the budget, taken from the newest; the newest is always kept.\<close>

fun keep_newest :: "(string \<Rightarrow> nat) \<Rightarrow> nat \<Rightarrow> string list \<Rightarrow> string list \<Rightarrow> nat \<Rightarrow> string list" where
  "keep_newest tokens limit [] kept used = kept"
| "keep_newest tokens limit (part # parts) kept used =
     (if kept \<noteq> [] \<and> limit < used + tokens part then kept
      else keep_newest tokens limit parts (part # kept) (used + tokens part))"

definition current_turn_answer :: "completion_env \<Rightarrow> string list \<Rightarrow> nat \<Rightarrow> string" where
  "current_turn_answer env turn_answers max_tokens =
     ce_truncate_tokens env
       (join ANSWER_PART_SEPARATOR (keep_newest (ce_estimate_tokens env) max_tokens (rev turn_answers) [] 0)) max_tokens"

definition add_system_managed_user_message :: "u64 \<Rightarrow> string \<Rightarrow> 'x completion_state \<Rightarrow> 'x completion_state" where
  "add_system_managed_user_message now content s =
     s\<lparr>cs_messages := cs_messages s @ [build_message now ''user'' (ensure_system_managed content)]\<rparr>"

definition clear_report :: "'x completion_state \<Rightarrow> 'x completion_state" where
  "clear_report s = s\<lparr>cs_supervision := (cs_supervision s)\<lparr>su_self_report := None\<rparr>\<rparr>"

definition self_report_of :: "'x completion_state \<Rightarrow> self_report option" where
  "self_report_of s = su_self_report (cs_supervision s)"

definition debt :: "completion_env \<Rightarrow> 'x completion_state \<Rightarrow> bool" where
  "debt env s = needs_verification (ce_fingerprint env) (su_detectors (cs_supervision s))"

definition has_mutations :: "'x completion_state \<Rightarrow> bool" where
  "has_mutations s \<longleftrightarrow> el_mutated_paths (su_evidence (cs_supervision s)) \<noteq> []"

section \<open>The unfinished hand-back\<close>

definition unfinished_handback :: "completion_env \<Rightarrow> 'x completion_state \<Rightarrow> bool" where
  "unfinished_handback env s \<longleftrightarrow>
     ce_gate_enabled env \<and> cs_eligible s \<and> \<not> ce_interactive env \<and> \<not> ce_pending_async env \<and>
     (self_report_of s = Some Exploring \<or> self_report_of s = Some Progressing) \<and>
     cs_nudge_iterations s < MAX_ITERATIONS"

section \<open>The free check\<close>

definition saturating_inc :: "u8 \<Rightarrow> u8" where
  "saturating_inc n = (if n = 255 then n else n + 1)"

definition free_check_applies :: "completion_env \<Rightarrow> resolved_task \<Rightarrow> 'x completion_state \<Rightarrow> bool" where
  "free_check_applies env t s \<longleftrightarrow>
     \<not> rt_answer_only t \<and> \<not> ce_validators env \<and>
     \<not> (rt_forbids_verification t \<or> policy_forbids (cs_policy s)) \<and> debt env s"

definition free_check :: "completion_env \<Rightarrow> 'x completion_state \<Rightarrow> end_of_turn \<times> 'x completion_state" where
  "free_check env s =
     (let next_iteration = saturating_inc (cs_nudge_iterations s);
          already_nudged = list_ex (\<lambda>m. str_contains (msg_content m) PREGATE_MARKER)
            (drop (latest_real_user_turn_start (cs_messages s)) (cs_messages s))
      in if MAX_ITERATIONS \<le> next_iteration
         then (Returned, s\<lparr>cs_nudge_iterations := next_iteration, cs_gate_failed := True, cs_outcome := FailedOutcome,
                 cs_plan_signal := None\<rparr>)
         else let s = (if already_nudged then s else add_system_managed_user_message (ce_now env) PREGATE_NOTE s)
              in (Rerun, (clear_report s)\<lparr>cs_nudge_iterations := next_iteration\<rparr>))"

section \<open>The gate\<close>

definition NO_CHECK_OBSERVED :: string where
  "NO_CHECK_OBSERVED =
     ''Runtime observation: NO check of any kind has succeeded on the changed state since the agent'' @ [CHR 0x27] @
     ''s last state change.''"

definition ONLY_READBACK_OBSERVED :: string where
  "ONLY_READBACK_OBSERVED =
     ''Runtime observation: since its last state change the agent only re-read its own edited artifacts; no '' @
     ''command-shaped check (build, test, run, validator) succeeded on the changed state. Inspection verifies '' @
     ''artifact content, never behavior.''"

definition provenance :: "completion_env \<Rightarrow> 'x completion_state \<Rightarrow> string option" where
  "provenance env s =
     (if \<not> has_mutations s then None
      else if debt env s then Some NO_CHECK_OBSERVED
      else if cleared_by_readback_only (su_detectors (cs_supervision s)) then Some ONLY_READBACK_OBSERVED
      else None)"

definition ground_truth_of :: "completion_env \<Rightarrow> 'x completion_state \<Rightarrow> string" where
  "ground_truth_of env s =
     (let l = su_evidence (cs_supervision s);
          g = render_ground_truth (ce_git env) (el_mutated_paths l) (el_recent_commands l)
      in case provenance env s of
           None \<Rightarrow> g
         | Some p \<Rightarrow> (if g = [] then [] else g @ newline @ newline) @ p)"

definition gate_input_of :: "completion_env \<Rightarrow> resolved_task \<Rightarrow> 'x completion_state \<Rightarrow> gate_input" where
  "gate_input_of env t s =
     (let answer = current_turn_answer env (cs_turn_answers s) (ce_max_tokens env);
          l = su_evidence (cs_supervision s)
      in \<lparr>gi_original_task = rt_original_request t, gi_task = rt_resolved_request t, gi_task_scope = rt_scope t,
          gi_context_sources = rt_context_sources t, gi_resolution_evidence = rt_resolution_evidence t,
          gi_result = (if answer = [] then cs_last_response s else answer), gi_claim = cs_report_reason s,
          gi_actions = render_ledger (ce_size_of env) l, gi_grounds = el_grounds l,
          gi_plan = (if plan_applies t (ce_live_plan env) then ce_live_plan env else []),
          gi_ground_truth = ground_truth_of env s, gi_prior_gaps = cs_last_gaps s,
          gi_role_context = role_context (cs_messages s), gi_evidence_conditions = rt_evidence_conditions t\<rparr>)"

definition fail_gate :: "'x completion_state \<Rightarrow> 'x completion_state" where
  "fail_gate s = s\<lparr>cs_gate_failed := True, cs_outcome := FailedOutcome\<rparr>"

definition on_pass :: "completion_env \<Rightarrow> resolved_task \<Rightarrow> 'x completion_state \<Rightarrow> end_of_turn \<times> 'x completion_state" where
  "on_pass env t s =
     (let summary = (case cs_report_reason s of Some c \<Rightarrow> c | None \<Rightarrow> ''Completion verified'')
      in if plan_applies t (ce_live_plan env) \<and> ce_finalize env summary \<noteq> None then (Returned, fail_gate s)
         else (Ended, s\<lparr>cs_gate_iterations := 0, cs_nudge_iterations := 0, cs_gate_failed := False,
                 cs_outcome := VerifiedOutcome, cs_last_gaps := []\<rparr>))"

definition on_gaps ::
  "completion_env \<Rightarrow> bool \<Rightarrow> string list \<Rightarrow> 'x completion_state \<Rightarrow> end_of_turn \<times> 'x completion_state" where
  "on_gaps env new_evidence gaps s =
     (let prior_gaps = cs_last_gaps s; s = s\<lparr>cs_plan_signal := None\<rparr>
      in if new_evidence \<and> gaps_unchanged (ce_lowercase env) prior_gaps gaps
         then (Returned, (fail_gate s)\<lparr>cs_gate_iterations := 0, cs_last_gaps := []\<rparr>)
         else let s = (clear_report (add_system_managed_user_message (ce_now env) (format_advisory gaps) s))
                        \<lparr>cs_gate_iterations := cs_gate_iterations s + 1, cs_last_gaps := gaps\<rparr>
              in if cs_gate_iterations s < MAX_ITERATIONS then (Rerun, s) else (Ended, fail_gate s))"

definition on_indeterminate :: "completion_env \<Rightarrow> 'x completion_state \<Rightarrow> end_of_turn \<times> 'x completion_state" where
  "on_indeterminate env s =
     (let s = (fail_gate s)\<lparr>cs_plan_signal := None, cs_gate_iterations := cs_gate_iterations s + 1\<rparr>
      in case unverified_reentry (cs_gate_iterations s) MAX_ITERATIONS of
           Some note \<Rightarrow> (Rerun, clear_report (add_system_managed_user_message (ce_now env) note s))
         | None \<Rightarrow> (Ended, s))"

definition mark_gate :: "'x completion_state \<Rightarrow> 'x completion_state" where
  "mark_gate s = s\<lparr>cs_supervision :=
     (cs_supervision s)\<lparr>su_evidence := mark_gate_checkpoint (su_evidence (cs_supervision s))\<rparr>\<rparr>"

definition run_gate :: "completion_env \<Rightarrow> resolved_task \<Rightarrow> 'x completion_state \<Rightarrow> end_of_turn \<times> 'x completion_state" where
  "run_gate env t s =
     (let verdict = ce_verify env (gate_input_of env t s);
          new_evidence = (0 < actions_since_gate (su_evidence (cs_supervision s)));
          s = mark_gate s
      in case verdict of
           Pass \<Rightarrow> on_pass env t s
         | Gaps gaps \<Rightarrow> on_gaps env new_evidence gaps s
         | Indeterminate reason \<Rightarrow> on_indeterminate env s)"

section \<open>The end of a turn\<close>

definition gated_claim :: "completion_env \<Rightarrow> 'x completion_state \<Rightarrow> bool" where
  "gated_claim env s \<longleftrightarrow>
     ce_gate_enabled env \<and> claims_user_task_completion (cs_eligible s) (self_report_of s) (has_mutations s) \<and>
     cs_gate_iterations s < MAX_ITERATIONS"

definition task_of :: "completion_env \<Rightarrow> 'x completion_state \<Rightarrow> resolved_task" where
  "task_of env s =
     completion_task (cs_gate_task s)
       (case latest_real_user_task_content (cs_messages s) of Some t \<Rightarrow> t | None \<Rightarrow> []) (ce_live_plan env)"

definition completion_check :: "completion_env \<Rightarrow> 'x completion_state \<Rightarrow> end_of_turn \<times> 'x completion_state" where
  "completion_check env s =
     (if unfinished_handback env s
      then (Rerun, (clear_report (add_system_managed_user_message (ce_now env) CONTINUE_NOTE s))
              \<lparr>cs_nudge_iterations := cs_nudge_iterations s + 1\<rparr>)
      else if gated_claim env s
      then (if free_check_applies env (task_of env s) s then free_check env s else run_gate env (task_of env s) s)
      else (Ended, s))"

section \<open>A new task\<close>

text \<open>
  The supervisor's part of \<open>add_user_message_with_attachments\<close> (\<open>src/session/chat/session/messages.rs\<close>): a genuine
  user turn starts with a fresh budget, ledger and detectors; \<open>gate_failed\<close> keeps its label.
\<close>

definition admit_user_turn :: "'x message \<Rightarrow> 'x completion_state \<Rightarrow> 'x completion_state" where
  "admit_user_turn m s =
     (let su = cs_supervision s;
          sg = (su_steering su)\<lparr>sg_attempt := 0, sg_last_signal := NoSignal, sg_last_calls := None\<rparr>;
          su = su\<lparr>su_steering := sg, su_evidence := ledger_reset (su_evidence su),
                  su_detectors := reset_streak (su_detectors su), su_handback := snd (take_handback (su_handback su))\<rparr>
      in s\<lparr>cs_messages := cs_messages s @ [m], cs_outcome := UnknownOutcome, cs_eligible := True,
           cs_supervision := su, cs_gate_task := None, cs_gate_iterations := 0, cs_nudge_iterations := 0,
           cs_last_gaps := [], cs_plan_signal := None, cs_turn_answers := []\<rparr>)"

end
