(* ===== verification/Planner.thy ===== *)
theory Planner
  imports Completion PlanSidecar
begin

text \<open>
  The external plan manager (\<open>src/supervisor/plan.rs\<close>) and the two places a signal for it comes from: the self
  report of a response (\<open>capture_self_report\<close> of \<open>src/session/chat/response.rs\<close>) and a broken condition of the
  plan (\<open>src/session/chat/session/api_executor.rs\<close>). The planner's model call and the decoding of its reply, the
  tokenizer, the clock and the registry of tools are arguments.
\<close>

section \<open>Decisions\<close>

datatype plan_decision =
    CreatePlan string "directive list"
  | NoPlan string
  | Advance string
  | Hold string
  | Revise string "directive list"

record plan_response =
  pz_decision :: string
  pz_title :: "string option"
  pz_summary :: "string option"
  pz_reason :: "string option"
  pz_tasks :: "directive list"

definition or_empty :: "string option \<Rightarrow> string" where
  "or_empty o' = (case o' of Some s \<Rightarrow> s | None \<Rightarrow> [])"

definition into_decision :: "plan_response \<Rightarrow> plan_decision option" where
  "into_decision r =
     (if pz_decision r = ''create'' then Some (CreatePlan (or_empty (pz_title r)) (pz_tasks r))
      else if pz_decision r = ''no_plan'' then Some (NoPlan (or_empty (pz_reason r)))
      else if pz_decision r = ''advance'' then Some (Advance (or_empty (pz_summary r)))
      else if pz_decision r = ''hold'' then Some (Hold (or_empty (pz_reason r)))
      else if pz_decision r = ''revise'' then Some (Revise (or_empty (pz_reason r)) (pz_tasks r))
      else None)"

text \<open>The decisions the response schema admits for a signal.\<close>

fun schema_decisions :: "plan_signal \<Rightarrow> string list" where
  "schema_decisions Request = [''create'', ''no_plan'']"
| "schema_decisions PhaseComplete = [''advance'', ''hold'', ''revise'']"
| "schema_decisions Reassess = [''revise'', ''hold'']"

section \<open>State\<close>

record 'x planner_state =
  pn_session :: "'x completion_state"
  pn_plan :: plan_ctx
  pn_evaluated :: bool
  pn_failed :: bool
  pn_checkpoint :: nat
  pn_tools :: "(string \<times> string) list option"
  pn_handoff :: "self_report_handoff option"
  pn_recalled :: "string list"
  pn_used_memories :: "string set"
  pn_used_behaviors :: "string list"

record planner_env =
  pv_now :: u64
  pv_enabled :: bool
  pv_plan_enabled :: bool
  pv_plan :: plan_env
  pv_tools :: "(string \<times> string) list"
  pv_text_of :: "json \<Rightarrow> string"
  pv_size_of :: "nat \<Rightarrow> string"
  pv_estimate :: "string \<Rightarrow> nat"
  pv_truncate :: "string \<Rightarrow> nat \<Rightarrow> string"
  pv_ask :: "plan_signal \<Rightarrow> string \<Rightarrow> string + plan_response option"
  pv_behavior_available :: "string \<Rightarrow> bool"
  pv_hash :: "string \<Rightarrow> u64"

definition evidence_of :: "'x planner_state \<Rightarrow> evidence_ledger" where
  "evidence_of s = su_evidence (cs_supervision (pn_session s))"

definition messages_of :: "'x planner_state \<Rightarrow> 'x message list" where
  "messages_of s = cs_messages (pn_session s)"

definition tell :: "planner_env \<Rightarrow> string \<Rightarrow> 'x planner_state \<Rightarrow> 'x planner_state" where
  "tell env note s = s\<lparr>pn_session := add_system_managed_user_message (pv_now env) note (pn_session s)\<rparr>"

definition plan_active_in :: "'x planner_state \<Rightarrow> bool" where
  "plan_active_in s = has_active_plan (px_store (pn_plan s))"

section \<open>What the planner is shown\<close>

definition DECISION_MAX_TOKENS :: nat where "DECISION_MAX_TOKENS = 2048"
definition TRAJECTORY_MAX_TOKENS :: nat where "TRAJECTORY_MAX_TOKENS = 4096"

definition MIDDLE_MARKER :: string where
  "MIDDLE_MARKER = newline @ ellipsis @ '' [middle truncated] '' @ ellipsis @ newline"

text \<open>The byte offsets of the characters and of the end.\<close>

definition boundaries :: "string \<Rightarrow> nat list" where
  "boundaries s = filter (\<lambda>i. \<not> is_continuation (s ! i)) [0..<length s] @ [length s]"

text \<open>The binary search for the longest tail that fits.\<close>

function search_tail :: "(string \<Rightarrow> nat) \<Rightarrow> string \<Rightarrow> nat list \<Rightarrow> nat \<Rightarrow> nat \<Rightarrow> nat \<Rightarrow> nat" where
  "search_tail estimate s bs budget low high =
     (if low < high
      then let mid = (low + high) div 2
           in if estimate (drop (bs ! mid) s) \<le> budget then search_tail estimate s bs budget low mid
              else search_tail estimate s bs budget (mid + 1) high
      else low)"
  by pat_completeness auto
termination
  by (relation "measure (\<lambda>(estimate, s, bs, budget, low, high). high - low)") auto

declare search_tail.simps [simp del]

definition tail_within :: "(string \<Rightarrow> nat) \<Rightarrow> string \<Rightarrow> nat \<Rightarrow> string" where
  "tail_within estimate s budget =
     (let bs = boundaries s in drop (bs ! search_tail estimate s bs budget 0 (length bs - 1)) s)"

definition truncate_edges_to_tokens ::
  "(string \<Rightarrow> nat) \<Rightarrow> (string \<Rightarrow> nat \<Rightarrow> string) \<Rightarrow> string \<Rightarrow> nat \<Rightarrow> string" where
  "truncate_edges_to_tokens estimate keep s max_tokens =
     (if estimate s \<le> max_tokens then s
      else if max_tokens = 0 then []
      else let marker_tokens = estimate MIDDLE_MARKER
           in if max_tokens \<le> marker_tokens + 2 then keep s max_tokens
              else let content_budget = max_tokens - (marker_tokens + 2);
                       head_budget = content_budget * 2 div 3;
                       tail_budget = content_budget - head_budget;
                       rendered = keep s head_budget @ MIDDLE_MARKER @ tail_within estimate s tail_budget
                   in if estimate rendered \<le> max_tokens then rendered else keep rendered max_tokens)"

definition trajectory_record :: "'x message \<Rightarrow> string option" where
  "trajectory_record m =
     (let content = trim (msg_content m)
      in if content = [] then None
         else if msg_role m = ''assistant'' then Some (''[assistant]'' @ newline @ content)
         else if msg_role m = ''tool''
         then Some (''[tool name='' @ (case msg_name m of Some n \<Rightarrow> n | None \<Rightarrow> ''unknown'') @ '']'' @ newline @ content)
         else None)"

text \<open>The newest records that fit, taken from the newest; the newest is cut if it does not fit alone.\<close>

fun select_records ::
  "(string \<Rightarrow> nat) \<Rightarrow> (string \<Rightarrow> nat \<Rightarrow> string) \<Rightarrow> string list \<Rightarrow> nat \<Rightarrow> string list \<Rightarrow> string list" where
  "select_records estimate keep [] remaining selected = selected"
| "select_records estimate keep (r # newest_first) remaining selected =
     (let cost = estimate r
      in if cost \<le> remaining then select_records estimate keep newest_first (remaining - cost) (r # selected)
         else if selected = [] then [truncate_edges_to_tokens estimate keep r remaining]
         else selected)"

definition render_phase_trajectory ::
  "(string \<Rightarrow> nat) \<Rightarrow> (string \<Rightarrow> nat \<Rightarrow> string) \<Rightarrow> 'x message list \<Rightarrow> nat \<Rightarrow> nat \<Rightarrow> string" where
  "render_phase_trajectory estimate keep messages start_index max_tokens =
     (if max_tokens = 0 \<or> messages = [] then []
      else let records = List.map_filter trajectory_record (drop (min start_index (length messages)) messages)
           in if records = [] then []
              else truncate_edges_to_tokens estimate keep
                     (join (newline @ newline) (select_records estimate keep (rev records) max_tokens [])) max_tokens)"

definition json_opt :: "string option \<Rightarrow> json" where
  "json_opt o' = (case o' of Some s \<Rightarrow> JStr s | None \<Rightarrow> JNull)"

text \<open>The fields of the request context, in the order of the payload.\<close>

definition request_context :: "resolved_task option \<Rightarrow> string \<Rightarrow> (string \<times> json) list" where
  "request_context gate_task current_request =
     (case gate_task of
        Some task \<Rightarrow>
          [(''working_request'',
            json_opt (if rt_scope task = FollowUp \<and> trim (rt_resolved_request task) \<noteq> trim current_request
                      then Some (rt_resolved_request task) else None)),
           (''request_resolution'', JStr (scope_as_str (rt_scope task))),
           (''answer_only'', JBool (rt_answer_only task)),
           (''outcome_conditions'', JArr (map JStr (rt_evidence_conditions task))),
           (''prior_turn_context'', JStr []), (''session_context'', JStr [])]
      | None \<Rightarrow>
          [(''working_request'', JNull), (''request_resolution'', JStr ''literal''), (''answer_only'', JNull),
           (''outcome_conditions'', JArr []), (''prior_turn_context'', JStr []), (''session_context'', JStr [])])"

fun signal_name :: "plan_signal \<Rightarrow> string" where
  "signal_name Request = ''request''"
| "signal_name PhaseComplete = ''phase_complete''"
| "signal_name Reassess = ''reassess''"

definition phase_start :: "'x planner_state \<Rightarrow> nat" where
  "phase_start s =
     (let n = length (messages_of s);
          live = (if plan_active_in s then px_task_start (pn_plan s) else None)
      in case (case live of Some i \<Rightarrow> if i \<le> n then Some i else None | None \<Rightarrow> None) of
           Some i \<Rightarrow> i
         | None \<Rightarrow> (case latest_task_turn_index (messages_of s) of Some i \<Rightarrow> i | None \<Rightarrow> 0))"

text \<open>The actions that may authorize a transition.\<close>

definition runtime_evidence :: "(nat \<Rightarrow> string) \<Rightarrow> 'x planner_state \<Rightarrow> string" where
  "runtime_evidence size_of s =
     (if plan_active_in s then render_since size_of (pn_checkpoint s) (evidence_of s)
      else render_ledger size_of (evidence_of s))"

definition render_specialist_context :: "planner_env \<Rightarrow> plan_signal \<Rightarrow> nat \<Rightarrow> 'x planner_state \<Rightarrow> string" where
  "render_specialist_context env signal max_tokens s =
     (let instructions = (case find (\<lambda>m. msg_role m = ''system'') (messages_of s) of
            Some m \<Rightarrow> msg_content m | None \<Rightarrow> []);
          request = or_empty (latest_real_user_task_content (messages_of s));
          tools = (case pn_tools s of Some ts \<Rightarrow> ts | None \<Rightarrow> []);
          handoff = (case pn_handoff s of
            Some h \<Rightarrow> JObj [(''focus'', JStr (ho_focus h)), (''next'', JStr (ho_next h)),
                         (''carry'', JArr (map JStr (ho_carry h)))]
          | None \<Rightarrow> JNull)
      in pv_text_of env (JObj (
           [(''signal'', JStr (signal_name signal)),
            (''specialist_instructions'', JStr instructions),
            (''specialist_capabilities'',
             JArr (map (\<lambda>(n, d). JObj [(''name'', JStr n), (''description'', JStr d)]) tools)),
            (''current_request'', JStr request)] @
           request_context (cs_gate_task (pn_session s)) request @
           [(''active_plan'', JStr (or_empty (render_plan_details (px_store (pn_plan s))))),
            (''specialist_handoff'', handoff),
            (''phase_trajectory'', JStr (render_phase_trajectory (pv_estimate env) (pv_truncate env) (messages_of s)
               (phase_start s) max_tokens)),
            (''runtime_evidence'', JStr (runtime_evidence (pv_size_of env) s))])))"

section \<open>Applying a decision\<close>

definition plan_state_note :: "plan_store \<Rightarrow> string option" where
  "plan_state_note st =
     map_option (\<lambda>checklist.
       ''<runtime-plan authority='' @ [CHR 0x22] @ ''execution-state'' @ [CHR 0x22] @ ''>'' @ newline @
       escape_xml_text checklist @
       ''Complete the current phase against its stated outcome. Report `plan='' @ [CHR 0x22] @ ''phase_complete'' @ [CHR 0x22] @
       ''` only when that outcome is evidenced; the external manager owns all transitions.'' @ newline @ ''</runtime-plan>'')
     (render_plan_checklist st)"

definition concise_text :: "string \<Rightarrow> string" where
  "concise_text s =
     (let bounded = take_chars 500 (join '' '' (split_whitespace s))
      in if bounded = [] then ''no reason provided'' else bounded)"

definition xml_feedback :: "string \<Rightarrow> string" where
  "xml_feedback s = take_chars 600 (escape_xml_text (concise_text s))"

definition feedback_block :: "string \<Rightarrow> string" where
  "feedback_block s = ''<runtime-plan-feedback>'' @ s @ ''</runtime-plan-feedback>''"

definition note_planner_failure :: "planner_env \<Rightarrow> 'x planner_state \<Rightarrow> 'x planner_state" where
  "note_planner_failure env s =
     (let s = s\<lparr>pn_failed := True\<rparr>
      in if plan_active_in s
         then tell env (feedback_block (''The external plan manager could not decide. Plan state was not changed; '' @
                ''do not infer a transition. Continue only safe evidence-gathering work.'')) s
         else s)"

definition plan_request_allowed :: "'x planner_state \<Rightarrow> bool" where
  "plan_request_allowed s =
     (case cs_gate_task (pn_session s) of Some task \<Rightarrow> \<not> rt_answer_only task | None \<Rightarrow> True)"

datatype transition = NoTransition | Created | Advanced | Revised

text \<open>\<open>None\<close> is an invalid decision: the plan refuses it, or it does not answer the signal.\<close>

definition on_plan :: "transition \<Rightarrow> 'x planner_state \<Rightarrow> sidecar_err + plan_ctx \<Rightarrow> (transition \<times> 'x planner_state) option" where
  "on_plan t s r = (case r of Inr ctx \<Rightarrow> Some (t, s\<lparr>pn_plan := ctx\<rparr>) | Inl _ \<Rightarrow> None)"

fun apply_decision ::
  "planner_env \<Rightarrow> plan_signal \<Rightarrow> plan_decision \<Rightarrow> 'x planner_state \<Rightarrow> (transition \<times> 'x planner_state) option" where
  "apply_decision env Request (CreatePlan title tasks) s =
     on_plan Created s (sidecar_start (pv_plan env) title tasks (pn_plan s))"
| "apply_decision env Request (NoPlan reason) s = Some (NoTransition, s)"
| "apply_decision env PhaseComplete (Advance summary) s =
     on_plan Advanced s (sidecar_advance (pv_plan env) summary (pn_plan s))"
| "apply_decision env PhaseComplete (Revise reason tasks) s =
     on_plan Revised s (sidecar_revise (pv_plan env) reason tasks (pn_plan s))"
| "apply_decision env PhaseComplete (Hold reason) s =
     Some (NoTransition, tell env (feedback_block (''Current phase remains open: '' @ xml_feedback reason)) s)"
| "apply_decision env Reassess (Revise reason tasks) s =
     on_plan Revised s (sidecar_revise (pv_plan env) reason tasks (pn_plan s))"
| "apply_decision env Reassess (Hold reason) s =
     Some (NoTransition, tell env (feedback_block
       (''Plan assumption failed and no safe revision was established: '' @ xml_feedback reason)) s)"
| "apply_decision env signal decision s = None"

definition after_transition :: "planner_env \<Rightarrow> transition \<Rightarrow> 'x planner_state \<Rightarrow> 'x planner_state" where
  "after_transition env t s =
     (let s = (if t = NoTransition then s
               else case plan_state_note (px_store (pn_plan s)) of Some note \<Rightarrow> tell env note s | None \<Rightarrow> s)
      in case t of
           Advanced \<Rightarrow> s\<lparr>pn_session := (pn_session s)\<lparr>cs_nudge_iterations := 0\<rparr>\<rparr>
         | Revised \<Rightarrow>
             (let (checkpoint, l) = begin_phase (evidence_of s); cs = pn_session s
              in s\<lparr>pn_plan := set_current_task_start_index (length (messages_of s)) (pn_plan s),
                   pn_checkpoint := checkpoint,
                   pn_session := cs\<lparr>cs_supervision := (cs_supervision cs)\<lparr>su_evidence := l\<rparr>\<rparr>\<rparr>)
         | _ \<Rightarrow> s)"

section \<open>Reconciliation\<close>

text \<open>The checks before the planner is asked: the pending signal is consumed in every case.\<close>

definition admit_signal :: "planner_env \<Rightarrow> 'x planner_state \<Rightarrow> plan_signal option \<times> 'x planner_state" where
  "admit_signal env s =
     (case cs_plan_signal (pn_session s) of
        None \<Rightarrow> (None, s)
      | Some signal \<Rightarrow>
          let s = s\<lparr>pn_session := (pn_session s)\<lparr>cs_plan_signal := None\<rparr>\<rparr>; active = plan_active_in s
          in if \<not> pv_enabled env \<or> \<not> pv_plan_enabled env then (None, s)
             else if pn_failed s then (None, s)
             else if signal = Request \<and> active then (None, s)
             else if signal = Request
             then (if pn_evaluated s then (None, s)
                   else let s = s\<lparr>pn_evaluated := True\<rparr>
                        in if \<not> cs_eligible (pn_session s) then (None, s)
                           else if \<not> plan_request_allowed s then (None, s)
                           else (Some signal, s))
             else if \<not> active then (None, s)
             else (Some signal, s))"

definition with_tools :: "planner_env \<Rightarrow> 'x planner_state \<Rightarrow> 'x planner_state" where
  "with_tools env s = (if pn_tools s = None then s\<lparr>pn_tools := Some (pv_tools env)\<rparr> else s)"

definition decide :: "planner_env \<Rightarrow> plan_signal \<Rightarrow> 'x planner_state \<Rightarrow> plan_decision option" where
  "decide env signal s =
     (case pv_ask env signal (render_specialist_context env signal TRAJECTORY_MAX_TOKENS s) of
        Inr (Some r) \<Rightarrow> into_decision r
      | _ \<Rightarrow> None)"

definition reconcile_after_actions :: "planner_env \<Rightarrow> 'x planner_state \<Rightarrow> 'x planner_state" where
  "reconcile_after_actions env s =
     (case admit_signal env s of
        (None, s) \<Rightarrow> s
      | (Some signal, s) \<Rightarrow>
          let s = with_tools env s
          in case decide env signal s of
               None \<Rightarrow> note_planner_failure env s
             | Some decision \<Rightarrow>
                 (case apply_decision env signal decision s of
                    None \<Rightarrow> note_planner_failure env s
                  | Some (t, s) \<Rightarrow> after_transition env t s))"

definition finalize_after_completion :: "plan_env \<Rightarrow> string \<Rightarrow> plan_ctx \<Rightarrow> sidecar_err + plan_ctx" where
  "finalize_after_completion env summary ctx = sidecar_finish env summary ctx"

text \<open>
  The end of a turn with the session's plan: the live plan is the rendering of the store, and a pass that the plan
  applies to finishes the plan.
\<close>

definition live_env :: "completion_env \<Rightarrow> planner_env \<Rightarrow> 'x planner_state \<Rightarrow> completion_env" where
  "live_env cenv env s = cenv
     \<lparr>ce_live_plan := or_empty (render_plan_details (px_store (pn_plan s))),
      ce_finalize := (\<lambda>summary. case finalize_after_completion (pv_plan env) summary (pn_plan s) of
         Inl e \<Rightarrow> Some ''plan finalization failed'' | Inr _ \<Rightarrow> None)\<rparr>"

definition gate_accepts :: "completion_env \<Rightarrow> 'x completion_state \<Rightarrow> bool" where
  "gate_accepts cenv s \<longleftrightarrow>
     \<not> unfinished_handback cenv s \<and> gated_claim cenv s \<and> \<not> free_check_applies cenv (task_of cenv s) s \<and>
     ce_verify cenv (gate_input_of cenv (task_of cenv s) s) = Pass"

text \<open>
  With the gate switched off the report \<open>done\<close> of an eligible turn is the authority on completion: it retires the plan
  when the plan applies to the task of the turn. The plan stays when it cannot be finished.
\<close>

definition retire_reported_plan :: "completion_env \<Rightarrow> planner_env \<Rightarrow> 'x planner_state \<Rightarrow> 'x planner_state" where
  "retire_reported_plan cenv env s =
     (let cs = pn_session s;
          summary = (case cs_report_reason cs of Some c \<Rightarrow> c | None \<Rightarrow> ''Specialist reported completion'')
      in if pv_enabled env \<and> pv_plan_enabled env \<and> \<not> ce_gate_enabled cenv \<and> cs_eligible cs \<and>
            self_report_of cs = Some Done \<and> plan_active_in s \<and> plan_applies (task_of cenv cs) (ce_live_plan cenv)
         then s\<lparr>pn_plan := ok_or (pn_plan s) (finalize_after_completion (pv_plan env) summary (pn_plan s))\<rparr>
         else s)"

definition end_turn :: "completion_env \<Rightarrow> planner_env \<Rightarrow> 'x planner_state \<Rightarrow> end_of_turn \<times> 'x planner_state" where
  "end_turn cenv env s =
     (let cenv = live_env cenv env s; cs = pn_session s; (r, cs') = completion_check cenv cs;
          summary = (case cs_report_reason cs of Some c \<Rightarrow> c | None \<Rightarrow> ''Completion verified'');
          plan = (if gate_accepts cenv cs \<and> plan_applies (task_of cenv cs) (ce_live_plan cenv)
                  then ok_or (pn_plan s) (finalize_after_completion (pv_plan env) summary (pn_plan s)) else pn_plan s);
          s = s\<lparr>pn_session := cs', pn_plan := plan\<rparr>
      in (r, if r = Ended then retire_reported_plan cenv env s else s))"

section \<open>Where signals come from\<close>

text \<open>
  A response's self report. As in the source, the loop over the reported behaviours stands inside the loop over
  the reported memories.
\<close>

fun use_memories :: "planner_env \<Rightarrow> string list \<Rightarrow> string list \<Rightarrow> 'x planner_state \<Rightarrow> 'x planner_state" where
  "use_memories env [] behaviors s = s"
| "use_memories env (m # ms) behaviors s =
     use_memories env ms behaviors
       (s\<lparr>pn_used_memories := (if m \<in> set (pn_recalled s) then insert m (pn_used_memories s) else pn_used_memories s),
          pn_used_behaviors := pn_used_behaviors s @ filter (pv_behavior_available env) behaviors\<rparr>)"

definition capture_self_report ::
  "planner_env \<Rightarrow> (string \<Rightarrow> wire_self_report option) \<Rightarrow> string \<Rightarrow> 'x planner_state \<Rightarrow> string \<times> 'x planner_state" where
  "capture_self_report env wire_of content s =
     (let parsed = (if pv_enabled env then parse_self_report_handoff wire_of content else None);
          s = (case parsed of Some r \<Rightarrow> use_memories env (pr_used_memories r) (pr_used_behaviors r) s | None \<Rightarrow> s);
          cs = pn_session s;
          reason = Option.bind parsed (\<lambda>r. if ho_focus (pr_handoff r) = [] then None else Some (ho_focus (pr_handoff r)))
      in (if pv_enabled env then strip_self_report content else content,
          s\<lparr>pn_session := cs\<lparr>cs_plan_signal := Option.bind parsed pr_plan,
                 cs_supervision := (cs_supervision cs)\<lparr>su_self_report := map_option pr_state parsed\<rparr>,
                 cs_report_reason := reason\<rparr>,
            pn_handoff := map_option pr_handoff parsed\<rparr>))"

text \<open>A condition of the plan that no longer holds, flagged once per set of broken conditions.\<close>

definition broken_marker :: "planner_env \<Rightarrow> (nat \<times> string \<times> string) list \<Rightarrow> string" where
  "broken_marker env broken =
     ''<!-- octomind:plan_condition_broken:'' @
     show_nat (unat (pv_hash env (join ''|'' (map (\<lambda>(n, title, c). show_nat n @ '':'' @ c) broken)))) @ '' -->''"

definition broken_note :: "planner_env \<Rightarrow> (nat \<times> string \<times> string) list \<Rightarrow> string" where
  "broken_note env broken =
     ''<pay-attention>'' @ newline @ broken_marker env broken @ newline @
     ''A runtime-checked plan assumption is no longer true. The external plan manager will reassess the unfinished '' @
     ''route before work continues. Broken condition(s):'' @ newline @
     concat (map (\<lambda>(n, title, c). ''- task '' @ show_nat n @ '' '' @ [CHR 0x22] @ escape_xml_text title @ [CHR 0x22] @
       '': valid if '' @ escape_xml_text c @ newline) broken) @ ''</pay-attention>''"

definition flag_broken_conditions :: "planner_env \<Rightarrow> 'x planner_state \<Rightarrow> 'x planner_state" where
  "flag_broken_conditions env s =
     (if \<not> pv_enabled env then s
      else let broken = broken_plan_conditions (pe_exists (pv_plan env)) (px_store (pn_plan s))
           in if broken = [] \<or> list_ex (\<lambda>m. str_contains (msg_content m) (broken_marker env broken)) (messages_of s) then s
              else let s = tell env (broken_note env broken) s
                   in s\<lparr>pn_session := (pn_session s)\<lparr>cs_plan_signal := Some Reassess\<rparr>\<rparr>)"

text \<open>The planner's part of a genuine user turn.\<close>

definition admit_planner_turn :: "'x message \<Rightarrow> 'x planner_state \<Rightarrow> 'x planner_state" where
  "admit_planner_turn m s =
     s\<lparr>pn_session := admit_user_turn m (pn_session s), pn_evaluated := False, pn_failed := False, pn_checkpoint := 0\<rparr>"

end
