(* ===== verification/DetectCorrect.thy ===== *)
theory DetectCorrect
  imports Detect
begin

text \<open>
  What the detectors compute over a whole session: every signal is a function of the complete
  history of rounds, although the code keeps only bounded windows of it. The operations are the steps
  of \<open>detector_event\<close>; a session is a list of them.
\<close>

section \<open>Histories\<close>

datatype detector_event =
  CallSeen string string bool bool
| RoundSeen "u64 list" bool
| MutationSeen json
| OutcomesSeen "(u64 \<times> bool) list"
| RoundVerified round_facts
| NewTask

record detect_limits =
  dl_loop :: nat
  dl_no_progress :: nat
  dl_recovery :: nat

fun detect_step :: "detect_env \<Rightarrow> detect_limits \<Rightarrow> detector_event \<Rightarrow> detectors \<Rightarrow> detectors" where
  "detect_step env lim (CallSeen tool result err mut) d = snd (note_call env tool result err mut d)"
| "detect_step env lim (RoundSeen hs novel) d =
     snd (record_round_signals env hs novel (dl_loop lim) (dl_no_progress lim) d)"
| "detect_step env lim (MutationSeen params) d = note_mutated_paths env params d"
| "detect_step env lim (OutcomesSeen outcomes) d = snd (record_round_verifier_outcomes env outcomes (dl_recovery lim) d)"
| "detect_step env lim (RoundVerified r) d = note_round_verification r d"
| "detect_step env lim NewTask d = reset_streak d"

definition detect_run :: "detect_env \<Rightarrow> detect_limits \<Rightarrow> detector_event list \<Rightarrow> detectors" where
  "detect_run env lim es = fold (detect_step env lim) es new_detectors"

lemma detect_run_snoc: "detect_run env lim (es @ [e]) = detect_step env lim e (detect_run env lim es)"
  by (simp add: detect_run_def)

lemma detect_run_Nil: "detect_run env lim [] = new_detectors"
  by (simp add: detect_run_def)

lemmas detect_op_defs = note_call_def record_round_signals_def note_mutated_paths_def
  record_round_verifier_outcomes_def note_round_verification_def reset_streak_def

text \<open>The part of a history since the last new task.\<close>

definition since_task :: "detector_event list \<Rightarrow> detector_event list" where
  "since_task es = rev (takeWhile (\<lambda>e. e \<noteq> NewTask) (rev es))"

lemma since_task_snoc: "since_task (es @ [e]) = (if e = NewTask then [] else since_task es @ [e])"
  by (simp add: since_task_def)

lemma since_task_Nil [simp]: "since_task [] = []"
  by (simp add: since_task_def)

section \<open>The windows\<close>













section \<open>Verification\<close>

definition verified_rounds :: "detector_event list \<Rightarrow> round_facts list" where
  "verified_rounds es = List.map_filter (\<lambda>e. case e of RoundVerified r \<Rightarrow> Some r | _ \<Rightarrow> None) es"

lemma verified_rounds_snoc:
  "verified_rounds (es @ [e]) = verified_rounds es @ (case e of RoundVerified r \<Rightarrow> [r] | _ \<Rightarrow> [])"
  by (auto simp: verified_rounds_def List.map_filter_def split: detector_event.splits)

lemma verified_rounds_Nil [simp]: "verified_rounds [] = []"
  by (simp add: verified_rounds_def List.map_filter_def)

definition changes_tree :: "round_facts \<Rightarrow> bool" where
  "changes_tree r \<longleftrightarrow> \<not> tree_unchanged r \<and> rf_write_capable r"

text \<open>\<open>outstanding P Q\<close>: some element satisfies \<open>P\<close> and none after it satisfies \<open>Q\<close>.\<close>

definition outstanding :: "('a \<Rightarrow> bool) \<Rightarrow> ('a \<Rightarrow> bool) \<Rightarrow> 'a list \<Rightarrow> bool" where
  "outstanding P Q xs \<longleftrightarrow> (\<exists>us x vs. xs = us @ x # vs \<and> P x \<and> (\<forall>v\<in>set vs. \<not> Q v))"

lemma outstanding_Nil [simp]: "\<not> outstanding P Q []"
  by (simp add: outstanding_def)

lemma outstanding_snoc: "outstanding P Q (xs @ [x]) \<longleftrightarrow> P x \<or> \<not> Q x \<and> outstanding P Q xs"
proof
  assume "outstanding P Q (xs @ [x])"
  then obtain us y vs where s: "xs @ [x] = us @ y # vs" and p: "P y" "\<forall>v\<in>set vs. \<not> Q v"
    unfolding outstanding_def by blast
  show "P x \<or> \<not> Q x \<and> outstanding P Q xs"
  proof (cases vs rule: rev_cases)
    case (snoc ws w)
    with s have "xs = us @ y # ws" "w = x" by auto
    with p snoc show ?thesis unfolding outstanding_def by auto
  qed (use s p in simp)
next
  assume "P x \<or> \<not> Q x \<and> outstanding P Q xs"
  then consider "P x" | us y vs where "xs = us @ y # vs" "P y" "\<forall>v\<in>set (vs @ [x]). \<not> Q v"
    unfolding outstanding_def by auto
  then show "outstanding P Q (xs @ [x])"
  proof cases
    case 1
    then show ?thesis unfolding outstanding_def by fastforce
  next
    case 2
    then have "xs @ [x] = us @ y # (vs @ [x])" by simp
    with 2 show ?thesis unfolding outstanding_def by blast
  qed
qed

definition unverified_change :: "round_facts list \<Rightarrow> bool" where
  "unverified_change = outstanding (\<lambda>r. changes_tree r \<and> \<not> round_verifies r) round_verifies"

definition verified_tree :: "round_facts list \<Rightarrow> u64 option" where
  "verified_tree rs =
     (let vs = List.map_filter (\<lambda>r. if round_verifies r then rf_after r else None) rs;
          bs = List.map_filter rf_before rs
      in if vs \<noteq> [] then Some (last vs) else if bs \<noteq> [] then Some (hd bs) else None)"

lemma unverified_change_Nil [simp]: "\<not> unverified_change []"
  by (simp add: unverified_change_def)

lemma unverified_change_snoc:
  "unverified_change (rs @ [r]) \<longleftrightarrow> \<not> round_verifies r \<and> (changes_tree r \<or> unverified_change rs)"
  by (auto simp: unverified_change_def outstanding_snoc)

lemma map_filter_snoc: "List.map_filter f (xs @ [x]) = List.map_filter f xs @ (case f x of Some y \<Rightarrow> [y] | None \<Rightarrow> [])"
  by (auto simp: List.map_filter_def split: option.splits)

lemma dirty_history: "dt_agent_dirty (detect_run env lim es) \<longleftrightarrow> unverified_change (verified_rounds (since_task es))"
proof (induction es rule: rev_induct)
  case Nil
  then show ?case by (simp add: detect_run_Nil new_detectors_def)
next
  case (snoc e es)
  show ?case
  proof (cases e)
    case (RoundVerified r)
    with snoc show ?thesis
      by (simp add: detect_run_snoc since_task_snoc verified_rounds_snoc unverified_change_snoc changes_tree_def
          note_round_verification_def Let_def)
  next
    case NewTask
    then show ?thesis by (simp add: detect_run_snoc since_task_snoc reset_streak_def)
  qed (use snoc in \<open>auto simp: detect_run_snoc since_task_snoc verified_rounds_snoc detect_op_defs Let_def split: if_splits\<close>)
qed

lemma verified_tree_snoc:
  "verified_tree (rs @ [r]) =
     (if round_verifies r \<and> rf_after r \<noteq> None then rf_after r
      else if verified_tree rs = None then rf_before r else verified_tree rs)"
  by (auto simp: verified_tree_def map_filter_snoc Let_def split: option.splits)

lemma verified_fp_history: "dt_verified_fp (detect_run env lim es) = verified_tree (verified_rounds es)"
proof (induction es rule: rev_induct)
  case Nil
  then show ?case by (simp add: detect_run_Nil new_detectors_def verified_tree_def List.map_filter_def)
next
  case (snoc e es)
  show ?case
  proof (cases e)
    case (RoundVerified r)
    with snoc show ?thesis
      by (auto simp: detect_run_snoc verified_rounds_snoc verified_tree_snoc note_round_verification_def Let_def)
  qed (use snoc in \<open>auto simp: detect_run_snoc verified_rounds_snoc detect_op_defs Let_def split: if_splits\<close>)
qed

section \<open>The ledger of failed checks\<close>

definition outcome_batches :: "detector_event list \<Rightarrow> (u64 \<times> bool) list list" where
  "outcome_batches es = List.map_filter (\<lambda>e. case e of OutcomesSeen b \<Rightarrow> Some b | _ \<Rightarrow> None) es"

lemma outcome_batches_snoc: "outcome_batches (es @ [e]) = outcome_batches es @ (case e of OutcomesSeen b \<Rightarrow> [b] | _ \<Rightarrow> [])"
  by (auto simp: outcome_batches_def List.map_filter_def split: detector_event.splits)

lemma outcome_batches_Nil [simp]: "outcome_batches [] = []"
  by (simp add: outcome_batches_def List.map_filter_def)

definition discharges :: "u64 \<Rightarrow> (u64 \<times> bool) list \<Rightarrow> bool" where
  "discharges key batch \<longleftrightarrow> (key, True) \<in> set batch \<and> (key, False) \<notin> set batch"

definition unresolved_check :: "(u64 \<times> bool) list list \<Rightarrow> u64 \<Rightarrow> bool" where
  "unresolved_check bs key = outstanding (\<lambda>b. (key, False) \<in> set b) (discharges key) bs"

definition failing_checks :: "(u64 \<times> bool) list list \<Rightarrow> u64 set" where
  "failing_checks bs = {key. \<exists>b\<in>set bs. (key, False) \<in> set b}"

lemma finite_failing: "finite (failing_checks bs)"
proof -
  have "failing_checks bs \<subseteq> fst ` set (concat bs)" by (force simp: failing_checks_def)
  then show ?thesis by (rule finite_subset) simp
qed

lemma failing_mono: "failing_checks bs \<subseteq> failing_checks (bs @ cs)"
  by (auto simp: failing_checks_def)

lemma unresolved_failing: "{k. unresolved_check bs k} \<subseteq> failing_checks bs"
  by (auto simp: unresolved_check_def outstanding_def failing_checks_def)

lemma unresolved_snoc:
  "unresolved_check (bs @ [b]) k \<longleftrightarrow> (k, False) \<in> set b \<or> unresolved_check bs k \<and> \<not> discharges k b"
  by (auto simp: unresolved_check_def outstanding_snoc discharges_def)

lemma add_failed_all:
  "finite A \<Longrightarrow> card (A \<union> set ks) \<le> FAILED_VERIFIERS_CAP \<Longrightarrow> fold add_failed ks A = A \<union> set ks"
proof (induction ks arbitrary: A)
  case (Cons k ks)
  have "insert k A \<subseteq> A \<union> set (k # ks)" by auto
  then have "card (insert k A) \<le> FAILED_VERIFIERS_CAP"
    using Cons.prems by (meson card_mono finite_UnI finite_set le_trans)
  then have "add_failed k A = insert k A"
    using Cons.prems(1) by (cases "k \<in> A") (auto simp: add_failed_def insert_absorb)
  with Cons show ?case by (simp add: Un_insert_left)
qed simp

lemma add_failed_bound:
  "finite A \<Longrightarrow> card A \<le> FAILED_VERIFIERS_CAP \<Longrightarrow>
   finite (fold add_failed ks A) \<and> card (fold add_failed ks A) \<le> FAILED_VERIFIERS_CAP"
  by (induction ks arbitrary: A) (auto simp: add_failed_def card_insert_if)

lemma ledger_history:
  assumes "\<And>xs. set (dv_iter env xs) = set xs"
    and "card (failing_checks (outcome_batches (since_task es))) \<le> FAILED_VERIFIERS_CAP"
  shows "dt_failed_verifiers (detect_run env lim es) = {k. unresolved_check (outcome_batches (since_task es)) k}"
  using assms(2)
proof (induction es rule: rev_induct)
  case Nil
  then show ?case by (simp add: detect_run_Nil new_detectors_def unresolved_check_def)
next
  case (snoc e es)
  show ?case
  proof (cases e)
    case (OutcomesSeen b)
    let ?bs = "outcome_batches (since_task es)" and ?d = "detect_run env lim es"
    have bs: "outcome_batches (since_task (es @ [e])) = ?bs @ [b]"
      using OutcomesSeen by (simp add: since_task_snoc outcome_batches_snoc)
    have "card (failing_checks ?bs) \<le> card (failing_checks (?bs @ [b]))"
      by (rule card_mono[OF finite_failing failing_mono])
    with snoc bs have ih: "dt_failed_verifiers ?d = {k. unresolved_check ?bs k}" by simp
    let ?f = "map fst (filter (\<lambda>(key, success). \<not> success) b)"
    let ?s = "map fst (filter (\<lambda>(key, success). success) b)"
    let ?kept = "dt_failed_verifiers ?d - (set ?s - set ?f)"
    have kept: "?kept = {k. unresolved_check ?bs k \<and> \<not> discharges k b}"
      unfolding ih by (force simp: discharges_def)
    have f: "set ?f = {k. (k, False) \<in> set b}" by force
    have "set ?f \<subseteq> failing_checks (?bs @ [b])" unfolding f by (auto simp: failing_checks_def)
    moreover have "?kept \<subseteq> failing_checks ?bs" unfolding kept using unresolved_failing[of ?bs] by blast
    ultimately have "?kept \<union> set ?f \<subseteq> failing_checks (?bs @ [b])" using failing_mono[of ?bs "[b]"] by blast
    then have fin: "finite (?kept \<union> set ?f)" and "card (?kept \<union> set ?f) \<le> card (failing_checks (?bs @ [b]))"
      by (rule finite_subset[OF _ finite_failing], rule card_mono[OF finite_failing])
    with snoc.prems have "card (?kept \<union> set ?f) \<le> FAILED_VERIFIERS_CAP" unfolding bs by simp
    with fin have "fold add_failed (dv_iter env (remdups ?f)) ?kept = ?kept \<union> set ?f"
      using add_failed_all[of ?kept "dv_iter env (remdups ?f)"] assms(1) by simp
    moreover have "?kept \<union> set ?f = {k. unresolved_check (?bs @ [b]) k}"
      unfolding kept unfolding f by (auto simp: unresolved_snoc)
    moreover have "{k. unresolved_check (?bs @ [[]]) k} = {k. unresolved_check ?bs k}"
      by (simp add: unresolved_snoc discharges_def)
    ultimately show ?thesis
      using OutcomesSeen bs ih
      by (auto simp: detect_run_snoc record_round_verifier_outcomes_def Let_def)
  next
    case NewTask
    then show ?thesis
      by (simp add: detect_run_snoc since_task_snoc reset_streak_def unresolved_check_def)
  qed (use snoc in \<open>auto simp: detect_run_snoc since_task_snoc outcome_batches_snoc detect_op_defs Let_def split: if_splits\<close>)
qed

section \<open>The invariant\<close>

definition detectors_ok :: "detect_limits \<Rightarrow> detectors \<Rightarrow> bool" where
  "detectors_ok lim d \<longleftrightarrow>
     dt_seen d = set (dt_seen_order d) \<and> distinct (dt_seen_order d) \<and> length (dt_seen_order d) \<le> SEEN_CAP \<and>
     distinct (dt_mutated_paths d) \<and> [] \<notin> set (dt_mutated_paths d) \<and> length (dt_mutated_paths d) \<le> MUTATED_PATHS_CAP \<and>
     finite (dt_failed_verifiers d) \<and> card (dt_failed_verifiers d) \<le> FAILED_VERIFIERS_CAP \<and>
     (dt_failed_verifiers d = {} \<longrightarrow> dt_failed_verifier_rounds d = 0) \<and>
     (0 < dl_recovery lim \<longrightarrow> dt_failed_verifier_rounds d < dl_recovery lim)"

lemma note_paths_ok:
  assumes "distinct ps" "[] \<notin> set ps" "length ps \<le> MUTATED_PATHS_CAP"
  shows "distinct (note_paths ns ps) \<and> [] \<notin> set (note_paths ns ps) \<and> length (note_paths ns ps) \<le> MUTATED_PATHS_CAP"
  using assms
proof (induction ns ps rule: note_paths.induct)
  case (2 n ns paths)
  have "distinct (tl paths)" "[] \<notin> set (tl paths)" "n \<notin> set paths \<Longrightarrow> n \<notin> set (tl paths)"
    using 2(3,4) by (cases paths; auto)+
  then show ?case using 2 by (auto simp: MUTATED_PATHS_CAP_def)
qed simp

lemma detect_step_ok: "detectors_ok lim d \<Longrightarrow> detectors_ok lim (detect_step env lim e d)"
proof (cases e)
  case (CallSeen tool result err mut)
  assume ok: "detectors_ok lim d"
  let ?h = "dv_hash2 env tool result"
  have "set (tl (dt_seen_order d @ [?h])) = set (dt_seen_order d @ [?h]) - {hd (dt_seen_order d @ [?h])}"
    if "?h \<notin> dt_seen d"
    using that ok by (cases "dt_seen_order d") (auto simp: detectors_ok_def)
  with CallSeen ok show ?thesis
    by (auto simp: note_call_def detectors_ok_def Let_def distinct_tl)
next
  case (MutationSeen params)
  assume "detectors_ok lim d"
  with MutationSeen show ?thesis
    using note_paths_ok by (auto simp: note_mutated_paths_def detectors_ok_def)
next
  case (OutcomesSeen b)
  assume ok: "detectors_ok lim d"
  let ?f = "map fst (filter (\<lambda>(key, success). \<not> success) b)"
  let ?s = "map fst (filter (\<lambda>(key, success). success) b)"
  let ?kept = "dt_failed_verifiers d - (set ?s - set ?f)"
  have "finite ?kept" "card ?kept \<le> FAILED_VERIFIERS_CAP"
    using ok card_mono[of "dt_failed_verifiers d" ?kept] by (auto simp: detectors_ok_def)
  from add_failed_bound[OF this] OutcomesSeen ok show ?thesis
    by (auto simp: record_round_verifier_outcomes_def detectors_ok_def Let_def)
qed (auto simp: detectors_ok_def record_round_signals_def note_round_verification_def reset_streak_def
    MUTATED_PATHS_CAP_def Let_def)

lemma new_detectors_ok: "detectors_ok lim new_detectors"
  by (simp add: new_detectors_def detectors_ok_def)

lemma detect_run_ok: "detectors_ok lim (detect_run env lim es)"
  by (induction es rule: rev_induct) (simp_all add: detect_run_snoc detect_step_ok detect_run_Nil new_detectors_ok)

section \<open>Reading and hiding the status line\<close>

lemma strip_front_removed: "\<exists>r. s = concat r @ strip_front ws s \<and> set r \<subseteq> set ws - {[]}"
proof (induction ws s rule: strip_front.induct)
  case (1 ws s)
  show ?case
  proof (cases "find (\<lambda>w. w \<noteq> [] \<and> prefix w s) ws")
    case None
    then show ?thesis by (intro exI[of _ "[]"]) (simp add: strip_front.simps [of ws s])
  next
    case (Some w)
    then have w: "w \<in> set ws" "w \<noteq> []" "prefix w s" by (auto simp: find_Some_iff)
    from 1[OF Some] obtain r where r: "drop (length w) s = concat r @ strip_front ws (drop (length w) s)"
      "set r \<subseteq> set ws - {[]}" by blast
    have "s = w @ drop (length w) s" using w(3) by (metis append_eq_conv_conj prefixE)
    with r have "s = concat (w # r) @ strip_front ws s"
      using Some by (simp add: strip_front.simps [of ws s])
    with r w show ?thesis by (intro exI[of _ "w # r"]) auto
  qed
qed

lemma trim_end_removed: "\<exists>r. s = trim_end s @ concat r \<and> set r \<subseteq> set white_space - {[]}"
proof -
  obtain r where r: "rev s = concat r @ strip_front (map rev white_space) (rev s)"
    "set r \<subseteq> set (map rev white_space) - {[]}" using strip_front_removed by blast
  then have "s = trim_end s @ concat (rev (map rev r))"
    by (metis trim_end_def rev_append rev_concat rev_map rev_rev_ident)
  moreover have "set (rev (map rev r)) \<subseteq> set white_space - {[]}" using r(2) by auto
  ultimately show ?thesis by blast
qed

lemma white_space_not_token: "w \<in> set white_space \<Longrightarrow> w \<noteq> [] \<Longrightarrow> \<not> is_token_char (hd w) \<and> hd w \<noteq> CHR 0x7B"
  unfolding white_space_literals by (auto simp: is_token_char_def Let_def)

lemma takeWhile_trim_end:
  assumes "\<And>w. w \<in> set white_space \<Longrightarrow> w \<noteq> [] \<Longrightarrow> \<not> p (hd w)"
  shows "takeWhile p (trim_end s) = takeWhile p s"
proof -
  obtain r where r: "s = trim_end s @ concat r" "set r \<subseteq> set white_space - {[]}"
    using trim_end_removed by blast
  have "takeWhile p (concat r) = []"
  proof (cases r)
    case (Cons w ws)
    with r(2) have "w \<in> set white_space" "w \<noteq> []" by auto
    with assms[OF this] Cons show ?thesis by (cases w) auto
  qed simp
  then have "takeWhile p (x @ concat r) = takeWhile p x" for x
    by (induction x) auto
  with r(1) show ?thesis by metis
qed

lemma leading_state_token_trim: "leading_state_token (trim s) = leading_state_token s"
  unfolding leading_state_token_def trim_start_trimmed unfolding trim_def
  using white_space_not_token by (intro takeWhile_trim_end) blast

lemma opens_brace_trim: "starts_with (trim_start s) ''{'' \<longleftrightarrow> starts_with (trim s) ''{''"
proof -
  have "takeWhile (\<lambda>c. c = CHR 0x7B) (trim s) = takeWhile (\<lambda>c. c = CHR 0x7B) (trim_start s)"
    unfolding trim_def using white_space_not_token by (intro takeWhile_trim_end) blast
  moreover have "starts_with x ''{'' \<longleftrightarrow> takeWhile (\<lambda>c. c = CHR 0x7B) x \<noteq> []" for x :: string
    by (cases x) (auto simp: starts_with_def)
  ultimately show ?thesis by simp
qed

lemma legacy_report_token:
  "parse_legacy_self_report_inner s \<noteq> None \<Longrightarrow>
   from_token (leading_state_token s) \<noteq> None \<or> to_lower (leading_state_token s) = ''state''"
  by (auto simp: parse_legacy_self_report_inner_def Let_def split: option.splits if_splits)

lemma SUP_simps: "SUP_OPEN = CHR ''<'' # ''sup>''" "SUP_CLOSE = CHR ''<'' # ''/sup>''"
  by (simp_all add: SUP_OPEN_def SUP_CLOSE_def)

lemma not_sublist_without: "c \<in> set needle \<Longrightarrow> c \<notin> set s \<Longrightarrow> \<not> sublist needle s"
  by (auto dest: set_mono_sublist)

lemma rfind_close: "rfind_str SUP_CLOSE (s @ SUP_CLOSE) = Some (length s)"
  by (cases "rev s") (simp_all add: rfind_str_def SUP_CLOSE_def)

lemma rfind_open:
  assumes "CHR ''<'' \<notin> set body"
  shows "rfind_str SUP_OPEN (a @ SUP_OPEN @ body) = Some (length a)"
proof -
  have "find_str (CHR ''>'' # ''pus<'') (rev body @ (CHR ''>'' # ''pus<'') @ rev a) = Some (length (rev body))"
    using assms not_sublist_without[of "CHR ''<''" "''>pus<''" "rev body"] by (intro find_str_after) auto
  then show ?thesis by (simp add: rfind_str_def SUP_OPEN_def)
qed

lemma report_line_read:
  assumes "CHR ''<'' \<notin> set body"
  shows "parse_self_report_handoff wire_of (a @ SUP_OPEN @ body @ SUP_CLOSE) =
     (if starts_with (trim body) ''{'' then Option.bind (wire_of (trim body)) narrow_wire
      else map_option narrow_legacy (parse_legacy_self_report_inner (trim body)))"
  using rfind_close[of "a @ SUP_OPEN @ body"] rfind_open[OF assms, of a]
  by (simp add: parse_self_report_handoff_def Let_def)

lemma report_line_hidden:
  assumes "CHR ''<'' \<notin> set body" "\<not> sublist SUP_OPEN a" "is_self_report_body body"
  shows "strip_self_report (a @ SUP_OPEN @ body @ SUP_CLOSE) = trim_end a"
proof -
  have o: "find_str SUP_OPEN (a @ SUP_OPEN @ body @ SUP_CLOSE) = Some (length a)"
    using assms(2) unfolding SUP_simps by (intro find_str_after) auto
  have "\<not> sublist SUP_CLOSE (SUP_OPEN @ body)"
    using assms(1) not_sublist_without[of "CHR ''<''" "''</sup>''" body] unfolding SUP_simps
    by (auto simp: sublist_Cons_right)
  then have c: "find_str SUP_CLOSE (SUP_OPEN @ body @ SUP_CLOSE) = Some (length (SUP_OPEN @ body))"
    using find_str_after[of "CHR ''<''" "''/sup>''" "SUP_OPEN @ body" "[]"] unfolding SUP_simps by simp
  have "strip_loop [] = []" by (subst strip_loop.simps) (simp add: SUP_OPEN_def)
  then have "strip_loop (a @ SUP_OPEN @ body @ SUP_CLOSE) = a"
    by (subst strip_loop.simps) (simp add: o c assms(3) Let_def)
  then show ?thesis by (simp add: strip_self_report_def)
qed

lemma read_report_is_body:
  assumes "starts_with (trim body) ''{'' \<Longrightarrow> str_contains body ([CHR 0x22] @ ''state'' @ [CHR 0x22])"
    and "starts_with (trim body) ''{'' \<or> parse_legacy_self_report_inner (trim body) \<noteq> None"
  shows "is_self_report_body body"
  using assms legacy_report_token[of "trim body"]
  by (auto simp: is_self_report_body_def opens_brace_trim leading_state_token_trim Let_def)

section \<open>The properties\<close>


text \<open>
  C8. Verification debt is exact: the gate asks for a check precisely when, in the current task, a round that
  could write moved the tree and no later round verified it, unless the tree is back at the state of the last
  verification (or of the first observation, when none verified).
\<close>

theorem verification_debt_exact:
  "needs_verification fp_now (detect_run env lim es) =
     (unverified_change (verified_rounds (since_task es)) \<and>
      (case (fp_now, verified_tree (verified_rounds es)) of (Some now, Some verified) \<Rightarrow> now \<noteq> verified | _ \<Rightarrow> True))"
  by (simp add: needs_verification_def dirty_history verified_fp_history)

text \<open>
  A failed check stays on the ledger until the same check succeeds unambiguously: as long as the task had at
  most 64 different failing checks, the ledger holds exactly those that failed in some round with no later round
  in which they succeeded and did not also fail.
\<close>

theorem failed_checks_exact:
  assumes "\<And>xs. set (dv_iter env xs) = set xs"
    and "card (failing_checks (outcome_batches (since_task es))) \<le> FAILED_VERIFIERS_CAP"
  shows "dt_failed_verifiers (detect_run env lim es) = {k. unresolved_check (outcome_batches (since_task es)) k}"
  using assms by (rule ledger_history)

definition quiet_env :: detect_env where
  "quiet_env = \<lparr>dv_hints = \<lambda>_. None, dv_server = \<lambda>_. None, dv_canonical = \<lambda>_. None,
     dv_hash2 = \<lambda>a b. of_nat (length a + length b), dv_hash_list = (\<lambda>hs. fold (+) hs 0), dv_iter = rev\<rparr>"

theorem failed_checks_exact_witness:
  "dt_failed_verifiers (detect_run quiet_env \<lparr>dl_loop = 3, dl_no_progress = 5, dl_recovery = 5\<rparr>
     [OutcomesSeen [(7, False), (8, False)], OutcomesSeen [(7, True), (8, True), (8, False)]]) = {8}"
proof -
  let ?es = "[OutcomesSeen [(7, False), (8, False)], OutcomesSeen [(7, True), (8, True), (8, False)]]"
  have es: "outcome_batches (since_task ?es) = [] @ [[(7, False), (8, False)]] @ [[(7, True), (8, True), (8, False)]]"
    by (simp add: since_task_def outcome_batches_def List.map_filter_def)
  have "failing_checks (outcome_batches (since_task ?es)) = {7, 8}"
    unfolding es by (auto simp: failing_checks_def)
  then have "dt_failed_verifiers (detect_run quiet_env \<lparr>dl_loop = 3, dl_no_progress = 5, dl_recovery = 5\<rparr> ?es) = {k. unresolved_check (outcome_batches (since_task ?es)) k}"
    by (intro failed_checks_exact) (simp_all add: quiet_env_def FAILED_VERIFIERS_CAP_def)
  also have "\<dots> = {8}"
    unfolding es append_assoc[symmetric] unresolved_snoc by (auto simp: unresolved_check_def discharges_def)
  finally show ?thesis .
qed

text \<open>
  The detectors keep their memory bounded and consistent in every session: the set of seen results and its
  order agree, hold no duplicate and at most 128 entries; the changed paths are distinct, not empty and at most
  32; the ledger has at most 64 checks; an empty ledger has a zero count, and a count below the threshold
  always (reaching it raises the signal and restarts the count).
\<close>

theorem detectors_bounded: "detectors_ok lim (detect_run env lim es)"
  by (rule detect_run_ok)

text \<open>
  A status line that was read is hidden: when the last line of an answer is a tag the program accepts as a
  report, as JSON or in the short form, the text shown to the user is the answer without it, for every answer
  that does not itself contain an opening tag.
\<close>

theorem read_report_is_hidden:
  assumes "CHR ''<'' \<notin> set body" and "\<not> sublist SUP_OPEN a"
    and "starts_with (trim body) ''{'' \<Longrightarrow> str_contains body ([CHR 0x22] @ ''state'' @ [CHR 0x22])"
    and "parse_self_report_handoff wire_of (a @ SUP_OPEN @ body @ SUP_CLOSE) \<noteq> None"
  shows "strip_self_report (a @ SUP_OPEN @ body @ SUP_CLOSE) = trim_end a"
proof (rule report_line_hidden[OF assms(1,2)])
  show "is_self_report_body body"
    using assms(3,4) unfolding report_line_read[OF assms(1)]
    by (intro read_report_is_body) (auto split: if_splits)
qed

theorem read_report_is_hidden_witness:
  "strip_self_report (''All tests pass. '' @ SUP_OPEN @ ''done | tests pass'' @ SUP_CLOSE) = ''All tests pass.''"
proof -
  have "strip_self_report (''All tests pass. '' @ SUP_OPEN @ ''done | tests pass'' @ SUP_CLOSE) =
      trim_end ''All tests pass. ''"
  proof (rule read_report_is_hidden[where wire_of = "\<lambda>_. None"])
    show "\<not> sublist SUP_OPEN ''All tests pass. ''"
      unfolding find_str_None[symmetric] by code_simp
    show "parse_self_report_handoff (\<lambda>_. None) (''All tests pass. '' @ SUP_OPEN @ ''done | tests pass'' @ SUP_CLOSE) \<noteq> None"
      by code_simp
    show "CHR ''<'' \<notin> set ''done | tests pass''" by simp
    assume "starts_with (trim ''done | tests pass'') ''{''"
    moreover have "\<not> starts_with (trim ''done | tests pass'') ''{''" by code_simp
    ultimately show "str_contains ''done | tests pass'' ([CHR 0x22] @ ''state'' @ [CHR 0x22])" by blast
  qed
  also have "trim_end ''All tests pass. '' = ''All tests pass.''" by code_simp
  finally show ?thesis .
qed

text \<open>
  Without the condition on the answer this fails: an answer that mentions an opening tag keeps its report visible,
  although the report is read.
\<close>

lemma quoted_tag_shows_report:
  "parse_self_report_handoff (\<lambda>_. None) (''Use <sup> here. '' @ SUP_OPEN @ ''done'' @ SUP_CLOSE) \<noteq> None \<and>
   strip_self_report (''Use <sup> here. '' @ SUP_OPEN @ ''done'' @ SUP_CLOSE) =
     ''Use <sup> here. '' @ SUP_OPEN @ ''done'' @ SUP_CLOSE"
  by code_simp

end
