(* ===== verification/GateCorrect.thy ===== *)
theory GateCorrect
  imports Gate
begin

text \<open>
  What the gate guarantees: the verdict against the checklists it is derived from, and the verification as a
  whole, with its readback round, its retry and the refutation.
\<close>

section \<open>Checklists\<close>

lemma map_filter_simps [simp]:
  "List.map_filter f [] = []"
  "List.map_filter f (x # xs) = (case f x of Some y \<Rightarrow> y # List.map_filter f xs | None \<Rightarrow> List.map_filter f xs)"
  by (simp_all add: List.map_filter_def split: option.splits)

definition shape_charge :: "reported_shape \<Rightarrow> string option" where
  "shape_charge s =
     (if rs_found s = ''yes''
      then map_option (\<lambda>f. ''Evidence shape '' @ [CHR 0x27] @ rs_name s @ [CHR 0x27] @ '' present: '' @ f)
             (charged (rs_settles s) (rs_reason s))
      else None)"

definition condition_charge :: "reported_condition \<Rightarrow> string option" where
  "condition_charge c =
     (if rc_status c = ''unmatched'' \<and> rc_basis c \<noteq> BASIS_INFERENCE
      then map_option (\<lambda>n. ''Unmatched condition '' @ show_nat n @ '': '' @ rc_observation c) (rc_index c)
      else None)"

definition opt_list :: "'a option \<Rightarrow> 'a list" where
  "opt_list x = (case x of Some y \<Rightarrow> [y] | None \<Rightarrow> [])"

lemma map_filter_Cons_opt: "List.map_filter f (x # xs) = opt_list (f x) @ List.map_filter f xs"
  by (auto simp: opt_list_def split: option.splits)

definition shape_valid :: "reported_shape \<Rightarrow> bool" where
  "shape_valid s \<longleftrightarrow> rs_name s \<noteq> [] \<and> rs_found s \<in> {''yes'', ''no'', ''unknown''}"

lemma judge_shapes_step:
  "judge_shapes (s # ss) seen um = Inr res \<longleftrightarrow>
     shape_valid s \<and> rs_name s \<notin> set seen \<and>
     judge_shapes ss (rs_name s # seen) (um @ opt_list (shape_charge s)) = Inr res"
proof (cases "rs_name s = [] \<or> rs_name s \<in> set seen")
  case True
  then show ?thesis by (auto simp: shape_valid_def)
next
  case fresh: False
  show ?thesis
  proof (cases "rs_found s = ''yes''")
    case True
    with fresh show ?thesis
      by (cases "charged (rs_settles s) (rs_reason s)") (simp_all add: shape_valid_def shape_charge_def opt_list_def)
  next
    case False
    then have "shape_charge s = None" by (simp add: shape_charge_def)
    with fresh False show ?thesis by (simp add: shape_valid_def opt_list_def)
  qed
qed

lemma fresh_Cons:
  "(\<forall>x\<in>set xs. P x \<and> f x \<notin> set (f y # seen)) \<and> distinct (map f xs) \<and> f y \<notin> set seen \<longleftrightarrow>
   (\<forall>x\<in>set (y # xs). f x \<notin> set seen) \<and> (\<forall>x\<in>set xs. P x) \<and> distinct (map f (y # xs))"
proof -
  have "f y \<notin> f ` set xs \<longleftrightarrow> (\<forall>x\<in>set xs. f x \<noteq> f y)" by (metis imageE imageI)
  then show ?thesis by (simp del: image_iff) blast
qed

lemma judge_shapes_iff:
  "judge_shapes ss seen um = Inr (um', seen') \<longleftrightarrow>
     (\<forall>s\<in>set ss. shape_valid s \<and> rs_name s \<notin> set seen) \<and> distinct (map rs_name ss) \<and>
     um' = um @ List.map_filter shape_charge ss \<and> seen' = rev (map rs_name ss) @ seen"
proof (induction ss arbitrary: seen um)
  case (Cons s ss)
  show ?case
    unfolding judge_shapes_step Cons.IH map_filter_Cons_opt
    using fresh_Cons[of ss shape_valid rs_name s seen] by auto
qed auto

definition condition_valid :: "reported_condition \<Rightarrow> bool" where
  "condition_valid c \<longleftrightarrow> rc_index c \<noteq> None \<and>
     (rc_status c \<in> {''matched'', ''unknown''} \<or> rc_status c = ''unmatched'' \<and> rc_basis c \<in> set CONDITION_BASES)"

lemma judge_conditions_step:
  "judge_conditions (c # cs) seen um = Inr res \<longleftrightarrow>
     condition_valid c \<and> the (rc_index c) \<notin> set seen \<and>
     judge_conditions cs (the (rc_index c) # seen) (um @ opt_list (condition_charge c)) = Inr res"
proof (cases "rc_index c")
  case (Some n)
  have "BASIS_INFERENCE \<in> set CONDITION_BASES" "[] \<notin> set CONDITION_BASES"
    by (simp_all add: CONDITION_BASES_def BASIS_INFERENCE_def)
  with Some show ?thesis
    by (auto simp: condition_valid_def condition_charge_def opt_list_def)
qed (simp add: condition_valid_def)

lemma judge_conditions_iff:
  "judge_conditions cs seen um = Inr (um', seen') \<longleftrightarrow>
     (\<forall>c\<in>set cs. condition_valid c \<and> the (rc_index c) \<notin> set seen) \<and> distinct (map (\<lambda>c. the (rc_index c)) cs) \<and>
     um' = um @ List.map_filter condition_charge cs \<and> seen' = rev (map (\<lambda>c. the (rc_index c)) cs) @ seen"
proof (induction cs arbitrary: seen um)
  case (Cons c cs)
  show ?case
    unfolding judge_conditions_step Cons.IH map_filter_Cons_opt
    using fresh_Cons[of cs condition_valid "\<lambda>c. the (rc_index c)" c seen] by auto
qed auto

text \<open>A checklist of pairwise different items, as many as required, that has every required one has only those.\<close>

lemma full_checklist:
  assumes "distinct xs" "length xs = length ys" "distinct ys"
  shows "set ys \<subseteq> set xs \<longleftrightarrow> set xs = set ys"
  using assms by (metis card_subset_eq distinct_card finite_set order_refl)

definition report_complete :: "nat \<Rightarrow> verifier_report \<Rightarrow> bool" where
  "report_complete n r \<longleftrightarrow>
     (\<forall>s\<in>set (vr_shapes r). shape_valid s) \<and> distinct (map rs_name (vr_shapes r)) \<and>
     set (map rs_name (vr_shapes r)) = set REQUIRED_SHAPES \<and>
     (\<forall>c\<in>set (vr_conditions r). condition_valid c) \<and> distinct (map (\<lambda>c. the (rc_index c)) (vr_conditions r)) \<and>
     set (map (\<lambda>c. the (rc_index c)) (vr_conditions r)) = {1..n}"

lemma judged_shapes:
  "judge_shapes ss [] [] = Inr (um, seen) \<and> list_all (\<lambda>s. s \<in> set seen) REQUIRED_SHAPES \<and>
     length seen = length REQUIRED_SHAPES \<longleftrightarrow>
   (\<forall>s\<in>set ss. shape_valid s) \<and> distinct (map rs_name ss) \<and> set (map rs_name ss) = set REQUIRED_SHAPES \<and>
     um = List.map_filter shape_charge ss \<and> seen = rev (map rs_name ss)"
proof -
  have d: "distinct REQUIRED_SHAPES" by (simp add: REQUIRED_SHAPES_def)
  have "list_all (\<lambda>s. s \<in> set (rev xs)) REQUIRED_SHAPES \<and> length (rev xs) = length REQUIRED_SHAPES \<longleftrightarrow>
      set xs = set REQUIRED_SHAPES" if "distinct xs" for xs
    using full_checklist[OF that _ d] distinct_card[OF that] distinct_card[OF d]
    by (auto simp: list_all_iff simp flip: subset_iff)
  from this[of "map rs_name ss"] show ?thesis
    unfolding judge_shapes_iff append_Nil append_Nil2 by (auto simp del: set_map set_rev length_rev)
qed

lemma judged_conditions:
  "judge_conditions cs [] um = Inr (um', seen) \<and> length seen = n \<and> list_all (\<lambda>i. i \<in> set seen) [1..<n + 1] \<longleftrightarrow>
   (\<forall>c\<in>set cs. condition_valid c) \<and> distinct (map (\<lambda>c. the (rc_index c)) cs) \<and>
     set (map (\<lambda>c. the (rc_index c)) cs) = {1..n} \<and>
     um' = um @ List.map_filter condition_charge cs \<and> seen = rev (map (\<lambda>c. the (rc_index c)) cs)"
proof -
  have r: "set [1..<n + 1] = {1..n}" "distinct [1..<n + 1]" "length [1..<n + 1] = n" by auto
  have "list_all (\<lambda>i. i \<in> set (rev xs)) [1..<n + 1] \<and> length (rev xs) = n \<longleftrightarrow> set xs = {1..n}" if "distinct xs" for xs
    using full_checklist[OF that _ r(2)] distinct_card[OF that] distinct_card[OF r(2)] unfolding r list_all_iff
    by (auto simp flip: subset_iff)
  from this[of "map (\<lambda>c. the (rc_index c)) cs"] show ?thesis
    unfolding judge_conditions_iff append_Nil append_Nil2 by (auto simp del: set_map set_rev length_rev upt_Suc)
qed

definition itemized_charges :: "verifier_report \<Rightarrow> string list" where
  "itemized_charges r = List.map_filter shape_charge (vr_shapes r) @ List.map_filter condition_charge (vr_conditions r)"

definition charges :: "verifier_report \<Rightarrow> string list" where
  "charges r = (if itemized_charges r \<noteq> [] then itemized_charges r else charged_gaps r)"

lemma verdict_checked_iff:
  "verdict_checked n r = Inr v \<longleftrightarrow>
     report_complete n r \<and> (if charges r \<noteq> [] then v = Gaps (charges r) else vr_pass r \<and> v = Pass)"
proof
  assume "verdict_checked n r = Inr v"
  then obtain um seen um' seen' where
    a: "judge_shapes (vr_shapes r) [] [] = Inr (um, seen)" "list_all (\<lambda>s. s \<in> set seen) REQUIRED_SHAPES"
      "length seen = length REQUIRED_SHAPES"
    and b: "judge_conditions (vr_conditions r) [] um = Inr (um', seen')" "length seen' = n"
      "list_all (\<lambda>i. i \<in> set seen') [1..<n + 1]"
    and v: "(if um' \<noteq> [] then Inr (Gaps um') else if charged_gaps r \<noteq> [] then Inr (Gaps (charged_gaps r))
       else if vr_pass r then Inr Pass else Inl ''missing verdict markers'') = Inr v"
    unfolding verdict_checked_def by (auto simp: ok_simps simp del: upt_Suc split: prod.splits)
  from judged_shapes[of "vr_shapes r" um seen] a
  have s: "um = List.map_filter shape_charge (vr_shapes r)" "\<forall>s\<in>set (vr_shapes r). shape_valid s"
    "distinct (map rs_name (vr_shapes r))" "set (map rs_name (vr_shapes r)) = set REQUIRED_SHAPES" by blast+
  from judged_conditions[of "vr_conditions r" um um' seen' n] b
  have c: "um' = um @ List.map_filter condition_charge (vr_conditions r)" "\<forall>c\<in>set (vr_conditions r). condition_valid c"
    "distinct (map (\<lambda>c. the (rc_index c)) (vr_conditions r))"
    "set (map (\<lambda>c. the (rc_index c)) (vr_conditions r)) = {1..n}" by blast+
  have "um' = itemized_charges r" unfolding itemized_charges_def s(1)[symmetric] c(1) ..
  with v s c show "report_complete n r \<and> (if charges r \<noteq> [] then v = Gaps (charges r) else vr_pass r \<and> v = Pass)"
    unfolding report_complete_def charges_def by (auto split: if_splits)
next
  assume r: "report_complete n r \<and> (if charges r \<noteq> [] then v = Gaps (charges r) else vr_pass r \<and> v = Pass)"
  let ?um = "List.map_filter shape_charge (vr_shapes r)" and ?seen = "rev (map rs_name (vr_shapes r))"
  let ?seen' = "rev (map (\<lambda>c. the (rc_index c)) (vr_conditions r))"
  from r have a: "judge_shapes (vr_shapes r) [] [] = Inr (?um, ?seen)" "list_all (\<lambda>s. s \<in> set ?seen) REQUIRED_SHAPES"
      "length ?seen = length REQUIRED_SHAPES"
    using judged_shapes[of "vr_shapes r" ?um ?seen] unfolding report_complete_def by blast+
  from r have b: "judge_conditions (vr_conditions r) [] ?um = Inr (itemized_charges r, ?seen')" "length ?seen' = n"
      "list_all (\<lambda>i. i \<in> set ?seen') [1..<n + 1]"
    using judged_conditions[of "vr_conditions r" ?um "itemized_charges r" ?seen' n]
    unfolding report_complete_def itemized_charges_def by blast+
  show "verdict_checked n r = Inr v"
    unfolding verdict_checked_def a(1) rbind_simps prod.case using a b r
    by (auto simp: ensure_def charges_def simp del: upt_Suc split: if_splits)
qed

lemma verdict_pass: "verdict_of n r = Pass \<longleftrightarrow> report_complete n r \<and> charges r = [] \<and> vr_pass r"
  using verdict_checked_iff[of n r Pass] by (auto simp: verdict_of_def split: sum.splits if_splits)

lemma verdict_gaps: "verdict_of n r = Gaps gs \<longleftrightarrow> report_complete n r \<and> charges r \<noteq> [] \<and> gs = charges r"
  using verdict_checked_iff[of n r "Gaps gs"] by (auto simp: verdict_of_def split: sum.splits if_splits)

section \<open>The verification as a whole\<close>

lemma filter_enumerate_empty:
  "filter (\<lambda>(i, g). P i) (enumerate k xs) = [] \<longleftrightarrow> (\<forall>i<length xs. \<not> P (k + i))"
proof (induction xs arbitrary: k)
  case (Cons x xs)
  have "(\<forall>i<length (x # xs). \<not> P (k + i)) \<longleftrightarrow> \<not> P k \<and> (\<forall>i<length xs. \<not> P (Suc k + i))"
    using less_Suc_eq_0_disj by auto
  with Cons.IH[of "Suc k"] show ?case by auto
qed simp

lemma split_refuted_standing:
  "fst (split_refuted gaps refuted) = [] \<longleftrightarrow> (\<forall>i<length gaps. i + 1 \<in> set refuted)"
  using filter_enumerate_empty[of "\<lambda>i. i + 1 \<notin> set refuted" 0 gaps] by (simp add: split_refuted_def)

lemma map_snd_filter_enumerate: "subseq (map snd (filter P (enumerate k xs))) xs"
proof (induction xs arbitrary: k)
  case (Cons x xs)
  from Cons.IH[of "Suc k"] show ?case by auto
qed simp

lemma split_refuted_subseq: "subseq (fst (split_refuted gaps refuted)) gaps"
  by (simp add: split_refuted_def map_snd_filter_enumerate)

text \<open>
  What the verifier is shown in the end: the input of the gate, with the outputs it asked to read back, if it asked for any.
\<close>

definition evidence_prompt :: "(json \<Rightarrow> string) \<Rightarrow> (string \<Rightarrow> string + answer) \<Rightarrow> gate_input \<Rightarrow> string" where
  "evidence_prompt text_of ask input =
     (let user = render_gate_input text_of input
      in case ask user of
           Inl _ \<Rightarrow> user
         | Inr a \<Rightarrow> if readback_request (decode_report a) = [] then user
                    else user @ render_readback (gi_grounds input) (readback_request (decode_report a)))"

text \<open>
  Every verdict but an indeterminate one is the verdict of the report that the verifier gave on this prompt, or on the prompt
  with the complaint about its format, refuted or not on the same prompt.
\<close>

lemma format_retry_report:
  assumes "ask user = Inr a" and "format_retry ask n user (decode_report a) = (v, r)"
  shows "\<exists>u a. u \<in> {user, user @ FORMAT_VIOLATION} \<and> ask u = Inr a \<and> r = decode_report a \<and>
    (v = verdict_of n r \<or> (\<exists>reason. v = Indeterminate reason))"
  using assms by (auto simp: format_retry_def split: gate_verdict.splits sum.splits)

lemma readback_report:
  assumes "ask (render_gate_input text_of input) = Inr a"
    and "readback_round ask (gi_grounds input) (render_gate_input text_of input) (decode_report a) = Inr (user, r)"
  shows "user = evidence_prompt text_of ask input \<and> (\<exists>a. ask user = Inr a \<and> r = decode_report a)"
  using assms by (auto simp: readback_round_def evidence_prompt_def Let_def ok_simps split: if_splits)

lemma verify_from_report:
  assumes "fst (verify text_of ask refuter input) = v" and "\<not> (\<exists>reason. v = Indeterminate reason)"
  obtains u a v0 where "u \<in> {evidence_prompt text_of ask input, evidence_prompt text_of ask input @ FORMAT_VIOLATION}"
    and "ask u = Inr a"
    and "verdict_of (length (gi_evidence_conditions input)) (decode_report a) = v0"
    and "v = fst (refutation refuter (evidence_prompt text_of ask input) v0 (reported_findings (decode_report a)))"
proof -
  let ?n = "length (gi_evidence_conditions input)" and ?user = "render_gate_input text_of input"
  from assms obtain a1 where a1: "ask ?user = Inr a1"
    by (auto simp: verify_def Let_def split: if_splits sum.splits)
  with assms obtain user r where rb: "readback_round ask (gi_grounds input) ?user (decode_report a1) = Inr (user, r)"
    by (auto simp: verify_def Let_def split: if_splits sum.splits)
  from readback_report[OF a1 rb] obtain a2 where user: "user = evidence_prompt text_of ask input"
    and a2: "ask user = Inr a2" "r = decode_report a2" by blast
  obtain v0 r' where fr: "format_retry ask ?n user r = (v0, r')" by fastforce
  from format_retry_report[of ask user a2 ?n v0 r', OF a2(1)] fr a2(2) obtain u a3 where u: "u \<in> {user, user @ FORMAT_VIOLATION}"
    and a3: "ask u = Inr a3" "r' = decode_report a3" "v0 = verdict_of ?n r' \<or> (\<exists>reason. v0 = Indeterminate reason)" by blast
  have v: "v = fst (refutation refuter user v0 (reported_findings r'))"
    using assms a1 rb fr by (auto simp: verify_def Let_def split: if_splits sum.splits prod.splits)
  with assms(2) have "\<not> (\<exists>reason. v0 = Indeterminate reason)" by (auto simp: refutation_def)
  with a3 have "v0 = verdict_of ?n (decode_report a3)" by blast
  then show thesis using that[of u a3 v0] u a3(1,2) v unfolding user by simp
qed

text \<open>A verifier that always gives the same ruling answer.\<close>

lemma verify_constant:
  assumes "\<not> is_blank (gi_task input)" "\<not> is_blank (gi_result input)" and "\<And>u. ask u = Inr a"
    and "readback_request (decode_report a) = []"
    and "verdict_of (length (gi_evidence_conditions input)) (decode_report a) = v"
  shows "fst (verify text_of ask refuter input) =
    fst (refutation refuter (render_gate_input text_of input) v (reported_findings (decode_report a)))"
  using assms by (cases v) (simp_all add: verify_def readback_round_def format_retry_def Let_def split: prod.splits)

lemma refutation_constant:
  assumes "\<And>u. refuted_numbers (refuter u) = ns"
  shows "fst (refutation refuter user v reported) =
    (case v of Gaps gs \<Rightarrow> (if snd (split_refuted gs ns) = [] then v
                         else if fst (split_refuted gs ns) = [] then Pass else Gaps (fst (split_refuted gs ns)))
     | _ \<Rightarrow> v)"
  using assms by (auto simp: refutation_def refute_def split: gate_verdict.splits prod.splits)

section \<open>Escaping\<close>

definition xml_char :: "char \<Rightarrow> string" where
  "xml_char c = (if c = CHR ''&'' then ''&amp;'' else if c = CHR ''<'' then ''&lt;'' else if c = CHR ''>'' then ''&gt;'' else [c])"

lemma escape_by_chars: "escape_xml_text s = concat (map xml_char s)"
  by (induction s) (auto simp: escape_xml_text_def replace_char_def xml_char_def)

text \<open>A reader of the escaped text.\<close>

fun unescape :: "string \<Rightarrow> string" where
  "unescape [] = []"
| "unescape (c # s) =
     (if starts_with (c # s) ''&amp;'' then CHR ''&'' # unescape (drop 4 s)
      else if starts_with (c # s) ''&lt;'' then CHR ''<'' # unescape (drop 3 s)
      else if starts_with (c # s) ''&gt;'' then CHR ''>'' # unescape (drop 3 s)
      else c # unescape s)"

lemma unescape_escape: "unescape (escape_xml_text s) = s"
  by (induction s) (auto simp: escape_by_chars xml_char_def starts_with_def)

section \<open>The properties\<close>

text \<open>
  C5. A pass is earned. When the gate passes, an answer of the verifier on the gate's own evidence - its input with the
  outputs that were read back, and on a second try the complaint about the format - ruled on all four evidence shapes
  exactly once and on the conditions 1 to n exactly once; and either nothing in that answer was chargeable and it said PASS,
  or it charged something and the second verifier, shown the same evidence and exactly these charges, refuted every one.
\<close>

theorem pass_is_earned:
  assumes "fst (verify text_of ask refuter input) = Pass"
  defines "shown \<equiv> evidence_prompt text_of ask input"
  shows "\<exists>u a. u \<in> {shown, shown @ FORMAT_VIOLATION} \<and> ask u = Inr a \<and>
    report_complete (length (gi_evidence_conditions input)) (decode_report a) \<and>
    (if charges (decode_report a) = [] then vr_pass (decode_report a)
     else \<forall>i<length (charges (decode_report a)).
            i + 1 \<in> set (refuted_numbers (refuter (shown @ charged_findings_block (charges (decode_report a))))))"
proof -
  let ?n = "length (gi_evidence_conditions input)"
  have "\<not> (\<exists>reason. Pass = Indeterminate reason)" by simp
  from verify_from_report[OF assms(1) this] obtain u a v0 where a: "u \<in> {shown, shown @ FORMAT_VIOLATION}" "ask u = Inr a"
    and v0: "verdict_of ?n (decode_report a) = v0"
    and p: "Pass = fst (refutation refuter shown v0 (reported_findings (decode_report a)))" unfolding shown_def by metis
  show ?thesis
  proof (cases v0)
    case Pass
    with v0 have "report_complete ?n (decode_report a)" "charges (decode_report a) = []" "vr_pass (decode_report a)"
      using verdict_pass by blast+
    then show ?thesis by (intro exI[of _ u] exI[of _ a] conjI a) simp_all
  next
    case (Gaps gs)
    with v0 have c: "report_complete ?n (decode_report a)" "gs = charges (decode_report a)" "gs \<noteq> []"
      using verdict_gaps[of ?n "decode_report a" gs] by simp_all
    obtain standing refuted where r: "refute refuter shown gs = (standing, refuted)" by fastforce
    have "fst (refutation refuter shown v0 reported) = (if refuted = [] then Gaps gs else if standing = [] then Pass else Gaps standing)"
      for reported by (simp add: refutation_def Gaps r)
    with p have "standing = []" by (metis gate_verdict.distinct(1))
    with r have "\<forall>i<length gs. i + 1 \<in> set (refuted_numbers (refuter (shown @ charged_findings_block gs)))"
      unfolding refute_def using split_refuted_standing by (metis fst_conv)
    then show ?thesis unfolding c(2) by (intro exI[of _ u] exI[of _ a] conjI a c(1)) (use c(2,3) in simp)
  next
    case (Indeterminate reason)
    with p show ?thesis by (simp add: refutation_def)
  qed
qed

definition shape_of :: "string \<Rightarrow> json" where
  "shape_of name = JObj [(''name'', JStr name), (''found'', JStr ''no''), (''reason'', JStr ''checked'')]"

definition ruling :: "json list \<Rightarrow> json list \<Rightarrow> string \<Rightarrow> json" where
  "ruling shapes gaps verdict =
     JObj [(''shapes'', JArr shapes), (''gaps'', JArr gaps), (''verdict'', JStr verdict)]"

definition gap_of :: "string \<Rightarrow> string \<Rightarrow> json" where
  "gap_of gap settles = JObj [(''gap'', JStr gap), (''settles'', JStr settles)]"

lemmas read_answer = decode_report_def json_report_def json_field_def json_entries_def json_get_def json_as_array_def
  json_as_str_def ruling_def shape_of_def gap_of_def REQUIRED_SHAPES_def trim_printable visible_def Let_def
  verdict_of_def verdict_checked_def ensure_def charged_def charged_gaps_def readback_request_def

definition plain_input :: gate_input where
  "plain_input = \<lparr>gi_original_task = ''fix it'', gi_task = ''fix it'', gi_task_scope = SelfContained,
     gi_context_sources = [], gi_resolution_evidence = [], gi_result = ''fixed'', gi_claim = None, gi_actions = [],
     gi_grounds = [], gi_plan = [], gi_ground_truth = [], gi_prior_gaps = [], gi_role_context = [],
     gi_evidence_conditions = []\<rparr>"

lemma plain_not_blank: "\<not> is_blank (gi_task plain_input)" "\<not> is_blank (gi_result plain_input)"
  by (simp_all add: plain_input_def is_blank_def trim_printable visible_def)

definition clean_answer :: answer where
  "clean_answer = JsonAnswer (ruling (map shape_of REQUIRED_SHAPES) [] ''PASS'')"

lemma clean_verdict: "readback_request (decode_report clean_answer) = []" "verdict_of 0 (decode_report clean_answer) = Pass"
  by (simp_all add: clean_answer_def read_answer)

lemma no_conditions: "length (gi_evidence_conditions plain_input) = 0"
  by (simp add: plain_input_def)

lemma verify_plain:
  assumes "readback_request (decode_report a) = []" and "verdict_of 0 (decode_report a) = v"
  shows "fst (verify text_of (\<lambda>_. Inr a) refuter plain_input) =
    fst (refutation refuter (render_gate_input text_of plain_input) v (reported_findings (decode_report a)))"
  using verify_constant[OF plain_not_blank refl assms(1), of v] assms(2) by (simp only: no_conditions)

theorem pass_is_earned_witness:
  "report_complete 0 (decode_report clean_answer) \<and> vr_pass (decode_report clean_answer)"
proof -
  have "fst (verify (\<lambda>_. []) (\<lambda>_. Inr clean_answer) Inl plain_input) = Pass"
    by (simp add: verify_plain[OF clean_verdict] refutation_def)
  moreover have "charges (decode_report clean_answer) = []" using clean_verdict(2) verdict_pass by blast
  ultimately show ?thesis using pass_is_earned[of "\<lambda>_. []" "\<lambda>_. Inr clean_answer" Inl plain_input] by (simp add: no_conditions)
qed

text \<open>
  A blocking verdict is evidenced: the gaps sent back are, in order, charges of one complete answer, each a
  condition unmatched on shown evidence, a shape with the observation that clears it, or a gap with the one that
  closes it; suspicions by inference and unknowns never block.
\<close>

theorem gaps_are_charges:
  assumes "fst (verify text_of ask refuter input) = Gaps gs"
  shows "gs \<noteq> [] \<and> (\<exists>u a. ask u = Inr a \<and> report_complete (length (gi_evidence_conditions input)) (decode_report a) \<and>
    subseq gs (charges (decode_report a)))"
proof -
  let ?n = "length (gi_evidence_conditions input)"
  let ?user = "evidence_prompt text_of ask input"
  have "\<not> (\<exists>reason. Gaps gs = Indeterminate reason)" by simp
  from verify_from_report[OF assms this] obtain u a v0 where a: "ask u = Inr a"
    and v0: "verdict_of ?n (decode_report a) = v0"
    and p: "Gaps gs = fst (refutation refuter ?user v0 (reported_findings (decode_report a)))" by metis
  then obtain gs0 where g: "v0 = Gaps gs0" by (cases v0) (auto simp: refutation_def)
  with v0 have c: "report_complete ?n (decode_report a)" "gs0 = charges (decode_report a)" "gs0 \<noteq> []"
    using verdict_gaps[of ?n "decode_report a" gs0] by simp_all
  obtain standing refuted where r: "refute refuter ?user gs0 = (standing, refuted)" by fastforce
  then have "subseq standing gs0" unfolding refute_def using split_refuted_subseq by (metis fst_conv)
  with p g r c have "gs \<noteq> [] \<and> subseq gs gs0" by (auto simp: refutation_def split: if_splits)
  with a c show ?thesis by blast
qed

definition gap_answer :: answer where
  "gap_answer = JsonAnswer (ruling (map shape_of REQUIRED_SHAPES) [gap_of ''no test'' ''run the test''] ''GAPS'')"

lemma gap_verdict:
  "readback_request (decode_report gap_answer) = []"
  "verdict_of 0 (decode_report gap_answer) = Gaps [''no test '' @ long_dash @ '' clear it by: run the test'']"
  by (simp_all add: gap_answer_def read_answer)

theorem gaps_are_charges_witness:
  "\<exists>u a. Inr gap_answer = Inr a \<and> report_complete 0 (decode_report a) \<and>
     subseq [''no test '' @ long_dash @ '' clear it by: run the test''] (charges (decode_report a))"
proof -
  have "fst (verify (\<lambda>_. []) (\<lambda>_. Inr gap_answer) Inl plain_input) = Gaps [''no test '' @ long_dash @ '' clear it by: run the test'']"
    unfolding verify_plain[OF gap_verdict] by (subst refutation_constant[where ns = "[]"]) (simp_all add: refuted_numbers_def split_refuted_def)
  from gaps_are_charges[OF this] show ?thesis by (simp add: no_conditions)
qed

text \<open>
  Untrusted text cannot open or close a block: escaped text holds no angle bracket, and what was written can be
  read back from it.
\<close>

theorem escaped_text_is_inert:
  "CHR ''<'' \<notin> set (escape_xml_text s) \<and> CHR ''>'' \<notin> set (escape_xml_text s) \<and> unescape (escape_xml_text s) = s"
  unfolding unescape_escape by (auto simp: escape_by_chars xml_char_def split: if_splits)

text \<open>
  An explicit gap does not survive the refutation of an itemized charge: the answer names a shape and a gap, only
  the shape is charged, the second verifier refutes it, and the gate passes although the answer said GAPS.
\<close>

definition two_findings :: answer where
  "two_findings = JsonAnswer (ruling
     (JObj [(''name'', JStr ''circular''), (''found'', JStr ''yes''), (''reason'', JStr ''same source''), (''settles'', JStr ''rerun'')]
      # map shape_of (tl REQUIRED_SHAPES))
     [gap_of ''no test'' ''run the test''] ''GAPS'')"

definition refutes_first :: answer where
  "refutes_first = JsonAnswer (JObj [(''findings'', JArr [JObj [(''n'', JNum ''1''), (''verdict'', JStr ''refuted'')]])])"

lemma two_findings_verdict:
  "readback_request (decode_report two_findings) = []"
  "\<exists>g. verdict_of 0 (decode_report two_findings) = Gaps [g]"
  "charged_gaps (decode_report two_findings) \<noteq> []" "\<not> vr_pass (decode_report two_findings)"
  "refuted_numbers (Inr refutes_first) = [1]"
  by (simp_all add: two_findings_def refutes_first_def read_answer refuted_numbers_def refuted_from_json_def REFUTED_def
      json_number_def json_as_u64_def parse_unsigned_def is_digit_def digits_int_def digit_val_def)

lemma refuted_shape_hides_gap:
  "fst (verify (\<lambda>_. []) (\<lambda>_. Inr two_findings) (\<lambda>_. Inr refutes_first) plain_input) = Pass \<and>
   charged_gaps (decode_report two_findings) \<noteq> [] \<and> \<not> vr_pass (decode_report two_findings)"
proof -
  obtain g where g: "verdict_of 0 (decode_report two_findings) = Gaps [g]" using two_findings_verdict(2) by blast
  have "fst (verify (\<lambda>_. []) (\<lambda>_. Inr two_findings) (\<lambda>_. Inr refutes_first) plain_input) = Pass"
    unfolding verify_plain[OF two_findings_verdict(1) g]
    by (subst refutation_constant[where ns = "[1]"]) (simp_all add: two_findings_verdict split_refuted_def)
  then show ?thesis using two_findings_verdict by simp
qed

text \<open>
  A finding that names no closing observation is not charged, but an answer whose only findings are of that kind
  is an indeterminate verdict, which sends the turn back.
\<close>

definition uncharged_gap :: answer where
  "uncharged_gap = JsonAnswer (ruling (map shape_of REQUIRED_SHAPES) [gap_of ''no test'' []] ''GAPS'')"

lemma uncharged_verdict:
  "readback_request (decode_report uncharged_gap) = []"
  "verdict_of 0 (decode_report uncharged_gap) = Indeterminate ''missing verdict markers''"
  by (simp_all add: uncharged_gap_def read_answer)

lemma uncharged_gap_is_indeterminate:
  "fst (verify (\<lambda>_. []) (\<lambda>_. Inr uncharged_gap) Inl plain_input) = Indeterminate ''missing verdict markers''"
  by (simp add: verify_plain[OF uncharged_verdict] refutation_def)

end
