(* ===== verification/LedgerCorrect.thy ===== *)
theory LedgerCorrect
  imports Evidence
begin

text \<open>
  The evidence ledger over a whole session: its bounds, the numbering of calls, what a plan phase may see and
  what a readback returns. A session is a list of \<open>ledger_event\<close>; an executed call records itself and its output, as
  the tool loop does.
\<close>

section \<open>The ledger\<close>

datatype ledger_event =
  Executed string json bool bool nat string
| CommandOutput string string
| PhaseBegun
| GateJudged
| TaskBegun

fun ledger_step :: "(json \<Rightarrow> string) \<Rightarrow> ledger_event \<Rightarrow> evidence_ledger \<Rightarrow> evidence_ledger" where
  "ledger_step text_of (Executed tool params mut err n output) l =
     (let (seq, l) = record_call text_of tool params mut err n l in record_ground seq output l)"
| "ledger_step text_of (CommandOutput cmd output) l = record_command_output cmd output l"
| "ledger_step text_of PhaseBegun l = snd (begin_phase l)"
| "ledger_step text_of GateJudged l = mark_gate_checkpoint l"
| "ledger_step text_of TaskBegun l = ledger_reset l"

definition ledger_run :: "(json \<Rightarrow> string) \<Rightarrow> ledger_event list \<Rightarrow> evidence_ledger" where
  "ledger_run text_of es = fold (ledger_step text_of) es new_ledger"

lemma ledger_run_snoc: "ledger_run text_of (es @ [e]) = ledger_step text_of e (ledger_run text_of es)"
  by (simp add: ledger_run_def)

lemma ledger_run_Nil: "ledger_run text_of [] = new_ledger"
  by (simp add: ledger_run_def)

definition ground_sum :: "(nat \<times> string) list \<Rightarrow> nat" where
  "ground_sum gs = sum_list (map (\<lambda>g. count_chars (snd g)) gs)"

definition entries_ok :: "nat \<Rightarrow> ledger_entry list \<Rightarrow> bool" where
  "entries_ok n es \<longleftrightarrow> length es \<le> LEDGER_CAP \<and> sorted_wrt (<) (map le_last_sequence es) \<and>
     (\<forall>e\<in>set es. le_last_sequence e < n \<and> 0 < le_repeats e) \<and>
     (0 < n \<longrightarrow> es \<noteq> [] \<and> le_last_sequence (last es) + 1 = n)"

definition grounds_ok :: "nat \<Rightarrow> (nat \<times> string) list \<Rightarrow> nat \<Rightarrow> bool" where
  "grounds_ok n gs chars \<longleftrightarrow> sorted_wrt (<) (map fst gs) \<and> (\<forall>g\<in>set gs. fst g < n) \<and>
     chars = ground_sum gs \<and> chars \<le> CITATION_GROUNDS_CHARS"

definition ledger_ok :: "evidence_ledger \<Rightarrow> bool" where
  "ledger_ok l \<longleftrightarrow>
     entries_ok (el_next_sequence l) (el_entries l) \<and>
     grounds_ok (el_next_sequence l) (el_grounds l) (el_ground_chars l) \<and>
     el_dropped l + sum_list (map le_repeats (el_entries l)) \<le> el_next_sequence l \<and>
     distinct (el_mutated_paths l) \<and> length (el_mutated_paths l) \<le> LEDGER_PATHS_CAP \<and>
     length (el_recent_commands l) \<le> RECENT_COMMANDS_KEPT \<and>
     el_collapse_checkpoint l \<le> el_next_sequence l \<and> el_gate_checkpoint l \<le> el_next_sequence l"

lemma next_seq_small: "n < usize_max \<Longrightarrow> next_seq n = n + 1"
  by (simp add: next_seq_def)

lemma add_paths_ok:
  "distinct ps \<Longrightarrow> length ps \<le> LEDGER_PATHS_CAP \<Longrightarrow>
   distinct (fold add_mutated_path qs ps) \<and> length (fold add_mutated_path qs ps) \<le> LEDGER_PATHS_CAP"
  by (induction qs arbitrary: ps) (auto simp: add_mutated_path_def)

lemma record_call_next: "el_next_sequence (snd (record_call text_of tool params mut err n l)) = next_seq (el_next_sequence l)"
  by (simp add: record_call_def Let_def)

lemma record_call_seq: "fst (record_call text_of tool params mut err n l) = el_next_sequence l"
  by (simp add: record_call_def Let_def)

text \<open>What recording does to the entries: either the last one is counted once more, or a new one is appended.\<close>

definition new_entry_of :: "(json \<Rightarrow> string) \<Rightarrow> string \<Rightarrow> json \<Rightarrow> bool \<Rightarrow> bool \<Rightarrow> nat \<Rightarrow> nat \<Rightarrow> ledger_entry" where
  "new_entry_of text_of tool params mut err n seq = \<lparr>le_last_sequence = seq, le_tool = tool, le_args = ledger_args text_of params,
     le_mutation = mut, le_error = err, le_bytes = n, le_repeats = 1\<rparr>"

lemma record_call_cases:
  assumes "record_call text_of tool params mut err n l = (seq, l')"
  obtains
    (collapse) us e where "el_entries l = us @ [e]" "\<not> err" "collapses (el_collapse_checkpoint l) tool (ledger_args text_of params) e"
      "el_entries l' = us @ [e\<lparr>le_repeats := le_repeats e + 1, le_last_sequence := seq\<rparr>]" "el_dropped l' = el_dropped l"
  | (push) "length (el_entries l) < LEDGER_CAP" "el_entries l' = el_entries l @ [new_entry_of text_of tool params mut err n seq]"
      "el_dropped l' = el_dropped l"
  | (evict) "LEDGER_CAP \<le> length (el_entries l)"
      "el_entries l' = tl (el_entries l @ [new_entry_of text_of tool params mut err n seq])" "el_dropped l' = el_dropped l + 1"
proof (cases "\<not> err \<and> el_entries l \<noteq> [] \<and>
    collapses (el_collapse_checkpoint l) tool (ledger_args text_of params) (last (el_entries l))")
  case True
  then have "el_entries l = butlast (el_entries l) @ [last (el_entries l)]" by simp
  moreover have "el_entries l' = butlast (el_entries l) @ [(last (el_entries l))
      \<lparr>le_repeats := le_repeats (last (el_entries l)) + 1, le_last_sequence := seq\<rparr>]" "el_dropped l' = el_dropped l"
    using True assms by (auto simp: record_call_def Let_def)
  ultimately show thesis using True by (intro collapse[of "butlast (el_entries l)" "last (el_entries l)"]) auto
next
  case False
  with push evict assms show thesis
    by (cases "LEDGER_CAP \<le> length (el_entries l)") (auto simp: record_call_def Let_def new_entry_of_def)
qed

lemma record_call_frame:
  assumes "record_call text_of tool params mut err n l = (seq, l')"
  shows "el_grounds l' = el_grounds l" "el_ground_chars l' = el_ground_chars l" "el_recent_commands l' = el_recent_commands l"
    "el_collapse_checkpoint l' = el_collapse_checkpoint l" "el_gate_checkpoint l' = el_gate_checkpoint l"
    "el_mutated_paths l' = (if mut \<and> \<not> err then fold add_mutated_path (param_paths params) (el_mutated_paths l)
       else el_mutated_paths l)" "seq = el_next_sequence l" "el_next_sequence l' = next_seq (el_next_sequence l)"
  using assms by (auto simp: record_call_def Let_def split: if_splits)

lemma entries_ok_record:
  assumes "entries_ok (el_next_sequence l) (el_entries l)" and "el_next_sequence l < usize_max"
    and r: "record_call text_of tool params mut err n l = (seq, l')"
  shows "entries_ok (el_next_sequence l') (el_entries l')"
  using r
proof (cases rule: record_call_cases)
  case (collapse us e)
  with assms record_call_frame[OF r] show ?thesis
    by (auto simp: entries_ok_def next_seq_small sorted_wrt_append)
next
  case push
  with assms record_call_frame[OF r] show ?thesis
    by (auto simp: entries_ok_def next_seq_small sorted_wrt_append new_entry_of_def less_SucI)
next
  case evict
  then obtain e es where "el_entries l = e # es" by (cases "el_entries l") (auto simp: LEDGER_CAP_def)
  with evict assms record_call_frame[OF r] show ?thesis
    by (auto simp: entries_ok_def next_seq_small sorted_wrt_append new_entry_of_def less_SucI)
qed

lemma accounting_record:
  assumes "el_dropped l + sum_list (map le_repeats (el_entries l)) \<le> el_next_sequence l" and "el_next_sequence l < usize_max"
    and "entries_ok (el_next_sequence l) (el_entries l)" and r: "record_call text_of tool params mut err n l = (seq, l')"
  shows "el_dropped l' + sum_list (map le_repeats (el_entries l')) \<le> el_next_sequence l'"
  using r
proof (cases rule: record_call_cases)
  case evict
  then obtain e es where "el_entries l = e # es" by (cases "el_entries l") (auto simp: LEDGER_CAP_def)
  moreover then have "0 < le_repeats e" using assms(3) by (simp add: entries_ok_def)
  ultimately show ?thesis using evict assms(1,2) record_call_frame[OF r] by (simp add: next_seq_small new_entry_of_def)
qed (use assms record_call_frame[OF r] in \<open>auto simp: next_seq_small new_entry_of_def\<close>)

lemma evict_grounds_ok:
  "chars = ground_sum gs \<Longrightarrow> evict_grounds chars gs = (chars', gs') \<Longrightarrow>
     chars' = ground_sum gs' \<and> suffix gs' gs \<and> (gs = [] \<or> chars' \<le> CITATION_GROUNDS_CHARS)"
proof (induction chars gs arbitrary: chars' gs' rule: evict_grounds.induct)
  case (2 chars g gs)
  show ?case
  proof (cases "CITATION_GROUNDS_CHARS < chars")
    case True
    have "chars - count_chars (snd g) = ground_sum gs" using 2(2) by (simp add: ground_sum_def)
    moreover have "evict_grounds (chars - count_chars (snd g)) gs = (chars', gs')" using 2(3) True by simp
    ultimately have ih: "chars' = ground_sum gs'" "suffix gs' gs" "gs = [] \<or> chars' \<le> CITATION_GROUNDS_CHARS"
      using 2(1)[OF True] by blast+
    moreover have "gs = [] \<Longrightarrow> chars' = 0" using ih(1,2) by (simp add: ground_sum_def)
    ultimately show ?thesis by (auto simp: suffix_Cons)
  qed (use 2 in auto)
qed simp

lemma grounds_ok_record:
  assumes "grounds_ok n (el_grounds l) (el_ground_chars l)"
  shows "grounds_ok (Suc n) (el_grounds (record_ground n output l)) (el_ground_chars (record_ground n output l))"
proof (cases "output = []")
  case True
  then show ?thesis using assms by (auto simp: record_ground_def grounds_ok_def less_SucI)
next
  case False
  let ?b = "if CITATION_GROUNDS_CHARS < count_chars output then take_chars CITATION_GROUNDS_CHARS output else output"
  let ?gs = "el_grounds l @ [(n, ?b)]"
  obtain chars gs where e: "evict_grounds (el_ground_chars l + count_chars ?b) ?gs = (chars, gs)" by fastforce
  have s: "sorted_wrt (<) (map fst ?gs)" "\<forall>g\<in>set ?gs. fst g < Suc n" "el_ground_chars l + count_chars ?b = ground_sum ?gs"
    using assms by (auto simp: grounds_ok_def sorted_wrt_append ground_sum_def less_SucI)
  from evict_grounds_ok[OF s(3) e] obtain ds where "?gs = ds @ gs" "chars = ground_sum gs" "chars \<le> CITATION_GROUNDS_CHARS"
    by (auto simp: suffix_def)
  moreover from this s have "sorted_wrt (<) (map fst gs)" "\<forall>g\<in>set gs. fst g < Suc n"
    by (simp_all add: sorted_wrt_append)
  ultimately show ?thesis using False e by (simp add: record_ground_def grounds_ok_def)
qed

lemma record_ground_frame [simp]:
  "el_entries (record_ground n output l) = el_entries l" "el_next_sequence (record_ground n output l) = el_next_sequence l"
  "el_dropped (record_ground n output l) = el_dropped l" "el_mutated_paths (record_ground n output l) = el_mutated_paths l"
  "el_recent_commands (record_ground n output l) = el_recent_commands l"
  "el_collapse_checkpoint (record_ground n output l) = el_collapse_checkpoint l"
  "el_gate_checkpoint (record_ground n output l) = el_gate_checkpoint l"
  by (simp_all add: record_ground_def Let_def split: prod.splits)

lemma ledger_step_ok:
  assumes "ledger_ok l" and "el_next_sequence l < usize_max"
  shows "ledger_ok (ledger_step text_of e l)"
proof (cases e)
  case (Executed tool params mut err n out)
  obtain seq l' where r: "record_call text_of tool params mut err n l = (seq, l')" by fastforce
  note frame = record_call_frame[OF r]
  have "grounds_ok (Suc seq) (el_grounds (record_ground seq out l')) (el_ground_chars (record_ground seq out l'))"
    using assms(1) frame by (intro grounds_ok_record) (simp add: ledger_ok_def)
  moreover have "entries_ok (el_next_sequence l') (el_entries l')"
    by (rule entries_ok_record[OF _ assms(2) r]) (use assms(1) in \<open>simp add: ledger_ok_def\<close>)
  moreover have "el_dropped l' + sum_list (map le_repeats (el_entries l')) \<le> el_next_sequence l'"
    by (rule accounting_record[OF _ assms(2) _ r]) (use assms(1) in \<open>simp_all add: ledger_ok_def\<close>)
  moreover have "distinct (el_mutated_paths l') \<and> length (el_mutated_paths l') \<le> LEDGER_PATHS_CAP"
    using add_paths_ok[of "el_mutated_paths l" "param_paths params"] assms(1) unfolding frame(6) ledger_ok_def by simp
  moreover have next_l': "el_next_sequence l' = Suc seq" using frame(7,8) next_seq_small[OF assms(2)] by simp
  moreover have "el_collapse_checkpoint l' \<le> el_next_sequence l'" "el_gate_checkpoint l' \<le> el_next_sequence l'"
    using assms(1) frame(7) unfolding next_l' frame(4,5) ledger_ok_def by simp_all
  moreover have "length (el_recent_commands l') \<le> RECENT_COMMANDS_KEPT"
    using assms(1) unfolding frame(3) ledger_ok_def by simp
  moreover have "ledger_step text_of e l = record_ground seq out l'" using Executed r by simp
  ultimately show ?thesis unfolding ledger_ok_def record_ground_frame by simp
qed (use assms in \<open>auto simp: ledger_ok_def record_command_output_def begin_phase_def mark_gate_checkpoint_def
    ledger_reset_def entries_ok_def grounds_ok_def ground_sum_def RECENT_COMMANDS_KEPT_def Let_def\<close>)

lemma ledger_next_le: "el_next_sequence (ledger_run text_of es) \<le> length es"
proof (induction es rule: rev_induct)
  case (snoc e es)
  then show ?case
    by (cases e) (auto simp: ledger_run_snoc record_call_next record_command_output_def begin_phase_def
        mark_gate_checkpoint_def ledger_reset_def next_seq_def Let_def split: prod.splits dest!: record_call_frame(8))
qed (simp add: ledger_run_Nil new_ledger_def)

lemma ledger_run_ok: "length es \<le> usize_max \<Longrightarrow> ledger_ok (ledger_run text_of es)"
proof (induction es rule: rev_induct)
  case Nil
  then show ?case by (simp add: ledger_run_Nil new_ledger_def ledger_ok_def entries_ok_def grounds_ok_def ground_sum_def)
next
  case (snoc e es)
  then show ?case using ledger_next_le[of text_of es] by (simp add: ledger_run_snoc ledger_step_ok)
qed

section \<open>Phases\<close>

text \<open>The calls of a list of events with a given tool, rendered arguments and outcome.\<close>

fun same_call :: "(json \<Rightarrow> string) \<Rightarrow> string \<Rightarrow> string \<Rightarrow> bool \<Rightarrow> ledger_event \<Rightarrow> bool" where
  "same_call text_of tool args err (Executed tool' params mut err' n out) \<longleftrightarrow>
     tool' = tool \<and> ledger_args text_of params = args \<and> err' = err"
| "same_call text_of tool args err _ \<longleftrightarrow> False"

fun is_executed :: "ledger_event \<Rightarrow> bool" where
  "is_executed (Executed tool params mut err n out) = True"
| "is_executed _ = False"

definition calls_made :: "(json \<Rightarrow> string) \<Rightarrow> string \<Rightarrow> string \<Rightarrow> bool \<Rightarrow> ledger_event list \<Rightarrow> nat" where
  "calls_made text_of tool args err es = length (filter (same_call text_of tool args err) es)"

definition calls_shown :: "string \<Rightarrow> string \<Rightarrow> bool \<Rightarrow> ledger_entry list \<Rightarrow> nat" where
  "calls_shown tool args err rows =
     sum_list (map le_repeats (filter (\<lambda>e. le_tool e = tool \<and> le_args e = args \<and> le_error e = err) rows))"

lemma calls_shown_append [simp]: "calls_shown t a b (xs @ ys) = calls_shown t a b xs + calls_shown t a b ys"
  by (simp add: calls_shown_def)

definition phase_rows ::
  "(json \<Rightarrow> string) \<Rightarrow> nat \<Rightarrow> ledger_event list \<Rightarrow> evidence_ledger \<Rightarrow> ledger_entry list \<Rightarrow> ledger_entry list \<Rightarrow> bool" where
  "phase_rows text_of cp es l old rows \<longleftrightarrow>
     el_entries l = old @ rows \<and> (\<forall>e\<in>set old. le_last_sequence e < cp) \<and> (\<forall>e\<in>set rows. cp \<le> le_last_sequence e) \<and>
     length rows \<le> length (filter is_executed es) \<and> el_collapse_checkpoint l = cp \<and> cp \<le> el_next_sequence l \<and>
     (\<forall>tool args err. calls_shown tool args err rows = calls_made text_of tool args err es)"

lemma calls_made_snoc:
  "calls_made text_of t a b (es @ [e]) = calls_made text_of t a b es + (if same_call text_of t a b e then 1 else 0)"
  by (simp add: calls_made_def)

lemma phase_rows_executed:
  assumes p: "phase_rows text_of cp es l old rows" and b: "length (filter is_executed es) < LEDGER_CAP"
    and r: "record_call text_of tool params mut err n l = (seq, l')" and lim: "el_next_sequence l < usize_max"
  shows "\<exists>old rows. phase_rows text_of cp (es @ [Executed tool params mut err n out]) l' old rows"
  using r
proof (cases rule: record_call_cases)
  note frame = record_call_frame[OF r]
  have made: "calls_made text_of t a e (es @ [Executed tool params mut err n out]) =
      calls_made text_of t a e es + (if t = tool \<and> a = ledger_args text_of params \<and> e = err then 1 else 0)" for t a e
    by (auto simp: calls_made_snoc)
  have keep: "length rows \<le> Suc (length (filter is_executed es))" "el_collapse_checkpoint l' = cp" "cp \<le> el_next_sequence l'"
    "cp \<le> seq"
    using p frame lim by (auto simp: phase_rows_def next_seq_small)
  {
    case (collapse us e)
    have e: "cp \<le> le_last_sequence e" "le_tool e = tool" "le_args e = ledger_args text_of params" "\<not> le_error e"
      using collapse(3) p by (auto simp: collapses_def phase_rows_def)
    have "rows \<noteq> []"
    proof
      assume "rows = []"
      then have "old = us @ [e]" using p collapse(1) by (simp add: phase_rows_def)
      then have "e \<in> set old" by simp
      with p e(1) show False by (auto simp: phase_rows_def)
    qed
    then have rows: "rows = butlast rows @ [e]" "us = old @ butlast rows"
      using p collapse(1) by (auto simp: phase_rows_def) (metis append_butlast_last_id butlast_append last_appendR last_snoc butlast_snoc)+
    let ?e = "e\<lparr>le_repeats := le_repeats e + 1, le_last_sequence := seq\<rparr>"
    have "calls_shown t a b (butlast rows @ [?e]) =
        calls_shown t a b rows + (if t = tool \<and> a = ledger_args text_of params \<and> b = err then 1 else 0)" for t a b
      using e collapse(2) by (subst (2) rows(1)) (auto simp: calls_shown_def)
    with p made keep rows collapse have "phase_rows text_of cp (es @ [Executed tool params mut err n out]) l' old (butlast rows @ [?e])"
      by (auto simp: phase_rows_def dest: in_set_butlastD)
    then show ?thesis by blast
  next
    case push
    have "calls_shown t a b (rows @ [new_entry_of text_of tool params mut err n seq]) =
        calls_shown t a b rows + (if t = tool \<and> a = ledger_args text_of params \<and> b = err then 1 else 0)" for t a b
      by (auto simp: calls_shown_def new_entry_of_def)
    with p made keep push have "phase_rows text_of cp (es @ [Executed tool params mut err n out]) l' old
        (rows @ [new_entry_of text_of tool params mut err n seq])"
      by (auto simp: phase_rows_def new_entry_of_def)
    then show ?thesis by blast
  next
    case evict
    have "old \<noteq> []" using evict(1) p b by (auto simp: phase_rows_def)
    have "calls_shown t a b (rows @ [new_entry_of text_of tool params mut err n seq]) =
        calls_shown t a b rows + (if t = tool \<and> a = ledger_args text_of params \<and> b = err then 1 else 0)" for t a b
      by (auto simp: calls_shown_def new_entry_of_def)
    with p made keep evict \<open>old \<noteq> []\<close> have "phase_rows text_of cp (es @ [Executed tool params mut err n out]) l' (tl old)
        (rows @ [new_entry_of text_of tool params mut err n seq])"
      by (auto simp: phase_rows_def new_entry_of_def dest: list.set_sel(2))
    then show ?thesis by blast
  }
qed

lemma phase_rows_run:
  assumes "\<forall>e\<in>set es. e \<noteq> PhaseBegun \<and> e \<noteq> TaskBegun" and "length (filter is_executed es) \<le> LEDGER_CAP"
    and "length (before @ PhaseBegun # es) \<le> usize_max"
  shows "\<exists>old rows. phase_rows text_of (el_next_sequence (ledger_run text_of before)) es
           (ledger_run text_of (before @ PhaseBegun # es)) old rows"
  using assms
proof (induction es rule: rev_induct)
  case Nil
  let ?l = "ledger_run text_of before"
  have ok: "ledger_ok ?l" using Nil by (intro ledger_run_ok) simp
  have "phase_rows text_of (el_next_sequence ?l) [] (snd (begin_phase ?l)) (el_entries ?l) []"
    using ok by (auto simp: phase_rows_def begin_phase_def ledger_ok_def entries_ok_def calls_shown_def calls_made_def)
  then show ?case using ledger_run_snoc[of text_of before PhaseBegun] by auto
next
  case (snoc e es)
  let ?l = "ledger_run text_of (before @ PhaseBegun # es)" and ?cp = "el_next_sequence (ledger_run text_of before)"
  from snoc obtain old rows where ih: "phase_rows text_of ?cp es ?l old rows" by (auto split: if_splits)
  have step: "ledger_run text_of (before @ PhaseBegun # es @ [e]) = ledger_step text_of e ?l"
    using ledger_run_snoc[of text_of "before @ PhaseBegun # es" e] by simp
  show ?case
  proof (cases e)
    case (Executed tool params mut err n out)
    obtain seq l' where r: "record_call text_of tool params mut err n ?l = (seq, l')" by fastforce
    have "el_next_sequence ?l < usize_max"
      using ledger_next_le[of text_of "before @ PhaseBegun # es"] snoc.prems(3) by simp
    moreover have "length (filter is_executed es) < LEDGER_CAP" using snoc.prems(2) Executed by simp
    ultimately obtain old rows where "phase_rows text_of ?cp (es @ [e]) l' old rows"
      using phase_rows_executed[OF ih _ r] Executed by blast
    then show ?thesis using Executed r unfolding step by (auto simp: phase_rows_def)
  next
    case (CommandOutput cmd out)
    with ih have "phase_rows text_of ?cp (es @ [e]) (ledger_step text_of e ?l) old rows"
      by (auto simp: phase_rows_def calls_made_snoc record_command_output_def Let_def)
    then show ?thesis unfolding step by blast
  next
    case GateJudged
    with ih have "phase_rows text_of ?cp (es @ [e]) (ledger_step text_of e ?l) old rows"
      by (auto simp: phase_rows_def calls_made_snoc mark_gate_checkpoint_def)
    then show ?thesis unfolding step by blast
  qed (use snoc.prems in auto)
qed

lemma phase_rows_shown: "phase_rows text_of cp es l old rows \<Longrightarrow> shown_since cp l = rows"
  by (force simp: phase_rows_def shown_since_def filter_empty_conv intro: filter_True)

section \<open>Numbers and outputs\<close>

definition task_outputs :: "ledger_event list \<Rightarrow> string list" where
  "task_outputs es =
     List.map_filter (\<lambda>e. case e of Executed tool params mut err n out \<Rightarrow> Some out | _ \<Rightarrow> None)
       (rev (takeWhile (\<lambda>e. e \<noteq> TaskBegun) (rev es)))"

lemma task_outputs_snoc:
  "task_outputs (es @ [e]) =
     (case e of TaskBegun \<Rightarrow> [] | Executed tool params mut err n out \<Rightarrow> task_outputs es @ [out] | _ \<Rightarrow> task_outputs es)"
  by (cases e) (simp_all add: task_outputs_def List.map_filter_def)

definition kept_output :: "string \<Rightarrow> string" where
  "kept_output out = (if CITATION_GROUNDS_CHARS < count_chars out then take_chars CITATION_GROUNDS_CHARS out else out)"

definition grounds_of :: "string list \<Rightarrow> (nat \<times> string) set" where
  "grounds_of outs = {(i, kept_output (outs ! i)) | i. i < length outs}"

lemma grounds_of_snoc: "grounds_of outs \<union> {(length outs, kept_output out)} \<subseteq> grounds_of (outs @ [out])"
  by (auto simp: grounds_of_def nth_append)

lemma evict_grounds_subset: "set (snd (evict_grounds chars gs)) \<subseteq> set gs"
  by (induction chars gs rule: evict_grounds.induct) auto

lemma record_ground_subset: "set (el_grounds (record_ground n out l)) \<subseteq> set (el_grounds l) \<union> {(n, kept_output out)}"
  using evict_grounds_subset[of "el_ground_chars l + count_chars (kept_output out)" "el_grounds l @ [(n, kept_output out)]"]
  by (auto simp: record_ground_def kept_output_def Let_def split: prod.splits)

lemma grounds_history:
  "length es \<le> usize_max \<Longrightarrow>
     el_next_sequence (ledger_run text_of es) = length (task_outputs es) \<and>
     set (el_grounds (ledger_run text_of es)) \<subseteq> grounds_of (task_outputs es)"
proof (induction es rule: rev_induct)
  case Nil
  then show ?case by (simp add: ledger_run_Nil new_ledger_def task_outputs_def List.map_filter_def)
next
  case (snoc e es)
  let ?l = "ledger_run text_of es"
  have ih: "el_next_sequence ?l = length (task_outputs es)" "set (el_grounds ?l) \<subseteq> grounds_of (task_outputs es)"
    using snoc by auto
  show ?case
  proof (cases e)
    case (Executed tool params mut err n out)
    obtain seq l' where r: "record_call text_of tool params mut err n ?l = (seq, l')" by fastforce
    note frame = record_call_frame[OF r]
    have "el_next_sequence ?l < usize_max" using ledger_next_le[of text_of es] snoc.prems by simp
    then have next_l': "el_next_sequence l' = Suc (length (task_outputs es))" using frame(8) ih(1) next_seq_small by simp
    have "set (el_grounds (record_ground seq out l')) \<subseteq> grounds_of (task_outputs es @ [out])"
      using record_ground_subset[of seq out l'] grounds_of_snoc[of "task_outputs es" out] ih frame(1,7) by auto
    with next_l' Executed r show ?thesis by (simp add: ledger_run_snoc task_outputs_snoc)
  next
    case (CommandOutput cmd out)
    with ih show ?thesis by (simp add: ledger_run_snoc task_outputs_snoc record_command_output_def Let_def)
  next
    case PhaseBegun
    with ih show ?thesis by (simp add: ledger_run_snoc task_outputs_snoc begin_phase_def)
  next
    case GateJudged
    with ih show ?thesis by (simp add: ledger_run_snoc task_outputs_snoc mark_gate_checkpoint_def)
  next
    case TaskBegun
    then show ?thesis by (simp add: ledger_run_snoc task_outputs_snoc ledger_reset_def grounds_of_def)
  qed
qed

section \<open>The properties\<close>

text \<open>
  The evidence ledger stays bounded and truthful in every session of fewer than 2 ^ 64 events: at most 128 rows,
  16 paths, 3 commands and 512,000 characters of output; the rows are in the order of their calls, every number
  is below the next one, and the latest call is always the last row.
\<close>

theorem ledger_invariant:
  assumes "length es \<le> usize_max"
  shows "ledger_ok (ledger_run text_of es)"
  using assms by (rule ledger_run_ok)

theorem ledger_invariant_witness:
  "ledger_ok (ledger_run (\<lambda>_. ''{}'') [Executed ''shell'' JNull False False 4 ''done'', PhaseBegun,
     Executed ''shell'' JNull False False 4 ''done'', GateJudged])"
  by (rule ledger_invariant) (simp add: usize_max_def)

text \<open>
  A plan phase sees exactly its own calls: for a phase with at most 128 calls, the rows shown since its
  boundary count every call of the phase, by tool, arguments and outcome, as often as it was made, and no call from before.
\<close>

theorem phase_shows_its_calls:
  assumes "\<forall>e\<in>set es. e \<noteq> PhaseBegun \<and> e \<noteq> TaskBegun" and "length (filter is_executed es) \<le> LEDGER_CAP"
    and "length (before @ PhaseBegun # es) \<le> usize_max"
  shows "calls_shown tool args err
           (shown_since (fst (begin_phase (ledger_run text_of before))) (ledger_run text_of (before @ PhaseBegun # es))) =
         calls_made text_of tool args err es"
proof -
  from phase_rows_run[OF assms] obtain old rows where p:
    "phase_rows text_of (el_next_sequence (ledger_run text_of before)) es (ledger_run text_of (before @ PhaseBegun # es)) old rows"
    by blast
  from phase_rows_shown[OF p] p show ?thesis by (simp add: begin_phase_def phase_rows_def)
qed

theorem phase_shows_its_calls_witness:
  "calls_shown ''shell'' ''{}'' False
     (shown_since (fst (begin_phase (ledger_run (\<lambda>_. ''{}'') [Executed ''shell'' JNull False False 4 ''ok''])))
       (ledger_run (\<lambda>_. ''{}'') ([Executed ''shell'' JNull False False 4 ''ok''] @ PhaseBegun #
          [Executed ''shell'' JNull False False 4 ''ok'', Executed ''shell'' JNull False False 4 ''ok'']))) = 2"
  by (subst phase_shows_its_calls) (simp_all add: LEDGER_CAP_def usize_max_def calls_made_def ledger_args_def
    LEDGER_ARGS_MAX_def count_chars_def)

text \<open>
  A readback returns what the call returned: the output kept under a number is the output, cut to 512,000
  characters, of the call with that number in the current task.
\<close>

theorem readback_is_the_calls_output:
  assumes "length es \<le> usize_max" and "map_of (el_grounds (ledger_run text_of es)) i = Some out"
  shows "i < length (task_outputs es) \<and> out = kept_output (task_outputs es ! i)"
  using grounds_history[OF assms(1), of text_of] map_of_SomeD[OF assms(2)] by (auto simp: grounds_of_def)

theorem readback_is_the_calls_output_witness:
  "''second'' = kept_output (task_outputs [TaskBegun, Executed ''a'' JNull False False 5 ''first'',
     Executed ''b'' JNull False False 6 ''second''] ! 1)"
proof -
  let ?es = "[TaskBegun, Executed ''a'' JNull False False 5 ''first'', Executed ''b'' JNull False False 6 ''second'']"
  have "map_of (el_grounds (ledger_run (\<lambda>_. ''{}'') ?es)) 1 = Some ''second''"
    by (simp add: ledger_run_def new_ledger_def ledger_reset_def record_call_def Let_def ledger_args_def count_chars_def
        LEDGER_ARGS_MAX_def collapses_def LEDGER_CAP_def record_ground_def CITATION_GROUNDS_CHARS_def next_seq_def
        usize_max_def is_continuation_def)
  then show ?thesis using readback_is_the_calls_output[of ?es "\<lambda>_. ''{}''" 1 "''second''"] by (simp add: usize_max_def)
qed

text \<open>
  The number of dropped rows is shown as a number of actions: when a row that stands for two calls is dropped, two
  actions are gone and one is reported.
\<close>

lemma dropped_rows_not_actions:
  assumes "el_entries l = e # es" "length es = 127" "le_repeats e = 2" "el_dropped l = 0"
    and "le_error (last (e # es))" "record_call text_of tool params mut err n l = (seq, l')"
  shows "el_dropped l' = 1 \<and> sum_list (map le_repeats (el_entries l')) = sum_list (map le_repeats (el_entries l)) - 2 + 1"
  using assms by (auto simp: record_call_def Let_def collapses_def LEDGER_CAP_def)

end
