(* ===== verification/ResolveCorrect.thy ===== *)
theory ResolveCorrect
  imports Resolve
begin

text \<open>
  The resolution of a turn: it never invents a request, its evidence is quoted, and the verification policy
  changes only on the user's words.
\<close>

section \<open>Quoted evidence\<close>

definition evidence_quoted :: "task_context \<Rightarrow> resolution_evidence \<Rightarrow> bool" where
  "evidence_quoted c e \<longleftrightarrow> (case haystack_of c (re_source e) of Some h \<Rightarrow> quotes (re_excerpt e) h | None \<Rightarrow> False)"

lemma verified_evidence_quoted:
  assumes "verified_evidence c es sources kept = (sources', kept')"
    and "\<forall>e\<in>set kept. evidence_quoted c e" and "sources \<noteq> [] \<longrightarrow> kept \<noteq> []"
  shows "(\<forall>e\<in>set kept'. evidence_quoted c e) \<and> (sources' \<noteq> [] \<longrightarrow> kept' \<noteq> [])"
  using assms
proof (induction c es sources kept rule: verified_evidence.induct)
  case (2 c e es sources kept)
  let ?e = "\<lparr>re_source = trim (re_source e), re_excerpt = trim (re_excerpt e)\<rparr>"
  show ?case
  proof (cases "haystack_of c (trim (re_source e))")
    case None
    with 2(1)[OF refl refl] "2.prems" show ?thesis by (simp add: Let_def)
  next
    case (Some h)
    show ?thesis
    proof (cases "quotes (trim (re_excerpt e)) h")
      case True
      have k: "\<forall>x\<in>set (add_once ?e kept). evidence_quoted c x" "add_once ?e kept \<noteq> []"
        using "2.prems"(2) Some True by (auto simp: add_once_def evidence_quoted_def)
      have v: "verified_evidence c es (add_once (trim (re_source e)) sources) (add_once ?e kept) = (sources', kept')"
        using "2.prems"(1) Some True by (simp add: Let_def)
      show ?thesis using 2(2)[OF refl refl Some True v k(1)] k(2) by blast
    next
      case False
      with 2(3)[OF refl refl Some] "2.prems" Some show ?thesis by (simp add: Let_def)
    qed
  qed
qed simp

section \<open>The shape of a resolution\<close>

definition grounded :: "task_context \<Rightarrow> resolved_task \<Rightarrow> bool" where
  "grounded c t \<longleftrightarrow> rt_original_request t = tc_current_request c \<and>
     (if rt_scope t = FollowUp
      then rt_resolution_evidence t \<noteq> [] \<and> (\<forall>e\<in>set (rt_resolution_evidence t). evidence_quoted c e)
      else rt_resolved_request t = tc_current_request c \<and> rt_resolution_evidence t = [])"

lemma grounded_literal:
  "grounded c (self_contained (tc_current_request c))"
  "grounded c ((self_contained (tc_current_request c))\<lparr>rt_plan_at_turn_start := p\<rparr>)"
  "grounded c (ambiguous (tc_current_request c) p)"
  by (simp_all add: grounded_def self_contained_def ambiguous_def)

lemma grounded_with_verdict: "grounded c t \<Longrightarrow> grounded c (with_verdict v t)"
  by (simp add: grounded_def with_verdict_def)

lemma grounded_output: "grounded c (resolution_of_output c p)"
proof -
  obtain sources evidence where v: "verified_evidence c (ro_evidence p) [] [] = (sources, evidence)" by fastforce
  from verified_evidence_quoted[OF v] show ?thesis
    using grounded_literal(3) by (auto simp: resolution_of_output_def grounded_def v Let_def)
qed

lemma grounded_parse: "parse_resolution env c response = Inr t \<Longrightarrow> grounded c t"
  using grounded_literal(3) grounded_output
  by (auto simp: parse_resolution_def split: json_slice.splits option.splits)

lemma resolve_grounded: "resolve env c = Inr t \<Longrightarrow> grounded c t"
  using grounded_literal
  by (auto simp: resolve_def Let_def ok_simps intro!: grounded_with_verdict dest: grounded_parse
      split: if_splits sum.splits)

section \<open>The verification policy\<close>

definition user_said :: "task_context \<Rightarrow> string \<Rightarrow> bool" where
  "user_said c evidence \<longleftrightarrow>
     quotes evidence (tc_current_request c) \<or>
     tc_verification_policy c = Unspecified \<and> (\<exists>turn\<in>set (tc_recent_user_policy_context c). quotes evidence turn)"

lemma validated_update:
  "cv_verification_policy_update (validate_policy_update c v) \<noteq> Unchanged \<Longrightarrow> \<exists>evidence. user_said c evidence"
  by (auto simp: validate_policy_update_def user_said_def list_ex_iff Let_def split: if_splits)

lemma literal_unchanged:
  "rt_verification_policy_update (self_contained r) = Unchanged"
  "rt_verification_policy_update (with_verdict v t) = cv_verification_policy_update v"
  by (simp_all add: self_contained_def with_verdict_def)

lemma resolve_policy:
  assumes "resolve env c = Inr t" and "rt_verification_policy_update t \<noteq> Unchanged"
  shows "\<exists>evidence. user_said c evidence"
  using assms by (auto simp: resolve_def Let_def ok_simps literal_unchanged split: if_splits sum.splits dest: validated_update)

text \<open>The policy after a session's updates, oldest first.\<close>

definition policy_after :: "verification_policy_update list \<Rightarrow> verification_policy \<Rightarrow> verification_policy" where
  "policy_after us p = fold (\<lambda>u p. snd (policy_apply u p)) us p"

definition explicit_updates :: "verification_policy_update list \<Rightarrow> verification_policy_update list" where
  "explicit_updates us = filter (\<lambda>u. u \<noteq> Unchanged) us"

lemma policy_history:
  "policy_after us Unspecified =
     (if Forbid \<notin> set us then Unspecified
      else if last (explicit_updates us) = Forbid then Forbidden else Allowed)"
proof (induction us rule: rev_induct)
  case Nil
  then show ?case by (simp add: policy_after_def)
next
  case (snoc u us)
  have step: "policy_after (us @ [u]) Unspecified = snd (policy_apply u (policy_after us Unspecified))"
    by (simp add: policy_after_def)
  have "last (explicit_updates us) \<noteq> Unchanged" if "Forbid \<in> set us"
  proof -
    from that have "Forbid \<in> set (explicit_updates us)" by (simp add: explicit_updates_def)
    then have "explicit_updates us \<noteq> []" by auto
    then have "last (explicit_updates us) \<in> set (explicit_updates us)" by simp
    then show ?thesis by (simp add: explicit_updates_def)
  qed
  then show ?case
    unfolding step snoc by (cases u) (auto simp: policy_apply_def Let_def explicit_updates_def)
qed

section \<open>The properties\<close>

text \<open>
  C16. A resolution never invents a request: the literal request of the user is kept, a turn that is not a follow-up
  is resolved to exactly it, and a follow-up is backed by at least one excerpt, each quoted verbatim from the
  part of the context it names; whatever the model answers.
\<close>

theorem resolution_is_grounded:
  assumes "resolve env c = Inr t"
  shows "grounded c t"
  using assms by (rule resolve_grounded)

definition silent_model :: resolve_env where
  "silent_model = \<lparr>rv_text_of = \<lambda>_. [], rv_classifier_of = \<lambda>_. None, rv_resolver_of = \<lambda>_. None,
     rv_ask = \<lambda>_ _. Inl ''unavailable''\<rparr>"

definition small_context :: task_context where
  "small_context = \<lparr>tc_current_request = ''do not run the tests'', tc_recent_history = [], tc_session_context = [],
     tc_active_plan = [], tc_role_context = [], tc_verification_policy = Unspecified,
     tc_recent_user_policy_context = []\<rparr>"

theorem resolution_is_grounded_witness:
  "grounded small_context ((self_contained ''do not run the tests'')\<lparr>rt_plan_at_turn_start := []\<rparr>)"
proof (rule resolution_is_grounded)
  show "resolve silent_model small_context = Inr ((self_contained ''do not run the tests'')\<lparr>rt_plan_at_turn_start := []\<rparr>)"
    by (simp add: resolve_def silent_model_def small_context_def is_blank_def trim_printable visible_def)
qed

text \<open>
  The verification policy changes only on the user's words: an update other than \<open>Unchanged\<close> comes with an
  excerpt of at most 500 characters found verbatim in the current request, or, while no policy is set, in an
  earlier genuine user turn; never in the role instructions.
\<close>

theorem policy_update_is_quoted:
  assumes "resolve env c = Inr t" and "rt_verification_policy_update t \<noteq> Unchanged"
  shows "\<exists>evidence. user_said c evidence"
  using assms by (rule resolve_policy)

definition forbidding_model :: resolve_env where
  "forbidding_model = \<lparr>rv_text_of = \<lambda>_. [],
     rv_classifier_of = \<lambda>_. Some \<lparr>co_scope = ''self_contained'', co_forbids_verification = True,
       co_verification_policy_update = ''forbid'', co_verification_policy_evidence = ''do not run the tests'',
       co_answer_only = False, co_conditions = [], co_operational_constraints = []\<rparr>,
     rv_resolver_of = \<lambda>_. None, rv_ask = \<lambda>_ _. Inr ''{}''\<rparr>"

theorem policy_update_is_quoted_witness: "\<exists>evidence. user_said small_context evidence"
proof (rule policy_update_is_quoted)
  have o: "object_slice ''{}'' = Object ''{}''" by code_simp
  show "resolve forbidding_model small_context = Inr (with_verdict
      (verdict_of_output (the (rv_classifier_of forbidding_model [])))
      ((self_contained ''do not run the tests'')\<lparr>rt_plan_at_turn_start := []\<rparr>))"
    by (simp add: resolve_def forbidding_model_def small_context_def is_blank_def trim_printable visible_def classify_def
        parse_classifier_checked_def o verdict_of_output_def to_lower_def lower_char_def validate_policy_update_def
        quotes_def count_chars_def is_continuation_def RESOLUTION_EVIDENCE_CHARS_def str_contains_def Let_def)
  show "rt_verification_policy_update (with_verdict (verdict_of_output (the (rv_classifier_of forbidding_model [])))
      ((self_contained ''do not run the tests'')\<lparr>rt_plan_at_turn_start := []\<rparr>)) \<noteq> Unchanged"
    by (simp add: literal_unchanged forbidding_model_def verdict_of_output_def to_lower_def lower_char_def
        trim_printable visible_def Let_def)
qed

text \<open>
  Permission is only ever a revocation: over all updates of a session, the policy is unspecified until the
  user forbids verification for the first time, and afterwards the latest explicit update decides.
\<close>

theorem policy_is_latest_update:
  "policy_after us Unspecified =
     (if Forbid \<notin> set us then Unspecified
      else if last (explicit_updates us) = Forbid then Forbidden else Allowed)"
  by (rule policy_history)

text \<open>
  The slice between the first opening and the last closing brace of an answer panics when they are in the wrong
  order, although a parse failure is meant to fall back to the literal request.
\<close>

lemma braces_out_of_order_panic:
  assumes "rv_ask env ClassifierPrompt (render_classification_payload (rv_text_of env) c) = Inr ''} or {''"
    and "\<not> is_blank (tc_current_request c)"
  shows "resolve env c = Inl ()"
proof -
  have "object_slice ''} or {'' = SlicePanics" by code_simp
  with assms show ?thesis by (simp add: resolve_def classify_def parse_classifier_checked_def Let_def)
qed

end
