(* ===== verification/CompletionCorrect.thy ===== *)
theory CompletionCorrect
  imports Completion DetectCorrect GateCorrect LedgerCorrect ResolveCorrect
begin

text \<open>
  The supervised turn: a round of tool calls is a sequence of detector and ledger events, so what holds of all
  histories of events holds of all sessions; steering backs off; and an end of turn is never a silent acceptance.
\<close>

section \<open>A round as events\<close>

definition round_limits :: detect_limits where
  "round_limits = \<lparr>dl_loop = LOOP_THRESHOLD, dl_no_progress = NO_PROGRESS_WINDOW, dl_recovery = NO_PROGRESS_WINDOW\<rparr>"

definition call_events :: "round_env \<Rightarrow> call_result list \<Rightarrow> tool_call \<Rightarrow> detector_event list" where
  "call_events env results call =
     (let (content, is_error) = result_of results call;
          is_mutation = is_mutation_call (rd_detect env) (ca_name call) (ca_parameters call)
      in CallSeen (ca_name call) content is_error is_mutation #
         (if \<not> is_error \<and> is_mutation then [MutationSeen (ca_parameters call)] else []))"

definition call_recorded :: "round_env \<Rightarrow> call_result list \<Rightarrow> tool_call \<Rightarrow> ledger_event list" where
  "call_recorded env results call =
     (let (content, is_error) = result_of results call; dv = rd_detect env;
          tool = ca_name call; parameters = ca_parameters call
      in Executed tool parameters (is_mutation_call dv tool parameters) is_error (length content) content #
         (if is_verifier_shaped dv tool parameters \<and> \<not> is_error
          then [CommandOutput (case str_field ''command'' parameters of Some c \<Rightarrow> c | None \<Rightarrow> []) content] else []))"

abbreviation detect_all :: "round_env \<Rightarrow> detector_event list \<Rightarrow> detectors \<Rightarrow> detectors" where
  "detect_all env \<equiv> fold (detect_step (rd_detect env) round_limits)"

abbreviation record_all :: "round_env \<Rightarrow> ledger_event list \<Rightarrow> evidence_ledger \<Rightarrow> evidence_ledger" where
  "record_all env \<equiv> fold (ledger_step (rd_text_of env))"

lemma fold_call_events:
  assumes "fold_call env results call ((l, d), acc) = ((l', d'), acc')"
  shows "d' = detect_all env (call_events env results call) d \<and> l' = record_all env (call_recorded env results call) l"
  using assms
  by (auto simp: fold_call_def call_events_def call_recorded_def Let_def split: prod.splits if_splits)

lemma fold_calls_events:
  assumes "fold (fold_call env results) calls ((l, d), acc) = ((l', d'), acc')"
  shows "d' = detect_all env (concat (map (call_events env results) calls)) d \<and>
    l' = record_all env (concat (map (call_recorded env results) calls)) l"
  using assms
proof (induction calls arbitrary: l d acc)
  case (Cons call calls)
  obtain l1 d1 acc1 where c: "fold_call env results call ((l, d), acc) = ((l1, d1), acc1)" by (metis prod.exhaust)
  with Cons show ?case using fold_call_events[OF c] by simp
qed simp

text \<open>What the round gathered, as a function of the state it started in.\<close>

definition gathered :: "round_env \<Rightarrow> tool_call list \<Rightarrow> call_result list \<Rightarrow> supervision \<Rightarrow> round_acc" where
  "gathered env calls results s = snd (fold (fold_call env results) calls ((su_evidence s, su_detectors s), empty_acc))"

definition round_events :: "round_env \<Rightarrow> tool_call list \<Rightarrow> call_result list \<Rightarrow> supervision \<Rightarrow> detector_event list" where
  "round_events env calls results s =
     (let acc = gathered env calls results s
      in concat (map (call_events env results) calls) @
         (if rd_track env then [RoundVerified (round_facts_of env (fst (take_handback (su_handback s))) acc)] else []) @
         [RoundSeen (ra_hashes acc) (ra_novel acc), OutcomesSeen (ra_outcomes acc)])"

lemma supervise_round_events:
  "su_detectors (supervise_round env calls results s) = detect_all env (round_events env calls results s) (su_detectors s)"
proof -
  obtain l d acc where f: "fold (fold_call env results) calls ((su_evidence s, su_detectors s), empty_acc) = ((l, d), acc)"
    by (metis prod.exhaust)
  with fold_calls_events[OF f] show ?thesis
    by (simp add: supervise_round_def round_events_def gathered_def round_limits_def take_handback_def Let_def
        split: prod.splits)
qed

lemma supervise_round_ledger:
  "su_evidence (supervise_round env calls results s) =
     record_all env (concat (map (call_recorded env results) calls)) (su_evidence s)"
proof -
  obtain l d acc where f: "fold (fold_call env results) calls ((su_evidence s, su_detectors s), empty_acc) = ((l, d), acc)"
    by (metis prod.exhaust)
  with fold_calls_events[OF f] show ?thesis
    by (simp add: supervise_round_def take_handback_def Let_def split: prod.splits)
qed

section \<open>Steering\<close>

text \<open>The state after the same signal and the same calls in \<open>n\<close> rounds, the queued note taken before each.\<close>

definition steer_again :: "detector_signal \<Rightarrow> self_report option \<Rightarrow> u64 \<Rightarrow> steering \<Rightarrow> steering" where
  "steer_again signal report calls_hash sg = steer_round signal report calls_hash (snd (take_steer sg))"

definition emitted_at :: "nat \<Rightarrow> bool" where
  "emitted_at n \<longleftrightarrow> n < PERSISTENT_ATTEMPT \<or> is_power_of_two (n - PERSISTENT_ATTEMPT + 1)"

lemma steer_first:
  assumes "should_steer signal report" "sg_last_signal sg \<noteq> signal"
  shows "steer_again signal report h sg =
    \<lparr>sg_attempt = 0, sg_last_signal = signal, sg_last_calls = Some h, sg_pending = Some (steer_note signal report 0)\<rparr>"
  using assms by (cases sg) (simp add: steer_again_def steer_round_def take_steer_def Let_def PERSISTENT_ATTEMPT_def)

lemma steer_next:
  assumes "should_steer signal report" "sg_last_signal sg = signal" "sg_last_calls sg = Some h"
  shows "steer_again signal report h sg =
    \<lparr>sg_attempt = Suc (sg_attempt sg), sg_last_signal = signal, sg_last_calls = Some h,
     sg_pending = (if emitted_at (Suc (sg_attempt sg)) then Some (steer_note signal report (Suc (sg_attempt sg))) else None)\<rparr>"
  using assms by (cases sg) (auto simp: steer_again_def steer_round_def take_steer_def Let_def emitted_at_def)

lemma steer_repeated:
  assumes "should_steer signal report" "sg_last_signal sg \<noteq> signal"
  shows "((steer_again signal report h) ^^ Suc n) sg =
    \<lparr>sg_attempt = n, sg_last_signal = signal, sg_last_calls = Some h,
     sg_pending = (if emitted_at n then Some (steer_note signal report n) else None)\<rparr>"
proof (induction n)
  case 0
  then show ?case using steer_first[OF assms] by (simp add: emitted_at_def PERSISTENT_ATTEMPT_def)
next
  case (Suc n)
  have "((steer_again signal report h) ^^ Suc (Suc n)) sg = steer_again signal report h (((steer_again signal report h) ^^ Suc n) sg)"
    by simp
  then show ?case unfolding Suc.IH using assms(1) by (simp add: steer_next)
qed

section \<open>The end of a turn\<close>

definition budget_left :: "'x completion_state \<Rightarrow> nat" where
  "budget_left s = (2 - unat (cs_gate_iterations s)) + (2 - unat (cs_nudge_iterations s))"

lemma unat_inc_small: "n < (2 :: u8) \<Longrightarrow> unat (n + 1) = unat n + 1"
  by (simp add: word_less_nat_alt unat_word_ariths)

lemma saturating_inc_less:
  assumes "saturating_inc n < 2"
  shows "n < 2 \<and> saturating_inc n = n + 1"
proof -
  from assms have n: "n \<noteq> 255" by (auto simp: saturating_inc_def)
  then have "unat n \<noteq> 255" using word_unat_eq_iff[of n 255] by simp
  moreover have "unat n < 2 ^ LENGTH(8)" by (rule unsigned_less)
  ultimately have "unat (n + 1) = unat n + 1" by (simp add: unat_word_ariths)
  with assms n show ?thesis by (simp add: saturating_inc_def word_less_nat_alt)
qed

lemma message_frame [simp]:
  "cs_gate_iterations (add_system_managed_user_message now t s) = cs_gate_iterations s"
  "cs_nudge_iterations (add_system_managed_user_message now t s) = cs_nudge_iterations s"
  "cs_gate_failed (add_system_managed_user_message now t s) = cs_gate_failed s"
  "cs_outcome (add_system_managed_user_message now t s) = cs_outcome s"
  by (simp_all add: add_system_managed_user_message_def)

lemma report_frame [simp]:
  "cs_gate_iterations (clear_report s) = cs_gate_iterations s"
  "cs_nudge_iterations (clear_report s) = cs_nudge_iterations s"
  "cs_gate_failed (clear_report s) = cs_gate_failed s" "cs_outcome (clear_report s) = cs_outcome s"
  by (simp_all add: clear_report_def)

lemma mark_frame [simp]:
  "cs_gate_iterations (mark_gate s) = cs_gate_iterations s" "cs_nudge_iterations (mark_gate s) = cs_nudge_iterations s"
  "cs_gate_failed (mark_gate s) = cs_gate_failed s" "cs_outcome (mark_gate s) = cs_outcome s"
  by (simp_all add: mark_gate_def)

lemma fail_frame [simp]:
  "cs_gate_iterations (fail_gate s) = cs_gate_iterations s" "cs_nudge_iterations (fail_gate s) = cs_nudge_iterations s"
  "cs_gate_failed (fail_gate s)" "cs_outcome (fail_gate s) = FailedOutcome"
  by (simp_all add: fail_gate_def)

lemmas gate_branches = run_gate_def on_pass_def on_gaps_def on_indeterminate_def unverified_reentry_def Let_def

lemma rerun_spends:
  assumes "completion_check env s = (Rerun, s')"
  shows "budget_left s' < budget_left s"
proof -
  have m: "MAX_ITERATIONS = 2" by (simp add: MAX_ITERATIONS_def)
  consider (handback) "unfinished_handback env s" | (free) "\<not> unfinished_handback env s" "gated_claim env s"
      "free_check_applies env (task_of env s) s"
    | (gate) "\<not> unfinished_handback env s" "gated_claim env s" "\<not> free_check_applies env (task_of env s) s"
    using assms by (auto simp: completion_check_def split: if_splits)
  then show ?thesis
  proof cases
    case handback
    then have "cs_nudge_iterations s < 2" by (simp add: unfinished_handback_def m)
    moreover have "cs_nudge_iterations s' = cs_nudge_iterations s + 1" "cs_gate_iterations s' = cs_gate_iterations s"
      using assms handback by (auto simp: completion_check_def)
    ultimately show ?thesis by (simp add: budget_left_def unat_inc_small word_less_nat_alt)
  next
    case free
    then have f: "free_check env s = (Rerun, s')" using assms by (simp add: completion_check_def)
    then have "saturating_inc (cs_nudge_iterations s) < 2" by (auto simp: free_check_def Let_def m split: if_splits)
    then have n: "cs_nudge_iterations s < 2" "saturating_inc (cs_nudge_iterations s) = cs_nudge_iterations s + 1"
      using saturating_inc_less by blast+
    have "cs_nudge_iterations s' = cs_nudge_iterations s + 1" "cs_gate_iterations s' = cs_gate_iterations s"
      using f n by (auto simp: free_check_def Let_def split: if_splits)
    with n show ?thesis by (simp add: budget_left_def unat_inc_small word_less_nat_alt)
  next
    case gate
    then have f: "run_gate env (task_of env s) s = (Rerun, s')" using assms by (simp add: completion_check_def)
    from gate have "cs_gate_iterations s < 2" by (simp add: gated_claim_def m)
    moreover have "cs_gate_iterations s' = cs_gate_iterations s + 1" "cs_nudge_iterations s' = cs_nudge_iterations s"
      using f by (auto simp: gate_branches split: gate_verdict.splits if_splits)
    ultimately show ?thesis by (simp add: budget_left_def unat_inc_small word_less_nat_alt)
  qed
qed

text \<open>
  A turn: the ends of turn as long as each of them runs the turn again; between two of them the model and its
  tools change the state, but not the two budgets, unless the planner advances the plan (\<open>Planner\<close>), which
  recharges the budget of the free checks.
\<close>

type_synonym 'x activity = "completion_env \<times> bool \<times> ('x completion_state \<Rightarrow> 'x completion_state)"

fun reruns :: "'x activity list \<Rightarrow> 'x completion_state \<Rightarrow> nat" where
  "reruns [] s = 0"
| "reruns ((env, advanced, act) # rest) s =
     (case completion_check env (act s) of
        (Rerun, s') \<Rightarrow> Suc (reruns rest s')
      | _ \<Rightarrow> 0)"

definition keeps_budget :: "bool \<Rightarrow> ('x completion_state \<Rightarrow> 'x completion_state) \<Rightarrow> bool" where
  "keeps_budget advanced act \<longleftrightarrow>
     (\<forall>s. cs_gate_iterations (act s) = cs_gate_iterations s \<and>
       (cs_nudge_iterations (act s) = cs_nudge_iterations s \<or> advanced \<and> cs_nudge_iterations (act s) = 0))"

lemma budget_after_activity: "keeps_budget advanced act \<Longrightarrow> budget_left (act s) \<le> budget_left s + (if advanced then 2 else 0)"
  by (auto simp: keeps_budget_def budget_left_def dest: spec[of _ s])

lemma reruns_within_budget:
  assumes "\<forall>(env, advanced, act)\<in>set as. keeps_budget advanced act"
  shows "reruns as s \<le> budget_left s + 2 * length (filter (\<lambda>(env, advanced, act). advanced) as)"
  using assms
proof (induction as arbitrary: s)
  case (Cons a as)
  obtain env advanced act where a: "a = (env, advanced, act)" by (metis prod.exhaust)
  obtain r s' where c: "completion_check env (act s) = (r, s')" by force
  have b: "budget_left (act s) \<le> budget_left s + (if advanced then 2 else 0)"
    using Cons.prems a by (intro budget_after_activity) simp
  show ?case
  proof (cases r)
    case Rerun
    then show ?thesis using rerun_spends[of env "act s" s'] c b Cons.IH[of s'] Cons.prems a by (cases advanced) force+
  qed (use a c in simp_all)
qed simp

lemma claim_outcome:
  assumes "gated_claim env s" and "\<not> unfinished_handback env s" and "completion_check env s = (r, s')" and "r \<noteq> Rerun"
  shows "cs_gate_failed s' \<or> cs_outcome s' = VerifiedOutcome"
  using assms by (auto simp: completion_check_def free_check_def gate_branches split: gate_verdict.splits if_splits option.splits)

lemma verified_by_pass:
  assumes "completion_check env s = (r, s')" and "cs_outcome s' = VerifiedOutcome" and "cs_outcome s \<noteq> VerifiedOutcome"
  shows "gated_claim env s \<and> \<not> free_check_applies env (task_of env s) s \<and>
    ce_verify env (gate_input_of env (task_of env s) s) = Pass"
  using assms
  by (auto simp: completion_check_def free_check_def gate_branches split: gate_verdict.splits if_splits option.splits)

section \<open>The properties\<close>

text \<open>
  Steering backs off and never stops: when the same signal fires in round after round while the model repeats the
  same calls, notes are queued in the rounds 0, 1, 2 and then exactly in those whose distance to the end of the
  ladder is a power of two.
\<close>

theorem steering_backs_off:
  assumes "should_steer signal report" and "sg_last_signal sg \<noteq> signal"
  shows "sg_pending (((steer_again signal report calls_hash) ^^ Suc n) sg) =
    (if n < 3 \<or> is_power_of_two (n - 2) then Some (steer_note signal report n) else None)"
proof -
  have "emitted_at n \<longleftrightarrow> n < 3 \<or> is_power_of_two (n - 2)"
  proof (cases "n < 3")
    case False
    then have "n - 3 + 1 = n - 2" by simp
    with False show ?thesis by (simp add: emitted_at_def PERSISTENT_ATTEMPT_def)
  qed (simp add: emitted_at_def PERSISTENT_ATTEMPT_def)
  with steer_repeated[OF assms, where n = n and h = calls_hash] show ?thesis by simp
qed

theorem steering_backs_off_witness:
  "sg_pending (((steer_again Loop None 7) ^^ Suc 5) no_steering) = None \<and>
   sg_pending (((steer_again Loop None 7) ^^ Suc 6) no_steering) = Some (steer_note Loop None 6)"
proof -
  have s: "should_steer Loop None" "sg_last_signal no_steering \<noteq> Loop" by (simp_all add: should_steer_def no_steering_def)
  have "2 ^ k \<noteq> (3 :: nat)" for k
  proof (cases k)
    case (Suc j)
    have "2 * m \<noteq> (3 :: nat)" for m by presburger
    with Suc show ?thesis by simp
  qed simp
  then have "\<not> is_power_of_two 3" by (simp add: is_power_of_two_def list_ex_iff)
  moreover have "is_power_of_two 4" unfolding is_power_of_two_def list_ex_iff by (intro bexI[of _ 2]) simp_all
  ultimately have five: "(5 :: nat) < 3 \<or> is_power_of_two (5 - 2) \<longleftrightarrow> False"
    and six: "(6 :: nat) < 3 \<or> is_power_of_two (6 - 2) \<longleftrightarrow> True"
    by simp_all
  show ?thesis
    unfolding steering_backs_off[OF s] five six if_True if_False by blast
qed

text \<open>
  C18. The gate cannot loop: however the model and its tools behave between them, the ends of a turn run it again at
  most as often as the two budgets have left (four times at the start), and twice more for each time the planner
  advances the plan in between.
\<close>

theorem gate_reruns_bounded:
  assumes "\<forall>(env, advanced, act)\<in>set as. keeps_budget advanced act"
  shows "reruns as s \<le> budget_left s + 2 * length (filter (\<lambda>(env, advanced, act). advanced) as)"
  using assms by (rule reruns_within_budget)

definition idle_state :: "unit completion_state" where
  "idle_state = \<lparr>cs_eligible = True,
     cs_supervision = \<lparr>su_detectors = new_detectors, su_evidence = new_ledger, su_steering = no_steering,
       su_handback = no_handback, su_self_report = Some Progressing\<rparr>,
     cs_report_reason = None, cs_gate_task = None, cs_gate_iterations = 0, cs_nudge_iterations = 0, cs_gate_failed = False,
     cs_outcome = UnknownOutcome, cs_last_gaps = [], cs_plan_signal = None, cs_policy = Unspecified, cs_messages = [],
     cs_turn_answers = [], cs_last_response = []\<rparr>"

definition batch_env :: "(gate_input \<Rightarrow> gate_verdict) \<Rightarrow> completion_env" where
  "batch_env judge = \<lparr>ce_now = 0, ce_gate_enabled = True, ce_interactive = False, ce_pending_async = False,
     ce_validators = False, ce_fingerprint = None, ce_live_plan = [],
     ce_git = \<lparr>ge_diff = \<lambda>_. GitAbsent, ge_status = GitAbsent, ge_exists = \<lambda>_. False, ge_read = \<lambda>_. None\<rparr>,
     ce_size_of = \<lambda>_. [], ce_lowercase = \<lambda>s. s, ce_estimate_tokens = length, ce_truncate_tokens = (\<lambda>s n. take n s),
     ce_max_tokens = 100, ce_verify = judge, ce_finalize = \<lambda>_. None\<rparr>"

definition still_working :: "'x completion_state \<Rightarrow> 'x completion_state" where
  "still_working s = s\<lparr>cs_supervision := (cs_supervision s)\<lparr>su_self_report := Some Progressing\<rparr>\<rparr>"

theorem gate_reruns_bounded_witness:
  "reruns (replicate 9 (batch_env (\<lambda>_. Pass), False, still_working)) idle_state \<le> 4"
  using gate_reruns_bounded[of "replicate 9 (batch_env (\<lambda>_. Pass), False, still_working)" idle_state]
  by (simp add: keeps_budget_def still_working_def budget_left_def idle_state_def)

text \<open>
  C10. Completion is never accepted silently: when a claim of completion reaches the gate with budget left and the turn is not
  run again, it ends verified or with the failure label.
\<close>

theorem claim_never_silent:
  assumes "gated_claim env s" and "\<not> unfinished_handback env s" and "completion_check env s = (r, s')" and "r \<noteq> Rerun"
  shows "cs_gate_failed s' \<or> cs_outcome s' = VerifiedOutcome"
  using assms by (rule claim_outcome)

definition claimed_state :: "unit completion_state" where
  "claimed_state = idle_state\<lparr>cs_supervision := (cs_supervision idle_state)\<lparr>su_self_report := Some Done\<rparr>\<rparr>"

lemma claimed_state_gated: "gated_claim (batch_env judge) claimed_state"
  "\<not> unfinished_handback (batch_env judge) claimed_state"
  "\<not> free_check_applies (batch_env judge) t claimed_state"
  by (simp_all add: gated_claim_def unfinished_handback_def free_check_applies_def claimed_state_def idle_state_def batch_env_def
      claims_user_task_completion_def self_report_of_def MAX_ITERATIONS_def debt_def needs_verification_def new_detectors_def)

lemma batch_env_pass: "ce_verify (batch_env (\<lambda>_. Pass)) i = Pass" "ce_finalize (batch_env judge) m = None"
  by (simp_all add: batch_env_def)

lemma claimed_state_passes:
  "completion_check (batch_env (\<lambda>_. Pass)) claimed_state = (r, s') \<Longrightarrow> r = Ended \<and> cs_outcome s' = VerifiedOutcome"
  unfolding completion_check_def by (auto simp: claimed_state_gated gate_branches batch_env_pass)

theorem claim_never_silent_witness:
  "\<exists>r s'. completion_check (batch_env (\<lambda>_. Pass)) claimed_state = (r, s') \<and>
     (cs_gate_failed s' \<or> cs_outcome s' = VerifiedOutcome)"
proof -
  obtain r s' where c: "completion_check (batch_env (\<lambda>_. Pass)) claimed_state = (r, s')" by force
  moreover have "r \<noteq> Rerun" using claimed_state_passes[OF c] by simp
  ultimately show ?thesis using claim_never_silent[OF claimed_state_gated(1,2) c] by blast
qed

text \<open>
  C3. A turn is labelled verified only by a pass: if an end of turn sets that label, a claim of completion was made, the
  free check had nothing to ask for, and the verifier passed exactly the input built from this state.
\<close>

theorem verified_only_by_pass:
  assumes "completion_check env s = (r, s')" and "cs_outcome s' = VerifiedOutcome" and "cs_outcome s \<noteq> VerifiedOutcome"
  shows "gated_claim env s \<and> \<not> free_check_applies env (task_of env s) s \<and>
    ce_verify env (gate_input_of env (task_of env s) s) = Pass"
  using assms by (rule verified_by_pass)

theorem verified_only_by_pass_witness:
  "ce_verify (batch_env (\<lambda>_. Pass)) (gate_input_of (batch_env (\<lambda>_. Pass)) (task_of (batch_env (\<lambda>_. Pass)) claimed_state) claimed_state) = Pass"
proof -
  obtain r s' where c: "completion_check (batch_env (\<lambda>_. Pass)) claimed_state = (r, s')" by force
  have "cs_outcome s' = VerifiedOutcome" using claimed_state_passes[OF c] by simp
  moreover have "cs_outcome claimed_state \<noteq> VerifiedOutcome" by (simp add: claimed_state_def idle_state_def)
  ultimately show ?thesis using verified_only_by_pass[OF c] by blast
qed

text \<open>
  The two nudges share one budget: a turn that was once sent on because it was unfinished fails at its first
  unverified claim of completion, without ever having been asked to verify.
\<close>

lemma shared_nudge_budget:
  assumes "cs_nudge_iterations s = 1"
  shows "free_check env s = (Returned, s\<lparr>cs_nudge_iterations := 2, cs_gate_failed := True, cs_outcome := FailedOutcome,
    cs_plan_signal := None\<rparr>)"
  using assms by (simp add: free_check_def saturating_inc_def MAX_ITERATIONS_def)

end
