(* ===== verification/PlannerCorrect.thy ===== *)
theory PlannerCorrect
  imports Planner PlanCorrect CompletionCorrect
begin

text \<open>
  Properties of the plan manager: what it may change and when, how often it is consulted, what evidence it is shown,
  and what a verified turn does to the plan.
\<close>

section \<open>Frames\<close>

lemma tell_frame [simp]:
  "pn_plan (tell env note s) = pn_plan s" "pn_failed (tell env note s) = pn_failed s"
  "pn_evaluated (tell env note s) = pn_evaluated s" "pn_checkpoint (tell env note s) = pn_checkpoint s"
  "evidence_of (tell env note s) = evidence_of s" "plan_active_in (tell env note s) = plan_active_in s"
  by (simp_all add: tell_def evidence_of_def plan_active_in_def add_system_managed_user_message_def)

lemma tell_session [simp]:
  "cs_supervision (pn_session (tell env note s)) = cs_supervision (pn_session s)"
  "cs_gate_iterations (pn_session (tell env note s)) = cs_gate_iterations (pn_session s)"
  "cs_nudge_iterations (pn_session (tell env note s)) = cs_nudge_iterations (pn_session s)"
  "cs_plan_signal (pn_session (tell env note s)) = cs_plan_signal (pn_session s)"
  by (simp_all add: tell_def add_system_managed_user_message_def)

lemma with_tools_frame [simp]:
  "pn_plan (with_tools env s) = pn_plan s" "pn_failed (with_tools env s) = pn_failed s"
  "pn_evaluated (with_tools env s) = pn_evaluated s" "pn_session (with_tools env s) = pn_session s"
  "pn_checkpoint (with_tools env s) = pn_checkpoint s" "plan_active_in (with_tools env s) = plan_active_in s"
  by (simp_all add: with_tools_def plan_active_in_def)

lemma failure_frame [simp]:
  "pn_plan (note_planner_failure env s) = pn_plan s" "pn_failed (note_planner_failure env s)"
  "pn_evaluated (note_planner_failure env s) = pn_evaluated s"
  by (simp_all add: note_planner_failure_def Let_def plan_active_in_def)

lemma after_frame [simp]:
  "px_store (pn_plan (after_transition env t s)) = px_store (pn_plan s)"
  "pn_failed (after_transition env t s) = pn_failed s" "pn_evaluated (after_transition env t s) = pn_evaluated s"
  by (auto simp: after_transition_def begin_phase_def set_current_task_start_index_def Let_def
      split: transition.splits option.splits)

lemma admit_frame:
  assumes "admit_signal env s = (r, s')"
  shows "pn_plan s' = pn_plan s" and "pn_failed s' = pn_failed s"
    and "cs_supervision (pn_session s') = cs_supervision (pn_session s)"
    and "cs_nudge_iterations (pn_session s') = cs_nudge_iterations (pn_session s)"
    and "cs_gate_iterations (pn_session s') = cs_gate_iterations (pn_session s)"
    and "pn_evaluated s \<longrightarrow> pn_evaluated s'" and "cs_plan_signal (pn_session s') = None"
  using assms by (auto simp: admit_signal_def Let_def split: option.splits if_splits)

text \<open>What an admitted signal presupposes.\<close>

lemma admitted:
  assumes "admit_signal env s = (Some signal, s')"
  shows "cs_plan_signal (pn_session s) = Some signal" and "\<not> pn_failed s" and "pv_enabled env" and "pv_plan_enabled env"
    and "if signal = Request then \<not> plan_active_in s \<and> \<not> pn_evaluated s \<and> cs_eligible (pn_session s) \<and> plan_request_allowed s
         else plan_active_in s"
    and "signal = Request \<longrightarrow> pn_evaluated s'"
  using assms
  by (auto simp: admit_signal_def Let_def plan_active_in_def plan_request_allowed_def split: option.splits if_splits)

section \<open>Decisions\<close>

definition op_of :: "plan_decision \<Rightarrow> plan_op option" where
  "op_of d = (case d of CreatePlan title tasks \<Rightarrow> Some (StartPlan title tasks) | Advance summary \<Rightarrow> Some (AdvancePlan summary)
     | Revise reason tasks \<Rightarrow> Some (RevisePlan reason tasks) | _ \<Rightarrow> None)"

definition answers_signal :: "plan_signal \<Rightarrow> plan_op \<Rightarrow> bool" where
  "answers_signal signal op =
     (case op of StartPlan title tasks \<Rightarrow> signal = Request | AdvancePlan summary \<Rightarrow> signal = PhaseComplete
      | RevisePlan reason tasks \<Rightarrow> signal \<noteq> Request | FinishPlan summary \<Rightarrow> False)"

lemma apply_decision_cases:
  assumes "apply_decision env signal d s = Some (t, s')"
  obtains (change) op ctx where "op_of d = Some op" "answers_signal signal op"
      "apply_op (pv_plan env) op (pn_plan s) = Inr ctx" "s' = s\<lparr>pn_plan := ctx\<rparr>" "t \<noteq> NoTransition"
      "t = Advanced \<longleftrightarrow> (\<exists>x. op = AdvancePlan x)" "t = Revised \<longleftrightarrow> (\<exists>x y. op = RevisePlan x y)"
  | (keep) "t = NoTransition" "op_of d = None" "pn_plan s' = pn_plan s" "pn_failed s' = pn_failed s"
      "pn_evaluated s' = pn_evaluated s" "pn_checkpoint s' = pn_checkpoint s" "evidence_of s' = evidence_of s"
      "cs_nudge_iterations (pn_session s') = cs_nudge_iterations (pn_session s)"
      "cs_gate_iterations (pn_session s') = cs_gate_iterations (pn_session s)"
  using assms
  by (cases "(env, signal, d, s)" rule: apply_decision.cases)
    (auto simp: op_of_def answers_signal_def on_plan_def split: sum.splits)

text \<open>Reconciliation, by what it did.\<close>

lemma reconcile_cases:
  fixes s :: "'x planner_state"
  obtains
    (idle) "fst (admit_signal env s) = None" "reconcile_after_actions env s = snd (admit_signal env s)"
  | (failed) signal s1 where "admit_signal env s = (Some signal, s1)"
      "reconcile_after_actions env s = note_planner_failure env (with_tools env s1)"
  | (applied) signal s1 d t s2 where "admit_signal env s = (Some signal, s1)" "decide env signal (with_tools env s1) = Some d"
      "apply_decision env signal d (with_tools env s1) = Some (t, s2)"
      "reconcile_after_actions env s = after_transition env t s2"
proof -
  obtain r s1 where a: "admit_signal env s = (r, s1)" by force
  show thesis
  proof (cases r)
    case None
    then show thesis using idle a by (simp add: reconcile_after_actions_def)
  next
    case (Some signal)
    note a = a[unfolded Some]
    show thesis
    proof (cases "Option.bind (decide env signal (with_tools env s1)) (\<lambda>d. apply_decision env signal d (with_tools env s1))")
      case None
      then have "reconcile_after_actions env s = note_planner_failure env (with_tools env s1)"
        using a by (auto simp: reconcile_after_actions_def Let_def split: option.splits bind_splits)
      then show thesis by (rule failed[OF a])
    next
      case (Some x)
      then obtain d t s2 where "decide env signal (with_tools env s1) = Some d"
        "apply_decision env signal d (with_tools env s1) = Some (t, s2)" by (cases x) (auto simp: bind_eq_Some_conv)
      then show thesis using a by (intro applied[OF a]) (simp_all add: reconcile_after_actions_def Let_def)
    qed
  qed
qed

lemma transition_of_reconcile:
  assumes "px_store (pn_plan (reconcile_after_actions env s)) \<noteq> px_store (pn_plan s)"
  obtains signal d op ctx where "admit_signal env s = (Some signal, snd (admit_signal env s))" "answers_signal signal op"
    "apply_op (pv_plan env) op (pn_plan s) = Inr ctx" "px_store (pn_plan (reconcile_after_actions env s)) = px_store ctx"
    "decide env signal (with_tools env (snd (admit_signal env s))) = Some d" "op_of d = Some op"
  using assms
proof (cases rule: reconcile_cases[where env = env and s = s])
  case (applied signal s1 d t s2)
  show thesis
    using applied(3)
  proof (cases rule: apply_decision_cases)
    case (change op ctx)
    with applied admit_frame[OF applied(1)] show thesis by (intro that[of signal op ctx d]) simp_all
  qed (use applied assms admit_frame[OF applied(1)] in simp_all)
next
  case idle
  with assms admit_frame(1)[OF surjective_pairing, of env s] show thesis by simp
next
  case (failed signal s1)
  with assms admit_frame(1)[OF failed(1)] show thesis by simp
qed


section \<open>A turn of the planner\<close>

text \<open>
  Between two consultations of one turn anything may happen to the session that leaves the two latches alone; a
  genuine user turn resets them.
\<close>

datatype 'x planner_activity = Consult planner_env | Between "'x planner_state \<Rightarrow> 'x planner_state"

definition keeps_latches :: "('x planner_state \<Rightarrow> 'x planner_state) \<Rightarrow> bool" where
  "keeps_latches f \<longleftrightarrow> (\<forall>s. pn_failed (f s) = pn_failed s \<and> pn_evaluated (f s) = pn_evaluated s)"

text \<open>The consultations of a turn: the signal the planner was asked about and whether it failed.\<close>

definition consultation :: "planner_env \<Rightarrow> 'x planner_state \<Rightarrow> (plan_signal \<times> bool) list" where
  "consultation env s =
     (case fst (admit_signal env s) of
        None \<Rightarrow> []
      | Some signal \<Rightarrow> [(signal, pn_failed (reconcile_after_actions env s))])"

fun consultations :: "'x planner_activity list \<Rightarrow> 'x planner_state \<Rightarrow> (plan_signal \<times> bool) list" where
  "consultations [] s = []"
| "consultations (Consult env # as) s = consultation env s @ consultations as (reconcile_after_actions env s)"
| "consultations (Between f # as) s = consultations as (f s)"

abbreviation turn_activity :: "'x planner_activity \<Rightarrow> bool" where
  "turn_activity a \<equiv> (case a of Between f \<Rightarrow> keeps_latches f | Consult env \<Rightarrow> True)"

lemma reconcile_latches:
  "pn_failed s \<Longrightarrow> pn_failed (reconcile_after_actions env s)"
  "pn_evaluated s \<Longrightarrow> pn_evaluated (reconcile_after_actions env s)"
proof -
  let ?r = "fst (admit_signal env s)" and ?s1 = "snd (admit_signal env s)"
  have a: "admit_signal env s = (?r, ?s1)" by simp
  show "pn_failed s \<Longrightarrow> pn_failed (reconcile_after_actions env s)"
    using admitted(2)[of env s] admit_frame(2)[OF a]
    by (cases ?r) (auto simp: reconcile_after_actions_def Let_def split: prod.splits option.splits)
  assume e: "pn_evaluated s"
  show "pn_evaluated (reconcile_after_actions env s)"
  proof (cases rule: reconcile_cases[where env = env and s = s])
    case idle
    then show ?thesis using e admit_frame(6)[OF a] by simp
  next
    case (failed signal s1)
    then show ?thesis using e admit_frame(6)[OF failed(1)] by simp
  next
    case (applied signal s1 d t s2)
    have "pn_evaluated s2"
      using applied(3) by (cases rule: apply_decision_cases) (use e admit_frame(6)[OF applied(1)] in simp_all)
    then show ?thesis using applied(4) by simp
  qed
qed

lemma no_consultation:
  "pn_failed s \<Longrightarrow> consultation env s = []"
  "consultation env s = [(Request, b)] \<Longrightarrow> \<not> pn_evaluated s \<and> pn_evaluated (reconcile_after_actions env s)"
proof -
  show "pn_failed s \<Longrightarrow> consultation env s = []"
    using admitted(2)[of env s] by (cases "admit_signal env s"; cases "fst (admit_signal env s)") (auto simp: consultation_def)
  assume "consultation env s = [(Request, b)]"
  then obtain s1 where a: "admit_signal env s = (Some Request, s1)"
    by (cases "admit_signal env s") (auto simp: consultation_def split: option.splits)
  have "pn_evaluated (reconcile_after_actions env s)"
  proof (cases rule: reconcile_cases[where env = env and s = s])
    case (applied signal s1 d t s2)
    have "pn_evaluated s2"
      using applied(3) by (cases rule: apply_decision_cases) (use a admitted(6)[OF a] applied(1) in simp_all)
    then show ?thesis using applied(4) by simp
  qed (use a admitted(6)[OF a] in simp_all)
  then show "\<not> pn_evaluated s \<and> pn_evaluated (reconcile_after_actions env s)" using admitted(5)[OF a] by simp
qed

lemma consultations_after_failure:
  "pn_failed s \<Longrightarrow> \<forall>a\<in>set as. turn_activity a \<Longrightarrow> consultations as s = []"
  by (induction as s rule: consultations.induct)
    (auto simp: no_consultation reconcile_latches keeps_latches_def)

lemma requests_once:
  "\<forall>a\<in>set as. turn_activity a \<Longrightarrow>
   length (filter (\<lambda>c. fst c = Request) (consultations as s)) \<le> (if pn_evaluated s then 0 else 1)"
proof (induction as s rule: consultations.induct)
  case (2 env as s)
  have ih: "length (filter (\<lambda>c. fst c = Request) (consultations as (reconcile_after_actions env s))) \<le>
      (if pn_evaluated (reconcile_after_actions env s) then 0 else 1)" using 2 by simp
  show ?case
  proof (cases "\<exists>b. consultation env s = [(Request, b)]")
    case True
    then show ?thesis using no_consultation(2)[of env s] ih by auto
  next
    case False
    then have "filter (\<lambda>c. fst c = Request) (consultation env s) = []"
      by (auto simp: consultation_def split: option.splits)
    then show ?thesis using ih reconcile_latches(2)[of s env] by (auto split: if_splits)
  qed
qed (auto simp: keeps_latches_def)

lemma failures_last:
  "\<forall>a\<in>set as. turn_activity a \<Longrightarrow> consultations as s = xs @ (signal, True) # ys \<Longrightarrow> ys = []"
proof (induction as s arbitrary: xs rule: consultations.induct)
  case (2 env as s)
  show ?case
  proof (cases "consultation env s = [] \<or> xs \<noteq> []")
    case True
    then obtain xs' where "consultations as (reconcile_after_actions env s) = xs' @ (signal, True) # ys"
      using "2.prems"(2) by (cases xs) (auto simp: consultation_def split: option.splits)
    then show ?thesis using 2 by simp
  next
    case False
    then have "pn_failed (reconcile_after_actions env s)" "ys = consultations as (reconcile_after_actions env s)"
      using "2.prems"(2) by (auto simp: consultation_def split: option.splits)
    then show ?thesis using consultations_after_failure "2.prems"(1) by simp
  qed
qed (auto simp: keeps_latches_def)

section \<open>What a revision does to the evidence\<close>

lemma revision_state:
  assumes "apply_decision env signal (Revise reason tasks) s = Some (Revised, s')"
  shows "pn_checkpoint (after_transition env Revised s') = el_next_sequence (evidence_of s) \<and>
    evidence_of (after_transition env Revised s') = snd (begin_phase (evidence_of s))"
proof -
  obtain ctx where "s' = s\<lparr>pn_plan := ctx\<rparr>" using assms by (cases signal) (auto simp: on_plan_def split: sum.splits)
  then have e: "evidence_of s' = evidence_of s" by (simp add: evidence_of_def)
  then show ?thesis
    by (auto simp: after_transition_def begin_phase_def Let_def split: option.splits) (simp_all add: evidence_of_def)
qed

text \<open>A decision to revise that was applied.\<close>

definition revised :: "planner_env \<Rightarrow> 'x planner_state \<Rightarrow> bool" where
  "revised env s \<longleftrightarrow>
     (\<exists>signal s1 reason tasks s2. admit_signal env s = (Some signal, s1) \<and>
       decide env signal (with_tools env s1) = Some (Revise reason tasks) \<and>
       apply_decision env signal (Revise reason tasks) (with_tools env s1) = Some (Revised, s2))"

lemma revised_evidence:
  assumes "revised env s"
  shows "pn_checkpoint (reconcile_after_actions env s) = fst (begin_phase (evidence_of s)) \<and>
    evidence_of (reconcile_after_actions env s) = snd (begin_phase (evidence_of s))"
proof -
  from assms obtain signal s1 reason tasks s2 where r: "admit_signal env s = (Some signal, s1)"
    "decide env signal (with_tools env s1) = Some (Revise reason tasks)"
    "apply_decision env signal (Revise reason tasks) (with_tools env s1) = Some (Revised, s2)"
    unfolding revised_def by blast
  have "evidence_of (with_tools env s1) = evidence_of s" using admit_frame(3)[OF r(1)] by (simp add: evidence_of_def)
  with revision_state[OF r(3)] r show ?thesis by (simp add: reconcile_after_actions_def Let_def begin_phase_def)
qed

section \<open>The trajectory\<close>

lemma boundaries_props: "boundaries s \<noteq> []" "last (boundaries s) = length s"
  by (simp_all add: boundaries_def)

lemma search_tail_stop: "\<not> low < high \<Longrightarrow> search_tail estimate s bs budget low high = low"
  by (subst search_tail.simps) simp

lemma search_tail_left:
  "low < high \<Longrightarrow> estimate (drop (bs ! ((low + high) div 2)) s) \<le> budget \<Longrightarrow>
   search_tail estimate s bs budget low high = search_tail estimate s bs budget low ((low + high) div 2)"
  by (subst search_tail.simps) (simp add: Let_def)

lemma search_tail_right:
  "low < high \<Longrightarrow> \<not> estimate (drop (bs ! ((low + high) div 2)) s) \<le> budget \<Longrightarrow>
   search_tail estimate s bs budget low high = search_tail estimate s bs budget ((low + high) div 2 + 1) high"
  by (subst search_tail.simps) (simp add: Let_def)

lemma search_tail_fits:
  assumes "low \<le> high" and "estimate (drop (bs ! high) s) \<le> budget"
  shows "low \<le> search_tail estimate s bs budget low high \<and> search_tail estimate s bs budget low high \<le> high \<and>
    estimate (drop (bs ! search_tail estimate s bs budget low high) s) \<le> budget"
  using assms
proof (induction estimate s bs budget low high rule: search_tail.induct)
  case (1 estimate s bs budget low high)
  let ?mid = "(low + high) div 2"
  consider "\<not> low < high" | (left) "low < high" "estimate (drop (bs ! ?mid) s) \<le> budget"
    | (right) "low < high" "\<not> estimate (drop (bs ! ?mid) s) \<le> budget" by blast
  then show ?case
  proof cases
    case left
    have "low \<le> ?mid" "?mid \<le> high" using left(1) by simp_all
    with "1.IH"(1)[OF left(1) refl left(2)] left(2) show ?thesis unfolding search_tail_left[where estimate = estimate, OF left] by linarith
  next
    case right
    have "?mid + 1 \<le> high" using right(1) by linarith
    with "1.IH"(2)[OF right(1) refl right(2)] "1.prems"(2) show ?thesis
      unfolding search_tail_right[where estimate = estimate, OF right] by linarith
  qed (use "1.prems" in \<open>simp add: search_tail_stop\<close>)
qed

text \<open>Nothing below the found offset fits, when longer tails never have fewer tokens.\<close>

lemma search_tail_least:
  assumes "\<And>i j. i \<le> j \<Longrightarrow> j < length bs \<Longrightarrow> estimate (drop (bs ! j) s) \<le> estimate (drop (bs ! i) s)"
    and "low \<le> i" and "i < search_tail estimate s bs budget low high" and "high < length bs"
  shows "budget < estimate (drop (bs ! i) s)"
  using assms
proof (induction estimate s bs budget low high rule: search_tail.induct)
  case (1 estimate s bs budget low high)
  let ?mid = "(low + high) div 2"
  consider "\<not> low < high" | (left) "low < high" "estimate (drop (bs ! ?mid) s) \<le> budget"
    | (right) "low < high" "\<not> estimate (drop (bs ! ?mid) s) \<le> budget" by blast
  then show ?case
  proof cases
    case 1
    then show ?thesis using "1.prems"(2,3) by (simp add: search_tail_stop)
  next
    case left
    have "i < search_tail estimate s bs budget low ?mid" using "1.prems"(3) search_tail_left[where estimate = estimate, OF left] by metis
    moreover have "?mid < length bs" using left(1) "1.prems"(4) by linarith
    ultimately show ?thesis using "1.IH"(1)[OF left(1) refl left(2)] "1.prems"(1,2) by blast
  next
    case right
    have i: "i < search_tail estimate s bs budget (?mid + 1) high" using "1.prems"(3) search_tail_right[where estimate = estimate, OF right] by metis
    show ?thesis
    proof (cases "?mid + 1 \<le> i")
      case True
      with "1.IH"(2)[OF right(1) refl right(2)] "1.prems"(1,4) i show ?thesis by blast
    next
      case False
      then have "estimate (drop (bs ! ?mid) s) \<le> estimate (drop (bs ! i) s)"
        using "1.prems"(1)[of i ?mid] "1.prems"(4) right(1) by linarith
      with right(2) show ?thesis by linarith
    qed
  qed
qed

lemma tail_within_fits: "estimate [] \<le> budget \<Longrightarrow> estimate (tail_within estimate s budget) \<le> budget"
  using search_tail_fits[of 0 "length (boundaries s) - 1" estimate "boundaries s" s budget]
    last_conv_nth[OF boundaries_props(1), of s] boundaries_props(2)[of s]
  by (simp add: tail_within_def Let_def)

lemma edges_within:
  assumes "\<And>t n. estimate (keep t n) \<le> n" and "estimate [] = 0"
  shows "estimate (truncate_edges_to_tokens estimate keep s n) \<le> n"
  using assms by (simp add: truncate_edges_to_tokens_def Let_def)

lemma trajectory_within:
  assumes "\<And>t n. estimate (keep t n) \<le> n" and "estimate [] = 0"
  shows "estimate (render_phase_trajectory estimate keep ms start n) \<le> n"
  using edges_within[OF assms] assms(2) by (simp add: render_phase_trajectory_def Let_def)

section \<open>The end of a turn with a plan\<close>

lemma capture_reason:
  assumes "capture_self_report env wire_of content s = (shown, s')" and "cs_report_reason (pn_session s') = Some m"
  shows "\<not> is_blank m"
proof -
  from assms obtain r where p: "parse_self_report_handoff wire_of content = Some r" and m: "m = ho_focus (pr_handoff r)" "m \<noteq> []"
    by (auto simp: capture_self_report_def Let_def bind_eq_Some_conv split: if_splits)
  have legacy: "\<not> is_blank reason" if "parse_legacy_self_report_inner inner = Some (st, Some reason)" for inner st reason
    using that by (auto simp: parse_legacy_self_report_inner_def Let_def is_blank_def split: option.splits if_splits)
  from p consider w where "narrow_wire w = Some r"
    | st reason inner where "parse_legacy_self_report_inner inner = Some (st, reason)" "r = narrow_legacy (st, reason)"
    by (auto simp: parse_self_report_handoff_def Let_def bind_eq_Some_conv split: if_splits)
  then show ?thesis
  proof cases
    case 1
    then show ?thesis using m by (auto simp: narrow_wire_def is_blank_def)
  next
    case 2
    then show ?thesis using m legacy by (cases reason) (auto simp: narrow_legacy_def)
  qed
qed

lemma live_plan_active: "ce_live_plan (live_env cenv env s) \<noteq> [] \<Longrightarrow> plan_active_in s"
  by (auto simp: live_env_def or_empty_def render_plan_details_def plan_active_in_def split: if_splits option.splits)

lemma finalize_succeeds:
  assumes "plan_active_in s" and "\<not> is_blank summary"
  shows "\<exists>ctx. finalize_after_completion (pv_plan env) summary (pn_plan s) = Inr ctx \<and> ps_plan (px_store ctx) = None"
  using finish_clears_plan[of "pn_plan s" summary "pv_plan env"] assms
  by (auto simp: plan_active_in_def finalize_after_completion_def)

lemma summary_not_blank: "\<not> is_blank ''Completion verified''"
  by (simp add: is_blank_def trim_printable visible_def)

lemma verified_turn:
  assumes e: "end_turn cenv env s = (r, s')" and g: "gate_accepts (live_env cenv env s) (pn_session s)"
    and reason: "\<And>m. cs_report_reason (pn_session s) = Some m \<Longrightarrow> \<not> is_blank m"
  defines "live \<equiv> live_env cenv env s"
  shows "r = Ended \<and> cs_outcome (pn_session s') = VerifiedOutcome \<and>
    (plan_applies (task_of live (pn_session s)) (ce_live_plan live) \<longrightarrow> ps_plan (px_store (pn_plan s')) = None)"
proof -
  let ?cs = "pn_session s" and ?t = "task_of live (pn_session s)"
  let ?summary = "case cs_report_reason ?cs of Some c \<Rightarrow> c | None \<Rightarrow> ''Completion verified''"
  have summary: "\<not> is_blank ?summary" using reason summary_not_blank by (auto split: option.splits)
  have ok: "\<exists>ctx. finalize_after_completion (pv_plan env) ?summary (pn_plan s) = Inr ctx \<and> ps_plan (px_store ctx) = None"
    if "plan_applies ?t (ce_live_plan live)"
    using that finalize_succeeds[OF live_plan_active summary] by (auto simp: plan_applies_def live_def)
  have fin: "plan_applies ?t (ce_live_plan live) \<Longrightarrow> ce_finalize live ?summary = None"
    using ok by (auto simp: live_def live_env_def)
  have check: "completion_check live ?cs = on_pass live ?t (mark_gate ?cs)"
    using g by (simp add: gate_accepts_def live_def completion_check_def run_gate_def Let_def)
  have "cs_report_reason (mark_gate ?cs) = cs_report_reason ?cs" by (simp add: mark_gate_def)
  then have pass: "completion_check live ?cs = (Ended, (mark_gate ?cs)\<lparr>cs_gate_iterations := 0, cs_nudge_iterations := 0,
      cs_gate_failed := False, cs_outcome := VerifiedOutcome, cs_last_gaps := []\<rparr>)"
    using fin unfolding check by (auto simp: on_pass_def Let_def)
  have "ce_gate_enabled live" using g by (auto simp: gate_accepts_def gated_claim_def live_def)
  then have "retire_reported_plan live env t = t" for t :: "'a planner_state" by (simp add: retire_reported_plan_def Let_def)
  then show ?thesis using e g ok pass by (auto simp: end_turn_def live_def[symmetric] Let_def ok_or_def)
qed

section \<open>Conditions of the plan\<close>

text \<open>
  The planner's directives carry no validity condition and no other code sets one, so no reachable plan has a
  condition that could break.
\<close>

definition unconditional :: "plan_store \<Rightarrow> bool" where
  "unconditional st \<longleftrightarrow> (case ps_plan st of Some p \<Rightarrow> \<forall>t\<in>set (pl_tasks p). pt_valid_if t = None | None \<Rightarrow> True)"

lemma sidecar_tasks_unconditional:
  assumes "sidecar_tasks ds m = Inr ts"
  shows "\<forall>t\<in>set ts. td_valid_if t = None"
proof -
  have "list_all2 (\<lambda>d t. sidecar_task d = Inr t) ds ts" using assms by (auto simp: sidecar_tasks_def ok_simps split: if_splits)
  then show ?thesis by (induction rule: list_all2_induct) (auto simp: sidecar_task_def Let_def split: if_splits)
qed

lemma fresh_unconditional: "\<forall>t\<in>set ts. td_valid_if t = None \<Longrightarrow> \<forall>t\<in>set (map fresh_task ts). pt_valid_if t = None"
  by (auto simp: fresh_task_def)

lemma advance_unconditional:
  "complete_current_task now s st = Inr st' \<Longrightarrow> unconditional st \<Longrightarrow> unconditional st'"
  by (auto simp: complete_current_task_def unconditional_def ok_simps Let_def the_plan_def set_plan_def touch_def
      split: if_splits option.splits dest!: set_update_subset_insert[THEN subsetD])

lemma apply_op_unconditional:
  assumes "apply_op env op ctx = Inr ctx'" and "unconditional (px_store ctx)"
  shows "unconditional (px_store ctx')"
proof (cases op)
  case (StartPlan title ds)
  with assms sidecar_start_store obtain ts where "sidecar_tasks ds 2 = Inr ts"
    "ps_plan (px_store ctx') = Some \<lparr>pl_title = trim title, pl_tasks = map fresh_task ts, pl_current = 0,
      pl_created_at = pe_now env, pl_status = Active\<rparr>" by fastforce
  with fresh_unconditional[OF sidecar_tasks_unconditional] show ?thesis by (simp add: unconditional_def)
next
  case (AdvancePlan summary)
  with assms show ?thesis using sidecar_advance_store advance_unconditional by (metis apply_op.simps(2))
next
  case (RevisePlan reason ds)
  with assms(1) obtain ts where ts: "sidecar_tasks ds 1 = Inr ts"
    "replace_remaining (pe_now env) ts (px_store ctx) = Inr (px_store ctx')"
    using sidecar_revise_store by fastforce
  then obtain p where "ps_plan (px_store ctx) = Some p"
    by (auto simp: replace_remaining_def the_plan_def ok_simps split: option.splits if_splits)
  with ts assms(2) show ?thesis
    using replace_remaining_store[OF ts(2)] fresh_unconditional[OF sidecar_tasks_unconditional[OF ts(1)]]
    by (auto simp: unconditional_def dest: in_set_takeD)
next
  case (FinishPlan summary)
  with assms sidecar_finish_store show ?thesis by (fastforce simp: unconditional_def)
qed

section \<open>Sessions\<close>

text \<open>What happens to a session between two requests, as far as it concerns the plan.\<close>

inductive session_step :: "'x planner_state \<Rightarrow> 'x planner_state \<Rightarrow> bool" where
  round: "session_step s (s\<lparr>pn_session := (pn_session s)\<lparr>cs_supervision :=
      supervise_round renv calls results (cs_supervision (pn_session s))\<rparr>\<rparr>)"
| report: "capture_self_report env wire_of content s = (shown, s') \<Longrightarrow> session_step s s'"
| flag: "session_step s (flag_broken_conditions env s)"
| consult: "session_step s (reconcile_after_actions env s)"
| turn_ended: "end_turn cenv env s = (r, s') \<Longrightarrow> session_step s s'"
| user_turn: "session_step s (admit_planner_turn m s)"

definition plan_ok :: "plan_store \<Rightarrow> bool" where
  "plan_ok st \<longleftrightarrow> plan_active st \<and> unconditional st"

lemma apply_op_plan_ok: "apply_op env op ctx = Inr ctx' \<Longrightarrow> plan_ok (px_store ctx) \<Longrightarrow> plan_ok (px_store ctx')"
  using apply_op_active apply_op_unconditional by (auto simp: plan_ok_def)

lemma reconcile_plan_ok:
  assumes "plan_ok (px_store (pn_plan s))"
  shows "plan_ok (px_store (pn_plan (reconcile_after_actions env s)))"
proof (cases "px_store (pn_plan (reconcile_after_actions env s)) = px_store (pn_plan s)")
  case False
  then show ?thesis by (rule transition_of_reconcile) (use assms apply_op_plan_ok in metis)
qed (use assms in simp)

lemma use_memories_plan [simp]: "pn_plan (use_memories env ms bs s) = pn_plan s"
  by (induction ms arbitrary: s) simp_all

lemma capture_plan: "capture_self_report env wire_of content s = (shown, s') \<Longrightarrow> pn_plan s' = pn_plan s"
  by (auto simp: capture_self_report_def Let_def split: option.splits)

lemma end_turn_plan_ok:
  assumes "end_turn cenv env s = (r, s')" and "plan_ok (px_store (pn_plan s))"
  shows "plan_ok (px_store (pn_plan s'))"
proof -
  have fin: "plan_ok (px_store (ok_or ctx (finalize_after_completion (pv_plan env) summary ctx)))"
    if "plan_ok (px_store ctx)" for summary ctx
    using apply_op_plan_ok[of "pv_plan env" "FinishPlan summary" ctx] that
    by (cases "finalize_after_completion (pv_plan env) summary ctx") (auto simp: ok_or_def finalize_after_completion_def)
  then have "plan_ok (px_store (pn_plan (retire_reported_plan live env t)))" if "plan_ok (px_store (pn_plan t))"
    for live and t :: "'a planner_state"
    using that by (simp add: retire_reported_plan_def Let_def)
  then show ?thesis using assms fin by (auto simp: end_turn_def Let_def split: prod.splits)
qed

lemma session_plan_ok:
  assumes "session_step\<^sup>*\<^sup>* s s'" and "plan_ok (px_store (pn_plan s))"
  shows "plan_ok (px_store (pn_plan s'))"
  using assms
proof (induction rule: rtranclp_induct)
  case (step s1 s2)
  then have ok: "plan_ok (px_store (pn_plan s1))" by simp
  from step(2) show ?case
  proof cases
    case consult
    then show ?thesis using reconcile_plan_ok[OF ok] by simp
  next
    case turn_ended
    then show ?thesis using end_turn_plan_ok ok by blast
  next
    case report
    then show ?thesis using ok by (simp add: capture_plan)
  qed (use ok in \<open>auto simp: flag_broken_conditions_def admit_planner_turn_def Let_def\<close>)
qed

lemma no_broken_conditions:
  assumes "plan_ok (px_store (pn_plan s))"
  shows "flag_broken_conditions env s = s"
proof -
  have "broken_plan_conditions exists (px_store (pn_plan s)) = []" for exists
    using assms
    by (auto simp: plan_ok_def unconditional_def broken_plan_conditions_def concat_eq_Nil_conv in_set_enumerate_eq split: option.splits)
  then show ?thesis by (simp add: flag_broken_conditions_def)
qed

text \<open>Reported behaviours are credited once per reported memory: not at all when no memory was used.\<close>

lemma behaviors_need_memories: "use_memories env [] behaviors s = s"
  by simp

section \<open>A concrete session with a planner\<close>

definition revising :: plan_response where
  "revising = \<lparr>pz_decision = ''revise'', pz_title = None, pz_summary = None, pz_reason = Some ''new facts'',
     pz_tasks = [\<lparr>dr_title = ''port'', dr_done_when = ''green''\<rparr>]\<rparr>"

definition demo_planner :: "plan_response \<Rightarrow> planner_env" where
  "demo_planner r = \<lparr>pv_now = 0, pv_enabled = True, pv_plan_enabled = True, pv_plan = demo_env, pv_tools = [],
     pv_text_of = (\<lambda>_. []), pv_size_of = (\<lambda>_. []), pv_estimate = length, pv_truncate = (\<lambda>s n. take n s),
     pv_ask = (\<lambda>_ _. Inr (Some r)), pv_behavior_available = (\<lambda>_. True), pv_hash = (\<lambda>_. 0)\<rparr>"

definition planned_state :: "plan_signal option \<Rightarrow> unit planner_state" where
  "planned_state signal = \<lparr>pn_session = claimed_state\<lparr>cs_plan_signal := signal\<rparr>, pn_plan = demo_half, pn_evaluated = True,
     pn_failed = False, pn_checkpoint = 0, pn_tools = Some [], pn_handoff = None, pn_recalled = [],
     pn_used_memories = {}, pn_used_behaviors = []\<rparr>"

lemma demo_half_active: "has_active_plan (px_store demo_half)"
  by code_simp

lemma demo_revise: "\<exists>ctx. sidecar_revise demo_env ''new facts'' (pz_tasks revising) demo_half = Inr ctx \<and>
    length (pl_tasks (the (ps_plan (px_store ctx)))) = 2 \<and> pl_tasks (the (ps_plan (px_store ctx))) \<noteq> pl_tasks (the (ps_plan (px_store demo_half)))"
proof -
  have "(case sidecar_revise demo_env ''new facts'' (pz_tasks revising) demo_half of Inl _ \<Rightarrow> False
      | Inr ctx \<Rightarrow> length (pl_tasks (the (ps_plan (px_store ctx)))) = 2 \<and>
          map pt_title (pl_tasks (the (ps_plan (px_store ctx)))) \<noteq> map pt_title (pl_tasks (the (ps_plan (px_store demo_half)))))"
    by code_simp
  then show ?thesis by (auto split: sum.splits)
qed

lemma admit_complete:
  "admit_signal (demo_planner r) (planned_state (Some PhaseComplete)) = (Some PhaseComplete, planned_state None)"
  by (simp add: admit_signal_def planned_state_def demo_planner_def plan_active_in_def demo_half_active Let_def)

lemma with_tools_planned [simp]: "with_tools env (planned_state signal) = planned_state signal"
  by (simp add: with_tools_def planned_state_def)

lemma decide_revise: "decide (demo_planner revising) signal s = Some (Revise ''new facts'' (pz_tasks revising))"
  by (simp add: decide_def demo_planner_def into_decision_def revising_def or_empty_def)

lemma demo_applies:
  obtains ctx where "apply_decision (demo_planner revising) PhaseComplete (Revise ''new facts'' (pz_tasks revising)) (planned_state None) =
      Some (Revised, (planned_state None)\<lparr>pn_plan := ctx\<rparr>)"
    "pl_tasks (the (ps_plan (px_store ctx))) \<noteq> pl_tasks (the (ps_plan (px_store demo_half)))"
  using demo_revise by (auto simp: on_plan_def demo_planner_def planned_state_def)

lemma demo_revised: "revised (demo_planner revising) (planned_state (Some PhaseComplete))"
  unfolding revised_def using admit_complete decide_revise demo_applies with_tools_planned by metis

lemma demo_plan_changes:
  "px_store (pn_plan (reconcile_after_actions (demo_planner revising) (planned_state (Some PhaseComplete)))) \<noteq>
   px_store (pn_plan (planned_state (Some PhaseComplete)))"
proof -
  obtain ctx where "apply_decision (demo_planner revising) PhaseComplete (Revise ''new facts'' (pz_tasks revising)) (planned_state None) =
      Some (Revised, (planned_state None)\<lparr>pn_plan := ctx\<rparr>)"
    "pl_tasks (the (ps_plan (px_store ctx))) \<noteq> pl_tasks (the (ps_plan (px_store demo_half)))" by (rule demo_applies)
  moreover have "pn_plan (planned_state signal) = demo_half" for signal by (simp add: planned_state_def)
  ultimately show ?thesis by (auto simp: reconcile_after_actions_def admit_complete decide_revise Let_def)
qed

section \<open>The properties\<close>

lemma decided_by_reply:
  "decide env signal s = Some d \<Longrightarrow>
     \<exists>r. pv_ask env signal (render_specialist_context env signal TRAJECTORY_MAX_TOKENS s) = Inr (Some r) \<and> into_decision r = Some d"
  by (auto simp: decide_def split: sum.splits option.splits)

text \<open>
  C19. The plan changes only by an authorized transition, and the planner decides it: whatever a reconciliation changes in
  the plan is the one transition that the planner's reply asks for - creating, advancing or revising the plan with the
  reply's own title, summary, reason and tasks; a reply to hold or to make no plan changes nothing. The planner was asked
  about the pending signal, which the transition answers, before any failure in the turn; a plan is created only on the first
  request of an eligible user turn without a plan, advanced only on a completed phase, and revised only while it is active.
\<close>

theorem plan_transitions_authorized:
  assumes "px_store (pn_plan (reconcile_after_actions env s)) \<noteq> px_store (pn_plan s)"
  defines "asked \<equiv> with_tools env (snd (admit_signal env s))"
  shows "\<exists>signal reply d op ctx. cs_plan_signal (pn_session s) = Some signal \<and> \<not> pn_failed s \<and>
    (if signal = Request then \<not> plan_active_in s \<and> \<not> pn_evaluated s \<and> cs_eligible (pn_session s) \<and> plan_request_allowed s
     else plan_active_in s) \<and>
    pv_ask env signal (render_specialist_context env signal TRAJECTORY_MAX_TOKENS asked) = Inr (Some reply) \<and>
    into_decision reply = Some d \<and> op_of d = Some op \<and> answers_signal signal op \<and>
    apply_op (pv_plan env) op (pn_plan s) = Inr ctx \<and> px_store (pn_plan (reconcile_after_actions env s)) = px_store ctx"
  using assms(1)
proof (rule transition_of_reconcile)
  fix signal d op ctx
  assume a: "admit_signal env s = (Some signal, snd (admit_signal env s))" and
    t: "answers_signal signal op" "apply_op (pv_plan env) op (pn_plan s) = Inr ctx"
    "px_store (pn_plan (reconcile_after_actions env s)) = px_store ctx" and
    d: "decide env signal (with_tools env (snd (admit_signal env s))) = Some d" "op_of d = Some op"
  from decided_by_reply[OF d(1)] obtain reply where r:
    "pv_ask env signal (render_specialist_context env signal TRAJECTORY_MAX_TOKENS asked) = Inr (Some reply)"
    "into_decision reply = Some d" unfolding asked_def by blast
  show ?thesis by (intro exI conjI; (rule admitted(1,2,5)[OF a] r t d(2))?)
qed

theorem plan_transitions_authorized_witness:
  "\<exists>signal d op. cs_plan_signal (pn_session (planned_state (Some PhaseComplete))) = Some signal \<and>
     into_decision revising = Some d \<and> op_of d = Some op \<and> answers_signal signal op"
  using plan_transitions_authorized[OF demo_plan_changes] by (auto simp: demo_planner_def)

text \<open>
  C20. The planner cannot be consulted in a loop: in one user turn it is asked at most once to create a plan, whatever
  it answers, and after a consultation that failed it is not asked again.
\<close>

theorem planner_consulted_boundedly:
  assumes "\<forall>a\<in>set as. turn_activity a"
  shows "length (filter (\<lambda>c. fst c = Request) (consultations as s)) \<le> 1 \<and>
    (\<forall>xs signal ys. consultations as s = xs @ (signal, True) # ys \<longrightarrow> ys = [])"
  using requests_once[OF assms, of s] failures_last[OF assms] by (auto split: if_splits)

theorem planner_consulted_boundedly_witness:
  "length (filter (\<lambda>c. fst c = Request) (consultations [Consult (demo_planner revising), Between (\<lambda>s. s),
     Consult (demo_planner revising)] (planned_state (Some PhaseComplete)))) \<le> 1"
  using planner_consulted_boundedly[of "[Consult (demo_planner revising), Between (\<lambda>s. s), Consult (demo_planner revising)]"
      "planned_state (Some PhaseComplete)"]
  by (simp add: keeps_latches_def)

text \<open>
  After a revision the new phases are judged on their own work: the evidence the planner is then shown counts every call
  made since the revision, by tool, arguments and outcome, as often as it was made, and none from before it
  (for at most 128 calls).
\<close>

theorem revision_resets_evidence:
  assumes "revised env s" and "evidence_of s = ledger_run text_of before"
    and "\<forall>e\<in>set es. e \<noteq> PhaseBegun \<and> e \<noteq> TaskBegun" and "length (filter is_executed es) \<le> LEDGER_CAP"
    and "length (before @ PhaseBegun # es) \<le> usize_max"
  shows "calls_shown tool args err
      (shown_since (pn_checkpoint (reconcile_after_actions env s))
        (fold (ledger_step text_of) es (evidence_of (reconcile_after_actions env s)))) =
    calls_made text_of tool args err es"
  using phase_shows_its_calls[OF assms(3-5), where tool = tool and args = args and err = err] revised_evidence[OF assms(1)]
  by (simp add: assms(2) ledger_run_def)

theorem revision_resets_evidence_witness:
  "calls_shown ''shell'' ''{}'' False
      (shown_since (pn_checkpoint (reconcile_after_actions (demo_planner revising) (planned_state (Some PhaseComplete))))
        (fold (ledger_step (\<lambda>_. ''{}'')) [Executed ''shell'' JNull False False 4 ''ok'']
          (evidence_of (reconcile_after_actions (demo_planner revising) (planned_state (Some PhaseComplete)))))) = 1"
proof -
  have "evidence_of (planned_state (Some PhaseComplete)) = ledger_run (\<lambda>_. ''{}'') []"
    by (simp add: evidence_of_def planned_state_def claimed_state_def idle_state_def ledger_run_Nil)
  from revision_resets_evidence[OF demo_revised this, of "[Executed ''shell'' JNull False False 4 ''ok'']" "''shell''" "''{}''" False]
  show ?thesis
    by (simp add: LEDGER_CAP_def usize_max_def calls_made_def
        ledger_args_def LEDGER_ARGS_MAX_def count_chars_def)
qed

text \<open>
  C21. A verified turn ends: when the gate passes a claim whose stated reason, if any, is not blank (as every captured
  report guarantees), the turn ends with the label verified, and a plan that applies to the task is finished and
  cleared, so the failure branch of finalization is never taken.
\<close>

theorem verified_turn_finishes_plan:
  assumes "end_turn cenv env s = (r, s')" and "gate_accepts (live_env cenv env s) (pn_session s)"
    and "\<And>m. cs_report_reason (pn_session s) = Some m \<Longrightarrow> \<not> is_blank m"
  shows "r = Ended \<and> cs_outcome (pn_session s') = VerifiedOutcome \<and>
    (plan_applies (task_of (live_env cenv env s) (pn_session s)) (ce_live_plan (live_env cenv env s)) \<longrightarrow>
       ps_plan (px_store (pn_plan s')) = None)"
  using assms by (rule verified_turn)

lemma planned_accepts:
  "gate_accepts (live_env (batch_env (\<lambda>_. Pass)) (demo_planner revising) (planned_state None)) (pn_session (planned_state None))"
  by (simp add: gate_accepts_def live_env_def planned_state_def claimed_state_def idle_state_def batch_env_def
      unfinished_handback_def gated_claim_def claims_user_task_completion_def self_report_of_def MAX_ITERATIONS_def
      free_check_applies_def debt_def needs_verification_def new_detectors_def)

theorem verified_turn_finishes_plan_witness:
  "fst (end_turn (batch_env (\<lambda>_. Pass)) (demo_planner revising) (planned_state None)) = Ended"
proof -
  obtain r s' where e: "end_turn (batch_env (\<lambda>_. Pass)) (demo_planner revising) (planned_state None) = (r, s')" by force
  have "cs_report_reason (pn_session (planned_state None)) = None"
    by (simp add: planned_state_def claimed_state_def idle_state_def)
  then show ?thesis using verified_turn_finishes_plan[OF e planned_accepts] e by simp
qed

text \<open>
  C4. In every state a session can reach by rounds of tools, reports, consultations of the planner, user turns and ends of
  turn - a plan finished by the gate's pass, or with the gate switched off by the report - the plan is well formed: while there is one it is active, its cursor is within its tasks, and exactly the tasks
  before the cursor are finished; and no check of plan conditions ever fires, since no task gets a condition.
\<close>

theorem session_plan_invariant:
  assumes "session_step\<^sup>*\<^sup>* s s'" and "px_store (pn_plan s) = new_store"
  shows "(\<forall>p. ps_plan (px_store (pn_plan s')) = Some p \<longrightarrow> plan_inv p \<and> pl_status p = Active) \<and>
    flag_broken_conditions env s' = s'"
proof -
  have "plan_ok new_store" by (simp add: plan_ok_def plan_active_def unconditional_def new_store_def)
  then have "plan_ok (px_store (pn_plan s'))" using session_plan_ok[OF assms(1)] assms(2) by simp
  then show ?thesis using no_broken_conditions by (auto simp: plan_ok_def plan_active_def)
qed

definition planning :: plan_response where
  "planning = \<lparr>pz_decision = ''create'', pz_title = Some ''job'', pz_summary = None, pz_reason = None, pz_tasks = demo_tasks\<rparr>"

definition unplanned_state :: "unit planner_state" where
  "unplanned_state = (planned_state (Some Request))\<lparr>pn_plan := new_ctx, pn_evaluated := False\<rparr>"

theorem session_plan_invariant_witness:
  "pred_option plan_inv (ps_plan (px_store (pn_plan (reconcile_after_actions (demo_planner planning) unplanned_state))))"
proof -
  have r: "session_step\<^sup>*\<^sup>* unplanned_state (reconcile_after_actions (demo_planner planning) unplanned_state)"
    by (rule r_into_rtranclp) (rule consult)
  have "px_store (pn_plan unplanned_state) = new_store" by (simp add: unplanned_state_def new_ctx_def)
  from session_plan_invariant[OF r this] show ?thesis by (simp add: option.pred_set)
qed

text \<open>
  What the planner is shown of the conversation stays within its token budget, whatever the messages are: with a
  tokenizer that counts nothing for the empty text and a truncation that keeps its promise, the trajectory never has
  more tokens than the limit.
\<close>

theorem planner_trajectory_bounded:
  assumes "\<And>t n. estimate (keep t n) \<le> n" and "estimate [] = 0"
  shows "estimate (render_phase_trajectory estimate keep messages start limit) \<le> limit"
  using assms by (rule trajectory_within)

theorem planner_trajectory_bounded_witness:
  "length (render_phase_trajectory length (\<lambda>s n. take n s) [build_message 0 ''assistant'' (replicate 9000 CHR ''x'')] 0 40) \<le> 40"
  by (rule planner_trajectory_bounded) simp_all

end
