(* ===== verification/Truncation.thy ===== *)
theory Truncation
  imports RustStr
begin

text \<open>
  Display and truncation of tool output (\<open>src/utils/truncation.rs\<close>): numbered lines with elision, and the cap on
  the tokens of a response with the notice that replaces the tail. The tokenizer and the file that receives the
  full output are arguments.
\<close>

section \<open>Numbered lines\<close>

definition floor_char_boundary :: "string \<Rightarrow> nat \<Rightarrow> nat" where
  "floor_char_boundary s i = (if length s \<le> i then length s else floor_boundary s i)"

definition numbered :: "nat \<Rightarrow> nat \<times> string \<Rightarrow> string" where
  "numbered start = (\<lambda>(i, l). show_nat (start + i) @ '': '' @ l)"

definition lines_more :: "nat \<Rightarrow> string" where
  "lines_more n = ''[...'' @ show_nat n @ '' lines more]''"

text \<open>\<open>lines.iter().enumerate().take(b).skip(a)\<close>.\<close>

definition slice_numbered :: "string list \<Rightarrow> nat \<Rightarrow> nat \<Rightarrow> nat \<Rightarrow> string list" where
  "slice_numbered ls start a b = map (numbered start) (drop a (take b (enumerate 0 ls)))"

definition lines_before :: "string list \<Rightarrow> nat \<Rightarrow> nat \<Rightarrow> string list" where
  "lines_before ls start start_idx =
     (if 3 < start_idx
      then slice_numbered ls start 0 2 @
           (if 5 < start_idx then [lines_more (start_idx - 2)] else slice_numbered ls start 2 start_idx)
      else slice_numbered ls start 0 start_idx)"

definition lines_after :: "string list \<Rightarrow> nat \<Rightarrow> nat \<Rightarrow> string list" where
  "lines_after ls start end_idx =
     (let n = length ls; remaining = n - end_idx
      in if 5 < remaining then lines_more (remaining - 2) # slice_numbered ls start (n - 2) n
         else slice_numbered ls start end_idx n)"

text \<open>The range is a pair of a \<open>usize\<close> and an \<open>i64\<close>; \<open>end as usize\<close> of a negative number is beyond any list.\<close>

definition range_start :: "nat \<Rightarrow> nat" where
  "range_start start = start - 1"

definition range_end :: "string list \<Rightarrow> int \<Rightarrow> nat" where
  "range_end ls e = (if e = -1 then length ls else min (nat (e mod 2 ^ 64)) (length ls))"

definition format_content_with_line_numbers :: "string list \<Rightarrow> nat \<Rightarrow> (nat \<times> int) option \<Rightarrow> string" where
  "format_content_with_line_numbers ls start_line view_range =
     (case view_range of
        None \<Rightarrow> join newline (slice_numbered ls start_line 0 (length ls))
      | Some (s, e) \<Rightarrow>
          let start_idx = range_start s; end_idx = range_end ls e
          in if length ls \<le> start_idx
             then ''Start line '' @ show_nat s @ '' exceeds content length ('' @ show_nat (length ls) @ '' lines)''
             else if end_idx < start_idx
             then ''Start line '' @ show_nat s @ '' must be less than or equal to end line '' @ show_nat (nat e)
             else join newline (lines_before ls start_line start_idx @ slice_numbered ls start_line start_idx end_idx @
                    lines_after ls start_line end_idx))"

text \<open>
  The counts of the elided display wrap as \<open>usize\<close> does in a release build, so that a limit of 0 is a number of
  lines like any other.
\<close>

definition elided_counts :: "u64 \<Rightarrow> u64 \<Rightarrow> u64 \<times> u64 \<times> u64" where
  "elided_counts n max_lines =
     (let show_first = max_lines * 2 div 3; show_last = max_lines - show_first - 1
      in (show_first, n - show_first - show_last, n - show_last))"

definition format_extracted_content_smart :: "string list \<Rightarrow> nat \<Rightarrow> u64 option \<Rightarrow> string" where
  "format_extracted_content_smart ls start_line max_display =
     (let max_lines = (case max_display of Some m \<Rightarrow> m | None \<Rightarrow> 50)
      in if of_nat (length ls) \<le> max_lines then join newline (slice_numbered ls start_line 0 (length ls))
         else let (show_first, hidden, skip) = elided_counts (of_nat (length ls)) max_lines
              in join newline (slice_numbered ls start_line 0 (unat show_first) @ [lines_more (unat hidden)] @
                   slice_numbered ls start_line (unat skip) (length ls)))"

definition truncate_tool_output_smart :: "string \<Rightarrow> nat \<Rightarrow> nat \<Rightarrow> string" where
  "truncate_tool_output_smart content max_lines max_chars =
     (let ls = str_lines content
      in if length ls \<le> max_lines \<and> count_chars content \<le> max_chars then content
         else if max_lines < length ls
         then let shown = max_lines - 1
              in join newline (take shown ls) @ newline @ ''... ['' @ show_nat (length ls - shown) @ '' more lines]''
         else take_chars (max_chars - 3) content @ ''...'')"

section \<open>The cap on a response\<close>

record truncate_env =
  tk_estimate :: "string \<Rightarrow> nat"
  tk_truncate :: "string \<Rightarrow> nat \<Rightarrow> string"
  tk_spill :: "string \<Rightarrow> string \<Rightarrow> string option"

definition TRUNCATION_NOTICE_TAG :: string where
  "TRUNCATION_NOTICE_TAG = bytes [0xE2, 0x9A, 0xA0, 0xEF, 0xB8, 0x8F] @ '' MCP RESPONSE TRUNCATED''"

definition rule_line :: string where
  "rule_line = concat (replicate 10 (bytes [0xE2, 0x94, 0x80]))"

definition truncation_hint :: "string \<Rightarrow> string" where
  "truncation_hint tool =
     (if tool \<in> {''view'', ''text_editor'', ''read'', ''extract_lines''}
      then ''request a specific line range (view_range / offset+limit) or a single symbol instead of the whole file''
      else if tool = ''view_signatures'' then ''request fewer files '' @ long_dash @ '' pass specific paths, one or a few at a time''
      else if tool = ''shell''
      then ''narrow the output: pipe through grep/head/tail, target a subpath, or redirect to a file and read ranges''
      else if tool \<in> {''list_files'', ''workdir''}
      then ''target a specific subdirectory or add a name/glob filter instead of listing everything''
      else if tool = ''ast_grep'' then ''tighten the pattern or restrict the search to a specific path''
      else if str_contains tool ''search'' \<or> str_contains tool ''find'' \<or> str_contains tool ''graphrag''
      then ''use a more specific query and request fewer results''
      else ''narrow the request: target a specific subset, add a filter, or ask for fewer items'')"

definition shown_counts :: "nat \<Rightarrow> nat \<Rightarrow> string" where
  "shown_counts max_tokens count =
     newline @ newline @ rule_line @ newline @ TRUNCATION_NOTICE_TAG @ '': showing only the first ~'' @ show_nat max_tokens @
     '' of ~'' @ show_nat count @ '' tokens (~'' @ show_nat (count - max_tokens) @ '' cut from the end). ''"

definition truncation_notice :: "nat \<Rightarrow> nat \<Rightarrow> string \<Rightarrow> string option \<Rightarrow> string" where
  "truncation_notice max_tokens count hint spilled =
     shown_counts max_tokens count @
     (case spilled of
        Some path \<Rightarrow>
          ''Identical arguments return this same truncated output, so re-running wastes a turn. '' @
          ''The full output was saved here:'' @ newline @ ''  '' @ path @ newline @
          ''To get the rest, read the span you need from that file (a line range or a single symbol), or run '' @
          ''a search tool against it to jump to the exact pattern. To return less at the source next time, '' @ hint @ ''.''
      | None \<Rightarrow>
          ''The cut tail is not in this result, and identical arguments return this same truncated output, so '' @
          ''re-running wastes a turn. To get the rest, re-issue a narrower call that returns less '' @ long_dash @ '' '' @ hint @
          ''. If what you need is in the shown portion above, read or search it there instead of re-fetching.'')"

definition truncate_mcp_response_global :: "truncate_env \<Rightarrow> string \<Rightarrow> nat \<Rightarrow> string \<Rightarrow> string \<times> bool" where
  "truncate_mcp_response_global env content max_tokens tool =
     (if max_tokens = 0 \<or> str_contains content TRUNCATION_NOTICE_TAG then (content, False)
      else let count = tk_estimate env content
           in if count \<le> max_tokens then (content, False)
              else (tk_truncate env content max_tokens @
                    truncation_notice max_tokens count (truncation_hint tool) (tk_spill env tool content), True))"

end
