(* ===== verification/ToolResults.thy ===== *)
theory ToolResults
  imports Truncation Round
begin

text \<open>
  From the outcome of a tool task to the result the model and the supervisor see: repeated results are replaced
  (\<open>src/session/dedup.rs\<close>), failures are counted (\<open>src/session/chat/tool_error_tracker.rs\<close>), and every call gets
  a result, capped in size (\<open>execute_tools_with_context\<close> and \<open>handle_large_tool_results\<close> of
  \<open>src/session/chat/response/tool_execution.rs\<close>). The hash function and the tokenizer are arguments.
\<close>

section \<open>Repeated results\<close>

type_synonym dedup_state = "string \<Rightarrow> u64 set option"

definition MIN_DEDUP_CONTENT_LEN :: nat where "MIN_DEDUP_CONTENT_LEN = 500"
definition SNIPPET_CHARS :: nat where "SNIPPET_CHARS = 120"

definition session_key :: "string option \<Rightarrow> string" where
  "session_key session_id = (case session_id of Some s \<Rightarrow> s | None \<Rightarrow> ''_global_'')"

definition is_duplicate ::
  "(string \<Rightarrow> string \<Rightarrow> string \<Rightarrow> u64) \<Rightarrow> string \<Rightarrow> string \<Rightarrow> string \<Rightarrow> string \<Rightarrow> dedup_state \<Rightarrow> bool" where
  "is_duplicate hash sk tool args content st \<longleftrightarrow>
     \<not> length content < MIN_DEDUP_CONTENT_LEN \<and>
     (case st sk of Some seen \<Rightarrow> hash tool args content \<in> seen | None \<Rightarrow> False)"

definition record_seen ::
  "(string \<Rightarrow> string \<Rightarrow> string \<Rightarrow> u64) \<Rightarrow> string \<Rightarrow> string \<Rightarrow> string \<Rightarrow> string \<Rightarrow> dedup_state \<Rightarrow> dedup_state" where
  "record_seen hash sk tool args content st =
     (if length content < MIN_DEDUP_CONTENT_LEN then st
      else st(sk \<mapsto> insert (hash tool args content) (case st sk of Some seen \<Rightarrow> seen | None \<Rightarrow> {})))"

definition clear_session :: "string \<Rightarrow> dedup_state \<Rightarrow> dedup_state" where
  "clear_session sk st = st(sk := None)"

definition clear_current_session :: "string option \<Rightarrow> dedup_state \<Rightarrow> dedup_state" where
  "clear_current_session session_id st = clear_session (session_key session_id) st"

definition snippet :: "string \<Rightarrow> string" where
  "snippet line =
     (let line = trim line
      in if SNIPPET_CHARS < count_chars line then take_chars SNIPPET_CHARS line @ ellipsis else line)"

definition first_snippet :: "string list \<Rightarrow> string" where
  "first_snippet ls = (case find (\<lambda>l. \<not> is_blank l) ls of Some l \<Rightarrow> snippet l | None \<Rightarrow> [])"

definition placeholder :: "string \<Rightarrow> string \<Rightarrow> bool \<Rightarrow> string" where
  "placeholder tool content was_truncated =
     ''[duplicate tool call '' @ long_dash @ '' `'' @ tool @
     (if was_truncated
      then ''`: identical args returned the same truncated output already in your context '' @ long_dash @
           '' re-running yields no more. To reach the cut-off part, '' @ truncation_hint tool @ ''.]''
      else let first = first_snippet (str_lines content); final = first_snippet (rev (str_lines content));
               fingerprint = (if first = final then ''it begins: '' @ first
                              else ''it begins: '' @ first @ '' '' @ long_dash @ '' and ends: '' @ final)
           in ''`: identical args returned the same output you already have ('' @ fingerprint @
              ''). Reuse that earlier result; only call again with different args or a different tool if you need '' @
              ''something it does not contain.]'')"

section \<open>Failures in a row\<close>

record error_tracker =
  et_errors :: "string \<Rightarrow> (string \<Rightarrow> nat option) option"
  et_max :: nat

definition new_tracker :: "nat \<Rightarrow> error_tracker" where
  "new_tracker m = \<lparr>et_errors = (\<lambda>_. None), et_max = m\<rparr>"

definition current_server :: string where "current_server = ''current_server''"

definition get_error_count :: "string \<Rightarrow> error_tracker \<Rightarrow> nat" where
  "get_error_count tool et =
     (case et_errors et tool of
        Some servers \<Rightarrow> (case servers current_server of Some n \<Rightarrow> n | None \<Rightarrow> 0)
      | None \<Rightarrow> 0)"

definition record_error :: "string \<Rightarrow> error_tracker \<Rightarrow> bool \<times> error_tracker" where
  "record_error tool et =
     (let servers = (case et_errors et tool of Some servers \<Rightarrow> servers | None \<Rightarrow> (\<lambda>_. None));
          count = (case servers current_server of Some n \<Rightarrow> n | None \<Rightarrow> 0) + 1
      in (et_max et \<le> count, et\<lparr>et_errors := (et_errors et)(tool \<mapsto> servers(current_server \<mapsto> count))\<rparr>))"

definition record_success :: "string \<Rightarrow> error_tracker \<Rightarrow> error_tracker" where
  "record_success tool et =
     (case et_errors et tool of
        Some servers \<Rightarrow> et\<lparr>et_errors := (et_errors et)(tool \<mapsto> (\<lambda>_. None))\<rparr>
      | None \<Rightarrow> et)"

definition loop_error_message :: "string \<Rightarrow> nat \<Rightarrow> string \<Rightarrow> string" where
  "loop_error_message tool max_errors last_error =
     ''LOOP DETECTED: Tool '' @ [CHR 0x27] @ tool @ [CHR 0x27] @ '' failed '' @ show_nat max_errors @
     '' consecutive times. Last error: '' @ last_error @
     ''. Please try a completely different approach or ask the user for guidance.''"

definition attempt_error_message :: "nat \<Rightarrow> nat \<Rightarrow> string \<Rightarrow> string" where
  "attempt_error_message attempt max_errors error =
     ''Tool execution failed (attempt '' @ show_nat attempt @ ''/'' @ show_nat max_errors @ ''): '' @ error"

section \<open>One result per call\<close>

record tool_output = call_result +
  to_name :: string
  to_plain :: bool

datatype task_outcome = ToolReturned tool_output | ToolFailed string | TaskLost string

definition error_result :: "string \<Rightarrow> string \<Rightarrow> string \<Rightarrow> tool_output" where
  "error_result tool call_id message =
     \<lparr>tr_id = call_id, tr_content = message, tr_error = True, to_name = tool, to_plain = True\<rparr>"

definition success_result :: "string \<Rightarrow> string \<Rightarrow> string \<Rightarrow> tool_output" where
  "success_result tool call_id content =
     \<lparr>tr_id = call_id, tr_content = content, tr_error = False, to_name = tool, to_plain = True\<rparr>"

record settle_env =
  st_hash :: "string \<Rightarrow> string \<Rightarrow> string \<Rightarrow> u64"
  st_session :: "string option"
  st_main :: bool
  st_text_of :: "json \<Rightarrow> string"
  st_tokens :: truncate_env
  st_threshold :: nat

record tool_state =
  ts_seen :: dedup_state
  ts_errors :: error_tracker

definition stored_call :: "tool_call list \<Rightarrow> string \<Rightarrow> string \<Rightarrow> tool_call option" where
  "stored_call calls tool call_id =
     (case find (\<lambda>c. ca_id c = call_id) calls of
        Some c \<Rightarrow> Some c
      | None \<Rightarrow> find (\<lambda>c. ca_name c = tool) calls)"

definition dedup_args :: "settle_env \<Rightarrow> tool_call list \<Rightarrow> string \<Rightarrow> string \<Rightarrow> string" where
  "dedup_args env calls tool call_id =
     (case stored_call calls tool call_id of Some c \<Rightarrow> st_text_of env (ca_parameters c) | None \<Rightarrow> [])"

text \<open>The replacement of a successful result that was seen before; a first occurrence is recorded.\<close>

definition dedup_result ::
  "settle_env \<Rightarrow> tool_call list \<Rightarrow> string \<Rightarrow> string \<Rightarrow> tool_output \<Rightarrow> dedup_state \<Rightarrow> string option \<times> dedup_state" where
  "dedup_result env calls tool call_id res seen =
     (if tr_error res then (None, seen)
      else let content = tr_content res; args = dedup_args env calls tool call_id; sk = session_key (st_session env)
           in if is_duplicate (st_hash env) sk tool args content seen
              then (Some (placeholder tool content
                      (snd (truncate_mcp_response_global (st_tokens env) content (st_threshold env) tool))), seen)
              else (None, record_seen (st_hash env) sk tool args content seen))"

definition settle_returned ::
  "settle_env \<Rightarrow> tool_call list \<Rightarrow> string \<Rightarrow> string \<Rightarrow> tool_output \<Rightarrow> tool_state \<Rightarrow> tool_output \<times> tool_state" where
  "settle_returned env calls tool call_id res st =
     (let (replaced, seen) = dedup_result env calls tool call_id res (ts_seen st); st = st\<lparr>ts_seen := seen\<rparr>
      in case replaced of
           Some message \<Rightarrow> (error_result tool call_id message, st)
         | None \<Rightarrow>
             (res,
              if \<not> st_main env then st
              else if tr_error res then st\<lparr>ts_errors := snd (record_error tool (ts_errors st))\<rparr>
              else st\<lparr>ts_errors := record_success tool (ts_errors st)\<rparr>))"

definition settle_failed ::
  "settle_env \<Rightarrow> string \<Rightarrow> string \<Rightarrow> string \<Rightarrow> tool_state \<Rightarrow> tool_output \<times> tool_state" where
  "settle_failed env tool call_id e st =
     (if \<not> st_main env then (error_result tool call_id (''Tool execution failed: '' @ e), st)
      else let (loop_detected, et) = record_error tool (ts_errors st)
           in (error_result tool call_id
                 (if loop_detected then loop_error_message tool (et_max et) e
                  else attempt_error_message (get_error_count tool et) (et_max et) e),
               st\<lparr>ts_errors := et\<rparr>))"

fun settle ::
  "settle_env \<Rightarrow> tool_call list \<Rightarrow> string \<times> string \<times> task_outcome \<Rightarrow> tool_state \<Rightarrow> tool_output \<times> tool_state" where
  "settle env calls (tool, call_id, ToolReturned res) st = settle_returned env calls tool call_id res st"
| "settle env calls (tool, call_id, ToolFailed e) st = settle_failed env tool call_id e st"
| "settle env calls (tool, call_id, TaskLost e) st =
     (error_result tool call_id (''Internal task error: '' @ e), st)"

fun settle_all ::
  "settle_env \<Rightarrow> tool_call list \<Rightarrow> (string \<times> string \<times> task_outcome) list \<Rightarrow> tool_state \<Rightarrow> tool_output list \<times> tool_state" where
  "settle_all env calls [] st = ([], st)"
| "settle_all env calls (t # ts) st =
     (let (r, st) = settle env calls t st; (rs, st) = settle_all env calls ts st in (r # rs, st))"

text \<open>The hard cap on a plain result; its error flag is kept.\<close>

definition cap_result :: "settle_env \<Rightarrow> tool_output \<Rightarrow> tool_output" where
  "cap_result env r =
     (if \<not> to_plain r then r
      else let (content, was_truncated) =
             truncate_mcp_response_global (st_tokens env) (tr_content r) (st_threshold env) (to_name r)
           in if was_truncated then r\<lparr>tr_content := content\<rparr> else r)"

definition handle_large_tool_results :: "settle_env \<Rightarrow> tool_output list \<Rightarrow> tool_output list" where
  "handle_large_tool_results env rs = map (cap_result env) rs"

text \<open>
  What settles a batch once its tasks have ended: the tasks carry the name and the identifier of their call. The
  whole batch, from the check of the guards to the condenser, is \<open>ToolBatch.execute_tools_with_context\<close>.
\<close>

definition settle_batch ::
  "settle_env \<Rightarrow> tool_call list \<Rightarrow> task_outcome list \<Rightarrow> tool_state \<Rightarrow> tool_output list \<times> tool_state" where
  "settle_batch env calls outcomes st =
     settle_all env calls (map2 (\<lambda>c out. (ca_name c, ca_id c, out)) calls outcomes) st"

end
