(* ===== verification/ToolCorrect.thy ===== *)
theory ToolCorrect
  imports ToolResults CompletionCorrect
begin

text \<open>
  Properties of tool results: a settled result is under the identifier of its call, a result is replaced exactly when the model was shown the
  same one since the last compaction, capping twice is capping once, and what the supervisor makes of a repeat.
\<close>

section \<open>Truncation\<close>

lemma contains_simps [simp]:
  "str_contains a t \<Longrightarrow> str_contains (a @ b) t" "str_contains b t \<Longrightarrow> str_contains (a @ b) t" "str_contains t t"
  by (auto simp: str_contains_def sublist_def) (metis append.assoc)+

lemma notice_has_tag: "str_contains (truncation_notice m n h p) TRUNCATION_NOTICE_TAG"
  by (simp add: truncation_notice_def shown_counts_def)

lemma truncated_has_tag:
  "truncate_mcp_response_global env c m tool = (c', True) \<Longrightarrow> str_contains c' TRUNCATION_NOTICE_TAG"
  by (auto simp: truncate_mcp_response_global_def Let_def notice_has_tag split: if_splits)

lemma untruncated_same: "truncate_mcp_response_global env c m tool = (c', False) \<Longrightarrow> c' = c"
  by (auto simp: truncate_mcp_response_global_def Let_def split: if_splits)

lemma tagged_output_escapes_cap:
  "str_contains c TRUNCATION_NOTICE_TAG \<Longrightarrow> truncate_mcp_response_global env c m tool = (c, False)"
  by (simp add: truncate_mcp_response_global_def)

lemma truncate_again:
  "truncate_mcp_response_global env c m tool = (c', t) \<Longrightarrow>
   fst (truncate_mcp_response_global env c' m tool) = c'"
  using truncated_has_tag[of env c m tool c'] untruncated_same[of env c m tool c']
  by (cases t) (auto simp: tagged_output_escapes_cap)

lemma cap_frame [simp]:
  "tr_id (cap_result env r) = tr_id r" "tr_error (cap_result env r) = tr_error r"
  "to_name (cap_result env r) = to_name r" "to_plain (cap_result env r) = to_plain r"
  by (simp_all add: cap_result_def split: prod.splits)

lemma cap_content:
  "tr_content (cap_result env r) =
   (if to_plain r then fst (truncate_mcp_response_global (st_tokens env) (tr_content r) (st_threshold env) (to_name r))
    else tr_content r)"
  by (auto simp: cap_result_def dest: untruncated_same split: prod.splits)

lemma cap_again: "cap_result env (cap_result env r) = cap_result env r"
proof -
  have "tr_content (cap_result env (cap_result env r)) = tr_content (cap_result env r)"
    unfolding cap_content[of env "cap_result env r"]
    by (simp add: cap_content truncate_again[of _ _ _ _ _ "snd (truncate_mcp_response_global _ _ _ _)", OF surjective_pairing])
  then show ?thesis by (intro tool_output.equality) simp_all
qed

text \<open>A capped plain result without the tag is within the limit, or there is no limit.\<close>

lemma capped_within:
  assumes "to_plain r" and "\<not> str_contains (tr_content (cap_result env r)) TRUNCATION_NOTICE_TAG"
  shows "st_threshold env = 0 \<or> tk_estimate (st_tokens env) (tr_content (cap_result env r)) \<le> st_threshold env"
  using assms notice_has_tag by (auto simp: cap_content truncate_mcp_response_global_def Let_def split: if_splits)

section \<open>Identifiers\<close>

definition answers :: "tool_call \<Rightarrow> task_outcome \<Rightarrow> bool" where
  "answers c out = (case out of ToolReturned res \<Rightarrow> tr_id res = ca_id c | _ \<Rightarrow> True)"

lemma settle_id:
  assumes "settle env calls (tool, i, out) st = (r, st')" and "case out of ToolReturned res \<Rightarrow> tr_id res = i | _ \<Rightarrow> True"
  shows "tr_id r = i"
  using assms
  by (cases out) (auto simp: settle_returned_def settle_failed_def error_result_def Let_def
      split: prod.splits option.splits if_splits)

lemma settle_all_ids:
  assumes "settle_all env calls (map2 (\<lambda>c out. (ca_name c, ca_id c, out)) cs outs) st = (rs, st')"
    and "list_all2 answers cs outs"
  shows "map tr_id rs = map ca_id cs"
  using assms(2,1)
proof (induction arbitrary: st rs st' rule: list_all2_induct)
  case (Cons c cs out outs)
  obtain r st1 where r: "settle env calls (ca_name c, ca_id c, out) st = (r, st1)" by force
  obtain rs1 st2 where rs1: "settle_all env calls (map2 (\<lambda>c out. (ca_name c, ca_id c, out)) cs outs) st1 = (rs1, st2)"
    by force
  have "tr_id r = ca_id c" using settle_id[OF r] Cons.hyps(1) by (simp add: answers_def)
  moreover have "map tr_id rs1 = map ca_id cs" by (rule Cons.IH[OF rs1])
  moreover have "rs = r # rs1" using Cons.prems r rs1 by simp
  ultimately show ?case by simp
qed simp

section \<open>Histories of settled calls\<close>

text \<open>
  A session settles task outcomes and is compacted now and then; the successes since the last compaction are
  what the model still has before it.
\<close>

datatype tool_event = Settled "tool_call list" string string task_outcome | CompactionDone

fun tool_step :: "settle_env \<Rightarrow> tool_event \<Rightarrow> tool_state \<Rightarrow> tool_state" where
  "tool_step env (Settled calls tool i out) st = snd (settle env calls (tool, i, out) st)"
| "tool_step env CompactionDone st = st\<lparr>ts_seen := clear_current_session (st_session env) (ts_seen st)\<rparr>"

definition fresh_tools :: "nat \<Rightarrow> tool_state" where
  "fresh_tools max_errors = \<lparr>ts_seen = (\<lambda>_. None), ts_errors = new_tracker max_errors\<rparr>"

definition tool_run :: "settle_env \<Rightarrow> nat \<Rightarrow> tool_event list \<Rightarrow> tool_state" where
  "tool_run env max_errors es = fold (tool_step env) es (fresh_tools max_errors)"

lemma tool_run_simps [simp]:
  "tool_run env m [] = fresh_tools m"
  "tool_run env m (es @ [e]) = tool_step env e (tool_run env m es)"
  by (simp_all add: tool_run_def)

type_synonym shown = "string \<times> string \<times> string"

fun shown_by :: "settle_env \<Rightarrow> tool_event \<Rightarrow> shown list" where
  "shown_by env (Settled calls tool i (ToolReturned res)) =
     (if tr_error res then [] else [(tool, dedup_args env calls tool i, tr_content res)])"
| "shown_by env _ = []"

definition since_compaction :: "tool_event list \<Rightarrow> tool_event list" where
  "since_compaction es = rev (takeWhile (\<lambda>e. e \<noteq> CompactionDone) (rev es))"

lemma since_compaction_simps [simp]:
  "since_compaction [] = []" "since_compaction (es @ [CompactionDone]) = []"
  "e \<noteq> CompactionDone \<Longrightarrow> since_compaction (es @ [e]) = since_compaction es @ [e]"
  by (simp_all add: since_compaction_def)

definition successes :: "settle_env \<Rightarrow> tool_event list \<Rightarrow> shown set" where
  "successes env es = (\<Union>e\<in>set es. set (shown_by env e))"

lemma successes_simps [simp]:
  "successes env [] = {}" "successes env (es @ fs) = successes env es \<union> successes env fs"
  "successes env [e] = set (shown_by env e)"
  by (auto simp: successes_def)

abbreviation long_content :: "shown \<Rightarrow> bool" where
  "long_content \<equiv> \<lambda>(tool, args, content). MIN_DEDUP_CONTENT_LEN \<le> length content"

abbreviation hash_of :: "settle_env \<Rightarrow> shown \<Rightarrow> u64" where
  "hash_of env \<equiv> \<lambda>(tool, args, content). st_hash env tool args content"

definition seen_hashes :: "settle_env \<Rightarrow> tool_state \<Rightarrow> u64 set" where
  "seen_hashes env st = (case ts_seen st (session_key (st_session env)) of Some seen \<Rightarrow> seen | None \<Rightarrow> {})"

lemma is_duplicate_seen:
  "is_duplicate (st_hash env) (session_key (st_session env)) tool args content (ts_seen st) \<longleftrightarrow>
   long_content (tool, args, content) \<and> hash_of env (tool, args, content) \<in> seen_hashes env st"
  by (auto simp: is_duplicate_def seen_hashes_def split: option.splits)

lemma settle_seen:
  "seen_hashes env (snd (settle env calls (tool, i, out) st)) =
   seen_hashes env st \<union> hash_of env ` {t \<in> set (shown_by env (Settled calls tool i out)). long_content t}"
proof (cases out)
  case (ToolReturned res)
  then show ?thesis
    by (auto simp: settle_returned_def dedup_result_def Let_def is_duplicate_seen seen_hashes_def record_seen_def
        split: if_splits option.splits)
qed (auto simp: settle_failed_def seen_hashes_def Let_def split: prod.splits)

lemma seen_history:
  "seen_hashes env (tool_run env m es) = hash_of env ` {t \<in> successes env (since_compaction es). long_content t}"
proof (induction es rule: rev_induct)
  case Nil
  then show ?case by (simp add: seen_hashes_def fresh_tools_def)
next
  case (snoc e es)
  show ?case
  proof (cases e)
    case (Settled calls tool i out)
    then show ?thesis
      by (simp only: tool_run_simps tool_step.simps settle_seen snoc since_compaction_simps(3) tool_event.distinct
          successes_simps not_False_eq_True image_Un[symmetric]) (rule arg_cong[where f = "image _"], blast)
  next
    case CompactionDone
    then show ?thesis by (simp add: seen_hashes_def clear_current_session_def clear_session_def)
  qed
qed

lemma dedup_result_None:
  "fst (dedup_result env calls tool i res (ts_seen st)) \<noteq> None \<longleftrightarrow>
   (\<exists>t\<in>set (shown_by env (Settled calls tool i (ToolReturned res))). long_content t \<and> hash_of env t \<in> seen_hashes env st)"
  by (simp add: dedup_result_def Let_def is_duplicate_seen)

text \<open>A replaced result and a result that passes.\<close>

lemma settle_returned_result:
  "fst (settle env calls (tool, i, ToolReturned res) st) =
   (case fst (dedup_result env calls tool i res (ts_seen st)) of
      Some message \<Rightarrow> error_result tool i message | None \<Rightarrow> res)"
  by (auto simp: settle_returned_def Let_def split: prod.splits option.splits)

section \<open>Properties\<close>

definition demo_tokens :: truncate_env where
  "demo_tokens = \<lparr>tk_estimate = length, tk_truncate = (\<lambda>s n. take n s), tk_spill = (\<lambda>_ _. None)\<rparr>"

definition demo_settle :: settle_env where
  "demo_settle = \<lparr>st_hash = (\<lambda>a b c. of_nat (length c)), st_session = Some ''s'', st_main = True,
     st_text_of = (\<lambda>_. []), st_tokens = demo_tokens, st_threshold = 0\<rparr>"

definition demo_call :: "string \<Rightarrow> tool_call" where
  "demo_call i = \<lparr>ca_id = i, ca_name = ''shell'', ca_parameters = JObj [(''command'', JStr ''make check'')]\<rparr>"

definition demo_output :: "string \<Rightarrow> tool_output" where
  "demo_output i = \<lparr>tr_id = i, tr_content = replicate 600 CHR ''x'', tr_error = False, to_name = ''shell'', to_plain = True\<rparr>"

text \<open>
  A result is replaced exactly when the model has it already: a successful output of at least 500 bytes is
  replaced by the placeholder if the same tool returned the same output for the same arguments since the last
  compaction, and every other result (errors, short outputs, first occurrences, what compaction removed) passes
  unchanged. The hash is assumed not to collide on the outputs concerned.
\<close>

theorem results_shown_once:
  assumes "inj_on (hash_of env) (insert (tool, dedup_args env calls tool i, tr_content res) (successes env (since_compaction es)))"
  shows "fst (settle env calls (tool, i, ToolReturned res) (tool_run env m es)) =
    (if \<not> tr_error res \<and> MIN_DEDUP_CONTENT_LEN \<le> length (tr_content res) \<and>
        (tool, dedup_args env calls tool i, tr_content res) \<in> successes env (since_compaction es)
     then error_result tool i (placeholder tool (tr_content res)
            (snd (truncate_mcp_response_global (st_tokens env) (tr_content res) (st_threshold env) tool)))
     else res)"
proof -
  let ?t = "(tool, dedup_args env calls tool i, tr_content res)" and ?S = "successes env (since_compaction es)"
  have "hash_of env ?t \<in> seen_hashes env (tool_run env m es) \<longleftrightarrow> ?t \<in> ?S" if "long_content ?t"
    unfolding seen_history using that inj_onD[OF assms, of ?t] by (force simp: image_iff)
  then show ?thesis unfolding settle_returned_result
    by (auto simp: dedup_result_def Let_def is_duplicate_seen)
qed

theorem results_shown_once_witness:
  "tr_error (fst (settle demo_settle [demo_call ''b''] (''shell'', ''b'', ToolReturned (demo_output ''b''))
     (tool_run demo_settle 3 [Settled [demo_call ''a''] ''shell'' ''a'' (ToolReturned (demo_output ''a''))])))"
proof -
  let ?es = "[Settled [demo_call ''a''] ''shell'' ''a'' (ToolReturned (demo_output ''a''))]"
  have s: "since_compaction ?es = ?es" by (simp add: since_compaction_def)
  have S: "successes demo_settle (since_compaction ?es) =
      {(''shell'', dedup_args demo_settle [demo_call ''b''] ''shell'' ''b'', tr_content (demo_output ''b''))}"
    unfolding s by (simp add: demo_output_def dedup_args_def stored_call_def demo_call_def demo_settle_def)
  show ?thesis
    by (subst results_shown_once)
      (simp_all add: S, simp add: error_result_def demo_output_def MIN_DEDUP_CONTENT_LEN_def)
qed

section \<open>What the supervisor makes of a repeat\<close>

text \<open>
  The replaced result is an error result, and the supervised round takes it for one: re-running a check whose
  long output is what it was before counts as a failure of the check, and the verification debt stays, although
  the check succeeded.
\<close>

lemma repeated_is_error:
  assumes "fst (dedup_result senv [c] (ca_name c) (ca_id c) res (ts_seen st)) \<noteq> None"
  shows "\<exists>r. handle_large_tool_results senv (fst (settle_batch senv [c] [ToolReturned res] st)) = [r] \<and> tr_id r = ca_id c \<and> tr_error r"
  using assms
  by (auto simp: settle_batch_def handle_large_tool_results_def settle_returned_def error_result_def Let_def
      split: prod.splits)

lemma failed_check_recorded:
  assumes "\<And>xs. set (dv_iter env xs) = set xs" and "card (dt_failed_verifiers d) < FAILED_VERIFIERS_CAP"
  shows "k \<in> dt_failed_verifiers (snd (record_round_verifier_outcomes env [(k, False)] threshold d))"
proof -
  have "fold add_failed (dv_iter env [k]) F = insert k F" if "card F < FAILED_VERIFIERS_CAP" for F
  proof -
    have "add_failed x (insert k G) = insert k G" if "x = k" for x G using that by (auto simp: add_failed_def)
    then have "fold add_failed ks (insert k G) = insert k G" if "set ks \<subseteq> {k}" for ks G
      using that by (induction ks) auto
    moreover obtain ks where "dv_iter env [k] = k # ks" "set ks \<subseteq> {k}"
      using assms(1)[of "[k]"] by (cases "dv_iter env [k]") auto
    ultimately show ?thesis using that by (simp add: add_failed_def)
  qed
  with assms(2) show ?thesis by (simp add: record_round_verifier_outcomes_def Let_def)
qed

lemma repeated_check_fails:
  assumes "fst (dedup_result senv [c] (ca_name c) (ca_id c) res (ts_seen st)) \<noteq> None" and "\<not> tr_error res"
    and "verifier_key (rd_detect env) (ca_name c) (ca_parameters c) = Some k"
    and "\<And>xs. set (dv_iter (rd_detect env) xs) = set xs"
    and "card (dt_failed_verifiers (su_detectors s)) < FAILED_VERIFIERS_CAP"
    and "hb_finished (su_handback s) = 0" and "dt_agent_dirty (su_detectors s)"
  defines "d \<equiv> su_detectors (supervise_round env [c]
      (map call_result.truncate (handle_large_tool_results senv (fst (settle_batch senv [c] [ToolReturned res] st)))) s)"
  shows "k \<in> dt_failed_verifiers d \<and> dt_agent_dirty d"
proof -
  obtain r where r: "handle_large_tool_results senv (fst (settle_batch senv [c] [ToolReturned res] st)) = [r]" "tr_id r = ca_id c" "tr_error r"
    using repeated_is_error[OF assms(1)] by blast
  have seen: "dt_failed_verifiers (snd (note_call dv tool content e m d)) = dt_failed_verifiers d"
    "dt_agent_dirty (snd (note_call dv tool content e m d)) = dt_agent_dirty d" for dv tool content e m d
    by (simp_all add: note_call_def Let_def)
  have signals: "dt_failed_verifiers (snd (record_round_signals dv hs novel lt nw d)) = dt_failed_verifiers d"
    "dt_agent_dirty (snd (record_round_signals dv hs novel lt nw d)) = dt_agent_dirty d" for dv hs novel lt nw d
    by (simp_all add: record_round_signals_def Let_def)
  have outcomes: "dt_agent_dirty (snd (record_round_verifier_outcomes dv os t d)) = dt_agent_dirty d" for dv os t d
    by (simp add: record_round_verifier_outcomes_def Let_def)
  obtain l' d' acc where f: "fold_call env [call_result.truncate r] c ((su_evidence s, su_detectors s), empty_acc) =
      ((l', d'), acc)" by (metis prod.exhaust)
  have result: "result_of [call_result.truncate r] c = (tr_content r, True)"
    using r by (simp add: result_of_def call_result.truncate_def)
  let ?m = "is_mutation_call (rd_detect env) (ca_name c) (ca_parameters c)"
  obtain h n d1 where nc: "note_call (rd_detect env) (ca_name c) (tr_content r) True ?m (su_detectors s) = ((h, n), d1)"
    by (metis prod.exhaust)
  have acc: "ra_outcomes acc = [(k, False)]" "\<not> ra_verifier acc" "\<not> ra_readback acc" "\<not> ra_mutation acc"
    and "d' = d1"
    using f assms(3) nc by (auto simp: fold_call_def result Let_def empty_acc_def is_readback_call_def split: prod.splits)
  then have d': "dt_failed_verifiers d' = dt_failed_verifiers (su_detectors s)" "dt_agent_dirty d'"
    using seen[of "rd_detect env" "ca_name c" "tr_content r" True ?m "su_detectors s"] nc assms(7) by simp_all
  have verified: "dt_failed_verifiers (note_round_verification f d) = dt_failed_verifiers d" for f d
    by (simp add: note_round_verification_def Let_def)
  have dirty: "dt_agent_dirty (note_round_verification (round_facts_of env (0, n) acc) d')" for n
    using acc d'(2) by (simp add: note_round_verification_def round_verifies_def round_delegated_def round_facts_of_def Let_def)
  show ?thesis
    unfolding d_def r(1) using f acc(1) d' assms(4,5,6) dirty
    by (auto simp: supervise_round_def take_handback_def Let_def verified signals outcomes split: prod.splits
        intro!: failed_check_recorded dest!: arg_cong[where f = snd])
qed

end
