(* ===== verification/ToolMap.thy ===== *)
theory ToolMap
  imports Json Prelude "HOL-Library.AList"
begin

text \<open>
  The routing table of tools (\<open>src/mcp/tool_map.rs\<close>): which server runs a tool. A hash map is the list of
  its pairs in iteration order, with distinct keys. The functions that a server reports, the hash of the
  standard library and the project's own scripts are arguments.
\<close>

section \<open>Server configurations\<close>

datatype server_config =
    Builtin (sc_name: string) (sc_timeout: u64) (sc_tools: "string list") (sc_auto_bind: "string list option")
  | Http (sc_name: string) (sc_url: string) (sc_timeout: u64) (sc_tools: "string list")
      (sc_headers: "(string \<times> string) list") (sc_auto_bind: "string list option")
  | Stdin (sc_name: string) (sc_command: string) (sc_args: "string list") (sc_timeout: u64) (sc_tools: "string list")
      (sc_env: "(string \<times> string) list") (sc_cwd: "string option") (sc_auto_bind: "string list option")

datatype connection_type = BuiltinConn | StdinConn | HttpConn

fun connection_type_of :: "server_config \<Rightarrow> connection_type" where
  "connection_type_of (Builtin _ _ _ _) = BuiltinConn"
| "connection_type_of (Http _ _ _ _ _ _) = HttpConn"
| "connection_type_of (Stdin _ _ _ _ _ _ _ _) = StdinConn"

fun with_auto_bind :: "string list option \<Rightarrow> server_config \<Rightarrow> server_config" where
  "with_auto_bind b (Builtin n t ts _) = Builtin n t ts b"
| "with_auto_bind b (Http n u t ts hs _) = Http n u t ts hs b"
| "with_auto_bind b (Stdin n c as t ts e d _) = Stdin n c as t ts e d b"

lemma with_auto_bind_keeps [simp]:
  "sc_name (with_auto_bind b s) = sc_name s" "sc_tools (with_auto_bind b s) = sc_tools s"
  "sc_auto_bind (with_auto_bind b s) = b"
  by (cases s; simp)+

definition find_server :: "string \<Rightarrow> server_config list \<Rightarrow> server_config option" where
  "find_server name servers = find (\<lambda>s. sc_name s = name) servers"

lemma find_server_None: "find_server name servers = None \<longleftrightarrow> name \<notin> sc_name ` set servers"
  by (auto simp: find_server_def find_None_iff)

lemma find_server_Some:
  "find_server name servers = Some s \<Longrightarrow> s \<in> set servers \<and> sc_name s = name"
  by (auto simp: find_server_def find_Some_iff)

record mcp_function =
  fn_name :: string
  fn_description :: string
  fn_parameters :: json

text \<open>A pattern that ends in a star allows the names that start with the rest, another one its own name.\<close>

definition pattern_allows :: "string \<Rightarrow> string \<Rightarrow> bool" where
  "pattern_allows name p =
     (if ends_with p ''*'' then starts_with name (butlast p) else name = p)"

definition is_tool_allowed_by_patterns :: "string \<Rightarrow> string list \<Rightarrow> bool" where
  "is_tool_allowed_by_patterns name allowed \<longleftrightarrow> allowed = [] \<or> list_ex (pattern_allows name) allowed"

definition filter_tools_by_patterns :: "mcp_function list \<Rightarrow> string list \<Rightarrow> mcp_function list" where
  "filter_tools_by_patterns tools allowed =
     (if allowed = [] then tools else filter (\<lambda>f. is_tool_allowed_by_patterns (fn_name f) allowed) tools)"

section \<open>The table\<close>

type_synonym tool_table = "(string \<times> server_config) list"

record tool_map =
  tm_servers :: tool_table
  tm_static :: "string set"
  tm_initialized :: bool
  tm_config_hash :: u64

definition default_tool_map :: tool_map where
  "default_tool_map = \<lparr>tm_servers = [], tm_static = {}, tm_initialized = False, tm_config_hash = 0\<rparr>"

text \<open>\<open>entry(k).or_insert(v)\<close> for every tool of a server: the first server wins.\<close>

fun offer_tools :: "server_config \<Rightarrow> string list \<Rightarrow> tool_table \<Rightarrow> tool_table" where
  "offer_tools s [] m = m"
| "offer_tools s (t # ts) m = offer_tools s ts (if map_of m t = None then m @ [(t, s)] else m)"

fun offer_all :: "(server_config \<times> string list) list \<Rightarrow> tool_table \<Rightarrow> tool_table" where
  "offer_all [] m = m"
| "offer_all ((s, ts) # rest) m = offer_all rest (offer_tools s ts m)"

definition agent_tool :: "string \<Rightarrow> string" where "agent_tool name = ''agent_'' @ name"

definition agent_server :: "string \<Rightarrow> server_config" where
  "agent_server name = Builtin ''agent'' 300 [agent_tool name] None"

definition LOCAL_SERVER_NAME :: string where "LOCAL_SERVER_NAME = ''local''"

definition local_server :: "string \<Rightarrow> server_config" where
  "local_server tool = Builtin LOCAL_SERVER_NAME 300 [tool] None"

text \<open>
  What the table is built from: for a builtin server its functions, for an external one the answer of
  \<open>get_server_functions_cached\<close>, the servers of the session that are registered but disabled, its enabled
  servers with their functions, its enabled agents, and the scripts of the project.
\<close>

record map_sources =
  ms_builtin :: "string \<Rightarrow> mcp_function list"
  ms_cached :: "server_config \<Rightarrow> string + mcp_function list"
  ms_disabled :: "string \<Rightarrow> bool"
  ms_dynamic :: "(server_config \<times> mcp_function list option) list"
  ms_agents :: "string list"
  ms_local :: "mcp_function list"

definition builtin_servers :: "string list" where
  "builtin_servers = [''core'', ''runtime'', ''orchestration'', ''agent'']"

definition server_functions :: "map_sources \<Rightarrow> server_config \<Rightarrow> mcp_function list" where
  "server_functions ms s =
     (if connection_type_of s = BuiltinConn
      then if sc_name s \<in> set builtin_servers then filter_tools_by_patterns (ms_builtin ms (sc_name s)) (sc_tools s) else []
      else case ms_cached ms s of Inr fs \<Rightarrow> filter_tools_by_patterns fs (sc_tools s) | Inl _ \<Rightarrow> [])"

definition configured_tools :: "map_sources \<Rightarrow> server_config list \<Rightarrow> (server_config \<times> string list) list" where
  "configured_tools ms servers =
     map (\<lambda>s. (s, map fn_name (server_functions ms s))) (filter (\<lambda>s. \<not> ms_disabled ms (sc_name s)) servers)"

definition dynamic_tools :: "map_sources \<Rightarrow> (server_config \<times> string list) list" where
  "dynamic_tools ms =
     map (\<lambda>(s, fs). (s, case fs of Some fs \<Rightarrow> map fn_name fs | None \<Rightarrow> [])) (ms_dynamic ms)"

definition build_tool_server_map :: "map_sources \<Rightarrow> server_config list \<Rightarrow> tool_table" where
  "build_tool_server_map ms servers =
     offer_all (configured_tools ms servers @ dynamic_tools ms
        @ map (\<lambda>a. (agent_server a, [agent_tool a])) (ms_agents ms)
        @ map (\<lambda>f. (local_server (fn_name f), [fn_name f])) (ms_local ms)) []"

definition config_shape :: "server_config list \<Rightarrow> (string \<times> connection_type \<times> string list) list" where
  "config_shape servers = map (\<lambda>s. (sc_name s, connection_type_of s, sc_tools s)) servers"

definition initialize_tool_map ::
  "((string \<times> connection_type \<times> string list) list \<Rightarrow> u64) \<Rightarrow> map_sources \<Rightarrow> server_config list
   \<Rightarrow> tool_map option \<Rightarrow> tool_map" where
  "initialize_tool_map hash ms servers tm =
     (let st = (case tm of Some st \<Rightarrow> st | None \<Rightarrow> default_tool_map); h = hash (config_shape servers)
      in if tm_initialized st \<and> tm_config_hash st = h then st
         else let m = build_tool_server_map ms servers
              in \<lparr>tm_servers = m, tm_static = set (map fst m), tm_initialized = True, tm_config_hash = h\<rparr>)"

section \<open>Look-ups\<close>

definition ready_table :: "tool_map option \<Rightarrow> tool_table" where
  "ready_table tm = (case tm of Some st \<Rightarrow> if tm_initialized st then tm_servers st else [] | None \<Rightarrow> [])"

definition get_server_for_tool :: "(string \<Rightarrow> bool) \<Rightarrow> tool_map option \<Rightarrow> string \<Rightarrow> server_config option" where
  "get_server_for_tool is_local tm tool =
     (case map_of (ready_table tm) tool of
        Some s \<Rightarrow> if sc_name s \<noteq> LOCAL_SERVER_NAME \<or> is_local tool then Some s else None
      | None \<Rightarrow> if is_local tool then Some (local_server tool) else None)"

definition get_tool_server_name :: "(string \<Rightarrow> bool) \<Rightarrow> tool_map option \<Rightarrow> string \<Rightarrow> string option" where
  "get_tool_server_name is_local tm tool = map_option sc_name (get_server_for_tool is_local tm tool)"

definition map_is_initialized :: "tool_map option \<Rightarrow> bool" where
  "map_is_initialized tm = (case tm of Some st \<Rightarrow> tm_initialized st | None \<Rightarrow> False)"

definition get_all_tool_names :: "tool_map option \<Rightarrow> string list" where
  "get_all_tool_names tm = map fst (ready_table tm)"

definition get_tools_for_server :: "string \<Rightarrow> tool_map option \<Rightarrow> string list" where
  "get_tools_for_server name tm = map fst (filter (\<lambda>(_, s). sc_name s = name) (ready_table tm))"

definition get_all_server_names :: "tool_map option \<Rightarrow> string set" where
  "get_all_server_names tm = set (map (sc_name \<circ> snd) (ready_table tm))"

section \<open>Changes\<close>

definition register_dynamic_agent_tool :: "string \<Rightarrow> tool_map option \<Rightarrow> tool_map option" where
  "register_dynamic_agent_tool name =
     map_option (tm_servers_update (AList.update (agent_tool name) (agent_server name)))"

definition unregister_dynamic_agent_tool :: "string \<Rightarrow> tool_map option \<Rightarrow> tool_map option" where
  "unregister_dynamic_agent_tool name = map_option (tm_servers_update (AList.delete (agent_tool name)))"

definition register_dynamic_server_tools :: "server_config \<Rightarrow> string list \<Rightarrow> tool_map option \<Rightarrow> tool_map option" where
  "register_dynamic_server_tools s tools =
     map_option (tm_servers_update (fold (\<lambda>t. AList.update t s) tools))"

definition unregister_dynamic_server_tools :: "string list \<Rightarrow> tool_map option \<Rightarrow> tool_map option" where
  "unregister_dynamic_server_tools tools =
     map_option (\<lambda>st. tm_servers_update (fold (\<lambda>t m. if t \<in> tm_static st then m else AList.delete t m) tools) st)"

section \<open>Laws of the table\<close>

lemma map_of_offer_tools:
  "map_of (offer_tools s ts m) t = (case map_of m t of Some v \<Rightarrow> Some v | None \<Rightarrow> if t \<in> set ts then Some s else None)"
  by (induction ts arbitrary: m) (auto simp: map_add_def split: option.splits)

text \<open>The first server in order that offers a tool.\<close>

definition first_offer :: "string \<Rightarrow> (server_config \<times> string list) list \<Rightarrow> server_config option" where
  "first_offer t offers = map_option fst (find (\<lambda>(_, ts). t \<in> set ts) offers)"

lemma first_offer_simps [simp]:
  "first_offer t [] = None"
  "first_offer t ((s, ts) # rest) = (if t \<in> set ts then Some s else first_offer t rest)"
  by (simp_all add: first_offer_def)

lemma first_offer_append:
  "first_offer t (xs @ ys) = (case first_offer t xs of Some s \<Rightarrow> Some s | None \<Rightarrow> first_offer t ys)"
  by (induction xs) auto

lemma map_of_offer_all:
  "map_of (offer_all offers m) t = (case map_of m t of Some v \<Rightarrow> Some v | None \<Rightarrow> first_offer t offers)"
  by (induction offers arbitrary: m) (auto simp: map_of_offer_tools split: option.splits)

lemma map_of_register:
  "map_of (fold (\<lambda>t. AList.update t s) tools m) t = (if t \<in> set tools then Some s else map_of m t)"
  by (induction tools arbitrary: m) (auto simp: update_conv')

lemma map_of_unregister:
  "map_of (fold (\<lambda>t m. if t \<in> keep then m else AList.delete t m) tools m) t
   = (if t \<in> set tools \<and> t \<notin> keep then None else map_of m t)"
  by (induction tools arbitrary: m) (auto simp: delete_conv' )

lemma distinct_offer_tools: "distinct (map fst m) \<Longrightarrow> distinct (map fst (offer_tools s ts m))"
  by (induction ts arbitrary: m) (auto simp: map_of_eq_None_iff)

lemma distinct_offer_all: "distinct (map fst m) \<Longrightarrow> distinct (map fst (offer_all offers m))"
  by (induction offers arbitrary: m) (auto simp: distinct_offer_tools)

text \<open>The role's servers come first, in the order of the configuration.\<close>

lemma configured_server_wins:
  "first_offer t (configured_tools ms servers) = Some s \<Longrightarrow> map_of (build_tool_server_map ms servers) t = Some s"
  by (simp add: build_tool_server_map_def map_of_offer_all first_offer_append)

end
