(* ===== verification/Dynamic.thy ===== *)
theory Dynamic
  imports ToolMap
begin

text \<open>
  Servers added at run time (\<open>src/mcp/runtime/dynamic.rs\<close>, the session's registry in \<open>src/session/context.rs\<close>).
  With a current session they live in its registry, without one in the manager of the process. A session
  without an entry reads as one with empty tables. Connecting to a server, the TOML printer and the file
  system are arguments; stopping the operating system's process is not modelled.
\<close>

section \<open>Registries\<close>

record dyn_state =
  ds_servers :: "(string \<times> server_config) list"
  ds_functions :: "(string \<times> mcp_function list) list"
  ds_enabled :: "(string \<times> bool) list"

definition no_servers :: dyn_state where
  "no_servers = \<lparr>ds_servers = [], ds_functions = [], ds_enabled = []\<rparr>"

definition server_enabled :: "string \<Rightarrow> dyn_state \<Rightarrow> bool" where
  "server_enabled name ds \<longleftrightarrow> map_of (ds_enabled ds) name = Some True"

definition registered :: "string \<Rightarrow> dyn_state \<Rightarrow> bool" where
  "registered name ds \<longleftrightarrow> map_of (ds_servers ds) name \<noteq> None"

definition register_dynamic_server_for_session :: "server_config \<Rightarrow> dyn_state \<Rightarrow> dyn_state" where
  "register_dynamic_server_for_session s ds =
     ds\<lparr>ds_servers := AList.update (sc_name s) s (ds_servers ds), ds_enabled := AList.update (sc_name s) False (ds_enabled ds)\<rparr>"

definition merge_functions :: "mcp_function list \<Rightarrow> mcp_function list \<Rightarrow> mcp_function list" where
  "merge_functions entry funcs = entry @ filter (\<lambda>f. fn_name f \<notin> set (map fn_name entry)) funcs"

definition enable_dynamic_server_for_session ::
  "string \<Rightarrow> mcp_function list \<Rightarrow> dyn_state \<Rightarrow> bool \<times> dyn_state" where
  "enable_dynamic_server_for_session name funcs ds =
     (if registered name ds
      then let entry = (case map_of (ds_functions ds) name of Some fs \<Rightarrow> fs | None \<Rightarrow> [])
           in (True, ds\<lparr>ds_functions := AList.update name (merge_functions entry funcs) (ds_functions ds),
                        ds_enabled := AList.update name True (ds_enabled ds)\<rparr>)
      else (False, ds))"

definition disable_dynamic_server_for_session :: "string \<Rightarrow> dyn_state \<Rightarrow> bool \<times> dyn_state" where
  "disable_dynamic_server_for_session name ds =
     (if map_of (ds_enabled ds) name = None then (False, ds)
      else (True, ds\<lparr>ds_enabled := AList.update name False (ds_enabled ds), ds_functions := AList.delete name (ds_functions ds)\<rparr>))"

definition forget_server :: "string \<Rightarrow> dyn_state \<Rightarrow> server_config option \<times> dyn_state" where
  "forget_server name ds =
     (map_of (ds_servers ds) name,
      ds\<lparr>ds_functions := AList.delete name (ds_functions ds), ds_enabled := AList.delete name (ds_enabled ds),
         ds_servers := AList.delete name (ds_servers ds)\<rparr>)"

text \<open>An agent; the two \<open>f32\<close> options are their bits.\<close>

record agent_config =
  ag_name :: string
  ag_description :: string
  ag_system :: string
  ag_welcome :: string
  ag_model :: "string option"
  ag_temperature :: "u32 option"
  ag_top_p :: "u32 option"
  ag_top_k :: "u32 option"
  ag_server_refs :: "string list"
  ag_allowed_tools :: "string list"
  ag_workdir :: string

record agent_state =
  as_agents :: "(string \<times> agent_config) list"
  as_enabled :: "(string \<times> bool) list"

text \<open>The state the operations share, with the files of the configuration directory.\<close>

record mcp_world =
  mw_session :: bool
  mw_tools :: "tool_map option"
  mw_servers :: dyn_state
  mw_manager :: dyn_state
  mw_agents :: agent_state
  mw_agent_manager :: agent_state
  mw_cache :: "(string \<times> mcp_function list) list"
  mw_files :: "(string \<times> string) list"

record mcp_env =
  me_connect :: "server_config \<Rightarrow> string + mcp_function list"
  me_dir :: "string + string"
  me_toml :: "server_config \<Rightarrow> string + string"
  me_write :: "string \<Rightarrow> string option"
  me_delete :: "string \<Rightarrow> string option"
  me_role :: "string option"
  me_f32 :: "json \<Rightarrow> u32 option"
  me_print :: "json \<Rightarrow> string"

datatype mcp_err =
    EmptyServerName | NoCommand | NoUrl | AlreadyRegistered string | NotRegistered string | ConnectFailed string string
  | ServerNotFound string | NoConfigDir string | TomlFailed string | WriteFailed string string | DeleteFailed string string
  | MissingParam string | UnknownAction string | CommandRequired | UrlRequired | InvalidServerType | NotPersisted string
  | NoAgentName | NoAgentSystem | AgentRegistered string | AgentNotRegistered string | AgentNotFound string
  | NoSuchServerRef string "string set"

section \<open>Operations\<close>

definition servers_of :: "mcp_world \<Rightarrow> dyn_state" where
  "servers_of w = (if mw_session w then mw_servers w else mw_manager w)"

definition set_servers :: "dyn_state \<Rightarrow> mcp_world \<Rightarrow> mcp_world" where
  "set_servers ds w = (if mw_session w then w\<lparr>mw_servers := ds\<rparr> else w\<lparr>mw_manager := ds\<rparr>)"

definition register_server :: "server_config \<Rightarrow> mcp_world \<Rightarrow> mcp_err + mcp_world" where
  "register_server s w =
     (if sc_name s = [] then Inl EmptyServerName
      else case s of
             Stdin _ command _ _ _ _ _ _ \<Rightarrow> if command = [] then Inl NoCommand else
               if \<not> mw_session w \<and> registered (sc_name s) (mw_manager w) then Inl (AlreadyRegistered (sc_name s))
               else Inr (set_servers (register_dynamic_server_for_session s (servers_of w)) w)
           | Http _ url _ _ _ _ \<Rightarrow> if url = [] then Inl NoUrl else
               if \<not> mw_session w \<and> registered (sc_name s) (mw_manager w) then Inl (AlreadyRegistered (sc_name s))
               else Inr (set_servers (register_dynamic_server_for_session s (servers_of w)) w)
           | Builtin _ _ _ _ \<Rightarrow>
               if \<not> mw_session w \<and> registered (sc_name s) (mw_manager w) then Inl (AlreadyRegistered (sc_name s))
               else Inr (set_servers (register_dynamic_server_for_session s (servers_of w)) w))"

definition apply_filter :: "string list option \<Rightarrow> mcp_function list \<Rightarrow> mcp_function list" where
  "apply_filter flt fs = (case flt of Some ps \<Rightarrow> if ps = [] then fs else filter_tools_by_patterns fs ps | None \<Rightarrow> fs)"

definition enable_server :: "mcp_env \<Rightarrow> string \<Rightarrow> string list option \<Rightarrow> mcp_world \<Rightarrow> mcp_err + mcp_function list \<times> mcp_world" where
  "enable_server env name flt w =
     (case map_of (ds_servers (servers_of w)) name of
        None \<Rightarrow> Inl (NotRegistered name)
      | Some s \<Rightarrow> case me_connect env s of
          Inl e \<Rightarrow> Inl (ConnectFailed name e)
        | Inr fs \<Rightarrow>
            let fs = apply_filter flt fs;
                w = (if mw_session w
                     then w\<lparr>mw_servers := snd (enable_dynamic_server_for_session name fs (mw_servers w))\<rparr>
                     else w\<lparr>mw_manager := (mw_manager w)
                              \<lparr>ds_functions := AList.update name fs (ds_functions (mw_manager w)),
                               ds_enabled := AList.update name True (ds_enabled (mw_manager w))\<rparr>\<rparr>)
            in Inr (fs, w\<lparr>mw_tools := register_dynamic_server_tools s (map fn_name fs) (mw_tools w)\<rparr>))"

text \<open>\<open>unregister_dynamic_server_tools\<close> and \<open>clear_function_cache_for_server\<close>.\<close>

definition clear_function_cache_for_server :: "string \<Rightarrow> mcp_world \<Rightarrow> mcp_world" where
  "clear_function_cache_for_server name w = w\<lparr>mw_cache := AList.delete name (mw_cache w)\<rparr>"

definition strip_tools :: "string list \<Rightarrow> mcp_world \<Rightarrow> mcp_world" where
  "strip_tools tools w = w\<lparr>mw_tools := unregister_dynamic_server_tools tools (mw_tools w)\<rparr>"

definition disable_server_tools ::
  "server_config list \<Rightarrow> string \<Rightarrow> string list \<Rightarrow> bool \<Rightarrow> mcp_world \<Rightarrow> mcp_err + mcp_world" where
  "disable_server_tools config name tools kill w =
     (if \<not> kill then Inr (strip_tools tools w)
      else if mw_session w then
        (case disable_dynamic_server_for_session name (mw_servers w) of
           (True, ds) \<Rightarrow> Inr (clear_function_cache_for_server name (strip_tools tools (w\<lparr>mw_servers := ds\<rparr>)))
         | (False, _) \<Rightarrow>
             (case find_server name config of
                Some s \<Rightarrow> Inr (clear_function_cache_for_server name
                            (strip_tools tools (w\<lparr>mw_servers := register_dynamic_server_for_session s (mw_servers w)\<rparr>)))
              | None \<Rightarrow> Inl (ServerNotFound name)))
      else let m = mw_manager w in
        if registered name m then
          Inr (clear_function_cache_for_server name (strip_tools tools
            (w\<lparr>mw_manager := m\<lparr>ds_enabled := AList.update name False (ds_enabled m), ds_functions := AList.delete name (ds_functions m)\<rparr>\<rparr>)))
        else (case find_server name config of
                Some s \<Rightarrow> Inr (clear_function_cache_for_server name (strip_tools tools
                   (w\<lparr>mw_manager := m\<lparr>ds_servers := AList.update name s (ds_servers m), ds_enabled := AList.update name False (ds_enabled m)\<rparr>\<rparr>)))
              | None \<Rightarrow> Inl (ServerNotFound name)))"

definition disable_server :: "server_config list \<Rightarrow> string \<Rightarrow> mcp_world \<Rightarrow> mcp_err + mcp_world" where
  "disable_server config name w = disable_server_tools config name (get_tools_for_server name (mw_tools w)) True w"

definition get_functions :: "string \<Rightarrow> mcp_world \<Rightarrow> mcp_function list option" where
  "get_functions name w = map_of (ds_functions (servers_of w)) name"

definition remove_server :: "string \<Rightarrow> mcp_world \<Rightarrow> server_config option \<times> mcp_world" where
  "remove_server name w =
     (let tools = (case get_functions name w of Some fs \<Rightarrow> map fn_name fs | None \<Rightarrow> []);
          (removed, ds) = forget_server name (servers_of w);
          w = set_servers ds w
      in (removed, if removed \<noteq> None then clear_function_cache_for_server name (strip_tools tools w) else w))"

definition list_servers :: "mcp_world \<Rightarrow> (string \<times> string list \<times> bool) list" where
  "list_servers w =
     map (\<lambda>(name, s). (name, sc_tools s, server_enabled name (servers_of w))) (ds_servers (servers_of w))"

definition get_all_configs :: "mcp_world \<Rightarrow> server_config list" where
  "get_all_configs w =
     map snd (filter (\<lambda>(name, _). server_enabled name (servers_of w)) (ds_servers (servers_of w)))"

definition get_all_functions :: "mcp_world \<Rightarrow> mcp_function list" where
  "get_all_functions w =
     concat (map snd (filter (\<lambda>(name, _). mw_session w \<longrightarrow> server_enabled name (mw_servers w)) (ds_functions (servers_of w))))"

definition is_dynamic :: "string \<Rightarrow> mcp_world \<Rightarrow> bool" where
  "is_dynamic name w \<longleftrightarrow> registered name (servers_of w)"

definition has_function :: "string \<Rightarrow> mcp_function list \<Rightarrow> bool" where
  "has_function tool fs \<longleftrightarrow> tool \<in> set (map fn_name fs)"

definition is_dynamic_by_tool :: "string \<Rightarrow> mcp_world \<Rightarrow> bool" where
  "is_dynamic_by_tool tool w \<longleftrightarrow> list_ex (\<lambda>(_, fs). has_function tool fs) (ds_functions (servers_of w))"

definition get_dynamic_server_name_by_tool :: "string \<Rightarrow> mcp_world \<Rightarrow> string option" where
  "get_dynamic_server_name_by_tool tool w =
     map_option fst (find (\<lambda>(_, fs). has_function tool fs) (ds_functions (servers_of w)))"

section \<open>Persistence\<close>

definition persist_file_path :: "mcp_env \<Rightarrow> string \<Rightarrow> mcp_err + string" where
  "persist_file_path env name =
     (case me_dir env of Inl e \<Rightarrow> Inl (NoConfigDir e) | Inr d \<Rightarrow> Inr (d @ ''/mcp-'' @ name @ ''.toml''))"

definition is_persisted :: "mcp_env \<Rightarrow> string \<Rightarrow> mcp_world \<Rightarrow> bool" where
  "is_persisted env name w =
     (case persist_file_path env name of Inr p \<Rightarrow> map_of (mw_files w) p \<noteq> None | Inl _ \<Rightarrow> False)"

definition persisted_form :: "server_config list \<Rightarrow> string \<Rightarrow> mcp_world \<Rightarrow> mcp_err + server_config \<times> bool" where
  "persisted_form config name w =
     (case map_of (ds_servers (servers_of w)) name of
        Some s \<Rightarrow> Inr (s, server_enabled name (servers_of w))
      | None \<Rightarrow> case find_server name config of Some s \<Rightarrow> Inr (s, True) | None \<Rightarrow> Inl (ServerNotFound name))"

definition persist_server ::
  "mcp_env \<Rightarrow> server_config list \<Rightarrow> string \<Rightarrow> mcp_world \<Rightarrow> mcp_err + (string \<times> string list option) \<times> mcp_world" where
  "persist_server env config name w =
     rbind (persisted_form config name w) (\<lambda>(s, on).
       let bind = (if on then map_option (\<lambda>r. [r]) (me_role env) else None)
       in case me_toml env (with_auto_bind bind s) of
            Inl e \<Rightarrow> Inl (TomlFailed e)
          | Inr t \<Rightarrow> rbind (persist_file_path env name) (\<lambda>p.
              case me_write env p of
                Some e \<Rightarrow> Inl (WriteFailed p e)
              | None \<Rightarrow> Inr ((p, bind), w\<lparr>mw_files := AList.update p t (mw_files w)\<rparr>)))"

definition unpersist_server :: "mcp_env \<Rightarrow> string \<Rightarrow> mcp_world \<Rightarrow> mcp_err + mcp_world" where
  "unpersist_server env name w =
     rbind (persist_file_path env name) (\<lambda>p.
       if map_of (mw_files w) p = None then Inr w
       else case me_delete env p of
              Some e \<Rightarrow> Inl (DeleteFailed p e)
            | None \<Rightarrow> Inr (w\<lparr>mw_files := AList.delete p (mw_files w)\<rparr>))"

end
