(* ===== verification/DynamicTool.thy ===== *)
theory DynamicTool
  imports Dynamic
begin

text \<open>
  The tools \<open>mcp\<close> (\<open>src/mcp/runtime/dynamic.rs\<close>) and \<open>agent\<close> (\<open>src/mcp/runtime/dynamic_agents.rs\<close>): the registry of
  agents added at run time and the handlers of both tools. An error of a tool is a result the model reads,
  so a handler always gives a reply and a state.
\<close>

type_synonym reply = "mcp_err + string"

definition quoted :: "string \<Rightarrow> string" where "quoted s = CHR 0x27 # s @ [CHR 0x27]"

text \<open>\<open>and_then(|v| v.as_str())\<close>, then \<open>Some(n) if !n.trim().is_empty()\<close>.\<close>

definition text_of :: "string \<Rightarrow> json \<Rightarrow> string option" where
  "text_of k ps = (case json_get k ps of Some v \<Rightarrow> json_as_str v | None \<Rightarrow> None)"

definition filled_of :: "string \<Rightarrow> json \<Rightarrow> string option" where
  "filled_of k ps = (case text_of k ps of Some s \<Rightarrow> if trim s = [] then None else Some (trim s) | None \<Rightarrow> None)"

definition strings_of :: "string \<Rightarrow> json \<Rightarrow> string list option" where
  "strings_of k ps =
     (case json_get k ps of Some (JArr vs) \<Rightarrow> Some (List.map_filter json_as_str vs) | _ \<Rightarrow> None)"

definition strings_or_empty :: "string \<Rightarrow> json \<Rightarrow> string list" where
  "strings_or_empty k ps = (case strings_of k ps of Some ss \<Rightarrow> ss | None \<Rightarrow> [])"

definition with_name :: "json \<Rightarrow> mcp_world \<Rightarrow> (string \<Rightarrow> reply \<times> mcp_world) \<Rightarrow> reply \<times> mcp_world" where
  "with_name ps w k = (case filled_of ''name'' ps of None \<Rightarrow> (Inl (MissingParam ''name''), w) | Some n \<Rightarrow> k n)"

section \<open>The tool mcp\<close>

definition DEFAULT_MCP_TIMEOUT_SECONDS :: u64 where "DEFAULT_MCP_TIMEOUT_SECONDS = 30"

definition timeout_of :: "json \<Rightarrow> u64" where
  "timeout_of ps =
     (case json_get ''timeout_seconds'' ps of
        Some v \<Rightarrow> (case json_as_u64 v of Some t \<Rightarrow> t | None \<Rightarrow> DEFAULT_MCP_TIMEOUT_SECONDS)
      | None \<Rightarrow> DEFAULT_MCP_TIMEOUT_SECONDS)"

definition added_server :: "string \<Rightarrow> json \<Rightarrow> mcp_err + server_config" where
  "added_server name ps =
     (case text_of ''server_type'' ps of
        None \<Rightarrow> Inl (MissingParam ''server_type'')
      | Some ty \<Rightarrow>
          if ty = ''stdio'' then
            (case filled_of ''command'' ps of
               None \<Rightarrow> Inl CommandRequired
             | Some c \<Rightarrow> Inr (Stdin name c (strings_or_empty ''args'' ps) (timeout_of ps) (strings_or_empty ''tools'' ps) [] None None))
          else if ty = ''http'' then
            (case filled_of ''url'' ps of
               None \<Rightarrow> Inl UrlRequired
             | Some u \<Rightarrow> Inr (Http name u (timeout_of ps) (strings_or_empty ''tools'' ps) [] None))
          else Inl InvalidServerType)"

definition mcp_add :: "json \<Rightarrow> mcp_world \<Rightarrow> reply \<times> mcp_world" where
  "mcp_add ps w = with_name ps w (\<lambda>name.
     case rbind (added_server name ps) (\<lambda>s. register_server s w) of
       Inl e \<Rightarrow> (Inl e, w)
     | Inr w' \<Rightarrow> (Inr (''Server '' @ quoted name @ '' registered. Use '' @ quoted ''enable'' @ '' to activate it.''), w'))"

definition mcp_enable :: "mcp_env \<Rightarrow> json \<Rightarrow> mcp_world \<Rightarrow> reply \<times> mcp_world" where
  "mcp_enable env ps w = with_name ps w (\<lambda>name.
     case enable_server env name (strings_of ''tools'' ps) w of
       Inl e \<Rightarrow> (Inl e, w)
     | Inr (fs, w') \<Rightarrow> (Inr (''Server '' @ quoted name @ '' enabled with '' @ show_nat (length fs) @ '' tools:'' @ newline
                            @ join '', '' (map fn_name fs)), w'))"

definition mcp_disable :: "server_config list \<Rightarrow> json \<Rightarrow> mcp_world \<Rightarrow> reply \<times> mcp_world" where
  "mcp_disable config ps w = with_name ps w (\<lambda>name.
     case disable_server config name w of
       Inl e \<Rightarrow> (Inl e, w)
     | Inr w' \<Rightarrow> (Inr (''Server '' @ quoted name @ '' disabled.''), w'))"

definition mcp_remove :: "json \<Rightarrow> mcp_world \<Rightarrow> reply \<times> mcp_world" where
  "mcp_remove ps w = with_name ps w (\<lambda>name.
     case remove_server name w of
       (None, w') \<Rightarrow> (Inl (ServerNotFound name), w')
     | (Some _, w') \<Rightarrow> (Inr (''Removed server '' @ quoted name), w'))"

definition mcp_persist :: "mcp_env \<Rightarrow> server_config list \<Rightarrow> json \<Rightarrow> mcp_world \<Rightarrow> reply \<times> mcp_world" where
  "mcp_persist env config ps w = with_name ps w (\<lambda>name.
     case persist_server env config name w of
       Inl e \<Rightarrow> (Inl e, w)
     | Inr ((p, bind), w') \<Rightarrow>
         (Inr (''Server '' @ quoted name @ '' persisted to '' @ p @
            (case bind of
               Some roles \<Rightarrow> ''. Auto-bind set to role '' @ quoted (join '', '' roles) @ ''.''
             | None \<Rightarrow> ''. Auto-bind cleared (server disabled).'')), w'))"

definition mcp_unpersist :: "mcp_env \<Rightarrow> json \<Rightarrow> mcp_world \<Rightarrow> reply \<times> mcp_world" where
  "mcp_unpersist env ps w = with_name ps w (\<lambda>name.
     if \<not> is_persisted env name w then (Inl (NotPersisted name), w)
     else case unpersist_server env name w of
       Inl e \<Rightarrow> (Inl e, w)
     | Inr w' \<Rightarrow> (Inr (''Server '' @ quoted name @ '' unpersisted. It will no longer auto-load on startup.''), w'))"

definition check_mark :: string where "check_mark = bytes [0xE2, 0x9C, 0x93]"
definition cross_mark :: string where "cross_mark = bytes [0xE2, 0x9C, 0x97]"
definition arrow_mark :: string where "arrow_mark = bytes [0xE2, 0x86, 0x92]"
definition disk_mark :: string where "disk_mark = bytes [0xF0, 0x9F, 0x92, 0xBE]"

fun type_word :: "connection_type \<Rightarrow> string" where
  "type_word BuiltinConn = ''builtin''" | "type_word HttpConn = ''http''" | "type_word StdinConn = ''stdio''"

definition tools_word :: "string list \<Rightarrow> string" where
  "tools_word tools = (if tools = [] then ''(all tools)'' else join '', '' tools)"

definition saved_word :: "mcp_env \<Rightarrow> mcp_world \<Rightarrow> string \<Rightarrow> string" where
  "saved_word env w name = (if is_persisted env name w then '' '' @ disk_mark else [])"

definition configured_line :: "mcp_env \<Rightarrow> mcp_world \<Rightarrow> server_config \<Rightarrow> string" where
  "configured_line env w s =
     ''  '' @ sc_name s @ '' ['' @ type_word (connection_type_of s) @ ''] '' @ check_mark @ '' active''
     @ saved_word env w (sc_name s) @ '' '' @ arrow_mark @ '' '' @ tools_word (sc_tools s)"

definition dynamic_line :: "mcp_env \<Rightarrow> mcp_world \<Rightarrow> string \<times> string list \<times> bool \<Rightarrow> string" where
  "dynamic_line env w = (\<lambda>(name, tools, on).
     ''  '' @ name @ '' '' @ (if on then check_mark @ '' enabled'' else cross_mark @ '' disabled'')
     @ saved_word env w name @ '' '' @ arrow_mark @ '' '' @ tools_word tools)"

definition listed_dynamic :: "server_config list \<Rightarrow> mcp_world \<Rightarrow> (string \<times> string list \<times> bool) list" where
  "listed_dynamic config w = filter (\<lambda>(n, _). n \<notin> set (map sc_name config)) (list_servers w)"

definition mcp_list :: "mcp_env \<Rightarrow> server_config list \<Rightarrow> mcp_world \<Rightarrow> reply \<times> mcp_world" where
  "mcp_list env config w =
     (let conf = (if config = [] then [] else ''Configured servers:'' # [] # map (configured_line env w) config);
          dyn = listed_dynamic config w;
          dyn_lines = (if dyn = [] then [] else (if conf = [] then [] else [[]]) @ ''Dynamic servers:'' # [] # map (dynamic_line env w) dyn);
          ls = conf @ dyn_lines
      in (Inr (join newline (if ls = [] then [''No MCP servers configured or registered.''] else ls)), w))"

definition execute_mcp_command :: "mcp_env \<Rightarrow> server_config list \<Rightarrow> json \<Rightarrow> mcp_world \<Rightarrow> reply \<times> mcp_world" where
  "execute_mcp_command env config ps w =
     (case text_of ''action'' ps of
        None \<Rightarrow> (Inl (MissingParam ''action''), w)
      | Some a \<Rightarrow>
          if a = ''list'' then mcp_list env config w
          else if a = ''add'' then mcp_add ps w
          else if a = ''enable'' then mcp_enable env ps w
          else if a = ''disable'' then mcp_disable config ps w
          else if a = ''remove'' then mcp_remove ps w
          else if a = ''persist'' then mcp_persist env config ps w
          else if a = ''unpersist'' then mcp_unpersist env ps w
          else (Inl (UnknownAction a), w))"

section \<open>Agents\<close>

definition agents_of :: "mcp_world \<Rightarrow> agent_state" where
  "agents_of w = (if mw_session w then mw_agents w else mw_agent_manager w)"

definition set_agents :: "agent_state \<Rightarrow> mcp_world \<Rightarrow> mcp_world" where
  "set_agents st w = (if mw_session w then w\<lparr>mw_agents := st\<rparr> else w\<lparr>mw_agent_manager := st\<rparr>)"

definition agent_on :: "string \<Rightarrow> agent_state \<Rightarrow> bool" where
  "agent_on name st \<longleftrightarrow> map_of (as_enabled st) name = Some True"

definition agent_known :: "string \<Rightarrow> agent_state \<Rightarrow> bool" where
  "agent_known name st \<longleftrightarrow> map_of (as_agents st) name \<noteq> None"

definition register_agent :: "agent_config \<Rightarrow> mcp_world \<Rightarrow> mcp_err + mcp_world" where
  "register_agent a w =
     (if ag_name a = [] then Inl NoAgentName
      else if ag_system a = [] then Inl NoAgentSystem
      else if \<not> mw_session w \<and> agent_known (ag_name a) (mw_agent_manager w) then Inl (AgentRegistered (ag_name a))
      else let st = agents_of w
           in Inr (set_agents (st\<lparr>as_agents := AList.update (ag_name a) a (as_agents st),
                                  as_enabled := AList.update (ag_name a) False (as_enabled st)\<rparr>) w))"

definition switch_agent :: "string \<Rightarrow> bool \<Rightarrow> mcp_world \<Rightarrow> mcp_world" where
  "switch_agent name on w =
     (let st = agents_of w in set_agents (st\<lparr>as_enabled := AList.update name on (as_enabled st)\<rparr>) w)"

definition enable_agent :: "string \<Rightarrow> mcp_world \<Rightarrow> mcp_err + mcp_world" where
  "enable_agent name w =
     (if agent_known name (agents_of w)
      then let w = switch_agent name True w in Inr (w\<lparr>mw_tools := register_dynamic_agent_tool name (mw_tools w)\<rparr>)
      else Inl (AgentNotRegistered name))"

text \<open>A session looks for the switch of the agent, the process for the agent itself.\<close>

definition disable_agent :: "string \<Rightarrow> mcp_world \<Rightarrow> mcp_err + mcp_world" where
  "disable_agent name w =
     (if (if mw_session w then map_of (as_enabled (mw_agents w)) name \<noteq> None else agent_known name (mw_agent_manager w))
      then let w = switch_agent name False w in Inr (w\<lparr>mw_tools := unregister_dynamic_agent_tool name (mw_tools w)\<rparr>)
      else Inl (AgentNotFound name))"

definition remove_agent :: "string \<Rightarrow> mcp_world \<Rightarrow> agent_config option \<times> mcp_world" where
  "remove_agent name w =
     (let st = agents_of w; removed = map_of (as_agents st) name;
          w = set_agents (st\<lparr>as_enabled := AList.delete name (as_enabled st), as_agents := AList.delete name (as_agents st)\<rparr>) w
      in (removed, if removed \<noteq> None then w\<lparr>mw_tools := unregister_dynamic_agent_tool name (mw_tools w)\<rparr> else w))"

definition list_agents :: "mcp_world \<Rightarrow> (agent_config \<times> bool) list" where
  "list_agents w = map (\<lambda>(name, a). (a, agent_on name (agents_of w))) (as_agents (agents_of w))"

definition enabled_agent_configs :: "mcp_world \<Rightarrow> agent_config list" where
  "enabled_agent_configs w = map fst (filter snd (list_agents w))"

definition get_enabled_agent :: "string \<Rightarrow> mcp_world \<Rightarrow> agent_config option" where
  "get_enabled_agent name w =
     (if agent_on name (agents_of w) then map_of (as_agents (agents_of w)) name else None)"

definition is_dynamic_agent :: "string \<Rightarrow> mcp_world \<Rightarrow> bool" where
  "is_dynamic_agent name w \<longleftrightarrow> agent_known name (agents_of w)"

definition is_agent_enabled :: "string \<Rightarrow> mcp_world \<Rightarrow> bool" where
  "is_agent_enabled name w \<longleftrightarrow>
     agent_on name (agents_of w) \<and> (mw_session w \<or> agent_known name (mw_agent_manager w))"

definition get_dynamic_agent_name_by_tool :: "string \<Rightarrow> mcp_world \<Rightarrow> string option" where
  "get_dynamic_agent_name_by_tool tool w =
     (if starts_with tool ''agent_'' \<and> is_dynamic_agent (drop 6 tool) w then Some (drop 6 tool) else None)"

definition is_dynamic_agent_tool :: "string \<Rightarrow> mcp_world \<Rightarrow> bool" where
  "is_dynamic_agent_tool tool w \<longleftrightarrow> starts_with tool ''agent_'' \<and> is_dynamic_agent (drop 6 tool) w"

section \<open>The tool agent\<close>

definition or_blank :: "string option \<Rightarrow> string \<Rightarrow> string" where
  "or_blank v d = (case v of Some s \<Rightarrow> s | None \<Rightarrow> d)"

definition known_servers :: "mcp_world \<Rightarrow> string set" where
  "known_servers w = set (map fst (list_servers w)) \<union> get_all_server_names (mw_tools w)"

definition check_refs :: "string list \<Rightarrow> mcp_world \<Rightarrow> mcp_err + unit" where
  "check_refs refs w = each (\<lambda>r. ensure (r \<in> known_servers w) (NoSuchServerRef r (known_servers w))) refs"

text \<open>The servers of the allowed tools, a set in the source.\<close>

definition inferred_refs :: "(string \<Rightarrow> bool) \<Rightarrow> string list \<Rightarrow> mcp_world \<Rightarrow> string list" where
  "inferred_refs is_local tools w = remdups (List.map_filter (get_tool_server_name is_local (mw_tools w)) tools)"

definition added_agent :: "mcp_env \<Rightarrow> (string \<Rightarrow> bool) \<Rightarrow> json \<Rightarrow> string \<Rightarrow> mcp_world \<Rightarrow> mcp_err + agent_config" where
  "added_agent env is_local ps name w =
     (case filled_of ''system'' ps of
        None \<Rightarrow> Inl (MissingParam ''system'')
      | Some system \<Rightarrow>
          let refs = strings_or_empty ''server_refs'' ps; tools = strings_or_empty ''allowed_tools'' ps
          in rbind (check_refs refs w) (\<lambda>_. Inr
            \<lparr>ag_name = name, ag_description = or_blank (text_of ''description'' ps) [], ag_system = system,
             ag_welcome = or_blank (text_of ''welcome'' ps) [], ag_model = text_of ''model'' ps,
             ag_temperature = Option.bind (json_get ''temperature'' ps) (me_f32 env),
             ag_top_p = Option.bind (json_get ''top_p'' ps) (me_f32 env),
             ag_top_k = map_option ucast (Option.bind (json_get ''top_k'' ps) json_as_u64),
             ag_server_refs = (if refs = [] \<and> tools \<noteq> [] then inferred_refs is_local tools w else refs),
             ag_allowed_tools = tools, ag_workdir = or_blank (text_of ''workdir'' ps) ''.''\<rparr>))"

definition agent_add :: "mcp_env \<Rightarrow> (string \<Rightarrow> bool) \<Rightarrow> json \<Rightarrow> mcp_world \<Rightarrow> reply \<times> mcp_world" where
  "agent_add env is_local ps w = with_name ps w (\<lambda>name.
     case rbind (added_agent env is_local ps name w) (\<lambda>a. register_agent a w) of
       Inl e \<Rightarrow> (Inl e, w)
     | Inr w' \<Rightarrow> (Inr (''Agent '' @ quoted name @ '' registered. Use '' @ quoted ''enable'' @ '' to activate it.''), w'))"

definition agent_enable :: "json \<Rightarrow> mcp_world \<Rightarrow> reply \<times> mcp_world" where
  "agent_enable ps w = with_name ps w (\<lambda>name.
     case enable_agent name w of
       Inl e \<Rightarrow> (Inl e, w)
     | Inr w' \<Rightarrow> (Inr (''Agent '' @ quoted name @ '' enabled as tool '' @ quoted (agent_tool name) @ ''.''), w'))"

definition agent_disable :: "json \<Rightarrow> mcp_world \<Rightarrow> reply \<times> mcp_world" where
  "agent_disable ps w = with_name ps w (\<lambda>name.
     case disable_agent name w of
       Inl e \<Rightarrow> (Inl e, w)
     | Inr w' \<Rightarrow> (Inr (''Agent '' @ quoted name @ '' disabled.''), w'))"

definition agent_remove :: "json \<Rightarrow> mcp_world \<Rightarrow> reply \<times> mcp_world" where
  "agent_remove ps w = with_name ps w (\<lambda>name.
     case remove_agent name w of
       (None, w') \<Rightarrow> (Inl (AgentNotFound name), w')
     | (Some _, w') \<Rightarrow> (Inr (''Agent '' @ quoted name @ '' removed.''), w'))"

definition opt_json :: "string option \<Rightarrow> json" where
  "opt_json v = (case v of Some s \<Rightarrow> JStr s | None \<Rightarrow> JNull)"

definition agent_json :: "agent_config \<times> bool \<Rightarrow> json" where
  "agent_json = (\<lambda>(a, on). JObj
     [(''name'', JStr (ag_name a)), (''description'', JStr (ag_description a)), (''system'', JStr (ag_system a)),
      (''model'', opt_json (ag_model a)), (''server_refs'', JArr (map JStr (ag_server_refs a))),
      (''allowed_tools'', JArr (map JStr (ag_allowed_tools a))), (''workdir'', JStr (ag_workdir a)),
      (''enabled'', JBool on), (''status'', JStr (if on then check_mark else cross_mark)),
      (''tool_name'', JStr (agent_tool (ag_name a)))])"

definition agent_list :: "mcp_env \<Rightarrow> mcp_world \<Rightarrow> reply \<times> mcp_world" where
  "agent_list env w =
     (let as = list_agents w
      in (Inr (me_print env (JObj
            [(''message'', JStr (if as = [] then ''No dynamic agents registered. Use '' @ quoted ''add'' @ '' to register an agent.''
                                 else show_nat (length as) @ '' dynamic agent(s) registered'')),
             (''agents'', JArr (map agent_json as))])), w))"

definition execute_agent_tool_command ::
  "mcp_env \<Rightarrow> (string \<Rightarrow> bool) \<Rightarrow> json \<Rightarrow> mcp_world \<Rightarrow> reply \<times> mcp_world" where
  "execute_agent_tool_command env is_local ps w =
     (case text_of ''action'' ps of
        None \<Rightarrow> (Inl (MissingParam ''action''), w)
      | Some a \<Rightarrow>
          if a = ''list'' then agent_list env w
          else if a = ''add'' then agent_add env is_local ps w
          else if a = ''enable'' then agent_enable ps w
          else if a = ''disable'' then agent_disable ps w
          else if a = ''remove'' then agent_remove ps w
          else (Inl (UnknownAction a), w))"

end
