(* ===== verification/Capability.thy ===== *)
theory Capability
  imports DynamicTool Messages
begin

text \<open>
  Capabilities activated at run time (\<open>src/mcp/runtime/capability.rs\<close>) and what they add to the tools of a role
  (\<open>src/config/runtime_overlay.rs\<close>). The taps that define capabilities, the environment, the installers of
  dependencies, the clock and the embedding model are arguments.
\<close>

section \<open>The overlay\<close>

type_synonym tool_groups = "(string \<times> string list) list"
type_synonym overlay = "(string \<times> tool_groups) list"

definition set_capability_extras :: "string \<Rightarrow> tool_groups \<Rightarrow> overlay \<Rightarrow> overlay" where
  "set_capability_extras cap per_server reg =
     (if per_server = [] then AList.delete cap reg else AList.update cap per_server reg)"

definition clear_capability_extras :: "string \<Rightarrow> overlay \<Rightarrow> overlay" where
  "clear_capability_extras cap reg = AList.delete cap reg"

definition push_new :: "'a \<Rightarrow> 'a list \<Rightarrow> 'a list" where
  "push_new x xs = (if x \<in> set xs then xs else xs @ [x])"

definition extras_for_server :: "string \<Rightarrow> overlay \<Rightarrow> string list" where
  "extras_for_server srv reg =
     fold push_new (concat (map (\<lambda>(_, per). case map_of per srv of Some ts \<Rightarrow> ts | None \<Rightarrow> []) reg)) []"

section \<open>Active capabilities\<close>

record cap_state =
  cs_server_tools :: tool_groups
  cs_last_used :: nat

type_synonym cap_registry = "(string \<times> cap_state) list"

record cap_ctx =
  cx_world :: mcp_world
  cx_active :: cap_registry
  cx_overlay :: overlay

record resolved_capability =
  rc_name :: string
  rc_triggers :: "string list"
  rc_domains :: "string list"
  rc_deps :: "string list"
  rc_server_refs :: "string list"
  rc_allowed_tools :: "string list"
  rc_mcp_servers :: "server_config list"
  rc_required_env_keys :: "string list"
  rc_tap_root :: string

record cap_env =
  ce_mcp :: mcp_env
  ce_config :: "server_config list"
  ce_resolve :: "string \<Rightarrow> string + resolved_capability"
  ce_all :: "string + resolved_capability list"
  ce_domain :: "string option"
  ce_var :: "string \<Rightarrow> string option"
  ce_install :: "string list \<Rightarrow> string \<Rightarrow> string option"
  ce_now :: nat

datatype cap_err =
    CapMissing string | CapUnknownAction string | CapEnumerate string | CapNotFound string string
  | CapNeedsEnv string "string list" | CapOutOfDomain string "string list" "string option" | CapEmpty string
  | CapDeps string string | CapRegister string string mcp_err | CapEnable string string mcp_err
  | CapDisable string string mcp_err | CapEmbedding string

definition MAX_ACTIVE_CAPS :: nat where "MAX_ACTIVE_CAPS = 4"

definition is_active :: "string \<Rightarrow> cap_ctx \<Rightarrow> bool" where
  "is_active name ctx \<longleftrightarrow> map_of (cx_active ctx) name \<noteq> None"

definition mark_active :: "nat \<Rightarrow> string \<Rightarrow> tool_groups \<Rightarrow> cap_ctx \<Rightarrow> cap_ctx" where
  "mark_active now name groups ctx =
     ctx\<lparr>cx_active := AList.update name \<lparr>cs_server_tools = groups, cs_last_used = now\<rparr> (cx_active ctx)\<rparr>"

definition uses_server :: "string \<Rightarrow> cap_state \<Rightarrow> bool" where
  "uses_server srv st \<longleftrightarrow> srv \<in> set (map fst (cs_server_tools st))"

text \<open>The first entry in iteration order that uses the server is bumped.\<close>

fun touch_first :: "nat \<Rightarrow> string \<Rightarrow> cap_registry \<Rightarrow> cap_registry" where
  "touch_first now srv [] = []"
| "touch_first now srv ((n, st) # rest) =
     (if uses_server srv st then (n, st\<lparr>cs_last_used := now\<rparr>) # rest else (n, st) # touch_first now srv rest)"

definition touch_capability_for_server :: "nat \<Rightarrow> string \<Rightarrow> cap_ctx \<Rightarrow> cap_ctx" where
  "touch_capability_for_server now srv ctx = ctx\<lparr>cx_active := touch_first now srv (cx_active ctx)\<rparr>"

text \<open>After a tool call that returned: only servers of the dynamic registry are looked up.\<close>

definition after_tool_call :: "nat \<Rightarrow> string \<Rightarrow> cap_ctx \<Rightarrow> cap_ctx" where
  "after_tool_call now tool ctx =
     (case get_dynamic_server_name_by_tool tool (cx_world ctx) of
        Some srv \<Rightarrow> touch_capability_for_server now srv ctx | None \<Rightarrow> ctx)"

definition server_refcount :: "cap_registry \<Rightarrow> string \<Rightarrow> string \<Rightarrow> nat" where
  "server_refcount reg srv excluding =
     length (filter (\<lambda>(n, st). n \<noteq> excluding \<and> uses_server srv st) reg)"

fun min_last_used :: "cap_registry \<Rightarrow> (string \<times> cap_state) option" where
  "min_last_used [] = None"
| "min_last_used (e # es) =
     (case min_last_used es of
        None \<Rightarrow> Some e
      | Some e' \<Rightarrow> if cs_last_used (snd e) \<le> cs_last_used (snd e') then Some e else Some e')"

definition select_lru_in :: "cap_registry \<Rightarrow> (string \<times> tool_groups) option \<times> cap_registry" where
  "select_lru_in reg =
     (case min_last_used reg of
        None \<Rightarrow> (None, reg)
      | Some (n, st) \<Rightarrow> (Some (n, cs_server_tools st), AList.delete n reg))"

type_synonym disable_plan = "(string \<times> string list \<times> bool) list"

definition disable_plan_of :: "server_config list \<Rightarrow> cap_registry \<Rightarrow> string \<Rightarrow> tool_groups \<Rightarrow> disable_plan" where
  "disable_plan_of config reg name groups =
     map (\<lambda>(srv, tools). (srv, tools, find_server srv config = None \<and> server_refcount reg srv name = 0)) groups"

text \<open>Eviction goes on after an error, \<open>capability disable\<close> stops at it.\<close>

fun run_plan_logged :: "server_config list \<Rightarrow> disable_plan \<Rightarrow> mcp_world \<Rightarrow> mcp_world" where
  "run_plan_logged config [] w = w"
| "run_plan_logged config ((srv, tools, kill) # rest) w =
     run_plan_logged config rest (case disable_server_tools config srv tools kill w of Inr w' \<Rightarrow> w' | Inl _ \<Rightarrow> w)"

fun run_plan :: "server_config list \<Rightarrow> disable_plan \<Rightarrow> mcp_world \<Rightarrow> (string \<times> mcp_err) option \<times> mcp_world" where
  "run_plan config [] w = (None, w)"
| "run_plan config ((srv, tools, kill) # rest) w =
     (case disable_server_tools config srv tools kill w of
        Inl e \<Rightarrow> (Some (srv, e), w)
      | Inr w' \<Rightarrow> run_plan config rest w')"

definition evict_lru_if_full :: "server_config list \<Rightarrow> cap_ctx \<Rightarrow> cap_ctx" where
  "evict_lru_if_full config ctx =
     (if length (cx_active ctx) < MAX_ACTIVE_CAPS then ctx
      else case select_lru_in (cx_active ctx) of
        (None, _) \<Rightarrow> ctx
      | (Some (name, groups), reg) \<Rightarrow>
          ctx\<lparr>cx_active := reg, cx_overlay := clear_capability_extras name (cx_overlay ctx),
              cx_world := run_plan_logged config (disable_plan_of config reg name groups) (cx_world ctx)\<rparr>)"

section \<open>Admission\<close>

definition cap_available_in_domain :: "string list \<Rightarrow> string \<Rightarrow> bool" where
  "cap_available_in_domain domains current \<longleftrightarrow> domains = [] \<or> current \<in> set domains"

definition current_domain :: "cap_env \<Rightarrow> string" where
  "current_domain env = (case ce_domain env of Some d \<Rightarrow> d | None \<Rightarrow> [])"

definition cap_in_current_domain :: "cap_env \<Rightarrow> string list \<Rightarrow> bool" where
  "cap_in_current_domain env domains \<longleftrightarrow> cap_available_in_domain domains (current_domain env)"

definition filter_caps_by_domain :: "cap_env \<Rightarrow> resolved_capability list \<Rightarrow> resolved_capability list" where
  "filter_caps_by_domain env caps = filter (\<lambda>c. cap_available_in_domain (rc_domains c) (current_domain env)) caps"

definition missing_env :: "cap_env \<Rightarrow> string list \<Rightarrow> string list" where
  "missing_env env required = filter (\<lambda>k. case ce_var env k of Some v \<Rightarrow> v = [] | None \<Rightarrow> True) required"

definition filter_pattern :: "string \<Rightarrow> string \<Rightarrow> string option" where
  "filter_pattern srv p =
     (if starts_with p (srv @ '':'') then Some (drop (length srv + 1) p)
      else if CHR '':'' \<in> set p then None else Some p)"

definition filter_for_server :: "string list \<Rightarrow> string \<Rightarrow> string list option" where
  "filter_for_server allowed srv =
     (let kept = List.map_filter (filter_pattern srv) allowed
      in if allowed = [] \<or> kept = [] then None else Some kept)"

section \<open>Activation\<close>

definition extend_static :: "server_config \<Rightarrow> string list \<Rightarrow> mcp_world \<Rightarrow> mcp_world" where
  "extend_static s names w =
     (if names = [] then w
      else clear_function_cache_for_server (sc_name s)
             (w\<lparr>mw_tools := register_dynamic_server_tools s names (mw_tools w)\<rparr>))"

text \<open>One server of a capability: the tools it brought, or the error, and the state either way.\<close>

definition activate_dynamic ::
  "cap_env \<Rightarrow> string \<Rightarrow> server_config \<Rightarrow> string list option \<Rightarrow> mcp_world \<Rightarrow> (cap_err + string list) \<times> mcp_world" where
  "activate_dynamic env cap s flt w =
     (case (if is_dynamic (sc_name s) w then Inr w else register_server s w) of
        Inl e \<Rightarrow> (Inl (CapRegister cap (sc_name s) e), w)
      | Inr w' \<Rightarrow>
          case enable_server (ce_mcp env) (sc_name s) flt w' of
            Inl e \<Rightarrow> (Inl (CapEnable cap (sc_name s) e), w')
          | Inr (fs, w'') \<Rightarrow> (Inr (map fn_name fs), w''))"

fun activate_servers ::
  "cap_env \<Rightarrow> string \<Rightarrow> string list \<Rightarrow> server_config list \<Rightarrow> tool_groups \<Rightarrow> tool_groups \<Rightarrow> mcp_world
   \<Rightarrow> (cap_err + tool_groups \<times> tool_groups) \<times> mcp_world" where
  "activate_servers env cap allowed [] groups extra w = (Inr (groups, extra), w)"
| "activate_servers env cap allowed (s # ss) groups extra w =
     (let name = sc_name s; flt = filter_for_server allowed name
      in case find_server name (ce_config env) of
           Some conf \<Rightarrow>
             let names = (case flt of Some ns \<Rightarrow> ns | None \<Rightarrow> [])
             in activate_servers env cap allowed ss (groups @ [(name, names)])
                  (if names = [] then extra else AList.update name names extra) (extend_static conf names w)
         | None \<Rightarrow>
             (case activate_dynamic env cap s flt w of
                (Inl e, w') \<Rightarrow> (Inl e, w')
              | (Inr names, w') \<Rightarrow> activate_servers env cap allowed ss (groups @ [(name, names)]) extra w'))"

text \<open>What both ways of activation do once the capability is admitted.\<close>

definition activate_resolved ::
  "cap_env \<Rightarrow> string \<Rightarrow> resolved_capability \<Rightarrow> cap_ctx \<Rightarrow> (cap_err + tool_groups) \<times> cap_ctx" where
  "activate_resolved env name r ctx =
     (if rc_mcp_servers r = [] then
        (if rc_deps r = [] then (Inl (CapEmpty name), ctx)
         else let ctx = evict_lru_if_full (ce_config env) ctx
              in case ce_install env (rc_deps r) (rc_tap_root r) of
                   Some e \<Rightarrow> (Inl (CapDeps name e), ctx)
                 | None \<Rightarrow> (Inr [], mark_active (ce_now env) name [] ctx))
      else let ctx = evict_lru_if_full (ce_config env) ctx
           in case activate_servers env name (rc_allowed_tools r) (rc_mcp_servers r) [] [] (cx_world ctx) of
                (Inl e, w) \<Rightarrow> (Inl e, ctx\<lparr>cx_world := w\<rparr>)
              | (Inr (groups, extra), w) \<Rightarrow>
                  (Inr groups, mark_active (ce_now env) name groups
                     (ctx\<lparr>cx_world := w, cx_overlay := set_capability_extras name extra (cx_overlay ctx)\<rparr>)))"

definition activate_capability_inline :: "cap_env \<Rightarrow> string \<Rightarrow> cap_ctx \<Rightarrow> (cap_err + string list) \<times> cap_ctx" where
  "activate_capability_inline env name ctx =
     (if is_active name ctx then (Inr [], ctx)
      else case ce_resolve env name of
        Inl e \<Rightarrow> (Inl (CapNotFound name e), ctx)
      | Inr r \<Rightarrow>
          let missing = missing_env env (rc_required_env_keys r)
          in if missing \<noteq> [] then (Inl (CapNeedsEnv name missing), ctx)
             else case activate_resolved env name r ctx of
               (Inl e, ctx) \<Rightarrow> (Inl e, ctx)
             | (Inr groups, ctx) \<Rightarrow> (Inr (map fst groups), ctx))"

definition tools_summary :: "resolved_capability \<Rightarrow> tool_groups \<Rightarrow> string" where
  "tools_summary r groups =
     (let tools = concat (map snd groups)
      in if \<not> list_ex (\<lambda>s. filter_for_server (rc_allowed_tools r) (sc_name s) \<noteq> None) (rc_mcp_servers r)
         then ''all tools the server exposes (list populates on first use if empty now)''
         else if tools = [] then ''none '' @ long_dash @ '' the configured allowed_tools filter excluded every tool the server reported''
         else join '', '' tools)"

definition enabled_text :: "string \<Rightarrow> resolved_capability \<Rightarrow> tool_groups \<Rightarrow> string" where
  "enabled_text name r groups =
     ''Capability '' @ quoted name @
     (if rc_mcp_servers r = [] then '' enabled. Installed deps: '' @ join '', '' (rc_deps r)
      else '' enabled. Activated '' @ show_nat (length groups) @ '' server(s): '' @ join '', '' (map fst groups)
           @ newline @ ''Tools available: '' @ tools_summary r groups)"

definition enable_named :: "cap_env \<Rightarrow> string \<Rightarrow> cap_ctx \<Rightarrow> (cap_err + string) \<times> cap_ctx" where
  "enable_named env name ctx =
     (if is_active name ctx then (Inr (''Capability '' @ quoted name @ '' is already active.''), ctx)
      else case ce_resolve env name of
        Inl e \<Rightarrow> (Inl (CapNotFound name e), ctx)
      | Inr r \<Rightarrow>
          let missing = missing_env env (rc_required_env_keys r)
          in if missing \<noteq> [] then (Inl (CapNeedsEnv name missing), ctx)
             else if \<not> cap_in_current_domain env (rc_domains r)
             then (Inl (CapOutOfDomain name (rc_domains r) (ce_domain env)), ctx)
             else case activate_resolved env name r ctx of
               (Inl e, ctx) \<Rightarrow> (Inl e, ctx)
             | (Inr groups, ctx) \<Rightarrow> (Inr (enabled_text name r groups), ctx))"

definition handle_enable :: "cap_env \<Rightarrow> json \<Rightarrow> cap_ctx \<Rightarrow> (cap_err + string) \<times> cap_ctx" where
  "handle_enable env ps ctx =
     (case filled_of ''name'' ps of None \<Rightarrow> (Inl (CapMissing ''name''), ctx) | Some name \<Rightarrow> enable_named env name ctx)"

definition disabled_text :: "string \<Rightarrow> disable_plan \<Rightarrow> string" where
  "disabled_text name plan =
     (let killed = map fst (filter (\<lambda>(_, _, kill). kill) plan)
      in ''Capability '' @ quoted name @ '' disabled. Fully shut down '' @ show_nat (length killed) @ '' server(s): '' @
         (if killed = [] then ''(none '' @ long_dash @ '' all servers still in use by other active capabilities)'' else join '', '' killed))"

definition disable_named :: "cap_env \<Rightarrow> string \<Rightarrow> cap_ctx \<Rightarrow> (cap_err + string) \<times> cap_ctx" where
  "disable_named env name ctx =
     (case map_of (cx_active ctx) name of
        None \<Rightarrow> (Inr (''Capability '' @ quoted name @ '' is not active.''), ctx)
      | Some st \<Rightarrow>
          let reg = AList.delete name (cx_active ctx);
              plan = disable_plan_of (ce_config env) reg name (cs_server_tools st);
              ctx = ctx\<lparr>cx_active := reg, cx_overlay := clear_capability_extras name (cx_overlay ctx)\<rparr>
          in case run_plan (ce_config env) plan (cx_world ctx) of
               (Some (srv, e), w) \<Rightarrow> (Inl (CapDisable name srv e), ctx\<lparr>cx_world := w, cx_active := AList.update name st reg\<rparr>)
             | (None, w) \<Rightarrow> (Inr (disabled_text name plan), ctx\<lparr>cx_world := w\<rparr>))"

definition handle_disable :: "cap_env \<Rightarrow> json \<Rightarrow> cap_ctx \<Rightarrow> (cap_err + string) \<times> cap_ctx" where
  "handle_disable env ps ctx =
     (case filled_of ''name'' ps of None \<Rightarrow> (Inl (CapMissing ''name''), ctx) | Some name \<Rightarrow> disable_named env name ctx)"

end
