(* ===== verification/Dispatch.thy ===== *)
theory Dispatch
  imports Capability ToolResults
begin

text \<open>
  The dispatch of one tool call to the server that has the tool (\<open>src/mcp/mod.rs\<close>). What a tool does is an argument: a
  handler for each builtin tool and one for the external servers, each with the text of its error or with a result
  under whatever identifier it likes. The effects of handlers on registries are the operations of their own theories,
  the bookkeeping after a successful call is \<open>Capability.after_tool_call\<close>.
\<close>

section \<open>Handlers\<close>

record tool_handlers =
  th_recall :: "tool_call \<Rightarrow> string + tool_output"
  th_tap :: "tool_call \<Rightarrow> string + tool_output"
  th_schedule :: "tool_call \<Rightarrow> string + tool_output"
  th_monitor :: "tool_call \<Rightarrow> string + tool_output"
  th_runtime :: "tool_call \<Rightarrow> string + tool_output"
  th_agent :: "tool_call \<Rightarrow> string + tool_output"
  th_local :: "tool_call \<Rightarrow> string + tool_output"
  th_remote :: "server_config \<Rightarrow> tool_call \<Rightarrow> string + tool_output"

definition under_id :: "tool_call \<Rightarrow> tool_output \<Rightarrow> tool_output" where
  "under_id call r = r\<lparr>tr_id := ca_id call\<rparr>"

text \<open>An error of these handlers is a result the model reads.\<close>

definition soften :: "string \<Rightarrow> tool_call \<Rightarrow> string + tool_output \<Rightarrow> tool_output" where
  "soften what call res =
     (case res of
        Inr r \<Rightarrow> under_id call r
      | Inl e \<Rightarrow> error_result (ca_name call) (ca_id call) (what @ '': '' @ e))"

definition not_implemented :: "string \<Rightarrow> string \<Rightarrow> string" where
  "not_implemented tool server = ''Tool '' @ quoted tool @ '' not implemented in '' @ server @ '' server''"

definition route_builtin_tool :: "tool_handlers \<Rightarrow> string \<Rightarrow> tool_call \<Rightarrow> string + tool_output" where
  "route_builtin_tool h server call =
     (let tool = ca_name call
      in if server = ''core'' then
           (if tool = ''recall'' then Inr (soften ''Recall failed'' call (th_recall h call))
            else Inl (not_implemented tool server))
         else if server = ''orchestration'' then
           (if tool = ''tap'' then Inr (soften ''Tap tool failed'' call (th_tap h call))
            else if tool = ''schedule'' then Inr (soften ''Schedule tool failed'' call (th_schedule h call))
            else if tool = ''monitor'' then Inr (soften ''Monitor tool failed'' call (th_monitor h call))
            else Inl (not_implemented tool server))
         else if server = ''runtime'' then Inr (soften ''Runtime tool failed'' call (th_runtime h call))
         else if server = ''agent'' then
           (if \<not> starts_with tool ''agent_'' then Inl (not_implemented tool server)
            else map_sum id (under_id call) (th_agent h call))
         else if server = LOCAL_SERVER_NAME then
           Inr (soften (''local tool '' @ quoted tool @ '' failed'') call (th_local h call))
         else Inl (''Unknown builtin server: '' @ server))"

section \<open>Routing\<close>

text \<open>In a session a tool that another session added to the table is not found.\<close>

definition belongs_elsewhere :: "server_config list \<Rightarrow> string list \<Rightarrow> mcp_world \<Rightarrow> server_config \<Rightarrow> string \<Rightarrow> bool" where
  "belongs_elsewhere config agents w target tool \<longleftrightarrow>
     mw_session w \<and>
     (starts_with tool ''agent_'' \<and> drop 6 tool \<notin> set agents \<and> \<not> is_dynamic_agent_tool tool w \<or>
      \<not> is_dynamic_by_tool tool w \<and> sc_name target \<noteq> LOCAL_SERVER_NAME \<and> sc_name target \<notin> sc_name ` set config)"

definition foreign_tool_error :: "string \<Rightarrow> string" where
  "foreign_tool_error tool = ''Tool '' @ quoted tool @ '' not found (belongs to another session)''"

definition unknown_tool_error :: "string \<Rightarrow> string list \<Rightarrow> string" where
  "unknown_tool_error tool names =
     ''Tool '' @ quoted tool @ '' not found in any configured MCP server. Available tools: '' @
     (if names = [] then ''none (tool map not initialized)'' else join '', '' names)"

definition execute_tool_without_cancellation ::
  "tool_handlers \<Rightarrow> server_config list \<Rightarrow> string list \<Rightarrow> (string \<Rightarrow> bool) \<Rightarrow> mcp_world \<Rightarrow> tool_call \<Rightarrow> string + tool_output" where
  "execute_tool_without_cancellation h config agents is_local w call =
     (let tool = ca_name call
      in case get_server_for_tool is_local (mw_tools w) tool of
           None \<Rightarrow> Inl (unknown_tool_error tool (get_all_tool_names (mw_tools w)))
         | Some target \<Rightarrow>
             if belongs_elsewhere config agents w target tool
             then Inr (error_result tool (ca_id call) (foreign_tool_error tool))
             else (case connection_type_of target of
                     BuiltinConn \<Rightarrow> route_builtin_tool h (sc_name target) call
                   | _ \<Rightarrow> map_sum id (under_id call) (th_remote h target call)))"

section \<open>Cancellation\<close>

text \<open>When the user's cancellation reaches the call, if it does: at the two checks before the tool starts or in the race with it.\<close>

datatype cancel_time = Uncancelled | AtStart | BeforeRace | DuringRun

definition try_execute_tool_call ::
  "tool_handlers \<Rightarrow> server_config list \<Rightarrow> string list \<Rightarrow> (string \<Rightarrow> bool) \<Rightarrow> cancel_time \<Rightarrow> mcp_world \<Rightarrow> tool_call \<Rightarrow>
   string + tool_output" where
  "try_execute_tool_call h config agents is_local stop w call =
     (if config = [] then Inl ''MCP has no servers configured''
      else if stop = BeforeRace then Inl ''Tool execution cancelled''
      else if stop = DuringRun then Inl ''Tool execution cancelled during execution''
      else execute_tool_without_cancellation h config agents is_local w call)"

definition execute_tool_call ::
  "tool_handlers \<Rightarrow> server_config list \<Rightarrow> string list \<Rightarrow> (string \<Rightarrow> bool) \<Rightarrow> cancel_time \<Rightarrow> mcp_world \<Rightarrow> tool_call \<Rightarrow>
   string + tool_output" where
  "execute_tool_call h config agents is_local stop w call =
     (if config = [] then Inl ''MCP has no servers configured''
      else if stop = AtStart then Inl ''Tool execution cancelled''
      else try_execute_tool_call h config agents is_local stop w call)"

section \<open>Every result is under the identifier of its call\<close>

lemma under_id_id [simp]: "tr_id (under_id call r) = ca_id call"
  by (simp add: under_id_def)

lemma soften_id [simp]: "tr_id (soften what call res) = ca_id call"
  by (simp add: soften_def error_result_def split: sum.split)

lemma route_id: "route_builtin_tool h server call = Inr r \<Longrightarrow> tr_id r = ca_id call"
  by (cases "th_agent h call") (auto simp: route_builtin_tool_def Let_def split: if_splits)

lemma dispatched_id: "execute_tool_call h config agents is_local stop w call = Inr r \<Longrightarrow> tr_id r = ca_id call"
proof -
  have remote: "map_sum id (under_id call) x = Inr r \<Longrightarrow> tr_id r = ca_id call" for x :: "string + tool_output"
    by (cases x) auto
  show "execute_tool_call h config agents is_local stop w call = Inr r \<Longrightarrow> tr_id r = ca_id call"
    by (auto simp: execute_tool_call_def try_execute_tool_call_def execute_tool_without_cancellation_def Let_def error_result_def
        split: if_splits option.splits connection_type.splits dest: route_id remote)
qed

end
