(* ===== verification/GuardConfig.thy ===== *)
theory GuardConfig
  imports Json
begin

text \<open>
  The project's rules (\<open>src/config/guardrails.rs\<close>): the tables of \<open>.agents/guardrails.toml\<close> as they are decoded, their
  compilation into pipes, guards, hooks and validators, and the evaluation of the guards on a call. The TOML decoder
  and the regular expressions are arguments: a type \<open>'r\<close> of compiled expressions, \<open>compile\<close> and \<open>is_match\<close>; so are
  the JSON printer and the lookup that tells whether a generated rule is in shadow.
\<close>

section \<open>The tables of the file\<close>

datatype has_field = HasNothing | HasOne string | HasMany "string list"

fun into_vec :: "has_field \<Rightarrow> string list" where
  "into_vec HasNothing = []"
| "into_vec (HasOne s) = [s]"
| "into_vec (HasMany v) = v"

datatype pipe_when = FirstMessage | EveryMessage
datatype hook_on = OnSuccess | OnError | OnAny

record raw_pipe =
  rp_name :: string
  rp_command :: string
  rp_match :: "string option"
  rp_when :: pipe_when
  rp_roles :: "string list"

record raw_guard =
  rg_match :: string
  rg_has :: has_field
  rg_when :: "string list"
  rg_message :: string

record raw_hook =
  rh_match :: "string option"
  rh_result :: "string option"
  rh_on :: hook_on
  rh_script :: string

record raw_validator =
  rv_name :: string
  rv_match :: "string option"
  rv_when :: "string list"
  rv_roles :: "string list"
  rv_script :: string

record raw_file =
  rf_pipes :: "raw_pipe list"
  rf_guards :: "raw_guard list"
  rf_hooks :: "raw_hook list"
  rf_validators :: "raw_validator list"

section \<open>Compiled rules\<close>

record evolution_binding =
  eb_id :: string
  eb_shadow :: bool

record 'r target =
  tg_capability :: string
  tg_arg_name :: "string option"
  tg_regex :: "'r option"

record 'r compiled_pipe =
  cp_name :: string
  cp_command :: string
  cp_match_regex :: "'r option"
  cp_when :: pipe_when
  cp_roles :: "string list"
  cp_evolution :: "evolution_binding option"

record 'r compiled_guard =
  cg_trigger :: "'r target"
  cg_has :: "string list"
  cg_when_used :: "'r target list"
  cg_when_unused :: "'r target list"
  cg_message :: string
  cg_evolution :: "evolution_binding option"

record 'r compiled_hook =
  ck_trigger :: "'r target option"
  ck_result_regex :: "'r option"
  ck_on :: hook_on
  ck_script :: string
  ck_evolution :: "evolution_binding option"

record 'r compiled_validator =
  cv_name :: string
  cv_match_regex :: "'r option"
  cv_when_used :: "'r target list"
  cv_when_unused :: "'r target list"
  cv_roles :: "string list"
  cv_script :: string
  cv_evolution :: "evolution_binding option"

record 'r guardrails =
  gr_pipes :: "'r compiled_pipe list"
  gr_guards :: "'r compiled_guard list"
  gr_hooks :: "'r compiled_hook list"
  gr_validators :: "'r compiled_validator list"

definition no_guardrails :: "'r guardrails" where
  "no_guardrails = \<lparr>gr_pipes = [], gr_guards = [], gr_hooks = [], gr_validators = []\<rparr>"

definition append_compiled :: "'r guardrails \<Rightarrow> 'r guardrails \<Rightarrow> 'r guardrails" where
  "append_compiled g generated =
     g\<lparr>gr_pipes := gr_pipes g @ gr_pipes generated,
       gr_guards := gr_guards g @ gr_guards generated,
       gr_hooks := gr_hooks g @ gr_hooks generated,
       gr_validators := gr_validators g @ gr_validators generated\<rparr>"

definition append_generated :: "string \<Rightarrow> bool \<Rightarrow> 'r guardrails \<Rightarrow> 'r guardrails \<Rightarrow> 'r guardrails" where
  "append_generated i shadow g generated =
     (let binding = Some \<lparr>eb_id = i, eb_shadow = shadow\<rparr>
      in append_compiled g
           \<lparr>gr_pipes = map (\<lambda>x. x\<lparr>cp_evolution := binding\<rparr>) (gr_pipes generated),
            gr_guards = map (\<lambda>x. x\<lparr>cg_evolution := binding\<rparr>) (gr_guards generated),
            gr_hooks = map (\<lambda>x. x\<lparr>ck_evolution := binding\<rparr>) (gr_hooks generated),
            gr_validators = map (\<lambda>x. x\<lparr>cv_evolution := binding\<rparr>) (gr_validators generated)\<rparr>)"

section \<open>Parsing\<close>

datatype guard_err =
    TomlError string
  | EmptyTarget
  | MissingClose string
  | EmptyCapability string
  | InvalidRegex string string
  | PipeNoName | PipeDuplicate string | PipeNoCommand string | PipeRegex string string string
  | GuardMatch string guard_err
  | WhenTarget string guard_err | WhenSign string
  | HookMatch string guard_err | HookRegex string string | HookNoScript
  | ValidatorNoName | ValidatorDuplicate string | ValidatorNoScript string | ValidatorRegex string string string
  | ValidatorWhen string string guard_err | ValidatorWhenSign string string

definition map_err :: "('e \<Rightarrow> 'f) \<Rightarrow> 'e + 'a \<Rightarrow> 'f + 'a" where
  "map_err f r = (case r of Inl e \<Rightarrow> Inl (f e) | Inr a \<Rightarrow> Inr a)"

lemma map_err_simps [simp]: "map_err f (Inl e) = Inl (f e)" "map_err f (Inr a) = Inr a"
  by (simp_all add: map_err_def)

lemma map_err_ok [ok_simps]: "map_err f r = Inr a \<longleftrightarrow> r = Inr a"
  by (cases r) auto

text \<open>\<open>is_ascii_alphanumeric\<close> or an underscore.\<close>

definition word_char :: "char \<Rightarrow> bool" where
  "word_char c \<longleftrightarrow> (let n = of_char c :: nat
     in (48 \<le> n \<and> n \<le> 57) \<or> (65 \<le> n \<and> n \<le> 90) \<or> (97 \<le> n \<and> n \<le> 122) \<or> n = 95)"

definition split_arg :: "string \<Rightarrow> string option \<times> string" where
  "split_arg inner =
     (case split_once CHR ''='' inner of
        None \<Rightarrow> (None, inner)
      | Some (head, rest) \<Rightarrow> if head \<noteq> [] \<and> list_all word_char head then (Some head, rest) else (None, inner))"

text \<open>
  The slice \<open>s[open + 1..s.len() - 1]\<close> stands after a parenthesis and before the closing one that ends the text, so
  its bounds never cross (\<open>target_slice\<close>).
\<close>

definition parse_target :: "(string \<Rightarrow> string + 'r) \<Rightarrow> string \<Rightarrow> guard_err + 'r target" where
  "parse_target compile s =
     (let s = trim s
      in if s = [] then Inl EmptyTarget
         else case position (\<lambda>c. c = CHR ''('') s of
           None \<Rightarrow> Inr \<lparr>tg_capability = s, tg_arg_name = None, tg_regex = None\<rparr>
         | Some i \<Rightarrow>
             if \<not> ends_with s '')'' then Inl (MissingClose s)
             else let capability = trim (take i s)
                  in if capability = [] then Inl (EmptyCapability s)
                     else let (arg_name, src) = split_arg (take (length s - 1 - (i + 1)) (drop (i + 1) s))
                          in rbind (map_err (InvalidRegex src) (compile src)) (\<lambda>re.
                               Inr \<lparr>tg_capability = capability, tg_arg_name = arg_name, tg_regex = Some re\<rparr>))"

lemma target_slice:
  assumes "position (\<lambda>c. c = CHR ''('') s = Some i" and "ends_with s '')''"
  shows "i + 1 \<le> length s - 1"
proof -
  obtain t where s: "s = t @ '')''" using assms(2) by (auto simp: ends_with_def suffix_def)
  have "i < length s" "s ! i = CHR ''(''" using position_Some[OF assms(1)] by auto
  then have "i \<noteq> length t" unfolding s by auto
  with \<open>i < length s\<close> show ?thesis unfolding s by simp
qed

text \<open>The entries of a \<open>when\<close>: the targets that must have been used, and those that must not.\<close>

fun parse_when ::
  "(string \<Rightarrow> string + 'r) \<Rightarrow> (string \<Rightarrow> guard_err \<Rightarrow> guard_err) \<Rightarrow> (string \<Rightarrow> guard_err) \<Rightarrow> string list \<Rightarrow>
   guard_err + 'r target list \<times> 'r target list" where
  "parse_when compile wrap no_sign [] = Inr ([], [])"
| "parse_when compile wrap no_sign (item # items) =
     (case trim item of
        [] \<Rightarrow> Inl (no_sign item)
      | sign # rest \<Rightarrow>
          if sign = CHR ''+''
          then rbind (map_err (wrap item) (parse_target compile rest)) (\<lambda>t.
               rbind (parse_when compile wrap no_sign items) (\<lambda>(used, unused). Inr (t # used, unused)))
          else if sign = CHR ''-''
          then rbind (map_err (wrap item) (parse_target compile rest)) (\<lambda>t.
               rbind (parse_when compile wrap no_sign items) (\<lambda>(used, unused). Inr (used, t # unused)))
          else Inl (no_sign item))"

text \<open>A \<open>match\<close> that is missing or empty is no filter.\<close>

definition optional_regex ::
  "(string \<Rightarrow> string + 'r) \<Rightarrow> (string \<Rightarrow> string \<Rightarrow> guard_err) \<Rightarrow> string option \<Rightarrow> guard_err + 'r option" where
  "optional_regex compile err src =
     (case src of
        Some s \<Rightarrow> if s \<noteq> [] then rbind (map_err (err s) (compile s)) (\<lambda>re. Inr (Some re)) else Inr None
      | None \<Rightarrow> Inr None)"

fun parse_pipes :: "(string \<Rightarrow> string + 'r) \<Rightarrow> string set \<Rightarrow> raw_pipe list \<Rightarrow> guard_err + 'r compiled_pipe list" where
  "parse_pipes compile names [] = Inr []"
| "parse_pipes compile names (p # ps) =
     rbind (ensure (\<not> is_blank (rp_name p)) PipeNoName) (\<lambda>_.
     rbind (ensure (rp_name p \<notin> names) (PipeDuplicate (rp_name p))) (\<lambda>_.
     rbind (ensure (\<not> is_blank (rp_command p)) (PipeNoCommand (rp_name p))) (\<lambda>_.
     rbind (optional_regex compile (PipeRegex (rp_name p)) (rp_match p)) (\<lambda>re.
     rbind (parse_pipes compile (insert (rp_name p) names) ps) (\<lambda>rest.
       Inr (\<lparr>cp_name = rp_name p, cp_command = rp_command p, cp_match_regex = re, cp_when = rp_when p,
             cp_roles = rp_roles p, cp_evolution = None\<rparr> # rest))))))"

definition parse_guard :: "(string \<Rightarrow> string + 'r) \<Rightarrow> raw_guard \<Rightarrow> guard_err + 'r compiled_guard" where
  "parse_guard compile r =
     rbind (map_err (GuardMatch (rg_match r)) (parse_target compile (rg_match r))) (\<lambda>trigger.
     rbind (parse_when compile WhenTarget WhenSign (rg_when r)) (\<lambda>(used, unused).
       Inr \<lparr>cg_trigger = trigger, cg_has = into_vec (rg_has r), cg_when_used = used, cg_when_unused = unused,
            cg_message = rg_message r, cg_evolution = None\<rparr>))"

definition parse_hook :: "(string \<Rightarrow> string + 'r) \<Rightarrow> raw_hook \<Rightarrow> guard_err + 'r compiled_hook" where
  "parse_hook compile h =
     rbind (case rh_match h of
              Some s \<Rightarrow> if \<not> is_blank s then rbind (map_err (HookMatch s) (parse_target compile s)) (\<lambda>t. Inr (Some t))
                        else Inr None
            | None \<Rightarrow> Inr None) (\<lambda>trigger.
     rbind (case rh_result h of
              Some s \<Rightarrow> rbind (map_err (HookRegex s) (compile s)) (\<lambda>re. Inr (Some re))
            | None \<Rightarrow> Inr None) (\<lambda>re.
     rbind (ensure (\<not> is_blank (rh_script h)) HookNoScript) (\<lambda>_.
       Inr \<lparr>ck_trigger = trigger, ck_result_regex = re, ck_on = rh_on h, ck_script = rh_script h,
            ck_evolution = None\<rparr>)))"

fun parse_validators ::
  "(string \<Rightarrow> string + 'r) \<Rightarrow> string set \<Rightarrow> raw_validator list \<Rightarrow> guard_err + 'r compiled_validator list" where
  "parse_validators compile names [] = Inr []"
| "parse_validators compile names (v # vs) =
     rbind (ensure (\<not> is_blank (rv_name v)) ValidatorNoName) (\<lambda>_.
     rbind (ensure (rv_name v \<notin> names) (ValidatorDuplicate (rv_name v))) (\<lambda>_.
     rbind (ensure (\<not> is_blank (rv_script v)) (ValidatorNoScript (rv_name v))) (\<lambda>_.
     rbind (optional_regex compile (ValidatorRegex (rv_name v)) (rv_match v)) (\<lambda>re.
     rbind (parse_when compile (ValidatorWhen (rv_name v)) (ValidatorWhenSign (rv_name v)) (rv_when v))
       (\<lambda>(used, unused).
     rbind (parse_validators compile (insert (rv_name v) names) vs) (\<lambda>rest.
       Inr (\<lparr>cv_name = rv_name v, cv_match_regex = re, cv_when_used = used, cv_when_unused = unused,
             cv_roles = rv_roles v, cv_script = rv_script v, cv_evolution = None\<rparr> # rest)))))))"

definition parse_guardrails ::
  "(string \<Rightarrow> string + raw_file) \<Rightarrow> (string \<Rightarrow> string + 'r) \<Rightarrow> string \<Rightarrow> guard_err + 'r guardrails" where
  "parse_guardrails toml compile src =
     rbind (map_err TomlError (toml src)) (\<lambda>raw.
     rbind (parse_pipes compile {} (rf_pipes raw)) (\<lambda>pipes.
     rbind (map_ok (parse_guard compile) (rf_guards raw)) (\<lambda>guards.
     rbind (map_ok (parse_hook compile) (rf_hooks raw)) (\<lambda>hooks.
     rbind (parse_validators compile {} (rf_validators raw)) (\<lambda>validators.
       Inr \<lparr>gr_pipes = pipes, gr_guards = guards, gr_hooks = hooks, gr_validators = validators\<rparr>)))))"

text \<open>A missing or broken file is no rules; \<open>read\<close> is the content of the file.\<close>

definition load_from_workdir ::
  "(string \<Rightarrow> string + raw_file) \<Rightarrow> (string \<Rightarrow> string + 'r) \<Rightarrow> string option \<Rightarrow> 'r guardrails" where
  "load_from_workdir toml compile read =
     (case read of
        None \<Rightarrow> no_guardrails
      | Some src \<Rightarrow> (case parse_guardrails toml compile src of Inr g \<Rightarrow> g | Inl e \<Rightarrow> no_guardrails))"

section \<open>Matching\<close>

definition role_passes :: "string \<Rightarrow> string \<Rightarrow> bool" where
  "role_passes current f \<longleftrightarrow>
     f = current \<or> (length f < length current \<and> starts_with current f \<and> current ! length f = CHR '':'')"

definition role_matches :: "string list \<Rightarrow> string \<Rightarrow> bool" where
  "role_matches roles current \<longleftrightarrow> roles = [] \<or> list_ex (role_passes current) roles"

type_synonym call_record = "string option \<times> json"

definition haystack :: "(json \<Rightarrow> string) \<Rightarrow> string option \<Rightarrow> json \<Rightarrow> string" where
  "haystack print arg_name params =
     (case arg_name of
        Some name \<Rightarrow> (case json_get name params of Some (JStr s) \<Rightarrow> s | Some v \<Rightarrow> print v | None \<Rightarrow> [])
      | None \<Rightarrow> print params)"

record 'r matcher =
  mt_is_match :: "'r \<Rightarrow> string \<Rightarrow> bool"
  mt_print :: "json \<Rightarrow> string"

definition target_matches :: "'r matcher \<Rightarrow> 'r target \<Rightarrow> call_record \<Rightarrow> bool" where
  "target_matches m t call \<longleftrightarrow>
     (case call of (capability, params) \<Rightarrow>
        capability = Some (tg_capability t) \<and>
        (case tg_regex t of
           None \<Rightarrow> True
         | Some re \<Rightarrow> mt_is_match m re (haystack (mt_print m) (tg_arg_name t) params)))"

text \<open>The \<open>+\<close> and \<open>-\<close> entries of a \<open>when\<close> against a list of recorded calls.\<close>

definition history_satisfied :: "'r matcher \<Rightarrow> 'r target list \<Rightarrow> 'r target list \<Rightarrow> call_record list \<Rightarrow> bool" where
  "history_satisfied m used unused calls \<longleftrightarrow>
     list_all (\<lambda>t. list_ex (target_matches m t) calls) used \<and>
     list_all (\<lambda>t. \<not> list_ex (target_matches m t) calls) unused"

definition guard_applies ::
  "'r matcher \<Rightarrow> 'r compiled_guard \<Rightarrow> call_record \<Rightarrow> call_record list \<Rightarrow> string set \<Rightarrow> bool" where
  "guard_applies m g call log loaded \<longleftrightarrow>
     target_matches m (cg_trigger g) call \<and> list_all (\<lambda>c. c \<in> loaded) (cg_has g) \<and>
     history_satisfied m (cg_when_used g) (cg_when_unused g) log"

record guard_evaluation =
  ge_blocked :: "(string \<times> evolution_binding option) option"
  ge_shadow_ids :: "string list"

definition shadowed :: "(string \<Rightarrow> bool \<Rightarrow> bool) \<Rightarrow> evolution_binding option \<Rightarrow> bool" where
  "shadowed is_shadow b = (case b of Some b \<Rightarrow> is_shadow (eb_id b) (eb_shadow b) | None \<Rightarrow> False)"

fun evaluate_from ::
  "'r matcher \<Rightarrow> (string \<Rightarrow> bool \<Rightarrow> bool) \<Rightarrow> call_record \<Rightarrow> call_record list \<Rightarrow> string set \<Rightarrow>
   'r compiled_guard list \<Rightarrow> string list \<Rightarrow> guard_evaluation" where
  "evaluate_from m is_shadow call log loaded [] ids = \<lparr>ge_blocked = None, ge_shadow_ids = ids\<rparr>"
| "evaluate_from m is_shadow call log loaded (g # gs) ids =
     (if \<not> guard_applies m g call log loaded then evaluate_from m is_shadow call log loaded gs ids
      else if shadowed is_shadow (cg_evolution g)
      then evaluate_from m is_shadow call log loaded gs (case cg_evolution g of Some b \<Rightarrow> ids @ [eb_id b] | None \<Rightarrow> ids)
      else \<lparr>ge_blocked = Some (cg_message g, cg_evolution g), ge_shadow_ids = ids\<rparr>)"

definition evaluate_guards ::
  "'r matcher \<Rightarrow> (string \<Rightarrow> bool \<Rightarrow> bool) \<Rightarrow> 'r guardrails \<Rightarrow> call_record \<Rightarrow> call_record list \<Rightarrow> string set \<Rightarrow>
   guard_evaluation" where
  "evaluate_guards m is_shadow rules call log loaded =
     evaluate_from m is_shadow call log loaded (gr_guards rules) []"

definition check_guards ::
  "'r matcher \<Rightarrow> (string \<Rightarrow> bool \<Rightarrow> bool) \<Rightarrow> 'r guardrails \<Rightarrow> call_record \<Rightarrow> call_record list \<Rightarrow> string set \<Rightarrow>
   string option" where
  "check_guards m is_shadow rules call log loaded =
     map_option fst (ge_blocked (evaluate_guards m is_shadow rules call log loaded))"

end
