(* ===== verification/Evolution.thy ===== *)
theory Evolution
  imports GuardConfig
begin

text \<open>
  The life cycle of generated behaviour (\<open>src/supervisor/learning/evolution/\<close>): the registry of records
  (\<open>registry.rs\<close>), what a session compiles from it, shadow matches, trials and roll-backs (\<open>runtime.rs\<close>), and the
  user's commands (\<open>handle_evolution\<close> of \<open>src/session/chat/session/commands/learning.rs\<close>). The registry is a file that
  every session shares; it is a list of records here, \<open>None\<close> when it cannot be read, and a write to it succeeds. The
  clock and the printing of a credit are arguments.
\<close>

section \<open>Records\<close>

datatype artifact_kind = SkillArtifact | PipeArtifact | GuardArtifact | HookArtifact | ValidatorArtifact
datatype evolution_state = CandidateState | ShadowState | TrialState | ActiveState | RejectedState | RetiredState
datatype effect_class = Advisory | Observational | Effectful

fun affects_runtime :: "evolution_state \<Rightarrow> bool" where
  "affects_runtime TrialState = True"
| "affects_runtime ActiveState = True"
| "affects_runtime _ = False"

fun state_str :: "evolution_state \<Rightarrow> string" where
  "state_str CandidateState = ''candidate''"
| "state_str ShadowState = ''shadow''"
| "state_str TrialState = ''trial''"
| "state_str ActiveState = ''active''"
| "state_str RejectedState = ''rejected''"
| "state_str RetiredState = ''retired''"

record artifact_scope =
  as_project :: "string option"
  as_domain :: "string option"

definition scope_matches :: "artifact_scope \<Rightarrow> string \<Rightarrow> string \<Rightarrow> bool" where
  "scope_matches s project domain \<longleftrightarrow>
     (as_project s = None \<or> as_project s = Some project) \<and> (as_domain s = None \<or> as_domain s = Some domain)"

record replay_case =
  rc_label :: string
  rc_input :: string
  rc_expected_match :: bool
  rc_boundary :: bool

record history_event =
  hv_at :: string
  hv_event :: string
  hv_detail :: string

record evolution_record =
  ev_schema_version :: u32
  ev_id :: string
  ev_name :: string
  ev_description :: string
  ev_kind :: artifact_kind
  ev_scope :: artifact_scope
  ev_state :: evolution_state
  ev_effect :: effect_class
  ev_authorized :: bool
  ev_source_memory_ids :: "string list"
  ev_evidence :: "string list"
  ev_replay_cases :: "replay_case list"
  ev_artifact_version :: u32
  ev_parent_version :: "string option"
  ev_superseded_ids :: "string list"
  ev_generator_model :: string
  ev_verifier_model :: string
  ev_artifact_path :: string
  ev_script_path :: "string option"
  ev_shadow_matches :: u32
  ev_trial_uses :: u32
  ev_successes :: u32
  ev_failures :: u32
  ev_false_triggers :: u32
  ev_created :: string
  ev_updated :: string
  ev_promoted :: "string option"
  ev_last_used :: "string option"
  ev_retired :: "string option"
  ev_history :: "history_event list"

definition REGISTRY_SCHEMA_VERSION :: u32 where "REGISTRY_SCHEMA_VERSION = 1"
definition SHADOW_MATCHES_REQUIRED :: u32 where "SHADOW_MATCHES_REQUIRED = 2"
definition TRIAL_SUCCESSES_REQUIRED :: u32 where "TRIAL_SUCCESSES_REQUIRED = 2"
definition TRIAL_FAILURE_LIMIT :: u32 where "TRIAL_FAILURE_LIMIT = 1"
definition TRIAL_MAX_USES :: u32 where "TRIAL_MAX_USES = 4"

definition domain_name :: "string \<Rightarrow> string" where
  "domain_name role = takeWhile (\<lambda>c. c \<noteq> CHR '':'') role"

section \<open>The registry\<close>

type_synonym registry = "evolution_record list"

datatype registry_err = Unreadable | NotFound string | Exists string | NameTaken string | BadFileName string | Refused string

definition get_record :: "registry option \<Rightarrow> string \<Rightarrow> evolution_record option" where
  "get_record reg i = (case reg of Some rs \<Rightarrow> find (\<lambda>r. ev_id r = i) rs | None \<Rightarrow> None)"

definition retired_or_rejected :: "evolution_state \<Rightarrow> bool" where
  "retired_or_rejected s \<longleftrightarrow> s = RejectedState \<or> s = RetiredState"

text \<open>
  A file name of a generated artifact: not blank, and one path component that is no directory. \<open>one_component\<close> is
  \<open>Path::components().count() == 1\<close> of a relative path.
\<close>

definition validate_relative_file :: "(string \<Rightarrow> bool) \<Rightarrow> string \<Rightarrow> registry_err + unit" where
  "validate_relative_file one_component f =
     ensure (\<not> (is_blank f \<or> starts_with f ''/'' \<or> \<not> one_component f \<or> f = ''.'' \<or> f = ''..'')) (BadFileName f)"

definition create_record ::
  "(string \<Rightarrow> bool) \<Rightarrow> evolution_record \<Rightarrow> registry option \<Rightarrow> registry_err + registry" where
  "create_record one_component record reg =
     rbind (validate_relative_file one_component (ev_artifact_path record)) (\<lambda>_.
     rbind (case ev_script_path record of
              Some f \<Rightarrow> validate_relative_file one_component f | None \<Rightarrow> Inr ()) (\<lambda>_.
     case reg of
       None \<Rightarrow> Inl Unreadable
     | Some rs \<Rightarrow>
         rbind (ensure (\<not> list_ex (\<lambda>r. ev_id r = ev_id record) rs) (Exists (ev_id record))) (\<lambda>_.
         rbind (ensure (\<not> list_ex (\<lambda>r. ev_name r = ev_name record \<and> ev_scope r = ev_scope record \<and>
                  \<not> retired_or_rejected (ev_state r)) rs) (NameTaken (ev_name record))) (\<lambda>_.
           Inr (rs @ [record])))))"

text \<open>The first record with the identifier is changed, in place; an operation that fails changes nothing.\<close>

definition mutate_record ::
  "string \<Rightarrow> string \<Rightarrow> (evolution_record \<Rightarrow> registry_err + evolution_record) \<Rightarrow> registry option \<Rightarrow>
   registry_err + evolution_record \<times> registry" where
  "mutate_record now i op reg =
     (case reg of
        None \<Rightarrow> Inl Unreadable
      | Some rs \<Rightarrow>
          (case position (\<lambda>r. ev_id r = i) rs of
             None \<Rightarrow> Inl (NotFound i)
           | Some k \<Rightarrow> rbind (op (rs ! k)) (\<lambda>r. let r = r\<lparr>ev_updated := now\<rparr> in Inr (r, rs[k := r]))))"

definition append_history :: "string \<Rightarrow> string \<Rightarrow> string \<Rightarrow> evolution_record \<Rightarrow> evolution_record" where
  "append_history now event detail r =
     r\<lparr>ev_history := ev_history r @ [\<lparr>hv_at = now, hv_event = event, hv_detail = detail\<rparr>]\<rparr>"

section \<open>What a session holds\<close>

record skill_binding =
  sb_id :: string
  sb_shadow :: bool
  sb_path :: string

record evolution =
  ef_registry :: "registry option"
  ef_skills :: "(string \<rightharpoonup> skill_binding) option"
  ef_behaviors :: "string set option"
  ef_lifecycle :: "(string \<times> string) list"

text \<open>A durable downgrade acts at once, a promotion does not: a binding compiled in shadow stays in shadow.\<close>

definition binding_is_shadow :: "registry option \<Rightarrow> string \<Rightarrow> bool \<Rightarrow> bool" where
  "binding_is_shadow reg i compiled_shadow \<longleftrightarrow>
     compiled_shadow \<or>
     (case get_record reg i of Some r \<Rightarrow> \<not> affects_runtime (ev_state r) | None \<Rightarrow> True)"

definition behavior_available :: "evolution \<Rightarrow> string \<Rightarrow> bool" where
  "behavior_available s i \<longleftrightarrow>
     (case ef_skills s of
        Some skills \<Rightarrow> (\<exists>b\<in>ran skills. sb_id b = i \<and> \<not> binding_is_shadow (ef_registry s) (sb_id b) (sb_shadow b))
      | None \<Rightarrow> False)"

definition active_skill_dirs :: "evolution \<Rightarrow> string set" where
  "active_skill_dirs s =
     (case ef_skills s of
        Some skills \<Rightarrow> sb_path ` {b \<in> ran skills. \<not> binding_is_shadow (ef_registry s) (sb_id b) (sb_shadow b)}
      | None \<Rightarrow> {})"

definition mark_behavior_used :: "string \<Rightarrow> evolution \<Rightarrow> evolution" where
  "mark_behavior_used i s =
     s\<lparr>ef_behaviors := Some (insert i (case ef_behaviors s of Some b \<Rightarrow> b | None \<Rightarrow> {}))\<rparr>"

definition emit_lifecycle :: "evolution_record \<Rightarrow> string \<Rightarrow> evolution \<Rightarrow> evolution" where
  "emit_lifecycle r action s = s\<lparr>ef_lifecycle := ef_lifecycle s @ [(ev_id r, action)]\<rparr>"

definition clear_behaviors_for_session :: "evolution \<Rightarrow> evolution" where
  "clear_behaviors_for_session s = s\<lparr>ef_skills := None, ef_behaviors := None\<rparr>"

definition loadable :: "string \<Rightarrow> string \<Rightarrow> evolution_record \<Rightarrow> bool" where
  "loadable project domain r \<longleftrightarrow>
     scope_matches (ev_scope r) project domain \<and> ev_state r \<in> {ShadowState, TrialState, ActiveState}"

text \<open>\<open>dir\<close> is the directory of a record's artifact.\<close>

definition bind_skills :: "(evolution_record \<Rightarrow> string option) \<Rightarrow> evolution_record list \<Rightarrow> string \<rightharpoonup> skill_binding" where
  "bind_skills dir rs =
     fold (\<lambda>r m. case dir r of
         Some path \<Rightarrow> m(ev_name r \<mapsto> \<lparr>sb_id = ev_id r, sb_shadow = ev_state r = ShadowState, sb_path = path\<rparr>)
       | None \<Rightarrow> m)
       (filter (\<lambda>r. ev_kind r = SkillArtifact) rs) Map.empty"

text \<open>The generated rules; \<open>artifact\<close> is the compiled file of a record, \<open>None\<close> when it cannot be read or parsed.\<close>

definition generated_guardrails ::
  "(evolution_record \<Rightarrow> 'r guardrails option) \<Rightarrow> bool \<Rightarrow> evolution_record list \<Rightarrow> 'r guardrails" where
  "generated_guardrails artifact user_has_pipe rs =
     fold (\<lambda>r g. if ev_kind r = PipeArtifact \<and> user_has_pipe then g
                 else case artifact r of
                   Some parsed \<Rightarrow> append_generated (ev_id r) (ev_state r = ShadowState) g parsed
                 | None \<Rightarrow> g)
       (filter (\<lambda>r. ev_kind r \<noteq> SkillArtifact) rs) no_guardrails"

text \<open>The generated rules to add to those of the project, if the session compiles any.\<close>

definition init_behaviors_for_session ::
  "(evolution_record \<Rightarrow> string option) \<Rightarrow> (evolution_record \<Rightarrow> 'r guardrails option) \<Rightarrow> bool \<Rightarrow> bool \<Rightarrow>
   string \<Rightarrow> string \<Rightarrow> evolution \<Rightarrow> 'r guardrails option \<times> evolution" where
  "init_behaviors_for_session dir artifact enabled user_has_pipe project role s =
     (if \<not> enabled then (None, clear_behaviors_for_session s)
      else case ef_registry s of
        None \<Rightarrow> (None, clear_behaviors_for_session s)
      | Some rs \<Rightarrow>
          let found = filter (loadable project (domain_name role)) rs
          in (Some (generated_guardrails artifact user_has_pipe found),
              s\<lparr>ef_skills := Some (bind_skills dir found),
                ef_behaviors := Some (case ef_behaviors s of Some b \<Rightarrow> b | None \<Rightarrow> {})\<rparr>))"

section \<open>Shadow matches\<close>

definition shadow_match_record :: "string \<Rightarrow> evolution_record \<Rightarrow> evolution_record" where
  "shadow_match_record now r =
     (if ev_state r \<noteq> ShadowState then r
      else let r = append_history now ''shadow_match'' ''native trigger matched''
                     (r\<lparr>ev_shadow_matches := saturating_succ (ev_shadow_matches r)\<rparr>)
           in if SHADOW_MATCHES_REQUIRED \<le> ev_shadow_matches r \<and> (ev_effect r \<noteq> Effectful \<or> ev_authorized r)
              then append_history now ''trial'' ''shadow trigger threshold satisfied'' (r\<lparr>ev_state := TrialState\<rparr>)
              else r)"

definition mark_shadow_match :: "string \<Rightarrow> string \<Rightarrow> evolution \<Rightarrow> evolution" where
  "mark_shadow_match now i s =
     (case get_record (ef_registry s) i of
        None \<Rightarrow> s
      | Some r \<Rightarrow>
          if ev_state r \<noteq> ShadowState then s
          else case mutate_record now i (\<lambda>r. Inr (shadow_match_record now r)) (ef_registry s) of
                 Inl e \<Rightarrow> s
               | Inr (r, rs) \<Rightarrow>
                   let s = s\<lparr>ef_registry := Some rs\<rparr>
                   in if ev_state r = TrialState then emit_lifecycle r ''trial'' s else s)"

section \<open>Outcomes\<close>

text \<open>
  The credit of an outcome in hundredths: \<open>5\<close>, \<open>-5\<close>, \<open>-15\<close>, and \<open>0\<close> for a turn without a verdict.
\<close>

definition note_use :: "string \<Rightarrow> evolution_record \<Rightarrow> evolution_record" where
  "note_use now r =
     (let r = r\<lparr>ev_last_used := Some now\<rparr>
      in if ev_state r = TrialState then r\<lparr>ev_trial_uses := saturating_succ (ev_trial_uses r)\<rparr> else r)"

definition note_success :: "string \<Rightarrow> string \<Rightarrow> evolution_record \<Rightarrow> evolution_record" where
  "note_success now detail r =
     (let r = append_history now ''success'' detail (r\<lparr>ev_successes := saturating_succ (ev_successes r)\<rparr>)
      in if ev_state r = TrialState \<and> TRIAL_SUCCESSES_REQUIRED \<le> ev_successes r
         then append_history now ''promoted'' ''bounded live trial succeeded''
                (r\<lparr>ev_state := ActiveState, ev_promoted := Some now\<rparr>)
         else r)"

definition note_failure :: "string \<Rightarrow> string \<Rightarrow> evolution_record \<Rightarrow> evolution_record" where
  "note_failure now detail r =
     (let r = append_history now ''failure'' detail (r\<lparr>ev_failures := saturating_succ (ev_failures r)\<rparr>)
      in if affects_runtime (ev_state r) \<and> TRIAL_FAILURE_LIMIT \<le> ev_failures r
         then append_history now ''rollback'' ''verified negative outcome''
                (r\<lparr>ev_state := ShadowState, ev_shadow_matches := 0, ev_successes := 0\<rparr>)
         else r)"

definition note_inconclusive :: "string \<Rightarrow> evolution_record \<Rightarrow> evolution_record" where
  "note_inconclusive now r =
     (if ev_state r = TrialState \<and> TRIAL_MAX_USES \<le> ev_trial_uses r \<and> ev_successes r < TRIAL_SUCCESSES_REQUIRED
      then append_history now ''trial_inconclusive'' ''bounded trial ended without enough verified successes''
             (r\<lparr>ev_state := RetiredState, ev_retired := Some now\<rparr>)
      else r)"

definition reinforce_record :: "(int \<Rightarrow> string) \<Rightarrow> string \<Rightarrow> int \<Rightarrow> evolution_record \<Rightarrow> evolution_record" where
  "reinforce_record show_delta now delta r =
     (let detail = ''outcome credit '' @ show_delta delta; r = note_use now r;
          r = (if 0 < delta then note_success now detail r
               else if delta < 0 then note_failure now detail r else r)
      in note_inconclusive now r)"

definition retire_superseded :: "string \<Rightarrow> string \<Rightarrow> evolution_record \<Rightarrow> evolution_record" where
  "retire_superseded now by r =
     append_history now ''retired'' (''superseded by promoted '' @ by)
       (r\<lparr>ev_state := RetiredState, ev_retired := Some now\<rparr>)"

definition apply_mutation ::
  "string \<Rightarrow> string \<Rightarrow> (evolution_record \<Rightarrow> evolution_record) \<Rightarrow> evolution \<Rightarrow> evolution" where
  "apply_mutation now i f s =
     (case mutate_record now i (\<lambda>r. Inr (f r)) (ef_registry s) of
        Inl e \<Rightarrow> s
      | Inr (r, rs) \<Rightarrow> s\<lparr>ef_registry := Some rs\<rparr>)"

definition last_event :: "evolution_record \<Rightarrow> string option" where
  "last_event r = (if ev_history r = [] then None else Some (hv_event (last (ev_history r))))"

definition reinforce_one :: "(int \<Rightarrow> string) \<Rightarrow> string \<Rightarrow> int \<Rightarrow> string \<Rightarrow> evolution \<Rightarrow> evolution" where
  "reinforce_one show_delta now delta i s =
     (case mutate_record now i (\<lambda>r. Inr (reinforce_record show_delta now delta r)) (ef_registry s) of
        Inl e \<Rightarrow> s
      | Inr (r, rs) \<Rightarrow>
          let s = s\<lparr>ef_registry := Some rs\<rparr>;
              s = (if last_event r = Some ''promoted''
                   then fold (\<lambda>old. apply_mutation now old (retire_superseded now (ev_id r))) (ev_superseded_ids r) s
                   else s)
          in case last_event r of
               Some event \<Rightarrow>
                 if event \<in> {''promoted'', ''rollback'', ''trial_inconclusive''} then emit_lifecycle r event s else s
             | None \<Rightarrow> s)"

text \<open>The used behaviours are taken; \<open>order\<close> is the order in which the hash set yields them.\<close>

definition reinforce_session ::
  "(int \<Rightarrow> string) \<Rightarrow> (string set \<Rightarrow> string list) \<Rightarrow> string \<Rightarrow> int \<Rightarrow> evolution \<Rightarrow> evolution" where
  "reinforce_session show_delta order now delta s =
     (let used = (case ef_behaviors s of Some b \<Rightarrow> b | None \<Rightarrow> {});
          s = s\<lparr>ef_behaviors := map_option (\<lambda>_. {}) (ef_behaviors s)\<rparr>
      in fold (reinforce_one show_delta now delta) (order used) s)"

section \<open>The user's commands\<close>

definition approve_record :: "string \<Rightarrow> evolution_record \<Rightarrow> registry_err + evolution_record" where
  "approve_record now r =
     rbind (ensure (ev_state r = ShadowState) (Refused ''only a shadow candidate can be approved'')) (\<lambda>_.
       Inr (append_history now ''approved'' ''user approved bounded live trial''
         (r\<lparr>ev_authorized := True, ev_state := TrialState\<rparr>)))"

definition reject_record :: "string \<Rightarrow> evolution_record \<Rightarrow> registry_err + evolution_record" where
  "reject_record now r =
     Inr (append_history now ''rejected'' ''user rejected generated behavior'' (r\<lparr>ev_state := RejectedState\<rparr>))"

definition rollback_record :: "string \<Rightarrow> evolution_record \<Rightarrow> registry_err + evolution_record" where
  "rollback_record now r =
     rbind (ensure (affects_runtime (ev_state r)) (Refused ''only a trial or active behavior can be rolled back'')) (\<lambda>_.
       Inr (append_history now ''rollback'' ''user requested rollback''
         (r\<lparr>ev_state := ShadowState, ev_shadow_matches := 0, ev_successes := 0\<rparr>)))"

datatype evolution_action = Approve | Reject | Rollback

fun action_on :: "evolution_action \<Rightarrow> string \<Rightarrow> evolution_record \<Rightarrow> registry_err + evolution_record" where
  "action_on Approve = approve_record"
| "action_on Reject = reject_record"
| "action_on Rollback = rollback_record"

definition handle_evolution_action ::
  "string \<Rightarrow> evolution_action \<Rightarrow> string \<Rightarrow> evolution \<Rightarrow> registry_err + evolution" where
  "handle_evolution_action now action i s =
     rbind (mutate_record now i (action_on action now) (ef_registry s)) (\<lambda>(r, rs). Inr (s\<lparr>ef_registry := Some rs\<rparr>))"

text \<open>A new candidate enters the registry and demotes what it supersedes (the end of \<open>synthesize\<close>).\<close>

definition supersede_record :: "string \<Rightarrow> string \<Rightarrow> evolution_record \<Rightarrow> evolution_record" where
  "supersede_record now by r =
     append_history now ''superseded'' (''candidate '' @ by @ '' replaces this behavior'')
       (r\<lparr>ev_state := ShadowState, ev_false_triggers := saturating_succ (ev_false_triggers r)\<rparr>)"

definition admit_candidate ::
  "(string \<Rightarrow> bool) \<Rightarrow> string \<Rightarrow> evolution_record \<Rightarrow> evolution \<Rightarrow> registry_err + evolution" where
  "admit_candidate one_component now record s =
     rbind (create_record one_component record (ef_registry s)) (\<lambda>rs.
       let s = s\<lparr>ef_registry := Some rs\<rparr>;
           s = (if ev_state record = ShadowState
                then fold (\<lambda>old. apply_mutation now old (supersede_record now (ev_id record)))
                       (ev_superseded_ids record) s
                else s)
       in Inr (emit_lifecycle record (state_str (ev_state record)) s))"

end
