(* ===== verification/Guardrails.thy ===== *)
theory Guardrails
  imports Evolution Inbox ToolResults
begin

text \<open>
  The rules at work in a session: the log of calls and the check of a batch (\<open>src/session/guardrails.rs\<close>), the hooks
  after a batch and the validators after a turn (\<open>src/session/hooks.rs\<close>), the pipe before a message
  (\<open>src/session/pipe.rs\<close>, \<open>run_pipe_if_enabled\<close> of \<open>src/session/chat/session/layer_processor.rs\<close>), and a batch of tool
  calls from check to hooks (\<open>execute_tools_with_context\<close> of \<open>src/session/chat/response/tool_execution.rs\<close>). Scripts,
  the manifests of capabilities and the map from tools to servers are arguments.
\<close>

section \<open>State\<close>

datatype script_outcome = SpawnFailed string | WaitFailed string | TimedOut | Exited "int option" string string

record 'r guard_env =
  gv_match :: "'r matcher"
  gv_now :: string
  gv_servers :: "string list"
  gv_server_of :: "string \<Rightarrow> string option"
  gv_capabilities :: "(string \<times> string list) list option"
  gv_overlay :: "(string \<times> (string \<rightharpoonup> string list)) list"
  gv_workdir :: string
  gv_run :: "string \<Rightarrow> (string \<times> string) list \<Rightarrow> string \<Rightarrow> script_outcome"

record cap_lookup =
  cl_exact :: "string \<times> string \<rightharpoonup> string"
  cl_wildcard :: "string \<rightharpoonup> string"

record 'r guard_state =
  gd_rules :: "'r guardrails option"
  gd_log :: "call_record list"
  gd_lookup :: "cap_lookup option"
  gd_cursors :: "string \<rightharpoonup> nat"
  gd_pipe_runs :: "string \<rightharpoonup> u64"
  gd_messages :: u64
  gd_evolution :: evolution

definition init_rules :: "'r guardrails \<Rightarrow> 'r guard_state \<Rightarrow> 'r guard_state" where
  "init_rules rules st = st\<lparr>gd_rules := Some rules\<rparr>"

definition merge_generated :: "'r guardrails \<Rightarrow> 'r guard_state \<Rightarrow> 'r guard_state" where
  "merge_generated generated st =
     st\<lparr>gd_rules := Some (append_compiled (case gd_rules st of Some g \<Rightarrow> g | None \<Rightarrow> no_guardrails) generated)\<rparr>"

definition clear_guardrails :: "'r guard_state \<Rightarrow> 'r guard_state" where
  "clear_guardrails st =
     st\<lparr>gd_rules := None, gd_log := [], gd_lookup := None, gd_cursors := Map.empty, gd_pipe_runs := Map.empty,
        gd_messages := 0\<rparr>"

text \<open>The start of a session: the rules of the project, then the generated ones.\<close>

definition start_rules ::
  "(evolution_record \<Rightarrow> string option) \<Rightarrow> (evolution_record \<Rightarrow> 'r guardrails option) \<Rightarrow> bool \<Rightarrow> string \<Rightarrow> string \<Rightarrow>
   'r guardrails \<Rightarrow> 'r guard_state \<Rightarrow> 'r guard_state" where
  "start_rules dir artifact enabled project role rules st =
     (let st = init_rules rules st;
          (generated, ev) = init_behaviors_for_session dir artifact enabled (gr_pipes rules \<noteq> []) project role (gd_evolution st);
          st = st\<lparr>gd_evolution := ev\<rparr>
      in case generated of Some g \<Rightarrow> merge_generated g st | None \<Rightarrow> st)"

section \<open>The capability of a call\<close>

definition add_entry :: "string \<Rightarrow> string \<Rightarrow> cap_lookup \<Rightarrow> cap_lookup" where
  "add_entry cap entry l =
     (case split_once CHR '':'' entry of
        None \<Rightarrow> l
      | Some (server, tool) \<Rightarrow>
          if tool = ''*''
          then (if cl_wildcard l server = None then l\<lparr>cl_wildcard := (cl_wildcard l)(server \<mapsto> cap)\<rparr> else l)
          else (if cl_exact l (server, tool) = None then l\<lparr>cl_exact := (cl_exact l)((server, tool) \<mapsto> cap)\<rparr> else l))"

definition build_cap_lookup :: "(string \<times> string list) list option \<Rightarrow> cap_lookup" where
  "build_cap_lookup caps =
     fold (\<lambda>(cap, allowed). fold (add_entry cap) allowed) (case caps of Some cs \<Rightarrow> cs | None \<Rightarrow> [])
       \<lparr>cl_exact = Map.empty, cl_wildcard = Map.empty\<rparr>"

definition get_or_build_lookup :: "'r guard_env \<Rightarrow> 'r guard_state \<Rightarrow> cap_lookup \<times> 'r guard_state" where
  "get_or_build_lookup env st =
     (case gd_lookup st of
        Some l \<Rightarrow> (l, st)
      | None \<Rightarrow> let l = build_cap_lookup (gv_capabilities env) in (l, st\<lparr>gd_lookup := Some l\<rparr>))"

definition overlay_capability :: "(string \<times> (string \<rightharpoonup> string list)) list \<Rightarrow> string \<Rightarrow> string \<Rightarrow> string option" where
  "overlay_capability overlay server tool =
     map_option fst (find (\<lambda>(cap, per_server). case per_server server of Some tools \<Rightarrow> tool \<in> set tools | None \<Rightarrow> False) overlay)"

definition lookup_capability ::
  "cap_lookup \<Rightarrow> (string \<times> (string \<rightharpoonup> string list)) list \<Rightarrow> string \<Rightarrow> string \<Rightarrow> string option" where
  "lookup_capability l overlay server tool =
     (case cl_exact l (server, tool) of
        Some name \<Rightarrow> Some name
      | None \<Rightarrow> (case cl_wildcard l server of Some name \<Rightarrow> Some name | None \<Rightarrow> overlay_capability overlay server tool))"

definition resolve_capability :: "'r guard_env \<Rightarrow> string \<Rightarrow> 'r guard_state \<Rightarrow> string option \<times> 'r guard_state" where
  "resolve_capability env tool st =
     (case gv_server_of env tool of
        None \<Rightarrow> (None, st)
      | Some server \<Rightarrow>
          let (l, st) = get_or_build_lookup env st in (lookup_capability l (gv_overlay env) server tool, st))"

section \<open>The check of a batch\<close>

definition record_allowed :: "string option \<Rightarrow> json \<Rightarrow> 'r guard_state \<Rightarrow> 'r guard_state" where
  "record_allowed cap params st = st\<lparr>gd_log := gd_log st @ [(cap, params)]\<rparr>"

definition mark_shadows :: "'r guard_env \<Rightarrow> string list \<Rightarrow> 'r guard_state \<Rightarrow> 'r guard_state" where
  "mark_shadows env ids st = st\<lparr>gd_evolution := fold (mark_shadow_match (gv_now env)) ids (gd_evolution st)\<rparr>"

definition mark_used :: "evolution_binding option \<Rightarrow> 'r guard_state \<Rightarrow> 'r guard_state" where
  "mark_used b st =
     (case b of Some b \<Rightarrow> st\<lparr>gd_evolution := mark_behavior_used (eb_id b) (gd_evolution st)\<rparr> | None \<Rightarrow> st)"

definition shadow_now :: "'r guard_state \<Rightarrow> string \<Rightarrow> bool \<Rightarrow> bool" where
  "shadow_now st = binding_is_shadow (ef_registry (gd_evolution st))"

text \<open>One call: the message of the guard that denies it, or its record in the log.\<close>

definition check_call ::
  "'r guard_env \<Rightarrow> 'r guardrails \<Rightarrow> tool_call \<Rightarrow> 'r guard_state \<Rightarrow> string option \<times> 'r guard_state" where
  "check_call env rules call st =
     (let (cap, st) = resolve_capability env (ca_name call) st;
          (msg, st) =
            (if gr_guards rules = [] then (None, st)
             else let e = evaluate_guards (gv_match env) (shadow_now st) rules (cap, ca_parameters call) (gd_log st)
                            (set (gv_servers env));
                      st = mark_shadows env (ge_shadow_ids e) st
                  in case ge_blocked e of
                       Some (message, binding) \<Rightarrow> (Some message, mark_used binding st)
                     | None \<Rightarrow> (None, st))
      in (msg, if msg = None then record_allowed cap (ca_parameters call) st else st))"

fun check_calls ::
  "'r guard_env \<Rightarrow> 'r guardrails \<Rightarrow> tool_call list \<Rightarrow> 'r guard_state \<Rightarrow> string option list \<times> 'r guard_state" where
  "check_calls env rules [] st = ([], st)"
| "check_calls env rules (c # cs) st =
     (let (msg, st) = check_call env rules c st; (msgs, st) = check_calls env rules cs st in (msg # msgs, st))"

definition check_batch ::
  "'r guard_env \<Rightarrow> tool_call list \<Rightarrow> 'r guard_state \<Rightarrow> string option list \<times> 'r guard_state" where
  "check_batch env calls st =
     check_calls env (case gd_rules st of Some rules \<Rightarrow> rules | None \<Rightarrow> no_guardrails) calls st"

section \<open>Scripts\<close>

text \<open>\<open>Path::join\<close>: an absolute path replaces the directory.\<close>

definition script_path :: "string \<Rightarrow> string \<Rightarrow> string" where
  "script_path dir script = (if starts_with script ''/'' then script else dir @ ''/'' @ script)"

text \<open>What a script that fails has to say.\<close>

definition complaint :: "script_outcome \<Rightarrow> string option" where
  "complaint out =
     (case out of
        Exited code stdout stderr \<Rightarrow> if code = Some 0 \<or> trim stdout = [] then None else Some (trim stdout)
      | _ \<Rightarrow> None)"

definition json_option :: "string option \<Rightarrow> json" where
  "json_option o' = (case o' of Some s \<Rightarrow> JStr s | None \<Rightarrow> JNull)"

section \<open>Hooks\<close>

definition hook_matches ::
  "'r matcher \<Rightarrow> 'r compiled_hook \<Rightarrow> call_record \<Rightarrow> string \<Rightarrow> bool \<Rightarrow> bool" where
  "hook_matches m h call result success \<longleftrightarrow>
     \<not> (ck_on h = OnSuccess \<and> \<not> success) \<and> \<not> (ck_on h = OnError \<and> success) \<and>
     (case ck_trigger h of Some t \<Rightarrow> target_matches m t call | None \<Rightarrow> True) \<and>
     (case ck_result_regex h of Some re \<Rightarrow> mt_is_match m re result | None \<Rightarrow> True)"

record hook_run =
  hr_script :: string
  hr_capability :: "string option"
  hr_call :: tool_call
  hr_result :: string
  hr_success :: bool

definition run_one_hook :: "'r guard_env \<Rightarrow> hook_run \<Rightarrow> inbox_message option" where
  "run_one_hook env h =
     (let cap = hr_capability h; call = hr_call h;
          payload = JObj [(''capability'', json_option cap), (''tool'', JStr (ca_name call)), (''tool_id'', JStr (ca_id call)),
                          (''params'', ca_parameters call), (''result'', JStr (hr_result h)), (''success'', JBool (hr_success h))];
          vars = [(''OCTOMIND_CAPABILITY'', case cap of Some c \<Rightarrow> c | None \<Rightarrow> []), (''OCTOMIND_TOOL'', ca_name call),
                  (''OCTOMIND_SUCCESS'', if hr_success h then ''1'' else ''0''), (''OCTOMIND_WORKDIR'', gv_workdir env)]
      in map_option (\<lambda>stdout. \<lparr>im_source = GuardrailHook (hr_script h), im_content = stdout\<rparr>)
           (complaint (gv_run env (script_path (gv_workdir env) (hr_script h)) vars (mt_print (gv_match env) payload))))"

text \<open>The hooks that fire for one call.\<close>

fun fire_hooks ::
  "'r guard_env \<Rightarrow> 'r compiled_hook list \<Rightarrow> tool_call \<Rightarrow> string option \<Rightarrow> tool_output \<Rightarrow> 'r guard_state \<Rightarrow>
   hook_run list \<times> 'r guard_state" where
  "fire_hooks env [] call cap res st = ([], st)"
| "fire_hooks env (h # hs) call cap res st =
     (if \<not> hook_matches (gv_match env) h (cap, ca_parameters call) (tr_content res) (\<not> tr_error res)
      then fire_hooks env hs call cap res st
      else if shadowed (shadow_now st) (ck_evolution h)
      then fire_hooks env hs call cap res (mark_shadows env (case ck_evolution h of Some b \<Rightarrow> [eb_id b] | None \<Rightarrow> []) st)
      else let (runs, st) = fire_hooks env hs call cap res (mark_used (ck_evolution h) st)
           in (\<lparr>hr_script = ck_script h, hr_capability = cap, hr_call = call, hr_result = tr_content res,
                hr_success = \<not> tr_error res\<rparr> # runs, st))"

fun collect_hooks ::
  "'r guard_env \<Rightarrow> 'r compiled_hook list \<Rightarrow> (tool_call \<times> tool_output \<times> bool) list \<Rightarrow> 'r guard_state \<Rightarrow>
   hook_run list \<times> 'r guard_state" where
  "collect_hooks env hs [] st = ([], st)"
| "collect_hooks env hs ((call, res, blocked) # rest) st =
     (if blocked then collect_hooks env hs rest st
      else let (cap, st) = resolve_capability env (ca_name call) st;
               (runs, st) = fire_hooks env hs call cap res st;
               (more, st) = collect_hooks env hs rest st
           in (runs @ more, st))"

text \<open>A call without a result is skipped, a missing flag counts as not blocked.\<close>

definition run_hooks ::
  "'r guard_env \<Rightarrow> string \<Rightarrow> tool_call list \<Rightarrow> tool_output list \<Rightarrow> bool list \<Rightarrow> 'r guard_state \<Rightarrow> inbox \<Rightarrow>
   'r guard_state \<times> inbox" where
  "run_hooks env session calls results blocked st ib =
     (case gd_rules st of
        None \<Rightarrow> (st, ib)
      | Some rules \<Rightarrow>
          if gr_hooks rules = [] then (st, ib)
          else let (runs, st) = collect_hooks env (gr_hooks rules)
                      (zip calls (zip results (blocked @ replicate (length results - length blocked) False))) st
               in (st, fold (push_inbox_message_for_session session) (List.map_filter (run_one_hook env) runs) ib))"

section \<open>A batch of tool calls\<close>

text \<open>
  A denied call is never spawned; the others are executed, \<open>execute\<close> giving the outcome of each task. The batch when
  its tasks have all ended, up to the cap on each result.
\<close>

definition spawn_call :: "(tool_call \<Rightarrow> task_outcome) \<Rightarrow> tool_call \<Rightarrow> string option \<Rightarrow> task_outcome" where
  "spawn_call execute c denied =
     (case denied of
        Some msg \<Rightarrow> ToolReturned (error_result (ca_name c) (ca_id c) (''[guardrail] '' @ msg))
      | None \<Rightarrow> execute c)"

definition guarded_batch ::
  "'r guard_env \<Rightarrow> settle_env \<Rightarrow> string \<Rightarrow> (tool_call \<Rightarrow> task_outcome) \<Rightarrow> tool_call list \<Rightarrow> 'r guard_state \<Rightarrow> tool_state \<Rightarrow>
   inbox \<Rightarrow> tool_output list \<times> 'r guard_state \<times> tool_state \<times> inbox" where
  "guarded_batch env settling session execute calls st ts ib =
     (let (blocks, st) = check_batch env calls st;
          (rs, ts) = settle_batch settling calls (map2 (spawn_call execute) calls blocks) ts;
          (st, ib) = run_hooks env session calls rs (map (\<lambda>b. b \<noteq> None) blocks) st ib
      in (handle_large_tool_results settling rs, st, ts, ib))"

section \<open>Validators\<close>

definition validator_cursor :: "string \<Rightarrow> 'r guard_state \<Rightarrow> nat" where
  "validator_cursor name st = (case gd_cursors st name of Some n \<Rightarrow> n | None \<Rightarrow> 0)"

definition set_validator_cursor :: "nat \<Rightarrow> string \<Rightarrow> 'r guard_state \<Rightarrow> 'r guard_state" where
  "set_validator_cursor pos name st = st\<lparr>gd_cursors := (gd_cursors st)(name \<mapsto> pos)\<rparr>"

definition when_satisfied :: "'r matcher \<Rightarrow> 'r compiled_validator \<Rightarrow> call_record list \<Rightarrow> bool" where
  "when_satisfied m v calls = history_satisfied m (cv_when_used v) (cv_when_unused v) calls"

definition triggered_by :: "'r matcher \<Rightarrow> 'r compiled_validator \<Rightarrow> call_record list \<Rightarrow> call_record list" where
  "triggered_by m v calls =
     filter (\<lambda>c. cv_when_used v = [] \<or> list_ex (\<lambda>t. target_matches m t c) (cv_when_used v)) calls"

record validator_run =
  vr_name :: string
  vr_script :: string
  vr_triggered_by :: "call_record list"

text \<open>The calls since the validator last ran.\<close>

definition since_last_run :: "'r compiled_validator \<Rightarrow> 'r guard_state \<Rightarrow> call_record list" where
  "since_last_run v st = drop (min (validator_cursor (cv_name v) st) (length (gd_log st))) (gd_log st)"

text \<open>
  The validators that run. As in the source, the check for shadow stands inside the check of the expression.
\<close>

fun select_validators ::
  "'r guard_env \<Rightarrow> string \<Rightarrow> string \<Rightarrow> 'r compiled_validator list \<Rightarrow> 'r guard_state \<Rightarrow>
   validator_run list \<times> 'r guard_state" where
  "select_validators env role answer [] st = ([], st)"
| "select_validators env role answer (v # vs) st =
     (if \<not> role_matches (cv_roles v) role \<or> \<not> when_satisfied (gv_match env) v (since_last_run v st)
      then select_validators env role answer vs st
      else case cv_match_regex v of
        Some re \<Rightarrow>
          if \<not> mt_is_match (gv_match env) re answer then select_validators env role answer vs st
          else if shadowed (shadow_now st) (cv_evolution v)
          then select_validators env role answer vs
                 (mark_shadows env (case cv_evolution v of Some b \<Rightarrow> [eb_id b] | None \<Rightarrow> []) st)
          else let (runs, st') = select_validators env role answer vs (mark_used (cv_evolution v) st)
               in (\<lparr>vr_name = cv_name v, vr_script = cv_script v,
                    vr_triggered_by = triggered_by (gv_match env) v (since_last_run v st)\<rparr> # runs, st')
      | None \<Rightarrow>
          let (runs, st') = select_validators env role answer vs st
          in (\<lparr>vr_name = cv_name v, vr_script = cv_script v,
               vr_triggered_by = triggered_by (gv_match env) v (since_last_run v st)\<rparr> # runs, st'))"

definition run_one_validator :: "'r guard_env \<Rightarrow> string \<Rightarrow> string \<Rightarrow> validator_run \<Rightarrow> inbox_message option" where
  "run_one_validator env role answer v =
     (let payload = JObj [(''validator'', JStr (vr_name v)), (''role'', JStr role), (''assistant_text'', JStr answer),
            (''triggered_by'', JArr (map (\<lambda>(cap, params). JObj [(''capability'', json_option cap), (''params'', params)])
               (vr_triggered_by v)))];
          vars = [(''OCTOMIND_VALIDATOR'', vr_name v), (''OCTOMIND_ROLE'', role), (''OCTOMIND_WORKDIR'', gv_workdir env)]
      in map_option (\<lambda>stdout. \<lparr>im_source = GuardValidator (vr_name v),
             im_content = ''<validation validator='' @ [CHR 0x22] @ vr_name v @ [CHR 0x22] @ ''>'' @ newline @ stdout @ newline @
               ''</validation>''\<rparr>)
           (complaint (gv_run env (script_path (gv_workdir env) (vr_script v)) vars (mt_print (gv_match env) payload))))"

definition run_turn_validators ::
  "'r guard_env \<Rightarrow> string \<Rightarrow> string \<Rightarrow> string \<Rightarrow> 'r guard_state \<Rightarrow> inbox \<Rightarrow> 'r guard_state \<times> inbox" where
  "run_turn_validators env session role answer st ib =
     (case gd_rules st of
        None \<Rightarrow> (st, ib)
      | Some rules \<Rightarrow>
          if gr_validators rules = [] then (st, ib)
          else let (runs, st) = select_validators env role answer (gr_validators rules) st;
                   st = fold (set_validator_cursor (length (gd_log st))) (map vr_name runs) st
               in (st, fold (push_inbox_message_for_session session)
                         (List.map_filter (run_one_validator env role answer) runs) ib))"

section \<open>Pipes\<close>

datatype pipe_err =
    MultiplePipes "string list"
  | PipeSpawn string string string
  | PipeWait string string
  | PipeTimeout string
  | PipeRejected string string

fun matching_pipes ::
  "'r guard_env \<Rightarrow> string \<Rightarrow> string \<Rightarrow> bool \<Rightarrow> 'r compiled_pipe list \<Rightarrow> 'r guard_state \<Rightarrow>
   'r compiled_pipe list \<times> 'r guard_state" where
  "matching_pipes env role input first_processed [] st = ([], st)"
| "matching_pipes env role input first_processed (p # ps) st =
     (if \<not> role_matches (cp_roles p) role \<or> (cp_when p = FirstMessage \<and> first_processed) \<or>
         (case cp_match_regex p of Some re \<Rightarrow> \<not> mt_is_match (gv_match env) re input | None \<Rightarrow> False)
      then matching_pipes env role input first_processed ps st
      else if shadowed (shadow_now st) (cp_evolution p)
      then matching_pipes env role input first_processed ps
             (mark_shadows env (case cp_evolution p of Some b \<Rightarrow> [eb_id b] | None \<Rightarrow> []) st)
      else let (matched, st) = matching_pipes env role input first_processed ps st in (p # matched, st))"

definition increment_pipe_run_count :: "string \<Rightarrow> 'r guard_state \<Rightarrow> u64 \<times> 'r guard_state" where
  "increment_pipe_run_count name st =
     (let n = (case gd_pipe_runs st name of Some n \<Rightarrow> n | None \<Rightarrow> 0) + 1
      in (n, st\<lparr>gd_pipe_runs := (gd_pipe_runs st)(name \<mapsto> n)\<rparr>))"

definition show_code :: "int option \<Rightarrow> string" where
  "show_code code = (let n = (case code of Some n \<Rightarrow> n | None \<Rightarrow> - 1)
     in (if n < 0 then ''-'' else []) @ show_nat (nat \<bar>n\<bar>))"

definition pipe_result :: "string \<Rightarrow> string \<Rightarrow> script_outcome \<Rightarrow> pipe_err + string" where
  "pipe_result name path out =
     (case out of
        SpawnFailed e \<Rightarrow> Inl (PipeSpawn name path e)
      | WaitFailed e \<Rightarrow> Inl (PipeWait name e)
      | TimedOut \<Rightarrow> Inl (PipeTimeout name)
      | Exited code stdout stderr \<Rightarrow>
          if code = Some 0 then Inr stdout
          else Inl (PipeRejected name (if trim stderr \<noteq> [] then trim stderr
                                       else if trim stdout \<noteq> [] then trim stdout
                                       else ''exit code '' @ show_code code)))"

definition run_pipe ::
  "'r guard_env \<Rightarrow> string \<Rightarrow> string \<Rightarrow> bool \<Rightarrow> 'r guard_state \<Rightarrow> (pipe_err + string option) \<times> 'r guard_state" where
  "run_pipe env role input first_processed st =
     (let st = st\<lparr>gd_messages := gd_messages st + 1\<rparr>; message_count = gd_messages st
      in case gd_rules st of
        None \<Rightarrow> (Inr None, st)
      | Some rules \<Rightarrow>
          let (matched, st) = matching_pipes env role input first_processed (gr_pipes rules) st
          in case matched of
            [] \<Rightarrow> (Inr None, st)
          | p # _ # _ \<Rightarrow> (Inl (MultiplePipes (map cp_name matched)), st)
          | [p] \<Rightarrow>
              let (run_count, st) = increment_pipe_run_count (cp_name p) (mark_used (cp_evolution p) st);
                  path = script_path (gv_workdir env) (cp_command p);
                  vars = [(''OCTOMIND_ROLE'', role), (''OCTOMIND_WORKDIR'', gv_workdir env), (''PIPE_NAME'', cp_name p),
                          (''PIPE_RUN_COUNT'', show_nat (unat run_count)), (''SESSION_MESSAGE_COUNT'', show_nat (unat message_count))]
              in (map_sum id Some (pipe_result (cp_name p) path (gv_run env path vars input)), st))"

definition run_pipe_if_enabled ::
  "'r guard_env \<Rightarrow> bool \<Rightarrow> string \<Rightarrow> string \<Rightarrow> bool \<Rightarrow> 'r guard_state \<Rightarrow> (pipe_err + string) \<times> 'r guard_state" where
  "run_pipe_if_enabled env in_session input role first_processed st =
     (if \<not> in_session then (Inr input, st)
      else case run_pipe env role input first_processed st of
        (Inr (Some transformed), st) \<Rightarrow> (Inr transformed, st)
      | (Inr None, st) \<Rightarrow> (Inr input, st)
      | (Inl e, st) \<Rightarrow> (Inl e, st))"

end
