(* ===== verification/Tokens.thy ===== *)
theory Tokens
  imports Messages Truncation
begin

text \<open>
  Token counting (\<open>src/session/token_counter.rs\<close>). The tokenizer is a third-party table, absent when its
  initialization failed; the serialization of a JSON value belongs to \<open>serde_json\<close>.
\<close>

record tokenizer =
  tk_encode :: "(string \<Rightarrow> nat list) option"
  tk_decode :: "nat list \<Rightarrow> string option"
  tk_json :: "json \<Rightarrow> string"

record tool_function =
  tf_name :: string
  tf_description :: string
  tf_parameters :: json

definition fallback_token_count :: "string \<Rightarrow> nat" where
  "fallback_token_count s = max (count_chars s div 4) 1"

definition estimate_tokens :: "tokenizer \<Rightarrow> string \<Rightarrow> nat" where
  "estimate_tokens tk s =
     (case tk_encode tk of Some encode \<Rightarrow> length (encode s) | None \<Rightarrow> fallback_token_count s)"

text \<open>Tokens are dropped from the end until the rest decodes.\<close>

function decode_longest :: "(nat list \<Rightarrow> string option) \<Rightarrow> nat list \<Rightarrow> string" where
  "decode_longest decode tokens =
     (if tokens = [] then []
      else case decode tokens of Some s \<Rightarrow> s | None \<Rightarrow> decode_longest decode (butlast tokens))"
  by pat_completeness auto
termination by (relation "measure (\<lambda>(_, tokens). length tokens)") auto

declare decode_longest.simps [simp del]

definition truncate_to_tokens :: "tokenizer \<Rightarrow> string \<Rightarrow> nat \<Rightarrow> string" where
  "truncate_to_tokens tk s max_tokens =
     (case tk_encode tk of
        None \<Rightarrow> if fallback_token_count s \<le> max_tokens then s
                else take (floor_char_boundary s (max_tokens * 4)) s
      | Some encode \<Rightarrow>
          if length (encode s) \<le> max_tokens then s
          else decode_longest (tk_decode tk) (take max_tokens (encode s)))"

definition estimate_message_tokens :: "tokenizer \<Rightarrow> 'x message \<Rightarrow> nat" where
  "estimate_message_tokens tk m =
     3 + estimate_tokens tk (msg_role m) +
     (if msg_content m = [] then 0 else estimate_tokens tk (msg_content m)) +
     (case msg_tool_calls m of Some j \<Rightarrow> estimate_tokens tk (tk_json tk j) | None \<Rightarrow> 0) +
     (case msg_thinking m of Some j \<Rightarrow> estimate_tokens tk (tk_json tk j) | None \<Rightarrow> 0) +
     (case msg_name m of Some n \<Rightarrow> estimate_tokens tk n + 1 | None \<Rightarrow> 0) +
     (case msg_images m of Some images \<Rightarrow> length images * 85 | None \<Rightarrow> 0)"

definition estimate_session_tokens :: "tokenizer \<Rightarrow> 'x message list \<Rightarrow> nat" where
  "estimate_session_tokens tk messages =
     sum_list (map (estimate_message_tokens tk) messages) + (if messages = [] then 0 else 3)"

definition tool_json :: "tool_function \<Rightarrow> json" where
  "tool_json f = JObj [(''name'', JStr (tf_name f)), (''description'', JStr (tf_description f)),
     (''input_schema'', tf_parameters f)]"

definition estimate_full_context_tokens :: "tokenizer \<Rightarrow> 'x message list \<Rightarrow> tool_function list option \<Rightarrow> nat" where
  "estimate_full_context_tokens tk messages tools =
     estimate_session_tokens tk messages +
     (case tools of
        None \<Rightarrow> 0
      | Some fs \<Rightarrow> sum_list (map (\<lambda>f. estimate_tokens tk (tk_json tk (tool_json f))) fs) + length fs * 5 + 10)"

section \<open>Cut texts\<close>

text \<open>
  What \<open>truncate_to_tokens\<close> needs of the tokenizer to keep its bound on a text: the empty text has no tokens, and the text of
  the first tokens of the encoding of this one does not encode to more of them. Nothing is asked of other token
  sequences, nor of a tokenizer that is absent.
\<close>

definition cuts_within :: "tokenizer \<Rightarrow> string \<Rightarrow> bool" where
  "cuts_within tk s \<longleftrightarrow>
     (case tk_encode tk of
        None \<Rightarrow> False
      | Some encode \<Rightarrow> encode [] = [] \<and>
          list_all (\<lambda>n. case tk_decode tk (take n (encode s)) of Some t \<Rightarrow> length (encode t) \<le> n | None \<Rightarrow> True)
            [0..<length (encode s)])"

lemma estimate_empty: "cuts_within tk s \<Longrightarrow> estimate_tokens tk [] = 0"
  by (auto simp: cuts_within_def estimate_tokens_def split: option.splits)

lemma decode_longest_bound:
  assumes "encode [] = []" and "n < length ts"
    and "\<And>k t. k < length ts \<Longrightarrow> decode (take k ts) = Some t \<Longrightarrow> length (encode t) \<le> k"
  shows "length (encode (decode_longest decode (take n ts))) \<le> n"
  using assms(2)
proof (induction n)
  case 0
  then show ?case using assms(1) by (simp add: decode_longest.simps)
next
  case (Suc n)
  show ?case
  proof (cases "decode (take (Suc n) ts)")
    case None
    have "butlast (take (Suc n) ts) = take n ts" using Suc.prems by (simp add: butlast_take)
    then show ?thesis using None Suc assms(1) by (simp add: decode_longest.simps[of decode "take (Suc n) ts"])
  next
    case (Some t)
    then show ?thesis using assms(3)[OF Suc.prems Some] Suc.prems
      by (auto simp: decode_longest.simps[of decode "take (Suc n) ts"])
  qed
qed

text \<open>A truncated text has at most the tokens asked for.\<close>

lemma truncate_bound:
  assumes "cuts_within tk s"
  shows "estimate_tokens tk (truncate_to_tokens tk s n) \<le> n"
proof -
  obtain encode where e: "tk_encode tk = Some encode" "encode [] = []"
    and d: "\<And>k t. k < length (encode s) \<Longrightarrow> tk_decode tk (take k (encode s)) = Some t \<Longrightarrow> length (encode t) \<le> k"
    using assms by (fastforce simp: cuts_within_def list_all_iff split: option.splits)
  show ?thesis
    using decode_longest_bound[of encode n "encode s" "tk_decode tk", OF e(2) _ d]
    by (auto simp: truncate_to_tokens_def estimate_tokens_def e(1))
qed

end
