(* ===== verification/CondenseText.thy ===== *)
theory CondenseText
  imports ToolResults Tokens Json "HOL-Library.Product_Lexorder"
begin

text \<open>
  The views of oversized tool results a condenser model selects from, and the ranges of lines it may select
  (\<open>src/supervisor/condense.rs\<close>). Lower-casing and the alphanumeric characters of Unicode and the tokenizer are arguments.
\<close>

section \<open>Budgets\<close>

definition ROUND_VIEW_CAP_TOKENS :: nat where "ROUND_VIEW_CAP_TOKENS = 32000"
definition MAX_RESULTS_PER_REQUEST :: nat where "MAX_RESULTS_PER_REQUEST = 32"
definition MIN_RESULT_VIEW_TOKENS :: nat where "MIN_RESULT_VIEW_TOKENS = 256"
definition MIN_CANDIDATE_TOKENS :: nat where "MIN_CANDIDATE_TOKENS = 512"
definition TASK_CAP_TOKENS :: nat where "TASK_CAP_TOKENS = 3000"
definition AGENT_CONTEXT_CAP_TOKENS :: nat where "AGENT_CONTEXT_CAP_TOKENS = 4000"
definition TOOL_INTENT_CAP_TOKENS :: nat where "TOOL_INTENT_CAP_TOKENS = 1000"
definition ARGS_CAP_CHARS :: nat where "ARGS_CAP_CHARS = 1200"
definition SIGNAL_CONTEXT_LINES :: nat where "SIGNAL_CONTEXT_LINES = 2"

section \<open>Ranges of lines\<close>

text \<open>Ranges count lines from one and include both ends. \<open>parse_range\<close> reads \<open>A-B\<close>, \<open>A-\<close> or \<open>A\<close>.\<close>

type_synonym line_range = "nat \<times> nat"

definition parse_usize :: "string \<Rightarrow> nat option" where
  "parse_usize s = map_option nat (parse_unsigned 64 s)"

definition range_ends :: "nat \<Rightarrow> string \<Rightarrow> line_range option" where
  "range_ends m s =
     (case split_once (CHR ''-'') s of
        Some (a, b) \<Rightarrow>
          Option.bind (parse_usize (trim a)) (\<lambda>x.
            if is_blank b then Some (x, m) else map_option (Pair x) (parse_usize (trim b)))
      | None \<Rightarrow> map_option (\<lambda>n. (n, n)) (parse_usize s))"

definition parse_range :: "nat \<Rightarrow> string \<Rightarrow> line_range option" where
  "parse_range m s =
     Option.bind (range_ends m (trim s)) (\<lambda>(a, b). if a = 0 \<or> b < a \<or> m < a \<or> m < b then None else Some (a, b))"

definition push_range :: "line_range list \<Rightarrow> line_range \<Rightarrow> line_range list" where
  "push_range merged r =
     (if merged \<noteq> [] \<and> fst r \<le> snd (last merged) + 1
      then butlast merged @ [(fst (last merged), max (snd (last merged)) (snd r))] else merged @ [r])"

definition merge_ranges :: "line_range list \<Rightarrow> line_range list" where
  "merge_ranges ranges = foldl push_range [] (sort ranges)"

fun all_some :: "'a option list \<Rightarrow> 'a list option" where
  "all_some [] = Some []"
| "all_some (x # xs) = (case x of None \<Rightarrow> None | Some y \<Rightarrow> map_option ((#) y) (all_some xs))"

definition parse_ranges :: "string list \<Rightarrow> nat \<Rightarrow> line_range list option" where
  "parse_ranges specs m =
     (if m = 0 then None
      else case all_some (map (parse_range m) specs) of
             None \<Rightarrow> None
           | Some ranges \<Rightarrow> if ranges = [] then None else Some (merge_ranges ranges))"

definition push_index :: "line_range list \<Rightarrow> nat \<Rightarrow> line_range list" where
  "push_index ranges i =
     (if ranges \<noteq> [] \<and> i + 1 = snd (last ranges) + 1 then butlast ranges @ [(fst (last ranges), i + 1)]
      else ranges @ [(i + 1, i + 1)])"

definition indices_to_ranges :: "nat list \<Rightarrow> line_range list" where
  "indices_to_ranges is = foldl push_index [] is"

definition format_ranges :: "line_range list \<Rightarrow> string list" where
  "format_ranges ranges = map (\<lambda>(a, b). if a = b then show_nat a else show_nat a @ ''-'' @ show_nat b) ranges"

text \<open>Kept lines verbatim, a gap as the number of its lines.\<close>

definition omitted :: "nat \<Rightarrow> string" where
  "omitted n = ''[... '' @ show_nat n @ '' lines omitted]''"

fun reconstruct_from :: "nat \<Rightarrow> string list \<Rightarrow> line_range list \<Rightarrow> nat \<Rightarrow> string list" where
  "reconstruct_from cursor lines [] n = (if cursor \<le> n then [omitted (n - cursor + 1)] else [])"
| "reconstruct_from cursor lines ((a, b) # ranges) n =
     (if cursor < a then [omitted (a - cursor)] else []) @ take (b + 1 - a) (drop (a - 1) lines) @
     reconstruct_from (b + 1) lines ranges n"

definition reconstruct :: "string list \<Rightarrow> line_range list \<Rightarrow> nat \<Rightarrow> string \<times> nat" where
  "reconstruct lines ranges n =
     (join newline (reconstruct_from 1 lines ranges n), sum_list (map (\<lambda>(a, b). b + 1 - a) ranges))"

section \<open>Lines that are kept whatever the model selects\<close>

record text_env =
  te_tokenizer :: tokenizer
  te_lower :: "string \<Rightarrow> string"
  te_pieces :: "string \<Rightarrow> string list"

definition diagnostic_marks :: "string list" where
  "diagnostic_marks =
     [''error:'', ''error['', ''failed'', ''failure'', ''fatal'', ''panic:'', ''exception'', ''traceback'', ''not found'',
      ''no matches'', ''0 matches'', ''exit code'', ''assertion'']"

definition is_diagnostic_line :: "text_env \<Rightarrow> string \<Rightarrow> bool" where
  "is_diagnostic_line env line \<longleftrightarrow> list_ex (str_contains (te_lower env line)) diagnostic_marks"

definition signal_context :: "nat \<Rightarrow> nat \<Rightarrow> nat list" where
  "signal_context n i = [i - SIGNAL_CONTEXT_LINES..<min (i + SIGNAL_CONTEXT_LINES + 1) n]"

definition diagnostic_ranges :: "text_env \<Rightarrow> string list \<Rightarrow> line_range list" where
  "diagnostic_ranges env lines =
     indices_to_ranges (remdups_adj (sort (concat (map (signal_context (length lines))
       (filter (\<lambda>i. is_diagnostic_line env (lines ! i)) [0..<length lines])))))"

definition truncation_notice_range :: "string list \<Rightarrow> line_range list" where
  "truncation_notice_range lines =
     (case position (\<lambda>l. str_contains l TRUNCATION_NOTICE_TAG) lines of
        Some i \<Rightarrow> [(i + 1, length lines)] | None \<Rightarrow> [])"

section \<open>Edges of a text\<close>

definition char_boundaries :: "string \<Rightarrow> nat list" where
  "char_boundaries s = filter (\<lambda>i. \<not> is_continuation (s ! i)) [0..<length s] @ [length s]"

text \<open>The binary search for the first boundary whose suffix fits.\<close>

function first_fit :: "(nat \<Rightarrow> bool) \<Rightarrow> nat \<Rightarrow> nat \<Rightarrow> nat" where
  "first_fit fits low high =
     (if low < high then
        let mid = (low + high) div 2 in if fits mid then first_fit fits low mid else first_fit fits (mid + 1) high
      else low)"
  by pat_completeness auto
termination by (relation "measure (\<lambda>(_, low, high). high - low)") auto

declare first_fit.simps [simp del]

definition suffix_to_tokens :: "tokenizer \<Rightarrow> string \<Rightarrow> nat \<Rightarrow> string" where
  "suffix_to_tokens tk s max_tokens =
     (if max_tokens = 0 then []
      else if estimate_tokens tk s \<le> max_tokens then s
      else let bs = char_boundaries s
           in drop (bs ! first_fit (\<lambda>k. estimate_tokens tk (drop (bs ! k) s) \<le> max_tokens) 0 (length bs - 1)) s)"

definition MIDDLE_MARKER :: string where
  "MIDDLE_MARKER = newline @ ''['' @ ellipsis @ '' middle omitted for condenser budget '' @ ellipsis @ '']'' @ newline"

fun edges_within :: "tokenizer \<Rightarrow> string \<Rightarrow> string \<Rightarrow> nat \<Rightarrow> nat \<Rightarrow> string" where
  "edges_within tk head s max_tokens 0 = head @ MIDDLE_MARKER @ suffix_to_tokens tk s 0"
| "edges_within tk head s max_tokens (Suc budget) =
     (let combined = head @ MIDDLE_MARKER @ suffix_to_tokens tk s (Suc budget)
      in if estimate_tokens tk combined \<le> max_tokens then combined else edges_within tk head s max_tokens budget)"

definition truncate_preserving_edges :: "tokenizer \<Rightarrow> string \<Rightarrow> nat \<Rightarrow> string" where
  "truncate_preserving_edges tk s max_tokens =
     (if max_tokens = 0 \<or> s = [] then []
      else if estimate_tokens tk s \<le> max_tokens then s
      else if max_tokens \<le> estimate_tokens tk MIDDLE_MARKER + 2 then truncate_to_tokens tk s max_tokens
      else let remaining = max_tokens - estimate_tokens tk MIDDLE_MARKER; head_budget = remaining div 2
           in edges_within tk (truncate_to_tokens tk s head_budget) s max_tokens (remaining - head_budget))"

definition compact_args :: "tokenizer \<Rightarrow> json \<Rightarrow> string" where
  "compact_args tk params =
     (let s = tk_json tk params
      in if length s \<le> ARGS_CAP_CHARS then s
         else let head_chars = ARGS_CAP_CHARS * 2 div 3; tail_chars = ARGS_CAP_CHARS - head_chars
              in take (floor_char_boundary s head_chars) s @ ellipsis @ ''[args middle omitted]'' @ ellipsis @
                 drop (floor_char_boundary s (length s - tail_chars)) s)"

section \<open>Numbered views\<close>

record numbered_view =
  nv_body :: string
  nv_visible :: "line_range list"
  nv_total_lines :: nat
  nv_partial :: bool

definition pad_left :: "nat \<Rightarrow> string \<Rightarrow> string" where
  "pad_left w s = replicate (w - length s) (CHR '' '') @ s"

definition CLIPPED_NOTE :: string where
  "CLIPPED_NOTE = '' ['' @ ellipsis @ '' line preview clipped; selecting this number keeps the complete original line]''"

text \<open>\<open>None\<close> is the budget \<open>usize::MAX\<close>.\<close>

definition within_budget :: "tokenizer \<Rightarrow> string \<Rightarrow> nat option \<Rightarrow> bool" where
  "within_budget tk s budget \<longleftrightarrow> (case budget of None \<Rightarrow> True | Some m \<Rightarrow> estimate_tokens tk s \<le> m)"

definition render_numbered_line :: "tokenizer \<Rightarrow> nat \<Rightarrow> string \<Rightarrow> nat \<Rightarrow> nat option \<Rightarrow> string" where
  "render_numbered_line tk index line total_lines budget =
     (let width = length (show_nat (max total_lines 1)); pre = pad_left width (show_nat (index + 1)) @ ''| ''
      in if within_budget tk (pre @ line) budget then pre @ line
         else let content_budget = (case budget of None \<Rightarrow> 0 | Some m \<Rightarrow> m) - (estimate_tokens tk pre + estimate_tokens tk CLIPPED_NOTE)
              in pre @ truncate_preserving_edges tk line (max content_budget 1) @ CLIPPED_NOTE)"

definition not_shown :: "nat \<Rightarrow> nat \<Rightarrow> string" where
  "not_shown a b =
     ''['' @ ellipsis @ '' original lines '' @ show_nat a @ ''-'' @ show_nat b @ '' not shown in this view '' @ ellipsis @ '']''"

definition gap_before :: "nat option \<Rightarrow> nat \<Rightarrow> string list" where
  "gap_before previous i =
     (case previous of
        Some p \<Rightarrow> if p + 1 < i then [not_shown (p + 2) i] else []
      | None \<Rightarrow> if 0 < i then [not_shown 1 i] else [])"

fun numbered_from :: "tokenizer \<Rightarrow> string list \<Rightarrow> nat \<Rightarrow> nat option \<Rightarrow> nat option \<Rightarrow> nat list \<Rightarrow> string list" where
  "numbered_from tk lines total_lines budget previous [] =
     (case previous of
        Some p \<Rightarrow> if p + 1 < total_lines then [not_shown (p + 2) total_lines] else []
      | None \<Rightarrow> [])"
| "numbered_from tk lines total_lines budget previous (i # is) =
     gap_before previous i @ [render_numbered_line tk i (lines ! i) total_lines budget] @
     numbered_from tk lines total_lines budget (Some i) is"

definition render_numbered_selection :: "tokenizer \<Rightarrow> string list \<Rightarrow> nat list \<Rightarrow> nat \<Rightarrow> nat option \<Rightarrow> string" where
  "render_numbered_selection tk lines is total_lines budget =
     join newline (numbered_from tk lines total_lines budget None is)"

text \<open>What a line is worth showing for, in order: a queue without repetitions.\<close>

definition queue_line :: "nat \<Rightarrow> nat list \<Rightarrow> nat list" where
  "queue_line i ps = (if i \<in> set ps then ps else ps @ [i])"

definition queue_near :: "nat \<Rightarrow> nat \<Rightarrow> nat \<Rightarrow> nat list \<Rightarrow> nat list" where
  "queue_near n i d ps =
     (let ps = (if d \<le> i then queue_line (i - d) ps else ps)
      in if i + d < n then queue_line (i + d) ps else ps)"

definition queue_with_context :: "nat \<Rightarrow> nat list \<Rightarrow> nat \<Rightarrow> nat list" where
  "queue_with_context n ps i = foldl (\<lambda>ps d. queue_near n i d ps) (queue_line i ps) [1..<SIGNAL_CONTEXT_LINES + 1]"

definition stop_words :: "string list" where
  "stop_words =
     [''about'', ''after'', ''again'', ''agent'', ''before'', ''could'', ''current'', ''from'', ''have'', ''into'',
      ''only'', ''result'', ''should'', ''task'', ''that'', ''their'', ''then'', ''this'', ''tool'', ''what'',
      ''when'', ''where'', ''which'', ''with'', ''would'']"

definition focus_terms :: "text_env \<Rightarrow> string \<Rightarrow> string list" where
  "focus_terms env focus =
     take 64 (rev (remdups (rev (filter (\<lambda>t. t \<notin> set stop_words)
       (map (te_lower env) (filter (\<lambda>t. 3 \<le> count_chars t) (map trim (te_pieces env focus))))))))"

definition priority_lines :: "text_env \<Rightarrow> string list \<Rightarrow> string \<Rightarrow> nat list" where
  "priority_lines env lines focus =
     (let n = length lines; all = [0..<n]; terms = focus_terms env focus; samples = min n 32;
          signal = filter (\<lambda>i. is_diagnostic_line env (lines ! i)) all;
          relevant = filter (\<lambda>i. list_ex (str_contains (te_lower env (lines ! i))) terms) all;
          ps = foldl (queue_with_context n) (foldl (queue_with_context n) [] signal) relevant
      in foldl (\<lambda>ps i. queue_line i ps) ps
           ([n - 24..<n] @ [0..<min n 16] @ map (\<lambda>k. k * (n - 1) div max samples 1) [0..<samples] @ all))"

text \<open>The lines accepted in the order of their priority, and the tokens of their previews.\<close>

fun accept_lines :: "(nat \<Rightarrow> nat) \<Rightarrow> nat \<Rightarrow> nat list \<Rightarrow> nat \<Rightarrow> nat list \<Rightarrow> nat list" where
  "accept_lines cost budget accepted used [] = accepted"
| "accept_lines cost budget accepted used (i # is) =
     (if accepted \<noteq> [] \<and> budget < used + cost i then accept_lines cost budget accepted used is
      else accept_lines cost budget (accepted @ [i]) (used + cost i) is)"

function drop_lowest :: "(nat list \<Rightarrow> bool) \<Rightarrow> nat list \<Rightarrow> nat list" where
  "drop_lowest fits accepted =
     (if 1 < length accepted \<and> \<not> fits accepted then drop_lowest fits (butlast accepted) else accepted)"
  by pat_completeness auto
termination by (relation "measure (\<lambda>(_, accepted). length accepted)") auto

function shrink_preview :: "(nat \<Rightarrow> bool) \<Rightarrow> nat \<Rightarrow> nat" where
  "shrink_preview fits budget =
     (if \<not> fits budget \<and> 1 < budget then shrink_preview fits (budget - max (budget div 4) 1) else budget)"
  by pat_completeness auto
termination by (relation "measure snd") auto

declare drop_lowest.simps [simp del] shrink_preview.simps [simp del]

definition in_order :: "nat \<Rightarrow> nat list \<Rightarrow> nat list" where
  "in_order n accepted = filter (\<lambda>i. i \<in> set accepted) [0..<n]"

definition select_lines :: "text_env \<Rightarrow> string list \<Rightarrow> nat \<Rightarrow> string \<Rightarrow> nat list" where
  "select_lines env lines max_tokens focus =
     (let tk = te_tokenizer env; n = length lines; per_line = min (max (max_tokens - 64) 8) 256;
          cost = (\<lambda>i. estimate_tokens tk (render_numbered_line tk i (lines ! i) n (Some per_line)) + 1);
          accepted = accept_lines cost (max_tokens * 4 div 5) [] 0 (priority_lines env lines focus);
          accepted = (if accepted = [] then [n - 1] else accepted)
      in in_order n (drop_lowest
           (\<lambda>acc. estimate_tokens tk (render_numbered_selection tk lines (in_order n acc) n (Some per_line)) \<le> max_tokens) accepted))"

definition build_numbered_view :: "text_env \<Rightarrow> string \<Rightarrow> nat \<Rightarrow> string \<Rightarrow> numbered_view" where
  "build_numbered_view env content max_tokens focus =
     (let tk = te_tokenizer env; lines = str_lines content; n = length lines;
          full = render_numbered_selection tk lines [0..<n] n None
      in if n = 0 then \<lparr>nv_body = [], nv_visible = [], nv_total_lines = 0, nv_partial = False\<rparr>
         else if estimate_tokens tk full \<le> max_tokens
         then \<lparr>nv_body = full, nv_visible = [(1, n)], nv_total_lines = n, nv_partial = False\<rparr>
         else let is = select_lines env lines max_tokens focus; per_line = min (max (max_tokens - 64) 8) 256;
                  body = (\<lambda>budget. render_numbered_selection tk lines is n (Some budget));
                  budget = shrink_preview (\<lambda>budget. estimate_tokens tk (body budget) \<le> max_tokens) per_line
              in \<lparr>nv_body = body budget, nv_visible = indices_to_ranges is, nv_total_lines = n,
                  nv_partial = (length is < n)\<rparr>)"

text \<open>What the model named, where it was shown.\<close>

definition clip_to_visible :: "line_range list \<Rightarrow> numbered_view \<Rightarrow> line_range list" where
  "clip_to_visible ranges view =
     merge_ranges (concat (map (\<lambda>(a, b). concat (map (\<lambda>(va, vb).
       if max a va \<le> min b vb then [(max a va, min b vb)] else []) (nv_visible view))) ranges))"

end
