(* ===== verification/Condense.thy ===== *)
theory Condense
  imports CondenseText
begin

text \<open>
  The condenser (\<open>src/supervisor/condense.rs\<close>): the threshold a session has adapted to, the one request of a round, and
  what the verdicts of the model do to the results. The model's answer, its JSON decoder, the spill file and the
  \<open>f64\<close> estimate behind the threshold are arguments.
\<close>

definition CONDENSE_NOTICE_TAG :: string where
  "CONDENSE_NOTICE_TAG = bytes [0xF0, 0x9F, 0x93, 0x8E] @ '' CONDENSED by supervisor''"

record condense_config =
  cc_enabled :: bool
  cc_tokens_threshold :: nat
  cc_adaptive :: bool
  cc_model :: string

section \<open>Adaptive threshold\<close>

text \<open>\<open>sv_scale\<close> is \<open>(baseline as f64 * multiplier).round()\<close> of an estimate of the savings, the others are its updates.\<close>

record 'f savings =
  sv_neutral :: 'f
  sv_scale :: "nat \<Rightarrow> 'f \<Rightarrow> nat"
  sv_observe :: "nat \<Rightarrow> nat \<Rightarrow> 'f \<Rightarrow> 'f"
  sv_relax :: "'f \<Rightarrow> 'f"

record 'f adaptive_state =
  as_baseline :: nat
  as_model :: string
  as_savings :: 'f

type_synonym 'f adaptive_registry = "string \<rightharpoonup> 'f adaptive_state"

definition fresh_adaptive :: "'f savings \<Rightarrow> condense_config \<Rightarrow> 'f adaptive_state" where
  "fresh_adaptive sv cfg = \<lparr>as_baseline = cc_tokens_threshold cfg, as_model = cc_model cfg, as_savings = sv_neutral sv\<rparr>"

definition adaptive_matches :: "'f adaptive_state \<Rightarrow> condense_config \<Rightarrow> bool" where
  "adaptive_matches st cfg \<longleftrightarrow> as_baseline st = cc_tokens_threshold cfg \<and> as_model st = cc_model cfg"

definition state_threshold :: "'f savings \<Rightarrow> 'f adaptive_state \<Rightarrow> nat" where
  "state_threshold sv st =
     (let lower = (as_baseline st + 1) div 2; upper = min (as_baseline st * 2) (2 ^ 64 - 1)
      in min (max (sv_scale sv (as_baseline st) (as_savings st)) lower) upper)"

definition observe_savings :: "'f savings \<Rightarrow> nat \<Rightarrow> nat \<Rightarrow> 'f adaptive_state \<Rightarrow> 'f adaptive_state" where
  "observe_savings sv attempted saved st =
     (if attempted = 0 then st else st\<lparr>as_savings := sv_observe sv attempted (min saved attempted) (as_savings st)\<rparr>)"

definition relax_toward_baseline :: "'f savings \<Rightarrow> 'f adaptive_state \<Rightarrow> 'f adaptive_state" where
  "relax_toward_baseline sv st = st\<lparr>as_savings := sv_relax sv (as_savings st)\<rparr>"

text \<open>The session's state, a new one when the configuration is another.\<close>

definition session_adaptive :: "'f savings \<Rightarrow> condense_config \<Rightarrow> string \<Rightarrow> 'f adaptive_registry \<Rightarrow> 'f adaptive_state" where
  "session_adaptive sv cfg session reg =
     (case reg session of
        Some st \<Rightarrow> if adaptive_matches st cfg then st else fresh_adaptive sv cfg
      | None \<Rightarrow> fresh_adaptive sv cfg)"

definition with_adaptive ::
  "'f savings \<Rightarrow> condense_config \<Rightarrow> string option \<Rightarrow> ('f adaptive_state \<Rightarrow> 'f adaptive_state) \<Rightarrow> 'f adaptive_registry \<Rightarrow>
   nat \<times> 'f adaptive_registry" where
  "with_adaptive sv cfg session f reg =
     (if \<not> cc_adaptive cfg then (cc_tokens_threshold cfg, reg)
      else case session of
             None \<Rightarrow> (cc_tokens_threshold cfg, reg)
           | Some s \<Rightarrow> let st = f (session_adaptive sv cfg s reg) in (state_threshold sv st, reg(s \<mapsto> st)))"

definition adaptive_threshold where
  "adaptive_threshold sv cfg session = with_adaptive sv cfg session (\<lambda>st. st)"

definition observe_adaptive_round where
  "observe_adaptive_round sv cfg session attempted saved = with_adaptive sv cfg session (observe_savings sv attempted saved)"

definition relax_adaptive_threshold where
  "relax_adaptive_threshold sv cfg session = with_adaptive sv cfg session (relax_toward_baseline sv)"

definition clear_adaptive :: "string \<Rightarrow> 'f adaptive_registry \<Rightarrow> 'f adaptive_registry" where
  "clear_adaptive session reg = reg(session := None)"

section \<open>The request of a round\<close>

record condense_entry =
  cn_id :: string
  cn_verdict :: string
  cn_lines :: "string list"

record condense_env =
  ce_text :: text_env
  ce_pretty :: "json \<Rightarrow> string"
  ce_decode :: "string \<Rightarrow> condense_entry list option"
  ce_spill :: "string \<Rightarrow> string \<Rightarrow> string option"

text \<open>A candidate is the index of its result and the view the model is shown.\<close>

type_synonym candidate = "nat \<times> numbered_view"

definition estimate :: "condense_env \<Rightarrow> string \<Rightarrow> nat" where
  "estimate env s = estimate_tokens (te_tokenizer (ce_text env)) s"

definition result_size :: "condense_env \<Rightarrow> tool_output \<Rightarrow> nat" where
  "result_size env r = (if to_plain r then estimate env (tr_content r) else 0)"

text \<open>The largest results, in their order in the round.\<close>

definition select_results :: "nat list \<Rightarrow> nat list \<Rightarrow> nat list" where
  "select_results sizes sizable = sort (take MAX_RESULTS_PER_REQUEST (sort_key (\<lambda>i. - int (sizes ! i)) sizable))"

definition arguments_of :: "condense_env \<Rightarrow> tool_call list \<Rightarrow> tool_output \<Rightarrow> string" where
  "arguments_of env calls r =
     (case find (\<lambda>c. ca_id c = tr_id r) calls of
        Some c \<Rightarrow> compact_args (te_tokenizer (ce_text env)) (ca_parameters c) | None \<Rightarrow> [])"

definition view_budget :: "nat list \<Rightarrow> nat list \<Rightarrow> nat \<Rightarrow> nat" where
  "view_budget sizes selected i =
     max (ROUND_VIEW_CAP_TOKENS * (sizes ! i) div max (sum_list (map ((!) sizes) selected)) 1) MIN_RESULT_VIEW_TOKENS"

definition task_block :: "tokenizer \<Rightarrow> string \<Rightarrow> string" where
  "task_block tk task =
     (if is_blank task then ''(task context unavailable '' @ long_dash @ '' be conservative, keep anything plausibly useful)''
      else truncate_preserving_edges tk (trim task) TASK_CAP_TOKENS)"

definition make_candidate ::
  "condense_env \<Rightarrow> tool_output list \<Rightarrow> tool_call list \<Rightarrow> nat list \<Rightarrow> nat list \<Rightarrow> string \<Rightarrow> string \<Rightarrow> nat \<Rightarrow> candidate" where
  "make_candidate env results calls sizes selected task intent i =
     (let r = results ! i; focus = task @ newline @ intent @ newline @ arguments_of env calls r
      in (i, build_numbered_view (ce_text env) (tr_content r) (view_budget sizes selected i) focus))"

definition json_nat :: "nat \<Rightarrow> json" where
  "json_nat n = JNum (show_nat n)"

definition result_json :: "condense_env \<Rightarrow> tool_output list \<Rightarrow> tool_call list \<Rightarrow> nat list \<Rightarrow> candidate \<Rightarrow> json" where
  "result_json env results calls sizes = (\<lambda>(i, view).
     let r = results ! i
     in JObj [(''id'', JStr (tr_id r)), (''tool'', JStr (to_name r)),
          (''status'', JStr (if tr_error r then ''error'' else ''ok'')),
          (''arguments'', JStr (arguments_of env calls r)), (''estimated_tokens'', json_nat (sizes ! i)),
          (''total_lines'', json_nat (nv_total_lines view)), (''partial_view'', JBool (nv_partial view)),
          (''visible_ranges'', JArr (map JStr (format_ranges (nv_visible view)))), (''numbered_output'', JStr (nv_body view))])"

definition build_request ::
  "condense_env \<Rightarrow> tool_output list \<Rightarrow> tool_call list \<Rightarrow> nat list \<Rightarrow> nat list \<Rightarrow> string \<Rightarrow> string \<Rightarrow> string \<Rightarrow>
   candidate list \<times> string" where
  "build_request env results calls sizable sizes task agent_context intent =
     (let tk = te_tokenizer (ce_text env); selected = select_results sizes sizable;
          task = task_block tk task;
          agent = truncate_preserving_edges tk (trim agent_context) AGENT_CONTEXT_CAP_TOKENS;
          intent = truncate_preserving_edges tk (trim intent) TOOL_INTENT_CAP_TOKENS;
          candidates = map (make_candidate env results calls sizes selected task intent) selected
      in (candidates,
          ce_pretty env (JObj [(''agent_context'', JStr agent), (''task_context'', JStr task),
            (''tool_round_intent'', JStr intent),
            (''candidate_output_tokens'', json_nat (max (sum_list (map ((!) sizes) selected)) 1)),
            (''results_considered'', json_nat (length candidates)),
            (''results'', JArr (map (result_json env results calls sizes) candidates))])))"

section \<open>Verdicts\<close>

text \<open>The JSON of an answer: a fenced block, otherwise what the outermost braces enclose.\<close>

definition response_json :: "string \<Rightarrow> string option" where
  "response_json s =
     (case find_str ''```json'' s of
        Some i \<Rightarrow>
          let after = drop (i + 7) s in map_option (\<lambda>e. trim (take e after)) (find_str ''```'' after)
      | None \<Rightarrow>
          Option.bind (find_str ''{'' s) (\<lambda>i. Option.bind (rfind_str ''}'' s) (\<lambda>e.
            if e < i then None else Some (take (e + 1 - i) (drop i s)))))"

definition parse_condense_response :: "condense_env \<Rightarrow> string \<Rightarrow> condense_entry list option" where
  "parse_condense_response env s = Option.bind (response_json s) (ce_decode env)"

definition unambiguous_entry :: "condense_entry list \<Rightarrow> string \<Rightarrow> condense_entry option" where
  "unambiguous_entry entries i =
     (case filter (\<lambda>e. cn_id e = i) entries of [e] \<Rightarrow> Some e | _ \<Rightarrow> None)"

definition recover_hint :: string where
  "recover_hint =
     ''Re-run the original tool only when its underlying state may have changed, not merely to recover omitted text.''"

definition extract_notice :: "string \<Rightarrow> nat \<Rightarrow> nat \<Rightarrow> string \<Rightarrow> string" where
  "extract_notice body kept n path =
     body @ newline @ newline @ rule_line @ newline @ CONDENSE_NOTICE_TAG @ '': kept '' @ show_nat kept @ '' of '' @ show_nat n @
     '' original lines relevant to the current task '' @ long_dash @
     '' the condenser returned line numbers only; kept text was reconstructed from the original, not rewritten. '' @
     ''Full original output:'' @ newline @ ''  '' @ path @ newline @
     ''If something you need was cut, read the exact span from that file. '' @ recover_hint"

definition replace_notice :: "nat \<Rightarrow> string \<Rightarrow> string \<Rightarrow> string" where
  "replace_notice n tool path =
     CONDENSE_NOTICE_TAG @ '': omitted the complete '' @ show_nat n @ ''-line successful `'' @ tool @
     ''` result because none of it was judged to advance the current task. '' @
     ''No tool facts were summarized or rewritten. Full original output:'' @ newline @ ''  '' @ path @ newline @
     ''Read it there if needed. '' @ recover_hint"

text \<open>The lines an extraction keeps: the model's choice among what it was shown, and what is kept in any case.\<close>

definition kept_ranges :: "condense_env \<Rightarrow> condense_entry \<Rightarrow> string list \<Rightarrow> numbered_view \<Rightarrow> line_range list option" where
  "kept_ranges env e lines view =
     (case parse_ranges (cn_lines e) (length lines) of
        None \<Rightarrow> None
      | Some ranges \<Rightarrow>
          let chosen_ranges = clip_to_visible ranges view
          in if chosen_ranges = [] then None
             else Some (merge_ranges (chosen_ranges @ diagnostic_ranges (ce_text env) lines @ truncation_notice_range lines)))"

definition apply_verdict :: "condense_env \<Rightarrow> condense_entry \<Rightarrow> tool_output \<Rightarrow> string \<Rightarrow> numbered_view \<Rightarrow> string option" where
  "apply_verdict env e r original view =
     (let lines = str_lines original
      in if cn_verdict e = ''extract'' then
           Option.bind (kept_ranges env e lines view) (\<lambda>ranges.
             let (body, kept) = reconstruct lines ranges (length lines)
             in if length lines \<le> kept then None
                else map_option (extract_notice body kept (length lines)) (ce_spill env (to_name r) original))
         else if cn_verdict e = ''replace'' then
           if tr_error r \<or> nv_partial view then None
           else map_option (replace_notice (length lines) (to_name r)) (ce_spill env (to_name r) original)
         else None)"

text \<open>The error flag stays; only text was there before, and only text is there now.\<close>

definition set_content :: "string \<Rightarrow> tool_output \<Rightarrow> tool_output" where
  "set_content content r = r\<lparr>tr_content := content, to_plain := True\<rparr>"

definition condense_one :: "condense_env \<Rightarrow> condense_entry list \<Rightarrow> candidate \<Rightarrow> tool_output list \<Rightarrow> tool_output list \<times> nat" where
  "condense_one env entries = (\<lambda>(i, view) results.
     let r = results ! i; original = tr_content r
     in case Option.bind (unambiguous_entry entries (tr_id r)) (\<lambda>e. apply_verdict env e r original view) of
          None \<Rightarrow> (results, 0)
        | Some content \<Rightarrow>
            if estimate env original \<le> estimate env content then (results, 0)
            else (results[i := set_content content r], estimate env original - estimate env content))"

fun condense_all :: "condense_env \<Rightarrow> condense_entry list \<Rightarrow> candidate list \<Rightarrow> tool_output list \<Rightarrow> nat \<Rightarrow> tool_output list \<times> nat" where
  "condense_all env entries [] results saved = (results, saved)"
| "condense_all env entries (c # cs) results saved =
     (let (results, n) = condense_one env entries c results in condense_all env entries cs results (saved + n))"

section \<open>A round\<close>

definition reprobe ::
  "'f savings \<Rightarrow> condense_config \<Rightarrow> string option \<Rightarrow> nat list \<Rightarrow> nat \<Rightarrow> 'f adaptive_registry \<Rightarrow> 'f adaptive_registry" where
  "reprobe sv cfg session sizes floor_tokens reg =
     (let baseline_floor = max (cc_tokens_threshold cfg) MIN_CANDIDATE_TOKENS
      in if cc_adaptive cfg \<and> baseline_floor < floor_tokens \<and>
           list_ex (\<lambda>n. baseline_floor < n \<and> n \<le> floor_tokens) sizes
         then snd (relax_adaptive_threshold sv cfg session reg) else reg)"

text \<open>\<open>ask\<close> is the answer of the model to a request, \<open>None\<close> when the call fails.\<close>

definition condense_round ::
  "condense_env \<Rightarrow> 'f savings \<Rightarrow> bool \<Rightarrow> condense_config \<Rightarrow> bool \<Rightarrow> string option \<Rightarrow> (string \<Rightarrow> string option) \<Rightarrow>
   tool_call list \<Rightarrow> string \<Rightarrow> string \<Rightarrow> string \<Rightarrow> tool_output list \<Rightarrow> 'f adaptive_registry \<Rightarrow>
   tool_output list \<times> 'f adaptive_registry" where
  "condense_round env sv supervisor cfg reader session ask calls task agent_context intent results reg =
     (if \<not> supervisor \<or> \<not> cc_enabled cfg \<or> cc_tokens_threshold cfg = 0 then (results, reg)
      else
        let sizes = map (result_size env) results;
            (threshold, reg) = adaptive_threshold sv cfg session reg;
            floor_tokens = max threshold MIN_CANDIDATE_TOKENS;
            sizable = filter (\<lambda>i. floor_tokens < sizes ! i) [0..<length results]
        in if sizable = [] then (results, reprobe sv cfg session sizes floor_tokens reg)
           else if \<not> reader then (results, reg)
           else let (candidates, user) = build_request env results calls sizable sizes task agent_context intent;
                    attempted = sum_list (map (\<lambda>(i, _). sizes ! i) candidates)
                in case ask user of
                     None \<Rightarrow> (results, reg)
                   | Some response \<Rightarrow>
                       (case parse_condense_response env response of
                          None \<Rightarrow> (results, snd (observe_adaptive_round sv cfg session attempted 0 reg))
                        | Some entries \<Rightarrow>
                            let (results', saved) = condense_all env entries candidates results 0
                            in (results', snd (observe_adaptive_round sv cfg session attempted saved reg))))"

end
