(* ===== verification/ToolBatch.thy ===== *)
theory ToolBatch
  imports Dispatch Guardrails Condense
begin

text \<open>
  A round of tool calls from the model's reply to the results it reads
  (\<open>src/session/chat/response/tool_execution.rs\<close>): the check of the guards, the tasks, their cancellation, what settles
  them, the hooks, the cap and the condenser, and the one call that runs inline. The task a result is condensed for is
  the parent session's.
\<close>

section \<open>What a round is judged against\<close>

definition parent_task_context :: "string \<Rightarrow> string option \<Rightarrow> string option \<Rightarrow> string" where
  "parent_task_context intent request plan =
     (if trim intent = [] then [] else ''Goal: '' @ trim intent @ newline) @
     (case request of Some r \<Rightarrow> ''Current request: '' @ r @ newline | None \<Rightarrow> []) @
     (case plan of Some p \<Rightarrow> p | None \<Rightarrow> [])"

text \<open>The name in the tag that opens an injected skill.\<close>

definition extract_skill_name :: "string \<Rightarrow> string option" where
  "extract_skill_name content =
     (let t = trim_start content; tag = ''<skill name='' @ bytes [34]
      in if starts_with t tag then
           let after = drop (length tag) t in map_option (\<lambda>n. take n after) (find_str (bytes [34]) after)
         else None)"

definition trusted_context :: "string list \<Rightarrow> 'x message \<Rightarrow> bool" where
  "trusted_context active m \<longleftrightarrow>
     msg_role m = ''system'' \<or>
     msg_role m = ''user'' \<and>
       (starts_with (trim_start (msg_content m)) ''<instructions>'' \<or>
        (case extract_skill_name (msg_content m) of Some name \<Rightarrow> name \<in> set active | None \<Rightarrow> False))"

definition parent_agent_context :: "string list \<Rightarrow> 'x message list \<Rightarrow> string" where
  "parent_agent_context active messages =
     join (newline @ newline)
       (filter (\<lambda>c. c \<noteq> []) (map (trim \<circ> msg_content) (filter (trusted_context active) messages)))"

section \<open>The environment of a round\<close>

text \<open>
  The tasks of a round run side by side, so the world a call finds (\<open>bt_world\<close>), the moment the user's cancellation
  reaches it and the loss of its task are given for each call.
\<close>

record ('r, 'f, 'x) batch_env =
  bt_guards :: "'r guard_env"
  bt_settle :: settle_env
  bt_session :: string
  bt_handlers :: tool_handlers
  bt_config :: "server_config list"
  bt_agents :: "string list"
  bt_local :: "string \<Rightarrow> bool"
  bt_world :: "tool_call \<Rightarrow> mcp_world"
  bt_stop :: "tool_call \<Rightarrow> cancel_time"
  bt_lost :: "tool_call \<Rightarrow> string option"
  bt_condense :: condense_env
  bt_savings :: "'f savings"
  bt_supervisor :: bool
  bt_condense_config :: condense_config
  bt_reader :: bool
  bt_ask :: "string \<Rightarrow> string option"
  bt_messages :: "'x message list"
  bt_goal :: string
  bt_plan :: "string option"
  bt_active_skills :: "string list"
  bt_intent :: string

definition run_task :: "('r, 'f, 'x) batch_env \<Rightarrow> tool_call \<Rightarrow> task_outcome" where
  "run_task env call =
     (case bt_lost env call of
        Some e \<Rightarrow> TaskLost e
      | None \<Rightarrow>
          (case execute_tool_call (bt_handlers env) (bt_config env) (bt_agents env) (bt_local env) (bt_stop env call)
                  (bt_world env call) call of
             Inl e \<Rightarrow> ToolFailed e
           | Inr res \<Rightarrow> ToolReturned res))"

definition condense_main_results ::
  "('r, 'f, 'x) batch_env \<Rightarrow> tool_call list \<Rightarrow> tool_output list \<Rightarrow> 'f adaptive_registry \<Rightarrow>
   tool_output list \<times> 'f adaptive_registry" where
  "condense_main_results env calls results reg =
     condense_round (bt_condense env) (bt_savings env) (bt_supervisor env) (bt_condense_config env) (bt_reader env)
       (st_session (bt_settle env)) (bt_ask env) calls (parent_task_context (bt_goal env) (latest_real_user_task_content (bt_messages env)) (bt_plan env))
       (parent_agent_context (bt_active_skills env) (bt_messages env)) (bt_intent env) results reg"

section \<open>A round\<close>

type_synonym ('r, 'f) round_state = "'r guard_state \<times> tool_state \<times> inbox \<times> 'f adaptive_registry"

text \<open>
  When the cancellation wins against the tasks the round has no results: what the guards logged stays, nothing is
  settled, no hook runs. Only the main session condenses.
\<close>

definition execute_tools_with_context ::
  "('r, 'f, 'x) batch_env \<Rightarrow> bool \<Rightarrow> tool_call list \<Rightarrow> ('r, 'f) round_state \<Rightarrow> tool_output list \<times> ('r, 'f) round_state" where
  "execute_tools_with_context env cancelled calls = (\<lambda>(st, ts, ib, reg).
     if cancelled then ([], snd (check_batch (bt_guards env) calls st), ts, ib, reg)
     else let (rs, st, ts, ib) = guarded_batch (bt_guards env) (bt_settle env) (bt_session env) (run_task env) calls st ts ib
          in if st_main (bt_settle env)
             then let (rs, reg) = condense_main_results env calls rs reg in (rs, st, ts, ib, reg)
             else (rs, st, ts, ib, reg))"

definition is_tool_allowed :: "string \<Rightarrow> bool" where
  "is_tool_allowed tool \<longleftrightarrow> True"

definition execute_tools_in_context ::
  "('r, 'f, 'x) batch_env \<Rightarrow> bool \<Rightarrow> tool_call list \<Rightarrow> ('r, 'f) round_state \<Rightarrow> tool_output list \<times> ('r, 'f) round_state" where
  "execute_tools_in_context env cancelled calls s =
     (let allowed = filter (\<lambda>c. is_tool_allowed (ca_name c)) calls
      in if allowed = [] then ([], s) else execute_tools_with_context env cancelled allowed s)"

section \<open>The call that runs inline\<close>

text \<open>The activation of skills and capabilities for a prompt: what was active, what is, what the activation reports.\<close>

record activation =
  av_skills_before :: "string list"
  av_skills_after :: "string list"
  av_caps_before :: "string list"
  av_caps_reported :: "string list"
  av_caps_after :: "string list"

definition is_tap_capability_call :: "tool_call \<Rightarrow> bool" where
  "is_tap_capability_call call \<longleftrightarrow> ca_name call = ''tap'' \<and> text_of ''action'' (ca_parameters call) = Some ''capability''"

definition activated_capabilities :: "activation \<Rightarrow> string list" where
  "activated_capabilities av =
     foldl (\<lambda>acc name. if name \<notin> set (av_caps_before av) \<and> name \<notin> set acc then acc @ [name] else acc)
       (av_caps_reported av) (av_caps_after av)"

definition execute_tap_capability_inline ::
  "(json \<Rightarrow> string) \<Rightarrow> (string \<Rightarrow> activation) \<Rightarrow> tool_call \<Rightarrow> tool_output" where
  "execute_tap_capability_inline print activate call =
     (case filled_of ''prompt'' (ca_parameters call) of
        None \<Rightarrow> error_result (ca_name call) (ca_id call) (''Missing required parameter '' @ quoted ''prompt'' @ ''.'')
      | Some prompt \<Rightarrow>
          let av = activate prompt;
              skills = filter (\<lambda>n. n \<notin> set (av_skills_before av)) (av_skills_after av);
              caps = activated_capabilities av;
              message = (if skills = [] \<and> caps = [] then ''No skill or capability matched the prompt.''
                         else ''Skill/capability auto-activation completed.'')
          in success_result (ca_name call) (ca_id call)
               (print (JObj [(''activated_capabilities'', JArr (map JStr caps)), (''activated_skills'', JArr (map JStr skills)),
                             (''message'', JStr message)])))"

text \<open>The inline call is checked by no guard, starts no task and cannot be cancelled.\<close>

definition execute_tools_parallel ::
  "('r, 'f, 'x) batch_env \<Rightarrow> (json \<Rightarrow> string) \<Rightarrow> (string \<Rightarrow> activation) \<Rightarrow> bool \<Rightarrow> tool_call list \<Rightarrow> ('r, 'f) round_state \<Rightarrow>
   tool_output list \<times> ('r, 'f) round_state" where
  "execute_tools_parallel env print activate cancelled calls s =
     (case calls of
        [call] \<Rightarrow>
          if is_tap_capability_call call then
            (let (st, ts, ib, reg) = s;
                 rs = handle_large_tool_results (bt_settle env) [execute_tap_capability_inline print activate call];
                 (rs, reg) = condense_main_results env calls rs reg
             in (rs, st, ts, ib, reg))
          else execute_tools_in_context env cancelled calls s
      | _ \<Rightarrow> execute_tools_in_context env cancelled calls s)"

end
