(* ===== verification/EvolutionCorrect.thy ===== *)
theory EvolutionCorrect
  imports Evolution
begin

text \<open>
  What the life cycle guarantees. \<open>evolution_step\<close> is any operation of any session, of the user or of the synthesis;
  the locale \<open>record_law\<close> lifts a law that every change of one record keeps to all reachable registries.
\<close>

section \<open>Steps\<close>

text \<open>A record as the synthesis creates it.\<close>

definition candidate :: "evolution_record \<Rightarrow> bool" where
  "candidate r \<longleftrightarrow>
     ev_state r \<in> {ShadowState, RejectedState} \<and>
     (ev_state r = ShadowState \<longrightarrow> ev_effect r \<noteq> Effectful \<or> ev_authorized r) \<and>
     ev_shadow_matches r = 0 \<and> ev_trial_uses r = 0 \<and> ev_successes r = 0 \<and> ev_failures r = 0 \<and>
     ev_promoted r = None \<and> ev_retired r = None"

inductive evolution_step :: "evolution \<Rightarrow> evolution \<Rightarrow> bool" where
  matched: "evolution_step s (mark_shadow_match now i s)"
| used: "evolution_step s (mark_behavior_used i s)"
| reinforced: "evolution_step s (reinforce_session show_delta order now delta s)"
| acted: "handle_evolution_action now action i s = Inr s' \<Longrightarrow> evolution_step s s'"
| admitted: "candidate r \<Longrightarrow> admit_candidate one_component now r s = Inr s' \<Longrightarrow> evolution_step s s'"
| loaded: "evolution_step s (snd (init_behaviors_for_session dir (artifact :: evolution_record \<Rightarrow> string guardrails option) enabled has_pipe project role s))"
| cleared: "evolution_step s (clear_behaviors_for_session s)"

definition registry_all :: "(evolution_record \<Rightarrow> bool) \<Rightarrow> evolution \<Rightarrow> bool" where
  "registry_all P s \<longleftrightarrow> (case ef_registry s of Some rs \<Rightarrow> list_all P rs | None \<Rightarrow> True)"

lemma registry_all_frame [simp]:
  "registry_all P (s\<lparr>ef_behaviors := b\<rparr>) = registry_all P s"
  "registry_all P (s\<lparr>ef_skills := k\<rparr>) = registry_all P s"
  "registry_all P (s\<lparr>ef_lifecycle := l\<rparr>) = registry_all P s"
  "registry_all P (emit_lifecycle r e s) = registry_all P s"
  "registry_all P (mark_behavior_used i s) = registry_all P s"
  "registry_all P (clear_behaviors_for_session s) = registry_all P s"
  "registry_all P (s\<lparr>ef_registry := Some rs\<rparr>) = list_all P rs"
  by (simp_all add: registry_all_def emit_lifecycle_def mark_behavior_used_def clear_behaviors_for_session_def)

lemma mutate_record_ok:
  "mutate_record now i op reg = Inr (r, rs') \<longleftrightarrow>
     (\<exists>rs k r'. reg = Some rs \<and> position (\<lambda>r. ev_id r = i) rs = Some k \<and> op (rs ! k) = Inr r' \<and>
        r = r'\<lparr>ev_updated := now\<rparr> \<and> rs' = rs[k := r])"
  by (auto simp: mutate_record_def Let_def ok_simps split: option.splits)

lemma mutated_all:
  assumes "mutate_record now i op reg = Inr (r, rs')" and "case reg of Some rs \<Rightarrow> list_all P rs | None \<Rightarrow> True"
    and "\<And>r r'. P r \<Longrightarrow> op r = Inr r' \<Longrightarrow> P (r'\<lparr>ev_updated := now\<rparr>)"
  shows "list_all P rs' \<and> P r"
proof -
  obtain rs k r' where r: "reg = Some rs" "position (\<lambda>r. ev_id r = i) rs = Some k" "op (rs ! k) = Inr r'"
    "r = r'\<lparr>ev_updated := now\<rparr>" "rs' = rs[k := r]" using assms(1) by (auto simp: mutate_record_ok)
  have k: "k < length rs" using position_Some[OF r(2)] by simp
  have all: "list_all P rs" using assms(2) r(1) by simp
  then have "P (rs ! k)" using k by (simp add: list_all_length)
  then have "P r" using assms(3) r(3,4) by simp
  moreover have "list_all P rs'" unfolding r(5) using all \<open>P r\<close>
    by (auto simp: list_all_iff dest!: set_update_subset_insert[THEN subsetD])
  ultimately show ?thesis by simp
qed

section \<open>Laws of records\<close>

locale record_law =
  fixes P :: "evolution_record \<Rightarrow> bool"
  assumes stamped: "P r \<Longrightarrow> P (r\<lparr>ev_updated := now\<rparr>)"
    and fresh: "candidate r \<Longrightarrow> P r"
    and matched: "P r \<Longrightarrow> P (shadow_match_record now r)"
    and reinforced: "P r \<Longrightarrow> P (reinforce_record show_delta now delta r)"
    and retired: "P r \<Longrightarrow> P (retire_superseded now by' r)"
    and superseded: "P r \<Longrightarrow> P (supersede_record now by' r)"
    and acted: "P r \<Longrightarrow> action_on action now r = Inr r' \<Longrightarrow> P r'"
begin

lemma mutation:
  "registry_all P s \<Longrightarrow> (\<And>r. P r \<Longrightarrow> P (f r)) \<Longrightarrow> registry_all P (apply_mutation now i f s)"
  unfolding apply_mutation_def
  by (auto split: sum.splits dest!: mutated_all[where P = P] simp: registry_all_def intro: stamped)

lemma mutations:
  "registry_all P s \<Longrightarrow> (\<And>r. P r \<Longrightarrow> P (f r)) \<Longrightarrow> registry_all P (fold (\<lambda>old. apply_mutation now old f) ids s)"
  by (induction ids arbitrary: s) (simp_all add: mutation)

lemma one:
  assumes "registry_all P s"
  shows "registry_all P (reinforce_one show_delta now delta i s)"
proof (cases "mutate_record now i (\<lambda>r. Inr (reinforce_record show_delta now delta r)) (ef_registry s)")
  case (Inl e)
  then show ?thesis using assms by (simp add: reinforce_one_def)
next
  case (Inr x)
  obtain r rs where x: "x = (r, rs)" by force
  have "list_all P rs \<and> P r"
    by (rule mutated_all[OF Inr[unfolded x]])
      (use assms in \<open>auto simp: registry_all_def intro: stamped reinforced\<close>)
  then have "registry_all P (s\<lparr>ef_registry := Some rs\<rparr>)" by simp
  then have "registry_all P (fold (\<lambda>old. apply_mutation now old (retire_superseded now (ev_id r))) (ev_superseded_ids r)
      (s\<lparr>ef_registry := Some rs\<rparr>))" by (rule mutations) (rule retired)
  with \<open>list_all P rs \<and> P r\<close> show ?thesis
    by (simp add: reinforce_one_def Inr x Let_def split: option.split)
qed

lemma many: "registry_all P s \<Longrightarrow> registry_all P (fold (reinforce_one show_delta now delta) ids s)"
  by (induction ids arbitrary: s) (simp_all add: one)

lemma step:
  assumes "evolution_step s s'" and "registry_all P s"
  shows "registry_all P s'"
  using assms
proof (cases rule: evolution_step.cases)
  case (matched now i)
  then show ?thesis using assms(2)
    by (auto simp: mark_shadow_match_def Let_def registry_all_def[of P s]
        split: option.splits sum.splits dest!: mutated_all[where P = P] intro!: stamped record_law.matched[OF record_law_axioms])
next
  case (reinforced show_delta order now delta)
  then show ?thesis using assms(2) by (simp add: reinforce_session_def Let_def many)
next
  case (acted now action i)
  then show ?thesis using assms(2)
    by (auto simp: handle_evolution_action_def ok_simps registry_all_def[of P s]
        dest!: mutated_all[where P = P] intro!: stamped dest: record_law.acted[OF record_law_axioms])
next
  case (admitted r one_component now)
  then obtain rs where rs: "create_record one_component r (ef_registry s) = Inr rs"
    by (auto simp: admit_candidate_def ok_simps)
  then have "list_all P rs" using assms(2) fresh[OF admitted(1)]
    by (auto simp: create_record_def ok_simps registry_all_def split: option.splits)
  then show ?thesis using admitted(2) rs
    by (auto simp: admit_candidate_def Let_def intro!: mutations superseded)
qed (auto simp: init_behaviors_for_session_def Let_def split: option.splits)

lemma steps: "evolution_step\<^sup>*\<^sup>* s s' \<Longrightarrow> registry_all P s \<Longrightarrow> registry_all P s'"
  by (induction rule: rtranclp_induct) (auto dest: step)

end

lemmas record_changes = shadow_match_record_def reinforce_record_def note_use_def note_success_def note_failure_def
  note_inconclusive_def retire_superseded_def supersede_record_def append_history_def Let_def

text \<open>What affects the runtime is allowed to: effects are authorized.\<close>

definition licensed :: "evolution_record \<Rightarrow> bool" where
  "licensed r \<longleftrightarrow> (affects_runtime (ev_state r) \<longrightarrow> ev_effect r = Effectful \<longrightarrow> ev_authorized r)"

text \<open>The last event of a history that changes what the record may do, the promotion aside.\<close>

definition turning_points :: "string list" where
  "turning_points =
     [''trial'', ''approved'', ''rollback'', ''superseded'', ''rejected'', ''retired'', ''trial_inconclusive'']"

definition last_turn :: "history_event list \<Rightarrow> string option" where
  "last_turn hs = map_option hv_event (find (\<lambda>h. hv_event h \<in> set turning_points) (rev hs))"

lemma find_append: "find P (xs @ ys) = (case find P xs of Some x \<Rightarrow> Some x | None \<Rightarrow> find P ys)"
  by (induction xs) auto

lemma last_turn_simps [simp]:
  "last_turn [] = None"
  "last_turn (hs @ hs') = (case last_turn hs' of Some t \<Rightarrow> Some t | None \<Rightarrow> last_turn hs)"
  "last_turn (h # hs) = (case last_turn hs of Some t \<Rightarrow> Some t
     | None \<Rightarrow> if hv_event h \<in> set turning_points then Some (hv_event h) else None)"
  by (auto simp: last_turn_def find_append split: option.split)

text \<open>
  What affects the runtime got there by one of two turns, and none came after: the threshold of shadow matches, which were
  at least two, or the user's approval; what is active succeeded twice.
\<close>

definition earned :: "evolution_record \<Rightarrow> bool" where
  "earned r \<longleftrightarrow>
     (affects_runtime (ev_state r) \<longrightarrow>
        last_turn (ev_history r) = Some ''approved'' \<or>
        last_turn (ev_history r) = Some ''trial'' \<and> SHADOW_MATCHES_REQUIRED \<le> ev_shadow_matches r) \<and>
     (ev_state r = ActiveState \<longrightarrow> TRIAL_SUCCESSES_REQUIRED \<le> ev_successes r \<and> ev_promoted r \<noteq> None)"

lemma action_ok:
  "action_on action now r = Inr r' \<Longrightarrow>
     (action = Approve \<and> ev_state r = ShadowState \<and> r' = append_history now ''approved'' ''user approved bounded live trial''
         (r\<lparr>ev_authorized := True, ev_state := TrialState\<rparr>)) \<or>
     (action = Reject \<and> r' = append_history now ''rejected'' ''user rejected generated behavior'' (r\<lparr>ev_state := RejectedState\<rparr>)) \<or>
     (action = Rollback \<and> affects_runtime (ev_state r) \<and> r' = append_history now ''rollback'' ''user requested rollback''
         (r\<lparr>ev_state := ShadowState, ev_shadow_matches := 0, ev_successes := 0\<rparr>))"
  by (cases action) (auto simp: approve_record_def reject_record_def rollback_record_def ok_simps)

interpretation licence: record_law licensed
proof
  fix r r' now action
  assume "licensed r" "action_on action now r = Inr r'"
  then show "licensed r'" by (auto dest!: action_ok simp: licensed_def append_history_def)
qed (auto simp: licensed_def candidate_def record_changes)

interpretation merit: record_law earned
proof
  fix r r' now action
  assume "earned r" "action_on action now r = Inr r'"
  then show "earned r'" by (auto dest!: action_ok simp: earned_def append_history_def turning_points_def)
qed (auto simp: earned_def candidate_def record_changes saturating_succ_ge turning_points_def)

text \<open>The identifiers of a registry stay distinct: mutations keep them, and a new record has a new one.\<close>

definition distinct_ids :: "evolution \<Rightarrow> bool" where
  "distinct_ids s \<longleftrightarrow> (case ef_registry s of Some rs \<Rightarrow> distinct (map ev_id rs) | None \<Rightarrow> True)"

lemma mutated_ids:
  assumes "mutate_record now i op reg = Inr (r, rs')" and "\<And>r r'. op r = Inr r' \<Longrightarrow> ev_id r' = ev_id r"
  shows "\<exists>rs. reg = Some rs \<and> map ev_id rs' = map ev_id rs"
proof -
  obtain rs k r' where r: "reg = Some rs" "position (\<lambda>r. ev_id r = i) rs = Some k" "op (rs ! k) = Inr r'"
    "r = r'\<lparr>ev_updated := now\<rparr>" "rs' = rs[k := r]" using assms(1) by (auto simp: mutate_record_ok)
  have "ev_id r = ev_id (rs ! k)" using assms(2)[OF r(3)] r(4) by simp
  then have "map ev_id rs' = map ev_id rs" unfolding r(5) using position_Some[OF r(2)]
    by (metis list_update_id map_update)
  with r(1) show ?thesis by simp
qed

lemma change_ids [simp]:
  "ev_id (shadow_match_record now r) = ev_id r" "ev_id (reinforce_record show_delta now delta r) = ev_id r"
  "ev_id (retire_superseded now by' r) = ev_id r" "ev_id (supersede_record now by' r) = ev_id r"
  by (simp_all add: record_changes)

lemma action_ids: "action_on action now r = Inr r' \<Longrightarrow> ev_id r' = ev_id r"
  by (auto dest!: action_ok simp: append_history_def)

section \<open>A trial ends\<close>

text \<open>What a use leaves of a record that is still on trial.\<close>

lemma trial_use:
  assumes "ev_state r = TrialState" and "ev_successes r < TRIAL_SUCCESSES_REQUIRED"
    and "ev_state (reinforce_record show_delta now delta r) = TrialState"
  shows "ev_successes (reinforce_record show_delta now delta r) < TRIAL_SUCCESSES_REQUIRED \<and>
    ev_trial_uses (reinforce_record show_delta now delta r) = saturating_succ (ev_trial_uses r) \<and>
    saturating_succ (ev_trial_uses r) < TRIAL_MAX_USES"
  using assms by (auto simp: record_changes not_le split: if_splits)

lemma saturating_succ_unat: "saturating_succ n < TRIAL_MAX_USES \<Longrightarrow> unat (saturating_succ n) = Suc (unat n)"
  by (rule unat_saturating_succ) (auto simp: saturating_succ_def TRIAL_MAX_USES_def)

definition uses :: "(int \<Rightarrow> string) \<Rightarrow> string \<Rightarrow> int list \<Rightarrow> evolution_record \<Rightarrow> evolution_record" where
  "uses show_delta now deltas r = fold (reinforce_record show_delta now) deltas r"

lemma uses_simps [simp]:
  "uses show_delta now [] r = r"
  "uses show_delta now (d # ds) r = uses show_delta now ds (reinforce_record show_delta now d r)"
  by (simp_all add: uses_def)

lemma on_trial_throughout:
  assumes "ev_successes r < TRIAL_SUCCESSES_REQUIRED"
    and "\<forall>k\<le>length deltas. ev_state (uses show_delta now (take k deltas) r) = TrialState"
  shows "deltas = [] \<or> unat (ev_trial_uses r) + length deltas < 4"
  using assms
proof (induction deltas arbitrary: r)
  case Nil
  then show ?case by simp
next
  case (Cons d ds)
  let ?r = "reinforce_record show_delta now d r"
  have s: "ev_state r = TrialState" using Cons.prems(2)[rule_format, of 0] by simp
  have t: "\<forall>k\<le>length ds. ev_state (uses show_delta now (take k ds) ?r) = TrialState"
    using Cons.prems(2) by (metis Suc_le_mono length_Cons take_Suc_Cons uses_simps(2))
  then have "ev_state ?r = TrialState" by (metis le0 take0 uses_simps(1))
  note u = trial_use[OF s Cons.prems(1) this]
  have n: "unat (ev_trial_uses ?r) = Suc (unat (ev_trial_uses r))" using u saturating_succ_unat by metis
  have "unat (ev_trial_uses ?r) < 4" using u by (simp add: TRIAL_MAX_USES_def word_less_nat_alt)
  with Cons.IH[OF conjunct1[OF u] t] n show ?case by auto
qed

section \<open>A failure suspends\<close>

lemma get_mutated:
  assumes "mutate_record now i op reg = Inr (r, rs')" and "\<And>r r'. op r = Inr r' \<Longrightarrow> ev_id r' = ev_id r"
  shows "get_record (Some rs') j = (if j = i then Some r else get_record reg j)"
proof -
  obtain rs k r' where r: "reg = Some rs" "position (\<lambda>r. ev_id r = i) rs = Some k" "op (rs ! k) = Inr r'"
    "r = r'\<lparr>ev_updated := now\<rparr>" "rs' = rs[k := r]" using assms(1) by (auto simp: mutate_record_ok)
  have e: "ev_id r = i" using assms(2)[OF r(3)] r(4) position_Some[OF r(2)] by simp
  have "find (\<lambda>r. ev_id r = j) (rs[k := r]) = (if j = i then Some r else find (\<lambda>r. ev_id r = j) rs)"
    using r(2) e by (induction rs arbitrary: k) (auto split: if_splits)
  then show ?thesis by (simp add: get_record_def r(1,5))
qed

lemma get_position: "get_record (Some rs) i = None \<longleftrightarrow> position (\<lambda>r. ev_id r = i) rs = None"
  by (auto simp: get_record_def find_None_iff position_None)

lemma failure_counted: "TRIAL_FAILURE_LIMIT \<le> saturating_succ n"
  using saturating_succ_pos[of n] by (simp add: TRIAL_FAILURE_LIMIT_def word_le_nat_alt unat_gt_0 Suc_leI)

lemma last_event_stamped [simp]: "last_event (r\<lparr>ev_updated := now\<rparr>) = last_event r"
  by (simp add: last_event_def)

lemma negative_last: "delta < 0 \<Longrightarrow> last_event (reinforce_record show_delta now delta r) \<noteq> Some ''promoted''"
  by (auto simp: record_changes last_event_def)

lemma negative_state: "delta < 0 \<Longrightarrow> \<not> affects_runtime (ev_state (reinforce_record show_delta now delta r))"
proof -
  show "delta < 0 \<Longrightarrow> ?thesis" by (auto simp: record_changes failure_counted)
qed

definition suspended :: "string \<Rightarrow> evolution \<Rightarrow> bool" where
  "suspended i s \<longleftrightarrow> (\<forall>b. binding_is_shadow (ef_registry s) i b)"

lemma suspended_iff:
  "suspended i s \<longleftrightarrow> (case get_record (ef_registry s) i of Some r \<Rightarrow> \<not> affects_runtime (ev_state r) | None \<Rightarrow> True)"
  by (auto simp: suspended_def binding_is_shadow_def)

lemma negative_one:
  assumes "delta < 0"
  shows "suspended j (reinforce_one show_delta now delta i s) \<longleftrightarrow> j = i \<or> suspended j s"
proof (cases "mutate_record now i (\<lambda>r. Inr (reinforce_record show_delta now delta r)) (ef_registry s)")
  case (Inl e)
  then have "get_record (ef_registry s) i = None"
    by (auto simp: mutate_record_def Let_def get_position get_record_def[of None] split: option.splits)
  then show ?thesis using Inl by (auto simp: reinforce_one_def suspended_iff)
next
  case (Inr x)
  obtain r rs where x: "x = (r, rs)" by force
  obtain r0 where r: "r = (reinforce_record show_delta now delta r0)\<lparr>ev_updated := now\<rparr>"
    using Inr x by (auto simp: mutate_record_ok)
  have l: "last_event r \<noteq> Some ''promoted''" using negative_last[OF assms] by (simp add: r)
  have g: "get_record (Some rs) j = (if j = i then Some r else get_record (ef_registry s) j)"
    by (rule get_mutated[OF Inr[unfolded x]]) auto
  have "\<not> affects_runtime (ev_state r)" using negative_state[OF assms] by (simp add: r)
  then show ?thesis using l g
    by (auto simp: reinforce_one_def Inr x Let_def suspended_iff emit_lifecycle_def split: option.splits)
qed

lemma negative_many:
  assumes "delta < 0"
  shows "suspended j (fold (reinforce_one show_delta now delta) ids s) \<longleftrightarrow> j \<in> set ids \<or> suspended j s"
  by (induction ids arbitrary: s) (auto simp: negative_one[OF assms])

section \<open>Gaps of the life cycle\<close>

text \<open>
  Whatever became of a record, rejection by the user included, being named as superseded by a new candidate puts it
  back into shadow, and two matches later it is on trial.
\<close>

lemma superseded_comes_back:
  assumes "ev_effect r \<noteq> Effectful \<or> ev_authorized r" and "ev_shadow_matches r = 0"
  shows "ev_state (shadow_match_record now (shadow_match_record now (supersede_record now by' r))) = TrialState"
  using assms by (auto simp: record_changes SHADOW_MATCHES_REQUIRED_def saturating_succ_def)

text \<open>
  A roll-back resets the successes and the matches but not the number of uses: a second trial after a first of three
  uses ends at its first success.
\<close>

lemma failed_trial:
  assumes "ev_state r = TrialState" and "a < 0"
  shows "ev_state (reinforce_record show_delta now a r) = ShadowState \<and>
    ev_shadow_matches (reinforce_record show_delta now a r) = 0 \<and> ev_successes (reinforce_record show_delta now a r) = 0 \<and>
    ev_trial_uses (reinforce_record show_delta now a r) = saturating_succ (ev_trial_uses r) \<and>
    ev_effect (reinforce_record show_delta now a r) = ev_effect r \<and>
    ev_authorized (reinforce_record show_delta now a r) = ev_authorized r"
  using assms failure_counted by (simp add: record_changes)

lemma matched_twice:
  assumes "ev_state r = ShadowState" and "ev_shadow_matches r = 0" and "ev_effect r \<noteq> Effectful \<or> ev_authorized r"
  shows "ev_state (shadow_match_record now (shadow_match_record now r)) = TrialState \<and>
    ev_trial_uses (shadow_match_record now (shadow_match_record now r)) = ev_trial_uses r \<and>
    ev_successes (shadow_match_record now (shadow_match_record now r)) = ev_successes r"
  using assms by (auto simp: shadow_match_record_def append_history_def Let_def SHADOW_MATCHES_REQUIRED_def saturating_succ_def)

lemma cut_short:
  assumes "ev_state r = TrialState" and "ev_trial_uses r = 3" and "ev_successes r = 0" and "0 < b"
  shows "ev_state (reinforce_record show_delta now b r) = RetiredState"
  using assms by (simp add: record_changes saturating_succ_def TRIAL_MAX_USES_def TRIAL_SUCCESSES_REQUIRED_def
      word_le_nat_alt word_less_nat_alt)

lemma second_trial_cut_short:
  assumes "ev_state r = TrialState" and "ev_trial_uses r = 2"
    and "ev_effect r \<noteq> Effectful \<or> ev_authorized r" and "a < 0" and "0 < b"
  shows "ev_state (reinforce_record show_delta now b (shadow_match_record now (shadow_match_record now
      (reinforce_record show_delta now a r)))) = RetiredState"
proof -
  let ?r = "reinforce_record show_delta now a r"
  note f = failed_trial[OF assms(1,4), of show_delta now]
  have "ev_trial_uses ?r = 3" using f by (simp add: assms(2) saturating_succ_def)
  moreover have "ev_effect ?r \<noteq> Effectful \<or> ev_authorized ?r" using f assms(3) by simp
  ultimately show ?thesis using matched_twice[of ?r now] f by (intro cut_short[OF _ _ _ assms(5)]) simp_all
qed

text \<open>A turn without a verdict announces the last promotion again.\<close>

lemma promotion_announced_again:
  assumes "ev_state r = ActiveState" and "last_event r = Some ''promoted''" and "ev_superseded_ids r = []"
    and "ef_registry s = Some [r]" and "ev_id r = i"
  shows "ef_lifecycle (reinforce_one show_delta now 0 i s) = ef_lifecycle s @ [(i, ''promoted'')]"
proof -
  have "last_event (reinforce_record show_delta now 0 r) = last_event r" "ev_superseded_ids (reinforce_record show_delta now 0 r) = []"
    using assms(1,3) by (simp_all add: record_changes last_event_def)
  then show ?thesis using assms(2,4,5) by (simp add: reinforce_one_def mutate_record_def Let_def emit_lifecycle_def)
qed

section \<open>Properties\<close>

definition demo_behavior :: "string \<Rightarrow> evolution_record" where
  "demo_behavior i = \<lparr>ev_schema_version = 1, ev_id = i, ev_name = i, ev_description = ''d'', ev_kind = GuardArtifact,
     ev_scope = \<lparr>as_project = None, as_domain = None\<rparr>, ev_state = ShadowState, ev_effect = Effectful, ev_authorized = True,
     ev_source_memory_ids = [], ev_evidence = [], ev_replay_cases = [], ev_artifact_version = 1, ev_parent_version = None,
     ev_superseded_ids = [], ev_generator_model = ''m'', ev_verifier_model = ''m'', ev_artifact_path = ''guardrail.toml'',
     ev_script_path = None, ev_shadow_matches = 0, ev_trial_uses = 0, ev_successes = 0, ev_failures = 0,
     ev_false_triggers = 0, ev_created = [], ev_updated = [], ev_promoted = None, ev_last_used = None, ev_retired = None,
     ev_history = []\<rparr>"

definition demo_evolution :: "evolution_record list \<Rightarrow> evolution" where
  "demo_evolution rs = \<lparr>ef_registry = Some rs, ef_skills = None, ef_behaviors = Some {''g''}, ef_lifecycle = []\<rparr>"

text \<open>
  C26. Generated behaviour that acts has earned it. In every registry that the operations of sessions, user and synthesis
  can produce, a record on trial or active got there by one of two events of its history, with no demotion, rejection or
  retirement after it: the shadow threshold, and then it counts at least two shadow matches, or the user's approval. Being
  authorized, which the synthesis can grant from memories that ask for the behaviour, replaces neither; an effectful record
  must be authorized besides. An active record has two successes and a date of promotion.
\<close>

theorem generated_behavior_earned:
  assumes "evolution_step\<^sup>*\<^sup>* s s'" and "ef_registry s = Some []" and "ef_registry s' = Some rs"
    and "r \<in> set rs" and "affects_runtime (ev_state r)"
  shows "(last_turn (ev_history r) = Some ''approved'' \<or>
      last_turn (ev_history r) = Some ''trial'' \<and> SHADOW_MATCHES_REQUIRED \<le> ev_shadow_matches r) \<and>
    (ev_effect r = Effectful \<longrightarrow> ev_authorized r) \<and>
    (ev_state r = ActiveState \<longrightarrow> TRIAL_SUCCESSES_REQUIRED \<le> ev_successes r \<and> ev_promoted r \<noteq> None)"
proof -
  have "registry_all licensed s'" "registry_all earned s'"
    using licence.steps[OF assms(1)] merit.steps[OF assms(1)] by (simp_all add: registry_all_def assms(2))
  then have "licensed r" "earned r" using assms(3,4) by (auto simp: registry_all_def list_all_iff)
  then show ?thesis using assms(5) by (auto simp: licensed_def earned_def)
qed

definition demo_trial :: "evolution_record" where
  "demo_trial = (demo_behavior ''g'')\<lparr>ev_state := TrialState, ev_shadow_matches := 2\<rparr>"

text \<open>A registry that three steps produce: a candidate is admitted and matches twice.\<close>

definition trial_run :: evolution where
  "trial_run = mark_shadow_match [] ''g'' (mark_shadow_match [] ''g''
     (emit_lifecycle (demo_behavior ''g'') ''shadow'' (demo_evolution [demo_behavior ''g''])))"

lemma trial_run_reached: "evolution_step\<^sup>*\<^sup>* (demo_evolution []) trial_run"
proof -
  define s1 where "s1 = emit_lifecycle (demo_behavior ''g'') ''shadow'' (demo_evolution [demo_behavior ''g''])"
  have "trim ''guardrail.toml'' = ''guardrail.toml''" by (rule trim_printable) (simp_all add: visible_def)
  then have "admit_candidate (\<lambda>_. True) [] (demo_behavior ''g'') (demo_evolution []) = Inr s1"
    by (simp add: admit_candidate_def create_record_def validate_relative_file_def demo_behavior_def demo_evolution_def s1_def
        is_blank_def ensure_def starts_with_def)
  then have a: "evolution_step (demo_evolution []) s1"
    by (rule evolution_step.admitted[rotated]) (simp add: candidate_def demo_behavior_def)
  show ?thesis unfolding trial_run_def s1_def[symmetric]
    by (rule rtranclp.rtrancl_into_rtrancl, rule rtranclp.rtrancl_into_rtrancl,
      rule rtranclp.rtrancl_into_rtrancl[where b = "demo_evolution []"])
      (rule a evolution_step.matched rtranclp.rtrancl_refl)+
qed

lemma trial_run_record:
  "\<exists>x. ef_registry trial_run = Some [x] \<and> ev_id x = ''g'' \<and> ev_state x = TrialState \<and> ev_effect x = Effectful \<and> ev_authorized x"
  by (simp add: trial_run_def mark_shadow_match_def get_record_def mutate_record_def shadow_match_record_def append_history_def
      demo_behavior_def demo_evolution_def emit_lifecycle_def SHADOW_MATCHES_REQUIRED_def saturating_succ_def Let_def)

theorem generated_behavior_earned_witness:
  "\<exists>s' rs r. evolution_step\<^sup>*\<^sup>* (demo_evolution []) s' \<and> ef_registry s' = Some rs \<and> r \<in> set rs \<and>
     affects_runtime (ev_state r) \<and> last_turn (ev_history r) \<noteq> None"
proof -
  obtain x where x: "ef_registry trial_run = Some [x]" "ev_state x = TrialState" using trial_run_record by blast
  have "last_turn (ev_history x) \<noteq> None"
    using generated_behavior_earned[OF trial_run_reached _ x(1), of x] x(2) by (auto simp: demo_evolution_def)
  then show ?thesis using trial_run_reached x by (intro exI[of _ trial_run] exI[of _ "[x]"] exI[of _ x]) simp
qed

text \<open>
  A trial ends: a record on trial with fewer than two successes leaves the trial, by promotion, roll-back or
  retirement, within four uses, whatever the outcomes are.
\<close>

theorem trial_ends:
  assumes "ev_state r = TrialState" and "ev_successes r < TRIAL_SUCCESSES_REQUIRED" and "length deltas = 4"
  shows "\<exists>k\<le>4. ev_state (uses show_delta now (take k deltas) r) \<noteq> TrialState"
proof (rule ccontr)
  assume "\<not> ?thesis"
  then show False using on_trial_throughout[OF assms(2), of deltas show_delta now] assms(3) by auto
qed

theorem trial_ends_witness:
  "\<exists>k\<le>4. ev_state (uses (\<lambda>_. []) [] (take k [0, 0, 5, 0]) ((demo_behavior ''g'')\<lparr>ev_state := TrialState\<rparr>)) \<noteq> TrialState"
  by (rule trial_ends) (simp_all add: demo_behavior_def TRIAL_SUCCESSES_REQUIRED_def)

text \<open>
  C27. A verified failure suspends: after a turn with a negative outcome every generated behaviour the turn used is
  treated as in shadow by all rules and skills bound to it, in every session, and no other behaviour is affected.
\<close>

theorem failure_suspends_used_behaviors:
  assumes "delta < 0" and "ef_behaviors s = Some used" and "set (order used) = used"
  shows "(\<forall>b. binding_is_shadow (ef_registry (reinforce_session show_delta order now delta s)) i b) \<longleftrightarrow>
    i \<in> used \<or> (\<forall>b. binding_is_shadow (ef_registry s) i b)"
proof -
  have "suspended i (reinforce_session show_delta order now delta s) \<longleftrightarrow> i \<in> used \<or> suspended i (s\<lparr>ef_behaviors := Some {}\<rparr>)"
    using assms by (simp add: reinforce_session_def negative_many)
  then show ?thesis by (simp add: suspended_def)
qed

theorem failure_suspends_used_behaviors_witness:
  "binding_is_shadow (ef_registry (reinforce_session (\<lambda>_. []) (\<lambda>b. [''g'']) [] (-15) (demo_evolution [demo_trial]))) ''g'' False"
  using failure_suspends_used_behaviors[of "-15" "demo_evolution [demo_trial]" "{''g''}" "\<lambda>b. [''g'']" "\<lambda>_. []" "[]" "''g''"]
  by (simp add: demo_evolution_def)

end
