(* ===== verification/GuardCorrect.thy ===== *)
theory GuardCorrect
  imports Guardrails EvolutionCorrect ToolCorrect
begin

text \<open>
  What the rules of a project guarantee: which calls of a batch are denied, that a denied call never runs, whose rules
  may deny, and which calls a validator answers for.
\<close>

section \<open>Capabilities do not change while a batch is checked\<close>

definition capability_of :: "'r guard_env \<Rightarrow> 'r guard_state \<Rightarrow> string \<Rightarrow> string option" where
  "capability_of env st tool = fst (resolve_capability env tool st)"

definition lookup_of :: "'r guard_env \<Rightarrow> 'r guard_state \<Rightarrow> cap_lookup" where
  "lookup_of env st = (case gd_lookup st of Some l \<Rightarrow> l | None \<Rightarrow> build_cap_lookup (gv_capabilities env))"

lemma resolve_result:
  "resolve_capability env tool st = (capability_of env st tool, snd (resolve_capability env tool st))"
  by (simp add: capability_of_def)

lemma capability_lookup:
  "capability_of env st tool =
     (case gv_server_of env tool of
        None \<Rightarrow> None | Some server \<Rightarrow> lookup_capability (lookup_of env st) (gv_overlay env) server tool)"
  by (simp add: capability_of_def resolve_capability_def get_or_build_lookup_def lookup_of_def Let_def split: option.split)

lemma resolve_frame [simp]:
  "gd_rules (snd (resolve_capability env tool st)) = gd_rules st"
  "gd_log (snd (resolve_capability env tool st)) = gd_log st"
  "gd_cursors (snd (resolve_capability env tool st)) = gd_cursors st"
  "gd_evolution (snd (resolve_capability env tool st)) = gd_evolution st"
  "lookup_of env (snd (resolve_capability env tool st)) = lookup_of env st"
  by (simp_all add: resolve_capability_def get_or_build_lookup_def lookup_of_def Let_def split: option.split)

lemma marks_frame [simp]:
  "gd_rules (mark_shadows env ids st) = gd_rules st" "gd_log (mark_shadows env ids st) = gd_log st"
  "gd_cursors (mark_shadows env ids st) = gd_cursors st" "lookup_of env (mark_shadows env' ids st) = lookup_of env st"
  "gd_rules (mark_used b st) = gd_rules st" "gd_log (mark_used b st) = gd_log st"
  "gd_cursors (mark_used b st) = gd_cursors st" "lookup_of env (mark_used b st) = lookup_of env st"
  "gd_rules (record_allowed cap params st) = gd_rules st" "gd_log (record_allowed cap params st) = gd_log st @ [(cap, params)]"
  "gd_cursors (record_allowed cap params st) = gd_cursors st" "lookup_of env (record_allowed cap params st) = lookup_of env st"
  "gd_evolution (record_allowed cap params st) = gd_evolution st"
  by (simp_all add: mark_shadows_def mark_used_def record_allowed_def lookup_of_def split: option.split)

lemma shadow_steps: "evolution_step\<^sup>*\<^sup>* ev (fold (mark_shadow_match now) ids ev)"
proof (induction ids arbitrary: ev)
  case Nil
  then show ?case by simp
next
  case (Cons i ids)
  show ?case using converse_rtranclp_into_rtranclp[OF evolution_step.matched Cons.IH[of "mark_shadow_match now i ev"]] by simp
qed

lemma marks_steps:
  "evolution_step\<^sup>*\<^sup>* (gd_evolution st) (gd_evolution (mark_shadows env ids st))"
  "evolution_step\<^sup>*\<^sup>* (gd_evolution st) (gd_evolution (mark_used b st))"
  by (auto simp: mark_shadows_def mark_used_def shadow_steps intro: evolution_step.used split: option.split)

section \<open>One call\<close>

text \<open>The evaluation of the guards on a call in a state.\<close>

definition evaluation :: "'r guard_env \<Rightarrow> 'r guardrails \<Rightarrow> tool_call \<Rightarrow> 'r guard_state \<Rightarrow> guard_evaluation" where
  "evaluation env rules c st =
     evaluate_guards (gv_match env) (shadow_now st) rules (capability_of env st (ca_name c), ca_parameters c) (gd_log st)
       (set (gv_servers env))"

lemma no_guards: "gr_guards rules = [] \<Longrightarrow> ge_blocked (evaluate_guards m sh rules call log loaded) = None"
  by (simp add: evaluate_guards_def)

lemma shadow_now_resolve [simp]: "shadow_now (snd (resolve_capability env tool st)) = shadow_now st"
  by (simp add: shadow_now_def)

lemma check_call_result:
  assumes "check_call env rules c st = (msg, st')"
  shows "msg = map_option fst (ge_blocked (evaluation env rules c st)) \<and>
    gd_log st' = gd_log st @ (if msg = None then [(capability_of env st (ca_name c), ca_parameters c)] else []) \<and>
    lookup_of env st' = lookup_of env st \<and> gd_rules st' = gd_rules st \<and> gd_cursors st' = gd_cursors st \<and>
    evolution_step\<^sup>*\<^sup>* (gd_evolution st) (gd_evolution st')"
proof (cases "gr_guards rules = []")
  case True
  have "ge_blocked (evaluation env rules c st) = None" unfolding evaluation_def by (rule no_guards[OF True])
  with True assms show ?thesis unfolding check_call_def by (subst (asm) resolve_result) (auto simp: Let_def)
next
  case False
  let ?st = "snd (resolve_capability env (ca_name c) st)" and ?e = "evaluation env rules c st"
  let ?m = "mark_shadows env (ge_shadow_ids ?e) ?st"
  have r: "check_call env rules c st =
      (case ge_blocked ?e of
         Some (message, binding) \<Rightarrow> (Some message, mark_used binding ?m)
       | None \<Rightarrow> (None, record_allowed (capability_of env st (ca_name c)) (ca_parameters c) ?m))"
    unfolding check_call_def by (subst resolve_result) (simp add: False Let_def evaluation_def split: option.split)
  have s: "evolution_step\<^sup>*\<^sup>* (gd_evolution st) (gd_evolution ?m)" using marks_steps(1)[of ?st env "ge_shadow_ids ?e"] by simp
  then have "evolution_step\<^sup>*\<^sup>* (gd_evolution st) (gd_evolution (mark_used b ?m))" for b
    using marks_steps(2)[of ?m b] by (rule rtranclp_trans)
  with s r assms show ?thesis by (auto split: option.splits)
qed

section \<open>A batch\<close>

definition allowed_calls :: "tool_call list \<Rightarrow> string option list \<Rightarrow> tool_call list" where
  "allowed_calls calls blocks = map fst (filter (\<lambda>(c, b). b = None) (zip calls blocks))"

lemma allowed_calls_simps [simp]:
  "allowed_calls [] bs = []"
  "allowed_calls (c # cs) (b # bs) = (if b = None then c # allowed_calls cs bs else allowed_calls cs bs)"
  by (simp_all add: allowed_calls_def)

definition record_of :: "'r guard_env \<Rightarrow> 'r guard_state \<Rightarrow> tool_call \<Rightarrow> call_record" where
  "record_of env st c = (capability_of env st (ca_name c), ca_parameters c)"

lemma record_of_lookup: "lookup_of env st = lookup_of env st' \<Longrightarrow> record_of env st = record_of env st'"
  by (rule ext) (simp add: record_of_def capability_lookup split: option.split)

lemma check_calls_frame:
  assumes "check_calls env rules calls st = (blocks, st')"
  shows "length blocks = length calls \<and> gd_log st' = gd_log st @ map (record_of env st) (allowed_calls calls blocks) \<and>
    gd_rules st' = gd_rules st \<and> gd_cursors st' = gd_cursors st \<and> lookup_of env st' = lookup_of env st \<and>
    evolution_step\<^sup>*\<^sup>* (gd_evolution st) (gd_evolution st')"
  using assms
proof (induction calls arbitrary: st blocks st')
  case Nil
  then show ?case by simp
next
  case (Cons c cs)
  obtain msg st1 where 1: "check_call env rules c st = (msg, st1)" by force
  obtain msgs st2 where 2: "check_calls env rules cs st1 = (msgs, st2)" by force
  have b: "blocks = msg # msgs" "st' = st2" using Cons.prems 1 2 by simp_all
  note r = check_call_result[OF 1]
  have "record_of env st1 = record_of env st" using r by (intro record_of_lookup) simp
  then show ?case using Cons.IH[OF 2] r unfolding b by (auto simp: record_of_def intro: rtranclp_trans)
qed

text \<open>The state in which call \<open>i\<close> of a batch is checked: that after the check of the calls before it.\<close>

definition state_before :: "'r guard_env \<Rightarrow> tool_call list \<Rightarrow> nat \<Rightarrow> 'r guard_state \<Rightarrow> 'r guard_state" where
  "state_before env calls i st = snd (check_batch env (take i calls) st)"

definition rules_of :: "'r guard_state \<Rightarrow> 'r guardrails" where
  "rules_of st = (case gd_rules st of Some rules \<Rightarrow> rules | None \<Rightarrow> no_guardrails)"

lemma check_batch_calls: "check_batch env calls st = check_calls env (rules_of st) calls st"
  by (simp add: check_batch_def rules_of_def)

lemma check_calls_nth:
  assumes "check_calls env rules calls st = (blocks, st')" and "i < length calls"
  defines "sti \<equiv> snd (check_calls env rules (take i calls) st)"
  shows "blocks ! i = map_option fst (ge_blocked (evaluation env rules (calls ! i) sti)) \<and>
    gd_log sti = gd_log st @ map (record_of env st) (allowed_calls (take i calls) (take i blocks)) \<and>
    record_of env sti = record_of env st \<and> evolution_step\<^sup>*\<^sup>* (gd_evolution st) (gd_evolution sti)"
  using assms(1,2) unfolding sti_def
proof (induction calls arbitrary: st blocks st' i)
  case Nil
  then show ?case by simp
next
  case (Cons c cs)
  obtain msg st1 where 1: "check_call env rules c st = (msg, st1)" by force
  obtain msgs st2 where 2: "check_calls env rules cs st1 = (msgs, st2)" by force
  have b: "blocks = msg # msgs" using Cons.prems 1 2 by simp
  note r = check_call_result[OF 1]
  show ?case
  proof (cases i)
    case 0
    then show ?thesis using r b by simp
  next
    case (Suc j)
    have rec: "record_of env st1 = record_of env st" using r by (intro record_of_lookup) simp
    have "snd (check_calls env rules (take i (c # cs)) st) = snd (check_calls env rules (take j cs) st1)"
      by (simp add: Suc 1 split_beta)
    with Cons.IH[OF 2, of j] Cons.prems(2) r rec show ?thesis unfolding b Suc
      by (auto simp: record_of_def intro: rtranclp_trans)
  qed
qed

lemma state_before_nth:
  assumes "check_batch env calls st = (blocks, st')" and "i < length calls"
  shows "blocks ! i = map_option fst (ge_blocked (evaluation env (rules_of st) (calls ! i) (state_before env calls i st))) \<and>
    gd_log (state_before env calls i st) = gd_log st @ map (record_of env st) (allowed_calls (take i calls) (take i blocks)) \<and>
    record_of env (state_before env calls i st) = record_of env st \<and>
    evolution_step\<^sup>*\<^sup>* (gd_evolution st) (gd_evolution (state_before env calls i st))"
  using check_calls_nth[OF assms(1)[unfolded check_batch_calls] assms(2)] by (simp add: state_before_def check_batch_calls)

section \<open>Which guard denies\<close>

lemma evaluate_from_blocked:
  assumes "ge_blocked (evaluate_from m sh call log loaded gs ids) = Some (msg, b)"
  shows "\<exists>g\<in>set gs. guard_applies m g call log loaded \<and> cg_message g = msg \<and> cg_evolution g = b \<and> \<not> shadowed sh b"
  using assms by (induction gs arbitrary: ids) (auto split: if_splits)

lemma evaluate_from_plain:
  "\<forall>g\<in>set gs. cg_evolution g = None \<Longrightarrow>
     ge_blocked (evaluate_from m sh call log loaded gs ids) = ge_blocked (evaluate_from m sh' call log loaded gs ids)"
  by (induction gs arbitrary: ids) (auto simp: shadowed_def)

text \<open>What licenses the rule of a generated behavior in a state: its record there, and how it was compiled.\<close>

definition licensed_now :: "'r guard_state \<Rightarrow> evolution_binding \<Rightarrow> bool" where
  "licensed_now st b \<longleftrightarrow> \<not> eb_shadow b \<and>
     (\<exists>r. get_record (ef_registry (gd_evolution st)) (eb_id b) = Some r \<and>
        affects_runtime (ev_state r) \<and> (ev_effect r = Effectful \<longrightarrow> ev_authorized r))"

lemma unshadowed_licensed:
  assumes "\<not> shadowed (shadow_now st) (Some b)" and "registry_all licensed (gd_evolution st)"
  shows "licensed_now st b"
proof -
  obtain r where r: "get_record (ef_registry (gd_evolution st)) (eb_id b) = Some r" "affects_runtime (ev_state r)" "\<not> eb_shadow b"
    using assms(1) by (auto simp: shadowed_def shadow_now_def binding_is_shadow_def split: option.splits)
  then have "licensed r"
    using assms(2) by (auto simp: registry_all_def list_all_iff get_record_def find_Some_iff split: option.splits)
  with r show ?thesis by (auto simp: licensed_now_def licensed_def)
qed

lemma denied_by:
  assumes "check_batch env calls st = (blocks, st')" and "i < length calls" and "blocks ! i = Some msg"
    and "evolution_step\<^sup>*\<^sup>* ev (gd_evolution st)" and "ef_registry ev = Some []"
  shows "\<exists>g\<in>set (gr_guards (rules_of st)). cg_message g = msg \<and>
    guard_applies (gv_match env) g (record_of env st (calls ! i)) (gd_log (state_before env calls i st)) (set (gv_servers env)) \<and>
    (\<forall>b. cg_evolution g = Some b \<longrightarrow> licensed_now (state_before env calls i st) b)"
proof -
  let ?st = "state_before env calls i st"
  note n = state_before_nth[OF assms(1,2)]
  obtain b where b: "ge_blocked (evaluation env (rules_of st) (calls ! i) ?st) = Some (msg, b)"
    using n assms(3) by (cases "ge_blocked (evaluation env (rules_of st) (calls ! i) ?st)") auto
  obtain g where g: "g \<in> set (gr_guards (rules_of st))" "cg_message g = msg" "cg_evolution g = b" "\<not> shadowed (shadow_now ?st) b"
    "guard_applies (gv_match env) g (record_of env ?st (calls ! i)) (gd_log ?st) (set (gv_servers env))"
    using evaluate_from_blocked[OF b[unfolded evaluation_def evaluate_guards_def]] by (auto simp: record_of_def)
  have "evolution_step\<^sup>*\<^sup>* ev (gd_evolution ?st)" using assms(4) n by (meson rtranclp_trans)
  from licence.steps[OF this] have "registry_all licensed (gd_evolution ?st)" by (simp add: registry_all_def assms(5))
  with g n show ?thesis by (intro bexI[of _ g]) (auto intro: unshadowed_licensed)
qed

section \<open>A denied call never runs\<close>

lemma spawn_allowed:
  assumes "length blocks = length calls" and "\<forall>c\<in>set (allowed_calls calls blocks). e1 c = e2 c"
  shows "map2 (spawn_call e1) calls blocks = map2 (spawn_call e2) calls blocks"
  using assms by (induction calls blocks rule: list_induct2') (auto simp: spawn_call_def split: option.splits if_splits)

lemma fire_hooks_frame:
  "fire_hooks env hs call cap res st = (runs, st') \<Longrightarrow> gd_log st' = gd_log st \<and> gd_cursors st' = gd_cursors st"
proof (induction hs arbitrary: st runs)
  case Nil
  then show ?case by simp
next
  case (Cons h hs)
  obtain runs1 st1 where "fire_hooks env hs call cap res (mark_used (ck_evolution h) st) = (runs1, st1)" by force
  with Cons show ?case by (auto split: if_splits)
qed

lemma collect_hooks_frame:
  "collect_hooks env hs xs st = (runs, st') \<Longrightarrow> gd_log st' = gd_log st \<and> gd_cursors st' = gd_cursors st"
proof (induction xs arbitrary: st runs)
  case Nil
  then show ?case by simp
next
  case (Cons x xs)
  obtain call res b where x: "x = (call, res, b)" by (cases x)
  obtain cap st1 where 1: "resolve_capability env (ca_name call) st = (cap, st1)" by force
  obtain r2 st2 where 2: "fire_hooks env hs call cap res st1 = (r2, st2)" by force
  obtain r3 st3 where 3: "collect_hooks env hs xs st2 = (r3, st3)" by force
  have "gd_log st1 = gd_log st" "gd_cursors st1 = gd_cursors st" using resolve_frame[of env "ca_name call" st] 1 by simp_all
  then show ?case using Cons x 1 2 3 fire_hooks_frame[OF 2] by (auto split: if_splits)
qed

lemma run_hooks_frame: "gd_log (fst (run_hooks env session calls results blocked st ib)) = gd_log st"
proof -
  obtain runs st' where "collect_hooks env (gr_hooks (the (gd_rules st)))
      (zip calls (zip results (blocked @ replicate (length results - length blocked) False))) st = (runs, st')" by force
  with collect_hooks_frame[OF this] show ?thesis by (auto simp: run_hooks_def split: option.split)
qed

lemma guarded_log:
  assumes "check_batch env calls st = (blocks, st1)" and "guarded_batch env senv session e calls st ts ib = (rs, st', ts', ib')"
  shows "gd_log st' = gd_log st @ map (record_of env st) (allowed_calls calls blocks)"
proof -
  obtain rs1 ts1 where r: "settle_batch senv calls (map2 (spawn_call e) calls blocks) ts = (rs1, ts1)" by force
  obtain st2 ib2 where h: "run_hooks env session calls rs1 (map (\<lambda>b. b \<noteq> None) blocks) st1 ib = (st2, ib2)" by force
  have "st' = st2" using assms r h by (simp add: guarded_batch_def)
  moreover have "gd_log st2 = gd_log st1" using run_hooks_frame[of env session calls rs1 "map (\<lambda>b. b \<noteq> None) blocks" st1 ib] h by simp
  ultimately show ?thesis using check_calls_frame[OF assms(1)[unfolded check_batch_calls]] by simp
qed

section \<open>Validators\<close>

lemma select_frame:
  "select_validators env role answer vs st = (runs, st') \<Longrightarrow>
     gd_log st' = gd_log st \<and> gd_cursors st' = gd_cursors st \<and> gd_rules st' = gd_rules st"
proof (induction vs arbitrary: st runs st')
  case Nil
  then show ?case by simp
next
  case (Cons v vs)
  obtain r1 s1 where "select_validators env role answer vs (mark_used (cv_evolution v) st) = (r1, s1)" by force
  moreover obtain r2 s2 where "select_validators env role answer vs st = (r2, s2)" by force
  ultimately show ?case using Cons by (auto split: if_splits option.splits)
qed

lemma since_frame: "gd_log st' = gd_log st \<Longrightarrow> gd_cursors st' = gd_cursors st \<Longrightarrow> since_last_run v st' = since_last_run v st"
  by (simp add: since_last_run_def validator_cursor_def)

text \<open>What a run of a validator says of the calls it is for.\<close>

definition run_of :: "'r guard_env \<Rightarrow> 'r compiled_validator \<Rightarrow> call_record list \<Rightarrow> validator_run" where
  "run_of env v calls = \<lparr>vr_name = cv_name v, vr_script = cv_script v, vr_triggered_by = triggered_by (gv_match env) v calls\<rparr>"

lemma selected_runs:
  "select_validators env role answer vs st = (runs, st') \<Longrightarrow> r \<in> set runs \<Longrightarrow>
     \<exists>v\<in>set vs. r = run_of env v (since_last_run v st) \<and> when_satisfied (gv_match env) v (since_last_run v st)"
proof (induction vs arbitrary: st runs st')
  case Nil
  then show ?case by simp
next
  case (Cons v vs)
  obtain r1 s1 where 1: "select_validators env role answer vs (mark_used (cv_evolution v) st) = (r1, s1)" by force
  obtain r2 s2 where 2: "select_validators env role answer vs st = (r2, s2)" by force
  have s: "since_last_run w (mark_used b st) = since_last_run w st" "since_last_run w (mark_shadows env ids st) = since_last_run w st"
    for w b ids by (rule since_frame; simp)+
  show ?case using Cons.prems Cons.IH[OF 1] Cons.IH[OF 2] Cons.IH[of "mark_shadows env _ st"]
    by (auto simp: 1 2 s run_of_def split: if_splits option.splits)
qed

lemma triggered_nonempty:
  assumes "when_satisfied m v calls" and "cv_when_used v \<noteq> []"
  shows "triggered_by m v calls \<noteq> []"
proof -
  obtain t where t: "t \<in> set (cv_when_used v)" using assms(2) by (cases "cv_when_used v") auto
  then obtain c where "c \<in> set calls" "target_matches m t c"
    using assms(1) by (auto simp: when_satisfied_def history_satisfied_def list_all_iff list_ex_iff)
  with t have "c \<in> set (triggered_by m v calls)" by (auto simp: triggered_by_def list_ex_iff)
  then show ?thesis by auto
qed

definition validators_run ::
  "'r guard_env \<Rightarrow> string \<Rightarrow> string \<Rightarrow> 'r guard_state \<Rightarrow> validator_run list" where
  "validators_run env role answer st = fst (select_validators env role answer (gr_validators (rules_of st)) st)"

lemma cursor_fold:
  "gd_cursors (fold (set_validator_cursor n) names st) = (\<lambda>x. if x \<in> set names then Some n else gd_cursors st x)"
  by (induction names arbitrary: st) (auto simp: set_validator_cursor_def)

lemma log_fold [simp]: "gd_log (fold (set_validator_cursor n) names st) = gd_log st"
  by (induction names arbitrary: st) (simp_all add: set_validator_cursor_def)

lemma validators_state:
  "gd_log (fst (run_turn_validators env session role answer st ib)) = gd_log st"
  "gd_cursors (fst (run_turn_validators env session role answer st ib)) =
     (\<lambda>x. if x \<in> vr_name ` set (validators_run env role answer st) then Some (length (gd_log st)) else gd_cursors st x)"
proof -
  obtain runs st' where s: "select_validators env role answer (gr_validators (rules_of st)) st = (runs, st')" by force
  note f = select_frame[OF s]
  show "gd_log (fst (run_turn_validators env session role answer st ib)) = gd_log st"
    "gd_cursors (fst (run_turn_validators env session role answer st ib)) =
       (\<lambda>x. if x \<in> vr_name ` set (validators_run env role answer st) then Some (length (gd_log st)) else gd_cursors st x)"
    using s f by (auto simp: run_turn_validators_def validators_run_def rules_of_def no_guardrails_def cursor_fold split: option.splits)
qed

section \<open>Gaps\<close>

text \<open>A generated validator without an expression runs although it is in shadow.\<close>

lemma shadow_validator_runs:
  assumes "cv_match_regex v = None" and "role_matches (cv_roles v) role" and "when_satisfied (gv_match env) v (since_last_run v st)"
  shows "run_of env v (since_last_run v st) \<in> set (fst (select_validators env role answer (v # vs) st))"
  using assms by (simp add: run_of_def split: prod.split)

text \<open>
  Two validators of one name, which the parser refuses in a file but generated rules may add, share a cursor: the run of
  one hides the calls from the other.
\<close>

lemma shared_cursor_hides_calls:
  assumes "cv_name v = vr_name r" and "r \<in> set (validators_run env role answer st)"
  shows "since_last_run v (fst (run_turn_validators env session role answer st ib)) = []"
  using assms by (auto simp: since_last_run_def validator_cursor_def validators_state)

text \<open>\<open>has\<close> is tested against the names of the servers: the capability of the very call does not satisfy it.\<close>

lemma has_tests_server_names:
  assumes "c \<in> set (cg_has g)" and "c \<notin> set (gv_servers env)"
  shows "\<not> guard_applies m g call log (set (gv_servers env))"
  using assms by (auto simp: guard_applies_def list_all_iff)

lemma find_position: "find p xs = map_option (nth xs) (position p xs)"
  by (induction xs) (auto simp: option.map_comp comp_def)

text \<open>
  A rule that was compiled live and rolled back since is in force again in the same session after two matches.
\<close>

lemma rolled_back_rule_returns:
  assumes "get_record (ef_registry ev) i = Some r" and "ev_state r = ShadowState" and "ev_shadow_matches r = 0"
    and "ev_effect r \<noteq> Effectful \<or> ev_authorized r"
  shows "binding_is_shadow (ef_registry ev) i False \<and>
    \<not> binding_is_shadow (ef_registry (mark_shadow_match now i (mark_shadow_match now i ev))) i False"
proof -
  have mark: "get_record (ef_registry (mark_shadow_match now i e)) i = Some ((shadow_match_record now x)\<lparr>ev_updated := now\<rparr>)"
    if g: "get_record (ef_registry e) i = Some x" and h: "ev_state x = ShadowState" for e x
  proof -
    obtain rs k where rs: "ef_registry e = Some rs" and k: "position (\<lambda>r. ev_id r = i) rs = Some k" and "x = rs ! k"
      using g by (auto simp: get_record_def find_position split: option.splits)
    obtain z rs' where m: "mutate_record now i (\<lambda>r. Inr (shadow_match_record now r)) (ef_registry e) = Inr (z, rs')"
      "z = (shadow_match_record now x)\<lparr>ev_updated := now\<rparr>"
      using rs k \<open>x = rs ! k\<close> by (simp add: mutate_record_def Let_def)
    have "get_record (Some rs') i = Some z" using get_mutated[OF m(1), of i] by simp
    then show ?thesis using g h m by (simp add: mark_shadow_match_def Let_def emit_lifecycle_def)
  qed
  let ?r1 = "(shadow_match_record now r)\<lparr>ev_updated := now\<rparr>"
  have s1: "ev_state ?r1 = ShadowState" using assms(2,3)
    by (simp add: shadow_match_record_def append_history_def Let_def SHADOW_MATCHES_REQUIRED_def saturating_succ_def
        word_le_nat_alt)
  have "get_record (ef_registry (mark_shadow_match now i (mark_shadow_match now i ev))) i =
      Some ((shadow_match_record now ?r1)\<lparr>ev_updated := now\<rparr>)"
    using mark[OF mark[OF assms(1,2)] s1] by simp
  moreover have "ev_state (shadow_match_record now ?r1) = TrialState" using assms(2-4)
    by (auto simp: shadow_match_record_def append_history_def Let_def SHADOW_MATCHES_REQUIRED_def saturating_succ_def)
  ultimately show ?thesis using assms(1,2) by (simp add: binding_is_shadow_def)
qed

section \<open>Targets\<close>

text \<open>A target as it is written in the file; the expression is its source.\<close>

definition show_target :: "string target \<Rightarrow> string" where
  "show_target t =
     (case tg_regex t of
        None \<Rightarrow> tg_capability t
      | Some re \<Rightarrow> tg_capability t @ ''('' @ (case tg_arg_name t of Some a \<Rightarrow> a @ ''='' @ re | None \<Rightarrow> re) @ '')'')"

text \<open>A capability with visible ends and no parenthesis, a word as the argument, no expression that reads as one.\<close>

definition plain_target :: "string target \<Rightarrow> bool" where
  "plain_target t \<longleftrightarrow>
     tg_capability t \<noteq> [] \<and> visible (hd (tg_capability t)) \<and> visible (last (tg_capability t)) \<and>
     CHR ''('' \<notin> set (tg_capability t) \<and>
     (case tg_arg_name t of
        Some a \<Rightarrow> a \<noteq> [] \<and> list_all word_char a \<and> tg_regex t \<noteq> None
      | None \<Rightarrow> (case tg_regex t of Some re \<Rightarrow> fst (split_arg re) = None | None \<Rightarrow> True))"

lemma position_after:
  assumes "\<not> list_ex p xs" and "p y"
  shows "position p (xs @ y # ys) = Some (length xs)"
  using assms by (induction xs) auto

lemma split_arg_word:
  assumes "a \<noteq> []" and "list_all word_char a"
  shows "split_arg (a @ ''='' @ src) = (Some a, src)"
proof -
  have "\<not> list_ex (\<lambda>c. c = CHR ''='') a" using assms(2) by (auto simp: list_ex_iff list_all_iff word_char_def Let_def)
  then have "position (\<lambda>c. c = CHR ''='') (a @ CHR ''='' # src) = Some (length a)" by (rule position_after) simp
  then show ?thesis using assms by (simp add: split_arg_def split_once_def)
qed

lemma split_arg_none: "fst (split_arg src) = None \<Longrightarrow> split_arg src = (None, src)"
  by (auto simp: split_arg_def split: option.splits if_splits)

lemma parse_call_target:
  assumes "cap \<noteq> []" and "visible (hd cap)" and "visible (last cap)" and "CHR ''('' \<notin> set cap"
    and "split_arg inner = (arg, src)"
  shows "parse_target Inr (cap @ ''('' @ inner @ '')'') = Inr \<lparr>tg_capability = cap, tg_arg_name = arg, tg_regex = Some src\<rparr>"
proof -
  let ?s = "cap @ ''('' @ inner @ '')''"
  have t: "trim ?s = ?s" by (rule trim_printable) (use assms(1,2) in \<open>auto simp: visible_def\<close>)
  have p: "position (\<lambda>c. c = CHR ''('') ?s = Some (length cap)"
    unfolding append_Cons append_Nil by (rule position_after) (use assms(4) in \<open>auto simp: list_ex_iff\<close>)
  have e: "ends_with ?s '')''" by (simp add: ends_with_def suffix_def)
  have i: "take (length ?s - 1 - (length cap + 1)) (drop (length cap + 1) ?s) = inner" by simp
  have c: "trim (take (length cap) ?s) = cap" using trim_printable[OF assms(1-3)] by simp
  show ?thesis unfolding parse_target_def t Let_def p e i c assms(5)
    by (simp only: e i c assms(1,5) if_False if_True option.case not_True_eq_False prod.case) simp
qed

lemma parse_name_target:
  assumes "cap \<noteq> []" and "visible (hd cap)" and "visible (last cap)" and "CHR ''('' \<notin> set cap"
  shows "parse_target Inr cap = Inr \<lparr>tg_capability = cap, tg_arg_name = None, tg_regex = None\<rparr>"
proof -
  have "position (\<lambda>c. c = CHR ''('') cap = None" using assms(4) by (auto simp: position_None)
  then show ?thesis using assms(1) by (simp add: parse_target_def trim_printable[OF assms(1-3)])
qed

text \<open>The names of the pipes and validators of an accepted file are distinct and not blank.\<close>

lemma parse_pipes_names:
  "parse_pipes compile names ps = Inr cs \<Longrightarrow>
     distinct (map cp_name cs) \<and> set (map cp_name cs) \<inter> names = {} \<and> (\<forall>c\<in>set cs. \<not> is_blank (cp_name c) \<and> cp_evolution c = None)"
proof (induction ps arbitrary: names cs)
  case Nil
  then show ?case by simp
next
  case (Cons p ps)
  then obtain c rest where r: "parse_pipes compile (insert (rp_name p) names) ps = Inr rest" "cs = c # rest"
    "cp_name c = rp_name p" "\<not> is_blank (rp_name p)" "rp_name p \<notin> names" "cp_evolution c = None"
    by (auto simp: ok_simps)
  from Cons.IH[OF r(1)] r(2-) show ?case by auto
qed

lemma parse_validators_names:
  "parse_validators compile names vs = Inr cs \<Longrightarrow>
     distinct (map cv_name cs) \<and> set (map cv_name cs) \<inter> names = {} \<and> (\<forall>c\<in>set cs. \<not> is_blank (cv_name c) \<and> cv_evolution c = None)"
proof (induction vs arbitrary: names cs)
  case Nil
  then show ?case by simp
next
  case (Cons v vs)
  then obtain c rest where r: "parse_validators compile (insert (rv_name v) names) vs = Inr rest" "cs = c # rest"
    "cv_name c = rv_name v" "\<not> is_blank (rv_name v)" "rv_name v \<notin> names" "cv_evolution c = None"
    by (auto simp: ok_simps)
  from Cons.IH[OF r(1)] r(2-) show ?case by auto
qed

section \<open>Properties\<close>

definition demo_matcher :: "string matcher" where
  "demo_matcher = \<lparr>mt_is_match = (\<lambda>re s. re = s), mt_print = (\<lambda>_. [])\<rparr>"

definition demo_guards :: "string guard_env" where
  "demo_guards = \<lparr>gv_match = demo_matcher, gv_now = [], gv_servers = [''core''], gv_server_of = (\<lambda>_. Some ''core''),
     gv_capabilities = Some [(''shell'', [''core:*''])], gv_overlay = [], gv_workdir = ''/w'', gv_run = (\<lambda>_ _ _. TimedOut)\<rparr>"

definition shell_target :: "string target" where
  "shell_target = \<lparr>tg_capability = ''shell'', tg_arg_name = None, tg_regex = None\<rparr>"

text \<open>A guard that lets one shell call through.\<close>

definition once_guard :: "string compiled_guard" where
  "once_guard = \<lparr>cg_trigger = shell_target, cg_has = [], cg_when_used = [shell_target], cg_when_unused = [],
     cg_message = ''once'', cg_evolution = None\<rparr>"

definition demo_rules :: "string guardrails" where
  "demo_rules = \<lparr>gr_pipes = [], gr_guards = [once_guard], gr_hooks = [],
     gr_validators = [\<lparr>cv_name = ''v'', cv_match_regex = None, cv_when_used = [shell_target], cv_when_unused = [],
       cv_roles = [], cv_script = ''s'', cv_evolution = None\<rparr>]\<rparr>"

definition guarded_state :: "string guard_state" where
  "guarded_state = \<lparr>gd_rules = Some demo_rules, gd_log = [], gd_lookup = None, gd_cursors = Map.empty,
     gd_pipe_runs = Map.empty, gd_messages = 0,
     gd_evolution = \<lparr>ef_registry = Some [], ef_skills = None, ef_behaviors = None, ef_lifecycle = []\<rparr>\<rparr>"

definition guarded_call :: "string \<Rightarrow> tool_call" where
  "guarded_call i = \<lparr>ca_id = i, ca_name = ''shell'', ca_parameters = JNull\<rparr>"

lemmas guard_demo = check_batch_def check_call_def demo_guards_def demo_rules_def guarded_state_def guarded_call_def once_guard_def
  shell_target_def demo_matcher_def resolve_capability_def get_or_build_lookup_def build_cap_lookup_def add_entry_def
  split_once_def lookup_capability_def evaluate_guards_def guard_applies_def target_matches_def history_satisfied_def
  mark_shadows_def record_allowed_def shadowed_def mark_used_def

lemma demo_state:
  "rules_of guarded_state = demo_rules" "record_of demo_guards guarded_state (guarded_call i) = (Some ''shell'', JNull)"
  "gd_log guarded_state = []"
  by (simp_all add: rules_of_def record_of_def capability_of_def guard_demo Let_def)

lemma demo_batch:
  "check_batch demo_guards [guarded_call ''a'', guarded_call ''b''] guarded_state =
     ([None, Some ''once''], snd (check_batch demo_guards [guarded_call ''a'', guarded_call ''b''] guarded_state))"
  by (simp add: guard_demo Let_def)

text \<open>
  C23. The guards of a project decide a batch in order: call \<open>i\<close> is denied exactly when a guard fires on it against the log
  of the session continued by the calls of the batch before it that were allowed, and not by the denied ones.
\<close>

theorem batch_decided_in_order:
  assumes "\<forall>g\<in>set (gr_guards (rules_of st)). cg_evolution g = None"
    and "check_batch env calls st = (blocks, st')" and "i < length calls"
  shows "blocks ! i = check_guards (gv_match env) (\<lambda>_ _. False) (rules_of st) (record_of env st (calls ! i))
    (gd_log st @ map (record_of env st) (allowed_calls (take i calls) (take i blocks))) (set (gv_servers env))"
proof -
  let ?sti = "state_before env calls i st"
  have sti: "blocks ! i = map_option fst (ge_blocked (evaluation env (rules_of st) (calls ! i) ?sti))"
    "gd_log ?sti = gd_log st @ map (record_of env st) (allowed_calls (take i calls) (take i blocks))"
    "record_of env ?sti = record_of env st"
    using state_before_nth[OF assms(2,3)] by simp_all
  have "record_of env ?sti (calls ! i) = record_of env st (calls ! i)" using sti(3) by simp
  then show ?thesis unfolding sti(1) evaluation_def check_guards_def evaluate_guards_def sti(2)
    by (simp add: record_of_def) (rule arg_cong[where f = "map_option fst"], rule evaluate_from_plain[OF assms(1)])
qed

theorem batch_decided_in_order_witness:
  "check_guards demo_matcher (\<lambda>_ _. False) demo_rules (Some ''shell'', JNull) [(Some ''shell'', JNull)] {''core''} = Some ''once''"
proof -
  have g: "\<forall>g\<in>set (gr_guards (rules_of guarded_state)). cg_evolution g = None"
    by (simp add: demo_state demo_rules_def once_guard_def)
  show ?thesis using batch_decided_in_order[OF g demo_batch, of 1]
    by (simp add: demo_state) (simp add: demo_guards_def)
qed

text \<open>
  C24. A denied call never runs and leaves no trace in the log: whatever the tools would do on the denied calls of a batch,
  the results, the state and the inbox after it are the same, and the log grows by exactly the allowed calls, in order.
\<close>

theorem denied_calls_never_run:
  assumes "check_batch env calls st = (blocks, st1)" and "\<forall>c\<in>set (allowed_calls calls blocks). e1 c = e2 c"
    and "guarded_batch env senv session e1 calls st ts ib = (rs, st', ts', ib')"
  shows "guarded_batch env senv session e2 calls st ts ib = (rs, st', ts', ib') \<and>
    gd_log st' = gd_log st @ map (record_of env st) (allowed_calls calls blocks)"
proof -
  have "length blocks = length calls" using check_calls_frame[OF assms(1)[unfolded check_batch_calls]] by simp
  from spawn_allowed[OF this assms(2)] have "guarded_batch env senv session e2 calls st ts ib =
      guarded_batch env senv session e1 calls st ts ib" unfolding guarded_batch_def assms(1) by (simp only: Let_def prod.case)
  with guarded_log[OF assms(1,3)] assms(3) show ?thesis by simp
qed

theorem denied_calls_never_run_witness:
  "guarded_batch demo_guards demo_settle ''s'' (\<lambda>c. ToolFailed (ca_id c)) [guarded_call ''a'', guarded_call ''b''] guarded_state
     (fresh_tools 3) Map.empty =
   guarded_batch demo_guards demo_settle ''s'' (\<lambda>c. ToolFailed ''a'') [guarded_call ''a'', guarded_call ''b''] guarded_state
     (fresh_tools 3) Map.empty"
proof -
  obtain rs st' ts' ib' where g: "guarded_batch demo_guards demo_settle ''s'' (\<lambda>c. ToolFailed (ca_id c))
      [guarded_call ''a'', guarded_call ''b''] guarded_state (fresh_tools 3) Map.empty = (rs, st', ts', ib')"
    by (metis prod_cases4)
  from denied_calls_never_run[OF demo_batch _ g, of "\<lambda>c. ToolFailed ''a''"] show ?thesis unfolding g by (simp add: guarded_call_def)
qed

text \<open>
  C25. Only rules that may deny do: a call is denied by the message of a guard that fires on it against the log as it was
  when the call was checked, and if that guard was generated, it was not compiled in shadow and, in the registry as it was
  when the call was checked, its record is on trial or active, and authorized if effectful. The marks that the earlier calls
  of the batch left are part of that registry; one that has been taken out of service denies nothing.
\<close>

theorem only_licensed_guards_deny:
  assumes "check_batch env calls st = (blocks, st')" and "i < length calls" and "blocks ! i = Some msg"
    and "evolution_step\<^sup>*\<^sup>* ev (gd_evolution st)" and "ef_registry ev = Some []"
  shows "\<exists>g\<in>set (gr_guards (rules_of st)). cg_message g = msg \<and>
    guard_applies (gv_match env) g (record_of env st (calls ! i)) (gd_log (state_before env calls i st)) (set (gv_servers env)) \<and>
    (\<forall>b. cg_evolution g = Some b \<longrightarrow> licensed_now (state_before env calls i st) b)"
  using assms by (rule denied_by)

text \<open>A generated guard that denies every shell call, in a session whose registry has it on trial.\<close>

definition generated_guard :: "string compiled_guard" where
  "generated_guard = \<lparr>cg_trigger = shell_target, cg_has = [], cg_when_used = [], cg_when_unused = [],
     cg_message = ''never'', cg_evolution = Some \<lparr>eb_id = ''g'', eb_shadow = False\<rparr>\<rparr>"

definition trial_state :: "string guard_state" where
  "trial_state = guarded_state\<lparr>gd_rules := Some (demo_rules\<lparr>gr_guards := [generated_guard]\<rparr>), gd_evolution := trial_run\<rparr>"

lemma trial_batch:
  "check_batch demo_guards [guarded_call ''a''] trial_state =
     ([Some ''never''], snd (check_batch demo_guards [guarded_call ''a''] trial_state))"
proof -
  obtain x where x: "ef_registry trial_run = Some [x]" "ev_id x = ''g''" "ev_state x = TrialState"
    using trial_run_record by blast
  then have "\<not> binding_is_shadow (ef_registry trial_run) ''g'' False"
    by (simp add: binding_is_shadow_def get_record_def)
  then show ?thesis
    by (simp add: guard_demo trial_state_def generated_guard_def shadow_now_def Let_def)
qed

theorem only_licensed_guards_deny_witness:
  "licensed_now trial_state \<lparr>eb_id = ''g'', eb_shadow = False\<rparr>"
  using only_licensed_guards_deny[OF trial_batch, of 0 "''never''" "demo_evolution []"] trial_run_reached
  by (simp add: trial_state_def rules_of_def demo_rules_def generated_guard_def demo_evolution_def state_before_def
      check_batch_def)

text \<open>
  A validator answers for new calls only: once it ran in a turn, the calls a later run of it names as its trigger are
  calls logged since, and a validator that asks for a use is triggered by at least one of them.
\<close>

theorem validator_sees_new_calls:
  assumes "run_turn_validators env session role answer st ib = (st1, ib1)"
    and "name \<in> vr_name ` set (validators_run env role answer st)"
    and "gd_log st2 = gd_log st1 @ new" and "gd_cursors st2 name = gd_cursors st1 name"
    and "r \<in> set (validators_run env' role' answer' st2)" and "vr_name r = name"
    and "\<forall>v\<in>set (gr_validators (rules_of st2)). cv_name v = name \<longrightarrow> cv_when_used v \<noteq> []"
  shows "set (vr_triggered_by r) \<subseteq> set new \<and> vr_triggered_by r \<noteq> []"
proof -
  obtain v where v: "v \<in> set (gr_validators (rules_of st2))" "r = run_of env' v (since_last_run v st2)"
    "when_satisfied (gv_match env') v (since_last_run v st2)"
    using assms(5) selected_runs[of env' role' answer' "gr_validators (rules_of st2)" st2] unfolding validators_run_def
    by (metis prod.collapse)
  have n: "cv_name v = name" using v(2) assms(6) by (simp add: run_of_def)
  have "gd_log st1 = gd_log st" "gd_cursors st1 name = Some (length (gd_log st))"
    using assms(1,2) validators_state[of env session role answer st ib] by auto
  then have s: "since_last_run v st2 = new" using assms(3,4) n by (simp add: since_last_run_def validator_cursor_def)
  show ?thesis using v triggered_nonempty[OF v(3)] assms(7) n
    by (auto simp: s run_of_def triggered_by_def)
qed

definition one_call_state :: "string guard_state" where
  "one_call_state = guarded_state\<lparr>gd_log := [(Some ''shell'', JNull)]\<rparr>"

lemma demo_validators:
  "validators_run demo_guards [] [] (guarded_state\<lparr>gd_log := cs, gd_cursors := m\<rparr>) =
     (let calls = drop (min (case m ''v'' of Some n \<Rightarrow> n | None \<Rightarrow> 0) (length cs)) cs
      in if list_ex (target_matches demo_matcher shell_target) calls
         then [\<lparr>vr_name = ''v'', vr_script = ''s'', vr_triggered_by = filter (target_matches demo_matcher shell_target) calls\<rparr>]
         else [])"
  by (simp add: validators_run_def rules_of_def guarded_state_def demo_rules_def demo_guards_def role_matches_def when_satisfied_def
      history_satisfied_def since_last_run_def validator_cursor_def triggered_by_def Let_def)

theorem validator_sees_new_calls_witness:
  "\<exists>st2 r. r \<in> set (validators_run demo_guards [] [] st2) \<and> length (gd_log st2) = 2 \<and>
     set (vr_triggered_by r) \<subseteq> {(Some ''shell'', JStr ''x'')} \<and> vr_triggered_by r \<noteq> []"
proof -
  let ?st1 = "fst (run_turn_validators demo_guards ''s'' [] [] one_call_state Map.empty)"
  let ?ib = "snd (run_turn_validators demo_guards ''s'' [] [] one_call_state Map.empty)"
  have m: "target_matches demo_matcher shell_target (Some ''shell'', x)" for x
    by (simp add: target_matches_def shell_target_def)
  have r1: "vr_name ` set (validators_run demo_guards [] [] one_call_state) = {''v''}"
    using demo_validators[where cs = "[(Some ''shell'', JNull)]" and m = Map.empty] m by (simp add: one_call_state_def guarded_state_def)
  note s = validators_state[of demo_guards "''s''" "[]" "[]" one_call_state Map.empty]
  define st2 where "st2 = guarded_state\<lparr>gd_log := [(Some ''shell'', JNull), (Some ''shell'', JStr ''x'')], gd_cursors := [''v'' \<mapsto> 1]\<rparr>"
  have r2: "validators_run demo_guards [] [] st2 =
      [\<lparr>vr_name = ''v'', vr_script = ''s'', vr_triggered_by = [(Some ''shell'', JStr ''x'')]\<rparr>]"
    unfolding st2_def demo_validators by (simp add: m)
  have "set (vr_triggered_by (hd (validators_run demo_guards [] [] st2))) \<subseteq> set [(Some ''shell'', JStr ''x'')] \<and>
      vr_triggered_by (hd (validators_run demo_guards [] [] st2)) \<noteq> []"
  proof (rule validator_sees_new_calls)
    show "run_turn_validators demo_guards ''s'' [] [] one_call_state Map.empty = (?st1, ?ib)" by simp
    show "''v'' \<in> vr_name ` set (validators_run demo_guards [] [] one_call_state)" by (simp add: r1)
    show "gd_log st2 = gd_log ?st1 @ [(Some ''shell'', JStr ''x'')]" by (simp add: s(1)) (simp add: st2_def one_call_state_def)
    show "gd_cursors st2 ''v'' = gd_cursors ?st1 ''v''" by (simp add: s r1) (simp add: st2_def one_call_state_def)
    show "\<forall>v\<in>set (gr_validators (rules_of st2)). cv_name v = ''v'' \<longrightarrow> cv_when_used v \<noteq> []"
      by (simp add: st2_def rules_of_def guarded_state_def demo_rules_def)
    show "hd (validators_run demo_guards [] [] st2) \<in> set (validators_run demo_guards [] [] st2)" by (simp add: r2)
  qed (simp add: r2)
  then show ?thesis using r2 by (intro exI[of _ st2] exI[of _ "hd (validators_run demo_guards [] [] st2)"]) (simp add: st2_def)
qed

text \<open>
  A written target is read back: a target printed in one of the three forms of the file is parsed to itself.
\<close>

theorem target_roundtrip:
  assumes "plain_target t"
  shows "parse_target Inr (show_target t) = Inr t"
proof (cases "tg_regex t")
  case None
  then have "tg_arg_name t = None" using assms by (auto simp: plain_target_def split: option.splits)
  with None assms show ?thesis
    by (cases t) (auto simp: show_target_def plain_target_def intro!: parse_name_target)
next
  case (Some re)
  have "split_arg (case tg_arg_name t of Some a \<Rightarrow> a @ ''='' @ re | None \<Rightarrow> re) = (tg_arg_name t, re)"
    using assms Some split_arg_none[of re]
    by (cases "tg_arg_name t") (auto simp: plain_target_def split_arg_word[unfolded append_Cons append_Nil])
  from parse_call_target[OF _ _ _ _ this, of "tg_capability t"] assms Some show ?thesis
    by (cases t) (auto simp: show_target_def plain_target_def)
qed

theorem target_roundtrip_witness:
  "parse_target Inr ''shell(command=^rm)'' = Inr \<lparr>tg_capability = ''shell'', tg_arg_name = Some ''command'', tg_regex = Some ''^rm''\<rparr>"
  using target_roundtrip[of "\<lparr>tg_capability = ''shell'', tg_arg_name = Some ''command'', tg_regex = Some ''^rm''\<rparr>"]
  by (simp add: show_target_def plain_target_def visible_def word_char_def Let_def)

end
