(* ===== verification/CondenseCorrect.thy ===== *)
theory CondenseCorrect
  imports Condense
begin

text \<open>
  What a condensed result is: the lines of the original, in order and unchanged, with the lengths of the gaps, and nothing of
  what the model wrote.
\<close>

section \<open>Sets of lines\<close>

definition in_ranges :: "line_range list \<Rightarrow> nat \<Rightarrow> bool" where
  "in_ranges ranges i \<longleftrightarrow> list_ex (\<lambda>(a, b). a \<le> i \<and> i \<le> b) ranges"

lemma in_ranges_simps [simp]:
  "\<not> in_ranges [] i" "in_ranges ((a, b) # rs) i \<longleftrightarrow> (a \<le> i \<and> i \<le> b) \<or> in_ranges rs i"
  "in_ranges (rs @ ss) i \<longleftrightarrow> in_ranges rs i \<or> in_ranges ss i"
  by (auto simp: in_ranges_def)

lemma in_ranges_iff: "in_ranges rs i \<longleftrightarrow> (\<exists>(a, b)\<in>set rs. a \<le> i \<and> i \<le> b)"
  by (auto simp: in_ranges_def list_ex_iff)

lemma in_ranges_cong: "set rs = set ss \<Longrightarrow> in_ranges rs i \<longleftrightarrow> in_ranges ss i"
  by (simp add: in_ranges_iff)

lemma in_ranges_concat: "in_ranges (concat rss) i \<longleftrightarrow> (\<exists>rs\<in>set rss. in_ranges rs i)"
  by (induction rss) auto

text \<open>Ranges of a file of \<open>n\<close> lines, and ranges with a gap before each next one.\<close>

definition range_within :: "nat \<Rightarrow> line_range \<Rightarrow> bool" where
  "range_within n r \<longleftrightarrow> 1 \<le> fst r \<and> fst r \<le> snd r \<and> snd r \<le> n"

fun separated :: "nat \<Rightarrow> nat \<Rightarrow> line_range list \<Rightarrow> bool" where
  "separated c n [] \<longleftrightarrow> True"
| "separated c n ((a, b) # rs) \<longleftrightarrow> c \<le> a \<and> a \<le> b \<and> b \<le> n \<and> separated (b + 2) n rs"

section \<open>Merging\<close>

text \<open>The last range of a merge is the only one that can still grow.\<close>

definition merged_ok :: "nat \<Rightarrow> line_range list \<Rightarrow> bool" where
  "merged_ok n ms \<longleftrightarrow> separated 1 n ms"

lemma separated_mono: "separated c n rs \<Longrightarrow> d \<le> c \<Longrightarrow> separated d n rs"
  by (cases rs) auto

lemma separated_snoc:
  "separated c n (ms @ [(a, b)]) \<longleftrightarrow> separated c n ms \<and> a \<le> b \<and> b \<le> n \<and> (if ms = [] then c \<le> a else snd (last ms) + 2 \<le> a)"
proof (induction ms arbitrary: c)
  case (Cons m ms)
  obtain x y where "m = (x, y)" by force
  then show ?case using Cons by (cases ms) auto
qed auto

lemma separated_snoc2:
  "separated c n (xs @ [(x, y), (a, b)]) \<longleftrightarrow> separated c n (xs @ [(x, y)]) \<and> y + 2 \<le> a \<and> a \<le> b \<and> b \<le> n"
  using separated_snoc[of c n "xs @ [(x, y)]" a b] by auto

lemma push_range_step:
  assumes "separated 1 n ms" and "range_within n r" and "ms \<noteq> [] \<Longrightarrow> fst (last ms) \<le> fst r"
  shows "separated 1 n (push_range ms r) \<and> (\<forall>i. in_ranges (push_range ms r) i \<longleftrightarrow> in_ranges ms i \<or> fst r \<le> i \<and> i \<le> snd r) \<and>
    push_range ms r \<noteq> [] \<and> fst (last (push_range ms r)) \<le> fst r"
proof -
  obtain a b where r: "r = (a, b)" by force
  show ?thesis
  proof (cases "ms = []")
    case True
    then show ?thesis using assms(2) by (auto simp: push_range_def r range_within_def)
  next
    case False
    then obtain xs x y where ms: "ms = xs @ [(x, y)]" by (cases ms rule: rev_cases) auto
    have "separated 1 n (xs @ [(x, y)])" "x \<le> a" "1 \<le> a" "a \<le> b" "b \<le> n"
      using assms ms r by (auto simp: range_within_def)
    then show ?thesis by (auto simp: push_range_def r ms separated_snoc2 separated_snoc[of _ _ xs])
  qed
qed

lemma foldl_push_range:
  assumes "sorted rs" and "list_all (range_within n) rs" and "separated 1 n ms"
    and "ms \<noteq> [] \<Longrightarrow> list_all (\<lambda>r. fst (last ms) \<le> fst r) rs"
  shows "separated 1 n (foldl push_range ms rs) \<and>
    (\<forall>i. in_ranges (foldl push_range ms rs) i \<longleftrightarrow> in_ranges ms i \<or> in_ranges rs i)"
  using assms
proof (induction rs arbitrary: ms)
  case (Cons r rs)
  have P: "separated 1 n (push_range ms r)" "\<And>i. in_ranges (push_range ms r) i \<longleftrightarrow> in_ranges ms i \<or> fst r \<le> i \<and> i \<le> snd r"
    "push_range ms r \<noteq> []" "fst (last (push_range ms r)) \<le> fst r"
    using push_range_step[of n ms r] Cons.prems by auto
  have "list_all (\<lambda>s. fst r \<le> fst s) rs" using Cons.prems(1) by (auto simp: list_all_iff less_eq_prod_def)
  then have "list_all (\<lambda>s. fst (last (push_range ms r)) \<le> fst s) rs" using P(4) by (auto simp: list_all_iff)
  then show ?case using Cons.IH[of "push_range ms r"] Cons.prems(1,2) P(1,2) by (cases r) auto
qed simp

lemma merge_ranges_sound:
  assumes "list_all (range_within n) rs"
  shows "separated 1 n (merge_ranges rs)" and "in_ranges (merge_ranges rs) i \<longleftrightarrow> in_ranges rs i"
  using foldl_push_range[of "sort rs" n "[]"] assms in_ranges_cong[of "sort rs" rs]
  by (simp_all add: merge_ranges_def list_all_iff)

lemma separated_within: "separated c n rs \<Longrightarrow> 1 \<le> c \<Longrightarrow> list_all (range_within n) rs"
proof (induction c n rs rule: separated.induct)
  case (2 c n a b rs)
  then show ?case by (auto simp: range_within_def list_all_iff)
qed simp

section \<open>Ranges of indices\<close>

lemma push_index_step:
  assumes "separated 1 n ms" and "i < n" and "ms \<noteq> [] \<Longrightarrow> snd (last ms) \<le> i"
  shows "separated 1 n (push_index ms i) \<and> (\<forall>j. in_ranges (push_index ms i) j \<longleftrightarrow> in_ranges ms j \<or> j = i + 1) \<and>
    push_index ms i \<noteq> [] \<and> snd (last (push_index ms i)) = i + 1"
proof (cases "ms = []")
  case True
  then show ?thesis using assms(2) by (auto simp: push_index_def)
next
  case False
  then obtain xs x y where ms: "ms = xs @ [(x, y)]" by (cases ms rule: rev_cases) auto
  then show ?thesis using assms by (auto simp: push_index_def separated_snoc2 separated_snoc[of _ _ xs])
qed

lemma foldl_push_index:
  assumes "sorted_wrt (<) is" and "list_all (\<lambda>i. i < n) is" and "separated 1 n ms"
    and "ms \<noteq> [] \<Longrightarrow> list_all (\<lambda>i. snd (last ms) \<le> i) is"
  shows "separated 1 n (foldl push_index ms is) \<and>
    (\<forall>j. in_ranges (foldl push_index ms is) j \<longleftrightarrow> in_ranges ms j \<or> (0 < j \<and> j - 1 \<in> set is))"
  using assms
proof (induction "is" arbitrary: ms)
  case (Cons i "is")
  have P: "separated 1 n (push_index ms i)" "\<And>j. in_ranges (push_index ms i) j \<longleftrightarrow> in_ranges ms j \<or> j = i + 1"
    "push_index ms i \<noteq> []" "snd (last (push_index ms i)) = i + 1"
    using push_index_step[of n ms i] Cons.prems by auto
  have "list_all (\<lambda>k. i + 1 \<le> k) is" using Cons.prems(1) by (auto simp: list_all_iff)
  then show ?case using Cons.IH[of "push_index ms i"] Cons.prems(1,2) P by auto
qed auto

lemma indices_to_ranges_sound:
  assumes "sorted_wrt (<) is" and "list_all (\<lambda>i. i < n) is"
  shows "separated 1 n (indices_to_ranges is)" and "in_ranges (indices_to_ranges is) j \<longleftrightarrow> 0 < j \<and> j - 1 \<in> set is"
  using foldl_push_index[OF assms, of "[]"] by (simp_all add: indices_to_ranges_def)

section \<open>Reconstruction\<close>

text \<open>
  The reference: one pass over the lines with the number of the line and the length of the gap before it. A line that is kept
  appears as it is, a gap as its length.
\<close>

fun elide_from :: "(nat \<Rightarrow> bool) \<Rightarrow> nat \<Rightarrow> nat \<Rightarrow> string list \<Rightarrow> string list" where
  "elide_from keep i gap [] = (if gap = 0 then [] else [omitted gap])"
| "elide_from keep i gap (l # ls) =
     (if keep i then (if gap = 0 then [] else [omitted gap]) @ l # elide_from keep (i + 1) 0 ls
      else elide_from keep (i + 1) (gap + 1) ls)"

lemma elide_skip:
  "(\<And>j. i \<le> j \<Longrightarrow> j < i + k \<Longrightarrow> \<not> keep j) \<Longrightarrow> k \<le> length ls \<Longrightarrow>
     elide_from keep i gap ls = elide_from keep (i + k) (gap + k) (drop k ls)"
proof (induction k arbitrary: i gap ls)
  case (Suc k)
  then obtain l ls' where ls: "ls = l # ls'" by (cases ls) auto
  have "\<not> keep i" using Suc.prems(1)[of i] by simp
  moreover have "elide_from keep (i + 1) (gap + 1) ls' = elide_from keep (i + 1 + k) (gap + 1 + k) (drop k ls')"
    using Suc.prems ls by (intro Suc.IH) auto
  ultimately show ?case by (simp add: ls)
qed simp

lemma elide_keep:
  "(\<And>j. i \<le> j \<Longrightarrow> j < i + k \<Longrightarrow> keep j) \<Longrightarrow> k \<le> length ls \<Longrightarrow>
     elide_from keep i 0 ls = take k ls @ elide_from keep (i + k) 0 (drop k ls)"
proof (induction k arbitrary: i ls)
  case (Suc k)
  then obtain l ls' where ls: "ls = l # ls'" by (cases ls) auto
  have "keep i" using Suc.prems(1)[of i] by simp
  moreover have "elide_from keep (i + 1) 0 ls' = take k ls' @ elide_from keep (i + 1 + k) 0 (drop k ls')"
    using Suc.prems ls by (intro Suc.IH) auto
  ultimately show ?case by (simp add: ls)
qed simp

lemma elide_gap:
  "0 < k \<Longrightarrow> k \<le> length ls \<Longrightarrow> (\<And>j. i \<le> j \<Longrightarrow> j < i + k \<Longrightarrow> keep j) \<Longrightarrow>
     elide_from keep i gap ls = (if gap = 0 then [] else [omitted gap]) @ elide_from keep i 0 ls"
  by (cases ls) auto

lemma separated_above: "separated c n rs \<Longrightarrow> in_ranges rs j \<Longrightarrow> c \<le> j"
  by (induction c n rs rule: separated.induct) fastforce+

lemma reconstruct_elides:
  assumes "separated c (length lines) ranges" and "c \<le> cursor + 1" and "1 \<le> cursor" and "cursor \<le> length lines + 1"
    and "\<And>j. cursor \<le> j \<Longrightarrow> keep j \<longleftrightarrow> in_ranges ranges j" and "\<And>j. in_ranges ranges j \<Longrightarrow> cursor \<le> j"
  shows "reconstruct_from cursor lines ranges (length lines) = elide_from keep cursor 0 (drop (cursor - 1) lines)"
  using assms
proof (induction ranges arbitrary: c cursor)
  case Nil
  have "elide_from keep cursor 0 (drop (cursor - 1) lines) =
      elide_from keep (cursor + (length lines + 1 - cursor)) (0 + (length lines + 1 - cursor))
        (drop (length lines + 1 - cursor) (drop (cursor - 1) lines))"
    using Nil by (intro elide_skip) auto
  then show ?case using Nil by (auto simp: Suc_diff_le)
next
  case (Cons r ranges)
  obtain a b where r: "r = (a, b)" by force
  have ab: "a \<le> b" "b \<le> length lines" and sep: "separated (b + 2) (length lines) ranges" using Cons.prems(1) r by auto
  have ca: "cursor \<le> a" using Cons.prems(6)[of a] r ab by auto
  have above: "b + 2 \<le> j" if "in_ranges ranges j" for j using separated_above[OF sep that] .
  have skip: "elide_from keep cursor 0 (drop (cursor - 1) lines) =
      elide_from keep (cursor + (a - cursor)) (0 + (a - cursor)) (drop (a - cursor) (drop (cursor - 1) lines))"
  proof (rule elide_skip)
    fix j assume "cursor \<le> j" "j < cursor + (a - cursor)"
    then show "\<not> keep j" using Cons.prems(5)[of j] above[of j] r ab by auto
  qed (use ab ca Cons.prems(3) in auto)
  have keep: "keep j" if "a \<le> j" "j < a + (b + 1 - a)" for j using Cons.prems(5)[of j] that ca r by auto
  have rest: "reconstruct_from (b + 1) lines ranges (length lines) = elide_from keep (b + 1) 0 (drop (b + 1 - 1) lines)"
  proof (rule Cons.IH[OF sep])
    show "keep j \<longleftrightarrow> in_ranges ranges j" if "b + 1 \<le> j" for j using Cons.prems(5)[of j] that ca ab r by auto
    show "b + 1 \<le> j" if "in_ranges ranges j" for j using above[OF that] by simp
  qed (use ab in auto)
  let ?ls = "drop (a - 1) lines"
  have "elide_from keep a (a - cursor) ?ls =
      (if a - cursor = 0 then [] else [omitted (a - cursor)]) @ elide_from keep a 0 ?ls"
    using ab keep Cons.prems(3) ca by (intro elide_gap[of "b + 1 - a"]) auto
  also have "elide_from keep a 0 ?ls = take (b + 1 - a) ?ls @ elide_from keep (a + (b + 1 - a)) 0 (drop (b + 1 - a) ?ls)"
    using ab keep Cons.prems(3) ca by (intro elide_keep) auto
  finally have "elide_from keep a (a - cursor) ?ls =
      (if cursor < a then [omitted (a - cursor)] else []) @ take (b + 1 - a) ?ls @ elide_from keep (b + 1) 0 (drop b lines)"
    using ab ca Cons.prems(3) by (simp add: add.commute)
  moreover have "drop (a - cursor) (drop (cursor - 1) lines) = ?ls" using ca Cons.prems(3) by (simp add: add.commute)
  ultimately show ?case using skip rest ca by (simp add: r)
qed

lemma reconstruct_sound:
  assumes "separated 1 (length lines) ranges"
  shows "fst (reconstruct lines ranges (length lines)) = join newline (elide_from (in_ranges ranges) 1 0 lines)"
  using reconstruct_elides[of 1 lines ranges 1 "in_ranges ranges"] assms separated_above[OF assms]
  by (simp add: reconstruct_def)

lemma kept_count:
  "separated c n ranges \<Longrightarrow> 1 \<le> c \<Longrightarrow>
     sum_list (map (\<lambda>(a, b). b + 1 - a) ranges) = length (filter (in_ranges ranges) [1..<n + 1])"
proof (induction c n ranges rule: separated.induct)
  case (2 c n a b rs)
  have sep: "separated (b + 2) n rs" and ab: "1 \<le> a" "a \<le> b" "b \<le> n" using 2 by auto
  have split: "[1..<n + 1] = [1..<b + 1] @ [b + 1..<n + 1]" and low: "[1..<b + 1] = [1..<a] @ [a..<b + 1]"
    using ab upt_add_eq_append[of 1 "b + 1" "n - b"] upt_add_eq_append[of 1 a "b + 1 - a"] by simp_all
  have up: "[1..<n + 1] = [1..<a] @ [a..<b + 1] @ [b + 1..<n + 1]" unfolding split low by simp
  have above: "\<not> in_ranges rs j" if "j \<le> b" for j using separated_above[OF sep, of j] that by auto
  have "filter (in_ranges ((a, b) # rs)) [1..<a] = []" using above ab by (auto simp: filter_empty_conv)
  moreover have "filter (in_ranges ((a, b) # rs)) [a..<b + 1] = [a..<b + 1]" by (auto simp: filter_id_conv)
  moreover have "filter (in_ranges ((a, b) # rs)) [b + 1..<n + 1] = filter (in_ranges rs) [b + 1..<n + 1]"
    by (rule filter_cong) auto
  moreover have "filter (in_ranges rs) [1..<n + 1] = filter (in_ranges rs) [b + 1..<n + 1]"
    unfolding split filter_append using above by (auto simp: filter_empty_conv)
  ultimately have "length (filter (in_ranges ((a, b) # rs)) [1..<n + 1]) = (b + 1 - a) + length (filter (in_ranges rs) [1..<n + 1])"
    unfolding up filter_append using ab by (simp add: Suc_diff_le)
  moreover have "sum_list (map (\<lambda>(a, b). b + 1 - a) rs) = length (filter (in_ranges rs) [1..<n + 1])"
    using 2(1)[OF sep] by simp
  ultimately show ?case by (simp only: list.map sum_list.Cons prod.case)
qed simp

section \<open>What is kept\<close>

text \<open>Lines of a view, lines a model named, and lines kept in any case.\<close>

definition near_signal :: "text_env \<Rightarrow> string list \<Rightarrow> nat \<Rightarrow> bool" where
  "near_signal env lines i \<longleftrightarrow>
     list_ex (\<lambda>j. is_diagnostic_line env (lines ! j) \<and> j \<le> i + SIGNAL_CONTEXT_LINES \<and> i \<le> j + SIGNAL_CONTEXT_LINES) [0..<length lines]"

definition after_notice :: "string list \<Rightarrow> nat \<Rightarrow> bool" where
  "after_notice lines i \<longleftrightarrow> list_ex (\<lambda>j. j \<le> i \<and> str_contains (lines ! j) TRUNCATION_NOTICE_TAG) [0..<length lines]"

lemma parse_range_within: "parse_range m s = Some r \<Longrightarrow> range_within m r"
  by (auto simp: parse_range_def range_within_def split: bind_splits if_splits)

lemma all_some_iff: "all_some xs = Some ys \<longleftrightarrow> list_all2 (\<lambda>x y. x = Some y) xs ys"
  by (induction xs arbitrary: ys) (auto simp: list_all2_Cons1 split: option.splits)

lemma parse_ranges_sound:
  assumes "parse_ranges specs m = Some rs"
  shows "separated 1 m rs" and "in_ranges rs i \<longleftrightarrow> list_ex (\<lambda>s. case parse_range m s of Some (a, b) \<Rightarrow> a \<le> i \<and> i \<le> b | None \<Rightarrow> False) specs"
proof -
  obtain ranges where r: "list_all2 (\<lambda>x y. x = Some y) (map (parse_range m) specs) ranges" "rs = merge_ranges ranges"
    using assms by (auto simp: parse_ranges_def all_some_iff split: option.splits if_splits)
  have w: "list_all (range_within m) ranges"
    using r(1) by (auto simp: list_all_length list_all2_conv_all_nth intro: parse_range_within)
  show "separated 1 m rs" using merge_ranges_sound(1)[OF w] r(2) by simp
  have "in_ranges ranges i \<longleftrightarrow> list_ex (\<lambda>s. case parse_range m s of Some (a, b) \<Rightarrow> a \<le> i \<and> i \<le> b | None \<Rightarrow> False) specs"
    using r(1) unfolding list_all2_map1 by (induction rule: list_all2_induct) (auto split: option.splits)
  then show "in_ranges rs i \<longleftrightarrow> list_ex (\<lambda>s. case parse_range m s of Some (a, b) \<Rightarrow> a \<le> i \<and> i \<le> b | None \<Rightarrow> False) specs"
    using merge_ranges_sound(2)[OF w] r(2) by simp
qed

lemma clip_to_visible_sound:
  assumes "list_all (range_within n) rs"
  shows "separated 1 n (clip_to_visible rs view)"
    and "in_ranges (clip_to_visible rs view) i \<longleftrightarrow> in_ranges rs i \<and> in_ranges (nv_visible view) i"
proof -
  define cs where "cs = concat (map (\<lambda>(a, b). concat (map (\<lambda>(va, vb).
      if max a va \<le> min b vb then [(max a va, min b vb)] else []) (nv_visible view))) rs)"
  have e: "clip_to_visible rs view = merge_ranges cs" by (simp add: clip_to_visible_def cs_def)
  have w: "list_all (range_within n) cs"
    using assms by (fastforce simp: cs_def list_all_iff range_within_def split: if_splits)
  have i: "in_ranges cs i \<longleftrightarrow> in_ranges rs i \<and> in_ranges (nv_visible view) i"
  proof -
    define meet where "meet = (\<lambda>(a :: nat, b :: nat) (va, vb). if max a va \<le> min b vb then [(max a va, min b vb)] else [])"
    have m: "in_ranges (meet r v) i \<longleftrightarrow> in_ranges [r] i \<and> in_ranges [v] i" for r v
      by (cases r; cases v) (auto simp: meet_def)
    have inner: "in_ranges (concat (map (meet r) vs)) i \<longleftrightarrow> in_ranges [r] i \<and> in_ranges vs i" for r vs
      by (induction vs) (auto simp: m)
    have cs: "cs = concat (map (\<lambda>r. concat (map (meet r) (nv_visible view))) rs)"
      by (simp add: cs_def meet_def split_def)
    show ?thesis unfolding cs by (induction rs) (auto simp: inner)
  qed
  show "separated 1 n (clip_to_visible rs view)" "in_ranges (clip_to_visible rs view) i \<longleftrightarrow> in_ranges rs i \<and> in_ranges (nv_visible view) i"
    unfolding e using merge_ranges_sound[OF w] i by simp_all
qed

lemma remdups_adj_ascending: "sorted (xs :: nat list) \<Longrightarrow> sorted_wrt (<) (remdups_adj xs)"
proof (induction xs rule: remdups_adj.induct)
  case (3 x y xs)
  show ?case
  proof (cases "x = y")
    case False
    then have "sorted_wrt (<) (remdups_adj (y # xs))" "\<forall>z\<in>set (remdups_adj (y # xs)). x < z" using 3 by auto
    then show ?thesis using False by simp
  qed (use 3 in simp)
qed simp_all

lemma diagnostic_ranges_sound:
  "separated 1 (length lines) (diagnostic_ranges env lines)"
  "in_ranges (diagnostic_ranges env lines) (i + 1) \<longleftrightarrow> i < length lines \<and> near_signal env lines i"
proof -
  let ?is = "remdups_adj (sort (concat (map (signal_context (length lines))
       (filter (\<lambda>i. is_diagnostic_line env (lines ! i)) [0..<length lines]))))"
  have set: "j \<in> set ?is \<longleftrightarrow> j < length lines \<and> near_signal env lines j" for j
    by (auto simp: signal_context_def near_signal_def list_ex_iff SIGNAL_CONTEXT_LINES_def)
  have sorted: "sorted_wrt (<) ?is" by (rule remdups_adj_ascending) simp
  have bound: "list_all (\<lambda>i. i < length lines) ?is" using set by (simp add: list_all_iff)
  show "separated 1 (length lines) (diagnostic_ranges env lines)"
    "in_ranges (diagnostic_ranges env lines) (i + 1) \<longleftrightarrow> i < length lines \<and> near_signal env lines i"
    unfolding diagnostic_ranges_def using indices_to_ranges_sound[OF sorted bound] set by auto
qed

lemma notice_range_sound:
  "list_all (range_within (length lines)) (truncation_notice_range lines)"
  "in_ranges (truncation_notice_range lines) (i + 1) \<longleftrightarrow> i < length lines \<and> after_notice lines i"
proof -
  show "list_all (range_within (length lines)) (truncation_notice_range lines)"
    by (auto simp: truncation_notice_range_def range_within_def dest!: position_Some split: option.split)
  show "in_ranges (truncation_notice_range lines) (i + 1) \<longleftrightarrow> i < length lines \<and> after_notice lines i"
  proof (cases "position (\<lambda>l. str_contains l TRUNCATION_NOTICE_TAG) lines")
    case None
    then have "\<forall>l\<in>set lines. \<not> str_contains l TRUNCATION_NOTICE_TAG" by (simp add: position_None)
    then show ?thesis using None by (auto simp: truncation_notice_range_def after_notice_def list_ex_iff)
  next
    case (Some k)
    then have "k < length lines" "str_contains (lines ! k) TRUNCATION_NOTICE_TAG"
      "\<And>j. j < k \<Longrightarrow> \<not> str_contains (lines ! j) TRUNCATION_NOTICE_TAG"
      by (auto dest: position_Some)
    then show ?thesis using Some by (auto simp: truncation_notice_range_def after_notice_def list_ex_iff) (metis linorder_not_le le_trans)
  qed
qed

text \<open>The lines an extraction keeps.\<close>

definition kept_line :: "condense_env \<Rightarrow> condense_entry \<Rightarrow> string list \<Rightarrow> numbered_view \<Rightarrow> nat \<Rightarrow> bool" where
  "kept_line env e lines view i \<longleftrightarrow>
     (list_ex (\<lambda>s. case parse_range (length lines) s of Some (a, b) \<Rightarrow> a \<le> i \<and> i \<le> b | None \<Rightarrow> False) (cn_lines e) \<and>
        in_ranges (nv_visible view) i) \<or>
     near_signal (ce_text env) lines (i - 1) \<or> after_notice lines (i - 1)"

lemma kept_ranges_sound:
  assumes "kept_ranges env e lines view = Some rs"
  shows "separated 1 (length lines) rs" and "1 \<le> i \<Longrightarrow> i \<le> length lines \<Longrightarrow> in_ranges rs i \<longleftrightarrow> kept_line env e lines view i"
proof -
  let ?n = "length lines"
  obtain named where n: "parse_ranges (cn_lines e) ?n = Some named"
    "rs = merge_ranges (clip_to_visible named view @ diagnostic_ranges (ce_text env) lines @ truncation_notice_range lines)"
    using assms by (auto simp: kept_ranges_def Let_def split: option.splits if_splits)
  note N = parse_ranges_sound[OF n(1)]
  note C = clip_to_visible_sound[OF separated_within[OF N(1) order_refl]]
  have w: "list_all (range_within ?n) (clip_to_visible named view @ diagnostic_ranges (ce_text env) lines @ truncation_notice_range lines)"
    using separated_within[OF C(1)] separated_within[OF diagnostic_ranges_sound(1)] notice_range_sound(1) by simp
  show "separated 1 ?n rs" unfolding n(2) by (rule merge_ranges_sound(1)[OF w])
  show "in_ranges rs i \<longleftrightarrow> kept_line env e lines view i" if "1 \<le> i" "i \<le> ?n"
  proof -
    obtain k where k: "i = k + 1" "k < ?n" using \<open>1 \<le> i\<close> \<open>i \<le> ?n\<close> by (cases i) auto
    show ?thesis unfolding n(2) merge_ranges_sound(2)[OF w] in_ranges_simps C(2) N(2) k(1) diagnostic_ranges_sound(2)
        notice_range_sound(2) kept_line_def using k(2) by simp
  qed
qed

section \<open>What a condensed result is\<close>

definition extracted :: "condense_env \<Rightarrow> tool_output \<Rightarrow> string \<Rightarrow> string \<Rightarrow> bool" where
  "extracted env r path content \<longleftrightarrow>
     (\<exists>keep. let lines = str_lines (tr_content r) in
        content = extract_notice (join newline (elide_from keep 1 0 lines)) (length (filter keep [1..<length lines + 1])) (length lines) path \<and>
        list_all (\<lambda>i. near_signal (ce_text env) lines i \<or> after_notice lines i \<longrightarrow> keep (i + 1)) [0..<length lines])"

definition condensed :: "condense_env \<Rightarrow> tool_output \<Rightarrow> tool_output \<Rightarrow> bool" where
  "condensed env r r' \<longleftrightarrow>
     tr_id r' = tr_id r \<and> tr_error r' = tr_error r \<and> to_name r' = to_name r \<and> to_plain r \<and>
     MIN_CANDIDATE_TOKENS < estimate env (tr_content r) \<and> estimate env (tr_content r') < estimate env (tr_content r) \<and>
     (\<exists>path. ce_spill env (to_name r) (tr_content r) = Some path \<and>
        (extracted env r path (tr_content r') \<or>
         \<not> tr_error r \<and> tr_content r' = replace_notice (length (str_lines (tr_content r))) (to_name r) path))"

lemma apply_verdict_result:
  assumes "apply_verdict env e r (tr_content r) view = Some content"
  shows "\<exists>path. ce_spill env (to_name r) (tr_content r) = Some path \<and>
    (extracted env r path content \<or>
     \<not> tr_error r \<and> content = replace_notice (length (str_lines (tr_content r))) (to_name r) path)"
proof -
  let ?lines = "str_lines (tr_content r)"
  consider (lines) rs path where "kept_ranges env e ?lines view = Some rs" "ce_spill env (to_name r) (tr_content r) = Some path"
      "content = extract_notice (fst (reconstruct ?lines rs (length ?lines))) (snd (reconstruct ?lines rs (length ?lines))) (length ?lines) path"
    | (whole) path where "\<not> tr_error r" "ce_spill env (to_name r) (tr_content r) = Some path"
      "content = replace_notice (length ?lines) (to_name r) path"
    using assms by (auto simp: apply_verdict_def Let_def split: if_splits bind_splits prod.splits)
  then show ?thesis
  proof cases
    case lines
    note S = kept_ranges_sound[OF lines(1)]
    have "extracted env r path content"
      unfolding extracted_def Let_def
    proof (intro exI[of _ "in_ranges rs"] conjI)
      show "content = extract_notice (join newline (elide_from (in_ranges rs) 1 0 ?lines))
          (length (filter (in_ranges rs) [1..<length ?lines + 1])) (length ?lines) path"
        using lines(3) kept_count[OF S(1)] by (simp add: reconstruct_sound[OF S(1)]) (simp add: reconstruct_def)
      show "list_all (\<lambda>i. near_signal (ce_text env) ?lines i \<or> after_notice ?lines i \<longrightarrow> in_ranges rs (i + 1)) [0..<length ?lines]"
        using S(2) by (auto simp: list_all_iff kept_line_def)
    qed
    then show ?thesis using lines(2) by blast
  qed blast
qed

definition worth_it :: "condense_env \<Rightarrow> tool_output \<Rightarrow> bool" where
  "worth_it env r \<longleftrightarrow> to_plain r \<and> MIN_CANDIDATE_TOKENS < estimate env (tr_content r)"

lemma condense_one_result:
  assumes "condense_one env es (i, view) rs = (rs', saved)" and "worth_it env (rs ! i)"
  shows "rs' = rs \<or> (\<exists>r'. rs' = rs[i := r'] \<and> condensed env (rs ! i) r')"
proof (cases "Option.bind (unambiguous_entry es (tr_id (rs ! i))) (\<lambda>e. apply_verdict env e (rs ! i) (tr_content (rs ! i)) view)")
  case None
  then show ?thesis using assms(1) by (simp add: condense_one_def)
next
  case (Some content)
  then obtain e where e: "apply_verdict env e (rs ! i) (tr_content (rs ! i)) view = Some content" by (auto split: bind_splits)
  show ?thesis
  proof (cases "estimate env (tr_content (rs ! i)) \<le> estimate env content")
    case True
    then show ?thesis using assms(1) Some by (simp add: condense_one_def)
  next
    case False
    then have "rs' = rs[i := set_content content (rs ! i)]" using assms(1) Some by (simp add: condense_one_def Let_def)
    moreover have "condensed env (rs ! i) (set_content content (rs ! i))"
      using apply_verdict_result[OF e] False assms(2) by (auto simp: condensed_def set_content_def worth_it_def)
    ultimately show ?thesis by blast
  qed
qed

definition only_condensed :: "condense_env \<Rightarrow> tool_output list \<Rightarrow> tool_output list \<Rightarrow> bool" where
  "only_condensed env rs rs' \<longleftrightarrow> list_all2 (\<lambda>r r'. r' = r \<or> condensed env r r') rs rs'"

lemma condense_all_result:
  "distinct (map fst cs) \<Longrightarrow> list_all (\<lambda>c. rs ! fst c = orig ! fst c \<and> worth_it env (orig ! fst c)) cs \<Longrightarrow>
     only_condensed env orig rs \<Longrightarrow> only_condensed env orig (fst (condense_all env es cs rs saved))"
proof (induction env es cs rs saved rule: condense_all.induct)
  case (2 env es c cs rs saved)
  obtain i view where c: "c = (i, view)" by force
  obtain rs' n where one: "condense_one env es c rs = (rs', n)" by force
  have i: "rs ! i = orig ! i" "worth_it env (orig ! i)" using 2(3) c by auto
  from condense_one_result[of env es i view rs rs' n] one i c
  have r: "rs' = rs \<or> (\<exists>r'. rs' = rs[i := r'] \<and> condensed env (orig ! i) r')" by simp
  have len: "length rs = length orig" using 2(4) by (simp add: only_condensed_def list_all2_lengthD)
  have "only_condensed env orig rs'"
    unfolding only_condensed_def list_all2_conv_all_nth
  proof (intro conjI allI impI)
    show "length orig = length rs'" using r len by auto
    fix k assume k: "k < length orig"
    show "rs' ! k = orig ! k \<or> condensed env (orig ! k) (rs' ! k)"
    proof (cases "k = i")
      case True
      then show ?thesis using r i(1) k len by auto
    next
      case False
      then have "rs' ! k = rs ! k" using r by auto
      then show ?thesis using 2(4) k by (auto simp: only_condensed_def list_all2_conv_all_nth)
    qed
  qed
  moreover have frame: "rs' ! j = rs ! j" if "j \<noteq> i" for j using r that by auto
  have "list_all (\<lambda>c. rs' ! fst c = orig ! fst c \<and> worth_it env (orig ! fst c)) cs"
    unfolding list_all_iff
  proof
    fix d assume d: "d \<in> set cs"
    then have "fst d \<noteq> i" using 2(2) c by (metis distinct.simps(2) fst_conv image_eqI list.set_map list.simps(9))
    then show "rs' ! fst d = orig ! fst d \<and> worth_it env (orig ! fst d)"
      using frame 2(3) d by (simp add: list_all_iff)
  qed
  moreover have "distinct (map fst cs)" using 2(2) by simp
  ultimately show ?case using 2(1)[OF one[symmetric] refl] by (simp add: one)
qed simp

lemma select_results_set: "set (select_results sizes is) \<subseteq> set is" "distinct is \<Longrightarrow> distinct (select_results sizes is)"
  by (auto simp: select_results_def dest: in_set_takeD)

lemma condense_round_result:
  "only_condensed env results
     (fst (condense_round env sv supervisor cfg reader session ask calls task agent_context intent results reg))"
proof -
  let ?sizes = "map (result_size env) results"
  have same: "only_condensed env results results" by (simp add: only_condensed_def list_all2_conv_all_nth)
  have cands: "only_condensed env results (fst (condense_all env es
      (fst (build_request env results calls (filter (\<lambda>i. max t MIN_CANDIDATE_TOKENS < ?sizes ! i) [0..<length results]) ?sizes task agent_context intent))
      results 0))" for es t
  proof (rule condense_all_result[OF _ _ same])
    let ?is = "filter (\<lambda>i. max t MIN_CANDIDATE_TOKENS < ?sizes ! i) [0..<length results]"
    have fst: "map fst (fst (build_request env results calls ?is ?sizes task agent_context intent)) = select_results ?sizes ?is"
      by (simp add: build_request_def Let_def make_candidate_def comp_def)
    show "distinct (map fst (fst (build_request env results calls ?is ?sizes task agent_context intent)))"
      unfolding fst by (rule select_results_set(2)) simp
    have "worth_it env (results ! i)" if "i \<in> set (select_results ?sizes ?is)" for i
    proof -
      have "i \<in> set ?is" using that select_results_set(1) by blast
      then show ?thesis by (auto simp: worth_it_def result_size_def split: if_splits)
    qed
    then show "list_all (\<lambda>c. results ! fst c = results ! fst c \<and> worth_it env (results ! fst c))
        (fst (build_request env results calls ?is ?sizes task agent_context intent))"
      unfolding fst[symmetric] by (simp add: list_all_iff)
  qed
  show ?thesis using same cands
    by (auto simp: condense_round_def Let_def split_beta split: option.split)
qed

text \<open>
  C35. A round of condensing changes a result only into text of its own: the lines of the original that are kept, unchanged, in
  their order and with the length of every gap, or the notice that a successful result was omitted. Failing lines with
  their context and a truncation notice stay, so do the identity and the error flag of the result; the original is on
  disk first, the result was large and gets smaller.
\<close>

theorem condensing_is_extractive:
  "only_condensed env results
     (fst (condense_round env sv supervisor cfg reader session ask calls task agent_context intent results reg))"
  by (rule condense_round_result)

text \<open>The threshold stays between half and twice the configured one.\<close>

lemma threshold_bounded:
  assumes "cc_tokens_threshold cfg < 2 ^ 64" and "\<And>st. as_baseline (f st) = as_baseline st"
  shows "cc_tokens_threshold cfg \<le> 2 * fst (with_adaptive sv cfg session f reg)"
    and "fst (with_adaptive sv cfg session f reg) \<le> 2 * cc_tokens_threshold cfg"
proof -
  have b: "as_baseline (session_adaptive sv cfg s reg) = cc_tokens_threshold cfg" for s
    by (auto simp: session_adaptive_def fresh_adaptive_def adaptive_matches_def split: option.split)
  have t: "as_baseline st = cc_tokens_threshold cfg \<Longrightarrow>
      cc_tokens_threshold cfg \<le> 2 * state_threshold sv st \<and> state_threshold sv st \<le> 2 * cc_tokens_threshold cfg" for st
    using assms(1) by (auto simp: state_threshold_def Let_def min_def max_def)
  show "cc_tokens_threshold cfg \<le> 2 * fst (with_adaptive sv cfg session f reg)"
    "fst (with_adaptive sv cfg session f reg) \<le> 2 * cc_tokens_threshold cfg"
    using t[of "f (session_adaptive sv cfg _ reg)"] b assms(2) by (auto simp: with_adaptive_def Let_def split: option.split)
qed

section \<open>What the model was shown\<close>

text \<open>
  How much of each line a view shows: all of it when the whole text fits, otherwise a preview of at most this many tokens, with
  a note when the line is longer.
\<close>

definition preview_budget :: "text_env \<Rightarrow> string \<Rightarrow> nat \<Rightarrow> string \<Rightarrow> nat option" where
  "preview_budget env content m focus =
     (let tk = te_tokenizer env; lines = str_lines content; n = length lines
      in if n = 0 \<or> estimate_tokens tk (render_numbered_selection tk lines [0..<n] n None) \<le> m then None
         else Some (shrink_preview
           (\<lambda>budget. estimate_tokens tk (render_numbered_selection tk lines (select_lines env lines m focus) n (Some budget)) \<le> m)
           (min (max (m - 64) 8) 256)))"

definition view_line :: "text_env \<Rightarrow> string \<Rightarrow> nat \<Rightarrow> string \<Rightarrow> nat \<Rightarrow> string" where
  "view_line env content m focus i =
     render_numbered_line (te_tokenizer env) i (str_lines content ! i) (length (str_lines content)) (preview_budget env content m focus)"

definition in_view :: "text_env \<Rightarrow> string \<Rightarrow> nat \<Rightarrow> string \<Rightarrow> nat \<Rightarrow> bool" where
  "in_view env content m focus i \<longleftrightarrow>
     sublist (view_line env content m focus i) (nv_body (build_numbered_view env content m focus))"

lemma join_sublist: "x \<in> set xs \<Longrightarrow> sublist x (join sep xs)"
proof (induction sep xs rule: join.induct)
  case (3 sep x' y xs)
  show ?case
  proof (cases "x = x'")
    case True
    then show ?thesis by simp
  next
    case False
    then have "sublist x (join sep (y # xs))" using 3 by simp
    then obtain ps ss where "join sep (y # xs) = ps @ x @ ss" by (auto simp: sublist_def)
    then have "join sep (x' # y # xs) = (x' @ sep @ ps) @ x @ ss" by simp
    then show ?thesis unfolding sublist_def by blast
  qed
qed auto

lemma numbered_from_lines: "i \<in> set is \<Longrightarrow> render_numbered_line tk i (lines ! i) n budget \<in> set (numbered_from tk lines n budget previous is)"
  by (induction "is" arbitrary: previous) auto

lemma select_lines_ascending: "sorted_wrt (<) (select_lines env lines m focus) \<and> set (select_lines env lines m focus) \<subseteq> {0..<length lines}"
  by (auto simp: select_lines_def Let_def in_order_def sorted_wrt_filter)

text \<open>The selection of lines is never empty.\<close>

lemma queue_lines_within:
  "set (queue_line i ps) = insert i (set ps)"
  "i < n \<Longrightarrow> set ps \<subseteq> {..<n} \<Longrightarrow> set (queue_near n i d ps) \<subseteq> {..<n}"
  by (auto simp: queue_line_def queue_near_def Let_def)

lemma fold_within:
  assumes "\<And>x ps. x \<in> set xs \<Longrightarrow> set ps \<subseteq> A \<Longrightarrow> set (f ps x) \<subseteq> A" and "set ps \<subseteq> A"
  shows "set (foldl f ps xs) \<subseteq> A"
  using assms by (induction xs arbitrary: ps) auto

lemma priority_lines_within:
  assumes "lines \<noteq> []"
  shows "set (priority_lines env lines focus) \<subseteq> {..<length lines}"
proof -
  let ?n = "length lines"
  have near: "set (queue_with_context ?n ps i) \<subseteq> {..<?n}" if "i < ?n" "set ps \<subseteq> {..<?n}" for ps i
    unfolding queue_with_context_def
  proof (rule fold_within)
    show "set (queue_near ?n i d qs) \<subseteq> {..<?n}" if "set qs \<subseteq> {..<?n}" for d qs
      using \<open>i < ?n\<close> that by (rule queue_lines_within(2))
  qed (use that in \<open>simp add: queue_lines_within(1)\<close>)
  have "k * (?n - 1) div max (min ?n 32) 1 < ?n" if "k < min ?n 32" for k
  proof -
    have "k * (?n - 1) div max (min ?n 32) 1 \<le> max (min ?n 32) 1 * (?n - 1) div max (min ?n 32) 1"
      using that by (intro div_le_mono mult_le_mono1) simp
    also have "\<dots> = ?n - 1" by simp
    finally show ?thesis using assms by (cases lines) auto
  qed
  note sample = this
  have contexts: "set (foldl (queue_with_context ?n) ps (filter P [0..<?n])) \<subseteq> {..<?n}" if "set ps \<subseteq> {..<?n}" for P ps
    by (rule fold_within[OF near that]) auto
  have ls: "i \<in> set ([?n - 24..<?n] @ [0..<min ?n 16] @ map (\<lambda>k. k * (?n - 1) div max (min ?n 32) 1) [0..<min ?n 32] @ [0..<?n]) \<Longrightarrow>
      i < ?n" for i using sample by auto
  have "set (foldl (\<lambda>ps i. queue_line i ps) (foldl (queue_with_context ?n) (foldl (queue_with_context ?n) [] (filter P [0..<?n])) (filter Q [0..<?n]))
      ([?n - 24..<?n] @ [0..<min ?n 16] @ map (\<lambda>k. k * (?n - 1) div max (min ?n 32) 1) [0..<min ?n 32] @ [0..<?n])) \<subseteq> {..<?n}"
    for P Q
  proof (rule fold_within)
    show "set (foldl (queue_with_context ?n) (foldl (queue_with_context ?n) [] (filter P [0..<?n])) (filter Q [0..<?n])) \<subseteq> {..<?n}"
      by (intro contexts) simp
    fix x ps
    assume "x \<in> set ([?n - 24..<?n] @ [0..<min ?n 16] @ map (\<lambda>k. k * (?n - 1) div max (min ?n 32) 1) [0..<min ?n 32] @ [0..<?n])"
      and "set ps \<subseteq> {..<?n}"
    then show "set (queue_line x ps) \<subseteq> {..<?n}" unfolding queue_lines_within(1) using ls[of x] by blast
  qed
  then show ?thesis unfolding priority_lines_def Let_def .
qed

lemma accept_lines_within: "set (accept_lines cost b accepted used is) \<subseteq> set accepted \<union> set is"
  by (induction cost b accepted used "is" rule: accept_lines.induct) auto

lemma drop_lowest_kept: "xs \<noteq> [] \<Longrightarrow> drop_lowest fits xs \<noteq> [] \<and> set (drop_lowest fits xs) \<subseteq> set xs"
proof (induction fits xs rule: drop_lowest.induct)
  case (1 fits xs)
  show ?case
  proof (cases "1 < length xs \<and> \<not> fits xs")
    case True
    then have "butlast xs \<noteq> []" by (cases xs rule: rev_cases) auto
    with 1(1)[OF True] True show ?thesis by (auto simp: drop_lowest.simps[of fits xs] dest: in_set_butlastD)
  next
    case False
    then have "drop_lowest fits xs = xs" by (subst drop_lowest.simps) auto
    then show ?thesis using 1(2) by simp
  qed
qed

lemma select_lines_nonempty:
  assumes "lines \<noteq> []"
  shows "select_lines env lines m focus \<noteq> []"
proof -
  define acc where "acc = accept_lines (\<lambda>i. estimate_tokens (te_tokenizer env) (render_numbered_line (te_tokenizer env) i (lines ! i)
      (length lines) (Some (min (max (m - 64) 8) 256))) + 1) (m * 4 div 5) [] 0 (priority_lines env lines focus)"
  define acc' where "acc' = (if acc = [] then [length lines - 1] else acc)"
  have "set acc \<subseteq> set [] \<union> set (priority_lines env lines focus)" unfolding acc_def by (rule accept_lines_within)
  then have "set acc \<subseteq> {..<length lines}" using priority_lines_within[OF assms, of env focus] by simp
  then have "set acc' \<subseteq> {..<length lines}" "acc' \<noteq> []" using assms by (auto simp: acc'_def)
  then have "in_order (length lines) (drop_lowest fits acc') \<noteq> []" for fits
  proof -
    have "drop_lowest fits acc' \<noteq> [] \<and> set (drop_lowest fits acc') \<subseteq> {..<length lines}"
      using drop_lowest_kept[OF \<open>acc' \<noteq> []\<close>, of fits] \<open>set acc' \<subseteq> {..<length lines}\<close> by auto
    then obtain i where "i \<in> set (drop_lowest fits acc')" "i < length lines" by (cases "drop_lowest fits acc'") auto
    then show ?thesis by (auto simp: in_order_def filter_empty_conv)
  qed
  then show ?thesis unfolding select_lines_def Let_def acc_def[symmetric] acc'_def[symmetric] .
qed

text \<open>A view is the rendering of the lines it says it shows, at that budget.\<close>

lemma view_body:
  assumes "str_lines content \<noteq> []"
  obtains "is" where
    "nv_body (build_numbered_view env content m focus) =
       render_numbered_selection (te_tokenizer env) (str_lines content) is (length (str_lines content)) (preview_budget env content m focus)"
    and "nv_partial (build_numbered_view env content m focus) \<longleftrightarrow> length is < length (str_lines content)"
    and "sorted_wrt (<) is" and "set is \<subseteq> {0..<length (str_lines content)}"
    and "\<And>i. in_ranges (nv_visible (build_numbered_view env content m focus)) (i + 1) \<Longrightarrow> i \<in> set is"
proof -
  let ?lines = "str_lines content" and ?v = "build_numbered_view env content m focus"
  let ?is = "select_lines env ?lines m focus"
  have asc: "sorted_wrt (<) ?is" "list_all (\<lambda>i. i < length ?lines) ?is"
    using select_lines_ascending[of env ?lines m focus] by (auto simp: list_all_iff)
  show thesis
  proof (cases "estimate_tokens (te_tokenizer env) (render_numbered_selection (te_tokenizer env) ?lines [0..<length ?lines]
      (length ?lines) None) \<le> m")
    case True
    show thesis by (rule that[of "[0..<length ?lines]"])
      (use True assms in \<open>auto simp: build_numbered_view_def preview_budget_def Let_def\<close>)
  next
    case False
    show thesis
    proof (rule that[of ?is])
      show "set ?is \<subseteq> {0..<length ?lines}" using asc(2) by (auto simp: list_all_iff)
      show "i \<in> set ?is" if "in_ranges (nv_visible ?v) (i + 1)" for i
      proof -
        have "in_ranges (indices_to_ranges ?is) (i + 1)" using that False assms by (simp add: build_numbered_view_def Let_def)
        then show ?thesis using indices_to_ranges_sound(2)[OF asc] by simp
      qed
    qed (use False assms asc(1) in \<open>simp_all add: build_numbered_view_def preview_budget_def Let_def\<close>)
  qed
qed

lemma view_shows:
  assumes "in_ranges (nv_visible (build_numbered_view env content m focus)) (i + 1)"
  shows "in_view env content m focus i"
proof (cases "str_lines content = []")
  case True
  then show ?thesis using assms by (simp add: build_numbered_view_def in_ranges_def)
next
  case False
  obtain "is" where "nv_body (build_numbered_view env content m focus) =
      render_numbered_selection (te_tokenizer env) (str_lines content) is (length (str_lines content)) (preview_budget env content m focus)"
    and "i \<in> set is" using view_body[OF False, of env m focus] assms by metis
  then show ?thesis unfolding in_view_def view_line_def render_numbered_selection_def by (metis join_sublist numbered_from_lines)
qed

lemma all_lines:
  assumes "sorted_wrt (<) is" and "set is \<subseteq> {0..<n}" and "\<not> length is < n"
  shows "is = [0..<n]"
proof -
  have d: "sorted is" "distinct is" using assms(1) by (simp_all add: strict_sorted_iff)
  have "set is = {0..<n}"
  proof (rule card_subset_eq)
    have "length is \<le> n" using card_mono[OF _ assms(2)] distinct_card[OF d(2)] by simp
    then show "card (set is) = card {0..<n}" using assms(3) distinct_card[OF d(2)] by simp
  qed (use assms(2) in simp_all)
  then show ?thesis using d by (intro sorted_distinct_set_unique) auto
qed

lemma whole_view_body:
  assumes "\<not> nv_partial (build_numbered_view env content m focus)"
  shows "nv_body (build_numbered_view env content m focus) =
    join newline (map (view_line env content m focus) [0..<length (str_lines content)])"
proof (cases "str_lines content = []")
  case True
  then show ?thesis by (simp add: build_numbered_view_def)
next
  case False
  have consecutive: "numbered_from tk ls n b (if k = 0 then None else Some (k - 1)) [k..<n] = map (\<lambda>i. render_numbered_line tk i (ls ! i) n b) [k..<n]"
    if "k \<le> n" for tk ls n b k
    using that
  proof (induction "n - k" arbitrary: k)
    case 0
    then show ?case by simp
  next
    case (Suc d)
    then have "numbered_from tk ls n b (Some k) [Suc k..<n] = map (\<lambda>i. render_numbered_line tk i (ls ! i) n b) [Suc k..<n]"
      using Suc(1)[of "Suc k"] by simp
    then show ?case using Suc(2) by (simp add: upt_conv_Cons gap_before_def)
  qed
  obtain "is" where v: "nv_body (build_numbered_view env content m focus) =
      render_numbered_selection (te_tokenizer env) (str_lines content) is (length (str_lines content)) (preview_budget env content m focus)"
    "nv_partial (build_numbered_view env content m focus) \<longleftrightarrow> length is < length (str_lines content)"
    "sorted_wrt (<) is" "set is \<subseteq> {0..<length (str_lines content)}"
    using view_body[OF False, of env m focus] by metis
  have "is = [0..<length (str_lines content)]" by (rule all_lines[OF v(3,4)]) (use assms v(2) in simp)
  with v(1) consecutive[of 0 "length (str_lines content)"] show ?thesis
    by (simp add: render_numbered_selection_def view_line_def[abs_def])
qed

text \<open>A selection: each kept line was in the view and named, or stays in any case.\<close>

definition selection_justified ::
  "condense_env \<Rightarrow> condense_entry \<Rightarrow> string \<Rightarrow> nat \<Rightarrow> string \<Rightarrow> (nat \<Rightarrow> bool) \<Rightarrow> bool" where
  "selection_justified env e original m focus keep \<longleftrightarrow>
     (let lines = str_lines original; view = build_numbered_view (ce_text env) original m focus
      in list_all (\<lambda>i. keep (i + 1) \<longleftrightarrow> kept_line env e lines view (i + 1)) [0..<length lines] \<and>
         list_all (\<lambda>i. keep (i + 1) \<longrightarrow>
           in_view (ce_text env) original m focus i \<or> near_signal (ce_text env) lines i \<or> after_notice lines i) [0..<length lines])"

text \<open>
  A result of one long line is shown as a clipped preview, and yet its view does not count as partial: such a result can be
  omitted as a whole on the strength of text the model never saw.
\<close>

lemma clipped_preview_replaced:
  assumes "str_lines (tr_content r) = [line]" and "8 \<le> m"
    and "m < estimate_tokens (te_tokenizer (ce_text env)) (render_numbered_line (te_tokenizer (ce_text env)) 0 line 1 None)"
    and "\<not> tr_error r" and "ce_spill env (to_name r) (tr_content r) = Some path" and "cn_verdict e = ''replace''"
    and view: "view = build_numbered_view (ce_text env) (tr_content r) m focus"
  shows "apply_verdict env e r (tr_content r) view = Some (replace_notice 1 (to_name r) path) \<and>
    ends_with (nv_body view) CLIPPED_NOTE"
proof -
  let ?tk = "te_tokenizer (ce_text env)"
  have big: "\<not> estimate_tokens ?tk (render_numbered_selection ?tk [line] [0] 1 None) \<le> m"
    using assms(3) by (simp add: render_numbered_selection_def gap_before_def)
  have le: "shrink_preview fits b \<le> b" for fits b
    by (induction fits b rule: shrink_preview.induct) (subst shrink_preview.simps, auto)
  obtain b where b: "preview_budget (ce_text env) (tr_content r) m focus = Some b" "b \<le> m"
  proof (rule that)
    let ?b = "shrink_preview (\<lambda>budget. estimate_tokens ?tk (render_numbered_selection ?tk [line]
      (select_lines (ce_text env) [line] m focus) 1 (Some budget)) \<le> m) (min (max (m - 64) 8) 256)"
    show "preview_budget (ce_text env) (tr_content r) m focus = Some ?b"
      using big by (simp add: preview_budget_def assms(1) Let_def)
    show "?b \<le> m" by (rule order_trans[OF le]) (use assms(2) in auto)
  qed
  have "select_lines (ce_text env) [line] m focus \<noteq> []" using select_lines_nonempty[of "[line]"] by simp
  then have p: "\<not> nv_partial view" using big unfolding view by (simp add: build_numbered_view_def assms(1) Let_def)
  have body: "nv_body view = view_line (ce_text env) (tr_content r) m focus 0"
    using whole_view_body[OF p[unfolded view]] by (simp add: assms(1) view)
  have "\<not> within_budget ?tk (render_numbered_line ?tk 0 line 1 None) (Some b)"
    using assms(3) b(2) by (simp add: within_budget_def)
  then have "ends_with (view_line (ce_text env) (tr_content r) m focus 0) CLIPPED_NOTE"
    by (simp add: view_line_def assms(1) b(1) render_numbered_line_def Let_def within_budget_def ends_with_def suffix_def)
  then show ?thesis using p assms(4-6) by (simp add: body apply_verdict_def assms(1))
qed

text \<open>
  C36. The model selects only among what it was shown: a line of an extraction was in the view under its number and named by the
  model, or it is a failing line with its context or part of a truncation notice; and a result is omitted as a whole only
  when the call succeeded and the view was made of all its lines, none left out. A line is in the view whole when the whole
  text fits the view and otherwise as a preview cut to the view's budget; \<open>clipped_preview_replaced\<close> shows what that leaves
  open for a long line.
\<close>

theorem selection_among_shown:
  assumes "apply_verdict env e r (tr_content r) (build_numbered_view (ce_text env) (tr_content r) m focus) = Some content"
  shows "(\<exists>path keep. content = extract_notice (join newline (elide_from keep 1 0 (str_lines (tr_content r))))
        (length (filter keep [1..<length (str_lines (tr_content r)) + 1])) (length (str_lines (tr_content r))) path \<and>
      selection_justified env e (tr_content r) m focus keep) \<or>
    (\<exists>path. content = replace_notice (length (str_lines (tr_content r))) (to_name r) path \<and> \<not> tr_error r \<and>
      nv_body (build_numbered_view (ce_text env) (tr_content r) m focus) =
        join newline (map (view_line (ce_text env) (tr_content r) m focus) [0..<length (str_lines (tr_content r))]))"
proof -
  let ?lines = "str_lines (tr_content r)" and ?view = "build_numbered_view (ce_text env) (tr_content r) m focus"
  consider (lines) rs path where "kept_ranges env e ?lines ?view = Some rs"
      "content = extract_notice (fst (reconstruct ?lines rs (length ?lines))) (snd (reconstruct ?lines rs (length ?lines))) (length ?lines) path"
    | (whole) path where "\<not> tr_error r" "\<not> nv_partial ?view" "content = replace_notice (length ?lines) (to_name r) path"
    using assms by (auto simp: apply_verdict_def Let_def split: if_splits bind_splits prod.splits)
  then show ?thesis
  proof cases
    case lines
    note S = kept_ranges_sound[OF lines(1)]
    have "selection_justified env e (tr_content r) m focus (in_ranges rs)"
      using S(2) view_shows[of "ce_text env" "tr_content r" m focus]
      by (auto simp: selection_justified_def list_all_iff kept_line_def Let_def)
    moreover have "content = extract_notice (join newline (elide_from (in_ranges rs) 1 0 ?lines))
        (length (filter (in_ranges rs) [1..<length ?lines + 1])) (length ?lines) path"
      using lines(2) kept_count[OF S(1)] by (simp add: reconstruct_sound[OF S(1)]) (simp add: reconstruct_def)
    ultimately show ?thesis by blast
  next
    case whole
    then show ?thesis using whole_view_body[OF whole(2)] by blast
  qed
qed

definition demo_condense :: condense_env where
  "demo_condense =
     \<lparr>ce_text = \<lparr>te_tokenizer = \<lparr>tk_encode = Some (\<lambda>s. replicate (length s) 0), tk_decode = (\<lambda>_. Some []), tk_json = (\<lambda>_. [])\<rparr>,
        te_lower = id, te_pieces = (\<lambda>_. [])\<rparr>,
      ce_pretty = (\<lambda>_. []), ce_decode = (\<lambda>_. None), ce_spill = (\<lambda>_ _. Some ''/tmp/spill'')\<rparr>"

definition demo_result :: tool_output where
  "demo_result = \<lparr>tr_id = ''c1'', tr_content = join newline [''a'', ''b'', ''exit code 1'', ''d'', ''e'', ''f'', ''g''], tr_error = True, to_name = ''shell'',
     to_plain = True\<rparr>"

definition demo_entry :: condense_entry where
  "demo_entry = \<lparr>cn_id = ''c1'', cn_verdict = ''extract'', cn_lines = [''6'']\<rparr>"

lemma demo_extracts:
  "apply_verdict demo_condense demo_entry demo_result (tr_content demo_result)
     (build_numbered_view (ce_text demo_condense) (tr_content demo_result) 500 []) =
   Some (extract_notice (join newline [''a'', ''b'', ''exit code 1'', ''d'', ''e'', ''f'', omitted 1]) 6 7 ''/tmp/spill'')"
  by code_simp

theorem selection_among_shown_witness:
  "\<exists>keep. selection_justified demo_condense demo_entry (tr_content demo_result) 500 [] keep"
  using selection_among_shown[OF demo_extracts] by (auto simp: demo_result_def)

text \<open>A fenced block that is not closed is not read, although the outermost braces would give an answer.\<close>

lemma unclosed_fence_rejected: "\<not> str_contains s ''```'' \<Longrightarrow> response_json (''```json'' @ s) = None"
  by (simp add: response_json_def Let_def str_contains_def find_str_None)

end
