(* ===== verification/BatchCorrect.thy ===== *)
theory BatchCorrect
  imports ToolBatch GuardCorrect CondenseCorrect
begin

text \<open>
  What a whole round of tool calls gives back: one result for each call, under the identifier the call came with.
\<close>

lemma run_task_answers: "answers call (run_task env call)"
  by (auto simp: answers_def run_task_def dest: dispatched_id split: option.split sum.split)

lemma spawned_answer:
  "length blocks = length calls \<Longrightarrow> (\<And>call. answers call (execute call)) \<Longrightarrow>
     list_all2 answers calls (map2 (spawn_call execute) calls blocks)"
  by (induction calls blocks rule: list_induct2') (auto simp: spawn_call_def answers_def error_result_def split: option.split)

lemma capped_ids [simp]: "map tr_id (handle_large_tool_results env rs) = map tr_id rs"
  by (simp add: handle_large_tool_results_def comp_def)

lemma guarded_ids:
  assumes "\<And>call. answers call (execute call)"
  shows "map tr_id (fst (guarded_batch env senv session execute calls st ts ib)) = map ca_id calls"
proof -
  obtain blocks st1 where b: "check_batch env calls st = (blocks, st1)" by force
  obtain rs ts1 where r: "settle_batch senv calls (map2 (spawn_call execute) calls blocks) ts = (rs, ts1)" by force
  have "length blocks = length calls" using check_calls_frame[OF b[unfolded check_batch_calls]] by simp
  from settle_all_ids[OF r[unfolded settle_batch_def] spawned_answer[OF this assms]] b r
  show ?thesis by (simp add: guarded_batch_def split_beta Let_def)
qed

lemma condensed_ids: "only_condensed env rs rs' \<Longrightarrow> map tr_id rs' = map tr_id rs"
  unfolding only_condensed_def by (induction rule: list_all2_induct) (auto simp: condensed_def)

lemma condense_main_ids [simp]: "map tr_id (fst (condense_main_results env calls rs reg)) = map tr_id rs"
  unfolding condense_main_results_def by (rule condensed_ids[OF condense_round_result])

lemma round_ids:
  "map tr_id (fst (execute_tools_with_context env cancelled calls s)) = (if cancelled then [] else map ca_id calls)"
proof -
  obtain st ts ib reg where s: "s = (st, ts, ib, reg)" by (cases s)
  obtain rs st' ts' ib' where g: "guarded_batch (bt_guards env) (bt_settle env) (bt_session env) (run_task env) calls st ts ib =
      (rs, st', ts', ib')" by (metis prod_cases4)
  have "map tr_id rs = map ca_id calls" 
    using guarded_ids[where execute = "run_task env", OF run_task_answers, of "bt_guards env" "bt_settle env" "bt_session env" calls st ts ib]
    by (simp add: g)
  with condense_main_ids[of env calls rs reg] show ?thesis
    by (simp add: execute_tools_with_context_def s g split_beta)
qed

lemma inline_id [simp]: "tr_id (execute_tap_capability_inline print activate call) = ca_id call"
  by (simp add: execute_tap_capability_inline_def error_result_def success_result_def Let_def split: option.split)

definition runs_inline :: "tool_call list \<Rightarrow> bool" where
  "runs_inline calls \<longleftrightarrow> length calls = 1 \<and> list_all is_tap_capability_call calls"

text \<open>
  The inline call passes every guard: it runs whatever the rules of the project are, is not logged and triggers no hook,
  while the same call next to another one is checked.
\<close>

lemma inline_call_unguarded:
  assumes "is_tap_capability_call call"
  shows "\<exists>reg' rs. execute_tools_parallel env print activate cancelled [call] (st, ts, ib, reg) = (rs, st, ts, ib, reg') \<and>
    rs = fst (condense_main_results env [call]
      (handle_large_tool_results (bt_settle env) [execute_tap_capability_inline print activate call]) reg)"
  using assms by (simp add: execute_tools_parallel_def split_beta Let_def)

text \<open>
  C22. A round that is not cancelled answers every call of the model by exactly one result, in the order of the calls and
  under the identifier the call came with: a call that a guard denies, one whose tool is unknown, belongs to another session,
  fails or panics, one whose result is a repeat, is cut to the limit or condensed, and whatever identifier the tool or
  the server put on its result. A cancelled round answers none, except a single capability call, which runs inline.
\<close>

theorem every_call_answered:
  "map tr_id (fst (execute_tools_parallel env print activate cancelled calls s)) =
     (if cancelled \<and> \<not> runs_inline calls then [] else map ca_id calls)"
proof (cases "runs_inline calls")
  case True
  then obtain call where c: "calls = [call]" "is_tap_capability_call call"
    by (auto simp: runs_inline_def length_Suc_conv)
  obtain st ts ib reg where s: "s = (st, ts, ib, reg)" by (cases s)
  have "map tr_id (fst (condense_main_results env calls (handle_large_tool_results (bt_settle env)
      [execute_tap_capability_inline print activate call]) reg)) = map ca_id calls"
    by (subst condense_main_ids) (simp add: c(1))
  then show ?thesis using True c by (simp add: execute_tools_parallel_def s split_beta Let_def)
next
  case False
  then have "execute_tools_parallel env print activate cancelled calls s = execute_tools_in_context env cancelled calls s"
    by (auto simp: execute_tools_parallel_def runs_inline_def split: list.split)
  then show ?thesis using False round_ids[of env cancelled calls s]
    by (auto simp: execute_tools_in_context_def is_tool_allowed_def)
qed

end
