(* ===== verification/Synthesis.thy ===== *)
theory Synthesis
  imports Evolution Messages
begin

text \<open>
  From a proposal of the model to a record of generated behaviour
  (\<open>src/supervisor/learning/evolution/synthesize.rs\<close>): which memories may support it, what scope and authority it gets,
  how it is rendered and checked. The two model calls, the TOML printer and decoder, the regular expressions, the parser
  of skill files, the random identifier and the file system are arguments.
\<close>

section \<open>Memories and proposals\<close>

datatype trajectory_outcome = UnknownOutcome | VerifiedTrajectory | FailedTrajectory

record lesson =
  le_file_id :: string
  le_memory_type :: string
  le_source :: string
  le_scope :: string
  le_created :: string
  le_evidence_handles :: "string list"
  le_outcome :: trajectory_outcome

record proposal =
  po_decision :: string
  po_kind :: string
  po_name :: string
  po_description :: string
  po_scope_project :: string
  po_scope_domain :: string
  po_explicit_scope_quote :: "string option"
  po_activation_rules :: "string list"
  po_body :: string
  po_match_rule :: "string option"
  po_when :: "string list"
  po_has :: "string list"
  po_message :: string
  po_pipe_when :: string
  po_result_regex :: "string option"
  po_hook_on :: string
  po_assistant_match :: "string option"
  po_script_name :: "string option"
  po_script_content :: "string option"
  po_effect :: string
  po_source_memory_ids :: "string list"
  po_supersedes :: "string list"
  po_replay_cases :: "replay_case list"
  po_explicit_authorization :: bool

record verdict =
  vd_supported :: bool
  vd_issues :: "string list"

record generated_script =
  gs_file_name :: string
  gs_content :: string

datatype synth_err =
    ModelError string
  | UnknownDecision string
  | NoSources | UnavailableMemory string
  | ReplayCases | ReplayBudget
  | UnknownKind string | UnknownEffect string
  | SkillIncomplete | ScriptPair | ScriptName string | MissingText string | ScriptRequired string | TriggerRequired string
  | SecretMarker | Unauthorized | NoShebang | SkillUnreadable | SkillWithoutRules | RulesUnreadable guard_err | ScriptMissing
  | UnavailableCapability string | UnloadedServer string
  | RegistryError registry_err
  | NotEnforced string

definition MAX_SOURCE_MEMORIES :: nat where "MAX_SOURCE_MEMORIES = 8"
definition MAX_EVIDENCE_CHARS :: nat where "MAX_EVIDENCE_CHARS = 16000"

text \<open>
  The memories of this session that may support a candidate, the newest first; \<open>before\<close> is the byte order of the
  dates of creation, and the sort is stable.
\<close>

definition may_support :: "string \<Rightarrow> lesson \<Rightarrow> bool" where
  "may_support session m \<longleftrightarrow>
     le_source m = session \<and> le_evidence_handles m \<noteq> [] \<and>
     (le_memory_type m = ''learning'' \<or> (le_memory_type m = ''experience'' \<and> le_outcome m = VerifiedTrajectory))"

fun insert_newest :: "lesson \<Rightarrow> lesson list \<Rightarrow> lesson list" where
  "insert_newest m [] = [m]"
| "insert_newest m (n # ns) = (if byte_less (le_created m) (le_created n) then n # insert_newest m ns else m # n # ns)"

definition newest_first :: "lesson list \<Rightarrow> lesson list" where
  "newest_first ms = foldr insert_newest ms []"

definition source_memories :: "string \<Rightarrow> lesson list \<Rightarrow> lesson list \<Rightarrow> lesson list" where
  "source_memories session scoped global =
     take MAX_SOURCE_MEMORIES (newest_first (filter (may_support session) (scoped @ global)))"

fun select_memories :: "string list \<Rightarrow> lesson list \<Rightarrow> lesson list \<Rightarrow> synth_err + lesson list" where
  "select_memories [] available selected = Inr selected"
| "select_memories (i # is) available selected =
     (case find (\<lambda>m. le_file_id m = i) available of
        None \<Rightarrow> Inl (UnavailableMemory i)
      | Some m \<Rightarrow>
          select_memories is available
            (if list_ex (\<lambda>x. le_file_id x = i) selected then selected else selected @ [m]))"

definition selected_memories :: "proposal \<Rightarrow> lesson list \<Rightarrow> synth_err + lesson list" where
  "selected_memories p available =
     (if po_source_memory_ids p = [] then Inl NoSources else select_memories (po_source_memory_ids p) available [])"

section \<open>Scope and authority\<close>

definition explicit_scope_supported :: "proposal \<Rightarrow> 'x message list \<Rightarrow> bool" where
  "explicit_scope_supported p messages \<longleftrightarrow>
     (case po_explicit_scope_quote p of
        None \<Rightarrow> False
      | Some quote \<Rightarrow>
          trim quote \<noteq> [] \<and>
          list_ex (\<lambda>m. is_real_user_task_message m \<and> str_contains (msg_content m) (trim quote)) messages)"

definition admitted_scope :: "proposal \<Rightarrow> lesson list \<Rightarrow> string \<Rightarrow> string \<Rightarrow> bool \<Rightarrow> artifact_scope" where
  "admitted_scope p source role project explicit_scope =
     (let universal = list_ex (\<lambda>m. le_scope m = ''global'') source
      in \<lparr>as_project = (if po_scope_project p = ''global'' \<and> (universal \<or> explicit_scope) then None else Some project),
          as_domain = (if po_scope_domain p = ''global'' \<and> (universal \<or> explicit_scope) then None
                       else Some (domain_name role))\<rparr>)"

definition parse_kind :: "string \<Rightarrow> synth_err + artifact_kind" where
  "parse_kind k =
     (if k = ''skill'' then Inr SkillArtifact
      else if k = ''pipe'' then Inr PipeArtifact
      else if k = ''guard'' then Inr GuardArtifact
      else if k = ''hook'' then Inr HookArtifact
      else if k = ''validator'' then Inr ValidatorArtifact
      else Inl (UnknownKind k))"

definition effective_class :: "artifact_kind \<Rightarrow> string \<Rightarrow> synth_err + effect_class" where
  "effective_class kind proposed =
     rbind (if proposed = ''advisory'' then Inr Advisory
            else if proposed = ''observational'' then Inr Observational
            else if proposed = ''effectful'' then Inr Effectful
            else Inl (UnknownEffect proposed)) (\<lambda>e. Inr (if kind = SkillArtifact then e else Effectful))"

definition authorized_by :: "proposal \<Rightarrow> lesson list \<Rightarrow> bool" where
  "authorized_by p source \<longleftrightarrow>
     po_explicit_authorization p \<and>
     list_ex (\<lambda>m. le_memory_type m = ''learning'' \<and> le_evidence_handles m \<noteq> []) source"

definition validate_replay_cases :: "replay_case list \<Rightarrow> synth_err + unit" where
  "validate_replay_cases cases =
     rbind (ensure (\<not> (length cases < 2 \<or> \<not> list_ex rc_expected_match cases \<or> \<not> list_ex (\<lambda>c. \<not> rc_expected_match c) cases))
              ReplayCases) (\<lambda>_.
       ensure (\<not> list_ex (\<lambda>c. is_blank (rc_label c) \<or> is_blank (rc_input c) \<or> 2000 < count_chars (rc_input c)) cases)
         ReplayBudget)"

definition target_capability :: "string \<Rightarrow> string" where
  "target_capability t =
     trim (takeWhile (\<lambda>c. c \<noteq> CHR ''('') (trim (dropWhile (\<lambda>c. c = CHR ''+'' \<or> c = CHR ''-'') t)))"

definition referenced_targets :: "proposal \<Rightarrow> artifact_kind \<Rightarrow> string list" where
  "referenced_targets p kind =
     po_when p @ (if kind \<in> {GuardArtifact, HookArtifact}
                  then (case po_match_rule p of Some t \<Rightarrow> [t] | None \<Rightarrow> []) else [])"

definition validate_runtime_references ::
  "proposal \<Rightarrow> artifact_kind \<Rightarrow> string list \<Rightarrow> string list \<Rightarrow> synth_err + unit" where
  "validate_runtime_references p kind capabilities servers =
     rbind (each (\<lambda>t. let capability = target_capability t
                      in ensure (\<not> (capability = [] \<or> capability \<notin> set capabilities)) (UnavailableCapability capability))
              (referenced_targets p kind)) (\<lambda>_.
       each (\<lambda>s. ensure (s \<in> set servers) (UnloadedServer s)) (po_has p))"

section \<open>Names\<close>

definition slug_char :: "char \<Rightarrow> string" where
  "slug_char c =
     (if word_char c \<and> c \<noteq> CHR ''_'' then [lower_char c]
      else if c = CHR '' '' \<or> c = CHR ''-'' \<or> c = CHR ''_'' then ''-'' else [])"

definition trim_dashes :: "string \<Rightarrow> string" where
  "trim_dashes s =
     rev (dropWhile (\<lambda>c. c = CHR ''-'') (rev (dropWhile (\<lambda>c. c = CHR ''-'') s)))"

definition slug :: "string \<Rightarrow> string" where
  "slug v = (let s = trim_dashes (take 36 (concat (map slug_char v))) in if s = [] then ''behavior'' else s)"

text \<open>\<open>uuid\<close> is the random part, in hexadecimal digits.\<close>

definition make_id :: "string \<Rightarrow> string \<Rightarrow> string" where
  "make_id uuid name = ''evo-'' @ slug name @ ''-'' @ take 8 uuid"

definition native_name_of :: "string \<Rightarrow> string \<Rightarrow> string" where
  "native_name_of name i = ''evolved-'' @ slug name @ ''-'' @ drop (length i - 6) i"

definition safe_script_name :: "(string \<Rightarrow> bool) \<Rightarrow> string \<Rightarrow> synth_err + string" where
  "safe_script_name one_component v =
     rbind (ensure (\<not> (is_blank v \<or> v = ''.'' \<or> v = ''..'' \<or> CHR ''/'' \<in> set v \<or> CHR 0x5C \<in> set v \<or> \<not> one_component v))
              (ScriptName v)) (\<lambda>_. Inr v)"

definition upper_char :: "char \<Rightarrow> char" where
  "upper_char c = (let n = of_char c :: nat in if 97 \<le> n \<and> n \<le> 122 then char_of (n - 32) else c)"

definition contains_secret_marker :: "string \<Rightarrow> bool" where
  "contains_secret_marker v =
     list_ex (str_contains (map upper_char v))
       [''BEGIN PRIVATE KEY'', ''BEGIN OPENSSH PRIVATE KEY'', ''AWS_SECRET_ACCESS_KEY='', ''ANTHROPIC_API_KEY='', ''OPENAI_API_KEY='']"

definition required_text :: "string option \<Rightarrow> string \<Rightarrow> synth_err + string" where
  "required_text v field =
     (let v = trim (case v of Some s \<Rightarrow> s | None \<Rightarrow> []) in if v = [] then Inl (MissingText field) else Inr v)"

section \<open>Rendering\<close>

definition empty_or_missing :: "string option \<Rightarrow> bool" where
  "empty_or_missing v \<longleftrightarrow> (case v of Some s \<Rightarrow> s = [] | None \<Rightarrow> True)"

definition has_of :: "string list \<Rightarrow> has_field" where
  "has_of v = (if v = [] then HasNothing else HasMany v)"

definition pipe_when_of :: "string \<Rightarrow> pipe_when" where
  "pipe_when_of s = (if s = ''first'' then FirstMessage else EveryMessage)"

definition hook_on_of :: "string \<Rightarrow> hook_on" where
  "hook_on_of s = (if s = ''success'' then OnSuccess else if s = ''error'' then OnError else OnAny)"

definition no_rules :: raw_file where
  "no_rules = \<lparr>rf_pipes = [], rf_guards = [], rf_hooks = [], rf_validators = []\<rparr>"

text \<open>The script of a proposal: name and content come together or not at all.\<close>

definition proposed_script :: "(string \<Rightarrow> bool) \<Rightarrow> proposal \<Rightarrow> synth_err + generated_script option" where
  "proposed_script one_component p =
     rbind (case po_script_name p of
              Some n \<Rightarrow> rbind (safe_script_name one_component n) (\<lambda>n. Inr (Some n)) | None \<Rightarrow> Inr None) (\<lambda>file_name.
       case (file_name, po_script_content p) of
         (Some f, Some content) \<Rightarrow>
           if \<not> is_blank content then Inr (Some \<lparr>gs_file_name = f, gs_content = content\<rparr>) else Inl ScriptPair
       | (None, None) \<Rightarrow> Inr None
       | _ \<Rightarrow> Inl ScriptPair)"

text \<open>The tables of a generated rule; \<open>script\<close> is the absolute path of the script.\<close>

fun rules_doc ::
  "proposal \<Rightarrow> artifact_kind \<Rightarrow> string list \<Rightarrow> string \<Rightarrow> string option \<Rightarrow> synth_err + raw_file" where
  "rules_doc p PipeArtifact roles i script =
     (case script of
        None \<Rightarrow> Inl (ScriptRequired ''pipe'')
      | Some path \<Rightarrow> rbind (required_text (po_match_rule p) ''pipe match_rule'') (\<lambda>mt.
          Inr (no_rules\<lparr>rf_pipes := [\<lparr>rp_name = i, rp_command = path, rp_match = Some mt,
                 rp_when = pipe_when_of (po_pipe_when p), rp_roles = roles\<rparr>]\<rparr>)))"
| "rules_doc p GuardArtifact roles i script =
     rbind (required_text (po_match_rule p) ''guard match_rule'') (\<lambda>mt.
     rbind (required_text (Some (po_message p)) ''guard message'') (\<lambda>msg.
       Inr (no_rules\<lparr>rf_guards := [\<lparr>rg_match = mt, rg_has = has_of (po_has p), rg_when = po_when p, rg_message = msg\<rparr>]\<rparr>)))"
| "rules_doc p HookArtifact roles i script =
     rbind (ensure (\<not> (empty_or_missing (po_match_rule p) \<and> empty_or_missing (po_result_regex p))) (TriggerRequired ''hook'')) (\<lambda>_.
     (case script of
        None \<Rightarrow> Inl (ScriptRequired ''hook'')
      | Some path \<Rightarrow> Inr (no_rules\<lparr>rf_hooks := [\<lparr>rh_match = po_match_rule p, rh_result = po_result_regex p,
                 rh_on = hook_on_of (po_hook_on p), rh_script = path\<rparr>]\<rparr>)))"
| "rules_doc p ValidatorArtifact roles i script =
     rbind (ensure (\<not> (po_when p = [] \<and> empty_or_missing (po_assistant_match p))) (TriggerRequired ''validator'')) (\<lambda>_.
     (case script of
        None \<Rightarrow> Inl (ScriptRequired ''validator'')
      | Some path \<Rightarrow> Inr (no_rules\<lparr>rf_validators := [\<lparr>rv_name = i, rv_match = po_assistant_match p, rv_when = po_when p,
                 rv_roles = roles, rv_script = path\<rparr>]\<rparr>)))"
| "rules_doc p SkillArtifact roles i script = Inr no_rules"

definition quote_free :: "string \<Rightarrow> string" where
  "quote_free s = map (\<lambda>c. if c = CHR 0x22 \<or> c = CHR 0x0A then CHR '' '' else c) s"

definition skill_text :: "proposal \<Rightarrow> artifact_scope \<Rightarrow> string \<Rightarrow> string" where
  "skill_text p scope name =
     ''---'' @ newline @ ''name: '' @ name @ newline @ ''description: '' @ [CHR 0x22] @ quote_free (po_description p) @ [CHR 0x22] @
     newline @ ''domains: '' @ (case as_domain scope of Some d \<Rightarrow> d | None \<Rightarrow> ''*'') @ newline @ ''rules:'' @ newline @
     join newline (map (\<lambda>r. ''  - '' @ trim r) (po_activation_rules p)) @ newline @ ''---'' @ newline @ newline @
     trim (po_body p) @ newline"

record synth_env =
  sy_toml_print :: "raw_file \<Rightarrow> string"
  sy_toml :: "string \<Rightarrow> string + raw_file"
  sy_regex_ok :: "string \<Rightarrow> string + unit"
  sy_skill_rules :: "string \<Rightarrow> nat option"
  sy_one_component :: "string \<Rightarrow> bool"
  sy_dir :: string
  sy_unix :: bool
  sy_uuid :: string
  sy_now :: string
  sy_generator_model :: string
  sy_verifier_model :: string
  sy_enforces :: "string \<Rightarrow> bool"
  sy_capabilities :: "string list"
  sy_servers :: "string list"
  sy_propose :: "string + proposal"
  sy_judge :: "proposal \<Rightarrow> artifact_scope \<Rightarrow> string \<Rightarrow> string + verdict"

definition absolute_script :: "synth_env \<Rightarrow> string \<Rightarrow> generated_script \<Rightarrow> string" where
  "absolute_script env i s = sy_dir env @ ''/'' @ i @ ''/artifact/'' @ gs_file_name s"

definition render_native ::
  "synth_env \<Rightarrow> proposal \<Rightarrow> artifact_kind \<Rightarrow> artifact_scope \<Rightarrow> string \<Rightarrow> string \<Rightarrow>
   synth_err + string \<times> generated_script option \<times> string" where
  "render_native env p kind scope name i =
     (if kind = SkillArtifact
      then if is_blank (po_description p) \<or> is_blank (po_body p) \<or> po_activation_rules p = [] then Inl SkillIncomplete
           else Inr (skill_text p scope name, None, ''SKILL.md'')
      else rbind (proposed_script (sy_one_component env) p) (\<lambda>script.
           rbind (rules_doc p kind (case as_domain scope of Some d \<Rightarrow> [d] | None \<Rightarrow> []) i
                    (map_option (absolute_script env i) script)) (\<lambda>doc.
             Inr (sy_toml_print env doc, script, ''guardrail.toml''))))"

definition validate_native ::
  "synth_env \<Rightarrow> artifact_kind \<Rightarrow> string \<Rightarrow> generated_script option \<Rightarrow> effect_class \<Rightarrow> bool \<Rightarrow> synth_err + unit" where
  "validate_native env kind native script effect authorized =
     rbind (ensure (\<not> (contains_secret_marker native \<or>
                       (case script of Some s \<Rightarrow> contains_secret_marker (gs_content s) | None \<Rightarrow> False))) SecretMarker) (\<lambda>_.
     rbind (ensure (\<not> (effect = Effectful \<and> \<not> authorized)) Unauthorized) (\<lambda>_.
     rbind (ensure (\<not> (sy_unix env \<and> (case script of Some s \<Rightarrow> \<not> starts_with (gs_content s) ''#!'' | None \<Rightarrow> False)))
              NoShebang) (\<lambda>_.
       if kind = SkillArtifact
       then (case sy_skill_rules env native of
               None \<Rightarrow> Inl SkillUnreadable
             | Some n \<Rightarrow> ensure (n \<noteq> 0) SkillWithoutRules)
       else rbind (map_err RulesUnreadable (parse_guardrails (sy_toml env) (sy_regex_ok env) native)) (\<lambda>_.
              ensure (\<not> (kind \<in> {PipeArtifact, HookArtifact, ValidatorArtifact} \<and> script = None)) ScriptMissing))))"

section \<open>The record\<close>

definition superseded_by :: "proposal \<Rightarrow> artifact_kind \<Rightarrow> artifact_scope \<Rightarrow> registry \<Rightarrow> string list" where
  "superseded_by p kind scope existing =
     List.map_filter (\<lambda>i. map_option ev_id (find (\<lambda>r. ev_id r = i \<and> ev_kind r = kind \<and> ev_scope r = scope) existing))
       (po_supersedes p)"

definition already_covered :: "proposal \<Rightarrow> registry \<Rightarrow> bool" where
  "already_covered p existing \<longleftrightarrow>
     list_ex (\<lambda>r. \<not> retired_or_rejected (ev_state r) \<and>
       list_all (\<lambda>i. i \<in> set (ev_source_memory_ids r)) (po_source_memory_ids p)) existing"

definition new_record ::
  "synth_env \<Rightarrow> proposal \<Rightarrow> artifact_kind \<Rightarrow> artifact_scope \<Rightarrow> effect_class \<Rightarrow> bool \<Rightarrow> lesson list \<Rightarrow> string list \<Rightarrow>
   string \<Rightarrow> generated_script option \<Rightarrow> verdict \<Rightarrow> evolution_record" where
  "new_record env p kind scope effect authorized source superseded path script v =
     (let i = make_id (sy_uuid env) (po_name p);
          st = (if vd_supported v \<and> (effect \<noteq> Effectful \<or> authorized) then ShadowState else RejectedState);
          detail = (if vd_supported v then ''grounding and native contract verified''
                    else ''rejected: '' @ join ''; '' (vd_issues v))
      in \<lparr>ev_schema_version = REGISTRY_SCHEMA_VERSION, ev_id = i, ev_name = native_name_of (po_name p) i,
          ev_description = trim (po_description p), ev_kind = kind, ev_scope = scope, ev_state = st, ev_effect = effect,
          ev_authorized = authorized, ev_source_memory_ids = map le_file_id source,
          ev_evidence = concat (map le_evidence_handles source), ev_replay_cases = po_replay_cases p, ev_artifact_version = 1,
          ev_parent_version = (case superseded of s # _ \<Rightarrow> Some s | [] \<Rightarrow> None), ev_superseded_ids = superseded,
          ev_generator_model = sy_generator_model env, ev_verifier_model = sy_verifier_model env, ev_artifact_path = path,
          ev_script_path = map_option gs_file_name script, ev_shadow_matches = 0, ev_trial_uses = 0, ev_successes = 0,
          ev_failures = 0, ev_false_triggers = 0, ev_created = sy_now env, ev_updated = sy_now env, ev_promoted = None,
          ev_last_used = None, ev_retired = None,
          ev_history = [\<lparr>hv_at = sy_now env, hv_event = state_str st, hv_detail = detail\<rparr>]\<rparr>)"

text \<open>
  A candidate of the model becomes a record of the registry; \<open>Inr None\<close> when there is nothing to propose. A registry that
  cannot be read counts as empty until the record is created.
\<close>

definition admit_proposal ::
  "synth_env \<Rightarrow> 'x message list \<Rightarrow> string \<Rightarrow> string \<Rightarrow> lesson list \<Rightarrow> proposal \<Rightarrow> evolution \<Rightarrow>
   synth_err + (string \<times> evolution) option" where
  "admit_proposal env messages role project memories p s =
     (let existing = (case ef_registry s of Some rs \<Rightarrow> rs | None \<Rightarrow> [])
      in rbind (selected_memories p memories) (\<lambda>source.
         rbind (validate_replay_cases (po_replay_cases p)) (\<lambda>_.
         rbind (parse_kind (po_kind p)) (\<lambda>kind.
         let scope = admitted_scope p source role project (explicit_scope_supported p messages)
         in if already_covered p existing then Inr None
            else rbind (effective_class kind (po_effect p)) (\<lambda>effect.
                 rbind (validate_runtime_references p kind (sy_capabilities env) (sy_servers env)) (\<lambda>_.
                 let authorized = authorized_by p source; i = make_id (sy_uuid env) (po_name p);
                     superseded = superseded_by p kind scope existing
                 in rbind (render_native env p kind scope (native_name_of (po_name p) i) i) (\<lambda>(native, script, path).
                    rbind (validate_native env kind native script effect authorized) (\<lambda>_.
                    rbind (map_err ModelError (sy_judge env p scope native)) (\<lambda>v.
                    rbind (map_err RegistryError (admit_candidate (sy_one_component env) (sy_now env)
                             (new_record env p kind scope effect authorized source superseded path script v) s))
                      (\<lambda>s. Inr (Some (i, s))))))))))))"

definition synthesize ::
  "synth_env \<Rightarrow> 'x message list \<Rightarrow> string \<Rightarrow> string \<Rightarrow> lesson list \<Rightarrow> evolution \<Rightarrow> synth_err + (string \<times> evolution) option" where
  "synthesize env messages role project memories s =
     (if memories = [] then Inr None
      else rbind (ensure (sy_enforces env (sy_generator_model env)) (NotEnforced (sy_generator_model env))) (\<lambda>_.
           rbind (ensure (sy_enforces env (sy_verifier_model env)) (NotEnforced (sy_verifier_model env))) (\<lambda>_.
           rbind (map_err ModelError (sy_propose env)) (\<lambda>p.
             if po_decision p = ''none'' then Inr None
             else if po_decision p \<noteq> ''candidate'' then Inl (UnknownDecision (po_decision p))
             else admit_proposal env messages role project memories p s))))"

definition synthesize_after_extraction ::
  "synth_env \<Rightarrow> bool \<Rightarrow> 'x message list \<Rightarrow> string \<Rightarrow> string \<Rightarrow> string \<Rightarrow> lesson list \<Rightarrow> lesson list \<Rightarrow> evolution \<Rightarrow>
   synth_err + (string \<times> evolution) option" where
  "synthesize_after_extraction env enabled messages role project session scoped global s =
     (if \<not> enabled then Inr None
      else synthesize env messages role project (source_memories session scoped global) s)"

section \<open>What the models are shown\<close>

definition message_id :: "nat \<Rightarrow> string" where
  "message_id i = ''M'' @ show_nat (i + 1)"

definition is_evidence :: "'x message \<Rightarrow> bool" where
  "is_evidence m \<longleftrightarrow> (msg_role m = ''user'' \<and> is_real_user_task_message m) \<or> msg_role m = ''tool''"

fun excerpt_from :: "nat \<Rightarrow> nat \<Rightarrow> 'x message list \<Rightarrow> (string \<times> string \<times> string) list" where
  "excerpt_from i used [] = []"
| "excerpt_from i used (m # ms) =
     (if \<not> is_evidence m \<or> MAX_EVIDENCE_CHARS \<le> used then excerpt_from (i + 1) used ms
      else let content = take_chars (min (MAX_EVIDENCE_CHARS - used) 4000) (msg_content m)
           in (message_id i, msg_role m, content) # excerpt_from (i + 1) (used + count_chars content) ms)"

definition evidence_excerpt :: "'x message list \<Rightarrow> (string \<times> string \<times> string) list" where
  "evidence_excerpt messages = excerpt_from 0 0 messages"

definition cited_index :: "string \<Rightarrow> int option" where
  "cited_index handle = parse_unsigned 64 (rev (takeWhile (\<lambda>c. c \<noteq> CHR ''/'') (rev handle)))"

definition evidence_for_memories :: "'x message list \<Rightarrow> lesson list \<Rightarrow> (string \<times> string \<times> string) list" where
  "evidence_for_memories messages memories =
     (let wanted = List.map_filter cited_index (concat (map le_evidence_handles memories));
          cited = map (\<lambda>(i, m). (message_id i, msg_role m, take_chars 4000 (msg_content m)))
                    (filter (\<lambda>(i, m). int (i + 1) \<in> set wanted \<and> is_evidence m) (enumerate 0 messages))
      in if cited = [] then evidence_excerpt messages else cited)"

end
