(* ===== verification/SynthesisCorrect.thy ===== *)
theory SynthesisCorrect
  imports Synthesis EvolutionCorrect
begin

text \<open>
  What a synthesized record rests on: memories of the session with evidence, an authorization for whatever has effects, a
  wider scope only on the word of the user or of a global memory. A synthesis is a step of the life cycle.
\<close>

lemma selected_available:
  "select_memories is available selected = Inr ms \<Longrightarrow> set selected \<subseteq> set available \<Longrightarrow>
     set ms \<subseteq> set available \<and> set is \<subseteq> le_file_id ` set ms \<union> le_file_id ` set selected \<and> set selected \<subseteq> set ms"
proof (induction "is" arbitrary: selected)
  case Nil
  then show ?case by simp
next
  case (Cons i xs)
  then obtain m where m: "find (\<lambda>m. le_file_id m = i) available = Some m" by (auto split: option.splits)
  then have a: "m \<in> set available" "le_file_id m = i" by (auto simp: find_Some_iff)
  let ?sel = "if list_ex (\<lambda>x. le_file_id x = i) selected then selected else selected @ [m]"
  have "set ?sel \<subseteq> set available" using Cons.prems(2) a by auto
  from Cons.IH[OF _ this] Cons.prems(1) m have
    "set ms \<subseteq> set available \<and> set xs \<subseteq> le_file_id ` set ms \<union> le_file_id ` set ?sel \<and> set ?sel \<subseteq> set ms" by simp
  moreover have "i \<in> le_file_id ` set ?sel" 
  proof (cases "list_ex (\<lambda>x. le_file_id x = i) selected")
    case True
    then obtain x where "x \<in> set selected" "i = le_file_id x" by (auto simp: list_ex_iff)
    then show ?thesis using True by simp
  qed (simp add: a(2))
  ultimately show ?case by (auto split: if_splits)
qed

lemma set_insert_newest [simp]: "set (insert_newest m ms) = insert m (set ms)"
  by (induction ms) auto

lemma set_newest_first [simp]: "set (newest_first ms) = set ms"
  by (induction ms) (simp_all add: newest_first_def)

lemma source_memories_support: "m \<in> set (source_memories session scoped global) \<Longrightarrow> m \<in> set (scoped @ global) \<and> may_support session m"
  by (auto simp: source_memories_def dest!: in_set_takeD)

lemma new_record_candidate: "candidate (new_record env p kind scope effect authorized source superseded path script v)"
  by (auto simp: candidate_def new_record_def Let_def)

lemma selected_props:
  assumes "selected_memories p available = Inr source"
  shows "source \<noteq> [] \<and> set source \<subseteq> set available \<and> set (po_source_memory_ids p) \<subseteq> le_file_id ` set source"
proof -
  have s: "po_source_memory_ids p \<noteq> []" "select_memories (po_source_memory_ids p) available [] = Inr source"
    using assms by (auto simp: selected_memories_def split: if_splits)
  then have "set source \<subseteq> set available \<and> set (po_source_memory_ids p) \<subseteq> le_file_id ` set source"
    using selected_available[OF s(2)] by simp
  moreover from this s(1) have "source \<noteq> []" by (cases "po_source_memory_ids p") auto
  ultimately show ?thesis by simp
qed

lemma admit_proposal_ok:
  assumes "admit_proposal env messages role project memories p s = Inr (Some (i, s'))"
  obtains source kind effect native script path v where
    "selected_memories p memories = Inr source" "parse_kind (po_kind p) = Inr kind" "effective_class kind (po_effect p) = Inr effect"
    "validate_native env kind native script effect (authorized_by p source) = Inr ()"
    "i = make_id (sy_uuid env) (po_name p)"
    "admit_candidate (sy_one_component env) (sy_now env)
       (new_record env p kind (admitted_scope p source role project (explicit_scope_supported p messages)) effect
         (authorized_by p source) source
         (superseded_by p kind (admitted_scope p source role project (explicit_scope_supported p messages))
           (case ef_registry s of Some rs \<Rightarrow> rs | None \<Rightarrow> [])) path script v) s = Inr s'"
  using assms unfolding admit_proposal_def Let_def
  by (auto simp: ok_simps split: if_splits)

lemma synthesize_ok:
  assumes "synthesize_after_extraction env enabled messages role project session scoped global s = Inr (Some (i, s'))"
  shows "\<exists>p. sy_propose env = Inr p \<and>
    admit_proposal env messages role project (source_memories session scoped global) p s = Inr (Some (i, s'))"
  using assms by (auto simp: synthesize_after_extraction_def synthesize_def ok_simps split: if_splits)

lemma effective_class_effectful: "effective_class kind x = Inr effect \<Longrightarrow> kind \<noteq> SkillArtifact \<Longrightarrow> effect = Effectful"
  by (auto simp: effective_class_def ok_simps split: if_splits)

text \<open>A record the user rejected can be named as superseded, as any other.\<close>

lemma rejected_can_be_superseded:
  assumes "r \<in> set existing" and "distinct (map ev_id existing)" and "ev_id r \<in> set (po_supersedes p)"
    and "ev_kind r = kind" and "ev_scope r = scope"
  shows "ev_id r \<in> set (superseded_by p kind scope existing)"
proof -
  have "find (\<lambda>x. ev_id x = ev_id r \<and> ev_kind x = kind \<and> ev_scope x = scope) existing \<noteq> None"
    using assms(1,4,5) by (auto simp: find_None_iff)
  then obtain x where x: "find (\<lambda>x. ev_id x = ev_id r \<and> ev_kind x = kind \<and> ev_scope x = scope) existing = Some x" by auto
  then have "ev_id x = ev_id r" by (auto simp: find_Some_iff)
  with x assms(3) show ?thesis
    by (auto simp: superseded_by_def List.map_filter_def intro!: image_eqI[of _ _ "ev_id r"])
qed

section \<open>Properties\<close>

text \<open>
  C28. Generated behaviour rests on evidence and authority: a synthesized record comes from memories of this session that
  carry evidence and are verified or explicit, whatever is not a skill counts as effectful, an effectful record is
  authorized by an explicit memory, and a scope beyond the project or the domain comes from a global memory or from words
  a genuine request of the user contains. Entering it is a step of the life cycle.
\<close>

theorem synthesis_is_grounded:
  assumes "synthesize_after_extraction env enabled messages role project session scoped global s = Inr (Some (i, s'))"
  shows "\<exists>p source r. sy_propose env = Inr p \<and> ev_id r = i \<and> evolution_step s s' \<and> source \<noteq> [] \<and>
    ev_source_memory_ids r = map le_file_id source \<and>
    admit_candidate (sy_one_component env) (sy_now env) r s = Inr s' \<and>
    (\<forall>m\<in>set source. m \<in> set (scoped @ global) \<and> may_support session m) \<and>
    (ev_kind r \<noteq> SkillArtifact \<longrightarrow> ev_effect r = Effectful) \<and>
    (ev_effect r = Effectful \<longrightarrow> ev_authorized r \<and> (\<exists>m\<in>set source. le_memory_type m = ''learning'')) \<and>
    (as_project (ev_scope r) = None \<or> as_domain (ev_scope r) = None \<longrightarrow>
       (\<exists>m\<in>set source. le_scope m = ''global'') \<or>
       (\<exists>quote m. po_explicit_scope_quote p = Some quote \<and> trim quote \<noteq> [] \<and> m \<in> set messages \<and> is_real_user_task_message m \<and>
          str_contains (msg_content m) (trim quote)))"
proof -
  obtain p where p: "sy_propose env = Inr p"
    "admit_proposal env messages role project (source_memories session scoped global) p s = Inr (Some (i, s'))"
    using synthesize_ok[OF assms] by blast
  obtain source kind effect native script path v where a:
    "selected_memories p (source_memories session scoped global) = Inr source" "parse_kind (po_kind p) = Inr kind"
    "effective_class kind (po_effect p) = Inr effect"
    "validate_native env kind native script effect (authorized_by p source) = Inr ()"
    "i = make_id (sy_uuid env) (po_name p)"
    "admit_candidate (sy_one_component env) (sy_now env)
       (new_record env p kind (admitted_scope p source role project (explicit_scope_supported p messages)) effect
         (authorized_by p source) source
         (superseded_by p kind (admitted_scope p source role project (explicit_scope_supported p messages))
           (case ef_registry s of Some rs \<Rightarrow> rs | None \<Rightarrow> [])) path script v) s = Inr s'" (is "admit_candidate _ _ ?r _ = _")
    by (rule admit_proposal_ok[OF p(2)])
  have step: "evolution_step s s'" by (rule evolution_step.admitted[OF new_record_candidate a(6)])
  have r: "ev_id ?r = i" "ev_source_memory_ids ?r = map le_file_id source" "ev_kind ?r = kind" "ev_effect ?r = effect"
    "ev_authorized ?r = authorized_by p source" "ev_scope ?r = admitted_scope p source role project (explicit_scope_supported p messages)"
    using a(5) by (simp_all add: new_record_def Let_def)
  have src: "source \<noteq> []" "\<forall>m\<in>set source. m \<in> set (scoped @ global) \<and> may_support session m"
    using selected_props[OF a(1)] source_memories_support by blast+
  have auth: "effect = Effectful \<longrightarrow> authorized_by p source" using a(4) by (auto simp: validate_native_def ok_simps)
  have scope: "as_project (ev_scope ?r) = None \<or> as_domain (ev_scope ?r) = None \<longrightarrow>
      list_ex (\<lambda>m. le_scope m = ''global'') source \<or> explicit_scope_supported p messages"
    unfolding r(6) by (auto simp: admitted_scope_def Let_def split: if_splits)
  have learned: "ev_effect ?r = Effectful \<longrightarrow> ev_authorized ?r \<and> (\<exists>m\<in>set source. le_memory_type m = ''learning'')"
    using auth unfolding r(4,5) by (auto simp: authorized_by_def list_ex_iff)
  have wide: "as_project (ev_scope ?r) = None \<or> as_domain (ev_scope ?r) = None \<longrightarrow>
       (\<exists>m\<in>set source. le_scope m = ''global'') \<or>
       (\<exists>quote m. po_explicit_scope_quote p = Some quote \<and> trim quote \<noteq> [] \<and> m \<in> set messages \<and> is_real_user_task_message m \<and>
          str_contains (msg_content m) (trim quote))"
    using scope by (auto simp: list_ex_iff explicit_scope_supported_def simp del: r split: option.splits)
  have kind: "ev_kind ?r \<noteq> SkillArtifact \<longrightarrow> ev_effect ?r = Effectful"
    unfolding r(3,4) using effective_class_effectful[OF a(3)] by simp
  show ?thesis by (intro exI conjI) (rule p(1) r(1) step src(1) r(2) a(6) src(2) kind learned wide)+
qed

definition demo_proposal :: proposal where
  "demo_proposal = \<lparr>po_decision = ''candidate'', po_kind = ''guard'', po_name = ''x'', po_description = ''d'',
     po_scope_project = ''current'', po_scope_domain = ''current'', po_explicit_scope_quote = None, po_activation_rules = [],
     po_body = [], po_match_rule = Some ''shell'', po_when = [], po_has = [], po_message = ''no'', po_pipe_when = ''any'',
     po_result_regex = None, po_hook_on = ''any'', po_assistant_match = None, po_script_name = None, po_script_content = None,
     po_effect = ''effectful'', po_source_memory_ids = [''m1''], po_supersedes = [],
     po_replay_cases = [\<lparr>rc_label = ''a'', rc_input = ''b'', rc_expected_match = True, rc_boundary = False\<rparr>,
                        \<lparr>rc_label = ''c'', rc_input = ''d'', rc_expected_match = False, rc_boundary = False\<rparr>],
     po_explicit_authorization = True\<rparr>"

definition demo_lesson :: lesson where
  "demo_lesson = \<lparr>le_file_id = ''m1'', le_memory_type = ''learning'', le_source = ''s'', le_scope = ''scoped'', le_created = [],
     le_evidence_handles = [''session://s/message/1''], le_outcome = UnknownOutcome\<rparr>"

definition demo_synth :: synth_env where
  "demo_synth = \<lparr>sy_toml_print = (\<lambda>_. ''t''), sy_toml = (\<lambda>_. Inr no_rules), sy_regex_ok = (\<lambda>_. Inr ()),
     sy_skill_rules = (\<lambda>_. None), sy_one_component = (\<lambda>_. True), sy_dir = ''/d'', sy_unix = True, sy_uuid = ''01234567'',
     sy_now = [], sy_generator_model = ''g'', sy_verifier_model = ''v'', sy_enforces = (\<lambda>_. True),
     sy_capabilities = [''shell''], sy_servers = [], sy_propose = Inr demo_proposal,
     sy_judge = (\<lambda>_ _ _. Inr \<lparr>vd_supported = True, vd_issues = []\<rparr>)\<rparr>"

lemma demo_trims: "trim ''a'' = ''a''" "trim ''b'' = ''b''" "trim ''c'' = ''c''" "trim ''d'' = ''d''" "trim ''shell'' = ''shell''"
  "trim ''no'' = ''no''" "trim ''guardrail.toml'' = ''guardrail.toml''"
  by (rule trim_printable; simp add: visible_def)+

lemma demo_synthesized:
  "\<exists>i s'. synthesize_after_extraction demo_synth True ([] :: unit message list) ''r'' ''p'' ''s'' [demo_lesson] []
     (demo_evolution []) = Inr (Some (i, s'))"
  by (simp add: synthesize_after_extraction_def synthesize_def admit_proposal_def source_memories_def newest_first_def
      may_support_def demo_lesson_def demo_synth_def demo_proposal_def demo_evolution_def ensure_def selected_memories_def
      validate_replay_cases_def is_blank_def demo_trims count_chars_def is_continuation_def parse_kind_def already_covered_def
      effective_class_def validate_runtime_references_def referenced_targets_def target_capability_def render_native_def
      proposed_script_def required_text_def validate_native_def contains_secret_marker_def upper_char_def str_contains_def
      authorized_by_def parse_guardrails_def no_rules_def admit_candidate_def create_record_def new_record_def Let_def
      validate_relative_file_def starts_with_def MAX_SOURCE_MEMORIES_def sublist_Cons_right)

theorem synthesis_is_grounded_witness:
  "\<exists>r s'. evolution_step (demo_evolution []) s' \<and>
     admit_candidate (\<lambda>_. True) [] r (demo_evolution []) = Inr s'"
proof -
  obtain i s' where s: "synthesize_after_extraction demo_synth True ([] :: unit message list) ''r'' ''p'' ''s'' [demo_lesson] []
     (demo_evolution []) = Inr (Some (i, s'))" using demo_synthesized by blast
  from synthesis_is_grounded[OF s] show ?thesis by (auto simp: demo_synth_def)
qed

end
