(* ===== verification/Anchor.thy ===== *)
theory Anchor
  imports Messages
begin

unbundle bit_operations_syntax

text \<open>
  The session anchor (\<open>src/session/anchor.rs\<close>): the facts that outlive compactions, the merge of an update, the
  signature of a request and the rendering. The two updates a conversation compaction makes
  (\<open>src/session/chat/conversation_compression/apply.rs\<close>) are here as well.
\<close>

record anchor =
  an_intent :: string
  an_changes_made :: "string list"
  an_decisions :: "string list"
  an_file_refs :: "string list"
  an_errors_seen :: "string list"
  an_next_steps :: "string list"
  an_intent_task_sig :: u64
  an_compactions_folded :: u32
  an_last_compacted_at :: u64

record anchor_update =
  au_intent :: "string option"
  au_changes_made :: "string list"
  au_decisions :: "string list"
  au_file_refs :: "string list"
  au_errors_seen :: "string list"
  au_next_steps :: "string list"
  au_intent_task_sig :: "u64 option"

definition new_anchor :: anchor where
  "new_anchor = \<lparr>an_intent = [], an_changes_made = [], an_decisions = [], an_file_refs = [], an_errors_seen = [],
     an_next_steps = [], an_intent_task_sig = 0, an_compactions_folded = 0, an_last_compacted_at = 0\<rparr>"

definition no_update :: anchor_update where
  "no_update = \<lparr>au_intent = None, au_changes_made = [], au_decisions = [], au_file_refs = [], au_errors_seen = [],
     au_next_steps = [], au_intent_task_sig = None\<rparr>"

text \<open>FNV-1a over the bytes of the trimmed request; \<open>0\<close> is reserved.\<close>

definition fnv_step :: "u64 \<Rightarrow> char \<Rightarrow> u64" where
  "fnv_step h c = (h XOR of_nat (of_char c)) * 0x100000001b3"

definition task_sig :: "string \<Rightarrow> u64" where
  "task_sig task = (let h = foldl fnv_step 0xcbf29ce484222325 (trim task) in if h = 0 then 1 else h)"

definition anchor_is_empty :: "anchor \<Rightarrow> bool" where
  "anchor_is_empty a \<longleftrightarrow>
     an_intent a = [] \<and> an_changes_made a = [] \<and> an_decisions a = [] \<and> an_file_refs a = [] \<and>
     an_errors_seen a = [] \<and> an_next_steps a = []"

fun extend_dedup :: "string list \<Rightarrow> string list \<Rightarrow> string list" where
  "extend_dedup target [] = target"
| "extend_dedup target (item # items) =
     (let item = trim item
      in extend_dedup (if item = [] \<or> item \<in> set target then target else target @ [item]) items)"

definition set_intent :: "anchor_update \<Rightarrow> anchor \<Rightarrow> anchor" where
  "set_intent u a =
     (case au_intent u of
        None \<Rightarrow> a
      | Some intent \<Rightarrow>
          if trim intent = [] then a
          else a\<lparr>an_intent := trim intent,
                 an_intent_task_sig := (case au_intent_task_sig u of Some s \<Rightarrow> s | None \<Rightarrow> 0)\<rparr>)"

definition extend_anchor :: "anchor_update \<Rightarrow> u64 \<Rightarrow> anchor \<Rightarrow> anchor" where
  "extend_anchor u now a =
     (let a = set_intent u a
      in a\<lparr>an_changes_made := extend_dedup (an_changes_made a) (au_changes_made u),
           an_decisions := extend_dedup (an_decisions a) (au_decisions u),
           an_file_refs := extend_dedup (an_file_refs a) (au_file_refs u),
           an_errors_seen := extend_dedup (an_errors_seen a) (au_errors_seen u),
           an_next_steps := (if au_next_steps u \<noteq> [] then au_next_steps u else an_next_steps a),
           an_compactions_folded := saturating_succ (an_compactions_folded a),
           an_last_compacted_at := now\<rparr>)"

definition element :: "string \<Rightarrow> string \<Rightarrow> string" where
  "element name content = ''<'' @ name @ ''>'' @ content @ ''</'' @ name @ ''>'' @ newline"

definition render_list :: "string \<Rightarrow> string \<Rightarrow> string list \<Rightarrow> string" where
  "render_list outer item items =
     (let kept = filter (\<lambda>s. \<not> is_blank s) items
      in if kept = [] then []
         else ''<'' @ outer @ ''>'' @ newline @ concat (map (\<lambda>v. element item (trim v)) kept) @
              ''</'' @ outer @ ''>'' @ newline)"

definition anchor_to_xml :: "anchor \<Rightarrow> string" where
  "anchor_to_xml a =
     (if an_intent a \<noteq> [] then element ''intent'' (trim (an_intent a)) else []) @
     render_list ''decisions'' ''decision'' (an_decisions a) @
     render_list ''changes_made'' ''change'' (an_changes_made a) @
     render_list ''errors_seen'' ''entry'' (an_errors_seen a) @
     render_list ''file_references'' ''file'' (an_file_refs a) @
     render_list ''next_steps'' ''step'' (an_next_steps a) @
     (if an_compactions_folded a \<noteq> 0 then element ''folds'' (show_nat (unat (an_compactions_folded a))) else [])"

section \<open>The updates of a compaction\<close>

definition live_sig :: "'x message list \<Rightarrow> u64 option" where
  "live_sig messages = map_option task_sig (latest_real_user_task_content messages)"

text \<open>The goal the compaction resolved, before the fold.\<close>

definition repoint_anchor :: "string \<Rightarrow> 'x message list \<Rightarrow> u64 \<Rightarrow> anchor \<Rightarrow> anchor" where
  "repoint_anchor goal messages now a =
     (if is_blank goal then a
      else extend_anchor (no_update\<lparr>au_intent := Some goal, au_intent_task_sig := live_sig messages\<rparr>) now a)"

text \<open>
  The record of the fold afterwards: \<open>action\<close> is the attributed next action, \<open>current_task\<close> the model's, \<open>resolve_intent\<close>
  the resolution of the last request.
\<close>

definition intent_seed :: "string option \<Rightarrow> string \<Rightarrow> string \<Rightarrow> anchor \<Rightarrow> string option" where
  "intent_seed action current_task resolve_intent a =
     (let current = (case action of Some s \<Rightarrow> s | None \<Rightarrow> trim current_task);
          resolved = (if current = [] then resolve_intent else current)
      in if resolved \<noteq> [] then Some resolved
         else if an_intent a = [] then Some ''Free-form conversation session'' else None)"

definition record_fold_in_anchor ::
  "string option \<Rightarrow> string \<Rightarrow> string \<Rightarrow> nat \<Rightarrow> nat \<Rightarrow> 'x message list \<Rightarrow> u64 \<Rightarrow> anchor \<Rightarrow> anchor" where
  "record_fold_in_anchor action current_task resolve_intent folded saved messages now a =
     extend_anchor (no_update\<lparr>au_intent := intent_seed action current_task resolve_intent a,
         au_intent_task_sig := live_sig messages,
         au_changes_made := [''Conversation compaction: '' @ show_nat folded @ '' messages folded, '' @ show_nat saved @
           '' tokens saved'']\<rparr>) now a"

end
