(* ===== verification/Recite.thy ===== *)
theory Recite
  imports Anchor PlanSidecar Gate
begin

text \<open>
  Recitation (\<open>src/supervisor/recite.rs\<close>): the prohibitions of a request, the note that repeats goal, plan and
  constraints at the end of the context, and the place where a turn injects it
  (\<open>src/session/chat/session/api_executor.rs\<close>). The lower-casing of Unicode is an argument.
\<close>

section \<open>Constraints of a request\<close>

definition CONSTRAINTS_MAX :: nat where "CONSTRAINTS_MAX = 8"
definition CONSTRAINT_LEN_MAX :: nat where "CONSTRAINT_LEN_MAX = 200"

definition constraint_markers :: "string list" where
  "constraint_markers = [''do not '', ''don'' @ [CHR 0x27] @ ''t '', ''never '', ''must not '', ''not allowed'', ''forbidden'']"

text \<open>The first characters of a transcript: a quote sign or a box-drawing character.\<close>

definition decoration :: "string list" where
  "decoration = ''>'' # map bytes [[0xE2, 0x94, 0x82], [0xE2, 0x95, 0xAD], [0xE2, 0x95, 0xB0], [0xE2, 0x94, 0x9C],
     [0xE2, 0x94, 0x94], [0xE2, 0x94, 0x83], [0xE2, 0x96, 0xB8], [0xE2, 0x94, 0x86], [0xE2, 0x95, 0x91]]"

definition is_quoted_material :: "string \<Rightarrow> bool" where
  "is_quoted_material s \<longleftrightarrow>
     list_ex (starts_with s) decoration \<or>
     (let digits = length (takeWhile is_digit s) in 0 < digits \<and> starts_with (drop digits s) '':'')"

text \<open>\<open>split_inclusive\<close> at the ends of sentences.\<close>

definition sentence_end :: "char \<Rightarrow> bool" where
  "sentence_end c \<longleftrightarrow> c = CHR ''.'' \<or> c = CHR ''!'' \<or> c = CHR '';''"

fun split_inclusive :: "string \<Rightarrow> string \<Rightarrow> string list" where
  "split_inclusive cur [] = (if cur = [] then [] else [rev cur])"
| "split_inclusive cur (c # cs) =
     (if sentence_end c then rev (c # cur) # split_inclusive [] cs else split_inclusive (c # cur) cs)"

definition list_marks :: "string list" where
  "list_marks = [''-'', ''*'', bytes [0xE2, 0x80, 0xA2]]"

definition clean_unit :: "string \<Rightarrow> string" where
  "clean_unit u =
     trim (dropWhile (\<lambda>c. is_digit c \<or> c = CHR ''.'' \<or> c = CHR '')'') (strip_front list_marks (trim u)))"

definition opening_quotes :: "string list" where
  "opening_quotes = [[CHR 0x22], [CHR 0x27], bytes [0xE2, 0x80, 0x9C], bytes [0xE2, 0x80, 0x9D], bytes [0xE2, 0x80, 0x98], [CHR 0x60]]"

definition is_directive :: "(string \<Rightarrow> string) \<Rightarrow> string \<Rightarrow> bool" where
  "is_directive lower u \<longleftrightarrow>
     \<not> (u = [] \<or> CONSTRAINT_LEN_MAX < length u \<or> ends_with u ''?'') \<and> \<not> list_ex (starts_with u) opening_quotes \<and>
     list_ex (str_contains (lower u)) constraint_markers"

text \<open>The units of one line; the flag says that the limit is reached.\<close>

fun take_units :: "(string \<Rightarrow> string) \<Rightarrow> string list \<Rightarrow> string list \<Rightarrow> bool \<times> string list" where
  "take_units lower [] out = (False, out)"
| "take_units lower (u # us) out =
     (let u = clean_unit u
      in if is_directive lower u \<and> u \<notin> set out
         then if CONSTRAINTS_MAX \<le> length out + 1 then (True, out @ [u]) else take_units lower us (out @ [u])
         else take_units lower us out)"

fun take_lines :: "(string \<Rightarrow> string) \<Rightarrow> bool \<Rightarrow> string list \<Rightarrow> string list \<Rightarrow> string list" where
  "take_lines lower in_fence [] out = out"
| "take_lines lower in_fence (l # ls) out =
     (let s = trim_start l
      in if starts_with s ''```'' \<or> starts_with s ''~~~'' then take_lines lower (\<not> in_fence) ls out
         else if in_fence \<or> is_quoted_material s then take_lines lower in_fence ls out
         else case take_units lower (split_inclusive [] l) out of
                (True, out) \<Rightarrow> out
              | (False, out) \<Rightarrow> take_lines lower in_fence ls out)"

definition extract_constraints :: "(string \<Rightarrow> string) \<Rightarrow> string \<Rightarrow> string list" where
  "extract_constraints lower task = take_lines lower False (str_lines task) []"

fun add_facts :: "string list \<Rightarrow> string list \<Rightarrow> string list" where
  "add_facts [] out = out"
| "add_facts (f # fs) out =
     (let f = trim f
      in add_facts fs (if f \<noteq> [] \<and> length out < CONSTRAINTS_MAX \<and> f \<notin> set out then out @ [f] else out))"

definition active_constraints ::
  "(string \<Rightarrow> string) \<Rightarrow> 'x message list \<Rightarrow> resolved_task option \<Rightarrow> string list" where
  "active_constraints lower messages resolved =
     (let request = (case resolved of
            Some t \<Rightarrow> if trim (rt_resolved_request t) \<noteq> [] then Some (trim (rt_resolved_request t))
                      else latest_real_user_task_content messages
          | None \<Rightarrow> latest_real_user_task_content messages);
          out = (case request of Some r \<Rightarrow> extract_constraints lower r | None \<Rightarrow> [])
      in add_facts (case resolved of Some t \<Rightarrow> rt_operational_constraints t | None \<Rightarrow> []) out)"

section \<open>The note\<close>

text \<open>A goal is recited only while it is the goal: its signature is known and is that of the live request, if any.\<close>

definition goal_is_live :: "anchor \<Rightarrow> u64 option \<Rightarrow> bool" where
  "goal_is_live a current_task_sig \<longleftrightarrow>
     (if an_intent_task_sig a = 0 then False
      else case current_task_sig of Some s \<Rightarrow> an_intent_task_sig a = s | None \<Rightarrow> True)"

definition boundary_line :: "verification_policy \<Rightarrow> string" where
  "boundary_line p =
     (case p of
        Forbidden \<Rightarrow>
          ''Current execution boundary (not task scope): do not execute tests, builds, checks, validators, or other '' @
          ''verification. Source inspection and requested edits may continue.'' @ newline
      | Allowed \<Rightarrow>
          ''Standing user execution boundary (not task scope): the user has revoked the prior no-verification rule. '' @
          ''Relevant verification is permitted, not required.'' @ newline
      | Unspecified \<Rightarrow> [])"

definition route_lines :: "string option \<Rightarrow> string list \<Rightarrow> string" where
  "route_lines checklist next_steps =
     (case (case checklist of Some c \<Rightarrow> if trim c = [] then None else Some (trim c) | None \<Rightarrow> None) of
        Some c \<Rightarrow> escape_xml_text c @ newline
      | None \<Rightarrow>
          if next_steps = [] then []
          else ''Last-known next steps (may be stale '' @ long_dash @ '' re-check against current state):'' @ newline @
               concat (map (\<lambda>s. ''- '' @ escape_xml_text (trim s) @ newline) (filter (\<lambda>s. \<not> is_blank s) next_steps)))"

definition recite_note ::
  "anchor \<Rightarrow> string option \<Rightarrow> string list \<Rightarrow> u64 option \<Rightarrow> verification_policy \<Rightarrow> string option" where
  "recite_note a checklist constraints current_task_sig policy =
     (let live = goal_is_live a current_task_sig;
          intent = (if live then an_intent a else []);
          next_steps = (if live then an_next_steps a else [])
      in if intent = [] \<and> next_steps = [] \<and> checklist = None \<and> constraints = [] \<and> policy = Unspecified then None
         else Some (
           ''<pay-attention>'' @ newline @ ''Re-anchor on your task:'' @ newline @
           (if intent \<noteq> [] then ''Goal (fixed): <intent>'' @ escape_xml_text (trim intent) @ ''</intent>'' @ newline else []) @
           route_lines checklist next_steps @
           (if constraints \<noteq> []
            then ''Constraints from the request '' @ long_dash @ '' verbatim, still binding; violating one voids the work:'' @
                 newline @ concat (map (\<lambda>c. ''- '' @ escape_xml_text c @ newline) constraints)
            else []) @
           boundary_line policy @ ''</pay-attention>''))"

text \<open>The note of a turn.\<close>

definition recitation ::
  "(string \<Rightarrow> string) \<Rightarrow> bool \<Rightarrow> anchor \<Rightarrow> plan_store \<Rightarrow> verification_policy \<Rightarrow> resolved_task option \<Rightarrow> 'x message list \<Rightarrow>
   string option" where
  "recitation lower enabled a plan policy resolved messages =
     (if \<not> enabled then None
      else recite_note a (render_plan_checklist_with_staleness (latest_task_timestamp messages) plan)
             (active_constraints lower messages resolved) (live_sig messages)
             (policy_effective (case resolved of Some t \<Rightarrow> rt_forbids_verification t | None \<Rightarrow> False) policy))"

end
