(* ===== verification/ReciteCorrect.thy ===== *)
theory ReciteCorrect
  imports Recite
begin

text \<open>
  The anchor as a function of the updates it received, the goal a turn recites, and the constraints: they are words of the
  request.
\<close>

section \<open>The anchor\<close>

definition anchor_run :: "(anchor_update \<times> u64) list \<Rightarrow> anchor" where
  "anchor_run us = fold (\<lambda>(u, now). extend_anchor u now) us new_anchor"

lemma anchor_run_simps [simp]:
  "anchor_run [] = new_anchor" "anchor_run (us @ [(u, now)]) = extend_anchor u now (anchor_run us)"
  by (simp_all add: anchor_run_def)

text \<open>An entry as it is kept: trimmed and not empty.\<close>

definition entries_ok :: "string list \<Rightarrow> bool" where
  "entries_ok xs \<longleftrightarrow> distinct xs \<and> (\<forall>x\<in>set xs. x \<noteq> [] \<and> trim x = x)"

lemma entries_ok_snoc: "entries_ok xs \<Longrightarrow> trim x \<noteq> [] \<Longrightarrow> trim x \<notin> set xs \<Longrightarrow> entries_ok (xs @ [trim x])"
  unfolding entries_ok_def by (simp add: ball_Un)

lemma extend_dedup_ok: "entries_ok xs \<Longrightarrow> entries_ok (extend_dedup xs items)"
  by (induction items arbitrary: xs) (simp_all add: Let_def entries_ok_snoc)

lemma extend_dedup_prefix: "prefix xs (extend_dedup xs items)"
proof (induction items arbitrary: xs)
  case Nil
  then show ?case by simp
next
  case (Cons x items)
  from Cons[of xs] Cons[of "xs @ [trim x]"] show ?case by (auto simp: Let_def dest: append_prefixD)
qed

lemma extend_dedup_set: "set (extend_dedup xs items) = set xs \<union> (trim ` set items - {[]})"
  by (induction items arbitrary: xs) (auto simp: Let_def)

definition anchor_ok :: "anchor \<Rightarrow> bool" where
  "anchor_ok a \<longleftrightarrow>
     trim (an_intent a) = an_intent a \<and> entries_ok (an_changes_made a) \<and> entries_ok (an_decisions a) \<and>
     entries_ok (an_file_refs a) \<and> entries_ok (an_errors_seen a)"

lemma extend_anchor_ok: "anchor_ok a \<Longrightarrow> anchor_ok (extend_anchor u now a)"
  by (auto simp: anchor_ok_def extend_anchor_def set_intent_def Let_def extend_dedup_ok split: option.split)

lemma anchor_run_ok: "anchor_ok (anchor_run us)"
  by (induction us rule: rev_induct)
    (auto simp: anchor_ok_def[of new_anchor] entries_ok_def extend_anchor_ok, auto simp: new_anchor_def)

text \<open>The last update that sets the goal.\<close>

definition sets_goal :: "anchor_update \<Rightarrow> bool" where
  "sets_goal u \<longleftrightarrow> (case au_intent u of Some g \<Rightarrow> trim g \<noteq> [] | None \<Rightarrow> False)"

definition goal_of :: "anchor_update list \<Rightarrow> string \<times> u64" where
  "goal_of us =
     (case rposition sets_goal us of
        None \<Rightarrow> ([], 0)
      | Some i \<Rightarrow> (trim (the (au_intent (us ! i))), case au_intent_task_sig (us ! i) of Some s \<Rightarrow> s | None \<Rightarrow> 0))"

lemma rposition_snoc: "rposition p (xs @ [x]) = (if p x then Some (length xs) else rposition p xs)"
  by (induction xs) (auto split: option.split)

lemma goal_history: "(an_intent (anchor_run us), an_intent_task_sig (anchor_run us)) = goal_of (map fst us)"
proof (induction us rule: rev_induct)
  case Nil
  then show ?case by (simp add: goal_of_def new_anchor_def)
next
  case (snoc x us)
  obtain u now where x: "x = (u, now)" by force
  have "goal_of (map fst (us @ [x])) =
      (if sets_goal u then (trim (the (au_intent u)), case au_intent_task_sig u of Some s \<Rightarrow> s | None \<Rightarrow> 0) else goal_of (map fst us))"
    using rposition_Some[of sets_goal "map fst us"]
    by (auto simp: goal_of_def rposition_snoc x nth_append split: option.split)
  then show ?case using snoc
    by (auto simp: x extend_anchor_def set_intent_def Let_def sets_goal_def split: option.splits)
qed

section \<open>Words of the request\<close>

lemma trim_sublist: "sublist (trim s) s"
proof -
  have "prefix (trim s) (trim_start s)" by (simp add: trim_def trim_end_prefix)
  moreover have "suffix (trim_start s) s" by (simp add: trim_start_def strip_front_suffix)
  ultimately show ?thesis by (meson prefix_imp_sublist suffix_imp_sublist sublist_order.order_trans)
qed

lemma clean_unit_sublist: "sublist (clean_unit u) u"
proof -
  let ?s = "strip_front list_marks (trim u)"
  have "sublist (clean_unit u) (dropWhile (\<lambda>c. is_digit c \<or> c = CHR ''.'' \<or> c = CHR '')'') ?s)"
    unfolding clean_unit_def by (rule trim_sublist)
  moreover have "sublist (dropWhile (\<lambda>c. is_digit c \<or> c = CHR ''.'' \<or> c = CHR '')'') ?s) ?s"
    by (rule suffix_imp_sublist) (rule suffix_dropWhile)
  moreover have "sublist ?s (trim u)" by (rule suffix_imp_sublist) (rule strip_front_suffix)
  ultimately show ?thesis using trim_sublist[of u] by (meson sublist_order.order_trans)
qed

lemma split_inclusive_pieces: "u \<in> set (split_inclusive cur s) \<Longrightarrow> sublist u (rev cur @ s)"
proof (induction cur s rule: split_inclusive.induct)
  case (1 cur)
  then show ?case by (auto split: if_splits)
next
  case (2 cur c cs)
  show ?case
  proof (cases "sentence_end c")
    case True
    then consider "u = rev (c # cur)" | "u \<in> set (split_inclusive [] cs)" using "2.prems" by auto
    then show ?thesis
    proof cases
      case 1
      have "prefix u (rev cur @ c # cs)" unfolding 1 by simp
      then show ?thesis by (rule prefix_imp_sublist)
    next
      case 2
      with "2.IH"(1) True have "sublist u cs" by simp
      then show ?thesis by (simp add: sublist_append sublist_Cons_right)
    qed
  next
    case False
    then show ?thesis using "2.IH"(2) "2.prems" by simp
  qed
qed

lemma strip_cr_prefix: "prefix (strip_cr l) l"
  by (auto simp: strip_cr_def intro: prefix_order.trans) (metis append_butlast_last_id prefixI)

lemma lines_from_pieces: "l \<in> set (lines_from cur s) \<Longrightarrow> sublist l (rev cur @ s)"
proof (induction cur s rule: lines_from.induct)
  case (1 cur)
  then show ?case by (auto split: if_splits)
next
  case (2 cur c cs)
  show ?case
  proof (cases "c = CHR 0x0A")
    case True
    then consider "l = strip_cr (rev cur)" | "l \<in> set (lines_from [] cs)" using "2.prems" by auto
    then show ?thesis
    proof cases
      case 1
      have "prefix l (rev cur @ c # cs)" unfolding 1 using strip_cr_prefix by (metis prefix_prefix)
      then show ?thesis by (rule prefix_imp_sublist)
    next
      case 2
      with "2.IH"(1) True have "sublist l cs" by simp
      then show ?thesis by (simp add: sublist_append sublist_Cons_right)
    qed
  next
    case False
    then show ?thesis using "2.IH"(2) "2.prems" by simp
  qed
qed

section \<open>Constraints\<close>

text \<open>What every constraint taken from a request is.\<close>

definition constraint_of :: "(string \<Rightarrow> string) \<Rightarrow> string \<Rightarrow> string \<Rightarrow> bool" where
  "constraint_of lower task c \<longleftrightarrow> sublist c task \<and> is_directive lower c"

definition constraints_ok :: "(string \<Rightarrow> string) \<Rightarrow> string \<Rightarrow> string list \<Rightarrow> bool" where
  "constraints_ok lower task out \<longleftrightarrow>
     distinct out \<and> length out \<le> CONSTRAINTS_MAX \<and> (\<forall>c\<in>set out. constraint_of lower task c)"

lemma take_units_ok:
  assumes "take_units lower us out = (full, out')" and "constraints_ok lower task out" and "length out < CONSTRAINTS_MAX"
    and "\<forall>u\<in>set us. sublist u task"
  shows "constraints_ok lower task out' \<and> (\<not> full \<longrightarrow> length out' < CONSTRAINTS_MAX)"
  using assms
proof (induction us arbitrary: out)
  case Nil
  then show ?case by simp
next
  case (Cons u us)
  let ?u = "clean_unit u"
  have sub: "sublist ?u task" using Cons.prems(4) clean_unit_sublist[of u] by (auto intro: sublist_order.order_trans)
  show ?case
  proof (cases "is_directive lower ?u \<and> ?u \<notin> set out")
    case True
    then have ok: "constraints_ok lower task (out @ [?u])"
      using Cons.prems(2,3) sub by (auto simp: constraints_ok_def constraint_of_def)
    then show ?thesis using Cons True by (auto simp: Let_def split: if_splits)
  next
    case False
    then show ?thesis using Cons by (auto simp: Let_def)
  qed
qed

lemma take_lines_ok:
  assumes "constraints_ok lower task out" and "length out < CONSTRAINTS_MAX" and "\<forall>l\<in>set ls. sublist l task"
  shows "constraints_ok lower task (take_lines lower in_fence ls out)"
  using assms
proof (induction ls arbitrary: in_fence out)
  case Nil
  then show ?case by simp
next
  case (Cons l ls)
  obtain full out' where t: "take_units lower (split_inclusive [] l) out = (full, out')" by force
  have "\<forall>u\<in>set (split_inclusive [] l). sublist u task"
    using split_inclusive_pieces[of _ "[]" l] Cons.prems(3) by (auto intro: sublist_order.order_trans)
  from take_units_ok[OF t Cons.prems(1,2) this] show ?case using Cons t
    by (auto simp: Let_def split: bool.split)
qed

lemma extracted_ok: "constraints_ok lower task (extract_constraints lower task)"
  unfolding extract_constraints_def
  by (rule take_lines_ok) (auto simp: constraints_ok_def CONSTRAINTS_MAX_def str_lines_def dest: lines_from_pieces)

lemma add_facts_ok:
  assumes "distinct out" and "length out \<le> CONSTRAINTS_MAX"
  shows "distinct (add_facts fs out) \<and> length (add_facts fs out) \<le> CONSTRAINTS_MAX \<and>
    set (add_facts fs out) \<subseteq> set out \<union> trim ` set fs \<and> prefix out (add_facts fs out)"
  using assms
proof (induction fs arbitrary: out)
  case Nil
  then show ?case by simp
next
  case (Cons f fs)
  let ?out = "if trim f \<noteq> [] \<and> length out < CONSTRAINTS_MAX \<and> trim f \<notin> set out then out @ [trim f] else out"
  have "distinct ?out" "length ?out \<le> CONSTRAINTS_MAX" "set ?out \<subseteq> insert (trim f) (set out)" "prefix out ?out"
    using Cons.prems by auto
  from Cons.IH[OF this(1,2)] this(3,4) show ?case
    by (auto simp: Let_def split: if_splits dest: append_prefixD)
qed

lemma add_facts_split:
  assumes "distinct out" and "length out \<le> CONSTRAINTS_MAX"
  shows "\<exists>facts. add_facts fs out = out @ facts \<and> set facts \<subseteq> trim ` set fs"
proof -
  from add_facts_ok[OF assms, of fs] obtain facts where "add_facts fs out = out @ facts" by (auto simp: prefix_def)
  with add_facts_ok[OF assms, of fs] show ?thesis by auto
qed

text \<open>The request whose prohibitions are recited.\<close>

definition recited_request :: "'x message list \<Rightarrow> resolved_task option \<Rightarrow> string option" where
  "recited_request messages resolved =
     (case resolved of
        Some t \<Rightarrow> if trim (rt_resolved_request t) \<noteq> [] then Some (trim (rt_resolved_request t))
                  else latest_real_user_task_content messages
      | None \<Rightarrow> latest_real_user_task_content messages)"

section \<open>Gaps\<close>

text \<open>
  An update that sets a goal without a signature makes the goal unsigned, also when the anchor had a signature, and an
  unsigned goal is never recited.
\<close>

lemma unsigned_goal_silent:
  assumes "sets_goal u" and "au_intent_task_sig u = None"
  shows "an_intent_task_sig (extend_anchor u now a) = 0 \<and> \<not> goal_is_live (extend_anchor u now a) sig"
  using assms by (auto simp: extend_anchor_def set_intent_def sets_goal_def goal_is_live_def Let_def split: option.splits)

section \<open>Properties\<close>

text \<open>
  The anchor only grows and stays clean: after any sequence of updates its lists hold distinct, trimmed entries that are
  not blank, an update keeps every entry in its place, and a file it names is remembered.
\<close>

theorem anchor_accumulates:
  "anchor_ok (anchor_run us) \<and> prefix (an_changes_made (anchor_run us)) (an_changes_made (anchor_run (us @ [(u, now)]))) \<and>
   prefix (an_decisions (anchor_run us)) (an_decisions (anchor_run (us @ [(u, now)]))) \<and>
   prefix (an_errors_seen (anchor_run us)) (an_errors_seen (anchor_run (us @ [(u, now)]))) \<and>
   prefix (an_file_refs (anchor_run us)) (an_file_refs (anchor_run (us @ [(u, now)]))) \<and>
   set (an_file_refs (anchor_run (us @ [(u, now)]))) = set (an_file_refs (anchor_run us)) \<union> (trim ` set (au_file_refs u) - {[]})"
  by (simp add: anchor_run_ok)
    (simp add: extend_anchor_def set_intent_def Let_def extend_dedup_prefix extend_dedup_set split: option.split)

text \<open>
  C29. A superseded goal is not recited: when the last goal the anchor received was resolved from one request and the live
  request has another signature, the note of the turn says nothing of the goal and of its next steps.
\<close>

theorem stale_goal_not_recited:
  assumes "rposition sets_goal (map fst us) = Some i" and "au_intent_task_sig (fst (us ! i)) = Some (task_sig old)"
    and "latest_real_user_task_content messages = Some request" and "task_sig request \<noteq> task_sig old"
  shows "recitation lower enabled (anchor_run us) plan policy resolved messages =
    recitation lower enabled ((anchor_run us)\<lparr>an_intent := [], an_next_steps := []\<rparr>) plan policy resolved messages"
proof -
  have "i < length us" using rposition_Some[OF assms(1)] by simp
  then have "an_intent_task_sig (anchor_run us) = task_sig old"
    using goal_history[of us] assms(1,2) by (auto simp: goal_of_def)
  then have "\<not> goal_is_live (anchor_run us) (live_sig messages)"
    using assms(3,4) by (auto simp: goal_is_live_def live_sig_def)
  then show ?thesis by (simp add: recitation_def recite_note_def Let_def goal_is_live_def)
qed

theorem stale_goal_not_recited_witness:
  "recitation id True (anchor_run [(no_update\<lparr>au_intent := Some ''one'', au_intent_task_sig := Some (task_sig ''one'')\<rparr>, 5)])
      new_store Unspecified None [build_message 7 ''user'' ''two'' :: nat message] =
    recitation id True ((anchor_run [(no_update\<lparr>au_intent := Some ''one'', au_intent_task_sig := Some (task_sig ''one'')\<rparr>, 5)])
        \<lparr>an_intent := [], an_next_steps := []\<rparr>) new_store Unspecified None [build_message 7 ''user'' ''two'' :: nat message]"
proof (rule stale_goal_not_recited[where i = 0 and old = "''one''" and request = "''two''"])
  show "rposition sets_goal (map fst
      [(no_update\<lparr>au_intent := Some ''one'', au_intent_task_sig := Some (task_sig ''one'')\<rparr>, 5 :: u64)]) = Some 0"
    by code_simp
  show "latest_real_user_task_content [build_message 7 ''user'' ''two'' :: nat message] = Some ''two''" by code_simp
  show "task_sig ''two'' \<noteq> task_sig ''one''" by code_simp
qed simp

text \<open>
  Recited constraints are the user's: there are at most eight, each once, and each is either a prohibition that occurs
  verbatim in the request or a fact the resolution of the turn recorded; prohibitions come first.
\<close>

theorem constraints_verbatim:
  "distinct (active_constraints lower messages resolved) \<and> length (active_constraints lower messages resolved) \<le> CONSTRAINTS_MAX \<and>
   (\<exists>facts. active_constraints lower messages resolved =
      (case recited_request messages resolved of Some r \<Rightarrow> extract_constraints lower r | None \<Rightarrow> []) @ facts \<and>
      set facts \<subseteq> trim ` set (case resolved of Some t \<Rightarrow> rt_operational_constraints t | None \<Rightarrow> []) \<and>
      list_all (\<lambda>c. recited_request messages resolved \<noteq> None \<and> sublist c (the (recited_request messages resolved)) \<and>
         is_directive lower c)
        (case recited_request messages resolved of Some r \<Rightarrow> extract_constraints lower r | None \<Rightarrow> []))"
proof -
  let ?out = "case recited_request messages resolved of Some r \<Rightarrow> extract_constraints lower r | None \<Rightarrow> []"
  let ?fs = "case resolved of Some t \<Rightarrow> rt_operational_constraints t | None \<Rightarrow> []"
  have a: "active_constraints lower messages resolved = add_facts ?fs ?out"
    by (simp add: active_constraints_def recited_request_def Let_def)
  have ok: "distinct ?out" "length ?out \<le> CONSTRAINTS_MAX"
    using extracted_ok by (auto simp: constraints_ok_def split: option.split)
  have v: "list_all (\<lambda>c. recited_request messages resolved \<noteq> None \<and> sublist c (the (recited_request messages resolved)) \<and>
         is_directive lower c) ?out"
    using extracted_ok
    by (cases "recited_request messages resolved") (auto simp: constraints_ok_def constraint_of_def list_all_iff)
  note f = add_facts_ok[OF ok, of ?fs]
  from add_facts_split[OF ok, of ?fs]
  obtain facts where facts: "add_facts ?fs ?out = ?out @ facts" "set facts \<subseteq> trim ` set ?fs" by blast
  show ?thesis unfolding a using f facts v by blast
qed

end
