(* ===== verification/Knowledge.thy ===== *)
theory Knowledge
  imports Compaction Tokens
begin

text \<open>
  What outlives a compaction (\<open>conversation_compression/knowledge.rs\<close>): the wrapper of a summary, the blocks taken out
  of it before it is folded again, the findings recovered from it and kept under a token budget, and the critical
  knowledge. The embedding of texts is an argument: a comparison of candidates under the current selection.
\<close>

definition ANALYSIS_OPEN :: string where "ANALYSIS_OPEN = ''<analysis_findings>''"
definition ANALYSIS_CLOSE :: string where "ANALYSIS_CLOSE = ''</analysis_findings>''"
definition FINDING_OPEN :: string where "FINDING_OPEN = ''<finding>''"
definition FINDING_CLOSE :: string where "FINDING_CLOSE = ''</finding>''"

section \<open>Wrapper\<close>

definition quote :: string where "quote = [CHR 0x22]"

definition archive_pointer :: "string \<Rightarrow> string" where
  "archive_pointer path =
     ''<archive path='' @ quote @ path @ quote @ ''>'' @ newline @
     ''Full raw transcript of the messages this summary replaced (JSONL, one message per line). If you need '' @
     ''exact code, error text, or tool output the summary elided, do not guess: prefer the `recall` tool with the '' @
     ''block IDs cited in <folded_state> refs; otherwise read or search this file.'' @ newline @ ''</archive>''"

definition with_newline :: "string \<Rightarrow> string" where
  "with_newline s = (if ends_with s newline then s else s @ newline)"

definition file_context_section :: "string \<Rightarrow> string" where
  "file_context_section file_context =
     (if file_context = [] then []
      else ''<file_context>'' @ newline @ with_newline file_context @ ''</file_context>'' @ newline)"

definition optional_line :: "string \<Rightarrow> string" where
  "optional_line s = (if s = [] then [] else s @ newline)"

definition format_compressed_entry_with_context :: "string \<Rightarrow> string \<Rightarrow> string \<Rightarrow> string option \<Rightarrow> string" where
  "format_compressed_entry_with_context body file_context compression_id archive_path =
     ''<conversation_summary id='' @ quote @ compression_id @ quote @ ''>'' @ newline @ optional_line body @
     file_context_section file_context @
     (case archive_path of Some path \<Rightarrow> archive_pointer path @ newline | None \<Rightarrow> []) @ ''</conversation_summary>''"

text \<open>The bands are those of the evidence controller.\<close>

definition format_compressed_entry_with_pact ::
  "string \<Rightarrow> string \<Rightarrow> string \<Rightarrow> string option \<Rightarrow> string \<times> string \<Rightarrow> nat \<Rightarrow> string" where
  "format_compressed_entry_with_pact body file_context compression_id archive_path bands version =
     ''<conversation_summary id='' @ quote @ compression_id @ quote @ '' controller='' @ quote @ ''pact-v'' @ show_nat version @
     quote @ ''>'' @ newline @ fst bands @ newline @ optional_line body @ optional_line (snd bands) @
     file_context_section file_context @
     (case archive_path of Some path \<Rightarrow> archive_pointer path @ newline | None \<Rightarrow> []) @ ''</conversation_summary>''"

section \<open>Blocks that are not folded again\<close>

definition block_end :: "string \<Rightarrow> nat \<Rightarrow> string \<Rightarrow> nat" where
  "block_end close_tag body_start s =
     (case find_str close_tag (drop body_start s) of Some i \<Rightarrow> body_start + i + length close_tag | None \<Rightarrow> length s)"

definition strip_block :: "string \<Rightarrow> string \<Rightarrow> string \<Rightarrow> string" where
  "strip_block s open_tag close_tag =
     (case find_str open_tag s of
        None \<Rightarrow> trim s
      | Some i \<Rightarrow>
          let close_end = block_end close_tag (i + length open_tag) s;
              head = trim_end (take i s); rest = trim_start (drop close_end s)
          in trim (if rest = [] then head else head @ newline @ rest))"

lemma trim_length: "length (trim s) \<le> length s"
  by (metis dual_order.trans prefix_length_le trim_def trim_end_prefix trim_start_length)

lemma strip_block_shorter:
  assumes "find_str open_tag s = Some i" and "1 < length open_tag"
  shows "length (strip_block s open_tag close_tag) < length s"
proof -
  let ?e = "block_end close_tag (i + length open_tag) s"
  have i: "i + length open_tag \<le> length s"
    using find_str_Some[OF assms(1)] prefix_length_le[of open_tag "drop i s"] by (simp, arith)
  have e: "i + length open_tag \<le> ?e" using i by (auto simp: block_end_def split: option.split)
  have h: "length (trim_end (take i s)) \<le> i"
    using prefix_length_le[OF trim_end_prefix[of "take i s"]] by simp
  have r: "length (trim_start (drop ?e s)) \<le> length s - ?e" using trim_start_length[of "drop ?e s"] by simp
  define joined where
    "joined = (if trim_start (drop ?e s) = [] then trim_end (take i s) else trim_end (take i s) @ newline @ trim_start (drop ?e s))"
  have "strip_block s open_tag close_tag = trim joined" by (simp add: strip_block_def assms(1) Let_def joined_def)
  then have "length (strip_block s open_tag close_tag) \<le> length joined" by (simp only: trim_length)
  also have "\<dots> \<le> length (trim_end (take i s)) + 1 + length (trim_start (drop ?e s))"
    by (simp add: joined_def newline_def bytes_def)
  finally have "length (strip_block s open_tag close_tag) \<le>
    length (trim_end (take i s)) + 1 + length (trim_start (drop ?e s))" .
  then show ?thesis using h r e i assms(2) by linarith
qed

function strip_recall_index :: "string \<Rightarrow> string" where
  "strip_recall_index s =
     (if str_contains s ''<recall_index>'' then strip_recall_index (strip_block s ''<recall_index>'' ''</recall_index>'') else s)"
  by pat_completeness auto
termination
proof (relation "measure length")
  fix s :: string
  assume "str_contains s ''<recall_index>''"
  then obtain i where "find_str ''<recall_index>'' s = Some i"
    unfolding str_contains_def by (metis find_str_None not_Some_eq)
  then show "(strip_block s ''<recall_index>'' ''</recall_index>'', s) \<in> measure length"
    using strip_block_shorter by simp
qed simp

declare strip_recall_index.simps [simp del]

definition strip_regrown_sections :: "string \<Rightarrow> string" where
  "strip_regrown_sections s =
     strip_recall_index (strip_block (strip_block s ''<file_context>'' ''</file_context>'') ANALYSIS_OPEN ANALYSIS_CLOSE)"

lemma no_recall_index: "\<not> str_contains (strip_recall_index s) ''<recall_index>''"
  by (induction s rule: strip_recall_index.induct) (metis strip_recall_index.simps)

section \<open>Findings\<close>

text \<open>The bodies of the finding elements of a block.\<close>

function findings_in :: "string \<Rightarrow> string list" where
  "findings_in body =
     (case find_str FINDING_OPEN body of
        None \<Rightarrow> []
      | Some i \<Rightarrow>
          let rest = drop (i + length FINDING_OPEN) body
          in case find_str FINDING_CLOSE rest of
               None \<Rightarrow> []
             | Some n \<Rightarrow>
                 (if is_blank (take n rest) then [] else [trim (take n rest)]) @
                 findings_in (drop (n + length FINDING_CLOSE) rest))"
  by pat_completeness auto
termination
proof (relation "measure length")
  fix body i rest n
  assume f: "find_str FINDING_OPEN body = Some i" and r: "rest = drop (i + length FINDING_OPEN) body"
  have "i < length body"
    using find_str_Some[OF f] prefix_length_le[of FINDING_OPEN "drop i body"] by (simp add: FINDING_OPEN_def)
  then show "(drop (n + length FINDING_CLOSE) rest, body) \<in> measure length"
    by (simp add: r FINDING_OPEN_def FINDING_CLOSE_def)
qed simp

declare findings_in.simps [simp del]

definition analysis_findings_from_summary :: "string \<Rightarrow> string list" where
  "analysis_findings_from_summary s =
     (case find_str ANALYSIS_OPEN s of
        None \<Rightarrow> []
      | Some i \<Rightarrow>
          let rest = drop (i + length ANALYSIS_OPEN) s
          in case find_str ANALYSIS_CLOSE rest of None \<Rightarrow> [] | Some n \<Rightarrow> findings_in (take n rest))"

definition latest_analysis_findings :: "'x message list \<Rightarrow> string list" where
  "latest_analysis_findings messages =
     (case find (\<lambda>m. msg_role m = ''assistant'' \<and> starts_with (trim_start (msg_content m)) SUMMARY_TAG_OPEN_PREFIX)
             (rev messages) of
        Some m \<Rightarrow> analysis_findings_from_summary (msg_content m)
      | None \<Rightarrow> [])"

definition finding_key :: "(string \<Rightarrow> string) \<Rightarrow> string \<Rightarrow> string" where
  "finding_key lower s = lower (join '' '' (split_whitespace (trim s)))"

text \<open>Entries with the same key: the newest wording in the oldest place.\<close>

fun merge_into :: "(string \<Rightarrow> string) \<Rightarrow> string list \<Rightarrow> string list \<Rightarrow> string list \<Rightarrow> string list" where
  "merge_into lower [] findings ks = findings"
| "merge_into lower (f # fs) findings ks =
     (if is_blank f then merge_into lower fs findings ks
      else case position (\<lambda>k. k = finding_key lower f) ks of
             Some i \<Rightarrow> merge_into lower fs (findings[i := trim f]) ks
           | None \<Rightarrow> merge_into lower fs (findings @ [trim f]) (ks @ [finding_key lower f]))"

definition merge_latest_exact :: "(string \<Rightarrow> string) \<Rightarrow> string list \<Rightarrow> string list \<Rightarrow> string list" where
  "merge_latest_exact lower held entries = merge_into lower (held @ entries) [] []"

definition render_findings :: "string list \<Rightarrow> string" where
  "render_findings findings =
     ANALYSIS_OPEN @ newline @ concat (map (\<lambda>f. FINDING_OPEN @ trim f @ FINDING_CLOSE @ newline) findings) @ ANALYSIS_CLOSE"

definition analysis_findings_tokens :: "tokenizer \<Rightarrow> string list \<Rightarrow> nat" where
  "analysis_findings_tokens tk findings = (if findings = [] then 0 else estimate_tokens tk (render_findings findings))"

definition chosen :: "string list \<Rightarrow> nat list \<Rightarrow> string list" where
  "chosen findings indices = map ((!) findings) (sort indices)"

definition fits_budget :: "tokenizer \<Rightarrow> string list \<Rightarrow> nat list \<Rightarrow> nat \<Rightarrow> nat \<Rightarrow> bool" where
  "fits_budget tk findings selected candidate budget \<longleftrightarrow>
     analysis_findings_tokens tk (chosen findings (selected @ [candidate])) \<le> budget"

text \<open>
  The relevance of a finding against the selection so far: \<open>better selected i best\<close> says that its score is higher, or equal with
  a higher index.
\<close>

type_synonym scoring = "nat list \<Rightarrow> nat \<Rightarrow> nat \<Rightarrow> bool"

fun best_candidate :: "scoring \<Rightarrow> nat list \<Rightarrow> nat list \<Rightarrow> nat option \<Rightarrow> nat option" where
  "best_candidate better selected [] best = best"
| "best_candidate better selected (i # is) best =
     best_candidate better selected is
       (case best of None \<Rightarrow> Some i | Some b \<Rightarrow> if better selected i b then Some i else Some b)"

lemma best_candidate_in: "best_candidate better selected is best = Some i \<Longrightarrow> i \<in> set is \<or> best = Some i"
  by (induction "is" arbitrary: best) (auto split: option.splits if_splits)

definition eligible :: "tokenizer \<Rightarrow> string list \<Rightarrow> nat list \<Rightarrow> nat \<Rightarrow> nat list" where
  "eligible tk findings selected budget =
     filter (\<lambda>i. \<not> (i \<in> set selected \<or> \<not> fits_budget tk findings selected i budget)) [0..<length findings]"

lemma card_left_smaller:
  assumes "i \<in> A - set xs" and "finite A"
  shows "card (A - set (xs @ [i])) < card (A - set xs)"
proof -
  have "A - set (xs @ [i]) = (A - set xs) - {i}" by auto
  then show ?thesis using assms by (simp only: card_Diff1_less finite_Diff)
qed

function select_loop :: "tokenizer \<Rightarrow> scoring \<Rightarrow> string list \<Rightarrow> nat \<Rightarrow> nat list \<Rightarrow> nat list" where
  "select_loop tk better findings budget selected =
     (case best_candidate better selected (eligible tk findings selected budget) None of
        None \<Rightarrow> selected
      | Some i \<Rightarrow> select_loop tk better findings budget (selected @ [i]))"
  by pat_completeness auto
termination
proof (relation "measure (\<lambda>(_, _, findings, _, selected). card ({0..<length findings} - set selected))")
  fix tk better findings budget selected i
  assume "best_candidate better selected (eligible tk findings selected budget) None = Some i"
  from best_candidate_in[OF this] have "i \<in> {0..<length findings} - set selected" by (auto simp: eligible_def)
  from card_left_smaller[OF this finite_atLeastLessThan] show "((tk, better, findings, budget, selected @ [i]), tk, better, findings, budget, selected)
      \<in> measure (\<lambda>(_, _, findings, _, selected). card ({0..<length findings} - set selected))"
    by (simp only: in_measure prod.case)
qed simp

declare select_loop.simps [simp del]

fun newest_first_fit :: "tokenizer \<Rightarrow> string list \<Rightarrow> nat \<Rightarrow> nat list \<Rightarrow> nat list \<Rightarrow> nat list" where
  "newest_first_fit tk findings budget [] selected = selected"
| "newest_first_fit tk findings budget (i # is) selected =
     newest_first_fit tk findings budget is
       (if fits_budget tk findings selected i budget then selected @ [i] else selected)"

definition select_newest_with_budget :: "tokenizer \<Rightarrow> string list \<Rightarrow> nat \<Rightarrow> string list" where
  "select_newest_with_budget tk findings budget =
     chosen findings (newest_first_fit tk findings budget (rev [0..<length findings]) [])"

definition select_findings_with_vectors :: "tokenizer \<Rightarrow> scoring \<Rightarrow> string list \<Rightarrow> nat \<Rightarrow> string list" where
  "select_findings_with_vectors tk better findings budget =
     (if budget = 0 then select_newest_with_budget tk findings budget
      else chosen findings (select_loop tk better findings budget []))"

text \<open>\<open>score_all\<close> is the scoring of the findings against the focus, if the embedding succeeds.\<close>

definition fold_analysis_findings ::
  "tokenizer \<Rightarrow> (string \<Rightarrow> string) \<Rightarrow> (string list \<Rightarrow> string option \<Rightarrow> scoring option) \<Rightarrow> nat \<Rightarrow> string list \<Rightarrow> string \<Rightarrow>
   string list \<Rightarrow> string list" where
  "fold_analysis_findings tk lower score_all budget entries focus held =
     (let findings = merge_latest_exact lower held entries
      in if budget = 0 \<or> findings = [] then []
         else case score_all findings (if is_blank focus then None else Some focus) of
                Some better \<Rightarrow> select_findings_with_vectors tk better findings budget
              | None \<Rightarrow> select_newest_with_budget tk findings budget)"

section \<open>Critical knowledge\<close>

fun add_knowledge :: "string list \<Rightarrow> string list \<Rightarrow> nat \<Rightarrow> nat \<times> string list" where
  "add_knowledge [] store added = (added, store)"
| "add_knowledge (e # es) store added =
     (if is_blank e \<or> e \<in> set store then add_knowledge es store added
      else add_knowledge es (store @ [e]) (added + 1))"

definition fold_critical_knowledge :: "nat \<Rightarrow> string list \<Rightarrow> string list \<Rightarrow> string list" where
  "fold_critical_knowledge retention_limit entries store =
     (let (added, store') = add_knowledge entries store 0
      in if added = 0 then store'
         else if 0 < retention_limit \<and> retention_limit < length store'
              then drop (length store' - retention_limit) store' else store')"

end
