(* ===== verification/Packets.thy ===== *)
theory Packets
  imports Knowledge Recite
begin

text \<open>
  The evidence of a fold (\<open>conversation_compression/attention/mod.rs\<close>): the drained messages cut into packets, their kind
  and provenance, what each depends on, what is pinned, and the canonical rendering of a packet with the exact lines
  it shows. SHA-256, \<open>serde_json\<close>, the tokenizer and the lower-casing of Unicode are arguments.
\<close>

section \<open>Packets\<close>

datatype packet_kind =
    UserTask | TaskContinuation | UserConstraintOrCorrection | AssistantCheckpoint | ToolInteraction | RuntimeEvent
  | PriorSummary

datatype provenance = RealUser | RuntimeSystemManaged | AssistantReported | ToolObserved | ValidatedSummary

datatype lane = KeepExact | Summarize | ArchiveReference

datatype packet_linkage = StructuredIds | ContiguousFallback | NotApplicable

record source_span =
  sp_start_line :: nat
  sp_end_line :: nat
  sp_content_digest :: string

record evidence_packet =
  ep_id :: string
  ep_kind :: packet_kind
  ep_provenance :: provenance
  ep_message_start :: nat
  ep_message_end :: nat
  ep_depends_on :: "string list"
  ep_linkage :: packet_linkage
  ep_tokens :: nat
  ep_lane :: lane
  ep_prompt_content :: string
  ep_exact_spans :: "source_span list"
  ep_descriptor :: string

text \<open>\<open>pe_sha\<close> is the digest, \<open>pe_encode\<close> the serialized message.\<close>

record 'x pact_env =
  pe_tokenizer :: tokenizer
  pe_sha :: "string \<Rightarrow> string"
  pe_encode :: "'x message \<Rightarrow> string"
  pe_lower :: "string \<Rightarrow> string"

definition hex_digit :: "nat \<Rightarrow> char" where
  "hex_digit n = (if n < 10 then digit_char n else char_of (87 + n))"

definition hex :: "string \<Rightarrow> string" where
  "hex s = concat (map (\<lambda>c. [hex_digit (of_char c div 16), hex_digit (of_char c mod 16)]) s)"

definition short_hex :: "string \<Rightarrow> string" where
  "short_hex s = hex (take 16 s)"

definition NUL :: string where
  "NUL = [CHR 0x00]"

definition has_tool_calls :: "'x message \<Rightarrow> bool" where
  "has_tool_calls m \<longleftrightarrow> (case msg_tool_calls m of Some (JArr calls) \<Rightarrow> calls \<noteq> [] | _ \<Rightarrow> False)"

definition tool_call_ids :: "'x message \<Rightarrow> string list" where
  "tool_call_ids m =
     (case msg_tool_calls m of
        Some j \<Rightarrow> List.map_filter (\<lambda>call. Option.bind (json_get ''id'' call) json_as_str) (json_as_array j)
      | None \<Rightarrow> [])"

definition kind_str :: "packet_kind \<Rightarrow> string" where
  "kind_str k =
     (case k of UserTask \<Rightarrow> ''UserTask'' | TaskContinuation \<Rightarrow> ''TaskContinuation''
      | UserConstraintOrCorrection \<Rightarrow> ''UserConstraintOrCorrection'' | AssistantCheckpoint \<Rightarrow> ''AssistantCheckpoint''
      | ToolInteraction \<Rightarrow> ''ToolInteraction'' | RuntimeEvent \<Rightarrow> ''RuntimeEvent'' | PriorSummary \<Rightarrow> ''PriorSummary'')"

definition provenance_str :: "provenance \<Rightarrow> string" where
  "provenance_str p =
     (case p of RealUser \<Rightarrow> ''RealUser'' | RuntimeSystemManaged \<Rightarrow> ''RuntimeSystemManaged''
      | AssistantReported \<Rightarrow> ''AssistantReported'' | ToolObserved \<Rightarrow> ''ToolObserved'' | ValidatedSummary \<Rightarrow> ''ValidatedSummary'')"

definition stable_packet_id :: "'x pact_env \<Rightarrow> string \<Rightarrow> 'x message list \<Rightarrow> string" where
  "stable_packet_id env session_name messages =
     ''b:'' @ short_hex (pe_sha env (''octomind-pact-packet-v1'' @ NUL @ session_name @
       concat (map (\<lambda>m. NUL @ pe_encode env m) messages)))"

definition classify_packet :: "'x pact_env \<Rightarrow> 'x message list \<Rightarrow> packet_kind \<times> provenance" where
  "classify_packet env messages =
     (let m = hd messages
      in if msg_role m = ''user'' then
           if continuation_task (msg_content m) \<noteq> None then (TaskContinuation, ValidatedSummary)
           else if is_real_user_task_message m then
             (if extract_constraints (pe_lower env) (msg_content m) \<noteq> [] then UserConstraintOrCorrection else UserTask, RealUser)
           else (RuntimeEvent, RuntimeSystemManaged)
         else if msg_role m = ''tool'' \<or> list_ex (\<lambda>m. msg_role m = ''tool'') messages then (ToolInteraction, ToolObserved)
         else if has_tool_calls m then (ToolInteraction, AssistantReported)
         else if msg_role m = ''assistant'' \<and>
           (msg_name m = Some COMPRESSION_MESSAGE_NAME \<or> str_contains (msg_content m) SUMMARY_TAG_OPEN_PREFIX)
         then (PriorSummary, ValidatedSummary)
         else (AssistantCheckpoint, AssistantReported))"

definition foreign_result :: "string list \<Rightarrow> 'x message \<Rightarrow> bool" where
  "foreign_result call_ids m \<longleftrightarrow>
     msg_role m = ''tool'' \<and> (case msg_tool_call_id m of None \<Rightarrow> True | Some i \<Rightarrow> i \<notin> set call_ids)"

definition packet_linkage_of :: "'x message list \<Rightarrow> packet_kind \<Rightarrow> packet_linkage" where
  "packet_linkage_of messages kind =
     (if kind \<noteq> ToolInteraction then NotApplicable
      else case messages of
             [] \<Rightarrow> ContiguousFallback
           | m # ms \<Rightarrow>
               if \<not> has_tool_calls m then ContiguousFallback
               else if tool_call_ids m = [] \<or> list_ex (foreign_result (tool_call_ids m)) ms then ContiguousFallback
               else StructuredIds)"

definition make_packet :: "'x pact_env \<Rightarrow> string \<Rightarrow> nat \<Rightarrow> 'x message list \<Rightarrow> evidence_packet" where
  "make_packet env session_name start messages =
     (let (kind, provenance) = classify_packet env messages;
          tokens = sum_list (map (estimate_message_tokens (pe_tokenizer env)) messages)
      in \<lparr>ep_id = stable_packet_id env session_name messages, ep_kind = kind, ep_provenance = provenance,
          ep_message_start = start, ep_message_end = start + length messages - 1, ep_depends_on = [],
          ep_linkage = packet_linkage_of messages kind, ep_tokens = tokens, ep_lane = ArchiveReference,
          ep_prompt_content = [], ep_exact_spans = [],
          ep_descriptor = kind_str kind @ '' / '' @ provenance_str provenance @ ''; '' @ show_nat (length messages) @
            '' message(s), approximately '' @ show_nat tokens @ '' tokens''\<rparr>)"

text \<open>What a packet is never made of: system messages, skills and instructions.\<close>

definition not_evidence :: "'x message \<Rightarrow> bool" where
  "not_evidence m \<longleftrightarrow>
     msg_role m = ''system'' \<or>
     (msg_role m = ''user'' \<and>
       (is_skill_message (msg_content m) \<or> starts_with (trim_start (msg_content m)) ''<instructions>''))"

text \<open>How many of the following messages are results of the calls of \<open>m\<close>.\<close>

definition owned_results :: "'x message \<Rightarrow> 'x message list \<Rightarrow> nat" where
  "owned_results m rest =
     (if msg_role m = ''assistant'' \<and> has_tool_calls m then
        length (takeWhile (\<lambda>r. msg_role r = ''tool'' \<and>
          (tool_call_ids m = [] \<or> (case msg_tool_call_id r of None \<Rightarrow> True | Some i \<Rightarrow> i \<in> set (tool_call_ids m)))) rest)
      else 0)"

lemma owned_results_le: "owned_results m rest \<le> length rest"
  by (simp add: owned_results_def length_takeWhile_le)

function packets_from :: "'x pact_env \<Rightarrow> string \<Rightarrow> nat \<Rightarrow> 'x message list \<Rightarrow> evidence_packet list" where
  "packets_from env session_name start [] = []"
| "packets_from env session_name start (m # rest) =
     (if not_evidence m then packets_from env session_name (start + 1) rest
      else let n = owned_results m rest
           in make_packet env session_name start (m # take n rest) #
              packets_from env session_name (start + 1 + n) (drop n rest))"
  by pat_completeness auto
termination by (relation "measure (\<lambda>(_, _, _, ms). length ms)") auto

definition build_packets :: "'x pact_env \<Rightarrow> string \<Rightarrow> 'x message list \<Rightarrow> evidence_packet list" where
  "build_packets env session_name messages = packets_from env session_name 0 messages"

definition packet_for_offset :: "evidence_packet list \<Rightarrow> nat \<Rightarrow> evidence_packet option" where
  "packet_for_offset packets offset = find (\<lambda>p. ep_message_start p \<le> offset \<and> offset \<le> ep_message_end p) packets"

section \<open>Dependencies\<close>

fun insert_id :: "string \<Rightarrow> string list \<Rightarrow> string list" where
  "insert_id i [] = [i]"
| "insert_id i (j # js) = (if byte_less j i then j # insert_id i js else i # j # js)"

definition sorted_ids :: "string list \<Rightarrow> string list" where
  "sorted_ids is = remdups_adj (foldr insert_id is [])"

record link_state =
  li_task :: "string option"
  li_summary :: "string option"
  li_event :: "string option"

definition ids_of :: "string option list \<Rightarrow> string list" where
  "ids_of os = List.map_filter (\<lambda>x. x) os"

text \<open>The dependencies of a packet after \<open>previous\<close>, and what later packets may depend on.\<close>

definition link_packet :: "evidence_packet option \<Rightarrow> evidence_packet \<Rightarrow> link_state \<Rightarrow> string list \<times> link_state" where
  "link_packet previous p l =
     (case ep_kind p of
        UserTask \<Rightarrow> (ids_of [li_task l], l\<lparr>li_task := Some (ep_id p), li_event := None\<rparr>)
      | UserConstraintOrCorrection \<Rightarrow> (ids_of [li_task l], l\<lparr>li_task := Some (ep_id p), li_event := None\<rparr>)
      | TaskContinuation \<Rightarrow> (ids_of [li_summary l], l\<lparr>li_task := Some (ep_id p), li_event := None\<rparr>)
      | PriorSummary \<Rightarrow> ([], l\<lparr>li_summary := Some (ep_id p)\<rparr>)
      | RuntimeEvent \<Rightarrow> (ids_of [li_task l, li_summary l], l\<lparr>li_event := Some (ep_id p)\<rparr>)
      | ToolInteraction \<Rightarrow> (ids_of [li_task l, li_event l], l)
      | AssistantCheckpoint \<Rightarrow>
          (case previous of
             Some q \<Rightarrow> if ep_kind q = ToolInteraction then [ep_id q] else ids_of [li_task l, li_event l]
           | None \<Rightarrow> ids_of [li_task l, li_event l], l))"

fun link_from :: "evidence_packet option \<Rightarrow> link_state \<Rightarrow> evidence_packet list \<Rightarrow> evidence_packet list" where
  "link_from previous l [] = []"
| "link_from previous l (p # ps) =
     (let (deps, l) = link_packet previous p l
      in p\<lparr>ep_depends_on := sorted_ids deps\<rparr> # link_from (Some p) l ps)"

definition link_dependencies :: "evidence_packet list \<Rightarrow> evidence_packet list" where
  "link_dependencies packets = link_from None \<lparr>li_task = None, li_summary = None, li_event = None\<rparr> packets"

end
