(* ===== verification/PactRender.thy ===== *)
theory PactRender
  imports Packets
begin

text \<open>
  The pinned state of a fold, the canonical rendering of a packet, the edges shown of a packet that does not fit, and the
  parts of a self report that the packets bear out (\<open>conversation_compression/attention/mod.rs\<close>).
\<close>

section \<open>Pinned state\<close>

record pinned_item =
  pi_text :: string
  pi_source :: "string option"

record pinned_state =
  pd_task :: pinned_item
  pd_constraints :: "pinned_item list"
  pd_verification_policy :: verification_policy
  pd_governance_hash :: string

text \<open>A constraint cites the packet of the request only if the request contains it.\<close>

definition collect_constraints ::
  "'x pact_env \<Rightarrow> 'x message list \<Rightarrow> resolved_task option \<Rightarrow> string option \<Rightarrow> pinned_item list" where
  "collect_constraints env messages gate_task task_source =
     (let literal_task = (case latest_real_user_task_content messages of Some t \<Rightarrow> t | None \<Rightarrow> [])
      in map (\<lambda>t. \<lparr>pi_text = t, pi_source = (if str_contains literal_task t then task_source else None)\<rparr>)
           (active_constraints (pe_lower env) messages gate_task))"

definition governance_hash ::
  "'x pact_env \<Rightarrow> 'x message list \<Rightarrow> string \<Rightarrow> pinned_item list \<Rightarrow> verification_policy \<Rightarrow> string" where
  "governance_hash env messages task constraints policy =
     short_hex (pe_sha env (''octomind-pact-governance-v1'' @ NUL @
       concat (map (\<lambda>m. msg_content m @ NUL) (filter (\<lambda>m. msg_role m = ''system'') messages)) @ task @
       concat (map (\<lambda>c. NUL @ pi_text c) constraints) @ NUL @ policy_as_str policy))"

definition live_task :: "'x message list \<Rightarrow> string" where
  "live_task messages = trim (case latest_real_user_task_content messages of Some t \<Rightarrow> t | None \<Rightarrow> [])"

definition effective_policy :: "resolved_task option \<Rightarrow> verification_policy \<Rightarrow> verification_policy" where
  "effective_policy gate_task policy =
     policy_effective (case gate_task of Some t \<Rightarrow> rt_forbids_verification t | None \<Rightarrow> False) policy"

section \<open>Rendering\<close>

definition message_head :: "nat \<Rightarrow> string \<Rightarrow> string" where
  "message_head source what = ''[MESSAGE '' @ show_nat source @ '' '' @ what @ '']'' @ newline"

definition assistant_text :: "'x message \<Rightarrow> string" where
  "assistant_text m =
     (if msg_name m = Some COMPRESSION_MESSAGE_NAME \<or> starts_with (trim_start (msg_content m)) SUMMARY_TAG_OPEN_PREFIX
      then strip_regrown_sections (msg_content m) else trim (msg_content m))"

definition render_message :: "'x pact_env \<Rightarrow> nat \<Rightarrow> 'x message \<Rightarrow> string" where
  "render_message env source m =
     (if msg_role m = ''assistant'' then
        (if assistant_text m \<noteq> [] then message_head source ''ASSISTANT'' @ assistant_text m @ newline else []) @
        (case message_thinking_content m of
           Some t \<Rightarrow> message_head source ''ASSISTANT THINKING'' @ t @ newline | None \<Rightarrow> []) @
        (case msg_tool_calls m of
           Some calls \<Rightarrow> message_head source ''STRUCTURED TOOL CALLS'' @ tk_json (pe_tokenizer env) calls @ newline
         | None \<Rightarrow> [])
      else if msg_role m = ''tool'' then
        message_head source (''TOOL RESULT id='' @ (case msg_tool_call_id m of Some i \<Rightarrow> i | None \<Rightarrow> ''unknown'') @
          '' name='' @ (case msg_name m of Some n \<Rightarrow> n | None \<Rightarrow> ''tool'')) @ trim (msg_content m) @ newline
      else if msg_role m = ''user'' then
        message_head source
          (if continuation_task (msg_content m) \<noteq> None then ''VALIDATED TASK CONTINUATION''
           else if is_real_user_task_message m then ''REAL USER'' else ''RUNTIME EVENT'') @ trim (msg_content m) @ newline
      else [])"

definition packet_messages :: "'x message list \<Rightarrow> evidence_packet \<Rightarrow> 'x message list" where
  "packet_messages messages p = take (ep_message_end p + 1 - ep_message_start p) (drop (ep_message_start p) messages)"

text \<open>The whole packet, trimmed at the end: what every span refers to.\<close>

definition canonical :: "'x pact_env \<Rightarrow> 'x message list \<Rightarrow> evidence_packet \<Rightarrow> string" where
  "canonical env messages p =
     trim_end (concat (map (\<lambda>(i, m). render_message env (ep_message_start p + i + 1) m)
       (enumerate 0 (packet_messages messages p))))"

definition source_span :: "'x pact_env \<Rightarrow> string list \<Rightarrow> nat \<Rightarrow> nat \<Rightarrow> source_span" where
  "source_span env lines first_line last_line =
     \<lparr>sp_start_line = first_line, sp_end_line = last_line,
      sp_content_digest = short_hex (pe_sha env (''octomind-pact-source-span-v1'' @ NUL @
        join newline (take (last_line - (first_line - 1)) (drop (first_line - 1) lines))))\<rparr>"

record packet_render =
  re_content :: string
  re_spans :: "source_span list"

definition omission_marker :: "nat \<Rightarrow> nat \<Rightarrow> string" where
  "omission_marker first_line last_line =
     ''['' @ ellipsis @ '' lines '' @ show_nat first_line @ ''-'' @ show_nat last_line @
     '' omitted; exact recall by block ID '' @ ellipsis @ '']''"

definition numbered_line :: "string list \<Rightarrow> nat \<Rightarrow> string" where
  "numbered_line lines i = show_nat (i + 1) @ ''| '' @ lines ! i"

text \<open>
  The first \<open>h\<close> and the last \<open>t\<close> lines around the marker.
\<close>

definition head_lines :: "string list \<Rightarrow> nat \<Rightarrow> string list" where
  "head_lines lines h = map (numbered_line lines) [0..<h]"

definition tail_lines :: "string list \<Rightarrow> nat \<Rightarrow> string list" where
  "tail_lines lines t = map (numbered_line lines) [length lines - t..<length lines]"

definition edges_text :: "string list \<Rightarrow> nat \<Rightarrow> nat \<Rightarrow> string" where
  "edges_text lines h t =
     join newline ((if h = 0 then [] else [join newline (head_lines lines h)]) @
       [omission_marker (h + 1) (length lines - t)] @
       (if t = 0 then [] else [join newline (tail_lines lines t)]))"

text \<open>How many lines fit from the front; from the back, where the lines are collected last line first.\<close>

function grow_head :: "tokenizer \<Rightarrow> string list \<Rightarrow> nat \<Rightarrow> nat \<Rightarrow> nat" where
  "grow_head tk lines budget h =
     (if length lines \<le> h \<or> budget < estimate_tokens tk (join newline (head_lines lines (h + 1))) then h
      else grow_head tk lines budget (h + 1))"
  by pat_completeness auto
termination by (relation "measure (\<lambda>(_, lines, _, h). length lines - h)") auto

declare grow_head.simps [simp del]

function grow_tail :: "tokenizer \<Rightarrow> string list \<Rightarrow> nat \<Rightarrow> nat \<Rightarrow> nat \<Rightarrow> nat" where
  "grow_tail tk lines budget h t =
     (if length lines \<le> h + t \<or> budget < estimate_tokens tk (join newline (rev (tail_lines lines (t + 1)))) then t
      else grow_tail tk lines budget h (t + 1))"
  by pat_completeness auto
termination by (relation "measure (\<lambda>(_, lines, _, h, t). length lines - t)") auto

declare grow_tail.simps [simp del]

text \<open>Lines are given up, the longer side first, until the text fits or one line is left on each side.\<close>

function shrink_edges :: "tokenizer \<Rightarrow> string list \<Rightarrow> nat \<Rightarrow> nat \<times> nat \<Rightarrow> nat \<times> nat" where
  "shrink_edges tk lines max_tokens (h, t) =
     (if estimate_tokens tk (edges_text lines h t) \<le> max_tokens \<or> \<not> (1 < h \<or> 1 < t) then (h, t)
      else shrink_edges tk lines max_tokens (if t \<le> h \<and> 1 < h then (h - 1, t) else (h, t - 1)))"
  by pat_completeness auto
termination by (relation "measure (\<lambda>(_, _, _, h, t). h + t)") auto

declare shrink_edges.simps [simp del]

definition half_up :: "nat \<Rightarrow> nat" where
  "half_up n = (n + 1) div 2"

definition extractive_edges :: "'x pact_env \<Rightarrow> string \<Rightarrow> nat \<Rightarrow> packet_render" where
  "extractive_edges env content max_tokens =
     (let tk = pe_tokenizer env; lines = str_lines content
      in if max_tokens = 0 \<or> content = [] then \<lparr>re_content = [], re_spans = []\<rparr>
         else if estimate_tokens tk content \<le> max_tokens
         then \<lparr>re_content = content, re_spans = [source_span env lines 1 (length lines)]\<rparr>
         else
           let payload_budget = max_tokens - min (estimate_tokens tk (omission_marker 1 (length lines))) max_tokens;
               head_budget = half_up payload_budget;
               h = grow_head tk lines head_budget 0;
               t = grow_tail tk lines (payload_budget - head_budget) h 0;
               (h, t) = shrink_edges tk lines max_tokens (h, t)
           in if estimate_tokens tk (edges_text lines h t) \<le> max_tokens
              then \<lparr>re_content = edges_text lines h t,
                    re_spans = (if h = 0 then [] else [source_span env lines 1 h]) @
                      (if t = 0 then [] else [source_span env lines (length lines - t + 1) (length lines)])\<rparr>
              else \<lparr>re_content = truncate_to_tokens tk
                       (''['' @ ellipsis @ '' exact packet omitted; recall by block ID '' @ ellipsis @ '']'') max_tokens,
                    re_spans = []\<rparr>)"

text \<open>No limit is \<open>None\<close>.\<close>

definition render_packet_with_spans ::
  "'x pact_env \<Rightarrow> 'x message list \<Rightarrow> evidence_packet \<Rightarrow> nat option \<Rightarrow> packet_render" where
  "render_packet_with_spans env messages p max_tokens =
     (let rendered = canonical env messages p; lines = str_lines rendered
      in case max_tokens of
           Some n \<Rightarrow>
             if estimate_tokens (pe_tokenizer env) rendered \<le> n
             then \<lparr>re_content = rendered, re_spans = (if lines = [] then [] else [source_span env lines 1 (length lines)])\<rparr>
             else extractive_edges env rendered n
         | None \<Rightarrow> \<lparr>re_content = rendered, re_spans = (if lines = [] then [] else [source_span env lines 1 (length lines)])\<rparr>)"

definition render_packet :: "'x pact_env \<Rightarrow> 'x message list \<Rightarrow> evidence_packet \<Rightarrow> nat option \<Rightarrow> string" where
  "render_packet env messages p max_tokens = re_content (render_packet_with_spans env messages p max_tokens)"

section \<open>The self report\<close>

record grounded_hint =
  gh_kind :: string
  gh_refs :: "string list"

definition normalize_for_match :: "'x pact_env \<Rightarrow> string \<Rightarrow> string" where
  "normalize_for_match env s = pe_lower env (join '' '' (split_whitespace s))"

definition hint_candidates :: "self_report_handoff \<Rightarrow> (string \<times> string) list" where
  "hint_candidates h =
     (if is_blank (ho_focus h) then [] else [(''focus'', trim (ho_focus h))]) @
     (if is_blank (ho_next h) then [] else [(''next'', trim (ho_next h))]) @
     map (\<lambda>c. (''carry'', trim c)) (filter (\<lambda>c. \<not> is_blank c) (ho_carry h))"

text \<open>A line of the report is kept with the packets that name it, none older than the last genuine request.\<close>

definition ground_handoff ::
  "'x pact_env \<Rightarrow> self_report_handoff \<Rightarrow> 'x message list \<Rightarrow> evidence_packet list \<Rightarrow> grounded_hint list" where
  "ground_handoff env h messages packets =
     (let latest = (case rposition (\<lambda>p. ep_provenance p = RealUser) packets of Some i \<Rightarrow> i | None \<Rightarrow> 0);
          texts = map (\<lambda>(i, p). (i, ep_id p, normalize_for_match env (render_packet env messages p None)))
            (enumerate 0 packets);
          hint = (\<lambda>(kind, s).
            let normalized = normalize_for_match env s
            in if length normalized < 8 then []
               else let refs = map (\<lambda>(_, i, _). i)
                          (filter (\<lambda>(n, i, content). latest \<le> n \<and> (str_contains s i \<or> str_contains content normalized)) texts)
                    in if refs = [] then [] else [\<lparr>gh_kind = kind, gh_refs = refs\<rparr>])
      in concat (map hint (hint_candidates h)))"

definition ground_self_report ::
  "'x pact_env \<Rightarrow> self_report_handoff option \<Rightarrow> 'x message list \<Rightarrow> evidence_packet list \<Rightarrow> grounded_hint list" where
  "ground_self_report env handoff messages packets =
     (case handoff of Some h \<Rightarrow> ground_handoff env h messages packets | None \<Rightarrow> [])"

end
