(* ===== verification/PactLanes.thy ===== *)
theory PactLanes
  imports PactRender
begin

text \<open>
  The allocation of packets to lanes (\<open>conversation_compression/attention/mod.rs\<close>): the packets the last one depends on are
  shown exactly, prior summaries are folded whole, others are folded with what they depend on while the budget
  lasts, the rest stays a reference into the archive. The relevance of texts to a query comes from the embeddings: an
  argument that gives each text its place in the order of scores.
\<close>

section \<open>Dependency closures\<close>

text \<open>
  The nodes a stack of nodes leads to; a later entry of the table replaces an earlier one.
\<close>

definition successors :: "('a \<times> 'a list) list \<Rightarrow> 'a \<Rightarrow> 'a list" where
  "successors table x = (case map_of (rev table) x of Some ys \<Rightarrow> ys | None \<Rightarrow> [])"

definition unexplored :: "('a \<times> 'a list) list \<Rightarrow> 'a list \<Rightarrow> nat" where
  "unexplored table seen = sum_list (map (\<lambda>(k, ys). if k \<in> set seen then 0 else length ys) table)"

lemma unexplored_mono: "unexplored table (x # seen) \<le> unexplored table seen"
  unfolding unexplored_def by (rule sum_list_mono) auto

lemma unexplored_step: "x \<notin> set seen \<Longrightarrow> unexplored table (x # seen) + length (successors table x) \<le> unexplored table seen"
proof -
  assume x: "x \<notin> set seen"
  have "(k, ys) \<in> set table \<Longrightarrow> k = x \<Longrightarrow> unexplored table (x # seen) + length ys \<le> unexplored table seen" for k ys
  proof (induction table)
    case Nil
    then show ?case by simp
  next
    case (Cons e table)
    then show ?case using x unexplored_mono[of table x seen] by (cases e) (auto simp: unexplored_def)
  qed
  then show ?thesis using unexplored_mono[of table x seen]
    by (auto simp: successors_def dest!: map_of_SomeD split: option.split)
qed

function closure_from :: "('a \<times> 'a list) list \<Rightarrow> 'a list \<Rightarrow> 'a list \<Rightarrow> 'a list" where
  "closure_from table seen [] = seen"
| "closure_from table seen (x # stack) =
     (if x \<in> set seen then closure_from table seen stack
      else closure_from table (x # seen) (rev (successors table x) @ stack))"
  by pat_completeness auto
termination
proof (relation "measure (\<lambda>(table, seen, stack). length stack + unexplored table seen)")
  fix table :: "('b \<times> 'b list) list" and seen stack :: "'b list" and x :: 'b
  assume "x \<notin> set seen"
  from unexplored_step[OF this, of table]
  show "((table, x # seen, rev (successors table x) @ stack), table, seen, x # stack)
      \<in> measure (\<lambda>(table, seen, stack). length stack + unexplored table seen)" by simp
qed simp_all

definition packet_by_id :: "evidence_packet list \<Rightarrow> string \<Rightarrow> evidence_packet option" where
  "packet_by_id packets i = find (\<lambda>p. ep_id p = i) (rev packets)"

definition never_exact :: "evidence_packet list \<Rightarrow> string \<Rightarrow> bool" where
  "never_exact packets i \<longleftrightarrow>
     (case packet_by_id packets i of Some p \<Rightarrow> ep_provenance p = RealUser \<or> ep_kind p = PriorSummary | None \<Rightarrow> False)"

definition active_dependency_closure :: "evidence_packet list \<Rightarrow> string list" where
  "active_dependency_closure packets =
     (if packets = [] then []
      else let active = last packets
           in if ep_provenance active = RealUser \<or> ep_kind active = PriorSummary then []
              else closure_from
                (map (\<lambda>p. (ep_id p, filter (\<lambda>d. \<not> never_exact packets d) (ep_depends_on p))) packets) [] [ep_id active])"

definition index_by_id :: "evidence_packet list \<Rightarrow> string \<Rightarrow> nat option" where
  "index_by_id packets i = rposition (\<lambda>p. ep_id p = i) packets"

definition summarization_closure :: "nat \<Rightarrow> evidence_packet list \<Rightarrow> nat list" where
  "summarization_closure i packets =
     sort (closure_from
       (map (\<lambda>(n, p). (n, List.map_filter (index_by_id packets) (ep_depends_on p))) (enumerate 0 packets)) [] [i])"

section \<open>Ranking\<close>

definition structural_rank :: "packet_kind \<Rightarrow> nat" where
  "structural_rank k =
     (case k of UserConstraintOrCorrection \<Rightarrow> 5 | TaskContinuation \<Rightarrow> 5 | PriorSummary \<Rightarrow> 4 | UserTask \<Rightarrow> 3
      | AssistantCheckpoint \<Rightarrow> 2 | ToolInteraction \<Rightarrow> 1 | RuntimeEvent \<Rightarrow> 0)"

definition ranked_before ::
  "evidence_packet list \<Rightarrow> string list \<Rightarrow> (nat \<Rightarrow> int) option \<Rightarrow> nat \<Rightarrow> nat \<Rightarrow> bool" where
  "ranked_before packets grounded_refs score left right =
     (let l = ep_id (packets ! left) \<in> set grounded_refs; r = ep_id (packets ! right) \<in> set grounded_refs;
          structural =
            (if structural_rank (ep_kind (packets ! left)) = structural_rank (ep_kind (packets ! right)) then right < left
             else structural_rank (ep_kind (packets ! right)) < structural_rank (ep_kind (packets ! left)))
      in if l \<noteq> r then l
         else case score of
                Some f \<Rightarrow> if f left = f right then structural else f right < f left
              | None \<Rightarrow> structural)"

fun insert_ranked :: "('a \<Rightarrow> 'a \<Rightarrow> bool) \<Rightarrow> 'a \<Rightarrow> 'a list \<Rightarrow> 'a list" where
  "insert_ranked before x [] = [x]"
| "insert_ranked before x (y # ys) = (if before y x then y # insert_ranked before x ys else x # y # ys)"

definition sort_candidates ::
  "nat list \<Rightarrow> evidence_packet list \<Rightarrow> string list \<Rightarrow> int list option \<Rightarrow> nat list" where
  "sort_candidates candidates packets grounded_refs scores =
     foldr (insert_ranked (ranked_before packets grounded_refs
         (map_option (\<lambda>vs i. case map_of (zip candidates vs) i of Some v \<Rightarrow> v | None \<Rightarrow> 0) scores)))
       candidates []"

definition rank_candidates ::
  "'x pact_env \<Rightarrow> (string list \<Rightarrow> string \<Rightarrow> int list option) \<Rightarrow> nat list \<Rightarrow> evidence_packet list \<Rightarrow> 'x message list \<Rightarrow> string \<Rightarrow>
   string list \<Rightarrow> nat list" where
  "rank_candidates env relevance candidates packets messages query grounded_refs =
     (if length candidates < 2 \<or> is_blank query then sort_candidates candidates packets grounded_refs None
      else sort_candidates candidates packets grounded_refs
        (case relevance (map (\<lambda>i. render_packet env messages (packets ! i) (Some 512)) candidates) query of
           Some vs \<Rightarrow> if length vs = length candidates then Some vs else None
         | None \<Rightarrow> None))"

section \<open>Lanes\<close>

definition MIN_SUMMARIZE_RENDER_TOKENS :: nat where
  "MIN_SUMMARIZE_RENDER_TOKENS = 64"

definition div_ceil :: "nat \<Rightarrow> nat \<Rightarrow> nat" where
  "div_ceil a b = (a + b - 1) div b"

definition show_in :: "lane \<Rightarrow> packet_render \<Rightarrow> evidence_packet \<Rightarrow> evidence_packet" where
  "show_in l r p = p\<lparr>ep_lane := l, ep_prompt_content := re_content r, ep_exact_spans := re_spans r\<rparr>"

definition render_cost :: "'x pact_env \<Rightarrow> packet_render \<Rightarrow> nat" where
  "render_cost env r = estimate_tokens (pe_tokenizer env) (re_content r)"

definition exact_order :: "string list \<Rightarrow> evidence_packet list \<Rightarrow> nat list" where
  "exact_order ids packets =
     sort_key (\<lambda>i. ep_tokens (packets ! i)) (filter (\<lambda>i. ep_id (packets ! i) \<in> set ids) [0..<length packets])"

fun allocate_exact ::
  "'x pact_env \<Rightarrow> 'x message list \<Rightarrow> nat list \<Rightarrow> nat \<Rightarrow> nat \<Rightarrow> evidence_packet list \<Rightarrow> nat \<times> evidence_packet list" where
  "allocate_exact env messages [] remaining used packets = (used, packets)"
| "allocate_exact env messages (i # is) remaining used packets =
     (let r = render_packet_with_spans env messages (packets ! i) (Some (div_ceil remaining (length (i # is))));
          cost = render_cost env r
      in allocate_exact env messages is (remaining - cost) (used + cost) (packets[i := show_in KeepExact r (packets ! i)]))"

definition fold_prior_summary :: "'x pact_env \<Rightarrow> 'x message list \<Rightarrow> evidence_packet \<Rightarrow> evidence_packet" where
  "fold_prior_summary env messages p =
     (if ep_kind p \<noteq> PriorSummary \<or> ep_lane p \<noteq> ArchiveReference then p
      else let r = render_packet_with_spans env messages p None
           in if re_spans r = [] then p else show_in Summarize r p)"

definition is_candidate :: "evidence_packet \<Rightarrow> bool" where
  "is_candidate p \<longleftrightarrow> ep_lane p = ArchiveReference \<and> ep_provenance p \<noteq> RealUser"

definition desired_tokens :: "evidence_packet \<Rightarrow> nat" where
  "desired_tokens p = max (div_ceil (ep_tokens p) 2) MIN_SUMMARIZE_RENDER_TOKENS"

definition summarize_all :: "(nat \<times> packet_render) list \<Rightarrow> evidence_packet list \<Rightarrow> evidence_packet list" where
  "summarize_all renders packets = foldl (\<lambda>ps (i, r). ps[i := show_in Summarize r (ps ! i)]) packets renders"

text \<open>The render of one packet of a closure, unless it has no recoverable span.\<close>

definition render_pending ::
  "'x pact_env \<Rightarrow> 'x message list \<Rightarrow> (nat \<times> packet_render) list \<Rightarrow> nat \<Rightarrow> evidence_packet list \<Rightarrow> nat \<Rightarrow>
   (nat \<times> packet_render) option" where
  "render_pending env messages previews per_packet packets i =
     (let p = packets ! i;
          again = render_packet_with_spans env messages p (Some (min (desired_tokens p) per_packet));
          r = (case map_of previews i of
                 Some preview \<Rightarrow> if re_spans preview = [] \<or> desired_tokens p \<le> per_packet then preview else again
               | None \<Rightarrow> again)
      in if re_spans r = [] then None else Some (i, r))"

fun take_ranked ::
  "'x pact_env \<Rightarrow> 'x message list \<Rightarrow> (nat \<times> packet_render) list \<Rightarrow> nat list \<Rightarrow> nat \<Rightarrow> evidence_packet list \<Rightarrow>
   evidence_packet list" where
  "take_ranked env messages previews [] remaining packets = packets"
| "take_ranked env messages previews (i # is) remaining packets =
     (if remaining = 0 then packets
      else if ep_lane (packets ! i) \<noteq> ArchiveReference then take_ranked env messages previews is remaining packets
      else
        let pending = filter (\<lambda>c. is_candidate (packets ! c)) (summarization_closure i packets)
        in if pending = [] then take_ranked env messages previews is remaining packets
           else
             let rendered = List.map_filter
                   (render_pending env messages previews (div_ceil remaining (length pending)) packets) pending;
                 cost = sum_list (map (\<lambda>(_, r). render_cost env r) rendered)
             in if length rendered \<noteq> length pending \<or> remaining < cost
                then take_ranked env messages previews is remaining packets
                else take_ranked env messages previews is (remaining - cost) (summarize_all rendered packets))"

definition allocate_lanes ::
  "'x pact_env \<Rightarrow> (string list \<Rightarrow> string \<Rightarrow> int list option) \<Rightarrow> 'x message list \<Rightarrow> pinned_state \<Rightarrow> grounded_hint list \<Rightarrow>
   string \<Rightarrow> nat \<Rightarrow> bool \<Rightarrow> evidence_packet list \<Rightarrow> evidence_packet list" where
  "allocate_lanes env relevance messages pinned grounded_hints plan_focus target_tokens minimal_frontier packets =
     (let exact_ids = (if minimal_frontier then [] else active_dependency_closure packets);
          (used, packets) = allocate_exact env messages (exact_order exact_ids packets) target_tokens 0 packets;
          packets = map (fold_prior_summary env messages) packets;
          candidates = filter (\<lambda>i. is_candidate (packets ! i)) [0..<length packets];
          remaining = target_tokens - used
      in if remaining = 0 \<or> candidates = [] then packets
         else
           let previews = map (\<lambda>i. (i, render_packet_with_spans env messages (packets ! i)
                   (Some (desired_tokens (packets ! i))))) candidates
           in if list_all (\<lambda>(_, r). re_spans r \<noteq> []) previews \<and>
                 sum_list (map (\<lambda>(_, r). render_cost env r) previews) \<le> remaining
              then summarize_all previews packets
              else
                let query = pi_text (pd_task pinned) @ newline @
                      join newline (map pi_text (pd_constraints pinned)) @ newline @ plan_focus;
                    refs = concat (map gh_refs grounded_hints)
                in take_ranked env messages previews
                     (rank_candidates env relevance candidates packets messages query refs) remaining packets)"

end
