(* ===== verification/Archive.thy ===== *)
theory Archive
  imports PactRender
begin

text \<open>
  The archive of drained messages and its index of packets (\<open>conversation_compression/archive.rs\<close>). The file system is a
  map from paths to contents, with a test of what can be written; the JSON codec of messages and of index
  entries is an argument.
\<close>

record archive_block_entry =
  ab_id :: string
  ab_kind :: packet_kind
  ab_provenance :: provenance
  ab_dependencies :: "string list"
  ab_linkage :: packet_linkage
  ab_exact_spans :: "source_span list"
  ab_content_digest :: string
  ab_line_start :: nat
  ab_line_end :: nat
  ab_descriptor :: string

record archive_bundle =
  bu_path :: string
  bu_index_path :: string
  bu_entries :: "archive_block_entry list"

record archived_block_ref =
  br_provenance :: provenance
  br_archive_path :: string
  br_index_path :: string
  br_line_start :: nat
  br_line_end :: nat
  br_descriptor :: string

type_synonym files = "string \<rightharpoonup> string"

record 'x archive_env =
  av_pact :: "'x pact_env"
  av_decode :: "string \<Rightarrow> 'x message option"
  av_encode_entry :: "archive_block_entry \<Rightarrow> string"
  av_decode_entry :: "string \<Rightarrow> archive_block_entry option"
  av_writable :: "string \<Rightarrow> bool"

datatype archive_err =
    NoSessionsDir | WriteFailed string | OutsideArchive string | ReadFailed string | BlocksNotFound | BadSidecarName
  | LineMissing nat | InvalidMessage | DigestMismatch string

definition bundle_entry :: "archive_bundle \<Rightarrow> string \<Rightarrow> archive_block_entry option" where
  "bundle_entry b i = find (\<lambda>e. ab_id e = i) (bu_entries b)"

definition jsonl_suffix :: string where "jsonl_suffix = ''.jsonl''"
definition index_suffix :: string where "index_suffix = ''.blocks.jsonl''"

definition write_file :: "'x archive_env \<Rightarrow> string \<Rightarrow> string \<Rightarrow> files \<Rightarrow> archive_err + files" where
  "write_file env path content fs = rbind (ensure (av_writable env path) (WriteFailed path)) (\<lambda>_. Inr (fs(path \<mapsto> content)))"

definition read_file :: "string \<Rightarrow> files \<Rightarrow> archive_err + string" where
  "read_file path fs = (case fs path of Some content \<Rightarrow> Inr content | None \<Rightarrow> Inl (ReadFailed path))"

definition write_archive_to ::
  "'x archive_env \<Rightarrow> string \<Rightarrow> string \<Rightarrow> 'x message list \<Rightarrow> files \<Rightarrow> archive_err + string \<times> files" where
  "write_archive_to env dir compression_id messages fs =
     (let path = dir @ ''/'' @ compression_id @ jsonl_suffix
      in rbind (write_file env path (concat (map (\<lambda>m. pe_encode (av_pact env) m @ newline) messages)) fs)
           (\<lambda>fs. Inr (path, fs)))"

text \<open>Without an index a failure is logged and the archive is missing.\<close>

definition archive_messages ::
  "'x archive_env \<Rightarrow> string option \<Rightarrow> string \<Rightarrow> string \<Rightarrow> 'x message list \<Rightarrow> files \<Rightarrow> string option \<times> files" where
  "archive_messages env sessions_dir session_name compression_id messages fs =
     (case sessions_dir of
        None \<Rightarrow> (None, fs)
      | Some d \<Rightarrow>
          (case write_archive_to env (d @ ''/archive/'' @ session_name) compression_id messages fs of
             Inr (path, fs) \<Rightarrow> (Some path, fs)
           | Inl e \<Rightarrow> (None, fs)))"

definition block_digest :: "'x pact_env \<Rightarrow> string \<Rightarrow> 'x message list \<Rightarrow> string" where
  "block_digest env i messages =
     hex (pe_sha env (''octomind-pact-archive-v1'' @ NUL @ i @ concat (map (\<lambda>m. NUL @ pe_encode env m) messages)))"

definition archive_entry ::
  "'x archive_env \<Rightarrow> 'x message list \<Rightarrow> evidence_packet \<Rightarrow> archive_err + archive_block_entry" where
  "archive_entry env messages p =
     rbind (ensure (ep_message_start p \<le> ep_message_end p + 1 \<and> ep_message_end p < length messages) (OutsideArchive (ep_id p)))
       (\<lambda>_. Inr \<lparr>ab_id = ep_id p, ab_kind = ep_kind p, ab_provenance = ep_provenance p,
          ab_dependencies = ep_depends_on p, ab_linkage = ep_linkage p, ab_exact_spans = ep_exact_spans p,
          ab_content_digest = block_digest (av_pact env) (ep_id p) (packet_messages messages p),
          ab_line_start = ep_message_start p + 1, ab_line_end = ep_message_end p + 1,
          ab_descriptor = ep_descriptor p\<rparr>)"

definition write_archive_with_index_to ::
  "'x archive_env \<Rightarrow> string \<Rightarrow> string \<Rightarrow> 'x message list \<Rightarrow> evidence_packet list \<Rightarrow> files \<Rightarrow> archive_err + archive_bundle \<times> files" where
  "write_archive_with_index_to env dir compression_id messages packets fs =
     rbind (write_archive_to env dir compression_id messages fs) (\<lambda>(path, fs).
     rbind (map_ok (archive_entry env messages) packets) (\<lambda>entries.
     let index_path = dir @ ''/'' @ compression_id @ index_suffix
     in rbind (write_file env index_path (concat (map (\<lambda>e. av_encode_entry env e @ newline) entries)) fs) (\<lambda>fs.
          Inr (\<lparr>bu_path = path, bu_index_path = index_path, bu_entries = entries\<rparr>, fs))))"

definition archive_messages_with_index ::
  "'x archive_env \<Rightarrow> string option \<Rightarrow> string \<Rightarrow> string \<Rightarrow> 'x message list \<Rightarrow> evidence_packet list \<Rightarrow> files \<Rightarrow>
   archive_err + archive_bundle \<times> files" where
  "archive_messages_with_index env sessions_dir session_name compression_id messages packets fs =
     (case sessions_dir of
        None \<Rightarrow> Inl NoSessionsDir
      | Some d \<Rightarrow> write_archive_with_index_to env (d @ ''/archive/'' @ session_name) compression_id messages packets fs)"

section \<open>Reading\<close>

text \<open>The archive an index belongs to: the suffix of the file name is replaced.\<close>

definition archive_of_index :: "string \<Rightarrow> string option" where
  "archive_of_index path =
     (if ends_with path index_suffix then Some (take (length path - length index_suffix) path @ jsonl_suffix) else None)"

definition archive_line :: "string list \<Rightarrow> nat \<Rightarrow> archive_err + string" where
  "archive_line lines n = (if n = 0 \<or> length lines < n then Inl (LineMissing n) else Inr (lines ! (n - 1)))"

definition archive_message :: "'x archive_env \<Rightarrow> string \<Rightarrow> archive_err + 'x message" where
  "archive_message env raw = (case av_decode env raw of Some m \<Rightarrow> Inr m | None \<Rightarrow> Inl InvalidMessage)"

definition check_entry :: "'x archive_env \<Rightarrow> string list \<Rightarrow> archive_block_entry \<Rightarrow> archive_err + unit" where
  "check_entry env lines e =
     rbind (map_ok (\<lambda>n. rbind (archive_line lines n) (archive_message env)) [ab_line_start e..<ab_line_end e + 1]) (\<lambda>messages.
       ensure (block_digest (av_pact env) (ab_id e) messages = ab_content_digest e) (DigestMismatch (ab_id e)))"

definition entry_lines :: "archive_block_entry \<Rightarrow> nat list" where
  "entry_lines e = [ab_line_start e..<ab_line_end e + 1]"

definition index_entries :: "'x archive_env \<Rightarrow> string \<Rightarrow> archive_block_entry list" where
  "index_entries env content = List.map_filter (av_decode_entry env) (str_lines content)"

definition read_blocks :: "'x archive_env \<Rightarrow> files \<Rightarrow> string \<Rightarrow> string list \<Rightarrow> archive_err + 'x message list" where
  "read_blocks env fs index_path ids =
     rbind (read_file index_path fs) (\<lambda>content.
     let entries = filter (\<lambda>e. ab_id e \<in> set ids) (index_entries env content)
     in rbind (ensure (set (map ab_id entries) = set ids) BlocksNotFound) (\<lambda>_.
        rbind (case archive_of_index index_path of Some p \<Rightarrow> Inr p | None \<Rightarrow> Inl BadSidecarName) (\<lambda>archive_path.
        rbind (read_file archive_path fs) (\<lambda>archive.
        let lines = str_lines archive
        in rbind (each (check_entry env lines) entries) (\<lambda>_.
           map_ok (\<lambda>n. rbind (archive_line lines n) (archive_message env))
             (remdups_adj (sort (concat (map entry_lines entries)))))))))"

fun registry_insert :: "string \<Rightarrow> 'a \<Rightarrow> (string \<times> 'a) list \<Rightarrow> (string \<times> 'a) list" where
  "registry_insert k v [] = [(k, v)]"
| "registry_insert k v ((k', v') # kvs) =
     (if k = k' then (k, v) # kvs
      else if byte_less k' k then (k', v') # registry_insert k v kvs else (k, v) # (k', v') # kvs)"

text \<open>\<open>dir_entries\<close> are the paths in the session's archive directory, if it can be read.\<close>

definition read_session_block_registry ::
  "'x archive_env \<Rightarrow> string list option \<Rightarrow> files \<Rightarrow> (string \<times> archived_block_ref) list" where
  "read_session_block_registry env dir_entries fs =
     (let paths = foldr insert_id (filter (\<lambda>p. ends_with p index_suffix) (case dir_entries of Some ps \<Rightarrow> ps | None \<Rightarrow> [])) [];
          refs = concat (map (\<lambda>p. case (fs p, archive_of_index p) of
               (Some content, Some archive_path) \<Rightarrow>
                 map (\<lambda>e. (ab_id e, \<lparr>br_provenance = ab_provenance e, br_archive_path = archive_path, br_index_path = p,
                   br_line_start = ab_line_start e, br_line_end = ab_line_end e, br_descriptor = ab_descriptor e\<rparr>))
                   (index_entries env content)
             | _ \<Rightarrow> []) paths)
      in foldl (\<lambda>reg (i, r). registry_insert i r reg) [] refs)"

end
