(* ===== verification/SummarySchema.thy ===== *)
theory SummarySchema
  imports Packets
begin

text \<open>
  The typed summary of a fold (\<open>conversation_compression/schema.rs\<close>), its rendering, the parser of the XML wire form, and the
  recovery of JSON from text and the decision to fold (\<open>ai.rs\<close>). The regular expression of the file ranges, \<open>serde\<close>
  and the digest are arguments.
\<close>

definition FILE_CONTEXT_LINE_MAX :: nat where
  "FILE_CONTEXT_LINE_MAX = 10000"

record key_entities =
  ke_files :: "string list"
  ke_names :: "string list"
  ke_decisions :: "string list"

record file_context_entry =
  fc_filepath :: string
  fc_start_line :: nat
  fc_end_line :: nat

record compression_summary =
  cm_should_compress :: bool
  cm_original_request :: string
  cm_session_context :: string
  cm_current_task :: string
  cm_progress :: string
  cm_analysis_findings :: "string list"
  cm_errors_and_corrections :: "string list"
  cm_recent_exchanges :: "string list"
  cm_key_entities :: key_entities
  cm_next_steps :: string
  cm_file_context :: "file_context_entry list"
  cm_critical_knowledge :: "string list"
  cm_open_loops :: "string list"
  cm_file_states :: "string list"
  cm_folded_units :: "folded_unit list"

definition is_summary_substantive :: "compression_summary \<Rightarrow> bool" where
  "is_summary_substantive s \<longleftrightarrow>
     \<not> is_blank (cm_current_task s) \<or> \<not> is_blank (cm_progress s) \<or> \<not> is_blank (cm_session_context s) \<or>
     cm_analysis_findings s \<noteq> [] \<or> cm_recent_exchanges s \<noteq> [] \<or> cm_folded_units s \<noteq> []"

section \<open>Rendering\<close>

definition tag_open :: "string \<Rightarrow> string" where "tag_open tag = ''<'' @ tag @ ''>''"
definition tag_close :: "string \<Rightarrow> string" where "tag_close tag = ''</'' @ tag @ ''>''"

definition push_text :: "string \<Rightarrow> string \<Rightarrow> string" where
  "push_text tag value = (if is_blank value then [] else tag_open tag @ trim value @ tag_close tag @ newline)"

definition push_list :: "string \<Rightarrow> string \<Rightarrow> string list \<Rightarrow> string" where
  "push_list outer item values =
     (let kept = filter (\<lambda>v. \<not> is_blank v) values
      in if kept = [] then []
         else tag_open outer @ newline @ concat (map (\<lambda>v. tag_open item @ trim v @ tag_close item @ newline) kept) @
              tag_close outer @ newline)"

definition escape_char :: "char \<Rightarrow> string" where
  "escape_char c =
     (if c = CHR ''&'' then ''&amp;'' else if c = CHR ''<'' then ''&lt;'' else if c = CHR ''>'' then ''&gt;''
      else if c = CHR 0x22 then ''&quot;'' else if c = CHR 0x27 then ''&apos;'' else [c])"

definition xml_escape :: "string \<Rightarrow> string" where
  "xml_escape s = concat (map escape_char s)"

text \<open>\<open>encode\<close> is the serialized unit.\<close>

definition folded_unit_id :: "(string \<Rightarrow> string) \<Rightarrow> (folded_unit \<Rightarrow> string) \<Rightarrow> folded_unit \<Rightarrow> string" where
  "folded_unit_id sha encode u = ''s:'' @ short_hex (sha (''octomind-pact-fold-v1'' @ NUL @ encode u))"

definition attribute :: "string \<Rightarrow> string \<Rightarrow> string" where
  "attribute name value = name @ ''='' @ quote @ xml_escape value @ quote"

definition unit_text :: "folded_unit \<Rightarrow> string" where
  "unit_text u =
     (if fu_status u = ''superseded'' then ''Superseded state is archived and must not be treated as current.''
      else trim (fu_text u))"

definition render_folded_state :: "(folded_unit \<Rightarrow> string) \<Rightarrow> folded_unit list \<Rightarrow> string" where
  "render_folded_state id_of units =
     ''<folded_state>'' @ newline @
     concat (map (\<lambda>u. ''<unit '' @ attribute ''id'' (id_of u) @ '' '' @ attribute ''kind'' (fu_kind u) @ '' '' @
       attribute ''status'' (fu_status u) @ '' '' @ attribute ''refs'' (join '' '' (fu_refs u)) @ ''>'' @
       xml_escape (unit_text u) @ ''</unit>'' @ newline) units) @ ''</folded_state>''"

definition render_summary :: "(folded_unit \<Rightarrow> string) \<Rightarrow> compression_summary \<Rightarrow> string" where
  "render_summary id_of s =
     (let ke = cm_key_entities s
      in trim_end (
        push_text ''original_request'' (cm_original_request s) @ push_text ''session_context'' (cm_session_context s) @
        push_text ''current_task'' (cm_current_task s) @
        (if cm_folded_units s = [] then [] else render_folded_state id_of (cm_folded_units s) @ newline) @
        push_text ''progress'' (cm_progress s) @
        push_list ''analysis_findings'' ''finding'' (cm_analysis_findings s) @
        push_list ''errors_and_corrections'' ''entry'' (cm_errors_and_corrections s) @
        push_list ''recent_exchanges'' ''exchange'' (cm_recent_exchanges s) @
        (if ke_files ke = [] \<and> ke_names ke = [] \<and> ke_decisions ke = [] then []
         else ''<key_entities>'' @ newline @ push_list ''files'' ''file'' (ke_files ke) @
              push_list ''names'' ''name'' (ke_names ke) @ push_list ''decisions'' ''decision'' (ke_decisions ke) @
              ''</key_entities>'' @ newline) @
        push_list ''open_loops'' ''open_loop'' (cm_open_loops s) @ push_list ''file_states'' ''state'' (cm_file_states s) @
        push_text ''next_steps'' (cm_next_steps s)))"

definition render_pact_summary :: "(folded_unit \<Rightarrow> string) \<Rightarrow> compression_summary \<Rightarrow> string" where
  "render_pact_summary id_of s = render_folded_state id_of (cm_folded_units s)"

section \<open>Parsing the XML form\<close>

datatype schema_err =
    MissingShouldCompress | BadBool string | EmptyFilepath | BadLineNumber string | LineOutOfRange string nat nat
  | LinesReversed string nat nat

definition strip_fence :: "string \<Rightarrow> string option" where
  "strip_fence s =
     (if \<not> starts_with s ''```'' then None
      else let after_open = drop 3 s;
               body = (case find_str newline after_open of Some nl \<Rightarrow> drop (nl + 1) after_open | None \<Rightarrow> after_open)
           in if ends_with body ''```'' then Some (trim (take (length body - 3) body)) else None)"

definition strip_optional_envelope :: "string \<Rightarrow> string" where
  "strip_optional_envelope s = (case strip_fence (trim s) of Some inner \<Rightarrow> inner | None \<Rightarrow> trim s)"

text \<open>The first element of a tag, and what follows it.\<close>

definition cut_element :: "string \<Rightarrow> string \<Rightarrow> (string \<times> string) option" where
  "cut_element tag s =
     (case find_str (tag_open tag) s of
        None \<Rightarrow> None
      | Some i \<Rightarrow>
          let rest = drop (i + length (tag_open tag)) s
          in case find_str (tag_close tag) rest of
               None \<Rightarrow> None
             | Some n \<Rightarrow> Some (take n rest, drop (n + length (tag_close tag)) rest))"

lemma cut_element_shorter: "cut_element tag s = Some (inner, rest) \<Longrightarrow> length rest < length s"
proof -
  assume c: "cut_element tag s = Some (inner, rest)"
  then obtain i n where i: "find_str (tag_open tag) s = Some i"
    and r: "rest = drop (n + length (tag_close tag)) (drop (i + length (tag_open tag)) s)"
    by (auto simp: cut_element_def Let_def split: option.splits)
  have "i < length s" using find_str_Some[OF i] prefix_length_le[of "tag_open tag" "drop i s"] by (simp add: tag_open_def)
  then show ?thesis by (simp add: r tag_open_def tag_close_def)
qed

definition extract_text :: "string \<Rightarrow> string \<Rightarrow> string option" where
  "extract_text body tag = map_option (\<lambda>(inner, _). trim inner) (cut_element tag body)"

definition text_or_empty :: "string \<Rightarrow> string \<Rightarrow> string" where
  "text_or_empty body tag = (case extract_text body tag of Some s \<Rightarrow> s | None \<Rightarrow> [])"

function items_of :: "string \<Rightarrow> string \<Rightarrow> string list" where
  "items_of item s =
     (case cut_element item s of
        None \<Rightarrow> []
      | Some (inner, rest) \<Rightarrow> (if is_blank inner then [] else [trim inner]) @ items_of item rest)"
  by pat_completeness auto
termination by (relation "measure (\<lambda>(_, s). length s)") (auto dest: cut_element_shorter)

declare items_of.simps [simp del]

definition extract_items :: "string \<Rightarrow> string \<Rightarrow> string \<Rightarrow> string list" where
  "extract_items body container item =
     (case extract_text body container of Some inner \<Rightarrow> items_of item inner | None \<Rightarrow> [])"

function units_of :: "string \<Rightarrow> folded_unit list" where
  "units_of s =
     (case cut_element ''unit'' s of
        None \<Rightarrow> []
      | Some (inner, rest) \<Rightarrow>
          let u = \<lparr>fu_text = text_or_empty inner ''text'', fu_kind = text_or_empty inner ''kind'',
                   fu_status = text_or_empty inner ''status'', fu_refs = extract_items inner ''refs'' ''ref''\<rparr>
          in (if is_blank (fu_text u) then [] else [u]) @ units_of rest)"
  by pat_completeness auto
termination by (relation "measure length") (auto dest: cut_element_shorter)

declare units_of.simps [simp del]

definition extract_folded_units :: "string \<Rightarrow> folded_unit list" where
  "extract_folded_units body = (case extract_text body ''folded_units'' of Some inner \<Rightarrow> units_of inner | None \<Rightarrow> [])"

definition parse_bool :: "string \<Rightarrow> schema_err + bool" where
  "parse_bool s =
     (let t = to_lower (trim s)
      in if t \<in> {''true'', ''yes'', ''1''} then Inr True
         else if t \<in> {''false'', ''no'', ''0''} then Inr False else Inl (BadBool t))"

definition parse_line :: "string \<Rightarrow> schema_err + nat" where
  "parse_line s = (case parse_unsigned 64 s of Some n \<Rightarrow> Inr (nat n) | None \<Rightarrow> Inl (BadLineNumber s))"

text \<open>The captures of one range element.\<close>

definition range_entry :: "string \<times> string \<times> string \<Rightarrow> schema_err + file_context_entry" where
  "range_entry c =
     (case c of (path, first_line, last_line) \<Rightarrow>
        rbind (ensure (\<not> is_blank path) EmptyFilepath) (\<lambda>_.
        rbind (parse_line first_line) (\<lambda>a.
        rbind (parse_line last_line) (\<lambda>b.
        rbind (ensure (1 \<le> a \<and> a \<le> FILE_CONTEXT_LINE_MAX \<and> 1 \<le> b \<and> b \<le> FILE_CONTEXT_LINE_MAX)
                 (LineOutOfRange (trim path) a b)) (\<lambda>_.
        rbind (ensure (a \<le> b) (LinesReversed (trim path) a b)) (\<lambda>_.
          Inr \<lparr>fc_filepath = trim path, fc_start_line = a, fc_end_line = b\<rparr>))))))"

definition extract_file_context ::
  "(string \<Rightarrow> (string \<times> string \<times> string) list) \<Rightarrow> string \<Rightarrow> schema_err + file_context_entry list" where
  "extract_file_context captures body =
     (case extract_text body ''file_context'' of Some inner \<Rightarrow> map_ok range_entry (captures inner) | None \<Rightarrow> Inr [])"

definition parse_xml_summary ::
  "(string \<Rightarrow> (string \<times> string \<times> string) list) \<Rightarrow> string \<Rightarrow> schema_err + compression_summary" where
  "parse_xml_summary captures response =
     (let body = strip_optional_envelope response
      in rbind (case extract_text body ''should_compress'' of Some s \<Rightarrow> parse_bool s | None \<Rightarrow> Inl MissingShouldCompress)
           (\<lambda>should_compress.
         let key_entities = (case extract_text body ''key_entities'' of
               Some inner \<Rightarrow> \<lparr>ke_files = extract_items inner ''files'' ''file'', ke_names = extract_items inner ''names'' ''name'',
                 ke_decisions = extract_items inner ''decisions'' ''decision''\<rparr>
             | None \<Rightarrow> \<lparr>ke_files = [], ke_names = [], ke_decisions = []\<rparr>)
         in rbind (extract_file_context captures body) (\<lambda>file_context.
         Inr \<lparr>cm_should_compress = should_compress, cm_original_request = text_or_empty body ''original_request'',
           cm_session_context = text_or_empty body ''session_context'', cm_current_task = text_or_empty body ''current_task'',
           cm_progress = text_or_empty body ''progress'',
           cm_analysis_findings = extract_items body ''analysis_findings'' ''finding'',
           cm_errors_and_corrections = extract_items body ''errors_and_corrections'' ''entry'',
           cm_recent_exchanges = extract_items body ''recent_exchanges'' ''exchange'', cm_key_entities = key_entities,
           cm_next_steps = text_or_empty body ''next_steps'', cm_file_context = file_context,
           cm_critical_knowledge = extract_items body ''critical_knowledge'' ''knowledge'',
           cm_open_loops = extract_items body ''open_loops'' ''open_loop'',
           cm_file_states = extract_items body ''file_states'' ''state'',
           cm_folded_units = extract_folded_units body\<rparr>)))"

section \<open>JSON in text\<close>

text \<open>
  The end of the first balanced object or array at the head of a text: depth, inside a string, after a backslash.
\<close>

fun balanced_end :: "char \<Rightarrow> char \<Rightarrow> nat \<Rightarrow> bool \<Rightarrow> bool \<Rightarrow> nat \<Rightarrow> string \<Rightarrow> nat option" where
  "balanced_end opening closing depth in_string escape i [] = None"
| "balanced_end opening closing depth in_string escape i (b # bs) =
     (if in_string then
        (if escape then balanced_end opening closing depth True False (i + 1) bs
         else if b = CHR 0x5C then balanced_end opening closing depth True True (i + 1) bs
         else balanced_end opening closing depth (b \<noteq> CHR 0x22) False (i + 1) bs)
      else if b = CHR 0x22 then balanced_end opening closing depth True escape (i + 1) bs
      else if b = opening then balanced_end opening closing (depth + 1) False escape (i + 1) bs
      else if b = closing then
        (if depth = 1 then Some i else balanced_end opening closing (depth - 1) False escape (i + 1) bs)
      else balanced_end opening closing depth False escape (i + 1) bs)"

fun find_first_balanced_json :: "(string \<Rightarrow> json option) \<Rightarrow> string \<Rightarrow> json option" where
  "find_first_balanced_json parse [] = None"
| "find_first_balanced_json parse (c # cs) =
     (if c = CHR 0x7B \<or> c = CHR 0x5B then
        (case balanced_end c (if c = CHR 0x7B then CHR 0x7D else CHR 0x5D) 0 False False 0 (c # cs) of
           Some i \<Rightarrow>
             (case parse (take (i + 1) (c # cs)) of Some v \<Rightarrow> Some v | None \<Rightarrow> find_first_balanced_json parse cs)
         | None \<Rightarrow> find_first_balanced_json parse cs)
      else find_first_balanced_json parse cs)"

definition extract_json_lenient :: "(string \<Rightarrow> json option) \<Rightarrow> string \<Rightarrow> json option" where
  "extract_json_lenient parse content =
     (let trimmed = trim content
      in if trimmed = [] then None
         else case (if hd trimmed = CHR 0x7B \<or> hd trimmed = CHR 0x5B then parse trimmed else None) of
                Some v \<Rightarrow> Some v
              | None \<Rightarrow>
                  (case Option.bind (strip_fence trimmed) parse of
                     Some v \<Rightarrow> Some v
                   | None \<Rightarrow> find_first_balanced_json parse trimmed))"

section \<open>The decision to fold\<close>

definition evaluate_decision :: "compression_summary \<Rightarrow> bool \<Rightarrow> bool \<Rightarrow> bool" where
  "evaluate_decision s force has_pact \<longleftrightarrow>
     (cm_should_compress s \<or> force) \<and> (has_pact \<or> is_summary_substantive s)"

end
