(* ===== verification/PactFold.thy ===== *)
theory PactFold
  imports PactLanes Archive SummarySchema
begin

text \<open>
  The evidence controller around a fold (\<open>conversation_compression/attention/mod.rs\<close>): the context built over the drained
  range, the bands it renders, the repair and the validation of the model's folded units, the checks of archive and
  governance before the drain, and the admission of a summary (\<open>conversation_compression/mod.rs\<close>).
\<close>

definition CONTROLLER_VERSION :: nat where
  "CONTROLLER_VERSION = 1"

record pact_context =
  pc_enabled :: bool
  pc_packets :: "evidence_packet list"
  pc_pinned :: pinned_state
  pc_plan_focus :: string
  pc_grounded_hints :: "grounded_hint list"
  pc_known_provenance :: "(string \<times> provenance) list"
  pc_prior_recall :: "(string \<times> archived_block_ref) list"
  pc_source_tokens :: nat
  pc_target_tokens :: nat

section \<open>Building\<close>

text \<open>What \<open>build\<close> reads of the session.\<close>

record 'x pact_session =
  ps_name :: string
  ps_messages :: "'x message list"
  ps_gate_task :: "resolved_task option"
  ps_verification_policy :: verification_policy
  ps_handoff :: "self_report_handoff option"
  ps_plan :: plan_store

datatype pact_err =
    InvalidDrainRange nat nat | TooManyUnits | OverBudget nat nat | NoRecoverableSpan string | IncompleteSummary string
  | MissingDependency string string | NoTextOrSupport nat | ExceedsBound nat | DuplicateSupport nat | InvalidKind nat
  | InvalidStatus nat | UnknownBlock nat string | CitesArchiveOnly nat string | FoldsFrontier nat string
  | NotVisible nat string | Amplifies nat | PromotesContinuation nat | NoArchiveCoordinate string
  | PriorRecovery archive_err | PacketNotFolded string | GovernanceChanged string string | SidecarIncomplete
  | OutsideDrain | RecallCount nat nat | RecallDiffers nat | SpanFailed string nat nat | ArchiveFailed archive_err
  | ValidatorDisabled

definition plan_focus_of :: "'x message list \<Rightarrow> plan_store \<Rightarrow> string" where
  "plan_focus_of messages plan =
     (let display = (case get_current_plan_display plan of Inr s \<Rightarrow> s | Inl _ \<Rightarrow> [])
      in case Option.bind (latest_task_timestamp messages) (\<lambda>t. plan_staleness_marker t plan) of
           Some marker \<Rightarrow> (if display = [] then [] else display @ newline) @ marker
         | None \<Rightarrow> display)"

definition drained :: "'x pact_session \<Rightarrow> nat \<Rightarrow> nat \<Rightarrow> 'x message list" where
  "drained s drain_start drain_end = take (drain_end + 1 - drain_start) (drop drain_start (ps_messages s))"

definition pinned_state_of :: "'x pact_env \<Rightarrow> 'x pact_session \<Rightarrow> nat \<Rightarrow> nat \<Rightarrow> evidence_packet list \<Rightarrow> pinned_state" where
  "pinned_state_of env s drain_start drain_end packets =
     (let task_source = map_option ep_id
            (case latest_task_turn_index (ps_messages s) of
               Some i \<Rightarrow> if drain_start \<le> i \<and> i \<le> drain_end then packet_for_offset packets (i - drain_start) else None
             | None \<Rightarrow> None);
          constraints = collect_constraints env (ps_messages s) (ps_gate_task s) task_source;
          policy = effective_policy (ps_gate_task s) (ps_verification_policy s)
      in \<lparr>pd_task = \<lparr>pi_text = live_task (ps_messages s), pi_source = task_source\<rparr>, pd_constraints = constraints,
          pd_verification_policy = policy,
          pd_governance_hash = governance_hash env (ps_messages s) (live_task (ps_messages s)) constraints policy\<rparr>)"

text \<open>A prior block stays known while what is shown cites it.\<close>

definition pact_context_of ::
  "(string \<times> archived_block_ref) list \<Rightarrow> bool \<Rightarrow> pinned_state \<Rightarrow> string \<Rightarrow> grounded_hint list \<Rightarrow> nat \<Rightarrow> nat \<Rightarrow>
   evidence_packet list \<Rightarrow> pact_context" where
  "pact_context_of registry enabled pinned focus hints source_tokens target_tokens packets =
     (let cited = map (\<lambda>p. strip_recall_index (ep_prompt_content p)) packets
      in \<lparr>pc_enabled = enabled, pc_packets = packets, pc_pinned = pinned, pc_plan_focus = focus, pc_grounded_hints = hints,
          pc_known_provenance =
            foldl (\<lambda>known p. registry_insert (ep_id p) (ep_provenance p) known)
              (map (\<lambda>(i, r). (i, br_provenance r)) registry) packets,
          pc_prior_recall = filter (\<lambda>(i, _). list_ex (\<lambda>c. str_contains c i) cited) registry,
          pc_source_tokens = source_tokens, pc_target_tokens = target_tokens\<rparr>)"

text \<open>\<open>ratio_tokens\<close> is the target for a number of source tokens, a rounded quotient of \<open>f64\<close>.\<close>

definition build_pact ::
  "'x pact_env \<Rightarrow> (string list \<Rightarrow> string \<Rightarrow> int list option) \<Rightarrow> (nat \<Rightarrow> nat) \<Rightarrow> (string \<times> archived_block_ref) list \<Rightarrow>
   'x pact_session \<Rightarrow> nat \<Rightarrow> nat \<Rightarrow> bool \<Rightarrow> bool \<Rightarrow> pact_err + pact_context" where
  "build_pact env relevance ratio_tokens registry s drain_start drain_end attention_enabled minimal_frontier =
     (if drain_end < drain_start \<or> length (ps_messages s) \<le> drain_end then Inl (InvalidDrainRange drain_start drain_end)
      else
        let messages = drained s drain_start drain_end;
            packets = link_dependencies (build_packets env (ps_name s) messages);
            pinned = pinned_state_of env s drain_start drain_end packets;
            source_tokens = sum_list (map ep_tokens packets);
            target_tokens = ratio_tokens source_tokens;
            hints = ground_self_report env (ps_handoff s) messages packets;
            focus = plan_focus_of (ps_messages s) (ps_plan s)
        in Inr (pact_context_of registry attention_enabled pinned focus hints source_tokens target_tokens
             (if attention_enabled
              then allocate_lanes env relevance messages pinned hints focus target_tokens minimal_frontier packets
              else packets)))"

definition verify_governance :: "'x pact_env \<Rightarrow> 'x pact_session \<Rightarrow> pact_context \<Rightarrow> pact_err + unit" where
  "verify_governance env s pact =
     (let constraints = collect_constraints env (ps_messages s) (ps_gate_task s) None;
          actual = governance_hash env (ps_messages s) (live_task (ps_messages s)) constraints
            (effective_policy (ps_gate_task s) (ps_verification_policy s))
      in ensure (actual = pd_governance_hash (pc_pinned pact)) (GovernanceChanged (pd_governance_hash (pc_pinned pact)) actual))"

section \<open>Rendering the bands\<close>

definition source_note :: "pinned_item \<Rightarrow> string" where
  "source_note i = (case pi_source i of Some s \<Rightarrow> '' (source: '' @ s @ '')'' | None \<Rightarrow> [])"

definition render_pinned_lines :: "pinned_state \<Rightarrow> string" where
  "render_pinned_lines pinned =
     ''task'' @ source_note (pd_task pinned) @ '': '' @ pi_text (pd_task pinned) @ newline @
     concat (map (\<lambda>c. ''constraint'' @ source_note c @ '': '' @ pi_text c @ newline) (pd_constraints pinned)) @
     (case pd_verification_policy pinned of
        Forbidden \<Rightarrow> ''verification_policy: forbidden for this turn; do not execute verification'' @ newline
      | Allowed \<Rightarrow> ''verification_policy: allowed; any prior no-verification rule is revoked; verification is '' @
          ''permitted, not required'' @ newline
      | Unspecified \<Rightarrow> []) @
     ''governance_hash: '' @ pd_governance_hash pinned @ newline"

definition lane_str :: "lane \<Rightarrow> string" where
  "lane_str l = (case l of KeepExact \<Rightarrow> ''keep_exact'' | Summarize \<Rightarrow> ''summarize'' | ArchiveReference \<Rightarrow> ''archive_reference'')"

definition packet_header :: "evidence_packet \<Rightarrow> string" where
  "packet_header p =
     ''['' @ ep_id p @ '' '' @ lane_str (ep_lane p) @ '' kind='' @ kind_str (ep_kind p) @ '' origin='' @
     provenance_str (ep_provenance p) @
     (if ep_depends_on p = [] then [] else '' deps='' @ join '','' (ep_depends_on p)) @ '']'' @ newline"

definition prompt_view :: "pact_context \<Rightarrow> string" where
  "prompt_view pact =
     ''controller: pact-v'' @ show_nat CONTROLLER_VERSION @ newline @ ''budget: source_tokens='' @
     show_nat (pc_source_tokens pact) @ '' target_tokens='' @ show_nat (pc_target_tokens pact) @ newline @
     ''<pinned_state>'' @ newline @ render_pinned_lines (pc_pinned pact) @
     (if is_blank (pc_plan_focus pact) then [] else ''live_plan:'' @ newline @ trim (pc_plan_focus pact) @ newline) @
     ''</pinned_state>'' @ newline @
     (if pc_grounded_hints pact = [] then []
      else ''<grounded_self_report>'' @ newline @
        concat (map (\<lambda>h. gh_kind h @ '': '' @ join '' '' (gh_refs h) @ newline) (pc_grounded_hints pact)) @
        ''</grounded_self_report>'' @ newline) @
     ''<packets>'' @ newline @
     concat (map (\<lambda>p. packet_header p @
       (if ep_lane p = ArchiveReference then ''descriptor: '' @ ep_descriptor p @ newline
        else trim_end (ep_prompt_content p) @ newline)) (pc_packets pact)) @ ''</packets>''"

definition line_range :: "nat \<Rightarrow> nat \<Rightarrow> string" where
  "line_range a b = '' L'' @ show_nat a @ ''-'' @ show_nat b"

definition render_live_bands :: "pact_context \<Rightarrow> archive_bundle option \<Rightarrow> string \<times> string" where
  "render_live_bands pact archive =
     (let pinned_band = ''<pinned_state>'' @ newline @ render_pinned_lines (pc_pinned pact) @ ''</pinned_state>'';
          frontier = concat (map (\<lambda>p. packet_header p @ trim_end (ep_prompt_content p) @ newline)
            (filter (\<lambda>p. ep_lane p = KeepExact) (pc_packets pact)));
          recall =
            (case archive of Some b \<Rightarrow> ''archive: '' @ bu_path b @ newline @ ''sidecar: '' @ bu_index_path b @ newline | None \<Rightarrow> []) @
            concat (map (\<lambda>p. ep_id p @
                (case Option.bind archive (\<lambda>b. bundle_entry b (ep_id p)) of
                   Some e \<Rightarrow> line_range (ab_line_start e) (ab_line_end e) | None \<Rightarrow> []) @
                '' '' @ long_dash @ '' '' @ ep_descriptor p @ newline)
              (filter (\<lambda>p. ep_lane p \<noteq> KeepExact) (pc_packets pact))) @
            concat (map (\<lambda>(i, r). i @ '' '' @ br_archive_path r @ line_range (br_line_start r) (br_line_end r) @ '' '' @
              long_dash @ '' '' @ br_descriptor r @ newline) (pc_prior_recall pact))
      in if \<not> pc_enabled pact then (pinned_band, [])
         else (pinned_band,
           (if frontier = [] then [] else ''<active_frontier>'' @ newline @ frontier @ ''</active_frontier>'' @ newline) @
           ''<recall_index>'' @ newline @ recall @ ''</recall_index>''))"

section \<open>Folded units\<close>

definition allowed_kinds :: "string list" where
  "allowed_kinds = [''observation'', ''decision'', ''action'', ''outcome'', ''correction'', ''open_loop'', ''next_action'',
     ''reference'', ''synthesis'']"

definition allowed_statuses :: "string list" where
  "allowed_statuses = [''established'', ''tentative'', ''superseded'', ''failed'', ''pending'', ''unknown'']"

definition completed_status :: "string \<Rightarrow> bool" where
  "completed_status s \<longleftrightarrow> s \<in> {''established'', ''failed'', ''superseded''}"

definition packet_of :: "pact_context \<Rightarrow> string \<Rightarrow> evidence_packet option" where
  "packet_of pact i = find (\<lambda>p. ep_id p = i) (pc_packets pact)"

definition lane_of :: "pact_context \<Rightarrow> string \<Rightarrow> lane option" where
  "lane_of pact i = map_option ep_lane (packet_of pact i)"

definition shown :: "pact_context \<Rightarrow> string \<Rightarrow> bool" where
  "shown pact i \<longleftrightarrow> list_ex (\<lambda>p. str_contains (ep_prompt_content p) i) (pc_packets pact)"

definition provenance_of :: "pact_context \<Rightarrow> string \<Rightarrow> provenance option" where
  "provenance_of pact i = map_of (pc_known_provenance pact) i"

definition authoritative :: "provenance option \<Rightarrow> bool" where
  "authoritative p \<longleftrightarrow> p \<in> {Some RealUser, Some ToolObserved, Some ValidatedSummary}"

definition low_authority :: "provenance option \<Rightarrow> bool" where
  "low_authority p \<longleftrightarrow> p \<in> {Some AssistantReported, Some RuntimeSystemManaged}"

definition has_authoritative_continuation_support :: "pact_context \<Rightarrow> folded_unit \<Rightarrow> bool" where
  "has_authoritative_continuation_support pact u \<longleftrightarrow>
     list_ex (\<lambda>i. authoritative (provenance_of pact i) \<and>
       (case packet_of pact i of Some p \<Rightarrow> ep_lane p \<noteq> ArchiveReference | None \<Rightarrow> shown pact i)) (fu_refs u)"

definition normalize_summary :: "pact_context \<Rightarrow> compression_summary \<Rightarrow> compression_summary" where
  "normalize_summary pact s =
     (let task = pi_text (pd_task (pc_pinned pact));
          s = (if is_blank task then s else s\<lparr>cm_original_request := task, cm_current_task := task\<rparr>)
      in s\<lparr>cm_folded_units :=
           filter (\<lambda>u. fu_kind u \<noteq> ''next_action'' \<or> has_authoritative_continuation_support pact u) (cm_folded_units s)\<rparr>)"

definition check_source :: "pact_context \<Rightarrow> nat \<Rightarrow> folded_unit \<Rightarrow> string \<Rightarrow> pact_err + unit" where
  "check_source pact index u i =
     rbind (ensure (provenance_of pact i \<noteq> None) (UnknownBlock index i)) (\<lambda>_.
       case packet_of pact i of
         Some p \<Rightarrow>
           rbind (ensure (ep_lane p \<noteq> ArchiveReference) (CitesArchiveOnly index i)) (\<lambda>_.
             ensure (\<not> (ep_lane p = KeepExact \<and> completed_status (fu_status u))) (FoldsFrontier index i))
       | None \<Rightarrow> ensure (shown pact i) (NotVisible index i))"

definition validate_folded_unit :: "pact_context \<Rightarrow> nat \<Rightarrow> folded_unit \<Rightarrow> pact_err + unit" where
  "validate_folded_unit pact index u =
     rbind (ensure (\<not> (is_blank (fu_text u) \<or> fu_refs u = [])) (NoTextOrSupport index)) (\<lambda>_.
     rbind (ensure (\<not> (2000 < count_chars (fu_text u) \<or> 16 < length (fu_refs u))) (ExceedsBound index)) (\<lambda>_.
     rbind (ensure (card (set (fu_refs u)) = length (fu_refs u)) (DuplicateSupport index)) (\<lambda>_.
     rbind (ensure (fu_kind u \<in> set allowed_kinds) (InvalidKind index)) (\<lambda>_.
     rbind (ensure (fu_status u \<in> set allowed_statuses) (InvalidStatus index)) (\<lambda>_.
     rbind (each (check_source pact index u) (fu_refs u)) (\<lambda>_.
     rbind (ensure (\<not> (fu_status u = ''established'' \<and> list_all (\<lambda>i. low_authority (provenance_of pact i)) (fu_refs u)))
              (Amplifies index)) (\<lambda>_.
       ensure (\<not> (fu_kind u = ''next_action'' \<and> \<not> has_authoritative_continuation_support pact u))
         (PromotesContinuation index))))))))"

text \<open>Prior blocks must resolve from the archive they are in: one read per index file.\<close>

definition prior_refs :: "pact_context \<Rightarrow> string list \<Rightarrow> string list" where
  "prior_refs pact is = filter (\<lambda>i. i \<notin> ep_id ` set (pc_packets pact)) (sorted_ids is)"

fun group_sidecars :: "pact_context \<Rightarrow> string list \<Rightarrow> (string \<times> string list) list \<Rightarrow> pact_err + (string \<times> string list) list" where
  "group_sidecars pact [] acc = Inr acc"
| "group_sidecars pact (i # is) acc =
     (case map_of (pc_prior_recall pact) i of
        None \<Rightarrow> Inl (NoArchiveCoordinate i)
      | Some r \<Rightarrow>
          group_sidecars pact is
            (registry_insert (br_index_path r)
               ((case map_of acc (br_index_path r) of Some js \<Rightarrow> js | None \<Rightarrow> []) @ [i]) acc))"

definition verify_prior_references :: "'x archive_env \<Rightarrow> files \<Rightarrow> pact_context \<Rightarrow> string list \<Rightarrow> pact_err + unit" where
  "verify_prior_references env fs pact referenced =
     rbind (group_sidecars pact (prior_refs pact referenced) []) (\<lambda>groups.
       each (\<lambda>(sidecar, ids). case read_blocks env fs sidecar ids of Inl e \<Rightarrow> Inl (PriorRecovery e) | Inr _ \<Rightarrow> Inr ()) groups)"

section \<open>Repair\<close>

text \<open>The sources a validator can accept at all.\<close>

definition citable :: "pact_context \<Rightarrow> string \<Rightarrow> bool" where
  "citable pact i \<longleftrightarrow>
     provenance_of pact i \<noteq> None \<and>
     (case lane_of pact i of Some l \<Rightarrow> l \<noteq> ArchiveReference | None \<Rightarrow> shown pact i)"

text \<open>\<open>retain\<close> with a set of seen elements: the first occurrence of each is kept.\<close>

fun keep_first :: "string list \<Rightarrow> string list \<Rightarrow> string list" where
  "keep_first seen [] = []"
| "keep_first seen (i # is) = (if i \<in> set seen then keep_first seen is else i # keep_first (i # seen) is)"

definition repair_unit :: "pact_context \<Rightarrow> folded_unit \<Rightarrow> folded_unit" where
  "repair_unit pact u =
     (let refs = take 16 (filter (citable pact) (keep_first [] (fu_refs u)));
          shortened = (if 2000 < count_chars (fu_text u) then take_chars 2000 (fu_text u) else fu_text u);
          status =
            (if completed_status (fu_status u) \<and> list_ex (\<lambda>i. lane_of pact i = Some KeepExact) refs
             then ''tentative'' else fu_status u);
          status =
            (if status = ''established'' \<and> refs \<noteq> [] \<and> list_all (\<lambda>i. low_authority (provenance_of pact i)) refs
             then ''tentative'' else status)
      in u\<lparr>fu_text := shortened, fu_status := status, fu_refs := refs\<rparr>)"

text \<open>A unit that validates and whose prior sources resolve.\<close>

definition unit_stands :: "'x archive_env \<Rightarrow> files \<Rightarrow> pact_context \<Rightarrow> folded_unit \<Rightarrow> bool" where
  "unit_stands env fs pact u \<longleftrightarrow>
     validate_folded_unit pact 0 u = Inr () \<and> verify_prior_references env fs pact (fu_refs u) = Inr ()"

definition reference_unit :: "evidence_packet list \<Rightarrow> folded_unit" where
  "reference_unit packets =
     (let s = join ''; '' (map ep_descriptor packets);
          s = (if is_blank s then ''evidence retained for recall'' else s);
          s = (if 2000 < count_chars s then take_chars 2000 s else s)
      in \<lparr>fu_text = s, fu_kind = ''reference'', fu_status = ''unknown'', fu_refs = map ep_id packets\<rparr>)"

text \<open>Packets in groups of sixteen, as long as there are fewer than forty units.\<close>

function cover_packets :: "evidence_packet list \<Rightarrow> folded_unit list \<Rightarrow> folded_unit list" where
  "cover_packets packets units =
     (if packets = [] \<or> 40 \<le> length units then units
      else cover_packets (drop 16 packets) (units @ [reference_unit (take 16 packets)]))"
  by pat_completeness auto
termination by (relation "measure (\<lambda>(packets, _). length packets)") auto

declare cover_packets.simps [simp del]

definition uncovered :: "pact_context \<Rightarrow> folded_unit list \<Rightarrow> evidence_packet list" where
  "uncovered pact units =
     filter (\<lambda>p. ep_lane p = Summarize \<and> ep_id p \<notin> set (concat (map fu_refs units))) (pc_packets pact)"

definition repair_units :: "'x archive_env \<Rightarrow> files \<Rightarrow> pact_context \<Rightarrow> folded_unit list \<Rightarrow> folded_unit list" where
  "repair_units env fs pact units =
     (let units = filter (unit_stands env fs pact) (map (repair_unit pact) units)
      in cover_packets (uncovered pact units) units)"

definition repair_summary :: "'x archive_env \<Rightarrow> files \<Rightarrow> pact_context \<Rightarrow> compression_summary \<Rightarrow> compression_summary" where
  "repair_summary env fs pact s = s\<lparr>cm_folded_units := repair_units env fs pact (cm_folded_units s)\<rparr>"

definition sanitize_for_forced_compression ::
  "'x archive_env \<Rightarrow> files \<Rightarrow> pact_context \<Rightarrow> compression_summary \<Rightarrow> compression_summary" where
  "sanitize_for_forced_compression env fs pact s =
     normalize_summary pact (s\<lparr>cm_folded_units := filter (unit_stands env fs pact) (cm_folded_units s)\<rparr>)"

section \<open>Validation\<close>

record validation_report =
  vr_attribution_valid :: bool
  vr_fallback_reason :: "pact_err option"
  vr_valid_units :: nat
  vr_referenced_blocks :: nat
  vr_governance_hash :: string

definition selected_tokens :: "'x pact_env \<Rightarrow> evidence_packet list \<Rightarrow> nat" where
  "selected_tokens env packets =
     sum_list (map (\<lambda>p. estimate_tokens (pe_tokenizer env) (ep_prompt_content p))
       (filter (\<lambda>p. ep_lane p \<noteq> ArchiveReference \<and> ep_kind p \<noteq> PriorSummary) packets))"

definition complete_render :: "'x pact_env \<Rightarrow> evidence_packet \<Rightarrow> bool" where
  "complete_render env p \<longleftrightarrow>
     (let lines = str_lines (ep_prompt_content p)
      in lines \<noteq> [] \<and> ep_exact_spans p = [source_span env lines 1 (length lines)])"

text \<open>A selected packet must not depend on one that is only a reference, prior summaries and requests excepted.\<close>

definition dependency_missing :: "evidence_packet list \<Rightarrow> string \<Rightarrow> bool" where
  "dependency_missing packets d \<longleftrightarrow>
     (case packet_by_id packets d of
        Some q \<Rightarrow> ep_kind q \<noteq> PriorSummary \<and> ep_provenance q \<noteq> RealUser \<and> ep_lane q = ArchiveReference
      | None \<Rightarrow> False)"

definition check_dependencies :: "evidence_packet list \<Rightarrow> evidence_packet \<Rightarrow> pact_err + unit" where
  "check_dependencies packets p =
     each (\<lambda>d. ensure (\<not> dependency_missing packets d) (MissingDependency (ep_id p) d)) (ep_depends_on p)"

definition validate_packets :: "'x pact_env \<Rightarrow> pact_context \<Rightarrow> pact_err + unit" where
  "validate_packets env pact =
     (let packets = pc_packets pact; selected = selected_tokens env packets
      in rbind (ensure (selected \<le> pc_target_tokens pact) (OverBudget selected (pc_target_tokens pact))) (\<lambda>_.
         rbind (case find (\<lambda>p. ep_lane p = KeepExact \<and> ep_exact_spans p = []) packets of
                  Some p \<Rightarrow> Inl (NoRecoverableSpan (ep_id p)) | None \<Rightarrow> Inr ()) (\<lambda>_.
         rbind (each (\<lambda>p. ensure (complete_render env p) (IncompleteSummary (ep_id p)))
                  (filter (\<lambda>p. ep_kind p = PriorSummary \<and> ep_lane p = Summarize) packets)) (\<lambda>_.
           each (check_dependencies packets) (filter (\<lambda>p. ep_lane p \<noteq> ArchiveReference) packets)))))"

definition validate_summary ::
  "'x archive_env \<Rightarrow> files \<Rightarrow> pact_context \<Rightarrow> compression_summary \<Rightarrow> pact_err + validation_report" where
  "validate_summary env fs pact s =
     (let units = cm_folded_units s; referenced = concat (map fu_refs units)
      in rbind (ensure (length units \<le> 40) TooManyUnits) (\<lambda>_.
         rbind (validate_packets (av_pact env) pact) (\<lambda>_.
         rbind (each (\<lambda>(i, u). validate_folded_unit pact i u) (enumerate 0 units)) (\<lambda>_.
         rbind (verify_prior_references env fs pact referenced) (\<lambda>_.
         rbind (each (\<lambda>p. ensure (ep_id p \<in> set referenced) (PacketNotFolded (ep_id p)))
                  (filter (\<lambda>p. ep_lane p = Summarize) (pc_packets pact))) (\<lambda>_.
           Inr \<lparr>vr_attribution_valid = True, vr_fallback_reason = None, vr_valid_units = length units,
             vr_referenced_blocks = card (set referenced), vr_governance_hash = pd_governance_hash (pc_pinned pact)\<rparr>))))))"

section \<open>Admission of a summary\<close>

definition fallback_report ::
  "'x archive_env \<Rightarrow> files \<Rightarrow> pact_context \<Rightarrow> pact_err \<Rightarrow> compression_summary \<Rightarrow> validation_report" where
  "fallback_report env fs pact e s =
     (let after = validate_summary env fs pact s
      in \<lparr>vr_attribution_valid = False, vr_fallback_reason = Some e,
          vr_valid_units = (case after of Inr r \<Rightarrow> vr_valid_units r | Inl _ \<Rightarrow> 0),
          vr_referenced_blocks = (case after of Inr r \<Rightarrow> vr_referenced_blocks r | Inl _ \<Rightarrow> 0),
          vr_governance_hash = pd_governance_hash (pc_pinned pact)\<rparr>)"

text \<open>
  What \<open>finish_fold\<close> decides before the drain: \<open>None\<close> is no fold. Without the controller there is no report.
\<close>

definition admit_summary ::
  "'x archive_env \<Rightarrow> files \<Rightarrow> bool \<Rightarrow> bool \<Rightarrow> pact_context option \<Rightarrow> compression_summary \<Rightarrow>
   (compression_summary \<times> validation_report option) option" where
  "admit_summary env fs validator force context s =
     (if \<not> evaluate_decision s force (context \<noteq> None) then None
      else case context of
             None \<Rightarrow> Some (s, None)
           | Some pact \<Rightarrow>
               let s = normalize_summary pact s
               in if pc_enabled pact \<and> validator then
                    let s = repair_summary env fs pact s
                    in case validate_summary env fs pact s of
                         Inr report \<Rightarrow> Some (s, Some report)
                       | Inl e \<Rightarrow>
                           if force then
                             let s = sanitize_for_forced_compression env fs pact s
                             in Some (s, Some (fallback_report env fs pact e s))
                           else None
                  else Some (s, Some \<lparr>vr_attribution_valid = (\<not> pc_enabled pact),
                         vr_fallback_reason = (if pc_enabled pact then Some ValidatorDisabled else None),
                         vr_valid_units = length (cm_folded_units s), vr_referenced_blocks = 0,
                         vr_governance_hash = pd_governance_hash (pc_pinned pact)\<rparr>))"

section \<open>The archive before the drain\<close>

definition span_holds :: "'x pact_env \<Rightarrow> string list \<Rightarrow> source_span \<Rightarrow> bool" where
  "span_holds env lines sp \<longleftrightarrow>
     \<not> (sp_start_line sp = 0 \<or> sp_end_line sp < sp_start_line sp \<or> length lines < sp_end_line sp) \<and>
     source_span env lines (sp_start_line sp) (sp_end_line sp) = sp"

definition covered_offsets :: "evidence_packet list \<Rightarrow> nat list" where
  "covered_offsets packets =
     remdups_adj (sort (concat (map (\<lambda>p. [ep_message_start p..<ep_message_end p + 1]) packets)))"

definition check_spans :: "'x pact_env \<Rightarrow> 'x message list \<Rightarrow> evidence_packet \<Rightarrow> pact_err + unit" where
  "check_spans env source p =
     each (\<lambda>sp. ensure (span_holds env (str_lines (canonical env source p)) sp)
         (SpanFailed (ep_id p) (sp_start_line sp) (sp_end_line sp))) (ep_exact_spans p)"

definition verify_archive ::
  "'x archive_env \<Rightarrow> files \<Rightarrow> pact_context \<Rightarrow> archive_bundle \<Rightarrow> 'x message list \<Rightarrow> pact_err + unit" where
  "verify_archive env fs pact archive source =
     (let packets = pc_packets pact; offsets = covered_offsets packets; encode = pe_encode (av_pact env)
      in rbind (ensure (length (bu_entries archive) = length packets \<and>
                  list_all (\<lambda>p. bundle_entry archive (ep_id p) \<noteq> None) packets) SidecarIncomplete) (\<lambda>_.
         rbind (case read_blocks env fs (bu_index_path archive) (map ep_id packets) of
                  Inr ms \<Rightarrow> Inr ms | Inl e \<Rightarrow> Inl (ArchiveFailed e)) (\<lambda>recovered.
         rbind (ensure (list_all (\<lambda>i. i < length source) offsets) OutsideDrain) (\<lambda>_.
         let expected = map ((!) source) offsets
         in rbind (ensure (length recovered = length expected) (RecallCount (length recovered) (length expected))) (\<lambda>_.
            rbind (each (\<lambda>(i, actual, wanted). ensure (encode actual = encode wanted) (RecallDiffers i))
                     (enumerate 0 (zip recovered expected))) (\<lambda>_.
              each (check_spans (av_pact env) source) packets))))))"

end
