(* ===== verification/LanesCorrect.thy ===== *)
theory LanesCorrect
  imports PactFold
begin

text \<open>
  Packets and lanes: the packets partition the evidence, a closure is closed, a rendering stays within its budget and shows
  lines of its packet, and what the allocation of lanes leaves passes the validation of the packets.
\<close>

section \<open>Packets\<close>

definition offsets :: "evidence_packet \<Rightarrow> nat list" where
  "offsets p = [ep_message_start p..<ep_message_end p + 1]"

lemma owned_are_results:
  assumes "i < owned_results m rest"
  shows "msg_role (rest ! i) = ''tool''" and "\<not> not_evidence (rest ! i)"
proof -
  let ?P = "\<lambda>r. msg_role r = ''tool'' \<and>
      (tool_call_ids m = [] \<or> (case msg_tool_call_id r of None \<Rightarrow> True | Some i \<Rightarrow> i \<in> set (tool_call_ids m)))"
  from assms have i: "i < length (takeWhile ?P rest)" by (simp add: owned_results_def split: if_splits)
  from nth_mem[OF this] takeWhile_nth[OF i] have "rest ! i \<in> set (takeWhile ?P rest)" by simp
  from set_takeWhileD[OF this] show "msg_role (rest ! i) = ''tool''" by simp
  then show "\<not> not_evidence (rest ! i)" by (simp add: not_evidence_def)
qed

text \<open>The offsets of the messages that are evidence.\<close>

definition evidence_offsets :: "'x message list \<Rightarrow> nat list" where
  "evidence_offsets ms = filter (\<lambda>i. \<not> not_evidence (ms ! i)) [0..<length ms]"

lemma evidence_offsets_Nil [simp]: "evidence_offsets [] = []"
  by (simp add: evidence_offsets_def)

lemma evidence_offsets_Cons:
  "evidence_offsets (m # ms) = (if not_evidence m then [] else [0]) @ map Suc (evidence_offsets ms)"
  unfolding evidence_offsets_def
  by (simp add: upt_conv_Cons map_Suc_upt[symmetric] filter_map comp_def del: upt_Suc)

lemma evidence_offsets_append:
  "evidence_offsets (xs @ ys) = evidence_offsets xs @ map ((+) (length xs)) (evidence_offsets ys)"
  by (induction xs) (simp_all add: evidence_offsets_Cons map_idI comp_def)

lemma make_packet_offsets: "offsets (make_packet env name k (m # ms)) = map ((+) k) [0..<length (m # ms)]"
proof -
  have "offsets (make_packet env name k (m # ms)) = [k..<k + length (m # ms)]"
    unfolding offsets_def make_packet_def by (cases "classify_packet env (m # ms)") (simp only: prod.case Let_def evidence_packet.simps, simp)
  moreover have "map ((+) k) [0..<n] = [k..<k + n]" for n by (induction n) simp_all
  ultimately show ?thesis by (simp only:)
qed

lemma packets_from_offsets:
  "concat (map offsets (packets_from env name k ms)) = map ((+) k) (evidence_offsets ms)"
proof (induction env name k ms rule: packets_from.induct)
  case (1 env name k)
  then show ?case by simp
next
  case (2 env name k m rest)
  show ?case
  proof (cases "not_evidence m")
    case True
    then show ?thesis using 2(1) by (simp add: evidence_offsets_Cons comp_def)
  next
    case False
    let ?n = "owned_results m rest"
    let ?a = "m # take ?n rest"
    have n: "?n \<le> length rest" by (rule owned_results_le)
    have all: "evidence_offsets ?a = [0..<length ?a]" unfolding evidence_offsets_def
    proof (rule filter_True, rule ballI)
      fix i assume "i \<in> set [0..<length ?a]"
      then have i: "i \<le> ?n" by auto
      show "\<not> not_evidence (?a ! i)"
      proof (cases i)
        case 0
        then show ?thesis using False by simp
      next
        case (Suc j)
        then show ?thesis using owned_are_results(2)[of j m rest] i by simp
      qed
    qed
    have "evidence_offsets (m # rest) = evidence_offsets (?a @ drop ?n rest)" by simp
    also have "\<dots> = [0..<length ?a] @ map ((+) (length ?a)) (evidence_offsets (drop ?n rest))"
      by (simp only: evidence_offsets_append all)
    finally have split: "evidence_offsets (m # rest) = \<dots>" .
    have len: "length ?a = 1 + ?n" using n by simp
    have "packets_from env name k (m # rest) =
        make_packet env name k ?a # packets_from env name (k + 1 + ?n) (drop ?n rest)"
      using False by (simp add: Let_def)
    then show ?thesis using 2(2)[OF False refl]
      by (simp only: list.map concat.simps make_packet_offsets split map_append map_map comp_def len)
        (simp add: add.assoc)
  qed
qed

text \<open>What the links leave of a packet, and what an allocation leaves.\<close>

definition skeleton :: "evidence_packet \<Rightarrow> evidence_packet" where
  "skeleton p = p\<lparr>ep_lane := ArchiveReference, ep_prompt_content := [], ep_exact_spans := []\<rparr>"

definition unlinked :: "evidence_packet \<Rightarrow> evidence_packet" where
  "unlinked p = p\<lparr>ep_depends_on := []\<rparr>"

lemma skeleton_simps [simp]:
  "ep_id (skeleton p) = ep_id p" "ep_kind (skeleton p) = ep_kind p" "ep_provenance (skeleton p) = ep_provenance p"
  "ep_message_start (skeleton p) = ep_message_start p" "ep_message_end (skeleton p) = ep_message_end p"
  "ep_depends_on (skeleton p) = ep_depends_on p" "ep_tokens (skeleton p) = ep_tokens p"
  "ep_descriptor (skeleton p) = ep_descriptor p" "ep_lane (skeleton p) = ArchiveReference"
  by (simp_all add: skeleton_def)

lemma skeleton_show_in [simp]: "skeleton (show_in l r p) = skeleton p"
  by (simp add: skeleton_def show_in_def)

lemma skeleton_eqD:
  assumes "skeleton p = skeleton q"
  shows "ep_id p = ep_id q" "ep_kind p = ep_kind q" "ep_provenance p = ep_provenance q"
    "ep_message_start p = ep_message_start q" "ep_message_end p = ep_message_end q"
    "ep_depends_on p = ep_depends_on q" "ep_tokens p = ep_tokens q" "ep_descriptor p = ep_descriptor q"
  using assms by (metis skeleton_simps)+

lemma show_in_simps [simp]:
  "ep_lane (show_in l r p) = l" "ep_prompt_content (show_in l r p) = re_content r"
  "ep_exact_spans (show_in l r p) = re_spans r" "ep_id (show_in l r p) = ep_id p" "ep_kind (show_in l r p) = ep_kind p"
  "ep_provenance (show_in l r p) = ep_provenance p" "ep_depends_on (show_in l r p) = ep_depends_on p"
  "ep_message_start (show_in l r p) = ep_message_start p" "ep_message_end (show_in l r p) = ep_message_end p"
  by (simp_all add: show_in_def)

lemma link_from_unlinked: "map unlinked (link_from q l ps) = map unlinked ps"
  by (induction q l ps rule: link_from.induct) (simp_all add: unlinked_def split: prod.split)

lemma sorted_ids_Nil [simp]: "sorted_ids [] = []"
  by (simp add: sorted_ids_def)

lemma link_from_prior: "p \<in> set (link_from q l ps) \<Longrightarrow> ep_kind p = PriorSummary \<Longrightarrow> ep_depends_on p = []"
  by (induction q l ps rule: link_from.induct) (auto simp: link_packet_def split: prod.splits)

text \<open>A list of packets as it goes into the allocation.\<close>

definition fresh_packets :: "evidence_packet list \<Rightarrow> bool" where
  "fresh_packets ps \<longleftrightarrow>
     (\<forall>p\<in>set ps. ep_lane p = ArchiveReference \<and> ep_prompt_content p = [] \<and> ep_exact_spans p = [] \<and>
        (ep_kind p = PriorSummary \<longrightarrow> ep_depends_on p = []))"

lemma make_packet_fresh [simp]:
  "ep_lane (make_packet env name k ms) = ArchiveReference" "ep_prompt_content (make_packet env name k ms) = []"
  "ep_exact_spans (make_packet env name k ms) = []"
  unfolding make_packet_def by (simp_all add: Let_def split_beta)

lemma packets_from_fresh:
  "p \<in> set (packets_from env name k ms) \<Longrightarrow>
     ep_lane p = ArchiveReference \<and> ep_prompt_content p = [] \<and> ep_exact_spans p = []"
  by (induction env name k ms rule: packets_from.induct) (auto simp: Let_def split: if_splits)

lemma unlinked_in: "map unlinked ps = map unlinked qs \<Longrightarrow> p \<in> set ps \<Longrightarrow> \<exists>q\<in>set qs. unlinked p = unlinked q"
  by (metis (no_types, lifting) image_iff list.set_map)

lemma unlinked_eqD:
  assumes "unlinked p = unlinked q"
  shows "ep_lane p = ep_lane q" "ep_prompt_content p = ep_prompt_content q" "ep_exact_spans p = ep_exact_spans q"
    "ep_message_start p = ep_message_start q" "ep_message_end p = ep_message_end q" "ep_id p = ep_id q"
    "ep_descriptor p = ep_descriptor q"
  using assms by (cases p; cases q; simp add: unlinked_def)+

lemma linked_fresh: "fresh_packets (link_dependencies (build_packets env name ms))"
  unfolding fresh_packets_def link_dependencies_def build_packets_def
proof
  fix p
  assume p: "p \<in> set (link_from None \<lparr>li_task = None, li_summary = None, li_event = None\<rparr> (packets_from env name 0 ms))"
  from unlinked_in[OF link_from_unlinked p] obtain q where q: "q \<in> set (packets_from env name 0 ms)" "unlinked p = unlinked q"
    by blast
  from packets_from_fresh[OF q(1)] unlinked_eqD[OF q(2)] link_from_prior[OF p]
  show "ep_lane p = ArchiveReference \<and> ep_prompt_content p = [] \<and> ep_exact_spans p = [] \<and>
      (ep_kind p = PriorSummary \<longrightarrow> ep_depends_on p = [])" by simp
qed

section \<open>Closures\<close>

lemma closure_from_extends: "set seen \<union> set stack \<subseteq> set (closure_from table seen stack)"
  by (induction table seen stack rule: closure_from.induct) auto

lemma closure_from_closed:
  "x \<in> set (closure_from table seen stack) \<Longrightarrow> x \<notin> set seen \<Longrightarrow>
     set (successors table x) \<subseteq> set (closure_from table seen stack)"
proof (induction table seen stack rule: closure_from.induct)
  case (1 table seen)
  then show ?case by simp
next
  case (2 table seen y stack)
  show ?case
  proof (cases "y \<in> set seen")
    case True
    then show ?thesis using 2 by simp
  next
    case False
    show ?thesis
    proof (cases "x = y")
      case True
      then show ?thesis using False closure_from_extends[of "y # seen" "rev (successors table y) @ stack" table] by auto
    next
      case neq: False
      then show ?thesis using 2(2)[OF False] 2(3,4) False by simp
    qed
  qed
qed

lemma closure_from_distinct: "distinct seen \<Longrightarrow> distinct (closure_from table seen stack)"
  by (induction table seen stack rule: closure_from.induct) auto

lemma successors_in: "successors table x \<noteq> [] \<Longrightarrow> (x, successors table x) \<in> set table"
  by (auto simp: successors_def split: option.splits dest: map_of_SomeD)

lemma closure_from_within:
  assumes "\<And>k ys. (k, ys) \<in> set table \<Longrightarrow> set ys \<subseteq> A" and "set seen \<subseteq> A" and "set stack \<subseteq> A"
  shows "set (closure_from table seen stack) \<subseteq> A"
  using assms
proof (induction table seen stack rule: closure_from.induct)
  case (1 table seen)
  then show ?case by simp
next
  case (2 table seen y stack)
  have "set (successors table y) \<subseteq> A"
    using 2(3) successors_in[of table y] by (cases "successors table y = []") auto
  then show ?case using 2 by auto
qed

section \<open>Rendering\<close>

lemma lines_from_Nil: "lines_from cur s = [] \<longleftrightarrow> cur = [] \<and> s = []"
  by (induction cur s rule: lines_from.induct) auto

lemma str_lines_Nil: "str_lines s = [] \<longleftrightarrow> s = []"
  by (simp add: str_lines_def lines_from_Nil)

lemma grow_head_bound: "h \<le> length lines \<Longrightarrow> grow_head tk lines budget h \<le> length lines"
proof (induction tk lines budget h rule: grow_head.induct)
  case (1 tk lines budget h)
  then show ?case by (subst grow_head.simps) auto
qed

lemma grow_tail_bound: "h + t \<le> length lines \<Longrightarrow> h + grow_tail tk lines budget h t \<le> length lines"
proof (induction tk lines budget h t rule: grow_tail.induct)
  case (1 tk lines budget h t)
  then show ?case by (subst grow_tail.simps) auto
qed

lemma shrink_edges_bound:
  "shrink_edges tk lines n (h, t) = (h', t') \<Longrightarrow> h' \<le> h \<and> t' \<le> t"
proof (induction tk lines n "(h, t)" arbitrary: h t rule: shrink_edges.induct)
  case (1 tk lines n h t)
  show ?case
  proof (cases "estimate_tokens tk (edges_text lines h t) \<le> n \<or> \<not> (1 < h \<or> 1 < t)")
    case True
    then show ?thesis using 1(2) by (simp add: shrink_edges.simps[of tk lines n h t])
  next
    case False
    obtain h2 t2 where n: "(if t \<le> h \<and> 1 < h then (h - 1, t) else (h, t - 1)) = (h2, t2)" by force
    then have "shrink_edges tk lines n (h2, t2) = (h', t')"
      using 1(2) unfolding shrink_edges.simps[of tk lines n h t] n by (simp only: False if_False)
    from 1(1)[OF False n this] n show ?thesis by (auto split: if_splits)
  qed
qed

lemma source_span_simps [simp]:
  "sp_start_line (source_span env lines a b) = a" "sp_end_line (source_span env lines a b) = b"
  by (simp_all add: source_span_def)

lemma span_holds_source: "span_holds env lines (source_span env lines a b) \<longleftrightarrow> 0 < a \<and> a \<le> b \<and> b \<le> length lines"
  by (auto simp: span_holds_def)

lemma extractive_edges_spans:
  "sp \<in> set (re_spans (extractive_edges env content n)) \<Longrightarrow> span_holds env (str_lines content) sp"
proof -
  let ?lines = "str_lines content"
  let ?tk = "pe_tokenizer env"
  assume sp: "sp \<in> set (re_spans (extractive_edges env content n))"
  define payload where "payload = n - min (estimate_tokens ?tk (omission_marker 1 (length ?lines))) n"
  define h where "h = grow_head ?tk ?lines (half_up payload) 0"
  define t where "t = grow_tail ?tk ?lines (payload - half_up payload) h 0"
  obtain h' t' where s: "shrink_edges ?tk ?lines n (h, t) = (h', t')" by force
  have b: "h' \<le> length ?lines" "t' \<le> length ?lines"
    using shrink_edges_bound[OF s] grow_head_bound[of 0 ?lines ?tk "half_up payload"]
      grow_tail_bound[of h 0 ?lines ?tk "payload - half_up payload"] by (auto simp: h_def t_def)
  have "extractive_edges env content n =
    (if n = 0 \<or> content = [] then \<lparr>re_content = [], re_spans = []\<rparr>
     else if estimate_tokens ?tk content \<le> n
     then \<lparr>re_content = content, re_spans = [source_span env ?lines 1 (length ?lines)]\<rparr>
     else if estimate_tokens ?tk (edges_text ?lines h' t') \<le> n
     then \<lparr>re_content = edges_text ?lines h' t',
        re_spans = (if h' = 0 then [] else [source_span env ?lines 1 h']) @
          (if t' = 0 then [] else [source_span env ?lines (length ?lines - t' + 1) (length ?lines)])\<rparr>
     else \<lparr>re_content = truncate_to_tokens ?tk
        (''['' @ ellipsis @ '' exact packet omitted; recall by block ID '' @ ellipsis @ '']'') n, re_spans = []\<rparr>)"
    unfolding extractive_edges_def Let_def payload_def[symmetric] h_def[symmetric] t_def[symmetric] s prod.case by simp
  with sp b show ?thesis using str_lines_Nil[of content]
    by (auto simp: span_holds_source Suc_le_eq split: if_splits)
qed

text \<open>The one text the allocation cuts by tokens is a constant; everything else it measures.\<close>

definition OMITTED_PACKET :: string where
  "OMITTED_PACKET = ''['' @ ellipsis @ '' exact packet omitted; recall by block ID '' @ ellipsis @ '']''"

definition tokenizer_ok :: "tokenizer \<Rightarrow> bool" where
  "tokenizer_ok tk \<longleftrightarrow> cuts_within tk OMITTED_PACKET"

lemma extractive_edges_cost:
  assumes "tokenizer_ok (pe_tokenizer env)"
  shows "render_cost env (extractive_edges env content n) \<le> n"
  using estimate_empty[OF assms[unfolded tokenizer_ok_def]] truncate_bound[OF assms[unfolded tokenizer_ok_def]]
  by (auto simp: extractive_edges_def render_cost_def Let_def OMITTED_PACKET_def split: prod.split)

lemma render_spans:
  "sp \<in> set (re_spans (render_packet_with_spans env ms p n)) \<Longrightarrow> span_holds env (str_lines (canonical env ms p)) sp"
  by (auto simp: render_packet_with_spans_def Let_def span_holds_source Suc_le_eq extractive_edges_spans
      split: option.splits if_splits)

lemma render_cost_bound:
  "tokenizer_ok (pe_tokenizer env) \<Longrightarrow> render_cost env (render_packet_with_spans env ms p (Some n)) \<le> n"
  using extractive_edges_cost[of env "canonical env ms p" n]
  by (auto simp: render_packet_with_spans_def Let_def render_cost_def)

text \<open>Only a packet that renders to nothing has no span in its full rendering, and then it never has one.\<close>

lemma render_all_no_span:
  "re_spans (render_packet_with_spans env ms p None) = [] \<Longrightarrow> re_spans (render_packet_with_spans env ms p n) = []"
  by (auto simp: render_packet_with_spans_def Let_def str_lines_Nil extractive_edges_def split: if_splits option.split)

lemma render_skeleton:
  assumes "skeleton p = skeleton q"
  shows "canonical env ms p = canonical env ms q"
  unfolding canonical_def packet_messages_def skeleton_eqD(4)[OF assms] skeleton_eqD(5)[OF assms] ..

lemma render_skeleton':
  assumes "skeleton p = skeleton q"
  shows "render_packet_with_spans env ms p n = render_packet_with_spans env ms q n"
  unfolding render_packet_with_spans_def render_skeleton[OF assms] ..

section \<open>Lanes\<close>

definition packet_cost :: "'x pact_env \<Rightarrow> evidence_packet \<Rightarrow> nat" where
  "packet_cost env p =
     (if ep_lane p \<noteq> ArchiveReference \<and> ep_kind p \<noteq> PriorSummary
      then estimate_tokens (pe_tokenizer env) (ep_prompt_content p) else 0)"

lemma selected_tokens_sum: "selected_tokens env ps = sum_list (map (packet_cost env) ps)"
  unfolding selected_tokens_def packet_cost_def by (induction ps) auto

lemma selected_update:
  "i < length ps \<Longrightarrow> selected_tokens env (ps[i := q]) + packet_cost env (ps ! i) = selected_tokens env ps + packet_cost env q"
  unfolding selected_tokens_sum by (induction ps arbitrary: i) (auto split: nat.split)

lemma archived_cost: "ep_lane p = ArchiveReference \<Longrightarrow> packet_cost env p = 0"
  by (simp add: packet_cost_def)

lemma shown_cost: "packet_cost env (show_in l r p) \<le> render_cost env r"
  by (simp add: packet_cost_def render_cost_def)

lemma selected_show:
  assumes "i < length ps" and "ep_lane (ps ! i) = ArchiveReference"
  shows "selected_tokens env (ps[i := show_in l r (ps ! i)]) \<le> selected_tokens env ps + render_cost env r"
  using selected_update[OF assms(1), of env "show_in l r (ps ! i)"] archived_cost[OF assms(2), of env]
    shown_cost[of env l r "ps ! i"] by linarith

lemma skeletons_show: "map skeleton (ps[i := show_in l r (ps ! i)]) = map skeleton ps"
  by (cases "i < length ps") (simp_all add: map_update list_update_same_conv list_update_beyond)

lemma summarize_all_Cons:
  "summarize_all ((i, r) # rs) ps = summarize_all rs (ps[i := show_in Summarize r (ps ! i)])"
  by (simp add: summarize_all_def)

lemma summarize_all_skeleton: "map skeleton (summarize_all rs ps) = map skeleton ps"
proof (induction rs arbitrary: ps)
  case Nil
  then show ?case by (simp add: summarize_all_def)
next
  case (Cons x rs)
  then show ?case by (cases x) (simp only: summarize_all_Cons skeletons_show)
qed

lemma same_length: "map skeleton qs = map skeleton ps \<Longrightarrow> length qs = length ps"
  by (metis length_map)

lemma same_skeleton: "map skeleton qs = map skeleton ps \<Longrightarrow> i < length ps \<Longrightarrow> skeleton (qs ! i) = skeleton (ps ! i)"
  by (metis length_map nth_map)

lemma summarize_all_nth:
  assumes "distinct (map fst rs)" and "j < length ps"
  shows "summarize_all rs ps ! j = (case map_of rs j of Some r \<Rightarrow> show_in Summarize r (ps ! j) | None \<Rightarrow> ps ! j)"
  using assms
proof (induction rs arbitrary: ps)
  case Nil
  then show ?case by (simp add: summarize_all_def)
next
  case (Cons x rs)
  obtain i r where x: "x = (i, r)" by force
  show ?case
  proof (cases "i = j")
    case True
    then have "map_of rs j = None" using Cons.prems(1) by (simp add: x map_of_eq_None_iff)
    then show ?thesis using Cons.IH[of "ps[i := show_in Summarize r (ps ! i)]"] Cons.prems True
      by (simp add: x summarize_all_Cons)
  next
    case False
    then have "ps[i := show_in Summarize r (ps ! i)] ! j = ps ! j" by (rule nth_list_update_neq)
    then show ?thesis using Cons.IH[of "ps[i := show_in Summarize r (ps ! i)]"] Cons.prems False
      by (simp add: x summarize_all_Cons split: option.split)
  qed
qed

lemma summarize_all_selected:
  assumes "distinct (map fst rs)" and "\<And>i r. (i, r) \<in> set rs \<Longrightarrow> i < length ps \<and> ep_lane (ps ! i) = ArchiveReference"
  shows "selected_tokens env (summarize_all rs ps) \<le> selected_tokens env ps + sum_list (map (\<lambda>(_, r). render_cost env r) rs)"
  using assms
proof (induction rs arbitrary: ps)
  case Nil
  then show ?case by (simp add: summarize_all_def)
next
  case (Cons x rs)
  obtain i r where x: "x = (i, r)" by force
  have "selected_tokens env (summarize_all rs (ps[i := show_in Summarize r (ps ! i)])) \<le>
      selected_tokens env (ps[i := show_in Summarize r (ps ! i)]) + sum_list (map (\<lambda>(_, r). render_cost env r) rs)"
  proof (rule Cons.IH)
    fix k s
    assume k: "(k, s) \<in> set rs"
    then have "i \<noteq> k" using Cons.prems(1) by (force simp: x)
    then have "ps[i := show_in Summarize r (ps ! i)] ! k = ps ! k" by (rule nth_list_update_neq)
    then show "k < length (ps[i := show_in Summarize r (ps ! i)]) \<and>
        ep_lane (ps[i := show_in Summarize r (ps ! i)] ! k) = ArchiveReference"
      using Cons.prems(2)[of k s] k by simp
  qed (use Cons.prems in simp)
  then show ?case using selected_show[of i ps env Summarize r] Cons.prems(2)[of i r] by (simp add: x summarize_all_Cons)
qed

lemma div_ceil_le: "0 < n \<Longrightarrow> div_ceil a n \<le> a"
proof -
  assume n: "0 < n"
  have "a + n - 1 < (a + 1) * n" using n by (cases n) auto
  then have "div_ceil a n < a + 1" unfolding div_ceil_def by (rule less_mult_imp_div_less)
  then show ?thesis by simp
qed

lemma allocate_exact_result:
  assumes "allocate_exact env ms is remaining used ps = (used', ps')"
    and "distinct is" and "\<forall>i\<in>set is. i < length ps \<and> ep_lane (ps ! i) = ArchiveReference"
    and "tokenizer_ok (pe_tokenizer env)"
  shows "map skeleton ps' = map skeleton ps \<and> used \<le> used' \<and> used' \<le> used + remaining \<and>
    selected_tokens env ps' + used \<le> selected_tokens env ps + used' \<and>
    (\<forall>j<length ps. if j \<in> set is
       then \<exists>n. ps' ! j = show_in KeepExact (render_packet_with_spans env ms (ps ! j) (Some n)) (ps ! j)
       else ps' ! j = ps ! j)"
  using assms
proof (induction "is" arbitrary: remaining used ps)
  case Nil
  then show ?case by simp
next
  case (Cons i "is")
  define r where "r = render_packet_with_spans env ms (ps ! i) (Some (div_ceil remaining (length (i # is))))"
  define ps1 where "ps1 = ps[i := show_in KeepExact r (ps ! i)]"
  have rec: "allocate_exact env ms is (remaining - render_cost env r) (used + render_cost env r) ps1 = (used', ps')"
    using Cons.prems(1) unfolding allocate_exact.simps Let_def r_def[symmetric] ps1_def[symmetric] .
  have cost: "render_cost env r \<le> remaining"
    using render_cost_bound[OF Cons.prems(4), of ms "ps ! i" "div_ceil remaining (length (i # is))"]
      div_ceil_le[of "length (i # is)" remaining] by (simp add: r_def)
  have i: "i < length ps" "ep_lane (ps ! i) = ArchiveReference" using Cons.prems(3) by auto
  have sk: "map skeleton ps1 = map skeleton ps" unfolding ps1_def by (rule skeletons_show)
  have other: "ps1 ! j = ps ! j" if "j \<noteq> i" for j unfolding ps1_def by (rule nth_list_update_neq) (use that in simp)
  have len: "length ps1 = length ps" by (simp add: ps1_def)
  have "\<forall>j\<in>set is. j < length ps1 \<and> ep_lane (ps1 ! j) = ArchiveReference"
  proof
    fix j assume j: "j \<in> set is"
    then have "j \<noteq> i" using Cons.prems(2) by auto
    then show "j < length ps1 \<and> ep_lane (ps1 ! j) = ArchiveReference" using other[of j] Cons.prems(3) len j by simp
  qed
  note IH = Cons.IH[OF rec _ this Cons.prems(4)]
  have "j < length ps \<Longrightarrow> if j \<in> set (i # is)
       then \<exists>n. ps' ! j = show_in KeepExact (render_packet_with_spans env ms (ps ! j) (Some n)) (ps ! j)
       else ps' ! j = ps ! j" for j
  proof (cases "j = i")
    case True
    moreover assume "j < length ps"
    ultimately have "ps' ! j = ps1 ! j" using IH Cons.prems(2) i by (auto simp: ps1_def)
    then show ?thesis using True i by (auto simp: ps1_def r_def)
  next
    case False
    assume "j < length ps"
    then have "if j \<in> set is
       then \<exists>n. ps' ! j = show_in KeepExact (render_packet_with_spans env ms (ps1 ! j) (Some n)) (ps1 ! j)
       else ps' ! j = ps1 ! j" using IH Cons.prems(2) len by simp
    then show ?thesis unfolding other[OF False] using False by simp
  qed
  moreover have "selected_tokens env ps1 \<le> selected_tokens env ps + render_cost env r"
    unfolding ps1_def by (rule selected_show[OF i])
  ultimately show ?case using IH Cons.prems(2) cost sk by auto
qed

section \<open>Identifiers\<close>

lemma packet_by_id_Some: "packet_by_id ps d = Some p \<Longrightarrow> \<exists>i<length ps. ps ! i = p \<and> ep_id p = d"
proof -
  assume "packet_by_id ps d = Some p"
  then obtain i where "i < length (rev ps)" "ep_id (rev ps ! i) = d" "rev ps ! i = p"
    unfolding packet_by_id_def find_Some_iff by blast
  then have "p \<in> set ps" "ep_id p = d" by (metis nth_mem set_rev, simp)
  then show ?thesis by (metis in_set_conv_nth)
qed

lemma packet_by_id_nth:
  assumes "distinct (map ep_id ps)" and "i < length ps"
  shows "packet_by_id ps (ep_id (ps ! i)) = Some (ps ! i)"
proof (cases "packet_by_id ps (ep_id (ps ! i))")
  case None
  then show ?thesis using nth_mem[OF assms(2)] unfolding packet_by_id_def find_None_iff by auto
next
  case (Some p)
  then obtain j where "j < length ps" "ps ! j = p" "ep_id (ps ! j) = ep_id (ps ! i)" using packet_by_id_Some by metis
  with assms have "j = i" by (metis length_map nth_eq_iff_index_eq nth_map)
  with Some \<open>ps ! j = p\<close> show ?thesis by simp
qed

lemma index_by_id_Some: "index_by_id ps d = Some i \<Longrightarrow> i < length ps \<and> ep_id (ps ! i) = d"
  unfolding index_by_id_def by (drule rposition_Some) simp

lemma index_by_id_ex: "i < length ps \<Longrightarrow> \<exists>j. index_by_id ps (ep_id (ps ! i)) = Some j"
  unfolding index_by_id_def by (metis (mono_tags, lifting) not_None_eq nth_mem rposition_None)

text \<open>A missing dependency is a packet left as a reference that is neither a request nor a prior summary.\<close>

lemma dependency_missing_D:
  assumes "dependency_missing ps d"
  obtains i where "i < length ps" "ep_id (ps ! i) = d" "ep_kind (ps ! i) \<noteq> PriorSummary" "is_candidate (ps ! i)"
proof -
  obtain q where q: "packet_by_id ps d = Some q" "ep_kind q \<noteq> PriorSummary" "ep_provenance q \<noteq> RealUser"
    "ep_lane q = ArchiveReference" using assms by (auto simp: dependency_missing_def split: option.splits)
  with packet_by_id_Some[OF q(1)] that show ?thesis by (auto simp: is_candidate_def)
qed

lemma dependency_missing_I:
  "distinct (map ep_id ps) \<Longrightarrow> i < length ps \<Longrightarrow> ep_kind (ps ! i) \<noteq> PriorSummary \<Longrightarrow> is_candidate (ps ! i) \<Longrightarrow>
     dependency_missing ps (ep_id (ps ! i))"
  by (simp add: dependency_missing_def packet_by_id_nth is_candidate_def)

definition deps_shown :: "evidence_packet list \<Rightarrow> bool" where
  "deps_shown ps \<longleftrightarrow>
     (\<forall>p\<in>set ps. ep_lane p \<noteq> ArchiveReference \<longrightarrow> (\<forall>d\<in>set (ep_depends_on p). \<not> dependency_missing ps d))"

lemma ids_same: "map skeleton qs = map skeleton ps \<Longrightarrow> map ep_id qs = map ep_id ps"
  by (metis (no_types, lifting) list.map_comp comp_def map_eq_conv skeleton_simps(1))

text \<open>Showing more packets, each of them with what it depends on, keeps the dependencies shown.\<close>

lemma deps_shown_step:
  assumes "deps_shown ps" and "distinct (map ep_id ps)" and same: "map skeleton qs = map skeleton ps"
    and more: "\<And>i. i < length ps \<Longrightarrow> is_candidate (qs ! i) \<Longrightarrow> is_candidate (ps ! i)"
    and new: "\<And>i d j. i < length ps \<Longrightarrow> ep_lane (ps ! i) = ArchiveReference \<Longrightarrow> ep_lane (qs ! i) \<noteq> ArchiveReference \<Longrightarrow>
      d \<in> set (ep_depends_on (ps ! i)) \<Longrightarrow> j < length ps \<Longrightarrow> ep_id (ps ! j) = d \<Longrightarrow> ep_kind (ps ! j) \<noteq> PriorSummary \<Longrightarrow>
      \<not> is_candidate (qs ! j)"
  shows "deps_shown qs"
  unfolding deps_shown_def
proof (intro ballI impI notI)
  fix q d
  assume q: "q \<in> set qs" "ep_lane q \<noteq> ArchiveReference" and d: "d \<in> set (ep_depends_on q)" "dependency_missing qs d"
  note len = same_length[OF same]
  obtain i where i: "i < length ps" "qs ! i = q" using q(1) len by (auto simp: in_set_conv_nth)
  obtain j where j: "j < length qs" "ep_id (qs ! j) = d" "ep_kind (qs ! j) \<noteq> PriorSummary" "is_candidate (qs ! j)"
    using dependency_missing_D[OF d(2)] .
  have jp: "j < length ps" "ep_id (ps ! j) = d" "ep_kind (ps ! j) \<noteq> PriorSummary"
    using j len same_skeleton[OF same, of j] skeleton_eqD[of "qs ! j" "ps ! j"] by simp_all
  have dp: "d \<in> set (ep_depends_on (ps ! i))"
    using d(1) i same_skeleton[OF same i(1)] skeleton_eqD[of "qs ! i" "ps ! i"] by simp
  show False
  proof (cases "ep_lane (ps ! i) = ArchiveReference")
    case True
    then show False using new[OF i(1) True _ dp jp(1,2,3)] i q(2) j(4) by simp
  next
    case False
    have "dependency_missing ps d"
      using dependency_missing_I[OF assms(2) jp(1,3) more[OF jp(1) j(4)]] jp(2) by simp
    then show False using assms(1) False dp i(1) by (auto simp: deps_shown_def)
  qed
qed

lemma check_dependencies_ok: "deps_shown ps \<Longrightarrow> p \<in> set ps \<Longrightarrow> ep_lane p \<noteq> ArchiveReference \<Longrightarrow> check_dependencies ps p = Inr ()"
  by (simp add: check_dependencies_def deps_shown_def each_ok ensure_ok)

section \<open>The exact frontier\<close>

lemma never_exact_iff:
  "distinct (map ep_id ps) \<Longrightarrow> i < length ps \<Longrightarrow>
     never_exact ps (ep_id (ps ! i)) \<longleftrightarrow> ep_provenance (ps ! i) = RealUser \<or> ep_kind (ps ! i) = PriorSummary"
  by (simp add: never_exact_def packet_by_id_nth)

lemma successors_nth:
  assumes "distinct (map fst table)" and "(x, ys) \<in> set table"
  shows "successors table x = ys"
proof -
  have "map_of (rev table) x = Some ys" using assms by (simp add: rev_map[symmetric] map_of_is_SomeI)
  then show ?thesis by (simp add: successors_def)
qed

lemma active_closure_props:
  assumes "distinct (map ep_id ps)" and "i < length ps" and "ep_id (ps ! i) \<in> set (active_dependency_closure ps)"
  shows "ep_kind (ps ! i) \<noteq> PriorSummary"
    and "\<And>d. d \<in> set (ep_depends_on (ps ! i)) \<Longrightarrow> \<not> never_exact ps d \<Longrightarrow> d \<in> set (active_dependency_closure ps)"
proof -
  let ?t = "map (\<lambda>p. (ep_id p, filter (\<lambda>d. \<not> never_exact ps d) (ep_depends_on p))) ps"
  have ne: "ps \<noteq> []" using assms(2) by auto
  let ?a = "last ps"
  have a: "\<not> (ep_provenance ?a = RealUser \<or> ep_kind ?a = PriorSummary)"
    and c: "active_dependency_closure ps = closure_from ?t [] [ep_id ?a]"
    using assms(3) ne by (auto simp: active_dependency_closure_def Let_def split: if_splits)
  have la: "?a = ps ! (length ps - 1)" using ne by (rule last_conv_nth)
  have "set (closure_from ?t [] [ep_id ?a]) \<subseteq> {d. \<not> never_exact ps d}"
  proof (rule closure_from_within)
    show "set [ep_id ?a] \<subseteq> {d. \<not> never_exact ps d}"
      using never_exact_iff[OF assms(1), of "length ps - 1"] a ne unfolding la by simp
  qed auto
  then show "ep_kind (ps ! i) \<noteq> PriorSummary" using assms(3) never_exact_iff[OF assms(1,2)] c by auto
  have "successors ?t (ep_id (ps ! i)) = filter (\<lambda>d. \<not> never_exact ps d) (ep_depends_on (ps ! i))"
    by (rule successors_nth) (use assms in \<open>auto simp: comp_def\<close>)
  then show "\<And>d. d \<in> set (ep_depends_on (ps ! i)) \<Longrightarrow> \<not> never_exact ps d \<Longrightarrow> d \<in> set (active_dependency_closure ps)"
    using closure_from_closed[of "ep_id (ps ! i)" ?t "[]" "[ep_id ?a]"] assms(3) c by auto
qed

text \<open>The state of the packets between two steps of the allocation, and what is left of the budget.\<close>

definition packet_sound :: "'x pact_env \<Rightarrow> 'x message list \<Rightarrow> evidence_packet \<Rightarrow> bool" where
  "packet_sound env ms p \<longleftrightarrow>
     (\<forall>sp\<in>set (ep_exact_spans p). span_holds env (str_lines (canonical env ms p)) sp) \<and>
     (ep_kind p = PriorSummary \<and> ep_lane p = Summarize \<longrightarrow> complete_render env p) \<and>
     (ep_kind p = PriorSummary \<and> ep_lane p = ArchiveReference \<longrightarrow> re_spans (render_packet_with_spans env ms p None) = [])"

definition lanes_sound :: "'x pact_env \<Rightarrow> 'x message list \<Rightarrow> evidence_packet list \<Rightarrow> bool" where
  "lanes_sound env ms ps \<longleftrightarrow> (\<forall>p\<in>set ps. packet_sound env ms p) \<and> deps_shown ps"

lemma canonical_show [simp]:
  "canonical env ms (show_in l r p) = canonical env ms p"
  "render_packet_with_spans env ms (show_in l r p) n = render_packet_with_spans env ms p n"
  by (rule render_skeleton render_skeleton', simp)+

lemma complete_render_full:
  assumes "re_spans (render_packet_with_spans env ms p None) \<noteq> []"
  shows "complete_render env (show_in l (render_packet_with_spans env ms p None) p)"
  using assms by (auto simp: complete_render_def render_packet_with_spans_def Let_def split: if_splits)

lemma exact_order_props:
  "distinct (exact_order ids ps)" "set (exact_order ids ps) = {i. i < length ps \<and> ep_id (ps ! i) \<in> set ids}"
  by (auto simp: exact_order_def)

lemma fold_prior_skeleton [simp]: "skeleton (fold_prior_summary env ms p) = skeleton p"
  by (simp add: fold_prior_summary_def Let_def)

lemma fold_prior_cost: "packet_cost env (fold_prior_summary env ms p) = packet_cost env p"
  by (simp add: fold_prior_summary_def packet_cost_def Let_def)

text \<open>After the exact frontier and the prior summaries.\<close>

lemma frontier_sound:
  assumes tk: "tokenizer_ok (pe_tokenizer env)" and ids: "distinct (map ep_id ps)" and fresh: "fresh_packets ps"
    and e: "allocate_exact env ms (exact_order (if minimal then [] else active_dependency_closure ps) ps) target 0 ps =
      (used, ps1)"
    and ps2: "ps2 = map (fold_prior_summary env ms) ps1"
  shows "lanes_sound env ms ps2 \<and> map skeleton ps2 = map skeleton ps \<and> used \<le> target \<and> selected_tokens env ps2 \<le> used"
proof -
  define C where "C = (if minimal then [] else active_dependency_closure ps)"
  have fr: "p \<in> set ps \<Longrightarrow> ep_lane p = ArchiveReference \<and> ep_exact_spans p = [] \<and>
      (ep_kind p = PriorSummary \<longrightarrow> ep_depends_on p = [])" for p
    using fresh by (simp add: fresh_packets_def)
  have pre: "\<forall>i\<in>set (exact_order C ps). i < length ps \<and> ep_lane (ps ! i) = ArchiveReference"
    using exact_order_props(2)[of C ps] fr[OF nth_mem] by auto
  note A = allocate_exact_result[OF e[folded C_def] exact_order_props(1) pre tk]
  then have sk1: "map skeleton ps1 = map skeleton ps" by blast
  have sk: "map skeleton ps2 = map skeleton ps" using sk1 by (simp add: ps2 comp_def)
  have len: "length ps2 = length ps" "length ps1 = length ps" using same_length[OF sk] same_length[OF sk1] by auto
  have sel0: "selected_tokens env ps = 0" unfolding selected_tokens_sum
    using fr by (auto simp: packet_cost_def)
  have "selected_tokens env ps2 = selected_tokens env ps1"
    unfolding selected_tokens_sum ps2 by (simp add: fold_prior_cost comp_def)
  then have budget: "used \<le> target" "selected_tokens env ps2 \<le> used" using A sel0 by auto
  have at: "ps1 ! i = ps ! i \<or> (ep_id (ps ! i) \<in> set C \<and>
      (\<exists>n. ps1 ! i = show_in KeepExact (render_packet_with_spans env ms (ps ! i) (Some n)) (ps ! i)))" if "i < length ps" for i
    using A that exact_order_props(2)[of C ps] by (auto split: if_splits)
  have sound1: "packet_sound env ms (ps2 ! i)" if i: "i < length ps" for i
  proof -
    have p2: "ps2 ! i = fold_prior_summary env ms (ps1 ! i)" using i len by (simp add: ps2)
    have lane: "ep_lane (ps1 ! i) \<noteq> Summarize" using at[OF i] fr[OF nth_mem[OF i]] by auto
    have spans: "\<forall>sp\<in>set (ep_exact_spans (ps1 ! i)). span_holds env (str_lines (canonical env ms (ps1 ! i))) sp"
      using at[OF i] fr[OF nth_mem[OF i]] by (auto dest: render_spans)
    show ?thesis
    proof (cases "ep_kind (ps1 ! i) = PriorSummary \<and> ep_lane (ps1 ! i) = ArchiveReference")
      case False
      then show ?thesis using spans lane by (auto simp: p2 fold_prior_summary_def packet_sound_def)
    next
      case True
      show ?thesis
      proof (cases "re_spans (render_packet_with_spans env ms (ps1 ! i) None) = []")
        case True
        then show ?thesis using spans lane by (auto simp: p2 fold_prior_summary_def packet_sound_def Let_def)
      next
        case spansne: False
        show ?thesis using True spansne complete_render_full[OF spansne, of Summarize]
          by (auto simp: p2 fold_prior_summary_def packet_sound_def Let_def dest: render_spans)
      qed
    qed
  qed
  have "deps_shown ps2"
  proof (rule deps_shown_step[OF _ ids sk])
    show "deps_shown ps" using fr by (auto simp: deps_shown_def)
    show "is_candidate (ps2 ! i) \<Longrightarrow> is_candidate (ps ! i)" if "i < length ps" for i
      using skeleton_eqD(3)[OF same_skeleton[OF sk that]] fr[OF nth_mem[OF that]] by (simp add: is_candidate_def)
    fix i d j
    assume i: "i < length ps" and shown: "ep_lane (ps2 ! i) \<noteq> ArchiveReference" and d: "d \<in> set (ep_depends_on (ps ! i))"
      and j: "j < length ps" "ep_id (ps ! j) = d" "ep_kind (ps ! j) \<noteq> PriorSummary"
    have p2: "ps2 ! i = fold_prior_summary env ms (ps1 ! i)" using i len by (simp add: ps2)
    have "ep_kind (ps ! i) \<noteq> PriorSummary" using d fr[OF nth_mem[OF i]] by auto
    then have "ep_kind (ps1 ! i) \<noteq> PriorSummary" using skeleton_eqD(2)[OF same_skeleton[OF sk1 i]] by simp
    then have "ep_lane (ps1 ! i) \<noteq> ArchiveReference" using shown by (simp add: p2 fold_prior_summary_def)
    then have C: "ep_id (ps ! i) \<in> set C" using at[OF i] fr[OF nth_mem[OF i]] by auto
    then have C': "C = active_dependency_closure ps" by (auto simp: C_def split: if_splits)
    show "\<not> is_candidate (ps2 ! j)"
    proof (cases "never_exact ps d")
      case True
      then have "ep_provenance (ps ! j) = RealUser" using never_exact_iff[OF ids j(1)] j by simp
      then show ?thesis using skeleton_eqD(3)[OF same_skeleton[OF sk j(1)]] by (simp add: is_candidate_def)
    next
      case False
      then have "d \<in> set C" using active_closure_props(2)[OF ids i _ d False] C C' by simp
      then have "j \<in> set (exact_order C ps)" using j exact_order_props(2)[of C ps] by auto
      then have "ep_lane (ps1 ! j) = KeepExact" using A[THEN conjunct2, THEN conjunct2, THEN conjunct2, THEN conjunct2, rule_format, OF j(1)]
        by auto
      then show ?thesis using j(1) len by (simp add: ps2 fold_prior_summary_def is_candidate_def)
    qed
  qed
  then show ?thesis using sound1 sk budget len by (auto simp: lanes_sound_def in_set_conv_nth)
qed

section \<open>Packets to summarize\<close>

lemma summarize_step:
  assumes sound: "lanes_sound env ms ps" and ids: "distinct (map ep_id ps)" and d: "distinct (map fst rs)"
    and cand: "\<And>i r. (i, r) \<in> set rs \<Longrightarrow> i < length ps \<and> is_candidate (ps ! i) \<and> re_spans r \<noteq> [] \<and>
      (\<exists>n. r = render_packet_with_spans env ms (ps ! i) n)"
    and closed: "\<And>i d j. i \<in> fst ` set rs \<Longrightarrow> d \<in> set (ep_depends_on (ps ! i)) \<Longrightarrow> j < length ps \<Longrightarrow> ep_id (ps ! j) = d \<Longrightarrow>
      ep_kind (ps ! j) \<noteq> PriorSummary \<Longrightarrow> is_candidate (ps ! j) \<Longrightarrow> j \<in> fst ` set rs"
  shows "lanes_sound env ms (summarize_all rs ps)"
proof -
  let ?qs = "summarize_all rs ps"
  note sk = summarize_all_skeleton[of rs ps]
  note len = same_length[OF sk]
  have at: "?qs ! i = (case map_of rs i of Some r \<Rightarrow> show_in Summarize r (ps ! i) | None \<Rightarrow> ps ! i)" if "i < length ps" for i
    by (rule summarize_all_nth[OF d that])
  have "packet_sound env ms (?qs ! i)" if i: "i < length ps" for i
  proof (cases "map_of rs i")
    case None
    then show ?thesis using at[OF i] sound i by (simp add: lanes_sound_def)
  next
    case (Some r)
    then have r: "(i, r) \<in> set rs" by (rule map_of_SomeD)
    with cand obtain n where n: "is_candidate (ps ! i)" "re_spans r \<noteq> []" "r = render_packet_with_spans env ms (ps ! i) n" by blast
    have "ep_kind (ps ! i) \<noteq> PriorSummary"
    proof
      assume "ep_kind (ps ! i) = PriorSummary"
      with n(1) sound i have "re_spans (render_packet_with_spans env ms (ps ! i) None) = []"
        by (auto simp: lanes_sound_def packet_sound_def is_candidate_def)
      from render_all_no_span[OF this] n(2,3) show False by simp
    qed
    then show ?thesis using at[OF i] Some n(3) by (auto simp: packet_sound_def dest: render_spans)
  qed
  moreover have "deps_shown ?qs"
  proof (rule deps_shown_step[OF _ ids sk])
    show "deps_shown ps" using sound by (simp add: lanes_sound_def)
    show "is_candidate (?qs ! i) \<Longrightarrow> is_candidate (ps ! i)" if "i < length ps" for i
      using at[OF that] by (auto simp: is_candidate_def split: option.splits)
    fix i d j
    assume i: "i < length ps" "ep_lane (ps ! i) = ArchiveReference" "ep_lane (?qs ! i) \<noteq> ArchiveReference"
      and d: "d \<in> set (ep_depends_on (ps ! i))" and j: "j < length ps" "ep_id (ps ! j) = d" "ep_kind (ps ! j) \<noteq> PriorSummary"
    have "map_of rs i \<noteq> None" using at[OF i(1)] i(2,3) by (auto split: option.splits)
    then have inrs: "i \<in> fst ` set rs" by (simp add: map_of_eq_None_iff)
    show "\<not> is_candidate (?qs ! j)"
    proof
      assume "is_candidate (?qs ! j)"
      then have "map_of rs j = None" "is_candidate (ps ! j)" using at[OF j(1)] by (auto simp: is_candidate_def split: option.splits)
      then show False using closed[OF inrs d j] by (simp add: map_of_eq_None_iff)
    qed
  qed
  ultimately show ?thesis using len by (auto simp: lanes_sound_def in_set_conv_nth)
qed

lemma summarize_cost:
  assumes "distinct (map fst rs)" and "\<And>i r. (i, r) \<in> set rs \<Longrightarrow> i < length ps \<and> is_candidate (ps ! i)"
    and "sum_list (map (\<lambda>(_, r). render_cost env r) rs) \<le> remaining"
  shows "selected_tokens env (summarize_all rs ps) \<le> selected_tokens env ps + remaining"
  using summarize_all_selected[of rs ps env] assms by (force simp: is_candidate_def)

lemma summarization_closure_props:
  assumes "i < length ps"
  shows "distinct (summarization_closure i ps)" and "set (summarization_closure i ps) \<subseteq> {..<length ps}"
    and "k \<in> set (summarization_closure i ps) \<Longrightarrow> d \<in> set (ep_depends_on (ps ! k)) \<Longrightarrow> index_by_id ps d = Some j \<Longrightarrow>
      j \<in> set (summarization_closure i ps)"
proof -
  let ?t = "map (\<lambda>(n, p). (n, List.map_filter (index_by_id ps) (ep_depends_on p))) (enumerate 0 ps)"
  show "distinct (summarization_closure i ps)" by (simp add: summarization_closure_def closure_from_distinct)
  show within: "set (summarization_closure i ps) \<subseteq> {..<length ps}"
    unfolding summarization_closure_def set_sort
    by (rule closure_from_within) (use assms in \<open>auto simp: List.map_filter_def simp: index_by_id_Some[THEN conjunct1]\<close>)
  assume k: "k \<in> set (summarization_closure i ps)" and d: "d \<in> set (ep_depends_on (ps ! k))" "index_by_id ps d = Some j"
  have "k < length ps" using k within by auto
  then have "(k, ps ! k) \<in> set (enumerate 0 ps)" by (simp add: in_set_enumerate_eq)
  then have "(k, List.map_filter (index_by_id ps) (ep_depends_on (ps ! k))) \<in> set ?t" by force
  moreover have "map fst ?t = [0..<length ps]" by (simp add: comp_def case_prod_beta map_fst_enumerate[unfolded comp_def])
  ultimately have "successors ?t k = List.map_filter (index_by_id ps) (ep_depends_on (ps ! k))"
    by (intro successors_nth) simp_all
  then have "j \<in> set (successors ?t k)" using d by (force simp: List.map_filter_def)
  then show "j \<in> set (summarization_closure i ps)"
    using closure_from_closed[of k ?t "[]" "[i]"] k by (auto simp: summarization_closure_def)
qed

lemma map_filter_total: "length (List.map_filter f xs) = length xs \<Longrightarrow> x \<in> set xs \<Longrightarrow> \<exists>y. f x = Some y"
proof (induction xs)
  case Nil
  then show ?case by simp
next
  case (Cons a xs)
  have "length (List.map_filter f xs) \<le> length xs" by (simp add: List.map_filter_def)
  then show ?case using Cons by (auto simp: List.map_filter_simps split: option.splits)
qed

lemma in_map_filter: "y \<in> set (List.map_filter f xs) \<longleftrightarrow> (\<exists>x\<in>set xs. f x = Some y)"
  by (induction xs) (auto simp: List.map_filter_simps split: option.split)

lemma map_filter_fst:
  assumes "\<And>x y. f x = Some y \<Longrightarrow> fst y = x" and "length (List.map_filter f xs) = length xs"
  shows "map fst (List.map_filter f xs) = xs"
  using assms(2)
proof (induction xs)
  case Nil
  then show ?case by (simp add: List.map_filter_simps)
next
  case (Cons a xs)
  have "length (List.map_filter f xs) \<le> length xs" by (simp add: List.map_filter_def)
  then show ?case using Cons assms(1) by (auto simp: List.map_filter_simps split: option.splits)
qed

lemma render_pending_Some:
  assumes "render_pending env ms previews per ps i = Some (j, r)"
    and "\<And>r. map_of previews i = Some r \<Longrightarrow> \<exists>n. r = render_packet_with_spans env ms (ps ! i) n"
  shows "j = i \<and> re_spans r \<noteq> [] \<and> (\<exists>n. r = render_packet_with_spans env ms (ps ! i) n)"
  using assms by (auto simp: render_pending_def Let_def split: option.splits if_splits)

lemma take_ranked_sound:
  assumes "lanes_sound env ms ps" and "distinct (map ep_id ps)" and "set is \<subseteq> {..<length ps}"
    and "\<And>i r. map_of previews i = Some r \<Longrightarrow> i < length ps \<Longrightarrow> \<exists>n. r = render_packet_with_spans env ms (ps ! i) n"
    and "qs = take_ranked env ms previews is remaining ps"
  shows "lanes_sound env ms qs \<and> map skeleton qs = map skeleton ps \<and>
    selected_tokens env qs \<le> selected_tokens env ps + remaining"
  using assms
proof (induction "is" arbitrary: ps remaining)
  case Nil
  then show ?case by simp
next
  case (Cons i "is")
  define pending where "pending = filter (\<lambda>c. is_candidate (ps ! c)) (summarization_closure i ps)"
  define rs where "rs = List.map_filter (render_pending env ms previews (div_ceil remaining (length pending)) ps) pending"
  define cost where "cost = sum_list (map (\<lambda>(_, r). render_cost env r) rs)"
  have i: "i < length ps" "set is \<subseteq> {..<length ps}" using Cons.prems(3) by auto
  consider (stop) "remaining = 0" "qs = ps"
    | (skip) "qs = take_ranked env ms previews is remaining ps"
    | (take) "length rs = length pending" "cost \<le> remaining"
      "qs = take_ranked env ms previews is (remaining - cost) (summarize_all rs ps)"
    using Cons.prems(5)[unfolded take_ranked.simps Let_def pending_def[symmetric] rs_def[symmetric] cost_def[symmetric]]
    by (auto split: if_splits)
  then show ?case
  proof cases
    case stop
    then show ?thesis using Cons.prems(1) by simp
  next
    case skip
    then show ?thesis using Cons.IH[OF Cons.prems(1,2) i(2) Cons.prems(4), of remaining] by blast
  next
    case take
    have fst_rs: "map fst rs = pending" unfolding rs_def
      by (rule map_filter_fst) (use take(1) in \<open>auto simp: rs_def render_pending_def Let_def split: option.splits if_splits\<close>)
    have within: "set pending \<subseteq> {..<length ps}"
      using summarization_closure_props(2)[OF i(1)] by (auto simp: pending_def)
    have in_rs: "k < length ps \<and> is_candidate (ps ! k) \<and> re_spans r \<noteq> [] \<and>
        (\<exists>n. r = render_packet_with_spans env ms (ps ! k) n)" if krs: "(k, r) \<in> set rs" for k r
    proof -
      obtain c where c: "c \<in> set pending"
        "render_pending env ms previews (div_ceil remaining (length pending)) ps c = Some (k, r)"
        using krs unfolding rs_def in_map_filter by blast
      have "c < length ps" using c(1) within by auto
      with render_pending_Some[OF c(2)] Cons.prems(4) c(1) show ?thesis by (auto simp: pending_def)
    qed
    have dist: "distinct (map fst rs)" unfolding fst_rs pending_def
      using summarization_closure_props(1)[OF i(1)] by simp
    let ?ps = "summarize_all rs ps"
    note sk = summarize_all_skeleton[of rs ps]
    have "lanes_sound env ms ?ps"
    proof (rule summarize_step[OF Cons.prems(1,2) dist in_rs])
      fix k d j
      assume k: "k \<in> fst ` set rs" and d: "d \<in> set (ep_depends_on (ps ! k))" and j: "j < length ps" "ep_id (ps ! j) = d"
        and c: "is_candidate (ps ! j)"
      have k': "k \<in> set (summarization_closure i ps)" using k fst_rs by (metis (no_types, lifting) filter_is_subset list.set_map pending_def subsetD)
      obtain j' where j': "index_by_id ps d = Some j'" using index_by_id_ex[OF j(1)] j(2) by blast
      have "j' = j" using index_by_id_Some[OF j'] j Cons.prems(2) by (metis length_map nth_eq_iff_index_eq nth_map)
      then have "j \<in> set pending" using summarization_closure_props(3)[OF i(1) k' d j'] c by (simp add: pending_def)
      then show "j \<in> fst ` set rs" using fst_rs by (metis list.set_map)
    qed
    moreover have "distinct (map ep_id ?ps)" using ids_same[OF sk] Cons.prems(2) by simp
    moreover have "set is \<subseteq> {..<length ?ps}" using i(2) same_length[OF sk] by simp
    moreover have "\<exists>n. r = render_packet_with_spans env ms (?ps ! k) n" if "map_of previews k = Some r" "k < length ?ps" for k r
      using Cons.prems(4)[OF that(1)] that(2) same_length[OF sk] render_skeleton'[OF same_skeleton[OF sk]] by metis
    ultimately have IH: "lanes_sound env ms qs \<and> map skeleton qs = map skeleton ?ps \<and>
        selected_tokens env qs \<le> selected_tokens env ?ps + (remaining - cost)"
      using Cons.IH[of ?ps "remaining - cost"] take(3) by blast
    have "selected_tokens env ?ps \<le> selected_tokens env ps + cost"
      by (rule summarize_cost[OF dist]) (use in_rs cost_def in auto)
    then show ?thesis using IH sk take(2) by auto
  qed
qed

lemma insert_ranked_set: "set (insert_ranked b x xs) = insert x (set xs)"
  by (induction xs) auto

lemma sort_candidates_set: "set (sort_candidates cs ps refs scores) = set cs"
proof -
  have "set (foldr (insert_ranked b) xs []) = set xs" for b :: "nat \<Rightarrow> nat \<Rightarrow> bool" and xs
    by (induction xs) (auto simp: insert_ranked_set)
  then show ?thesis by (simp add: sort_candidates_def)
qed

lemma rank_candidates_set: "set (rank_candidates env relevance cs ps ms query refs) = set cs"
  by (simp add: rank_candidates_def sort_candidates_set)

text \<open>What the allocation of lanes leaves.\<close>

lemma allocate_lanes_sound:
  assumes tk: "tokenizer_ok (pe_tokenizer env)" and ids: "distinct (map ep_id ps)" and fresh: "fresh_packets ps"
  shows "lanes_sound env ms (allocate_lanes env relevance ms pinned hints focus target minimal ps) \<and>
    map skeleton (allocate_lanes env relevance ms pinned hints focus target minimal ps) = map skeleton ps \<and>
    selected_tokens env (allocate_lanes env relevance ms pinned hints focus target minimal ps) \<le> target"
proof -
  obtain used ps1 where e: "allocate_exact env ms
      (exact_order (if minimal then [] else active_dependency_closure ps) ps) target 0 ps = (used, ps1)" by force
  define ps2 where "ps2 = map (fold_prior_summary env ms) ps1"
  note F = frontier_sound[OF tk ids fresh e ps2_def]
  have ids2: "distinct (map ep_id ps2)" using F ids_same[of ps2 ps] ids by simp
  define cs where "cs = filter (\<lambda>i. is_candidate (ps2 ! i)) [0..<length ps2]"
  define previews where "previews = map (\<lambda>i. (i, render_packet_with_spans env ms (ps2 ! i)
    (Some (desired_tokens (ps2 ! i))))) cs"
  define remaining where "remaining = target - used"
  have budget: "selected_tokens env ps2 + remaining \<le> target" using F unfolding remaining_def by linarith
  have fst_previews: "map fst previews = cs" by (simp add: previews_def comp_def)
  have in_previews: "i < length ps2 \<and> is_candidate (ps2 ! i) \<and>
      r = render_packet_with_spans env ms (ps2 ! i) (Some (desired_tokens (ps2 ! i)))" if "(i, r) \<in> set previews" for i r
    using that by (auto simp: previews_def cs_def)
  define query where "query = pi_text (pd_task pinned) @ newline @ join newline (map pi_text (pd_constraints pinned)) @ newline @ focus"
  let ?qs = "allocate_lanes env relevance ms pinned hints focus target minimal ps"
  have qs: "?qs = (if remaining = 0 \<or> cs = [] then ps2
     else if list_all (\<lambda>(_, r). re_spans r \<noteq> []) previews \<and> sum_list (map (\<lambda>(_, r). render_cost env r) previews) \<le> remaining
     then summarize_all previews ps2
     else take_ranked env ms previews (rank_candidates env relevance cs ps2 ms query (concat (map gh_refs hints))) remaining ps2)"
    unfolding allocate_lanes_def Let_def e prod.case ps2_def[symmetric] cs_def[symmetric] previews_def[symmetric]
      remaining_def[symmetric] query_def[symmetric] ..
  consider (none) "?qs = ps2"
    | (every) "\<And>i r. (i, r) \<in> set previews \<Longrightarrow> re_spans r \<noteq> []" "sum_list (map (\<lambda>(_, r). render_cost env r) previews) \<le> remaining"
      "?qs = summarize_all previews ps2"
    | (ranked) "?qs = take_ranked env ms previews (rank_candidates env relevance cs ps2 ms query (concat (map gh_refs hints))) remaining ps2"
    unfolding qs by (fastforce simp: list_all_iff split: if_splits)
  then show ?thesis
  proof cases
    case none
    then show ?thesis using F budget by simp
  next
    case every
    have d: "distinct (map fst previews)" unfolding fst_previews by (simp add: cs_def)
    have "lanes_sound env ms (summarize_all previews ps2)"
    proof (rule summarize_step[OF _ ids2 d])
      show "lanes_sound env ms ps2" using F by blast
      show "i < length ps2 \<and> is_candidate (ps2 ! i) \<and> re_spans r \<noteq> [] \<and>
          (\<exists>n. r = render_packet_with_spans env ms (ps2 ! i) n)" if "(i, r) \<in> set previews" for i r
        using in_previews[OF that] every(1)[OF that] by blast
      show "j \<in> fst ` set previews" if "j < length ps2" "is_candidate (ps2 ! j)" for j
      proof -
        have "j \<in> set (map fst previews)" using that by (simp add: fst_previews cs_def)
        then show ?thesis by simp
      qed
    qed
    moreover have "selected_tokens env (summarize_all previews ps2) \<le> selected_tokens env ps2 + remaining"
      by (rule summarize_cost[OF d _ every(2)]) (use in_previews in blast)
    ultimately show ?thesis using F budget every(3) summarize_all_skeleton[of previews ps2] by simp
  next
    case ranked
    have "set (rank_candidates env relevance cs ps2 ms query (concat (map gh_refs hints))) \<subseteq> {..<length ps2}"
      by (auto simp: rank_candidates_set cs_def)
    from take_ranked_sound[OF _ ids2 this _ ranked] F budget in_previews show ?thesis by (fastforce dest: map_of_SomeD)
  qed
qed

text \<open>The allocation changes nothing else.\<close>

lemma allocate_exact_skeleton:
  "allocate_exact env ms is remaining used ps = (used', ps') \<Longrightarrow> map skeleton ps' = map skeleton ps"
  by (induction env ms "is" remaining used ps rule: allocate_exact.induct) (auto simp: Let_def skeletons_show)

lemma take_ranked_skeleton: "map skeleton (take_ranked env ms previews is remaining ps) = map skeleton ps"
  by (induction env ms previews "is" remaining ps rule: take_ranked.induct) (simp_all add: Let_def summarize_all_skeleton)

lemma allocate_lanes_skeleton:
  "map skeleton (allocate_lanes env relevance ms pinned hints focus target minimal ps) = map skeleton ps"
proof -
  obtain used ps1 where e: "allocate_exact env ms
      (exact_order (if minimal then [] else active_dependency_closure ps) ps) target 0 ps = (used, ps1)" by force
  have "map skeleton (map (fold_prior_summary env ms) ps1) = map skeleton ps"
    using allocate_exact_skeleton[OF e] by (simp add: comp_def)
  then show ?thesis unfolding allocate_lanes_def Let_def e prod.case
    by (simp only: summarize_all_skeleton take_ranked_skeleton if_distrib[where f = "map skeleton"] if_cancel)
qed

text \<open>The spans shown are spans of the messages, whatever the tokenizer and the identifiers are.\<close>

definition spans_sound :: "'x pact_env \<Rightarrow> 'x message list \<Rightarrow> evidence_packet \<Rightarrow> bool" where
  "spans_sound env ms p \<longleftrightarrow> (\<forall>sp\<in>set (ep_exact_spans p). span_holds env (str_lines (canonical env ms p)) sp)"

abbreviation all_spans_sound :: "'x pact_env \<Rightarrow> 'x message list \<Rightarrow> evidence_packet list \<Rightarrow> bool" where
  "all_spans_sound env ms ps \<equiv> \<forall>p\<in>set ps. spans_sound env ms p"

lemma show_spans:
  assumes "skeleton q = skeleton p"
  shows "spans_sound env ms (show_in l (render_packet_with_spans env ms q n) p)"
  using render_spans[of _ env ms p n] render_skeleton'[OF assms, of env ms n] by (auto simp: spans_sound_def)

lemma update_spans:
  assumes "all_spans_sound env ms ps" and "i < length ps \<Longrightarrow> spans_sound env ms q"
  shows "all_spans_sound env ms (ps[i := q])"
proof (cases "i < length ps")
  case True
  then show ?thesis using assms by (auto dest!: set_update_subset_insert[THEN subsetD])
next
  case False
  then show ?thesis using assms(1) by (simp add: list_update_beyond)
qed

lemma allocate_exact_spans:
  "allocate_exact env ms is remaining used ps = (used', ps') \<Longrightarrow> all_spans_sound env ms ps \<Longrightarrow> all_spans_sound env ms ps'"
proof (induction env ms "is" remaining used ps rule: allocate_exact.induct)
  case (2 env ms i "is" remaining used ps)
  show ?case
    by (rule 2(1)[OF refl refl 2(2)[unfolded allocate_exact.simps Let_def]])
      (intro update_spans[OF 2(3)] show_spans refl)
qed simp

lemma fold_prior_spans: "spans_sound env ms p \<Longrightarrow> spans_sound env ms (fold_prior_summary env ms p)"
  by (simp add: fold_prior_summary_def Let_def show_spans)

lemma summarize_all_spans:
  assumes "all_spans_sound env ms ps"
    and "\<And>i r. (i, r) \<in> set rs \<Longrightarrow> i < length ps \<Longrightarrow> \<exists>n. r = render_packet_with_spans env ms (ps ! i) n"
  shows "all_spans_sound env ms (summarize_all rs ps)"
  using assms
proof (induction rs arbitrary: ps)
  case (Cons x rs)
  obtain i r where x: "x = (i, r)" by force
  let ?ps = "ps[i := show_in Summarize r (ps ! i)]"
  have "all_spans_sound env ms ?ps"
    using Cons.prems(2)[of i r] by (intro update_spans[OF Cons.prems(1)]) (auto simp: x intro: show_spans)
  moreover have "\<exists>n. r' = render_packet_with_spans env ms (?ps ! j) n" if j: "(j, r') \<in> set rs" "j < length ?ps" for j r'
  proof -
    obtain n where "r' = render_packet_with_spans env ms (ps ! j) n" using Cons.prems(2)[of j r'] j by auto
    moreover have "skeleton (?ps ! j) = skeleton (ps ! j)" using same_skeleton[OF skeletons_show, of j ps i Summarize r] j by simp
    ultimately show ?thesis using render_skeleton' by metis
  qed
  ultimately show ?case using Cons.IH[of ?ps] by (simp add: x summarize_all_Cons)
qed (simp add: summarize_all_def)

lemma take_ranked_spans:
  assumes "all_spans_sound env ms ps"
    and "\<And>i r. map_of previews i = Some r \<Longrightarrow> i < length ps \<Longrightarrow> \<exists>n. r = render_packet_with_spans env ms (ps ! i) n"
    and "qs = take_ranked env ms previews is remaining ps"
  shows "all_spans_sound env ms qs"
  using assms
proof (induction "is" arbitrary: ps remaining)
  case Nil
  then show ?case by simp
next
  case (Cons i "is")
  define pending where "pending = filter (\<lambda>c. is_candidate (ps ! c)) (summarization_closure i ps)"
  define rs where "rs = List.map_filter (render_pending env ms previews (div_ceil remaining (length pending)) ps) pending"
  define cost where "cost = sum_list (map (\<lambda>(_, r). render_cost env r) rs)"
  consider (stop) "qs = ps" | (skip) "qs = take_ranked env ms previews is remaining ps"
    | (take) "qs = take_ranked env ms previews is (remaining - cost) (summarize_all rs ps)"
    using Cons.prems(3)[unfolded take_ranked.simps Let_def pending_def[symmetric] rs_def[symmetric] cost_def[symmetric]]
    by (auto split: if_splits)
  then show ?case
  proof cases
    case take
    have pending_render: "\<exists>n. r = render_packet_with_spans env ms (ps ! j) n" if "(j, r) \<in> set rs" "j < length ps" for j r
    proof -
      obtain c where "render_pending env ms previews (div_ceil remaining (length pending)) ps c = Some (j, r)"
        using \<open>(j, r) \<in> set rs\<close> unfolding rs_def in_map_filter by blast
      then show ?thesis using Cons.prems(2) that(2) by (auto simp: render_pending_def Let_def split: option.splits if_splits)
    qed
    note sk = summarize_all_skeleton[of rs ps]
    have "\<exists>n. r = render_packet_with_spans env ms (summarize_all rs ps ! k) n"
      if "map_of previews k = Some r" "k < length (summarize_all rs ps)" for k r
      using Cons.prems(2)[OF that(1)] that(2) same_length[OF sk] render_skeleton'[OF same_skeleton[OF sk]] by metis
    with Cons.IH[OF summarize_all_spans[OF Cons.prems(1) pending_render] _ take] show ?thesis by blast
  qed (use Cons in auto)
qed

lemma allocate_lanes_spans:
  assumes "all_spans_sound env ms ps"
  shows "all_spans_sound env ms (allocate_lanes env relevance ms pinned hints focus target minimal ps)"
proof -
  obtain used ps1 where e: "allocate_exact env ms
      (exact_order (if minimal then [] else active_dependency_closure ps) ps) target 0 ps = (used, ps1)" by force
  define ps2 where "ps2 = map (fold_prior_summary env ms) ps1"
  define previews where "previews = map (\<lambda>i. (i, render_packet_with_spans env ms (ps2 ! i) (Some (desired_tokens (ps2 ! i)))))
    (filter (\<lambda>i. is_candidate (ps2 ! i)) [0..<length ps2])"
  have S: "all_spans_sound env ms ps2" using allocate_exact_spans[OF e assms] by (auto simp: ps2_def fold_prior_spans)
  have P: "(i, r) \<in> set previews \<Longrightarrow> \<exists>n. r = render_packet_with_spans env ms (ps2 ! i) n" for i r
    by (auto simp: previews_def)
  have "all_spans_sound env ms (summarize_all previews ps2)" by (rule summarize_all_spans[OF S P])
  moreover have "all_spans_sound env ms (take_ranked env ms previews is remaining ps2)" for "is" remaining
    by (rule take_ranked_spans[OF S _ refl]) (auto dest: map_of_SomeD P)
  ultimately show ?thesis using S
    unfolding allocate_lanes_def Let_def e prod.case ps2_def[symmetric] previews_def[symmetric] by presburger
qed

section \<open>The context of a fold\<close>

lemma pact_context_of_simps [simp]:
  "pc_packets (pact_context_of registry enabled pinned focus hints src tgt ps) = ps"
  "pc_pinned (pact_context_of registry enabled pinned focus hints src tgt ps) = pinned"
  "pc_plan_focus (pact_context_of registry enabled pinned focus hints src tgt ps) = focus"
  "pc_target_tokens (pact_context_of registry enabled pinned focus hints src tgt ps) = tgt"
  "pc_enabled (pact_context_of registry enabled pinned focus hints src tgt ps) = enabled"
  by (simp_all add: pact_context_of_def)

lemma build_pact_parts:
  assumes "build_pact env relevance ratio registry s a b True minimal = Inr pact"
  obtains ps hints where "a \<le> b" "b < length (ps_messages s)" "ps = link_dependencies (build_packets env (ps_name s) (drained s a b))"
    "pc_packets pact = allocate_lanes env relevance (drained s a b) (pc_pinned pact) hints (pc_plan_focus pact)
       (pc_target_tokens pact) minimal ps"
proof (rule that)
  show "a \<le> b" "b < length (ps_messages s)" using assms by (simp_all add: build_pact_def split: if_splits)
  show "link_dependencies (build_packets env (ps_name s) (drained s a b)) =
      link_dependencies (build_packets env (ps_name s) (drained s a b))" ..
  show "pc_packets pact = allocate_lanes env relevance (drained s a b) (pc_pinned pact)
       (ground_self_report env (ps_handoff s) (drained s a b)
         (link_dependencies (build_packets env (ps_name s) (drained s a b)))) (pc_plan_focus pact)
       (pc_target_tokens pact) minimal (link_dependencies (build_packets env (ps_name s) (drained s a b)))"
    using assms by (auto simp: build_pact_def Let_def split: if_splits)
qed

lemma validate_packets_sound:
  assumes "lanes_sound env ms (pc_packets pact)" and "selected_tokens env (pc_packets pact) \<le> pc_target_tokens pact"
  shows "validate_packets env pact =
    (case find (\<lambda>p. ep_lane p = KeepExact \<and> ep_exact_spans p = []) (pc_packets pact) of
       Some p \<Rightarrow> Inl (NoRecoverableSpan (ep_id p)) | None \<Rightarrow> Inr ())"
proof -
  let ?ps = "pc_packets pact"
  have "each (\<lambda>p. ensure (complete_render env p) (IncompleteSummary (ep_id p)))
      (filter (\<lambda>p. ep_kind p = PriorSummary \<and> ep_lane p = Summarize) ?ps) = Inr ()"
    using assms(1) by (auto simp: each_ok ensure_ok lanes_sound_def packet_sound_def)
  moreover have "each (check_dependencies ?ps) (filter (\<lambda>p. ep_lane p \<noteq> ArchiveReference) ?ps) = Inr ()"
    using assms(1) check_dependencies_ok[of ?ps] by (auto simp: each_ok lanes_sound_def)
  ultimately show ?thesis using assms(2)
    by (simp add: validate_packets_def Let_def ensure_def split: option.split)
qed

text \<open>The packets of a context that was built.\<close>

lemma built_packets:
  assumes "build_pact env relevance ratio registry s a b enabled minimal = Inr pact"
  shows "map skeleton (pc_packets pact) = map skeleton (link_dependencies (build_packets env (ps_name s) (drained s a b)))"
  using assms by (auto simp: build_pact_def Let_def allocate_lanes_skeleton split: if_splits)

text \<open>A packet of a context is one that was cut from the messages: only its links and its lane are new.\<close>

lemma built_origin:
  assumes "build_pact env relevance ratio registry s a b enabled minimal = Inr pact" and "p \<in> set (pc_packets pact)"
  obtains q where "q \<in> set (build_packets env (ps_name s) (drained s a b))" "ep_id p = ep_id q"
    "ep_descriptor p = ep_descriptor q" "ep_message_start p = ep_message_start q" "ep_message_end p = ep_message_end q"
proof -
  have "skeleton p \<in> set (map skeleton (link_dependencies (build_packets env (ps_name s) (drained s a b))))"
    using assms(2) built_packets[OF assms(1)] by (metis image_eqI list.set_map)
  then obtain q where q: "skeleton p = skeleton q" "q \<in> set (link_dependencies (build_packets env (ps_name s) (drained s a b)))"
    by auto
  obtain r where r: "r \<in> set (build_packets env (ps_name s) (drained s a b))" "unlinked q = unlinked r"
    using unlinked_in[OF link_from_unlinked q(2)[unfolded link_dependencies_def]] by blast
  show thesis using that[OF r(1)] skeleton_eqD[OF q(1)] unlinked_eqD[OF r(2)] by simp
qed

lemma built_spans:
  assumes "build_pact env relevance ratio registry s a b enabled minimal = Inr pact"
  shows "each (check_spans env (drained s a b)) (pc_packets pact) = Inr ()"
proof -
  let ?ps = "link_dependencies (build_packets env (ps_name s) (drained s a b))"
  have "fresh_packets ?ps" by (rule linked_fresh)
  then have F: "all_spans_sound env (drained s a b) ?ps" by (simp add: fresh_packets_def spans_sound_def)
  have "all_spans_sound env (drained s a b) (pc_packets pact)"
  proof (cases enabled)
    case True
    then show ?thesis using build_pact_parts[of env relevance ratio registry s a b minimal pact] assms
        allocate_lanes_spans[OF F] by metis
  next
    case False
    then have "pc_packets pact = ?ps" using assms by (auto simp: build_pact_def Let_def split: if_splits)
    then show ?thesis using F by simp
  qed
  then show ?thesis by (auto simp: each_ok check_spans_def ensure_ok spans_sound_def)
qed

lemma built_lanes:
  assumes "tokenizer_ok (pe_tokenizer env)" and "build_pact env relevance ratio registry s a b True minimal = Inr pact"
    and "distinct (map ep_id (pc_packets pact))"
  shows "lanes_sound env (drained s a b) (pc_packets pact) \<and> selected_tokens env (pc_packets pact) \<le> pc_target_tokens pact"
proof -
  let ?ps = "link_dependencies (build_packets env (ps_name s) (drained s a b))"
  have d: "distinct (map ep_id ?ps)" using assms(3) ids_same[OF built_packets[OF assms(2)]] by simp
  show ?thesis
    using build_pact_parts[of env relevance ratio registry s a b minimal pact]
      allocate_lanes_sound[OF assms(1) d linked_fresh] assms(2) by metis
qed

lemma find_by_id: "distinct (map f xs) \<Longrightarrow> x \<in> set xs \<Longrightarrow> find (\<lambda>y. f y = f x) xs = Some x"
  by (induction xs) (auto simp: rev_image_eqI)

section \<open>A small instance\<close>

text \<open>One token for each byte.\<close>

definition demo_tokenizer :: tokenizer where
  "demo_tokenizer = \<lparr>tk_encode = Some (map of_char), tk_decode = (\<lambda>ts. Some (map char_of ts)), tk_json = (\<lambda>_. [])\<rparr>"

definition demo_pact :: "unit pact_env" where
  "demo_pact = \<lparr>pe_tokenizer = demo_tokenizer, pe_sha = rev, pe_encode = msg_content, pe_lower = id\<rparr>"

lemma demo_tokenizer_ok: "tokenizer_ok demo_tokenizer"
  by (simp add: tokenizer_ok_def cuts_within_def demo_tokenizer_def list_all_iff)

end
