(* ===== verification/FoldCorrect.thy ===== *)
theory FoldCorrect
  imports LanesCorrect
begin

text \<open>
  The folded units a summary may carry: what a validated unit rests on, that an admitted summary has no other, and that a
  repaired summary passes the validation as long as there is room for it.
\<close>

section \<open>Units\<close>

text \<open>A source of a unit: known, shown, and if it belongs to the active frontier not folded as completed.\<close>

definition source_supported :: "pact_context \<Rightarrow> folded_unit \<Rightarrow> string \<Rightarrow> bool" where
  "source_supported pact u i \<longleftrightarrow>
     provenance_of pact i \<noteq> None \<and>
     (case packet_of pact i of
        Some p \<Rightarrow> ep_lane p \<noteq> ArchiveReference \<and> \<not> (ep_lane p = KeepExact \<and> completed_status (fu_status u))
      | None \<Rightarrow> shown pact i \<and> map_of (pc_prior_recall pact) i \<noteq> None)"

definition unit_supported :: "pact_context \<Rightarrow> folded_unit \<Rightarrow> bool" where
  "unit_supported pact u \<longleftrightarrow>
     \<not> is_blank (fu_text u) \<and> fu_refs u \<noteq> [] \<and> list_all (source_supported pact u) (fu_refs u) \<and>
     (fu_status u = ''established'' \<or> fu_kind u = ''next_action'' \<longrightarrow>
        list_ex (\<lambda>i. authoritative (provenance_of pact i)) (fu_refs u))"

lemma known_authority: "provenance_of pact i \<noteq> None \<Longrightarrow> \<not> low_authority (provenance_of pact i) \<Longrightarrow> authoritative (provenance_of pact i)"
  by (cases "provenance_of pact i") (auto simp: low_authority_def authoritative_def intro: provenance.exhaust)

lemma check_source_ok:
  "check_source pact n u i = Inr () \<longleftrightarrow>
     provenance_of pact i \<noteq> None \<and>
     (case packet_of pact i of
        Some p \<Rightarrow> ep_lane p \<noteq> ArchiveReference \<and> \<not> (ep_lane p = KeepExact \<and> completed_status (fu_status u))
      | None \<Rightarrow> shown pact i)"
  by (auto simp: check_source_def rbind_ok ensure_ok split: option.split)

lemma validate_unit_ok:
  "validate_folded_unit pact n u = Inr () \<longleftrightarrow>
     \<not> is_blank (fu_text u) \<and> fu_refs u \<noteq> [] \<and> count_chars (fu_text u) \<le> 2000 \<and> length (fu_refs u) \<le> 16 \<and>
     distinct (fu_refs u) \<and> fu_kind u \<in> set allowed_kinds \<and> fu_status u \<in> set allowed_statuses \<and>
     (\<forall>i\<in>set (fu_refs u). check_source pact 0 u i = Inr ()) \<and>
     \<not> (fu_status u = ''established'' \<and> list_all (\<lambda>i. low_authority (provenance_of pact i)) (fu_refs u)) \<and>
     \<not> (fu_kind u = ''next_action'' \<and> \<not> has_authoritative_continuation_support pact u)"
  unfolding validate_folded_unit_def
  by (simp add: rbind_ok ensure_ok each_ok check_source_ok not_less card_distinct distinct_card) (auto dest: card_distinct simp: distinct_card)

lemma group_sidecars_coordinates:
  "group_sidecars pact is acc = Inr g \<Longrightarrow> i \<in> set is \<Longrightarrow> map_of (pc_prior_recall pact) i \<noteq> None"
  by (induction pact "is" acc rule: group_sidecars.induct) (auto split: option.splits)

lemma insert_id_set: "set (insert_id i is) = insert i (set is)"
  by (induction "is") auto

lemma sorted_ids_set: "set (sorted_ids is) = set is"
proof -
  have "set (foldr insert_id is []) = set is" by (induction "is") (auto simp: insert_id_set)
  then show ?thesis by (simp add: sorted_ids_def)
qed

lemma prior_refs_set: "set (prior_refs pact is) = {i \<in> set is. packet_of pact i = None}"
  by (auto simp: prior_refs_def sorted_ids_set packet_of_def find_None_iff)

lemma prior_coordinates:
  assumes "verify_prior_references env fs pact is = Inr ()" and "i \<in> set is" and "packet_of pact i = None"
  shows "map_of (pc_prior_recall pact) i \<noteq> None"
proof -
  have "i \<in> set (prior_refs pact is)" using assms(2,3) by (simp add: prior_refs_set)
  then show ?thesis using assms(1) group_sidecars_coordinates
    by (fastforce simp: verify_prior_references_def rbind_ok)
qed

lemma validated_unit_supported:
  assumes v: "validate_folded_unit pact n u = Inr ()" and p: "\<And>i. i \<in> set (fu_refs u) \<Longrightarrow> packet_of pact i = None \<Longrightarrow>
      map_of (pc_prior_recall pact) i \<noteq> None"
  shows "unit_supported pact u"
proof -
  note V = v[unfolded validate_unit_ok check_source_ok]
  have "list_ex (\<lambda>i. authoritative (provenance_of pact i)) (fu_refs u)" if "fu_status u = ''established''"
    using V that known_authority[of pact] by (fastforce simp: list_all_iff list_ex_iff)
  moreover have "list_ex (\<lambda>i. authoritative (provenance_of pact i)) (fu_refs u)" if "fu_kind u = ''next_action''"
    using V that by (auto simp: has_authoritative_continuation_support_def list_ex_iff)
  moreover have "list_all (source_supported pact u) (fu_refs u)"
    unfolding list_all_iff
  proof
    fix i assume i: "i \<in> set (fu_refs u)"
    show "source_supported pact u i"
    proof (cases "packet_of pact i")
      case None
      then show ?thesis using V p[OF i] i by (auto simp: source_supported_def)
    next
      case (Some q)
      then show ?thesis using V i by (auto simp: source_supported_def)
    qed
  qed
  ultimately show ?thesis using V by (auto simp: unit_supported_def)
qed

lemma standing_unit_supported: "unit_stands env fs pact u \<Longrightarrow> unit_supported pact u"
  unfolding unit_stands_def by (rule validated_unit_supported) (auto dest: prior_coordinates)

lemma each_enumerate:
  "each (\<lambda>(n, x). f n x) (enumerate 0 xs) = Inr () \<longleftrightarrow> (\<forall>n<length xs. f n (xs ! n) = Inr ())"
proof -
  have "(\<forall>p\<in>set (enumerate 0 xs). (case p of (n, x) \<Rightarrow> f n x) = Inr ()) \<longleftrightarrow> (\<forall>n x. (n, x) \<in> set (enumerate 0 xs) \<longrightarrow> f n x = Inr ())"
    by auto
  then show ?thesis by (simp add: each_ok in_set_enumerate_eq)
qed

lemma validate_summary_ok:
  "(\<exists>r. validate_summary env fs pact s = Inr r) \<longleftrightarrow>
     length (cm_folded_units s) \<le> 40 \<and> validate_packets (av_pact env) pact = Inr () \<and>
     (\<forall>n<length (cm_folded_units s). validate_folded_unit pact n (cm_folded_units s ! n) = Inr ()) \<and>
     verify_prior_references env fs pact (concat (map fu_refs (cm_folded_units s))) = Inr () \<and>
     (\<forall>p\<in>set (pc_packets pact). ep_lane p = Summarize \<longrightarrow> ep_id p \<in> set (concat (map fu_refs (cm_folded_units s))))"
  unfolding validate_summary_def Let_def
  by (simp add: rbind_ok ensure_ok each_enumerate[of "validate_folded_unit pact"]
      each_ok[of "\<lambda>p. ensure (P p) (E p)" for P E] imp_conjL Ball_def)

lemma validated_attribution: "validate_summary env fs pact s = Inr r \<Longrightarrow> vr_attribution_valid r"
  by (auto simp: validate_summary_def Let_def rbind_ok)

text \<open>
  C32. Whatever summary is admitted under an enabled controller with its validator, forced or not, each of its folded units
  rests on evidence: known sources that were shown to the model or resolve from an earlier archive, none of them a bare
  descriptor, none folded as completed while it is live, and for an established claim or a next action at least one that
  is not the assistant's or the runtime's own word.
\<close>

theorem admitted_units_supported:
  assumes "admit_summary env fs True force (Some pact) s = Some (s', report)" and "pc_enabled pact"
  shows "list_all (unit_supported pact) (cm_folded_units s') \<and>
    (is_blank (pi_text (pd_task (pc_pinned pact))) \<or>
     cm_current_task s' = pi_text (pd_task (pc_pinned pact)) \<and> cm_original_request s' = pi_text (pd_task (pc_pinned pact)))"
proof -
  define n where "n = normalize_summary pact s"
  define m where "m = repair_summary env fs pact n"
  have tasks: "is_blank (pi_text (pd_task (pc_pinned pact))) \<or>
      cm_current_task n = pi_text (pd_task (pc_pinned pact)) \<and> cm_original_request n = pi_text (pd_task (pc_pinned pact))"
    by (simp add: n_def normalize_summary_def Let_def)
  consider (valid) r where "validate_summary env fs pact m = Inr r" "s' = m"
    | (forced) "s' = sanitize_for_forced_compression env fs pact m"
    using assms by (auto simp: admit_summary_def Let_def n_def[symmetric] m_def[symmetric] split: if_splits sum.splits)
  then show ?thesis
  proof cases
    case valid
    have V: "\<forall>n<length (cm_folded_units m). validate_folded_unit pact n (cm_folded_units m ! n) = Inr ()"
      "verify_prior_references env fs pact (concat (map fu_refs (cm_folded_units m))) = Inr ()"
      using validate_summary_ok[of env fs pact m] valid(1) by blast+
    have "unit_supported pact u" if u: "u \<in> set (cm_folded_units m)" for u
    proof -
      obtain k where "validate_folded_unit pact k u = Inr ()" using V(1) u by (auto simp: in_set_conv_nth)
      then show ?thesis
      proof (rule validated_unit_supported)
        fix i assume "i \<in> set (fu_refs u)" "packet_of pact i = None"
        then show "map_of (pc_prior_recall pact) i \<noteq> None"
          using prior_coordinates[of env fs pact "concat (map fu_refs (cm_folded_units m))" i] V(2) u by auto
      qed
    qed
    then show ?thesis using tasks valid(2) by (auto simp: list_all_iff m_def repair_summary_def)
  next
    case forced
    then show ?thesis using standing_unit_supported[of env fs pact] tasks
      by (auto simp: sanitize_for_forced_compression_def normalize_summary_def Let_def list_all_iff m_def repair_summary_def)
  qed
qed

definition demo_archive :: "unit archive_env" where
  "demo_archive = \<lparr>av_pact = demo_pact, av_decode = (\<lambda>_. None), av_encode_entry = (\<lambda>_. []), av_decode_entry = (\<lambda>_. None),
     av_writable = (\<lambda>_. True)\<rparr>"

definition demo_summary :: compression_summary where
  "demo_summary = \<lparr>cm_should_compress = True, cm_original_request = [], cm_session_context = [], cm_current_task = [],
     cm_progress = [], cm_analysis_findings = [], cm_errors_and_corrections = [], cm_recent_exchanges = [],
     cm_key_entities = \<lparr>ke_files = [], ke_names = [], ke_decisions = []\<rparr>, cm_next_steps = [],
     cm_file_context = [], cm_critical_knowledge = [], cm_open_loops = [], cm_file_states = [], cm_folded_units = []\<rparr>"

definition demo_packet :: evidence_packet where
  "demo_packet = \<lparr>ep_id = ''b:1'', ep_kind = ToolInteraction, ep_provenance = ToolObserved, ep_message_start = 0,
     ep_message_end = 0, ep_depends_on = [], ep_linkage = StructuredIds, ep_tokens = 1, ep_lane = Summarize,
     ep_prompt_content = ''out'', ep_exact_spans = [], ep_descriptor = ''ToolInteraction''\<rparr>"

definition demo_context :: pact_context where
  "demo_context = pact_context_of [] True
     \<lparr>pd_task = \<lparr>pi_text = ''fix it'', pi_source = None\<rparr>, pd_constraints = [], pd_verification_policy = Unspecified,
      pd_governance_hash = []\<rparr> [] [] 9 9 [demo_packet]"

definition demo_units :: "folded_unit list" where
  "demo_units =
     [\<lparr>fu_text = ''the test passes'', fu_kind = ''outcome'', fu_status = ''established'', fu_refs = [''b:1'', ''b:9'']\<rparr>,
      \<lparr>fu_text = ''all is well'', fu_kind = ''outcome'', fu_status = ''established'', fu_refs = [''b:9'']\<rparr>]"

text \<open>The model cited a packet there is not: the source goes, and with it the unit that has no other.\<close>

definition demo_admitted :: "(compression_summary \<times> validation_report option) option" where
  "demo_admitted = admit_summary demo_archive Map.empty True False (Some demo_context) (demo_summary\<lparr>cm_folded_units := demo_units\<rparr>)"

lemma demo_admitted_units:
  "case demo_admitted of Some (s, r) \<Rightarrow> map fu_refs (cm_folded_units s) = [[''b:1'']] | None \<Rightarrow> False"
  by code_simp

theorem admitted_units_supported_witness:
  "case demo_admitted of Some (s, r) \<Rightarrow> list_all (unit_supported demo_context) (cm_folded_units s) \<and> cm_current_task s = ''fix it''
   | None \<Rightarrow> False"
proof -
  obtain s r where a: "demo_admitted = Some (s, r)" using demo_admitted_units by (auto split: option.splits)
  have e: "pc_enabled demo_context" "\<not> is_blank (pi_text (pd_task (pc_pinned demo_context)))"
      "pi_text (pd_task (pc_pinned demo_context)) = ''fix it''"
    by (code_simp+)
  show ?thesis using admitted_units_supported[OF a[unfolded demo_admitted_def] e(1)] e(2,3) by (simp add: a)
qed

end
