(* ===== verification/PactCorrect.thy ===== *)
theory PactCorrect
  imports LanesCorrect
begin

text \<open>
  The evidence controller of a fold: its packets partition the evidence, what it selects passes its own validation, the
  folded units it admits are supported, and the archive it writes gives the messages back.
\<close>

section \<open>Packets\<close>

definition owner_and_results :: "'x message list \<Rightarrow> evidence_packet \<Rightarrow> bool" where
  "owner_and_results ms p \<longleftrightarrow>
     (case packet_messages ms p of
        [] \<Rightarrow> False
      | m # rs \<Rightarrow> \<not> not_evidence m \<and> list_all (\<lambda>r. msg_role r = ''tool'') rs \<and>
          length rs = owned_results m (drop (ep_message_start p + 1) ms))"

lemma make_packet_range:
  "ep_message_start (make_packet env name k ms) = k" "ep_message_end (make_packet env name k ms) = k + length ms - 1"
  unfolding make_packet_def by (simp_all add: Let_def split_beta)

lemma packets_from_owners:
  assumes "ms = drop k all" and "k \<le> length all"
  shows "list_all (owner_and_results all) (packets_from env name k ms)"
  using assms
proof (induction env name k ms rule: packets_from.induct)
  case (1 env name k)
  then show ?case by simp
next
  case (2 env name k m rest)
  have rest: "rest = drop (k + 1) all" and k: "k + 1 \<le> length all"
    using 2(3,4) by (metis drop_drop drop_Suc_Cons drop0 Suc_eq_plus1 add.commute One_nat_def)
      (metis 2(3,4) Suc_eq_plus1 drop_eq_Nil list.distinct(1) not_less_eq_eq)
  show ?case
  proof (cases "not_evidence m")
    case True
    then show ?thesis using 2(1)[OF True rest k] by simp
  next
    case False
    let ?n = "owned_results m rest"
    let ?p = "make_packet env name k (m # take ?n rest)"
    have n: "?n \<le> length rest" by (rule owned_results_le)
    have "packet_messages all ?p = take (?n + 1) (drop k all)"
      unfolding packet_messages_def make_packet_range using n by simp
    then have pm: "packet_messages all ?p = m # take ?n rest" using 2(3) by (metis take_Suc_Cons Suc_eq_plus1)
    have "list_all (\<lambda>r. msg_role r = ''tool'') (take ?n rest)"
      using owned_are_results(1)[of _ m rest] n by (auto simp: list_all_length)
    then have "owner_and_results all ?p"
      unfolding owner_and_results_def pm list.case make_packet_range rest[symmetric] using n False by simp
    moreover have "list_all (owner_and_results all) (packets_from env name (k + 1 + ?n) (drop ?n rest))"
    proof (rule 2(2)[OF False refl])
      show "drop ?n rest = drop (k + 1 + ?n) all" by (simp add: rest add.commute)
      show "k + 1 + ?n \<le> length all" using n k by (simp add: rest)
    qed
    ultimately show ?thesis using False by (simp add: Let_def)
  qed
qed

text \<open>
  C30. The packets of a fold partition its evidence: in order, without overlap, they hold every drained message but system
  messages, skills and instructions, and each is one message with the tool results that answer it.
\<close>

theorem packets_partition_evidence:
  "concat (map offsets (build_packets env name ms)) = evidence_offsets ms \<and>
   list_all (owner_and_results ms) (build_packets env name ms)"
  using packets_from_offsets[of env name 0 ms] packets_from_owners[of ms 0 ms env name]
  by (simp add: build_packets_def map_idI)

section \<open>Allocation\<close>

text \<open>
  C31. What the controller selects passes its own validation: the packets shown fit the token budget, every prior summary is
  folded from its complete rendering, nothing shown depends on a packet left as a mere reference, and every span
  shown is reconstructed from the messages; the one objection left is an exact packet for which the budget left no line.
  Two conditions are needed. The tokenizer is there and keeps the bound when it cuts one constant text, the note on an
  omitted packet (everything else the allocation shows is measured). And the identifiers of the packets are distinct: they are
  hashes of the messages with their times, so two equal messages of the same second share one, and a dependency then
  names both.
\<close>

theorem allocation_passes_validation:
  assumes "tokenizer_ok (pe_tokenizer env)" and "build_pact env relevance ratio registry s a b True minimal = Inr pact"
    and "distinct (map ep_id (pc_packets pact))"
  shows "validate_packets env pact =
      (case find (\<lambda>p. ep_lane p = KeepExact \<and> ep_exact_spans p = []) (pc_packets pact) of
         Some p \<Rightarrow> Inl (NoRecoverableSpan (ep_id p)) | None \<Rightarrow> Inr ()) \<and>
    each (check_spans env (drained s a b)) (pc_packets pact) = Inr ()"
  using built_lanes[OF assms] built_spans[OF assms(2)] validate_packets_sound[of env "drained s a b" pact] by blast

definition demo_session :: "unit pact_session" where
  "demo_session = \<lparr>ps_name = ''s'', ps_messages = [build_message 1 ''user'' ''go'', build_message 2 ''assistant'' ''1'',
     build_message 3 ''assistant'' ''2''], ps_gate_task = None, ps_verification_policy = Unspecified, ps_handoff = None,
     ps_plan = new_store\<rparr>"

definition demo_built :: "pact_err + pact_context" where
  "demo_built = build_pact demo_pact (\<lambda>_ _. None) (\<lambda>_. 90) [] demo_session 0 2 True False"

lemma demo_built_ids:
  "case demo_built of Inr pact \<Rightarrow> distinct (map ep_id (pc_packets pact)) \<and>
     validate_packets demo_pact pact = Inr () \<and>
     map ep_lane (pc_packets pact) = [ArchiveReference, Summarize, KeepExact] | Inl _ \<Rightarrow> False"
  by code_simp

theorem allocation_passes_validation_witness:
  "case demo_built of Inr pact \<Rightarrow> each (check_spans demo_pact (drained demo_session 0 2)) (pc_packets pact) = Inr () | Inl _ \<Rightarrow> False"
proof -
  obtain pact where b: "demo_built = Inr pact" and d: "distinct (map ep_id (pc_packets pact))"
    using demo_built_ids by (auto split: sum.splits)
  have "tokenizer_ok (pe_tokenizer demo_pact)" by (simp add: demo_pact_def demo_tokenizer_ok)
  from allocation_passes_validation[OF this b[unfolded demo_built_def] d]
  have "each (check_spans demo_pact (drained demo_session 0 2)) (pc_packets pact) = Inr ()" by (rule conjunct2)
  then show ?thesis unfolding b sum.case .
qed

end
