(* ===== verification/ArchiveCorrect.thy ===== *)
theory ArchiveCorrect
  imports PactCorrect
begin

text \<open>
  The archive of a fold: what was written for the drained messages is read back, block by block, before anything is drained.
\<close>

section \<open>Lines\<close>

text \<open>What a codec may write in one line.\<close>

definition one_line :: "string \<Rightarrow> bool" where
  "one_line l \<longleftrightarrow> CHR 0x0A \<notin> set l \<and> (l = [] \<or> last l \<noteq> CHR 0x0D)"

lemma lines_from_line: "CHR 0x0A \<notin> set l \<Longrightarrow> lines_from cur (l @ CHR 0x0A # t) = strip_cr (rev cur @ l) # lines_from [] t"
  by (induction l arbitrary: cur) auto

lemma newline_char: "newline = [CHR 0x0A]"
  by code_simp

lemma lines_from_written: "one_line l \<Longrightarrow> lines_from [] (l @ newline @ t) = l # lines_from [] t"
  using lines_from_line[of l "[]" t] by (auto simp: newline_char one_line_def strip_cr_def)

lemma str_lines_written:
  "list_all (\<lambda>x. one_line (f x)) xs \<Longrightarrow> str_lines (concat (map (\<lambda>x. f x @ newline) xs)) = map f xs"
  by (induction xs) (simp_all add: str_lines_def lines_from_written)

section \<open>Paths\<close>

lemma archive_of_index_path: "archive_of_index (dir @ ''/'' @ cid @ index_suffix) = Some (dir @ ''/'' @ cid @ jsonl_suffix)"
proof -
  have e: "dir @ ''/'' @ cid @ index_suffix = (dir @ ''/'' @ cid) @ index_suffix" by simp
  show ?thesis unfolding e archive_of_index_def ends_with_def by (simp only: suffix_appendI[OF suffix_order.refl]) simp
qed

lemma index_path_other: "dir @ ''/'' @ cid @ index_suffix \<noteq> dir @ ''/'' @ cid @ jsonl_suffix"
  by (simp add: index_suffix_def jsonl_suffix_def)

section \<open>What was written\<close>

lemma written_archive:
  assumes "write_archive_with_index_to env dir cid ms ps fs = Inr (bundle, fs')"
  shows "list_all2 (\<lambda>p e. archive_entry env ms p = Inr e) ps (bu_entries bundle)"
    and "fs' (bu_index_path bundle) = Some (concat (map (\<lambda>e. av_encode_entry env e @ newline) (bu_entries bundle)))"
    and "\<exists>path. archive_of_index (bu_index_path bundle) = Some path \<and>
      fs' path = Some (concat (map (\<lambda>m. pe_encode (av_pact env) m @ newline) ms))"
  using assms archive_of_index_path[of dir cid] index_path_other[of dir cid]
  by (auto simp: write_archive_with_index_to_def write_archive_to_def write_file_def rbind_ok ensure_ok map_ok_ok Let_def)

lemma archive_entry_ok:
  "archive_entry env ms p = Inr e \<longleftrightarrow>
     ep_message_start p \<le> ep_message_end p + 1 \<and> ep_message_end p < length ms \<and> ab_id e = ep_id p \<and>
     e = \<lparr>ab_id = ep_id p, ab_kind = ep_kind p, ab_provenance = ep_provenance p,
          ab_dependencies = ep_depends_on p, ab_linkage = ep_linkage p, ab_exact_spans = ep_exact_spans p,
          ab_content_digest = block_digest (av_pact env) (ep_id p) (packet_messages ms p),
          ab_line_start = ep_message_start p + 1, ab_line_end = ep_message_end p + 1,
          ab_descriptor = ep_descriptor p\<rparr>"
  by (auto simp: archive_entry_def rbind_ok ensure_ok)

section \<open>Reading it back\<close>

definition codec_fits :: "'x archive_env \<Rightarrow> 'x message list \<Rightarrow> archive_block_entry list \<Rightarrow> bool" where
  "codec_fits env ms es \<longleftrightarrow>
     list_all (\<lambda>m. one_line (pe_encode (av_pact env) m) \<and> av_decode env (pe_encode (av_pact env) m) = Some m) ms \<and>
     list_all (\<lambda>e. one_line (av_encode_entry env e) \<and> av_decode_entry env (av_encode_entry env e) = Some e) es"

lemma written_line:
  assumes "codec_fits env ms es" and "0 < n" and "n \<le> length ms"
  shows "rbind (archive_line (map (pe_encode (av_pact env)) ms) n) (archive_message env) = Inr (ms ! (n - 1))"
  using assms by (auto simp: archive_line_def archive_message_def rbind_def codec_fits_def list_all_length)

lemma map_ok_total: "(\<And>x. x \<in> set xs \<Longrightarrow> \<exists>y. f x = Inr y) \<Longrightarrow> \<exists>ys. map_ok f xs = Inr ys"
  by (induction xs) (fastforce simp: rbind_def)+

lemma map_ok_all: "(\<And>x. x \<in> set xs \<Longrightarrow> f x = Inr (g x)) \<Longrightarrow> map_ok f xs = Inr (map g xs)"
  by (induction xs) (simp_all add: rbind_def)

lemma take_drop_nths: "b \<le> length ms \<Longrightarrow> map ((!) ms) [a..<b] = take (b - a) (drop a ms)"
  by (rule nth_equalityI) auto

lemma written_entry_checks:
  assumes codec: "codec_fits env ms es" and e: "archive_entry env ms p = Inr e"
  shows "check_entry env (map (pe_encode (av_pact env)) ms) e = Inr ()"
proof -
  note E = e[unfolded archive_entry_ok]
  have lines: "[ab_line_start e..<ab_line_end e + 1] = map Suc [ep_message_start p..<ep_message_end p + 1]"
    using E by (simp only: archive_block_entry.simps map_Suc_upt) simp
  have "map_ok (\<lambda>n. rbind (archive_line (map (pe_encode (av_pact env)) ms) n) (archive_message env))
      [ab_line_start e..<ab_line_end e + 1] = Inr (map (\<lambda>n. ms ! (n - 1)) [ab_line_start e..<ab_line_end e + 1])"
  proof (rule map_ok_all)
    fix n assume "n \<in> set [ab_line_start e..<ab_line_end e + 1]"
    then have "0 < n" "n \<le> length ms" using E unfolding lines by auto
    then show "rbind (archive_line (map (pe_encode (av_pact env)) ms) n) (archive_message env) = Inr (ms ! (n - 1))"
      by (rule written_line[OF codec])
  qed
  moreover have "map (\<lambda>n. ms ! (n - 1)) [ab_line_start e..<ab_line_end e + 1] = packet_messages ms p"
    unfolding lines map_map comp_def diff_Suc_1 packet_messages_def using E take_drop_nths[of "ep_message_end p + 1" ms] by simp
  ultimately show ?thesis using E by (simp add: check_entry_def rbind_def ensure_def)
qed

lemma sort_Suc: "sort (map Suc xs) = map Suc (sort xs)"
proof (rule properties_for_sort)
  show "mset (map Suc (sort xs)) = mset (map Suc xs)" by (metis mset_map mset_sort)
  show "sorted (map Suc (sort xs))" by (simp add: sorted_map)
qed

lemma remdups_adj_Suc: "remdups_adj (map Suc xs) = map Suc (remdups_adj xs)"
  by (induction xs rule: remdups_adj.induct) auto

lemma entry_lines_offsets:
  assumes "list_all2 (\<lambda>p e. archive_entry env ms p = Inr e) ps es"
  shows "remdups_adj (sort (concat (map entry_lines es))) = map Suc (covered_offsets ps)"
proof -
  have "concat (map entry_lines es) = map Suc (concat (map (\<lambda>p. [ep_message_start p..<ep_message_end p + 1]) ps))"
    using assms
  proof (induction rule: list_all2_induct)
    case (Cons p ps e es)
    have "entry_lines e = map Suc [ep_message_start p..<ep_message_end p + 1]"
      using Cons(1) by (simp only: archive_entry_ok entry_lines_def map_Suc_upt) (simp add: archive_block_entry.simps)
    then show ?case using Cons by (simp only: list.map concat.simps map_append)
  qed simp
  then show ?thesis by (simp only: sort_Suc remdups_adj_Suc covered_offsets_def)
qed

lemma covered_within:
  "list_all2 (\<lambda>p e. archive_entry env ms p = Inr e) ps es \<Longrightarrow> i \<in> set (covered_offsets ps) \<Longrightarrow> i < length ms"
  by (fastforce simp: covered_offsets_def archive_entry_ok list_all2_conv_all_nth in_set_conv_nth)

lemma written_ids: "list_all2 (\<lambda>p e. archive_entry env ms p = Inr e) ps es \<Longrightarrow> map ab_id es = map ep_id ps"
  by (induction rule: list_all2_induct) (auto simp: archive_entry_ok)

lemma map_filter_all: "(\<And>x. x \<in> set xs \<Longrightarrow> f (g x) = Some x) \<Longrightarrow> List.map_filter f (map g xs) = xs"
  by (induction xs) (simp_all add: map_filter_simps)

lemma written_reads:
  assumes w: "write_archive_with_index_to env dir cid ms ps fs = Inr (bundle, fs')" and codec: "codec_fits env ms (bu_entries bundle)"
  shows "read_blocks env fs' (bu_index_path bundle) (map ep_id ps) = Inr (map ((!) ms) (covered_offsets ps))"
proof -
  let ?es = "bu_entries bundle"
  note W = written_archive[OF w]
  obtain path where path: "archive_of_index (bu_index_path bundle) = Some path"
      "fs' path = Some (concat (map (\<lambda>m. pe_encode (av_pact env) m @ newline) ms))" using W(3) by blast
  have entries: "index_entries env (concat (map (\<lambda>e. av_encode_entry env e @ newline) ?es)) = ?es"
    using codec unfolding index_entries_def
    by (subst str_lines_written) (auto simp: codec_fits_def list_all_iff intro: map_filter_all)
  have lines: "str_lines (concat (map (\<lambda>m. pe_encode (av_pact env) m @ newline) ms)) = map (pe_encode (av_pact env)) ms"
    using codec by (intro str_lines_written) (auto simp: codec_fits_def list_all_iff)
  have ids: "map ab_id ?es = map ep_id ps" by (rule written_ids[OF W(1)])
  have all: "filter (\<lambda>e. ab_id e \<in> set (map ep_id ps)) ?es = ?es" unfolding ids[symmetric] by simp
  have checks: "each (check_entry env (map (pe_encode (av_pact env)) ms)) ?es = Inr ()"
    unfolding each_ok
  proof
    fix e assume "e \<in> set ?es"
    then obtain p where "archive_entry env ms p = Inr e" using W(1) by (auto simp: list_all2_conv_all_nth in_set_conv_nth)
    then show "check_entry env (map (pe_encode (av_pact env)) ms) e = Inr ()" by (rule written_entry_checks[OF codec])
  qed
  have "map_ok (\<lambda>n. rbind (archive_line (map (pe_encode (av_pact env)) ms) n) (archive_message env))
      (map Suc (covered_offsets ps)) = Inr (map (\<lambda>n. ms ! (n - 1)) (map Suc (covered_offsets ps)))"
    by (rule map_ok_all, rule written_line[OF codec]) (auto dest: covered_within[OF W(1)])
  then show ?thesis
    unfolding read_blocks_def read_file_def W(2) path option.case rbind_def sum.case Let_def entries all ids lines
    by (simp add: checks[unfolded rbind_def] ensure_def entry_lines_offsets[OF W(1)] comp_def)
qed

lemma verify_archive_written:
  assumes w: "write_archive_with_index_to env dir cid ms (pc_packets pact) fs = Inr (bundle, fs')"
    and codec: "codec_fits env ms (bu_entries bundle)" and spans: "each (check_spans (av_pact env) ms) (pc_packets pact) = Inr ()"
  shows "verify_archive env fs' pact bundle ms = Inr ()"
proof -
  note W = written_archive[OF w]
  have "bundle_entry bundle (ep_id p) \<noteq> None" if "p \<in> set (pc_packets pact)" for p
  proof -
    have "ep_id p \<in> set (map ab_id (bu_entries bundle))" unfolding written_ids[OF W(1)] using that by simp
    then show ?thesis by (auto simp: bundle_entry_def find_None_iff)
  qed
  moreover have "length (bu_entries bundle) = length (pc_packets pact)" using list_all2_lengthD[OF W(1)] by simp
  moreover have "each (\<lambda>(i, actual, wanted). ensure (pe_encode (av_pact env) actual = pe_encode (av_pact env) wanted) (RecallDiffers i))
      (enumerate 0 (zip xs xs)) = Inr ()" for xs
    by (auto simp: each_ok ensure_ok in_set_enumerate_eq)
  ultimately show ?thesis using spans covered_within[OF W(1)]
    by (simp add: verify_archive_def Let_def written_reads[OF w codec] rbind_def ensure_def list_all_iff)
qed

lemma evidence_offsets_ascending: "sorted (evidence_offsets ms)" "distinct (evidence_offsets ms)"
  by (simp_all add: evidence_offsets_def sorted_filter[where f = id, simplified])

lemma covered_built:
  assumes "build_pact env relevance ratio registry s a b enabled minimal = Inr pact"
  shows "covered_offsets (pc_packets pact) = evidence_offsets (drained s a b)"
proof -
  let ?bs = "build_packets env (ps_name s) (drained s a b)"
  have "map offsets (pc_packets pact) = map (offsets \<circ> skeleton) (pc_packets pact)"
    by (simp add: offsets_def)
  also have "\<dots> = map offsets (link_dependencies ?bs)"
    unfolding map_map[symmetric] built_packets[OF assms] by (simp add: offsets_def)
  also have "\<dots> = map (offsets \<circ> unlinked) (link_dependencies ?bs)" by (simp add: offsets_def unlinked_def)
  also have "\<dots> = map offsets ?bs"
    unfolding map_map[symmetric] link_dependencies_def link_from_unlinked by (simp add: offsets_def unlinked_def)
  finally have c: "concat (map offsets (pc_packets pact)) = evidence_offsets (drained s a b)"
    using packets_from_offsets[of env "ps_name s" 0 "drained s a b"] by (simp add: build_packets_def map_idI)
  show ?thesis
    using evidence_offsets_ascending[of "drained s a b"] unfolding covered_offsets_def offsets_def[symmetric] c
    by (simp add: sorted_sort_id remdups_adj_distinct)
qed

text \<open>
  C34. What a fold drains can be recalled: once the archive of its messages is written, the check before the drain passes, and
  reading the blocks back gives exactly the evidence among the drained messages, in their order. The hypotheses are that the
  packets are those the controller built, that the writing succeeded, and that the codec of the lines, which is
  \<open>serde_json\<close>, reads back the messages and the entries it wrote, each on one line.
\<close>

theorem archive_recovers_drained:
  assumes "build_pact (av_pact env) relevance ratio registry s a b enabled minimal = Inr pact"
    and "write_archive_with_index_to env dir cid (drained s a b) (pc_packets pact) fs = Inr (bundle, fs')"
    and "codec_fits env (drained s a b) (bu_entries bundle)"
  shows "verify_archive env fs' pact bundle (drained s a b) = Inr () \<and>
    read_blocks env fs' (bu_index_path bundle) (map ep_id (pc_packets pact)) =
      Inr (map ((!) (drained s a b)) (evidence_offsets (drained s a b)))"
  using verify_archive_written[OF assms(2,3) built_spans[OF assms(1)]] written_reads[OF assms(2,3)] covered_built[OF assms(1)]
  by simp

text \<open>Identifiers are hexadecimal: they make lines of their own.\<close>

lemma hex_digit_line: "n < 16 \<Longrightarrow> hex_digit n \<noteq> CHR 0x0A \<and> hex_digit n \<noteq> CHR 0x0D"
proof -
  have "list_all (\<lambda>n. hex_digit n \<noteq> CHR 0x0A \<and> hex_digit n \<noteq> CHR 0x0D) [0..<16]" by code_simp
  then show "n < 16 \<Longrightarrow> hex_digit n \<noteq> CHR 0x0A \<and> hex_digit n \<noteq> CHR 0x0D" by (simp add: list_all_iff)
qed

lemma hex_line: "CHR 0x0A \<notin> set (hex s) \<and> CHR 0x0D \<notin> set (hex s)"
proof -
  have "of_char c div 16 < (16::nat)" "of_char c mod 16 < (16::nat)" for c :: char
    using nat_of_char_less_256[of c] by (simp_all add: less_mult_imp_div_less)
  then have "hex_digit (of_char c div 16) \<noteq> CHR 0x0A \<and> hex_digit (of_char c div 16) \<noteq> CHR 0x0D \<and>
      hex_digit (of_char c mod 16) \<noteq> CHR 0x0A \<and> hex_digit (of_char c mod 16) \<noteq> CHR 0x0D" for c :: char
    using hex_digit_line by blast
  then show ?thesis unfolding hex_def by (induction s) (simp_all, metis)
qed

lemma packet_id_line: "one_line (stable_packet_id env name ms)"
proof -
  have "CHR 0x0A \<notin> set (stable_packet_id env name ms)" "CHR 0x0D \<notin> set (stable_packet_id env name ms)"
    using hex_line by (auto simp: stable_packet_id_def short_hex_def)
  then show ?thesis using last_in_set[of "stable_packet_id env name ms"] by (fastforce simp: one_line_def)
qed

lemma packets_from_ids: "p \<in> set (packets_from env name k ms) \<Longrightarrow> one_line (ep_id p)"
proof (induction env name k ms rule: packets_from.induct)
  case (2 env name k m rest)
  have "one_line (ep_id (make_packet env name k us))" for us
    by (simp add: make_packet_def Let_def split_beta packet_id_line)
  then show ?case using 2 by (auto simp: Let_def split: if_splits)
qed simp

lemma built_ids_line:
  assumes "build_pact env relevance ratio registry s a b enabled minimal = Inr pact" and "p \<in> set (pc_packets pact)"
  shows "one_line (ep_id p)"
  using built_origin[OF assms] packets_from_ids unfolding build_packets_def by metis

lemma packets_from_within:
  "p \<in> set (packets_from env name k ms) \<Longrightarrow> ep_message_start p \<le> ep_message_end p \<and> ep_message_end p < k + length ms"
proof (induction env name k ms rule: packets_from.induct)
  case (2 env name k m rest)
  show ?case
  proof (cases "not_evidence m")
    case True
    then show ?thesis using 2(1)[OF True] 2(3) by simp
  next
    case False
    have n: "owned_results m rest \<le> length rest" by (rule owned_results_le)
    show ?thesis using 2(2)[OF False refl] 2(3) False n by (auto simp: Let_def make_packet_range)
  qed
qed simp

lemma built_within:
  assumes "build_pact env relevance ratio registry s a b enabled minimal = Inr pact" and "p \<in> set (pc_packets pact)"
  shows "ep_message_start p \<le> ep_message_end p \<and> ep_message_end p < length (drained s a b)"
  using built_origin[OF assms] packets_from_within unfolding build_packets_def by (metis add_0)

definition demo_base :: "unit archive_env" where
  "demo_base = \<lparr>av_pact = demo_pact, av_decode = (\<lambda>l. find (\<lambda>m. msg_content m = l) (ps_messages demo_session)),
     av_encode_entry = ab_id, av_decode_entry = (\<lambda>_. None), av_writable = (\<lambda>_. True)\<rparr>"

definition demo_codec :: "pact_context \<Rightarrow> unit archive_env" where
  "demo_codec pact = demo_base\<lparr>av_decode_entry :=
     (\<lambda>l. case map_ok (archive_entry demo_base (drained demo_session 0 2)) (pc_packets pact) of
        Inr es \<Rightarrow> find (\<lambda>e. ab_id e = l) es | Inl _ \<Rightarrow> None)\<rparr>"

lemma demo_codec_simps [simp]:
  "av_pact (demo_codec pact) = demo_pact" "av_encode_entry (demo_codec pact) = ab_id"
  "av_decode (demo_codec pact) l = find (\<lambda>m. msg_content m = l) (ps_messages demo_session)"
  "av_writable (demo_codec pact) path"
  by (simp_all add: demo_codec_def demo_base_def)

lemma demo_codec_entry: "archive_entry (demo_codec pact) = archive_entry demo_base"
  by (intro ext) (simp add: archive_entry_def demo_base_def)

lemma demo_codec_fits:
  assumes es: "map_ok (archive_entry (demo_codec pact) (drained demo_session 0 2)) (pc_packets pact) = Inr es"
    and d: "distinct (map ep_id (pc_packets pact))" and line: "\<And>p. p \<in> set (pc_packets pact) \<Longrightarrow> one_line (ep_id p)"
  shows "codec_fits (demo_codec pact) (drained demo_session 0 2) es"
proof -
  have ids: "map ab_id es = map ep_id (pc_packets pact)" using es by (intro written_ids) (simp add: map_ok_ok)
  have "list_all (\<lambda>m. one_line (msg_content m) \<and> find (\<lambda>m'. msg_content m' = msg_content m) (ps_messages demo_session) = Some m)
      (drained demo_session 0 2)"
    by code_simp
  moreover have "one_line (ab_id e) \<and> find (\<lambda>e'. ab_id e' = ab_id e) es = Some e" if "e \<in> set es" for e
  proof
    have "ab_id e \<in> set (map ep_id (pc_packets pact))" using that unfolding ids[symmetric] by simp
    then show "one_line (ab_id e)" using line by auto
    show "find (\<lambda>e'. ab_id e' = ab_id e) es = Some e" using find_by_id[OF _ that, of ab_id] d ids by simp
  qed
  moreover have "av_decode_entry (demo_codec pact) l = find (\<lambda>e. ab_id e = l) es" for l
    using es unfolding demo_codec_entry by (simp add: demo_codec_def)
  ultimately show ?thesis
    by (simp add: codec_fits_def list_all_iff demo_pact_def)
qed

theorem archive_recovers_drained_witness:
  "case demo_built of
     Inr pact \<Rightarrow>
       (case write_archive_with_index_to (demo_codec pact) ''d'' ''c'' (drained demo_session 0 2) (pc_packets pact) Map.empty of
          Inr (bundle, fs) \<Rightarrow> verify_archive (demo_codec pact) fs pact bundle (drained demo_session 0 2) = Inr ()
        | Inl _ \<Rightarrow> False)
   | Inl _ \<Rightarrow> False"
proof -
  obtain pact where b: "demo_built = Inr pact" and d: "distinct (map ep_id (pc_packets pact))"
    using demo_built_ids by (auto split: sum.splits)
  have p: "av_pact (demo_codec pact) = demo_pact" by simp
  note b' = b[unfolded demo_built_def p[symmetric]]
  have within: "\<exists>e. archive_entry (demo_codec pact) (drained demo_session 0 2) q = Inr e" if "q \<in> set (pc_packets pact)" for q
    using built_within[OF b' that] by (simp add: archive_entry_def ensure_def rbind_def)
  obtain es where es: "map_ok (archive_entry (demo_codec pact) (drained demo_session 0 2)) (pc_packets pact) = Inr es"
    using map_ok_total[of "pc_packets pact" "archive_entry (demo_codec pact) (drained demo_session 0 2)"] within by blast
  obtain arch fs where w: "write_archive_with_index_to (demo_codec pact) ''d'' ''c'' (drained demo_session 0 2) (pc_packets pact) Map.empty =
      Inr (arch, fs)" and be: "bu_entries arch = es"
    using es by (simp add: write_archive_with_index_to_def write_archive_to_def write_file_def rbind_def ensure_def Let_def)
  have codec: "codec_fits (demo_codec pact) (drained demo_session 0 2) (bu_entries arch)"
    unfolding be by (rule demo_codec_fits[OF es]) (use d built_ids_line[OF b'] in auto)
  show ?thesis unfolding b sum.case w prod.case
    using archive_recovers_drained[OF b' w codec] by (rule conjunct1)
qed

end
