(* ===== verification/RepairCorrect.thy ===== *)
theory RepairCorrect
  imports FoldCorrect ArchiveCorrect
begin

text \<open>
  A repaired summary passes the validation whenever its units leave room for the packets it has to name.
\<close>

section \<open>Reading earlier blocks\<close>

text \<open>A block can be read from an index file: its entries are there and every one of them checks out.\<close>

definition readable :: "'x archive_env \<Rightarrow> files \<Rightarrow> string \<Rightarrow> string \<Rightarrow> bool" where
  "readable env fs index_path i \<longleftrightarrow> (\<exists>ms. read_blocks env fs index_path [i] = Inr ms)"

lemma checked_entry_reads:
  assumes "check_entry env lines e = Inr ()" and "n \<in> set (entry_lines e)"
  shows "\<exists>m. rbind (archive_line lines n) (archive_message env) = Inr m"
proof -
  obtain ms where ms: "list_all2 (\<lambda>n m. rbind (archive_line lines n) (archive_message env) = Inr m)
      [ab_line_start e..<ab_line_end e + 1] ms"
    using assms(1) by (auto simp: check_entry_def rbind_ok map_ok_ok)
  obtain k where k: "k < length [ab_line_start e..<ab_line_end e + 1]" "[ab_line_start e..<ab_line_end e + 1] ! k = n"
    using assms(2) unfolding entry_lines_def in_set_conv_nth by blast
  show ?thesis using list_all2_nthD[OF ms k(1)] k(2) by metis
qed

lemma read_blocks_ok:
  "(\<exists>ms. read_blocks env fs ip ids = Inr ms) \<longleftrightarrow>
     (\<exists>content path archive. fs ip = Some content \<and> archive_of_index ip = Some path \<and> fs path = Some archive \<and>
        (\<forall>i\<in>set ids. \<exists>e\<in>set (index_entries env content). ab_id e = i) \<and>
        (\<forall>e\<in>set (index_entries env content). ab_id e \<in> set ids \<longrightarrow> check_entry env (str_lines archive) e = Inr ()))"
  (is "?L \<longleftrightarrow> ?R")
proof
  assume ?L
  then show ?R
    unfolding read_blocks_def Let_def rbind_ok ensure_ok each_ok read_file_def
    by (force split: option.splits)
next
  assume ?R
  then obtain content path archive where fs: "fs ip = Some content" "archive_of_index ip = Some path" "fs path = Some archive"
    and have_ids: "\<forall>i\<in>set ids. \<exists>e\<in>set (index_entries env content). ab_id e = i"
    and checked: "\<forall>e\<in>set (index_entries env content). ab_id e \<in> set ids \<longrightarrow> check_entry env (str_lines archive) e = Inr ()"
    by blast
  define es where "es = filter (\<lambda>e. ab_id e \<in> set ids) (index_entries env content)"
  have ids: "set (map ab_id es) = set ids" using have_ids by (auto simp: es_def)
  have each: "each (check_entry env (str_lines archive)) es = Inr ()" using checked by (simp add: each_ok es_def)
  have "\<exists>ms. map_ok (\<lambda>n. rbind (archive_line (str_lines archive) n) (archive_message env))
      (remdups_adj (sort (concat (map entry_lines es)))) = Inr ms"
    using each by (intro map_ok_total) (auto simp: each_ok dest: checked_entry_reads)
  then obtain ms where "map_ok (\<lambda>n. rbind (archive_line (str_lines archive) n) (archive_message env))
      (remdups_adj (sort (concat (map entry_lines es)))) = Inr ms" ..
  then show ?L
    using fs ids[unfolded es_def] each[unfolded es_def] unfolding read_blocks_def read_file_def Let_def es_def
    by (intro exI[of _ ms]) (simp add: rbind_ok ensure_ok del: list.set_map set_filter)
qed

lemma read_blocks_readable:
  assumes "ids \<noteq> []"
  shows "(\<exists>ms. read_blocks env fs ip ids = Inr ms) \<longleftrightarrow> (\<forall>i\<in>set ids. readable env fs ip i)"
proof
  assume "\<exists>ms. read_blocks env fs ip ids = Inr ms"
  then show "\<forall>i\<in>set ids. readable env fs ip i" unfolding readable_def read_blocks_ok by auto
next
  assume a: "\<forall>i\<in>set ids. readable env fs ip i"
  from assms have "hd ids \<in> set ids" by simp
  with a obtain content path archive where fs: "fs ip = Some content" "archive_of_index ip = Some path" "fs path = Some archive"
    unfolding readable_def read_blocks_ok by blast
  then show "\<exists>ms. read_blocks env fs ip ids = Inr ms" using a unfolding readable_def read_blocks_ok by auto
qed

section \<open>The groups of the index files\<close>

lemma registry_insert_subset: "set (registry_insert k v acc) \<subseteq> insert (k, v) (set acc)"
  by (induction acc) (auto split: if_splits)

lemma registry_insert_keeps:
  "(k', v') \<in> set acc \<Longrightarrow> (k', v') \<in> set (registry_insert k v acc) \<or> (k' = k \<and> map_of acc k = Some v')"
  by (induction acc) (auto split: if_splits)

lemma registry_insert_in: "(k, v) \<in> set (registry_insert k v acc)"
  by (induction acc) (auto split: if_splits)

definition grouped :: "pact_context \<Rightarrow> string set \<Rightarrow> (string \<times> string list) list \<Rightarrow> bool" where
  "grouped pact I acc \<longleftrightarrow>
     (\<forall>(k, js)\<in>set acc. js \<noteq> [] \<and> (\<forall>j\<in>set js. j \<in> I \<and> (\<exists>r. map_of (pc_prior_recall pact) j = Some r \<and> br_index_path r = k))) \<and>
     (\<forall>i\<in>I. \<exists>(k, js)\<in>set acc. i \<in> set js)"

lemma grouped_insert:
  assumes g: "grouped pact I acc" and r: "map_of (pc_prior_recall pact) i = Some r"
  shows "grouped pact (insert i I) (registry_insert (br_index_path r)
    ((case map_of acc (br_index_path r) of Some js \<Rightarrow> js | None \<Rightarrow> []) @ [i]) acc)"
proof -
  define k where "k = br_index_path r"
  define old where "old = (case map_of acc k of Some js \<Rightarrow> js | None \<Rightarrow> [])"
  have old: "j \<in> I \<and> (\<exists>r. map_of (pc_prior_recall pact) j = Some r \<and> br_index_path r = k)" if "j \<in> set old" for j
  proof -
    obtain js where "map_of acc k = Some js" "j \<in> set js" using \<open>j \<in> set old\<close> by (cases "map_of acc k") (simp_all add: old_def)
    then have "(k, js) \<in> set acc" "j \<in> set js" by (auto dest: map_of_SomeD)
    then show ?thesis using g by (fastforce simp: grouped_def)
  qed
  have "(\<exists>(k', js)\<in>set (registry_insert k (old @ [i]) acc). j \<in> set js)" if j: "j \<in> insert i I" for j
  proof (cases "j = i")
    case True
    then show ?thesis using registry_insert_in[of k "old @ [i]" acc] by force
  next
    case False
    then obtain k' js where a: "(k', js) \<in> set acc" "j \<in> set js" using g j by (auto simp: grouped_def)
    from registry_insert_keeps[OF a(1), of k "old @ [i]"]
    show ?thesis
    proof
      assume "(k', js) \<in> set (registry_insert k (old @ [i]) acc)"
      then show ?thesis using a(2) by blast
    next
      assume "k' = k \<and> map_of acc k = Some js"
      then have "j \<in> set (old @ [i])" using a(2) by (simp add: old_def)
      then show ?thesis using registry_insert_in[of k "old @ [i]" acc] by blast
    qed
  qed
  moreover have "js \<noteq> [] \<and> (\<forall>j\<in>set js. j \<in> insert i I \<and> (\<exists>r. map_of (pc_prior_recall pact) j = Some r \<and> br_index_path r = k'))"
    if "(k', js) \<in> set (registry_insert k (old @ [i]) acc)" for k' js
  proof (cases "(k', js) \<in> set acc")
    case True
    then show ?thesis using g by (auto simp: grouped_def)
  next
    case False
    then have "k' = k" "js = old @ [i]" using registry_insert_subset[of k "old @ [i]" acc] that by auto
    then show ?thesis using old r by (auto simp: k_def)
  qed
  ultimately show ?thesis unfolding grouped_def k_def[symmetric] old_def[symmetric] by blast
qed

lemma group_sidecars_grouped:
  "grouped pact I acc \<Longrightarrow> group_sidecars pact is acc = Inr g \<Longrightarrow> grouped pact (I \<union> set is) g"
proof (induction pact "is" acc arbitrary: I rule: group_sidecars.induct)
  case (2 pact i "is" acc)
  then obtain r where r: "map_of (pc_prior_recall pact) i = Some r" by (auto split: option.splits)
  have "group_sidecars pact is (registry_insert (br_index_path r)
      ((case map_of acc (br_index_path r) of Some js \<Rightarrow> js | None \<Rightarrow> []) @ [i]) acc) = Inr g"
    using 2(3) r by simp
  from 2(1)[OF r grouped_insert[OF 2(2) r] this] show ?case by simp
qed simp

lemma group_sidecars_total:
  "(\<And>i. i \<in> set is \<Longrightarrow> map_of (pc_prior_recall pact) i \<noteq> None) \<Longrightarrow> \<exists>g. group_sidecars pact is acc = Inr g"
  by (induction pact "is" acc rule: group_sidecars.induct) (auto split: option.splits)

text \<open>An earlier block stands when it has a coordinate and can be read there.\<close>

definition prior_stands :: "'x archive_env \<Rightarrow> files \<Rightarrow> pact_context \<Rightarrow> string \<Rightarrow> bool" where
  "prior_stands env fs pact i \<longleftrightarrow>
     (\<exists>r. map_of (pc_prior_recall pact) i = Some r \<and> readable env fs (br_index_path r) i)"

lemma verify_prior_ok:
  "verify_prior_references env fs pact is = Inr () \<longleftrightarrow>
     (\<forall>i\<in>set is. packet_of pact i = None \<longrightarrow> prior_stands env fs pact i)"
proof -
  let ?is = "prior_refs pact is"
  have read: "(case read_blocks env fs k js of Inl e \<Rightarrow> Inl (PriorRecovery e) | Inr _ \<Rightarrow> Inr ()) = Inr () \<longleftrightarrow>
      (\<forall>j\<in>set js. readable env fs k j)" if "js \<noteq> []" for k js
    using read_blocks_readable[OF that, of env fs k] by (auto split: sum.splits)
  have groups: "each (\<lambda>(k, js). case read_blocks env fs k js of Inl e \<Rightarrow> Inl (PriorRecovery e) | Inr _ \<Rightarrow> Inr ()) g = Inr ()
      \<longleftrightarrow> (\<forall>i\<in>set ?is. prior_stands env fs pact i)" if g: "group_sidecars pact ?is [] = Inr g" for g
  proof -
    have G: "grouped pact (set ?is) g" using group_sidecars_grouped[of pact "{}" "[]" ?is g] g by (simp add: grouped_def)
    have "each (\<lambda>(k, js). case read_blocks env fs k js of Inl e \<Rightarrow> Inl (PriorRecovery e) | Inr _ \<Rightarrow> Inr ()) g = Inr ()
      \<longleftrightarrow> (\<forall>(k, js)\<in>set g. \<forall>j\<in>set js. readable env fs k j)"
      unfolding each_ok using G read by (fastforce simp: grouped_def)
    also have "\<dots> \<longleftrightarrow> (\<forall>i\<in>set ?is. prior_stands env fs pact i)"
    proof
      assume A: "\<forall>(k, js)\<in>set g. \<forall>j\<in>set js. readable env fs k j"
      show "\<forall>i\<in>set ?is. prior_stands env fs pact i"
      proof
        fix i assume "i \<in> set ?is"
        then obtain k js where "(k, js) \<in> set g" "i \<in> set js" using G unfolding grouped_def by blast
        then show "prior_stands env fs pact i" using A G by (fastforce simp: grouped_def prior_stands_def)
      qed
    next
      assume A: "\<forall>i\<in>set ?is. prior_stands env fs pact i"
      show "\<forall>(k, js)\<in>set g. \<forall>j\<in>set js. readable env fs k j"
      proof clarify
        fix k js j assume "(k, js) \<in> set g" "j \<in> set js"
        then have "j \<in> set ?is" "\<exists>r. map_of (pc_prior_recall pact) j = Some r \<and> br_index_path r = k"
          using G by (auto simp: grouped_def)
        then show "readable env fs k j" using A by (fastforce simp: prior_stands_def)
      qed
    qed
    finally show ?thesis .
  qed
  have "(\<forall>i\<in>set ?is. prior_stands env fs pact i) \<Longrightarrow> \<exists>g. group_sidecars pact ?is [] = Inr g"
    by (rule group_sidecars_total) (auto simp: prior_stands_def)
  then have "verify_prior_references env fs pact is = Inr () \<longleftrightarrow> (\<forall>i\<in>set ?is. prior_stands env fs pact i)"
    using groups unfolding verify_prior_references_def rbind_ok by blast
  moreover have "(\<forall>i\<in>set ?is. prior_stands env fs pact i) \<longleftrightarrow>
      (\<forall>i\<in>set is. packet_of pact i = None \<longrightarrow> prior_stands env fs pact i)"
    by (auto simp: prior_refs_set)
  ultimately show ?thesis by simp
qed

section \<open>Reference units\<close>

lemma strip_front_all: "strip_front ws s = [] \<Longrightarrow> set s \<subseteq> \<Union> (set ` set ws)"
proof (induction ws s rule: strip_front.induct)
  case (1 ws s)
  show ?case
  proof (cases "find (\<lambda>w. w \<noteq> [] \<and> prefix w s) ws")
    case None
    then show ?thesis using 1(2) by (simp add: strip_front.simps[of ws s])
  next
    case (Some w)
    then have w: "prefix w s" "w \<in> set ws" by (auto simp: find_Some_iff)
    then obtain t where s: "s = w @ t" by (auto simp: prefix_def)
    have "strip_front ws s = strip_front ws t" using Some by (subst strip_front.simps) (simp add: s)
    then have "set t \<subseteq> \<Union> (set ` set ws)" using 1(1)[OF Some] 1(2) by (simp add: s)
    then show ?thesis using w(2) s by auto
  qed
qed

lemma letter_no_space: "visible c \<Longrightarrow> w \<in> set white_space \<Longrightarrow> c \<notin> set w"
proof -
  have "list_all (list_all (\<lambda>c. \<not> visible c)) white_space" unfolding white_space_literals by (simp add: visible_def)
  then show "visible c \<Longrightarrow> w \<in> set white_space \<Longrightarrow> c \<notin> set w" by (auto simp: list_all_iff)
qed

lemma letter_not_blank: "visible c \<Longrightarrow> \<not> is_blank (c # s)"
proof
  assume c: "visible c" and b: "is_blank (c # s)"
  have "trim_start (c # s) = c # s"
    unfolding trim_start_def by (rule strip_front_stuck) (auto simp: prefix_def Cons_eq_append_conv dest: letter_no_space[OF c])
  then have "strip_front (map rev white_space) (rev (c # s)) = []" using b by (simp add: is_blank_def trim_def trim_end_def)
  then have "set (rev (c # s)) \<subseteq> \<Union> (set ` set (map rev white_space))" by (rule strip_front_all)
  then show False using letter_no_space[OF c] by auto
qed

lemma letter_take_chars: "visible c \<Longrightarrow> take_chars (Suc n) (c # s) = c # take_chars n s"
  by (simp add: visible_def is_continuation_def)

definition headed :: "evidence_packet \<Rightarrow> bool" where
  "headed p \<longleftrightarrow> (case ep_descriptor p of c # _ \<Rightarrow> visible c | [] \<Rightarrow> False)"

lemma kind_headed: "\<exists>c s. kind_str k = c # s \<and> visible c"
  by (cases k) (simp_all add: kind_str_def visible_def)

lemma make_packet_headed: "headed (make_packet env name start ms)"
  using kind_headed[of "fst (classify_packet env ms)"]
  by (auto simp: headed_def make_packet_def Let_def split_beta)

lemma packets_from_headed: "p \<in> set (packets_from env name start ms) \<Longrightarrow> headed p"
  by (induction env name start ms rule: packets_from.induct) (auto simp: make_packet_headed Let_def split: if_splits)

lemma headed_same: "ep_descriptor p = ep_descriptor q \<Longrightarrow> headed p = headed q"
  by (simp add: headed_def)

lemma built_headed:
  assumes "build_pact env relevance ratio registry s a b enabled minimal = Inr pact" and "p \<in> set (pc_packets pact)"
  shows "headed p"
  using built_origin[OF assms] headed_same packets_from_headed unfolding build_packets_def by metis

lemma reference_text_ok:
  assumes "chunk \<noteq> []" and "list_all headed chunk"
  shows "\<not> is_blank (fu_text (reference_unit chunk)) \<and> count_chars (fu_text (reference_unit chunk)) \<le> 2000"
proof -
  obtain p ps where c: "chunk = p # ps" using assms(1) by (cases chunk) auto
  obtain ch r where d: "ep_descriptor p = ch # r" "visible ch" using assms(2) by (auto simp: c headed_def split: list.splits)
  obtain t where t: "join ''; '' (map ep_descriptor chunk) = ch # t"
    using d by (cases ps) (simp_all add: c)
  have "\<not> is_blank (ch # t)" "\<not> is_blank (take_chars 2000 (ch # t))"
    using letter_not_blank[OF d(2)] letter_take_chars[OF d(2), of 1999] by simp_all
  then show ?thesis using count_take_chars[of 2000 "ch # t"]
    unfolding reference_unit_def Let_def t by simp
qed

lemma cover_packets_chunks:
  "length units + (length packets + 15) div 16 \<le> 40 \<Longrightarrow>
     \<exists>chunks. cover_packets packets units = units @ map reference_unit chunks \<and> concat chunks = packets \<and>
       list_all (\<lambda>c. c \<noteq> [] \<and> length c \<le> 16) chunks \<and> length chunks = (length packets + 15) div 16"
proof (induction packets units rule: cover_packets.induct)
  case (1 packets units)
  show ?case
  proof (cases "packets = []")
    case True
    then show ?thesis by (simp add: cover_packets.simps)
  next
    case False
    have n: "(length packets + 15) div 16 = Suc ((length (drop 16 packets) + 15) div 16)"
      using False by (cases "16 \<le> length packets") (auto simp: div_add_self1 Suc_le_eq le_div_geq)
    have room: "\<not> (packets = [] \<or> 40 \<le> length units)" using 1(2) False n by simp
    obtain chunks where c: "cover_packets (drop 16 packets) (units @ [reference_unit (take 16 packets)]) =
        (units @ [reference_unit (take 16 packets)]) @ map reference_unit chunks" "concat chunks = drop 16 packets"
      "list_all (\<lambda>c. c \<noteq> [] \<and> length c \<le> 16) chunks" "length chunks = (length (drop 16 packets) + 15) div 16"
      using 1(1)[OF room] 1(2) n by (auto simp del: length_drop)
    have "cover_packets packets units = units @ map reference_unit (take 16 packets # chunks)"
      using c(1) room by (simp add: cover_packets.simps[of packets units])
    moreover have "concat (take 16 packets # chunks) = packets" using c(2) by simp
    moreover have "list_all (\<lambda>c. c \<noteq> [] \<and> length c \<le> 16) (take 16 packets # chunks)" using c(3) False by simp
    moreover have "length (take 16 packets # chunks) = (length packets + 15) div 16" using c(4) n by simp
    ultimately show ?thesis by blast
  qed
qed

section \<open>Completion\<close>

text \<open>What a reference unit needs of the packets it names.\<close>

definition nameable :: "pact_context \<Rightarrow> evidence_packet \<Rightarrow> bool" where
  "nameable pact p \<longleftrightarrow>
     headed p \<and> packet_of pact (ep_id p) = Some p \<and> ep_lane p = Summarize \<and> provenance_of pact (ep_id p) \<noteq> None"

lemma reference_unit_valid:
  assumes "chunk \<noteq> []" and "length chunk \<le> 16" and "distinct (map ep_id chunk)" and "list_all (nameable pact) chunk"
  shows "validate_folded_unit pact n (reference_unit chunk) = Inr ()"
proof -
  have h: "list_all headed chunk" using assms(4) by (simp add: list_all_iff nameable_def)
  have u: "fu_refs (reference_unit chunk) = map ep_id chunk" "fu_kind (reference_unit chunk) = ''reference''"
    "fu_status (reference_unit chunk) = ''unknown''"
    by (simp_all add: reference_unit_def Let_def)
  have "check_source pact 0 (reference_unit chunk) i = Inr ()" if "i \<in> set (map ep_id chunk)" for i
    using that assms(4) u(3) by (auto simp: check_source_ok list_all_iff nameable_def completed_status_def)
  then show ?thesis
    unfolding validate_unit_ok u using reference_text_ok[OF assms(1) h] assms(1-3)
    by (simp add: allowed_kinds_def allowed_statuses_def)
qed

lemma kept_units:
  assumes "u \<in> set (filter (unit_stands env fs pact) us)"
  shows "validate_folded_unit pact n u = Inr ()"
    and "i \<in> set (fu_refs u) \<Longrightarrow> packet_of pact i = None \<Longrightarrow> prior_stands env fs pact i"
  using assms by (auto simp: unit_stands_def validate_unit_ok verify_prior_ok)

lemma distinct_map_filter: "distinct (map f xs) \<Longrightarrow> distinct (map f (filter P xs))"
  by (induction xs) auto

lemma registry_insert_known: "map_of (registry_insert k v acc) i \<noteq> None \<longleftrightarrow> i = k \<or> map_of acc i \<noteq> None"
  by (induction acc) (auto split: if_splits)

lemma registry_fold_keeps:
  "map_of acc i \<noteq> None \<Longrightarrow> map_of (foldl (\<lambda>known p. registry_insert (ep_id p) (ep_provenance p) known) acc ps) i \<noteq> None"
  by (induction ps arbitrary: acc) (simp_all add: registry_insert_known del: not_None_eq)

lemma reference_unit_simps:
  "fu_refs (reference_unit ps) = map ep_id ps" "fu_kind (reference_unit ps) = ''reference''"
  by (simp_all add: reference_unit_def Let_def)

text \<open>The units of a repaired summary: those that stand, then reference units that name what is left out.\<close>

definition completes :: "pact_context \<Rightarrow> folded_unit list \<Rightarrow> folded_unit list \<Rightarrow> bool" where
  "completes pact kept units \<longleftrightarrow>
     (\<exists>named. units = kept @ named \<and> concat (map fu_refs named) = map ep_id (uncovered pact kept) \<and>
        list_all (\<lambda>u. fu_kind u = ''reference'' \<and> fu_refs u \<noteq> [] \<and> length (fu_refs u) \<le> 16) named \<and>
        length units \<le> 40)"

lemma repair_units_complete:
  assumes "kept = filter (unit_stands env fs pact) (map (repair_unit pact) (cm_folded_units s))"
    and "length kept + (length (uncovered pact kept) + 15) div 16 \<le> 40"
  shows "completes pact kept (cm_folded_units (repair_summary env fs pact s))"
proof -
  obtain chunks where c: "cover_packets (uncovered pact kept) kept = kept @ map reference_unit chunks"
    "concat chunks = uncovered pact kept" "list_all (\<lambda>c. c \<noteq> [] \<and> length c \<le> 16) chunks"
    "length chunks = (length (uncovered pact kept) + 15) div 16"
    using cover_packets_chunks[OF assms(2)] by blast
  have "cm_folded_units (repair_summary env fs pact s) = kept @ map reference_unit chunks"
    by (simp add: repair_summary_def repair_units_def Let_def assms(1)[symmetric] c(1))
  moreover have "concat (map fu_refs (map reference_unit chunks)) = map ep_id (uncovered pact kept)"
    by (simp add: c(2)[symmetric] map_concat comp_def reference_unit_simps)
  ultimately show ?thesis unfolding completes_def using c(3,4) assms(2)
    by (intro exI[of _ "map reference_unit chunks"]) (auto simp: list_all_iff reference_unit_simps)
qed

lemma repair_validates:
  assumes "validate_packets (av_pact env) pact = Inr ()" and d: "distinct (map ep_id (pc_packets pact))"
    and known: "\<And>p. p \<in> set (pc_packets pact) \<Longrightarrow> headed p \<and> provenance_of pact (ep_id p) \<noteq> None"
    and kept: "kept = filter (unit_stands env fs pact) (map (repair_unit pact) (cm_folded_units s))"
    and room: "length kept + (length (uncovered pact kept) + 15) div 16 \<le> 40"
  shows "\<exists>r. validate_summary env fs pact (repair_summary env fs pact s) = Inr r \<and> vr_attribution_valid r"
proof -
  let ?un = "uncovered pact kept"
  obtain chunks where c: "cover_packets ?un kept = kept @ map reference_unit chunks" "concat chunks = ?un"
    "list_all (\<lambda>c. c \<noteq> [] \<and> length c \<le> 16) chunks" "length chunks = (length ?un + 15) div 16"
    using cover_packets_chunks[OF room] by blast
  have units: "cm_folded_units (repair_summary env fs pact s) = kept @ map reference_unit chunks"
    by (simp add: repair_summary_def repair_units_def Let_def kept[symmetric] c(1))
  have found: "packet_of pact (ep_id p) = Some p" if "p \<in> set (pc_packets pact)" for p
    unfolding packet_of_def by (rule find_by_id[OF d that])
  have un: "p \<in> set (pc_packets pact)" "nameable pact p" if "p \<in> set ?un" for p
    using that found known by (auto simp: uncovered_def nameable_def)
  have ids: "distinct (concat (map (map ep_id) chunks))"
    using d c(2) by (simp add: map_concat[symmetric] uncovered_def distinct_map_filter)
  have valid: "validate_folded_unit pact n u = Inr ()" if "u \<in> set (kept @ map reference_unit chunks)" for n u
  proof -
    consider "u \<in> set kept" | ch where "ch \<in> set chunks" "u = reference_unit ch"
      using \<open>u \<in> set (kept @ map reference_unit chunks)\<close> by auto
    then show ?thesis
    proof cases
      case 1
      then show ?thesis unfolding kept by (rule kept_units(1))
    next
      case (2 ch)
      have "ch \<noteq> []" "length ch \<le> 16" using 2(1) c(3) by (auto simp: list_all_iff)
      moreover have "distinct (map ep_id ch)" using ids 2(1) by (auto simp: distinct_concat_iff)
      moreover have "list_all (nameable pact) ch" unfolding list_all_iff
      proof
        fix p assume "p \<in> set ch"
        then have "p \<in> set (concat chunks)" using 2(1) by auto
        then show "nameable pact p" unfolding c(2) by (rule un(2))
      qed
      ultimately show ?thesis unfolding 2(2) by (rule reference_unit_valid)
    qed
  qed
  have named: "set (concat (map fu_refs (map reference_unit chunks))) = ep_id ` set ?un"
    unfolding c(2)[symmetric] by (auto simp: reference_unit_def Let_def)
  have prior: "verify_prior_references env fs pact (concat (map fu_refs (kept @ map reference_unit chunks))) = Inr ()"
    unfolding verify_prior_ok
  proof (intro ballI impI)
    fix i assume i: "i \<in> set (concat (map fu_refs (kept @ map reference_unit chunks)))" "packet_of pact i = None"
    then have "i \<notin> ep_id ` set ?un" using un(1) found by auto
    then obtain u where "u \<in> set kept" "i \<in> set (fu_refs u)" using i(1) named by auto
    then show "prior_stands env fs pact i" using kept_units(2) i(2) unfolding kept by blast
  qed
  have cover: "ep_id p \<in> set (concat (map fu_refs (kept @ map reference_unit chunks)))"
    if "p \<in> set (pc_packets pact)" "ep_lane p = Summarize" for p
  proof (cases "ep_id p \<in> set (concat (map fu_refs kept))")
    case False
    then have "ep_id p \<in> ep_id ` set ?un" using that by (simp add: uncovered_def)
    then show ?thesis using named by simp
  qed simp
  have "\<exists>r. validate_summary env fs pact (repair_summary env fs pact s) = Inr r"
    unfolding validate_summary_ok units
  proof (intro conjI allI impI ballI)
    show "validate_folded_unit pact n ((kept @ map reference_unit chunks) ! n) = Inr ()"
      if "n < length (kept @ map reference_unit chunks)" for n
      by (rule valid, rule nth_mem, rule that)
  qed (use assms(1) prior cover room c(4) in \<open>simp_all del: set_concat map_append\<close>)
  then show ?thesis using validated_attribution by blast
qed

lemma built_known:
  assumes "build_pact env relevance ratio registry s a b enabled minimal = Inr pact" and "p \<in> set (pc_packets pact)"
  shows "provenance_of pact (ep_id p) \<noteq> None"
proof -
  have "p \<in> set ps \<Longrightarrow> map_of (foldl (\<lambda>known p. registry_insert (ep_id p) (ep_provenance p) known) acc ps) (ep_id p) \<noteq> None"
    for acc and ps :: "evidence_packet list"
  proof (induction ps arbitrary: acc)
    case (Cons q ps)
    show ?case
    proof (cases "p = q")
      case True
      have "map_of (registry_insert (ep_id p) (ep_provenance p) acc) (ep_id p) \<noteq> None" unfolding registry_insert_known by blast
      then show ?thesis unfolding True foldl_Cons by (rule registry_fold_keeps)
    next
      case False
      then show ?thesis using Cons by simp
    qed
  qed simp
  then show ?thesis using assms by (auto simp: provenance_of_def build_pact_def Let_def pact_context_of_def split: if_splits)
qed

text \<open>
  C33. The repair completes what the model wrote, whatever that was. The units that stand after their own repair are kept, all
  and in order, and after them every packet the summary must name and they leave out is named in reference units of at most
  sixteen, forty units in all; the validator accepts the result, with its attribution, unless the allocation left an exact
  packet without a line, which is then the error. The conditions: there is room for the reference units among the forty,
  and those of the allocation, that is distinct identifiers of the packets and a tokenizer that keeps the bound on the note
  on an omitted packet.
\<close>

theorem repair_completes:
  assumes "build_pact (av_pact env) relevance ratio registry s a b True minimal = Inr pact"
    and "tokenizer_ok (pe_tokenizer (av_pact env))" and "distinct (map ep_id (pc_packets pact))"
    and "kept = filter (unit_stands env fs pact) (map (repair_unit pact) (cm_folded_units sm))"
    and "length kept + (length (uncovered pact kept) + 15) div 16 \<le> 40"
  shows "completes pact kept (cm_folded_units (repair_summary env fs pact sm)) \<and>
    (case find (\<lambda>p. ep_lane p = KeepExact \<and> ep_exact_spans p = []) (pc_packets pact) of
       None \<Rightarrow> \<exists>r. validate_summary env fs pact (repair_summary env fs pact sm) = Inr r \<and> vr_attribution_valid r
     | Some p \<Rightarrow> validate_summary env fs pact (repair_summary env fs pact sm) = Inl (NoRecoverableSpan (ep_id p)))"
proof -
  have c: "completes pact kept (cm_folded_units (repair_summary env fs pact sm))" by (rule repair_units_complete[OF assms(4,5)])
  note v = validate_packets_sound[OF conjunct1 conjunct2, OF built_lanes built_lanes, OF assms(2,1,3) assms(2,1,3)]
  show ?thesis
  proof (cases "find (\<lambda>p. ep_lane p = KeepExact \<and> ep_exact_spans p = []) (pc_packets pact)")
    case None
    with v have "validate_packets (av_pact env) pact = Inr ()" by simp
    from repair_validates[OF this assms(3) _ assms(4,5)] built_headed[OF assms(1)] built_known[OF assms(1)] c None
    show ?thesis by simp
  next
    case (Some p)
    with v c show ?thesis by (auto simp: validate_summary_def Let_def rbind_def ensure_def completes_def)
  qed
qed

theorem repair_completes_witness:
  "case demo_built of
     Inr pact \<Rightarrow> \<exists>r. validate_summary demo_archive Map.empty pact (repair_summary demo_archive Map.empty pact demo_summary) = Inr r \<and>
       vr_attribution_valid r
   | Inl _ \<Rightarrow> False"
proof -
  obtain pact where b: "demo_built = Inr pact" and d: "distinct (map ep_id (pc_packets pact))"
    and v: "validate_packets demo_pact pact = Inr ()" and n: "length (pc_packets pact) = 3"
    using demo_built_ids by (auto split: sum.splits dest!: arg_cong[where f = length])
  have p: "av_pact demo_archive = demo_pact" by (simp add: demo_archive_def)
  have tk: "tokenizer_ok (pe_tokenizer (av_pact demo_archive))" by (simp add: p demo_pact_def demo_tokenizer_ok)
  have "length (uncovered pact kept) \<le> 3" for kept unfolding uncovered_def n[symmetric] by (rule length_filter_le)
  from this[of "[]"] have room: "length [] + (length (uncovered pact []) + 15) div 16 \<le> 40" by (simp add: div_le_mono[of _ 18 16, simplified])
  have kept: "[] = filter (unit_stands demo_archive Map.empty pact) (map (repair_unit pact) (cm_folded_units demo_summary))"
    by (simp add: demo_summary_def)
  have "find (\<lambda>p. ep_lane p = KeepExact \<and> ep_exact_spans p = []) (pc_packets pact) = None"
    using v by (auto simp: validate_packets_def Let_def rbind_def split: option.splits sum.splits)
  then show ?thesis unfolding b sum.case
    using repair_completes[where sm = demo_summary, OF b[unfolded demo_built_def p[symmetric]] tk d kept room] by simp
qed

end
