(* ===== verification/CapAuto.thy ===== *)
theory CapAuto
  imports Capability
begin

text \<open>
  The capability tool and the activation without a tool call (\<open>src/mcp/runtime/capability.rs\<close>), with the reading of
  the user's words it shares with skills (\<open>src/mcp/runtime/skill_auto.rs\<close>). Vectors and their cosine are the
  embedding model's; scores are an ordered type, so a score is never \<open>NaN\<close>.
\<close>

section \<open>The words of the user\<close>

text \<open>\<open>alnum\<close> decides \<open>char::is_alphanumeric\<close> on the bytes of one character.\<close>

lemma take_chars_nonempty: "s \<noteq> [] \<Longrightarrow> take_chars (Suc 0) s \<noteq> []"
  by (cases s) auto

function tag_name :: "(string \<Rightarrow> bool) \<Rightarrow> string \<Rightarrow> string" where
  "tag_name alnum s =
     (let c = take_chars 1 s
      in if s = [] \<or> \<not> (alnum c \<or> c = ''-'' \<or> c = ''_'') then [] else c @ tag_name alnum (drop (length c) s))"
  by pat_completeness auto
termination
  by (relation "measure (\<lambda>(_, s). length s)") (auto simp: take_chars_nonempty diff_less_mono2)

declare tag_name.simps [simp del]

text \<open>What is left after the blocks \<open><tag>...</tag>\<close> are dropped; the fuel is the length of the text.\<close>

fun strip_xml_from :: "(string \<Rightarrow> bool) \<Rightarrow> nat \<Rightarrow> string \<Rightarrow> string" where
  "strip_xml_from alnum 0 rest = rest"
| "strip_xml_from alnum (Suc n) rest =
     (case find_str ''<'' rest of
        None \<Rightarrow> rest
      | Some i \<Rightarrow>
          let tag = tag_name alnum (drop (i + 1) rest); close = ''</'' @ tag @ ''>''
          in if tag = [] then take (i + 1) rest @ strip_xml_from alnum n (drop (i + 1) rest)
             else case find_str close rest of
               Some j \<Rightarrow> take i rest @ strip_xml_from alnum n (drop (j + length close) rest)
             | None \<Rightarrow> take (i + 1) rest @ strip_xml_from alnum n (drop (i + 1) rest))"

definition strip_xml_blocks :: "(string \<Rightarrow> bool) \<Rightarrow> string \<Rightarrow> string" where
  "strip_xml_blocks alnum s = strip_xml_from alnum (length s) s"

definition MIN_INTENT_NON_WS_CHARS :: nat where "MIN_INTENT_NON_WS_CHARS = 8"

definition intent_has_enough_signal :: "string \<Rightarrow> bool" where
  "intent_has_enough_signal s \<longleftrightarrow> MIN_INTENT_NON_WS_CHARS \<le> count_chars (concat (split_whitespace s))"

section \<open>Scores\<close>

record ('f, 'v) score_env =
  so_zero :: 'f
  so_add :: "'f \<Rightarrow> 'f \<Rightarrow> 'f"
  so_sub :: "'f \<Rightarrow> 'f \<Rightarrow> 'f"
  so_div :: "'f \<Rightarrow> nat \<Rightarrow> 'f"
  so_threshold :: 'f
  so_margin :: 'f
  so_floor :: 'f
  so_show :: "'f \<Rightarrow> string"
  so_cosine :: "'v \<Rightarrow> 'v \<Rightarrow> 'f"
  so_ready :: bool
  so_embed :: "string \<Rightarrow> string + 'v"
  so_embed_many :: "string list \<Rightarrow> string + 'v list"
  so_alnum :: "string \<Rightarrow> bool"

definition AUTO_ACTIVATE_TOP_K :: nat where "AUTO_ACTIVATE_TOP_K = 3"

text \<open>A stable sort in descending order.\<close>

fun place :: "('a \<Rightarrow> 'f::linorder) \<Rightarrow> 'a \<Rightarrow> 'a list \<Rightarrow> 'a list" where
  "place key x [] = [x]"
| "place key x (y # ys) = (if key y \<le> key x then x # y # ys else y # place key x ys)"

definition sort_desc :: "('a \<Rightarrow> 'f::linorder) \<Rightarrow> 'a list \<Rightarrow> 'a list" where
  "sort_desc key xs = foldr (place key) xs []"

definition select_with_margin ::
  "('f, 'v) score_env \<Rightarrow> ('f::linorder \<times> 'a) list \<Rightarrow> 'f \<Rightarrow> 'f \<Rightarrow> ('f \<times> 'a) option" where
  "select_with_margin so scored threshold margin =
     (case sort_desc fst scored of
        [] \<Rightarrow> None
      | best # rest \<Rightarrow>
          if fst best < threshold then None
          else let second = (case rest of [] \<Rightarrow> so_zero so | y # _ \<Rightarrow> fst y)
               in if so_sub so (fst best) second < margin then None else Some best)"

definition score_capability :: "('f::linorder, 'v) score_env \<Rightarrow> 'v \<Rightarrow> 'v list \<Rightarrow> 'f" where
  "score_capability so intent triggers =
     (if triggers = [] then so_zero so
      else let best = take AUTO_ACTIVATE_TOP_K (sort_desc id (map (so_cosine so intent) triggers))
           in so_div so (foldl (so_add so) (so_zero so) best) (length best))"

fun score_from ::
  "('f::linorder, 'v) score_env \<Rightarrow> 'v \<Rightarrow> resolved_capability list \<Rightarrow> 'v list \<Rightarrow> ('f \<times> resolved_capability) list" where
  "score_from so intent [] vs = []"
| "score_from so intent (c # cs) vs =
     (let n = length (rc_triggers c)
      in (score_capability so intent (take n vs), c) # score_from so intent cs (drop n vs))"

section \<open>Activation from the user's message\<close>

definition activation_candidates :: "cap_env \<Rightarrow> cap_ctx \<Rightarrow> resolved_capability list \<Rightarrow> resolved_capability list" where
  "activation_candidates env ctx caps =
     filter (\<lambda>c. \<not> is_active (rc_name c) ctx \<and> missing_env env (rc_required_env_keys c) = []) (filter_caps_by_domain env caps)"

definition scored_candidates ::
  "('f::linorder, 'v) score_env \<Rightarrow> string \<Rightarrow> resolved_capability list \<Rightarrow> ('f \<times> resolved_capability) list option" where
  "scored_candidates so intent caps =
     (let flat = concat (map rc_triggers caps)
      in case so_embed so intent of
           Inl _ \<Rightarrow> None
         | Inr iv \<Rightarrow> if flat = [] then None
             else case so_embed_many so flat of Inl _ \<Rightarrow> None | Inr vs \<Rightarrow> Some (score_from so iv caps vs))"

definition chosen_capability ::
  "cap_env \<Rightarrow> ('f::linorder, 'v) score_env \<Rightarrow> string \<Rightarrow> cap_ctx \<Rightarrow> ('f \<times> resolved_capability) option" where
  "chosen_capability env so intent ctx =
     (if is_system_managed_user_content intent then None
      else let intent = strip_xml_blocks (so_alnum so) intent
      in if \<not> intent_has_enough_signal intent \<or> \<not> so_ready so then None
      else case ce_all env of
        Inl _ \<Rightarrow> None
      | Inr caps \<Rightarrow>
          let inactive = activation_candidates env ctx caps
          in if inactive = [] then None
             else case scored_candidates so intent inactive of
               None \<Rightarrow> None
             | Some scored \<Rightarrow> select_with_margin so scored (so_threshold so) (so_margin so))"

definition auto_activate_for_intent ::
  "cap_env \<Rightarrow> ('f::linorder, 'v) score_env \<Rightarrow> string \<Rightarrow> cap_ctx \<Rightarrow> string list \<times> cap_ctx" where
  "auto_activate_for_intent env so intent ctx =
     (case chosen_capability env so intent ctx of
        None \<Rightarrow> ([], ctx)
      | Some (_, c) \<Rightarrow>
          (case activate_capability_inline env (rc_name c) ctx of
             (Inr _, ctx) \<Rightarrow> ([rc_name c], ctx)
           | (Inl _, ctx) \<Rightarrow> ([], ctx)))"

definition auto_activate_capabilities ::
  "cap_env \<Rightarrow> ('f::linorder, 'v) score_env \<Rightarrow> 'x message list \<Rightarrow> cap_ctx \<Rightarrow> cap_ctx" where
  "auto_activate_capabilities env so msgs ctx =
     (if msgs \<noteq> [] \<and> is_real_user_task_message (List.last msgs)
      then snd (auto_activate_for_intent env so (msg_content (List.last msgs)) ctx) else ctx)"

section \<open>Activation from the environment\<close>

fun split_on :: "char \<Rightarrow> string \<Rightarrow> string list" where
  "split_on c [] = [[]]"
| "split_on c (x # xs) = (if x = c then [] # split_on c xs else case split_on c xs of [] \<Rightarrow> [[x]] | p # ps \<Rightarrow> (x # p) # ps)"

definition split_commas :: "string \<Rightarrow> string list" where
  "split_commas s = filter (\<lambda>n. n \<noteq> []) (map trim (split_on CHR '','' s))"

fun load_names :: "cap_env \<Rightarrow> string list \<Rightarrow> cap_ctx \<Rightarrow> (string \<times> bool) list \<times> cap_ctx" where
  "load_names env [] ctx = ([], ctx)"
| "load_names env (n # ns) ctx =
     (let (ok, ctx) = (if is_active n ctx then (True, ctx)
                       else case enable_named env n ctx of (Inl _, ctx) \<Rightarrow> (False, ctx) | (Inr _, ctx) \<Rightarrow> (True, ctx));
          (rest, ctx) = load_names env ns ctx
      in ((n, ok) # rest, ctx))"

definition load_env_capabilities :: "cap_env \<Rightarrow> cap_ctx \<Rightarrow> (string \<times> bool) list \<times> cap_ctx" where
  "load_env_capabilities env ctx =
     (case ce_var env ''OCTOMIND_CAPABILITIES'' of
        Some v \<Rightarrow> if trim v = [] then ([], ctx) else load_names env (split_commas v) ctx
      | None \<Rightarrow> ([], ctx))"

section \<open>The tool\<close>

definition triggers_preview :: "string list \<Rightarrow> string" where
  "triggers_preview ts =
     join '', '' (map (\<lambda>t. CHR 0x22 # t @ [CHR 0x22]) (take 3 ts)) @ (if 3 < length ts then '', '' @ ellipsis else [])"

definition list_line :: "cap_env \<Rightarrow> cap_ctx \<Rightarrow> resolved_capability \<Rightarrow> string" where
  "list_line env ctx c =
     (let missing = missing_env env (rc_required_env_keys c)
      in ''- '' @ (if is_active (rc_name c) ctx then ''[active] '' else if missing \<noteq> [] then ''[missing env] '' else [])
         @ rc_name c @ '' '' @ long_dash @ '' '' @ triggers_preview (rc_triggers c)
         @ (if missing \<noteq> [] then '' (missing env: '' @ join '', '' missing @ '')'' else []) @ newline)"

definition enable_hint :: string where
  "enable_hint = newline @ ''Use capability(action='' @ [CHR 0x22] @ ''enable'' @ [CHR 0x22] @ '', name='' @ [CHR 0x22] @ ''<name>''
     @ [CHR 0x22] @ '') to activate.''"

definition handle_list :: "cap_env \<Rightarrow> cap_ctx \<Rightarrow> (cap_err + string) \<times> cap_ctx" where
  "handle_list env ctx =
     (case ce_all env of
        Inl e \<Rightarrow> (Inl (CapEnumerate e), ctx)
      | Inr caps \<Rightarrow>
          let caps = filter_caps_by_domain env caps
          in (Inr (if caps = [] then ''No capabilities installed in any tap.''
                   else ''Installed capabilities ('' @ show_nat (length caps) @ ''):'' @ newline
                        @ concat (map (list_line env ctx) caps) @ enable_hint), ctx))"

definition score_caps_by_triggers ::
  "('f::linorder, 'v) score_env \<Rightarrow> string \<Rightarrow> resolved_capability list \<Rightarrow> string + ('f \<times> resolved_capability) list" where
  "score_caps_by_triggers so intent caps =
     rbind (so_embed so intent) (\<lambda>iv. rbind (so_embed_many so (concat (map rc_triggers caps))) (\<lambda>vs.
       Inr (sort_desc fst (filter (\<lambda>(s, _). so_floor so < s) (score_from so iv caps vs)))))"

definition handle_discover ::
  "cap_env \<Rightarrow> ('f::linorder, 'v) score_env \<Rightarrow> json \<Rightarrow> cap_ctx \<Rightarrow> (cap_err + string) \<times> cap_ctx" where
  "handle_discover env so ps ctx =
     (case filled_of ''intent'' ps of
        None \<Rightarrow> (Inl (CapMissing ''intent''), ctx)
      | Some intent \<Rightarrow> (case ce_all env of
          Inl e \<Rightarrow> (Inl (CapEnumerate e), ctx)
        | Inr caps \<Rightarrow>
            let caps = filter_caps_by_domain env caps
            in if caps = [] then (Inr ''No capabilities installed in any tap.'', ctx)
               else case score_caps_by_triggers so intent caps of
                 Inl e \<Rightarrow> (Inl (CapEmbedding e), ctx)
               | Inr scored \<Rightarrow>
                   let best = take 5 scored
                   in (Inr (if best = []
                            then ''No capabilities matched intent '' @ quoted intent @ ''. Try `capability list` to see all installed capabilities.''
                            else ''Capabilities matching '' @ quoted intent @ '':'' @ newline
                              @ concat (map (\<lambda>(s, c). ''- '' @ (if is_active (rc_name c) ctx then ''[active] '' else []) @ rc_name c
                                  @ '' (score '' @ so_show so s @ '') '' @ long_dash @ '' '' @ triggers_preview (rc_triggers c) @ newline) best)
                              @ enable_hint), ctx)))"

definition execute_capability_command ::
  "cap_env \<Rightarrow> ('f::linorder, 'v) score_env \<Rightarrow> json \<Rightarrow> cap_ctx \<Rightarrow> (cap_err + string) \<times> cap_ctx" where
  "execute_capability_command env so ps ctx =
     (case filled_of ''action'' ps of
        None \<Rightarrow> (Inl (CapMissing ''action''), ctx)
      | Some a \<Rightarrow>
          if a = ''list'' then handle_list env ctx
          else if a = ''enable'' then handle_enable env ps ctx
          else if a = ''disable'' then handle_disable env ps ctx
          else if a = ''discover'' then handle_discover env so ps ctx
          else (Inl (CapUnknownAction a), ctx))"

end
