(* ===== verification/CapCorrect.thy ===== *)
theory CapCorrect
  imports CapAuto "HOL-Library.Multiset"
begin

text \<open>
  The run-time capabilities over every sequence of activations, deactivations, evictions and tool calls: at most
  four are active, the servers they brought stay enabled until no active capability uses them, a deactivation
  succeeds, a failed activation leaves the capability inactive, and a tool of the role stays with the server of the
  role as long as no other server brings a tool of its name.
\<close>

section \<open>Servers that run\<close>

definition runs :: "string \<Rightarrow> mcp_world \<Rightarrow> bool" where
  "runs srv w \<longleftrightarrow> is_dynamic srv w \<and> server_enabled srv (servers_of w)"

text \<open>What the registry has to know of a server for it to be disabled.\<close>

definition present :: "string \<Rightarrow> mcp_world \<Rightarrow> bool" where
  "present srv w \<longleftrightarrow>
     (if mw_session w then map_of (ds_enabled (mw_servers w)) srv \<noteq> None else registered srv (mw_manager w))"

lemma runs_present: "runs srv w \<Longrightarrow> present srv w"
  by (auto simp: runs_def present_def server_enabled_def is_dynamic_def servers_of_def split: if_splits)

lemma world_frame [simp]:
  "runs srv (strip_tools ts w) = runs srv w" "runs srv (clear_function_cache_for_server n w) = runs srv w"
  "present srv (strip_tools ts w) = present srv w" "present srv (clear_function_cache_for_server n w) = present srv w"
  "runs srv (w\<lparr>mw_tools := tm\<rparr>) = runs srv w"
  "is_dynamic srv (w\<lparr>mw_tools := tm\<rparr>) = is_dynamic srv w"
  by (simp_all add: runs_def present_def is_dynamic_def servers_of_def strip_tools_def clear_function_cache_for_server_def)

lemmas registry_ops =
  register_dynamic_server_for_session_def enable_dynamic_server_for_session_def disable_dynamic_server_for_session_def
  registered_def server_enabled_def is_dynamic_def servers_of_def set_servers_def update_conv' delete_conv'

lemma disable_keeps_runs:
  assumes "disable_server_tools config n ts kill w = Inr w'" and "runs srv w" and "kill \<longrightarrow> srv \<noteq> n"
  shows "runs srv w'"
proof (cases kill)
  case False
  then show ?thesis using assms by (auto simp: disable_server_tools_def)
next
  case True
  then have "find_server n config = Some s \<Longrightarrow> sc_name s \<noteq> srv" for s using assms(3) find_server_Some by blast
  then show ?thesis using assms True
    by (auto simp: disable_server_tools_def runs_def registry_ops Let_def strip_tools_def
        clear_function_cache_for_server_def split: if_splits option.splits)
qed

lemma disable_keeps_present:
  assumes "disable_server_tools config n ts kill w = Inr w'" and "present srv w"
  shows "present srv w'"
  using assms
  by (auto simp: disable_server_tools_def present_def registry_ops Let_def strip_tools_def
      clear_function_cache_for_server_def split: if_splits option.splits)

lemma disable_succeeds:
  "kill \<longrightarrow> present n w \<Longrightarrow> \<exists>w'. disable_server_tools config n ts kill w = Inr w'"
  by (auto simp: disable_server_tools_def present_def disable_dynamic_server_for_session_def Let_def split: if_splits)

definition killed :: "disable_plan \<Rightarrow> string set" where
  "killed plan = {srv. \<exists>ts. (srv, ts, True) \<in> set plan}"

lemma killed_simps [simp]:
  "killed [] = {}" "killed ((srv, ts, kill) # plan) = (if kill then insert srv (killed plan) else killed plan)"
  by (auto simp: killed_def)

lemma run_plan_logged_keeps:
  "runs srv w \<Longrightarrow> srv \<notin> killed plan \<Longrightarrow> runs srv (run_plan_logged config plan w)"
proof (induction config plan w rule: run_plan_logged.induct)
  case (2 config n ts kill rest w)
  then have "runs srv (case disable_server_tools config n ts kill w of Inr w' \<Rightarrow> w' | Inl _ \<Rightarrow> w)"
    by (auto split: sum.split if_splits intro: disable_keeps_runs)
  with 2 show ?case by (simp split: if_splits)
qed simp

lemma run_plan_succeeds:
  "(\<And>srv. srv \<in> killed plan \<Longrightarrow> present srv w) \<Longrightarrow>
   \<exists>w'. run_plan config plan w = (None, w') \<and> (\<forall>srv. runs srv w \<and> srv \<notin> killed plan \<longrightarrow> runs srv w')"
proof (induction config plan w rule: run_plan.induct)
  case (2 config n ts kill rest w)
  from 2(2) have "kill \<longrightarrow> present n w" by simp
  then obtain w1 where w1: "disable_server_tools config n ts kill w = Inr w1" using disable_succeeds by blast
  then have "srv \<in> killed rest \<Longrightarrow> present srv w1" for srv
    using 2(2) [of srv] disable_keeps_present [OF w1] by (simp split: if_splits)
  from 2(1) [OF w1 this] obtain w' where "run_plan config rest w1 = (None, w')"
    and "\<forall>srv. runs srv w1 \<and> srv \<notin> killed rest \<longrightarrow> runs srv w'" by blast
  then show ?case using w1 disable_keeps_runs [OF w1] by (auto split: if_splits)
qed simp

section \<open>Activation\<close>

lemma register_keeps_runs:
  assumes "register_server s w = Inr w'" and "\<not> is_dynamic (sc_name s) w"
  shows "runs srv w \<Longrightarrow> runs srv w'" and "is_dynamic (sc_name s) w'"
  using assms
  by (auto simp: register_server_def runs_def registry_ops split: if_splits server_config.splits)

lemma enable_server_runs:
  assumes "enable_server env n flt w = Inr (fs, w')"
  shows "runs n w'" and "runs srv w \<Longrightarrow> runs srv w'"
  using assms
  by (auto simp: enable_server_def runs_def registry_ops Let_def split: option.splits sum.splits if_splits)

lemma activate_dynamic_keeps:
  assumes "activate_dynamic env cap s flt w = (res, w')"
  shows "runs srv w \<Longrightarrow> runs srv w'" and "res = Inr names \<Longrightarrow> runs (sc_name s) w'"
  using assms register_keeps_runs [of s w] enable_server_runs
  by (auto simp: activate_dynamic_def split: if_splits sum.splits prod.splits)

lemma extend_static_frame [simp]: "runs srv (extend_static s ns w) = runs srv w"
  by (simp add: extend_static_def)

lemma activate_servers_keeps:
  assumes "activate_servers env cap allowed ss groups extra w = (res, w')"
    and "runs srv w"
  shows "runs srv w'"
  using assms
proof (induction env cap allowed ss groups extra w rule: activate_servers.induct)
  case (2 env cap allowed s ss groups extra w)
  then show ?case
    by (auto simp: Let_def split: option.splits prod.splits sum.splits dest: activate_dynamic_keeps(1))
qed simp

lemma activate_servers_groups:
  assumes "activate_servers env cap allowed ss groups extra w = (Inr (groups', extra'), w')"
  shows "map fst groups' = map fst groups @ map sc_name ss"
  using assms
proof (induction env cap allowed ss groups extra w rule: activate_servers.induct)
  case (2 env cap allowed s ss groups extra w)
  then show ?case by (auto simp: Let_def split: option.splits prod.splits sum.splits)
qed simp

text \<open>The servers of the groups that the role does not own run.\<close>

definition owned :: "server_config list \<Rightarrow> string set \<Rightarrow> mcp_world \<Rightarrow> bool" where
  "owned config srvs w \<longleftrightarrow> (\<forall>srv \<in> srvs. find_server srv config = None \<longrightarrow> runs srv w)"

lemma activate_servers_owned:
  assumes "activate_servers env cap allowed ss groups extra w = (Inr (groups', extra'), w')"
    and "owned (ce_config env) (fst ` set groups) w"
  shows "owned (ce_config env) (fst ` set groups') w'"
  using assms
proof (induction env cap allowed ss groups extra w rule: activate_servers.induct)
  case (2 env cap allowed s ss groups extra w)
  show ?case
  proof (cases "find_server (sc_name s) (ce_config env)")
    case (Some conf)
    with 2(4) have "owned (ce_config env) (insert (sc_name s) (fst ` set groups)) (extend_static conf ns w)" for ns
      by (auto simp: owned_def)
    then show ?thesis using 2(2) [OF refl refl Some refl] 2(3) Some by (simp add: Let_def)
  next
    case None
    then obtain names w1 where a: "activate_dynamic env cap s (filter_for_server allowed (sc_name s)) w = (Inr names, w1)"
      using 2(3) by (auto simp: Let_def split: prod.splits sum.splits)
    have "owned (ce_config env) (insert (sc_name s) (fst ` set groups)) w1"
      using 2(4) activate_dynamic_keeps [OF a] by (auto simp: owned_def)
    then show ?thesis using 2(1) [OF refl refl None a [symmetric] refl] 2(3) None a by (simp add: Let_def)
  qed
qed simp

section \<open>The invariant\<close>

definition cap_invariant :: "server_config list \<Rightarrow> cap_ctx \<Rightarrow> bool" where
  "cap_invariant config ctx \<longleftrightarrow>
     distinct (map fst (cx_active ctx)) \<and> length (cx_active ctx) \<le> MAX_ACTIVE_CAPS \<and>
     (\<forall>(n, st) \<in> set (cx_active ctx). owned config (fst ` set (cs_server_tools st)) (cx_world ctx))"

lemma update_fresh: "k \<notin> fst ` set al \<Longrightarrow> AList.update k v al = al @ [(k, v)]"
  by (induction al) auto

lemma set_delete: "set (AList.delete k al) = {e \<in> set al. fst e \<noteq> k}"
  by (auto simp: AList.delete_eq)

lemma length_delete: "k \<in> fst ` set al \<Longrightarrow> length (AList.delete k al) < length al"
  by (induction al) (auto simp: AList.length_delete_le le_imp_less_Suc)

lemma min_last_used_None: "min_last_used reg = None \<longleftrightarrow> reg = []"
  by (cases reg) (auto split: option.splits)

lemma min_last_used_Some:
  "min_last_used reg = Some e \<Longrightarrow> e \<in> set reg \<and> (\<forall>e' \<in> set reg. cs_last_used (snd e) \<le> cs_last_used (snd e'))"
proof (induction reg arbitrary: e)
  case (Cons a reg)
  show ?case
  proof (cases "min_last_used reg")
    case None
    then have "reg = []" by (simp only: min_last_used_None)
    then show ?thesis using Cons.prems by simp
  next
    case (Some e')
    from Cons.IH [OF this] Cons.prems Some show ?thesis by (force split: if_splits)
  qed
qed simp

lemma killed_plan:
  "killed (disable_plan_of config reg n groups)
   = {srv \<in> fst ` set groups. find_server srv config = None \<and> server_refcount reg srv n = 0}"
  by (force simp: killed_def disable_plan_of_def)

lemma refcount_zero:
  "server_refcount reg srv n = 0 \<Longrightarrow> (m, st) \<in> set reg \<Longrightarrow> m \<noteq> n \<Longrightarrow> srv \<notin> fst ` set (cs_server_tools st)"
  by (auto simp: server_refcount_def filter_empty_conv uses_server_def)

lemma killed_unused:
  "srv \<in> killed (disable_plan_of config (AList.delete n reg) n groups) \<Longrightarrow> (m, st) \<in> set (AList.delete n reg)
   \<Longrightarrow> srv \<notin> fst ` set (cs_server_tools st)"
  using refcount_zero [of "AList.delete n reg" srv n m st] by (auto simp: killed_plan set_delete)

text \<open>Whatever spares the servers still in use keeps the invariant when a capability goes.\<close>

lemma invariant_without:
  assumes "cap_invariant config ctx" and "map_of (cx_active ctx) n = Some st"
    and "\<And>srv. runs srv (cx_world ctx) \<Longrightarrow> srv \<notin> killed (disable_plan_of config (AList.delete n (cx_active ctx)) n groups)
         \<Longrightarrow> runs srv w"
  shows "cap_invariant config (ctx\<lparr>cx_active := AList.delete n (cx_active ctx), cx_overlay := ov, cx_world := w\<rparr>)"
    and "length (AList.delete n (cx_active ctx)) < MAX_ACTIVE_CAPS"
proof -
  have n: "n \<in> fst ` set (cx_active ctx)" using assms(2) by (metis domI dom_map_of_conv_image_fst)
  have less: "length (AList.delete n (cx_active ctx)) < length (cx_active ctx)" using length_delete [OF n] .
  then show "length (AList.delete n (cx_active ctx)) < MAX_ACTIVE_CAPS" using assms(1) by (simp add: cap_invariant_def)
  have "owned config (fst ` set (cs_server_tools st')) w" if m: "(m, st') \<in> set (AList.delete n (cx_active ctx))" for m st'
    unfolding owned_def
  proof (intro ballI impI)
    fix srv
    assume srv: "srv \<in> fst ` set (cs_server_tools st')" "find_server srv config = None"
    moreover have "runs srv (cx_world ctx)"
      using m srv assms(1) by (auto simp: cap_invariant_def owned_def set_delete)
    moreover have "srv \<notin> killed (disable_plan_of config (AList.delete n (cx_active ctx)) n groups)"
      using killed_unused [OF _ m] srv(1) by blast
    ultimately show "runs srv w" by (intro assms(3))
  qed
  then show "cap_invariant config (ctx\<lparr>cx_active := AList.delete n (cx_active ctx), cx_overlay := ov, cx_world := w\<rparr>)"
    using assms(1) less by (auto simp: cap_invariant_def distinct_delete)
qed

lemma distinct_member: "distinct (map fst al) \<Longrightarrow> (k, v) \<in> set al \<Longrightarrow> map_of al k = Some v"
  by (rule map_of_is_SomeI)

lemma evict_invariant:
  assumes "cap_invariant config ctx"
  shows "cap_invariant config (evict_lru_if_full config ctx)"
    and "length (cx_active (evict_lru_if_full config ctx)) < MAX_ACTIVE_CAPS"
    and "fst ` set (cx_active (evict_lru_if_full config ctx)) \<subseteq> fst ` set (cx_active ctx)"
proof -
  have "cap_invariant config (evict_lru_if_full config ctx) \<and> length (cx_active (evict_lru_if_full config ctx)) < MAX_ACTIVE_CAPS
     \<and> fst ` set (cx_active (evict_lru_if_full config ctx)) \<subseteq> fst ` set (cx_active ctx)"
  proof (cases "length (cx_active ctx) < MAX_ACTIVE_CAPS")
    case True
    then show ?thesis using assms by (simp add: evict_lru_if_full_def)
  next
    case False
    then have "cx_active ctx \<noteq> []" by (auto simp: MAX_ACTIVE_CAPS_def)
    then obtain n st where l: "min_last_used (cx_active ctx) = Some (n, st)"
      using min_last_used_None [of "cx_active ctx"] by auto
    then have "map_of (cx_active ctx) n = Some st"
      using min_last_used_Some [OF l] assms by (auto simp: cap_invariant_def intro: distinct_member)
    from invariant_without [OF assms this, of "cs_server_tools st"] l False show ?thesis
      by (auto simp: evict_lru_if_full_def select_lru_in_def run_plan_logged_keeps set_delete)
  qed
  then show "cap_invariant config (evict_lru_if_full config ctx)"
    "length (cx_active (evict_lru_if_full config ctx)) < MAX_ACTIVE_CAPS"
    "fst ` set (cx_active (evict_lru_if_full config ctx)) \<subseteq> fst ` set (cx_active ctx)" by blast+
qed

lemma mark_active_invariant:
  assumes "cap_invariant config ctx" and "length (cx_active ctx) < MAX_ACTIVE_CAPS"
    and "name \<notin> fst ` set (cx_active ctx)" and "owned config (fst ` set groups) (cx_world ctx)"
  shows "cap_invariant config (mark_active now name groups ctx)"
  using assms by (auto simp: cap_invariant_def mark_active_def update_fresh)

lemma activate_servers_invariant:
  assumes "activate_servers env name allowed ss [] [] (cx_world ctx) = (res, w)" and "cap_invariant config ctx"
  shows "cap_invariant config (ctx\<lparr>cx_world := w\<rparr>)" "cap_invariant config (ctx\<lparr>cx_world := w, cx_overlay := ov\<rparr>)"
  using assms(2) activate_servers_keeps [OF assms(1)] by (fastforce simp: cap_invariant_def owned_def)+

lemma is_active_iff: "is_active n ctx \<longleftrightarrow> n \<in> fst ` set (cx_active ctx)"
  by (simp add: is_active_def map_of_eq_None_iff)

lemma activate_resolved_invariant:
  assumes "cap_invariant (ce_config env) ctx" and "\<not> is_active name ctx"
  shows "cap_invariant (ce_config env) (snd (activate_resolved env name r ctx))"
proof -
  let ?c = "evict_lru_if_full (ce_config env) ctx"
  note ev = evict_invariant [OF assms(1)]
  have fresh: "name \<notin> fst ` set (cx_active ?c)" using ev(3) assms(2) by (auto simp: is_active_iff)
  obtain res w where a: "activate_servers env name (rc_allowed_tools r) (rc_mcp_servers r) [] [] (cx_world ?c) = (res, w)"
    by fastforce
  note keep = activate_servers_invariant [OF a ev(1)]
  show ?thesis
  proof (cases res)
    case (Inl e)
    then show ?thesis using assms ev fresh keep(1) a mark_active_invariant [OF ev(1,2) fresh, of "[]"]
      by (auto simp: activate_resolved_def Let_def owned_def split: option.split)
  next
    case (Inr gx)
    obtain groups extra where gx: "gx = (groups, extra)" by fastforce
    have "owned (ce_config env) (fst ` set groups) w"
      using activate_servers_owned [OF a [unfolded Inr gx]] by (simp add: owned_def)
    from mark_active_invariant [OF keep(2), of _ name groups] this ev(2) fresh
    have "cap_invariant (ce_config env) (mark_active (ce_now env) name groups
        (?c\<lparr>cx_world := w, cx_overlay := set_capability_extras name extra (cx_overlay ?c)\<rparr>))" by simp
    then show ?thesis using assms ev fresh a Inr gx mark_active_invariant [OF ev(1,2) fresh, of "[]"]
      by (auto simp: activate_resolved_def Let_def owned_def split: option.split)
  qed
qed

lemma enable_named_invariant:
  assumes "cap_invariant (ce_config env) ctx"
  shows "cap_invariant (ce_config env) (snd (enable_named env name ctx))"
  using assms activate_resolved_invariant [OF assms, of name]
  by (auto simp: enable_named_def Let_def split: sum.split prod.split) (metis snd_conv)+

lemma activate_inline_invariant:
  assumes "cap_invariant (ce_config env) ctx"
  shows "cap_invariant (ce_config env) (snd (activate_capability_inline env name ctx))"
  using assms activate_resolved_invariant [OF assms, of name]
  by (auto simp: activate_capability_inline_def Let_def split: sum.split prod.split) (metis snd_conv)+

lemma load_names_invariant:
  "cap_invariant (ce_config env) ctx \<Longrightarrow> cap_invariant (ce_config env) (snd (load_names env ns ctx))"
proof (induction env ns ctx rule: load_names.induct)
  case (2 env n ns ctx)
  have "cap_invariant (ce_config env) (snd (enable_named env n ctx))" by (rule enable_named_invariant [OF 2(2)])
  then show ?case using 2 by (auto simp: Let_def split: prod.splits sum.splits if_splits)
qed simp

text \<open>A deactivation of an active capability.\<close>

lemma disable_active:
  assumes inv: "cap_invariant (ce_config env) ctx" and st: "map_of (cx_active ctx) name = Some st"
  obtains t w where "disable_named env name ctx =
      (Inr t, ctx\<lparr>cx_active := AList.delete name (cx_active ctx),
                     cx_overlay := clear_capability_extras name (cx_overlay ctx), cx_world := w\<rparr>)"
    and "cap_invariant (ce_config env) (snd (disable_named env name ctx))"
proof -
  let ?reg = "AList.delete name (cx_active ctx)"
  let ?plan = "disable_plan_of (ce_config env) ?reg name (cs_server_tools st)"
  have "(name, st) \<in> set (cx_active ctx)" using st by (rule map_of_SomeD)
  then have "present srv (cx_world ctx)" if "srv \<in> killed ?plan" for srv
    using that inv by (auto simp: killed_plan cap_invariant_def owned_def intro!: runs_present)
  from run_plan_succeeds [of ?plan "cx_world ctx" "ce_config env", OF this] obtain w where w: "run_plan (ce_config env) ?plan (cx_world ctx) = (None, w)"
    and runs: "\<forall>srv. runs srv (cx_world ctx) \<and> srv \<notin> killed ?plan \<longrightarrow> runs srv w" by blast
  have d: "disable_named env name ctx =
      (Inr (disabled_text name ?plan), ctx\<lparr>cx_active := ?reg, cx_overlay := clear_capability_extras name (cx_overlay ctx), cx_world := w\<rparr>)"
    using st w by (simp add: disable_named_def Let_def)
  moreover have "cap_invariant (ce_config env) (snd (disable_named env name ctx))"
    using invariant_without(1) [OF inv st, of "cs_server_tools st" w] runs d by auto
  ultimately show thesis by (rule that)
qed

lemma disable_named_invariant:
  assumes "cap_invariant (ce_config env) ctx"
  shows "cap_invariant (ce_config env) (snd (disable_named env name ctx))"
proof (cases "map_of (cx_active ctx) name")
  case None
  then show ?thesis using assms by (simp add: disable_named_def)
next
  case (Some st)
  from disable_active [OF assms this] show ?thesis by blast
qed

lemma touch_first_same:
  "map (\<lambda>(n, st). (n, cs_server_tools st)) (touch_first now srv reg) = map (\<lambda>(n, st). (n, cs_server_tools st)) reg"
  by (induction now srv reg rule: touch_first.induct) auto

text \<open>The invariant speaks of the names and the servers alone.\<close>

lemma cap_invariant_shape:
  "cap_invariant config ctx \<longleftrightarrow>
     (let shape = map (\<lambda>(n, st). (n, cs_server_tools st)) (cx_active ctx)
      in distinct (map fst shape) \<and> length shape \<le> MAX_ACTIVE_CAPS \<and>
         (\<forall>(n, groups) \<in> set shape. owned config (fst ` set groups) (cx_world ctx)))"
  by (simp add: cap_invariant_def comp_def case_prod_unfold Let_def)

lemma after_tool_call_invariant:
  assumes "cap_invariant config ctx"
  shows "cap_invariant config (after_tool_call now tool ctx)"
proof -
  have "cap_invariant config (ctx\<lparr>cx_active := touch_first now srv (cx_active ctx)\<rparr>)" for srv
  proof -
    have "cx_active (ctx\<lparr>cx_active := act\<rparr>) = act" "cx_world (ctx\<lparr>cx_active := act\<rparr>) = cx_world ctx" for act by simp_all
    then show ?thesis using assms by (simp only: cap_invariant_shape touch_first_same)
  qed
  then show ?thesis using assms by (simp add: after_tool_call_def touch_capability_for_server_def split: option.split)
qed

lemma invariant_other_world:
  assumes "cap_invariant config ctx" and "\<And>srv. runs srv (cx_world ctx) \<Longrightarrow> runs srv w"
  shows "cap_invariant config (ctx\<lparr>cx_world := w\<rparr>)"
  using assms by (fastforce simp: cap_invariant_def owned_def)

lemma mcp_enable_runs: "runs srv w \<Longrightarrow> runs srv (snd (mcp_enable env ps w))"
  by (auto simp: mcp_enable_def with_name_def enable_server_runs split: option.split sum.split)

lemma agent_frame [simp]: "runs srv (set_agents st w) = runs srv w" "runs srv (switch_agent n on w) = runs srv w"
  by (simp_all add: runs_def is_dynamic_def servers_of_def set_agents_def switch_agent_def Let_def)

lemma agent_ops_runs:
  "register_agent a w = Inr w' \<Longrightarrow> runs srv w' = runs srv w" "enable_agent n w = Inr w' \<Longrightarrow> runs srv w' = runs srv w"
  "disable_agent n w = Inr w' \<Longrightarrow> runs srv w' = runs srv w" "runs srv (snd (remove_agent n w)) = runs srv w"
  by (auto simp: register_agent_def enable_agent_def disable_agent_def remove_agent_def Let_def split: if_splits)

lemma agent_handlers_run:
  "runs srv (snd (agent_list env w)) = runs srv w" "runs srv (snd (agent_add env is_local ps w)) = runs srv w"
  "runs srv (snd (agent_enable ps w)) = runs srv w" "runs srv (snd (agent_disable ps w)) = runs srv w"
  "runs srv (snd (agent_remove ps w)) = runs srv w"
proof -
  show "runs srv (snd (agent_list env w)) = runs srv w" by (simp add: agent_list_def Let_def)
  have "rbind x (\<lambda>a. register_agent a w) = Inr w' \<Longrightarrow> runs srv w' = runs srv w" for x w'
    by (cases x) (auto simp: agent_ops_runs)
  then show "runs srv (snd (agent_add env is_local ps w)) = runs srv w"
    by (simp add: agent_add_def with_name_def split: option.split sum.split)
  show "runs srv (snd (agent_enable ps w)) = runs srv w" "runs srv (snd (agent_disable ps w)) = runs srv w"
    by (auto simp: agent_enable_def agent_disable_def with_name_def agent_ops_runs split: option.split sum.split)
  show "runs srv (snd (agent_remove ps w)) = runs srv w"
    using agent_ops_runs(4) [of srv _ w]
    by (auto simp: agent_remove_def with_name_def split: option.split prod.split) (metis snd_conv)+
qed

lemma agent_command_runs: "runs srv (snd (execute_agent_tool_command env is_local ps w)) = runs srv w"
  by (simp add: execute_agent_tool_command_def agent_handlers_run split: option.split)

section \<open>Every run\<close>

text \<open>
  The states of a session with a fixed role: capabilities activated by name, by a message or from the
  environment, deactivated, tools called, servers enabled and agents managed, the table of active capabilities
  rehashed. The clock, the taps and the answers of the servers may differ at every step.
\<close>

inductive cap_reach :: "server_config list \<Rightarrow> cap_ctx \<Rightarrow> bool" for config where
  start: "cx_active ctx = [] \<Longrightarrow> cap_reach config ctx"
| enable: "cap_reach config ctx \<Longrightarrow> ce_config env = config \<Longrightarrow> cap_reach config (snd (handle_enable env ps ctx))"
| disable: "cap_reach config ctx \<Longrightarrow> ce_config env = config \<Longrightarrow> cap_reach config (snd (handle_disable env ps ctx))"
| inline: "cap_reach config ctx \<Longrightarrow> ce_config env = config \<Longrightarrow> cap_reach config (snd (activate_capability_inline env name ctx))"
| boot: "cap_reach config ctx \<Longrightarrow> ce_config env = config \<Longrightarrow> cap_reach config (snd (load_env_capabilities env ctx))"
| call: "cap_reach config ctx \<Longrightarrow> cap_reach config (after_tool_call now tool ctx)"
| rehash: "cap_reach config ctx \<Longrightarrow> mset act = mset (cx_active ctx) \<Longrightarrow> cap_reach config (ctx\<lparr>cx_active := act\<rparr>)"
| server: "cap_reach config ctx \<Longrightarrow> cap_reach config (ctx\<lparr>cx_world := snd (mcp_enable menv ps (cx_world ctx))\<rparr>)"
| agent: "cap_reach config ctx \<Longrightarrow>
    cap_reach config (ctx\<lparr>cx_world := snd (execute_agent_tool_command menv is_local ps (cx_world ctx))\<rparr>)"

lemma read_only_actions: "snd (handle_list env ctx) = ctx" "snd (handle_discover env so ps ctx) = ctx"
  by (simp_all add: handle_list_def handle_discover_def Let_def split: option.split sum.split)

lemma reach_tool:
  "cap_reach config ctx \<Longrightarrow> ce_config env = config \<Longrightarrow> cap_reach config (snd (execute_capability_command env so ps ctx))"
  by (auto simp: execute_capability_command_def read_only_actions intro: cap_reach.intros split: option.split)

lemma reach_message:
  assumes "cap_reach config ctx" and "ce_config env = config"
  shows "cap_reach config (auto_activate_capabilities env so msgs ctx)"
proof -
  have "cap_reach config (snd (auto_activate_for_intent env so intent ctx))" for intent
  proof (cases "chosen_capability env so intent ctx")
    case None
    then show ?thesis using assms(1) by (simp add: auto_activate_for_intent_def)
  next
    case (Some sc)
    obtain s c where sc: "sc = (s, c)" by fastforce
    from cap_reach.inline [OF assms, of "rc_name c"] show ?thesis
      by (auto simp: auto_activate_for_intent_def Some sc split: prod.split sum.split)
  qed
  then show ?thesis using assms(1) by (simp add: auto_activate_capabilities_def)
qed

lemma reach_invariant: "cap_reach config ctx \<Longrightarrow> cap_invariant config ctx"
proof (induction rule: cap_reach.induct)
  case (enable ctx env ps)
  then show ?case using enable_named_invariant by (auto simp: handle_enable_def split: option.split)
next
  case (disable ctx env ps)
  then show ?case using disable_named_invariant by (auto simp: handle_disable_def split: option.split)
next
  case (inline ctx env name)
  then show ?case using activate_inline_invariant by blast
next
  case (boot ctx env)
  then show ?case using load_names_invariant by (auto simp: load_env_capabilities_def split: option.split)
next
  case (rehash ctx act)
  then show ?case
    using mset_eq_setD [OF rehash(2)] mset_eq_length [OF rehash(2)]
    by (auto simp: cap_invariant_def) (metis mset_eq_imp_distinct_iff mset_map)
next
  case (server ctx menv ps)
  then show ?case by (auto intro: invariant_other_world mcp_enable_runs)
next
  case (agent ctx menv is_local ps)
  then show ?case by (auto intro: invariant_other_world simp: agent_command_runs)
next
  case (call ctx now tool)
  then show ?case by (simp add: after_tool_call_invariant)
qed (auto simp: cap_invariant_def)

section \<open>Tools of the role\<close>

text \<open>
  A tool of the role is served: it came from the role's own configuration, its entry in the table that is looked up names
  this server, and the server is not one that was shut down.
\<close>

definition serves :: "server_config \<Rightarrow> string \<Rightarrow> mcp_world \<Rightarrow> bool" where
  "serves s t w \<longleftrightarrow>
     (case mw_tools w of
        Some tm \<Rightarrow> t \<in> tm_static tm \<and> tm_initialized tm \<and> map_of (tm_servers tm) t = Some s
      | None \<Rightarrow> False) \<and>
     map_of (ds_enabled (servers_of w)) (sc_name s) \<noteq> Some False"

lemma serves_register:
  "serves s t w \<Longrightarrow> t \<in> set ts \<longrightarrow> s' = s \<Longrightarrow> serves s t (w\<lparr>mw_tools := register_dynamic_server_tools s' ts (mw_tools w)\<rparr>)"
  by (auto simp: serves_def register_dynamic_server_tools_def map_of_register servers_of_def split: option.splits)

lemma serves_strip: "serves s t w \<Longrightarrow> serves s t (strip_tools ts w)"
  by (auto simp: serves_def strip_tools_def unregister_dynamic_server_tools_def map_of_unregister servers_of_def
      split: option.splits)

lemma serves_frame [simp]: "serves s t (clear_function_cache_for_server n w) = serves s t w"
  by (simp add: serves_def clear_function_cache_for_server_def servers_of_def)

text \<open>A change of the registry of servers that leaves the entry of this one alone.\<close>

lemma serves_other:
  assumes "serves s t w" and "n \<noteq> sc_name s"
  shows "\<not> mw_session w \<Longrightarrow> map_of (ds_enabled m) (sc_name s) = map_of (ds_enabled (mw_manager w)) (sc_name s) \<Longrightarrow>
      serves s t (w\<lparr>mw_manager := m\<rparr>)"
    and "mw_session w \<Longrightarrow> map_of (ds_enabled ds) (sc_name s) = map_of (ds_enabled (mw_servers w)) (sc_name s) \<Longrightarrow>
      serves s t (w\<lparr>mw_servers := ds\<rparr>)"
  using assms by (auto simp: serves_def servers_of_def split: option.splits)

lemma serves_disable:
  assumes "disable_server_tools config n ts kill w = Inr w'" and "serves s t w" and "kill \<longrightarrow> n \<noteq> sc_name s"
  shows "serves s t w'"
proof (cases kill)
  case False
  then show ?thesis using assms by (auto simp: disable_server_tools_def serves_strip)
next
  case True
  then have n: "n \<noteq> sc_name s" using assms(3) by simp
  have name: "find_server n config = Some c \<Longrightarrow> sc_name c = n" for c using find_server_Some by blast
  note strip = serves_strip[OF assms(2), of ts]
  have same: "mw_session (strip_tools ts w) = mw_session w" "mw_manager (strip_tools ts w) = mw_manager w"
    "mw_servers (strip_tools ts w) = mw_servers w" by (simp_all add: strip_tools_def)
  have swap: "strip_tools ts (w\<lparr>mw_servers := ds\<rparr>) = (strip_tools ts w)\<lparr>mw_servers := ds\<rparr>"
    "strip_tools ts (w\<lparr>mw_manager := m\<rparr>) = (strip_tools ts w)\<lparr>mw_manager := m\<rparr>" for ds m
    by (simp_all add: strip_tools_def)
  show ?thesis using assms(1) True n name
    by (auto simp: disable_server_tools_def registry_ops Let_def swap same split: if_splits option.splits
        intro!: serves_other[OF strip n])
qed

lemma serves_plans:
  assumes "serves s t w" and "sc_name s \<notin> killed plan"
  shows "serves s t (run_plan_logged config plan w)" and "serves s t (snd (run_plan config plan w))"
  using assms
proof (induction plan arbitrary: w)
  case (Cons e plan)
  obtain n ts kill where e: "e = (n, ts, kill)" by (cases e) auto
  {
    case 1
    have "serves s t (case disable_server_tools config n ts kill w of Inr w' \<Rightarrow> w' | Inl _ \<Rightarrow> w)"
      using 1 by (auto simp: e split: sum.split if_splits intro: serves_disable)
    from Cons.IH(1) [OF this] 1 show ?case by (simp add: e split: if_splits)
  next
    case 2
    then have "serves s t w' \<and> sc_name s \<notin> killed plan" if "disable_server_tools config n ts kill w = Inr w'" for w'
      using serves_disable [OF that] by (auto simp: e split: if_splits)
    then show ?case using Cons.IH(2) 2 by (auto simp: e split: sum.split)
  }
qed simp_all

text \<open>Of the role's servers none is in a plan to shut down.\<close>

lemma role_server_spared: "find_server srv config \<noteq> None \<Longrightarrow> srv \<notin> killed (disable_plan_of config reg n groups)"
  by (auto simp: killed_plan)

text \<open>
  An environment in which no other server brings the tool: no other server reports it, and no capability lists it for another
  server of the role. The role has the server.
\<close>

definition no_stranger :: "server_config \<Rightarrow> string \<Rightarrow> cap_env \<Rightarrow> bool" where
  "no_stranger s t env \<longleftrightarrow>
     find_server (sc_name s) (ce_config env) = Some s \<and>
     (\<forall>s' fs. me_connect (ce_mcp env) s' = Inr fs \<longrightarrow> t \<in> set (map fn_name fs) \<longrightarrow> s' = s) \<and>
     (\<forall>name r s' ns. ce_resolve env name = Inr r \<longrightarrow> s' \<in> set (rc_mcp_servers r) \<longrightarrow>
        filter_for_server (rc_allowed_tools r) (sc_name s') = Some ns \<longrightarrow> t \<in> set ns \<longrightarrow> sc_name s' = sc_name s)"

lemma applied_filter: "set (apply_filter flt fs) \<subseteq> set fs"
  by (auto simp: apply_filter_def filter_tools_by_patterns_def split: option.splits)

lemma serves_enable_server:
  assumes "enable_server env n flt w = Inr (fs, w')" and "serves s t w"
    and "\<And>s' fs. me_connect env s' = Inr fs \<Longrightarrow> t \<in> set (map fn_name fs) \<Longrightarrow> s' = s"
  shows "serves s t w'"
proof -
  obtain s' fs' where c: "me_connect env s' = Inr fs'" "fs = apply_filter flt fs'" and
    w': "w' = (let w = (if mw_session w
                     then w\<lparr>mw_servers := snd (enable_dynamic_server_for_session n fs (mw_servers w))\<rparr>
                     else w\<lparr>mw_manager := (mw_manager w)
                              \<lparr>ds_functions := AList.update n fs (ds_functions (mw_manager w)),
                               ds_enabled := AList.update n True (ds_enabled (mw_manager w))\<rparr>\<rparr>)
       in w\<lparr>mw_tools := register_dynamic_server_tools s' (map fn_name fs) (mw_tools w)\<rparr>)"
    using assms(1) by (auto simp: enable_server_def Let_def split: option.splits sum.splits)
  have "t \<in> set (map fn_name fs) \<longrightarrow> s' = s" using assms(3)[OF c(1)] applied_filter[of flt fs'] c(2) by auto
  moreover have "serves s t (if mw_session w
       then w\<lparr>mw_servers := snd (enable_dynamic_server_for_session n fs (mw_servers w))\<rparr>
       else w\<lparr>mw_manager := (mw_manager w)
          \<lparr>ds_functions := AList.update n fs (ds_functions (mw_manager w)),
           ds_enabled := AList.update n True (ds_enabled (mw_manager w))\<rparr>\<rparr>)"
    using assms(2) by (auto simp: serves_def registry_ops Let_def split: option.splits)
  ultimately show ?thesis unfolding w' Let_def by (intro serves_register)
qed

lemma serves_register_server:
  "register_server s' w = Inr w' \<Longrightarrow> serves s t w \<Longrightarrow> sc_name s' \<noteq> sc_name s \<Longrightarrow> serves s t w'"
  by (auto simp: register_server_def serves_def registry_ops split: if_splits server_config.splits option.splits)

lemma serves_activate_dynamic:
  assumes "activate_dynamic env cap s' flt w = (res, w')" and "serves s t w" and "sc_name s' \<noteq> sc_name s"
    and "\<And>s' fs. me_connect (ce_mcp env) s' = Inr fs \<Longrightarrow> t \<in> set (map fn_name fs) \<Longrightarrow> s' = s"
  shows "serves s t w'"
  using assms(1,2) serves_register_server[OF _ assms(2,3)] serves_enable_server[OF _ _ assms(4)]
  by (auto simp: activate_dynamic_def split: if_splits sum.splits prod.splits)

lemma serves_activate_servers:
  assumes "activate_servers env cap allowed ss groups extra w = (res, w')" and "serves s t w"
    and "find_server (sc_name s) (ce_config env) = Some s"
    and "\<And>s' fs. me_connect (ce_mcp env) s' = Inr fs \<Longrightarrow> t \<in> set (map fn_name fs) \<Longrightarrow> s' = s"
    and "\<And>s' ns. s' \<in> set ss \<Longrightarrow> filter_for_server allowed (sc_name s') = Some ns \<Longrightarrow> t \<in> set ns \<Longrightarrow> sc_name s' = sc_name s"
  shows "serves s t w'"
  using assms
proof (induction env cap allowed ss groups extra w rule: activate_servers.induct)
  case (2 env cap allowed s' ss groups extra w)
  show ?case
  proof (cases "find_server (sc_name s') (ce_config env)")
    case (Some conf)
    have "serves s t (extend_static conf (case filter_for_server allowed (sc_name s') of Some ns \<Rightarrow> ns | None \<Rightarrow> []) w)"
    proof -
      define ns where "ns = (case filter_for_server allowed (sc_name s') of Some ns \<Rightarrow> ns | None \<Rightarrow> [])"
      have "t \<in> set ns \<longrightarrow> conf = s"
        using 2(7)[of s'] 2(5) Some by (cases "filter_for_server allowed (sc_name s')") (auto simp: ns_def)
      then show ?thesis using serves_register[OF 2(4), of ns conf] 2(4) by (simp add: extend_static_def ns_def[symmetric])
    qed
    from 2(2)[OF refl refl Some refl _ this 2(5,6,7)] 2(3) Some show ?thesis by (simp add: Let_def)
  next
    case None
    have n: "sc_name s' \<noteq> sc_name s" using None 2(5) by auto
    obtain r1 w1 where a: "activate_dynamic env cap s' (filter_for_server allowed (sc_name s')) w = (r1, w1)" by force
    note one = serves_activate_dynamic[OF a 2(4) n 2(6)]
    show ?thesis
    proof (cases r1)
      case (Inl e)
      then show ?thesis using 2(3) None a one by (simp add: Let_def)
    next
      case (Inr names)
      from 2(1)[OF refl refl None a[unfolded Inr, symmetric] refl _ one 2(5,6,7)] 2(3) None a Inr show ?thesis
        by (simp add: Let_def)
    qed
  qed
qed simp

lemma serves_evict:
  "serves s t (cx_world ctx) \<Longrightarrow> find_server (sc_name s) config \<noteq> None \<Longrightarrow> serves s t (cx_world (evict_lru_if_full config ctx))"
  by (auto simp: evict_lru_if_full_def serves_plans role_server_spared split: option.split prod.split)

lemma serves_activate:
  assumes "serves s t (cx_world ctx)" and "no_stranger s t env" and "ce_resolve env name = Inr r"
  shows "serves s t (cx_world (snd (activate_resolved env name r ctx)))"
proof -
  let ?c = "evict_lru_if_full (ce_config env) ctx"
  have c: "serves s t (cx_world ?c)" using assms(1,2) by (intro serves_evict) (auto simp: no_stranger_def)
  obtain res w where a: "activate_servers env name (rc_allowed_tools r) (rc_mcp_servers r) [] [] (cx_world ?c) = (res, w)" by force
  have "serves s t w"
    by (rule serves_activate_servers[OF a c]) (use assms(2,3) in \<open>auto simp: no_stranger_def\<close>)
  then show ?thesis using c assms(1) a
    by (auto simp: activate_resolved_def Let_def mark_active_def split: option.split prod.split sum.split)
qed

lemma serves_enable_named:
  assumes "serves s t (cx_world ctx)" and "no_stranger s t env"
  shows "serves s t (cx_world (snd (enable_named env name ctx)))"
  using assms serves_activate [OF assms, of name]
  by (auto simp: enable_named_def Let_def split: sum.split prod.split)

lemma serves_inline:
  assumes "serves s t (cx_world ctx)" and "no_stranger s t env"
  shows "serves s t (cx_world (snd (activate_capability_inline env name ctx)))"
  using assms serves_activate [OF assms, of name]
  by (auto simp: activate_capability_inline_def Let_def split: sum.split prod.split)

lemma serves_load_names:
  "serves s t (cx_world ctx) \<Longrightarrow> no_stranger s t env \<Longrightarrow> serves s t (cx_world (snd (load_names env ns ctx)))"
proof (induction env ns ctx rule: load_names.induct)
  case (2 env n ns ctx)
  have "serves s t (cx_world (snd (enable_named env n ctx)))" by (rule serves_enable_named [OF 2(2,3)])
  then show ?case using 2 by (auto simp: Let_def split: prod.splits sum.splits if_splits)
qed simp

lemma serves_disable_named:
  assumes "serves s t (cx_world ctx)" and "find_server (sc_name s) (ce_config env) \<noteq> None"
  shows "serves s t (cx_world (snd (disable_named env name ctx)))"
proof (cases "map_of (cx_active ctx) name")
  case (Some st)
  have "serves s t (snd (run_plan (ce_config env)
      (disable_plan_of (ce_config env) (AList.delete name (cx_active ctx)) name (cs_server_tools st)) (cx_world ctx)))"
    by (rule serves_plans(2)[OF assms(1) role_server_spared[OF assms(2)]])
  then show ?thesis using Some by (auto simp: disable_named_def Let_def split: option.split prod.split)
qed (use assms in \<open>simp add: disable_named_def\<close>)

text \<open>What capabilities do to a session: commands of the tool, inline activations, the environment at the start, tool calls.\<close>

inductive cap_move :: "(cap_env \<Rightarrow> bool) \<Rightarrow> cap_ctx \<Rightarrow> cap_ctx \<Rightarrow> bool" for P where
  move_enable: "P env \<Longrightarrow> cap_move P ctx (snd (handle_enable env ps ctx))"
| move_disable: "P env \<Longrightarrow> cap_move P ctx (snd (handle_disable env ps ctx))"
| move_inline: "P env \<Longrightarrow> cap_move P ctx (snd (activate_capability_inline env name ctx))"
| move_boot: "P env \<Longrightarrow> cap_move P ctx (snd (load_env_capabilities env ctx))"
| move_call: "cap_move P ctx (after_tool_call now tool ctx)"

lemma move_command: "P env \<Longrightarrow> (cap_move P)\<^sup>=\<^sup>= ctx (snd (execute_capability_command env so ps ctx))"
  by (auto simp: execute_capability_command_def read_only_actions intro: cap_move.intros split: option.split)

lemma after_call_world [simp]: "cx_world (after_tool_call now tool ctx) = cx_world ctx"
  by (simp add: after_tool_call_def touch_capability_for_server_def split: option.split)

lemma serves_move:
  assumes "cap_move (no_stranger s t) ctx ctx'" and "serves s t (cx_world ctx)"
  shows "serves s t (cx_world ctx')"
  using assms
proof (induction rule: cap_move.induct)
  case (move_enable env ctx ps)
  then show ?case by (auto simp: handle_enable_def serves_enable_named split: option.split)
next
  case (move_disable env ctx ps)
  then have "find_server (sc_name s) (ce_config env) \<noteq> None" by (simp add: no_stranger_def)
  with move_disable show ?case by (auto simp: handle_disable_def serves_disable_named split: option.split)
next
  case (move_boot env ctx)
  then show ?case by (auto simp: load_env_capabilities_def serves_load_names split: option.split)
qed (simp_all add: serves_inline)

section \<open>The choice for a message\<close>

text \<open>The fuel of the stripping is enough: more of it changes nothing.\<close>

lemma strip_xml_fuel: "length s \<le> n \<Longrightarrow> strip_xml_from alnum n s = strip_xml_from alnum (length s) s"
proof (induction n arbitrary: s rule: less_induct)
  case (less n)
  show ?case
  proof (cases n)
    case 0
    with less.prems show ?thesis by simp
  next
    case (Suc m)
    show ?thesis
    proof (cases "length s")
      case 0
      then show ?thesis using Suc by simp
    next
      case (Suc l)
      have drop: "strip_xml_from alnum m (drop (Suc k) s) = strip_xml_from alnum l (drop (Suc k) s)" for k
      proof -
        have "length (drop (Suc k) s) \<le> m" "length (drop (Suc k) s) \<le> l" using less.prems \<open>n = Suc m\<close> Suc by simp_all
        moreover have "m < n" "l < n" using \<open>n = Suc m\<close> less.prems Suc by simp_all
        ultimately show ?thesis using less.IH [of m "drop (Suc k) s"] less.IH [of l "drop (Suc k) s"] by simp
      qed
      show ?thesis unfolding \<open>n = Suc m\<close> Suc strip_xml_from.simps(2) Let_def by (simp add: drop split: option.split)
    qed
  qed
qed

lemma mset_place: "mset (place key x xs) = add_mset x (mset xs)"
  by (induction xs) auto

lemma set_place [simp]: "set (place key x xs) = insert x (set xs)"
  by (induction xs) auto

lemma sorted_place:
  "sorted_wrt (\<lambda>a b. key b \<le> key a) xs \<Longrightarrow> sorted_wrt (\<lambda>a b. key b \<le> key a) (place key x xs)"
  by (induction xs) (auto intro: order_trans)

lemma sort_desc_sorted: "sorted_wrt (\<lambda>a b. key b \<le> key a) (sort_desc key xs)" "set (sort_desc key xs) = set xs"
  by (induction xs) (auto simp: sort_desc_def intro: sorted_place)

text \<open>The capability chosen for a message clears the threshold and no candidate scores better.\<close>

lemma auto_choice_best:
  assumes "select_with_margin so scored threshold margin = Some (s, c)"
  shows "(s, c) \<in> set scored" "threshold \<le> s" "(s', c') \<in> set scored \<Longrightarrow> s' \<le> s"
proof -
  obtain rest where l: "sort_desc fst scored = (s, c) # rest" and t: "threshold \<le> s"
    using assms by (auto simp: select_with_margin_def Let_def split: list.splits if_splits)
  then show "(s, c) \<in> set scored" "threshold \<le> s" using sort_desc_sorted(2) [of fst scored] by auto
  assume "(s', c') \<in> set scored"
  then have "(s', c') \<in> set ((s, c) # rest)" using sort_desc_sorted(2) [of fst scored] l by simp
  then show "s' \<le> s" using sort_desc_sorted(1) [of fst scored] l by auto
qed

section \<open>An example session\<close>

definition demo_function :: mcp_function where
  "demo_function = \<lparr>fn_name = ''search'', fn_description = [], fn_parameters = JNull\<rparr>"

definition demo_server :: server_config where "demo_server = Http ''octocode'' ''u'' 30 [] [] None"

definition demo_role_server :: server_config where "demo_role_server = Http ''octofs'' ''v'' 30 [] [] None"

definition demo_mcp :: mcp_env where
  "demo_mcp = \<lparr>me_connect = (\<lambda>_. Inr [demo_function]), me_dir = Inr [], me_toml = (\<lambda>_. Inr []), me_write = (\<lambda>_. None),
     me_delete = (\<lambda>_. None), me_role = None, me_f32 = (\<lambda>_. None), me_print = (\<lambda>_. [])\<rparr>"

definition demo_cap :: resolved_capability where
  "demo_cap = \<lparr>rc_name = ''codesearch'', rc_triggers = [''find code''], rc_domains = [], rc_deps = [], rc_server_refs = [],
     rc_allowed_tools = [], rc_mcp_servers = [demo_server], rc_required_env_keys = [], rc_tap_root = []\<rparr>"

definition demo_env :: cap_env where
  "demo_env = \<lparr>ce_mcp = demo_mcp, ce_config = [demo_role_server],
     ce_resolve = (\<lambda>n. if n = ''codesearch'' then Inr demo_cap else Inl ''unknown''), ce_all = Inr [demo_cap],
     ce_domain = None, ce_var = (\<lambda>_. None), ce_install = (\<lambda>_ _. None), ce_now = 7\<rparr>"

definition demo_start :: cap_ctx where
  "demo_start = \<lparr>cx_world = \<lparr>mw_session = True,
       mw_tools = Some \<lparr>tm_servers = [(''shell'', demo_role_server)], tm_static = {''shell''}, tm_initialized = True, tm_config_hash = 0\<rparr>,
       mw_servers = no_servers, mw_manager = no_servers, mw_agents = \<lparr>as_agents = [], as_enabled = []\<rparr>,
       mw_agent_manager = \<lparr>as_agents = [], as_enabled = []\<rparr>, mw_cache = [], mw_files = []\<rparr>,
     cx_active = [], cx_overlay = []\<rparr>"

definition demo_call :: "string \<Rightarrow> json" where
  "demo_call action = JObj [(''action'', JStr action), (''name'', JStr ''codesearch'')]"

definition demo_ctx :: cap_ctx where
  "demo_ctx = snd (handle_enable demo_env (demo_call ''enable'') demo_start)"

lemmas demo_defs = demo_function_def demo_server_def demo_role_server_def demo_mcp_def demo_cap_def demo_env_def
  demo_start_def no_servers_def

lemma demo_active: "cx_active demo_ctx = [(''codesearch'', \<lparr>cs_server_tools = [(''octocode'', [''search''])], cs_last_used = 7\<rparr>)]"
  by code_simp

lemma demo_reach: "cap_reach [demo_role_server] demo_ctx"
  unfolding demo_ctx_def by (rule cap_reach.enable) (auto intro: cap_reach.start simp: demo_start_def demo_env_def)

section \<open>Properties\<close>

lemma invariant_served:
  "cap_invariant config ctx \<Longrightarrow> \<forall>(n, st) \<in> set (cx_active ctx). \<forall>(srv, tools) \<in> set (cs_server_tools st).
     find_server srv config = None \<longrightarrow> is_dynamic srv (cx_world ctx) \<and> server_enabled srv (servers_of (cx_world ctx))"
  by (force simp: cap_invariant_def owned_def runs_def)

text \<open>
  C37. However capabilities are activated, deactivated and evicted, and whatever servers are enabled and agents managed in
  between, at most four are active, each once, and a server that an active capability brought and the role does not
  have itself is registered and enabled.
\<close>

theorem active_capabilities_served:
  assumes "cap_reach config ctx"
  shows "distinct (map fst (cx_active ctx)) \<and> length (cx_active ctx) \<le> MAX_ACTIVE_CAPS \<and>
     (\<forall>(n, st) \<in> set (cx_active ctx). \<forall>(srv, tools) \<in> set (cs_server_tools st). find_server srv config = None \<longrightarrow>
        is_dynamic srv (cx_world ctx) \<and> server_enabled srv (servers_of (cx_world ctx)))"
  using reach_invariant [OF assms] invariant_served [OF reach_invariant [OF assms]] by (simp add: cap_invariant_def)

theorem active_capabilities_served_witness:
  "is_dynamic ''octocode'' (cx_world demo_ctx) \<and> server_enabled ''octocode'' (servers_of (cx_world demo_ctx))"
  using active_capabilities_served [OF demo_reach] by (simp add: demo_active find_server_def demo_role_server_def)

text \<open>
  C38. In every such state an active capability can be deactivated: the tool reports success, the capability is the
  only one gone, and the servers the others use still run.
\<close>

theorem disabling_succeeds:
  assumes "cap_reach (ce_config env) ctx" and "is_active name ctx"
  shows "\<exists>reply ctx'. disable_named env name ctx = (Inr reply, ctx') \<and>
     cx_active ctx' = AList.delete name (cx_active ctx) \<and>
     (\<forall>(n, st) \<in> set (cx_active ctx'). \<forall>(srv, tools) \<in> set (cs_server_tools st). find_server srv (ce_config env) = None \<longrightarrow>
        is_dynamic srv (cx_world ctx') \<and> server_enabled srv (servers_of (cx_world ctx')))"
proof -
  obtain st where "map_of (cx_active ctx) name = Some st" using assms(2) by (auto simp: is_active_def)
  then obtain reply w where d: "disable_named env name ctx =
      (Inr reply, ctx\<lparr>cx_active := AList.delete name (cx_active ctx),
                      cx_overlay := clear_capability_extras name (cx_overlay ctx), cx_world := w\<rparr>)"
    and "cap_invariant (ce_config env) (snd (disable_named env name ctx))"
    using disable_active [OF reach_invariant [OF assms(1)]] by metis
  from invariant_served [OF this(2)] show ?thesis by (simp add: d)
qed

theorem disabling_succeeds_witness:
  "\<exists>reply ctx'. disable_named demo_env ''codesearch'' demo_ctx = (Inr reply, ctx') \<and> cx_active ctx' = []"
  using disabling_succeeds [of demo_env demo_ctx "''codesearch''"] demo_reach
  by (fastforce simp: demo_active is_active_def demo_env_def)

text \<open>
  C39. A refused or failed activation is an error the model reads: the capability is not active, and of the others at most
  one is gone, evicted because four were active.
\<close>

theorem failed_enable_inactive:
  assumes "enable_named env name ctx = (Inl e, ctx')"
  shows "\<not> is_active name ctx' \<and>
     (cx_active ctx' = cx_active ctx \<or>
      MAX_ACTIVE_CAPS \<le> length (cx_active ctx) \<and> (\<exists>k. cx_active ctx' = AList.delete k (cx_active ctx)))"
proof -
  let ?ev = "evict_lru_if_full (ce_config env) ctx"
  have ev: "cx_active ?ev = cx_active ctx \<or>
      MAX_ACTIVE_CAPS \<le> length (cx_active ctx) \<and> (\<exists>k. cx_active ?ev = AList.delete k (cx_active ctx))"
    by (auto simp: evict_lru_if_full_def select_lru_in_def split: option.split prod.split)
  have inactive: "\<not> is_active name ctx" using assms by (auto simp: enable_named_def split: if_splits)
  moreover have "cx_active ctx' = cx_active ctx \<or> cx_active ctx' = cx_active ?ev"
    using assms by (auto simp: enable_named_def activate_resolved_def Let_def split: if_splits sum.splits prod.splits option.splits)
  ultimately show ?thesis using ev by (auto simp: is_active_iff set_delete)
qed

theorem failed_enable_inactive_witness: "\<not> is_active ''docker'' (snd (enable_named demo_env ''docker'' demo_ctx))"
proof -
  have "enable_named demo_env ''docker'' demo_ctx = (Inl (CapNotFound ''docker'' ''unknown''), demo_ctx)"
    by (simp add: enable_named_def is_active_def demo_active demo_env_def)
  from failed_enable_inactive [OF this] this show ?thesis by simp
qed

text \<open>
  C40. Capabilities leave the tools of the role alone: over every sequence of commands of the tool, inline activations,
  activations from the environment and tool calls, evictions included, a tool of the role stays routed to the role's own
  server, and that server is not shut down, as long as no other server brings a tool of the same name. If one does, its
  registration takes the entry over and the shutdown of that server leaves it there: \<open>role_tool_left_with_stranger\<close>.
\<close>

theorem role_tools_stay:
  assumes "(cap_move (no_stranger s t))\<^sup>*\<^sup>* ctx ctx'" and "serves s t (cx_world ctx)"
  shows "serves s t (cx_world ctx') \<and>
    (sc_name s \<noteq> LOCAL_SERVER_NAME \<longrightarrow> get_server_for_tool is_local (mw_tools (cx_world ctx')) t = Some s)"
proof -
  have "serves s t (cx_world ctx')" using assms by (induction rule: rtranclp_induct) (auto intro: serves_move)
  then show ?thesis by (auto simp: serves_def get_server_for_tool_def ready_table_def split: option.splits)
qed

lemma demo_no_stranger: "no_stranger demo_role_server ''shell'' demo_env"
  by (auto simp: no_stranger_def demo_defs find_server_def filter_for_server_def)

theorem role_tools_stay_witness:
  "get_server_for_tool (\<lambda>_. False) (mw_tools (cx_world (snd (handle_disable demo_env (demo_call ''disable'') demo_ctx)))) ''shell''
     = Some demo_role_server"
proof -
  have "(cap_move (no_stranger demo_role_server ''shell''))\<^sup>*\<^sup>* demo_start
      (snd (handle_disable demo_env (demo_call ''disable'') demo_ctx))"
    unfolding demo_ctx_def
    by (rule rtranclp.rtrancl_into_rtrancl, rule r_into_rtranclp) (rule cap_move.intros demo_no_stranger)+
  from role_tools_stay[OF this, of "\<lambda>_. False"] show ?thesis
    by (simp add: serves_def demo_start_def demo_role_server_def LOCAL_SERVER_NAME_def no_servers_def servers_of_def)
qed

section \<open>What the rules do not cover\<close>

text \<open>
  A server that the user removes takes the deactivation of its capability with it: the tool fails, the capability stays in
  the table, and activating it again is answered with \<open>already active\<close>.
\<close>

lemma removed_server_blocks_disable:
  fixes ctx :: cap_ctx and srv :: string
  defines "gone \<equiv> ctx\<lparr>cx_world := snd (remove_server srv (cx_world ctx))\<rparr>"
  assumes "mw_session (cx_world ctx)" and "map_of (cx_active ctx) name = Some st"
    and "cs_server_tools st = (srv, tools) # rest" and "find_server srv (ce_config env) = None"
    and "server_refcount (AList.delete name (cx_active ctx)) srv name = 0"
  shows "fst (disable_named env name gone) = Inl (CapDisable name srv (ServerNotFound srv))"
    and "is_active name (snd (disable_named env name gone))"
    and "fst (enable_named env name (snd (disable_named env name gone))) = Inr (''Capability '' @ quoted name @ '' is already active.'')"
proof -
  have w: "mw_session (cx_world gone)" "map_of (ds_enabled (mw_servers (cx_world gone))) srv = None"
    using assms(2) by (auto simp: gone_def remove_server_def forget_server_def set_servers_def servers_of_def Let_def
        clear_function_cache_for_server_def strip_tools_def delete_conv')
  have plan: "disable_plan_of (ce_config env) (AList.delete name (cx_active gone)) name (cs_server_tools st)
      = (srv, tools, True) # disable_plan_of (ce_config env) (AList.delete name (cx_active gone)) name rest"
    using assms(4-6) by (simp add: disable_plan_of_def gone_def)
  have st: "map_of (cx_active gone) name = Some st" using assms(3) by (simp add: gone_def)
  have fail: "disable_server_tools (ce_config env) srv tools True (cx_world gone) = Inl (ServerNotFound srv)"
    using w assms(5) by (simp add: disable_server_tools_def disable_dynamic_server_for_session_def)
  have d: "disable_named env name gone = (Inl (CapDisable name srv (ServerNotFound srv)),
      gone\<lparr>cx_overlay := clear_capability_extras name (cx_overlay gone),
           cx_active := AList.update name st (AList.delete name (cx_active gone))\<rparr>)"
    using st by (simp add: disable_named_def Let_def plan fail)
  show "fst (disable_named env name gone) = Inl (CapDisable name srv (ServerNotFound srv))" by (simp add: d)
  show active: "is_active name (snd (disable_named env name gone))" by (simp add: d is_active_def update_conv')
  then show "fst (enable_named env name (snd (disable_named env name gone))) = Inr (''Capability '' @ quoted name @ '' is already active.'')"
    by (simp add: enable_named_def)
qed

text \<open>
  A tool of the role that a server added later also has is routed to that server for good: the registration overwrites its
  entry, and the guard that keeps the tools of the role leaves the overwritten entry in place.
\<close>

lemma role_tool_left_with_stranger:
  assumes "t \<in> tm_static tm" and "t \<in> set ts"
  shows "map_of (ready_table (unregister_dynamic_server_tools ts (register_dynamic_server_tools s ts (Some tm)))) t
         = (if tm_initialized tm then Some s else None)"
  using assms
  by (simp add: ready_table_def unregister_dynamic_server_tools_def register_dynamic_server_tools_def map_of_register map_of_unregister)

text \<open>An agent's tool is unregistered without the guard, even when the role has an agent of that name.\<close>

lemma role_agent_evicted:
  "map_of (ready_table (unregister_dynamic_agent_tool name (register_dynamic_agent_tool name (Some tm)))) (agent_tool name) = None"
  by (simp add: ready_table_def unregister_dynamic_agent_tool_def register_dynamic_agent_tool_def delete_conv')

text \<open>Rebuilt while a server is enabled, the table takes that server's tools for the role's.\<close>

lemma dynamic_tools_become_static:
  assumes "(s, Some fs) \<in> set (ms_dynamic ms)" and "f \<in> set fs"
  shows "fn_name f \<in> tm_static (initialize_tool_map hash ms servers None)"
proof -
  have "first_offer (fn_name f) (dynamic_tools ms) \<noteq> None"
    using assms unfolding first_offer_def dynamic_tools_def by (auto simp: find_None_iff intro!: bexI [of _ "(s, Some fs)"])
  then have "map_of (build_tool_server_map ms servers) (fn_name f) \<noteq> None"
    by (auto simp: build_tool_server_map_def map_of_offer_all first_offer_append split: option.splits)
  then show ?thesis
    by (auto simp: initialize_tool_map_def default_tool_map_def Let_def dest: map_of_SomeD intro: rev_image_eqI)
qed

text \<open>Of two capabilities on one server only one is bumped by a call.\<close>

lemma touch_bumps_one:
  "uses_server srv st \<Longrightarrow> touch_first now srv ((n, st) # reg) = (n, st\<lparr>cs_last_used := now\<rparr>) # reg"
  by simp

text \<open>A pattern for a server of the role is entered in the routing table as if it were the name of a tool.\<close>

lemma pattern_filter: "filter_for_server [''octofs:*''] ''octofs'' = Some [''*'']"
  by code_simp

lemma pattern_registered_as_tool:
  "mw_tools w = Some tm \<Longrightarrow> map_of (tm_servers (the (mw_tools (extend_static s [''*''] w)))) ''*'' = Some s"
  by (simp add: extend_static_def clear_function_cache_for_server_def register_dynamic_server_tools_def update_conv')

end
