(* ===== verification/Spec2Isabelle.thy ===== *)
theory Spec2Isabelle
  imports WfCorrect PlanCorrect CompactCorrect ScheduleCorrect PlannerCorrect ToolCorrect BatchCorrect GuardCorrect SynthesisCorrect ReciteCorrect RepairCorrect CondenseCorrect CapCorrect
begin

text \<open>
  A verification library for octomind, a command-line agent runtime written in Rust. A session
  holds a conversation with a model; around it the program keeps the state that makes the
  conversation reliable: a plan of tasks, a schedule of future messages, an inbox of injected
  messages, cache markers, and a compaction that folds old messages into a summary. A supervisor
  watches the tool calls, steers a model that repeats itself and lets a claim of completion pass
  only after a check. Workflows run several sessions as steps of a graph. What these parts decide
  by themselves, without asking the model, is what this library models; where the supervisor does
  ask a model, the answer is an argument and the judgement drawn from it is the code's. All names below are under \<open>src/\<close>.

  Conventions. A Rust struct is a record with the source's fields, an enum a datatype with its
  constructors, a fallible function returns a value of a sum type whose left part is the error,
  and a panic is an error or \<open>None\<close>. Strings are the bytes of their UTF-8 encoding
  (theory \<open>RustStr\<close>). Integers that can wrap are words. Clocks, random ids, the calendar, regular
  expressions, subprocesses, \<open>f64\<close> arithmetic and the file system are arguments of the definitions.
  Registries of sessions behind a mutex are the state of one session, except the inbox, whose
  isolation between sessions is stated.

  Theories.
  \<^item> \<open>Prelude\<close>, \<open>RustStr\<close>: fallible computations, lists, saturating words; the string functions
    of the standard library that the program uses. \<open>Json\<close>: the values of tool parameters.
  \<^item> Workflows (\<open>workflow/\<close>). \<open>WfSchema\<close>: the file schema (\<open>schema.rs\<close>). \<open>WfVars\<close>: the references
    \<open>{{name}}\<close> of a prompt. \<open>WfValidate\<close>, \<open>WfGraph\<close>: \<open>validate.rs\<close>, with the correctness of its
    breadth-first search. \<open>WfExec\<close>, \<open>WfBlocks\<close>: the executor of \<open>run.rs\<close>, steps with retries,
    continued sessions and a budget, then parallel, loop and conditional blocks and the two
    drivers. \<open>WfSound\<close>: the errors each operation can end in. \<open>WfDrivers\<close>: an accepted workflow never
    misses an output; the locale \<open>node_invariant\<close> (what every node keeps, every run keeps) and the
    step relation \<open>graph_step\<close>. \<open>WfCost\<close>: token accounting and the budget, interpretations of that
    locale. \<open>WfCorrect\<close>: the properties.
  \<^item> Plan (\<open>mcp/core/plan/\<close>). \<open>PlanStore\<close>: \<open>storage.rs\<close>, \<open>memory_storage.rs\<close> and the locale
    \<open>plan_storage\<close> that the completion loop runs over. \<open>PlanLog\<close>: the plan's lines in the session log, JSON text
    (\<open>session/logger.rs\<close>, the serialization derived in \<open>storage.rs\<close>, the reading of a line in \<open>core.rs\<close>); printer and parser
    of JSON text and dates are arguments of which \<open>codec_ok\<close> is assumed, \<open>DemoCodec\<close> is one that satisfies it.
    \<open>PlanSidecar\<close>: the transitions, the restoration and the views of \<open>core.rs\<close>. \<open>PlanCorrect\<close>: the properties, over all
    sequences of transitions.
  \<^item> Conversation (\<open>session/\<close>). \<open>Messages\<close>: which user messages are genuine requests (\<open>mod.rs\<close>).
    \<open>Cache\<close>: cache markers (\<open>cache.rs\<close>). \<open>Compaction\<close>: the range to fold, the removal, the summary
    and the continuation wrapper (\<open>chat/conversation_compression/\<close>, \<open>chat/session/core.rs\<close>).
    \<open>CompactCorrect\<close>: the properties.
  \<^item> Inbox and schedule. \<open>Inbox\<close>: \<open>session/inbox.rs\<close> and the locale \<open>fifo\<close>. \<open>ScheduleStore\<close>: the
    queue of \<open>mcp/orchestration/schedule/storage.rs\<close> and the locale \<open>due_queue\<close>, interpreted for due and
    for idle entries. \<open>ScheduleTime\<close>: its time grammar. \<open>ScheduleTool\<close>: the tool and the firing loops of
    \<open>core.rs\<close>. \<open>ScheduleSound\<close>, \<open>ScheduleCorrect\<close>: the properties, over all sequences of
    operations.
  \<^item> Supervisor (\<open>supervisor/\<close>). \<open>Detect\<close>: the model's self report and the detectors of \<open>detect.rs\<close>;
    \<open>DetectCorrect\<close> reads their state as a function of the history of rounds. \<open>Resolve\<close>: what the turn
    asks for and which verification policy holds (\<open>resolve.rs\<close>, \<open>mod.rs\<close>); \<open>ResolveCorrect\<close>: an accepted
    resolution quotes its sources. \<open>Evidence\<close>: the ledger of executed calls and the ground truth of
    \<open>gate.rs\<close>; \<open>LedgerCorrect\<close> relates it to the calls made. \<open>Gate\<close>: the verifier's reports, the verdict,
    the readback round and the refutation of \<open>gate.rs\<close>; \<open>GateCorrect\<close>: what a pass and a gap rest on.
    \<open>Round\<close>: what one round of tool calls does to detectors, ledger and steering
    (\<open>session/chat/response.rs\<close>, \<open>delegate.rs\<close>). \<open>Completion\<close>: the checks at the end of a turn
    (\<open>session/chat/session/api_executor.rs\<close>) and the admission of a new one (\<open>messages.rs\<close>);
    \<open>CompletionCorrect\<close>: the checks run a turn
    again a bounded number of times, a claim is verified or labelled as failed. \<open>Planner\<close>: the plan manager of \<open>supervisor/plan.rs\<close>, the
    admission of its signals (\<open>session/chat/response.rs\<close>, \<open>api_executor.rs\<close>) and a turn that ends with the plan
    in hand, finished by a verified claim or, with the gate switched off, by the self report; \<open>PlannerCorrect\<close>: what may change the plan, how often the planner is asked, the plan's
    invariant over whole sessions.
  \<^item> Tool results. \<open>Truncation\<close>: the token-bounded cut of \<open>utils/truncation.rs\<close>. \<open>ToolResults\<close>: repeated
    results (\<open>session/dedup.rs\<close>), the counting of failures (\<open>session/chat/tool_error_tracker.rs\<close>) and the
    settlement of a batch (\<open>session/chat/response/tool_execution.rs\<close>). \<open>ToolCorrect\<close>: a result is replaced only if the
    model has it, and what the supervisor makes of a repeat. \<open>Dispatch\<close>: a call routed to the server that has the tool, and
    its cancellation (\<open>mcp/mod.rs\<close>). \<open>ToolBatch\<close>: a round of calls from the guards to the condenser, cancelled or not, and the
    call that runs inline (\<open>tool_execution.rs\<close>). \<open>BatchCorrect\<close>: each call gets one result under its identifier, or
    the round was cancelled and has none.
    \<open>CondenseText\<close>, \<open>Condense\<close>: a long result shown in part to a model, the lines it selects and the
    threshold that adapts to its verdicts (\<open>supervisor/condense.rs\<close>); \<open>CondenseCorrect\<close>: what is left is lines of
    the result and the lengths of the gaps, and a selection keeps to what was shown.
  \<^item> Guardrails (\<open>config/guardrails.rs\<close>, \<open>session/guardrails.rs\<close>, \<open>hooks.rs\<close>, \<open>pipe.rs\<close>). \<open>GuardConfig\<close>: the
    rule tables, their compilation and the evaluation of one call. \<open>Guardrails\<close>: the check of a batch
    against the call log, hooks, validators and pipes, and the batch executed under them. \<open>GuardCorrect\<close>: a
    denied call never runs, what decides a call, which calls a validator sees.
  \<^item> Generated behaviour (\<open>supervisor/learning/evolution/\<close>). \<open>Evolution\<close>: the registry of generated skills and
    rules and their life from shadow over trial to active (\<open>registry.rs\<close>, \<open>runtime.rs\<close>, the user's commands).
    \<open>Synthesis\<close>: the admission of a proposal (\<open>synthesize.rs\<close>). \<open>EvolutionCorrect\<close>, \<open>SynthesisCorrect\<close>: nothing
    reaches a trial without the matches and the authority it needs, a failure takes it out again, a
    candidate rests on memories of the session; the locale \<open>record_law\<close> carries an invariant of one
    record to the registry.
  \<^item> Anchor. \<open>Anchor\<close>: the facts that outlive compactions (\<open>session/anchor.rs\<close>). \<open>Recite\<close>: the constraints of a
    request and the note repeated at the end of the context (\<open>supervisor/recite.rs\<close>). \<open>ReciteCorrect\<close>: the
    anchor only grows, a superseded goal is silent, recited constraints are the user's words.
  \<^item> Evidence of a fold (\<open>session/chat/conversation_compression/\<close>). \<open>Tokens\<close>: the estimates of
    \<open>session/token_counter.rs\<close>. \<open>Knowledge\<close>: the wrappers of a compressed entry, the sections that are not folded
    again, findings and critical knowledge (\<open>knowledge.rs\<close>). \<open>Packets\<close>, \<open>PactRender\<close>, \<open>PactLanes\<close>, \<open>PactFold\<close>: the
    drained messages cut into packets, what is shown of each, which are kept exactly, summarized or left as references,
    the repair and the validation of the model's summary (\<open>attention/mod.rs\<close>) and its admission (\<open>mod.rs\<close>). \<open>Archive\<close>:
    what was drained, on disk, with its index (\<open>archive.rs\<close>). \<open>SummarySchema\<close>: the summary, its rendering and parsing
    (\<open>schema.rs\<close>, \<open>ai.rs\<close>). \<open>LanesCorrect\<close>, \<open>PactCorrect\<close>: the packets partition the evidence, the
    allocation passes the validation; \<open>FoldCorrect\<close>, \<open>RepairCorrect\<close>: an admitted summary rests on
    evidence, a repaired one is accepted; \<open>ArchiveCorrect\<close>: the archive gives the messages back.
  \<^item> Run-time tools (\<open>mcp/\<close>). \<open>ToolMap\<close>: the table that routes a tool to its server (\<open>tool_map.rs\<close>). \<open>Dynamic\<close>,
    \<open>DynamicTool\<close>: servers and agents added during a session (\<open>runtime/dynamic.rs\<close>, \<open>runtime/dynamic_agents.rs\<close>,
    \<open>session/context.rs\<close>). \<open>Capability\<close>, \<open>CapAuto\<close>: bundles of servers activated on demand, by a score or from the
    environment (\<open>runtime/capability.rs\<close>, \<open>config/runtime_overlay.rs\<close>). \<open>CapCorrect\<close>: over all sequences of operations
    at most four are active and their servers run, a deactivation succeeds, a tool of the role stays with its server
    unless another server brings one of its name.

  How the parts interact. A firing entry goes through the inbox to the session loop, which puts
  it into the conversation as a user message marked as injected; \<open>Messages\<close> keeps it from being
  taken for a request, and \<open>Compaction\<close> relies on that to keep exactly one statement of the
  live request. The supervisor asks \<open>Messages\<close> for the request a turn answers, and the notes it
  injects are marked the same way, so they never become the task it verifies. The planner moves the plan between rounds; an advance gives the completion
  check its free reminders back, so the bound on the checks of a turn counts the advances. A repeated
  result reaches the supervised round as an error. A guard reads the log of the calls allowed so far, earlier calls of
  the same batch included, before any of them has run; a generated guard denies only while the registry of evolution
  has its record on trial or active, and the credit of a turn can take that away. The goal of the anchor is written by a
  compaction and recited only while the request it was resolved from is the live one. A fold shows the model packets of the
  drained messages, takes its summary only if the units rest on them and drains only what the archive
  was seen to give back; the constraints it pins are those the recitation repeats. A capability shares servers with
  others and with the role, so a server is shut down only when none of them uses it. Plan and schedule are both written to the session log after each change and
  restored from it; both restorations are shown to give back the live state.

  Loops and fuel. The graph walk of a workflow is bounded by its \<open>max_transitions\<close>, as in the source.
  The loop that fires due entries takes fuel: the number of firings still possible until the
  last instant the clock shows, which is shown to be enough. Every other loop is a structural or
  measured recursion.

  Not modelled. What asks a model or another process (providers, the planner's model call,
  the selection of the condenser, the summary itself, MCP servers, the vectors of embeddings), what draws on the terminal, what reads and writes files
  beyond the log lines above, and the protocols ACP, websocket and OAuth, which third-party crates
  carry. The concurrency of parallel replicas is an oracle that orders their outcomes in every
  possible way; a replica whose task panics (the error \<open>JoinError\<close> in \<open>workflow/run.rs\<close>) is not modelled. Locks are not modelled,
  each operation is one step. A write to the session's message file that fails ends a turn with an I/O error; \<open>Completion\<close> and
  \<open>Planner\<close> cover the turns whose writes succeed. The validation of an allocation and of a
  repaired summary assumes that the tokenizer loaded and keeps the bound when it cuts one constant text, the note on an omitted
  packet, and that the packets' identifiers differ; the fallback count without a tokenizer is outside these two properties.
\<close>

end
